(* ===== verification/Prelude.thy ===== *)
theory Prelude
  imports Complex_Main "HOL-Library.AList" "HOL-Library.Sublist" "HOL-Library.Multiset"
    "HOL-Library.Monad_Syntax"
begin

text \<open>
  Shared ground of the development: the theorem collections the component
  proofs draw on, and generic lemmas on lists, options and association lists
  that more than one component needs.

  The collections are
    js_eval     evaluation rules of the JavaScript value model,
    build_simps rules that read a field out of a built manifest,
    codec_simps rules that push a form through its build and parse functions,
    step_simps  rules of the step functions of the stateful components.
\<close>

named_theorems js_eval
named_theorems build_simps
named_theorems codec_simps
named_theorems step_simps

subsection \<open>Lists\<close>

text \<open>Prefix and rest of a list at the first element that fails the test.\<close>

definition span :: "('a \<Rightarrow> bool) \<Rightarrow> 'a list \<Rightarrow> 'a list \<times> 'a list" where
  "span P xs = (takeWhile P xs, dropWhile P xs)"

lemma span_all [simp]: "(\<And>x. x \<in> set xs \<Longrightarrow> P x) \<Longrightarrow> span P xs = (xs, [])"
  by (simp add: span_def)

lemma span_append_stop [simp]:
  "(\<And>x. x \<in> set xs \<Longrightarrow> P x) \<Longrightarrow> \<not> P y \<Longrightarrow> span P (xs @ y # ys) = (xs, y # ys)"
  by (simp add: span_def)

text \<open>Keep the first occurrence of every element, in order.\<close>

fun nub :: "'a list \<Rightarrow> 'a list" where
  "nub [] = []"
| "nub (x # xs) = x # filter (\<lambda>y. y \<noteq> x) (nub xs)"

lemma set_nub [simp]: "set (nub xs) = set xs"
  by (induction xs) auto

lemma distinct_nub [simp]: "distinct (nub xs)"
  by (induction xs) auto

lemma nub_distinct: "distinct xs \<Longrightarrow> nub xs = xs"
  by (induction xs) (auto simp: filter_id_conv)

lemma filter_idem [simp]: "filter P (filter P xs) = filter P xs"
  by simp

lemma sum_list_map_filter_split:
  fixes f :: "'a \<Rightarrow> 'b::comm_monoid_add"
  shows "sum_list (map f xs) =
    sum_list (map f (filter P xs)) + sum_list (map f (filter (\<lambda>x. \<not> P x) xs))"
  by (induction xs) (auto simp: ac_simps)

lemma map_option_all_Some:
  "(\<And>x. x \<in> set xs \<Longrightarrow> f x = Some (g x)) \<Longrightarrow> those (map f xs) = Some (map g xs)"
  by (induction xs) auto

lemma those_map_Some:
  "those (map f xs) = Some ys \<longleftrightarrow> list_all2 (\<lambda>x y. f x = Some y) xs ys"
  by (induction xs arbitrary: ys) (auto simp: list_all2_Cons1 split: option.splits)

lemma map_eq_of_list_all2:
  "list_all2 (\<lambda>x y. f x = Some y) xs ys \<Longrightarrow> (\<And>x y. f x = Some y \<Longrightarrow> g x = g y) \<Longrightarrow>
   map g ys = map g xs"
  by (induction rule: list_all2_induct) auto

lemma list_all2_self_fixpoint:
  "list_all2 (\<lambda>x y. f x = Some y) xs ys \<Longrightarrow> (\<And>x y. f x = Some y \<Longrightarrow> f y = Some y) \<Longrightarrow>
   those (map f ys) = Some ys"
  by (induction rule: list_all2_induct) auto

lemma last_append_nonempty: "ys \<noteq> [] \<Longrightarrow> last (xs @ ys) = last ys"
  by simp

subsection \<open>Association lists\<close>

lemma map_of_eq_None_keys: "map_of ps k = None \<longleftrightarrow> k \<notin> set (map fst ps)"
  by (simp add: map_of_eq_None_iff)

text \<open>Lookup in an object built from pieces; it replaces the library's map_add form.\<close>

declare map_of_append [simp del]

definition first_some :: "'a option \<Rightarrow> 'a option \<Rightarrow> 'a option" where
  "first_some a b = (case a of None \<Rightarrow> b | Some v \<Rightarrow> Some v)"

lemma first_some_simps [simp, build_simps]:
  "first_some None b = b" "first_some (Some v) b = Some v" "first_some a None = a"
  by (simp_all add: first_some_def split: option.splits)

lemma map_of_app [build_simps]: "map_of (xs @ ys) k = first_some (map_of xs k) (map_of ys k)"
  by (simp add: first_some_def map_of_append map_add_def split: option.splits)

lemma map_of_map_snd:
  "map_of (map (\<lambda>(k, v). (k, f v)) ps) k = map_option f (map_of ps k)"
  by (induction ps) auto

lemma map_of_map_fst_pair:
  "map_of (map (\<lambda>k. (k, f k)) ks) k = (if k \<in> set ks then Some (f k) else None)"
  by (induction ks) auto

lemma update_absent: "k \<notin> fst ` set ps \<Longrightarrow> AList.update k v ps = ps @ [(k, v)]"
  by (induction ps) auto

lemma keys_update_present:
  "k \<in> fst ` set ps \<Longrightarrow> map fst (AList.update k v ps) = map fst ps"
  by (induction ps) auto

lemma update_same: "map_of ps k = Some v \<Longrightarrow> AList.update k v ps = ps"
  by (induction ps) auto

lemma delete_append: "AList.delete k (xs @ ys) = AList.delete k xs @ AList.delete k ys"
  by (simp add: AList.delete_eq)

lemma fold_update_distinct:
  assumes "distinct (map fst qs)" "fst ` set ps \<inter> fst ` set qs = {}"
  shows "fold (\<lambda>(k, v). AList.update k v) qs ps = ps @ qs"
  using assms
proof (induction qs arbitrary: ps)
  case (Cons q qs)
  obtain k v where q: "q = (k, v)" by force
  have "k \<notin> fst ` set ps" using Cons.prems(2) q by auto
  then have "AList.update k v ps = ps @ [(k, v)]" by (rule update_absent)
  moreover have "fst ` set (ps @ [(k, v)]) \<inter> fst ` set qs = {}"
    using Cons.prems q by auto
  ultimately show ?case using Cons q by simp
qed simp

lemma fold_update_from_empty:
  "distinct (map fst qs) \<Longrightarrow> fold (\<lambda>(k, v). AList.update k v) qs [] = qs"
  by (simp add: fold_update_distinct)

subsection \<open>Options\<close>

lemma bind_eq_Some_iff:
  "Option.bind x f = Some y \<longleftrightarrow> (\<exists>z. x = Some z \<and> f z = Some y)"
  by (cases x) auto

text \<open>The maximum a loop accumulates.\<close>

lemma foldl_max_ge: "m \<le> foldl max m ds \<and> (\<forall>d \<in> set ds. d \<le> foldl max m ds)" for m :: "'a::linorder"
  by (induction ds arbitrary: m) (auto intro: order_trans[OF max.cobounded1] order_trans[OF max.cobounded2])

text \<open>A buffer that keeps its last n elements.\<close>

definition keep_last :: "nat \<Rightarrow> 'a list \<Rightarrow> 'a list" where
  "keep_last n xs = drop (length xs - n) xs"

lemma keep_last_short: "length xs \<le> n \<Longrightarrow> keep_last n xs = xs"
  by (simp add: keep_last_def)

lemma keep_last_length: "length (keep_last n xs) \<le> n"
  by (simp add: keep_last_def)

lemma keep_last_keep [simp]: "keep_last n (keep_last n xs @ ys) = keep_last n (xs @ ys)"
proof (cases "length xs \<le> n")
  case False
  then have "keep_last n xs @ ys = drop (length xs - n) (xs @ ys)" by (simp add: keep_last_def)
  then show ?thesis using False by (simp add: keep_last_def add.commute)
qed (simp add: keep_last_short)

lemma keep_last_app_cong:
  "keep_last n xs = keep_last n ys \<Longrightarrow> keep_last n (xs @ zs) = keep_last n (ys @ zs)"
  using keep_last_keep[of n xs zs] keep_last_keep[of n ys zs] by simp

lemma keep_last_Nil: "keep_last n xs = [] \<longleftrightarrow> xs = [] \<or> n = 0"
proof -
  have "length xs \<le> length xs - n \<longleftrightarrow> length xs = 0 \<or> n = 0" by arith
  then show ?thesis by (simp add: keep_last_def)
qed

end
