(* ===== verification/JsValue.thy ===== *)
theory JsValue
  imports Prelude
begin

text \<open>
  The JavaScript values the web console manipulates: what JSON.parse, yaml.load
  and the request helper return and what JSON.stringify and yaml.dump receive.

  undefined is None and a property that is absent, so a value position that
  may be undefined has type json option; an object is an association list in
  insertion order; a number is the exact rational it denotes (rounding to
  IEEE doubles, NaN and the infinities are outside the value type: an operation
  that can produce them returns an option).
\<close>

datatype json =
    JNull
  | JBool bool
  | JNum rat
  | JStr string
  | JArr "json list"
  | JObj "(string \<times> json) list"

type_synonym jval = "json option"
type_synonym obj = "(string \<times> json) list"

subsection \<open>Truthiness, typeof and nullish tests\<close>

fun truthy_json :: "json \<Rightarrow> bool" where
  "truthy_json JNull = False"
| "truthy_json (JBool b) = b"
| "truthy_json (JNum x) = (x \<noteq> 0)"
| "truthy_json (JStr s) = (s \<noteq> [])"
| "truthy_json (JArr _) = True"
| "truthy_json (JObj _) = True"

fun truthy :: "jval \<Rightarrow> bool" where
  "truthy None = False"
| "truthy (Some v) = truthy_json v"

lemma truthy_the [simp]: "truthy v \<Longrightarrow> Some (the v) = v"
  by (cases v) auto

fun nullish :: "jval \<Rightarrow> bool" where
  "nullish None = True"
| "nullish (Some v) = (v = JNull)"

text \<open>The operators a ?? b and a || b.\<close>

definition coalesce :: "jval \<Rightarrow> jval \<Rightarrow> jval" where
  "coalesce a b = (if nullish a then b else a)"

definition orElse :: "jval \<Rightarrow> jval \<Rightarrow> jval" where
  "orElse a b = (if truthy a then a else b)"

fun as_num :: "jval \<Rightarrow> rat option" where
  "as_num (Some (JNum x)) = Some x"
| "as_num _ = None"

fun as_bool :: "jval \<Rightarrow> bool option" where
  "as_bool (Some (JBool b)) = Some b"
| "as_bool _ = None"

fun as_str :: "jval \<Rightarrow> string option" where
  "as_str (Some (JStr s)) = Some s"
| "as_str _ = None"

fun is_array :: "jval \<Rightarrow> bool" where
  "is_array (Some (JArr _)) = True"
| "is_array _ = False"

fun as_array :: "jval \<Rightarrow> json list option" where
  "as_array (Some (JArr xs)) = Some xs"
| "as_array _ = None"

text \<open>typeof v === 'object' holds of null, arrays and objects.\<close>

fun typeof_object :: "jval \<Rightarrow> bool" where
  "typeof_object (Some JNull) = True"
| "typeof_object (Some (JArr _)) = True"
| "typeof_object (Some (JObj _)) = True"
| "typeof_object _ = False"

subsection \<open>Property access\<close>

text \<open>jget k v is v.k on a value that is neither undefined nor null; oget is v?.k
  and jprop is v.k with the TypeError of a nullish v as None.\<close>

fun jget :: "string \<Rightarrow> json \<Rightarrow> jval" where
  "jget k (JObj ps) = map_of ps k"
| "jget k _ = None"

fun oget :: "string \<Rightarrow> jval \<Rightarrow> jval" where
  "oget k None = None"
| "oget k (Some v) = jget k v"

definition jprop :: "string \<Rightarrow> jval \<Rightarrow> jval option" where
  "jprop k v = (if nullish v then None else Some (oget k v))"

fun opath :: "string list \<Rightarrow> jval \<Rightarrow> jval" where
  "opath [] v = v"
| "opath (k # ks) v = opath ks (oget k v)"

text \<open>v?.[0]\<close>

fun jindex0 :: "jval \<Rightarrow> jval" where
  "jindex0 (Some (JArr (x # _))) = Some x"
| "jindex0 (Some (JStr (c # _))) = Some (JStr [c])"
| "jindex0 (Some (JObj ps)) = map_of ps ''0''"
| "jindex0 _ = None"

text \<open>Object.entries of a value; a primitive has none (a string's indexed
  characters are the one exception and are listed).\<close>

definition decimal_digit :: "nat \<Rightarrow> char" where
  "decimal_digit n = char_of (48 + n)"

fun show_nat :: "nat \<Rightarrow> string" where
  "show_nat n = (if n < 10 then [decimal_digit n]
                 else show_nat (n div 10) @ [decimal_digit (n mod 10)])"

declare show_nat.simps [simp del]

fun jentries :: "json \<Rightarrow> obj" where
  "jentries (JObj ps) = ps"
| "jentries (JArr xs) = zip (map show_nat [0..<length xs]) xs"
| "jentries (JStr s) = zip (map show_nat [0..<length s]) (map (\<lambda>c. JStr [c]) s)"
| "jentries _ = []"

subsection \<open>Building objects\<close>

text \<open>One optional property of an object literal or of a freshly built object.\<close>

definition prop_if :: "bool \<Rightarrow> string \<Rightarrow> json \<Rightarrow> obj" where
  "prop_if c k v = (if c then [(k, v)] else [])"

definition prop_opt :: "string \<Rightarrow> jval \<Rightarrow> obj" where
  "prop_opt k v = (case v of None \<Rightarrow> [] | Some x \<Rightarrow> [(k, x)])"

lemma map_of_prop_if [simp, build_simps]:
  "map_of (prop_if c k v) k' = (if c \<and> k' = k then Some v else None)"
  by (simp add: prop_if_def)

lemma map_of_prop_opt [simp, build_simps]:
  "map_of (prop_opt k v) k' = (if k' = k then v else None)"
  by (simp add: prop_opt_def split: option.splits)

lemma prop_if_simps [simp]:
  "prop_if True k v = [(k, v)]" "prop_if False k v = []"
  by (simp_all add: prop_if_def)

lemma prop_opt_simps [simp]:
  "prop_opt k None = []" "prop_opt k (Some v) = [(k, v)]"
  by (simp_all add: prop_opt_def)

lemma keys_prop_if: "x \<in> set (prop_if c k v) \<Longrightarrow> fst x = k"
  by (simp add: prop_if_def split: if_splits)

lemma prop_if_eq_Nil [simp]: "prop_if c k v = [] \<longleftrightarrow> \<not> c"
  by (simp add: prop_if_def)

lemma prop_opt_eq_Nil [simp]: "prop_opt k v = [] \<longleftrightarrow> v = None"
  by (simp add: prop_opt_def split: option.splits)

text \<open>The guards the manifest builders use: a non-empty string, a number that
  passes a test, a record with at least one key, a non-empty list.\<close>

definition jstrs :: "string list \<Rightarrow> json" where
  "jstrs xs = JArr (map JStr xs)"

definition jsmap :: "(string \<times> string) list \<Rightarrow> json" where
  "jsmap m = JObj (map (\<lambda>(k, v). (k, JStr v)) m)"

definition prop_str :: "string \<Rightarrow> string option \<Rightarrow> obj" where
  "prop_str k s = (case s of None \<Rightarrow> [] | Some x \<Rightarrow> prop_if (x \<noteq> []) k (JStr x))"

definition prop_num :: "string \<Rightarrow> (rat \<Rightarrow> bool) \<Rightarrow> rat option \<Rightarrow> obj" where
  "prop_num k P n = (case n of None \<Rightarrow> [] | Some x \<Rightarrow> prop_if (P x) k (JNum x))"

definition prop_smap :: "string \<Rightarrow> (string \<times> string) list option \<Rightarrow> obj" where
  "prop_smap k m = (case m of None \<Rightarrow> [] | Some x \<Rightarrow> prop_if (x \<noteq> []) k (jsmap x))"

definition prop_strs :: "string \<Rightarrow> string list option \<Rightarrow> obj" where
  "prop_strs k m = (case m of None \<Rightarrow> [] | Some x \<Rightarrow> prop_if (x \<noteq> []) k (jstrs x))"

definition prop_truthy :: "string \<Rightarrow> jval \<Rightarrow> obj" where
  "prop_truthy k v = (if truthy v then prop_opt k v else [])"

lemma map_of_prop_truthy [simp, build_simps]:
  "map_of (prop_truthy k v) k' = (if k' = k \<and> truthy v then v else None)"
  by (simp add: prop_truthy_def)

lemma map_of_prop_str [simp, build_simps]:
  "map_of (prop_str k s) k' =
    (if k' = k then (case s of Some x \<Rightarrow> if x \<noteq> [] then Some (JStr x) else None | None \<Rightarrow> None) else None)"
  by (simp add: prop_str_def split: option.splits)

lemma map_of_prop_num [simp, build_simps]:
  "map_of (prop_num k P n) k' =
    (if k' = k then (case n of Some x \<Rightarrow> if P x then Some (JNum x) else None | None \<Rightarrow> None) else None)"
  by (simp add: prop_num_def split: option.splits)

lemma map_of_prop_smap [simp, build_simps]:
  "map_of (prop_smap k m) k' =
    (if k' = k then (case m of Some x \<Rightarrow> if x \<noteq> [] then Some (jsmap x) else None | None \<Rightarrow> None) else None)"
  by (simp add: prop_smap_def split: option.splits)

lemma map_of_prop_strs [simp, build_simps]:
  "map_of (prop_strs k m) k' =
    (if k' = k then (case m of Some x \<Rightarrow> if x \<noteq> [] then Some (jstrs x) else None | None \<Rightarrow> None) else None)"
  by (simp add: prop_strs_def split: option.splits)

lemma prop_str_simps [simp]:
  "prop_str k None = []" "prop_str k (Some []) = []"
  "x \<noteq> [] \<Longrightarrow> prop_str k (Some x) = [(k, JStr x)]"
  by (simp_all add: prop_str_def)

lemma prop_num_simps [simp]:
  "prop_num k P None = []" "P x \<Longrightarrow> prop_num k P (Some x) = [(k, JNum x)]"
  "\<not> P x \<Longrightarrow> prop_num k P (Some x) = []"
  by (simp_all add: prop_num_def)

lemma prop_smap_simps [simp]:
  "prop_smap k None = []" "prop_smap k (Some []) = []"
  "x \<noteq> [] \<Longrightarrow> prop_smap k (Some x) = [(k, jsmap x)]"
  by (simp_all add: prop_smap_def)

lemma prop_strs_simps [simp]:
  "prop_strs k None = []" "prop_strs k (Some []) = []"
  "x \<noteq> [] \<Longrightarrow> prop_strs k (Some x) = [(k, jstrs x)]"
  by (simp_all add: prop_strs_def)

lemma coalesce_simps [simp]:
  "coalesce None b = b" "coalesce (Some JNull) b = b"
  "v \<noteq> JNull \<Longrightarrow> coalesce (Some v) b = Some v"
  by (simp_all add: coalesce_def)

lemma as_num_eq_Some [simp]: "as_num v = Some x \<longleftrightarrow> v = Some (JNum x)"
  by (cases v rule: as_num.cases) auto

lemma as_bool_eq_Some [simp]: "as_bool v = Some x \<longleftrightarrow> v = Some (JBool x)"
  by (cases v rule: as_bool.cases) auto

lemma as_str_eq_Some [simp]: "as_str v = Some x \<longleftrightarrow> v = Some (JStr x)"
  by (cases v rule: as_str.cases) auto

lemma as_array_eq_Some [simp]: "as_array v = Some xs \<longleftrightarrow> v = Some (JArr xs)"
  by (cases v rule: as_array.cases) auto

lemma as_num_map [simp]: "as_num (map_option JNum x) = x"
  by (cases x) auto

lemma as_bool_map [simp]: "as_bool (map_option JBool x) = x"
  by (cases x) auto

lemma as_str_map [simp]: "as_str (map_option JStr x) = x"
  by (cases x) auto

text \<open>m[k] = v on an object, and m.spec[k] = v on a manifest.\<close>

fun jput :: "string \<Rightarrow> json \<Rightarrow> json \<Rightarrow> json" where
  "jput k v (JObj ps) = JObj (AList.update k v ps)"
| "jput k v j = j"

definition set_spec :: "string \<Rightarrow> json \<Rightarrow> json \<Rightarrow> json" where
  "set_spec k v m =
    (case jget ''spec'' m of None \<Rightarrow> m | Some s \<Rightarrow> jput ''spec'' (jput k v s) m)"

text \<open>if (v) m.spec[k] = v\<close>

definition set_spec_if :: "string \<Rightarrow> jval \<Rightarrow> json \<Rightarrow> json" where
  "set_spec_if k v m = (if truthy v then set_spec k (the v) m else m)"

lemma jget_jput [simp]:
  "jget k (jput k' v (JObj ps)) = (if k = k' then Some v else map_of ps k)"
  by (simp add: update_conv')

lemma set_spec_obj [simp]:
  "map_of ps ''spec'' = Some (JObj sp) \<Longrightarrow>
   set_spec k v (JObj ps) = JObj (AList.update ''spec'' (JObj (AList.update k v sp)) ps)"
  by (simp add: set_spec_def)

lemma opath_spec_set [build_simps]:
  assumes "map_of ps ''spec'' = Some (JObj sp)"
  shows "opath [''spec'', k'] (Some (set_spec k v (JObj ps))) =
    (if k' = k then Some v else map_of sp k')"
  using assms by (simp add: update_conv')

text \<open>A manifest with a spec object, and its fields under such updates.\<close>

definition has_spec :: "json \<Rightarrow> bool" where
  "has_spec m \<longleftrightarrow> (case m of JObj ps \<Rightarrow> (case map_of ps ''spec'' of Some (JObj _) \<Rightarrow> True | _ \<Rightarrow> False) | _ \<Rightarrow> False)"

lemma has_specE:
  assumes "has_spec m"
  obtains ps sp where "m = JObj ps" "map_of ps ''spec'' = Some (JObj sp)"
proof (cases m)
  case (JObj ps)
  with assms obtain s where s: "map_of ps ''spec'' = Some s"
    by (cases "map_of ps ''spec''") (auto simp: has_spec_def)
  with assms JObj show ?thesis using that by (cases s) (auto simp: has_spec_def)
qed (use assms in \<open>auto simp: has_spec_def\<close>)

lemma has_spec_set_spec_if [simp]: "has_spec m \<Longrightarrow> has_spec (set_spec_if k v m)"
  by (erule has_specE) (simp add: set_spec_if_def has_spec_def update_conv')

lemma spec_set_spec_if [build_simps]:
  "has_spec m \<Longrightarrow> oget k' (jget ''spec'' (set_spec_if k v m)) =
    (if truthy v \<and> k' = k then v else oget k' (jget ''spec'' m))"
  by (erule has_specE) (cases v; simp add: set_spec_if_def update_conv')

subsection \<open>The object interface\<close>

text \<open>What every client relies on when it updates an object by key: the laws of
  JavaScript property assignment and deletion, and the order of keys, which
  Object.keys and the YAML printer show.\<close>

locale js_object =
  fixes get :: "'o \<Rightarrow> 'k \<Rightarrow> 'v option"
    and put :: "'k \<Rightarrow> 'v \<Rightarrow> 'o \<Rightarrow> 'o"
    and del :: "'k \<Rightarrow> 'o \<Rightarrow> 'o"
    and keys :: "'o \<Rightarrow> 'k list"
  assumes get_put: "get (put k v m) k' = (if k' = k then Some v else get m k')"
    and get_del: "get (del k m) k' = (if k' = k then None else get m k')"
    and keys_put: "keys (put k v m) = (if k \<in> set (keys m) then keys m else keys m @ [k])"
    and keys_del: "keys (del k m) = filter (\<lambda>x. x \<noteq> k) (keys m)"
    and keys_get: "k \<in> set (keys m) \<longleftrightarrow> get m k \<noteq> None"
begin

lemma put_other: "k' \<noteq> k \<Longrightarrow> get (put k v m) k' = get m k'"
  by (simp add: get_put)

lemma del_other: "k' \<noteq> k \<Longrightarrow> get (del k m) k' = get m k'"
  by (simp add: get_del)

lemma put_put_get: "get (put k v (put k w m)) = get (put k v m)"
  by (rule ext) (simp add: get_put)

lemma put_commute_get: "j \<noteq> k \<Longrightarrow> get (put j v (put k w m)) = get (put k w (put j v m))"
  by (rule ext) (simp add: get_put)

lemma del_put_get: "get (del k (put k v m)) = get (del k m)"
  by (rule ext) (simp add: get_put get_del)

lemma keys_put_present: "get m k \<noteq> None \<Longrightarrow> keys (put k v m) = keys m"
  by (simp add: keys_put keys_get)

lemma keys_put_absent: "get m k = None \<Longrightarrow> keys (put k v m) = keys m @ [k]"
  by (simp add: keys_put keys_get)

lemma distinct_put: "distinct (keys m) \<Longrightarrow> distinct (keys (put k v m))"
  by (simp add: keys_put)

lemma distinct_del: "distinct (keys m) \<Longrightarrow> distinct (keys (del k m))"
  by (simp add: keys_del)

end

lemma keys_update_cases:
  "map fst (AList.update k v ps) = (if k \<in> set (map fst ps) then map fst ps else map fst ps @ [k])"
  by (induction ps) auto

lemma keys_delete: "map fst (AList.delete k ps) = filter (\<lambda>x. x \<noteq> k) (map fst ps)"
  by (induction ps) (auto simp: AList.delete_eq)

interpretation jobj: js_object map_of AList.update AList.delete "map fst"
proof unfold_locales
  show "map_of (AList.update k v m) k' = (if k' = k then Some v else map_of m k')"
    for k :: 'a and v :: 'b and m k'
    by (simp add: update_conv')
  show "map_of (AList.delete k m) k' = (if k' = k then None else map_of m k')"
    for k :: 'a and m :: "('a \<times> 'b) list" and k'
    by (simp add: delete_conv')
  show "map fst (AList.update k v m) = (if k \<in> set (map fst m) then map fst m else map fst m @ [k])"
    for k :: 'a and v :: 'b and m
    by (rule keys_update_cases)
  show "map fst (AList.delete k m) = filter (\<lambda>x. x \<noteq> k) (map fst m)"
    for k :: 'a and m :: "('a \<times> 'b) list"
    by (rule keys_delete)
  show "k \<in> set (map fst m) \<longleftrightarrow> map_of m k \<noteq> None"
    for k :: 'a and m :: "('a \<times> 'b) list"
    by (simp add: map_of_eq_None_iff)
qed

end
