(* ===== verification/JsString.thy ===== *)
theory JsString
  imports JsValue
begin

text \<open>
  The string operations of the JavaScript library that the console uses:
  trim, split, join, indexOf, startsWith, endsWith, slice, toLowerCase,
  Number(string) and String(number).  A string is the list of its UTF-8 bytes,
  and white space is ASCII white space.
\<close>

subsection \<open>White space, splitting and joining\<close>

definition is_ws :: "char \<Rightarrow> bool" where
  "is_ws c = (c \<in> set [CHR '' '', CHR 0x09, CHR 0x0A, CHR 0x0B, CHR 0x0C, CHR 0x0D])"

definition trim :: "string \<Rightarrow> string" where
  "trim s = rev (dropWhile is_ws (rev (dropWhile is_ws s)))"

definition trim_end :: "string \<Rightarrow> string" where
  "trim_end s = rev (dropWhile is_ws (rev s))"

fun split_on :: "(char \<Rightarrow> bool) \<Rightarrow> string \<Rightarrow> string list" where
  "split_on P [] = [[]]"
| "split_on P (c # cs) =
    (if P c then [] # split_on P cs
     else (case split_on P cs of [] \<Rightarrow> [[c]] | w # ws \<Rightarrow> (c # w) # ws))"

fun join :: "string \<Rightarrow> string list \<Rightarrow> string" where
  "join sep [] = []"
| "join sep [w] = w"
| "join sep (w # v # ws) = w @ sep @ join sep (v # ws)"

text \<open>s.split(/\s+/).filter(Boolean)\<close>

definition words :: "string \<Rightarrow> string list" where
  "words s = filter (\<lambda>w. w \<noteq> []) (split_on is_ws s)"

lemma split_on_nonempty [simp]: "split_on P s \<noteq> []"
  by (induction s) (auto split: list.splits)

lemma split_on_append:
  "(\<And>c. c \<in> set a \<Longrightarrow> \<not> P c) \<Longrightarrow> P d \<Longrightarrow> split_on P (a @ d # b) = a # split_on P b"
  by (induction a) auto

lemma split_on_none: "(\<And>c. c \<in> set a \<Longrightarrow> \<not> P c) \<Longrightarrow> split_on P a = [a]"
  by (induction a) auto

lemma split_on_parts: "w \<in> set (split_on P s) \<Longrightarrow> c \<in> set w \<Longrightarrow> \<not> P c \<and> c \<in> set s"
proof (induction s arbitrary: w)
  case (Cons d s)
  show ?case
  proof (cases "P d")
    case True
    with Cons.prems Cons.IH[of w] show ?thesis by auto
  next
    case False
    obtain v vs where s: "split_on P s = v # vs"
      using split_on_nonempty[of P s] by (cases "split_on P s") auto
    with Cons.prems False have "w = d # v \<or> w \<in> set vs" by auto
    then show ?thesis using Cons.IH[of w] Cons.IH[of v] Cons.prems(2) s False by auto
  qed
qed simp

lemma split_on_join:
  assumes "ws \<noteq> []" "\<And>w c. w \<in> set ws \<Longrightarrow> c \<in> set w \<Longrightarrow> \<not> P c" "P d"
  shows "split_on P (join [d] ws) = ws"
  using assms
proof (induction ws rule: induct_list012)
  case (3 w v ws)
  then have "split_on P (join [d] (v # ws)) = v # ws"
    by (metis list.distinct(1) list.set_intros(2))
  moreover have "split_on P (w @ d # join [d] (v # ws)) = w # split_on P (join [d] (v # ws))"
    using 3 by (intro split_on_append) auto
  ultimately show ?case by simp
qed (auto simp: split_on_none)

lemma join_split_on: "join [d] (split_on (\<lambda>c. c = d) s) = s"
proof (induction s)
  case (Cons c s)
  obtain v vs where s: "split_on (\<lambda>c. c = d) s = v # vs"
    using split_on_nonempty[of "\<lambda>c. c = d" s] by (cases "split_on (\<lambda>c. c = d) s") auto
  then show ?case using Cons by (cases vs) auto
qed simp

lemma join_eq_Nil: "(\<And>w. w \<in> set ws \<Longrightarrow> w \<noteq> []) \<Longrightarrow> join sep ws = [] \<longleftrightarrow> ws = []"
  by (induction ws rule: induct_list012) auto

definition clean_word :: "string \<Rightarrow> bool" where
  "clean_word w \<longleftrightarrow> w \<noteq> [] \<and> list_all (\<lambda>c. \<not> is_ws c) w"

lemma words_clean: "w \<in> set (words s) \<Longrightarrow> clean_word w"
  using split_on_parts[of w is_ws s]
  by (auto simp: words_def clean_word_def list_all_iff)

lemma words_join [codec_simps]:
  assumes "list_all clean_word ws"
  shows "words (join '' '' ws) = ws"
proof (cases "ws = []")
  case True
  then show ?thesis by (simp add: words_def)
next
  case False
  have "is_ws (CHR '' '')" by (simp add: is_ws_def)
  then have "split_on is_ws (join '' '' ws) = ws"
    using split_on_join[of ws is_ws "CHR '' ''"] False assms
    by (auto simp: list_all_iff clean_word_def)
  then show ?thesis using assms
    by (auto simp: words_def list_all_iff clean_word_def intro: filter_True)
qed

lemma words_join_words [codec_simps]: "words (join '' '' (words s)) = words s"
  by (rule words_join) (auto simp: list_all_iff words_clean)

subsection \<open>trim\<close>

lemma dropWhile_hd_keep: "s = [] \<or> \<not> P (hd s) \<Longrightarrow> dropWhile P s = s"
  by (cases s) auto

lemma trim_id: "s = [] \<or> (\<not> is_ws (hd s) \<and> \<not> is_ws (last s)) \<Longrightarrow> trim s = s"
  by (auto simp: trim_def hd_rev dropWhile_hd_keep)

lemma trim_space: "trim (CHR '' '' # s) = trim s"
  by (simp add: trim_def is_ws_def)

lemma trim_ends: "trim s = [] \<or> (\<not> is_ws (hd (trim s)) \<and> \<not> is_ws (last (trim s)))"
proof (cases "trim s = []")
  case False
  define a where "a = dropWhile is_ws s"
  define b where "b = dropWhile is_ws (rev a)"
  have t: "trim s = rev b" by (simp add: trim_def a_def b_def)
  with False have b: "b \<noteq> []" by auto
  have lastok: "\<not> is_ws (hd b)" using b hd_dropWhile[of is_ws "rev a"] by (simp add: b_def)
  obtain xs where xs: "rev a = xs @ b"
    using takeWhile_dropWhile_id[of is_ws "rev a"] b_def by metis
  then have "a = rev b @ rev xs" by (metis rev_append rev_rev_ident)
  moreover from this b have "hd a = hd (rev b)" "a \<noteq> []" by auto
  moreover have "a \<noteq> [] \<Longrightarrow> \<not> is_ws (hd a)" using hd_dropWhile[of is_ws s] by (simp add: a_def)
  ultimately show ?thesis using t b lastok by (simp add: last_rev)
qed simp

lemma trim_trim [simp]: "trim (trim s) = trim s"
  using trim_ends[of s] by (auto intro: trim_id)

lemma trim_Nil [simp]: "trim [] = []"
  by (simp add: trim_def)

lemma trim_eq_Nil: "trim s = [] \<longleftrightarrow> list_all is_ws s"
proof
  assume "trim s = []"
  then have "dropWhile is_ws (rev (dropWhile is_ws s)) = []" by (simp add: trim_def)
  then have "list_all is_ws (dropWhile is_ws s)"
    unfolding dropWhile_eq_Nil_conv by (simp add: list_all_iff)
  then have "dropWhile is_ws s = []"
    using hd_dropWhile[of is_ws s] hd_in_set[of "dropWhile is_ws s"]
    by (auto simp: list_all_iff)
  then show "list_all is_ws s" by (simp add: list_all_iff)
next
  assume "list_all is_ws s"
  then have "dropWhile is_ws s = []" by (simp add: list_all_iff)
  then show "trim s = []" unfolding trim_def by (metis dropWhile.simps(1) rev.simps(1))
qed

lemma split_on_char_kept:
  "c \<in> set s \<Longrightarrow> \<not> P c \<Longrightarrow> \<exists>w\<in>set (split_on P s). w \<noteq> []"
proof (induction s)
  case (Cons d s)
  obtain v vs where s: "split_on P s = v # vs"
    using split_on_nonempty[of P s] by (cases "split_on P s") auto
  with Cons show ?case by (cases "P d") auto
qed simp

lemma words_nonempty: "c \<in> set s \<Longrightarrow> \<not> is_ws c \<Longrightarrow> words s \<noteq> []"
  using split_on_char_kept[of c s is_ws] by (auto simp: words_def filter_empty_conv)

lemma words_all_ws: "list_all is_ws s \<Longrightarrow> words s = []"
proof -
  assume a: "list_all is_ws s"
  have "w = []" if "w \<in> set (split_on is_ws s)" for w
    using split_on_parts[OF that] a by (cases w) (auto simp: list_all_iff)
  then show ?thesis by (simp add: words_def filter_empty_conv)
qed

subsection \<open>Searching and slicing\<close>

fun starts_with :: "string \<Rightarrow> string \<Rightarrow> bool" where
  "starts_with [] s = True"
| "starts_with (p # ps) [] = False"
| "starts_with (p # ps) (c # cs) = (p = c \<and> starts_with ps cs)"

definition ends_with :: "string \<Rightarrow> string \<Rightarrow> bool" where
  "ends_with p s = starts_with (rev p) (rev s)"

definition drop_last :: "nat \<Rightarrow> string \<Rightarrow> string" where
  "drop_last n s = take (length s - n) s"

fun index_of :: "string \<Rightarrow> string \<Rightarrow> nat option" where
  "index_of p [] = (if p = [] then Some 0 else None)"
| "index_of p (c # cs) =
    (if starts_with p (c # cs) then Some 0 else map_option Suc (index_of p cs))"

definition str_includes :: "string \<Rightarrow> string \<Rightarrow> bool" where
  "str_includes p s = (index_of p s \<noteq> None)"

definition lower_char :: "char \<Rightarrow> char" where
  "lower_char c = (let n = of_char c :: nat in
     if 65 \<le> n \<and> n \<le> 90 then char_of (n + 32) else c)"

definition upper_char :: "char \<Rightarrow> char" where
  "upper_char c = (let n = of_char c :: nat in if 97 \<le> n \<and> n \<le> 122 then char_of (n - 32) else c)"

definition to_lower :: "string \<Rightarrow> string" where
  "to_lower s = List.map lower_char s"

lemma starts_with_append [simp]: "starts_with p (p @ s)"
  by (induction p) auto

lemma starts_with_iff: "starts_with p s \<longleftrightarrow> (\<exists>t. s = p @ t)"
  by (induction p s rule: starts_with.induct) auto

lemma ends_with_iff: "ends_with p s \<longleftrightarrow> (\<exists>t. s = t @ p)"
proof -
  have "(\<exists>t. rev s = rev p @ t) \<longleftrightarrow> (\<exists>t. s = t @ p)"
    by (metis rev_append rev_rev_ident)
  then show ?thesis by (simp add: ends_with_def starts_with_iff)
qed

lemma ends_with_append [simp]: "ends_with p (s @ p)"
  by (auto simp: ends_with_iff)

lemma drop_last_append [simp]: "drop_last (length p) (s @ p) = s"
  by (simp add: drop_last_def)

lemma index_of_first:
  "c \<notin> set a \<Longrightarrow> index_of [c] (a @ c # b) = Some (length a)"
  by (induction a) auto

lemma index_of_char_None: "index_of [c] s = None \<longleftrightarrow> c \<notin> set s"
  by (induction s) auto

subsection \<open>Number(s) and String(n)\<close>

definition is_digit :: "char \<Rightarrow> bool" where
  "is_digit c = (let n = of_char c :: nat in 48 \<le> n \<and> n \<le> 57)"

definition digit_val :: "char \<Rightarrow> nat" where
  "digit_val c = of_char c - 48"

definition nat_of_digits :: "string \<Rightarrow> nat" where
  "nat_of_digits ds = foldl (\<lambda>n c. n * 10 + digit_val c) 0 ds"

text \<open>The digit of a base up to 16, for the 0x, 0o and 0b literals.\<close>

definition radix_val :: "char \<Rightarrow> nat option" where
  "radix_val c = (let n = of_char c :: nat in
     if 48 \<le> n \<and> n \<le> 57 then Some (n - 48)
     else if 97 \<le> n \<and> n \<le> 102 then Some (n - 87)
     else if 65 \<le> n \<and> n \<le> 70 then Some (n - 55)
     else None)"

fun radix_digits :: "nat \<Rightarrow> nat \<Rightarrow> string \<Rightarrow> nat option" where
  "radix_digits b acc [] = Some acc"
| "radix_digits b acc (c # cs) =
    (case radix_val c of
       None \<Rightarrow> None
     | Some d \<Rightarrow> if d < b then radix_digits b (acc * b + d) cs else None)"

definition ten_power :: "bool \<Rightarrow> nat \<Rightarrow> rat" where
  "ten_power neg e = (if neg then 1 / 10 ^ e else 10 ^ e)"

definition exponent_part :: "string \<Rightarrow> rat option" where
  "exponent_part s =
    (let (neg, ds) = (case s of c # r \<Rightarrow>
           if c = CHR ''-'' then (True, r) else if c = CHR ''+'' then (False, r) else (False, s)
         | [] \<Rightarrow> (False, []))
     in if ds \<noteq> [] \<and> list_all is_digit ds then Some (ten_power neg (nat_of_digits ds)) else None)"

definition decimal_literal :: "string \<Rightarrow> rat option" where
  "decimal_literal s =
    (let (ip, r1) = span is_digit s;
         (fp, r2) = (case r1 of c # r \<Rightarrow> if c = CHR ''.'' then span is_digit r else ([], r1)
                     | [] \<Rightarrow> ([], []));
         mant = of_nat (nat_of_digits (ip @ fp)) / 10 ^ length fp
     in if ip = [] \<and> fp = [] then None
        else (case r2 of
                [] \<Rightarrow> Some mant
              | c # r \<Rightarrow> if c = CHR ''e'' \<or> c = CHR ''E''
                        then map_option (\<lambda>p. mant * p) (exponent_part r) else None))"

text \<open>A literal whose magnitude rounds to infinity is not finite.\<close>

definition js_finite :: "rat \<Rightarrow> bool" where
  "js_finite x = (\<bar>x\<bar> < 2 ^ 1024 - 2 ^ 970)"

text \<open>Number(s), with NaN and the infinities as None (every caller tests
  Number.isFinite).\<close>

definition js_number :: "string \<Rightarrow> rat option" where
  "js_number s0 =
    (let s = trim s0;
         v = (if s = [] then Some 0
              else if starts_with ''0x'' s \<or> starts_with ''0X'' s then
                (if length s = 2 then None else map_option of_nat (radix_digits 16 0 (drop 2 s)))
              else if starts_with ''0o'' s \<or> starts_with ''0O'' s then
                (if length s = 2 then None else map_option of_nat (radix_digits 8 0 (drop 2 s)))
              else if starts_with ''0b'' s \<or> starts_with ''0B'' s then
                (if length s = 2 then None else map_option of_nat (radix_digits 2 0 (drop 2 s)))
              else if starts_with ''-'' s then map_option uminus (decimal_literal (drop 1 s))
              else if starts_with ''+'' s then decimal_literal (drop 1 s)
              else decimal_literal s)
     in case v of Some x \<Rightarrow> if js_finite x then Some x else None | None \<Rightarrow> None)"

text \<open>Strings are compared by code units.\<close>

definition code_units :: "string \<Rightarrow> nat list" where
  "code_units s = map of_char s"

fun units_le :: "nat list \<Rightarrow> nat list \<Rightarrow> bool" where
  "units_le [] _ = True"
| "units_le (_ # _) [] = False"
| "units_le (a # as) (b # bs) = (a < b \<or> (a = b \<and> units_le as bs))"

text \<open>String(n) of an integer below 1e21.\<close>

definition show_int :: "int \<Rightarrow> string" where
  "show_int i = (if i < 0 then ''-'' @ show_nat (nat (- i)) else show_nat (nat i))"

lemma digit_char:
  assumes "n < 10"
  shows "is_digit (decimal_digit n)" "digit_val (decimal_digit n) = n"
    "\<not> is_ws (decimal_digit n)"
proof -
  have n: "of_char (decimal_digit n) = (48 + n :: nat)"
    using assms by (simp add: decimal_digit_def)
  then show "is_digit (decimal_digit n)" "digit_val (decimal_digit n) = n"
    using assms by (simp_all add: is_digit_def digit_val_def Let_def)
  show "\<not> is_ws (decimal_digit n)"
  proof
    assume "is_ws (decimal_digit n)"
    then have "(of_char (decimal_digit n) :: nat) \<in> {32, 9, 10, 11, 12, 13}"
      by (auto simp: is_ws_def)
    with n show False by auto
  qed
qed

lemma nat_of_digits_snoc: "nat_of_digits (ds @ [c]) = nat_of_digits ds * 10 + digit_val c"
  by (simp add: nat_of_digits_def)

lemma show_nat_digits: "list_all is_digit (show_nat n) \<and> show_nat n \<noteq> [] \<and>
  list_all (\<lambda>c. \<not> is_ws c) (show_nat n)"
proof (induction n rule: show_nat.induct)
  case (1 n)
  then show ?case
    by (subst (1 2 3) show_nat.simps) (auto simp: digit_char)
qed

lemma nat_of_digits_show [simp]: "nat_of_digits (show_nat n) = n"
proof (induction n rule: show_nat.induct)
  case (1 n)
  then show ?case
    by (subst show_nat.simps) (auto simp: nat_of_digits_snoc digit_char nat_of_digits_def)
qed

lemma inj_show_nat: "inj show_nat"
  by (metis inj_on_def nat_of_digits_show)

end
