(* ===== verification/Quantity.thy ===== *)
theory Quantity
  imports JsString
begin

text \<open>
  pages/Compute/Volcano/shared/utils.ts: the Kubernetes Quantity reader that
  every quota bar and usage chart goes through, the abbreviation of GPU UUIDs
  and the usage bands.  Arithmetic is exact; a Number() that is not finite is
  None and reads as 0, as Number.isFinite makes it in the source.
\<close>

definition binPrefixes :: "(string \<times> rat) list" where
  "binPrefixes = [(''Ki'', 1024), (''Mi'', 1024 ^ 2), (''Gi'', 1024 ^ 3),
     (''Ti'', 1024 ^ 4), (''Pi'', 1024 ^ 5), (''Ei'', 1024 ^ 6)]"

definition decPrefixes :: "(string \<times> rat) list" where
  "decPrefixes = [(''k'', 1000), (''K'', 1000), (''M'', 1000 ^ 2), (''G'', 1000 ^ 3),
     (''T'', 1000 ^ 4), (''P'', 1000 ^ 5), (''E'', 1000 ^ 6)]"

text \<open>One of the two prefix loops: the first suffix of the table that the text
  ends with decides, whether or not the rest is a number.\<close>

fun scan_prefixes :: "string \<Rightarrow> (string \<times> rat) list \<Rightarrow> rat option" where
  "scan_prefixes s [] = None"
| "scan_prefixes s ((p, mul) # ps) =
    (if ends_with p s
     then Some (case js_number (drop_last (length p) s) of Some n \<Rightarrow> n * mul | None \<Rightarrow> 0)
     else scan_prefixes s ps)"

definition parseQuantity :: "string option \<Rightarrow> rat" where
  "parseQuantity raw =
    (case raw of
       None \<Rightarrow> 0
     | Some r \<Rightarrow>
       if r = [] then 0 else
       let s = trim r in
       if s = [] then 0
       else if ends_with ''m'' s
         then (case js_number (drop_last 1 s) of Some n \<Rightarrow> n / 1000 | None \<Rightarrow> 0)
       else (case scan_prefixes s binPrefixes of
               Some v \<Rightarrow> v
             | None \<Rightarrow> (case scan_prefixes s decPrefixes of
                          Some v \<Rightarrow> v
                        | None \<Rightarrow> (case js_number s of Some n \<Rightarrow> n | None \<Rightarrow> 0))))"

text \<open>The ellipsis is the three UTF-8 bytes of U+2026.\<close>

definition shortUUID :: "string option \<Rightarrow> string" where
  "shortUUID uuid =
    (case uuid of
       None \<Rightarrow> []
     | Some u \<Rightarrow> if u = [] then []
                 else [CHR 0xE2, CHR 0x80, CHR 0xA6] @ drop (length u - 8) u)"

datatype UsageBand = BandSuccess | BandWarning | BandError

definition usageBand :: "rat option \<Rightarrow> UsageBand" where
  "usageBand ratio =
    (case ratio of
       None \<Rightarrow> BandSuccess
     | Some r \<Rightarrow> if r \<ge> 85 / 100 then BandError
                 else if r \<ge> 6 / 10 then BandWarning
                 else BandSuccess)"

record color_token =
  ct_colorSuccess :: string
  ct_colorWarning :: string
  ct_colorError :: string

definition usageColor :: "rat option \<Rightarrow> color_token \<Rightarrow> string" where
  "usageColor ratio token =
    (let band = usageBand ratio in
     if band = BandError then ct_colorError token
     else if band = BandWarning then ct_colorWarning token
     else ct_colorSuccess token)"

subsection \<open>Reading back decimal digits\<close>

lemma digit_not_sign:
  assumes "is_digit c"
  shows "c \<noteq> CHR ''-''" "c \<noteq> CHR ''+''" "c \<noteq> CHR ''x''" "c \<noteq> CHR ''X''" "c \<noteq> CHR ''o''"
    "c \<noteq> CHR ''O''" "c \<noteq> CHR ''b''" "c \<noteq> CHR ''B''" "c \<noteq> CHR ''.''" "\<not> is_ws c"
  using assms by (auto simp: is_digit_def is_ws_def)

lemma digits_no_ws: "list_all is_digit ds \<Longrightarrow> trim ds = ds"
  by (rule trim_id) (auto simp: list_all_iff digit_not_sign)

lemma digits_not_radix:
  assumes "list_all is_digit ds" "\<not> is_digit p"
  shows "\<not> starts_with [q, p] ds"
proof
  assume "starts_with [q, p] ds"
  then obtain t where "ds = [q, p] @ t" by (auto simp: starts_with_iff)
  with assms show False by simp
qed

lemma js_number_digits:
  assumes "list_all is_digit ds" "ds \<noteq> []" "js_finite (of_nat (nat_of_digits ds))"
  shows "js_number ds = Some (of_nat (nat_of_digits ds))"
proof -
  have sp: "span is_digit ds = (ds, [])"
    using assms(1) by (simp add: list_all_iff)
  obtain d r where d: "ds = d # r" "is_digit d" using assms(1,2) by (cases ds) auto
  have rad: "\<not> starts_with ''0x'' ds" "\<not> starts_with ''0X'' ds" "\<not> starts_with ''0o'' ds"
    "\<not> starts_with ''0O'' ds" "\<not> starts_with ''0b'' ds" "\<not> starts_with ''0B'' ds"
    by (rule digits_not_radix[OF assms(1)], simp add: is_digit_def)+
  have sgn: "\<not> starts_with ''-'' ds" "\<not> starts_with ''+'' ds"
    using d digit_not_sign by auto
  show ?thesis
    using assms rad sgn digits_no_ws[OF assms(1)]
    by (simp add: js_number_def decimal_literal_def sp)
qed

lemma js_number_show_nat:
  "js_finite (of_nat n) \<Longrightarrow> js_number (show_nat n) = Some (of_nat n)"
  using js_number_digits[of "show_nat n"] show_nat_digits[of n] by simp

subsection \<open>Suffixes\<close>

text \<open>The units of the Kubernetes Quantity grammar, as documentation gives them.\<close>

definition quantity_units :: "(string \<times> rat) list" where
  "quantity_units = [('''', 1), (''m'', 1 / 1000)] @ binPrefixes @ decPrefixes"

lemma trim_digits_suffix:
  assumes "list_all is_digit ds" "ds \<noteq> []" "suf = [] \<or> \<not> is_ws (last suf)"
  shows "trim (ds @ suf) = ds @ suf"
proof (rule trim_id)
  have h: "\<not> is_ws (hd (ds @ suf))" using assms(1,2) by (cases ds) (auto simp: digit_not_sign)
  have "\<not> is_ws (last (ds @ suf))"
    using assms by (cases "suf = []") (auto simp: list_all_iff digit_not_sign)
  with h show "ds @ suf = [] \<or> \<not> is_ws (hd (ds @ suf)) \<and> \<not> is_ws (last (ds @ suf))" by simp
qed

lemma digits_not_ends:
  assumes "list_all is_digit ds" "p \<noteq> []" "\<not> is_digit (last p)"
  shows "\<not> ends_with p ds"
proof
  assume "ends_with p ds"
  then obtain t where "ds = t @ p" by (auto simp: ends_with_iff)
  with assms show False by (auto simp: list_all_iff)
qed

lemma scan_prefixes_none:
  "(\<And>p mul. (p, mul) \<in> set ps \<Longrightarrow> \<not> ends_with p s) \<Longrightarrow> scan_prefixes s ps = None"
  by (induction ps) force+

lemma parseQuantity_plain:
  assumes ds: "list_all is_digit ds" "ds \<noteq> []" and n: "js_number ds = Some n"
  shows "parseQuantity (Some ds) = n"
proof -
  have "\<not> ends_with p ds" if "(p, mul) \<in> set (binPrefixes @ decPrefixes @ [(''m'', 1)])" for p and mul :: rat
    using that by (intro digits_not_ends[OF ds(1)]) (auto simp: binPrefixes_def decPrefixes_def is_digit_def)
  then have "\<not> ends_with ''m'' ds" "scan_prefixes ds binPrefixes = None" "scan_prefixes ds decPrefixes = None"
    by (fastforce intro!: scan_prefixes_none)+
  then show ?thesis using ds n by (simp add: parseQuantity_def digits_no_ws Let_def)
qed

lemma ends_with_snoc:
  "ends_with [c] (ds @ [b]) \<longleftrightarrow> b = c"
  "ends_with [a, c] (ds @ [d, b]) \<longleftrightarrow> b = c \<and> d = a"
  "b \<noteq> c \<Longrightarrow> \<not> ends_with [a, c] (ds @ [b])"
  "ends_with [c] (ds @ [d, b]) \<longleftrightarrow> b = c"
  by (auto simp: ends_with_def)

lemma drop_last_snoc [simp]:
  "drop_last (Suc 0) (ds @ [b]) = ds" "drop_last (Suc (Suc 0)) (ds @ [a, b]) = ds"
  by (simp_all add: drop_last_def)

lemma parseQuantity_unit:
  assumes ds: "list_all is_digit ds" "ds \<noteq> []" and n: "js_number ds = Some n"
    and u: "(suf, mul) \<in> set quantity_units"
  shows "parseQuantity (Some (ds @ suf)) = n * mul"
proof (cases "suf = []")
  case True
  with u have "mul = 1"
    by (auto simp: quantity_units_def binPrefixes_def decPrefixes_def)
  with True show ?thesis using parseQuantity_plain[OF ds n] by simp
next
  case False
  have "\<not> is_ws (last suf)"
    using u False by (auto simp: quantity_units_def binPrefixes_def decPrefixes_def is_ws_def)
  then have t: "trim (ds @ suf) = ds @ suf" using trim_digits_suffix[OF ds] by blast
  have v: "parseQuantity (Some (ds @ suf)) =
    (if ends_with ''m'' (ds @ suf)
       then (case js_number (drop_last 1 (ds @ suf)) of Some n \<Rightarrow> n / 1000 | None \<Rightarrow> 0)
     else (case scan_prefixes (ds @ suf) binPrefixes of
             Some v \<Rightarrow> v
           | None \<Rightarrow> (case scan_prefixes (ds @ suf) decPrefixes of
                        Some v \<Rightarrow> v
                      | None \<Rightarrow> (case js_number (ds @ suf) of Some n \<Rightarrow> n | None \<Rightarrow> 0))))"
    using ds t by (simp add: parseQuantity_def Let_def)
  have "(suf, mul) \<in> set ((''m'', 1 / 1000) # binPrefixes @ decPrefixes)"
    using u False by (auto simp: quantity_units_def)
  then consider "suf = ''m'' \<and> mul = 1 / 1000" | "(suf, mul) \<in> set binPrefixes" | "(suf, mul) \<in> set decPrefixes"
    by auto
  then show ?thesis
  proof cases
    case 1
    then have suf: "suf = ''m''" and mul: "mul = 1 / 1000" by auto
    show ?thesis unfolding v unfolding suf mul by (simp add: n ends_with_snoc)
  next
    case 2
    then show ?thesis unfolding binPrefixes_def
      by (simp add: v n) (elim disjE; simp add: ends_with_snoc binPrefixes_def n)
  next
    case 3
    then show ?thesis unfolding decPrefixes_def
      by (simp add: v n) (elim disjE; simp add: ends_with_snoc binPrefixes_def decPrefixes_def n)
  qed
qed

subsection \<open>Properties\<close>

text \<open>A whole number with any unit of the Kubernetes Quantity grammar
  (none, m, Ki to Ei, k to E) is read as that number times the unit, so 12k is
  12000 and not 0; the number has to be a finite JavaScript number.\<close>

theorem parseQuantity_reads_units:
  assumes "(u, mul) \<in> set quantity_units" "js_finite (of_nat n)"
  shows "parseQuantity (Some (show_nat n @ u)) = of_nat n * mul"
  using parseQuantity_unit[of "show_nat n" "of_nat n" u mul] show_nat_digits[of n]
    js_number_show_nat[OF assms(2)] assms(1) by simp

lemma parseQuantity_reads_units_witness:
  "parseQuantity (Some (show_nat 12 @ ''k'')) = 12000 \<and>
   parseQuantity (Some (show_nat 3 @ ''Gi'')) = 3 * 1024 ^ 3"
  using parseQuantity_reads_units[of "''k''" 1000 12] parseQuantity_reads_units[of "''Gi''" "1024 ^ 3" 3]
  by (simp add: quantity_units_def binPrefixes_def decPrefixes_def js_finite_def)

section \<open>Bands in order\<close>

fun band_rank :: "UsageBand \<Rightarrow> nat" where
  "band_rank BandSuccess = 0"
| "band_rank BandWarning = 1"
| "band_rank BandError = 2"

lemma band_rank_inj: "band_rank a = band_rank b \<Longrightarrow> a = b"
  by (cases a; cases b) simp_all

instantiation UsageBand :: linorder
begin

definition less_eq_UsageBand :: "UsageBand \<Rightarrow> UsageBand \<Rightarrow> bool" where
  "less_eq_UsageBand a b \<longleftrightarrow> band_rank a \<le> band_rank b"

definition less_UsageBand :: "UsageBand \<Rightarrow> UsageBand \<Rightarrow> bool" where
  "less_UsageBand a b \<longleftrightarrow> band_rank a < band_rank b"

instance
  by standard (auto simp: less_eq_UsageBand_def less_UsageBand_def band_rank_inj)

end

text \<open>A higher ratio never lands in a lower band.\<close>

lemma usageBand_mono: "mono (\<lambda>r. usageBand (Some r))"
  by (rule monoI) (simp add: usageBand_def less_eq_UsageBand_def)

end
