(* ===== verification/Request.thy ===== *)
theory Request
  imports JsString
begin

text \<open>
  The HTTP requests that the service modules hand to the framework's request
  helper, and JSON.stringify with the number printing it uses.  The helper
  itself (URL prefixing, cookies, the transport) is third-party code: a service
  function is modelled as the request value it passes on, and what the server
  answers is a parameter wherever a component reads it.
\<close>

datatype body = NoBody | JsonBody json | TextBody string

record request =
  rq_url :: string
  rq_method :: string
  rq_params :: obj
  rq_body :: body
  rq_headers :: "(string \<times> string) list"

abbreviation GET :: "string \<Rightarrow> obj \<Rightarrow> request" where
  "GET url ps \<equiv> \<lparr>rq_url = url, rq_method = ''GET'', rq_params = ps, rq_body = NoBody, rq_headers = []\<rparr>"

abbreviation DELETE :: "string \<Rightarrow> obj \<Rightarrow> request" where
  "DELETE url ps \<equiv> \<lparr>rq_url = url, rq_method = ''DELETE'', rq_params = ps, rq_body = NoBody, rq_headers = []\<rparr>"

abbreviation POST :: "string \<Rightarrow> obj \<Rightarrow> body \<Rightarrow> request" where
  "POST url ps b \<equiv> \<lparr>rq_url = url, rq_method = ''POST'', rq_params = ps, rq_body = b, rq_headers = []\<rparr>"

abbreviation PUT :: "string \<Rightarrow> obj \<Rightarrow> body \<Rightarrow> request" where
  "PUT url ps b \<equiv> \<lparr>rq_url = url, rq_method = ''PUT'', rq_params = ps, rq_body = b, rq_headers = []\<rparr>"

text \<open>Path segments joined by slashes, as the template literals of the services
  write them: segments are interpolated without escaping.\<close>

definition path :: "string list \<Rightarrow> string" where
  "path segs = concat (map (\<lambda>s. ''/'' @ s) segs)"

lemma path_snoc: "path (segs @ [s]) = path segs @ ''/'' @ s"
  by (simp add: path_def)

text \<open>Splitting the URL at the slashes gives the segments back when none of them
  contains a slash.\<close>

lemma split_path:
  assumes "list_all (\<lambda>s. CHR ''/'' \<notin> set s) segs"
  shows "split_on (\<lambda>c. c = CHR ''/'') (path segs) = [] # segs"
proof -
  have "path segs = (if segs = [] then [] else CHR ''/'' # join ''/'' segs)"
    by (induction segs rule: induct_list012) (auto simp: path_def)
  then show ?thesis
    using assms split_on_join[of segs "\<lambda>c. c = CHR ''/''" "CHR ''/''"]
    by (auto simp: list_all_iff)
qed

lemma path_inj:
  assumes "list_all (\<lambda>s. CHR ''/'' \<notin> set s) xs" "list_all (\<lambda>s. CHR ''/'' \<notin> set s) ys"
    "path xs = path ys"
  shows "xs = ys"
proof -
  have "[] # xs = [] # ys"
    by (simp only: split_path[OF assms(1), symmetric] split_path[OF assms(2), symmetric] assms(3))
  then show ?thesis by simp
qed

subsection \<open>String(n) and JSON.stringify\<close>

text \<open>Digits of a fraction in [0, 1), at most n of them.\<close>

fun frac_digits :: "nat \<Rightarrow> rat \<Rightarrow> string" where
  "frac_digits 0 x = []"
| "frac_digits (Suc n) x =
    (if x = 0 then []
     else decimal_digit (nat \<lfloor>x * 10\<rfloor>) # frac_digits n (x * 10 - of_int \<lfloor>x * 10\<rfloor>))"

text \<open>String(x) in the range where it uses no exponent; a number that is not an
  integer is printed with at most 20 decimals.\<close>

definition show_num :: "rat \<Rightarrow> string" where
  "show_num x =
    (let a = \<bar>x\<bar>; i = \<lfloor>a\<rfloor>; f = a - of_int i
     in (if x < 0 then ''-'' else '''') @ show_nat (nat i)
        @ (if f = 0 then '''' else ''.'' @ frac_digits 20 f))"

definition hex_digit :: "nat \<Rightarrow> char" where
  "hex_digit n = (if n < 10 then char_of (48 + n) else char_of (87 + n))"

definition json_escape_char :: "char \<Rightarrow> string" where
  "json_escape_char c =
    (let n = of_char c :: nat in
     if n = 34 then [CHR 0x5C, CHR 0x22]
     else if n = 92 then [CHR 0x5C, CHR 0x5C]
     else if n = 8 then [CHR 0x5C, CHR ''b'']
     else if n = 9 then [CHR 0x5C, CHR ''t'']
     else if n = 10 then [CHR 0x5C, CHR ''n'']
     else if n = 12 then [CHR 0x5C, CHR ''f'']
     else if n = 13 then [CHR 0x5C, CHR ''r'']
     else if n < 32 then [CHR 0x5C, CHR ''u'', CHR ''0'', CHR ''0'', hex_digit (n div 16), hex_digit (n mod 16)]
     else [c])"

definition json_quote :: "string \<Rightarrow> string" where
  "json_quote s = [CHR 0x22] @ concat (map json_escape_char s) @ [CHR 0x22]"

fun json_stringify :: "json \<Rightarrow> string" where
  "json_stringify JNull = ''null''"
| "json_stringify (JBool b) = (if b then ''true'' else ''false'')"
| "json_stringify (JNum x) = show_num x"
| "json_stringify (JStr s) = json_quote s"
| "json_stringify (JArr xs) = ''['' @ join '','' (map json_stringify xs) @ '']''"
| "json_stringify (JObj ps) =
    ''{'' @ join '','' (map (\<lambda>(k, v). json_quote k @ '':'' @ json_stringify v) ps) @ ''}''"

text \<open>String(v) as the forms use it on a value read from a manifest.\<close>

fun js_String :: "json \<Rightarrow> string" where
  "js_String JNull = ''null''"
| "js_String (JBool b) = (if b then ''true'' else ''false'')"
| "js_String (JNum x) = show_num x"
| "js_String (JStr s) = s"
| "js_String (JArr xs) = join '','' (map (\<lambda>v. if v = JNull then [] else js_String v) xs)"
| "js_String (JObj _) = ''[object Object]''"

lemma show_num_nat: "show_num (of_nat n) = show_nat n"
  by (simp add: show_num_def)

end
