(* ===== verification/Workload.thy ===== *)
theory Workload
  imports Request
begin

text \<open>
  services/kpilot/workload.ts: the requests behind the generic workload table
  and its kubectl shortcuts, the GVK parameters of the CR viewer and the set of
  cluster-scoped kinds.  A resource type is the string the route carries, with
  ''_cr'' for the CR viewer; an optional CRRef is an option.
\<close>

definition CLUSTER_SCOPED_TYPES :: "string list" where
  "CLUSTER_SCOPED_TYPES =
    [''persistentvolumes'',
     ''storageclasses'',
     ''gatewayclasses'',
     ''deviceclasses'',
     ''resourceslices'',
     ''customresourcedefinitions'',
     ''clusterroles'',
     ''clusterrolebindings'',
     ''priorityclasses'',
     ''runtimeclasses'',
     ''validatingwebhookconfigurations'',
     ''mutatingwebhookconfigurations'',
     ''validatingadmissionpolicies'',
     ''mutatingadmissionpolicies'',
     ''nodes'']"

text \<open>The union WorkloadResourceType, in source order.\<close>

definition WorkloadResourceType :: "string list" where
  "WorkloadResourceType =
    [''deployments'', ''statefulsets'', ''daemonsets'', ''replicasets'', ''pods'',
     ''jobs'', ''cronjobs'', ''horizontalpodautoscalers'',
     ''services'', ''endpointslices'', ''ingresses'', ''networkpolicies'',
     ''gatewayclasses'', ''gateways'', ''httproutes'', ''grpcroutes'',
     ''configmaps'', ''secrets'',
     ''persistentvolumeclaims'', ''persistentvolumes'', ''storageclasses'',
     ''serviceaccounts'', ''roles'', ''rolebindings'', ''clusterroles'', ''clusterrolebindings'',
     ''resourcequotas'', ''limitranges'', ''poddisruptionbudgets'',
     ''priorityclasses'', ''runtimeclasses'',
     ''validatingwebhookconfigurations'', ''mutatingwebhookconfigurations'',
     ''validatingadmissionpolicies'', ''mutatingadmissionpolicies'',
     ''resourceclaims'', ''resourceclaimtemplates'', ''deviceclasses'', ''resourceslices'',
     ''customresourcedefinitions'',
     ''nodes'']"

datatype crscope = Namespaced | Cluster

record CRRef =
  cr_group :: string
  cr_version :: string
  cr_kind :: string
  cr_scope :: crscope

definition gvkParams :: "string \<Rightarrow> CRRef option \<Rightarrow> obj" where
  "gvkParams type cr =
    (case cr of
       None \<Rightarrow> []
     | Some c \<Rightarrow> if type \<noteq> ''_cr'' then []
                 else [(''group'', JStr (cr_group c)), (''version'', JStr (cr_version c)),
                       (''kind'', JStr (cr_kind c))])"

definition workloads_url :: "string \<Rightarrow> string list \<Rightarrow> string" where
  "workloads_url clusterId segs =
    path ([''api'', ''v1'', ''clusters'', clusterId, ''workloads''] @ segs)"

definition ns_params :: "string \<Rightarrow> CRRef option \<Rightarrow> string \<Rightarrow> obj" where
  "ns_params type cr namespace =
    gvkParams type cr @ prop_if (namespace \<noteq> []) ''namespace'' (JStr namespace)"

definition listWorkloads ::
  "string \<Rightarrow> string \<Rightarrow> string \<Rightarrow> rat \<Rightarrow> string \<Rightarrow> CRRef option \<Rightarrow> request" where
  "listWorkloads clusterId type namespace limit continueToken cr =
    GET (workloads_url clusterId [type])
      (gvkParams type cr
       @ prop_if (namespace \<noteq> []) ''namespace'' (JStr namespace)
       @ prop_if (limit > 0) ''limit'' (JNum limit)
       @ prop_if (continueToken \<noteq> []) ''continue'' (JStr continueToken))"

definition getWorkload :: "string \<Rightarrow> string \<Rightarrow> string \<Rightarrow> string \<Rightarrow> CRRef option \<Rightarrow> request" where
  "getWorkload clusterId type name namespace cr =
    GET (workloads_url clusterId [type, name]) (ns_params type cr namespace)"

definition applyWorkload ::
  "string \<Rightarrow> string \<Rightarrow> string \<Rightarrow> string \<Rightarrow> json \<Rightarrow> CRRef option \<Rightarrow> request" where
  "applyWorkload clusterId type name namespace body cr =
    PUT (workloads_url clusterId [type, name]) (ns_params type cr namespace) (JsonBody body)"

definition deleteWorkload :: "string \<Rightarrow> string \<Rightarrow> string \<Rightarrow> string \<Rightarrow> CRRef option \<Rightarrow> request" where
  "deleteWorkload clusterId type name namespace cr =
    DELETE (workloads_url clusterId [type, name]) (ns_params type cr namespace)"

definition describeWorkload :: "string \<Rightarrow> string \<Rightarrow> string \<Rightarrow> string \<Rightarrow> CRRef option \<Rightarrow> request" where
  "describeWorkload clusterId type name namespace cr =
    GET (workloads_url clusterId [type, name, ''describe'']) (ns_params type cr namespace)"

definition listNamespaces :: "string \<Rightarrow> request" where
  "listNamespaces clusterId = GET (path [''api'', ''v1'', ''clusters'', clusterId, ''namespaces'']) []"

text \<open>The entry per document that the apply endpoint answers with; only the two
  fields the drawers read.\<close>

record ApplyYamlResult =
  ay_success :: bool
  ay_error :: "string option"

definition applyYAML :: "string \<Rightarrow> string \<Rightarrow> request" where
  "applyYAML clusterId yamlText =
    (POST (path [''api'', ''v1'', ''clusters'', clusterId, ''apply'']) [] (TextBody yamlText))
      \<lparr>rq_headers := [(''Content-Type'', ''text/plain'')]\<rparr>"

definition deleteYAML :: "string \<Rightarrow> string \<Rightarrow> request" where
  "deleteYAML clusterId yamlText =
    (POST (path [''api'', ''v1'', ''clusters'', clusterId, ''delete-yaml'']) [] (TextBody yamlText))
      \<lparr>rq_headers := [(''Content-Type'', ''text/plain'')]\<rparr>"

definition rolloutRestart :: "string \<Rightarrow> string \<Rightarrow> string \<Rightarrow> string \<Rightarrow> request" where
  "rolloutRestart clusterId resourceType name namespace =
    POST (workloads_url clusterId [resourceType, name, ''restart'']) [(''namespace'', JStr namespace)] NoBody"

definition rolloutPause :: "string \<Rightarrow> string \<Rightarrow> string \<Rightarrow> string \<Rightarrow> request" where
  "rolloutPause clusterId resourceType name namespace =
    POST (workloads_url clusterId [resourceType, name, ''pause'']) [(''namespace'', JStr namespace)] NoBody"

definition rolloutResume :: "string \<Rightarrow> string \<Rightarrow> string \<Rightarrow> string \<Rightarrow> request" where
  "rolloutResume clusterId resourceType name namespace =
    POST (workloads_url clusterId [resourceType, name, ''resume'']) [(''namespace'', JStr namespace)] NoBody"

definition scaleWorkload :: "string \<Rightarrow> string \<Rightarrow> string \<Rightarrow> string \<Rightarrow> rat \<Rightarrow> request" where
  "scaleWorkload clusterId resourceType name namespace replicas =
    POST (workloads_url clusterId [resourceType, name, ''scale'']) [(''namespace'', JStr namespace)]
      (JsonBody (JObj [(''replicas'', JNum replicas)]))"

definition getRolloutHistory :: "string \<Rightarrow> string \<Rightarrow> string \<Rightarrow> string \<Rightarrow> request" where
  "getRolloutHistory clusterId resourceType name namespace =
    GET (workloads_url clusterId [resourceType, name, ''rollout'', ''history''])
      [(''namespace'', JStr namespace)]"

text \<open>toRevision 0 and an absent one both send an empty object.\<close>

definition rolloutUndo :: "string \<Rightarrow> string \<Rightarrow> string \<Rightarrow> string \<Rightarrow> rat option \<Rightarrow> request" where
  "rolloutUndo clusterId resourceType name namespace toRevision =
    POST (workloads_url clusterId [resourceType, name, ''rollout'', ''undo''])
      [(''namespace'', JStr namespace)]
      (JsonBody (JObj (case toRevision of
          None \<Rightarrow> []
        | Some r \<Rightarrow> prop_if (r \<noteq> 0) ''toRevision'' (JNum r))))"

record DrainOptions =
  dr_ignoreDaemonSets :: "bool option"
  dr_deleteEmptyDirData :: "bool option"
  dr_force :: "bool option"
  dr_gracePeriodSeconds :: "rat option"

definition drainNode :: "string \<Rightarrow> string \<Rightarrow> DrainOptions \<Rightarrow> request" where
  "drainNode clusterId nodeName opts =
    POST (workloads_url clusterId [''nodes'', nodeName, ''drain'']) []
      (JsonBody (JObj
        (prop_opt ''ignoreDaemonSets'' (map_option JBool (dr_ignoreDaemonSets opts))
         @ prop_opt ''deleteEmptyDirData'' (map_option JBool (dr_deleteEmptyDirData opts))
         @ prop_opt ''force'' (map_option JBool (dr_force opts))
         @ prop_opt ''gracePeriodSeconds'' (map_option JNum (dr_gracePeriodSeconds opts)))))"

subsection \<open>Facts\<close>

lemma gvkParams_builtin [simp]: "type \<noteq> ''_cr'' \<Longrightarrow> gvkParams type cr = []"
  by (simp add: gvkParams_def split: option.splits)

lemma gvkParams_cr [simp]:
  "gvkParams ''_cr'' (Some c) =
    [(''group'', JStr (cr_group c)), (''version'', JStr (cr_version c)), (''kind'', JStr (cr_kind c))]"
  by (simp add: gvkParams_def)

text \<open>A request URL identifies cluster, kind and object as long as the
  identifiers contain no slash (Kubernetes names do not).\<close>

lemma workloads_url_inj:
  assumes "workloads_url c xs = workloads_url d ys"
    "list_all (\<lambda>s. CHR ''/'' \<notin> set s) (c # d # xs @ ys)"
  shows "c = d \<and> xs = ys"
proof -
  have "[''api'', ''v1'', ''clusters'', c, ''workloads''] @ xs = [''api'', ''v1'', ''clusters'', d, ''workloads''] @ ys"
    using assms by (intro path_inj) (auto simp: workloads_url_def)
  then show ?thesis by simp
qed

end
