(* ===== verification/VolcanoManifest.thy ===== *)
theory VolcanoManifest
  imports Workload
begin

text \<open>
  services/kpilot/volcano.ts: the builders that turn the form inputs into
  Volcano manifests, and the Command custom resource that carries the lifecycle
  actions.  An optional field is an option, a Record of strings an association
  list, and an assignment guarded by an if is one optional property of the
  object that is built, in the order of the assignments.
\<close>

record GroupTerms =
  gt_required :: "string list option"
  gt_preferred :: "string list option"

record QueueAffinityInput =
  qa_nodeGroupAffinity :: "GroupTerms option"
  qa_nodeGroupAntiAffinity :: "GroupTerms option"

record QueueInput =
  qi_name :: string
  qi_weight :: "rat option"
  qi_capability :: "(string \<times> string) list option"
  qi_deserved :: "(string \<times> string) list option"
  qi_guarantee :: "(string \<times> string) list option"
  qi_reclaimable :: "bool option"
  qi_parent :: "string option"
  qi_priority :: "rat option"
  qi_type :: "string option"
  qi_affinity :: "QueueAffinityInput option"

subsection \<open>Queue\<close>

text \<open>The inner function expand: blank entries go, and so does an empty block.\<close>

definition keep_nonblank :: "string list option \<Rightarrow> string list" where
  "keep_nonblank xs = filter (\<lambda>s. s \<noteq> [] \<and> trim s \<noteq> []) (case xs of None \<Rightarrow> [] | Some l \<Rightarrow> l)"

definition expand_terms :: "GroupTerms option \<Rightarrow> json option" where
  "expand_terms a =
    (case a of
       None \<Rightarrow> None
     | Some t \<Rightarrow>
       let req = keep_nonblank (gt_required t);
           pref = keep_nonblank (gt_preferred t)
       in if req = [] \<and> pref = [] then None
          else Some (JObj
            (prop_if (req \<noteq> []) ''requiredDuringSchedulingIgnoredDuringExecution'' (jstrs req)
             @ prop_if (pref \<noteq> []) ''preferredDuringSchedulingIgnoredDuringExecution'' (jstrs pref))))"

definition buildQueueAffinity :: "QueueAffinityInput option \<Rightarrow> json option" where
  "buildQueueAffinity input =
    (case input of
       None \<Rightarrow> None
     | Some i \<Rightarrow>
       let aff = expand_terms (qa_nodeGroupAffinity i);
           anti = expand_terms (qa_nodeGroupAntiAffinity i)
       in if aff = None \<and> anti = None then None
          else Some (JObj (prop_opt ''nodeGroupAffinity'' aff @ prop_opt ''nodeGroupAntiAffinity'' anti)))"

definition queue_spec :: "QueueInput \<Rightarrow> obj" where
  "queue_spec input =
    [(''weight'', JNum (case qi_weight input of Some w \<Rightarrow> w | None \<Rightarrow> 1))]
    @ prop_smap ''capability'' (qi_capability input)
    @ prop_smap ''deserved'' (qi_deserved input)
    @ (case qi_guarantee input of
         None \<Rightarrow> []
       | Some g \<Rightarrow> prop_if (g \<noteq> []) ''guarantee'' (JObj [(''resource'', jsmap g)]))
    @ prop_opt ''reclaimable'' (map_option JBool (qi_reclaimable input))
    @ prop_str ''parent'' (qi_parent input)
    @ prop_num ''priority'' (\<lambda>_. True) (qi_priority input)
    @ prop_str ''type'' (qi_type input)
    @ prop_opt ''affinity'' (buildQueueAffinity (qi_affinity input))"

definition buildQueueManifest :: "QueueInput \<Rightarrow> json" where
  "buildQueueManifest input =
    JObj [(''apiVersion'', JStr ''scheduling.volcano.sh/v1beta1''),
          (''kind'', JStr ''Queue''),
          (''metadata'', JObj [(''name'', JStr (qi_name input))]),
          (''spec'', JObj (queue_spec input))]"

subsection \<open>Job and CronJob\<close>

record TaskResources =
  tr_requests :: "(string \<times> string) list option"
  tr_limits :: "(string \<times> string) list option"

text \<open>Fields of type jval are passed through unchecked from a
  manifest, so they are values of any type.\<close>

record JobTaskInput =
  jt_name :: string
  jt_replicas :: rat
  jt_image :: string
  jt_command :: "string list option"
  jt_args :: "string list option"
  jt_resources :: "TaskResources option"
  jt_imagePullPolicy :: "string option"
  jt_restartPolicy :: jval
  jt_minAvailable :: "rat option"
  jt_maxRetry :: "rat option"
  jt_topologyPolicy :: jval

record JobInput =
  ji_name :: string
  ji_namespace :: string
  ji_queue :: "string option"
  ji_priorityClassName :: "string option"
  ji_minAvailable :: "rat option"
  ji_minSuccess :: "rat option"
  ji_maxRetry :: "rat option"
  ji_ttlSecondsAfterFinished :: "rat option"
  ji_runningEstimate :: "string option"
  ji_plugins :: "string list option"
  ji_tasks :: "JobTaskInput list"
  ji_networkTopologyMode :: "string option"
  ji_networkTopologyHighestTierAllowed :: "rat option"
  ji_networkTopologyHighestTierName :: "string option"

definition resources_json :: "TaskResources \<Rightarrow> json" where
  "resources_json r =
    JObj (prop_opt ''requests'' (map_option jsmap (tr_requests r))
          @ prop_opt ''limits'' (map_option jsmap (tr_limits r)))"

definition build_container :: "JobTaskInput \<Rightarrow> obj" where
  "build_container t =
    [(''name'', JStr (jt_name t)), (''image'', JStr (jt_image t))]
    @ prop_strs ''command'' (jt_command t)
    @ prop_strs ''args'' (jt_args t)
    @ prop_opt ''resources'' (map_option resources_json (jt_resources t))
    @ prop_str ''imagePullPolicy'' (jt_imagePullPolicy t)"

definition build_task :: "JobTaskInput \<Rightarrow> json" where
  "build_task t =
    JObj ([(''name'', JStr (jt_name t)),
           (''replicas'', JNum (jt_replicas t)),
           (''template'', JObj [(''spec'', JObj
              [(''schedulerName'', JStr ''volcano''),
               (''restartPolicy'', the (coalesce (jt_restartPolicy t) (Some (JStr ''OnFailure'')))),
               (''containers'', JArr [JObj (build_container t)])])])]
          @ prop_num ''minAvailable'' (\<lambda>n. n \<ge> 0) (jt_minAvailable t)
          @ prop_num ''maxRetry'' (\<lambda>n. n \<ge> 0) (jt_maxRetry t)
          @ prop_truthy ''topologyPolicy'' (jt_topologyPolicy t))"

text \<open>for (const p of plugins) pluginsMap[p] = []: a repeated name keeps its place.\<close>

definition plugins_map :: "string list \<Rightarrow> obj" where
  "plugins_map ps = fold (\<lambda>p m. AList.update p (JArr []) m) ps []"

definition build_network_topology :: "string option \<Rightarrow> rat option \<Rightarrow> string option \<Rightarrow> obj" where
  "build_network_topology mode tier tierName =
    prop_str ''mode'' mode
    @ prop_num ''highestTierAllowed'' (\<lambda>n. n \<ge> 0) tier
    @ prop_str ''highestTierName'' tierName"

definition job_spec :: "JobInput \<Rightarrow> obj" where
  "job_spec input =
    (let tasks = map build_task (ji_tasks input);
         totalReplicas = sum_list (map jt_replicas (ji_tasks input));
         nt = build_network_topology (ji_networkTopologyMode input)
                (ji_networkTopologyHighestTierAllowed input) (ji_networkTopologyHighestTierName input)
     in [(''minAvailable'', JNum (case ji_minAvailable input of Some n \<Rightarrow> n | None \<Rightarrow> totalReplicas)),
         (''schedulerName'', JStr ''volcano''),
         (''tasks'', JArr tasks)]
        @ prop_str ''queue'' (ji_queue input)
        @ prop_str ''priorityClassName'' (ji_priorityClassName input)
        @ prop_num ''minSuccess'' (\<lambda>n. n > 0) (ji_minSuccess input)
        @ prop_num ''maxRetry'' (\<lambda>n. n \<ge> 0) (ji_maxRetry input)
        @ prop_num ''ttlSecondsAfterFinished'' (\<lambda>n. n \<ge> 0) (ji_ttlSecondsAfterFinished input)
        @ prop_str ''runningEstimate'' (ji_runningEstimate input)
        @ (case ji_plugins input of
             None \<Rightarrow> []
           | Some ps \<Rightarrow> prop_if (ps \<noteq> []) ''plugins'' (JObj (plugins_map ps)))
        @ prop_if (nt \<noteq> []) ''networkTopology'' (JObj nt))"

definition buildJobManifest :: "JobInput \<Rightarrow> json" where
  "buildJobManifest input =
    JObj [(''apiVersion'', JStr ''batch.volcano.sh/v1alpha1''),
          (''kind'', JStr ''Job''),
          (''metadata'', JObj [(''name'', JStr (ji_name input)), (''namespace'', JStr (ji_namespace input))]),
          (''spec'', JObj (job_spec input))]"

text \<open>jobTemplate is a JobInput without name and namespace: the two fields of the
  record are overwritten before the spec is taken, as the source does.\<close>

record CronJobInput =
  ci_name :: string
  ci_namespace :: string
  ci_schedule :: string
  ci_timeZone :: "string option"
  ci_startingDeadlineSeconds :: "rat option"
  ci_concurrencyPolicy :: jval
  ci_successfulJobsHistoryLimit :: jval
  ci_failedJobsHistoryLimit :: jval
  ci_suspend :: jval
  ci_jobTemplate :: JobInput

definition cronjob_spec :: "CronJobInput \<Rightarrow> obj" where
  "cronjob_spec input =
    (let job = buildJobManifest ((ci_jobTemplate input)
                 \<lparr>ji_name := ci_name input, ji_namespace := ci_namespace input\<rparr>)
     in [(''schedule'', JStr (ci_schedule input)),
         (''jobTemplate'', JObj (prop_opt ''spec'' (jget ''spec'' job)))]
        @ prop_truthy ''concurrencyPolicy'' (ci_concurrencyPolicy input)
        @ prop_str ''timeZone'' (ci_timeZone input)
        @ prop_num ''startingDeadlineSeconds'' (\<lambda>n. n \<ge> 0) (ci_startingDeadlineSeconds input)
        @ prop_num ''successfulJobsHistoryLimit'' (\<lambda>_. True) (as_num (ci_successfulJobsHistoryLimit input))
        @ prop_num ''failedJobsHistoryLimit'' (\<lambda>_. True) (as_num (ci_failedJobsHistoryLimit input))
        @ prop_opt ''suspend'' (map_option JBool (as_bool (ci_suspend input))))"

definition buildCronJobManifest :: "CronJobInput \<Rightarrow> json" where
  "buildCronJobManifest input =
    JObj [(''apiVersion'', JStr ''batch.volcano.sh/v1alpha1''),
          (''kind'', JStr ''CronJob''),
          (''metadata'', JObj [(''name'', JStr (ci_name input)), (''namespace'', JStr (ci_namespace input))]),
          (''spec'', JObj (cronjob_spec input))]"

subsection \<open>PodGroup, HyperNode, NodeShard, ColocationConfiguration\<close>

text \<open>A task count that is NaN is None; JSON.stringify writes it as null.\<close>

fun count_json :: "rat option \<Rightarrow> json" where
  "count_json None = JNull"
| "count_json (Some n) = JNum n"

record PodGroupInput =
  pi_name :: string
  pi_namespace :: string
  pi_queue :: "string option"
  pi_priorityClassName :: "string option"
  pi_minMember :: "rat option"
  pi_minTaskMember :: "(string \<times> rat option) list option"
  pi_minResources :: "(string \<times> string) list option"
  pi_networkTopologyMode :: "string option"
  pi_networkTopologyHighestTierAllowed :: "rat option"
  pi_networkTopologyHighestTierName :: "string option"

definition podgroup_spec :: "PodGroupInput \<Rightarrow> obj" where
  "podgroup_spec input =
    (let nt = build_network_topology (pi_networkTopologyMode input)
                (pi_networkTopologyHighestTierAllowed input) (pi_networkTopologyHighestTierName input)
     in prop_num ''minMember'' (\<lambda>n. n > 0) (pi_minMember input)
        @ prop_str ''queue'' (pi_queue input)
        @ prop_str ''priorityClassName'' (pi_priorityClassName input)
        @ prop_smap ''minResources'' (pi_minResources input)
        @ (case pi_minTaskMember input of
             None \<Rightarrow> []
           | Some m \<Rightarrow> prop_if (m \<noteq> []) ''minTaskMember'' (JObj (map (\<lambda>(k, v). (k, count_json v)) m)))
        @ prop_if (nt \<noteq> []) ''networkTopology'' (JObj nt))"

definition buildPodGroupManifest :: "PodGroupInput \<Rightarrow> json" where
  "buildPodGroupManifest input =
    JObj [(''apiVersion'', JStr ''scheduling.volcano.sh/v1beta1''),
          (''kind'', JStr ''PodGroup''),
          (''metadata'', JObj [(''name'', JStr (pi_name input)), (''namespace'', JStr (pi_namespace input))]),
          (''spec'', JObj (podgroup_spec input))]"

datatype HyperNodeMemberType = MemberNode | MemberHyperNode
datatype HyperNodeSelectorType = ExactMatch | RegexMatch | LabelMatch

record HyperNodeMemberInput =
  hm_type :: HyperNodeMemberType
  hm_selectorType :: HyperNodeSelectorType
  hm_exactName :: "string option"
  hm_regexPattern :: "string option"
  hm_matchLabels :: "(string \<times> string) list option"

record HyperNodeInput =
  hi_name :: string
  hi_tier :: rat
  hi_tierName :: "string option"
  hi_members :: "HyperNodeMemberInput list"

fun member_type_name :: "HyperNodeMemberType \<Rightarrow> string" where
  "member_type_name MemberNode = ''Node''"
| "member_type_name MemberHyperNode = ''HyperNode''"

definition member_selector :: "HyperNodeMemberInput \<Rightarrow> obj" where
  "member_selector m =
    (case hm_selectorType m of
       ExactMatch \<Rightarrow>
         (case hm_exactName m of
            None \<Rightarrow> []
          | Some n \<Rightarrow> prop_if (n \<noteq> []) ''exactMatch'' (JObj [(''name'', JStr n)]))
     | RegexMatch \<Rightarrow>
         (case hm_regexPattern m of
            None \<Rightarrow> []
          | Some p \<Rightarrow> prop_if (p \<noteq> []) ''regexMatch'' (JObj [(''pattern'', JStr p)]))
     | LabelMatch \<Rightarrow>
         (case hm_matchLabels m of
            None \<Rightarrow> []
          | Some l \<Rightarrow> prop_if (l \<noteq> []) ''labelMatch'' (JObj [(''matchLabels'', jsmap l)])))"

definition build_member :: "HyperNodeMemberInput \<Rightarrow> json" where
  "build_member m =
    JObj [(''type'', JStr (member_type_name (hm_type m))), (''selector'', JObj (member_selector m))]"

definition buildHyperNodeManifest :: "HyperNodeInput \<Rightarrow> json" where
  "buildHyperNodeManifest input =
    (let members = map build_member (hi_members input) in
     JObj [(''apiVersion'', JStr ''topology.volcano.sh/v1alpha1''),
           (''kind'', JStr ''HyperNode''),
           (''metadata'', JObj [(''name'', JStr (hi_name input))]),
           (''spec'', JObj ([(''tier'', JNum (hi_tier input))]
              @ prop_str ''tierName'' (hi_tierName input)
              @ prop_if (members \<noteq> []) ''members'' (JArr members)))])"

definition buildNodeShardManifest :: "string \<Rightarrow> string list \<Rightarrow> json" where
  "buildNodeShardManifest name nodesDesired =
    JObj [(''apiVersion'', JStr ''shard.volcano.sh/v1alpha1''),
          (''kind'', JStr ''NodeShard''),
          (''metadata'', JObj [(''name'', JStr name)]),
          (''spec'', JObj [(''nodesDesired'', jstrs nodesDesired)])]"

record ColocationConfigurationInput =
  co_name :: string
  co_namespace :: string
  co_matchLabels :: "(string \<times> string) list option"
  co_highRatio :: "rat option"
  co_lowRatio :: "rat option"
  co_minRatio :: "rat option"

definition colocation_spec :: "ColocationConfigurationInput \<Rightarrow> obj" where
  "colocation_spec input =
    (let memoryQos = prop_num ''highRatio'' (\<lambda>_. True) (co_highRatio input)
                     @ prop_num ''lowRatio'' (\<lambda>_. True) (co_lowRatio input)
                     @ prop_num ''minRatio'' (\<lambda>_. True) (co_minRatio input)
     in prop_if (memoryQos \<noteq> []) ''memoryQos'' (JObj memoryQos)
        @ (case co_matchLabels input of
             None \<Rightarrow> []
           | Some l \<Rightarrow> prop_if (l \<noteq> []) ''selector'' (JObj [(''matchLabels'', jsmap l)])))"

definition buildColocationConfigurationManifest :: "ColocationConfigurationInput \<Rightarrow> json" where
  "buildColocationConfigurationManifest input =
    JObj [(''apiVersion'', JStr ''config.volcano.sh/v1alpha1''),
          (''kind'', JStr ''ColocationConfiguration''),
          (''metadata'', JObj [(''name'', JStr (co_name input)), (''namespace'', JStr (co_namespace input))]),
          (''spec'', JObj (colocation_spec input))]"

subsection \<open>Lifecycle commands\<close>

datatype VolcanoAction =
  OpenQueue | CloseQueue | ResumeJob | AbortJob | RestartJob | TerminateJob | CompleteJob

fun action_name :: "VolcanoAction \<Rightarrow> string" where
  "action_name OpenQueue = ''OpenQueue''"
| "action_name CloseQueue = ''CloseQueue''"
| "action_name ResumeJob = ''ResumeJob''"
| "action_name AbortJob = ''AbortJob''"
| "action_name RestartJob = ''RestartJob''"
| "action_name TerminateJob = ''TerminateJob''"
| "action_name CompleteJob = ''CompleteJob''"

record CommandTarget =
  ct_apiVersion :: string
  ct_kind :: string
  ct_name :: string
  ct_namespace :: "string option"
  ct_uid :: "string option"

text \<open>rnd is what Math.random().toString(36).slice(2, 8) returns.\<close>

definition buildCommandManifest ::
  "string \<Rightarrow> VolcanoAction \<Rightarrow> CommandTarget \<Rightarrow> string option \<Rightarrow> json" where
  "buildCommandManifest rnd action target reason =
    JObj [(''apiVersion'', JStr ''bus.volcano.sh/v1alpha1''),
          (''kind'', JStr ''Command''),
          (''metadata'', JObj
            [(''name'', JStr (ct_name target @ ''-'' @ to_lower (action_name action) @ ''-'' @ rnd)),
             (''namespace'', JStr (case ct_namespace target of Some n \<Rightarrow> n | None \<Rightarrow> ''default''))]),
          (''action'', JStr (action_name action)),
          (''target'', JObj
            ([(''apiVersion'', JStr (ct_apiVersion target)),
              (''kind'', JStr (ct_kind target)),
              (''name'', JStr (ct_name target))]
             @ prop_opt ''uid'' (map_option JStr (ct_uid target)))),
          (''reason'', JStr (case reason of Some r \<Rightarrow> r | None \<Rightarrow> action_name action))]"

definition applyManifest :: "string \<Rightarrow> json \<Rightarrow> request" where
  "applyManifest clusterId manifest = applyYAML clusterId (json_stringify manifest)"

definition parseApiVersion :: "string \<Rightarrow> string \<times> string" where
  "parseApiVersion av =
    (case index_of ''/'' av of
       None \<Rightarrow> ([], av)
     | Some slash \<Rightarrow> (take slash av, drop (slash + 1) av))"

text \<open>How sendCommand ends: the lookup rejected, the UID missing (with the message
  of the thrown Error), or whatever the apply request does.\<close>

datatype send_result = LookupRejected | UidMissing string | Applied

text \<open>lookup is what the get request resolves to: None when its promise rejects,
  Some undefined or Some object when it resolves.  A uid that is not a string
  is outside the type the source asserts.  The result carries the requests
  sent, in order.\<close>

definition sendCommand ::
  "(request \<Rightarrow> jval option) \<Rightarrow> string \<Rightarrow> string \<Rightarrow> VolcanoAction \<Rightarrow> CommandTarget \<Rightarrow>
    string option \<Rightarrow> request list \<times> send_result" where
  "sendCommand lookup rnd clusterId action target reason =
    (let apply_with = (\<lambda>u. applyManifest clusterId
           (buildCommandManifest rnd action (target\<lparr>ct_uid := Some u\<rparr>) reason));
         given = (case ct_uid target of None \<Rightarrow> [] | Some u \<Rightarrow> u)
     in if given \<noteq> [] then ([apply_with given], Applied)
        else
          let (g, v) = parseApiVersion (ct_apiVersion target);
              ns = (case ct_namespace target of None \<Rightarrow> [] | Some n \<Rightarrow> n);
              cr = \<lparr>cr_group = g, cr_version = v, cr_kind = ct_kind target,
                    cr_scope = (if ns \<noteq> [] then Namespaced else Cluster)\<rparr>;
              q = getWorkload clusterId ''_cr'' (ct_name target) ns (Some cr)
          in (case lookup q of
                None \<Rightarrow> ([q], LookupRejected)
              | Some obj \<Rightarrow>
                (case as_str (opath [''metadata'', ''uid''] obj) of
                   Some (c # cs) \<Rightarrow> ([q, apply_with (c # cs)], Applied)
                 | _ \<Rightarrow> ([q], UidMissing
                     (''Could not resolve UID for '' @ ct_kind target @ '' ''
                      @ (if ns \<noteq> [] then ns @ ''/'' else '''') @ ct_name target
                      @ ''; the resource may have been deleted.'')))))"

subsection \<open>Facts\<close>

lemma parseApiVersion_group [simp]:
  "CHR ''/'' \<notin> set g \<Longrightarrow> parseApiVersion (g @ ''/'' @ v) = (g, v)"
  by (simp add: parseApiVersion_def index_of_first)

lemma parseApiVersion_core [simp]:
  "CHR ''/'' \<notin> set v \<Longrightarrow> parseApiVersion v = ([], v)"
  by (simp add: parseApiVersion_def index_of_char_None[THEN iffD2])

text \<open>The UID a command ends up with: the caller's, or the one looked up.\<close>

definition resolved_uid :: "(request \<Rightarrow> jval option) \<Rightarrow> request \<Rightarrow> CommandTarget \<Rightarrow> string option" where
  "resolved_uid lookup q target =
    (case ct_uid target of
       Some (c # cs) \<Rightarrow> Some (c # cs)
     | _ \<Rightarrow> (case lookup q of
              Some obj \<Rightarrow> (case as_str (opath [''metadata'', ''uid''] obj) of
                             Some (c # cs) \<Rightarrow> Some (c # cs) | _ \<Rightarrow> None)
            | None \<Rightarrow> None))"

definition target_query :: "string \<Rightarrow> CommandTarget \<Rightarrow> request" where
  "target_query clusterId target =
    (let ns = (case ct_namespace target of None \<Rightarrow> [] | Some n \<Rightarrow> n);
         gv = parseApiVersion (ct_apiVersion target)
     in getWorkload clusterId ''_cr'' (ct_name target) ns
          (Some \<lparr>cr_group = fst gv, cr_version = snd gv, cr_kind = ct_kind target,
                 cr_scope = (if ns \<noteq> [] then Namespaced else Cluster)\<rparr>))"

lemma sendCommand_given:
  "ct_uid target = Some (c # cs) \<Longrightarrow> sendCommand lookup rnd cl a target reason =
    ([applyManifest cl (buildCommandManifest rnd a (target\<lparr>ct_uid := Some (c # cs)\<rparr>) reason)], Applied)"
  by (simp add: sendCommand_def Let_def)

lemma sendCommand_lookup:
  fixes cl :: string
  assumes "ct_uid target = None \<or> ct_uid target = Some []"
  defines "q \<equiv> target_query cl target"
  shows "lookup q = None \<Longrightarrow> sendCommand lookup rnd cl a target reason = ([q], LookupRejected)"
    "lookup q = Some obj \<Longrightarrow> as_str (opath [''metadata'', ''uid''] obj) = Some (c # cs) \<Longrightarrow>
     sendCommand lookup rnd cl a target reason =
       ([q, applyManifest cl (buildCommandManifest rnd a (target\<lparr>ct_uid := Some (c # cs)\<rparr>) reason)], Applied)"
    "lookup q = Some obj \<Longrightarrow> as_str (opath [''metadata'', ''uid''] obj) = None \<or>
       as_str (opath [''metadata'', ''uid''] obj) = Some [] \<Longrightarrow>
     \<exists>msg. sendCommand lookup rnd cl a target reason = ([q], UidMissing msg)"
  using assms by (elim disjE; simp add: sendCommand_def target_query_def Let_def case_prod_beta)+


end
