(* ===== verification/FormDrawer.thy ===== *)
theory FormDrawer
  imports VolcanoManifest Quantity
begin

text \<open>
  What the Volcano form drawers (QueueForm.tsx, JobForm.tsx, CronJobForm.tsx,
  PodGroupForm.tsx, HyperNodeForm.tsx, NodeShardForm.tsx,
  ColocationConfigurationForm.tsx) share: trimming of text fields, key/value
  rows collapsed into a record, the drawer that shows one manifest as a form
  or as YAML, its submit, and the contract between a form and its manifest.

  Parameters, for code that is not under src/: setf is antd's
  form.setFieldsValue (old fields, new fields), validate is form.validateFields
  (None when it rejects), dump and load are js-yaml's (load returns the message
  of its exception or the value, undefined for an empty document).  terr is the
  message of the TypeError that the engine throws.
\<close>

subsection \<open>Text fields\<close>

text \<open>s?.trim() || undefined.  The outer None is the TypeError of a value that
  has no trim method.\<close>

fun tr :: "jval \<Rightarrow> string option option" where
  "tr None = Some None"
| "tr (Some JNull) = Some None"
| "tr (Some (JStr s)) = Some (if trim s = [] then None else Some (trim s))"
| "tr (Some _) = None"

text \<open>s?.trim() ?? d and (s ?? '''').trim().\<close>

fun trim_or :: "string \<Rightarrow> jval \<Rightarrow> string option" where
  "trim_or d None = Some d"
| "trim_or d (Some JNull) = Some d"
| "trim_or d (Some (JStr s)) = Some (trim s)"
| "trim_or d (Some _) = None"

lemma tr_trimmed: "tr v = Some (Some s) \<Longrightarrow> s \<noteq> [] \<and> trim s = s"
  by (cases v rule: tr.cases) (auto split: if_splits)

lemma tr_JStr [simp]: "s \<noteq> [] \<Longrightarrow> trim s = s \<Longrightarrow> tr (Some (JStr s)) = Some (Some s)"
  by simp

text \<open>Writing a trimmed optional text and reading it back.\<close>

lemma tr_reread [codec_simps]:
  "tr v = Some x \<Longrightarrow>
   tr (case x of None \<Rightarrow> None | Some s \<Rightarrow> if s \<noteq> [] then Some (JStr s) else None) = Some x"
  by (cases x) (auto dest: tr_trimmed)

lemma trim_or_trimmed: "trim d = d \<Longrightarrow> trim_or d v = Some s \<Longrightarrow> trim s = s"
  by (cases "(d, v)" rule: trim_or.cases) auto

subsection \<open>Rows of a key/value editor\<close>

type_synonym rows = "(string option \<times> string option) list"

text \<open>row?.key?.trim() etc.: an undefined row or cell is None.\<close>

definition add_row :: "string list \<Rightarrow> string option \<times> string option \<Rightarrow>
    (string \<times> string) list \<Rightarrow> (string \<times> string) list" where
  "add_row handled row out =
    (case row of
       (Some k, Some v) \<Rightarrow>
         if trim k \<noteq> [] \<and> trim v \<noteq> [] \<and> trim k \<notin> set handled
         then AList.update (trim k) (trim v) out else out
     | _ \<Rightarrow> out)"

definition add_rows :: "string list \<Rightarrow> rows \<Rightarrow> (string \<times> string) list \<Rightarrow> (string \<times> string) list" where
  "add_rows handled rows out = fold (add_row handled) rows out"

definition to_rows :: "(string \<times> string) list \<Rightarrow> rows" where
  "to_rows m = map (\<lambda>(k, v). (Some k, Some v)) m"

definition clean_pair :: "string list \<Rightarrow> string \<times> string \<Rightarrow> bool" where
  "clean_pair handled p \<longleftrightarrow> fst p \<noteq> [] \<and> trim (fst p) = fst p \<and> snd p \<noteq> [] \<and>
     trim (snd p) = snd p \<and> fst p \<notin> set handled"

definition clean_map :: "string list \<Rightarrow> (string \<times> string) list \<Rightarrow> bool" where
  "clean_map handled m \<longleftrightarrow> distinct (map fst m) \<and> list_all (clean_pair handled) m"

lemma clean_map_Nil [simp]: "clean_map handled []"
  by (simp add: clean_map_def)

lemma list_all_update:
  "list_all P m \<Longrightarrow> P (k, v) \<Longrightarrow> list_all P (AList.update k v m)"
  by (induction m) auto

lemma add_row_clean: "clean_map handled m \<Longrightarrow> clean_map handled (add_row handled row m)"
  by (auto simp: add_row_def clean_map_def clean_pair_def intro!: list_all_update distinct_update
      split: option.splits prod.splits)

lemma add_rows_clean: "clean_map handled m \<Longrightarrow> clean_map handled (add_rows handled rows m)"
  unfolding add_rows_def by (induction rows arbitrary: m) (auto simp: add_row_clean)

lemma update_append_right:
  "k \<notin> fst ` set a \<Longrightarrow> AList.update k v (a @ b) = a @ AList.update k v b"
  by (induction a) auto

lemma add_row_append:
  "fst ` set a \<subseteq> set handled \<Longrightarrow> add_row handled row (a @ b) = a @ add_row handled row b"
  by (auto simp: add_row_def split: option.splits prod.splits intro!: update_append_right; blast)

lemma add_rows_append:
  "fst ` set a \<subseteq> set handled \<Longrightarrow> add_rows handled rows (a @ b) = a @ add_rows handled rows b"
  unfolding add_rows_def by (induction rows arbitrary: b) (auto simp: add_row_append)

lemma add_rows_base:
  "fst ` set a \<subseteq> set handled \<Longrightarrow> add_rows handled rows a = a @ add_rows handled rows []"
  using add_rows_append[of a handled rows "[]"] by simp

lemma add_rows_to_rows_aux:
  "list_all (clean_pair handled) m \<Longrightarrow> distinct (map fst (a @ m)) \<Longrightarrow>
   add_rows handled (to_rows m) a = a @ m"
proof (induction m arbitrary: a)
  case Nil
  then show ?case by (simp add: add_rows_def to_rows_def)
next
  case (Cons p m)
  then have "add_row handled (Some (fst p), Some (snd p)) a = a @ [p]"
    by (auto simp: add_row_def clean_pair_def update_absent)
  with Cons show ?case
    by (auto simp: add_rows_def to_rows_def split: prod.splits)
qed

text \<open>Rows rendered from a clean record collapse to that record again.\<close>

lemma add_rows_to_rows [codec_simps]:
  "clean_map handled m \<Longrightarrow> add_rows handled (to_rows m) [] = m"
  using add_rows_to_rows_aux[of handled m "[]"] by (simp add: clean_map_def)

subsection \<open>The drawer\<close>

datatype drawer_view = FormView | YamlView

record 'fv drawer =
  dr_fields :: 'fv
  dr_view :: drawer_view
  dr_yamlText :: string
  dr_yamlError :: "string option"

definition not_object_msg :: string where
  "not_object_msg = ''YAML is empty or not an object''"

text \<open>handleSwitchView: encode is the form's manifest (None when it throws),
  decode reads a parsed manifest, with the current fields for its fallbacks.\<close>

definition drawer_switch ::
  "('fv \<Rightarrow> json option) \<Rightarrow> ('fv \<Rightarrow> json \<Rightarrow> 'fv option) \<Rightarrow> ('fv \<Rightarrow> 'fv \<Rightarrow> 'fv) \<Rightarrow>
   (json \<Rightarrow> string) \<Rightarrow> (string \<Rightarrow> string + jval) \<Rightarrow> string \<Rightarrow>
   drawer_view \<Rightarrow> 'fv drawer \<Rightarrow> 'fv drawer" where
  "drawer_switch encode decode setf dump load terr next d =
    (if next = dr_view d then d
     else if next = YamlView then
       (case encode (dr_fields d) of
          None \<Rightarrow> d\<lparr>dr_yamlError := Some terr\<rparr>
        | Some m \<Rightarrow> d\<lparr>dr_yamlText := dump m, dr_yamlError := None, dr_view := YamlView\<rparr>)
     else
       (case load (dr_yamlText d) of
          Inl e \<Rightarrow> d\<lparr>dr_yamlError := Some e\<rparr>
        | Inr parsed \<Rightarrow>
          if \<not> truthy parsed \<or> \<not> typeof_object parsed then d\<lparr>dr_yamlError := Some not_object_msg\<rparr>
          else (case decode (dr_fields d) (the parsed) of
                  None \<Rightarrow> d\<lparr>dr_yamlError := Some terr\<rparr>
                | Some fv \<Rightarrow> d\<lparr>dr_fields := setf (dr_fields d) fv, dr_yamlError := None,
                               dr_view := FormView\<rparr>)))"

text \<open>handleSubmit up to the request: the manifest applied, or why none is.\<close>

datatype submit_step = Invalid | Throws | ErrorShown string | Apply jval

definition drawer_submit ::
  "('fv \<Rightarrow> json option) \<Rightarrow> ('fv \<Rightarrow> 'fv option) \<Rightarrow> (string \<Rightarrow> string + jval) \<Rightarrow>
   'fv drawer \<Rightarrow> submit_step" where
  "drawer_submit encode validate load d =
    (if dr_view d = FormView then
       (case validate (dr_fields d) of
          None \<Rightarrow> Invalid
        | Some v \<Rightarrow> (case encode v of None \<Rightarrow> Throws | Some m \<Rightarrow> Apply (Some m)))
     else
       (case load (dr_yamlText d) of
          Inl e \<Rightarrow> ErrorShown (''YAML parse failed: '' @ e)
        | Inr manifest \<Rightarrow>
          if \<not> truthy manifest \<or> \<not> typeof_object manifest then ErrorShown not_object_msg
          else Apply manifest))"

text \<open>The rest of handleSubmit: None is a rejected request, handled globally.\<close>

datatype apply_outcome = Rejected | Failed string | Saved

definition apply_finish :: "ApplyYamlResult list option \<Rightarrow> apply_outcome" where
  "apply_finish res =
    (case res of
       None \<Rightarrow> Rejected
     | Some results \<Rightarrow>
       (case List.find (\<lambda>r. \<not> ay_success r) results of
          Some fail \<Rightarrow> Failed (case ay_error fail of Some e \<Rightarrow> e | None \<Rightarrow> ''apply failed'')
        | None \<Rightarrow> Saved))"

lemma apply_finish_Saved:
  "apply_finish res = Saved \<longleftrightarrow> (\<exists>rs. res = Some rs \<and> list_all ay_success rs)"
  by (auto simp: apply_finish_def find_None_iff find_Some_iff list_all_iff split: option.splits)

subsection \<open>The contract of a form with its manifest\<close>

text \<open>
  A form encodes its fields as a manifest and decodes a manifest into fields.
  The contract is stability: what it wrote reads back to fields that write the
  same manifest.  ok bounds the fields the contract is claimed for.
\<close>

locale form_codec =
  fixes encode :: "'fv \<Rightarrow> json option"
    and decode :: "'fv \<Rightarrow> json \<Rightarrow> 'fv option"
    and ok :: "'fv \<Rightarrow> bool"
  assumes encode_object: "encode fv = Some m \<Longrightarrow> \<exists>ps. m = JObj ps"
    and decode_encode: "ok fv \<Longrightarrow> encode fv = Some m \<Longrightarrow>
      \<exists>fv'. decode old m = Some fv' \<and> ok fv' \<and> encode fv' = Some m"
begin

lemma encoded_is_shown:
  assumes "dr_view d = FormView" "encode (dr_fields d) = Some m"
  shows "drawer_switch encode decode setf dump load terr YamlView d =
    d\<lparr>dr_yamlText := dump m, dr_yamlError := None, dr_view := YamlView\<rparr>"
  using assms by (simp add: drawer_switch_def)

text \<open>Form to YAML and back: the fields still encode the manifest, no error is
  shown, and another switch to YAML shows the same text.\<close>

lemma switch_roundtrip:
  fixes terr :: string
  assumes view: "dr_view d = FormView" and ok: "ok (dr_fields d)"
    and enc: "encode (dr_fields d) = Some m"
    and yaml: "load (dump m) = Inr (Some m)" and setf: "\<And>a b. setf a b = b"
  defines "d1 \<equiv> drawer_switch encode decode setf dump load terr YamlView d"
  defines "d2 \<equiv> drawer_switch encode decode setf dump load terr FormView d1"
  shows "dr_yamlText d1 = dump m \<and> dr_view d2 = FormView \<and> dr_yamlError d2 = None \<and>
    encode (dr_fields d2) = Some m \<and>
    dr_yamlText (drawer_switch encode decode setf dump load terr YamlView d2) = dump m"
proof -
  have d1: "d1 = d\<lparr>dr_yamlText := dump m, dr_yamlError := None, dr_view := YamlView\<rparr>"
    unfolding d1_def using view enc by (rule encoded_is_shown)
  obtain ps where m: "m = JObj ps" using encode_object[OF enc] by auto
  obtain fv where fv: "decode (dr_fields d) m = Some fv" "encode fv = Some m"
    using decode_encode[OF ok enc] by blast
  have d2: "d2 = d1\<lparr>dr_fields := fv, dr_yamlError := None, dr_view := FormView\<rparr>"
    using yaml m fv setf by (simp add: d2_def d1 drawer_switch_def)
  show ?thesis
    using fv by (simp add: d2 d1 encoded_is_shown)
qed

text \<open>Submitting from the YAML view right after the switch applies what the form
  view would have applied.\<close>

lemma submit_view_independent:
  assumes "dr_view d = FormView" "encode (dr_fields d) = Some m" "load (dump m) = Inr (Some m)"
    "validate (dr_fields d) = Some (dr_fields d)"
  shows "drawer_submit encode validate load (drawer_switch encode decode setf dump load terr YamlView d)
    = drawer_submit encode validate load d"
proof -
  obtain ps where "m = JObj ps" using encode_object assms(2) by blast
  then show ?thesis
    using assms by (simp add: encoded_is_shown drawer_submit_def)
qed

end

text \<open>A switch that fails keeps the view, the fields and the YAML draft.\<close>

lemma switch_error_keeps_draft:
  assumes "dr_view d = YamlView"
    "dr_view (drawer_switch encode decode setf dump load terr FormView d) = YamlView"
  shows "dr_yamlText (drawer_switch encode decode setf dump load terr FormView d) = dr_yamlText d
    \<and> dr_fields (drawer_switch encode decode setf dump load terr FormView d) = dr_fields d
    \<and> dr_yamlError (drawer_switch encode decode setf dump load terr FormView d) \<noteq> None"
  using assms by (auto simp: drawer_switch_def split: sum.splits option.splits if_splits)

end
