(* ===== verification/QueueForm.thy ===== *)
theory QueueForm
  imports FormDrawer
begin

text \<open>
  pages/Compute/Volcano/QueueForm.tsx: the conversions between the queue form
  and the Queue manifest, what an edit preserves, and the drawer built from
  them.  parent, type and name take whatever a parsed manifest holds; the other
  fields are checked with typeof when they are read.
\<close>

record ResourceListFV =
  rl_cpu :: "string option"
  rl_memory :: "string option"
  rl_vgpuNumber :: "rat option"
  rl_vgpuMemory :: "rat option"
  rl_vgpuCores :: "rat option"
  rl_extras :: "rows option"

record QueueFV =
  qf_name :: jval
  qf_weight :: "rat option"
  qf_priority :: "rat option"
  qf_reclaimable :: "bool option"
  qf_parent :: jval
  qf_type :: jval
  qf_capability :: "ResourceListFV option"
  qf_deserved :: "ResourceListFV option"
  qf_guarantee :: "ResourceListFV option"
  qf_affinity :: "QueueAffinityInput option"

definition HANDLED :: "string list" where
  "HANDLED = [''cpu'', ''memory'', ''volcano.sh/vgpu-number'', ''volcano.sh/vgpu-memory'',
              ''volcano.sh/vgpu-cores'']"

subsection \<open>Resource lists\<close>

definition text_entry :: "string \<Rightarrow> string option \<Rightarrow> (string \<times> string) list" where
  "text_entry k s = (case s of None \<Rightarrow> [] | Some x \<Rightarrow> if trim x = [] then [] else [(k, trim x)])"

definition count_entry :: "string \<Rightarrow> rat option \<Rightarrow> (string \<times> string) list" where
  "count_entry k n = (case n of None \<Rightarrow> [] | Some x \<Rightarrow> if x > 0 then [(k, show_num x)] else [])"

definition native_entries :: "ResourceListFV \<Rightarrow> (string \<times> string) list" where
  "native_entries r =
    text_entry ''cpu'' (rl_cpu r) @ text_entry ''memory'' (rl_memory r)
    @ count_entry ''volcano.sh/vgpu-number'' (rl_vgpuNumber r)
    @ count_entry ''volcano.sh/vgpu-memory'' (rl_vgpuMemory r)
    @ count_entry ''volcano.sh/vgpu-cores'' (rl_vgpuCores r)"

definition resourceListFVToRecord :: "ResourceListFV option \<Rightarrow> (string \<times> string) list" where
  "resourceListFVToRecord v =
    (case v of
       None \<Rightarrow> []
     | Some r \<Rightarrow> add_rows HANDLED (case rl_extras r of None \<Rightarrow> [] | Some rs \<Rightarrow> rs) (native_entries r))"

definition emptyResourceListFV :: ResourceListFV where
  "emptyResourceListFV = \<lparr>rl_cpu = None, rl_memory = None, rl_vgpuNumber = None,
     rl_vgpuMemory = None, rl_vgpuCores = None, rl_extras = Some []\<rparr>"

definition quantity_count :: "string \<Rightarrow> rat option" where
  "quantity_count s = (let n = parseQuantity (Some s) in if n > 0 then Some n else None)"

definition record_step :: "string \<times> json \<Rightarrow> ResourceListFV \<Rightarrow> ResourceListFV" where
  "record_step e out =
    (let k = fst e; s = js_String (snd e) in
     if k = ''cpu'' then out\<lparr>rl_cpu := Some s\<rparr>
     else if k = ''memory'' then out\<lparr>rl_memory := Some s\<rparr>
     else if k = ''volcano.sh/vgpu-number'' then out\<lparr>rl_vgpuNumber := quantity_count s\<rparr>
     else if k = ''volcano.sh/vgpu-memory'' then out\<lparr>rl_vgpuMemory := quantity_count s\<rparr>
     else if k = ''volcano.sh/vgpu-cores'' then out\<lparr>rl_vgpuCores := quantity_count s\<rparr>
     else out\<lparr>rl_extras := Some ((case rl_extras out of None \<Rightarrow> [] | Some rs \<Rightarrow> rs) @ [(Some k, Some s)])\<rparr>)"

definition recordToResourceListFV :: "jval \<Rightarrow> ResourceListFV" where
  "recordToResourceListFV rec =
    (if \<not> truthy rec then emptyResourceListFV
     else fold record_step (jentries (the rec)) emptyResourceListFV)"

subsection \<open>Affinity\<close>

definition trimList :: "string list option \<Rightarrow> string list" where
  "trimList xs = filter (\<lambda>s. s \<noteq> []) (map trim (case xs of None \<Rightarrow> [] | Some l \<Rightarrow> l))"

definition trim_terms :: "GroupTerms option \<Rightarrow> GroupTerms" where
  "trim_terms t = \<lparr>gt_required = Some (trimList (Option.bind t gt_required)),
                   gt_preferred = Some (trimList (Option.bind t gt_preferred))\<rparr>"

definition affinityFVToInput :: "QueueAffinityInput option \<Rightarrow> QueueAffinityInput option" where
  "affinityFVToInput a =
    (case a of
       None \<Rightarrow> None
     | Some f \<Rightarrow>
       let aff = trim_terms (qa_nodeGroupAffinity f);
           anti = trim_terms (qa_nodeGroupAntiAffinity f);
           len = (\<lambda>l. length (case l of None \<Rightarrow> [] | Some xs \<Rightarrow> xs));
           hasAny = len (gt_required aff) + len (gt_preferred aff)
                  + len (gt_required anti) + len (gt_preferred anti) > 0
       in if \<not> hasAny then None
          else Some \<lparr>qa_nodeGroupAffinity = Some aff, qa_nodeGroupAntiAffinity = Some anti\<rparr>)"

definition only_strings :: "jval \<Rightarrow> string list" where
  "only_strings v = (case as_array v of None \<Rightarrow> [] | Some xs \<Rightarrow> List.map_filter (\<lambda>x. as_str (Some x)) xs)"

definition pick_terms :: "jval \<Rightarrow> GroupTerms option" where
  "pick_terms obj =
    (if \<not> truthy obj \<or> \<not> typeof_object obj then None
     else let req = only_strings (oget ''requiredDuringSchedulingIgnoredDuringExecution'' obj);
              pref = only_strings (oget ''preferredDuringSchedulingIgnoredDuringExecution'' obj)
          in if req = [] \<and> pref = [] then None
             else Some \<lparr>gt_required = (if req = [] then None else Some req),
                        gt_preferred = (if pref = [] then None else Some pref)\<rparr>)"

definition affinityFromManifest :: "jval \<Rightarrow> QueueAffinityInput option" where
  "affinityFromManifest a =
    (if \<not> truthy a \<or> \<not> typeof_object a then None
     else let aff = pick_terms (oget ''nodeGroupAffinity'' a);
              anti = pick_terms (oget ''nodeGroupAntiAffinity'' a)
          in if aff = None \<and> anti = None then None
             else Some \<lparr>qa_nodeGroupAffinity = aff, qa_nodeGroupAntiAffinity = anti\<rparr>)"

subsection \<open>The form and its manifest\<close>

definition nonempty :: "'a list \<Rightarrow> 'a list option" where
  "nonempty m = (if m = [] then None else Some m)"

definition queue_fvToInput :: "QueueFV \<Rightarrow> QueueInput option" where
  "queue_fvToInput v = do {
     name \<leftarrow> trim_or [] (qf_name v);
     parent \<leftarrow> tr (qf_parent v);
     type \<leftarrow> tr (qf_type v);
     Some \<lparr>qi_name = name,
           qi_weight = Some (case qf_weight v of None \<Rightarrow> 1 | Some w \<Rightarrow> w),
           qi_capability = Some (resourceListFVToRecord (qf_capability v)),
           qi_deserved = nonempty (resourceListFVToRecord (qf_deserved v)),
           qi_guarantee = nonempty (resourceListFVToRecord (qf_guarantee v)),
           qi_reclaimable = qf_reclaimable v,
           qi_parent = parent,
           qi_priority = qf_priority v,
           qi_type = type,
           qi_affinity = affinityFVToInput (qf_affinity v)\<rparr>
   }"

definition queue_formValuesFromManifest :: "jval \<Rightarrow> jval \<Rightarrow> QueueFV" where
  "queue_formValuesFromManifest obj fallbackName =
    (let spec = coalesce (oget ''spec'' obj) (Some (JObj [])) in
     \<lparr>qf_name = coalesce (opath [''metadata'', ''name''] obj) fallbackName,
      qf_weight = Some (case as_num (oget ''weight'' spec) of Some w \<Rightarrow> w | None \<Rightarrow> 1),
      qf_priority = as_num (oget ''priority'' spec),
      qf_reclaimable = Some (case as_bool (oget ''reclaimable'' spec) of Some b \<Rightarrow> b | None \<Rightarrow> True),
      qf_parent = coalesce (oget ''parent'' spec) None,
      qf_type = coalesce (oget ''type'' spec) None,
      qf_capability = Some (recordToResourceListFV (oget ''capability'' spec)),
      qf_deserved = Some (recordToResourceListFV (oget ''deserved'' spec)),
      qf_guarantee = Some (recordToResourceListFV (opath [''guarantee'', ''resource''] spec)),
      qf_affinity = affinityFromManifest (oget ''affinity'' spec)\<rparr>)"

definition queue_encode :: "QueueFV \<Rightarrow> json option" where
  "queue_encode fv = map_option buildQueueManifest (queue_fvToInput fv)"

definition queue_decode :: "QueueFV \<Rightarrow> json \<Rightarrow> QueueFV option" where
  "queue_decode old parsed =
    (let name = coalesce (opath [''metadata'', ''name''] (Some parsed)) (qf_name old)
     in Some (queue_formValuesFromManifest (Some parsed) name))"

text \<open>editOriginalRef: what an edit keeps beside the fields, and the values the
  drawer opens with.\<close>

record QueuePreserved =
  qp_extendClusters :: jval
  qp_dequeueStrategy :: jval

definition queue_create :: QueueFV where
  "queue_create = \<lparr>qf_name = None, qf_weight = Some 1, qf_priority = None,
     qf_reclaimable = Some True, qf_parent = None, qf_type = None, qf_capability = None,
     qf_deserved = None, qf_guarantee = None, qf_affinity = None\<rparr>"

definition queue_load :: "jval \<Rightarrow> string \<Rightarrow> QueueFV \<times> QueuePreserved" where
  "queue_load obj name =
    (let spec = coalesce (oget ''spec'' obj) (Some (JObj []));
         ec = oget ''extendClusters'' spec
     in (queue_formValuesFromManifest obj (Some (JStr name)),
         \<lparr>qp_extendClusters = (if is_array ec then ec else None),
          qp_dequeueStrategy = coalesce (oget ''dequeueStrategy'' spec) None\<rparr>))"

definition queue_submit_manifest :: "QueuePreserved option \<Rightarrow> QueueFV \<Rightarrow> json option" where
  "queue_submit_manifest orig v = do {
     m \<leftarrow> queue_encode v;
     Some (case orig of
         None \<Rightarrow> m
       | Some p \<Rightarrow> set_spec_if ''dequeueStrategy'' (qp_dequeueStrategy p)
                    (set_spec_if ''extendClusters'' (qp_extendClusters p) m))
   }"

definition queue_switch where
  "queue_switch = drawer_switch queue_encode queue_decode"

definition queue_submit where
  "queue_submit orig = drawer_submit (queue_submit_manifest orig)"

subsection \<open>Resource lists read back\<close>

text \<open>Counts the form can hold: whole numbers that are finite JavaScript numbers.\<close>

definition whole :: "rat \<Rightarrow> bool" where
  "whole x \<longleftrightarrow> 0 \<le> x \<and> x = of_int \<lfloor>x\<rfloor> \<and> js_finite x"

definition whole_opt :: "rat option \<Rightarrow> bool" where
  "whole_opt n = (case n of None \<Rightarrow> True | Some x \<Rightarrow> whole x)"

lemma whole_nat: "whole x \<Longrightarrow> \<exists>k. x = of_nat k \<and> js_finite (of_nat k)"
  unfolding whole_def by (metis of_nat_nat of_int_0_le_iff)

lemma parseQuantity_show: "whole x \<Longrightarrow> parseQuantity (Some (show_num x)) = x"
  using show_nat_digits js_number_show_nat
  by (auto dest!: whole_nat simp: show_num_nat intro!: parseQuantity_plain)

lemma quantity_count_show [codec_simps]:
  "whole x \<Longrightarrow> x > 0 \<Longrightarrow> quantity_count (show_num x) = Some x"
  by (simp add: quantity_count_def parseQuantity_show)

definition counts_whole :: "ResourceListFV option \<Rightarrow> bool" where
  "counts_whole v = (case v of None \<Rightarrow> True
     | Some r \<Rightarrow> whole_opt (rl_vgpuNumber r) \<and> whole_opt (rl_vgpuMemory r) \<and> whole_opt (rl_vgpuCores r))"

lemma native_keys: "fst ` set (native_entries r) \<subseteq> set HANDLED"
  by (auto simp: native_entries_def text_entry_def count_entry_def HANDLED_def split: option.splits if_splits)

lemma record_as_native:
  "resourceListFVToRecord v =
    (case v of None \<Rightarrow> [] | Some r \<Rightarrow> native_entries r @
       add_rows HANDLED (case rl_extras r of None \<Rightarrow> [] | Some rs \<Rightarrow> rs) [])"
  by (simp add: resourceListFVToRecord_def add_rows_base[OF native_keys] split: option.splits)

lemma fold_extras:
  assumes "list_all (clean_pair HANDLED) ext" "rl_extras out = Some E"
  shows "fold record_step (map (\<lambda>(k, v). (k, JStr v)) ext) out =
    out\<lparr>rl_extras := Some (E @ to_rows ext)\<rparr>"
  using assms
proof (induction ext arbitrary: out E)
  case Nil
  then show ?case by (simp add: to_rows_def)
next
  case (Cons p ext)
  obtain k v where p: "p = (k, v)" by force
  have "record_step (k, JStr v) out = out\<lparr>rl_extras := Some (E @ [(Some k, Some v)])\<rparr>"
    using Cons.prems p by (auto simp: record_step_def clean_pair_def HANDLED_def)
  with Cons p show ?case by (simp add: to_rows_def)
qed

definition trimmed_native :: "ResourceListFV \<Rightarrow> ResourceListFV" where
  "trimmed_native r = emptyResourceListFV
     \<lparr>rl_cpu := map_option trim (Option.bind (rl_cpu r) (\<lambda>s. if trim s = [] then None else Some s)),
      rl_memory := map_option trim (Option.bind (rl_memory r) (\<lambda>s. if trim s = [] then None else Some s)),
      rl_vgpuNumber := Option.bind (rl_vgpuNumber r) (\<lambda>x. if x > 0 then Some x else None),
      rl_vgpuMemory := Option.bind (rl_vgpuMemory r) (\<lambda>x. if x > 0 then Some x else None),
      rl_vgpuCores := Option.bind (rl_vgpuCores r) (\<lambda>x. if x > 0 then Some x else None)\<rparr>"

lemma fold_text:
  "fold record_step (map (\<lambda>(k, v). (k, JStr v)) (text_entry k s)) out =
    (case Option.bind s (\<lambda>s. if trim s = [] then None else Some s) of
       None \<Rightarrow> out | Some x \<Rightarrow> record_step (k, JStr (trim x)) out)"
  by (simp add: text_entry_def split: option.splits)

lemma fold_count:
  "fold record_step (map (\<lambda>(k, v). (k, JStr v)) (count_entry k n)) out =
    (case Option.bind n (\<lambda>x. if x > 0 then Some x else None) of
       None \<Rightarrow> out | Some x \<Rightarrow> record_step (k, JStr (show_num x)) out)"
  by (simp add: count_entry_def split: option.splits)

lemma record_step_native:
  "record_step (''cpu'', JStr s) out = out\<lparr>rl_cpu := Some s\<rparr>"
  "record_step (''memory'', JStr s) out = out\<lparr>rl_memory := Some s\<rparr>"
  "record_step (''volcano.sh/vgpu-number'', JStr s) out = out\<lparr>rl_vgpuNumber := quantity_count s\<rparr>"
  "record_step (''volcano.sh/vgpu-memory'', JStr s) out = out\<lparr>rl_vgpuMemory := quantity_count s\<rparr>"
  "record_step (''volcano.sh/vgpu-cores'', JStr s) out = out\<lparr>rl_vgpuCores := quantity_count s\<rparr>"
  by (simp_all add: record_step_def)

lemma fold_native:
  assumes "counts_whole (Some r)"
  shows "fold record_step (map (\<lambda>(k, v). (k, JStr v)) (native_entries r)) emptyResourceListFV
    = trimmed_native r"
  using assms
  by (auto simp: native_entries_def fold_text fold_count record_step_native trimmed_native_def
      counts_whole_def whole_opt_def quantity_count_show emptyResourceListFV_def
      split: option.splits Option.bind_splits)

lemma native_trimmed: "native_entries (trimmed_native r) = native_entries r"
  by (auto simp: native_entries_def trimmed_native_def text_entry_def count_entry_def
      emptyResourceListFV_def split: option.splits Option.bind_splits)

lemma native_extras_irrelevant [simp]: "native_entries (r\<lparr>rl_extras := e\<rparr>) = native_entries r"
  by (simp add: native_entries_def)

lemma clean_extras: "clean_map HANDLED (add_rows HANDLED rows [])"
  by (rule add_rows_clean) simp

lemma recordToResourceListFV_map:
  "recordToResourceListFV (if m \<noteq> [] then Some (jsmap m) else None) =
    fold record_step (map (\<lambda>(k, v). (k, JStr v)) m) emptyResourceListFV"
  by (simp add: recordToResourceListFV_def jsmap_def)

text \<open>A record the form wrote reads back to a list that writes the same record.\<close>

lemma resource_reread:
  assumes "counts_whole v"
  defines "m \<equiv> resourceListFVToRecord v"
  defines "v' \<equiv> recordToResourceListFV (if m \<noteq> [] then Some (jsmap m) else None)"
  shows "resourceListFVToRecord (Some v') = m \<and> counts_whole (Some v')"
proof (cases v)
  case None
  then show ?thesis
    by (simp add: v'_def m_def resourceListFVToRecord_def recordToResourceListFV_def
        emptyResourceListFV_def add_rows_def native_entries_def text_entry_def count_entry_def
        counts_whole_def whole_opt_def)
next
  case (Some r)
  define ext where "ext = add_rows HANDLED (case rl_extras r of None \<Rightarrow> [] | Some rs \<Rightarrow> rs) []"
  have m: "m = native_entries r @ ext" using Some by (simp add: m_def record_as_native ext_def)
  have ext: "clean_map HANDLED ext" unfolding ext_def by (rule clean_extras)
  have "rl_extras (trimmed_native r) = Some []" by (simp add: trimmed_native_def emptyResourceListFV_def)
  moreover have "v' = fold record_step (map (\<lambda>(k, v). (k, JStr v)) m) emptyResourceListFV"
    unfolding v'_def by (rule recordToResourceListFV_map)
  ultimately have v': "v' = (trimmed_native r)\<lparr>rl_extras := Some (to_rows ext)\<rparr>"
    using fold_native[of r] fold_extras[of ext "trimmed_native r" "[]"] assms(1) Some ext
    by (simp add: m clean_map_def)
  have "counts_whole (Some v')"
    using assms(1) Some
    by (auto simp: v' counts_whole_def whole_opt_def trimmed_native_def emptyResourceListFV_def
        split: option.splits Option.bind_splits)
  then show ?thesis
    using ext by (simp add: v' m record_as_native add_rows_to_rows native_trimmed)
qed

subsection \<open>Stability of the queue form\<close>

lemma only_strings_jstrs [simp]: "only_strings (Some (jstrs xs)) = xs"
  by (induction xs) (auto simp: only_strings_def jstrs_def)

lemma jsmap_truthy [simp]: "truthy (Some (jsmap m))" "typeof_object (Some (jsmap m))"
  by (simp_all add: jsmap_def)

lemma only_strings_None [simp]: "only_strings None = []"
  by (simp add: only_strings_def)

definition clean_list :: "string list \<Rightarrow> bool" where
  "clean_list xs \<longleftrightarrow> list_all (\<lambda>s. s \<noteq> [] \<and> trim s = s) xs"

lemma trimList_clean: "clean_list (trimList xs)"
  by (auto simp: clean_list_def trimList_def list_all_iff)

lemma clean_list_fix:
  "clean_list xs \<Longrightarrow> trimList (Some xs) = xs" "clean_list xs \<Longrightarrow> keep_nonblank (Some xs) = xs"
  by (auto simp: clean_list_def trimList_def keep_nonblank_def list_all_iff filter_id_conv
      intro: map_idI cong: map_cong)

lemma trimList_None [simp]: "trimList None = []"
  by (simp add: trimList_def)

lemma pick_expand:
  assumes "clean_list r" "clean_list p"
  shows "pick_terms (expand_terms (Some \<lparr>gt_required = Some r, gt_preferred = Some p\<rparr>)) =
    (if r = [] \<and> p = [] then None
     else Some \<lparr>gt_required = nonempty r, gt_preferred = nonempty p\<rparr>)"
  using assms
  by (auto simp: pick_terms_def expand_terms_def clean_list_fix nonempty_def map_of_app Let_def)

lemma trimList_nonempty: "clean_list r \<Longrightarrow> trimList (nonempty r) = r"
  by (auto simp: nonempty_def clean_list_fix)

lemma trim_terms_pick:
  assumes "clean_list r" "clean_list p"
  defines "t \<equiv> \<lparr>gt_required = Some r, gt_preferred = Some p\<rparr>"
  shows "trim_terms (pick_terms (expand_terms (Some t))) = t"
  using assms by (auto simp: pick_expand trim_terms_def trimList_nonempty clean_list_def)

lemma trim_terms_shape:
  obtains r p where "trim_terms t = \<lparr>gt_required = Some r, gt_preferred = Some p\<rparr>"
    "clean_list r" "clean_list p"
  by (simp add: trim_terms_def trimList_clean)

lemma expand_None:
  "clean_list r \<Longrightarrow> clean_list p \<Longrightarrow>
   expand_terms (Some \<lparr>gt_required = Some r, gt_preferred = Some p\<rparr>) = None \<longleftrightarrow> r = [] \<and> p = []"
  by (auto simp: expand_terms_def clean_list_fix Let_def)

lemma expand_truthy:
  "expand_terms t = Some j \<Longrightarrow> truthy (Some j) \<and> typeof_object (Some j)"
  by (auto simp: expand_terms_def Let_def split: option.splits if_splits)

text \<open>The affinity block the form wrote reads back to the same block.\<close>

lemma affinity_reread:
  "affinityFVToInput (affinityFromManifest (buildQueueAffinity (affinityFVToInput a))) =
    affinityFVToInput a"
proof (cases "affinityFVToInput a")
  case None
  then show ?thesis
    by (simp add: buildQueueAffinity_def affinityFromManifest_def affinityFVToInput_def)
next
  case (Some f)
  then obtain x where a: "a = Some x" by (auto simp: affinityFVToInput_def split: option.splits)
  obtain r p where rp: "trim_terms (qa_nodeGroupAffinity x) = \<lparr>gt_required = Some r, gt_preferred = Some p\<rparr>"
    "clean_list r" "clean_list p" by (rule trim_terms_shape)
  obtain r' p' where rp': "trim_terms (qa_nodeGroupAntiAffinity x) = \<lparr>gt_required = Some r', gt_preferred = Some p'\<rparr>"
    "clean_list r'" "clean_list p'" by (rule trim_terms_shape)
  define t where "t = \<lparr>gt_required = Some r, gt_preferred = Some p\<rparr>"
  define u where "u = \<lparr>gt_required = Some r', gt_preferred = Some p'\<rparr>"
  have ne: "r \<noteq> [] \<or> p \<noteq> [] \<or> r' \<noteq> [] \<or> p' \<noteq> []"
    and f: "f = \<lparr>qa_nodeGroupAffinity = Some t, qa_nodeGroupAntiAffinity = Some u\<rparr>"
    using Some a rp(1) rp'(1) by (auto simp: affinityFVToInput_def Let_def t_def u_def split: if_splits)
  have none: "\<not> (expand_terms (Some t) = None \<and> expand_terms (Some u) = None)"
    using ne rp rp' by (simp add: t_def u_def expand_None)
  have b: "buildQueueAffinity (Some f) = Some (JObj (prop_opt ''nodeGroupAffinity'' (expand_terms (Some t))
      @ prop_opt ''nodeGroupAntiAffinity'' (expand_terms (Some u))))"
    using none by (auto simp: buildQueueAffinity_def f Let_def)
  have pk: "\<not> (pick_terms (expand_terms (Some t)) = None \<and> pick_terms (expand_terms (Some u)) = None)"
    using ne rp rp' by (auto simp: t_def u_def pick_expand)
  have "affinityFromManifest (buildQueueAffinity (Some f)) =
    Some \<lparr>qa_nodeGroupAffinity = pick_terms (expand_terms (Some t)),
          qa_nodeGroupAntiAffinity = pick_terms (expand_terms (Some u))\<rparr>"
    using pk unfolding b by (auto simp: affinityFromManifest_def map_of_app Let_def)
  moreover have tt: "trim_terms (pick_terms (expand_terms (Some t))) = t"
    "trim_terms (pick_terms (expand_terms (Some u))) = u"
    using rp rp' by (simp_all add: t_def u_def trim_terms_pick)
  have "affinityFVToInput (Some \<lparr>qa_nodeGroupAffinity = pick_terms (expand_terms (Some t)),
      qa_nodeGroupAntiAffinity = pick_terms (expand_terms (Some u))\<rparr>) = Some f"
    using ne by (auto simp: affinityFVToInput_def Let_def tt f) (auto simp: t_def u_def)
  ultimately show ?thesis by (simp only: Some)
qed

lemma queue_spec_lookup [build_simps]:
  "map_of (queue_spec i) ''weight'' = Some (JNum (case qi_weight i of Some w \<Rightarrow> w | None \<Rightarrow> 1))"
  "map_of (queue_spec i) ''capability'' =
    (case qi_capability i of Some m \<Rightarrow> if m \<noteq> [] then Some (jsmap m) else None | None \<Rightarrow> None)"
  "map_of (queue_spec i) ''deserved'' =
    (case qi_deserved i of Some m \<Rightarrow> if m \<noteq> [] then Some (jsmap m) else None | None \<Rightarrow> None)"
  "map_of (queue_spec i) ''guarantee'' =
    (case qi_guarantee i of Some m \<Rightarrow> if m \<noteq> [] then Some (JObj [(''resource'', jsmap m)]) else None
     | None \<Rightarrow> None)"
  "map_of (queue_spec i) ''reclaimable'' = map_option JBool (qi_reclaimable i)"
  "map_of (queue_spec i) ''parent'' =
    (case qi_parent i of Some x \<Rightarrow> if x \<noteq> [] then Some (JStr x) else None | None \<Rightarrow> None)"
  "map_of (queue_spec i) ''priority'' = map_option JNum (qi_priority i)"
  "map_of (queue_spec i) ''type'' =
    (case qi_type i of Some x \<Rightarrow> if x \<noteq> [] then Some (JStr x) else None | None \<Rightarrow> None)"
  "map_of (queue_spec i) ''affinity'' = buildQueueAffinity (qi_affinity i)"
  by (simp_all add: queue_spec_def map_of_app split: option.splits)

definition queue_ok :: "QueueFV \<Rightarrow> bool" where
  "queue_ok fv \<longleftrightarrow> qf_reclaimable fv \<noteq> None \<and> counts_whole (qf_capability fv) \<and>
     counts_whole (qf_deserved fv) \<and> counts_whole (qf_guarantee fv)"

lemma queue_fvToInput_fields:
  assumes "queue_fvToInput fv = Some i"
  obtains name parent type where "trim_or [] (qf_name fv) = Some name" "tr (qf_parent fv) = Some parent"
    "tr (qf_type fv) = Some type"
    "i = \<lparr>qi_name = name, qi_weight = Some (case qf_weight fv of None \<Rightarrow> 1 | Some w \<Rightarrow> w),
           qi_capability = Some (resourceListFVToRecord (qf_capability fv)),
           qi_deserved = nonempty (resourceListFVToRecord (qf_deserved fv)),
           qi_guarantee = nonempty (resourceListFVToRecord (qf_guarantee fv)),
           qi_reclaimable = qf_reclaimable fv, qi_parent = parent,
           qi_priority = qf_priority fv, qi_type = type,
           qi_affinity = affinityFVToInput (qf_affinity fv)\<rparr>"
  using assms by (auto simp: queue_fvToInput_def bind_eq_Some_iff)

lemma coalesce_None_id: "v \<noteq> Some JNull \<Longrightarrow> coalesce v None = v"
  by (cases v) (auto simp: coalesce_def)

lemma queue_stable:
  fixes fb :: jval
  assumes ok: "queue_ok fv" and i: "queue_fvToInput fv = Some i"
  defines "fv' \<equiv> queue_formValuesFromManifest (Some (buildQueueManifest i)) fb"
  shows "queue_fvToInput fv' = Some i \<and> queue_ok fv'"
proof -
  obtain name parent type where f: "trim_or [] (qf_name fv) = Some name" "tr (qf_parent fv) = Some parent"
    "tr (qf_type fv) = Some type" and
    i': "i = \<lparr>qi_name = name, qi_weight = Some (case qf_weight fv of None \<Rightarrow> 1 | Some w \<Rightarrow> w),
           qi_capability = Some (resourceListFVToRecord (qf_capability fv)),
           qi_deserved = nonempty (resourceListFVToRecord (qf_deserved fv)),
           qi_guarantee = nonempty (resourceListFVToRecord (qf_guarantee fv)),
           qi_reclaimable = qf_reclaimable fv, qi_parent = parent,
           qi_priority = qf_priority fv, qi_type = type,
           qi_affinity = affinityFVToInput (qf_affinity fv)\<rparr>"
    using i by (rule queue_fvToInput_fields)
  let ?rd = "\<lambda>v. recordToResourceListFV (if resourceListFVToRecord v \<noteq> [] then Some (jsmap (resourceListFVToRecord v)) else None)"
  have spec: "oget ''spec'' (Some (buildQueueManifest i)) = Some (JObj (queue_spec i))"
    "opath [''metadata'', ''name''] (Some (buildQueueManifest i)) = Some (JStr name)"
    by (simp_all add: buildQueueManifest_def i')
  have fv': "fv' = \<lparr>qf_name = Some (JStr name), qf_weight = qi_weight i, qf_priority = qi_priority i,
      qf_reclaimable = Some (case qf_reclaimable fv of Some b \<Rightarrow> b | None \<Rightarrow> True),
      qf_parent = (case parent of Some x \<Rightarrow> if x \<noteq> [] then Some (JStr x) else None | None \<Rightarrow> None),
      qf_type = (case type of Some x \<Rightarrow> if x \<noteq> [] then Some (JStr x) else None | None \<Rightarrow> None),
      qf_capability = Some (?rd (qf_capability fv)), qf_deserved = Some (?rd (qf_deserved fv)),
      qf_guarantee = Some (?rd (qf_guarantee fv)),
      qf_affinity = affinityFromManifest (buildQueueAffinity (affinityFVToInput (qf_affinity fv)))\<rparr>"
    unfolding fv'_def queue_formValuesFromManifest_def spec Let_def
    by (simp add: queue_spec_lookup i' nonempty_def coalesce_None_id split: option.splits)
  have name: "trim name = name" using f(1) by (rule trim_or_trimmed[rotated]) simp
  have re: "resourceListFVToRecord (Some (?rd v)) = resourceListFVToRecord v \<and> counts_whole (Some (?rd v))"
    if "counts_whole v" for v using resource_reread[OF that] by simp
  show ?thesis
    using ok f re name tr_reread[OF f(2)] tr_reread[OF f(3)]
    by (auto simp: fv' queue_ok_def queue_fvToInput_def i' affinity_reread split: option.splits)
qed

interpretation queue_codec: form_codec queue_encode queue_decode queue_ok
proof unfold_locales
  show "\<exists>ps. m = JObj ps" if "queue_encode fv = Some m" for fv m
    using that by (auto simp: queue_encode_def buildQueueManifest_def)
  show "\<exists>fv'. queue_decode old m = Some fv' \<and> queue_ok fv' \<and> queue_encode fv' = Some m"
    if ok: "queue_ok fv" and enc: "queue_encode fv = Some m" for fv old m
  proof -
    obtain i where i: "queue_fvToInput fv = Some i" "m = buildQueueManifest i"
      using enc by (auto simp: queue_encode_def)
    show ?thesis
      using queue_stable[OF ok i(1)] i(2)
      by (auto simp: queue_decode_def queue_encode_def)
  qed
qed

subsection \<open>Properties\<close>


definition sample_queue :: QueueFV where
  "sample_queue = queue_create\<lparr>qf_name := Some (JStr '' batch''), qf_parent := Some (JStr ''root''),
     qf_capability := Some (emptyResourceListFV\<lparr>rl_cpu := Some ''8 '', rl_vgpuNumber := Some 2,
        rl_extras := Some [(Some ''pods'', Some ''10'')]\<rparr>)\<rparr>"


text \<open>C16. Saving an edited queue from the form keeps the two spec fields the form
  does not show, extendClusters and dequeueStrategy, as loaded, whatever the
  user typed, and changes no other field of the manifest the form builds.\<close>

theorem queue_edit_preserves_hidden_fields:
  assumes "opath [''spec'', ''extendClusters''] obj = Some (JArr ecs)"
    "opath [''spec'', ''dequeueStrategy''] obj = Some (JStr ds)" "ds \<noteq> []"
    "queue_submit_manifest (Some (snd (queue_load obj name))) fv = Some m"
  shows "opath [''spec'', ''extendClusters''] (Some m) = Some (JArr ecs) \<and>
    opath [''spec'', ''dequeueStrategy''] (Some m) = Some (JStr ds) \<and>
    (\<exists>b. queue_encode fv = Some b \<and>
      (\<forall>k. k = ''extendClusters'' \<or> k = ''dequeueStrategy'' \<or>
           opath [''spec'', k] (Some m) = opath [''spec'', k] (Some b)))"
proof -
  obtain b where b: "queue_encode fv = Some b" using assms(4)
    by (auto simp: queue_submit_manifest_def bind_eq_Some_iff)
  obtain i where i: "b = buildQueueManifest i" using b by (auto simp: queue_encode_def)
  have hs: "has_spec b" by (simp add: i has_spec_def buildQueueManifest_def)
  obtain o1 where o1: "obj = Some o1" using assms(1) by (cases obj) auto
  have sp: "coalesce (oget ''spec'' obj) (Some (JObj [])) = oget ''spec'' obj"
    using assms(1) by (cases "oget ''spec'' obj") (auto simp: coalesce_def)
  have p: "snd (queue_load obj name) =
    \<lparr>qp_extendClusters = Some (JArr ecs), qp_dequeueStrategy = Some (JStr ds)\<rparr>"
    using assms(1,2) unfolding queue_load_def sp by (simp add: Let_def)
  have m: "m = set_spec_if ''dequeueStrategy'' (Some (JStr ds)) (set_spec_if ''extendClusters'' (Some (JArr ecs)) b)"
    using assms(4) b p by (simp add: queue_submit_manifest_def)
  show ?thesis
    using assms(3) hs b by (auto simp: m spec_set_spec_if)
qed

lemma queue_edit_preserves_hidden_fields_witness:
  "\<exists>m. queue_submit_manifest (Some (snd (queue_load
        (Some (JObj [(''spec'', JObj [(''extendClusters'', JArr [JStr ''c2'']), (''dequeueStrategy'', JStr ''fifo'')])]))
        ''q''))) sample_queue = Some m \<and>
     opath [''spec'', ''extendClusters''] (Some m) = Some (JArr [JStr ''c2''])"
proof -
  let ?o = "Some (JObj [(''spec'', JObj [(''extendClusters'', JArr [JStr ''c2'']), (''dequeueStrategy'', JStr ''fifo'')])])"
  obtain m where m: "queue_submit_manifest (Some (snd (queue_load ?o ''q''))) sample_queue = Some m"
    by (simp add: queue_submit_manifest_def queue_encode_def queue_fvToInput_def sample_queue_def queue_create_def)
  then show ?thesis
    using queue_edit_preserves_hidden_fields[of ?o "[JStr ''c2'']" "''fifo''" "''q''" sample_queue m] by simp
qed

end
