(* ===== verification/JobForm.thy ===== *)
theory JobForm
  imports QueueForm
begin

text \<open>
  pages/Compute/Volcano/JobForm.tsx: the conversions between the job form and
  the Job manifest, the parts of an edited job that the form does not show and
  their re-application (applyPreserved), and the check of immutable fields.
  The conversions throw a TypeError (None) where the source calls trim on a
  value that is not a string.
\<close>

record TaskFV =
  tf_name :: jval
  tf_replicas :: rat
  tf_image :: jval
  tf_imagePullPolicy :: "string option"
  tf_command :: "string option"
  tf_args :: "string option"
  tf_cpu :: jval
  tf_memory :: jval
  tf_vgpuNumber :: "rat option"
  tf_vgpuMemory :: "rat option"
  tf_vgpuCores :: "rat option"
  tf_resourceExtras :: "rows option"
  tf_restartPolicy :: jval
  tf_topologyPolicy :: jval
  tf_taskMaxRetry :: "rat option"
  tf_taskMinAvailable :: "rat option"

record JobFV =
  jf_name :: jval
  jf_namespace :: jval
  jf_queue :: jval
  jf_priorityClassName :: jval
  jf_minAvailable :: "rat option"
  jf_minSuccess :: "rat option"
  jf_maxRetry :: "rat option"
  jf_ttlSecondsAfterFinished :: "rat option"
  jf_runningEstimate :: jval
  jf_plugins :: "string list option"
  jf_tasks :: "TaskFV list"
  jf_ntMode :: "string option"
  jf_ntHighestTierAllowed :: "rat option"
  jf_ntHighestTierName :: jval

subsection \<open>Form to manifest\<close>

text \<open>A split of the trimmed text at runs of white space is its words.\<close>

definition splitWS :: "string option \<Rightarrow> string list option" where
  "splitWS s = (case s of None \<Rightarrow> None | Some x \<Rightarrow> if trim x = [] then None else Some (words x))"

definition str_or :: "string \<Rightarrow> string option \<Rightarrow> string" where
  "str_or d s = (case s of None \<Rightarrow> d | Some x \<Rightarrow> x)"

text \<open>The limits of a task: the entries and rows are collected exactly as the
  queue form collects a resource list.\<close>

definition task_resource_list :: "TaskFV \<Rightarrow> string option \<Rightarrow> string option \<Rightarrow> ResourceListFV" where
  "task_resource_list t cpu memory =
    \<lparr>rl_cpu = cpu, rl_memory = memory, rl_vgpuNumber = tf_vgpuNumber t,
     rl_vgpuMemory = tf_vgpuMemory t, rl_vgpuCores = tf_vgpuCores t,
     rl_extras = tf_resourceExtras t\<rparr>"

definition task_resources :: "TaskFV \<Rightarrow> string option \<Rightarrow> string option \<Rightarrow> TaskResources option" where
  "task_resources t cpu memory =
    (let requests = text_entry ''cpu'' cpu @ text_entry ''memory'' memory;
         limits = resourceListFVToRecord (Some (task_resource_list t cpu memory))
     in if requests = [] \<and> limits = [] then None
        else Some \<lparr>tr_requests = nonempty requests, tr_limits = nonempty limits\<rparr>)"

definition task_toInput :: "TaskFV \<Rightarrow> JobTaskInput option" where
  "task_toInput t = do {
     cpu \<leftarrow> tr (tf_cpu t);
     memory \<leftarrow> tr (tf_memory t);
     name \<leftarrow> tr (tf_name t);
     image \<leftarrow> tr (tf_image t);
     Some \<lparr>jt_name = str_or ''task'' name,
           jt_replicas = tf_replicas t,
           jt_image = str_or [] image,
           jt_command = splitWS (tf_command t),
           jt_args = splitWS (tf_args t),
           jt_resources = task_resources t cpu memory,
           jt_imagePullPolicy = (if tf_imagePullPolicy t = Some [] then None else tf_imagePullPolicy t),
           jt_restartPolicy = tf_restartPolicy t,
           jt_minAvailable = tf_taskMinAvailable t,
           jt_maxRetry = tf_taskMaxRetry t,
           jt_topologyPolicy = tf_topologyPolicy t\<rparr>
   }"

definition hard_or_soft :: "string option \<Rightarrow> string option" where
  "hard_or_soft m = (if m = Some ''hard'' \<or> m = Some ''soft'' then m else None)"

definition job_fvToInput :: "JobFV \<Rightarrow> JobInput option" where
  "job_fvToInput v = do {
     name \<leftarrow> tr (jf_name v);
     namespace \<leftarrow> tr (jf_namespace v);
     queue \<leftarrow> tr (jf_queue v);
     pc \<leftarrow> tr (jf_priorityClassName v);
     est \<leftarrow> tr (jf_runningEstimate v);
     tier \<leftarrow> tr (jf_ntHighestTierName v);
     tasks \<leftarrow> those (map task_toInput (jf_tasks v));
     Some \<lparr>ji_name = str_or [] name, ji_namespace = str_or ''default'' namespace,
           ji_queue = queue, ji_priorityClassName = pc,
           ji_minAvailable = jf_minAvailable v, ji_minSuccess = jf_minSuccess v,
           ji_maxRetry = jf_maxRetry v,
           ji_ttlSecondsAfterFinished = jf_ttlSecondsAfterFinished v,
           ji_runningEstimate = est, ji_plugins = jf_plugins v, ji_tasks = tasks,
           ji_networkTopologyMode = hard_or_soft (jf_ntMode v),
           ji_networkTopologyHighestTierAllowed = jf_ntHighestTierAllowed v,
           ji_networkTopologyHighestTierName = tier\<rparr>
   }"

subsection \<open>Manifest to form\<close>

text \<open>The two loops over limits and requests that route keys into extras: a key
  that was seen before is skipped.\<close>

fun collect_extras :: "obj \<Rightarrow> string list \<Rightarrow> rows \<times> string list" where
  "collect_extras [] seen = ([], seen)"
| "collect_extras ((k, v) # es) seen =
    (if k \<in> set seen then collect_extras es seen
     else (let (rest, s) = collect_extras es (k # seen)
           in ((Some k, Some (js_String v)) # rest, s)))"

text \<open>num: a truthy value that is not a string makes parseQuantity throw.\<close>

fun count_of :: "jval \<Rightarrow> rat option option" where
  "count_of (Some (JStr s)) = Some (if s = [] then None else quantity_count s)"
| "count_of v = (if truthy v then None else Some None)"

definition join_args :: "jval \<Rightarrow> string option" where
  "join_args v = map_option (\<lambda>xs. join '' '' (map (\<lambda>x. if x = JNull then [] else js_String x) xs)) (as_array v)"

definition pull_policies :: "string list" where
  "pull_policies = [''Always'', ''IfNotPresent'', ''Never'']"

definition empty_obj :: jval where
  "empty_obj = Some (JObj [])"

definition extract_task :: "json \<Rightarrow> TaskFV option" where
  "extract_task t =
    (if t = JNull then None else
     let podSpec = coalesce (opath [''template'', ''spec''] (Some t)) empty_obj;
         c = coalesce (jindex0 (coalesce (oget ''containers'' podSpec) (Some (JArr [])))) empty_obj;
         r = coalesce (oget ''resources'' c) empty_obj;
         lim = coalesce (oget ''limits'' r) empty_obj;
         req = coalesce (oget ''requests'' r) empty_obj;
         (e1, seen) = collect_extras (jentries (the lim)) HANDLED;
         (e2, _) = collect_extras (jentries (the req)) seen;
         pick = (\<lambda>k. coalesce (oget k lim) (oget k req));
         ipp = oget ''imagePullPolicy'' c
     in do {
       number \<leftarrow> count_of (pick ''volcano.sh/vgpu-number'');
       memory \<leftarrow> count_of (pick ''volcano.sh/vgpu-memory'');
       cores \<leftarrow> count_of (pick ''volcano.sh/vgpu-cores'');
       Some \<lparr>tf_name = coalesce (oget ''name'' (Some t)) (Some (JStr ''task'')),
             tf_replicas = (case as_num (oget ''replicas'' (Some t)) of Some n \<Rightarrow> n | None \<Rightarrow> 1),
             tf_image = coalesce (oget ''image'' c) (Some (JStr [])),
             tf_imagePullPolicy = (case as_str ipp of
                 Some s \<Rightarrow> if s \<in> set pull_policies then Some s else None | None \<Rightarrow> None),
             tf_command = join_args (oget ''command'' c),
             tf_args = join_args (oget ''args'' c),
             tf_cpu = pick ''cpu'',
             tf_memory = pick ''memory'',
             tf_vgpuNumber = number, tf_vgpuMemory = memory, tf_vgpuCores = cores,
             tf_resourceExtras = Some (e1 @ e2),
             tf_restartPolicy = coalesce (oget ''restartPolicy'' podSpec) (Some (JStr ''OnFailure'')),
             tf_topologyPolicy = oget ''topologyPolicy'' (Some t),
             tf_taskMaxRetry = as_num (oget ''maxRetry'' (Some t)),
             tf_taskMinAvailable = as_num (oget ''minAvailable'' (Some t))\<rparr>
     })"

definition main_task :: TaskFV where
  "main_task = \<lparr>tf_name = Some (JStr ''main''), tf_replicas = 1, tf_image = Some (JStr []),
     tf_imagePullPolicy = None, tf_command = None, tf_args = None, tf_cpu = None, tf_memory = None,
     tf_vgpuNumber = None, tf_vgpuMemory = None, tf_vgpuCores = None, tf_resourceExtras = None,
     tf_restartPolicy = Some (JStr ''OnFailure''), tf_topologyPolicy = None,
     tf_taskMaxRetry = None, tf_taskMinAvailable = None\<rparr>"

definition extractTasks :: "jval \<Rightarrow> TaskFV list option" where
  "extractTasks specTasks =
    (case as_array specTasks of
       None \<Rightarrow> Some [main_task]
     | Some ts \<Rightarrow> if ts = [] then Some [main_task] else those (map extract_task ts))"

text \<open>spec.plugins ? Object.keys(spec.plugins) : undefined\<close>

definition plugin_keys :: "jval \<Rightarrow> string list option" where
  "plugin_keys p = (if truthy p then Some (map fst (jentries (the p))) else None)"

definition nt_mode :: "jval \<Rightarrow> string option" where
  "nt_mode nt = hard_or_soft (as_str (oget ''mode'' nt))"

definition job_formValuesFromManifest :: "jval \<Rightarrow> jval \<Rightarrow> jval \<Rightarrow> JobFV option" where
  "job_formValuesFromManifest obj fallbackName fallbackNamespace =
    (let spec = coalesce (oget ''spec'' obj) empty_obj;
         nt = coalesce (oget ''networkTopology'' spec) empty_obj
     in do {
       tasks \<leftarrow> extractTasks (oget ''tasks'' spec);
       Some \<lparr>jf_name = coalesce (opath [''metadata'', ''name''] obj) fallbackName,
             jf_namespace = coalesce (opath [''metadata'', ''namespace''] obj) fallbackNamespace,
             jf_queue = oget ''queue'' spec,
             jf_priorityClassName = oget ''priorityClassName'' spec,
             jf_minAvailable = as_num (oget ''minAvailable'' spec),
             jf_minSuccess = as_num (oget ''minSuccess'' spec),
             jf_maxRetry = as_num (oget ''maxRetry'' spec),
             jf_ttlSecondsAfterFinished = as_num (oget ''ttlSecondsAfterFinished'' spec),
             jf_runningEstimate = coalesce (oget ''runningEstimate'' spec) None,
             jf_plugins = plugin_keys (oget ''plugins'' spec),
             jf_tasks = tasks,
             jf_ntMode = nt_mode nt,
             jf_ntHighestTierAllowed = as_num (oget ''highestTierAllowed'' nt),
             jf_ntHighestTierName = coalesce (oget ''highestTierName'' nt) None\<rparr>
     })"

subsection \<open>What an edit preserves\<close>

record TaskExtras =
  te_templateSpec :: jval
  te_dependsOn :: jval
  te_partitionPolicy :: jval

record JobPreserved =
  jp_plugins :: jval
  jp_taskPolicies :: "obj option"
  jp_taskExtras :: "(string \<times> TaskExtras) list option"
  jp_volumes :: jval
  jp_jobPolicies :: jval
  jp_schedulerName :: "string option"

text \<open>if (v) entry.k = v\<close>

definition if_truthy :: "jval \<Rightarrow> jval" where
  "if_truthy v = (if truthy v then v else None)"

definition task_key :: "json \<Rightarrow> string" where
  "task_key t = js_String (the (oget ''name'' (Some t)))"

definition collect_policies :: "json list \<Rightarrow> obj" where
  "collect_policies ts = fold (\<lambda>t m.
     if truthy (oget ''name'' (Some t)) \<and> truthy (oget ''policies'' (Some t))
     then AList.update (task_key t) (the (oget ''policies'' (Some t))) m else m) ts []"

definition task_extras_of :: "json \<Rightarrow> TaskExtras" where
  "task_extras_of t = \<lparr>te_templateSpec = if_truthy (opath [''template'', ''spec''] (Some t)),
     te_dependsOn = if_truthy (oget ''dependsOn'' (Some t)),
     te_partitionPolicy = if_truthy (oget ''partitionPolicy'' (Some t))\<rparr>"

definition no_extras :: TaskExtras where
  "no_extras = \<lparr>te_templateSpec = None, te_dependsOn = None, te_partitionPolicy = None\<rparr>"

definition collect_task_extras :: "json list \<Rightarrow> (string \<times> TaskExtras) list" where
  "collect_task_extras ts = fold (\<lambda>t m.
     if truthy (oget ''name'' (Some t)) \<and> task_extras_of t \<noteq> no_extras
     then AList.update (task_key t) (task_extras_of t) m else m) ts []"

text \<open>The preserved part of a loaded spec; tasks that cannot be iterated throw.\<close>

definition nonempty_array :: "jval \<Rightarrow> jval" where
  "nonempty_array v = (case as_array v of Some (x # xs) \<Rightarrow> v | _ \<Rightarrow> None)"

definition preserved_of_spec :: "jval \<Rightarrow> JobPreserved option" where
  "preserved_of_spec spec = do {
     ts \<leftarrow> (if nullish (oget ''tasks'' spec) then Some [] else as_array (oget ''tasks'' spec));
     let sn = as_str (oget ''schedulerName'' spec);
     Some \<lparr>jp_plugins = (if truthy (oget ''plugins'' spec) \<and> typeof_object (oget ''plugins'' spec)
                         then oget ''plugins'' spec else None),
           jp_taskPolicies = nonempty (collect_policies ts),
           jp_taskExtras = nonempty (collect_task_extras ts),
           jp_volumes = nonempty_array (oget ''volumes'' spec),
           jp_jobPolicies = nonempty_array (oget ''policies'' spec),
           jp_schedulerName = (if sn = Some ''volcano'' then None else sn)\<rparr>
   }"

definition job_load :: "jval \<Rightarrow> string \<Rightarrow> string \<Rightarrow> (JobFV \<times> JobPreserved) option" where
  "job_load obj name namespace = do {
     fv \<leftarrow> job_formValuesFromManifest obj (Some (JStr name)) (Some (JStr namespace));
     p \<leftarrow> preserved_of_spec (coalesce (oget ''spec'' obj) empty_obj);
     Some (fv, p)
   }"

text \<open>{ ...o, k: v }, where an undefined v leaves no property behind.\<close>

definition spread_set :: "string \<Rightarrow> jval \<Rightarrow> obj \<Rightarrow> obj" where
  "spread_set k v ps = (case v of Some x \<Rightarrow> AList.update k x ps | None \<Rightarrow> AList.delete k ps)"

fun rest_of :: "jval \<Rightarrow> json list option" where
  "rest_of None = Some []"
| "rest_of (Some JNull) = Some []"
| "rest_of (Some (JArr xs)) = Some (drop 1 xs)"
| "rest_of (Some (JStr s)) = Some (map (\<lambda>c. JStr [c]) (drop 1 s))"
| "rest_of (Some _) = None"

definition merge_template :: "json \<Rightarrow> json \<Rightarrow> json option" where
  "merge_template original t = do {
     let built = coalesce (opath [''template'', ''spec''] (Some t)) empty_obj;
     rest \<leftarrow> rest_of (oget ''containers'' (Some original));
     let first = coalesce (jindex0 (oget ''containers'' built)) (jindex0 (oget ''containers'' (Some original)));
     let containers = (case first of Some c \<Rightarrow> c | None \<Rightarrow> JNull) # rest;
     let spec = spread_set ''containers'' (Some (JArr containers))
       (spread_set ''restartPolicy'' (coalesce (oget ''restartPolicy'' built) (oget ''restartPolicy'' (Some original)))
         (spread_set ''schedulerName'' (coalesce (oget ''schedulerName'' built) (oget ''schedulerName'' (Some original)))
           (jentries original)));
     let template = jentries (the (coalesce (oget ''template'' (Some t)) empty_obj));
     Some (JObj (spread_set ''template'' (Some (JObj (spread_set ''spec'' (Some (JObj spec)) template))) (jentries t)))
   }"

definition merge_task :: "JobPreserved \<Rightarrow> json \<Rightarrow> json option" where
  "merge_task orig t = do {
     let policies = Option.bind (jp_taskPolicies orig) (\<lambda>m. map_of m (task_key t));
     let extras = Option.bind (jp_taskExtras orig) (\<lambda>m. map_of m (task_key t));
     let next = (if policies \<noteq> None then JObj (spread_set ''policies'' policies (jentries t)) else t);
     (case extras of
        None \<Rightarrow> Some next
      | Some e \<Rightarrow> do {
          next \<leftarrow> (case te_templateSpec e of Some original \<Rightarrow> merge_template original next | None \<Rightarrow> Some next);
          let next = (if te_dependsOn e \<noteq> None
                      then JObj (spread_set ''dependsOn'' (te_dependsOn e) (jentries next)) else next);
          Some (if te_partitionPolicy e \<noteq> None
                then JObj (spread_set ''partitionPolicy'' (te_partitionPolicy e) (jentries next)) else next)
        })
   }"

definition merge_plugins :: "json \<Rightarrow> json \<Rightarrow> json" where
  "merge_plugins orig built =
    JObj (map (\<lambda>(k, v). (k, the (coalesce (jget k orig) (Some v)))) (jentries built))"

definition preserve_spec :: "JobPreserved \<Rightarrow> json \<Rightarrow> json option" where
  "preserve_spec orig spec = do {
     let spec1 = (if truthy (jp_plugins orig) \<and> truthy (jget ''plugins'' spec)
                  then jput ''plugins'' (merge_plugins (the (jp_plugins orig)) (the (jget ''plugins'' spec))) spec
                  else spec);
     spec2 \<leftarrow> (case as_array (jget ''tasks'' spec1) of
                 None \<Rightarrow> Some spec1
               | Some ts \<Rightarrow> map_option (\<lambda>ts'. jput ''tasks'' (JArr ts') spec1) (those (map (merge_task orig) ts)));
     let spec3 = (if truthy (jp_volumes orig) then jput ''volumes'' (the (jp_volumes orig)) spec2 else spec2);
     let spec4 = (if truthy (jp_jobPolicies orig) then jput ''policies'' (the (jp_jobPolicies orig)) spec3 else spec3);
     Some (case jp_schedulerName orig of
         Some s \<Rightarrow> if s \<noteq> [] then jput ''schedulerName'' (JStr s) spec4 else spec4
       | None \<Rightarrow> spec4)
   }"

definition applyPreserved :: "JobPreserved option \<Rightarrow> json \<Rightarrow> json option" where
  "applyPreserved orig manifest =
    (case orig of
       None \<Rightarrow> Some manifest
     | Some p \<Rightarrow>
       (case jget ''spec'' manifest of
          None \<Rightarrow> None
        | Some spec \<Rightarrow> map_option (\<lambda>s. jput ''spec'' s manifest) (preserve_spec p spec)))"

definition job_encode :: "JobPreserved option \<Rightarrow> JobFV \<Rightarrow> json option" where
  "job_encode orig fv = Option.bind (job_fvToInput fv) (\<lambda>i. applyPreserved orig (buildJobManifest i))"

definition job_decode :: "JobFV \<Rightarrow> json \<Rightarrow> JobFV option" where
  "job_decode old parsed =
    (let meta = coalesce (oget ''metadata'' (Some parsed)) empty_obj
     in job_formValuesFromManifest (Some parsed)
          (coalesce (oget ''name'' meta) (jf_name old))
          (coalesce (oget ''namespace'' meta) (coalesce (jf_namespace old) (Some (JStr ''default'')))))"

definition job_switch where
  "job_switch orig = drawer_switch (job_encode orig) job_decode"

subsection \<open>Immutable fields\<close>

text \<open>diffImmutable compares the JSON text of each field, undefined as null; a
  field is here the JSON value it holds, and a task the object of its defined
  fields.  The snapshot of the loaded fields is the fields themselves.\<close>

definition jeq :: "jval \<Rightarrow> jval \<Rightarrow> bool" where
  "jeq a b = (coalesce a (Some JNull) = coalesce b (Some JNull))"

definition row_json :: "string option \<times> string option \<Rightarrow> json" where
  "row_json r = JObj (prop_opt ''key'' (map_option JStr (fst r)) @ prop_opt ''value'' (map_option JStr (snd r)))"

definition task_obj :: "TaskFV \<Rightarrow> obj" where
  "task_obj t =
    prop_opt ''name'' (tf_name t)
    @ [(''replicas'', JNum (tf_replicas t))]
    @ prop_opt ''image'' (tf_image t)
    @ prop_opt ''imagePullPolicy'' (map_option JStr (tf_imagePullPolicy t))
    @ prop_opt ''command'' (map_option JStr (tf_command t))
    @ prop_opt ''args'' (map_option JStr (tf_args t))
    @ prop_opt ''cpu'' (tf_cpu t)
    @ prop_opt ''memory'' (tf_memory t)
    @ prop_opt ''vgpuNumber'' (map_option JNum (tf_vgpuNumber t))
    @ prop_opt ''vgpuMemory'' (map_option JNum (tf_vgpuMemory t))
    @ prop_opt ''vgpuCores'' (map_option JNum (tf_vgpuCores t))
    @ prop_opt ''resourceExtras'' (map_option (\<lambda>rs. JArr (map row_json rs)) (tf_resourceExtras t))
    @ prop_opt ''restartPolicy'' (tf_restartPolicy t)
    @ prop_opt ''taskMinAvailable'' (map_option JNum (tf_taskMinAvailable t))
    @ prop_opt ''taskMaxRetry'' (map_option JNum (tf_taskMaxRetry t))
    @ prop_opt ''topologyPolicy'' (tf_topologyPolicy t)"

definition jobKeys :: "(string \<times> (JobFV \<Rightarrow> jval)) list" where
  "jobKeys = [(''name'', jf_name), (''namespace'', jf_namespace), (''queue'', jf_queue),
     (''minSuccess'', \<lambda>v. map_option JNum (jf_minSuccess v)),
     (''maxRetry'', \<lambda>v. map_option JNum (jf_maxRetry v)),
     (''ttlSecondsAfterFinished'', \<lambda>v. map_option JNum (jf_ttlSecondsAfterFinished v)),
     (''runningEstimate'', jf_runningEstimate),
     (''plugins'', \<lambda>v. map_option jstrs (jf_plugins v)),
     (''ntMode'', \<lambda>v. map_option JStr (jf_ntMode v)),
     (''ntHighestTierAllowed'', \<lambda>v. map_option JNum (jf_ntHighestTierAllowed v))]"

definition task_violations :: "nat \<Rightarrow> TaskFV \<Rightarrow> TaskFV \<Rightarrow> string list" where
  "task_violations i o1 c1 =
    (let o' = task_obj o1; c = task_obj c1;
         keys = filter (\<lambda>k. k \<noteq> ''replicas'') (remdups (map fst o' @ filter (\<lambda>k. k \<notin> fst ` set o') (map fst c)))
     in map (\<lambda>k. ''tasks['' @ show_nat i @ ''].'' @ k)
          (filter (\<lambda>k. \<not> jeq (map_of o' k) (map_of c k)) keys))"

definition diffImmutable :: "JobFV \<Rightarrow> JobFV \<Rightarrow> string list" where
  "diffImmutable orig cur =
    map fst (filter (\<lambda>(k, f). \<not> jeq (f orig) (f cur)) jobKeys)
    @ (if length (jf_tasks orig) \<noteq> length (jf_tasks cur) then [''tasks (count)'']
       else concat (map (\<lambda>i. task_violations i (jf_tasks orig ! i) (jf_tasks cur ! i))
              [0..<length (jf_tasks orig)]))"

definition job_submit ::
  "JobPreserved option \<Rightarrow> bool \<Rightarrow> JobFV option \<Rightarrow> (JobFV \<Rightarrow> JobFV option) \<Rightarrow>
   (string \<Rightarrow> string + jval) \<Rightarrow> JobFV drawer \<Rightarrow> submit_step" where
  "job_submit orig isEdit origFV validate load d =
    (case (dr_view d, validate (dr_fields d), origFV) of
       (FormView, Some v, Some o1) \<Rightarrow>
         if isEdit \<and> diffImmutable o1 v \<noteq> [] then ErrorShown (join '', '' (diffImmutable o1 v))
         else drawer_submit (job_encode orig) validate load d
     | _ \<Rightarrow> drawer_submit (job_encode orig) validate load d)"

subsection \<open>Stability of the job form\<close>

lemma splitWS_join:
  assumes "splitWS s = Some ws"
  shows "splitWS (Some (join '' '' ws)) = Some ws" "ws \<noteq> []"
proof -
  obtain x where x: "s = Some x" "trim x \<noteq> []" "ws = words x"
    using assms by (auto simp: splitWS_def split: option.splits if_splits)
  have w: "words (join '' '' ws) = ws" using x(3) by (simp add: words_join_words)
  obtain c where c: "c \<in> set x" "\<not> is_ws c"
    using x(2) by (auto simp: trim_eq_Nil list_all_iff)
  then show ne: "ws \<noteq> []" using x(3) words_nonempty[OF c] by simp
  have "trim (join '' '' ws) \<noteq> []"
  proof
    assume "trim (join '' '' ws) = []"
    then have "words (join '' '' ws) = []" by (simp add: trim_eq_Nil words_all_ws)
    with w ne show False by simp
  qed
  with w show "splitWS (Some (join '' '' ws)) = Some ws" by (simp add: splitWS_def)
qed

lemma join_args_strs [simp]: "join_args (Some (jstrs ws)) = Some (join '' '' ws)"
  by (simp add: join_args_def jstrs_def o_def)

lemma join_args_None [simp]: "join_args None = None"
  by (simp add: join_args_def)

text \<open>Reading a written resource record.\<close>

lemma oget_smap [codec_simps]:
  "oget k (coalesce (if m \<noteq> [] then Some (jsmap m) else None) empty_obj) = map_option JStr (map_of m k)"
  by (simp add: jsmap_def empty_obj_def coalesce_def map_of_map_snd)

lemma jentries_smap [codec_simps]:
  "jentries (the (coalesce (if m \<noteq> [] then Some (jsmap m) else None) empty_obj)) =
    map (\<lambda>(k, v). (k, JStr v)) m"
  by (simp add: jsmap_def empty_obj_def coalesce_def)

lemma collect_seen:
  "fst ` set es \<subseteq> set seen \<Longrightarrow> collect_extras es seen = ([], seen)"
  by (induction es seen rule: collect_extras.induct) auto

lemma collect_append:
  "collect_extras (xs @ ys) seen =
    (let (r1, s1) = collect_extras xs seen; (r2, s2) = collect_extras ys s1 in (r1 @ r2, s2))"
  by (induction xs seen rule: collect_extras.induct) (auto simp: case_prod_beta Let_def)

lemma collect_new:
  "distinct (map fst m) \<Longrightarrow> fst ` set m \<inter> set seen = {} \<Longrightarrow>
   \<exists>s. collect_extras (map (\<lambda>(k, v). (k, JStr v)) m) seen = (to_rows m, s) \<and> set seen \<subseteq> set s"
proof (induction m arbitrary: seen)
  case Nil
  then show ?case by (simp add: to_rows_def)
next
  case (Cons p m)
  obtain k v where p: "p = (k, v)" by force
  have "fst ` set m \<inter> set (k # seen) = {}" "distinct (map fst m)" using Cons.prems p by auto
  from Cons.IH[OF this(2,1)] obtain s where
    "collect_extras (map (\<lambda>(k, v). (k, JStr v)) m) (k # seen) = (to_rows m, s)" "set (k # seen) \<subseteq> set s"
    by blast
  with Cons.prems p show ?case by (auto simp: to_rows_def)
qed

definition positive :: "rat option \<Rightarrow> rat option" where
  "positive n = Option.bind n (\<lambda>x. if x > 0 then Some x else None)"

lemma text_entry_trimmed:
  "tr v = Some s \<Longrightarrow> text_entry k s = (case s of None \<Rightarrow> [] | Some x \<Rightarrow> [(k, x)])"
  by (auto simp: text_entry_def dest: tr_trimmed split: option.splits)

lemma map_of_count_entry:
  "map_of (count_entry k n) k' = (if k' = k then map_option show_num (positive n) else None)"
  by (auto simp: count_entry_def positive_def split: option.splits)

lemma map_of_text_entry:
  "tr v = Some s \<Longrightarrow> map_of (text_entry k s) k' = (if k' = k then s else None)"
  by (auto simp: text_entry_trimmed split: option.splits)

lemma map_of_clean_HANDLED:
  "clean_map HANDLED ext \<Longrightarrow> k \<in> set HANDLED \<Longrightarrow> map_of ext k = None"
  by (auto simp: clean_map_def clean_pair_def list_all_iff map_of_eq_None_iff)

lemma limits_lookup:
  fixes t :: TaskFV
  assumes "tr vc = Some cpu" "tr vm = Some memory" "clean_map HANDLED ext"
  defines "m \<equiv> native_entries (task_resource_list t cpu memory) @ ext"
  shows "map_of m ''cpu'' = cpu" "map_of m ''memory'' = memory"
    "map_of m ''volcano.sh/vgpu-number'' = map_option show_num (positive (tf_vgpuNumber t))"
    "map_of m ''volcano.sh/vgpu-memory'' = map_option show_num (positive (tf_vgpuMemory t))"
    "map_of m ''volcano.sh/vgpu-cores'' = map_option show_num (positive (tf_vgpuCores t))"
  using map_of_clean_HANDLED[OF assms(3)]
  by (simp_all add: m_def native_entries_def task_resource_list_def map_of_app map_of_count_entry
      map_of_text_entry[OF assms(1)] map_of_text_entry[OF assms(2)] HANDLED_def)

lemma count_of_written [codec_simps]:
  assumes "whole_opt n"
  shows "count_of (map_option JStr (map_option show_num (positive n))) = Some (positive n)"
proof (cases "positive n")
  case None
  then show ?thesis by simp
next
  case (Some x)
  then have x: "n = Some x" "x > 0" by (auto simp: positive_def split: Option.bind_splits if_splits)
  have "show_num x \<noteq> []" using show_nat_digits by (simp add: show_num_def Let_def)
  with x assms show ?thesis by (simp add: positive_def quantity_count_show whole_opt_def)
qed

text \<open>The form of an input as it comes back: defaults filled in, values the builder
  would not emit dropped.\<close>

definition norm_task :: "JobTaskInput \<Rightarrow> JobTaskInput" where
  "norm_task i = i\<lparr>jt_restartPolicy := coalesce (jt_restartPolicy i) (Some (JStr ''OnFailure'')),
     jt_minAvailable := Option.bind (jt_minAvailable i) (\<lambda>x. if x \<ge> 0 then Some x else None),
     jt_maxRetry := Option.bind (jt_maxRetry i) (\<lambda>x. if x \<ge> 0 then Some x else None),
     jt_topologyPolicy := if_truthy (jt_topologyPolicy i)\<rparr>"

lemma build_norm: "build_task (norm_task i) = build_task i"
proof -
  have n: "prop_num k (\<lambda>n. 0 \<le> n) (Option.bind v (\<lambda>x. if 0 \<le> x then Some x else None)) = prop_num k (\<lambda>n. 0 \<le> n) v"
    for k and v :: "rat option" by (cases v) (auto simp: prop_num_def)
  have t: "prop_truthy k (if_truthy v) = prop_truthy k v" for k v
    by (simp add: prop_truthy_def if_truthy_def)
  have c: "coalesce (coalesce v (Some (JStr ''OnFailure''))) (Some (JStr ''OnFailure'')) =
    coalesce v (Some (JStr ''OnFailure''))" for v by (auto simp: coalesce_def)
  have b: "build_container (norm_task i) = build_container i"
    by (simp add: build_container_def norm_task_def)
  show ?thesis by (simp add: build_task_def norm_task_def n t c b[unfolded norm_task_def])
qed

definition task_ok :: "TaskFV \<Rightarrow> bool" where
  "task_ok t \<longleftrightarrow> whole_opt (tf_vgpuNumber t) \<and> whole_opt (tf_vgpuMemory t) \<and>
     whole_opt (tf_vgpuCores t) \<and>
     (case tf_imagePullPolicy t of None \<Rightarrow> True | Some p \<Rightarrow> p = [] \<or> p \<in> set pull_policies)"

lemma whole_positive: "whole_opt n \<Longrightarrow> whole_opt (positive n)"
  by (auto simp: whole_opt_def positive_def split: option.splits Option.bind_splits)

lemma resources_read:
  assumes "jt_resources i = task_resources t cpu memory"
  defines "m \<equiv> resourceListFVToRecord (Some (task_resource_list t cpu memory))"
  defines "rq \<equiv> text_entry ''cpu'' cpu @ text_entry ''memory'' memory"
  defines "r \<equiv> coalesce (map_option resources_json (jt_resources i)) empty_obj"
  shows "oget ''limits'' r = (if m \<noteq> [] then Some (jsmap m) else None)"
    "oget ''requests'' r = (if rq \<noteq> [] then Some (jsmap rq) else None)"
  unfolding r_def assms(1) task_resources_def m_def[symmetric] rq_def[symmetric] Let_def
  by (auto simp: resources_json_def empty_obj_def nonempty_def map_of_app)

lemma container_lookup [build_simps]:
  "map_of (build_container i) ''image'' = Some (JStr (jt_image i))"
  "map_of (build_container i) ''command'' =
    (case jt_command i of Some x \<Rightarrow> if x \<noteq> [] then Some (jstrs x) else None | None \<Rightarrow> None)"
  "map_of (build_container i) ''args'' =
    (case jt_args i of Some x \<Rightarrow> if x \<noteq> [] then Some (jstrs x) else None | None \<Rightarrow> None)"
  "map_of (build_container i) ''resources'' = map_option resources_json (jt_resources i)"
  "map_of (build_container i) ''imagePullPolicy'' =
    (case jt_imagePullPolicy i of Some x \<Rightarrow> if x \<noteq> [] then Some (JStr x) else None | None \<Rightarrow> None)"
  by (simp_all add: build_container_def map_of_app)

text \<open>extract_task reads only the first container, the restart policy and five
  fields of the task.\<close>

definition task_view :: "json \<Rightarrow> jval \<times> jval \<times> jval \<times> jval \<times> jval \<times> jval \<times> jval" where
  "task_view t =
    (let podSpec = coalesce (opath [''template'', ''spec''] (Some t)) empty_obj in
     (coalesce (jindex0 (coalesce (oget ''containers'' podSpec) (Some (JArr [])))) empty_obj,
      oget ''restartPolicy'' podSpec, jget ''name'' t, jget ''replicas'' t,
      jget ''topologyPolicy'' t, jget ''maxRetry'' t, jget ''minAvailable'' t))"

lemma extract_task_view:
  "t \<noteq> JNull \<Longrightarrow> t' \<noteq> JNull \<Longrightarrow> task_view t = task_view t' \<Longrightarrow> extract_task t = extract_task t'"
  unfolding extract_task_def task_view_def Let_def by simp

lemma task_view_build:
  "task_view (build_task i) =
    (Some (JObj (build_container i)), coalesce (jt_restartPolicy i) (Some (JStr ''OnFailure'')),
     Some (JStr (jt_name i)), Some (JNum (jt_replicas i)), if_truthy (jt_topologyPolicy i),
     map_option JNum (Option.bind (jt_maxRetry i) (\<lambda>x. if x \<ge> 0 then Some x else None)),
     map_option JNum (Option.bind (jt_minAvailable i) (\<lambda>x. if x \<ge> 0 then Some x else None)))"
proof -
  have r: "Some (the (coalesce v (Some (JStr ''OnFailure'')))) = coalesce v (Some (JStr ''OnFailure''))" for v
    by (cases v) (auto simp: coalesce_def)
  show ?thesis
    by (auto simp: task_view_def build_task_def map_of_app Let_def if_truthy_def r coalesce_None_id
        split: option.splits)
qed

lemma extract_task_from_view:
  assumes "t \<noteq> JNull" "task_view t = (c, rp, nm, rep, tp, mr, ma)"
    "r = coalesce (oget ''resources'' c) empty_obj"
    "limj = coalesce (oget ''limits'' r) empty_obj" "req = coalesce (oget ''requests'' r) empty_obj"
    "collect_extras (jentries (the limj)) HANDLED = (e1, seen)"
    "collect_extras (jentries (the req)) seen = (e2, seen')"
    "count_of (coalesce (oget ''volcano.sh/vgpu-number'' limj) (oget ''volcano.sh/vgpu-number'' req)) = Some n1"
    "count_of (coalesce (oget ''volcano.sh/vgpu-memory'' limj) (oget ''volcano.sh/vgpu-memory'' req)) = Some n2"
    "count_of (coalesce (oget ''volcano.sh/vgpu-cores'' limj) (oget ''volcano.sh/vgpu-cores'' req)) = Some n3"
  shows "extract_task t = Some \<lparr>tf_name = coalesce nm (Some (JStr ''task'')),
             tf_replicas = (case as_num rep of Some n \<Rightarrow> n | None \<Rightarrow> 1),
             tf_image = coalesce (oget ''image'' c) (Some (JStr [])),
             tf_imagePullPolicy = (case as_str (oget ''imagePullPolicy'' c) of
                 Some s \<Rightarrow> if s \<in> set pull_policies then Some s else None | None \<Rightarrow> None),
             tf_command = join_args (oget ''command'' c),
             tf_args = join_args (oget ''args'' c),
             tf_cpu = coalesce (oget ''cpu'' limj) (oget ''cpu'' req),
             tf_memory = coalesce (oget ''memory'' limj) (oget ''memory'' req),
             tf_vgpuNumber = n1, tf_vgpuMemory = n2, tf_vgpuCores = n3,
             tf_resourceExtras = Some (e1 @ e2),
             tf_restartPolicy = coalesce rp (Some (JStr ''OnFailure'')),
             tf_topologyPolicy = tp,
             tf_taskMaxRetry = as_num mr,
             tf_taskMinAvailable = as_num ma\<rparr>"
  using assms by (simp add: extract_task_def task_view_def Let_def)

lemma tr_JStr_opt: "tr v = Some s \<Longrightarrow> tr (map_option JStr s) = Some s"
  by (cases s) (auto dest: tr_trimmed)

lemma coalesce_map_JStr [simp]:
  "coalesce (map_option JStr s) None = map_option JStr s"
  "coalesce (map_option JStr s) (map_option JStr s) = map_option JStr s"
  by (cases s; simp)+

lemma splitWS_reread:
  "splitWS (join_args (case splitWS s of None \<Rightarrow> None | Some x \<Rightarrow> if x \<noteq> [] then Some (jstrs x) else None))
    = splitWS s"
  using splitWS_join[of s] by (cases "splitWS s") (auto simp: splitWS_def)

lemma tr_str_or: "tr v = Some s \<Longrightarrow> tr (Some (JStr (str_or [] s))) = Some s"
  by (cases s) (auto simp: str_or_def dest: tr_trimmed)

lemma tr_str_or_task: "tr v = Some s \<Longrightarrow> trim d = d \<Longrightarrow> d \<noteq> [] \<Longrightarrow>
  tr (Some (JStr (str_or d s))) = Some (Some (str_or d s))"
  by (cases s) (auto simp: str_or_def dest: tr_trimmed)

text \<open>A task the form wrote reads back to a task that writes the same.\<close>

lemma task_reread:
  assumes t: "task_toInput t = Some i" and ok: "task_ok t"
    and T: "T \<noteq> JNull" "task_view T = task_view (build_task i)"
  shows "\<exists>t'. extract_task T = Some t' \<and> task_toInput t' = Some (norm_task i) \<and> task_ok t'"
proof -
  obtain cpu memory name image where f: "tr (tf_cpu t) = Some cpu" "tr (tf_memory t) = Some memory"
    "tr (tf_name t) = Some name" "tr (tf_image t) = Some image" and
    i: "i = \<lparr>jt_name = str_or ''task'' name, jt_replicas = tf_replicas t, jt_image = str_or [] image,
           jt_command = splitWS (tf_command t), jt_args = splitWS (tf_args t),
           jt_resources = task_resources t cpu memory,
           jt_imagePullPolicy = (if tf_imagePullPolicy t = Some [] then None else tf_imagePullPolicy t),
           jt_restartPolicy = tf_restartPolicy t, jt_minAvailable = tf_taskMinAvailable t,
           jt_maxRetry = tf_taskMaxRetry t, jt_topologyPolicy = tf_topologyPolicy t\<rparr>"
    using t by (auto simp: task_toInput_def bind_eq_Some_iff)
  let ?rl = "task_resource_list t cpu memory"
  define ext where "ext = add_rows HANDLED (case rl_extras ?rl of None \<Rightarrow> [] | Some rs \<Rightarrow> rs) []"
  define m where "m = resourceListFVToRecord (Some ?rl)"
  define rq where "rq = text_entry ''cpu'' cpu @ text_entry ''memory'' memory"
  have m: "m = native_entries ?rl @ ext" by (simp add: m_def record_as_native ext_def)
  have ext: "clean_map HANDLED ext" unfolding ext_def by (rule clean_extras)
  note lk = limits_lookup[OF f(1,2) ext, of t, folded m]
  define r where "r = coalesce (map_option resources_json (jt_resources i)) empty_obj"
  have res: "oget ''limits'' r = (if m \<noteq> [] then Some (jsmap m) else None)"
    "oget ''requests'' r = (if rq \<noteq> [] then Some (jsmap rq) else None)"
    unfolding r_def m_def rq_def by (rule resources_read; simp add: i)+
  define limj where "limj = coalesce (oget ''limits'' r) empty_obj"
  define req where "req = coalesce (oget ''requests'' r) empty_obj"
  have limk: "oget k limj = map_option JStr (map_of m k)" for k
    unfolding limj_def res by (rule oget_smap)
  have reqk: "oget k req = map_option JStr (map_of rq k)" for k
    unfolding req_def res by (rule oget_smap)
  have rqk: "map_of rq ''cpu'' = cpu" "map_of rq ''memory'' = memory"
    "map_of rq ''volcano.sh/vgpu-number'' = None" "map_of rq ''volcano.sh/vgpu-memory'' = None"
    "map_of rq ''volcano.sh/vgpu-cores'' = None"
    by (simp_all add: rq_def map_of_app map_of_text_entry[OF f(1)] map_of_text_entry[OF f(2)])
  obtain seen where e1: "collect_extras (jentries (the limj)) HANDLED = (to_rows ext, seen)" "set HANDLED \<subseteq> set seen"
  proof -
    have "fst ` set (map (\<lambda>(k, v). (k, JStr v)) (native_entries ?rl)) \<subseteq> set HANDLED"
      using native_keys[of ?rl] by (auto simp: image_image case_prod_beta)
    then have nat: "collect_extras (map (\<lambda>(k, v). (k, JStr v)) (native_entries ?rl)) HANDLED = ([], HANDLED)"
      by (rule collect_seen)
    have "distinct (map fst ext)" "fst ` set ext \<inter> set HANDLED = {}"
      using ext by (auto simp: clean_map_def clean_pair_def list_all_iff)
    from collect_new[OF this] obtain s where
      "collect_extras (map (\<lambda>(k, v). (k, JStr v)) ext) HANDLED = (to_rows ext, s)" "set HANDLED \<subseteq> set s"
      by blast
    with nat that show thesis
      unfolding limj_def res jentries_smap by (simp add: m collect_append)
  qed
  have e2: "collect_extras (jentries (the req)) seen = ([], seen)"
  proof (rule collect_seen)
    have "fst ` set rq \<subseteq> {''cpu'', ''memory''}"
      by (auto simp: rq_def text_entry_def split: option.splits if_splits)
    moreover have "{''cpu'', ''memory''} \<subseteq> set seen" using e1(2) by (auto simp: HANDLED_def)
    ultimately show "fst ` set (jentries (the req)) \<subseteq> set seen"
      unfolding req_def res jentries_smap by (auto simp: image_image case_prod_beta)
  qed
  define t' where "t' = \<lparr>tf_name = Some (JStr (str_or ''task'' name)), tf_replicas = tf_replicas t,
      tf_image = Some (JStr (str_or [] image)),
      tf_imagePullPolicy = (if tf_imagePullPolicy t = Some [] then None else tf_imagePullPolicy t),
      tf_command = join_args (case splitWS (tf_command t) of Some x \<Rightarrow> if x \<noteq> [] then Some (jstrs x) else None | None \<Rightarrow> None),
      tf_args = join_args (case splitWS (tf_args t) of Some x \<Rightarrow> if x \<noteq> [] then Some (jstrs x) else None | None \<Rightarrow> None),
      tf_cpu = map_option JStr cpu, tf_memory = map_option JStr memory,
      tf_vgpuNumber = positive (tf_vgpuNumber t), tf_vgpuMemory = positive (tf_vgpuMemory t),
      tf_vgpuCores = positive (tf_vgpuCores t), tf_resourceExtras = Some (to_rows ext @ []),
      tf_restartPolicy = coalesce (tf_restartPolicy t) (Some (JStr ''OnFailure'')),
      tf_topologyPolicy = if_truthy (tf_topologyPolicy t),
      tf_taskMaxRetry = Option.bind (tf_taskMaxRetry t) (\<lambda>x. if x \<ge> 0 then Some x else None),
      tf_taskMinAvailable = Option.bind (tf_taskMinAvailable t) (\<lambda>x. if x \<ge> 0 then Some x else None)\<rparr>"
  have "extract_task T = Some t'"
  proof (subst extract_task_from_view[OF T(1) T(2)[unfolded task_view_build] _ _ _ e1(1) e2,
        where r = r and ?n1.0 = "positive (tf_vgpuNumber t)" and ?n2.0 = "positive (tf_vgpuMemory t)"
          and ?n3.0 = "positive (tf_vgpuCores t)"], goal_cases)
    case 1
    show ?case by (simp add: r_def container_lookup)
  next
    case 2 show ?case by (rule limj_def)
  next
    case 3 show ?case by (rule req_def)
  next
    case 7
    show ?case
      using ok by (auto simp: t'_def i container_lookup limk reqk lk rqk coalesce_def task_ok_def
          split: option.splits)
  qed (use ok in \<open>simp_all add: limk reqk lk rqk task_ok_def count_of_written\<close>)
  moreover have "task_toInput t' = Some (norm_task i)"
  proof -
    have rl: "resourceListFVToRecord (Some (task_resource_list t' cpu memory)) = m"
      using ext by (simp add: m record_as_native task_resource_list_def t'_def add_rows_to_rows
          native_entries_def text_entry_trimmed[OF f(1)] text_entry_trimmed[OF f(2)])
        (auto simp: count_entry_def positive_def split: option.splits Option.bind_splits)
    have "task_resources t' cpu memory = task_resources t cpu memory"
      unfolding task_resources_def rl m_def[symmetric] ..
    then have res: "task_resources t' cpu memory = task_resources t cpu memory" .
    have "trim ''task'' = ''task''" by (simp add: trim_def is_ws_def)
    then have trs: "tr (tf_cpu t') = Some cpu" "tr (tf_memory t') = Some memory"
      "tr (tf_name t') = Some (Some (str_or ''task'' name))" "tr (tf_image t') = Some image"
      by (simp_all add: t'_def tr_JStr_opt[OF f(1)] tr_JStr_opt[OF f(2)] tr_str_or[OF f(4)]
          tr_str_or_task[OF f(3)] del: tr.simps)
    have rest: "splitWS (tf_command t') = splitWS (tf_command t)" "splitWS (tf_args t') = splitWS (tf_args t)"
      by (simp_all add: t'_def splitWS_reread)
    show ?thesis
      by (simp add: task_toInput_def trs res rest del: tr.simps)
        (simp add: t'_def i norm_task_def str_or_def)
  qed
  moreover have "task_ok t'"
    using ok by (simp add: task_ok_def t'_def whole_positive split: option.splits)
  ultimately show ?thesis by blast
qed

text \<open>Merging the preserved parts changes nothing that the form reads.\<close>

definition shaped :: "json \<Rightarrow> json \<Rightarrow> json \<Rightarrow> bool" where
  "shaped t c rp \<longleftrightarrow> c \<noteq> JNull \<and> rp \<noteq> JNull \<and>
     (\<exists>ps tp sp cs. t = JObj ps \<and> map_of ps ''template'' = Some (JObj tp) \<and>
        map_of tp ''spec'' = Some (JObj sp) \<and>
        map_of sp ''containers'' = Some (JArr (c # cs)) \<and> map_of sp ''restartPolicy'' = Some rp)"

definition task_fields :: "json \<Rightarrow> jval list" where
  "task_fields t = map (\<lambda>k. jget k t) [''name'', ''replicas'', ''topologyPolicy'', ''maxRetry'', ''minAvailable'']"

lemma shaped_view:
  "shaped t c rp \<Longrightarrow> shaped t' c rp \<Longrightarrow> task_fields t' = task_fields t \<Longrightarrow> task_view t' = task_view t"
  by (auto simp: shaped_def task_view_def task_fields_def Let_def)

lemma map_of_spread_set [build_simps]:
  "map_of (spread_set k v ps) k' = (if k' = k then v else map_of ps k')"
  by (simp add: spread_set_def update_conv' delete_conv' split: option.splits)

lemma shaped_spread:
  assumes "shaped t c rp"
    "k \<notin> {''name'', ''replicas'', ''topologyPolicy'', ''maxRetry'', ''minAvailable'', ''template''}"
  shows "shaped (JObj (spread_set k v (jentries t))) c rp \<and>
    task_fields (JObj (spread_set k v (jentries t))) = task_fields t"
  using assms by (auto simp: shaped_def task_fields_def map_of_spread_set)

lemma merge_template_shaped:
  assumes "shaped t c rp" "merge_template original t = Some t'"
  shows "shaped t' c rp \<and> task_fields t' = task_fields t"
proof -
  obtain ps tp sp cs where t: "t = JObj ps" "map_of ps ''template'' = Some (JObj tp)"
    "map_of tp ''spec'' = Some (JObj sp)" "map_of sp ''containers'' = Some (JArr (c # cs))"
    "map_of sp ''restartPolicy'' = Some rp" and ne: "c \<noteq> JNull" "rp \<noteq> JNull"
    using assms(1) by (auto simp: shaped_def)
  from assms(2) show ?thesis
    by (auto simp: merge_template_def t ne bind_eq_Some_iff Let_def map_of_spread_set shaped_def task_fields_def)
qed

lemma merge_task_shaped:
  assumes t: "shaped t c rp" and m: "merge_task orig t = Some t'"
  shows "shaped t' c rp \<and> task_fields t' = task_fields t"
proof -
  define next0 where "next0 = (if Option.bind (jp_taskPolicies orig) (\<lambda>m. map_of m (task_key t)) \<noteq> None
    then JObj (spread_set ''policies'' (Option.bind (jp_taskPolicies orig) (\<lambda>m. map_of m (task_key t))) (jentries t)) else t)"
  have n0: "shaped next0 c rp \<and> task_fields next0 = task_fields t"
    using shaped_spread[OF t] t by (simp add: next0_def)
  show ?thesis
  proof (cases "Option.bind (jp_taskExtras orig) (\<lambda>m. map_of m (task_key t))")
    case None
    then have "t' = next0" using m by (simp add: merge_task_def next0_def Let_def)
    with n0 show ?thesis by simp
  next
    case (Some e)
    obtain n1 where n1: "(case te_templateSpec e of Some original \<Rightarrow> merge_template original next0 | None \<Rightarrow> Some next0) = Some n1"
      and t': "t' = (let n2 = (if te_dependsOn e \<noteq> None
             then JObj (spread_set ''dependsOn'' (te_dependsOn e) (jentries n1)) else n1)
         in if te_partitionPolicy e \<noteq> None
            then JObj (spread_set ''partitionPolicy'' (te_partitionPolicy e) (jentries n2)) else n2)"
      using m unfolding merge_task_def Let_def Some next0_def[symmetric]
      by (auto simp: bind_eq_Some_iff)
    have s1: "shaped n1 c rp \<and> task_fields n1 = task_fields t"
      using n1 n0 merge_template_shaped by (cases "te_templateSpec e") auto
    define n2 where "n2 = (if te_dependsOn e \<noteq> None
             then JObj (spread_set ''dependsOn'' (te_dependsOn e) (jentries n1)) else n1)"
    have "shaped n2 c rp \<and> task_fields n2 = task_fields t"
      using s1 shaped_spread[of n1 c rp "''dependsOn''"] by (simp add: n2_def)
    moreover have "t' = (if te_partitionPolicy e \<noteq> None
            then JObj (spread_set ''partitionPolicy'' (te_partitionPolicy e) (jentries n2)) else n2)"
      by (simp only: t' n2_def Let_def)
    ultimately show ?thesis
      using shaped_spread[of n2 c rp "''partitionPolicy''"] by simp
  qed
qed

lemma build_task_shaped:
  "\<exists>c rp. shaped (build_task i) c rp"
proof -
  have "the (coalesce (jt_restartPolicy i) (Some (JStr ''OnFailure''))) \<noteq> JNull"
    by (cases "jt_restartPolicy i") (auto simp: coalesce_def)
  then show ?thesis
    unfolding shaped_def build_task_def by (auto simp: map_of_app)
qed

lemma merge_task_view:
  assumes "merge_task orig (build_task i) = Some t'"
  shows "task_view t' = task_view (build_task i) \<and> t' \<noteq> JNull"
proof -
  obtain c rp where s: "shaped (build_task i) c rp" using build_task_shaped by blast
  from merge_task_shaped[OF s assms] have t': "shaped t' c rp" "task_fields t' = task_fields (build_task i)" by auto
  have "t' \<noteq> JNull" using t'(1) by (auto simp: shaped_def)
  with shaped_view[OF s t'] show ?thesis by simp
qed

definition nonneg :: "rat option \<Rightarrow> rat option" where
  "nonneg n = Option.bind n (\<lambda>x. if x \<ge> 0 then Some x else None)"

lemma prop_num_nonneg [simp]: "prop_num k (\<lambda>n. 0 \<le> n) (nonneg v) = prop_num k (\<lambda>n. 0 \<le> n) v"
  by (cases v) (auto simp: prop_num_def nonneg_def)

lemma prop_num_positive [simp]: "prop_num k (\<lambda>n. 0 < n) (positive v) = prop_num k (\<lambda>n. 0 < n) v"
  by (cases v) (auto simp: prop_num_def positive_def)

lemma plugins_map_aux:
  assumes "distinct (map fst m) \<and> list_all (\<lambda>p. snd p = JArr []) m"
  shows "(let r = fold (\<lambda>p m. AList.update p (JArr []) m) ps m in
    distinct (map fst r) \<and> list_all (\<lambda>p. snd p = JArr []) r)"
  using assms
proof (induction ps arbitrary: m)
  case (Cons q ps)
  have "distinct (map fst (AList.update q (JArr []) m)) \<and> list_all (\<lambda>p. snd p = JArr []) (AList.update q (JArr []) m)"
    using Cons.prems by (auto intro!: list_all_update simp: distinct_update)
  with Cons.IH show ?case by simp
qed simp

lemma plugins_map_clean:
  "distinct (map fst (plugins_map ps)) \<and> list_all (\<lambda>p. snd p = JArr []) (plugins_map ps)"
  using plugins_map_aux[of "[]" ps] by (simp add: plugins_map_def Let_def)

lemma plugins_map_of_keys:
  assumes "distinct (map fst m)" "list_all (\<lambda>p. snd p = JArr []) m"
  shows "plugins_map (map fst m) = m"
proof -
  have "fold (\<lambda>p m. AList.update p (JArr []) m) (map fst m) acc = fold (\<lambda>(k, v). AList.update k v) m acc" for acc
    using assms(2) by (induction m arbitrary: acc) auto
  then show ?thesis using assms(1) by (simp add: plugins_map_def fold_update_from_empty)
qed

lemma plugins_map_idem [codec_simps]: "plugins_map (map fst (plugins_map ps)) = plugins_map ps"
  using plugins_map_of_keys plugins_map_clean by blast

lemma plugins_map_Nil: "plugins_map ps = [] \<longleftrightarrow> ps = []"
proof (cases ps rule: rev_cases)
  case (snoc qs q)
  have "AList.update q v m \<noteq> []" for v :: json and m by (cases m) auto
  with snoc show ?thesis by (simp add: plugins_map_def)
qed (simp add: plugins_map_def)

definition norm_plugins :: "string list option \<Rightarrow> string list option" where
  "norm_plugins v = (case v of None \<Rightarrow> None
     | Some ps \<Rightarrow> if ps = [] then None else Some (map fst (plugins_map ps)))"

definition norm_job :: "JobInput \<Rightarrow> JobInput" where
  "norm_job i = i\<lparr>
     ji_minAvailable := Some (case ji_minAvailable i of Some n \<Rightarrow> n
        | None \<Rightarrow> sum_list (map jt_replicas (ji_tasks i))),
     ji_minSuccess := positive (ji_minSuccess i),
     ji_maxRetry := nonneg (ji_maxRetry i),
     ji_ttlSecondsAfterFinished := nonneg (ji_ttlSecondsAfterFinished i),
     ji_plugins := norm_plugins (ji_plugins i),
     ji_tasks := map norm_task (ji_tasks i),
     ji_networkTopologyHighestTierAllowed := nonneg (ji_networkTopologyHighestTierAllowed i)\<rparr>"

lemma job_spec_norm: "job_spec (norm_job i) = job_spec i"
proof -
  have t: "map build_task (map norm_task ts) = map build_task ts" for ts
    by (simp add: build_norm)
  have n: "build_network_topology m (nonneg v) k = build_network_topology m v k" for m v k
    by (simp add: build_network_topology_def)
  have p: "(case norm_plugins v of None \<Rightarrow> [] | Some ps \<Rightarrow> prop_if (ps \<noteq> []) ''plugins'' (JObj (plugins_map ps))) =
    (case v of None \<Rightarrow> [] | Some ps \<Rightarrow> prop_if (ps \<noteq> []) ''plugins'' (JObj (plugins_map ps)))" for v
    by (auto simp: norm_plugins_def plugins_map_idem plugins_map_Nil split: option.splits)
  show ?thesis
    by (simp add: job_spec_def norm_job_def Let_def t n p del: map_map)
qed

lemma build_job_norm: "buildJobManifest (norm_job i) = buildJobManifest i"
  unfolding buildJobManifest_def job_spec_norm by (simp add: norm_job_def)

lemma job_spec_lookup [build_simps]:
  "map_of (job_spec i) ''minAvailable'' = Some (JNum (case ji_minAvailable i of Some n \<Rightarrow> n
     | None \<Rightarrow> sum_list (map jt_replicas (ji_tasks i))))"
  "map_of (job_spec i) ''tasks'' = Some (JArr (map build_task (ji_tasks i)))"
  "map_of (job_spec i) ''queue'' =
    (case ji_queue i of Some x \<Rightarrow> if x \<noteq> [] then Some (JStr x) else None | None \<Rightarrow> None)"
  "map_of (job_spec i) ''priorityClassName'' =
    (case ji_priorityClassName i of Some x \<Rightarrow> if x \<noteq> [] then Some (JStr x) else None | None \<Rightarrow> None)"
  "map_of (job_spec i) ''minSuccess'' = map_option JNum (positive (ji_minSuccess i))"
  "map_of (job_spec i) ''maxRetry'' = map_option JNum (nonneg (ji_maxRetry i))"
  "map_of (job_spec i) ''ttlSecondsAfterFinished'' = map_option JNum (nonneg (ji_ttlSecondsAfterFinished i))"
  "map_of (job_spec i) ''runningEstimate'' =
    (case ji_runningEstimate i of Some x \<Rightarrow> if x \<noteq> [] then Some (JStr x) else None | None \<Rightarrow> None)"
  "map_of (job_spec i) ''plugins'' = map_option (\<lambda>ps. JObj (plugins_map ps))
     (case ji_plugins i of None \<Rightarrow> None | Some ps \<Rightarrow> if ps = [] then None else Some ps)"
  "map_of (job_spec i) ''networkTopology'' =
    (let nt = build_network_topology (ji_networkTopologyMode i)
                (ji_networkTopologyHighestTierAllowed i) (ji_networkTopologyHighestTierName i)
     in if nt \<noteq> [] then Some (JObj nt) else None)"
  by (auto simp: job_spec_def map_of_app Let_def positive_def nonneg_def split: option.splits)

lemma preserve_spec_reads:
  assumes pr: "preserve_spec p (JObj sp) = Some s'" and ts: "map_of sp ''tasks'' = Some (JArr ts)"
    and pl: "map_of sp ''plugins'' = map_option JObj pm"
  shows "\<exists>sp' ts'. s' = JObj sp' \<and> those (map (merge_task p) ts) = Some ts' \<and>
    map_of sp' ''tasks'' = Some (JArr ts') \<and>
    plugin_keys (map_of sp' ''plugins'') = plugin_keys (map_of sp ''plugins'') \<and>
    (\<forall>k. k \<in> {''plugins'', ''tasks'', ''volumes'', ''policies'', ''schedulerName''} \<or> map_of sp' k = map_of sp k)"
proof -
  define sp1 where "sp1 = (if truthy (jp_plugins p) \<and> truthy (map_of sp ''plugins'')
     then AList.update ''plugins'' (merge_plugins (the (jp_plugins p)) (the (map_of sp ''plugins''))) sp else sp)"
  have sp1: "map_of sp1 ''tasks'' = Some (JArr ts)"
    "plugin_keys (map_of sp1 ''plugins'') = plugin_keys (map_of sp ''plugins'')"
    "k = ''plugins'' \<or> map_of sp1 k = map_of sp k" for k
    using ts pl by (auto simp: sp1_def update_conv' plugin_keys_def merge_plugins_def o_def
        case_prod_beta split: option.splits)
  obtain ts' where ts': "those (map (merge_task p) ts) = Some ts'"
    using pr sp1(1) by (cases "those (map (merge_task p) ts)")
      (auto simp: preserve_spec_def Let_def sp1_def split: if_splits)
  define sp2 where "sp2 = AList.update ''tasks'' (JArr ts') sp1"
  define sp3 where "sp3 = (if truthy (jp_volumes p) then AList.update ''volumes'' (the (jp_volumes p)) sp2 else sp2)"
  define sp4 where "sp4 = (if truthy (jp_jobPolicies p) then AList.update ''policies'' (the (jp_jobPolicies p)) sp3 else sp3)"
  define sp5 where "sp5 = (case jp_schedulerName p of
      Some s \<Rightarrow> if s \<noteq> [] then AList.update ''schedulerName'' (JStr s) sp4 else sp4 | None \<Rightarrow> sp4)"
  have j1: "(if truthy (jp_plugins p) \<and> truthy (jget ''plugins'' (JObj sp))
      then jput ''plugins'' (merge_plugins (the (jp_plugins p)) (the (jget ''plugins'' (JObj sp)))) (JObj sp)
      else JObj sp) = JObj sp1"
    by (simp add: sp1_def)
  have "s' = JObj sp5"
    using pr sp1(1) ts' unfolding preserve_spec_def Let_def j1
    by (auto simp: sp5_def sp4_def sp3_def sp2_def split: option.splits)
  moreover have "map_of sp5 ''tasks'' = Some (JArr ts')"
    by (simp add: sp5_def sp4_def sp3_def sp2_def update_conv' split: option.splits)
  moreover have "map_of sp5 ''plugins'' = map_of sp1 ''plugins''"
    by (simp add: sp5_def sp4_def sp3_def sp2_def update_conv' split: option.splits)
  moreover have "k \<in> {''plugins'', ''tasks'', ''volumes'', ''policies'', ''schedulerName''} \<or> map_of sp5 k = map_of sp k" for k
    using sp1(3)[of k] by (auto simp: sp5_def sp4_def sp3_def sp2_def update_conv' split: option.splits)
  ultimately show ?thesis using ts' sp1(2) by auto
qed

definition job_ok :: "JobFV \<Rightarrow> bool" where
  "job_ok fv \<longleftrightarrow> jf_tasks fv \<noteq> [] \<and> list_all task_ok (jf_tasks fv)"

text \<open>All tasks at once: what applyPreserved left of the written tasks reads back.\<close>

lemma tasks_reread:
  assumes "those (map task_toInput ts) = Some is" "list_all task_ok ts"
    "list_all2 (\<lambda>i T. T \<noteq> JNull \<and> task_view T = task_view (build_task i)) is Ts"
  shows "\<exists>ts'. those (map extract_task Ts) = Some ts' \<and>
    those (map task_toInput ts') = Some (map norm_task is) \<and> list_all task_ok ts'"
  using assms
proof (induction ts arbitrary: "is" Ts)
  case Nil
  then show ?case by auto
next
  case (Cons t ts)
  from Cons.prems(1) obtain i js where i: "is = i # js" "task_toInput t = Some i"
    "those (map task_toInput ts) = Some js"
    by (auto split: option.splits)
  from Cons.prems(3) i(1) obtain T Us where T: "Ts = T # Us" "T \<noteq> JNull" "task_view T = task_view (build_task i)"
    "list_all2 (\<lambda>i T. T \<noteq> JNull \<and> task_view T = task_view (build_task i)) js Us"
    by (auto simp: list_all2_Cons1)
  obtain t' where "extract_task T = Some t'" "task_toInput t' = Some (norm_task i)" "task_ok t'"
    using task_reread[OF i(2) _ T(2,3)] Cons.prems(2) by auto
  moreover obtain ts' where "those (map extract_task Us) = Some ts'"
    "those (map task_toInput ts') = Some (map norm_task js)" "list_all task_ok ts'"
    using Cons.IH[OF i(3) _ T(4)] Cons.prems(2) by auto
  ultimately show ?case using i(1) T(1) by (auto intro!: exI[of _ "t' # ts'"])
qed

lemma nt_lookup [build_simps]:
  "map_of (build_network_topology m v k) ''mode'' =
    (case m of Some x \<Rightarrow> if x \<noteq> [] then Some (JStr x) else None | None \<Rightarrow> None)"
  "map_of (build_network_topology m v k) ''highestTierAllowed'' = map_option JNum (nonneg v)"
  "map_of (build_network_topology m v k) ''highestTierName'' =
    (case k of Some x \<Rightarrow> if x \<noteq> [] then Some (JStr x) else None | None \<Rightarrow> None)"
  by (auto simp: build_network_topology_def map_of_app nonneg_def split: option.splits)

lemma hard_or_soft_reread:
  "hard_or_soft (as_str (case hard_or_soft m of Some x \<Rightarrow> if x \<noteq> [] then Some (JStr x) else None | None \<Rightarrow> None))
    = hard_or_soft m"
  by (auto simp: hard_or_soft_def)

lemma network_reread:
  fixes tier :: "rat option" and m :: "string option"
  assumes "tr v = Some k"
  defines "nt \<equiv> build_network_topology (hard_or_soft m) tier k"
  defines "r \<equiv> coalesce (if nt \<noteq> [] then Some (JObj nt) else None) empty_obj"
  shows "nt_mode r = hard_or_soft m" "as_num (oget ''highestTierAllowed'' r) = nonneg tier"
    "tr (coalesce (oget ''highestTierName'' r) None) = Some k"
proof -
  have r: "oget x r = map_of nt x" for x by (simp add: r_def empty_obj_def)
  show "nt_mode r = hard_or_soft m"
    unfolding nt_mode_def r unfolding nt_def nt_lookup by (rule hard_or_soft_reread)
  show "as_num (oget ''highestTierAllowed'' r) = nonneg tier"
    unfolding r unfolding nt_def nt_lookup by simp
  have "coalesce (case k of Some x \<Rightarrow> if x \<noteq> [] then Some (JStr x) else None | None \<Rightarrow> None) None =
    (case k of Some x \<Rightarrow> if x \<noteq> [] then Some (JStr x) else None | None \<Rightarrow> None)"
    by (simp split: option.splits)
  then show "tr (coalesce (oget ''highestTierName'' r) None) = Some k"
    unfolding r unfolding nt_def nt_lookup
    using tr_reread[OF assms(1)] by (simp add: if_distrib cong: if_cong option.case_cong)
qed

lemma plugin_keys_written:
  "plugin_keys (map_option (\<lambda>ps. JObj (plugins_map ps))
     (case v of None \<Rightarrow> None | Some ps \<Rightarrow> if ps = [] then None else Some ps)) = norm_plugins v"
  by (auto simp: plugin_keys_def norm_plugins_def split: option.splits)

text \<open>What the form reads of a job manifest, whatever else the spec holds.\<close>

lemma job_reread:
  assumes i: "job_fvToInput fv = Some i" and ok: "job_ok fv"
    and m: "m = JObj [(''apiVersion'', a), (''kind'', k), (''metadata'',
        JObj [(''name'', JStr (ji_name i)), (''namespace'', JStr (ji_namespace i))]), (''spec'', JObj sp)]"
    and sp: "\<And>x. x \<in> {''plugins'', ''tasks'', ''volumes'', ''policies'', ''schedulerName''} \<or> map_of sp x = map_of (job_spec i) x"
    and pk: "plugin_keys (map_of sp ''plugins'') = plugin_keys (map_of (job_spec i) ''plugins'')"
    and ts: "map_of sp ''tasks'' = Some (JArr Ts)"
      "list_all2 (\<lambda>i T. T \<noteq> JNull \<and> task_view T = task_view (build_task i)) (ji_tasks i) Ts"
  shows "\<exists>fv'. job_formValuesFromManifest (Some m) fb1 fb2 = Some fv' \<and>
    job_fvToInput fv' = Some (norm_job i) \<and> job_ok fv'"
proof -
  obtain name ns queue pc est tier tasks where f: "tr (jf_name fv) = Some name" "tr (jf_namespace fv) = Some ns"
    "tr (jf_queue fv) = Some queue" "tr (jf_priorityClassName fv) = Some pc"
    "tr (jf_runningEstimate fv) = Some est" "tr (jf_ntHighestTierName fv) = Some tier"
    "those (map task_toInput (jf_tasks fv)) = Some tasks" and
    i': "i = \<lparr>ji_name = str_or [] name, ji_namespace = str_or ''default'' ns,
           ji_queue = queue, ji_priorityClassName = pc,
           ji_minAvailable = jf_minAvailable fv, ji_minSuccess = jf_minSuccess fv,
           ji_maxRetry = jf_maxRetry fv,
           ji_ttlSecondsAfterFinished = jf_ttlSecondsAfterFinished fv,
           ji_runningEstimate = est, ji_plugins = jf_plugins fv, ji_tasks = tasks,
           ji_networkTopologyMode = hard_or_soft (jf_ntMode fv),
           ji_networkTopologyHighestTierAllowed = jf_ntHighestTierAllowed fv,
           ji_networkTopologyHighestTierName = tier\<rparr>"
    using i unfolding job_fvToInput_def by (auto simp: bind_eq_Some_iff)
  have okt: "list_all task_ok (jf_tasks fv)" and ne: "jf_tasks fv \<noteq> []"
    using ok by (auto simp: job_ok_def)
  obtain ts' where t': "those (map extract_task Ts) = Some ts'"
    "those (map task_toInput ts') = Some (map norm_task tasks)" "list_all task_ok ts'"
    using tasks_reread[OF f(7) okt] ts(2) i' by auto
  have tne: "tasks \<noteq> []" using f(7) ne by (cases "jf_tasks fv") (auto split: option.splits)
  then have Tne: "Ts \<noteq> []" using ts(2) i' by auto
  have ex: "extractTasks (map_of sp ''tasks'') = Some ts'"
    using t'(1) Tne by (simp add: extractTasks_def ts(1))
  have lk: "x \<notin> {''plugins'', ''tasks'', ''volumes'', ''policies'', ''schedulerName''} \<Longrightarrow>
    map_of sp x = map_of (job_spec i) x" for x using sp[of x] by argo
  define nt where "nt = coalesce (map_of (job_spec i) ''networkTopology'') empty_obj"
  have nt: "nt_mode nt = hard_or_soft (jf_ntMode fv)"
    "as_num (oget ''highestTierAllowed'' nt) = nonneg (jf_ntHighestTierAllowed fv)"
    "tr (coalesce (oget ''highestTierName'' nt) None) = Some tier"
    using network_reread[OF f(6), of "jf_ntMode fv" "jf_ntHighestTierAllowed fv"]
    by (simp_all only: nt_def job_spec_lookup Let_def i' JobInput.simps)
  define opt where "opt = (\<lambda>v. case v of Some x \<Rightarrow> if x \<noteq> [] then Some (JStr x) else None | None \<Rightarrow> (None :: jval))"
  have optc: "coalesce (opt v) None = opt v" for v by (simp add: opt_def split: option.splits)
  define fv' where "fv' = \<lparr>jf_name = Some (JStr (str_or [] name)), jf_namespace = Some (JStr (str_or ''default'' ns)),
      jf_queue = opt queue, jf_priorityClassName = opt pc,
      jf_minAvailable = ji_minAvailable (norm_job i), jf_minSuccess = positive (jf_minSuccess fv),
      jf_maxRetry = nonneg (jf_maxRetry fv), jf_ttlSecondsAfterFinished = nonneg (jf_ttlSecondsAfterFinished fv),
      jf_runningEstimate = opt est, jf_plugins = norm_plugins (jf_plugins fv), jf_tasks = ts',
      jf_ntMode = nt_mode nt, jf_ntHighestTierAllowed = as_num (oget ''highestTierAllowed'' nt),
      jf_ntHighestTierName = coalesce (oget ''highestTierName'' nt) None\<rparr>"
  have path: "coalesce (oget ''spec'' (Some m)) empty_obj = Some (JObj sp)"
    "opath [''metadata'', ''name''] (Some m) = Some (JStr (ji_name i))"
    "opath [''metadata'', ''namespace''] (Some m) = Some (JStr (ji_namespace i))"
    by (simp_all add: m)
  have plug: "plugin_keys (map_of sp ''plugins'') = norm_plugins (jf_plugins fv)"
    unfolding pk job_spec_lookup plugin_keys_written by (simp add: i')
  have "job_formValuesFromManifest (Some m) fb1 fb2 = Some fv'"
    unfolding job_formValuesFromManifest_def path Let_def
    by (simp add: ex plug lk nt_def[symmetric] fv'_def)
      (simp add: job_spec_lookup i' norm_job_def opt_def[symmetric] optc)
  moreover have "job_fvToInput fv' = Some (norm_job i)"
  proof -
    have "trim ''default'' = ''default''" by (simp add: trim_def is_ws_def)
    then have trs: "tr (jf_name fv') = Some name" "tr (jf_namespace fv') = Some (Some (str_or ''default'' ns))"
      "tr (jf_queue fv') = Some queue" "tr (jf_priorityClassName fv') = Some pc"
      "tr (jf_runningEstimate fv') = Some est" "tr (jf_ntHighestTierName fv') = Some tier"
      using tr_reread[OF f(3)] tr_reread[OF f(4)] tr_reread[OF f(5)] nt(3)
      by (simp_all add: fv'_def opt_def tr_str_or[OF f(1)] tr_str_or_task[OF f(2)] del: tr.simps)
    have hs: "hard_or_soft (hard_or_soft x) = hard_or_soft x" for x by (simp add: hard_or_soft_def)
    show ?thesis
      unfolding job_fvToInput_def trs
      by (simp add: fv'_def t' nt hs) (simp add: i' norm_job_def str_or_def)
  qed
  moreover have "job_ok fv'"
  proof -
    have "ts' \<noteq> []" using t'(1) Tne by (cases Ts) (auto split: option.splits)
    then show ?thesis using t'(3) by (simp add: job_ok_def fv'_def)
  qed
  ultimately show ?thesis by blast
qed

text \<open>With the preserved parts merged in, the manifest still reads back to fields
  that write the same manifest.\<close>

lemma job_encode_stable:
  assumes enc: "job_encode orig fv = Some m" and ok: "job_ok fv"
  shows "\<exists>fv'. job_formValuesFromManifest (Some m) fb1 fb2 = Some fv' \<and>
    job_encode orig fv' = Some m \<and> job_ok fv'"
proof -
  obtain i where i: "job_fvToInput fv = Some i" and ap: "applyPreserved orig (buildJobManifest i) = Some m"
    using enc by (auto simp: job_encode_def bind_eq_Some_iff)
  let ?V = "\<lambda>i T. T \<noteq> JNull \<and> task_view T = task_view (build_task i)"
  have "\<exists>sp Ts. m = JObj [(''apiVersion'', JStr ''batch.volcano.sh/v1alpha1''), (''kind'', JStr ''Job''), (''metadata'',
        JObj [(''name'', JStr (ji_name i)), (''namespace'', JStr (ji_namespace i))]), (''spec'', JObj sp)] \<and>
      (\<forall>x. x \<in> {''plugins'', ''tasks'', ''volumes'', ''policies'', ''schedulerName''} \<or> map_of sp x = map_of (job_spec i) x) \<and>
      plugin_keys (map_of sp ''plugins'') = plugin_keys (map_of (job_spec i) ''plugins'') \<and>
      map_of sp ''tasks'' = Some (JArr Ts) \<and> list_all2 ?V (ji_tasks i) Ts"
  proof (cases orig)
    case None
    have "list_all2 ?V (ji_tasks i) (map build_task (ji_tasks i))"
      by (simp add: list_all2_conv_all_nth build_task_def)
    then show ?thesis using ap None by (auto simp: applyPreserved_def buildJobManifest_def job_spec_lookup)
  next
    case (Some p)
    have sp: "jget ''spec'' (buildJobManifest i) = Some (JObj (job_spec i))" by (simp add: buildJobManifest_def)
    obtain s' where s': "preserve_spec p (JObj (job_spec i)) = Some s'"
      "m = jput ''spec'' s' (buildJobManifest i)"
      using ap Some by (auto simp: applyPreserved_def sp)
    have pl: "map_of (job_spec i) ''plugins'' = map_option JObj (map_option plugins_map
      (case ji_plugins i of None \<Rightarrow> None | Some ps \<Rightarrow> if ps = [] then None else Some ps))"
      by (simp add: job_spec_lookup option.map_comp o_def)
    obtain sp' ts' where r: "s' = JObj sp'" "those (map (merge_task p) (map build_task (ji_tasks i))) = Some ts'"
      "map_of sp' ''tasks'' = Some (JArr ts')"
      "plugin_keys (map_of sp' ''plugins'') = plugin_keys (map_of (job_spec i) ''plugins'')"
      "\<forall>k. k \<in> {''plugins'', ''tasks'', ''volumes'', ''policies'', ''schedulerName''} \<or> map_of sp' k = map_of (job_spec i) k"
      using preserve_spec_reads[OF s'(1) job_spec_lookup(2) pl] by blast
    have "list_all2 ?V (ji_tasks i) ts'"
      using r(2) merge_task_view by (auto simp: those_map_Some list_all2_map1 elim!: list_all2_mono)
    moreover have "m = JObj [(''apiVersion'', JStr ''batch.volcano.sh/v1alpha1''), (''kind'', JStr ''Job''), (''metadata'',
        JObj [(''name'', JStr (ji_name i)), (''namespace'', JStr (ji_namespace i))]), (''spec'', JObj sp')]"
      by (simp add: s'(2) r(1) buildJobManifest_def)
    ultimately show ?thesis using r by blast
  qed
  then obtain sp Ts where m: "m = JObj [(''apiVersion'', JStr ''batch.volcano.sh/v1alpha1''), (''kind'', JStr ''Job''), (''metadata'',
        JObj [(''name'', JStr (ji_name i)), (''namespace'', JStr (ji_namespace i))]), (''spec'', JObj sp)]"
     "\<And>x. x \<in> {''plugins'', ''tasks'', ''volumes'', ''policies'', ''schedulerName''} \<or> map_of sp x = map_of (job_spec i) x"
     "plugin_keys (map_of sp ''plugins'') = plugin_keys (map_of (job_spec i) ''plugins'')"
     "map_of sp ''tasks'' = Some (JArr Ts)" "list_all2 ?V (ji_tasks i) Ts" by blast
  from job_reread[OF i ok m] obtain fv' where "job_formValuesFromManifest (Some m) fb1 fb2 = Some fv'"
    "job_fvToInput fv' = Some (norm_job i)" "job_ok fv'" by blast
  then show ?thesis using ap by (auto simp: job_encode_def build_job_norm)
qed

interpretation job_codec: form_codec "job_encode orig" job_decode job_ok for orig
proof unfold_locales
  show "\<exists>ps. m = JObj ps" if "job_encode orig fv = Some m" for fv m
    using that by (auto simp: job_encode_def bind_eq_Some_iff applyPreserved_def buildJobManifest_def
        split: option.splits)
  show "\<exists>fv'. job_decode old m = Some fv' \<and> job_ok fv' \<and> job_encode orig fv' = Some m"
    if "job_ok fv" "job_encode orig fv = Some m" for fv old m
    using job_encode_stable[OF that(2,1)] unfolding job_decode_def Let_def by blast
qed

subsection \<open>Properties\<close>


definition sample_job :: JobFV where
  "sample_job = \<lparr>jf_name = Some (JStr ''train''), jf_namespace = Some (JStr ''ml''), jf_queue = None,
     jf_priorityClassName = None, jf_minAvailable = None, jf_minSuccess = None, jf_maxRetry = Some 3,
     jf_ttlSecondsAfterFinished = None, jf_runningEstimate = None, jf_plugins = Some [''env'', ''svc''],
     jf_tasks = [main_task\<lparr>tf_image := Some (JStr ''img''), tf_command := Some ''python  t.py'',
        tf_vgpuNumber := Some 1, tf_cpu := Some (JStr ''4'')\<rparr>],
     jf_ntMode = Some ''hard'', jf_ntHighestTierAllowed = Some 2, jf_ntHighestTierName = None\<rparr>"

definition sample_preserved :: JobPreserved where
  "sample_preserved = \<lparr>jp_plugins = Some (JObj [(''env'', JArr [JStr ''--x''])]),
     jp_taskPolicies = None,
     jp_taskExtras = Some [(''main'', \<lparr>te_templateSpec = Some (JObj [(''containers'', JArr [JNull, JStr ''sidecar'']),
        (''nodeSelector'', JObj [(''gpu'', JStr ''a100'')])]), te_dependsOn = None, te_partitionPolicy = None\<rparr>)],
     jp_volumes = None, jp_jobPolicies = None, jp_schedulerName = None\<rparr>"

lemma sample_job_encodes: "\<exists>m. job_encode (Some sample_preserved) sample_job = Some m"
  by (simp add: job_encode_def job_fvToInput_def sample_job_def task_toInput_def main_task_def
      applyPreserved_def preserve_spec_def sample_preserved_def buildJobManifest_def job_spec_lookup
      map_of_app merge_task_def task_key_def build_task_def str_or_def merge_template_def Let_def update_conv'
      trim_def is_ws_def)

lemma sample_job_ok: "job_ok sample_job"
  by (simp add: job_ok_def sample_job_def task_ok_def main_task_def whole_opt_def whole_def js_finite_def)




text \<open>Arguments survive the job form exactly when there is at least one and each
  is non-empty and free of white space: the form joins them with spaces and
  splits the text again, so an argument such as ''echo hi'' comes back as two.\<close>

theorem args_survive_iff_words:
  "splitWS (join_args (Some (jstrs ws))) = Some ws \<longleftrightarrow> ws \<noteq> [] \<and> list_all clean_word ws"
proof
  assume "splitWS (join_args (Some (jstrs ws))) = Some ws"
  then have s: "splitWS (Some (join '' '' ws)) = Some ws" by simp
  then have "ws = words (join '' '' ws)" by (simp add: splitWS_def split: if_splits)
  then have "list_all clean_word ws" using words_clean by (metis list_all_iff)
  then show "ws \<noteq> [] \<and> list_all clean_word ws" using splitWS_join(2)[OF s] by simp
next
  assume ws: "ws \<noteq> [] \<and> list_all clean_word ws"
  then have w: "words (join '' '' ws) = ws" by (simp add: words_join)
  then have "trim (join '' '' ws) \<noteq> []" using ws words_all_ws by (auto simp: trim_eq_Nil)
  with w show "splitWS (join_args (Some (jstrs ws))) = Some ws" by (simp add: splitWS_def)
qed

text \<open>A job manifest whose vGPU quantity is written as a number, as in the YAML
  line volcano.sh/vgpu-number: 1, cannot be read into the job form: the reader
  throws instead of converting the value, and the drawer stays in the YAML view.
  (The queue form converts such a value with String first.)\<close>

theorem numeric_vgpu_throws:
  assumes "n \<noteq> 0" "t \<noteq> JNull"
    "jget ''template'' t = Some (JObj [(''spec'', JObj [(''containers'', JArr (JObj
       [(''resources'', JObj [(''limits'', JObj [(''volcano.sh/vgpu-number'', JNum n)])])] # cs))])])"
  shows "extract_task t = None \<and>
    recordToResourceListFV (Some (JObj [(''volcano.sh/vgpu-number'', JNum n)])) =
      emptyResourceListFV\<lparr>rl_vgpuNumber := quantity_count (show_num n)\<rparr>"
proof
  show "extract_task t = None"
    using assms by (simp add: extract_task_def Let_def empty_obj_def HANDLED_def)
  show "recordToResourceListFV (Some (JObj [(''volcano.sh/vgpu-number'', JNum n)])) =
      emptyResourceListFV\<lparr>rl_vgpuNumber := quantity_count (show_num n)\<rparr>"
    by (simp add: recordToResourceListFV_def record_step_def)
qed

lemma numeric_vgpu_throws_witness:
  "extract_task (JObj [(''template'', JObj [(''spec'', JObj [(''containers'', JArr [JObj
     [(''resources'', JObj [(''limits'', JObj [(''volcano.sh/vgpu-number'', JNum 1)])])]])])])]) = None"
  using numeric_vgpu_throws[of 1 "JObj [(''template'', JObj [(''spec'', JObj [(''containers'', JArr [JObj
     [(''resources'', JObj [(''limits'', JObj [(''volcano.sh/vgpu-number'', JNum 1)])])]])])])]" "[]"] by simp

text \<open>The immutable-field check reports nothing exactly when every compared job
  field is unchanged, the tasks are as many, and each task differs at most in
  its replicas.\<close>

lemma jeq_same [simp]: "jeq v v"
  by (simp add: jeq_def)

lemma task_violations_Nil:
  "task_violations i t u = [] \<longleftrightarrow> (\<forall>k. k = ''replicas'' \<or> jeq (map_of (task_obj t) k) (map_of (task_obj u) k))"
proof -
  have "jeq (map_of (task_obj t) k) (map_of (task_obj u) k)"
    if "k \<notin> fst ` set (task_obj t)" "k \<notin> fst ` set (task_obj u)" for k
  proof -
    from that have "map_of (task_obj t) k = None" "map_of (task_obj u) k = None"
      by (simp_all add: map_of_eq_None_iff)
    then show ?thesis by simp
  qed
  then show ?thesis
    by (auto simp: task_violations_def Let_def filter_empty_conv)
qed

lemma diffImmutable_Nil:
  "diffImmutable orig cur = [] \<longleftrightarrow>
     (\<forall>(k, f) \<in> set jobKeys. jeq (f orig) (f cur)) \<and>
     length (jf_tasks orig) = length (jf_tasks cur) \<and>
     (\<forall>i < length (jf_tasks orig). \<forall>k. k = ''replicas'' \<or>
        jeq (map_of (task_obj (jf_tasks orig ! i)) k) (map_of (task_obj (jf_tasks cur ! i)) k))"
  unfolding diffImmutable_def
  by (auto simp: filter_empty_conv task_violations_Nil)

text \<open>The immutable-field check lets exactly the allowed edits through: changing
  minAvailable, the priority class and the replicas of tasks is never
  reported.\<close>

theorem diffImmutable_allows_mutable_fields:
  assumes "cur = orig\<lparr>jf_minAvailable := ma, jf_priorityClassName := pc, jf_tasks := ts\<rparr>"
    "list_all2 (\<lambda>o1 c. c = o1\<lparr>tf_replicas := tf_replicas c\<rparr>) (jf_tasks orig) ts"
  shows "diffImmutable orig cur = []"
proof -
  have same: "k = ''replicas'' \<or> map_of (task_obj (t\<lparr>tf_replicas := n\<rparr>)) k = map_of (task_obj t) k" for k t n
    by (simp add: task_obj_def map_of_app)
  have "k = ''replicas'' \<or> jeq (map_of (task_obj (jf_tasks orig ! i)) k) (map_of (task_obj (ts ! i)) k)"
    if "i < length (jf_tasks orig)" for i k
  proof -
    have "ts ! i = (jf_tasks orig ! i)\<lparr>tf_replicas := tf_replicas (ts ! i)\<rparr>"
      using assms(2) that by (simp add: list_all2_conv_all_nth)
    then have "k = ''replicas'' \<or> map_of (task_obj (ts ! i)) k = map_of (task_obj (jf_tasks orig ! i)) k"
      using same[of k] by metis
    then show ?thesis by auto
  qed
  then show ?thesis
    using assms list_all2_lengthD[OF assms(2)]
    by (simp add: diffImmutable_Nil jobKeys_def)
qed

lemma diffImmutable_allows_mutable_fields_witness:
  "diffImmutable sample_job (sample_job\<lparr>jf_minAvailable := Some 4, jf_priorityClassName := Some (JStr ''high''),
     jf_tasks := [(hd (jf_tasks sample_job))\<lparr>tf_replicas := 4\<rparr>]\<rparr>) = []"
  by (rule diffImmutable_allows_mutable_fields[OF refl]) (simp add: sample_job_def)

text \<open>The check overlooks one immutable field: changing the topology tier name is
  not reported, although the manifest that is then submitted differs.\<close>

theorem diffImmutable_overlooks_tier_name:
  "diffImmutable fv (fv\<lparr>jf_ntHighestTierName := v\<rparr>) = [] \<and>
   job_encode None sample_job \<noteq> job_encode None (sample_job\<lparr>jf_ntHighestTierName := Some (JStr ''rack'')\<rparr>)"
proof
  show "diffImmutable fv (fv\<lparr>jf_ntHighestTierName := v\<rparr>) = []"
    by (simp add: diffImmutable_Nil jobKeys_def)
  have a: "trim ''rack'' = ''rack''" "trim ''train'' = ''train''" "trim ''ml'' = ''ml''" "trim ''img'' = ''img''"
    "trim ''main'' = ''main''" "trim ''4'' = ''4''"
    by (simp_all add: trim_def is_ws_def)
  show "job_encode None sample_job \<noteq> job_encode None (sample_job\<lparr>jf_ntHighestTierName := Some (JStr ''rack'')\<rparr>)"
    by (simp add: job_encode_def job_fvToInput_def sample_job_def task_toInput_def main_task_def
        applyPreserved_def buildJobManifest_def job_spec_def build_network_topology_def hard_or_soft_def a Let_def)
qed


end
