(* ===== verification/CronJobForm.thy ===== *)
theory CronJobForm
  imports JobForm
begin

text \<open>
  pages/Compute/Volcano/CronJobForm.tsx: the cron job form.  Its task
  conversions repeat the ones of JobForm.tsx line by line and are the same
  definitions here under the names of this file; the job spec sits at
  spec.jobTemplate.spec of the manifest.
\<close>

record CronFV =
  cf_name :: jval
  cf_namespace :: jval
  cf_schedule :: jval
  cf_timeZone :: jval
  cf_startingDeadlineSeconds :: "rat option"
  cf_concurrencyPolicy :: jval
  cf_successfulJobsHistoryLimit :: jval
  cf_failedJobsHistoryLimit :: jval
  cf_suspend :: jval
  cf_queue :: jval
  cf_minAvailable :: "rat option"
  cf_plugins :: "string list option"
  cf_tasks :: "TaskFV list"

definition cron_splitWS :: "string option \<Rightarrow> string list option" where
  "cron_splitWS = splitWS"

definition cron_task_toInput :: "TaskFV \<Rightarrow> JobTaskInput option" where
  "cron_task_toInput = task_toInput"

definition extractCronTasks :: "jval \<Rightarrow> TaskFV list option" where
  "extractCronTasks = extractTasks"

definition hourly :: string where
  "hourly = ''0 * * * *''"

definition cron_job_template :: "string option \<Rightarrow> CronFV \<Rightarrow> JobTaskInput list \<Rightarrow> JobInput" where
  "cron_job_template queue v tasks =
    \<lparr>ji_name = [], ji_namespace = [], ji_queue = queue, ji_priorityClassName = None,
     ji_minAvailable = cf_minAvailable v, ji_minSuccess = None, ji_maxRetry = None,
     ji_ttlSecondsAfterFinished = None, ji_runningEstimate = None, ji_plugins = cf_plugins v,
     ji_tasks = tasks, ji_networkTopologyMode = None, ji_networkTopologyHighestTierAllowed = None,
     ji_networkTopologyHighestTierName = None\<rparr>"

definition cron_fvToInput :: "CronFV \<Rightarrow> CronJobInput option" where
  "cron_fvToInput v = do {
     name \<leftarrow> tr (cf_name v);
     namespace \<leftarrow> tr (cf_namespace v);
     schedule \<leftarrow> tr (cf_schedule v);
     tz \<leftarrow> tr (cf_timeZone v);
     queue \<leftarrow> tr (cf_queue v);
     tasks \<leftarrow> those (map cron_task_toInput (cf_tasks v));
     Some \<lparr>ci_name = str_or [] name, ci_namespace = str_or ''default'' namespace,
           ci_schedule = str_or hourly schedule, ci_timeZone = tz,
           ci_startingDeadlineSeconds = cf_startingDeadlineSeconds v,
           ci_concurrencyPolicy = coalesce (cf_concurrencyPolicy v) (Some (JStr ''Allow'')),
           ci_successfulJobsHistoryLimit = cf_successfulJobsHistoryLimit v,
           ci_failedJobsHistoryLimit = cf_failedJobsHistoryLimit v,
           ci_suspend = cf_suspend v,
           ci_jobTemplate = cron_job_template queue v tasks\<rparr>
   }"

definition cron_formValuesFromManifest :: "jval \<Rightarrow> jval \<Rightarrow> jval \<Rightarrow> CronFV option" where
  "cron_formValuesFromManifest obj fallbackName fallbackNamespace =
    (let spec = coalesce (oget ''spec'' obj) empty_obj;
         jSpec = coalesce (opath [''jobTemplate'', ''spec''] spec) empty_obj
     in do {
       tasks \<leftarrow> extractCronTasks (oget ''tasks'' jSpec);
       Some \<lparr>cf_name = coalesce (opath [''metadata'', ''name''] obj) fallbackName,
             cf_namespace = coalesce (opath [''metadata'', ''namespace''] obj) fallbackNamespace,
             cf_schedule = coalesce (oget ''schedule'' spec) (Some (JStr hourly)),
             cf_timeZone = coalesce (oget ''timeZone'' spec) None,
             cf_startingDeadlineSeconds = as_num (oget ''startingDeadlineSeconds'' spec),
             cf_concurrencyPolicy = coalesce (oget ''concurrencyPolicy'' spec) (Some (JStr ''Allow'')),
             cf_successfulJobsHistoryLimit = oget ''successfulJobsHistoryLimit'' spec,
             cf_failedJobsHistoryLimit = oget ''failedJobsHistoryLimit'' spec,
             cf_suspend = coalesce (oget ''suspend'' spec) (Some (JBool False)),
             cf_queue = oget ''queue'' jSpec,
             cf_minAvailable = as_num (oget ''minAvailable'' jSpec),
             cf_plugins = plugin_keys (oget ''plugins'' jSpec),
             cf_tasks = tasks\<rparr>
     })"

definition cron_create :: "string \<Rightarrow> CronFV" where
  "cron_create namespace =
    \<lparr>cf_name = None, cf_namespace = Some (JStr namespace), cf_schedule = Some (JStr hourly),
     cf_timeZone = None, cf_startingDeadlineSeconds = None,
     cf_concurrencyPolicy = Some (JStr ''Allow''), cf_successfulJobsHistoryLimit = None,
     cf_failedJobsHistoryLimit = None, cf_suspend = Some (JBool False), cf_queue = None,
     cf_minAvailable = None, cf_plugins = None, cf_tasks = [main_task]\<rparr>"

definition cron_load :: "jval \<Rightarrow> string \<Rightarrow> string \<Rightarrow> (CronFV \<times> JobPreserved) option" where
  "cron_load obj name namespace = do {
     fv \<leftarrow> cron_formValuesFromManifest obj (Some (JStr name)) (Some (JStr namespace));
     p \<leftarrow> preserved_of_spec (coalesce (opath [''spec'', ''jobTemplate'', ''spec''] obj) empty_obj);
     Some (fv, p)
   }"

definition cron_applyPreserved :: "JobPreserved option \<Rightarrow> json \<Rightarrow> json option" where
  "cron_applyPreserved orig manifest =
    (case orig of
       None \<Rightarrow> Some manifest
     | Some p \<Rightarrow>
       (case opath [''spec'', ''jobTemplate'', ''spec''] (Some manifest) of
          None \<Rightarrow> Some manifest
        | Some jSpec \<Rightarrow>
          if \<not> truthy (Some jSpec) then Some manifest
          else map_option (\<lambda>s.
            let spec = the (jget ''spec'' manifest); jt = the (jget ''jobTemplate'' spec)
            in jput ''spec'' (jput ''jobTemplate'' (jput ''spec'' s jt) spec) manifest)
          (preserve_spec p jSpec)))"

definition cron_encode :: "JobPreserved option \<Rightarrow> CronFV \<Rightarrow> json option" where
  "cron_encode orig fv =
    Option.bind (cron_fvToInput fv) (\<lambda>i. cron_applyPreserved orig (buildCronJobManifest i))"

definition cron_decode :: "CronFV \<Rightarrow> json \<Rightarrow> CronFV option" where
  "cron_decode old parsed =
    (let meta = coalesce (oget ''metadata'' (Some parsed)) empty_obj
     in cron_formValuesFromManifest (Some parsed)
          (coalesce (oget ''name'' meta) (cf_name old))
          (coalesce (oget ''namespace'' meta) (coalesce (cf_namespace old) (Some (JStr ''default'')))))"

definition cron_switch where
  "cron_switch orig = drawer_switch (cron_encode orig) cron_decode"

definition cron_submit where
  "cron_submit orig = drawer_submit (cron_encode orig)"

subsection \<open>Stability of the cron job form\<close>

lemma cron_spec_lookup [build_simps]:
  "map_of (cronjob_spec i) ''schedule'' = Some (JStr (ci_schedule i))"
  "map_of (cronjob_spec i) ''jobTemplate'' = Some (JObj [(''spec'', JObj (job_spec ((ci_jobTemplate i)
     \<lparr>ji_name := ci_name i, ji_namespace := ci_namespace i\<rparr>)))])"
  "map_of (cronjob_spec i) ''concurrencyPolicy'' = if_truthy (ci_concurrencyPolicy i)"
  "map_of (cronjob_spec i) ''timeZone'' =
    (case ci_timeZone i of Some x \<Rightarrow> if x \<noteq> [] then Some (JStr x) else None | None \<Rightarrow> None)"
  "map_of (cronjob_spec i) ''startingDeadlineSeconds'' = map_option JNum (nonneg (ci_startingDeadlineSeconds i))"
  "map_of (cronjob_spec i) ''successfulJobsHistoryLimit'' =
    map_option JNum (as_num (ci_successfulJobsHistoryLimit i))"
  "map_of (cronjob_spec i) ''failedJobsHistoryLimit'' = map_option JNum (as_num (ci_failedJobsHistoryLimit i))"
  "map_of (cronjob_spec i) ''suspend'' = map_option JBool (as_bool (ci_suspend i))"
  by (auto simp: cronjob_spec_def map_of_app Let_def if_truthy_def nonneg_def buildJobManifest_def split: option.splits)

lemma job_spec_identity [simp]:
  "job_spec (j\<lparr>ji_name := n, ji_namespace := ns\<rparr>) = job_spec j"
  by (simp add: job_spec_def Let_def)

lemma cron_template_lookup:
  "map_of (job_spec (cron_job_template queue v tasks)) k = None"
  if "k \<in> {''priorityClassName'', ''minSuccess'', ''maxRetry'', ''ttlSecondsAfterFinished'',
           ''runningEstimate'', ''networkTopology''}"
  using that by (auto simp: job_spec_lookup cron_job_template_def positive_def nonneg_def
      build_network_topology_def)

lemma job_spec_shape: "\<exists>pm. map_of (job_spec j) ''plugins'' = map_option JObj pm"
proof (cases "ji_plugins j = None \<or> ji_plugins j = Some []")
  case True
  then show ?thesis by (auto simp: job_spec_lookup intro!: exI[of _ None])
next
  case False
  then show ?thesis
    by (cases "ji_plugins j") (auto simp: job_spec_lookup intro!: exI[of _ "Some (plugins_map (the (ji_plugins j)))"])
qed

text \<open>The spec that applyPreserved leaves under jobTemplate.\<close>

lemma cron_encode_spec:
  assumes "cron_encode orig fv = Some m" "cron_fvToInput fv = Some i"
  shows "\<exists>sp Ts. opath [''spec'', ''jobTemplate'', ''spec''] (Some m) = Some (JObj sp) \<and>
    (\<forall>k. k = ''jobTemplate'' \<or> opath [''spec'', k] (Some m) = map_of (cronjob_spec i) k) \<and>
    opath [''metadata'', ''name''] (Some m) = Some (JStr (ci_name i)) \<and>
    opath [''metadata'', ''namespace''] (Some m) = Some (JStr (ci_namespace i)) \<and>
    (\<exists>ps. m = JObj ps) \<and>
    (\<forall>x. x \<in> {''plugins'', ''tasks'', ''volumes'', ''policies'', ''schedulerName''} \<or>
         map_of sp x = map_of (job_spec (ci_jobTemplate i)) x) \<and>
    plugin_keys (map_of sp ''plugins'') = plugin_keys (map_of (job_spec (ci_jobTemplate i)) ''plugins'') \<and>
    map_of sp ''tasks'' = Some (JArr Ts) \<and>
    list_all2 (\<lambda>i T. T \<noteq> JNull \<and> task_view T = task_view (build_task i)) (ji_tasks (ci_jobTemplate i)) Ts"
proof -
  let ?V = "\<lambda>i T. T \<noteq> JNull \<and> task_view T = task_view (build_task i)"
  let ?js = "job_spec (ci_jobTemplate i)"
  have ap: "cron_applyPreserved orig (buildCronJobManifest i) = Some m"
    using assms by (simp add: cron_encode_def)
  have js: "opath [''spec'', ''jobTemplate'', ''spec''] (Some (buildCronJobManifest i)) = Some (JObj ?js)"
    by (simp add: buildCronJobManifest_def cron_spec_lookup)
  show ?thesis
  proof (cases orig)
    case None
    have "list_all2 ?V (ji_tasks (ci_jobTemplate i)) (map build_task (ji_tasks (ci_jobTemplate i)))"
      by (simp add: list_all2_conv_all_nth build_task_def)
    moreover have "m = buildCronJobManifest i" using ap None by (simp add: cron_applyPreserved_def)
    ultimately show ?thesis
      by (intro exI[of _ ?js] exI[of _ "map build_task (ji_tasks (ci_jobTemplate i))"])
        (simp add: buildCronJobManifest_def cron_spec_lookup job_spec_lookup(2))
  next
    case (Some p)
    obtain s' where s': "preserve_spec p (JObj ?js) = Some s'" and
      m: "m = jput ''spec'' (jput ''jobTemplate'' (jput ''spec'' s'
          (the (jget ''jobTemplate'' (the (jget ''spec'' (buildCronJobManifest i))))))
          (the (jget ''spec'' (buildCronJobManifest i)))) (buildCronJobManifest i)"
      using ap Some unfolding cron_applyPreserved_def Some option.case js by (auto simp: Let_def)
    obtain pm where pl: "map_of ?js ''plugins'' = map_option JObj pm" using job_spec_shape by blast
    obtain sp' ts' where r: "s' = JObj sp'" "those (map (merge_task p) (map build_task (ji_tasks (ci_jobTemplate i)))) = Some ts'"
      "map_of sp' ''tasks'' = Some (JArr ts')"
      "plugin_keys (map_of sp' ''plugins'') = plugin_keys (map_of ?js ''plugins'')"
      "\<forall>k. k \<in> {''plugins'', ''tasks'', ''volumes'', ''policies'', ''schedulerName''} \<or> map_of sp' k = map_of ?js k"
      using preserve_spec_reads[OF s' job_spec_lookup(2) pl] by blast
    have "list_all2 ?V (ji_tasks (ci_jobTemplate i)) ts'"
      using r(2) merge_task_view by (auto simp: those_map_Some list_all2_map1 elim!: list_all2_mono)
    moreover have "opath [''spec'', ''jobTemplate'', ''spec''] (Some m) = Some (JObj sp')"
      "k = ''jobTemplate'' \<or> opath [''spec'', k] (Some m) = map_of (cronjob_spec i) k"
      "opath [''metadata'', ''name''] (Some m) = Some (JStr (ci_name i))"
      "opath [''metadata'', ''namespace''] (Some m) = Some (JStr (ci_namespace i))"
      "\<exists>ps. m = JObj ps" for k
      by (simp_all add: m r(1) buildCronJobManifest_def cron_spec_lookup update_conv')
    ultimately show ?thesis using r by blast
  qed
qed

definition cron_ok :: "CronFV \<Rightarrow> bool" where
  "cron_ok fv \<longleftrightarrow> cf_tasks fv \<noteq> [] \<and> list_all task_ok (cf_tasks fv) \<and>
     as_bool (cf_suspend fv) \<noteq> None \<and> truthy (coalesce (cf_concurrencyPolicy fv) (Some (JStr ''Allow'')))"

definition norm_cron :: "CronJobInput \<Rightarrow> CronJobInput" where
  "norm_cron i = i\<lparr>ci_startingDeadlineSeconds := nonneg (ci_startingDeadlineSeconds i),
     ci_successfulJobsHistoryLimit := map_option JNum (as_num (ci_successfulJobsHistoryLimit i)),
     ci_failedJobsHistoryLimit := map_option JNum (as_num (ci_failedJobsHistoryLimit i)),
     ci_jobTemplate := norm_job (ci_jobTemplate i)\<rparr>"

lemma build_cron_norm: "buildCronJobManifest (norm_cron i) = buildCronJobManifest i"
  by (simp add: buildCronJobManifest_def cronjob_spec_def norm_cron_def buildJobManifest_def job_spec_norm Let_def)

lemma cron_encode_stable:
  assumes enc: "cron_encode orig fv = Some m" and ok: "cron_ok fv"
  shows "\<exists>fv'. cron_formValuesFromManifest (Some m) fb1 fb2 = Some fv' \<and>
    cron_encode orig fv' = Some m \<and> cron_ok fv'"
proof -
  obtain i where i: "cron_fvToInput fv = Some i" and ap: "cron_applyPreserved orig (buildCronJobManifest i) = Some m"
    using enc by (auto simp: cron_encode_def bind_eq_Some_iff)
  obtain name ns sched tz queue tasks where f: "tr (cf_name fv) = Some name" "tr (cf_namespace fv) = Some ns"
    "tr (cf_schedule fv) = Some sched" "tr (cf_timeZone fv) = Some tz" "tr (cf_queue fv) = Some queue"
    "those (map task_toInput (cf_tasks fv)) = Some tasks" and
    i': "i = \<lparr>ci_name = str_or [] name, ci_namespace = str_or ''default'' ns,
           ci_schedule = str_or hourly sched, ci_timeZone = tz,
           ci_startingDeadlineSeconds = cf_startingDeadlineSeconds fv,
           ci_concurrencyPolicy = coalesce (cf_concurrencyPolicy fv) (Some (JStr ''Allow'')),
           ci_successfulJobsHistoryLimit = cf_successfulJobsHistoryLimit fv,
           ci_failedJobsHistoryLimit = cf_failedJobsHistoryLimit fv,
           ci_suspend = cf_suspend fv, ci_jobTemplate = cron_job_template queue fv tasks\<rparr>"
    using i unfolding cron_fvToInput_def cron_task_toInput_def by (auto simp: bind_eq_Some_iff)
  obtain sp Ts where s: "opath [''spec'', ''jobTemplate'', ''spec''] (Some m) = Some (JObj sp)"
    "\<forall>k. k = ''jobTemplate'' \<or> opath [''spec'', k] (Some m) = map_of (cronjob_spec i) k"
    "opath [''metadata'', ''name''] (Some m) = Some (JStr (ci_name i))"
    "opath [''metadata'', ''namespace''] (Some m) = Some (JStr (ci_namespace i))"
    "\<forall>x. x \<in> {''plugins'', ''tasks'', ''volumes'', ''policies'', ''schedulerName''} \<or>
         map_of sp x = map_of (job_spec (ci_jobTemplate i)) x"
    "plugin_keys (map_of sp ''plugins'') = plugin_keys (map_of (job_spec (ci_jobTemplate i)) ''plugins'')"
    "map_of sp ''tasks'' = Some (JArr Ts)"
    "list_all2 (\<lambda>i T. T \<noteq> JNull \<and> task_view T = task_view (build_task i)) (ji_tasks (ci_jobTemplate i)) Ts"
    using cron_encode_spec[OF enc i] by (elim exE conjE) (rule that, assumption+)
  have okt: "list_all task_ok (cf_tasks fv)" and ne: "cf_tasks fv \<noteq> []"
    using ok by (auto simp: cron_ok_def)
  have Ts: "list_all2 (\<lambda>i T. T \<noteq> JNull \<and> task_view T = task_view (build_task i)) tasks Ts"
    using s(8) i' by (simp add: cron_job_template_def)
  obtain ts' where t': "those (map extract_task Ts) = Some ts'"
    "those (map task_toInput ts') = Some (map norm_task tasks)" "list_all task_ok ts'"
    using tasks_reread[OF f(6) okt Ts] by blast
  have "tasks \<noteq> []" using f(6) ne by (cases "cf_tasks fv") (auto split: option.splits)
  then have Tne: "Ts \<noteq> []" using Ts by auto
  have tne': "ts' \<noteq> []" using t'(1) Tne by (cases Ts) (auto split: option.splits)
  have ex: "extractCronTasks (map_of sp ''tasks'') = Some ts'"
    using t'(1) Tne by (simp add: extractCronTasks_def extractTasks_def s(7))
  have plug: "plugin_keys (map_of sp ''plugins'') = norm_plugins (cf_plugins fv)"
    unfolding s(6) job_spec_lookup plugin_keys_written by (simp add: i' cron_job_template_def)
  define opt where "opt = (\<lambda>v. case v of Some x \<Rightarrow> if x \<noteq> [] then Some (JStr x) else None | None \<Rightarrow> (None :: jval))"
  have optc: "coalesce (opt v) None = opt v" for v by (simp add: opt_def split: option.splits)
  define cp where "cp = coalesce (cf_concurrencyPolicy fv) (Some (JStr ''Allow''))"
  obtain b where b: "cf_suspend fv = Some (JBool b)" using ok by (auto simp: cron_ok_def)
  have cp: "if_truthy cp = cp" "coalesce cp x = cp" for x
    using ok by (cases "cf_concurrencyPolicy fv"; auto simp: cron_ok_def if_truthy_def cp_def coalesce_def)+
  define fv' where "fv' = \<lparr>cf_name = Some (JStr (str_or [] name)), cf_namespace = Some (JStr (str_or ''default'' ns)),
      cf_schedule = Some (JStr (str_or hourly sched)), cf_timeZone = opt tz,
      cf_startingDeadlineSeconds = nonneg (cf_startingDeadlineSeconds fv), cf_concurrencyPolicy = cp,
      cf_successfulJobsHistoryLimit = map_option JNum (as_num (cf_successfulJobsHistoryLimit fv)),
      cf_failedJobsHistoryLimit = map_option JNum (as_num (cf_failedJobsHistoryLimit fv)),
      cf_suspend = Some (JBool b), cf_queue = opt queue,
      cf_minAvailable = ji_minAvailable (norm_job (ci_jobTemplate i)),
      cf_plugins = norm_plugins (cf_plugins fv), cf_tasks = ts'\<rparr>"
  obtain spj where spj: "oget ''spec'' (Some m) = Some spj" "spj \<noteq> JNull"
  proof -
    obtain x where x: "oget ''spec'' (Some m) = Some x" using s(1) by (cases "oget ''spec'' (Some m)") auto
    moreover have "x \<noteq> JNull" using s(1) x by auto
    ultimately show thesis by (rule that)
  qed
  have sk: "k \<noteq> ''jobTemplate'' \<Longrightarrow> oget k (Some spj) = map_of (cronjob_spec i) k" for k
    using s(2)[rule_format, of k] spj(1) by simp
  have jt: "opath [''jobTemplate'', ''spec''] (Some spj) = Some (JObj sp)" using s(1) spj(1) by simp
  have lk: "map_of sp ''queue'' = map_of (job_spec (ci_jobTemplate i)) ''queue''"
    "map_of sp ''minAvailable'' = map_of (job_spec (ci_jobTemplate i)) ''minAvailable''"
    using s(5)[rule_format, of "''queue''"] s(5)[rule_format, of "''minAvailable''"] by simp_all
  have "cron_formValuesFromManifest (Some m) fb1 fb2 = Some fv'"
    unfolding cron_formValuesFromManifest_def s(3,4) spj(1) Let_def
    using spj(2) sk
    by (simp add: jt[simplified] ex plug lk fv'_def)
      (simp add: cron_spec_lookup job_spec_lookup i' norm_job_def cron_job_template_def opt_def[symmetric] optc b
        cp_def[symmetric] cp)
  moreover have "cron_fvToInput fv' = Some (norm_cron i)"
  proof -
    have "trim ''default'' = ''default''" "trim hourly = hourly" "hourly \<noteq> []"
      by (simp_all add: trim_def is_ws_def hourly_def)
    then have trs: "tr (cf_name fv') = Some name" "tr (cf_namespace fv') = Some (Some (str_or ''default'' ns))"
      "tr (cf_schedule fv') = Some (Some (str_or hourly sched))"
      "tr (cf_timeZone fv') = Some tz" "tr (cf_queue fv') = Some queue"
      using tr_reread[OF f(4)] tr_reread[OF f(5)]
      by (simp_all add: fv'_def opt_def tr_str_or[OF f(1)] tr_str_or_task[OF f(2)] tr_str_or_task[OF f(3)] del: tr.simps)
    show ?thesis
      unfolding cron_fvToInput_def trs cron_task_toInput_def
      by (simp add: fv'_def t' cp)
        (simp add: i' norm_cron_def norm_job_def cron_job_template_def str_or_def b cp_def positive_def nonneg_def)
  qed
  moreover have "cron_ok fv'"
    using t'(3) tne' ok by (simp add: cron_ok_def fv'_def cp cp_def[symmetric])
  ultimately show ?thesis using ap by (auto simp: cron_encode_def build_cron_norm)
qed

interpretation cron_codec: form_codec "cron_encode orig" cron_decode cron_ok for orig
proof unfold_locales
  show "\<exists>ps. m = JObj ps" if enc: "cron_encode orig fv = Some m" for fv m
  proof -
    obtain i where "cron_fvToInput fv = Some i" using enc by (auto simp: cron_encode_def bind_eq_Some_iff)
    from cron_encode_spec[OF enc this] show ?thesis by blast
  qed
  show "\<exists>fv'. cron_decode old m = Some fv' \<and> cron_ok fv' \<and> cron_encode orig fv' = Some m"
    if "cron_ok fv" "cron_encode orig fv = Some m" for fv old m
    using cron_encode_stable[OF that(2,1)] unfolding cron_decode_def Let_def by blast
qed

subsection \<open>Properties\<close>

text \<open>Switching the cron job drawer from the form to YAML and back keeps the
  manifest and the YAML text, with the preserved parts of an edit merged in, and
  shows no error.\<close>

theorem cron_form_yaml_roundtrip:
  fixes terr :: string
  assumes "dr_view d = FormView" "cron_ok (dr_fields d)" "cron_encode orig (dr_fields d) = Some m"
    "load (dump m) = Inr (Some m)" "\<And>a b. setf a b = b"
  shows "let d1 = cron_switch orig setf dump load terr YamlView d;
             d2 = cron_switch orig setf dump load terr FormView d1
         in dr_yamlText d1 = dump m \<and> dr_view d2 = FormView \<and> dr_yamlError d2 = None \<and>
            cron_encode orig (dr_fields d2) = Some m \<and>
            dr_yamlText (cron_switch orig setf dump load terr YamlView d2) = dump m"
  using cron_codec.switch_roundtrip[of d orig m load dump setf terr] assms
  by (simp only: cron_switch_def Let_def)

definition sample_cron :: CronFV where
  "sample_cron = (cron_create ''ml'')\<lparr>cf_name := Some (JStr ''nightly''),
     cf_tasks := [main_task\<lparr>tf_image := Some (JStr ''img'')\<rparr>]\<rparr>"

lemma sample_cron_encodes: "\<exists>m. cron_encode None sample_cron = Some m"
  by (simp add: cron_encode_def cron_fvToInput_def sample_cron_def cron_create_def cron_task_toInput_def
      task_toInput_def main_task_def cron_applyPreserved_def)

lemma cron_form_yaml_roundtrip_witness:
  "\<exists>m. let d = \<lparr>dr_fields = sample_cron, dr_view = FormView, dr_yamlText = [], dr_yamlError = None\<rparr>;
       sw = cron_switch None (\<lambda>_ b. b) (\<lambda>_. ''yaml'') (\<lambda>_. Inr (Some m)) []
   in dr_yamlText (sw YamlView d) = ''yaml'' \<and>
      cron_encode None (dr_fields (sw FormView (sw YamlView d))) = Some m"
proof -
  let ?d = "\<lparr>dr_fields = sample_cron, dr_view = FormView, dr_yamlText = [], dr_yamlError = None\<rparr>"
  obtain m where m: "cron_encode None sample_cron = Some m" using sample_cron_encodes by blast
  have "cron_ok sample_cron"
    by (simp add: cron_ok_def sample_cron_def cron_create_def task_ok_def main_task_def whole_opt_def)
  then show ?thesis
    using cron_form_yaml_roundtrip[of ?d None m "\<lambda>_. Inr (Some m)" "\<lambda>_. ''yaml''" "\<lambda>_ b. b" "[]"] m
    by (intro exI[of _ m]) (simp add: Let_def)
qed

definition cron_dropped_fields :: "string list" where
  "cron_dropped_fields = [''priorityClassName'', ''minSuccess'', ''maxRetry'',
     ''ttlSecondsAfterFinished'', ''runningEstimate'', ''networkTopology'']"

text \<open>The cron job form never writes the job fields it has no inputs for: an edit
  saved from the form drops priorityClassName, minSuccess, maxRetry,
  ttlSecondsAfterFinished, runningEstimate and networkTopology of the job
  template, whatever was loaded and preserved.\<close>

theorem cron_form_drops_job_fields:
  assumes "cron_encode orig fv = Some m" "k \<in> set cron_dropped_fields"
  shows "opath [''spec'', ''jobTemplate'', ''spec'', k] (Some m) = None"
proof -
  obtain i where i: "cron_fvToInput fv = Some i" using assms(1) by (auto simp: cron_encode_def bind_eq_Some_iff)
  obtain queue tasks where jt: "ci_jobTemplate i = cron_job_template queue fv tasks"
    using i by (auto simp: cron_fvToInput_def bind_eq_Some_iff)
  obtain sp where sp: "opath [''spec'', ''jobTemplate'', ''spec''] (Some m) = Some (JObj sp)"
    "\<forall>x. x \<in> {''plugins'', ''tasks'', ''volumes'', ''policies'', ''schedulerName''} \<or>
         map_of sp x = map_of (job_spec (ci_jobTemplate i)) x"
    using cron_encode_spec[OF assms(1) i] by (elim exE conjE) (rule that, assumption+)
  have "map_of sp k = map_of (job_spec (ci_jobTemplate i)) k"
    using sp(2)[rule_format, of k] assms(2) by (auto simp: cron_dropped_fields_def)
  also have "\<dots> = None"
    unfolding jt using assms(2) by (intro cron_template_lookup) (auto simp: cron_dropped_fields_def)
  finally show ?thesis using sp(1) by simp
qed

lemma cron_form_drops_job_fields_witness:
  "\<exists>m. cron_encode (snd (map_prod id Some (the (cron_load (Some (JObj [(''spec'', JObj [(''jobTemplate'',
        JObj [(''spec'', JObj [(''maxRetry'', JNum 5)])])])])) ''c'' ''n'')))) sample_cron = Some m \<and>
     opath [''spec'', ''jobTemplate'', ''spec'', ''maxRetry''] (Some m) = None"
proof -
  let ?p = "snd (map_prod id Some (the (cron_load (Some (JObj [(''spec'', JObj [(''jobTemplate'',
        JObj [(''spec'', JObj [(''maxRetry'', JNum 5)])])])])) ''c'' ''n'')))"
  have p: "?p = Some \<lparr>jp_plugins = None, jp_taskPolicies = None, jp_taskExtras = None, jp_volumes = None,
     jp_jobPolicies = None, jp_schedulerName = None\<rparr>"
    by (simp add: cron_load_def cron_formValuesFromManifest_def extractCronTasks_def extractTasks_def
        preserved_of_spec_def Let_def empty_obj_def nonempty_def collect_policies_def collect_task_extras_def
        nonempty_array_def)
  obtain m where m: "cron_encode ?p sample_cron = Some m"
    unfolding p
    by (simp add: cron_encode_def cron_fvToInput_def sample_cron_def cron_create_def cron_task_toInput_def
        task_toInput_def main_task_def cron_applyPreserved_def buildCronJobManifest_def cron_spec_lookup
        preserve_spec_def job_spec_lookup cron_job_template_def merge_task_def)
  show ?thesis
    using cron_form_drops_job_fields[OF m, of "''maxRetry''"] m by (auto simp: cron_dropped_fields_def)
qed

end
