(* ===== verification/SmallForms.thy ===== *)
theory SmallForms
  imports JobForm
begin

text \<open>
  The four smaller drawers of pages/Compute/Volcano: PodGroupForm.tsx,
  HyperNodeForm.tsx, NodeShardForm.tsx and ColocationConfigurationForm.tsx.
  Each has its conversions, what an edit preserves, the switch and the submit.
\<close>

subsection \<open>PodGroup\<close>

text \<open>A row of minTaskMember: the count is None where the field is not a number
  and Some None where it is NaN.\<close>

record PodGroupFV =
  pf_name :: jval
  pf_namespace :: jval
  pf_queue :: jval
  pf_priorityClassName :: jval
  pf_minMember :: "rat option"
  pf_minTaskMember :: "(string option \<times> rat option option) list"
  pf_minResources :: rows
  pf_ntMode :: "string option"
  pf_ntHighestTierAllowed :: "rat option"
  pf_ntHighestTierName :: jval

definition member_rows :: "(string option \<times> rat option option) list \<Rightarrow> (string \<times> rat option) list" where
  "member_rows rows = fold (\<lambda>row m.
     (case row of
        (Some (c # cs), Some n) \<Rightarrow> AList.update (trim (c # cs)) n m
      | _ \<Rightarrow> m)) rows []"

definition podgroup_fvToInput :: "PodGroupFV \<Rightarrow> PodGroupInput option" where
  "podgroup_fvToInput v = do {
     name \<leftarrow> trim_or [] (pf_name v);
     namespace \<leftarrow> trim_or ''default'' (pf_namespace v);
     queue \<leftarrow> tr (pf_queue v);
     pc \<leftarrow> tr (pf_priorityClassName v);
     tier \<leftarrow> tr (pf_ntHighestTierName v);
     Some \<lparr>pi_name = name, pi_namespace = namespace, pi_queue = queue, pi_priorityClassName = pc,
           pi_minMember = pf_minMember v,
           pi_minTaskMember = nonempty (member_rows (pf_minTaskMember v)),
           pi_minResources = nonempty (add_rows [] (pf_minResources v) []),
           pi_networkTopologyMode = hard_or_soft (pf_ntMode v),
           pi_networkTopologyHighestTierAllowed = pf_ntHighestTierAllowed v,
           pi_networkTopologyHighestTierName = tier\<rparr>
   }"

text \<open>Number(count) of a value that is not a number: arrays and objects are NaN
  (an array of at most one element, which Number can read, is not modelled).\<close>

fun count_number :: "json \<Rightarrow> rat option" where
  "count_number (JNum n) = Some n"
| "count_number JNull = Some 0"
| "count_number (JBool b) = Some (if b then 1 else 0)"
| "count_number (JStr s) = js_number s"
| "count_number (JArr _) = None"
| "count_number (JObj _) = None"

definition podgroup_formValuesFromManifest :: "jval \<Rightarrow> jval \<Rightarrow> jval \<Rightarrow> PodGroupFV" where
  "podgroup_formValuesFromManifest obj fallbackName fallbackNs =
    (let spec = coalesce (oget ''spec'' obj) empty_obj;
         mtm = coalesce (oget ''minTaskMember'' spec) empty_obj;
         mr = coalesce (oget ''minResources'' spec) empty_obj;
         nt = coalesce (oget ''networkTopology'' spec) empty_obj
     in \<lparr>pf_name = coalesce (opath [''metadata'', ''name''] obj) fallbackName,
         pf_namespace = coalesce (opath [''metadata'', ''namespace''] obj) fallbackNs,
         pf_queue = coalesce (oget ''queue'' spec) None,
         pf_priorityClassName = coalesce (oget ''priorityClassName'' spec) None,
         pf_minMember = as_num (oget ''minMember'' spec),
         pf_minTaskMember = map (\<lambda>(k, v). (Some k, Some (count_number v))) (jentries (the mtm)),
         pf_minResources = map (\<lambda>(k, v). (Some k, Some (js_String v))) (jentries (the mr)),
         pf_ntMode = nt_mode nt,
         pf_ntHighestTierAllowed = as_num (oget ''highestTierAllowed'' nt),
         pf_ntHighestTierName = coalesce (oget ''highestTierName'' nt) None\<rparr>)"

text \<open>editOriginalRef of this drawer is the loaded subGroupPolicy array; both the
  switch to YAML and the submit put it back.\<close>

definition podgroup_encode :: "jval \<Rightarrow> PodGroupFV \<Rightarrow> json option" where
  "podgroup_encode subGroupPolicy fv =
    map_option (\<lambda>i. set_spec_if ''subGroupPolicy'' subGroupPolicy (buildPodGroupManifest i))
      (podgroup_fvToInput fv)"

definition podgroup_decode :: "PodGroupFV \<Rightarrow> json \<Rightarrow> PodGroupFV option" where
  "podgroup_decode old parsed =
    (let name = coalesce (opath [''metadata'', ''name''] (Some parsed)) (pf_name old);
         ns = coalesce (opath [''metadata'', ''namespace''] (Some parsed)) (pf_namespace old)
     in Some (podgroup_formValuesFromManifest (Some parsed) name ns))"

definition podgroup_load :: "jval \<Rightarrow> string \<Rightarrow> string \<Rightarrow> PodGroupFV \<times> jval" where
  "podgroup_load obj name namespace =
    (podgroup_formValuesFromManifest obj (Some (JStr name)) (Some (JStr namespace)),
     nonempty_array (opath [''spec'', ''subGroupPolicy''] obj))"

definition podgroup_switch where
  "podgroup_switch sgp = drawer_switch (podgroup_encode sgp) podgroup_decode"

definition podgroup_submit where
  "podgroup_submit sgp = drawer_submit (podgroup_encode sgp)"

subsection \<open>HyperNode\<close>

record MemberFormRow =
  mf_type :: HyperNodeMemberType
  mf_selectorType :: HyperNodeSelectorType
  mf_exactName :: jval
  mf_regexPattern :: jval
  mf_labels :: rows

record HyperNodeFV =
  hf_name :: jval
  hf_tier :: "rat option"
  hf_tierName :: jval
  hf_members :: "MemberFormRow list"

text \<open>v?.trim(), undefined staying undefined.\<close>

fun trim_opt :: "jval \<Rightarrow> string option option" where
  "trim_opt None = Some None"
| "trim_opt (Some JNull) = Some None"
| "trim_opt (Some (JStr s)) = Some (Some (trim s))"
| "trim_opt (Some _) = None"

definition member_toInput :: "MemberFormRow \<Rightarrow> HyperNodeMemberInput option" where
  "member_toInput m = do {
     let matchLabels = (if mf_selectorType m = LabelMatch then add_rows [] (mf_labels m) [] else []);
     exact \<leftarrow> (if mf_selectorType m = ExactMatch then trim_opt (mf_exactName m) else Some None);
     regex \<leftarrow> (if mf_selectorType m = RegexMatch then trim_opt (mf_regexPattern m) else Some None);
     Some \<lparr>hm_type = mf_type m, hm_selectorType = mf_selectorType m, hm_exactName = exact,
           hm_regexPattern = regex,
           hm_matchLabels = (if mf_selectorType m = LabelMatch then nonempty matchLabels else None)\<rparr>
   }"

definition hypernode_fvToInput :: "HyperNodeFV \<Rightarrow> HyperNodeInput option" where
  "hypernode_fvToInput v = do {
     members \<leftarrow> those (map member_toInput (hf_members v));
     name \<leftarrow> trim_or [] (hf_name v);
     tierName \<leftarrow> tr (hf_tierName v);
     Some \<lparr>hi_name = name, hi_tier = (case hf_tier v of Some t \<Rightarrow> t | None \<Rightarrow> 0),
           hi_tierName = tierName, hi_members = members\<rparr>
   }"

definition member_fromManifest :: "json \<Rightarrow> MemberFormRow" where
  "member_fromManifest m =
    (let sel = coalesce (oget ''selector'' (Some m)) empty_obj;
         exact = opath [''exactMatch'', ''name''] sel;
         regex = opath [''regexMatch'', ''pattern''] sel;
         labels = opath [''labelMatch'', ''matchLabels''] sel;
         type = (if oget ''type'' (Some m) = Some (JStr ''HyperNode'') then MemberHyperNode else MemberNode)
     in if truthy exact then
          \<lparr>mf_type = type, mf_selectorType = ExactMatch, mf_exactName = exact, mf_regexPattern = None, mf_labels = []\<rparr>
        else if truthy regex then
          \<lparr>mf_type = type, mf_selectorType = RegexMatch, mf_exactName = None, mf_regexPattern = regex, mf_labels = []\<rparr>
        else if truthy labels then
          \<lparr>mf_type = type, mf_selectorType = LabelMatch, mf_exactName = None, mf_regexPattern = None,
           mf_labels = map (\<lambda>(k, v). (Some k, Some (js_String v))) (jentries (the labels))\<rparr>
        else
          \<lparr>mf_type = type, mf_selectorType = ExactMatch, mf_exactName = None, mf_regexPattern = None, mf_labels = []\<rparr>)"

text \<open>spec.members that is neither nullish nor an array has no map method.\<close>

definition hypernode_formValuesFromManifest :: "jval \<Rightarrow> jval \<Rightarrow> HyperNodeFV option" where
  "hypernode_formValuesFromManifest obj fallbackName =
    (let spec = coalesce (oget ''spec'' obj) empty_obj in do {
       ms \<leftarrow> as_array (coalesce (oget ''members'' spec) (Some (JArr [])));
       Some \<lparr>hf_name = coalesce (opath [''metadata'', ''name''] obj) fallbackName,
             hf_tier = Some (case as_num (oget ''tier'' spec) of Some t \<Rightarrow> t | None \<Rightarrow> 0),
             hf_tierName = coalesce (oget ''tierName'' spec) None,
             hf_members = map member_fromManifest ms\<rparr>
     })"

text \<open>editMetaRef of the HyperNode and NodeShard drawers, merged into the manifest
  on submit in edit mode.\<close>

record MetaExtras =
  me_labels :: jval
  me_annotations :: jval
  me_finalizers :: jval
  me_ownerReferences :: jval

definition meta_extras :: "jval \<Rightarrow> MetaExtras" where
  "meta_extras obj =
    (let meta = coalesce (oget ''metadata'' obj) empty_obj in
     \<lparr>me_labels = oget ''labels'' meta, me_annotations = oget ''annotations'' meta,
      me_finalizers = oget ''finalizers'' meta, me_ownerReferences = oget ''ownerReferences'' meta\<rparr>)"

text \<open>{ ...a, ...(b ?? {}) }\<close>

definition spread2 :: "json \<Rightarrow> jval \<Rightarrow> json" where
  "spread2 a b = JObj (fold (\<lambda>(k, v). AList.update k v) (jentries (the (coalesce b empty_obj)))
     (fold (\<lambda>(k, v). AList.update k v) (jentries a) []))"

definition merge_meta :: "MetaExtras \<Rightarrow> json \<Rightarrow> json" where
  "merge_meta extras m =
    (let meta0 = JObj (jentries (the (coalesce (jget ''metadata'' m) empty_obj)));
         meta1 = (if truthy (me_labels extras)
                  then jput ''labels'' (spread2 (the (me_labels extras)) (jget ''labels'' meta0)) meta0 else meta0);
         meta2 = (if truthy (me_annotations extras)
                  then jput ''annotations'' (spread2 (the (me_annotations extras)) (jget ''annotations'' meta1)) meta1
                  else meta1);
         meta3 = (if truthy (me_finalizers extras) then jput ''finalizers'' (the (me_finalizers extras)) meta2 else meta2);
         meta4 = (if truthy (me_ownerReferences extras)
                  then jput ''ownerReferences'' (the (me_ownerReferences extras)) meta3 else meta3)
     in jput ''metadata'' meta4 m)"

definition hypernode_encode :: "HyperNodeFV \<Rightarrow> json option" where
  "hypernode_encode fv = map_option buildHyperNodeManifest (hypernode_fvToInput fv)"

definition hypernode_decode :: "HyperNodeFV \<Rightarrow> json \<Rightarrow> HyperNodeFV option" where
  "hypernode_decode old parsed =
    (let name = coalesce (opath [''metadata'', ''name''] (Some parsed)) (hf_name old)
     in hypernode_formValuesFromManifest (Some parsed) name)"

definition hypernode_load :: "jval \<Rightarrow> string \<Rightarrow> (HyperNodeFV \<times> MetaExtras) option" where
  "hypernode_load obj name =
    map_option (\<lambda>fv. (fv, meta_extras obj)) (hypernode_formValuesFromManifest obj (Some (JStr name)))"

definition hypernode_submit_manifest :: "MetaExtras option \<Rightarrow> HyperNodeFV \<Rightarrow> json option" where
  "hypernode_submit_manifest extras fv =
    map_option (\<lambda>m. case extras of Some e \<Rightarrow> merge_meta e m | None \<Rightarrow> m) (hypernode_encode fv)"

definition hypernode_switch where
  "hypernode_switch = drawer_switch hypernode_encode hypernode_decode"

definition hypernode_submit where
  "hypernode_submit extras = drawer_submit (hypernode_submit_manifest extras)"

subsection \<open>NodeShard\<close>

text \<open>nodesDesired may hold values that are not strings after a switch from YAML:
  that path does not filter them, the initial load does.\<close>

record NodeShardFV =
  sf_name :: jval
  sf_nodesDesired :: "json list option"

definition trim_all :: "json list \<Rightarrow> string list option" where
  "trim_all xs = those (map (\<lambda>x. map_option trim (as_str (Some x))) xs)"

definition nodeshard_fvToInput :: "NodeShardFV \<Rightarrow> (string \<times> string list) option" where
  "nodeshard_fvToInput v = do {
     name \<leftarrow> trim_or [] (sf_name v);
     nodes \<leftarrow> trim_all (case sf_nodesDesired v of None \<Rightarrow> [] | Some xs \<Rightarrow> xs);
     Some (name, filter (\<lambda>s. s \<noteq> []) nodes)
   }"

definition nodeshard_load :: "jval \<Rightarrow> string \<Rightarrow> NodeShardFV \<times> MetaExtras" where
  "nodeshard_load obj name =
    (\<lparr>sf_name = coalesce (opath [''metadata'', ''name''] obj) (Some (JStr name)),
      sf_nodesDesired = Some (map JStr (only_strings (opath [''spec'', ''nodesDesired''] obj)))\<rparr>,
     meta_extras obj)"

definition nodeshard_decode :: "NodeShardFV \<Rightarrow> json \<Rightarrow> NodeShardFV option" where
  "nodeshard_decode old parsed =
    Some \<lparr>sf_name = coalesce (opath [''metadata'', ''name''] (Some parsed)) (sf_name old),
          sf_nodesDesired = Some (case as_array (opath [''spec'', ''nodesDesired''] (Some parsed)) of
             None \<Rightarrow> [] | Some xs \<Rightarrow> xs)\<rparr>"

definition nodeshard_encode :: "NodeShardFV \<Rightarrow> json option" where
  "nodeshard_encode fv = map_option (\<lambda>(n, xs). buildNodeShardManifest n xs) (nodeshard_fvToInput fv)"

definition nodeshard_submit_manifest :: "MetaExtras option \<Rightarrow> NodeShardFV \<Rightarrow> json option" where
  "nodeshard_submit_manifest extras fv =
    map_option (\<lambda>m. case extras of Some e \<Rightarrow> merge_meta e m | None \<Rightarrow> m) (nodeshard_encode fv)"

definition nodeshard_switch where
  "nodeshard_switch = drawer_switch nodeshard_encode nodeshard_decode"

text \<open>The submit of this drawer and the next one applies whatever the YAML text
  parses to, without the emptiness check of the others.\<close>

definition drawer_submit_unchecked ::
  "('fv \<Rightarrow> json option) \<Rightarrow> ('fv \<Rightarrow> 'fv option) \<Rightarrow> (string \<Rightarrow> string + jval) \<Rightarrow>
   'fv drawer \<Rightarrow> submit_step" where
  "drawer_submit_unchecked encode validate load d =
    (if dr_view d = FormView then drawer_submit encode validate load d
     else (case load (dr_yamlText d) of
             Inl e \<Rightarrow> ErrorShown (''YAML parse failed: '' @ e)
           | Inr manifest \<Rightarrow> Apply manifest))"

definition nodeshard_submit where
  "nodeshard_submit extras = drawer_submit_unchecked (nodeshard_submit_manifest extras)"

subsection \<open>ColocationConfiguration\<close>

record ColocationFV =
  of_name :: jval
  of_namespace :: jval
  of_highRatio :: "rat option"
  of_lowRatio :: "rat option"
  of_minRatio :: "rat option"
  of_matchLabels :: rows

text \<open>A namespace that is empty after trimming becomes the default one.\<close>

definition colocation_fvToInput :: "ColocationFV \<Rightarrow> ColocationConfigurationInput option" where
  "colocation_fvToInput v = do {
     name \<leftarrow> trim_or [] (of_name v);
     ns \<leftarrow> trim_or [] (of_namespace v);
     Some \<lparr>co_name = name, co_namespace = (if ns = [] then ''default'' else ns),
           co_matchLabels = nonempty (add_rows [] (of_matchLabels v) []),
           co_highRatio = of_highRatio v, co_lowRatio = of_lowRatio v, co_minRatio = of_minRatio v\<rparr>
   }"

definition colocation_fields :: "jval \<Rightarrow> jval \<Rightarrow> jval \<Rightarrow> ColocationFV" where
  "colocation_fields obj name namespace =
    (let spec = coalesce (oget ''spec'' obj) empty_obj;
         mq = coalesce (oget ''memoryQos'' spec) empty_obj;
         labels = coalesce (opath [''selector'', ''matchLabels''] spec) empty_obj;
         ratio = (\<lambda>k d. Some (case as_num (oget k mq) of Some r \<Rightarrow> r | None \<Rightarrow> d))
     in \<lparr>of_name = coalesce (opath [''metadata'', ''name''] obj) name,
         of_namespace = coalesce (opath [''metadata'', ''namespace''] obj) namespace,
         of_highRatio = ratio ''highRatio'' 100, of_lowRatio = ratio ''lowRatio'' 0,
         of_minRatio = ratio ''minRatio'' 0,
         of_matchLabels = map (\<lambda>(k, v). (Some k, Some (js_String v))) (jentries (the labels))\<rparr>)"

text \<open>matchExpressionsRef, which the drawer keeps beside the fields.\<close>

definition match_expressions :: "jval \<Rightarrow> jval" where
  "match_expressions obj =
    nonempty_array (opath [''selector'', ''matchExpressions''] (coalesce (oget ''spec'' obj) empty_obj))"

definition colocation_load :: "jval \<Rightarrow> string \<Rightarrow> string \<Rightarrow> ColocationFV \<times> jval" where
  "colocation_load obj name namespace =
    (colocation_fields obj (Some (JStr name)) (Some (JStr namespace)), match_expressions obj)"

definition colocation_encode :: "ColocationFV \<Rightarrow> json option" where
  "colocation_encode fv = map_option buildColocationConfigurationManifest (colocation_fvToInput fv)"

definition colocation_decode :: "ColocationFV \<Rightarrow> json \<Rightarrow> ColocationFV option" where
  "colocation_decode old parsed = Some (colocation_fields (Some parsed) (of_name old) (of_namespace old))"

text \<open>The switch also resets the reference from the YAML text that is parsed.\<close>

definition colocation_switch ::
  "(ColocationFV \<Rightarrow> ColocationFV \<Rightarrow> ColocationFV) \<Rightarrow> (json \<Rightarrow> string) \<Rightarrow> (string \<Rightarrow> string + jval) \<Rightarrow> string \<Rightarrow>
   drawer_view \<Rightarrow> ColocationFV drawer \<times> jval \<Rightarrow> ColocationFV drawer \<times> jval" where
  "colocation_switch setf dump load terr next s =
    (let d = fst s;
         ref = (if next = FormView \<and> dr_view d = YamlView then
                  (case load (dr_yamlText d) of
                     Inl _ \<Rightarrow> snd s
                   | Inr parsed \<Rightarrow> if \<not> truthy parsed \<or> \<not> typeof_object parsed then snd s
                                   else match_expressions parsed)
                else snd s)
     in (drawer_switch colocation_encode colocation_decode setf dump load terr next d, ref))"

text \<open>The assignments m.spec.selector.matchExpressions = ref, with spec and selector
  created when they are missing.\<close>

definition attach_expressions :: "jval \<Rightarrow> json \<Rightarrow> json" where
  "attach_expressions ref m =
    (if truthy ref then
       let spec = the (coalesce (jget ''spec'' m) empty_obj);
           sel = the (coalesce (jget ''selector'' spec) empty_obj)
       in jput ''spec'' (jput ''selector'' (jput ''matchExpressions'' (the ref) sel) spec) m
     else m)"

definition colocation_submit_manifest :: "jval \<Rightarrow> ColocationFV \<Rightarrow> json option" where
  "colocation_submit_manifest ref fv = map_option (attach_expressions ref) (colocation_encode fv)"

definition colocation_submit where
  "colocation_submit ref = drawer_submit_unchecked (colocation_submit_manifest ref)"

subsection \<open>Stability\<close>

lemma to_rows_jsmap:
  "map (\<lambda>(k, v). (Some k, Some (js_String v))) (jentries (jsmap m)) = to_rows m"
  by (simp add: jsmap_def to_rows_def case_prod_beta o_def)

lemma to_rows_nonempty_map:
  "map (\<lambda>(k, v). (Some k, Some (js_String v)))
     (jentries (the (coalesce (case nonempty m of None \<Rightarrow> None | Some x \<Rightarrow> if x \<noteq> [] then Some (jsmap x) else None) empty_obj)))
   = to_rows m"
  using to_rows_jsmap[of m]
  by (auto simp: nonempty_def empty_obj_def to_rows_def coalesce_def jsmap_def)

definition clean_members :: "(string \<times> rat option) list \<Rightarrow> bool" where
  "clean_members m \<longleftrightarrow> distinct (map fst m) \<and>
     list_all (\<lambda>p. fst p \<noteq> [] \<and> trim (fst p) = fst p \<and> snd p \<noteq> None) m"

definition podgroup_ok :: "PodGroupFV \<Rightarrow> bool" where
  "podgroup_ok fv \<longleftrightarrow> list_all (\<lambda>(n, c).
     (case n of None \<Rightarrow> True | Some s \<Rightarrow> s = [] \<or> trim s \<noteq> []) \<and> c \<noteq> Some None) (pf_minTaskMember fv)"

lemma member_rows_clean:
  assumes "list_all (\<lambda>(n, c). (case n of None \<Rightarrow> True | Some s \<Rightarrow> s = [] \<or> trim s \<noteq> []) \<and> c \<noteq> Some None) rows"
  shows "clean_members (member_rows rows)"
proof -
  have "clean_members (fold (\<lambda>row m. (case row of (Some (c # cs), Some n) \<Rightarrow> AList.update (trim (c # cs)) n m | _ \<Rightarrow> m)) rows m)"
    if "clean_members m" for m
    using assms that
  proof (induction rows arbitrary: m)
    case (Cons row rows)
    have "clean_members (case row of (Some (c # cs), Some n) \<Rightarrow> AList.update (trim (c # cs)) n m | _ \<Rightarrow> m)"
      using Cons.prems
      by (auto simp: clean_members_def distinct_update intro!: list_all_update split: option.splits list.splits prod.splits)
    with Cons show ?case by simp
  qed simp
  then show ?thesis unfolding member_rows_def by (simp add: clean_members_def)
qed

lemma member_rows_reread:
  assumes "clean_members m"
  shows "member_rows (map (\<lambda>(k, v). (Some k, Some v)) m) = m"
proof -
  have "fold (\<lambda>row m. (case row of (Some (c # cs), Some n) \<Rightarrow> AList.update (trim (c # cs)) n m | _ \<Rightarrow> m))
      (map (\<lambda>(k, v). (Some k, Some v)) m) acc = fold (\<lambda>(k, v). AList.update k v) m acc" for acc
    using assms unfolding clean_members_def
    by (induction m arbitrary: acc) (auto split: list.splits)
  then show ?thesis
    using assms by (simp add: member_rows_def clean_members_def fold_update_from_empty)
qed

lemma member_counts_reread:
  "clean_members m \<Longrightarrow>
   map (\<lambda>(k, v). (Some k, Some (count_number v))) (map (\<lambda>(k, v). (k, count_json v)) m) =
   map (\<lambda>(k, v). (Some k, Some v)) m"
  by (induction m) (auto simp: clean_members_def)

lemma podgroup_spec_lookup [build_simps]:
  "map_of (podgroup_spec i) ''minMember'' = map_option JNum (positive (pi_minMember i))"
  "map_of (podgroup_spec i) ''queue'' =
    (case pi_queue i of Some x \<Rightarrow> if x \<noteq> [] then Some (JStr x) else None | None \<Rightarrow> None)"
  "map_of (podgroup_spec i) ''priorityClassName'' =
    (case pi_priorityClassName i of Some x \<Rightarrow> if x \<noteq> [] then Some (JStr x) else None | None \<Rightarrow> None)"
  "map_of (podgroup_spec i) ''minResources'' =
    (case pi_minResources i of Some x \<Rightarrow> if x \<noteq> [] then Some (jsmap x) else None | None \<Rightarrow> None)"
  "map_of (podgroup_spec i) ''minTaskMember'' =
    (case pi_minTaskMember i of Some x \<Rightarrow> if x \<noteq> [] then Some (JObj (map (\<lambda>(k, v). (k, count_json v)) x)) else None
     | None \<Rightarrow> None)"
  "map_of (podgroup_spec i) ''networkTopology'' =
    (let nt = build_network_topology (pi_networkTopologyMode i)
                (pi_networkTopologyHighestTierAllowed i) (pi_networkTopologyHighestTierName i)
     in if nt \<noteq> [] then Some (JObj nt) else None)"
  by (auto simp: podgroup_spec_def map_of_app Let_def positive_def split: option.splits)

definition norm_podgroup :: "PodGroupInput \<Rightarrow> PodGroupInput" where
  "norm_podgroup i = i\<lparr>pi_minMember := positive (pi_minMember i),
     pi_networkTopologyHighestTierAllowed := nonneg (pi_networkTopologyHighestTierAllowed i)\<rparr>"

lemma build_podgroup_norm: "buildPodGroupManifest (norm_podgroup i) = buildPodGroupManifest i"
  by (simp add: buildPodGroupManifest_def podgroup_spec_def norm_podgroup_def build_network_topology_def)

lemma podgroup_stable:
  assumes i: "podgroup_fvToInput fv = Some i" and ok: "podgroup_ok fv"
    and nm: "opath [''metadata'', ''name''] (Some m) = Some (JStr (pi_name i))"
      "opath [''metadata'', ''namespace''] (Some m) = Some (JStr (pi_namespace i))"
    and sp: "oget ''spec'' (Some m) = Some (JObj sp)"
      "\<And>k. k = ''subGroupPolicy'' \<or> map_of sp k = map_of (podgroup_spec i) k"
  shows "podgroup_fvToInput (podgroup_formValuesFromManifest (Some m) fb1 fb2) = Some (norm_podgroup i) \<and>
    podgroup_ok (podgroup_formValuesFromManifest (Some m) fb1 fb2)"
proof -
  obtain name ns queue pc tier where f: "trim_or [] (pf_name fv) = Some name"
    "trim_or ''default'' (pf_namespace fv) = Some ns" "tr (pf_queue fv) = Some queue"
    "tr (pf_priorityClassName fv) = Some pc" "tr (pf_ntHighestTierName fv) = Some tier" and
    i': "i = \<lparr>pi_name = name, pi_namespace = ns, pi_queue = queue, pi_priorityClassName = pc,
           pi_minMember = pf_minMember fv,
           pi_minTaskMember = nonempty (member_rows (pf_minTaskMember fv)),
           pi_minResources = nonempty (add_rows [] (pf_minResources fv) []),
           pi_networkTopologyMode = hard_or_soft (pf_ntMode fv),
           pi_networkTopologyHighestTierAllowed = pf_ntHighestTierAllowed fv,
           pi_networkTopologyHighestTierName = tier\<rparr>"
    using i by (auto simp: podgroup_fvToInput_def bind_eq_Some_iff)
  define mm where "mm = member_rows (pf_minTaskMember fv)"
  define mr where "mr = add_rows [] (pf_minResources fv) []"
  have mm: "clean_members mm" unfolding mm_def using ok by (intro member_rows_clean) (simp add: podgroup_ok_def)
  have mr: "clean_map [] mr" unfolding mr_def by (rule add_rows_clean) simp
  have lk: "k \<noteq> ''subGroupPolicy'' \<Longrightarrow> map_of sp k = map_of (podgroup_spec i) k" for k using sp(2)[of k] by simp
  define nt where "nt = coalesce (map_of (podgroup_spec i) ''networkTopology'') empty_obj"
  have nt: "nt_mode nt = hard_or_soft (pf_ntMode fv)"
    "as_num (oget ''highestTierAllowed'' nt) = nonneg (pf_ntHighestTierAllowed fv)"
    "tr (coalesce (oget ''highestTierName'' nt) None) = Some tier"
    using network_reread[OF f(5), of "pf_ntMode fv" "pf_ntHighestTierAllowed fv"]
    by (simp_all only: nt_def podgroup_spec_lookup Let_def i' PodGroupInput.simps)
  define opt where "opt = (\<lambda>v. case v of Some x \<Rightarrow> if x \<noteq> [] then Some (JStr x) else None | None \<Rightarrow> (None :: jval))"
  have optc: "coalesce (opt v) None = opt v" for v by (simp add: opt_def split: option.splits)
  have rows: "map (\<lambda>(k, v). (Some k, Some (count_number v))) (jentries (the (coalesce
      (case nonempty mm of Some x \<Rightarrow> if x \<noteq> [] then Some (JObj (map (\<lambda>(k, v). (k, count_json v)) x)) else None
       | None \<Rightarrow> None) empty_obj))) = map (\<lambda>(k, v). (Some k, Some v)) mm"
    using member_counts_reread[OF mm] by (auto simp: nonempty_def empty_obj_def coalesce_def)
  define fv' where "fv' = \<lparr>pf_name = Some (JStr name), pf_namespace = Some (JStr ns), pf_queue = opt queue,
      pf_priorityClassName = opt pc, pf_minMember = positive (pf_minMember fv),
      pf_minTaskMember = map (\<lambda>(k, v). (Some k, Some v)) mm, pf_minResources = to_rows mr,
      pf_ntMode = nt_mode nt, pf_ntHighestTierAllowed = as_num (oget ''highestTierAllowed'' nt),
      pf_ntHighestTierName = coalesce (oget ''highestTierName'' nt) None\<rparr>"
  have "podgroup_formValuesFromManifest (Some m) fb1 fb2 = fv'"
    unfolding podgroup_formValuesFromManifest_def nm sp(1) Let_def
    by (simp add: lk nt_def[symmetric] fv'_def)
      (simp add: podgroup_spec_lookup i' opt_def[symmetric] optc mm_def[symmetric] mr_def[symmetric]
        rows to_rows_nonempty_map)
  moreover have "podgroup_fvToInput fv' = Some (norm_podgroup i)"
  proof -
    have "trim ''default'' = ''default''" by (simp add: trim_def is_ws_def)
    then have "trim name = name" "trim ns = ns"
      using trim_or_trimmed[OF _ f(1)] trim_or_trimmed[OF _ f(2)] by simp_all
    then have trs: "trim_or [] (pf_name fv') = Some name" "trim_or ''default'' (pf_namespace fv') = Some ns"
      "tr (pf_queue fv') = Some queue" "tr (pf_priorityClassName fv') = Some pc"
      "tr (pf_ntHighestTierName fv') = Some tier"
      using tr_reread[OF f(3)] tr_reread[OF f(4)] nt(3)
      by (simp_all add: fv'_def opt_def del: tr.simps)
    have hs: "hard_or_soft (hard_or_soft x) = hard_or_soft x" for x by (simp add: hard_or_soft_def)
    show ?thesis
      unfolding podgroup_fvToInput_def trs
      by (simp add: fv'_def nt hs member_rows_reread[OF mm] add_rows_to_rows[OF mr])
        (simp add: i' norm_podgroup_def mm_def mr_def)
  qed
  moreover have "podgroup_ok fv'"
    using mm by (auto simp: podgroup_ok_def fv'_def clean_members_def list_all_iff)
  ultimately show ?thesis by simp
qed

interpretation podgroup_codec: form_codec "podgroup_encode sgp" podgroup_decode podgroup_ok for sgp
proof unfold_locales
  show "\<exists>ps. m = JObj ps" if "podgroup_encode sgp fv = Some m" for fv m
    using that by (auto simp: podgroup_encode_def buildPodGroupManifest_def set_spec_if_def)
  show "\<exists>fv'. podgroup_decode old m = Some fv' \<and> podgroup_ok fv' \<and> podgroup_encode sgp fv' = Some m"
    if ok: "podgroup_ok fv" and enc: "podgroup_encode sgp fv = Some m" for fv old m
  proof -
    obtain i where i: "podgroup_fvToInput fv = Some i"
      and m: "m = set_spec_if ''subGroupPolicy'' sgp (buildPodGroupManifest i)"
      using enc by (auto simp: podgroup_encode_def)
    have "opath [''metadata'', ''name''] (Some m) = Some (JStr (pi_name i))"
      "opath [''metadata'', ''namespace''] (Some m) = Some (JStr (pi_namespace i))"
      by (auto simp: m set_spec_if_def buildPodGroupManifest_def)
    moreover obtain sp where "oget ''spec'' (Some m) = Some (JObj sp)"
      "k = ''subGroupPolicy'' \<or> map_of sp k = map_of (podgroup_spec i) k" for k
    proof (cases "truthy sgp")
      case True
      then show thesis
        by (intro that[of "AList.update ''subGroupPolicy'' (the sgp) (podgroup_spec i)"])
          (simp_all add: m set_spec_if_def buildPodGroupManifest_def update_conv')
    next
      case False
      then show thesis
        by (intro that[of "podgroup_spec i"]) (simp_all add: m set_spec_if_def buildPodGroupManifest_def)
    qed
    ultimately show ?thesis
      using podgroup_stable[OF i ok] by (auto simp: podgroup_decode_def podgroup_encode_def build_podgroup_norm m)
  qed
qed

text \<open>A member row that was written reads back to a row that writes the same
  member; a selector left empty comes back as an empty exact match.\<close>

lemma member_reread:
  assumes "member_toInput r = Some i"
  shows "\<exists>i'. member_toInput (member_fromManifest (build_member i)) = Some i' \<and> build_member i' = build_member i"
proof -
  obtain exact regex where f:
    "(if mf_selectorType r = ExactMatch then trim_opt (mf_exactName r) else Some None) = Some exact"
    "(if mf_selectorType r = RegexMatch then trim_opt (mf_regexPattern r) else Some None) = Some regex" and
    i: "i = \<lparr>hm_type = mf_type r, hm_selectorType = mf_selectorType r, hm_exactName = exact,
           hm_regexPattern = regex,
           hm_matchLabels = (if mf_selectorType r = LabelMatch then nonempty (add_rows [] (mf_labels r) []) else None)\<rparr>"
    using assms by (auto simp: member_toInput_def bind_eq_Some_iff Let_def split: if_splits)
  have tt: "trim_opt v = Some (Some s) \<Longrightarrow> trim s = s" for v s
    by (cases v rule: trim_opt.cases) auto
  have ty: "(if Some (JStr (member_type_name (mf_type r))) = Some (JStr ''HyperNode'') then MemberHyperNode else MemberNode) = mf_type r"
    by (cases "mf_type r") auto
  have clean: "clean_map [] (add_rows [] (mf_labels r) [])" by (rule add_rows_clean) simp
  note rr = add_rows_to_rows[OF clean]
  show ?thesis
  proof (cases "mf_selectorType r")
    case ExactMatch
    with f have e: "trim_opt (mf_exactName r) = Some exact" "regex = None" by auto
    show ?thesis
      using tt[of "mf_exactName r"] e ty
      by (cases exact) (auto simp: i ExactMatch member_fromManifest_def build_member_def member_selector_def
          member_toInput_def empty_obj_def Let_def)
  next
    case RegexMatch
    with f have e: "trim_opt (mf_regexPattern r) = Some regex" "exact = None" by auto
    show ?thesis
      using tt[of "mf_regexPattern r"] e ty
      by (cases regex) (auto simp: i RegexMatch member_fromManifest_def build_member_def member_selector_def
          member_toInput_def empty_obj_def Let_def)
  next
    case LabelMatch
    with f have e: "exact = None" "regex = None" by auto
    have tj: "truthy_json (jsmap x)" for x by (simp add: jsmap_def)
    show ?thesis
      using ty to_rows_jsmap[of "add_rows [] (mf_labels r) []"] rr
      by (auto simp: i e tj LabelMatch member_fromManifest_def build_member_def member_selector_def
          member_toInput_def empty_obj_def nonempty_def Let_def)
  qed
qed

lemma members_reread:
  "those (map member_toInput rs) = Some is \<Longrightarrow>
   \<exists>is'. those (map member_toInput (map member_fromManifest (map build_member is))) = Some is' \<and>
     map build_member is' = map build_member is"
proof (induction rs arbitrary: "is")
  case (Cons r rs)
  then obtain i js where i: "is = i # js" "member_toInput r = Some i" "those (map member_toInput rs) = Some js"
    by (auto split: option.splits)
  obtain i' where "member_toInput (member_fromManifest (build_member i)) = Some i'" "build_member i' = build_member i"
    using member_reread[OF i(2)] by blast
  moreover obtain js' where "those (map member_toInput (map member_fromManifest (map build_member js))) = Some js'"
    "map build_member js' = map build_member js"
    using Cons.IH[OF i(3)] by blast
  ultimately show ?case using i(1) by (auto intro!: exI[of _ "i' # js'"])
qed auto

lemma hypernode_stable:
  assumes "hypernode_fvToInput fv = Some i"
  shows "\<exists>fv' i'. hypernode_formValuesFromManifest (Some (buildHyperNodeManifest i)) fb = Some fv' \<and>
    hypernode_fvToInput fv' = Some i' \<and> buildHyperNodeManifest i' = buildHyperNodeManifest i"
proof -
  obtain members name tierName where f: "those (map member_toInput (hf_members fv)) = Some members"
    "trim_or [] (hf_name fv) = Some name" "tr (hf_tierName fv) = Some tierName" and
    i: "i = \<lparr>hi_name = name, hi_tier = (case hf_tier fv of Some t \<Rightarrow> t | None \<Rightarrow> 0),
           hi_tierName = tierName, hi_members = members\<rparr>"
    using assms by (auto simp: hypernode_fvToInput_def bind_eq_Some_iff)
  define opt where "opt = (\<lambda>v. case v of Some x \<Rightarrow> if x \<noteq> [] then Some (JStr x) else None | None \<Rightarrow> (None :: jval))"
  have optc: "coalesce (opt v) None = opt v" for v by (simp add: opt_def split: option.splits)
  obtain ms' where ms': "those (map member_toInput (map member_fromManifest (map build_member members))) = Some ms'"
    "map build_member ms' = map build_member members"
    using members_reread[OF f(1)] by blast
  define sp where "sp = [(''tier'', JNum (hi_tier i))] @ prop_str ''tierName'' (hi_tierName i)
      @ prop_if (members \<noteq> []) ''members'' (JArr (map build_member members))"
  have spec: "oget ''spec'' (Some (buildHyperNodeManifest i)) = Some (JObj sp)"
    "opath [''metadata'', ''name''] (Some (buildHyperNodeManifest i)) = Some (JStr name)"
    by (simp_all add: buildHyperNodeManifest_def sp_def i Let_def)
  have lk: "map_of sp ''tier'' = Some (JNum (hi_tier i))" "map_of sp ''tierName'' = opt tierName"
    "coalesce (map_of sp ''members'') (Some (JArr [])) = Some (JArr (map build_member members))"
    by (auto simp: sp_def map_of_app opt_def i)
  define fv' where "fv' = \<lparr>hf_name = Some (JStr name), hf_tier = Some (hi_tier i), hf_tierName = opt tierName,
    hf_members = map member_fromManifest (map build_member members)\<rparr>"
  have 1: "hypernode_formValuesFromManifest (Some (buildHyperNodeManifest i)) fb = Some fv'"
    unfolding hypernode_formValuesFromManifest_def spec Let_def by (simp add: lk optc fv'_def)
  have "trim name = name" using trim_or_trimmed[OF _ f(2)] by simp
  then have 2: "hypernode_fvToInput fv' = Some (i\<lparr>hi_members := ms'\<rparr>)"
    using tr_reread[OF f(3)] ms'(1) by (simp add: hypernode_fvToInput_def fv'_def opt_def i)
  have "buildHyperNodeManifest (i\<lparr>hi_members := ms'\<rparr>) = buildHyperNodeManifest i"
    using ms'(2) by (simp add: buildHyperNodeManifest_def i)
  with 1 2 show ?thesis by blast
qed

interpretation hypernode_codec: form_codec hypernode_encode hypernode_decode "\<lambda>_. True"
proof unfold_locales
  show "\<exists>ps. m = JObj ps" if "hypernode_encode fv = Some m" for fv m
    using that by (auto simp: hypernode_encode_def buildHyperNodeManifest_def Let_def)
  show "\<exists>fv'. hypernode_decode old m = Some fv' \<and> True \<and> hypernode_encode fv' = Some m"
    if enc: "hypernode_encode fv = Some m" for fv old m
  proof -
    obtain i where i: "hypernode_fvToInput fv = Some i" "m = buildHyperNodeManifest i"
      using enc by (auto simp: hypernode_encode_def)
    show ?thesis
      using hypernode_stable[OF i(1)] i(2) unfolding hypernode_decode_def Let_def
      by (metis hypernode_encode_def option.simps(9))
  qed
qed

lemma trim_all_JStr: "list_all (\<lambda>s. trim s = s) xs \<Longrightarrow> trim_all (map JStr xs) = Some xs"
  by (induction xs) (auto simp: trim_all_def)

lemma trim_all_trimmed: "trim_all xs = Some ys \<Longrightarrow> list_all (\<lambda>s. trim s = s) ys"
proof (induction xs arbitrary: ys)
  case (Cons x xs)
  then show ?case
    by (cases x) (auto simp: trim_all_def split: option.splits)
qed (simp add: trim_all_def)

interpretation nodeshard_codec: form_codec nodeshard_encode nodeshard_decode "\<lambda>_. True"
proof unfold_locales
  show "\<exists>ps. m = JObj ps" if "nodeshard_encode fv = Some m" for fv m
    using that by (auto simp: nodeshard_encode_def buildNodeShardManifest_def)
  show "\<exists>fv'. nodeshard_decode old m = Some fv' \<and> True \<and> nodeshard_encode fv' = Some m"
    if enc: "nodeshard_encode fv = Some m" for fv old m
  proof -
    obtain name nodes where n: "trim_or [] (sf_name fv) = Some name"
      "trim_all (case sf_nodesDesired fv of None \<Rightarrow> [] | Some xs \<Rightarrow> xs) = Some nodes"
      "m = buildNodeShardManifest name (filter (\<lambda>s. s \<noteq> []) nodes)"
      using enc by (auto simp: nodeshard_encode_def nodeshard_fvToInput_def bind_eq_Some_iff)
    have "trim name = name" using trim_or_trimmed[OF _ n(1)] by simp
    moreover have "list_all (\<lambda>s. trim s = s) (filter (\<lambda>s. s \<noteq> []) nodes)"
      using trim_all_trimmed[OF n(2)] by (auto simp: list_all_iff)
    ultimately show ?thesis
      using trim_all_JStr[of "filter (\<lambda>s. s \<noteq> []) nodes"]
      by (simp add: nodeshard_decode_def n(3) buildNodeShardManifest_def nodeshard_encode_def
          nodeshard_fvToInput_def jstrs_def)
  qed
qed

definition colocation_ok :: "ColocationFV \<Rightarrow> bool" where
  "colocation_ok fv \<longleftrightarrow> of_highRatio fv \<noteq> None \<and> of_lowRatio fv \<noteq> None \<and> of_minRatio fv \<noteq> None"

lemma colocation_stable:
  fixes nm ns :: jval
  assumes i: "colocation_fvToInput fv = Some i" and ok: "colocation_ok fv"
  defines "fv' \<equiv> colocation_fields (Some (buildColocationConfigurationManifest i)) nm ns"
  shows "colocation_fvToInput fv' = Some i \<and> colocation_ok fv'"
proof -
  obtain h l mi where r: "of_highRatio fv = Some h" "of_lowRatio fv = Some l" "of_minRatio fv = Some mi"
    using ok by (auto simp: colocation_ok_def)
  define ml where "ml = add_rows [] (of_matchLabels fv) []"
  have ml: "clean_map [] ml" unfolding ml_def by (rule add_rows_clean) simp
  obtain name n where f: "trim_or [] (of_name fv) = Some name" "trim_or [] (of_namespace fv) = Some n" and
    i': "i = \<lparr>co_name = name, co_namespace = (if n = [] then ''default'' else n), co_matchLabels = nonempty ml,
           co_highRatio = Some h, co_lowRatio = Some l, co_minRatio = Some mi\<rparr>"
    using i r by (auto simp: colocation_fvToInput_def bind_eq_Some_iff ml_def)
  have "trim ''default'' = ''default''" by (simp add: trim_def is_ws_def)
  then have t: "trim name = name" "trim (if n = [] then ''default'' else n) = (if n = [] then ''default'' else n)"
    using trim_or_trimmed[OF _ f(1)] trim_or_trimmed[OF _ f(2)] by simp_all
  have sp: "oget ''spec'' (Some (buildColocationConfigurationManifest i)) = Some (JObj (colocation_spec i))"
    "opath [''metadata'', ''name''] (Some (buildColocationConfigurationManifest i)) = Some (JStr name)"
    "opath [''metadata'', ''namespace''] (Some (buildColocationConfigurationManifest i)) =
      Some (JStr (if n = [] then ''default'' else n))"
    by (simp_all add: buildColocationConfigurationManifest_def i')
  have lk: "map_of (colocation_spec i) ''memoryQos'' =
      Some (JObj [(''highRatio'', JNum h), (''lowRatio'', JNum l), (''minRatio'', JNum mi)])"
    "map_of (colocation_spec i) ''selector'' =
      (if ml \<noteq> [] then Some (JObj [(''matchLabels'', jsmap ml)]) else None)"
    by (simp_all add: colocation_spec_def i' map_of_app nonempty_def)
  have fv': "fv' = \<lparr>of_name = Some (JStr name), of_namespace = Some (JStr (if n = [] then ''default'' else n)),
      of_highRatio = Some h, of_lowRatio = Some l, of_minRatio = Some mi, of_matchLabels = to_rows ml\<rparr>"
    unfolding fv'_def colocation_fields_def sp Let_def
    using to_rows_jsmap[of ml]
    by (auto simp: lk empty_obj_def to_rows_def coalesce_def jsmap_def)
  have ne: "(if n = [] then ''default'' else n) \<noteq> []" by simp
  show ?thesis
    using t ne by (simp add: fv' colocation_fvToInput_def add_rows_to_rows[OF ml] colocation_ok_def)
      (simp add: i')
qed

interpretation colocation_codec: form_codec colocation_encode colocation_decode colocation_ok
proof unfold_locales
  show "\<exists>ps. m = JObj ps" if "colocation_encode fv = Some m" for fv m
    using that by (auto simp: colocation_encode_def buildColocationConfigurationManifest_def)
  show "\<exists>fv'. colocation_decode old m = Some fv' \<and> colocation_ok fv' \<and> colocation_encode fv' = Some m"
    if "colocation_ok fv" "colocation_encode fv = Some m" for fv old m
    using that colocation_stable by (auto simp: colocation_encode_def colocation_decode_def)
qed

subsection \<open>Properties\<close>

lemma spread2_None: "distinct (map fst ps) \<Longrightarrow> spread2 (JObj ps) None = JObj ps"
  by (simp add: spread2_def empty_obj_def fold_update_from_empty)

lemma merge_meta_lookup:
  assumes "jget ''metadata'' m = Some (JObj [(''name'', n)])" "m = JObj ps"
    "me_labels e = Some (JObj ls)" "me_annotations e = Some (JObj as)"
    "distinct (map fst ls)" "distinct (map fst as)"
  shows "jget ''metadata'' (merge_meta e m) = Some (JObj ([(''name'', n), (''labels'', JObj ls), (''annotations'', JObj as)]
      @ (if truthy (me_finalizers e) then [(''finalizers'', the (me_finalizers e))] else [])
      @ (if truthy (me_ownerReferences e) then [(''ownerReferences'', the (me_ownerReferences e))] else [])))"
    "k \<noteq> ''metadata'' \<Longrightarrow> jget k (merge_meta e m) = jget k m"
  using assms by (simp_all add: merge_meta_def Let_def spread2_None update_conv')

text \<open>Saving an edited HyperNode or NodeShard from the form keeps the labels,
  annotations, finalizers and owner references of the loaded object, and leaves
  name and spec as the form builds them.\<close>

theorem edit_keeps_metadata:
  assumes "opath [''metadata'', ''labels''] obj = Some (JObj ls)" "distinct (map fst ls)"
    "opath [''metadata'', ''annotations''] obj = Some (JObj as)" "distinct (map fst as)"
    "hypernode_submit_manifest (Some (meta_extras obj)) fv = Some m"
    "nodeshard_submit_manifest (Some (meta_extras obj)) sv = Some s"
    "r = m \<or> r = s" "k = ''finalizers'' \<or> k = ''ownerReferences''"
  shows "opath [''metadata'', ''labels''] (Some r) = Some (JObj ls) \<and>
    opath [''metadata'', ''annotations''] (Some r) = Some (JObj as) \<and>
    opath [''metadata'', k] (Some r) = if_truthy (opath [''metadata'', k] obj) \<and>
    map_option (jget ''spec'') (hypernode_encode fv) = Some (jget ''spec'' m) \<and>
    map_option (jget ''spec'') (nodeshard_encode sv) = Some (jget ''spec'' s)"
proof -
  have e: "me_labels (meta_extras obj) = Some (JObj ls)" "me_annotations (meta_extras obj) = Some (JObj as)"
    "me_finalizers (meta_extras obj) = opath [''metadata'', ''finalizers''] obj"
    "me_ownerReferences (meta_extras obj) = opath [''metadata'', ''ownerReferences''] obj"
    using assms(1,3) by (cases "oget ''metadata'' obj"; auto simp: meta_extras_def coalesce_def Let_def)+
  obtain hm where hm: "hypernode_encode fv = Some hm" "m = merge_meta (meta_extras obj) hm"
    using assms(5) by (auto simp: hypernode_submit_manifest_def)
  obtain sm where sm: "nodeshard_encode sv = Some sm" "s = merge_meta (meta_extras obj) sm"
    using assms(6) by (auto simp: nodeshard_submit_manifest_def)
  obtain i where "hm = buildHyperNodeManifest i" using hm(1) by (auto simp: hypernode_encode_def)
  then obtain ps1 where s1: "jget ''metadata'' hm = Some (JObj [(''name'', JStr (hi_name i))])" "hm = JObj ps1"
    by (simp add: buildHyperNodeManifest_def Let_def)
  obtain n xs where "sm = buildNodeShardManifest n xs" using sm(1) by (auto simp: nodeshard_encode_def)
  then obtain ps2 where s2: "jget ''metadata'' sm = Some (JObj [(''name'', JStr n)])" "sm = JObj ps2"
    by (simp add: buildNodeShardManifest_def)
  note l1 = merge_meta_lookup[OF s1 e(1,2) assms(2,4), folded hm(2)]
  note l2 = merge_meta_lookup[OF s2 e(1,2) assms(2,4), folded sm(2)]
  have "opath [''metadata'', ''labels''] (Some r) = Some (JObj ls) \<and>
    opath [''metadata'', ''annotations''] (Some r) = Some (JObj as) \<and>
    opath [''metadata'', k] (Some r) = if_truthy (opath [''metadata'', k] obj)"
    using assms(7,8) by (elim disjE) (auto simp: l1(1) l2(1) e(3,4) if_truthy_def map_of_app)
  then show ?thesis using hm(1) sm(1) l1(2)[of "''spec''"] l2(2)[of "''spec''"] by simp
qed

lemma edit_keeps_metadata_witness:
  "\<exists>m. hypernode_submit_manifest (Some (meta_extras (Some (JObj [(''metadata'', JObj
        [(''labels'', JObj [(''rack'', JStr ''r1'')]), (''annotations'', JObj []),
         (''finalizers'', JArr [JStr ''f''])])]))))
        \<lparr>hf_name = Some (JStr ''h''), hf_tier = Some 1, hf_tierName = None, hf_members = []\<rparr> = Some m \<and>
     opath [''metadata'', ''labels''] (Some m) = Some (JObj [(''rack'', JStr ''r1'')])"
proof -
  let ?o = "Some (JObj [(''metadata'', JObj
        [(''labels'', JObj [(''rack'', JStr ''r1'')]), (''annotations'', JObj []),
         (''finalizers'', JArr [JStr ''f''])])])"
  let ?fv = "\<lparr>hf_name = Some (JStr ''h''), hf_tier = Some 1, hf_tierName = None, hf_members = []\<rparr>"
  let ?sv = "\<lparr>sf_name = Some (JStr ''s''), sf_nodesDesired = Some [JStr ''n1'']\<rparr>"
  obtain m where m: "hypernode_submit_manifest (Some (meta_extras ?o)) ?fv = Some m"
    by (simp add: hypernode_submit_manifest_def hypernode_encode_def hypernode_fvToInput_def)
  obtain s where s: "nodeshard_submit_manifest (Some (meta_extras ?o)) ?sv = Some s"
    by (simp add: nodeshard_submit_manifest_def nodeshard_encode_def nodeshard_fvToInput_def trim_all_def)
  show ?thesis
    using edit_keeps_metadata[of ?o "[(''rack'', JStr ''r1'')]" "[]" ?fv m ?sv s m "''finalizers''"] m s by simp
qed

lemma colocation_encode_shape:
  assumes "colocation_encode fv = Some m"
  shows "\<exists>ps sp. m = JObj ps \<and> map_of ps ''spec'' = Some (JObj sp) \<and>
    oget ''matchExpressions'' (map_of sp ''selector'') = None \<and>
    (map_of sp ''selector'' = None \<or> (\<exists>l. map_of sp ''selector'' = Some (JObj l)))"
  using assms
  by (auto simp: colocation_encode_def buildColocationConfigurationManifest_def colocation_spec_def
      map_of_app Let_def split: option.splits)

text \<open>The colocation drawer loses the selector's matchExpressions when the user
  looks at the YAML view and comes back: submitted right after loading, the
  manifest carries them; after a switch to YAML and back to the form, with
  nothing edited, it does not, because the YAML text was built without them and
  the switch back resets the reference from that text.\<close>

theorem colocation_switch_loses_expressions:
  fixes terr :: string
  assumes "dr_view d = FormView" "colocation_encode (dr_fields d) = Some m" "load (dump m) = Inr (Some m)"
    "\<And>a b. setf a b = b" "colocation_ok (dr_fields d)"
  shows "let ref = Some (JArr (e # es));
             sw = colocation_switch setf dump load terr;
             s2 = sw FormView (sw YamlView (d, ref));
             shown = (\<lambda>x. map_option (\<lambda>r. opath [''spec'', ''selector'', ''matchExpressions''] (Some r)) x)
         in shown (colocation_submit_manifest ref (dr_fields d)) = Some (Some (JArr (e # es))) \<and>
            snd s2 = None \<and> dr_view (fst s2) = FormView \<and>
            colocation_submit_manifest (snd s2) (dr_fields (fst s2)) = Some m \<and>
            shown (Some m) = Some None"
proof -
  let ?ref = "Some (JArr (e # es))"
  obtain ps sp where m: "m = JObj ps" "map_of ps ''spec'' = Some (JObj sp)"
    "oget ''matchExpressions'' (map_of sp ''selector'') = None"
    "map_of sp ''selector'' = None \<or> (\<exists>l. map_of sp ''selector'' = Some (JObj l))"
    using colocation_encode_shape[OF assms(2)] by blast
  have 1: "opath [''spec'', ''selector'', ''matchExpressions''] (Some (attach_expressions ?ref m)) = ?ref"
    using m(4) by (auto simp: attach_expressions_def m(1,2) empty_obj_def update_conv')
  define d1 where "d1 = d\<lparr>dr_yamlText := dump m, dr_yamlError := None, dr_view := YamlView\<rparr>"
  have s1: "colocation_switch setf dump load terr YamlView (d, ?ref) = (d1, ?ref)"
    using assms(1,2) by (simp add: colocation_switch_def drawer_switch_def d1_def)
  obtain fv where fv: "colocation_decode (dr_fields d) m = Some fv" "colocation_encode fv = Some m"
    using colocation_codec.decode_encode[OF assms(5,2)] by blast
  have me: "match_expressions (Some m) = None"
    using m(3) by (simp add: match_expressions_def m(1,2) nonempty_array_def)
  have s2: "colocation_switch setf dump load terr FormView (d1, ?ref) =
    (d1\<lparr>dr_fields := fv, dr_yamlError := None, dr_view := FormView\<rparr>, None)"
    using assms(3,4) fv(1) me by (simp add: colocation_switch_def drawer_switch_def d1_def m(1) Let_def)
  have "opath [''spec'', ''selector'', ''matchExpressions''] (Some m) = None"
    using m by simp
  with 1 show ?thesis
    using assms(2) fv(2) by (simp add: s1 s2 colocation_submit_manifest_def attach_expressions_def Let_def)
qed

definition sample_colocation :: ColocationFV where
  "sample_colocation = \<lparr>of_name = Some (JStr ''c''), of_namespace = Some (JStr ''ns''), of_highRatio = Some 100,
     of_lowRatio = Some 0, of_minRatio = Some 0, of_matchLabels = []\<rparr>"

lemma colocation_switch_loses_expressions_witness:
  "let m = the (colocation_encode sample_colocation);
       d = \<lparr>dr_fields = sample_colocation, dr_view = FormView, dr_yamlText = [], dr_yamlError = None\<rparr>;
       sw = colocation_switch (\<lambda>_ b. b) (\<lambda>_. ''yaml'') (\<lambda>_. Inr (Some m)) []
   in snd (sw FormView (sw YamlView (d, Some (JArr [JStr ''rule''])))) = None"
proof -
  let ?m = "the (colocation_encode sample_colocation)"
  let ?d = "\<lparr>dr_fields = sample_colocation, dr_view = FormView, dr_yamlText = [], dr_yamlError = None\<rparr>"
  have "colocation_encode sample_colocation = Some ?m"
    by (simp add: colocation_encode_def colocation_fvToInput_def sample_colocation_def)
  moreover have "colocation_ok sample_colocation"
    by (simp add: colocation_ok_def sample_colocation_def)
  ultimately show ?thesis
    using colocation_switch_loses_expressions[of ?d ?m "\<lambda>_. Inr (Some ?m)" "\<lambda>_. ''yaml''" "\<lambda>_ b. b" "JStr ''rule''" "[]" "[]"]
    by (simp add: Let_def)
qed

text \<open>A NodeShard whose YAML lists a node that is not a string is accepted by the
  switch to the form, whose fields then cannot be encoded: the submit throws.
  The initial load of the same object drops the value instead.\<close>

theorem nodeshard_switch_keeps_nonstring:
  "nodeshard_decode old (JObj [(''spec'', JObj [(''nodesDesired'', JArr (JNum n # xs))])]) =
     Some \<lparr>sf_name = coalesce None (sf_name old), sf_nodesDesired = Some (JNum n # xs)\<rparr> \<and>
   nodeshard_encode \<lparr>sf_name = nm, sf_nodesDesired = Some (JNum n # xs)\<rparr> = None \<and>
   sf_nodesDesired (fst (nodeshard_load (Some (JObj [(''spec'', JObj [(''nodesDesired'', JArr [JNum n, JStr s])])])) name))
     = Some [JStr s]"
  by (auto simp: nodeshard_decode_def nodeshard_encode_def nodeshard_fvToInput_def trim_all_def nodeshard_load_def
      only_strings_def  bind_eq_Some_iff)

end
