(* ===== verification/VolcanoList.thy ===== *)
theory VolcanoList
  imports JsString
begin

text \<open>
  hooks/useVolcanoList.ts: the cursor-paginated list behind every Volcano table.
  The state holds what React state and the refs hold; fetches in flight are
  listed under their generation (every fetch bumps the counter once, so a
  generation names one fetch) and end with a Resolve or Reject event at any
  later time and in any order.  ready is the option the current closures see.
\<close>

record 'a response =
  rs_items :: "'a list option"
  rs_continue :: "string option"
  rs_remaining :: "int option"

record 'a vlist =
  vl_items :: "'a list"
  vl_loading :: bool
  vl_error :: "string option"
  vl_hasMore :: bool
  vl_total :: "int option"
  vl_gen :: nat
  vl_cont :: "string option"
  vl_ready :: bool
  vl_mounted :: bool
  vl_flights :: "(nat \<times> string option \<times> bool) list"

datatype 'a vevent =
    Refresh
  | LoadMore
  | DepsChange bool
  | Resolve nat "'a response"
  | Reject nat string
  | Unmount

definition vl_init :: "'a vlist" where
  "vl_init = \<lparr>vl_items = [], vl_loading = False, vl_error = None, vl_hasMore = False,
     vl_total = None, vl_gen = 0, vl_cont = None, vl_ready = False, vl_mounted = True, vl_flights = []\<rparr>"

text \<open>fetchPage up to its await: the request for the page is in flight.\<close>

definition fetchPage :: "string option \<Rightarrow> nat \<Rightarrow> bool \<Rightarrow> 'a vlist \<Rightarrow> 'a vlist" where
  "fetchPage token gen app s =
    s\<lparr>vl_loading := True, vl_error := None, vl_flights := (gen, token, app) # vl_flights s\<rparr>"

text \<open>res.continue || undefined\<close>

definition next_token :: "'a response \<Rightarrow> string option" where
  "next_token res = (if rs_continue res = Some [] then None else rs_continue res)"

text \<open>res.items ?? []\<close>

definition new_items :: "'a response \<Rightarrow> 'a list" where
  "new_items res = (case rs_items res of None \<Rightarrow> [] | Some xs \<Rightarrow> xs)"

definition zero_or :: "int option \<Rightarrow> int" where
  "zero_or x = (case x of None \<Rightarrow> 0 | Some n \<Rightarrow> n)"

definition next_total :: "bool \<Rightarrow> 'a response \<Rightarrow> int option \<Rightarrow> int option" where
  "next_total app res prev =
    (case rs_remaining res of
       Some r \<Rightarrow> Some ((if app then zero_or prev else 0) + int (length (new_items res)) + r)
     | None \<Rightarrow>
         if next_token res = None
         then Some (if app then zero_or prev + int (length (new_items res)) else int (length (new_items res)))
         else if \<not> app then None
         else prev)"

text \<open>fetchPage after its await, for the latest generation.\<close>

definition commit :: "bool \<Rightarrow> 'a response \<Rightarrow> 'a vlist \<Rightarrow> 'a vlist" where
  "commit app res s =
    s\<lparr>vl_items := (if app then vl_items s @ new_items res else new_items res),
      vl_cont := next_token res, vl_hasMore := (next_token res \<noteq> None),
      vl_total := next_total app res (vl_total s)\<rparr>"

definition land_flight :: "nat \<Rightarrow> 'a vlist \<Rightarrow> 'a vlist" where
  "land_flight g s = s\<lparr>vl_flights := AList.delete g (vl_flights s)\<rparr>"

definition vl_refresh :: "'a vlist \<Rightarrow> 'a vlist" where
  "vl_refresh s =
    (if \<not> vl_ready s then s
     else let gen = Suc (vl_gen s)
          in fetchPage None gen False (s\<lparr>vl_gen := gen, vl_cont := None, vl_hasMore := False, vl_total := None\<rparr>))"

definition vl_loadMore :: "'a vlist \<Rightarrow> 'a vlist" where
  "vl_loadMore s =
    (if \<not> vl_ready s then s
     else case vl_cont s of
            None \<Rightarrow> s
          | Some token \<Rightarrow> let gen = Suc (vl_gen s)
                          in fetchPage (Some token) gen True (s\<lparr>vl_gen := gen\<rparr>))"

text \<open>The effect that runs on mount and whenever ready or a dependency changes.\<close>

definition vl_deps :: "bool \<Rightarrow> 'a vlist \<Rightarrow> 'a vlist" where
  "vl_deps ready s0 =
    (let s = s0\<lparr>vl_ready := ready\<rparr>; gen = Suc (vl_gen s) in
     if \<not> ready then s\<lparr>vl_gen := gen, vl_items := [], vl_cont := None, vl_hasMore := False,
                      vl_total := None, vl_error := None\<rparr>
     else fetchPage None gen False
            (s\<lparr>vl_gen := gen, vl_cont := None, vl_hasMore := False, vl_total := None, vl_items := []\<rparr>))"

definition vl_resolve :: "nat \<Rightarrow> 'a response \<Rightarrow> 'a vlist \<Rightarrow> 'a vlist" where
  "vl_resolve g res s =
    (case map_of (vl_flights s) g of
       None \<Rightarrow> s
     | Some (token, app) \<Rightarrow>
       let s' = land_flight g s in
       if g \<noteq> vl_gen s then s' else (commit app res s')\<lparr>vl_loading := False\<rparr>)"

definition vl_reject :: "nat \<Rightarrow> string \<Rightarrow> 'a vlist \<Rightarrow> 'a vlist" where
  "vl_reject g e s =
    (case map_of (vl_flights s) g of
       None \<Rightarrow> s
     | Some _ \<Rightarrow>
       let s' = land_flight g s in
       if g \<noteq> vl_gen s then s' else s'\<lparr>vl_error := Some e, vl_loading := False\<rparr>)"

fun vl_step :: "'a vevent \<Rightarrow> 'a vlist \<Rightarrow> 'a vlist" where
  "vl_step Refresh s = vl_refresh s"
| "vl_step LoadMore s = vl_loadMore s"
| "vl_step (DepsChange ready) s = vl_deps ready s"
| "vl_step (Resolve g res) s = vl_resolve g res s"
| "vl_step (Reject g e) s = vl_reject g e s"
| "vl_step Unmount s = s\<lparr>vl_gen := Suc (vl_gen s), vl_mounted := False\<rparr>"

definition vl_run :: "'a vevent list \<Rightarrow> 'a vlist \<Rightarrow> 'a vlist" where
  "vl_run evs s = fold vl_step evs s"

lemma vl_run_Nil [simp]: "vl_run [] s = s"
  by (simp add: vl_run_def)

lemma vl_run_Cons [simp]: "vl_run (e # evs) s = vl_run evs (vl_step e s)"
  by (simp add: vl_run_def)

lemma vl_run_append: "vl_run (xs @ ys) s = vl_run ys (vl_run xs s)"
  by (simp add: vl_run_def)

lemmas vl_defs [step_simps] = vl_refresh_def vl_loadMore_def vl_deps_def vl_resolve_def vl_reject_def
  fetchPage_def commit_def land_flight_def Let_def

lemma vl_invariant:
  assumes "I s" "\<And>e s. I s \<Longrightarrow> I (vl_step e s)"
  shows "I (vl_run evs s)"
  using assms(1) by (induction evs arbitrary: s) (auto intro: assms(2))

subsection \<open>Generations\<close>

text \<open>Flights carry distinct generations up to the counter; the button state
  mirrors the cursor; while mounted and ready, the spinner shows exactly when
  the latest fetch is in flight.\<close>

definition gens_ok :: "'a vlist \<Rightarrow> bool" where
  "gens_ok s \<longleftrightarrow> distinct (map fst (vl_flights s)) \<and> (\<forall>g \<in> fst ` set (vl_flights s). g \<le> vl_gen s)"

definition cursor_ok :: "'a vlist \<Rightarrow> bool" where
  "cursor_ok s \<longleftrightarrow> vl_hasMore s = (vl_cont s \<noteq> None)"

definition spinner_ok :: "'a vlist \<Rightarrow> bool" where
  "spinner_ok s \<longleftrightarrow> (vl_mounted s \<and> vl_ready s \<longrightarrow>
     vl_loading s = (map_of (vl_flights s) (vl_gen s) \<noteq> None))"

lemma fresh_gen: "gens_ok s \<Longrightarrow> Suc (vl_gen s) \<notin> fst ` set (vl_flights s)"
  by (auto simp: gens_ok_def)

lemma delete_entries: "x \<in> set (AList.delete g ps) \<Longrightarrow> x \<in> set ps"
  by (auto simp: AList.delete_eq)

lemma gens_ok_step: "gens_ok s \<Longrightarrow> gens_ok (vl_step e s)"
proof (cases e)
  case (Resolve g r)
  then show "gens_ok s \<Longrightarrow> ?thesis"
    by (auto simp: step_simps gens_ok_def AList.distinct_delete split: option.splits dest!: delete_entries)
next
  case (Reject g r)
  then show "gens_ok s \<Longrightarrow> ?thesis"
    by (auto simp: step_simps gens_ok_def AList.distinct_delete split: option.splits dest!: delete_entries)
qed (auto simp: step_simps gens_ok_def split: option.splits intro: le_SucI dest: fresh_gen)

lemma cursor_ok_step: "cursor_ok s \<Longrightarrow> cursor_ok (vl_step e s)"
  by (cases e) (auto simp: step_simps cursor_ok_def split: option.splits)

lemma spinner_ok_step: "spinner_ok s \<Longrightarrow> spinner_ok (vl_step e s)"
  by (cases e) (auto simp: step_simps spinner_ok_def delete_conv' split: option.splits)

lemma vl_init_ok: "gens_ok vl_init \<and> cursor_ok vl_init \<and> spinner_ok vl_init"
  by (simp add: vl_init_def gens_ok_def cursor_ok_def spinner_ok_def)

lemma vl_init_oks [simp]: "gens_ok vl_init" "cursor_ok vl_init" "spinner_ok vl_init"
  using vl_init_ok by auto

lemma gens_ok_run: "gens_ok s \<Longrightarrow> gens_ok (vl_run evs s)"
  by (rule vl_invariant) (auto intro: gens_ok_step)

text \<open>A fetch that is no longer the latest changes nothing when it ends.\<close>

definition vl_visible :: "'a vlist \<Rightarrow> 'a list \<times> bool \<times> string option \<times> bool \<times> int option \<times> string option" where
  "vl_visible s = (vl_items s, vl_loading s, vl_error s, vl_hasMore s, vl_total s, vl_cont s)"

lemma stale_invisible:
  "g \<noteq> vl_gen s \<Longrightarrow> vl_visible (vl_step (Resolve g r) s) = vl_visible s"
  "g \<noteq> vl_gen s \<Longrightarrow> vl_visible (vl_step (Reject g e) s) = vl_visible s"
  by (auto simp: step_simps vl_visible_def split: option.splits)

subsection \<open>Pages\<close>

text \<open>A server that answers a cursor with a page, and the items and the cursor
  after the first k pages.\<close>

fun pages :: "(string option \<Rightarrow> 'a response) \<Rightarrow> nat \<Rightarrow> 'a list \<times> string option" where
  "pages srv 0 = ([], None)"
| "pages srv (Suc k) = (let (xs, c) = pages srv k in (xs @ new_items (srv c), next_token (srv c)))"

text \<open>Responses of the latest fetch come from that server.\<close>

definition answers :: "(string option \<Rightarrow> 'a response) \<Rightarrow> 'a vevent \<Rightarrow> 'a vlist \<Rightarrow> bool" where
  "answers srv e s =
    (case e of
       Resolve g res \<Rightarrow>
         (g = vl_gen s \<longrightarrow> (case map_of (vl_flights s) g of Some (token, _) \<Rightarrow> res = srv token | None \<Rightarrow> True))
     | _ \<Rightarrow> True)"

fun all_answer :: "(string option \<Rightarrow> 'a response) \<Rightarrow> 'a vevent list \<Rightarrow> 'a vlist \<Rightarrow> bool" where
  "all_answer srv [] s = True"
| "all_answer srv (e # evs) s = (answers srv e s \<and> all_answer srv evs (vl_step e s))"

definition pages_ok :: "(string option \<Rightarrow> 'a response) \<Rightarrow> 'a vlist \<Rightarrow> bool" where
  "pages_ok srv s \<longleftrightarrow> (\<exists>k. vl_items s = fst (pages srv k) \<and>
     (vl_cont s \<noteq> None \<longrightarrow> vl_cont s = snd (pages srv k)) \<and>
     (\<forall>token app. map_of (vl_flights s) (vl_gen s) = Some (token, app) \<longrightarrow>
        (if app then token \<noteq> None \<and> token = snd (pages srv k) else token = None)))"

lemma pages_ok_step:
  assumes "pages_ok srv s" "gens_ok s" "answers srv e s"
  shows "pages_ok srv (vl_step e s)"
proof -
  obtain k where k: "vl_items s = fst (pages srv k)"
    "vl_cont s \<noteq> None \<longrightarrow> vl_cont s = snd (pages srv k)"
    "\<And>token app. map_of (vl_flights s) (vl_gen s) = Some (token, app) \<Longrightarrow>
        (if app then token \<noteq> None \<and> token = snd (pages srv k) else token = None)"
    using assms(1) unfolding pages_ok_def by blast
  have none: "map_of (vl_flights s) (Suc (vl_gen s)) = None"
    using fresh_gen[OF assms(2)] by (simp add: map_of_eq_None_iff)
  show ?thesis
  proof (cases e)
    case Refresh
    then show ?thesis using k(1) assms(1) by (auto simp: step_simps pages_ok_def)
  next
    case LoadMore
    show ?thesis
    proof (cases "vl_ready s \<and> vl_cont s \<noteq> None")
      case True
      then obtain t where t: "vl_cont s = Some t" by auto
      moreover from this k(2) have "snd (pages srv k) = Some t" by simp
      ultimately show ?thesis using True LoadMore k(1) by (simp add: step_simps pages_ok_def) metis
    next
      case False
      then show ?thesis using LoadMore assms(1) by (auto simp: step_simps split: option.splits)
    qed
  next
    case (DepsChange r)
    then show ?thesis using none by (auto simp: step_simps pages_ok_def intro!: exI[of _ 0])
  next
    case (Resolve g res)
    show ?thesis
    proof (cases "map_of (vl_flights s) g")
      case None
      then show ?thesis using Resolve assms(1) by (simp add: step_simps)
    next
      case (Some fl)
      obtain token app where fl: "fl = (token, app)" by force
      show ?thesis
      proof (cases "g = vl_gen s")
        case False
        then show ?thesis
          using Resolve Some fl k by (auto simp: step_simps pages_ok_def delete_conv' intro!: exI[of _ k])
      next
        case True
        with assms(3) Resolve Some fl have res: "res = srv token" by (simp add: answers_def)
        show ?thesis
        proof (cases app)
          case True
          with k(3)[of token app] Some fl \<open>g = vl_gen s\<close> have "token = snd (pages srv k)" by simp
          then show ?thesis
            using Resolve Some fl \<open>g = vl_gen s\<close> True k(1) res
            by (auto simp: step_simps pages_ok_def delete_conv' case_prod_beta intro!: exI[of _ "Suc k"])
        next
          case False
          with k(3)[of token app] Some fl \<open>g = vl_gen s\<close> have "token = None" by simp
          then show ?thesis
            using Resolve Some fl \<open>g = vl_gen s\<close> False res
            by (auto simp: step_simps pages_ok_def delete_conv' intro!: exI[of _ "Suc 0"])
        qed
      qed
    qed
  next
    case (Reject g er)
    then show ?thesis
      using k assms(1) by (auto simp: step_simps pages_ok_def delete_conv' split: option.splits intro!: exI[of _ k])
  next
    case Unmount
    then show ?thesis using none k by (auto simp: pages_ok_def intro!: exI[of _ k])
  qed
qed

lemma pages_ok_run:
  "pages_ok srv s \<Longrightarrow> gens_ok s \<Longrightarrow> all_answer srv evs s \<Longrightarrow> pages_ok srv (vl_run evs s)"
  by (induction evs arbitrary: s) (auto intro: pages_ok_step gens_ok_step)


subsection \<open>Paging through\<close>

text \<open>One page more: the button, and the server's answer to the fetch it starts.\<close>

definition one_more :: "(string option \<Rightarrow> 'a response) \<Rightarrow> 'a vlist \<Rightarrow> 'a vlist" where
  "one_more srv s = (let s' = vl_step LoadMore s in vl_step (Resolve (vl_gen s') (srv (vl_cont s))) s')"

fun page_through :: "(string option \<Rightarrow> 'a response) \<Rightarrow> nat \<Rightarrow> 'a vlist \<Rightarrow> 'a vlist" where
  "page_through srv 0 s = vl_step (Resolve (vl_gen s) (srv None)) s"
| "page_through srv (Suc k) s = one_more srv (page_through srv k s)"

lemma one_more_eq:
  assumes "vl_ready s" "vl_cont s = Some t"
  shows "vl_ready (one_more srv s)"
    "vl_items (one_more srv s) = vl_items s @ new_items (srv (Some t))"
    "vl_cont (one_more srv s) = next_token (srv (Some t))"
    "vl_hasMore (one_more srv s) = (next_token (srv (Some t)) \<noteq> None)"
    "\<not> vl_loading (one_more srv s)"
    "vl_total (one_more srv s) = next_total True (srv (Some t)) (vl_total s)"
    "vl_error (one_more srv s) = None"
  using assms by (simp_all add: one_more_def step_simps)

lemma first_page_eq:
  "vl_ready (page_through srv 0 (vl_deps True s))"
  "vl_items (page_through srv 0 (vl_deps True s)) = new_items (srv None)"
  "vl_cont (page_through srv 0 (vl_deps True s)) = next_token (srv None)"
  "vl_hasMore (page_through srv 0 (vl_deps True s)) = (next_token (srv None) \<noteq> None)"
  "\<not> vl_loading (page_through srv 0 (vl_deps True s))"
  "vl_total (page_through srv 0 (vl_deps True s)) = next_total False (srv None) None"
  "vl_error (page_through srv 0 (vl_deps True s)) = None"
  by (simp_all add: step_simps)

lemma pages_next:
  assumes "snd (pages srv k) = c"
  shows "fst (pages srv (Suc k)) = fst (pages srv k) @ new_items (srv c)"
    "snd (pages srv (Suc k)) = next_token (srv c)"
  using assms by (auto simp: case_prod_beta)

lemma page_through_pages:
  assumes "\<And>j. 0 < j \<Longrightarrow> j \<le> k \<Longrightarrow> snd (pages srv j) \<noteq> None"
  shows "vl_ready (page_through srv k (vl_deps True s)) \<and>
    vl_items (page_through srv k (vl_deps True s)) = fst (pages srv (Suc k)) \<and>
    vl_cont (page_through srv k (vl_deps True s)) = snd (pages srv (Suc k)) \<and>
    vl_hasMore (page_through srv k (vl_deps True s)) = (snd (pages srv (Suc k)) \<noteq> None) \<and>
    \<not> vl_loading (page_through srv k (vl_deps True s)) \<and>
    vl_error (page_through srv k (vl_deps True s)) = None"
  using assms
proof (induction k)
  case 0
  show ?case using first_page_eq[where srv = srv and s = s] by simp
next
  case (Suc k)
  let ?p = "page_through srv k (vl_deps True s)"
  from Suc have IH: "vl_ready ?p" "vl_items ?p = fst (pages srv (Suc k))" "vl_cont ?p = snd (pages srv (Suc k))"
    by auto
  moreover obtain t where t: "snd (pages srv (Suc k)) = Some t" using Suc.prems[of "Suc k"] by auto
  ultimately have "vl_cont ?p = Some t" by simp
  note m = one_more_eq[OF IH(1) this, of srv]
  with IH(2) pages_next[OF t] show ?case by (simp del: pages.simps)
qed

lemma page_through_total:
  assumes "\<And>j. 0 < j \<Longrightarrow> j \<le> k \<Longrightarrow> snd (pages srv j) \<noteq> None"
    and "\<And>c. rs_remaining (srv c) = None"
    and "snd (pages srv (Suc k)) \<noteq> None"
  shows "vl_total (page_through srv k (vl_deps True s)) = None"
  using assms(1,3)
proof (induction k)
  case 0
  then show ?case by (simp add: first_page_eq(6) next_total_def assms(2) del: page_through.simps)
next
  case (Suc k)
  let ?p = "page_through srv k (vl_deps True s)"
  have p: "vl_ready ?p" "vl_cont ?p = snd (pages srv (Suc k))"
    using page_through_pages[of k srv s] Suc.prems(1) by auto
  obtain t where t: "snd (pages srv (Suc k)) = Some t" using Suc.prems(1)[of "Suc k"] by auto
  have "next_token (srv (Some t)) \<noteq> None"
    using Suc.prems(2) pages_next(2)[OF t] by simp
  moreover have "vl_total ?p = None" using Suc t by simp
  ultimately show ?case
    using one_more_eq(6)[OF p(1), of t srv] p(2) t by (simp add: next_total_def assms(2))
qed


subsection \<open>The list behind the tables\<close>

lemma pages_ok_deps:
  assumes "gens_ok s"
  shows "pages_ok srv (vl_deps r s)"
proof -
  have "map_of (vl_flights s) (Suc (vl_gen s)) = None"
    using fresh_gen[OF assms] by (simp add: map_of_eq_None_iff)
  then show ?thesis by (auto simp: step_simps pages_ok_def intro!: exI[of _ 0])
qed


text \<open>A server of two pages, and a history in which the answer to the first
  fetch comes after the refresh that replaced it.\<close>

definition two_pages :: "string option \<Rightarrow> nat response" where
  "two_pages c = (if c = None
     then \<lparr>rs_items = Some [1, 2], rs_continue = Some ''p2'', rs_remaining = None\<rparr>
     else \<lparr>rs_items = Some [3], rs_continue = Some [], rs_remaining = None\<rparr>)"


text \<open>C17. Clicking "load more" until the cursor is gone shows every page: while the
  server returns cursors, each click appends the next page; the button is there
  exactly while a cursor is left, the spinner is off and no error is shown.\<close>

theorem volcano_list_load_more_reaches_all_pages:
  assumes "\<And>j. 0 < j \<Longrightarrow> j \<le> k \<Longrightarrow> snd (pages srv j) \<noteq> None"
  shows "vl_items (page_through srv k (vl_deps True s)) = fst (pages srv (Suc k)) \<and>
    vl_hasMore (page_through srv k (vl_deps True s)) = (snd (pages srv (Suc k)) \<noteq> None) \<and>
    \<not> vl_loading (page_through srv k (vl_deps True s)) \<and>
    vl_error (page_through srv k (vl_deps True s)) = None"
  using page_through_pages[where k = k and srv = srv and s = s, OF assms] by blast

lemma volcano_list_load_more_reaches_all_pages_witness:
  "vl_items (page_through two_pages 1 (vl_deps True vl_init)) = [1, 2, 3] \<and>
   \<not> vl_hasMore (page_through two_pages 1 (vl_deps True vl_init))"
proof -
  have "snd (pages two_pages j) \<noteq> None" if "0 < j" "j \<le> 1" for j
    using that by (cases j) (simp_all add: two_pages_def next_token_def)
  from volcano_list_load_more_reaches_all_pages[of 1 two_pages vl_init, OF this]
  show ?thesis by (simp add: two_pages_def next_token_def new_items_def numeral_eq_Suc del: page_through.simps)
qed

text \<open>The fetch that is shown as loading is always the latest: in any history the
  "load more" button is offered exactly when a cursor is held, the spinner of a
  mounted, ready list runs exactly while the latest fetch is unanswered, and an
  answer to an older fetch changes nothing that is shown.\<close>

theorem volcano_list_state_consistent:
  "vl_hasMore (vl_run evs vl_init) = (vl_cont (vl_run evs vl_init) \<noteq> None) \<and>
   (\<not> vl_mounted (vl_run evs vl_init) \<or> \<not> vl_ready (vl_run evs vl_init) \<or>
     vl_loading (vl_run evs vl_init) =
       (vl_gen (vl_run evs vl_init) \<in> fst ` set (vl_flights (vl_run evs vl_init)))) \<and>
   (g = vl_gen (vl_run evs vl_init) \<or>
     vl_visible (vl_step (Resolve g r) (vl_run evs vl_init)) = vl_visible (vl_run evs vl_init) \<and>
     vl_visible (vl_step (Reject g e) (vl_run evs vl_init)) = vl_visible (vl_run evs vl_init))"
proof -
  have "cursor_ok (vl_run evs vl_init)" "spinner_ok (vl_run evs vl_init)"
    using vl_init_ok by (auto intro!: vl_invariant[of cursor_ok] vl_invariant[of spinner_ok]
      cursor_ok_step spinner_ok_step)
  moreover have "map_of (vl_flights s) h \<noteq> None \<longleftrightarrow> h \<in> fst ` set (vl_flights s)" for s :: "'a vlist" and h
    using map_of_eq_None_iff by metis
  moreover note stale_invisible[of g "vl_run evs vl_init"]
  ultimately show ?thesis unfolding cursor_ok_def spinner_ok_def by blast
qed


lemma volcano_list_state_consistent_witness:
  "vl_loading (vl_run [DepsChange True] (vl_init :: nat vlist)) \<and>
   vl_visible (vl_step (Resolve 0 (two_pages None)) (vl_run [DepsChange True] vl_init)) =
     vl_visible (vl_run [DepsChange True] vl_init)"
  using volcano_list_state_consistent[of "[DepsChange True]" 0 "two_pages None" "''e''"]
  by (simp add: vl_init_def step_simps del: vl_step.simps(4,5))

text \<open>The total is not the size of the list: when the server reports how many rows
  remain, every appended page adds to the old total, which already counted the
  rows of that page.  After one more click the total exceeds the rows shown plus
  the rows remaining by what remained before.\<close>

theorem total_counts_remaining_twice:
  assumes "vl_ready s" "vl_cont s \<noteq> None"
    and "vl_total s = Some (int (length (vl_items s)) + r)"
    and "rs_remaining (srv (vl_cont s)) = Some r'"
  shows "vl_total (one_more srv s) = Some (int (length (vl_items (one_more srv s))) + r' + r)"
proof -
  obtain t where t: "vl_cont s = Some t" using assms(2) by auto
  from one_more_eq(2,6)[OF assms(1) t, of srv] assms(3,4) t show ?thesis
    by (simp add: next_total_def zero_or_def)
qed

definition counted_pages :: "string option \<Rightarrow> nat response" where
  "counted_pages c = (if c = None
     then \<lparr>rs_items = Some [1, 2], rs_continue = Some ''p2'', rs_remaining = Some 2\<rparr>
     else \<lparr>rs_items = Some [3], rs_continue = Some ''p3'', rs_remaining = Some 1\<rparr>)"

lemma total_counts_remaining_twice_witness:
  "vl_total (one_more counted_pages (page_through counted_pages 0 (vl_deps True vl_init))) = Some 6"
proof -
  let ?s = "page_through counted_pages 0 (vl_deps True vl_init)"
  have s: "vl_ready ?s" "vl_cont ?s = Some ''p2''" "vl_items ?s = [1, 2]" "vl_total ?s = Some 4"
    by (rule first_page_eq)
      (simp_all only: first_page_eq counted_pages_def next_token_def new_items_def next_total_def, simp_all)
  have i: "vl_items (one_more counted_pages ?s) = [1, 2, 3]"
    using one_more_eq(2)[OF s(1,2), of counted_pages] s(3)
    by (simp add: counted_pages_def new_items_def del: page_through.simps)
  show ?thesis
    using total_counts_remaining_twice[of ?s 2 counted_pages 1] s i
    by (simp add: counted_pages_def del: page_through.simps)
qed

text \<open>When the server reports no counts, the total shown once all pages are
  loaded is the size of the last page alone, as soon as there is more than one.\<close>

theorem total_is_last_page_without_counts:
  assumes "\<And>j. 0 < j \<Longrightarrow> j \<le> Suc k \<Longrightarrow> snd (pages srv j) \<noteq> None"
    and "snd (pages srv (Suc (Suc k))) = None"
    and "\<And>c. rs_remaining (srv c) = None"
  shows "vl_total (page_through srv (Suc k) (vl_deps True s)) =
    Some (int (length (new_items (srv (snd (pages srv (Suc k)))))))"
proof -
  let ?p = "page_through srv k (vl_deps True s)"
  have prev: "snd (pages srv j) \<noteq> None" if "0 < j" "j \<le> k" for j
    using assms(1) that by simp
  have "snd (pages srv (Suc k)) \<noteq> None" using assms(1)[of "Suc k"] by blast
  then obtain t where t: "snd (pages srv (Suc k)) = Some t" by blast
  have p: "vl_ready ?p" "vl_cont ?p = Some t" "vl_total ?p = None"
    using page_through_pages[where k = k and srv = srv and s = s, OF prev] t
      page_through_total[where k = k and srv = srv and s = s, OF prev assms(3)] by simp_all
  have "next_token (srv (Some t)) = None" using assms(2) pages_next(2)[OF t] by simp
  with one_more_eq(6)[OF p(1,2), of srv] p(3) t show ?thesis
    by (simp add: next_total_def zero_or_def assms(3) del: pages.simps)
qed

lemma total_is_last_page_without_counts_witness:
  "vl_total (page_through two_pages (Suc 0) (vl_deps True vl_init)) = Some 1"
proof -
  have "snd (pages two_pages j) \<noteq> None" if "0 < j" "j \<le> Suc 0" for j
    using that by (cases j) (simp_all add: two_pages_def next_token_def)
  from total_is_last_page_without_counts[of 0 two_pages vl_init, OF this]
  show ?thesis by (simp add: two_pages_def next_token_def new_items_def del: page_through.simps)
qed

subsection \<open>The list that becomes idle\<close>

definition abandoned :: "bool \<Rightarrow> 'a vlist \<Rightarrow> bool" where
  "abandoned l s \<longleftrightarrow> \<not> vl_ready s \<and> vl_loading s = l \<and> vl_items s = [] \<and>
     (\<forall>g \<in> fst ` set (vl_flights s). g < vl_gen s)"

lemma abandoned_lands:
  assumes "abandoned l s"
  shows "abandoned l (vl_step (Resolve g r) s)" "abandoned l (vl_step (Reject g e) s)"
  using assms by (auto simp: vl_resolve_def vl_reject_def land_flight_def Let_def abandoned_def
    split: option.splits dest!: delete_entries dest: map_of_SomeD) (metis fst_conv map_of_SomeD order_less_irrefl)+

lemma abandoned_step:
  assumes "abandoned l s" "e \<noteq> DepsChange True"
  shows "abandoned l (vl_step e s)"
proof (cases e)
  case (Resolve g r)
  then show ?thesis using abandoned_lands(1)[OF assms(1)] by simp
next
  case (Reject g r)
  then show ?thesis using abandoned_lands(2)[OF assms(1)] by simp
qed (use assms in \<open>auto simp: vl_deps_def vl_refresh_def vl_loadMore_def abandoned_def Let_def intro: less_SucI\<close>)

lemma abandoned_run: "abandoned l s \<Longrightarrow> DepsChange True \<notin> set evs \<Longrightarrow> abandoned l (vl_run evs s)"
proof (induction evs arbitrary: s)
  case (Cons e evs)
  from Cons.prems(2) have "e \<noteq> DepsChange True" "DepsChange True \<notin> set evs" by auto
  with Cons.IH[OF abandoned_step[OF Cons.prems(1)]] show ?case by simp
qed simp

text \<open>A list whose cluster is unselected shows no rows until it is ready again, but
  it keeps the spinner it had: a fetch in flight at that moment leaves the list
  loading, whatever is clicked or answered.\<close>

theorem idle_list_empty_but_keeps_spinner:
  assumes "DepsChange True \<notin> set evs"
  shows "vl_items (vl_run evs (vl_deps False (vl_run before vl_init))) = [] \<and>
    vl_loading (vl_run evs (vl_deps False (vl_run before vl_init))) = vl_loading (vl_run before vl_init)"
proof -
  have "gens_ok (vl_run before vl_init)" by (simp add: gens_ok_run)
  then have "abandoned (vl_loading (vl_run before vl_init)) (vl_deps False (vl_run before vl_init))"
    by (auto simp: abandoned_def vl_deps_def gens_ok_def Let_def le_imp_less_Suc)
  from abandoned_run[OF this assms] show ?thesis by (simp add: abandoned_def)
qed

lemma idle_list_empty_but_keeps_spinner_witness:
  "vl_loading (vl_run [Resolve 1 (two_pages None)] (vl_deps False (vl_run [DepsChange True] vl_init)))"
  using idle_list_empty_but_keeps_spinner[of "[Resolve 1 (two_pages None)]" "[DepsChange True]"]
  by (simp add: vl_deps_def fetchPage_def Let_def del: vl_step.simps(4))

end
