(* ===== verification/Uri.thy ===== *)
theory Uri
  imports Request
begin

text \<open>
  encodeURIComponent of the JavaScript library, on strings given by their UTF-8
  bytes, and buildQueryString of services/kpilot/logs.ts.
\<close>

definition uri_unreserved :: "char \<Rightarrow> bool" where
  "uri_unreserved c = (let n = of_char c :: nat in
     (48 \<le> n \<and> n \<le> 57) \<or> (65 \<le> n \<and> n \<le> 90) \<or> (97 \<le> n \<and> n \<le> 122) \<or>
     c \<in> set [CHR ''-'', CHR ''_'', CHR ''.'', CHR ''!'', CHR ''~'', CHR ''*'', CHR 0x27, CHR ''('', CHR '')''])"

definition upper_hex :: "nat \<Rightarrow> char" where
  "upper_hex n = (if n < 10 then char_of (48 + n) else char_of (55 + n))"

definition uri_escape :: "char \<Rightarrow> string" where
  "uri_escape c = (let n = of_char c :: nat in
     if uri_unreserved c then [c] else [CHR ''%'', upper_hex (n div 16), upper_hex (n mod 16)])"

definition encodeURIComponent :: "string \<Rightarrow> string" where
  "encodeURIComponent s = concat (map uri_escape s)"

text \<open>The entries of the params record whose value is not undefined, as a query.\<close>

definition buildQueryString :: "(string \<times> jval) list \<Rightarrow> string" where
  "buildQueryString params =
    (let parts = concat (map (\<lambda>(k, v). case v of None \<Rightarrow> []
                 | Some x \<Rightarrow> [encodeURIComponent k @ ''='' @ encodeURIComponent (js_String x)]) params)
     in if parts = [] then '''' else ''?'' @ join ''&'' parts)"

subsection \<open>Decoding\<close>

definition hex_value :: "char \<Rightarrow> nat" where
  "hex_value c = (let n = of_char c :: nat in if n \<le> 57 then n - 48 else n - 55)"

fun uri_decode :: "string \<Rightarrow> string" where
  "uri_decode (c # a # b # s) =
    (if c = CHR ''%'' then char_of (hex_value a * 16 + hex_value b) # uri_decode s
     else c # uri_decode (a # b # s))"
| "uri_decode s = s"

lemma hex_value_upper [simp]: "n < 16 \<Longrightarrow> hex_value (upper_hex n) = n"
  by (auto simp: hex_value_def upper_hex_def)

lemma high_nibble: "(of_char c :: nat) div 16 < 16"
proof (rule less_mult_imp_div_less)
  show "(of_char c :: nat) < 16 * 16" using range_nat_of_char by auto
qed

lemma percent_reserved: "\<not> uri_unreserved (CHR ''%'')"
  by (simp add: uri_unreserved_def)

lemma uri_decode_plain: "c \<noteq> CHR ''%'' \<Longrightarrow> uri_decode (c # s) = c # uri_decode s"
  by (cases s rule: uri_decode.cases) auto

lemma uri_decode_escape: "uri_decode (uri_escape c @ s) = c # uri_decode s"
proof (cases "uri_unreserved c")
  case True
  then have "c \<noteq> CHR ''%''" using percent_reserved by auto
  then show ?thesis using True by (simp add: uri_escape_def uri_decode_plain)
next
  case False
  then show ?thesis using high_nibble[of c] by (simp add: uri_escape_def Let_def)
qed

lemma uri_decode_encode [simp]: "uri_decode (encodeURIComponent s) = s"
  by (induction s) (simp_all add: encodeURIComponent_def uri_decode_escape)

lemma encodeURIComponent_inj: "encodeURIComponent s = encodeURIComponent t \<longleftrightarrow> s = t"
  by (metis uri_decode_encode)

lemma upper_hex_plain: "n < 16 \<Longrightarrow> uri_unreserved (upper_hex n)"
  by (auto simp: uri_unreserved_def upper_hex_def)

lemma encoded_chars: "c \<in> set (encodeURIComponent s) \<Longrightarrow> uri_unreserved c \<or> c = CHR ''%''"
proof -
  have "c \<in> set (uri_escape d) \<Longrightarrow> uri_unreserved c \<or> c = CHR ''%''" for d
    using upper_hex_plain high_nibble[of d] by (auto simp: uri_escape_def Let_def split: if_splits)
  then show "c \<in> set (encodeURIComponent s) \<Longrightarrow> uri_unreserved c \<or> c = CHR ''%''"
    by (auto simp: encodeURIComponent_def)
qed

lemma encoded_no_delims:
  "CHR ''/'' \<notin> set (encodeURIComponent s)" "CHR ''&'' \<notin> set (encodeURIComponent s)"
  "CHR ''='' \<notin> set (encodeURIComponent s)" "CHR ''?'' \<notin> set (encodeURIComponent s)"
  using encoded_chars[of _ s] by (force simp: uri_unreserved_def)+

subsection \<open>Reading a query back\<close>

definition read_pair :: "string \<Rightarrow> string \<times> string" where
  "read_pair p = (case split_on (\<lambda>c. c = CHR ''='') p of
     k # v # _ \<Rightarrow> (uri_decode k, uri_decode v) | _ \<Rightarrow> (uri_decode p, []))"

definition read_query :: "string \<Rightarrow> (string \<times> string) list" where
  "read_query q = (if q = [] then [] else map read_pair (split_on (\<lambda>c. c = CHR ''&'') (drop 1 q)))"

lemma read_pair_encoded:
  "read_pair (encodeURIComponent k @ ''='' @ encodeURIComponent v) = (k, v)"
proof -
  have "split_on (\<lambda>c. c = CHR ''='') (encodeURIComponent k @ CHR ''='' # encodeURIComponent v) =
    [encodeURIComponent k, encodeURIComponent v]"
    using encoded_no_delims(3)[of k] encoded_no_delims(3)[of v]
    by (subst split_on_append) (auto intro!: split_on_none)
  then show ?thesis by (simp add: read_pair_def)
qed

text \<open>The query string of a logs request determines the parameters: reading it
  back gives exactly the defined ones, in order, whatever characters the query
  text has; the undefined ones leave no trace.\<close>

theorem query_string_roundtrip:
  "read_query (buildQueryString params) =
    concat (map (\<lambda>(k, v). case v of None \<Rightarrow> [] | Some x \<Rightarrow> [(k, js_String x)]) params)"
proof -
  let ?enc = "\<lambda>(k, x). encodeURIComponent k @ ''='' @ encodeURIComponent x"
  let ?ps = "concat (map (\<lambda>(k, v). case v of None \<Rightarrow> [] | Some x \<Rightarrow> [(k, js_String x)]) params)"
  have b: "buildQueryString params = (if ?ps = [] then '''' else ''?'' @ join ''&'' (map ?enc ?ps))"
  proof -
    have "concat (map (\<lambda>(k, v). case v of None \<Rightarrow> []
      | Some x \<Rightarrow> [encodeURIComponent k @ ''='' @ encodeURIComponent (js_String x)]) params) = map ?enc ?ps"
      by (induction params) (auto split: option.splits)
    then show ?thesis unfolding buildQueryString_def Let_def by (simp only: map_is_Nil_conv)
  qed
  show ?thesis
  proof (cases "?ps = []")
    case True
    then show ?thesis unfolding b by (simp add: read_query_def)
  next
    case False
    have "split_on (\<lambda>c. c = CHR ''&'') (join ''&'' (map ?enc ?ps)) = map ?enc ?ps"
    proof (rule split_on_join)
      show "map ?enc ?ps \<noteq> []" using False by simp
      show "\<not> c = CHR ''&''" if "w \<in> set (map ?enc ?ps)" "c \<in> set w" for w c
        using that encoded_no_delims(2) by (auto split: option.splits)
    qed simp
    moreover have "map read_pair (map ?enc xs) = xs" for xs
      using read_pair_encoded by (induction xs) auto
    ultimately show ?thesis unfolding b using False by (simp add: read_query_def)
  qed
qed

end
