(* ===== verification/ChatStream.thy ===== *)
theory ChatStream
  imports Uri
begin

text \<open>
  services/kpilot/model.ts, streamChatCompletions: the reader of the
  server-sent events of a streaming chat completion.  The body arrives as the
  strings that TextDecoder yields for the chunks read; JSON.parse is the
  parameter parse, None its SyntaxError.  The callbacks only record what they
  are called with, so a run yields the list of calls in order.
\<close>

datatype chat_call = OnDelta json | OnUsage json | OnDone json

record chat_sink =
  ck_done :: bool
  ck_calls :: "chat_call list"

definition chat_call :: "chat_call \<Rightarrow> chat_sink \<Rightarrow> chat_sink" where
  "chat_call c k = k\<lparr>ck_calls := ck_calls k @ [c]\<rparr>"

definition fireDone :: "json \<Rightarrow> chat_sink \<Rightarrow> chat_sink" where
  "fireDone reason k = (if ck_done k then k else chat_call (OnDone reason) (k\<lparr>ck_done := True\<rparr>))"

abbreviation LF :: char where "LF \<equiv> CHR 0x0A"
abbreviation CR :: char where "CR \<equiv> CHR 0x0D"

subsection \<open>One event\<close>

text \<open>The blank line that ends the first event of the buffer, as \n\n or \r\n\r\n,
  whichever comes first.\<close>

definition next_event :: "string \<Rightarrow> (string \<times> string) option" where
  "next_event buf =
    (case (index_of [LF, LF] buf, index_of [CR, LF, CR, LF] buf) of
       (None, None) \<Rightarrow> None
     | (Some a, None) \<Rightarrow> Some (take a buf, drop (a + 2) buf)
     | (None, Some b) \<Rightarrow> Some (take b buf, drop (b + 4) buf)
     | (Some a, Some b) \<Rightarrow>
         if a < b then Some (take a buf, drop (a + 2) buf) else Some (take b buf, drop (b + 4) buf))"

text \<open>event.split(/\r?\n/)\<close>

fun split_lines :: "string \<Rightarrow> string list" where
  "split_lines [] = [[]]"
| "split_lines (c # cs) =
    (if c = LF then [] # split_lines cs
     else case cs of
       d # ds \<Rightarrow> if c = CR \<and> d = LF then [] # split_lines ds
                 else (case split_lines cs of [] \<Rightarrow> [[c]] | w # ws \<Rightarrow> (c # w) # ws)
     | [] \<Rightarrow> [[c]])"

text \<open>The body of the try block once the payload parsed: a null payload throws at
  obj.choices and is skipped by the catch.\<close>

definition chat_delta :: "jval \<Rightarrow> jval" where
  "chat_delta choice = coalesce (opath [''delta'', ''content''] choice) (oget ''text'' choice)"

definition chat_object :: "json \<Rightarrow> chat_sink \<Rightarrow> chat_sink" where
  "chat_object obj k =
    (case jprop ''choices'' (Some obj) of
       None \<Rightarrow> k
     | Some choices \<Rightarrow>
       let choice = jindex0 choices;
           delta = chat_delta choice;
           k1 = (if truthy delta then chat_call (OnDelta (the delta)) k else k);
           reason = oget ''finish_reason'' choice;
           k2 = (if truthy reason then fireDone (the reason) k1 else k1);
           usage = jget ''usage'' obj
       in if truthy usage then chat_call (OnUsage (the usage)) k2 else k2)"

definition chat_payload :: "(string \<Rightarrow> json option) \<Rightarrow> string \<Rightarrow> chat_sink \<Rightarrow> chat_sink" where
  "chat_payload parse payload k = (case parse payload of None \<Rightarrow> k | Some obj \<Rightarrow> chat_object obj k)"

text \<open>The for loop over the lines of an event; True when it returns from the
  function at the [DONE] sentinel.\<close>

fun chat_lines :: "(string \<Rightarrow> json option) \<Rightarrow> string list \<Rightarrow> chat_sink \<Rightarrow> bool \<times> chat_sink" where
  "chat_lines parse [] k = (False, k)"
| "chat_lines parse (l # ls) k =
    (if \<not> starts_with ''data:'' l then chat_lines parse ls k
     else let payload = dropWhile is_ws (drop 5 l) in
       if payload = ''[DONE]'' then (True, fireDone JNull k)
       else chat_lines parse ls (chat_payload parse payload k))"

subsection \<open>The buffer\<close>

lemma index_of_bound: "index_of p s = Some i \<Longrightarrow> i + length p \<le> length s"
proof (induction s arbitrary: i)
  case (Cons c s)
  show ?case
  proof (cases "starts_with p (c # s)")
    case True
    then obtain t where "c # s = p @ t" by (auto simp: starts_with_iff)
    then have "length (c # s) = length p + length t" by (metis length_append)
    then show ?thesis using True Cons.prems by simp
  next
    case False
    then show ?thesis using Cons.prems Cons.IH by auto
  qed
qed (simp split: if_splits)

lemma next_event_shorter: "next_event buf = Some (e, rest) \<Longrightarrow> length rest < length buf"
  using index_of_bound[of "[LF, LF]" buf] index_of_bound[of "[CR, LF, CR, LF]" buf]
  by (auto simp: next_event_def split: option.splits if_splits)

text \<open>The inner while loop: all complete events of the buffer.  The new buffer is
  None when the function returned.\<close>

function chat_drain :: "(string \<Rightarrow> json option) \<Rightarrow> string \<Rightarrow> chat_sink \<Rightarrow> string option \<times> chat_sink" where
  "chat_drain parse buf k =
    (case next_event buf of
       None \<Rightarrow> (Some buf, k)
     | Some (event, rest) \<Rightarrow>
       let (stop, k') = chat_lines parse (split_lines event) k
       in if stop then (None, k') else chat_drain parse rest k')"
  by pat_completeness auto
termination
  by (relation "measure (\<lambda>(parse, buf, k). length buf)") (auto dest: next_event_shorter)

declare chat_drain.simps [simp del]

text \<open>The outer loop: one chunk of the reader at a time.\<close>

fun chat_chunks :: "(string \<Rightarrow> json option) \<Rightarrow> string list \<Rightarrow> string \<Rightarrow> chat_sink \<Rightarrow> string option \<times> chat_sink" where
  "chat_chunks parse [] buf k = (Some buf, k)"
| "chat_chunks parse (c # cs) buf k =
    (case chat_drain parse (buf @ c) k of
       (None, k') \<Rightarrow> (None, k')
     | (Some buf', k') \<Rightarrow> chat_chunks parse cs buf' k')"

subsection \<open>The call\<close>

datatype failure = AbortError | Failure string

text \<open>What fetch answers: the status, the text of an error body (None when reading
  it throws), and the body, whose reader may end with an error (an abort or a
  broken connection).\<close>

record fetch_response =
  fr_ok :: bool
  fr_status :: nat
  fr_text :: "string option"
  fr_body :: "(string list \<times> failure option) option"

definition chat_url :: "string \<Rightarrow> string \<Rightarrow> string \<Rightarrow> string" where
  "chat_url clusterId namespace name =
    ''/api/v1/clusters/'' @ encodeURIComponent clusterId @ ''/inference/'' @ encodeURIComponent namespace
      @ ''/'' @ encodeURIComponent name @ ''/chat/completions''"

definition chat_error_detail :: "fetch_response \<Rightarrow> string" where
  "chat_error_detail resp =
    (case fr_text resp of
       Some txt \<Rightarrow> if txt \<noteq> [] then txt else ''HTTP '' @ show_nat (fr_status resp)
     | None \<Rightarrow> ''HTTP '' @ show_nat (fr_status resp))"

definition new_sink :: chat_sink where
  "new_sink = \<lparr>ck_done = False, ck_calls = []\<rparr>"

text \<open>The promise's outcome (Inl the error's message, Inr unit when it resolves)
  and the calls made; Inl of fetch's own rejection when there is no response.\<close>

definition streamChatCompletions ::
    "(string \<Rightarrow> json option) \<Rightarrow> failure + fetch_response \<Rightarrow> (failure + unit) \<times> chat_call list" where
  "streamChatCompletions parse answer =
    (case answer of
       Inl e \<Rightarrow> (Inl e, [])
     | Inr resp \<Rightarrow>
       if \<not> fr_ok resp then (Inl (Failure (chat_error_detail resp)), [])
       else (case fr_body resp of
         None \<Rightarrow> (Inl (Failure ''streaming response has no body''), [])
       | Some (chunks, failed) \<Rightarrow>
         (case chat_chunks parse chunks [] new_sink of
            (None, k) \<Rightarrow> (Inr (), ck_calls k)
          | (Some _, k) \<Rightarrow>
            (case failed of
               Some e \<Rightarrow> (Inl e, ck_calls k)
             | None \<Rightarrow> (Inr (), ck_calls (fireDone JNull k))))))"

text \<open>The request itself, as fetch receives it.\<close>

definition streamChat_request :: "string \<Rightarrow> string \<Rightarrow> string \<Rightarrow> json \<Rightarrow> request" where
  "streamChat_request clusterId namespace name body =
    \<lparr>rq_url = chat_url clusterId namespace name, rq_method = ''POST'', rq_params = [],
     rq_body = TextBody (json_stringify body), rq_headers = [(''Content-Type'', ''application/json'')]\<rparr>"

definition chatCompletions :: "string \<Rightarrow> string \<Rightarrow> string \<Rightarrow> json \<Rightarrow> request" where
  "chatCompletions clusterId namespace name body = POST (chat_url clusterId namespace name) [] (JsonBody body)"

subsection \<open>Chunk boundaries do not matter\<close>

text \<open>The first separator by recursion: its offset and its length.\<close>

definition sep_len :: "string \<Rightarrow> nat option" where
  "sep_len s = (if starts_with [LF, LF] s then Some 2
     else if starts_with [CR, LF, CR, LF] s then Some 4 else None)"

fun first_sep :: "string \<Rightarrow> (nat \<times> nat) option" where
  "first_sep [] = None"
| "first_sep (c # cs) =
    (case sep_len (c # cs) of Some n \<Rightarrow> Some (0, n)
     | None \<Rightarrow> map_option (\<lambda>(i, n). (Suc i, n)) (first_sep cs))"

lemma sep_len_bound: "sep_len s = Some n \<Longrightarrow> n \<le> length s"
  by (auto simp: sep_len_def starts_with_iff split: if_splits)

lemma sep_len_append: "sep_len s = Some n \<Longrightarrow> sep_len (s @ m) = Some n"
  by (cases s) (auto simp: sep_len_def starts_with_iff split: if_splits)

lemma sep_len_stable:
  assumes "sep_len (c # cs) = None" "first_sep cs \<noteq> None"
  shows "sep_len (c # cs @ m) = None"
proof -
  from assms(2) obtain d ds where cs: "cs = d # ds" by (cases cs) auto
  show ?thesis
  proof (cases "c = CR \<and> d = LF")
    case False
    with assms(1) cs show ?thesis by (auto simp: sep_len_def)
  next
    case True
    from assms(2) cs True have "ds \<noteq> []" by (auto simp: sep_len_def)
    then obtain e es where ds: "ds = e # es" by (cases ds) auto
    from assms(2) cs ds True have "es \<noteq> [] \<or> e \<noteq> CR" by (auto simp: sep_len_def)
    then show ?thesis using assms(1) cs ds True by (cases es) (auto simp: sep_len_def)
  qed
qed

lemma next_event_sep: "sep_len (c # cs) = Some n \<Longrightarrow> next_event (c # cs) = Some ([], drop n (c # cs))"
  by (auto simp: sep_len_def next_event_def split: option.splits if_splits)

lemma next_event_later:
  "sep_len (c # cs) = None \<Longrightarrow> next_event (c # cs) = map_option (\<lambda>(e, r). (c # e, r)) (next_event cs)"
proof -
  assume "sep_len (c # cs) = None"
  then have "\<not> starts_with [LF, LF] (c # cs)" "\<not> starts_with [CR, LF, CR, LF] (c # cs)"
    by (auto simp: sep_len_def split: if_splits)
  then have "index_of [LF, LF] (c # cs) = map_option Suc (index_of [LF, LF] cs)"
    "index_of [CR, LF, CR, LF] (c # cs) = map_option Suc (index_of [CR, LF, CR, LF] cs)"
    by (simp_all del: starts_with.simps)
  moreover have "drop (5 + x) (c # cs) = drop (x + 4) cs" for x by (simp add: numeral_eq_Suc)
  ultimately show ?thesis by (simp add: next_event_def split: option.splits)
qed

lemma next_event_first_sep:
  "next_event buf = map_option (\<lambda>(i, n). (take i buf, drop (i + n) buf)) (first_sep buf)"
proof (induction buf)
  case (Cons c cs)
  show ?case
  proof (cases "sep_len (c # cs)")
    case None
    then show ?thesis unfolding next_event_later[OF None] Cons.IH by (cases "first_sep cs") auto
  next
    case (Some n)
    then show ?thesis by (simp add: next_event_sep)
  qed
qed (simp add: next_event_def)

lemma first_sep_append: "first_sep buf = Some r \<Longrightarrow> first_sep (buf @ m) = Some r"
proof (induction buf arbitrary: r)
  case (Cons c cs)
  show ?case
  proof (cases "sep_len (c # cs)")
    case None
    with Cons.prems obtain r' where r: "first_sep cs = Some r'" by auto
    with sep_len_stable[OF None, of m] None Cons.prems Cons.IH[OF r] show ?thesis by simp
  next
    case (Some n)
    with sep_len_append[OF Some, of m] Cons.prems show ?thesis by simp
  qed
qed simp

lemma first_sep_bound: "first_sep buf = Some (i, n) \<Longrightarrow> i + n \<le> length buf"
proof (induction buf arbitrary: i)
  case (Cons c cs)
  then show ?case using sep_len_bound[of "c # cs"] by (auto split: option.splits)
qed simp

lemma next_event_append:
  assumes "next_event buf = Some (e, rest)"
  shows "next_event (buf @ m) = Some (e, rest @ m)"
proof -
  from assms obtain i n where f: "first_sep buf = Some (i, n)" "e = take i buf" "rest = drop (i + n) buf"
    by (auto simp: next_event_first_sep)
  with first_sep_append[OF f(1), of m] first_sep_bound[OF f(1)] show ?thesis
    by (simp add: next_event_first_sep)
qed

lemma chat_drain_idle: "next_event buf = None \<Longrightarrow> chat_drain parse buf k = (Some buf, k)"
  by (subst chat_drain.simps) simp

lemma chat_drain_event:
  "next_event buf = Some (e, rest) \<Longrightarrow> chat_drain parse buf k =
    (case chat_lines parse (split_lines e) k of
       (stop, k') \<Rightarrow> if stop then (None, k') else chat_drain parse rest k')"
  by (subst chat_drain.simps) (simp add: Let_def)

lemma chat_drain_append:
  "chat_drain parse (buf @ m) k =
    (case chat_drain parse buf k of
       (None, k') \<Rightarrow> (None, k')
     | (Some buf', k') \<Rightarrow> chat_drain parse (buf' @ m) k')"
proof (induction "length buf" arbitrary: buf k rule: less_induct)
  case less
  show ?case
  proof (cases "next_event buf")
    case None
    then show ?thesis by (simp add: chat_drain_idle)
  next
    case (Some er)
    obtain e rest where "er = (e, rest)" by force
    with Some have n: "next_event buf = Some (e, rest)" by simp
    obtain stop k' where l: "chat_lines parse (split_lines e) k = (stop, k')" by force
    show ?thesis
      using less[OF next_event_shorter[OF n], of k'] l
      unfolding chat_drain_event[OF n] chat_drain_event[OF next_event_append[OF n]] by simp
  qed
qed

lemma chat_drain_drained: "chat_drain parse buf k = (Some buf', k') \<Longrightarrow> next_event buf' = None"
proof (induction "length buf" arbitrary: buf k rule: less_induct)
  case less
  show ?case
  proof (cases "next_event buf")
    case None
    then show ?thesis using less(2) by (simp add: chat_drain_idle)
  next
    case (Some er)
    obtain e rest where "er = (e, rest)" by force
    with Some have n: "next_event buf = Some (e, rest)" by simp
    then show ?thesis
      using less(2) less(1)[OF next_event_shorter[OF n]] unfolding chat_drain_event[OF n]
      by (auto split: prod.splits if_splits)
  qed
qed

lemma chat_chunks_concat:
  "next_event buf = None \<Longrightarrow> chat_chunks parse cs buf k = chat_drain parse (buf @ concat cs) k"
proof (induction cs arbitrary: buf k)
  case Nil
  then show ?case by (simp add: chat_drain_idle)
next
  case (Cons c cs)
  obtain b k' where d: "chat_drain parse (buf @ c) k = (b, k')" by force
  have "chat_drain parse (buf @ c @ concat cs) k =
    (case b of None \<Rightarrow> (None, k') | Some buf' \<Rightarrow> chat_drain parse (buf' @ concat cs) k')"
    using chat_drain_append[of parse "buf @ c" "concat cs" k] d by simp
  with d show ?case using Cons.IH chat_drain_drained by (cases b) auto
qed


subsection \<open>A well-formed stream\<close>

text \<open>The event a server writes for one payload; eol is \n or \r\n.\<close>

definition sse_event :: "string \<Rightarrow> string \<Rightarrow> string" where
  "sse_event eol p = ''data: '' @ p @ eol @ eol"

definition plain_payload :: "string \<Rightarrow> bool" where
  "plain_payload p \<longleftrightarrow> LF \<notin> set p \<and> CR \<notin> set p \<and> p \<noteq> ''[DONE]'' \<and> (p = [] \<or> \<not> is_ws (hd p))"

abbreviation eol_ok :: "string \<Rightarrow> bool" where
  "eol_ok eol \<equiv> eol = [LF] \<or> eol = [CR, LF]"

lemma first_sep_prefix:
  "LF \<notin> set a \<Longrightarrow> CR \<notin> set a \<Longrightarrow>
   first_sep (a @ s) = map_option (\<lambda>(i, n). (i + length a, n)) (first_sep s)"
proof (induction a)
  case (Cons c a)
  then have "sep_len (c # a @ s) = None" by (auto simp: sep_len_def)
  with Cons show ?case by (cases "first_sep s") auto
qed (cases "first_sep s"; simp)

lemma first_sep_eol: "eol_ok eol \<Longrightarrow> first_sep (eol @ eol @ s) = Some (0, 2 * length eol)"
  by (auto simp: sep_len_def)

lemma next_event_sse:
  assumes "eol_ok eol" "LF \<notin> set p" "CR \<notin> set p"
  shows "next_event (sse_event eol p @ s) = Some (''data: '' @ p, s)"
proof -
  have "first_sep ((''data: '' @ p) @ eol @ eol @ s) = Some (length (''data: '' @ p), 2 * length eol)"
    using assms by (subst first_sep_prefix) (auto simp: first_sep_eol)
  then have "first_sep (sse_event eol p @ s) = Some (length (''data: '' @ p), 2 * length eol)"
    by (simp add: sse_event_def)
  then show ?thesis using assms(1) by (auto simp: next_event_first_sep sse_event_def)
qed

lemma split_lines_single: "LF \<notin> set a \<Longrightarrow> split_lines a = [a]"
proof (induction a)
  case (Cons c a)
  then show ?case by (cases a) auto
qed simp

lemma data_line: "LF \<notin> set p \<Longrightarrow> split_lines (''data: '' @ p) = [''data: '' @ p]"
  by (rule split_lines_single) auto

lemma trim_payload: "p = [] \<or> \<not> is_ws (hd p) \<Longrightarrow> dropWhile is_ws (drop 5 (''data: '' @ p)) = p"
  by (auto simp: is_ws_def dropWhile_hd_keep numeral_eq_Suc)

lemma chat_lines_data:
  "p = [] \<or> \<not> is_ws (hd p) \<Longrightarrow> chat_lines parse [''data: '' @ p] k =
    (if p = ''[DONE]'' then (True, fireDone JNull k) else (False, chat_payload parse p k))"
  unfolding chat_lines.simps Let_def trim_payload by simp

lemma chat_drain_sse:
  assumes "eol_ok eol" "plain_payload p"
  shows "chat_drain parse (sse_event eol p @ s) k = chat_drain parse s (chat_payload parse p k)"
  using assms unfolding plain_payload_def
  by (simp add: chat_drain_event[OF next_event_sse] data_line[simplified] chat_lines_data[simplified])

lemma chat_drain_done:
  assumes "eol_ok eol"
  shows "chat_drain parse (sse_event eol ''[DONE]'' @ s) k = (None, fireDone JNull k)"
proof -
  have "next_event (sse_event eol ''[DONE]'' @ s) = Some (''data: '' @ ''[DONE]'', s)"
    using assms by (intro next_event_sse) auto
  moreover have "chat_lines parse (split_lines (''data: '' @ ''[DONE]'')) k = (True, fireDone JNull k)"
    by (subst data_line, simp, subst chat_lines_data, simp add: is_ws_def, simp)
  ultimately show ?thesis by (simp only: chat_drain_event prod.case if_True)
qed

lemma chat_drain_sses:
  assumes "eol_ok eol" "list_all plain_payload ps"
  shows "chat_drain parse (concat (map (sse_event eol) ps) @ s) k = chat_drain parse s (fold (chat_payload parse) ps k)"
  using assms(2) by (induction ps arbitrary: k) (simp_all add: chat_drain_sse[OF assms(1)])

subsection \<open>The calls\<close>

definition deltas :: "chat_call list \<Rightarrow> json list" where
  "deltas calls = concat (map (\<lambda>c. case c of OnDelta d \<Rightarrow> [d] | _ \<Rightarrow> []) calls)"

definition dones :: "chat_call list \<Rightarrow> json list" where
  "dones calls = concat (map (\<lambda>c. case c of OnDone d \<Rightarrow> [d] | _ \<Rightarrow> []) calls)"

text \<open>What one payload adds to the text of the reply.\<close>

definition payload_delta :: "(string \<Rightarrow> json option) \<Rightarrow> string \<Rightarrow> json list" where
  "payload_delta parse p =
    (case parse p of None \<Rightarrow> []
     | Some obj \<Rightarrow> let d = chat_delta (jindex0 (jget ''choices'' obj)) in if truthy d then [the d] else [])"

lemma deltas_chat_call [simp]:
  "deltas (ck_calls (chat_call c k)) = deltas (ck_calls k) @ (case c of OnDelta d \<Rightarrow> [d] | _ \<Rightarrow> [])"
  "dones (ck_calls (chat_call c k)) = dones (ck_calls k) @ (case c of OnDone d \<Rightarrow> [d] | _ \<Rightarrow> [])"
  "ck_done (chat_call c k) = ck_done k"
  by (simp_all add: chat_call_def deltas_def dones_def)

lemma deltas_fireDone [simp]: "deltas (ck_calls (fireDone r k)) = deltas (ck_calls k)"
  by (simp add: fireDone_def)

lemma null_choices: "jprop ''choices'' (Some obj) = (if obj = JNull then None else Some (jget ''choices'' obj))"
  by (simp add: jprop_def)

lemma deltas_chat_payload:
  "deltas (ck_calls (chat_payload parse p k)) = deltas (ck_calls k) @ payload_delta parse p"
proof (cases "parse p")
  case (Some obj)
  then show ?thesis
    by (cases "obj = JNull")
      (simp_all add: chat_payload_def chat_object_def payload_delta_def null_choices Let_def chat_delta_def)
qed (simp add: chat_payload_def payload_delta_def)

lemma deltas_chat_payloads:
  "deltas (ck_calls (fold (chat_payload parse) ps k)) = deltas (ck_calls k) @ concat (map (payload_delta parse) ps)"
  by (induction ps arbitrary: k) (simp_all add: deltas_chat_payload)

text \<open>onDone is recorded exactly when the flag is set, once.\<close>

definition done_ok :: "chat_sink \<Rightarrow> bool" where
  "done_ok k \<longleftrightarrow> length (dones (ck_calls k)) = (if ck_done k then 1 else 0)"

lemma done_ok_call: "done_ok k \<Longrightarrow> (\<And>r. c \<noteq> OnDone r) \<Longrightarrow> done_ok (chat_call c k)"
  by (cases c) (auto simp: done_ok_def)

lemma done_ok_fire: "done_ok k \<Longrightarrow> done_ok (fireDone r k) \<and> ck_done (fireDone r k)"
  by (simp add: done_ok_def fireDone_def)

lemma done_ok_object: "done_ok k \<Longrightarrow> done_ok (chat_object obj k)"
  by (auto simp: chat_object_def Let_def done_ok_call done_ok_fire split: option.splits)

lemma done_ok_lines: "done_ok k \<Longrightarrow> done_ok (snd (chat_lines parse ls k)) \<and>
    (fst (chat_lines parse ls k) \<longrightarrow> ck_done (snd (chat_lines parse ls k)))"
  by (induction parse ls k rule: chat_lines.induct)
    (auto simp: Let_def chat_payload_def done_ok_object done_ok_fire split: option.splits)

lemma done_ok_drain: "done_ok k \<Longrightarrow> done_ok (snd (chat_drain parse buf k)) \<and>
    (fst (chat_drain parse buf k) = None \<longrightarrow> ck_done (snd (chat_drain parse buf k)))"
proof (induction "length buf" arbitrary: buf k rule: less_induct)
  case less
  show ?case
  proof (cases "next_event buf")
    case None
    then show ?thesis using less(2) by (simp add: chat_drain_idle)
  next
    case (Some er)
    obtain e rest where "er = (e, rest)" by force
    with Some have n: "next_event buf = Some (e, rest)" by simp
    show ?thesis
      using less(1)[OF next_event_shorter[OF n]] done_ok_lines[OF less(2), of parse "split_lines e"]
      unfolding chat_drain_event[OF n] by (auto split: prod.splits)
  qed
qed

lemma new_sink_ok [simp]: "done_ok new_sink" "deltas (ck_calls new_sink) = []" "ck_calls new_sink = []"
    "deltas [] = []" "dones [] = []"
  by (simp_all add: done_ok_def new_sink_def dones_def deltas_def)

lemma chat_chunks_start: "chat_chunks parse cs [] k = chat_drain parse (concat cs) k"
  using chat_chunks_concat[of "[]" parse cs k] by (simp add: next_event_def)


subsection \<open>What the caller sees\<close>

text \<open>C7. How the network cuts the body into chunks does not matter: the calls and the
  outcome are those of the whole body read at once.\<close>

theorem chat_stream_ignores_chunk_boundaries:
  "streamChatCompletions parse (Inr (resp\<lparr>fr_body := Some (chunks, failed)\<rparr>)) =
   streamChatCompletions parse (Inr (resp\<lparr>fr_body := Some ([concat chunks], failed)\<rparr>))"
  by (simp add: streamChatCompletions_def chat_chunks_start chat_error_detail_def
    split: option.splits del: chat_chunks.simps)

text \<open>C11. A stream of well-formed events delivers every payload, in order and however it
  is cut into chunks: the calls are those of the payloads one after the other, then
  onDone if no finish_reason has announced the end; what follows [DONE] is ignored.\<close>

theorem chat_stream_delivers_payloads:
  assumes "fr_ok resp" "eol_ok eol" "list_all plain_payload ps"
    and "fr_body resp = Some (chunks, failed)"
    and "concat chunks = concat (map (sse_event eol) ps) @ sse_event eol ''[DONE]'' @ rest"
  shows "streamChatCompletions parse (Inr resp) =
    (Inr (), ck_calls (fireDone JNull (fold (chat_payload parse) ps new_sink)))"
  using assms(1,4)
  by (simp add: streamChatCompletions_def chat_chunks_start assms(5) chat_drain_sses[OF assms(2,3)]
    chat_drain_done[OF assms(2)])

definition demo_parse :: "string \<Rightarrow> json option" where
  "demo_parse p = (if p = ''A'' then Some (JObj [(''choices'', JArr [JObj [(''delta'', JObj [(''content'', JStr ''Hi'')])]])])
     else if p = ''B'' then Some (JObj [(''choices'', JArr [JObj [(''delta'', JObj []), (''finish_reason'', JStr ''stop'')]])])
     else None)"

lemma chat_stream_delivers_payloads_witness:
  "streamChatCompletions demo_parse (Inr \<lparr>fr_ok = True, fr_status = 200, fr_text = None,
     fr_body = Some ([''data: A'' @ [CR, LF, CR], [LF] @ ''data: ping'' @ [CR, LF, CR, LF],
        ''data: B'' @ [CR, LF, CR, LF] @ ''data: [DONE]'' @ [CR, LF, CR, LF]], None)\<rparr>) =
   (Inr (), [OnDelta (JStr ''Hi''), OnDone (JStr ''stop'')])"
proof -
  let ?r = "\<lparr>fr_ok = True, fr_status = 200, fr_text = None,
     fr_body = Some ([''data: A'' @ [CR, LF, CR], [LF] @ ''data: ping'' @ [CR, LF, CR, LF],
        ''data: B'' @ [CR, LF, CR, LF] @ ''data: [DONE]'' @ [CR, LF, CR, LF]], None)\<rparr> :: fetch_response"
  have "streamChatCompletions demo_parse (Inr ?r) =
    (Inr (), ck_calls (fireDone JNull (fold (chat_payload demo_parse) [''A'', ''ping'', ''B''] new_sink)))"
    by (rule chat_stream_delivers_payloads[where eol = "[CR, LF]" and rest = "[]" and failed = None])
      (auto simp: plain_payload_def is_ws_def sse_event_def)
  also have "ck_calls (fireDone JNull (fold (chat_payload demo_parse) [''A'', ''ping'', ''B''] new_sink)) =
    [OnDelta (JStr ''Hi''), OnDone (JStr ''stop'')]"
    by (simp add: chat_payload_def demo_parse_def chat_object_def jprop_def Let_def chat_delta_def
      chat_call_def fireDone_def new_sink_def coalesce_def)
  finally show ?thesis .
qed

text \<open>The fragments passed to onDelta are exactly the content fragments of the
  payloads, in order, also when the connection is cut in the middle of an event: the
  complete events before the cut are delivered and nothing else.\<close>

theorem chat_stream_text:
  assumes "fr_ok resp" "eol_ok eol" "list_all plain_payload ps"
    and "fr_body resp = Some (chunks, failed)"
    and "concat chunks = concat (map (sse_event eol) ps) @ partial" "next_event partial = None"
  shows "deltas (snd (streamChatCompletions parse (Inr resp))) = concat (map (payload_delta parse) ps) \<and>
    fst (streamChatCompletions parse (Inr resp)) = (case failed of None \<Rightarrow> Inr () | Some e \<Rightarrow> Inl e)"
  using assms(1,4)
  by (simp add: streamChatCompletions_def chat_chunks_start assms(5) chat_drain_sses[OF assms(2,3)]
    chat_drain_idle[OF assms(6)] deltas_chat_payloads split: option.splits)

lemma chat_stream_text_witness:
  "deltas (snd (streamChatCompletions demo_parse (Inr \<lparr>fr_ok = True, fr_status = 200, fr_text = None,
     fr_body = Some ([''data: A'' @ [LF, LF], ''data: A''], Some AbortError)\<rparr>))) = [JStr ''Hi'']"
proof -
  let ?r = "\<lparr>fr_ok = True, fr_status = 200, fr_text = None,
     fr_body = Some ([''data: A'' @ [LF, LF], ''data: A''], Some AbortError)\<rparr> :: fetch_response"
  have "deltas (snd (streamChatCompletions demo_parse (Inr ?r))) = concat (map (payload_delta demo_parse) [''A'']) \<and>
    fst (streamChatCompletions demo_parse (Inr ?r)) = (case Some AbortError of None \<Rightarrow> Inr () | Some e \<Rightarrow> Inl e)"
    by (rule chat_stream_text[where eol = "[LF]" and partial = "''data: A''"])
      (auto simp: plain_payload_def is_ws_def sse_event_def next_event_def)
  then show ?thesis by (simp add: payload_delta_def demo_parse_def chat_delta_def coalesce_def)
qed

text \<open>onDone is called at most once, and exactly once when the promise resolves,
  whatever the server sends.\<close>

theorem chat_stream_done_once:
  "length (dones (snd (streamChatCompletions parse answer))) \<le> 1 \<and>
   (fst (streamChatCompletions parse answer) \<noteq> Inr () \<or>
    length (dones (snd (streamChatCompletions parse answer))) = 1)"
proof -
  have d: "done_ok k \<and> (b = None \<longrightarrow> ck_done k)" if "chat_chunks parse cs [] new_sink = (b, k)" for cs b k
    using done_ok_drain[of new_sink parse "concat cs"] that by (simp add: chat_chunks_start)
  have one: "done_ok k \<Longrightarrow> ck_done k \<Longrightarrow> length (dones (ck_calls k)) = Suc 0"
    "done_ok k \<Longrightarrow> length (dones (ck_calls k)) \<le> Suc 0" for k
    by (simp_all add: done_ok_def)
  have fin: "done_ok k \<Longrightarrow> length (dones (ck_calls (fireDone JNull k))) = Suc 0" for k
    using done_ok_fire[of k JNull] one(1) by blast
  show ?thesis
    by (auto simp: streamChatCompletions_def fin dest!: d intro: one split: sum.splits option.splits prod.splits)
qed

lemma chat_stream_done_once_witness:
  "length (dones (snd (streamChatCompletions demo_parse (Inr \<lparr>fr_ok = True, fr_status = 200, fr_text = None,
     fr_body = Some ([], None)\<rparr>)))) = 1"
proof -
  let ?r = "\<lparr>fr_ok = True, fr_status = 200, fr_text = None, fr_body = Some ([], None)\<rparr> :: fetch_response"
  have "fst (streamChatCompletions demo_parse (Inr ?r)) = Inr ()" by (simp add: streamChatCompletions_def)
  then show ?thesis using chat_stream_done_once[of demo_parse "Inr ?r"] by simp
qed

end
