(* ===== verification/ChatPage.thy ===== *)
theory ChatPage
  imports ChatStream
begin

text \<open>
  pages/ModelChat/index.tsx: the chat playground.  The state is the React state of
  the page and the turn in flight (its assistant id, the time of sending, whether
  a fragment has arrived, the request body); a step is a user action, a call of
  the stream's handlers, or the end of the stream.  Date.now() comes with the
  events, in milliseconds.
\<close>

datatype chat_role = User | Assistant | System

record ChatTurnStats =
  promptTokens :: rat
  completionTokens :: rat
  totalTokens :: rat
  elapsedMs :: rat
  tokensPerSec :: rat

record ChatMsg =
  cm_role :: chat_role
  cm_content :: string
  cm_id :: string
  cm_stats :: "ChatTurnStats option"

record ModelInstance =
  mi_cluster_id :: string
  mi_namespace :: string
  mi_name :: string
  mi_model_field :: string
  mi_status :: string
  mi_ready :: nat

record chat_turn =
  tn_assistant :: string
  tn_started :: nat
  tn_received :: bool
  tn_body :: json

record chat_page =
  cp_instance :: "ModelInstance option"
  cp_history :: "ChatMsg list"
  cp_input :: string
  cp_system :: string
  cp_temperature :: rat
  cp_maxTokens :: "rat option"
  cp_sending :: bool
  cp_error :: "string option"
  cp_usage :: jval
  cp_turn :: "chat_turn option"

subsection \<open>Choosing an instance\<close>

definition mi_key :: "ModelInstance \<Rightarrow> string \<times> string \<times> string" where
  "mi_key r = (mi_cluster_id r, mi_namespace r, mi_name r)"

text \<open>search holds the three URL parameters, None where absent.\<close>

definition resolveInitial ::
    "ModelInstance list \<Rightarrow> string option \<times> string option \<times> string option \<Rightarrow> ModelInstance option" where
  "resolveInitial rows search =
    (case search of
       (Some cluster, Some ns, Some name) \<Rightarrow>
         if cluster \<noteq> [] \<and> ns \<noteq> [] \<and> name \<noteq> []
         then find (\<lambda>r. mi_cluster_id r = cluster \<and> mi_namespace r = ns \<and> mi_name r = name) rows
         else find (\<lambda>r. mi_status r = ''Running'' \<and> 0 < mi_ready r) rows
     | _ \<Rightarrow> find (\<lambda>r. mi_status r = ''Running'' \<and> 0 < mi_ready r) rows)"

definition option_value :: "ModelInstance \<Rightarrow> string" where
  "option_value r = mi_cluster_id r @ ''|'' @ mi_namespace r @ ''|'' @ mi_name r"

text \<open>val.split('|') and the row it names; a missing part is undefined, which equals no string.\<close>

definition selected_row :: "ModelInstance list \<Rightarrow> string \<Rightarrow> ModelInstance option" where
  "selected_row rows val =
    (case split_on (\<lambda>c. c = CHR ''|'') val of
       cluster # ns # name # _ \<Rightarrow>
         find (\<lambda>r. mi_cluster_id r = cluster \<and> mi_namespace r = ns \<and> mi_name r = name) rows
     | _ \<Rightarrow> None)"

definition chat_link :: "ModelInstance \<Rightarrow> string" where
  "chat_link r = ''/models/chat?cluster='' @ encodeURIComponent (mi_cluster_id r)
     @ ''&ns='' @ encodeURIComponent (mi_namespace r) @ ''&name='' @ encodeURIComponent (mi_name r)"

subsection \<open>A turn\<close>

text \<open>The effect that resets the conversation runs when the key of the instance changes.\<close>

definition set_instance :: "ModelInstance option \<Rightarrow> chat_page \<Rightarrow> chat_page" where
  "set_instance i s =
    (let s' = s\<lparr>cp_instance := i\<rparr> in
     if map_option mi_key i = map_option mi_key (cp_instance s) then s'
     else s'\<lparr>cp_history := [], cp_input := [], cp_error := None, cp_usage := None\<rparr>)"

definition on_select :: "ModelInstance list \<Rightarrow> string \<Rightarrow> chat_page \<Rightarrow> chat_page" where
  "on_select rows val s = (case selected_row rows val of None \<Rightarrow> s | Some found \<Rightarrow> set_instance (Some found) s)"

text \<open>The effect that runs when the rows or the URL change.\<close>

definition rows_or_url_changed ::
    "ModelInstance list \<Rightarrow> string option \<times> string option \<times> string option \<Rightarrow> chat_page \<Rightarrow> chat_page" where
  "rows_or_url_changed rows search s =
    (if rows = [] then s
     else if cp_instance s \<noteq> None \<and> (fst search = None \<or> fst search = Some []) then s
     else set_instance (resolveInitial rows search) s)"

definition clear_chat :: "chat_page \<Rightarrow> chat_page" where
  "clear_chat s = (if cp_sending s \<or> cp_history s = [] then s
     else s\<lparr>cp_history := [], cp_error := None, cp_usage := None\<rparr>)"

fun role_name :: "chat_role \<Rightarrow> string" where
  "role_name User = ''user''"
| "role_name Assistant = ''assistant''"
| "role_name System = ''system''"

definition user_msg :: "string \<Rightarrow> nat \<Rightarrow> ChatMsg" where
  "user_msg t now = \<lparr>cm_role = User, cm_content = t, cm_id = ''u-'' @ show_nat now, cm_stats = None\<rparr>"

definition turn_messages :: "string \<Rightarrow> ChatMsg list \<Rightarrow> ChatMsg \<Rightarrow> ChatMsg list" where
  "turn_messages sys hist u =
    (if trim sys \<noteq> []
     then [\<lparr>cm_role = System, cm_content = trim sys, cm_id = ''sys'', cm_stats = None\<rparr>] else [])
    @ hist @ [u]"

definition chat_body :: "string \<Rightarrow> ChatMsg list \<Rightarrow> rat \<Rightarrow> rat option \<Rightarrow> json" where
  "chat_body model messages temperature maxTokens = JObj (
     [(''model'', JStr model),
      (''messages'', JArr (map (\<lambda>m. JObj [(''role'', JStr (role_name (cm_role m))), (''content'', JStr (cm_content m))]) messages)),
      (''stream'', JBool True),
      (''stream_options'', JObj [(''include_usage'', JBool True)]),
      (''temperature'', JNum temperature)]
     @ prop_num ''max_tokens'' (\<lambda>n. 0 < n) maxTokens)"

text \<open>send, up to the await.\<close>

definition start_turn :: "nat \<Rightarrow> chat_page \<Rightarrow> chat_page" where
  "start_turn now s =
    (case cp_instance s of
       None \<Rightarrow> s
     | Some inst \<Rightarrow>
       let t = trim (cp_input s) in
       if t = [] \<or> cp_sending s then s
       else let u = user_msg t now;
                messages = turn_messages (cp_system s) (cp_history s) u
            in s\<lparr>cp_history := cp_history s @ [u], cp_input := [], cp_sending := True, cp_error := None,
                 cp_usage := None,
                 cp_turn := Some \<lparr>tn_assistant = ''a-'' @ show_nat now, tn_started = now, tn_received = False,
                   tn_body = chat_body (mi_model_field inst) messages (cp_temperature s) (cp_maxTokens s)\<rparr>\<rparr>)"

definition on_delta :: "string \<Rightarrow> string \<Rightarrow> ChatMsg list \<Rightarrow> ChatMsg list" where
  "on_delta aid delta prev =
    (if prev \<noteq> [] \<and> cm_id (last prev) = aid
     then butlast prev @ [(last prev)\<lparr>cm_content := cm_content (last prev) @ delta\<rparr>]
     else prev @ [\<lparr>cm_role = Assistant, cm_content = delta, cm_id = aid, cm_stats = None\<rparr>])"

definition usage_stats :: "json \<Rightarrow> nat \<Rightarrow> nat \<Rightarrow> ChatTurnStats" where
  "usage_stats u started now =
    (let n = (\<lambda>k. case as_num (jget k u) of Some x \<Rightarrow> x | None \<Rightarrow> 0);
         elapsed = rat_of_int (int now - int started)
     in \<lparr>promptTokens = n ''prompt_tokens'', completionTokens = n ''completion_tokens'',
         totalTokens = n ''total_tokens'', elapsedMs = elapsed,
         tokensPerSec = (if 0 < elapsed then n ''completion_tokens'' / (elapsed / 1000) else 0)\<rparr>)"

fun set_stats :: "string \<Rightarrow> ChatTurnStats \<Rightarrow> ChatMsg list \<Rightarrow> ChatMsg list" where
  "set_stats aid st [] = []"
| "set_stats aid st (m # ms) =
    (if cm_id m = aid then m\<lparr>cm_stats := Some st\<rparr> # ms else m # set_stats aid st ms)"

text \<open>The handlers passed to streamChatCompletions.\<close>

definition stream_call :: "chat_call \<Rightarrow> nat \<Rightarrow> chat_page \<Rightarrow> chat_page" where
  "stream_call c now s =
    (case cp_turn s of
       None \<Rightarrow> s
     | Some tn \<Rightarrow>
       (case c of
          OnDelta d \<Rightarrow> s\<lparr>cp_turn := Some (tn\<lparr>tn_received := True\<rparr>),
                         cp_history := on_delta (tn_assistant tn) (js_String d) (cp_history s)\<rparr>
        | OnUsage u \<Rightarrow> s\<lparr>cp_usage := Some u,
                         cp_history := set_stats (tn_assistant tn) (usage_stats u (tn_started tn) now) (cp_history s)\<rparr>
        | OnDone _ \<Rightarrow> s))"

text \<open>The rest of send: the outcome of the promise; the two texts of the page's
  catalogue are arguments.\<close>

definition end_turn :: "string \<Rightarrow> failure + unit \<Rightarrow> chat_page \<Rightarrow> chat_page" where
  "end_turn emptyReply outcome s =
    (case cp_turn s of
       None \<Rightarrow> s
     | Some tn \<Rightarrow>
       (case outcome of
          Inr _ \<Rightarrow> if tn_received tn then s else s\<lparr>cp_error := Some emptyReply\<rparr>
        | Inl AbortError \<Rightarrow> s
        | Inl (Failure msg) \<Rightarrow> s\<lparr>cp_error := Some msg\<rparr>)\<lparr>cp_turn := None, cp_sending := False\<rparr>)"

text \<open>A whole turn that nothing interrupts: the calls with their times, then the end.\<close>

definition run_turn :: "string \<Rightarrow> nat \<Rightarrow> (nat \<Rightarrow> nat) \<Rightarrow> (failure + unit) \<times> chat_call list \<Rightarrow> chat_page \<Rightarrow> chat_page" where
  "run_turn emptyReply now clock res s =
    end_turn emptyReply (fst res)
      (fold (\<lambda>(i, c). stream_call c (clock i)) (zip [0..<length (snd res)] (snd res)) (start_turn now s))"

subsection \<open>The thinking part of a reply\<close>

record think_split =
  ts_thinking :: "string option"
  ts_answer :: string
  ts_open :: bool

definition splitThink :: "string \<Rightarrow> think_split" where
  "splitThink content =
    (case index_of ''<think>'' content of
       None \<Rightarrow> \<lparr>ts_thinking = None, ts_answer = content, ts_open = False\<rparr>
     | Some openIdx \<Rightarrow>
       let before = take openIdx content; inner = drop (openIdx + 7) content in
       (case index_of ''</think>'' inner of
          None \<Rightarrow> \<lparr>ts_thinking = Some (trim_end inner), ts_answer = before, ts_open = True\<rparr>
        | Some i \<Rightarrow> \<lparr>ts_thinking = Some (trim (take i inner)),
                     ts_answer = trim (before @ drop (i + 8) inner), ts_open = False\<rparr>))"


subsection \<open>The conversation\<close>

text \<open>What the page shows of the history.\<close>

definition talk :: "ChatMsg list \<Rightarrow> (chat_role \<times> string) list" where
  "talk h = map (\<lambda>m. (cm_role m, cm_content m)) h"

lemma set_stats_view [simp]:
  "talk (set_stats aid st h) = talk h" "map cm_id (set_stats aid st h) = map cm_id h"
  "set_stats aid st h = [] \<longleftrightarrow> h = []"
  by (induction h) (auto simp: talk_def)

lemma set_stats_last [simp]: "h \<noteq> [] \<Longrightarrow> cm_id (last (set_stats aid st h)) = cm_id (last h)"
  by (metis last_map set_stats_view(2,3))

definition turn_inv :: "string \<Rightarrow> (chat_role \<times> string) list \<Rightarrow> json list \<Rightarrow> chat_page \<Rightarrow> bool" where
  "turn_inv aid base ds s \<longleftrightarrow>
    (\<exists>tn. cp_turn s = Some tn \<and> tn_assistant tn = aid \<and> (tn_received tn \<longleftrightarrow> ds \<noteq> [])) \<and>
    cp_input s = [] \<and> cp_error s = None \<and> cp_history s \<noteq> [] \<and>
    (cm_id (last (cp_history s)) = aid \<longleftrightarrow> ds \<noteq> []) \<and>
    talk (cp_history s) = base @ (if ds = [] then [] else [(Assistant, concat (map js_String ds))])"

lemma on_delta_first:
  "h \<noteq> [] \<Longrightarrow> cm_id (last h) \<noteq> aid \<Longrightarrow>
   talk (on_delta aid d h) = talk h @ [(Assistant, d)] \<and> cm_id (last (on_delta aid d h)) = aid \<and> on_delta aid d h \<noteq> []"
  by (simp add: on_delta_def talk_def)

lemma on_delta_next:
  assumes "h \<noteq> []" "cm_id (last h) = aid" "talk h = base @ [(r, t)]"
  shows "talk (on_delta aid d h) = base @ [(r, t @ d)]" "cm_id (last (on_delta aid d h)) = aid" "on_delta aid d h \<noteq> []"
proof -
  obtain h' m where h: "h = h' @ [m]" using assms(1) by (cases h rule: rev_cases) auto
  with assms show "talk (on_delta aid d h) = base @ [(r, t @ d)]" by (simp add: on_delta_def talk_def)
  from h assms show "cm_id (last (on_delta aid d h)) = aid" "on_delta aid d h \<noteq> []"
    by (simp_all add: on_delta_def)
qed

lemma turn_inv_call:
  assumes "turn_inv aid base ds s"
  shows "turn_inv aid base (ds @ deltas [c]) (stream_call c now s)"
proof (cases c)
  case (OnDelta d)
  show ?thesis
  proof (cases "ds = []")
    case True
    with assms OnDelta on_delta_first[of "cp_history s" aid "js_String d"] show ?thesis
      by (auto simp: turn_inv_def stream_call_def deltas_def)
  next
    case False
    with assms OnDelta on_delta_next[of "cp_history s" aid base Assistant "concat (map js_String ds)" "js_String d"]
    show ?thesis by (auto simp: turn_inv_def stream_call_def deltas_def)
  qed
qed (use assms in \<open>auto simp: turn_inv_def stream_call_def deltas_def\<close>)

lemma deltas_Cons: "deltas (c # cs) = deltas [c] @ deltas cs"
  by (simp add: deltas_def)

lemma turn_inv_calls:
  "turn_inv aid base ds s \<Longrightarrow>
   turn_inv aid base (ds @ deltas (map snd ics)) (fold (\<lambda>(i, c). stream_call c (clock i)) ics s)"
proof (induction ics arbitrary: ds s)
  case (Cons ic ics)
  obtain i c where "ic = (i, c)" by force
  with Cons.IH[OF turn_inv_call[OF Cons.prems, of c "clock i"]] show ?case
    by (simp add: deltas_Cons[of c "map snd ics"])
qed simp

lemma start_turn_inv:
  assumes "cp_instance s = Some inst" "\<not> cp_sending s" "trim (cp_input s) \<noteq> []"
  shows "turn_inv (''a-'' @ show_nat now) (talk (cp_history s) @ [(User, trim (cp_input s))]) [] (start_turn now s)"
  using assms by (simp add: turn_inv_def start_turn_def Let_def user_msg_def talk_def)

text \<open>A turn adds to the conversation the user's text and one assistant message
  whose text is all the fragments that arrived, in order, whatever usage reports come
  between them and however the stream ends; no message is added when none arrived.
  The page is then ready for the next turn; an error is shown when the stream failed
  or resolved without a fragment, and none after a stop by the user.\<close>

theorem chat_turn_shows_reply:
  assumes "cp_instance s = Some inst" "\<not> cp_sending s" "trim (cp_input s) \<noteq> []"
  shows "talk (cp_history (run_turn emptyReply now clock res s)) =
      talk (cp_history s) @ [(User, trim (cp_input s))] @
      (if deltas (snd res) = [] then [] else [(Assistant, concat (map js_String (deltas (snd res))))]) \<and>
    \<not> cp_sending (run_turn emptyReply now clock res s) \<and>
    cp_turn (run_turn emptyReply now clock res s) = None \<and>
    cp_input (run_turn emptyReply now clock res s) = [] \<and>
    cp_error (run_turn emptyReply now clock res s) =
      (case fst res of
         Inl AbortError \<Rightarrow> None | Inl (Failure msg) \<Rightarrow> Some msg
       | Inr _ \<Rightarrow> if deltas (snd res) = [] then Some emptyReply else None)"
proof -
  let ?s = "fold (\<lambda>(i, c). stream_call c (clock i)) (zip [0..<length (snd res)] (snd res)) (start_turn now s)"
  have "turn_inv (''a-'' @ show_nat now) (talk (cp_history s) @ [(User, trim (cp_input s))]) (deltas (snd res)) ?s"
    using turn_inv_calls[OF start_turn_inv[OF assms], of now "zip [0..<length (snd res)] (snd res)" clock] by simp
  then show ?thesis
    by (auto simp: run_turn_def end_turn_def turn_inv_def split: sum.splits failure.splits)
qed

definition demo_instance :: "string \<Rightarrow> ModelInstance" where
  "demo_instance n = \<lparr>mi_cluster_id = ''c1'', mi_namespace = ''llm'', mi_name = n, mi_model_field = ''m'',
     mi_status = ''Running'', mi_ready = 1\<rparr>"

definition demo_page :: chat_page where
  "demo_page = \<lparr>cp_instance = Some (demo_instance ''a''), cp_history = [], cp_input = ''hello '', cp_system = '''',
     cp_temperature = 7/10, cp_maxTokens = None, cp_sending = False, cp_error = None, cp_usage = None, cp_turn = None\<rparr>"

lemma chat_turn_shows_reply_witness:
  "talk (cp_history (run_turn ''empty'' 100 (\<lambda>i. 200 + i)
     (Inr (), [OnDelta (JStr ''Hi''), OnUsage (JObj []), OnDelta (JStr '' you''), OnDone JNull]) demo_page)) =
   [(User, ''hello''), (Assistant, ''Hi you'')]"
  using chat_turn_shows_reply[of demo_page "demo_instance ''a''" "''empty''" 100 "\<lambda>i. 200 + i"
    "(Inr (), [OnDelta (JStr ''Hi''), OnUsage (JObj []), OnDelta (JStr '' you''), OnDone JNull])"]
  by (simp add: demo_page_def trim_def is_ws_def deltas_def talk_def)

text \<open>A stream outlives the conversation it belongs to: when the URL moves the page to
  another instance while a reply is streaming, nothing stops the stream, and the rest of
  the old instance's reply appears as a reply in the new conversation.\<close>

theorem stream_survives_instance_change:
  assumes "cp_instance s = Some inst" "\<not> cp_sending s" "trim (cp_input s) \<noteq> []"
    and "rows \<noteq> []" "resolveInitial rows search = Some other" "mi_key other \<noteq> mi_key inst"
    and "fst search = Some (c # cs)"
  shows "cp_history (rows_or_url_changed rows search (start_turn now s)) = [] \<and>
    cp_turn (rows_or_url_changed rows search (start_turn now s)) \<noteq> None \<and>
    cp_instance (stream_call (OnDelta d) now' (rows_or_url_changed rows search (start_turn now s))) = Some other \<and>
    talk (cp_history (stream_call (OnDelta d) now' (rows_or_url_changed rows search (start_turn now s)))) =
      [(Assistant, js_String d)]"
  using assms
  by (simp add: rows_or_url_changed_def start_turn_def set_instance_def stream_call_def on_delta_def talk_def Let_def)

lemma stream_survives_instance_change_witness:
  "talk (cp_history (stream_call (OnDelta (JStr ''late'')) 150
     (rows_or_url_changed [demo_instance ''a'', demo_instance ''b''] (Some ''c1'', Some ''llm'', Some ''b'')
       (start_turn 100 demo_page)))) = [(Assistant, ''late'')]"
proof -
  have "resolveInitial [demo_instance ''a'', demo_instance ''b''] (Some ''c1'', Some ''llm'', Some ''b'') =
    Some (demo_instance ''b'')"
    by (simp add: resolveInitial_def demo_instance_def)
  from stream_survives_instance_change[OF _ _ _ _ this, of demo_page "demo_instance ''a''" "CHR ''c''" "''1''" 100 "JStr ''late''" 150]
  show ?thesis by (simp add: demo_page_def trim_def is_ws_def mi_key_def demo_instance_def)
qed

text \<open>Choosing an entry of the instance picker selects the row it stands for: the value
  of the entry names the row, as long as no part contains the separator.\<close>

theorem picker_selects_its_row:
  assumes "r \<in> set rows" "distinct (map mi_key rows)"
    and "CHR ''|'' \<notin> set (mi_cluster_id r)" "CHR ''|'' \<notin> set (mi_namespace r)" "CHR ''|'' \<notin> set (mi_name r)"
  shows "cp_instance (on_select rows (option_value r) s) = Some r"
proof -
  have "split_on (\<lambda>c. c = CHR ''|'') (option_value r) = [mi_cluster_id r, mi_namespace r, mi_name r]"
    using assms(3-5)
      split_on_append[of "mi_cluster_id r" "\<lambda>c. c = CHR ''|''" "CHR ''|''" "mi_namespace r @ CHR ''|'' # mi_name r"]
      split_on_append[of "mi_namespace r" "\<lambda>c. c = CHR ''|''" "CHR ''|''" "mi_name r"]
      split_on_none[of "mi_name r" "\<lambda>c. c = CHR ''|''"]
    by (simp add: option_value_def) metis
  moreover have "find (\<lambda>x. mi_key x = mi_key r) rows = Some r"
    using assms(1,2) by (induction rows) force+
  moreover have "(\<lambda>x. mi_key x = mi_key r) =
    (\<lambda>x. mi_cluster_id x = mi_cluster_id r \<and> mi_namespace x = mi_namespace r \<and> mi_name x = mi_name r)"
    by (auto simp: mi_key_def)
  ultimately show ?thesis by (simp add: on_select_def selected_row_def set_instance_def Let_def)
qed

lemma picker_selects_its_row_witness:
  "cp_instance (on_select [demo_instance ''a'', demo_instance ''b''] (option_value (demo_instance ''b'')) demo_page) =
   Some (demo_instance ''b'')"
  by (rule picker_selects_its_row) (simp_all add: demo_instance_def mi_key_def)

lemma index_of_prefix: "index_of p (a @ p) = Some (length a) \<Longrightarrow> index_of p (a @ p @ r) = Some (length a)"
proof (induction a)
  case (Cons c a)
  have "\<not> starts_with p ((c # a @ p) @ r)"
  proof
    assume "starts_with p ((c # a @ p) @ r)"
    then have "take (length p) ((c # a @ p) @ r) = p" by (auto simp: starts_with_iff)
    moreover have "take (length p) ((c # a @ p) @ r) = take (length p) (c # a @ p)"
      unfolding take_append by simp
    ultimately have "take (length p) (c # a @ p) = p" by simp
    then have "starts_with p (c # a @ p)" unfolding starts_with_iff by (metis append_take_drop_id)
    with Cons.prems show False by simp
  qed
  moreover have "index_of p (a @ p) = Some (length a)"
    using Cons.prems by (auto split: if_splits)
  ultimately show ?case using Cons.IH by simp
qed (cases p; cases r; simp)

text \<open>The split of a reasoning reply follows the stream: before the opening tag
  everything is the answer, inside the block the answer is what stood before it and the
  thinking is what has arrived, and after the closing tag the thinking is the block and
  the answer is all the rest.\<close>

theorem splitThink_follows_stream:
  assumes "index_of ''<think>'' (b @ ''<think>'') = Some (length b)"
    and "index_of ''</think>'' (t @ ''</think>'') = Some (length t)"
    and "index_of ''<think>'' b = None" "index_of ''</think>'' t' = None"
  shows "splitThink b = \<lparr>ts_thinking = None, ts_answer = b, ts_open = False\<rparr> \<and>
    splitThink (b @ ''<think>'' @ t') = \<lparr>ts_thinking = Some (trim_end t'), ts_answer = b, ts_open = True\<rparr> \<and>
    splitThink (b @ ''<think>'' @ t @ ''</think>'' @ a) =
       \<lparr>ts_thinking = Some (trim t), ts_answer = trim (b @ a), ts_open = False\<rparr>"
proof (intro conjI)
  show "splitThink b = \<lparr>ts_thinking = None, ts_answer = b, ts_open = False\<rparr>"
    using assms(3) by (simp add: splitThink_def)
  show "splitThink (b @ ''<think>'' @ t') = \<lparr>ts_thinking = Some (trim_end t'), ts_answer = b, ts_open = True\<rparr>"
    using index_of_prefix[OF assms(1), of t'] assms(4) by (simp add: splitThink_def Let_def)
  show "splitThink (b @ ''<think>'' @ t @ ''</think>'' @ a) =
       \<lparr>ts_thinking = Some (trim t), ts_answer = trim (b @ a), ts_open = False\<rparr>"
    using index_of_prefix[OF assms(1), of "t @ ''</think>'' @ a"] index_of_prefix[OF assms(2), of a]
    by (simp add: splitThink_def Let_def numeral_eq_Suc)
qed

lemma splitThink_follows_stream_witness:
  "splitThink ''<think>hm </think>yes'' = \<lparr>ts_thinking = Some ''hm'', ts_answer = ''yes'', ts_open = False\<rparr>"
proof -
  have "index_of ''</think>'' (''hm '' @ ''</think>'') = Some (length ''hm '')" by simp
  from splitThink_follows_stream[of "[]" "''hm ''" "[]" "''yes''", OF _ this]
  show ?thesis by (simp add: trim_def is_ws_def)
qed

end
