(* ===== verification/LogsStream.thy ===== *)
theory LogsStream
  imports Uri
begin

text \<open>
  services/kpilot/logs.ts: the promises over an EventSource.  runSseQuery waits
  for one result; streamLogsSearch also hands over log lines in batches.  The
  state of a call is what its closure captures; a step is an event of the
  source, the abort signal or the batch timer, in any order.  JSON.parse is the
  parameter parse, None its SyntaxError.  An error event carries its data, or
  none when the connection failed.
\<close>

datatype sse_outcome = Resolved json | RejectedWith json | RejectedAbort | RejectedSyntax

datatype sse_msg =
    SMeta string
  | SProgress string
  | SLine string
  | SResult string
  | SError "string option"
  | SAbort
  | STimer

definition SseError :: "string \<Rightarrow> nat \<Rightarrow> json" where
  "SseError code status = JObj [(''code'', JStr code), (''status'', JNum (of_nat status))]"

text \<open>The outcome of a result event and of an error event.\<close>

definition result_outcome :: "(string \<Rightarrow> json option) \<Rightarrow> string \<Rightarrow> sse_outcome" where
  "result_outcome parse d = (case parse d of Some v \<Rightarrow> Resolved v | None \<Rightarrow> RejectedSyntax)"

definition error_outcome :: "(string \<Rightarrow> json option) \<Rightarrow> string option \<Rightarrow> sse_outcome" where
  "error_outcome parse d =
    (case d of
       Some (c # cs) \<Rightarrow>
         (case parse (c # cs) of Some v \<Rightarrow> RejectedWith v
          | None \<Rightarrow> RejectedWith (SseError ''INTERNAL_ERROR'' 500))
     | _ \<Rightarrow> RejectedWith (SseError ''CONNECTION_LOST'' 0))"

text \<open>The argument of onProgress; None when the payload is malformed or null.\<close>

definition progress_ms :: "(string \<Rightarrow> json option) \<Rightarrow> string \<Rightarrow> rat option" where
  "progress_ms parse d =
    do { v \<leftarrow> parse d;
         e \<leftarrow> jprop ''elapsedMs'' (Some v);
         Some (case as_num e of Some x \<Rightarrow> x | None \<Rightarrow> 0) }"

subsection \<open>The contract of such a promise\<close>

text \<open>A call is finished when its promise is settled; no step changes the outcome of
  a finished call, and a step that finishes it does so with the verdict of that step.\<close>

locale one_shot =
  fixes step :: "'e \<Rightarrow> 's \<Rightarrow> 's"
    and outcome :: "'s \<Rightarrow> 'o option"
    and verdict :: "'e \<Rightarrow> 'o option"
    and live :: "'s \<Rightarrow> bool"
  assumes finished_stays: "outcome s = Some x \<Longrightarrow> outcome (step e s) = Some x"
    and live_verdict: "live s \<Longrightarrow> outcome (step e s) = verdict e"
    and live_stays: "live s \<Longrightarrow> verdict e = None \<Longrightarrow> live (step e s)"
begin

lemma run_finished: "outcome s = Some x \<Longrightarrow> outcome (fold step es s) = Some x"
  by (induction es arbitrary: s) (simp_all add: finished_stays)

lemma run_quiet: "live s \<Longrightarrow> (\<And>e. e \<in> set es \<Longrightarrow> verdict e = None) \<Longrightarrow> live (fold step es s)"
  by (induction es arbitrary: s) (simp_all add: live_stays)

lemma first_verdict:
  assumes "live s" "\<And>e. e \<in> set es \<Longrightarrow> verdict e = None" "verdict e = Some x"
  shows "outcome (fold step (es @ e # es') s) = Some x"
proof -
  have "outcome (step e (fold step es s)) = Some x"
    using live_verdict[OF run_quiet[OF assms(1,2)]] assms(3) by simp
  then show ?thesis by (simp add: run_finished)
qed

end

subsection \<open>runSseQuery\<close>

record sse_query =
  sq_attached :: bool
  sq_settled :: bool
  sq_closed :: bool
  sq_listening :: bool
  sq_progress :: "rat list"
  sq_outcome :: "sse_outcome option"

text \<open>signal: whether one was passed, and whether it is aborted already.\<close>

definition sq_start :: "bool option \<Rightarrow> sse_query" where
  "sq_start signal =
    (if signal = Some True
     then \<lparr>sq_attached = False, sq_settled = False, sq_closed = True, sq_listening = False,
            sq_progress = [], sq_outcome = Some RejectedAbort\<rparr>
     else \<lparr>sq_attached = True, sq_settled = False, sq_closed = False, sq_listening = (signal \<noteq> None),
            sq_progress = [], sq_outcome = None\<rparr>)"

definition sq_settle :: "sse_outcome \<Rightarrow> sse_query \<Rightarrow> sse_query" where
  "sq_settle x s =
    (let s' = s\<lparr>sq_settled := True, sq_closed := True, sq_listening := False\<rparr> in
     case sq_outcome s' of None \<Rightarrow> s'\<lparr>sq_outcome := Some x\<rparr> | Some _ \<Rightarrow> s')"

definition sq_step :: "(string \<Rightarrow> json option) \<Rightarrow> bool \<Rightarrow> sse_msg \<Rightarrow> sse_query \<Rightarrow> sse_query" where
  "sq_step parse onProgress e s =
    (if \<not> sq_attached s then s
     else case e of
       SProgress d \<Rightarrow>
         if \<not> onProgress then s
         else (case progress_ms parse d of None \<Rightarrow> s | Some ms \<Rightarrow> s\<lparr>sq_progress := sq_progress s @ [ms]\<rparr>)
     | SResult d \<Rightarrow> if sq_settled s then s else sq_settle (result_outcome parse d) s
     | SError d \<Rightarrow> if sq_settled s then s else sq_settle (error_outcome parse d) s
     | SAbort \<Rightarrow> if \<not> sq_listening s \<or> sq_settled s then s else sq_settle RejectedAbort s
     | _ \<Rightarrow> s)"

text \<open>The outcome an event gives a call that is still open; an abort counts when a
  signal was passed.\<close>

definition sse_verdict :: "(string \<Rightarrow> json option) \<Rightarrow> bool \<Rightarrow> sse_msg \<Rightarrow> sse_outcome option" where
  "sse_verdict parse signal e =
    (case e of
       SResult d \<Rightarrow> Some (result_outcome parse d)
     | SError d \<Rightarrow> Some (error_outcome parse d)
     | SAbort \<Rightarrow> if signal then Some RejectedAbort else None
     | _ \<Rightarrow> None)"

definition sq_live :: "bool \<Rightarrow> sse_query \<Rightarrow> bool" where
  "sq_live signal s \<longleftrightarrow> sq_attached s \<and> \<not> sq_settled s \<and> \<not> sq_closed s \<and> sq_outcome s = None \<and> sq_listening s = signal"

lemma sq_step_outcome:
  assumes "sq_live signal s"
  shows "sq_outcome (sq_step parse p e s) = sse_verdict parse signal e"
    "sse_verdict parse signal e = None \<Longrightarrow> sq_live signal (sq_step parse p e s)"
  using assms
  by (auto simp: sq_live_def sq_step_def sq_settle_def sse_verdict_def split: sse_msg.splits option.splits)

interpretation sq: one_shot "sq_step parse p" sq_outcome "sse_verdict parse signal" "sq_live signal"
  for parse p signal
proof
  show "sq_outcome (sq_step parse p e s) = Some x" if "sq_outcome s = Some x" for s x e
    using that by (auto simp: sq_step_def sq_settle_def Let_def split: sse_msg.splits option.splits)
qed (auto simp: sq_step_outcome)

subsection \<open>streamLogsSearch\<close>

record log_stream =
  ls_attached :: bool
  ls_settled :: bool
  ls_closed :: bool
  ls_listening :: bool
  ls_pending :: "json list"
  ls_timer :: bool
  ls_batches :: "json list list"
  ls_meta :: "json list"
  ls_progress :: "rat list"
  ls_outcome :: "sse_outcome option"

definition batchMax :: nat where
  "batchMax = 100"

definition ls_start :: "bool option \<Rightarrow> log_stream" where
  "ls_start signal =
    (if signal = Some True
     then \<lparr>ls_attached = False, ls_settled = False, ls_closed = True, ls_listening = False, ls_pending = [],
            ls_timer = False, ls_batches = [], ls_meta = [], ls_progress = [], ls_outcome = Some RejectedAbort\<rparr>
     else \<lparr>ls_attached = True, ls_settled = False, ls_closed = False, ls_listening = (signal \<noteq> None), ls_pending = [],
            ls_timer = False, ls_batches = [], ls_meta = [], ls_progress = [], ls_outcome = None\<rparr>)"

definition ls_flush :: "log_stream \<Rightarrow> log_stream" where
  "ls_flush s =
    (let s1 = s\<lparr>ls_timer := False\<rparr> in
     if ls_pending s1 = [] then s1
     else s1\<lparr>ls_batches := ls_batches s1 @ [ls_pending s1], ls_pending := []\<rparr>)"

definition ls_cleanup :: "log_stream \<Rightarrow> log_stream" where
  "ls_cleanup s = (ls_flush (s\<lparr>ls_settled := True\<rparr>))\<lparr>ls_closed := True, ls_listening := False\<rparr>"

definition ls_settle :: "sse_outcome \<Rightarrow> log_stream \<Rightarrow> log_stream" where
  "ls_settle x s =
    (let s' = ls_cleanup s in
     case ls_outcome s' of None \<Rightarrow> s'\<lparr>ls_outcome := Some x\<rparr> | Some _ \<Rightarrow> s')"

definition ls_line :: "(string \<Rightarrow> json option) \<Rightarrow> string \<Rightarrow> log_stream \<Rightarrow> log_stream" where
  "ls_line parse d s =
    (if ls_settled s then s
     else case parse d of
       None \<Rightarrow> s
     | Some line \<Rightarrow>
       let s' = s\<lparr>ls_pending := ls_pending s @ [line]\<rparr> in
       if batchMax \<le> length (ls_pending s') then ls_flush s' else s'\<lparr>ls_timer := True\<rparr>)"

definition ls_step :: "(string \<Rightarrow> json option) \<Rightarrow> bool \<Rightarrow> bool \<Rightarrow> sse_msg \<Rightarrow> log_stream \<Rightarrow> log_stream" where
  "ls_step parse onMeta onProgress e s =
    (if \<not> ls_attached s then s
     else case e of
       SMeta d \<Rightarrow>
         if \<not> onMeta then s
         else (case parse d of None \<Rightarrow> s | Some m \<Rightarrow> s\<lparr>ls_meta := ls_meta s @ [m]\<rparr>)
     | SProgress d \<Rightarrow>
         if \<not> onProgress then s
         else (case progress_ms parse d of None \<Rightarrow> s | Some ms \<Rightarrow> s\<lparr>ls_progress := ls_progress s @ [ms]\<rparr>)
     | SLine d \<Rightarrow> ls_line parse d s
     | SResult d \<Rightarrow> if ls_settled s then s else ls_settle (result_outcome parse d) s
     | SError d \<Rightarrow> if ls_settled s then s else ls_settle (error_outcome parse d) s
     | SAbort \<Rightarrow> if \<not> ls_listening s \<or> ls_settled s then s else ls_settle RejectedAbort s
     | STimer \<Rightarrow> if ls_timer s then ls_flush s else s)"

definition ls_live :: "bool \<Rightarrow> log_stream \<Rightarrow> bool" where
  "ls_live signal s \<longleftrightarrow> ls_attached s \<and> \<not> ls_settled s \<and> \<not> ls_closed s \<and> ls_outcome s = None \<and> ls_listening s = signal"

lemmas ls_defs [step_simps] = ls_flush_def ls_cleanup_def ls_settle_def ls_line_def

lemma ls_step_outcome:
  assumes "ls_live signal s"
  shows "ls_outcome (ls_step parse m p e s) = sse_verdict parse signal e"
    "sse_verdict parse signal e = None \<Longrightarrow> ls_live signal (ls_step parse m p e s)"
  using assms
  by (auto simp: ls_live_def ls_step_def ls_defs sse_verdict_def Let_def split: sse_msg.splits option.splits)

interpretation ls: one_shot "ls_step parse m p" ls_outcome "sse_verdict parse signal" "ls_live signal"
  for parse m p signal
proof
  show "ls_outcome (ls_step parse m p e s) = Some x" if "ls_outcome s = Some x" for s x e
    using that by (auto simp: ls_step_def ls_defs Let_def split: sse_msg.splits option.splits)
qed (auto simp: ls_step_outcome)

text \<open>The two callers.\<close>

record LogQueryParams =
  lq_query :: string
  lq_from :: string
  lq_to :: string
  lq_limit :: "rat option"

definition logs_search_url :: "string \<Rightarrow> LogQueryParams \<Rightarrow> string" where
  "logs_search_url clusterId p =
    ''/api/v1/clusters/'' @ clusterId @ ''/logs/search'' @
    buildQueryString [(''query'', Some (JStr (lq_query p))), (''from'', Some (JStr (lq_from p))),
      (''to'', Some (JStr (lq_to p))), (''limit'', map_option JNum (lq_limit p))]"

definition logs_histogram_url :: "string \<Rightarrow> LogQueryParams \<Rightarrow> string" where
  "logs_histogram_url clusterId p =
    ''/api/v1/clusters/'' @ clusterId @ ''/logs/histogram'' @
    buildQueryString [(''query'', Some (JStr (lq_query p))), (''from'', Some (JStr (lq_from p))),
      (''to'', Some (JStr (lq_to p)))]"

subsection \<open>Lines and batches\<close>

text \<open>The lines an event carries, and the events before the call is settled.\<close>

definition line_of :: "(string \<Rightarrow> json option) \<Rightarrow> sse_msg \<Rightarrow> json list" where
  "line_of parse e = (case e of SLine d \<Rightarrow> (case parse d of Some v \<Rightarrow> [v] | None \<Rightarrow> []) | _ \<Rightarrow> [])"

definition open_events :: "(string \<Rightarrow> json option) \<Rightarrow> bool \<Rightarrow> sse_msg list \<Rightarrow> sse_msg list" where
  "open_events parse signal es = takeWhile (\<lambda>e. sse_verdict parse signal e = None) es"

definition batches_ok :: "log_stream \<Rightarrow> bool" where
  "batches_ok s \<longleftrightarrow> list_all (\<lambda>b. b \<noteq> [] \<and> length b \<le> batchMax) (ls_batches s) \<and>
     length (ls_pending s) < batchMax \<and> (ls_timer s \<longleftrightarrow> ls_pending s \<noteq> []) \<and> (ls_settled s \<longrightarrow> ls_pending s = [])"

definition handed :: "log_stream \<Rightarrow> json list" where
  "handed s = concat (ls_batches s) @ ls_pending s"

lemma handed_flush [simp]: "handed (ls_flush s) = handed s"
  by (simp add: handed_def ls_flush_def Let_def)

lemma batches_ok_flush: "batches_ok s \<Longrightarrow> batches_ok (ls_flush s)"
  by (auto simp: batches_ok_def ls_flush_def Let_def)

lemma batches_ok_step: "batches_ok s \<Longrightarrow> batches_ok (ls_step parse m p e s)"
  by (auto simp: batches_ok_def ls_step_def ls_defs Let_def batchMax_def split: sse_msg.splits option.splits)

lemma handed_step_live: "ls_live signal s \<Longrightarrow> handed (ls_step parse m p e s) = handed s @ line_of parse e"
  by (auto simp: handed_def ls_live_def ls_step_def ls_defs line_of_def Let_def split: sse_msg.splits option.splits)

lemma handed_step_settled: "ls_settled s \<Longrightarrow> handed (ls_step parse m p e s) = handed s \<and> ls_settled (ls_step parse m p e s)"
  by (auto simp: handed_def ls_step_def ls_defs Let_def split: sse_msg.splits option.splits)

lemma verdict_no_line: "sse_verdict parse signal e \<noteq> None \<Longrightarrow> line_of parse e = []"
  by (cases e) (auto simp: sse_verdict_def line_of_def)

lemma verdict_settles:
  "ls_live signal s \<Longrightarrow> sse_verdict parse signal e \<noteq> None \<Longrightarrow> ls_settled (ls_step parse m p e s)"
  by (auto simp: ls_live_def ls_step_def ls_defs sse_verdict_def Let_def split: sse_msg.splits option.splits)

lemma handed_run_settled: "ls_settled s \<Longrightarrow> handed (fold (ls_step parse m p) es s) = handed s"
  by (induction es arbitrary: s) (simp_all add: handed_step_settled)

lemma handed_run:
  "ls_live signal s \<Longrightarrow> handed (fold (ls_step parse m p) es s) = handed s @ concat (map (line_of parse) (open_events parse signal es))"
proof (induction es arbitrary: s)
  case (Cons e es)
  show ?case
  proof (cases "sse_verdict parse signal e = None")
    case True
    then show ?thesis
      using Cons.IH[OF ls_step_outcome(2)[OF Cons.prems True]] handed_step_live[OF Cons.prems]
      by (simp add: open_events_def)
  next
    case False
    then show ?thesis
      using handed_run_settled[OF verdict_settles[OF Cons.prems False]] handed_step_live[OF Cons.prems]
        verdict_no_line[OF False]
      by (simp add: open_events_def False)
  qed
qed (simp add: open_events_def)

lemma batches_ok_run: "batches_ok s \<Longrightarrow> batches_ok (fold (ls_step parse m p) es s)"
  by (induction es arbitrary: s) (simp_all add: batches_ok_step)


lemma ls_start_live: "ls_live (signal \<noteq> None) (ls_start signal) \<or> signal = Some True"
  by (auto simp: ls_start_def ls_live_def)

lemma ls_start_ok: "batches_ok (ls_start signal)" "handed (ls_start signal) = []"
  by (simp_all add: ls_start_def batches_ok_def handed_def batchMax_def)

text \<open>C13. A log search hands over every well-formed line that arrives before the call
  is settled, once and in order, and nothing else: the batches delivered and the lines
  still pending are those lines, whatever comes between them and whenever the batch
  timer fires.  A batch is never empty and never longer than 100 lines; a timer is
  running whenever lines are pending, and none are left once the call is settled.\<close>

theorem log_stream_delivers_lines:
  assumes "signal \<noteq> Some True"
  shows "concat (ls_batches (fold (ls_step parse m p) es (ls_start signal))) @
      ls_pending (fold (ls_step parse m p) es (ls_start signal)) =
      concat (map (line_of parse) (open_events parse (signal \<noteq> None) es)) \<and>
    list_all (\<lambda>b. b \<noteq> [] \<and> length b \<le> 100) (ls_batches (fold (ls_step parse m p) es (ls_start signal))) \<and>
    (ls_timer (fold (ls_step parse m p) es (ls_start signal)) =
      (ls_pending (fold (ls_step parse m p) es (ls_start signal)) \<noteq> [])) \<and>
    (\<not> ls_settled (fold (ls_step parse m p) es (ls_start signal)) \<or>
      ls_pending (fold (ls_step parse m p) es (ls_start signal)) = [])"
proof -
  have "ls_live (signal \<noteq> None) (ls_start signal)" using ls_start_live assms by blast
  from handed_run[OF this] batches_ok_run[OF ls_start_ok(1)]
  show ?thesis by (auto simp: handed_def batches_ok_def batchMax_def ls_start_ok(2)[unfolded handed_def])
qed

definition echo_parse :: "string \<Rightarrow> json option" where
  "echo_parse d = (if d = ''bad'' then None else Some (JStr d))"

lemma log_stream_delivers_lines_witness:
  "ls_batches (fold (ls_step echo_parse False False)
     [SLine ''a'', SLine ''bad'', STimer, SLine ''b'', SResult ''ok'', SLine ''c''] (ls_start (Some False))) =
   [[JStr ''a''], [JStr ''b'']]"
  using log_stream_delivers_lines[of "Some False" echo_parse False False
    "[SLine ''a'', SLine ''bad'', STimer, SLine ''b'', SResult ''ok'', SLine ''c'']"]
  by (simp add: ls_start_def ls_step_def ls_defs echo_parse_def batchMax_def result_outcome_def)

text \<open>A log search settles with the first event that can settle it (a result, an
  error, a lost connection, an abort), and with that event's verdict; nothing that
  happens later changes it.\<close>

theorem log_stream_settles_once:
  assumes "signal \<noteq> Some True" "list_all (\<lambda>x. sse_verdict parse (signal \<noteq> None) x = None) es"
    and "sse_verdict parse (signal \<noteq> None) e = Some x"
  shows "ls_outcome (fold (ls_step parse m p) (es @ e # es') (ls_start signal)) = Some x"
proof -
  have "ls_live (signal \<noteq> None) (ls_start signal)" using ls_start_live assms(1) by blast
  then show ?thesis using assms(2,3) by (intro ls.first_verdict) (auto simp: list_all_iff)
qed

lemma log_stream_settles_once_witness:
  "ls_outcome (fold (ls_step echo_parse False False) ([SLine ''a''] @ SError None # [SResult ''late'', SAbort])
     (ls_start (Some False))) = Some (RejectedWith (SseError ''CONNECTION_LOST'' 0))"
  by (rule log_stream_settles_once) (simp_all add: sse_verdict_def error_outcome_def)

text \<open>The same holds of a histogram query.\<close>

theorem sse_query_settles_once:
  assumes "signal \<noteq> Some True" "list_all (\<lambda>x. sse_verdict parse (signal \<noteq> None) x = None) es"
    and "sse_verdict parse (signal \<noteq> None) e = Some x"
  shows "sq_outcome (fold (sq_step parse p) (es @ e # es') (sq_start signal)) = Some x"
proof -
  have "sq_live (signal \<noteq> None) (sq_start signal)" using assms(1) by (simp add: sq_start_def sq_live_def)
  then show ?thesis using assms(2,3) by (intro sq.first_verdict) (auto simp: list_all_iff)
qed

lemma sse_query_settles_once_witness:
  "sq_outcome (fold (sq_step echo_parse True) ([SProgress ''p''] @ SResult ''bad'' # [SError (Some ''e'')])
     (sq_start None)) = Some RejectedSyntax"
  by (rule sse_query_settles_once) (simp_all add: sse_verdict_def result_outcome_def echo_parse_def)

end
