(* ===== verification/LogsPage.thy ===== *)
theory LogsPage
  imports LogsStream
begin

text \<open>
  pages/ClusterDetail/Logging/index.tsx: the manual search, the live tail and the
  histogram of the logging page.  The state holds the React state and the refs that
  these share; a stream or a histogram query in flight is listed under its number,
  the identity of its AbortController.  An abort makes the stream hand over the
  lines it still had pending (the argument flushed of the event) and lets its
  promise reject later.
\<close>

record LogLine =
  ll_time :: string
  ll_message :: string
  ll_stream :: "string option"
  ll_namespace :: "string option"
  ll_pod :: "string option"
  ll_container :: "string option"
  ll_node :: "string option"
  ll_fields :: "(string \<times> string) list option"

datatype run_kind = Manual | Poll "string option"

text \<open>How a stream ends that was not aborted: with a summary or with an error.\<close>

datatype stream_end = Summary json | Broken json

record log_page =
  lp_lines :: "LogLine list"
  lp_summary :: jval
  lp_error :: jval
  lp_loading :: bool
  lp_histo :: jval
  lp_histo_loading :: bool
  lp_abort :: "nat option"
  lp_live :: bool
  lp_active :: bool
  lp_last :: "string option"
  lp_timers :: nat
  lp_streams :: "(nat \<times> run_kind) list"
  lp_aborted :: "(nat \<times> run_kind) list"
  lp_histos :: "nat list"
  lp_next :: nat

datatype log_event =
    RunQuery "LogLine list"
  | Stop "LogLine list"
  | StartLive "LogLine list"
  | Reset "LogLine list"
  | Batch nat "LogLine list"
  | StreamEnds nat stream_end
  | HistoEnds nat jval
  | PollTimer

definition lp_init :: log_page where
  "lp_init = \<lparr>lp_lines = [], lp_summary = None, lp_error = None, lp_loading = False, lp_histo = None,
     lp_histo_loading = False, lp_abort = None, lp_live = False, lp_active = False, lp_last = None, lp_timers = 0,
     lp_streams = [], lp_aborted = [], lp_histos = [], lp_next = 0\<rparr>"

fun str_less :: "string \<Rightarrow> string \<Rightarrow> bool" where
  "str_less _ [] = False"
| "str_less [] (_ # _) = True"
| "str_less (a # as) (b # bs) =
    ((of_char a :: nat) < of_char b \<or> (a = b \<and> str_less as bs))"

text \<open>The two onLine handlers.\<close>

definition advance_last :: "LogLine list \<Rightarrow> string option \<Rightarrow> string option" where
  "advance_last batch old =
    (case batch of
       [] \<Rightarrow> old
     | l # _ \<Rightarrow>
       if ll_time l \<noteq> [] \<and> (case old of None \<Rightarrow> True | Some t \<Rightarrow> t = [] \<or> str_less t (ll_time l))
       then Some (ll_time l) else old)"

definition on_line :: "run_kind \<Rightarrow> LogLine list \<Rightarrow> log_page \<Rightarrow> log_page" where
  "on_line kind batch s =
    (if batch = [] then s
     else case kind of
       Manual \<Rightarrow> s\<lparr>lp_lines := lp_lines s @ batch\<rparr>
     | Poll _ \<Rightarrow> s\<lparr>lp_lines := batch @ lp_lines s, lp_last := advance_last batch (lp_last s)\<rparr>)"

text \<open>abortRef.current?.abort()\<close>

definition abort_current :: "LogLine list \<Rightarrow> log_page \<Rightarrow> log_page" where
  "abort_current flushed s =
    (case lp_abort s of
       None \<Rightarrow> s
     | Some c \<Rightarrow>
       (case map_of (lp_streams s) c of
          None \<Rightarrow> s
        | Some kind \<Rightarrow>
          (on_line kind flushed s)\<lparr>lp_streams := AList.delete c (lp_streams s), lp_aborted := (c, kind) # lp_aborted s\<rparr>))"

definition open_stream :: "run_kind \<Rightarrow> log_page \<Rightarrow> log_page" where
  "open_stream kind s =
    s\<lparr>lp_abort := Some (lp_next s), lp_streams := (lp_next s, kind) # lp_streams s, lp_next := Suc (lp_next s)\<rparr>"

definition open_histogram :: "log_page \<Rightarrow> log_page" where
  "open_histogram s = s\<lparr>lp_histos := lp_next s # lp_histos s, lp_next := Suc (lp_next s)\<rparr>"

definition runQuery :: "LogLine list \<Rightarrow> log_page \<Rightarrow> log_page" where
  "runQuery flushed s =
    open_histogram (open_stream Manual
      ((abort_current flushed s)\<lparr>lp_lines := [], lp_summary := None, lp_error := None, lp_loading := True,
         lp_histo := None, lp_histo_loading := True\<rparr>))"

definition livePoll :: "log_page \<Rightarrow> log_page" where
  "livePoll s = (if \<not> lp_active s then s else open_stream (Poll (lp_last s)) s)"

definition startLiveTail :: "LogLine list \<Rightarrow> log_page \<Rightarrow> log_page" where
  "startLiveTail flushed s =
    (if lp_active s then s
     else livePoll ((abort_current flushed s)\<lparr>lp_active := True, lp_live := True, lp_lines := [], lp_last := None,
            lp_histo := None, lp_histo_loading := False, lp_summary := None, lp_error := None, lp_loading := False\<rparr>))"

text \<open>onStop and stopLiveTail do the same.\<close>

definition stopLiveTail :: "LogLine list \<Rightarrow> log_page \<Rightarrow> log_page" where
  "stopLiveTail flushed s = abort_current flushed (s\<lparr>lp_active := False, lp_live := False\<rparr>)"

definition onReset :: "LogLine list \<Rightarrow> log_page \<Rightarrow> log_page" where
  "onReset flushed s =
    (abort_current flushed (s\<lparr>lp_active := False\<rparr>))\<lparr>lp_abort := None, lp_live := False, lp_lines := [],
       lp_summary := None, lp_error := None, lp_loading := False, lp_histo := None, lp_histo_loading := False,
       lp_last := None\<rparr>"

text \<open>if (abortRef.current === controller) abortRef.current = null\<close>

definition release :: "nat \<Rightarrow> log_page \<Rightarrow> log_page" where
  "release c s = (if lp_abort s = Some c then s\<lparr>lp_abort := None\<rparr> else s)"

text \<open>The code after the await of a stream, in runQuery and in livePoll.\<close>

definition manual_ends :: "nat \<Rightarrow> stream_end option \<Rightarrow> log_page \<Rightarrow> log_page" where
  "manual_ends c x s =
    (if lp_abort s \<noteq> Some c then s
     else release c (case x of
       None \<Rightarrow> s\<lparr>lp_loading := False\<rparr>
     | Some (Summary v) \<Rightarrow> s\<lparr>lp_summary := Some v, lp_error := None, lp_loading := False\<rparr>
     | Some (Broken e) \<Rightarrow> s\<lparr>lp_summary := None, lp_error := Some e, lp_loading := False\<rparr>))"

definition poll_ends :: "nat \<Rightarrow> stream_end option \<Rightarrow> log_page \<Rightarrow> log_page" where
  "poll_ends c x s =
    (let s' = release c s in
     if x = None then s'
     else if lp_active s' then s'\<lparr>lp_timers := Suc (lp_timers s')\<rparr> else s')"

definition stream_ends :: "nat \<Rightarrow> stream_end \<Rightarrow> log_page \<Rightarrow> log_page" where
  "stream_ends c x s =
    (case map_of (lp_streams s) c of
       Some kind \<Rightarrow>
         let s' = s\<lparr>lp_streams := AList.delete c (lp_streams s)\<rparr> in
         (case kind of Manual \<Rightarrow> manual_ends c (Some x) s' | Poll _ \<Rightarrow> poll_ends c (Some x) s')
     | None \<Rightarrow>
       (case map_of (lp_aborted s) c of
          None \<Rightarrow> s
        | Some kind \<Rightarrow>
          let s' = s\<lparr>lp_aborted := AList.delete c (lp_aborted s)\<rparr> in
          (case kind of Manual \<Rightarrow> manual_ends c None s' | Poll _ \<Rightarrow> poll_ends c None s')))"

fun lp_step :: "log_event \<Rightarrow> log_page \<Rightarrow> log_page" where
  "lp_step (RunQuery flushed) s = runQuery flushed s"
| "lp_step (Stop flushed) s = stopLiveTail flushed s"
| "lp_step (StartLive flushed) s = startLiveTail flushed s"
| "lp_step (Reset flushed) s = onReset flushed s"
| "lp_step (Batch c batch) s =
    (case map_of (lp_streams s) c of None \<Rightarrow> s | Some kind \<Rightarrow> on_line kind batch s)"
| "lp_step (StreamEnds c x) s = stream_ends c x s"
| "lp_step (HistoEnds h v) s =
    (if h \<notin> set (lp_histos s) then s
     else s\<lparr>lp_histos := removeAll h (lp_histos s), lp_histo := v, lp_histo_loading := False\<rparr>)"
| "lp_step PollTimer s =
    (if lp_timers s = 0 then s else livePoll (s\<lparr>lp_timers := lp_timers s - 1\<rparr>))"

definition lp_run :: "log_event list \<Rightarrow> log_page \<Rightarrow> log_page" where
  "lp_run es s = fold lp_step es s"

lemma lp_run_simps [simp]: "lp_run [] s = s" "lp_run (e # es) s = lp_run es (lp_step e s)"
  by (simp_all add: lp_run_def)

lemmas lp_defs = runQuery_def stopLiveTail_def startLiveTail_def onReset_def livePoll_def
  open_stream_def open_histogram_def abort_current_def on_line_def stream_ends_def manual_ends_def
  poll_ends_def release_def Let_def

subsection \<open>The manual search against its specification\<close>

datatype phase = Streaming | Stopping | Finished

record search_spec =
  sp_phase :: phase
  sp_lines :: "LogLine list"
  sp_summary :: jval
  sp_error :: jval

definition sp_init :: search_spec where
  "sp_init = \<lparr>sp_phase = Streaming, sp_lines = [], sp_summary = None, sp_error = None\<rparr>"

text \<open>What an event means for search c alone.\<close>

definition sp_step :: "nat \<Rightarrow> log_event \<Rightarrow> search_spec \<Rightarrow> search_spec" where
  "sp_step c e p =
    (case e of
       Batch d b \<Rightarrow> if d = c \<and> sp_phase p = Streaming then p\<lparr>sp_lines := sp_lines p @ b\<rparr> else p
     | Stop b \<Rightarrow> if sp_phase p = Streaming then p\<lparr>sp_lines := sp_lines p @ b, sp_phase := Stopping\<rparr> else p
     | StreamEnds d x \<Rightarrow>
         if d \<noteq> c then p
         else (case sp_phase p of
           Streaming \<Rightarrow> (case x of Summary v \<Rightarrow> p\<lparr>sp_phase := Finished, sp_summary := Some v\<rparr>
                                | Broken er \<Rightarrow> p\<lparr>sp_phase := Finished, sp_error := Some er\<rparr>)
         | Stopping \<Rightarrow> p\<lparr>sp_phase := Finished\<rparr>
         | Finished \<Rightarrow> p)
     | _ \<Rightarrow> p)"

text \<open>Streams are numbered below the counter, once each, and a live stream is the one
  the abort reference names.\<close>

definition sole :: "log_page \<Rightarrow> bool" where
  "sole s \<longleftrightarrow> \<not> lp_active s \<and> (lp_streams s = [] \<or> (\<exists>c. lp_streams s = [(c, Manual)] \<and> lp_abort s = Some c)) \<and>
     distinct (map fst (lp_streams s @ lp_aborted s)) \<and>
     (\<forall>c k. (c, k) \<in> set (lp_streams s) \<union> set (lp_aborted s) \<longrightarrow> c < lp_next s \<and> k = Manual)"

definition search_rel :: "nat \<Rightarrow> search_spec \<Rightarrow> log_page \<Rightarrow> bool" where
  "search_rel c p s \<longleftrightarrow> sole s \<and> c < lp_next s \<and>
     lp_lines s = sp_lines p \<and> lp_summary s = sp_summary p \<and> lp_error s = sp_error p \<and>
     lp_loading s = (sp_phase p \<noteq> Finished) \<and>
     lp_streams s = (if sp_phase p = Streaming then [(c, Manual)] else []) \<and>
     (sp_phase p = Streaming \<longrightarrow> lp_abort s = Some c) \<and>
     (sp_phase p = Stopping \<longrightarrow> lp_abort s = Some c \<and> (c, Manual) \<in> set (lp_aborted s)) \<and>
     (sp_phase p = Finished \<longrightarrow> lp_abort s \<noteq> Some c \<and> c \<notin> fst ` set (lp_aborted s)) \<and>
     (lp_abort s = None \<or> lp_abort s = Some c) \<and>
     (sp_phase p \<noteq> Finished \<longrightarrow> sp_summary p = None \<and> sp_error p = None)"

fun bystander :: "log_event \<Rightarrow> bool" where
  "bystander (RunQuery _) = False"
| "bystander (StartLive _) = False"
| "bystander (Reset _) = False"
| "bystander _ = True"


fun no_tail :: "log_event \<Rightarrow> bool" where
  "no_tail (StartLive _) = False"
| "no_tail _ = True"

lemma bystander_no_tail: "bystander e \<Longrightarrow> no_tail e"
  by (cases e) auto

lemma aborted_delete:
  "distinct (map fst ps) \<Longrightarrow> x \<in> set (AList.delete c ps) \<longleftrightarrow> x \<in> set ps \<and> fst x \<noteq> c"
  by (auto simp: AList.delete_eq)

text \<open>What the shared steps do under that invariant.\<close>

lemma soleE:
  assumes "sole s"
  obtains (idle) "lp_streams s = []" | (one) c where "lp_streams s = [(c, Manual)]" "lp_abort s = Some c"
  using assms by (auto simp: sole_def)

lemma abort_sole:
  assumes "sole s"
  shows "abort_current fl s =
    s\<lparr>lp_lines := lp_lines s @ (if lp_streams s = [] then [] else fl),
      lp_streams := [], lp_aborted := lp_streams s @ lp_aborted s\<rparr>"
  using assms by (cases rule: soleE) (auto simp: abort_current_def on_line_def split: option.splits)

lemma sole_entry:
  "sole s \<Longrightarrow> (c, k) \<in> set (lp_streams s) \<union> set (lp_aborted s) \<Longrightarrow> c < lp_next s \<and> k = Manual"
  unfolding sole_def by blast

lemma aborted_kind:
  assumes "sole s"
  shows "map_of (lp_aborted s) c = (if c \<in> fst ` set (lp_aborted s) then Some Manual else None)"
proof (cases "map_of (lp_aborted s) c")
  case (Some k)
  then have "(c, k) \<in> set (lp_aborted s)" by (rule map_of_SomeD)
  moreover from this sole_entry[OF assms, of c k] have "k = Manual" by blast
  ultimately show ?thesis using Some by force
qed (simp add: map_of_eq_None_iff)

lemma soleI:
  assumes "\<not> lp_active s" "lp_streams s = [] \<or> (\<exists>c. lp_streams s = [(c, Manual)] \<and> lp_abort s = Some c)"
    and "distinct (map fst (lp_streams s @ lp_aborted s))"
    and "\<And>c k. (c, k) \<in> set (lp_streams s) \<union> set (lp_aborted s) \<Longrightarrow> c < lp_next s \<and> k = Manual"
  shows "sole s"
  using assms unfolding sole_def by blast

lemma ends_sole:
  assumes "sole s"
  shows "stream_ends c x s =
    (if c \<in> fst ` set (lp_streams s) then manual_ends c (Some x) (s\<lparr>lp_streams := []\<rparr>)
     else if c \<in> fst ` set (lp_aborted s) then manual_ends c None (s\<lparr>lp_aborted := AList.delete c (lp_aborted s)\<rparr>)
     else s)"
  using assms by (cases rule: soleE) (auto simp: stream_ends_def aborted_kind[OF assms] Let_def)

lemma manual_ends_frame:
  "lp_active (manual_ends c x s) = lp_active s" "lp_streams (manual_ends c x s) = lp_streams s"
  "lp_aborted (manual_ends c x s) = lp_aborted s" "lp_next (manual_ends c x s) = lp_next s"
  "lp_lines (manual_ends c x s) = lp_lines s"
  by (auto simp: manual_ends_def release_def split: option.splits stream_end.splits)

lemma manual_ends_abort: "lp_abort (manual_ends c x s) = (if lp_abort s = Some c then None else lp_abort s)"
  by (auto simp: manual_ends_def release_def split: option.splits stream_end.splits)

lemma sole_ends:
  assumes "sole s"
  shows "sole (stream_ends c x s)"
proof (cases "c \<in> fst ` set (lp_streams s)")
  case True
  then show ?thesis using assms by (auto simp: ends_sole sole_def manual_ends_frame)
next
  case False
  note c = False
  show ?thesis
  proof (cases "c \<in> fst ` set (lp_aborted s)")
    case True
    let ?s = "s\<lparr>lp_aborted := AList.delete c (lp_aborted s)\<rparr>"
    have d: "distinct (map fst (lp_aborted s))" using assms by (simp add: sole_def)
    have "sole (manual_ends c None ?s)"
    proof (rule soleI)
      show "distinct (map fst (lp_streams (manual_ends c None ?s) @ lp_aborted (manual_ends c None ?s)))"
        using assms by (auto simp: sole_def manual_ends_frame AList.distinct_delete aborted_delete[OF d]) (metis fst_conv image_eqI)+
      show "ca < lp_next (manual_ends c None ?s) \<and> k = Manual"
        if "(ca, k) \<in> set (lp_streams (manual_ends c None ?s)) \<union> set (lp_aborted (manual_ends c None ?s))" for ca k
        using that sole_entry[OF assms, of ca k] by (auto simp: manual_ends_frame aborted_delete[OF d])
    qed (use assms c in \<open>auto simp: sole_def manual_ends_frame manual_ends_abort\<close>)
    then show ?thesis using True c by (simp add: ends_sole[OF assms])
  qed (use assms c in \<open>simp add: ends_sole\<close>)
qed

lemma sole_abort: "sole s \<Longrightarrow> sole (abort_current fl s)"
  by (simp add: abort_sole) (auto simp: sole_def)

lemma sole_stop: "sole s \<Longrightarrow> sole (stopLiveTail fl s)"
proof -
  assume "sole s"
  then have "sole (s\<lparr>lp_active := False, lp_live := False\<rparr>)" by (simp add: sole_def)
  then show ?thesis by (simp add: stopLiveTail_def sole_abort)
qed

lemma sole_open:
  assumes "sole s" "lp_streams s = []"
  shows "sole (open_stream Manual s)"
proof (rule soleI)
  have "(lp_next s, k) \<notin> set (lp_aborted s)" for k using sole_entry[OF assms(1), of "lp_next s" k] by auto
  then show "distinct (map fst (lp_streams (open_stream Manual s) @ lp_aborted (open_stream Manual s)))"
    using assms by (auto simp: open_stream_def sole_def)
  show "c < lp_next (open_stream Manual s) \<and> k = Manual"
    if "(c, k) \<in> set (lp_streams (open_stream Manual s)) \<union> set (lp_aborted (open_stream Manual s))" for c k
    using that sole_entry[OF assms(1), of c k] assms(2) by (auto simp: open_stream_def)
qed (use assms in \<open>auto simp: open_stream_def sole_def\<close>)

lemma sole_frame:
  fixes s s' :: log_page
  assumes "sole s" "lp_active s' = lp_active s" "lp_streams s' = lp_streams s" "lp_aborted s' = lp_aborted s"
    "lp_abort s' = lp_abort s" "lp_next s \<le> lp_next s'"
  shows "sole s'"
proof (rule soleI)
  show "c < lp_next s' \<and> k = Manual" if "(c, k) \<in> set (lp_streams s') \<union> set (lp_aborted s')" for c k
    using that sole_entry[OF assms(1), of c k] assms by auto
qed (use assms in \<open>auto simp: sole_def\<close>)

lemma abort_sole_streams: "sole s \<Longrightarrow> lp_streams (abort_current fl s) = []"
  by (simp add: abort_sole)

lemma sole_run:
  assumes "sole s"
  shows "sole (runQuery fl s)"
proof -
  let ?s = "(abort_current fl s)\<lparr>lp_lines := [], lp_summary := None, lp_error := None, lp_loading := True,
         lp_histo := None, lp_histo_loading := True\<rparr>"
  have "sole ?s" by (rule sole_frame[OF sole_abort[OF assms, of fl]]; simp)
  moreover have "lp_streams ?s = []" using abort_sole_streams[OF assms] by simp
  ultimately have "sole (open_stream Manual ?s)" by (rule sole_open)
  then show ?thesis unfolding runQuery_def open_histogram_def by (rule sole_frame) simp_all
qed

lemma sole_reset:
  assumes "sole s"
  shows "sole (onReset fl s)"
proof -
  from assms have "sole (s\<lparr>lp_active := False\<rparr>)" by (simp add: sole_def)
  from abort_sole[OF this] show ?thesis using assms by (auto simp: onReset_def sole_def)
qed

lemma sole_batch: "sole s \<Longrightarrow> sole (lp_step (Batch c b) s)"
  by (auto simp: sole_def on_line_def split: option.splits run_kind.splits)

lemma sole_step:
  assumes "sole s" "no_tail e"
  shows "sole (lp_step e s)"
proof (cases e)
  case PollTimer
  then show ?thesis using assms by (auto simp: sole_def livePoll_def)
next
  case (HistoEnds h v)
  then show ?thesis using assms by (auto simp: sole_def)
next
  case (Batch c b)
  then show ?thesis using sole_batch[OF assms(1)] by simp
qed (use assms in \<open>simp_all add: sole_ends sole_run sole_stop sole_reset\<close>)

lemma sole_runs: "sole s \<Longrightarrow> list_all no_tail es \<Longrightarrow> sole (lp_run es s)"
  by (induction es arbitrary: s) (simp_all add: sole_step del: lp_step.simps)

lemma sole_init [simp]: "sole lp_init"
  by (simp add: sole_def lp_init_def)


lemma search_rel_sole: "search_rel c p s \<Longrightarrow> sole s"
  by (simp add: search_rel_def)

lemma stop_search:
  assumes "search_rel c p s"
  shows "search_rel c (sp_step c (Stop fl) p) (stopLiveTail fl s)"
proof -
  let ?s = "s\<lparr>lp_active := False, lp_live := False\<rparr>"
  have na: "\<not> lp_active s" using search_rel_sole[OF assms] by (simp add: sole_def)
  have so: "sole ?s" by (rule sole_frame[OF search_rel_sole[OF assms]]; simp add: na)
  have a: "abort_current fl ?s = ?s\<lparr>lp_lines := lp_lines s @ (if lp_streams s = [] then [] else fl),
      lp_streams := [], lp_aborted := lp_streams s @ lp_aborted s\<rparr>"
    using abort_sole[OF so, of fl] by simp
  have "sole (stopLiveTail fl s)" using assms by (simp add: search_rel_def sole_stop)
  then show ?thesis using assms unfolding stopLiveTail_def a
    by (cases "sp_phase p") (auto simp: search_rel_def sp_step_def)
qed

lemma end_search:
  assumes "search_rel c p s"
  shows "search_rel c (sp_step c (StreamEnds d x) p) (stream_ends d x s)"
proof -
  note so = search_rel_sole[OF assms]
  have k: "sole (stream_ends d x s)" by (rule sole_ends[OF so])
  have d: "distinct (map fst (lp_aborted s))" using so by (simp add: sole_def)
  have other: "c \<notin> fst ` set (lp_aborted s)" if "sp_phase p = Streaming"
    using assms that so by (auto simp: search_rel_def sole_def)
  show ?thesis
  proof (cases "d = c")
    case True
    have stopping: "c \<in> fst ` set (lp_aborted s)" if "sp_phase p = Stopping"
      using assms that by (force simp: search_rel_def)
    have gone: "c \<notin> fst ` set (AList.delete c (lp_aborted s))" by (auto simp: aborted_delete[OF d])
    show ?thesis using True assms k other stopping gone unfolding ends_sole[OF so]
      by (cases "sp_phase p"; cases x) (simp_all add: search_rel_def sp_step_def manual_ends_def release_def)
  next
    case False
    have ab: "lp_abort s \<noteq> Some d" using assms False by (auto simp: search_rel_def)
    have st: "d \<notin> fst ` set (lp_streams s)" using assms False by (cases "sp_phase p = Streaming") (auto simp: search_rel_def)
    from k ab st False assms show ?thesis unfolding ends_sole[OF so]
      by (auto simp: search_rel_def sp_step_def manual_ends_def aborted_delete[OF d])
  qed
qed

lemma search_rel_step:
  assumes "search_rel c p s" "bystander e"
  shows "search_rel c (sp_step c e p) (lp_step e s)"
proof (cases e)
  case (Batch d b)
  have k: "sole (lp_step (Batch d b) s)" by (rule sole_batch[OF search_rel_sole[OF assms(1)]])
  with Batch assms(1) show ?thesis
    by (auto simp: search_rel_def sp_step_def on_line_def)
next
  case PollTimer
  have "\<not> lp_active s" using assms(1) by (simp add: search_rel_def sole_def)
  moreover have "sole (lp_step PollTimer s)"
    using sole_step[OF search_rel_sole[OF assms(1)], of PollTimer] by simp
  ultimately show ?thesis using PollTimer assms(1) by (auto simp: search_rel_def sp_step_def livePoll_def)
next
  case (HistoEnds h v)
  have "sole (lp_step (HistoEnds h v) s)"
    using sole_step[OF search_rel_sole[OF assms(1)], of "HistoEnds h v"] by simp
  then show ?thesis using HistoEnds assms(1) by (auto simp: search_rel_def sp_step_def)
qed (use assms in \<open>simp_all add: stop_search end_search\<close>)

lemma search_rel_run:
  "search_rel c p s \<Longrightarrow> list_all bystander es \<Longrightarrow> search_rel c (fold (sp_step c) es p) (lp_run es s)"
  by (induction es arbitrary: p s) (simp_all add: search_rel_step del: lp_step.simps)

lemma search_starts:
  assumes "sole s"
  shows "search_rel (lp_next s) sp_init (runQuery fl s)"
  using sole_run[OF assms, of fl]
  by (simp add: search_rel_def sp_init_def runQuery_def open_histogram_def open_stream_def abort_sole[OF assms])


definition line1 :: "string \<Rightarrow> LogLine" where
  "line1 t = \<lparr>ll_time = t, ll_message = t, ll_stream = None, ll_namespace = None, ll_pod = None,
     ll_container = None, ll_node = None, ll_fields = None\<rparr>"


text \<open>The histogram has no such guard: a late answer to the histogram query of an
  abandoned search replaces the histogram of the search that is shown.\<close>

theorem stale_histogram_replaces_current:
  "lp_histo (lp_run [HistoEnds (Suc (lp_next s)) old] (lp_run [RunQuery fl', HistoEnds (lp_next s + 3) new]
     (lp_step (RunQuery fl) s))) = old"
proof -
  have n: "lp_next (abort_current f t) = lp_next t" "lp_histos (abort_current f t) = lp_histos t" for f t
    by (auto simp: abort_current_def on_line_def split: option.splits run_kind.splits)
  show ?thesis by (simp add: runQuery_def open_histogram_def open_stream_def n)
qed

subsection \<open>The live tail\<close>

definition polls :: "log_page \<Rightarrow> nat" where
  "polls s = length (filter (\<lambda>(_, k). k \<noteq> Manual) (lp_streams s)) + lp_timers s"

text \<open>Stopping the live tail while it waits for its next poll and starting it again
  leaves the old timer running: from then on two polls run side by side.\<close>

theorem live_tail_restart_doubles_polling:
  assumes "lp_active s" "lp_timers s = 1" "lp_streams s = []"
  shows "polls s = 1 \<and> polls (lp_run [Stop [], StartLive [], PollTimer] s) = 2 \<and>
    length (lp_streams (lp_run [Stop [], StartLive [], PollTimer] s)) = 2"
  using assms by (cases "lp_abort s") (simp_all add: polls_def lp_defs)

definition tailing :: log_page where
  "tailing = lp_run [StartLive [], StreamEnds 0 (Summary JNull)] lp_init"

lemma tailing_state: "lp_active tailing" "lp_timers tailing = 1" "lp_streams tailing = []" "lp_next tailing = 1"
  by (simp_all add: tailing_def lp_init_def lp_defs)

lemma live_tail_restart_doubles_polling_witness:
  "polls (lp_run [Stop [], StartLive [], PollTimer] tailing) = 2"
  using live_tail_restart_doubles_polling[of tailing] tailing_state by blast

text \<open>When one poll of the live tail returns its lines in two batches, the second,
  older batch is put above the first: the newest line is no longer at the top.\<close>

theorem live_tail_reverses_batches:
  assumes "map_of (lp_streams s) c = Some (Poll since)" "b1 \<noteq> []" "b2 \<noteq> []"
  shows "lp_lines (lp_run [Batch c b1, Batch c b2] s) = b2 @ b1 @ lp_lines s"
  using assms by (simp add: on_line_def)

lemma live_tail_reverses_batches_witness:
  "lp_lines (lp_run [Batch 0 [line1 ''10:02''], Batch 0 [line1 ''10:01'']] (lp_step (StartLive []) lp_init)) =
   [line1 ''10:01'', line1 ''10:02'']"
  using live_tail_reverses_batches[of "lp_step (StartLive []) lp_init" 0 None "[line1 ''10:02'']" "[line1 ''10:01'']"]
  by (simp add: lp_init_def lp_defs)

text \<open>Pressing Enter while the live tail waits for its next poll starts a search whose
  end is not noticed: the poll takes over the abort reference, and the search stays
  loading after its summary has arrived.\<close>

theorem search_during_live_tail_stays_loading:
  assumes "lp_active s" "0 < lp_timers s" "lp_streams s = []"
  shows "lp_loading (lp_run [RunQuery [], PollTimer, StreamEnds (lp_next s) (Summary v)] s) \<and>
    lp_summary (lp_run [RunQuery [], PollTimer, StreamEnds (lp_next s) (Summary v)] s) = None"
  using assms by (cases "lp_abort s") (simp_all add: lp_defs)

lemma search_during_live_tail_stays_loading_witness:
  "lp_loading (lp_run [RunQuery [], PollTimer, StreamEnds 1 (Summary JNull)] tailing)"
  using search_during_live_tail_stays_loading[of tailing JNull] tailing_state by simp

end
