(* ===== verification/LogsQuery.thy ===== *)
theory LogsQuery
  imports JsString
begin

text \<open>
  pages/ClusterDetail/Logging/queryUtils.ts: the selector that the namespace, pod
  and container pickers keep at the head of a LogsQL query, and the terms that the
  page highlights.  The regular expressions are matched by hand; none of them needs
  backtracking, since each class is followed by a character outside it.
\<close>

definition FIELD_NS :: string where "FIELD_NS = ''kubernetes.pod_namespace''"
definition FIELD_POD :: string where "FIELD_POD = ''kubernetes.pod_name''"
definition FIELD_CONTAINER :: string where "FIELD_CONTAINER = ''kubernetes.container_name''"

definition trim_start :: "string \<Rightarrow> string" where
  "trim_start s = dropWhile is_ws s"

definition selector_part :: "string \<Rightarrow> string \<Rightarrow> string list" where
  "selector_part field v = (if v \<noteq> [] then [field @ [CHR ''='', CHR 0x22] @ v @ [CHR 0x22]] else [])"

definition composeStreamSelector :: "string \<Rightarrow> string \<Rightarrow> string \<Rightarrow> string" where
  "composeStreamSelector ns pod container =
    (let parts = selector_part FIELD_NS ns @ selector_part FIELD_POD pod @ selector_part FIELD_CONTAINER container
     in if parts = [] then '''' else ''{'' @ join '', '' parts @ ''}'')"

text \<open>The match of a brace, characters other than braces, a closing brace at the start
  of a string: its body and what follows.\<close>

definition no_brace :: "char \<Rightarrow> bool" where
  "no_brace c = (c \<noteq> CHR ''{'' \<and> c \<noteq> CHR ''}'')"

definition match_braces :: "string \<Rightarrow> (string \<times> string) option" where
  "match_braces s =
    (case s of
       c # cs \<Rightarrow>
         if c = CHR ''{''
         then (case dropWhile no_brace cs of
                 d # ds \<Rightarrow> if d = CHR ''}'' then Some (takeWhile no_brace cs, ds) else None
               | [] \<Rightarrow> None)
         else None
     | [] \<Rightarrow> None)"

text \<open>The query without its leading selector.\<close>

definition query_rest :: "string \<Rightarrow> string" where
  "query_rest existing =
    (let trimmed = trim_start existing in
     case match_braces trimmed of Some (_, after) \<Rightarrow> dropWhile is_ws after | None \<Rightarrow> trimmed)"

definition mergeStreamSelector :: "string \<Rightarrow> string \<Rightarrow> string" where
  "mergeStreamSelector existing selector =
    (let rest = query_rest existing in
     if selector = [] then rest
     else if rest = [] then selector
     else selector @ '' '' @ rest)"

definition unquote :: "string \<Rightarrow> string" where
  "unquote v = (if starts_with [CHR 0x22] v \<and> ends_with [CHR 0x22] v then drop 1 (take (length v - 1) v) else v)"

type_synonym picker_values = "string \<times> string \<times> string"

fun read_part :: "string \<Rightarrow> picker_values \<Rightarrow> picker_values" where
  "read_part p (ns, pod, container) =
    (case index_of ''='' p of
       None \<Rightarrow> (ns, pod, container)
     | Some eq \<Rightarrow>
       let k = trim (take eq p); v = unquote (trim (drop (eq + 1) p)) in
       if k = FIELD_NS then (v, pod, container)
       else if k = FIELD_POD then (ns, v, container)
       else if k = FIELD_CONTAINER then (ns, pod, v)
       else (ns, pod, container))"

definition extractSelectorParts :: "string \<Rightarrow> picker_values" where
  "extractSelectorParts query =
    (case match_braces (trim_start query) of
       None \<Rightarrow> ([], [], [])
     | Some (body, _) \<Rightarrow> fold read_part (map trim (split_on (\<lambda>c. c = CHR '','') body)) ([], [], []))"

subsection \<open>Highlighted terms\<close>

definition is_alnum :: "char \<Rightarrow> bool" where
  "is_alnum c = (let n = of_char c :: nat in
     (48 \<le> n \<and> n \<le> 57) \<or> (65 \<le> n \<and> n \<le> 90) \<or> (97 \<le> n \<and> n \<le> 122))"

definition field_char :: "char \<Rightarrow> bool" where
  "field_char c = (is_alnum c \<or> c = CHR ''_'' \<or> c = CHR ''.'')"

text \<open>query.replace(/^\s*\{[^{}]*\}\s*/, '')\<close>

definition strip_selector :: "string \<Rightarrow> string" where
  "strip_selector q =
    (case match_braces (trim_start q) of Some (_, after) \<Rightarrow> dropWhile is_ws after | None \<Rightarrow> q)"

text \<open>The match of a field name, a colon and a value at the start of a string.\<close>

definition match_field :: "string \<Rightarrow> string option" where
  "match_field s =
    (case dropWhile field_char s of
       c # cs \<Rightarrow>
         if takeWhile field_char s \<noteq> [] \<and> c = CHR '':'' \<and> cs \<noteq> [] \<and> \<not> is_ws (hd cs)
         then Some (dropWhile (\<lambda>x. \<not> is_ws x) cs) else None
     | [] \<Rightarrow> None)"

lemma dropWhile_length: "length (dropWhile P xs) \<le> length xs"
  by (induction xs) auto

lemma match_field_shorter: "match_field s = Some r \<Longrightarrow> length r < length s"
  unfolding match_field_def
  using dropWhile_length[of field_char s] dropWhile_length[of "\<lambda>x. \<not> is_ws x" "tl (dropWhile field_char s)"]
  by (auto split: list.splits if_splits)

text \<open>replace(/[\w.]+:[^\s]+/g, ' ')\<close>

function strip_fields :: "string \<Rightarrow> string" where
  "strip_fields s =
    (case match_field s of
       Some r \<Rightarrow> CHR '' '' # strip_fields r
     | None \<Rightarrow> (case s of [] \<Rightarrow> [] | c # cs \<Rightarrow> c # strip_fields cs))"
  by pat_completeness auto
termination
  by (relation "measure length") (auto dest: match_field_shorter)

declare strip_fields.simps [simp del]

text \<open>The match of a quoted run of characters that satisfy P, with the rest; quoted
  phrases need a character, the removal does not.\<close>

definition match_quoted :: "(char \<Rightarrow> bool) \<Rightarrow> string \<Rightarrow> (string \<times> string) option" where
  "match_quoted P s =
    (case s of
       c # cs \<Rightarrow>
         if c = CHR 0x22
         then (case dropWhile P cs of
                 d # ds \<Rightarrow> if d = CHR 0x22 then Some (takeWhile P cs, ds) else None
               | [] \<Rightarrow> None)
         else None
     | [] \<Rightarrow> None)"

lemma match_quoted_shorter: "match_quoted P s = Some (b, r) \<Longrightarrow> length r < length s"
  unfolding match_quoted_def using dropWhile_length[of P "tl s"]
  by (auto split: list.splits if_splits)

function quoted_phrases :: "string \<Rightarrow> string list" where
  "quoted_phrases s =
    (case match_quoted (\<lambda>c. c \<noteq> CHR 0x22 \<and> c \<noteq> CHR 0x5C) s of
       Some (b, r) \<Rightarrow>
         if b \<noteq> [] then b # quoted_phrases r
         else (case s of [] \<Rightarrow> [] | c # cs \<Rightarrow> quoted_phrases cs)
     | None \<Rightarrow> (case s of [] \<Rightarrow> [] | c # cs \<Rightarrow> quoted_phrases cs))"
  by pat_completeness auto
termination
  by (relation "measure length") (auto dest: match_quoted_shorter)

declare quoted_phrases.simps [simp del]

function strip_phrases :: "string \<Rightarrow> string" where
  "strip_phrases s =
    (case match_quoted (\<lambda>c. c \<noteq> CHR 0x22) s of
       Some (_, r) \<Rightarrow> CHR '' '' # strip_phrases r
     | None \<Rightarrow> (case s of [] \<Rightarrow> [] | c # cs \<Rightarrow> c # strip_phrases cs))"
  by pat_completeness auto
termination
  by (relation "measure length") (auto dest: match_quoted_shorter)

declare strip_phrases.simps [simp del]

definition RESERVED :: "string list" where
  "RESERVED = [''AND'', ''OR'', ''NOT'', ''|'', ''*'']"

definition plain_term :: "string \<Rightarrow> string list" where
  "plain_term raw =
    (let t = trim (filter (\<lambda>c. c \<notin> set [CHR ''('', CHR '')'', CHR ''|'']) raw) in
     if t = [] then []
     else if map upper_char t \<in> set RESERVED then []
     else if \<not> list_ex is_alnum t then []
     else [t])"

text \<open>The empty words that split gives at the ends are dropped by plain_term.\<close>

definition extractHighlightTerms :: "string \<Rightarrow> string list" where
  "extractHighlightTerms query =
    (if query = [] \<or> query = ''*'' then []
     else let noField = strip_fields (strip_selector query)
          in quoted_phrases noField @ concat (map plain_term (words (strip_phrases noField))))"

definition escapeRegex :: "string \<Rightarrow> string" where
  "escapeRegex s = concat (map (\<lambda>c. if c \<in> set ''.*+?^${}()|[]'' \<or> c = CHR 0x5C then [CHR 0x5C, c] else [c]) s)"


subsection \<open>Selectors\<close>

text \<open>Values as Kubernetes names are: without braces and commas.\<close>

definition selector_value :: "string \<Rightarrow> bool" where
  "selector_value v \<longleftrightarrow> list_all (\<lambda>c. no_brace c \<and> c \<noteq> CHR '','') v"

definition selector_field :: "string \<Rightarrow> bool" where
  "selector_field f \<longleftrightarrow> f \<noteq> [] \<and> list_all (\<lambda>c. no_brace c \<and> c \<noteq> CHR '','' \<and> c \<noteq> CHR ''='' \<and> \<not> is_ws c) f"

lemma fields_ok [simp]: "selector_field FIELD_NS" "selector_field FIELD_POD" "selector_field FIELD_CONTAINER"
  by (simp_all add: selector_field_def FIELD_NS_def FIELD_POD_def FIELD_CONTAINER_def no_brace_def is_ws_def)

lemma fields_distinct [simp]:
  "FIELD_NS \<noteq> FIELD_POD" "FIELD_NS \<noteq> FIELD_CONTAINER" "FIELD_POD \<noteq> FIELD_CONTAINER"
  "FIELD_POD \<noteq> FIELD_NS" "FIELD_CONTAINER \<noteq> FIELD_NS" "FIELD_CONTAINER \<noteq> FIELD_POD"
  by (simp_all add: FIELD_NS_def FIELD_POD_def FIELD_CONTAINER_def)

definition sel_part :: "string \<Rightarrow> string \<Rightarrow> string" where
  "sel_part f v = f @ [CHR ''='', CHR 0x22] @ v @ [CHR 0x22]"

lemma selector_part_eq: "selector_part f v = (if v \<noteq> [] then [sel_part f v] else [])"
  by (simp add: selector_part_def sel_part_def)

lemma hd_field: "selector_field f \<Longrightarrow> \<not> is_ws (hd f) \<and> f \<noteq> []"
  by (cases f) (auto simp: selector_field_def)

lemma ws_quote: "\<not> is_ws (CHR 0x22)" "is_ws (CHR '' '')"
  by (simp_all add: is_ws_def)

lemma sel_part_trim: "selector_field f \<Longrightarrow> trim (sel_part f v) = sel_part f v"
  using hd_field[of f] by (intro trim_id) (simp add: sel_part_def ws_quote)

lemma sel_part_chars:
  "selector_field f \<Longrightarrow> selector_value v \<Longrightarrow> list_all (\<lambda>c. no_brace c \<and> c \<noteq> CHR '','') (sel_part f v)"
  by (auto simp: sel_part_def selector_field_def selector_value_def list_all_iff no_brace_def)

lemma split_trim_join:
  assumes "list_all (\<lambda>p. CHR '','' \<notin> set p \<and> trim p = p) ps" "ps \<noteq> []"
  shows "map trim (split_on (\<lambda>c. c = CHR '','') (join '', '' ps)) = ps"
  using assms
proof (induction ps rule: induct_list012)
  case (3 p q ps)
  obtain w ws where w: "split_on (\<lambda>c. c = CHR '','') (join '', '' (q # ps)) = w # ws"
    using split_on_nonempty by (meson neq_Nil_conv)
  have "split_on (\<lambda>c. c = CHR '','') (p @ CHR '','' # CHR '' '' # join '', '' (q # ps)) =
    p # (CHR '' '' # w) # ws"
    using 3(3) w by (subst split_on_append) auto
  moreover have "trim w # map trim ws = q # ps" using 3 w by simp
  ultimately show ?case using 3(3) by (simp add: trim_space)
next
  case (2 p)
  then have "split_on (\<lambda>c. c = CHR '','') p = [p]" by (intro split_on_none) auto
  then show ?case using 2 by simp
qed simp

lemma index_of_eq: "CHR ''='' \<notin> set f \<Longrightarrow> index_of ''='' (f @ CHR ''='' # s) = Some (length f)"
  by (rule index_of_first)

lemma unquote_quoted: "unquote (CHR 0x22 # v @ [CHR 0x22]) = v"
  using ends_with_append[of "[CHR 0x22]" "CHR 0x22 # v"] by (simp add: unquote_def)

lemma read_sel_part:
  assumes "selector_field f"
  shows "read_part (sel_part f v) (ns, pod, c) =
    (if f = FIELD_NS then (v, pod, c) else if f = FIELD_POD then (ns, v, c)
     else if f = FIELD_CONTAINER then (ns, pod, v) else (ns, pod, c))"
proof -
  have "index_of ''='' (sel_part f v) = Some (length f)"
    using assms index_of_eq[of f] by (auto simp: sel_part_def selector_field_def list_all_iff)
  moreover have "trim f = f"
    using assms hd_field[OF assms] last_in_set[of f] by (intro trim_id) (auto simp: selector_field_def list_all_iff)
  moreover have "trim (CHR 0x22 # v @ [CHR 0x22]) = CHR 0x22 # v @ [CHR 0x22]"
    by (intro trim_id) (simp add: ws_quote)
  moreover have "drop (length f + 1) (sel_part f v) = CHR 0x22 # v @ [CHR 0x22]"
    "take (length f) (sel_part f v) = f"
    by (simp_all add: sel_part_def)
  ultimately show ?thesis by (simp add: unquote_quoted)
qed

text \<open>The parts of a composed selector, and a query that starts with it.\<close>

definition selector_parts :: "string \<Rightarrow> string \<Rightarrow> string \<Rightarrow> string list" where
  "selector_parts ns pod c = selector_part FIELD_NS ns @ selector_part FIELD_POD pod @ selector_part FIELD_CONTAINER c"

lemma compose_eq:
  "composeStreamSelector ns pod c =
    (if ns = [] \<and> pod = [] \<and> c = [] then [] else ''{'' @ join '', '' (selector_parts ns pod c) @ ''}'')"
  by (simp add: composeStreamSelector_def selector_parts_def selector_part_def)

lemma join_chars: "list_all (list_all P) ps \<Longrightarrow> list_all P sep \<Longrightarrow> list_all P (join sep ps)"
  by (induction ps rule: induct_list012) simp_all

lemma selector_part_chars:
  assumes "selector_field f" "selector_value v" "p \<in> set (selector_part f v)"
  shows "CHR '','' \<notin> set p" "trim p = p" "list_all no_brace p"
proof -
  have p: "p = sel_part f v" using assms(3) by (auto simp: selector_part_eq split: if_splits)
  show "CHR '','' \<notin> set p" "list_all no_brace p"
    using sel_part_chars[OF assms(1,2)] unfolding p list_all_iff by blast+
  show "trim p = p" unfolding p by (rule sel_part_trim[OF assms(1)])
qed

lemma selector_parts_chars:
  assumes "selector_value ns" "selector_value pod" "selector_value c"
  shows "list_all (\<lambda>p. CHR '','' \<notin> set p \<and> trim p = p) (selector_parts ns pod c)"
    "list_all no_brace (join '', '' (selector_parts ns pod c))"
proof -
  have p: "CHR '','' \<notin> set p \<and> trim p = p \<and> list_all no_brace p" if "p \<in> set (selector_parts ns pod c)" for p
    using that selector_part_chars[OF fields_ok(1) assms(1), of p] selector_part_chars[OF fields_ok(2) assms(2), of p]
      selector_part_chars[OF fields_ok(3) assms(3), of p]
    unfolding selector_parts_def set_append by blast
  show "list_all (\<lambda>p. CHR '','' \<notin> set p \<and> trim p = p) (selector_parts ns pod c)"
    unfolding list_all_iff using p by blast
  show "list_all no_brace (join '', '' (selector_parts ns pod c))"
    using p by (intro join_chars) (auto simp: list_all_iff[of "list_all no_brace"] no_brace_def)
qed

lemma match_braces_app: "list_all no_brace b \<Longrightarrow> match_braces (''{'' @ b @ ''}'' @ s) = Some (b, s)"
proof -
  assume "list_all no_brace b"
  then have "takeWhile no_brace (b @ CHR ''}'' # s) = b" "dropWhile no_brace (b @ CHR ''}'' # s) = CHR ''}'' # s"
    by (simp_all add: list_all_iff no_brace_def)
  then show ?thesis by (simp add: match_braces_def)
qed

lemma match_compose:
  assumes "selector_value ns" "selector_value pod" "selector_value c" "ns \<noteq> [] \<or> pod \<noteq> [] \<or> c \<noteq> []"
  shows "match_braces (trim_start (composeStreamSelector ns pod c @ s)) = Some (join '', '' (selector_parts ns pod c), s)"
proof -
  have "composeStreamSelector ns pod c @ s = ''{'' @ join '', '' (selector_parts ns pod c) @ ''}'' @ s"
    using assms(4) by (simp add: compose_eq)
  moreover have "trim_start (''{'' @ x) = ''{'' @ x" for x by (simp add: trim_start_def is_ws_def)
  ultimately show ?thesis
    using match_braces_app[OF selector_parts_chars(2)[OF assms(1-3)], of s] by simp
qed

lemma query_rest_trimmed: "dropWhile is_ws (query_rest q) = query_rest q"
  by (simp add: query_rest_def trim_start_def Let_def split: option.splits)

lemma merge_compose:
  assumes "composeStreamSelector ns pod c \<noteq> []"
  shows "\<exists>w. list_all is_ws w \<and> mergeStreamSelector q (composeStreamSelector ns pod c) = composeStreamSelector ns pod c @ w @ query_rest q"
  using assms by (auto simp: mergeStreamSelector_def Let_def ws_quote intro: exI[of _ "[]"] exI[of _ "'' ''"])

lemma drop_ws_app: "list_all is_ws w \<Longrightarrow> dropWhile is_ws (w @ s) = dropWhile is_ws s"
  by (simp add: list_all_iff)



text \<open>A selector with a brace inside a value is not recognised: picking a namespace then
  puts a second selector in front of the one that is there.\<close>

theorem selector_with_braces_is_kept:
  "mergeStreamSelector ([CHR ''{''] @ ''pod=~'' @ [CHR 0x22] @ ''a{2}'' @ [CHR 0x22] @ ''} error'') ''{x}'' =
    ''{x} '' @ [CHR ''{''] @ ''pod=~'' @ [CHR 0x22] @ ''a{2}'' @ [CHR 0x22] @ ''} error''"
  by (simp add: mergeStreamSelector_def query_rest_def trim_start_def is_ws_def match_braces_def no_brace_def Let_def)

subsection \<open>Highlighting\<close>

text \<open>A query of plain words: no selectors, fields, quotes or parentheses.\<close>

definition plain_word :: "string \<Rightarrow> bool" where
  "plain_word w \<longleftrightarrow> clean_word w \<and>
     list_all (\<lambda>c. c \<notin> set [CHR ''{'', CHR '':'', CHR 0x22, CHR ''('', CHR '')'', CHR ''|'']) w"

definition shown_term :: "string \<Rightarrow> bool" where
  "shown_term w \<longleftrightarrow> map upper_char w \<notin> set RESERVED \<and> list_ex is_alnum w"

lemma plain_term_word: "plain_word w \<Longrightarrow> plain_term w = (if shown_term w then [w] else [])"
proof -
  assume w: "plain_word w"
  then have "filter (\<lambda>c. c \<notin> set [CHR ''('', CHR '')'', CHR ''|'']) w = w"
    by (intro filter_True) (auto simp: plain_word_def list_all_iff)
  moreover have "w \<noteq> []" using w by (auto simp: plain_word_def clean_word_def)
  moreover have "trim w = w"
    using w last_in_set[of w] hd_in_set[of w] by (intro trim_id) (auto simp: plain_word_def clean_word_def list_all_iff)
  ultimately show ?thesis by (auto simp: plain_term_def shown_term_def Let_def simp del: set_simps)
qed

lemma strip_fields_plain: "CHR '':'' \<notin> set s \<Longrightarrow> strip_fields s = s"
proof (induction s)
  case (Cons c s)
  have "hd (dropWhile field_char (c # s)) \<in> set (c # s)" if "dropWhile field_char (c # s) \<noteq> []"
    using that by (meson hd_in_set set_dropWhileD)
  with Cons.prems have "match_field (c # s) = None"
    by (force simp: match_field_def split: list.splits)
  then show ?case using Cons by (subst strip_fields.simps) simp
qed (simp add: strip_fields.simps match_field_def)

lemma no_quotes: "CHR 0x22 \<notin> set s \<Longrightarrow> strip_phrases s = s \<and> quoted_phrases s = []"
proof (induction s)
  case (Cons c s)
  then have "match_quoted P (c # s) = None" for P by (auto simp: match_quoted_def)
  then show ?case using Cons by (subst strip_phrases.simps, subst quoted_phrases.simps) simp
qed (simp add: strip_phrases.simps quoted_phrases.simps match_quoted_def)

text \<open>In a query of plain words the highlighted terms are its words in order, without
  the operators and without words that have no letter or digit.\<close>

theorem highlight_plain_words:
  assumes "list_all plain_word ws" "ws \<noteq> []"
  shows "extractHighlightTerms (join '' '' ws) = filter shown_term ws"
proof -
  let ?q = "join '' '' ws"
  have chars: "list_all (\<lambda>c. c \<notin> set [CHR ''{'', CHR '':'', CHR 0x22]) ?q"
    using assms(1) by (intro join_chars) (auto simp: list_all_iff plain_word_def)
  have "match_braces (trim_start ?q) = None"
  proof (cases "trim_start ?q")
    case (Cons c cs)
    then have "c \<in> set ?q" unfolding trim_start_def by (metis list.set_intros(1) set_dropWhileD)
    then have "c \<noteq> CHR ''{''" using chars unfolding list_all_iff by auto
    then show ?thesis using Cons by (simp add: match_braces_def)
  qed (simp add: match_braces_def)
  then have "strip_selector ?q = ?q" by (simp add: strip_selector_def)
  moreover have "strip_fields ?q = ?q" using chars by (intro strip_fields_plain) (auto simp: list_all_iff)
  moreover have "strip_phrases ?q = ?q \<and> quoted_phrases ?q = []" using chars by (intro no_quotes) (auto simp: list_all_iff)
  moreover have "words ?q = ws" using assms(1) by (intro words_join) (auto simp: list_all_iff plain_word_def)
  moreover have "concat (map plain_term ws) = filter shown_term ws"
    using assms(1) by (induction ws) (auto simp: plain_term_word)
  moreover have "?q = ''*'' \<Longrightarrow> filter shown_term ws = []"
  proof -
    assume "?q = ''*''"
    moreover have "words ''*'' = [''*'']" by (simp add: words_def is_ws_def)
    ultimately have "ws = [''*'']" using \<open>words ?q = ws\<close> by simp
    then show "filter shown_term ws = []" by (simp add: shown_term_def RESERVED_def upper_char_def)
  qed
  moreover have "?q \<noteq> []" using assms by (subst join_eq_Nil) (auto simp: list_all_iff plain_word_def clean_word_def)
  ultimately show ?thesis by (simp add: extractHighlightTerms_def)
qed

lemma highlight_plain_words_witness:
  "extractHighlightTerms (join '' '' [''error'', ''and'', ''timeout-5s'', ''--'']) = [''error'', ''timeout-5s'']"
proof -
  have "extractHighlightTerms (join '' '' [''error'', ''and'', ''timeout-5s'', ''--'']) =
    filter shown_term [''error'', ''and'', ''timeout-5s'', ''--'']"
    by (rule highlight_plain_words) (simp_all add: plain_word_def clean_word_def is_ws_def)
  moreover have "filter shown_term [''error'', ''and'', ''timeout-5s'', ''--''] = [''error'', ''timeout-5s'']"
    by code_simp
  ultimately show ?thesis by (simp only:)
qed

text \<open>The string that a regular expression of literals and escapes matches; None when a
  metacharacter is not escaped.\<close>

fun regex_literal :: "string \<Rightarrow> string option" where
  "regex_literal [] = Some []"
| "regex_literal (c # cs) =
    (if c = CHR 0x5C then (case cs of d # ds \<Rightarrow> map_option ((#) d) (regex_literal ds) | [] \<Rightarrow> None)
     else if c \<in> set ''.*+?^${}()|[]'' then None
     else map_option ((#) c) (regex_literal cs))"

text \<open>An escaped term is a pattern without metacharacters that matches exactly the term.\<close>

theorem escapeRegex_is_literal:
  "regex_literal (escapeRegex s) = Some s"
  by (induction s) (simp_all add: escapeRegex_def)

end
