(* ===== verification/BurstRefresh.thy ===== *)
theory BurstRefresh
  imports Prelude
begin

text \<open>
  hooks/useBurstRefresh.ts: the refreshes after a mutation.  Timers are those of
  window.setTimeout, due at a time in milliseconds; a burst's cancel function is
  the list of its timers; the log holds the times at which refresh was called.
\<close>

datatype burst_action = DoRefresh | SelfClear

record burst_timer =
  bt_id :: nat
  bt_due :: int
  bt_action :: burst_action

record burst_state =
  bs_now :: int
  bs_timers :: "burst_timer list"
  bs_cancel :: "nat list option"
  bs_log :: "int list"
  bs_next :: nat

definition default_delays :: "int list" where
  "default_delays = [0, 2000, 5000]"

definition bs_init :: burst_state where
  "bs_init = \<lparr>bs_now = 0, bs_timers = [], bs_cancel = None, bs_log = [], bs_next = 0\<rparr>"

definition set_timeout :: "burst_action \<Rightarrow> int \<Rightarrow> burst_state \<Rightarrow> burst_state" where
  "set_timeout a d s =
    s\<lparr>bs_timers := bs_timers s @ [\<lparr>bt_id = bs_next s, bt_due = bs_now s + d, bt_action = a\<rparr>],
      bs_next := Suc (bs_next s)\<rparr>"

definition clear_timeouts :: "nat list \<Rightarrow> burst_state \<Rightarrow> burst_state" where
  "clear_timeouts ids s = s\<lparr>bs_timers := filter (\<lambda>t. bt_id t \<notin> set ids) (bs_timers s)\<rparr>"

definition do_refresh :: "burst_state \<Rightarrow> burst_state" where
  "do_refresh s = s\<lparr>bs_log := bs_log s @ [bs_now s]\<rparr>"

definition cancel :: "burst_state \<Rightarrow> burst_state" where
  "cancel s = (case bs_cancel s of None \<Rightarrow> s | Some ids \<Rightarrow> (clear_timeouts ids s)\<lparr>bs_cancel := None\<rparr>)"

text \<open>The loop of burst over the delays; the timers pushed are returned.\<close>

fun burst_loop :: "int list \<Rightarrow> nat list \<Rightarrow> burst_state \<Rightarrow> nat list \<times> burst_state" where
  "burst_loop [] timers s = (timers, s)"
| "burst_loop (d # ds) timers s =
    (if d \<le> 0 then burst_loop ds timers (do_refresh s)
     else burst_loop ds (timers @ [bs_next s]) (set_timeout DoRefresh d s))"

definition burst :: "int list \<Rightarrow> burst_state \<Rightarrow> burst_state" where
  "burst delays s0 =
    (let (timers, s) = burst_loop delays [] (cancel s0);
         s' = s\<lparr>bs_cancel := Some timers\<rparr>;
         maxDelay = foldl max 0 delays
     in if 0 < maxDelay then set_timeout SelfClear (maxDelay + 10) s' else s')"

text \<open>A timer that fires, and the passing of time: the timers due by then fire at their
  times, in order.\<close>

definition fire :: "burst_timer \<Rightarrow> burst_state \<Rightarrow> burst_state" where
  "fire t s0 =
    (let s = s0\<lparr>bs_now := bt_due t\<rparr> in
     case bt_action t of
       DoRefresh \<Rightarrow> do_refresh s
     | SelfClear \<Rightarrow> (if bs_cancel s \<noteq> None then s\<lparr>bs_cancel := None\<rparr> else s))"

definition elapse :: "int \<Rightarrow> burst_state \<Rightarrow> burst_state" where
  "elapse until s =
    (fold fire (sort_key bt_due (filter (\<lambda>t. bt_due t \<le> until) (bs_timers s)))
       (s\<lparr>bs_timers := filter (\<lambda>t. until < bt_due t) (bs_timers s)\<rparr>))\<lparr>bs_now := until\<rparr>"

text \<open>Unmounting runs cancel.\<close>

definition unmount :: "burst_state \<Rightarrow> burst_state" where
  "unmount s = cancel s"

subsection \<open>One burst\<close>

definition refresh_timer :: "int \<Rightarrow> nat \<Rightarrow> int \<Rightarrow> burst_timer" where
  "refresh_timer now i d = \<lparr>bt_id = i, bt_due = now + d, bt_action = DoRefresh\<rparr>"

lemma burst_loop_eq:
  "burst_loop ds ts s =
    (ts @ [bs_next s ..< bs_next s + length (filter (\<lambda>d. 0 < d) ds)],
     s\<lparr>bs_log := bs_log s @ replicate (length (filter (\<lambda>d. d \<le> 0) ds)) (bs_now s),
       bs_timers := bs_timers s @ map2 (refresh_timer (bs_now s)) [bs_next s ..< bs_next s + length (filter (\<lambda>d. 0 < d) ds)]
         (filter (\<lambda>d. 0 < d) ds),
       bs_next := bs_next s + length (filter (\<lambda>d. 0 < d) ds)\<rparr>)"
proof (induction ds arbitrary: ts s)
  case (Cons d ds)
  show ?case
  proof (cases "d \<le> 0")
    case True
    then show ?thesis by (simp add: Cons.IH do_refresh_def)
  next
    case False
    have "[n..<n + Suc k] = n # [Suc n..<Suc (n + k)]" for n k :: nat
      by (simp add: upt_conv_Cons)
    then show ?thesis using False
      by (simp add: Cons.IH set_timeout_def refresh_timer_def del: upt_Suc)
  qed
qed simp

lemma fire_log: "bs_log (fold fire ts s) = bs_log s @ map bt_due (filter (\<lambda>t. bt_action t = DoRefresh) ts)"
proof (induction ts arbitrary: s)
  case (Cons t ts)
  then show ?case by (cases "bt_action t") (simp_all add: fire_def do_refresh_def Let_def)
qed simp

lemma fire_timers: "bs_timers (fold fire ts s) = bs_timers s"
proof (induction ts arbitrary: s)
  case (Cons t ts)
  then show ?case by (cases "bt_action t") (simp_all add: fire_def do_refresh_def Let_def)
qed simp

lemma fire_cancel:
  "bs_cancel (fold fire ts s) = (if SelfClear \<in> bt_action ` set ts then None else bs_cancel s)"
proof (induction ts arbitrary: s)
  case (Cons t ts)
  then show ?case by (cases "bt_action t") (auto simp: fire_def do_refresh_def Let_def)
qed simp

lemma elapse_log: "bs_log (elapse u s) =
    bs_log s @ map bt_due (filter (\<lambda>t. bt_action t = DoRefresh) (sort_key bt_due (filter (\<lambda>t. bt_due t \<le> u) (bs_timers s))))"
  by (simp add: elapse_def fire_log)

lemma elapse_timers: "bs_timers (elapse u s) = filter (\<lambda>t. u < bt_due t) (bs_timers s)"
  by (simp add: elapse_def fire_timers)

lemma elapse_cancel:
  "bs_cancel (elapse u s) = (if \<exists>t \<in> set (bs_timers s). bt_due t \<le> u \<and> bt_action t = SelfClear then None else bs_cancel s)"
  by (force simp: elapse_def fire_cancel)

lemma elapse_now: "bs_now (elapse u s) = u"
  by (simp add: elapse_def)

lemma map_sort_key: "map f (sort_key f xs) = sort (map f xs)"
proof (rule sym, rule properties_for_sort)
  show "mset (map f (sort_key f xs)) = mset (map f xs)" by (metis mset_map mset_sort)
qed simp

lemma foldl_max_0: "list_all (\<lambda>d. d \<le> m) ds \<Longrightarrow> foldl max m ds = m" for ds :: "int list"
  by (induction ds) (simp_all add: max_absorb1)

definition positive :: "int list \<Rightarrow> int list" where
  "positive ds = filter (\<lambda>d. 0 < d) ds"

definition last_delay :: "int list \<Rightarrow> int" where
  "last_delay ds = foldl max 0 ds"

lemma last_delay_pos: "0 < last_delay ds \<longleftrightarrow> positive ds \<noteq> []"
proof
  assume "0 < last_delay ds"
  then have "\<not> list_all (\<lambda>d. d \<le> 0) ds" using foldl_max_0[of 0 ds] by (auto simp: last_delay_def)
  then show "positive ds \<noteq> []" by (auto simp: positive_def filter_empty_conv list_all_iff not_le)
next
  assume "positive ds \<noteq> []"
  then obtain d where "d \<in> set ds" "0 < d" by (auto simp: positive_def filter_empty_conv)
  then show "0 < last_delay ds" using foldl_max_ge[of 0 ds] by (fastforce simp: last_delay_def)
qed

lemma last_delay_ge: "d \<in> set (positive ds) \<Longrightarrow> d \<le> last_delay ds"
  using foldl_max_ge[of 0 ds] by (simp add: last_delay_def positive_def)

text \<open>The timers and the state right after a burst.\<close>

definition burst_timers :: "int list \<Rightarrow> int \<Rightarrow> nat \<Rightarrow> burst_timer list" where
  "burst_timers ds now n = map2 (refresh_timer now) [n ..< n + length (positive ds)] (positive ds)"

definition clear_timer :: "int list \<Rightarrow> int \<Rightarrow> nat \<Rightarrow> burst_timer list" where
  "clear_timer ds now n = (if positive ds = [] then []
     else [\<lparr>bt_id = n + length (positive ds), bt_due = now + last_delay ds + 10, bt_action = SelfClear\<rparr>])"

lemma burst_state_eq:
  fixes s :: burst_state
  defines "c \<equiv> cancel s"
  shows "bs_now (burst ds s) = bs_now c"
    "bs_timers (burst ds s) = bs_timers c @ burst_timers ds (bs_now c) (bs_next c) @ clear_timer ds (bs_now c) (bs_next c)"
    "bs_cancel (burst ds s) = Some [bs_next c ..< bs_next c + length (positive ds)]"
    "bs_log (burst ds s) = bs_log c @ replicate (length (filter (\<lambda>d. d \<le> 0) ds)) (bs_now c)"
  using last_delay_pos[of ds]
  by (auto simp: burst_def burst_loop_eq c_def[symmetric] set_timeout_def burst_timers_def clear_timer_def
      positive_def last_delay_def add.assoc)

lemma cancel_eq:
  "bs_now (cancel s) = bs_now s" "bs_log (cancel s) = bs_log s" "bs_cancel (cancel s) = None"
  "bs_next (cancel s) = bs_next s"
  "bs_timers (cancel s) = filter (\<lambda>t. bt_id t \<notin> set (case bs_cancel s of None \<Rightarrow> [] | Some ids \<Rightarrow> ids)) (bs_timers s)"
  by (simp_all add: cancel_def clear_timeouts_def split: option.splits)

lemma burst_timers_set:
  "t \<in> set (burst_timers ds now n) \<Longrightarrow> bt_action t = DoRefresh \<and> bt_id t \<in> {n ..< n + length (positive ds)} \<and>
     bt_due t \<le> now + last_delay ds \<and> now < bt_due t"
proof -
  assume "t \<in> set (burst_timers ds now n)"
  then obtain i d where t: "t = refresh_timer now i d" "(i, d) \<in> set (zip [n ..< n + length (positive ds)] (positive ds))"
    by (auto simp: burst_timers_def)
  then have "i \<in> set [n ..< n + length (positive ds)]" "d \<in> set (positive ds)"
    by (auto dest: set_zip_leftD set_zip_rightD)
  then show ?thesis using t(1) last_delay_ge[of d ds] by (auto simp: refresh_timer_def positive_def)
qed

lemma burst_timers_due: "map bt_due (burst_timers ds now n) = map (\<lambda>d. now + d) (positive ds)"
  by (rule nth_equalityI) (simp_all add: burst_timers_def refresh_timer_def)

lemma clear_timer_set: "t \<in> set (clear_timer ds now n) \<Longrightarrow>
    bt_action t = SelfClear \<and> bt_due t = now + last_delay ds + 10 \<and> bt_id t = n + length (positive ds)"
  by (simp add: clear_timer_def split: if_splits)

lemma refreshes_of:
  "map bt_due (filter (\<lambda>t. bt_action t = DoRefresh) (sort_key bt_due xs)) =
   sort (map bt_due (filter (\<lambda>t. bt_action t = DoRefresh) xs))"
  by (simp add: filter_sort map_sort_key)

lemma burst_all: "filter (\<lambda>t. bt_action t = DoRefresh) (burst_timers ds now n @ clear_timer ds now n) = burst_timers ds now n"
  using burst_timers_set[of _ ds now n] clear_timer_set[of _ ds now n] by (auto intro!: filter_True filter_False)

subsection \<open>What the user gets\<close>

text \<open>One burst refreshes at once for every delay that is not positive, then once at
  every positive delay, in the order of time, and not again.\<close>

theorem burst_refreshes_on_schedule:
  assumes "bs_timers s = []" "bs_now s + last_delay ds + 10 \<le> u"
  shows "bs_log (elapse u (burst ds s)) =
      bs_log s @ replicate (length (filter (\<lambda>d. d \<le> 0) ds)) (bs_now s) @ sort (map (\<lambda>d. bs_now s + d) (positive ds)) \<and>
    bs_timers (elapse u (burst ds s)) = [] \<and>
    (positive ds = [] \<or> bs_cancel (elapse u (burst ds s)) = None)"
proof -
  let ?ts = "burst_timers ds (bs_now s) (bs_next s) @ clear_timer ds (bs_now s) (bs_next s)"
  have b: "bs_timers (burst ds s) = ?ts" using assms(1) by (simp add: burst_state_eq cancel_eq)
  have due: "bt_due t \<le> u" if "t \<in> set ?ts" for t
    using that burst_timers_set[of t ds "bs_now s" "bs_next s"] clear_timer_set[of t ds "bs_now s" "bs_next s"] assms(2) by auto
  then have f: "filter (\<lambda>t. bt_due t \<le> u) ?ts = ?ts" "filter (\<lambda>t. u < bt_due t) ?ts = []"
    by (auto intro!: filter_True filter_False simp: not_less simp del: filter_append set_append)
  have "\<exists>t \<in> set ?ts. bt_due t \<le> u \<and> bt_action t = SelfClear" if "positive ds \<noteq> []"
    using that due by (auto simp: clear_timer_def)
  then show ?thesis
    unfolding elapse_log elapse_timers elapse_cancel b f refreshes_of burst_all burst_timers_due
    by (auto simp: burst_state_eq(4) cancel_eq)
qed

lemma burst_refreshes_on_schedule_witness:
  "bs_log (elapse 6000 (burst default_delays bs_init)) = [0, 2000, 5000]"
  using burst_refreshes_on_schedule[of bs_init default_delays 6000]
  by (simp add: bs_init_def default_delays_def last_delay_def positive_def)

text \<open>Cancelling (or unmounting) while a burst is under way stops it: no refresh runs
  after the cancel.\<close>

theorem cancel_stops_burst:
  assumes "bs_timers s = []" "bs_now s \<le> u" "u < bs_now s + last_delay ds + 10"
  shows "bs_log (elapse w (unmount (elapse u (burst ds s)))) = bs_log (elapse u (burst ds s))"
proof -
  let ?n = "bs_next s" and ?p = "positive ds"
  have b: "bs_timers (burst ds s) = burst_timers ds (bs_now s) ?n @ clear_timer ds (bs_now s) ?n"
    "bs_cancel (burst ds s) = Some [?n ..< ?n + length ?p]"
    using assms(1) by (simp_all add: burst_state_eq cancel_eq)
  have "bs_cancel (elapse u (burst ds s)) = Some [?n ..< ?n + length ?p]"
    unfolding elapse_cancel b using burst_timers_set[of _ ds "bs_now s" ?n] clear_timer_set[of _ ds "bs_now s" ?n] assms(3)
    by fastforce
  then have t: "bs_timers (unmount (elapse u (burst ds s))) =
    filter (\<lambda>t. bt_id t \<notin> set [?n ..< ?n + length ?p]) (filter (\<lambda>t. u < bt_due t)
      (burst_timers ds (bs_now s) ?n @ clear_timer ds (bs_now s) ?n))"
    by (simp add: unmount_def cancel_eq elapse_timers b(1) del: filter_filter)
  have "bt_action t = SelfClear" if "t \<in> set (bs_timers (unmount (elapse u (burst ds s))))" for t
    using that burst_timers_set[of t ds "bs_now s" ?n] clear_timer_set[of t ds "bs_now s" ?n] unfolding t by auto
  then have "filter (\<lambda>t. bt_action t = DoRefresh)
      (sort_key bt_due (filter (\<lambda>t. bt_due t \<le> w) (bs_timers (unmount (elapse u (burst ds s)))))) = []"
    by (auto intro!: filter_False)
  then show ?thesis by (simp add: elapse_log[of w] unmount_def cancel_eq)
qed

lemma cancel_stops_burst_witness:
  "bs_log (elapse 9000 (unmount (elapse 3000 (burst default_delays bs_init)))) = [0, 2000]"
proof -
  have "bs_log (elapse 9000 (unmount (elapse 3000 (burst default_delays bs_init)))) =
    bs_log (elapse 3000 (burst default_delays bs_init))"
    by (rule cancel_stops_burst) (simp_all add: bs_init_def default_delays_def last_delay_def)
  also have "\<dots> = [0, 2000]" by code_simp
  finally show ?thesis .
qed

text \<open>Two bursts in quick succession do not add up: a burst started while the first is
  under way drops what the first had left, and its own schedule runs in full.\<close>

theorem second_burst_replaces_first:
  assumes "bs_timers s = []" "bs_now s \<le> u" "u < bs_now s + last_delay ds + 10"
    and "u + last_delay ds + 10 \<le> w"
  shows "bs_log (elapse w (burst ds (elapse u (burst ds s)))) =
    bs_log (elapse u (burst ds s)) @ replicate (length (filter (\<lambda>d. d \<le> 0) ds)) u @
    sort (map (\<lambda>d. u + d) (positive ds))"
proof -
  let ?n = "bs_next s" and ?p = "positive ds" and ?c = "cancel (elapse u (burst ds s))"
  have b: "bs_timers (burst ds s) = burst_timers ds (bs_now s) ?n @ clear_timer ds (bs_now s) ?n"
    "bs_cancel (burst ds s) = Some [?n ..< ?n + length ?p]"
    using assms(1) by (simp_all add: burst_state_eq cancel_eq)
  have "bs_cancel (elapse u (burst ds s)) = Some [?n ..< ?n + length ?p]"
    unfolding elapse_cancel b using burst_timers_set[of _ ds "bs_now s" ?n] clear_timer_set[of _ ds "bs_now s" ?n] assms(3)
    by fastforce
  then have t: "bs_timers ?c =
    filter (\<lambda>t. bt_id t \<notin> set [?n ..< ?n + length ?p]) (filter (\<lambda>t. u < bt_due t)
      (burst_timers ds (bs_now s) ?n @ clear_timer ds (bs_now s) ?n))"
    by (simp add: cancel_eq elapse_timers b(1) del: filter_filter)
  have old: "bt_action t = SelfClear" if "t \<in> set (bs_timers ?c)" for t
    using that burst_timers_set[of t ds "bs_now s" ?n] clear_timer_set[of t ds "bs_now s" ?n] unfolding t by auto
  let ?new = "burst_timers ds u (bs_next ?c) @ clear_timer ds u (bs_next ?c)"
  have "bs_timers (burst ds (elapse u (burst ds s))) = bs_timers ?c @ ?new"
    by (simp add: burst_state_eq cancel_eq elapse_now)
  moreover have "bt_due t \<le> w" if "t \<in> set ?new" for t
    using that burst_timers_set[of t ds u "bs_next ?c"] clear_timer_set[of t ds u "bs_next ?c"] assms(4) by auto
  then have "filter (\<lambda>t. bt_due t \<le> w) ?new = ?new" by (auto intro!: filter_True simp del: filter_append)
  moreover have "filter (\<lambda>t. bt_action t = DoRefresh) (filter (\<lambda>t. bt_due t \<le> w) (bs_timers ?c)) = []"
    using old by (auto simp: filter_empty_conv)
  ultimately have "filter (\<lambda>t. bt_action t = DoRefresh) (filter (\<lambda>t. bt_due t \<le> w)
      (bs_timers (burst ds (elapse u (burst ds s))))) = burst_timers ds u (bs_next ?c)"
    using burst_all[of ds u "bs_next ?c"]
    by (simp only: filter_append[of _ "bs_timers ?c"] filter_append[of _ "filter (\<lambda>t. bt_due t \<le> w) (bs_timers ?c)"] append_Nil)
  then show ?thesis
    unfolding elapse_log[of w] refreshes_of by (simp add: burst_timers_due burst_state_eq(4) cancel_eq elapse_now)
qed

lemma second_burst_replaces_first_witness:
  "bs_log (elapse 9000 (burst default_delays (elapse 1000 (burst default_delays bs_init)))) = [0, 1000, 3000, 6000]"
proof -
  have "bs_log (elapse 9000 (burst default_delays (elapse 1000 (burst default_delays bs_init)))) =
    bs_log (elapse 1000 (burst default_delays bs_init)) @
      replicate (length (filter (\<lambda>d. d \<le> 0) default_delays)) 1000 @ sort (map (\<lambda>d. 1000 + d) (positive default_delays))"
    by (rule second_burst_replaces_first) (simp_all add: bs_init_def default_delays_def last_delay_def)
  also have "\<dots> = [0, 1000, 3000, 6000]" by code_simp
  finally show ?thesis .
qed

text \<open>The timer that forgets the cancel function belongs to the first burst and forgets
  that of the second: after two bursts between 10 ms and 5 s apart there is a time from
  which on unmounting no longer stops the second burst.\<close>

theorem stale_self_clear_breaks_unmount:
  assumes "bs_timers s = []" "bs_now s + 10 < a" "a < bs_now s + 5010" "bs_now s + 5010 \<le> u" "u < a + 5000"
    and "a + 5000 \<le> w"
  shows "a + 5000 \<in> set (bs_log (elapse w (unmount (elapse u
      (burst default_delays (elapse a (burst default_delays s)))))))"
proof -
  let ?ds = default_delays and ?n = "bs_next s"
  have p: "positive ?ds = [2000, 5000]" "last_delay ?ds = 5000"
    by (simp_all add: positive_def last_delay_def default_delays_def)
  let ?s1 = "burst ?ds s" and ?s2 = "elapse a (burst ?ds s)"
  let ?sc = "\<lparr>bt_id = ?n + 2, bt_due = bs_now s + 5010, bt_action = SelfClear\<rparr>"
  have b1: "bs_timers ?s1 = burst_timers ?ds (bs_now s) ?n @ [?sc]" "bs_cancel ?s1 = Some [?n ..< ?n + 2]"
    using assms(1) by (simp_all add: burst_state_eq cancel_eq clear_timer_def p)
  have c2: "bs_cancel ?s2 = Some [?n ..< ?n + 2]"
    unfolding elapse_cancel b1 using burst_timers_set[of _ ?ds "bs_now s" ?n] assms(3) by fastforce
  have sc: "?sc \<in> set (bs_timers (cancel ?s2))"
    using assms(3) by (auto simp: cancel_eq c2 elapse_timers b1(1))
  let ?s3 = "burst ?ds ?s2" and ?m = "bs_next ?s2"
  let ?r = "refresh_timer a (Suc ?m) 5000"
  have b3: "bs_timers ?s3 = bs_timers (cancel ?s2) @ burst_timers ?ds a ?m @ clear_timer ?ds a ?m"
    by (simp add: burst_state_eq cancel_eq elapse_now)
  have "?r \<in> set (burst_timers ?ds a ?m)" by (simp add: burst_timers_def p upt_rec)
  then have r: "?r \<in> set (bs_timers ?s3)" unfolding b3 by simp
  have "bs_cancel (elapse u ?s3) = None"
    unfolding elapse_cancel b3 using sc assms(4) by force
  then have "bs_timers (unmount (elapse u ?s3)) = filter (\<lambda>t. u < bt_due t) (bs_timers ?s3)"
    by (simp add: unmount_def cancel_def elapse_timers)
  then have "?r \<in> set (bs_timers (unmount (elapse u ?s3)))"
    using r assms(5) by (simp add: refresh_timer_def)
  then have "bt_due ?r \<in> set (map bt_due (filter (\<lambda>t. bt_action t = DoRefresh)
      (sort_key bt_due (filter (\<lambda>t. bt_due t \<le> w) (bs_timers (unmount (elapse u ?s3)))))))"
    using assms(6) by (force simp: refresh_timer_def)
  then show ?thesis unfolding elapse_log[of w] by (simp add: refresh_timer_def)
qed

lemma stale_self_clear_breaks_unmount_witness:
  "9000 \<in> set (bs_log (elapse 10000 (unmount (elapse 5500
      (burst default_delays (elapse 4000 (burst default_delays bs_init)))))))"
  using stale_self_clear_breaks_unmount[of bs_init 4000 5500 10000] by (simp add: bs_init_def)

end
