(* ===== verification/SchedulerMeta.thy ===== *)
theory SchedulerMeta
  imports JsString
begin

text \<open>
  pages/Compute/Volcano/schedulerMeta.ts: the schema of the scheduler
  configuration.  The tables are those of the source, entry by entry, without
  the descriptions and the labels of arguments and switches, which only the
  rendering shows.  A lookup by name is a lookup of an own property.
\<close>

datatype ArgType = ArgInt | ArgFloat | ArgBool | ArgString | ArgObject

record ArgSpec =
  as_key :: string
  as_type :: ArgType
  as_default :: jval
  as_min :: "rat option"
  as_max :: "rat option"

definition arg_spec :: "string \<Rightarrow> ArgType \<Rightarrow> jval \<Rightarrow> rat option \<Rightarrow> rat option \<Rightarrow> ArgSpec" where
  "arg_spec k t d mn mx = \<lparr>as_key = k, as_type = t, as_default = d, as_min = mn, as_max = mx\<rparr>"

record PluginMeta =
  pm_label :: string
  pm_args :: "ArgSpec list option"
  pm_callbacks :: "string list option"

record ActionMeta =
  am_label :: string
  am_args :: "ArgSpec list option"

subsection \<open>The switches every plugin accepts\<close>

definition ENABLE_FIELDS :: "string list" where
  "ENABLE_FIELDS = [
    ''enableJobOrder'',
    ''enableHierarchy'',
    ''enableJobReady'',
    ''enableJobPipelined'',
    ''enableTaskOrder'',
    ''enablePreemptable'',
    ''enableReclaimable'',
    ''enablePreemptive'',
    ''enableQueueOrder'',
    ''EnabledClusterOrder'',
    ''enablePredicate'',
    ''enableBestNode'',
    ''enableNodeOrder'',
    ''enableTargetJob'',
    ''enableReservedNodes'',
    ''enableJobEnqueued'',
    ''enabledVictim'',
    ''enableJobStarving'',
    ''enabledOverused'',
    ''enabledAllocatable'',
    ''enabledHyperNodeOrder'',
    ''enabledSubJobReady'',
    ''enabledSubJobPipelined'',
    ''enabledSubJobOrder'',
    ''enabledHyperNodeGradient'']"

subsection \<open>Actions\<close>

definition action_enqueue :: ActionMeta where
  "action_enqueue = \<lparr>am_label = ''enqueue'',
    am_args = None\<rparr>"

definition action_allocate :: ActionMeta where
  "action_allocate = \<lparr>am_label = ''allocate'',
    am_args = (Some [
      arg_spec ''predicateErrorCacheEnable'' ArgBool (Some (JBool True)) None None])\<rparr>"

definition action_preempt :: ActionMeta where
  "action_preempt = \<lparr>am_label = ''preempt'',
    am_args = (Some [
      arg_spec ''predicateErrorCacheEnable'' ArgBool (Some (JBool True)) None None,
      arg_spec ''enableTopologyAwarePreemption'' ArgBool (Some (JBool False)) None None,
      arg_spec ''topologyAwarePreemptWorkerNum'' ArgInt None (Some 1) None,
      arg_spec ''minCandidateNodesPercentage'' ArgInt None (Some 0) (Some 100),
      arg_spec ''minCandidateNodesAbsolute'' ArgInt None (Some 0) None,
      arg_spec ''maxCandidateNodesAbsolute'' ArgInt None (Some 0) None])\<rparr>"

definition action_reclaim :: ActionMeta where
  "action_reclaim = \<lparr>am_label = ''reclaim'',
    am_args = (Some [
      arg_spec ''predicateErrorCacheEnable'' ArgBool (Some (JBool True)) None None])\<rparr>"

definition action_backfill :: ActionMeta where
  "action_backfill = \<lparr>am_label = ''backfill'',
    am_args = (Some [
      arg_spec ''predicateErrorCacheEnable'' ArgBool (Some (JBool True)) None None])\<rparr>"

definition action_shuffle :: ActionMeta where
  "action_shuffle = \<lparr>am_label = ''shuffle'',
    am_args = None\<rparr>"

definition ACTIONS_META :: "(string \<times> ActionMeta) list" where
  "ACTIONS_META = [
    (''enqueue'', action_enqueue),
    (''allocate'', action_allocate),
    (''preempt'', action_preempt),
    (''reclaim'', action_reclaim),
    (''backfill'', action_backfill),
    (''shuffle'', action_shuffle)]"

subsection \<open>Plugins\<close>

definition plugin_priority :: PluginMeta where
  "plugin_priority = \<lparr>pm_label = ''priority'',
    pm_args = None,
    pm_callbacks = (Some [''enableJobOrder'', ''enableTaskOrder'', ''enablePreemptable'', ''enableJobStarving'', ''enabledSubJobOrder''])\<rparr>"

definition plugin_gang :: PluginMeta where
  "plugin_gang = \<lparr>pm_label = ''gang'',
    pm_args = None,
    pm_callbacks = (Some [''enableJobOrder'', ''enableJobReady'', ''enableJobPipelined'', ''enableJobStarving'', ''enablePreemptable'', ''enableReclaimable'', ''enabledSubJobReady'', ''enabledSubJobPipelined'', ''enabledSubJobOrder''])\<rparr>"

definition plugin_conformance :: PluginMeta where
  "plugin_conformance = \<lparr>pm_label = ''conformance'',
    pm_args = None,
    pm_callbacks = (Some [''enablePreemptable'', ''enableReclaimable''])\<rparr>"

definition plugin_drf :: PluginMeta where
  "plugin_drf = \<lparr>pm_label = ''drf'',
    pm_args = None,
    pm_callbacks = (Some [''enableJobOrder'', ''enableQueueOrder'', ''enablePreemptable'', ''enableReclaimable'', ''enableHierarchy''])\<rparr>"

definition plugin_proportion :: PluginMeta where
  "plugin_proportion = \<lparr>pm_label = ''proportion'',
    pm_args = None,
    pm_callbacks = (Some [''enableQueueOrder'', ''enableJobEnqueued'', ''enabledOverused'', ''enabledAllocatable'', ''enablePreemptive'', ''enablePredicate'', ''enableReclaimable''])\<rparr>"

definition plugin_predicates :: PluginMeta where
  "plugin_predicates = \<lparr>pm_label = ''predicates'',
    pm_args = (Some [
      arg_spec ''predicate.NodeAffinityEnable'' ArgBool (Some (JBool True)) None None,
      arg_spec ''predicate.NodePortsEnable'' ArgBool (Some (JBool True)) None None,
      arg_spec ''predicate.TaintTolerationEnable'' ArgBool (Some (JBool True)) None None,
      arg_spec ''predicate.PodAffinityEnable'' ArgBool (Some (JBool True)) None None,
      arg_spec ''predicate.NodeVolumeLimitsEnable'' ArgBool (Some (JBool True)) None None,
      arg_spec ''predicate.VolumeZoneEnable'' ArgBool (Some (JBool True)) None None,
      arg_spec ''predicate.PodTopologySpreadEnable'' ArgBool (Some (JBool True)) None None,
      arg_spec ''predicate.VolumeBindingEnable'' ArgBool (Some (JBool True)) None None,
      arg_spec ''predicate.DynamicResourceAllocationEnable'' ArgBool (Some (JBool False)) None None,
      arg_spec ''predicate.CacheEnable'' ArgBool (Some (JBool False)) None None]),
    pm_callbacks = (Some [''enablePredicate'', ''enableNodeOrder''])\<rparr>"

definition plugin_nodeorder :: PluginMeta where
  "plugin_nodeorder = \<lparr>pm_label = ''nodeorder'',
    pm_args = (Some [
      arg_spec ''nodeaffinity.weight'' ArgInt (Some (JNum 2)) (Some 0) None,
      arg_spec ''podaffinity.weight'' ArgInt (Some (JNum 2)) (Some 0) None,
      arg_spec ''leastrequested.weight'' ArgInt (Some (JNum 1)) (Some 0) None,
      arg_spec ''mostrequested.weight'' ArgInt (Some (JNum 0)) (Some 0) None,
      arg_spec ''balancedresource.weight'' ArgInt (Some (JNum 1)) (Some 0) None,
      arg_spec ''tainttoleration.weight'' ArgInt (Some (JNum 2)) (Some 0) None,
      arg_spec ''imagelocality.weight'' ArgInt (Some (JNum 1)) (Some 0) None,
      arg_spec ''podtopologyspread.weight'' ArgInt (Some (JNum 2)) (Some 0) None]),
    pm_callbacks = (Some [''enableNodeOrder''])\<rparr>"

definition plugin_binpack :: PluginMeta where
  "plugin_binpack = \<lparr>pm_label = ''binpack'',
    pm_args = (Some [
      arg_spec ''binpack.weight'' ArgInt (Some (JNum 1)) (Some 0) None,
      arg_spec ''binpack.cpu'' ArgInt (Some (JNum 1)) (Some 0) None,
      arg_spec ''binpack.memory'' ArgInt (Some (JNum 1)) (Some 0) None,
      arg_spec ''binpack.resources'' ArgString None None None]),
    pm_callbacks = (Some [''enableNodeOrder''])\<rparr>"

definition plugin_overcommit :: PluginMeta where
  "plugin_overcommit = \<lparr>pm_label = ''overcommit'',
    pm_args = (Some [
      arg_spec ''overcommit-factor'' ArgFloat (Some (JNum (12/10))) (Some 1) None]),
    pm_callbacks = (Some [''enableJobEnqueued''])\<rparr>"

definition plugin_deviceshare :: PluginMeta where
  "plugin_deviceshare = \<lparr>pm_label = ''deviceshare'',
    pm_args = (Some [
      arg_spec ''deviceshare.GPUSharingEnable'' ArgBool (Some (JBool False)) None None,
      arg_spec ''deviceshare.GPUNumberEnable'' ArgBool (Some (JBool False)) None None,
      arg_spec ''deviceshare.NodeLockEnable'' ArgBool (Some (JBool False)) None None,
      arg_spec ''deviceshare.VGPUEnable'' ArgBool (Some (JBool False)) None None,
      arg_spec ''deviceshare.AscendMindClusterVNPUEnable'' ArgBool (Some (JBool False)) None None,
      arg_spec ''deviceshare.AscendHAMiVNPUEnable'' ArgBool (Some (JBool False)) None None,
      arg_spec ''deviceshare.SchedulePolicy'' ArgString None None None,
      arg_spec ''deviceshare.ScheduleWeight'' ArgInt (Some (JNum 0)) (Some 0) None,
      arg_spec ''deviceshare.KnownGeometriesCMName'' ArgString None None None,
      arg_spec ''deviceshare.KnownGeometriesCMNamespace'' ArgString None None None,
      arg_spec ''deviceshare.GPUExclusiveRules'' ArgObject None None None]),
    pm_callbacks = (Some [''enablePredicate'', ''enableNodeOrder''])\<rparr>"

definition plugin_tdm :: PluginMeta where
  "plugin_tdm = \<lparr>pm_label = ''tdm'',
    pm_args = (Some [
      arg_spec ''tdm.evict.period'' ArgString (Some (JStr ''1m'')) None None]),
    pm_callbacks = (Some [''enableJobOrder'', ''enableJobPipelined'', ''enableJobStarving'', ''enableNodeOrder'', ''enablePredicate'', ''enablePreemptable'', ''enabledVictim''])\<rparr>"

definition plugin_numa_aware :: PluginMeta where
  "plugin_numa_aware = \<lparr>pm_label = ''numa-aware'',
    pm_args = (Some [
      arg_spec ''weight'' ArgInt (Some (JNum 1)) (Some 0) None]),
    pm_callbacks = (Some [''enablePredicate'', ''enableNodeOrder''])\<rparr>"

definition plugin_network_topology_aware :: PluginMeta where
  "plugin_network_topology_aware = \<lparr>pm_label = ''network-topology-aware'',
    pm_args = (Some [
      arg_spec ''weight'' ArgInt (Some (JNum 1)) (Some 0) None,
      arg_spec ''hypernode.binpack.cpu'' ArgInt (Some (JNum 1)) (Some 0) None,
      arg_spec ''hypernode.binpack.memory'' ArgInt (Some (JNum 1)) (Some 0) None,
      arg_spec ''hypernode.binpack.resources'' ArgString None None None,
      arg_spec ''hypernode.binpack.normal-pod.enable'' ArgBool (Some (JBool True)) None None,
      arg_spec ''hypernode.binpack.normal-pod.fading'' ArgFloat (Some (JNum (8/10))) (Some 0) (Some 1)]),
    pm_callbacks = (Some [''enableNodeOrder'', ''enabledHyperNodeOrder'', ''enabledHyperNodeGradient''])\<rparr>"

definition plugin_task_topology :: PluginMeta where
  "plugin_task_topology = \<lparr>pm_label = ''task-topology'',
    pm_args = (Some [
      arg_spec ''task-topology.weight'' ArgInt (Some (JNum 1)) (Some 0) None]),
    pm_callbacks = (Some [''enableTaskOrder'', ''enableNodeOrder''])\<rparr>"

definition plugin_usage :: PluginMeta where
  "plugin_usage = \<lparr>pm_label = ''usage'',
    pm_args = (Some [
      arg_spec ''usage.weight'' ArgInt (Some (JNum 5)) (Some 0) None,
      arg_spec ''cpu.weight'' ArgInt (Some (JNum 1)) (Some 0) None,
      arg_spec ''memory.weight'' ArgInt (Some (JNum 1)) (Some 0) None,
      arg_spec ''thresholds'' ArgObject None None None]),
    pm_callbacks = (Some [''enableNodeOrder'', ''enablePredicate''])\<rparr>"

definition plugin_extender :: PluginMeta where
  "plugin_extender = \<lparr>pm_label = ''extender'',
    pm_args = (Some [
      arg_spec ''extender.ignorable'' ArgBool (Some (JBool False)) None None,
      arg_spec ''extender.urlPrefix'' ArgString None None None,
      arg_spec ''extender.httpTimeout'' ArgString (Some (JStr ''1s'')) None None,
      arg_spec ''extender.managedResources'' ArgObject None None None,
      arg_spec ''extender.predicateVerb'' ArgString None None None,
      arg_spec ''extender.prioritizeVerb'' ArgString None None None,
      arg_spec ''extender.preemptableVerb'' ArgString None None None,
      arg_spec ''extender.reclaimableVerb'' ArgString None None None,
      arg_spec ''extender.queueOverusedVerb'' ArgString None None None,
      arg_spec ''extender.jobEnqueueableVerb'' ArgString None None None,
      arg_spec ''extender.jobReadyVerb'' ArgString None None None,
      arg_spec ''extender.allocateFuncVerb'' ArgString None None None,
      arg_spec ''extender.deallocateFuncVerb'' ArgString None None None,
      arg_spec ''extender.onSessionOpenVerb'' ArgString None None None,
      arg_spec ''extender.onSessionCloseVerb'' ArgString None None None]),
    pm_callbacks = (Some [''enablePredicate'', ''enableNodeOrder'', ''enableJobReady'', ''enableJobEnqueued'', ''enabledOverused'', ''enablePreemptable'', ''enableReclaimable''])\<rparr>"

definition plugin_capacity :: PluginMeta where
  "plugin_capacity = \<lparr>pm_label = ''capacity'',
    pm_args = None,
    pm_callbacks = (Some [''enableQueueOrder'', ''enableJobEnqueued'', ''enabledAllocatable'', ''enablePreemptive'', ''enablePredicate'', ''enableReclaimable'', ''enableHierarchy''])\<rparr>"

definition plugin_resourcequota :: PluginMeta where
  "plugin_resourcequota = \<lparr>pm_label = ''resourcequota'',
    pm_args = None,
    pm_callbacks = (Some [''enableJobEnqueued''])\<rparr>"

definition plugin_pdb :: PluginMeta where
  "plugin_pdb = \<lparr>pm_label = ''pdb'',
    pm_args = None,
    pm_callbacks = (Some [''enablePreemptable'', ''enableReclaimable'', ''enabledVictim''])\<rparr>"

definition plugin_cdp :: PluginMeta where
  "plugin_cdp = \<lparr>pm_label = ''cdp'',
    pm_args = None,
    pm_callbacks = (Some [''enablePreemptable'', ''enableReclaimable''])\<rparr>"

definition plugin_sla :: PluginMeta where
  "plugin_sla = \<lparr>pm_label = ''sla'',
    pm_args = (Some [
      arg_spec ''sla-waiting-time'' ArgString None None None]),
    pm_callbacks = (Some [''enableJobOrder'', ''enableJobPipelined'', ''enableJobEnqueued''])\<rparr>"

definition plugin_nodegroup :: PluginMeta where
  "plugin_nodegroup = \<lparr>pm_label = ''nodegroup'',
    pm_args = (Some [
      arg_spec ''strict'' ArgBool (Some (JBool True)) None None,
      arg_spec ''enablePreferredOrder'' ArgBool (Some (JBool False)) None None]),
    pm_callbacks = (Some [''enablePredicate'', ''enableNodeOrder''])\<rparr>"

definition plugin_resource_strategy_fit :: PluginMeta where
  "plugin_resource_strategy_fit = \<lparr>pm_label = ''resource-strategy-fit'',
    pm_args = (Some [
      arg_spec ''resourceStrategyFitWeight'' ArgInt (Some (JNum 10)) (Some 0) None,
      arg_spec ''sra.weight'' ArgInt None (Some 0) None,
      arg_spec ''resources'' ArgObject None None None,
      arg_spec ''proportional'' ArgObject None None None,
      arg_spec ''sra'' ArgObject None None None]),
    pm_callbacks = (Some [''enablePredicate'', ''enableNodeOrder''])\<rparr>"

definition plugin_rescheduling :: PluginMeta where
  "plugin_rescheduling = \<lparr>pm_label = ''rescheduling'',
    pm_args = (Some [
      arg_spec ''interval'' ArgString (Some (JStr ''5m'')) None None,
      arg_spec ''metricsPeriod'' ArgString (Some (JStr ''5m'')) None None,
      arg_spec ''strategies'' ArgObject None None None]),
    pm_callbacks = (Some [''enabledVictim''])\<rparr>"

definition PLUGINS_META :: "(string \<times> PluginMeta) list" where
  "PLUGINS_META = [
    (''priority'', plugin_priority),
    (''gang'', plugin_gang),
    (''conformance'', plugin_conformance),
    (''drf'', plugin_drf),
    (''proportion'', plugin_proportion),
    (''predicates'', plugin_predicates),
    (''nodeorder'', plugin_nodeorder),
    (''binpack'', plugin_binpack),
    (''overcommit'', plugin_overcommit),
    (''deviceshare'', plugin_deviceshare),
    (''tdm'', plugin_tdm),
    (''numa-aware'', plugin_numa_aware),
    (''network-topology-aware'', plugin_network_topology_aware),
    (''task-topology'', plugin_task_topology),
    (''usage'', plugin_usage),
    (''extender'', plugin_extender),
    (''capacity'', plugin_capacity),
    (''resourcequota'', plugin_resourcequota),
    (''pdb'', plugin_pdb),
    (''cdp'', plugin_cdp),
    (''sla'', plugin_sla),
    (''nodegroup'', plugin_nodegroup),
    (''resource-strategy-fit'', plugin_resource_strategy_fit),
    (''rescheduling'', plugin_rescheduling)]"

subsection \<open>Lookups\<close>

definition metaForAction :: "string \<Rightarrow> ActionMeta" where
  "metaForAction name = (case map_of ACTIONS_META name of Some m \<Rightarrow> m
     | None \<Rightarrow> \<lparr>am_label = name, am_args = None\<rparr>)"

definition metaForPlugin :: "string \<Rightarrow> PluginMeta" where
  "metaForPlugin name = (case map_of PLUGINS_META name of Some m \<Rightarrow> m
     | None \<Rightarrow> \<lparr>pm_label = name, pm_args = None, pm_callbacks = None\<rparr>)"

definition ACTION_NAMES :: "string list" where
  "ACTION_NAMES = map fst ACTIONS_META"

definition PLUGIN_NAMES :: "string list" where
  "PLUGIN_NAMES = map fst PLUGINS_META"

definition meta_arg_keys :: "PluginMeta option \<Rightarrow> string list" where
  "meta_arg_keys m = (case m of None \<Rightarrow> [] | Some p \<Rightarrow> (case pm_args p of None \<Rightarrow> [] | Some specs \<Rightarrow> map as_key specs))"

text \<open>The set of known keys, in insertion order.\<close>

definition knownPluginKeys :: "string \<Rightarrow> string list" where
  "knownPluginKeys pluginName = nub ([''name'', ''arguments''] @ ENABLE_FIELDS
     @ meta_arg_keys (map_of PLUGINS_META pluginName))"

end
