(* ===== verification/SchedulerConf.thy ===== *)
theory SchedulerConf
  imports SchedulerMeta FormDrawer
begin

text \<open>
  pages/Compute/Volcano/Scheduler.tsx, the page: the scheduler configuration
  read from volcano-scheduler-configmap, shown as a form or as YAML, edited and
  saved, and stripEmpty, which cleans the configuration before it is printed.
  The cards of the form are in SchedulerForm.

  A configuration is the JavaScript value yaml.load returned, so a shape the
  code does not expect makes an operation throw: None.  A property set to
  undefined is a property that is absent, which is how yaml.dump prints it.
  dump and load are js-yaml's, terr is the message of the engine's TypeError.
\<close>

subsection \<open>stripEmpty\<close>

text \<open>v && Object.keys(v).length > 0\<close>

definition has_entries :: "jval \<Rightarrow> bool" where
  "has_entries v \<longleftrightarrow> truthy v \<and> jentries (the v) \<noteq> []"

definition strip_plugin :: "json \<Rightarrow> json option" where
  "strip_plugin p =
    (if p = JNull then None
     else Some (JObj (AList.delete ''arguments'' (jentries p) @
       (if has_entries (jget ''arguments'' p) then [(''arguments'', the (jget ''arguments'' p))] else []))))"

definition strip_tier :: "json \<Rightarrow> json option" where
  "strip_tier t =
    (if t = JNull then None
     else case as_array (coalesce (jget ''plugins'' t) (Some (JArr []))) of
       None \<Rightarrow> None
     | Some ps \<Rightarrow> map_option (\<lambda>qs. JObj [(''plugins'', JArr qs)]) (those (map strip_plugin ps)))"

definition strip_tiers :: "obj \<Rightarrow> obj option" where
  "strip_tiers out =
    (if \<not> truthy (map_of out ''tiers'') then Some out
     else case as_array (map_of out ''tiers'') of
       None \<Rightarrow> None
     | Some ts \<Rightarrow> map_option (\<lambda>us. AList.update ''tiers'' (JArr us) out) (those (map strip_tier ts)))"

definition strip_configuration :: "json \<Rightarrow> json option" where
  "strip_configuration c =
    (if c = JNull then None
     else Some (if has_entries (jget ''arguments'' c) then c
                else JObj (prop_opt ''name'' (jget ''name'' c))))"

definition strip_configurations :: "obj \<Rightarrow> obj option" where
  "strip_configurations out =
    (if \<not> truthy (map_of out ''configurations'') then Some out
     else case as_array (map_of out ''configurations'') of
       None \<Rightarrow> None
     | Some cs \<Rightarrow> map_option (\<lambda>ds. AList.update ''configurations''
           (JArr (filter (\<lambda>c. truthy (jget ''name'' c)) ds)) out)
         (those (map strip_configuration cs)))"

definition drop_bare_configurations :: "obj \<Rightarrow> obj option" where
  "drop_bare_configurations out =
    (if nullish (map_of out ''configurations'') then Some out
     else case as_array (map_of out ''configurations'') of
       None \<Rightarrow> None
     | Some cs \<Rightarrow> Some (if list_all (\<lambda>c. \<not> truthy (jget ''arguments'' c)) cs
         then AList.delete ''configurations'' out else out))"

definition strip_metrics :: "obj \<Rightarrow> obj" where
  "strip_metrics out =
    (if truthy (map_of out ''metrics'') \<and> \<not> has_entries (map_of out ''metrics'')
     then AList.delete ''metrics'' out else out)"

definition stripEmpty :: "json \<Rightarrow> json option" where
  "stripEmpty conf =
    Option.bind (strip_tiers (jentries conf)) (\<lambda>a.
    Option.bind (strip_configurations a) (\<lambda>b.
    map_option (\<lambda>c. JObj (strip_metrics c)) (drop_bare_configurations b)))"

subsection \<open>The page\<close>

record sched_page =
  sp_cm :: jval
  sp_view :: drawer_view
  sp_draft :: json
  sp_yamlText :: string
  sp_yamlError :: "string option"
  sp_saving :: bool
  sp_editing :: bool

definition empty_conf :: json where
  "empty_conf = JObj [(''actions'', JStr []), (''tiers'', JArr [])]"

definition sched_init :: sched_page where
  "sched_init = \<lparr>sp_cm = None, sp_view = FormView, sp_draft = empty_conf, sp_yamlText = [],
     sp_yamlError = None, sp_saving = False, sp_editing = False\<rparr>"

definition conf_text :: "jval \<Rightarrow> jval" where
  "conf_text cm = coalesce (coalesce (oget ''volcano-scheduler.conf'' (oget ''data'' cm))
     (oget ''volcano-scheduler.yaml'' (oget ''data'' cm))) (Some (JStr []))"

definition parse_conf :: "(string \<Rightarrow> string + jval) \<Rightarrow> jval \<Rightarrow> json" where
  "parse_conf load text =
    (case as_str text of
       None \<Rightarrow> empty_conf
     | Some t \<Rightarrow> if trim t = [] then empty_conf
         else (case load t of Inl e \<Rightarrow> empty_conf | Inr v \<Rightarrow> the (coalesce v (Some empty_conf))))"

definition raw_text :: "jval \<Rightarrow> string" where
  "raw_text text = (case as_str text of None \<Rightarrow> [] | Some t \<Rightarrow> t)"

text \<open>The effect on cm.data.\<close>

definition load_effect :: "(string \<Rightarrow> string + jval) \<Rightarrow> sched_page \<Rightarrow> sched_page" where
  "load_effect load p =
    (if \<not> truthy (sp_cm p) \<or> sp_editing p then p
     else p\<lparr>sp_draft := parse_conf load (conf_text (sp_cm p)), sp_yamlText := raw_text (conf_text (sp_cm p)),
            sp_yamlError := None, sp_view := FormView, sp_editing := False\<rparr>)"

definition cancelEdit :: "(string \<Rightarrow> string + jval) \<Rightarrow> sched_page \<Rightarrow> sched_page" where
  "cancelEdit load p =
    p\<lparr>sp_draft := parse_conf load (conf_text (sp_cm p)), sp_yamlText := raw_text (conf_text (sp_cm p)),
      sp_yamlError := None, sp_editing := False\<rparr>"

definition sched_switch :: "(json \<Rightarrow> string) \<Rightarrow> (string \<Rightarrow> string + jval) \<Rightarrow> string \<Rightarrow> drawer_view \<Rightarrow>
    sched_page \<Rightarrow> sched_page" where
  "sched_switch dump load terr next p =
    (if next = sp_view p then p
     else if next = YamlView then
       (case stripEmpty (sp_draft p) of
          None \<Rightarrow> p\<lparr>sp_yamlError := Some terr\<rparr>
        | Some c \<Rightarrow> p\<lparr>sp_yamlText := dump c, sp_yamlError := None, sp_view := YamlView\<rparr>)
     else
       (case load (sp_yamlText p) of
          Inl e \<Rightarrow> p\<lparr>sp_yamlError := Some e\<rparr>
        | Inr v \<Rightarrow> p\<lparr>sp_draft := the (coalesce v (Some empty_conf)), sp_yamlError := None,
                    sp_view := FormView\<rparr>))"

text \<open>save up to the request, and the rest of it once the answer is there (None
  when the request is rejected); ns is the namespace the status probe found.\<close>

datatype save_step = SaveIgnored | SaveThrows | SaveInvalid string | SaveApply json

definition sched_manifest :: "string \<Rightarrow> string \<Rightarrow> jval \<Rightarrow> json" where
  "sched_manifest ns t cm =
    JObj [(''apiVersion'', JStr ''v1''), (''kind'', JStr ''ConfigMap''),
          (''metadata'', JObj [(''name'', JStr ''volcano-scheduler-configmap''), (''namespace'', JStr ns)]),
          (''data'', JObj (AList.update ''volcano-scheduler.conf'' (JStr t)
             (jentries (the (coalesce (oget ''data'' cm) (Some (JObj [])))))))]"

definition sched_text :: "(json \<Rightarrow> string) \<Rightarrow> sched_page \<Rightarrow> string option" where
  "sched_text dump p = (if sp_view p = YamlView then Some (sp_yamlText p)
     else map_option dump (stripEmpty (sp_draft p)))"

definition save_request :: "(json \<Rightarrow> string) \<Rightarrow> (string \<Rightarrow> string + jval) \<Rightarrow> string option \<Rightarrow>
    sched_page \<Rightarrow> save_step" where
  "save_request dump load ns p =
    (if \<not> truthy (sp_cm p) \<or> ns = None \<or> ns = Some [] then SaveIgnored
     else case sched_text dump p of
       None \<Rightarrow> SaveThrows
     | Some t \<Rightarrow> (case load t of
         Inl e \<Rightarrow> SaveInvalid e
       | Inr v \<Rightarrow> SaveApply (sched_manifest (the ns) t (sp_cm p))))"

definition save_finish :: "ApplyYamlResult list option \<Rightarrow> sched_page \<Rightarrow> sched_page" where
  "save_finish res p =
    (if apply_finish res = Saved then p\<lparr>sp_editing := False, sp_saving := False\<rparr>
     else p\<lparr>sp_saving := False\<rparr>)"

text \<open>What the user and the server can do to the page, with the conditions under
  which the page shows the control: Cancel and Save only while editing, Cancel
  not while saving, the fields and the text only while editing in their view.\<close>

datatype sched_event =
    Fetched jval
  | SwitchTo drawer_view
  | StartEdit
  | CancelEdit
  | EditForm json
  | EditText string
  | StartSave
  | EndSave "ApplyYamlResult list option"

inductive sched_step :: "(json \<Rightarrow> string) \<Rightarrow> (string \<Rightarrow> string + jval) \<Rightarrow> string \<Rightarrow> string option \<Rightarrow>
    sched_event \<Rightarrow> sched_page \<Rightarrow> sched_page \<Rightarrow> bool"
  for dump load terr ns where
  step_fetched: "sched_step dump load terr ns (Fetched d) p (load_effect load (p\<lparr>sp_cm := d\<rparr>))"
| step_switch: "sched_step dump load terr ns (SwitchTo v) p (sched_switch dump load terr v p)"
| step_edit: "\<not> sp_editing p \<Longrightarrow> sched_step dump load terr ns StartEdit p (p\<lparr>sp_editing := True\<rparr>)"
| step_cancel: "sp_editing p \<Longrightarrow> \<not> sp_saving p \<Longrightarrow>
    sched_step dump load terr ns CancelEdit p (cancelEdit load p)"
| step_form: "sp_editing p \<Longrightarrow> sp_view p = FormView \<Longrightarrow>
    sched_step dump load terr ns (EditForm c) p (p\<lparr>sp_draft := c\<rparr>)"
| step_text: "sp_editing p \<Longrightarrow> sp_view p = YamlView \<Longrightarrow>
    sched_step dump load terr ns (EditText t) p (p\<lparr>sp_yamlText := t\<rparr>)"
| step_save: "sp_editing p \<Longrightarrow> \<not> sp_saving p \<Longrightarrow> save_request dump load ns p = SaveApply m \<Longrightarrow>
    sched_step dump load terr ns StartSave p (p\<lparr>sp_saving := True\<rparr>)"
| step_saved: "sp_saving p \<Longrightarrow> sched_step dump load terr ns (EndSave res) p (save_finish res p)"

inductive sched_run :: "(json \<Rightarrow> string) \<Rightarrow> (string \<Rightarrow> string + jval) \<Rightarrow> string \<Rightarrow> string option \<Rightarrow>
    sched_event list \<Rightarrow> sched_page \<Rightarrow> sched_page \<Rightarrow> bool"
  for dump load terr ns where
  run_nil: "sched_run dump load terr ns [] p p"
| run_snoc: "sched_run dump load terr ns es p q \<Longrightarrow> sched_step dump load terr ns e q r \<Longrightarrow>
    sched_run dump load terr ns (es @ [e]) p r"

inductive_cases sched_stepE: "sched_step dump load terr ns e p q"


subsection \<open>What a configuration means to the scheduler\<close>

text \<open>The reading of a configuration that stripEmpty is to respect: an absent map
  and an empty one are the same, a tier is the list of its plugins, a plugin the
  values of its keys, and an action's arguments those of its entry.\<close>

record sched_meaning =
  sm_fields :: "string \<Rightarrow> jval"
  sm_tiers :: "(string \<Rightarrow> jval) list list"
  sm_args :: "json \<Rightarrow> obj"
  sm_metrics :: obj

definition entries_or_none :: "jval \<Rightarrow> obj" where
  "entries_or_none v = (if has_entries v then jentries (the v) else [])"

definition array_or_none :: "jval \<Rightarrow> json list" where
  "array_or_none v = (case as_array v of None \<Rightarrow> [] | Some xs \<Rightarrow> xs)"

definition plugin_meaning :: "json \<Rightarrow> string \<Rightarrow> jval" where
  "plugin_meaning p k =
    (if k = ''arguments'' then (if has_entries (jget k p) then jget k p else None)
     else map_of (jentries p) k)"

definition tier_meaning :: "json \<Rightarrow> (string \<Rightarrow> jval) list" where
  "tier_meaning t = map plugin_meaning (array_or_none (jget ''plugins'' t))"

definition args_meaning :: "json list \<Rightarrow> json \<Rightarrow> obj" where
  "args_meaning cs n =
    (if \<not> truthy_json n then []
     else case List.find (\<lambda>c. jget ''name'' c = Some n) cs of
       None \<Rightarrow> [] | Some c \<Rightarrow> entries_or_none (jget ''arguments'' c))"

definition obj_meaning :: "obj \<Rightarrow> sched_meaning" where
  "obj_meaning out = \<lparr>
     sm_fields = (\<lambda>k. if k \<in> {''tiers'', ''configurations'', ''metrics''} then None else map_of out k),
     sm_tiers = map tier_meaning (array_or_none (map_of out ''tiers'')),
     sm_args = args_meaning (array_or_none (map_of out ''configurations'')),
     sm_metrics = entries_or_none (map_of out ''metrics'')\<rparr>"

definition conf_meaning :: "json \<Rightarrow> sched_meaning" where
  "conf_meaning conf = obj_meaning (jentries conf)"

lemma jget_entries: "jget k p = (case p of JObj ps \<Rightarrow> map_of ps k | _ \<Rightarrow> None)"
  by (cases p) auto

lemma has_entries_None [simp]: "\<not> has_entries None"
  by (simp add: has_entries_def)

lemma has_entries_truthy: "has_entries v \<Longrightarrow> truthy v"
  by (simp add: has_entries_def)

lemma array_or_none_simps [simp]:
  "array_or_none None = []" "array_or_none (Some (JArr xs)) = xs"
  by (simp_all add: array_or_none_def)

lemma array_or_none_falsy: "\<not> truthy v \<Longrightarrow> array_or_none v = []"
  by (cases v rule: as_array.cases) (auto simp: array_or_none_def)

lemma array_coalesce:
  "as_array (coalesce v (Some (JArr []))) = Some ps \<Longrightarrow> array_or_none v = ps"
  by (cases v rule: nullish.cases) (auto simp: coalesce_def array_or_none_def split: if_splits)

subsection \<open>stripEmpty keeps the meaning\<close>

lemma has_entries_the [simp]: "has_entries v \<Longrightarrow> Some (the v) = v"
  by (simp add: has_entries_def)

lemma delete_fresh: "map_of ps k = None \<Longrightarrow> AList.delete k ps = ps"
  by (induction ps) (auto split: if_splits)

lemma strip_plugin_meaning: "strip_plugin p = Some q \<Longrightarrow> plugin_meaning q = plugin_meaning p"
  by (rule ext) (auto simp: strip_plugin_def plugin_meaning_def map_of_app delete_conv'
      split: if_splits)

lemma strip_plugin_fixpoint:
  assumes "strip_plugin p = Some q"
  shows "strip_plugin q = Some q"
proof (cases "has_entries (jget ''arguments'' p)")
  case True
  then show ?thesis using assms
    by (auto simp: strip_plugin_def map_of_app delete_conv' delete_append delete_fresh split: if_splits)
next
  case False
  then show ?thesis using assms
    by (auto simp: strip_plugin_def delete_conv' delete_fresh split: if_splits)
qed

lemma strip_tier_meaning: "strip_tier t = Some u \<Longrightarrow> tier_meaning u = tier_meaning t"
  by (auto simp: strip_tier_def tier_meaning_def those_map_Some array_coalesce
      split: if_splits option.splits intro!: map_eq_of_list_all2 strip_plugin_meaning[symmetric])

lemma strip_tier_fixpoint: "strip_tier t = Some u \<Longrightarrow> strip_tier u = Some u"
  by (auto simp: strip_tier_def those_map_Some split: if_splits option.splits
      dest!: list_all2_self_fixpoint[OF _ strip_plugin_fixpoint])

lemma strip_tiers_cases:
  assumes "strip_tiers out = Some a"
  obtains "\<not> truthy (map_of out ''tiers'')" "a = out"
  | ts us where "map_of out ''tiers'' = Some (JArr ts)" "list_all2 (\<lambda>t u. strip_tier t = Some u) ts us"
      "a = AList.update ''tiers'' (JArr us) out"
proof (cases "truthy (map_of out ''tiers'')")
  case True
  then obtain ts where ts: "map_of out ''tiers'' = Some (JArr ts)"
    using assms by (auto simp: strip_tiers_def simp del: truthy.simps split: option.splits)
  moreover obtain us where "those (map strip_tier ts) = Some us" "a = AList.update ''tiers'' (JArr us) out"
    using assms True ts by (auto simp: strip_tiers_def)
  ultimately show ?thesis using that(2) by (simp add: those_map_Some)
next
  case False
  then have "a = out" using assms by (simp add: strip_tiers_def)
  with False show ?thesis by (rule that(1))
qed

lemma strip_tiers_meaning: "strip_tiers out = Some a \<Longrightarrow> obj_meaning a = obj_meaning out"
proof (erule strip_tiers_cases)
  fix ts us
  assume m: "map_of out ''tiers'' = Some (JArr ts)" and r: "list_all2 (\<lambda>t u. strip_tier t = Some u) ts us"
    and a: "a = AList.update ''tiers'' (JArr us) out"
  have "map tier_meaning us = map tier_meaning ts"
    using r by (rule map_eq_of_list_all2) (rule strip_tier_meaning[symmetric])
  with m a show ?thesis by (auto simp: obj_meaning_def update_conv')
qed simp

lemma strip_tiers_fixpoint:
  assumes "strip_tiers out = Some a" "map_of b ''tiers'' = map_of a ''tiers''"
  shows "strip_tiers b = Some b"
  using assms(1)
proof (rule strip_tiers_cases)
  assume "\<not> truthy (map_of out ''tiers'')" "a = out"
  then show ?thesis using assms(2) by (simp add: strip_tiers_def)
next
  fix ts us
  assume m: "map_of out ''tiers'' = Some (JArr ts)" and r: "list_all2 (\<lambda>t u. strip_tier t = Some u) ts us"
    and a: "a = AList.update ''tiers'' (JArr us) out"
  have "those (map strip_tier us) = Some us"
    using r by (rule list_all2_self_fixpoint) (rule strip_tier_fixpoint)
  then show ?thesis using assms(2) a by (simp add: strip_tiers_def update_conv' update_same)
qed


text \<open>The configurations: entries without arguments are reduced to their name and
  then dropped when no entry has any.\<close>

definition strip_entry :: "json \<Rightarrow> json" where
  "strip_entry c = (if has_entries (jget ''arguments'' c) then c
     else JObj (prop_opt ''name'' (jget ''name'' c)))"

lemma strip_configuration_eq:
  "strip_configuration c = (if c = JNull then None else Some (strip_entry c))"
  by (simp add: strip_configuration_def strip_entry_def)

lemma strip_entry_name [simp]: "jget ''name'' (strip_entry c) = jget ''name'' c"
  by (simp add: strip_entry_def)

lemma strip_entry_args:
  "jget ''arguments'' (strip_entry c) = (if has_entries (jget ''arguments'' c) then jget ''arguments'' c else None)"
  by (auto simp: strip_entry_def)

lemma strip_entry_idem [simp]: "strip_entry (strip_entry c) = strip_entry c"
  unfolding strip_entry_def[of "strip_entry c"]
  by (auto simp: strip_entry_args) (simp_all add: strip_entry_def)

lemma strip_entry_not_null: "c \<noteq> JNull \<Longrightarrow> strip_entry c \<noteq> JNull"
  by (simp add: strip_entry_def)

lemma those_strip_configurations:
  "those (map strip_configuration cs) = (if JNull \<in> set cs then None else Some (map strip_entry cs))"
  by (induction cs) (auto simp: strip_configuration_eq)

definition named :: "json list \<Rightarrow> json list" where
  "named cs = filter (\<lambda>c. truthy (jget ''name'' c)) cs"

lemma strip_configurations_cases:
  assumes "strip_configurations out = Some a"
  obtains "\<not> truthy (map_of out ''configurations'')" "a = out"
  | cs where "map_of out ''configurations'' = Some (JArr cs)" "JNull \<notin> set cs"
      "a = AList.update ''configurations'' (JArr (named (map strip_entry cs))) out"
proof (cases "truthy (map_of out ''configurations'')")
  case True
  then obtain cs where cs: "map_of out ''configurations'' = Some (JArr cs)"
    using assms by (auto simp: strip_configurations_def simp del: truthy.simps split: option.splits)
  with assms True that(2) show ?thesis
    by (auto simp: strip_configurations_def those_strip_configurations named_def split: if_splits)
next
  case False
  then have "a = out" using assms by (simp add: strip_configurations_def)
  with False show ?thesis by (rule that(1))
qed

lemma find_named:
  "truthy_json n \<Longrightarrow> List.find (\<lambda>c. jget ''name'' c = Some n) (named cs) = List.find (\<lambda>c. jget ''name'' c = Some n) cs"
  by (induction cs) (auto simp: named_def)

lemma find_strip_entry:
  "List.find (\<lambda>c. jget ''name'' c = n) (map strip_entry cs) =
   map_option strip_entry (List.find (\<lambda>c. jget ''name'' c = n) cs)"
  by (induction cs) auto

lemma args_meaning_strip: "args_meaning (named (map strip_entry cs)) = args_meaning cs"
  by (rule ext) (simp add: args_meaning_def find_named find_strip_entry entries_or_none_def
      strip_entry_args split: option.splits)

lemma strip_configurations_meaning:
  "strip_configurations out = Some a \<Longrightarrow> obj_meaning a = obj_meaning out"
  by (erule strip_configurations_cases) (auto simp: obj_meaning_def update_conv' args_meaning_strip)

lemma args_meaning_bare:
  assumes "list_all (\<lambda>c. \<not> truthy (jget ''arguments'' c)) cs"
  shows "args_meaning cs = args_meaning []"
proof
  fix n
  have "entries_or_none (jget ''arguments'' c) = []" if "c \<in> set cs" for c
    using assms that has_entries_truthy[of "jget ''arguments'' c"]
    by (auto simp: list_all_iff entries_or_none_def simp del: truthy.simps)
  moreover have "c \<in> set cs" if "List.find P cs = Some c" for P c
    using that by (auto simp: find_Some_iff)
  ultimately show "args_meaning cs n = args_meaning [] n"
    by (simp add: args_meaning_def split: option.splits)
qed

lemma drop_bare_cases:
  assumes d: "drop_bare_configurations out = Some a"
  obtains "a = out"
  | cs where "map_of out ''configurations'' = Some (JArr cs)"
      "list_all (\<lambda>c. \<not> truthy (jget ''arguments'' c)) cs" "a = AList.delete ''configurations'' out"
proof (cases "a = out")
  case False
  then obtain cs where "map_of out ''configurations'' = Some (JArr cs)"
    using d by (auto simp: drop_bare_configurations_def split: if_splits option.splits)
  moreover from this have "list_all (\<lambda>c. \<not> truthy (jget ''arguments'' c)) cs
      \<and> a = AList.delete ''configurations'' out"
    using d False by (auto simp: drop_bare_configurations_def split: if_splits)
  ultimately show ?thesis using that(2) by blast
qed (rule that(1))

lemma drop_bare_meaning: "drop_bare_configurations out = Some a \<Longrightarrow> obj_meaning a = obj_meaning out"
proof (erule drop_bare_cases)
  fix cs
  assume m: "map_of out ''configurations'' = Some (JArr cs)" "a = AList.delete ''configurations'' out"
    and b: "list_all (\<lambda>c. \<not> truthy (jget ''arguments'' c)) cs"
  show ?thesis by (auto simp: obj_meaning_def m delete_conv' args_meaning_bare[OF b])
qed simp

lemma strip_metrics_meaning: "obj_meaning (strip_metrics out) = obj_meaning out"
proof (cases "truthy (map_of out ''metrics'') \<and> \<not> has_entries (map_of out ''metrics'')")
  case True
  then have "entries_or_none (map_of out ''metrics'') = []" by (simp add: entries_or_none_def)
  with True show ?thesis
    by (simp add: obj_meaning_def strip_metrics_def delete_conv' entries_or_none_def fun_eq_iff)
next
  case False
  then have "strip_metrics out = out" unfolding strip_metrics_def by (rule if_not_P)
  then show ?thesis by simp
qed

lemma stripEmptyE:
  assumes "stripEmpty conf = Some out"
  obtains a b c where "strip_tiers (jentries conf) = Some a" "strip_configurations a = Some b"
    "drop_bare_configurations b = Some c" "out = JObj (strip_metrics c)"
proof -
  from assms obtain a b c where "strip_tiers (jentries conf) = Some a" "strip_configurations a = Some b"
    "drop_bare_configurations b = Some c" "JObj (strip_metrics c) = out"
    unfolding stripEmpty_def bind_eq_Some_iff map_option_eq_Some by blast
  then show thesis by (intro that) (assumption | erule sym)+
qed

lemma stripEmpty_meaning: "stripEmpty conf = Some out \<Longrightarrow> conf_meaning out = conf_meaning conf"
  by (erule stripEmptyE) (simp add: conf_meaning_def strip_metrics_meaning drop_bare_meaning
      strip_configurations_meaning strip_tiers_meaning)

subsection \<open>stripEmpty is a fixpoint of itself\<close>

lemma strip_configurations_fixpoint:
  assumes "strip_configurations out = Some a" "map_of b ''configurations'' = map_of a ''configurations''"
  shows "strip_configurations b = Some b"
  using assms(1)
proof (rule strip_configurations_cases)
  assume "\<not> truthy (map_of out ''configurations'')" "a = out"
  then show ?thesis using assms(2) by (simp add: strip_configurations_def)
next
  fix cs
  assume cs: "JNull \<notin> set cs" and a: "a = AList.update ''configurations'' (JArr (named (map strip_entry cs))) out"
  let ?n = "named (map strip_entry cs)"
  have "JNull \<notin> set ?n" using cs by (auto simp: named_def dest: sym strip_entry_not_null)
  moreover have "named (map strip_entry ?n) = ?n"
    by (auto simp: named_def filter_map o_def intro!: map_idI)
  ultimately show ?thesis
    using assms(2) a by (simp add: strip_configurations_def those_strip_configurations update_conv'
        update_same flip: named_def)
qed

lemma strip_configurations_absent:
  "map_of b ''configurations'' = None \<Longrightarrow> strip_configurations b = Some b"
  by (simp add: strip_configurations_def)

lemma drop_bare_fixpoint:
  assumes "drop_bare_configurations out = Some a" "map_of b ''configurations'' = map_of a ''configurations''"
  shows "drop_bare_configurations b = Some b"
  using assms by (auto simp: drop_bare_configurations_def delete_conv' split: if_splits option.splits)

text \<open>The steps do not touch each other's keys.\<close>

lemma strip_tiers_frame: "strip_tiers out = Some a \<Longrightarrow> k \<noteq> ''tiers'' \<Longrightarrow> map_of a k = map_of out k"
  by (erule strip_tiers_cases) (auto simp: update_conv')

lemma strip_configurations_frame:
  "strip_configurations out = Some a \<Longrightarrow> k \<noteq> ''configurations'' \<Longrightarrow> map_of a k = map_of out k"
  by (erule strip_configurations_cases) (auto simp: update_conv')

lemma drop_bare_frame:
  "drop_bare_configurations out = Some a \<Longrightarrow> k \<noteq> ''configurations'' \<Longrightarrow> map_of a k = map_of out k"
  by (erule drop_bare_cases) (auto simp: delete_conv')

lemma strip_metrics_frame: "k \<noteq> ''metrics'' \<Longrightarrow> map_of (strip_metrics out) k = map_of out k"
  by (simp add: strip_metrics_def delete_conv')

lemma strip_metrics_idem: "strip_metrics (strip_metrics out) = strip_metrics out"
  by (auto simp: strip_metrics_def delete_conv')

lemma stripEmpty_fixpoint:
  assumes "stripEmpty conf = Some out"
  shows "stripEmpty out = Some out"
  using assms
proof (rule stripEmptyE)
  fix a b c
  assume s: "strip_tiers (jentries conf) = Some a" "strip_configurations a = Some b"
    "drop_bare_configurations b = Some c" "out = JObj (strip_metrics c)"
  let ?o = "strip_metrics c"
  have t: "map_of ?o ''tiers'' = map_of a ''tiers''"
    using s by (simp add: strip_metrics_frame drop_bare_frame strip_configurations_frame)
  have k: "map_of ?o ''configurations'' = map_of c ''configurations''"
    by (simp add: strip_metrics_frame)
  have "strip_tiers ?o = Some ?o" using s(1) t by (rule strip_tiers_fixpoint)
  moreover have "drop_bare_configurations ?o = Some ?o" using s(3) k by (rule drop_bare_fixpoint)
  moreover have "strip_configurations ?o = Some ?o"
    using s(3)
  proof (rule drop_bare_cases)
    assume "c = b"
    with s(2) k show ?thesis by (metis strip_configurations_fixpoint)
  next
    fix cs assume "c = AList.delete ''configurations'' b"
    then show ?thesis using k by (simp add: strip_configurations_absent delete_conv')
  qed
  ultimately show ?thesis using s(4) by (simp add: stripEmpty_def strip_metrics_idem)
qed


text \<open>C6. Cleaning a configuration before it is printed keeps what it means to the
  scheduler: every top-level key but the three it cleans, the tiers in order with
  every plugin and all keys of each, every action's arguments and the metrics, an
  empty map counting as an absent one.  Cleaning the result again changes
  nothing, so the form and the YAML view agree however often the user switches.\<close>

theorem stripEmpty_keeps_meaning:
  assumes "stripEmpty conf = Some out"
  shows "conf_meaning out = conf_meaning conf \<and> stripEmpty out = Some out"
  using assms by (simp add: stripEmpty_meaning stripEmpty_fixpoint)

definition sample_conf :: json where
  "sample_conf = JObj [(''actions'', JStr ''enqueue, allocate''),
     (''tiers'', JArr [JObj [(''plugins'', JArr [
        JObj [(''name'', JStr ''gang''), (''arguments'', JObj []), (''enablePreemptable'', JBool False)],
        JObj [(''name'', JStr ''binpack''), (''arguments'', JObj [(''binpack.weight'', JNum 5)])]])]]),
     (''configurations'', JArr [JObj [(''name'', JStr ''allocate''), (''arguments'', JObj [])]]),
     (''metrics'', JObj [])]"

definition sample_stripped :: json where
  "sample_stripped = JObj [(''actions'', JStr ''enqueue, allocate''),
     (''tiers'', JArr [JObj [(''plugins'', JArr [
        JObj [(''name'', JStr ''gang''), (''enablePreemptable'', JBool False)],
        JObj [(''name'', JStr ''binpack''), (''arguments'', JObj [(''binpack.weight'', JNum 5)])]])]])]"

lemma sample_conf_stripped: "stripEmpty sample_conf = Some sample_stripped"
  by code_simp

lemma stripEmpty_keeps_meaning_witness:
  "conf_meaning sample_stripped = conf_meaning sample_conf \<and> stripEmpty sample_stripped = Some sample_stripped"
  by (rule stripEmpty_keeps_meaning) (rule sample_conf_stripped)

subsection \<open>Reachable pages\<close>

lemma sched_run_append:
  "sched_run dump load terr ns es' q r \<Longrightarrow> sched_run dump load terr ns es p q \<Longrightarrow>
   sched_run dump load terr ns (es @ es') p r"
  by (induction rule: sched_run.induct) (auto intro: sched_run.intros simp flip: append_assoc)

lemma sched_run_invariant:
  assumes "sched_run dump load terr ns es p q" "I p" "list_all P es"
    and step: "\<And>e p q. sched_step dump load terr ns e p q \<Longrightarrow> P e \<Longrightarrow> I p \<Longrightarrow> I q"
  shows "I q"
  using assms(1-3) by (induction rule: sched_run.induct) (auto intro: step)

text \<open>The frames of the operations, on the parts an invariant reads.\<close>

lemma load_effect_frame [simp]:
  "sp_cm (load_effect load p) = sp_cm p" "sp_saving (load_effect load p) = sp_saving p"
  "sp_editing (load_effect load p) = sp_editing p"
  "sp_editing p \<Longrightarrow> load_effect load p = p"
  by (auto simp: load_effect_def)

lemma cancelEdit_frame [simp]:
  "sp_cm (cancelEdit load p) = sp_cm p" "sp_saving (cancelEdit load p) = sp_saving p"
  "sp_view (cancelEdit load p) = sp_view p" "\<not> sp_editing (cancelEdit load p)"
  by (auto simp: cancelEdit_def)

lemma sched_switch_frame [simp]:
  "sp_cm (sched_switch dump load terr v p) = sp_cm p"
  "sp_saving (sched_switch dump load terr v p) = sp_saving p"
  "sp_editing (sched_switch dump load terr v p) = sp_editing p"
  by (auto simp: sched_switch_def split: option.splits sum.splits)

lemma save_finish_frame [simp]:
  "sp_cm (save_finish res p) = sp_cm p" "\<not> sp_saving (save_finish res p)"
  "sp_view (save_finish res p) = sp_view p" "sp_draft (save_finish res p) = sp_draft p"
  "sp_yamlText (save_finish res p) = sp_yamlText p"
  "sp_editing (save_finish res p) = (sp_editing p \<and> apply_finish res \<noteq> Saved)"
  by (auto simp: save_finish_def)

text \<open>The text the page would save stands for the configuration c.\<close>

definition stands_for :: "(json \<Rightarrow> string) \<Rightarrow> (string \<Rightarrow> string + jval) \<Rightarrow> json \<Rightarrow> sched_page \<Rightarrow> bool" where
  "stands_for dump load c p \<longleftrightarrow>
    (if sp_view p = FormView then stripEmpty (sp_draft p) = Some c
     else \<exists>j. load (sp_yamlText p) = Inr (Some j) \<and> j \<noteq> JNull \<and> stripEmpty j = Some c)"

definition looking :: "jval \<Rightarrow> sched_event \<Rightarrow> bool" where
  "looking cm e = (case e of Fetched d \<Rightarrow> d = cm | EditForm _ \<Rightarrow> False | EditText _ \<Rightarrow> False | _ \<Rightarrow> True)"

lemma stripEmpty_object: "stripEmpty j = Some c \<Longrightarrow> c \<noteq> JNull"
  by (erule stripEmptyE) simp

lemma parse_conf_text:
  "trim t \<noteq> [] \<Longrightarrow> load t = Inr (Some j) \<Longrightarrow> j \<noteq> JNull \<Longrightarrow> parse_conf load (Some (JStr t)) = j"
  by (simp add: parse_conf_def)

lemma stands_for_switch:
  assumes "stands_for dump load c p" "load (dump c) = Inr (Some c)"
  shows "stands_for dump load c (sched_switch dump load terr v p)"
proof (cases "sp_view p")
  case FormView
  with assms show ?thesis
    by (cases v) (auto simp: stands_for_def sched_switch_def stripEmpty_object stripEmpty_fixpoint)
next
  case YamlView
  with assms show ?thesis
    by (cases v) (auto simp: stands_for_def sched_switch_def coalesce_def)
qed

lemma looking_step:
  assumes "sched_step dump load terr ns e p q" "looking cm e" "sp_cm p = cm \<and> stands_for dump load c p"
    and tx: "conf_text cm = Some (JStr t)" "trim t \<noteq> []" "load t = Inr (Some j)" "j \<noteq> JNull"
    and c: "stripEmpty j = Some c" "load (dump c) = Inr (Some c)"
  shows "sp_cm q = cm \<and> stands_for dump load c q"
  using assms(1)
proof cases
  case (step_fetched d)
  then have d: "d = cm" using assms(2) by (simp add: looking_def)
  show ?thesis
    using assms(3) tx c unfolding step_fetched d
    by (auto simp: load_effect_def stands_for_def parse_conf_text)
next
  case (step_switch v)
  then show ?thesis using assms(3) c(2) by (simp add: stands_for_switch)
next
  case step_cancel
  show ?thesis
    using assms(3) tx c unfolding step_cancel
    by (auto simp: cancelEdit_def stands_for_def parse_conf_text raw_text_def)
next
  case (step_saved res)
  then show ?thesis using assms(3) by (simp add: stands_for_def)
qed (use assms(2,3) in \<open>auto simp: looking_def stands_for_def\<close>)

lemma stands_for_saved:
  assumes "stands_for dump load c p" "load (dump c) = Inr (Some c)" "truthy (sp_cm p)" "ns \<noteq> []"
  shows "\<exists>t j. save_request dump load (Some ns) p = SaveApply (sched_manifest ns t (sp_cm p)) \<and>
    load t = Inr (Some j) \<and> stripEmpty j = Some c"
proof (cases "sp_view p")
  case FormView
  then show ?thesis using assms stripEmpty_fixpoint[of "sp_draft p" c]
    by (auto simp: stands_for_def save_request_def sched_text_def)
next
  case YamlView
  then show ?thesis using assms by (auto simp: stands_for_def save_request_def sched_text_def)
qed

lemma load_effect_stands_for:
  assumes "conf_text cm = Some (JStr t)" "trim t \<noteq> []" "load t = Inr (Some j)" "j \<noteq> JNull"
    "stripEmpty j = Some c" "truthy cm" "\<not> sp_editing p"
  shows "stands_for dump load c (load_effect load (p\<lparr>sp_cm := cm\<rparr>))"
  using assms by (simp add: load_effect_def stands_for_def parse_conf_text)


text \<open>C8. Looking changes nothing.  After a configuration is loaded, any number of
  view switches, starts and cancels of an edit, saves without an edit and
  refreshes that bring the same ConfigMap leaves a page whose save writes a text
  that parses to a configuration with the meaning of the loaded one, for a YAML
  library that reads back what it prints.\<close>

theorem looking_changes_nothing:
  assumes run: "sched_run dump load terr (Some ns) es (load_effect load (p\<lparr>sp_cm := cm\<rparr>)) q"
    and es: "list_all (looking cm) es"
    and p: "\<not> sp_editing p" "truthy cm" "ns \<noteq> []"
    and tx: "conf_text cm = Some (JStr t)" "trim t \<noteq> []" "load t = Inr (Some j)" "j \<noteq> JNull"
    and c: "stripEmpty j = Some c" "load (dump c) = Inr (Some c)"
  shows "\<exists>u k. save_request dump load (Some ns) q = SaveApply (sched_manifest ns u cm) \<and>
    load u = Inr (Some k) \<and> conf_meaning k = conf_meaning j"
proof -
  have "sp_cm q = cm \<and> stands_for dump load c q"
    using run _ es
  proof (rule sched_run_invariant)
    show "sp_cm (load_effect load (p\<lparr>sp_cm := cm\<rparr>)) = cm \<and>
        stands_for dump load c (load_effect load (p\<lparr>sp_cm := cm\<rparr>))"
      using load_effect_stands_for[of cm t load j c p dump] tx c(1) p by simp
    show "sp_cm s = cm \<and> stands_for dump load c s"
      if "sched_step dump load terr (Some ns) e r s" "looking cm e" "sp_cm r = cm \<and> stands_for dump load c r"
      for e r s
      using looking_step[where t = t and j = j] that tx c by blast
  qed
  then have "\<exists>u k. save_request dump load (Some ns) q = SaveApply (sched_manifest ns u cm) \<and>
      load u = Inr (Some k) \<and> stripEmpty k = Some c"
    using stands_for_saved[of dump load c q ns] c(2) p by auto
  then show ?thesis using stripEmpty_meaning c(1) by metis
qed

text \<open>A YAML library for concrete runs: it prints the two configurations of the
  examples and reads their texts and one with an empty map.\<close>

definition toy_dump :: "json \<Rightarrow> string" where
  "toy_dump j = (if j = sample_stripped then ''stripped'' else ''other'')"

definition toy_load :: "string \<Rightarrow> string + jval" where
  "toy_load t = (if t = ''stripped'' then Inr (Some sample_stripped)
     else if t = ''sample'' then Inr (Some sample_conf)
     else if t = ''other'' then Inr (Some empty_conf) else Inl ''bad indentation'')"

definition sample_cm :: jval where
  "sample_cm = Some (JObj [(''data'', JObj [(''volcano-scheduler.conf'', JStr ''sample''),
     (''volcano-scheduler.yaml'', JStr ''old'')])])"

definition look_1 :: sched_page where
  "look_1 = load_effect toy_load (sched_init\<lparr>sp_cm := sample_cm\<rparr>)"

definition look_2 :: sched_page where
  "look_2 = sched_switch toy_dump toy_load ''TypeError'' YamlView look_1"

lemma look_run:
  "sched_run toy_dump toy_load ''TypeError'' (Some ''volcano-system'')
     [SwitchTo YamlView, StartEdit] look_1 (look_2\<lparr>sp_editing := True\<rparr>)"
proof -
  have "sched_run toy_dump toy_load ''TypeError'' (Some ''volcano-system'') [SwitchTo YamlView] look_1 look_2"
    using run_snoc[OF run_nil step_switch] by (simp add: look_2_def)
  moreover have "\<not> sp_editing look_2" by (simp add: look_2_def look_1_def sched_init_def)
  ultimately show ?thesis using run_snoc[OF _ step_edit] by fastforce
qed

lemma looking_changes_nothing_witness:
  "\<exists>u k. save_request toy_dump toy_load (Some ''volcano-system'') (look_2\<lparr>sp_editing := True\<rparr>)
      = SaveApply (sched_manifest ''volcano-system'' u sample_cm) \<and>
    toy_load u = Inr (Some k) \<and> conf_meaning k = conf_meaning sample_conf"
proof (rule looking_changes_nothing[OF look_run[unfolded look_1_def]])
  show "toy_load (toy_dump sample_stripped) = Inr (Some sample_stripped)"
    by (simp add: toy_load_def toy_dump_def)
  show "conf_text sample_cm = Some (JStr ''sample'')" by (simp add: conf_text_def sample_cm_def)
qed (simp_all add: looking_def sched_init_def sample_cm_def toy_load_def sample_conf_stripped
    trim_def is_ws_def, simp add: sample_conf_def)

subsection \<open>Arrivals during an edit\<close>

definition arriving :: "sched_event \<Rightarrow> bool" where
  "arriving e = (case e of Fetched _ \<Rightarrow> True | StartSave \<Rightarrow> True
     | EndSave res \<Rightarrow> apply_finish res \<noteq> Saved | _ \<Rightarrow> False)"

lemma saving_is_editing:
  assumes "sched_run dump load terr ns es sched_init p"
  shows "sp_saving p \<longrightarrow> sp_editing p"
proof (rule sched_run_invariant[OF assms, where P = "\<lambda>_. True"])
  show "sp_saving sched_init \<longrightarrow> sp_editing sched_init" by (simp add: sched_init_def)
  show "list_all (\<lambda>_. True) es" by (simp add: list_all_iff)
  show "sp_saving r \<longrightarrow> sp_editing r"
    if "sched_step dump load terr ns e q r" "True" "sp_saving q \<longrightarrow> sp_editing q" for e q r
    using that(1,3) by cases auto
qed

text \<open>C12. Work in progress is kept.  In every reachable page with an edit or a save
  under way, refreshes of the ConfigMap, further saves and failing answers to
  them leave the view, the form's draft, the YAML text and the edit mode as they
  are, whatever arrives and in which order.\<close>

theorem arrivals_keep_the_edit:
  assumes "sched_run dump load terr ns es0 sched_init p" "sp_editing p \<or> sp_saving p"
    "sched_run dump load terr ns es p q" "list_all arriving es"
  shows "sp_editing q \<and> sp_view q = sp_view p \<and> sp_draft q = sp_draft p \<and> sp_yamlText q = sp_yamlText p"
proof (rule sched_run_invariant[OF assms(3) _ assms(4)])
  show "sp_editing p \<and> sp_view p = sp_view p \<and> sp_draft p = sp_draft p \<and> sp_yamlText p = sp_yamlText p"
    using saving_is_editing[OF assms(1)] assms(2) by blast
  show "sp_editing s \<and> sp_view s = sp_view p \<and> sp_draft s = sp_draft p \<and> sp_yamlText s = sp_yamlText p"
    if "sched_step dump load terr ns e r s" "arriving e"
      "sp_editing r \<and> sp_view r = sp_view p \<and> sp_draft r = sp_draft p \<and> sp_yamlText r = sp_yamlText p"
    for e r s
    using that by cases (auto simp: arriving_def)
qed

definition edit_1 :: sched_page where
  "edit_1 = sched_init\<lparr>sp_editing := True, sp_draft := sample_conf\<rparr>"

lemma edit_run:
  "sched_run toy_dump toy_load ''TypeError'' None [StartEdit, EditForm sample_conf] sched_init edit_1"
proof -
  have "sched_run toy_dump toy_load ''TypeError'' None ([] @ [StartEdit]) sched_init (sched_init\<lparr>sp_editing := True\<rparr>)"
    by (rule run_snoc[OF run_nil step_edit]) (simp add: sched_init_def)
  then have "sched_run toy_dump toy_load ''TypeError'' None (([] @ [StartEdit]) @ [EditForm sample_conf]) sched_init edit_1"
    unfolding edit_1_def
    by (rule run_snoc) (use step_form[of "sched_init\<lparr>sp_editing := True\<rparr>"] in \<open>simp add: sched_init_def\<close>)
  then show ?thesis by simp
qed

lemma arrivals_keep_the_edit_witness:
  "let q = load_effect toy_load (edit_1\<lparr>sp_cm := sample_cm\<rparr>)
   in sp_editing q \<and> sp_view q = sp_view edit_1 \<and> sp_draft q = sp_draft edit_1 \<and>
      sp_yamlText q = sp_yamlText edit_1"
proof -
  have "sched_run toy_dump toy_load ''TypeError'' None ([] @ [Fetched sample_cm]) edit_1
      (load_effect toy_load (edit_1\<lparr>sp_cm := sample_cm\<rparr>))"
    by (rule run_snoc[OF run_nil step_fetched])
  from arrivals_keep_the_edit[OF edit_run _ this] show ?thesis unfolding Let_def
    by (simp_all add: edit_1_def arriving_def)
qed

subsection \<open>Saving and loading again\<close>

lemma map_of_data_manifest:
  "oget ''data'' (Some (sched_manifest ns t cm)) =
   Some (JObj (AList.update ''volcano-scheduler.conf'' (JStr t)
     (jentries (the (coalesce (oget ''data'' cm) (Some (JObj [])))))))"
  by (simp add: sched_manifest_def)

text \<open>C15. Saving the form writes a ConfigMap that keeps every other entry of the one
  that was loaded and whose text parses; when the page then loads that ConfigMap,
  the form shows the cleaned draft, which means what the draft meant, without an
  error.\<close>

theorem save_then_load_keeps_the_draft:
  assumes "sp_view p = FormView" "stripEmpty (sp_draft p) = Some c" "truthy (sp_cm p)" "ns \<noteq> []"
    "load (dump c) = Inr (Some c)" "trim (dump c) \<noteq> []"
  shows "\<exists>m. save_request dump load (Some ns) p = SaveApply m \<and>
    (\<forall>k. k \<noteq> ''volcano-scheduler.conf'' \<longrightarrow> oget k (oget ''data'' (Some m)) =
       map_of (jentries (the (coalesce (oget ''data'' (sp_cm p)) (Some (JObj []))))) k) \<and>
    sp_draft (load_effect load ((save_finish (Some []) p)\<lparr>sp_cm := Some m\<rparr>)) = c \<and>
    sp_yamlError (load_effect load ((save_finish (Some []) p)\<lparr>sp_cm := Some m\<rparr>)) = None \<and>
    conf_meaning c = conf_meaning (sp_draft p)"
proof (intro exI conjI)
  let ?m = "sched_manifest ns (dump c) (sp_cm p)"
  let ?p = "(save_finish (Some []) p)\<lparr>sp_cm := Some ?m\<rparr>"
  show "save_request dump load (Some ns) p = SaveApply ?m"
    using assms by (auto simp: save_request_def sched_text_def)
  show "\<forall>k. k \<noteq> ''volcano-scheduler.conf'' \<longrightarrow> oget k (oget ''data'' (Some ?m)) =
       map_of (jentries (the (coalesce (oget ''data'' (sp_cm p)) (Some (JObj []))))) k"
    unfolding map_of_data_manifest by (simp add: update_conv')
  have "conf_text (Some ?m) = Some (JStr (dump c))"
    unfolding conf_text_def map_of_data_manifest by (simp add: update_conv')
  moreover have s: "apply_finish (Some []) = Saved" by (simp add: apply_finish_def)
  moreover have "truthy (Some ?m)" by (simp add: sched_manifest_def)
  ultimately have l: "load_effect load ?p = ?p\<lparr>sp_draft := c, sp_yamlText := dump c,
      sp_yamlError := None, sp_view := FormView, sp_editing := False\<rparr>"
    using assms(5,6) stripEmpty_object[OF assms(2)]
    by (simp add: s load_effect_def parse_conf_text raw_text_def save_finish_def)
  show "sp_draft (load_effect load ?p) = c" "sp_yamlError (load_effect load ?p) = None"
    unfolding l by simp_all
  show "conf_meaning c = conf_meaning (sp_draft p)" using assms(2) by (rule stripEmpty_meaning)
qed

lemma save_then_load_keeps_the_draft_witness:
  "\<exists>m. save_request toy_dump toy_load (Some ''volcano-system'') (look_1\<lparr>sp_editing := True\<rparr>) = SaveApply m \<and>
    (\<forall>k. k \<noteq> ''volcano-scheduler.conf'' \<longrightarrow> oget k (oget ''data'' (Some m)) =
       map_of (jentries (the (coalesce (oget ''data'' (sp_cm (look_1\<lparr>sp_editing := True\<rparr>))) (Some (JObj []))))) k) \<and>
    sp_draft (load_effect toy_load ((save_finish (Some []) (look_1\<lparr>sp_editing := True\<rparr>))\<lparr>sp_cm := Some m\<rparr>))
      = sample_stripped \<and>
    sp_yamlError (load_effect toy_load ((save_finish (Some []) (look_1\<lparr>sp_editing := True\<rparr>))\<lparr>sp_cm := Some m\<rparr>))
      = None \<and>
    conf_meaning sample_stripped = conf_meaning (sp_draft (look_1\<lparr>sp_editing := True\<rparr>))"
proof (rule save_then_load_keeps_the_draft)
  have "sp_draft look_1 = sample_conf" "sp_view look_1 = FormView" "sp_cm look_1 = sample_cm"
    by (simp_all add: look_1_def load_effect_def sched_init_def sample_cm_def conf_text_def parse_conf_def
        toy_load_def trim_def is_ws_def sample_conf_def)
  then show "sp_view (look_1\<lparr>sp_editing := True\<rparr>) = FormView"
    "stripEmpty (sp_draft (look_1\<lparr>sp_editing := True\<rparr>)) = Some sample_stripped"
    "truthy (sp_cm (look_1\<lparr>sp_editing := True\<rparr>))"
    using sample_conf_stripped by (simp_all add: sample_cm_def)
qed (simp_all add: toy_load_def toy_dump_def trim_def is_ws_def)

text \<open>A stored configuration that does not parse cannot be repaired in the page:
  it loads as an empty form, and the switch to the YAML view replaces its text by
  the printed empty configuration, so that the text of the ConfigMap is never
  shown, although the comment in the loading effect says that the user can fix it
  from the YAML tab.\<close>

theorem unparsable_conf_is_hidden:
  assumes "\<not> sp_editing p" "truthy cm" "conf_text cm = Some (JStr t)" "load t = Inl e"
  shows "let q = sched_switch dump load terr YamlView (load_effect load (p\<lparr>sp_cm := cm\<rparr>))
    in sp_view q = YamlView \<and> sp_yamlText q = dump empty_conf \<and> sp_yamlError q = None"
proof -
  have "stripEmpty empty_conf = Some empty_conf" by code_simp
  moreover have "parse_conf load (Some (JStr t)) = empty_conf" using assms(4) by (simp add: parse_conf_def)
  ultimately show ?thesis using assms by (simp add: load_effect_def sched_switch_def Let_def)
qed

lemma unparsable_conf_is_hidden_witness:
  "let q = sched_switch toy_dump toy_load ''TypeError'' YamlView
      (load_effect toy_load (sched_init\<lparr>sp_cm := Some (JObj [(''data'', JObj [(''volcano-scheduler.yaml'', JStr ''tiers: ['')])])\<rparr>))
    in sp_view q = YamlView \<and> sp_yamlText q = toy_dump empty_conf \<and> sp_yamlError q = None"
  by (rule unparsable_conf_is_hidden[where t = "''tiers: [''" and e = "''bad indentation''"])
    (simp_all add: sched_init_def conf_text_def toy_load_def)

end
