(* ===== verification/SchedulerForm.thy ===== *)
theory SchedulerForm
  imports SchedulerConf Request
begin

text \<open>
  pages/Compute/Volcano/Scheduler.tsx, the form: the cards for actions, tiers,
  plugins and metrics, each an edit of the draft configuration.  A handler takes
  the value its card was rendered with and returns the value it passes up; a
  setter that passes undefined removes the key.
\<close>

subsection \<open>FormView\<close>

definition form_actions :: "json \<Rightarrow> string list option" where
  "form_actions draft = map_option
     (\<lambda>s. filter (\<lambda>w. w \<noteq> []) (map trim (split_on (\<lambda>c. c = CHR '','') s)))
     (as_str (coalesce (jget ''actions'' draft) (Some (JStr []))))"

definition setActions :: "string list \<Rightarrow> json \<Rightarrow> json" where
  "setActions next draft = JObj (AList.update ''actions'' (JStr (join '', '' next)) (jentries draft))"

definition form_tiers :: "json \<Rightarrow> json list option" where
  "form_tiers draft = as_array (coalesce (jget ''tiers'' draft) (Some (JArr [])))"

definition setTiers :: "json list \<Rightarrow> json \<Rightarrow> json" where
  "setTiers next draft = JObj (AList.update ''tiers'' (JArr next) (jentries draft))"

definition form_configurations :: "json \<Rightarrow> json list option" where
  "form_configurations draft = as_array (coalesce (jget ''configurations'' draft) (Some (JArr [])))"

definition setConfigurations :: "json list \<Rightarrow> json \<Rightarrow> json" where
  "setConfigurations next draft = JObj (AList.update ''configurations'' (JArr next) (jentries draft))"

definition setMetrics :: "jval \<Rightarrow> json \<Rightarrow> json" where
  "setMetrics next draft = JObj (case next of
     None \<Rightarrow> AList.delete ''metrics'' (jentries draft)
   | Some m \<Rightarrow> AList.update ''metrics'' m (jentries draft))"

subsection \<open>ActionsCard\<close>

definition eligibleActions :: "string list \<Rightarrow> string list" where
  "eligibleActions actions = filter (\<lambda>a. case map_of ACTIONS_META a of
     None \<Rightarrow> False | Some m \<Rightarrow> (case am_args m of None \<Rightarrow> False | Some specs \<Rightarrow> specs \<noteq> [])) actions"

text \<open>The arguments shown for an action: of its last entry with a name, as the map
  built from the list keeps the last.\<close>

definition action_args :: "json list \<Rightarrow> string \<Rightarrow> jval option" where
  "action_args configurations a =
    (if JNull \<in> set configurations then None
     else Some (case List.find (\<lambda>c. a \<noteq> [] \<and> jget ''name'' c = Some (JStr a)) (rev configurations) of
       None \<Rightarrow> Some (JObj [])
     | Some entry \<Rightarrow> coalesce (jget ''arguments'' entry) (Some (JObj []))))"

definition setEntry :: "string \<Rightarrow> obj \<Rightarrow> json list \<Rightarrow> json list option" where
  "setEntry name nextArgs configurations =
    (if JNull \<in> set configurations then None
     else let others = filter (\<lambda>c. jget ''name'' c \<noteq> Some (JStr name)) configurations
       in Some (if nextArgs = [] then others
                else others @ [JObj [(''name'', JStr name), (''arguments'', JObj nextArgs)]]))"

subsection \<open>Lists edited by index\<close>

text \<open>xs.map((x, idx) => idx === i ? y : x) and xs.filter((_, idx) => idx !== i).\<close>

definition replace_at :: "nat \<Rightarrow> 'a \<Rightarrow> 'a list \<Rightarrow> 'a list" where
  "replace_at i y xs = map (\<lambda>(idx, x). if idx = i then y else x) (enumerate 0 xs)"

definition without_at :: "nat \<Rightarrow> 'a list \<Rightarrow> 'a list" where
  "without_at i xs = map snd (filter (\<lambda>(idx, x). idx \<noteq> i) (enumerate 0 xs))"

subsection \<open>TiersCard and TierBody\<close>

definition addTier :: "json list \<Rightarrow> json list" where
  "addTier tiers = tiers @ [JObj [(''plugins'', JArr [])]]"

definition removeTier :: "nat \<Rightarrow> json list \<Rightarrow> json list" where
  "removeTier i tiers = without_at i tiers"

definition setTierPlugins :: "nat \<Rightarrow> json list \<Rightarrow> json list \<Rightarrow> json list" where
  "setTierPlugins i plugins tiers = replace_at i (JObj [(''plugins'', JArr plugins)]) tiers"

definition tier_plugins :: "json \<Rightarrow> json list option" where
  "tier_plugins tier = (if tier = JNull then None
     else as_array (coalesce (jget ''plugins'' tier) (Some (JArr []))))"

definition updatePlugin :: "nat \<Rightarrow> json \<Rightarrow> json list \<Rightarrow> json list" where
  "updatePlugin i next plugins = replace_at i next plugins"

definition removePlugin :: "nat \<Rightarrow> json list \<Rightarrow> json list" where
  "removePlugin i plugins = without_at i plugins"

definition movePlugin :: "nat \<Rightarrow> int \<Rightarrow> json list \<Rightarrow> json list" where
  "movePlugin i dir plugins =
    (let j = int i + dir
     in if j < 0 \<or> int (length plugins) \<le> j then plugins
        else plugins[i := plugins ! nat j, nat j := plugins ! i])"

record tier_body =
  tb_addOpen :: bool
  tb_addName :: "string option"

definition addPlugin :: "tier_body \<Rightarrow> json list \<Rightarrow> tier_body \<times> json list" where
  "addPlugin tb plugins =
    (case tb_addName tb of
       None \<Rightarrow> (tb, plugins)
     | Some n \<Rightarrow> if n = [] then (tb, plugins)
         else (\<lparr>tb_addOpen = False, tb_addName = None\<rparr>, plugins @ [JObj [(''name'', JStr n)]]))"

definition usedNames :: "json list \<Rightarrow> json list option" where
  "usedNames plugins =
    (if JNull \<in> set plugins then None
     else Some (map the (filter truthy (map (jget ''name'') plugins))))"

definition pluginOptions :: "json list \<Rightarrow> string list option" where
  "pluginOptions plugins = map_option
     (\<lambda>used. filter (\<lambda>n. JStr n \<notin> set used) PLUGIN_NAMES) (usedNames plugins)"

subsection \<open>PluginCard\<close>

text \<open>entry.name ?? '''' as the property key it is looked up with.\<close>

definition card_name :: "json \<Rightarrow> string" where
  "card_name entry = js_String (the (coalesce (jget ''name'' entry) (Some (JStr []))))"

definition card_args :: "json \<Rightarrow> json" where
  "card_args entry = the (coalesce (jget ''arguments'' entry) (Some (JObj [])))"

definition setArgs :: "obj \<Rightarrow> json \<Rightarrow> json" where
  "setArgs next entry =
    (if next = [] then JObj (AList.delete ''arguments'' (jentries entry))
     else JObj (AList.update ''arguments'' (JObj next) (jentries entry)))"

definition setEnable :: "string \<Rightarrow> bool option \<Rightarrow> json \<Rightarrow> json" where
  "setEnable key val entry = JObj (case val of
     None \<Rightarrow> AList.delete key (jentries entry)
   | Some b \<Rightarrow> AList.update key (JBool b) (jentries entry))"

definition unknownTopLevel :: "json \<Rightarrow> obj" where
  "unknownTopLevel entry =
    filter (\<lambda>(k, v). k \<notin> set (knownPluginKeys (card_name entry))) (jentries entry)"

definition setEnabledCount :: "json \<Rightarrow> nat" where
  "setEnabledCount entry = length (filter (\<lambda>e. jget e entry \<noteq> None) ENABLE_FIELDS)"

definition setArgsCount :: "json \<Rightarrow> nat" where
  "setArgsCount entry = (case pm_args (metaForPlugin (card_name entry)) of
     None \<Rightarrow> 0
   | Some specs \<Rightarrow> length (filter (\<lambda>a. jget (as_key a) (card_args entry) \<noteq> None) specs))"

subsection \<open>EnableSwitchGrid and TristateSegmented\<close>

definition visibleFields :: "string \<Rightarrow> string list" where
  "visibleFields pluginName = (case pm_callbacks (metaForPlugin pluginName) of
     None \<Rightarrow> ENABLE_FIELDS
   | Some cb \<Rightarrow> filter (\<lambda>f. f \<in> set cb) ENABLE_FIELDS)"

definition setNoOpFields :: "string \<Rightarrow> json \<Rightarrow> string list" where
  "setNoOpFields pluginName entry = (case pm_callbacks (metaForPlugin pluginName) of
     None \<Rightarrow> []
   | Some cb \<Rightarrow> filter (\<lambda>f. f \<notin> set cb \<and> jget f entry \<noteq> None) ENABLE_FIELDS)"

definition grid_fields :: "json \<Rightarrow> string list" where
  "grid_fields entry = visibleFields (card_name entry) @ setNoOpFields (card_name entry) entry"

definition grid_value :: "string \<Rightarrow> json \<Rightarrow> bool option" where
  "grid_value f entry = as_bool (jget f entry)"

definition tristate_cur :: "bool option \<Rightarrow> string" where
  "tristate_cur val = (case val of Some True \<Rightarrow> ''true'' | Some False \<Rightarrow> ''false'' | None \<Rightarrow> ''default'')"

definition tristate_next :: "string \<Rightarrow> bool option" where
  "tristate_next v = (if v = ''default'' then None else Some (v = ''true''))"

subsection \<open>ArgsFormSection and ArgField\<close>

definition setOne :: "string \<Rightarrow> jval \<Rightarrow> json \<Rightarrow> obj" where
  "setOne key raw vals =
    (if nullish raw \<or> raw = Some (JStr []) then AList.delete key (jentries vals)
     else AList.update key (the raw) (jentries vals))"

text \<open>The value an input of each type shows, and what its edit passes to setOne: a
  cleared number input passes null.\<close>

fun arg_shown :: "ArgType \<Rightarrow> jval \<Rightarrow> jval" where
  "arg_shown ArgInt v = map_option JNum (as_num v)"
| "arg_shown ArgFloat v = map_option JNum (as_num v)"
| "arg_shown ArgBool v = map_option JBool (as_bool v)"
| "arg_shown ArgString v = map_option JStr (as_str v)"
| "arg_shown ArgObject v = v"

datatype arg_edit = NumberInput "rat option" | SwitchInput string | TextInput string | ObjectCommit jval

fun arg_emit :: "arg_edit \<Rightarrow> jval" where
  "arg_emit (NumberInput n) = (case n of None \<Rightarrow> Some JNull | Some x \<Rightarrow> Some (JNum x))"
| "arg_emit (SwitchInput v) = map_option JBool (tristate_next v)"
| "arg_emit (TextInput s) = Some (JStr s)"
| "arg_emit (ObjectCommit v) = v"

fun arg_accepts :: "ArgType \<Rightarrow> arg_edit \<Rightarrow> bool" where
  "arg_accepts ArgInt (NumberInput _) = True"
| "arg_accepts ArgFloat (NumberInput _) = True"
| "arg_accepts ArgBool (SwitchInput _) = True"
| "arg_accepts ArgString (TextInput _) = True"
| "arg_accepts ArgObject (ObjectCommit _) = True"
| "arg_accepts _ _ = False"

subsection \<open>ObjectInput\<close>

record object_input =
  oi_text :: string
  oi_err :: "string option"

definition oi_seed :: "(json \<Rightarrow> string) \<Rightarrow> jval \<Rightarrow> string" where
  "oi_seed dump v = (case v of None \<Rightarrow> [] | Some x \<Rightarrow> trim_end (dump x))"

definition oi_init :: "(json \<Rightarrow> string) \<Rightarrow> jval \<Rightarrow> object_input" where
  "oi_init dump v = \<lparr>oi_text = oi_seed dump v, oi_err = None\<rparr>"

definition oi_effect :: "(json \<Rightarrow> string) \<Rightarrow> (string \<Rightarrow> string + jval) \<Rightarrow> jval \<Rightarrow> object_input \<Rightarrow> object_input" where
  "oi_effect dump load v st =
    (case (if trim (oi_text st) = [] then Inr None else load (oi_text st)) of
       Inl e \<Rightarrow> st
     | Inr parsed \<Rightarrow>
         if map_option json_stringify parsed \<noteq> map_option json_stringify v
         then \<lparr>oi_text = oi_seed dump v, oi_err = None\<rparr> else st)"

text \<open>onBlur: the new state and what is passed to onChange, when it is called.\<close>

definition oi_blur :: "(string \<Rightarrow> string + jval) \<Rightarrow> object_input \<Rightarrow> object_input \<times> jval option" where
  "oi_blur load st =
    (if trim (oi_text st) = [] then (st\<lparr>oi_err := None\<rparr>, Some None)
     else case load (oi_text st) of
       Inr parsed \<Rightarrow> (st\<lparr>oi_err := None\<rparr>, Some parsed)
     | Inl e \<Rightarrow> (st\<lparr>oi_err := Some e\<rparr>, None))"

subsection \<open>MetricsCard\<close>

record metrics_card =
  mc_rows :: obj
  mc_lastEmitted :: string

definition metrics_of :: "jval \<Rightarrow> json" where
  "metrics_of metrics = the (coalesce metrics (Some (JObj [])))"

definition mc_init :: "jval \<Rightarrow> metrics_card" where
  "mc_init metrics = \<lparr>mc_rows = jentries (metrics_of metrics),
     mc_lastEmitted = json_stringify (metrics_of metrics)\<rparr>"

definition mc_effect :: "jval \<Rightarrow> metrics_card \<Rightarrow> metrics_card" where
  "mc_effect metrics st =
    (if json_stringify (metrics_of metrics) \<noteq> mc_lastEmitted st
     then \<lparr>mc_rows = jentries (metrics_of metrics), mc_lastEmitted = json_stringify (metrics_of metrics)\<rparr>
     else st)"

definition rows_obj :: "obj \<Rightarrow> obj" where
  "rows_obj next = fold (\<lambda>(k, v) obj. if k \<noteq> [] then AList.update k v obj else obj) next []"

definition mc_commit :: "obj \<Rightarrow> metrics_card \<Rightarrow> metrics_card \<times> jval" where
  "mc_commit next st =
    (let emit = (if rows_obj next = [] then None else Some (JObj (rows_obj next)))
     in (\<lparr>mc_rows = next, mc_lastEmitted = json_stringify (metrics_of emit)\<rparr>, emit))"

datatype row_edit = SetRow nat string json | RemoveRow nat | AddRow

fun edited_rows :: "row_edit \<Rightarrow> obj \<Rightarrow> obj" where
  "edited_rows (SetRow i k v) rows = rows[i := (k, v)]"
| "edited_rows (RemoveRow i) rows = without_at i rows"
| "edited_rows AddRow rows = rows @ [([], JStr [])]"

text \<open>The card beside the metrics it is rendered with: an edit of a row is
  committed, the page takes the emitted value and the effect runs on it; metrics
  can also change from elsewhere (the YAML view, a cancel, a load).\<close>

inductive mc_step :: "metrics_card \<times> jval \<Rightarrow> metrics_card \<times> jval \<Rightarrow> bool" where
  mc_own: "mc_commit (edited_rows e (mc_rows st)) st = (st', emit) \<Longrightarrow>
    (case e of SetRow i _ _ \<Rightarrow> i < length (mc_rows st) | RemoveRow i \<Rightarrow> i < length (mc_rows st) | AddRow \<Rightarrow> True) \<Longrightarrow>
    mc_step (st, metrics) (mc_effect emit st', emit)"
| mc_external: "mc_step (st, metrics) (mc_effect metrics' st, metrics')"


subsection \<open>Parts of the draft\<close>

text \<open>
  A card is given one part of a larger value and a handler that puts a new part
  back.  The laws of such a part are what the card relies on; parts compose, the
  part of a part is a part of the whole.
\<close>

locale card_part =
  fixes get :: "'s \<Rightarrow> 'v option" and put :: "'v \<Rightarrow> 's \<Rightarrow> 's"
  assumes get_put: "get s = Some v \<Longrightarrow> get (put w s) = Some w"
    and put_put: "get s = Some v \<Longrightarrow> put w' (put w s) = put w' s"
begin

definition change :: "('v \<Rightarrow> 'v) \<Rightarrow> 's \<Rightarrow> 's option" where
  "change f s = map_option (\<lambda>v. put (f v) s) (get s)"

lemma get_change: "change f s = Some s' \<Longrightarrow> get s' = map_option f (get s)"
  by (auto simp: change_def get_put)

lemma change_change: "Option.bind (change f s) (change g) = change (g \<circ> f) s"
  by (cases "get s") (auto simp: change_def get_put put_put)

end

locale part_of_part = outer: card_part get1 put1 + inner: card_part get2 put2
  for get1 :: "'s \<Rightarrow> 'm option" and put1 :: "'m \<Rightarrow> 's \<Rightarrow> 's"
    and get2 :: "'m \<Rightarrow> 'v option" and put2 :: "'v \<Rightarrow> 'm \<Rightarrow> 'm"
begin

definition get12 :: "'s \<Rightarrow> 'v option" where
  "get12 s = Option.bind (get1 s) get2"

definition put12 :: "'v \<Rightarrow> 's \<Rightarrow> 's" where
  "put12 w s = (case get1 s of None \<Rightarrow> s | Some m \<Rightarrow> put1 (put2 w m) s)"

end

sublocale part_of_part \<subseteq> both: card_part get12 put12
proof
  fix s v w w'
  assume "get12 s = Some v"
  then obtain m where m: "get1 s = Some m" "get2 m = Some v"
    by (auto simp: get12_def bind_eq_Some_iff)
  show "get12 (put12 w s) = Some w"
    using m by (simp add: get12_def put12_def outer.get_put inner.get_put)
  show "put12 w' (put12 w s) = put12 w' s"
    using m by (simp add: put12_def outer.get_put outer.put_put inner.put_put)
qed

lemma update_twice: "AList.update k v (AList.update k w ps) = AList.update k v ps"
  by (induction ps) auto

lemma replace_at_eq [simp]: "replace_at i y xs = xs[i := y]"
proof (rule nth_equalityI)
  show "length (replace_at i y xs) = length (xs[i := y])"
    by (simp add: replace_at_def)
  show "replace_at i y xs ! k = xs[i := y] ! k" if "k < length (replace_at i y xs)" for k
    using that by (auto simp: replace_at_def nth_enumerate_eq nth_list_update)
qed

lemma filter_enumerate_from: "n + length xs \<le> i \<or> i < n \<Longrightarrow> filter (\<lambda>(k, x). k \<noteq> i) (enumerate n xs) = enumerate n xs"
  by (induction xs arbitrary: n) auto

lemma without_at_eq: "without_at i xs = take i xs @ drop (Suc i) xs"
proof -
  have "map snd (filter (\<lambda>(k, x). k \<noteq> n + i) (enumerate n xs)) = take i xs @ drop (Suc i) xs" for n
  proof (induction xs arbitrary: n i)
    case (Cons x xs)
    show ?case
    proof (cases i)
      case 0
      then show ?thesis by (simp add: filter_enumerate_from)
    next
      case (Suc k)
      with Cons[of "Suc n" k] show ?thesis by simp
    qed
  qed simp
  from this[of 0] show ?thesis by (simp add: without_at_def)
qed

definition item_at :: "nat \<Rightarrow> 'a list \<Rightarrow> 'a option" where
  "item_at i xs = (if i < length xs then Some (xs ! i) else None)"

interpretation tiers_part: card_part form_tiers setTiers
  by unfold_locales (simp_all add: form_tiers_def setTiers_def update_conv' update_twice)

interpretation item_part: card_part "item_at i :: json list \<Rightarrow> json option" "updatePlugin i" for i
  by unfold_locales (auto simp: item_at_def updatePlugin_def split: if_splits)

definition put_tier_plugins :: "json list \<Rightarrow> json \<Rightarrow> json" where
  "put_tier_plugins plugins tier = JObj [(''plugins'', JArr plugins)]"

interpretation tier_part: card_part tier_plugins put_tier_plugins
  by unfold_locales (auto simp: tier_plugins_def put_tier_plugins_def)

interpretation tier_in_draft: part_of_part form_tiers setTiers
    "item_at i :: json list \<Rightarrow> json option" "updatePlugin i" for i
  by unfold_locales

interpretation plugin_in_tier: part_of_part tier_plugins put_tier_plugins
    "item_at j :: json list \<Rightarrow> json option" "updatePlugin j" for j
  by unfold_locales

interpretation plugin_in_draft: part_of_part "tier_in_draft.get12 i" "tier_in_draft.put12 i"
    "plugin_in_tier.get12 j" "plugin_in_tier.put12 j" for i j
  by unfold_locales

text \<open>The j-th plugin of the i-th tier, and the chain of handlers from its card to
  the page: updatePlugin of the tier, setTierPlugins of the card, setTiers.\<close>

definition draft_plugin :: "nat \<Rightarrow> nat \<Rightarrow> json \<Rightarrow> json option" where
  "draft_plugin i j draft =
    Option.bind (form_tiers draft) (\<lambda>ts.
    Option.bind (item_at i ts) (\<lambda>t.
    Option.bind (tier_plugins t) (item_at j)))"

definition onPluginChange :: "nat \<Rightarrow> nat \<Rightarrow> json \<Rightarrow> json \<Rightarrow> json option" where
  "onPluginChange i j next draft =
    Option.bind (form_tiers draft) (\<lambda>ts.
    Option.bind (item_at i ts) (\<lambda>t.
    map_option (\<lambda>ps. setTiers (setTierPlugins i (updatePlugin j next ps) ts) draft) (tier_plugins t)))"

lemma draft_plugin_part: "draft_plugin i j = plugin_in_draft.get12 i j"
  by (rule ext) (simp add: draft_plugin_def plugin_in_draft.get12_def tier_in_draft.get12_def
      plugin_in_tier.get12_def split: Option.bind_splits)

lemma onPluginChange_part:
  "draft_plugin i j draft = Some e \<Longrightarrow>
   onPluginChange i j next draft = Some (plugin_in_draft.put12 i j next draft)"
  by (auto simp: draft_plugin_def onPluginChange_def plugin_in_draft.put12_def tier_in_draft.get12_def
      tier_in_draft.put12_def plugin_in_tier.put12_def put_tier_plugins_def setTierPlugins_def
      updatePlugin_def bind_eq_Some_iff)


subsection \<open>Editing one argument of one plugin\<close>

definition onArgChange :: "nat \<Rightarrow> nat \<Rightarrow> string \<Rightarrow> jval \<Rightarrow> json \<Rightarrow> json option" where
  "onArgChange i j key raw draft =
    Option.bind (draft_plugin i j draft) (\<lambda>e.
      if e = JNull then None
      else onPluginChange i j (setArgs (setOne key raw (card_args e)) e) draft)"

text \<open>What setOne stores: undefined, null and the empty text remove the key.\<close>

definition kept_value :: "jval \<Rightarrow> jval" where
  "kept_value raw = (if nullish raw \<or> raw = Some (JStr []) then None else raw)"

lemma map_of_setOne:
  "map_of (setOne key raw vals) k = (if k = key then kept_value raw else map_of (jentries vals) k)"
  by (cases raw) (auto simp: setOne_def kept_value_def update_conv' delete_conv')

lemma setArgs_args:
  "\<exists>as. card_args (setArgs next e) = JObj as \<and> map_of as = map_of next"
  by (auto simp: setArgs_def card_args_def delete_conv' update_conv')

lemma setArgs_other: "k \<noteq> ''arguments'' \<Longrightarrow> jget k (setArgs next e) = map_of (jentries e) k"
  by (simp add: setArgs_def delete_conv' update_conv')

lemma draft_plugin_other:
  assumes "onPluginChange i j next draft = Some draft'" "(i', j') \<noteq> (i, j)"
  shows "draft_plugin i' j' draft' = draft_plugin i' j' draft"
proof -
  obtain ts t ps where ts: "form_tiers draft = Some ts" and t: "item_at i ts = Some t"
    and ps: "tier_plugins t = Some ps" and d: "draft' = setTiers (setTierPlugins i (updatePlugin j next ps) ts) draft"
    using assms(1) by (auto simp: onPluginChange_def bind_eq_Some_iff)
  have ts': "form_tiers draft' = Some (ts[i := put_tier_plugins (ps[j := next]) t])"
    using tiers_part.get_put[OF ts] by (simp add: d setTierPlugins_def updatePlugin_def put_tier_plugins_def)
  show ?thesis
  proof (cases "i' = i")
    case True
    with assms(2) have j: "j' \<noteq> j" by simp
    have i: "item_at i (ts[i := put_tier_plugins (ps[j := next]) t]) = Some (put_tier_plugins (ps[j := next]) t)"
      using t by (simp add: item_at_def split: if_splits)
    have "tier_plugins (put_tier_plugins (ps[j := next]) t) = Some (ps[j := next])"
      using ps by (rule tier_part.get_put)
    with i ts ts' t ps j True show ?thesis by (simp add: draft_plugin_def item_at_def)
  next
    case False
    then have "item_at i' (ts[i := put_tier_plugins (ps[j := next]) t]) = item_at i' ts"
      by (simp add: item_at_def)
    then show ?thesis using ts ts' by (simp add: draft_plugin_def)
  qed
qed

lemma onPluginChange_top:
  "onPluginChange i j next draft = Some draft' \<Longrightarrow> k \<noteq> ''tiers'' \<Longrightarrow>
   jget k draft' = map_of (jentries draft) k"
  by (auto simp: onPluginChange_def bind_eq_Some_iff setTiers_def update_conv')

text \<open>Editing one argument of a plugin changes that argument only: the plugin
  keeps its other arguments and its other keys, every other plugin of every tier
  and every other top-level key of the draft stays as it is, and the argument has
  the new value, or is removed when the input was cleared.\<close>

theorem arg_edit_is_local:
  assumes e: "draft_plugin i j draft = Some e" "e \<noteq> JNull" "card_args e = JObj args"
    and d: "onArgChange i j key raw draft = Some draft'"
  shows "(\<exists>e' args'. draft_plugin i j draft' = Some e' \<and> card_args e' = JObj args' \<and>
      map_of args' = (map_of args)(key := kept_value raw) \<and>
      (\<forall>k. k \<noteq> ''arguments'' \<longrightarrow> jget k e' = map_of (jentries e) k)) \<and>
    (\<forall>i' j'. (i', j') \<noteq> (i, j) \<longrightarrow> draft_plugin i' j' draft' = draft_plugin i' j' draft) \<and>
    (\<forall>k. k \<noteq> ''tiers'' \<longrightarrow> jget k draft' = map_of (jentries draft) k)"
proof -
  let ?n = "setArgs (setOne key raw (JObj args)) e"
  have c: "onPluginChange i j ?n draft = Some draft'"
    using d e by (simp add: onArgChange_def)
  then have "draft' = plugin_in_draft.put12 i j ?n draft"
    using onPluginChange_part[OF e(1), of ?n] by simp
  then have g: "draft_plugin i j draft' = Some ?n"
    using plugin_in_draft.both.get_put[of i j draft e ?n] e(1) by (simp add: draft_plugin_part)
  obtain as where "card_args ?n = JObj as" "map_of as = map_of (setOne key raw (JObj args))"
    using setArgs_args by blast
  then have "\<exists>as. card_args ?n = JObj as \<and> map_of as = (map_of args)(key := kept_value raw)"
    by (intro exI[of _ as]) (simp add: fun_eq_iff map_of_setOne)
  then show ?thesis
    using g draft_plugin_other[OF c] onPluginChange_top[OF c] setArgs_other by blast
qed

lemma arg_edit_is_local_witness:
  "let draft' = the (onArgChange 0 1 ''binpack.cpu'' (Some (JNum 3)) sample_conf) in
   (\<exists>e' args'. draft_plugin 0 1 draft' = Some e' \<and>
      card_args e' = JObj args' \<and>
      map_of args' = (map_of [(''binpack.weight'', JNum 5)])(''binpack.cpu'' := kept_value (Some (JNum 3))) \<and>
      (\<forall>k. k \<noteq> ''arguments'' \<longrightarrow> jget k e' = map_of (jentries
         (JObj [(''name'', JStr ''binpack''), (''arguments'', JObj [(''binpack.weight'', JNum 5)])])) k)) \<and>
    (\<forall>i' j'. (i', j') \<noteq> (0, 1) \<longrightarrow>
       draft_plugin i' j' draft' =
       draft_plugin i' j' sample_conf) \<and>
    (\<forall>k. k \<noteq> ''tiers'' \<longrightarrow>
       jget k draft' = map_of (jentries sample_conf) k)"
  unfolding Let_def
proof (rule arg_edit_is_local)
  show e: "draft_plugin 0 1 sample_conf =
      Some (JObj [(''name'', JStr ''binpack''), (''arguments'', JObj [(''binpack.weight'', JNum 5)])])"
    by (simp add: draft_plugin_def sample_conf_def form_tiers_def tier_plugins_def item_at_def)
  have "onArgChange 0 1 ''binpack.cpu'' (Some (JNum 3)) sample_conf \<noteq> None"
    using e onPluginChange_part[OF e] by (simp add: onArgChange_def)
  then show "onArgChange 0 1 ''binpack.cpu'' (Some (JNum 3)) sample_conf =
      Some (the (onArgChange 0 1 ''binpack.cpu'' (Some (JNum 3)) sample_conf))" by simp
qed (simp_all add: card_args_def)

subsection \<open>Moving, removing and adding plugins\<close>

lemma swap_twice:
  assumes "i < length xs" "j < length xs" "j \<noteq> i"
  defines "ys \<equiv> xs[i := xs ! j, j := xs ! i]"
  shows "ys[j := ys ! i, i := ys ! j] = xs"
proof -
  have "ys ! i = xs ! j" "ys ! j = xs ! i" using assms(1-3) by (simp_all add: ys_def)
  then have "ys[j := ys ! i, i := ys ! j] = xs[i := xs ! i, j := xs ! j]"
    using assms(3) by (simp add: ys_def list_update_swap)
  then show ?thesis by simp
qed

text \<open>Moving a plugin exchanges it with its neighbour and with nothing else, so no
  plugin is lost or duplicated; at the ends of the list it does nothing, and
  moving back restores the order.\<close>

theorem movePlugin_exchanges:
  assumes "i < length ps" "dir = 1 \<or> dir = - 1"
  shows "mset (movePlugin i dir ps) = mset ps \<and>
    (let j = nat (int i + dir) in
      if 0 \<le> int i + dir \<and> j < length ps
      then movePlugin i dir ps ! i = ps ! j \<and> movePlugin i dir ps ! j = ps ! i \<and>
        (\<forall>k < length ps. k \<noteq> i \<longrightarrow> k \<noteq> j \<longrightarrow> movePlugin i dir ps ! k = ps ! k) \<and>
        movePlugin j (- dir) (movePlugin i dir ps) = ps
      else movePlugin i dir ps = ps)"
proof (cases "0 \<le> int i + dir \<and> nat (int i + dir) < length ps")
  case True
  define j where "j = nat (int i + dir)"
  have j: "int j = int i + dir" "j < length ps" "j \<noteq> i" using True assms by (auto simp: j_def)
  have m: "movePlugin i dir ps = ps[i := ps ! j, j := ps ! i]"
    using j by (simp add: movePlugin_def flip: j_def)
  have "nat (int j + - dir) = i" "0 \<le> int j + - dir" "int j + - dir < int (length ps)"
    using j assms(1) by auto
  then have "movePlugin j (- dir) qs = qs[j := qs ! i, i := qs ! j]" if "length qs = length ps" for qs
    using that unfolding movePlugin_def Let_def by simp
  from this[of "movePlugin i dir ps"] have "movePlugin j (- dir) (movePlugin i dir ps) = ps"
    using swap_twice[OF assms(1) j(2,3)] by (simp add: m)
  moreover have "mset (movePlugin i dir ps) = mset ps"
    unfolding m using j(2) assms(1) by (rule mset_swap)
  moreover have "movePlugin i dir ps ! i = ps ! j" "movePlugin i dir ps ! j = ps ! i"
    "\<forall>k < length ps. k \<noteq> i \<longrightarrow> k \<noteq> j \<longrightarrow> movePlugin i dir ps ! k = ps ! k"
    using j assms(1) by (simp_all add: m nth_list_update)
  moreover have "0 \<le> int i + dir \<and> j < length ps" using True j_def by simp
  ultimately show ?thesis unfolding Let_def j_def[symmetric] by presburger
next
  case False
  then have "movePlugin i dir ps = ps"
    using assms by (auto simp: movePlugin_def Let_def)
  then show ?thesis unfolding Let_def if_not_P[OF False] by simp
qed

lemma movePlugin_exchanges_witness:
  "let ps = [JStr ''gang'', JStr ''drf'', JStr ''binpack''] in
    mset (movePlugin 1 1 ps) = mset ps \<and>
    (let j = nat (int 1 + 1) in
      if 0 \<le> int 1 + 1 \<and> j < length ps
      then movePlugin 1 1 ps ! 1 = ps ! j \<and> movePlugin 1 1 ps ! j = ps ! 1 \<and>
        (\<forall>k < length ps. k \<noteq> 1 \<longrightarrow> k \<noteq> j \<longrightarrow> movePlugin 1 1 ps ! k = ps ! k) \<and>
        movePlugin j (- 1) (movePlugin 1 1 ps) = ps
      else movePlugin 1 1 ps = ps)"
  using movePlugin_exchanges[of 1 "[JStr ''gang'', JStr ''drf'', JStr ''binpack'']" 1]
  by (simp add: Let_def)


text \<open>Adding through the picker keeps the names of a tier distinct, because the picker
  offers only names the tier does not have yet.\<close>

definition plugin_names :: "json list \<Rightarrow> json list" where
  "plugin_names ps = map the (filter truthy (map (jget ''name'') ps))"

lemma picker_keeps_names_distinct:
  assumes "pluginOptions ps = Some opts" "n \<in> set opts" "distinct (plugin_names ps)"
    "n \<noteq> []" "addPlugin \<lparr>tb_addOpen = True, tb_addName = Some n\<rparr> ps = (tb, qs)"
  shows "distinct (plugin_names qs) \<and> set (plugin_names qs) = insert (JStr n) (set (plugin_names ps)) \<and>
    \<not> tb_addOpen tb \<and> tb_addName tb = None"
proof -
  have "JStr n \<notin> set (plugin_names ps)"
    using assms(1,2) by (auto simp: pluginOptions_def usedNames_def plugin_names_def split: if_splits)
  moreover have "tb = \<lparr>tb_addOpen = False, tb_addName = None\<rparr>" "qs = ps @ [JObj [(''name'', JStr n)]]"
    using assms(4,5) by (auto simp: addPlugin_def)
  moreover have "plugin_names (ps @ [JObj [(''name'', JStr n)]]) = plugin_names ps @ [JStr n]"
    using assms(4) by (simp add: plugin_names_def)
  ultimately show ?thesis using assms(3) by simp
qed

subsection \<open>Actions and their arguments\<close>

definition clean_action :: "string \<Rightarrow> bool" where
  "clean_action a \<longleftrightarrow> a \<noteq> [] \<and> trim a = a \<and> CHR '','' \<notin> set a"

lemma split_actions:
  assumes "list_all clean_action as" "as \<noteq> []"
  shows "map trim (split_on (\<lambda>c. c = CHR '','') (join '', '' as)) = as"
  using assms
proof (induction as rule: induct_list012)
  case (2 a)
  then have "split_on (\<lambda>c. c = CHR '','') a = [a]"
    by (intro split_on_none) (auto simp: clean_action_def)
  with 2 show ?case by (simp add: clean_action_def)
next
  case (3 a b as)
  let ?P = "\<lambda>c. c = CHR '',''"
  have "join '', '' (a # b # as) = a @ CHR '','' # CHR '' '' # join '', '' (b # as)" by simp
  moreover have "c \<in> set a \<Longrightarrow> \<not> ?P c" for c using 3 by (auto simp: clean_action_def)
  ultimately have s: "split_on ?P (join '', '' (a # b # as)) = a # split_on ?P (CHR '' '' # join '', '' (b # as))"
    using split_on_append[of a ?P "CHR '',''"] by auto
  obtain w ws where w: "split_on ?P (join '', '' (b # as)) = w # ws"
    using split_on_nonempty by (cases "split_on ?P (join '', '' (b # as))") auto
  then have "map trim (w # ws) = b # as" using 3 by (simp flip: w)
  moreover have "split_on ?P (CHR '' '' # join '', '' (b # as)) = (CHR '' '' # w) # ws"
    using w by simp
  ultimately show ?case using s 3 by (simp add: trim_space clean_action_def)
qed simp

lemma form_actions_set:
  assumes "list_all clean_action as"
  shows "form_actions (setActions as draft) = Some as"
proof (cases "as = []")
  case False
  then have "join '', '' as \<noteq> []"
    using assms by (subst join_eq_Nil) (auto simp: list_all_iff clean_action_def)
  then have "filter (\<lambda>w. w \<noteq> []) as = as"
    using assms by (auto simp: list_all_iff clean_action_def intro: filter_True)
  with False assms show ?thesis
    by (simp add: form_actions_def setActions_def update_conv' split_actions)
qed (simp add: form_actions_def setActions_def update_conv')

lemma form_actions_clean:
  assumes "form_actions draft = Some as"
  shows "list_all clean_action as"
proof -
  obtain s where s: "as = filter (\<lambda>w. w \<noteq> []) (map trim (split_on (\<lambda>c. c = CHR '','') s))"
    using assms by (auto simp: form_actions_def)
  have "CHR '','' \<notin> set (trim w)" if "w \<in> set (split_on (\<lambda>c. c = CHR '','') s)" for w
    using split_on_parts[OF that, of "CHR '',''"] by (auto simp: trim_def dest!: set_dropWhileD)
  then show ?thesis by (auto simp: s list_all_iff clean_action_def)
qed

definition args_obj :: "jval \<Rightarrow> obj" where
  "args_obj v = (case v of Some (JObj ps) \<Rightarrow> ps | _ \<Rightarrow> [])"

lemma find_rev_filter_other:
  "a \<noteq> b \<Longrightarrow> List.find (\<lambda>c. jget ''name'' c = Some (JStr b)) (filter (\<lambda>c. jget ''name'' c \<noteq> Some (JStr a)) cs) =
   List.find (\<lambda>c. jget ''name'' c = Some (JStr b)) cs"
  by (induction cs) auto

lemma find_None_never: "List.find (\<lambda>x. False) xs = None"
  by (induction xs) auto

text \<open>The actions card is lossless.  What it shows after a selection is the
  selection, in order, and selecting what it shows keeps it; entering arguments
  for an action shows those arguments for it, an empty set of arguments shows
  none, and the arguments shown for every other action stay as they are.\<close>

theorem actions_card_roundtrip:
  assumes "form_actions draft = Some as" "list_all clean_action bs"
    "setEntry a next cs = Some ds" "a \<noteq> []"
  shows "form_actions (setActions as draft) = Some as \<and> form_actions (setActions bs draft) = Some bs \<and>
    action_args ds a = Some (Some (JObj next)) \<and>
    (\<forall>b. b \<noteq> a \<longrightarrow> action_args ds b = action_args cs b)"
proof -
  let ?o = "filter (\<lambda>c. jget ''name'' c \<noteq> Some (JStr a)) cs"
  have n: "JNull \<notin> set cs" and ds: "ds = (if next = [] then ?o
      else ?o @ [JObj [(''name'', JStr a), (''arguments'', JObj next)]])"
    using assms(3) by (auto simp: setEntry_def Let_def split: if_splits)
  have "List.find (\<lambda>c. jget ''name'' c = Some (JStr a)) (rev ?o) = None"
    by (auto simp: find_None_iff)
  then have "action_args ds a = Some (Some (JObj next))"
    using n assms(4) by (auto simp: action_args_def ds)
  moreover have "action_args ds b = action_args cs b" if "b \<noteq> a" for b
    using n that find_rev_filter_other[of a b "rev cs"]
    by (cases "b = []") (auto simp: action_args_def ds rev_filter find_None_never)
  ultimately show ?thesis
    using form_actions_clean[OF assms(1)] assms(2) by (simp add: form_actions_set)
qed

lemma actions_card_roundtrip_witness:
  "form_actions (setActions [''enqueue'', ''allocate''] sample_conf) = Some [''enqueue'', ''allocate''] \<and>
   form_actions (setActions [''backfill'', ''preempt''] sample_conf) = Some [''backfill'', ''preempt''] \<and>
   action_args [JObj [(''name'', JStr ''preempt''), (''arguments'', JObj [(''strict'', JBool True)])]] ''preempt'' =
     Some (Some (JObj [(''strict'', JBool True)])) \<and>
   (\<forall>b. b \<noteq> ''preempt'' \<longrightarrow> action_args [JObj [(''name'', JStr ''preempt''), (''arguments'', JObj [(''strict'', JBool True)])]] b
     = action_args [] b)"
proof (rule actions_card_roundtrip)
  show "form_actions sample_conf = Some [''enqueue'', ''allocate'']" by code_simp
  show "list_all clean_action [''backfill'', ''preempt'']" by code_simp
qed (simp_all add: setEntry_def)


subsection \<open>The switches of a plugin\<close>

lemma distinct_ENABLE_FIELDS: "distinct ENABLE_FIELDS"
  by (simp add: ENABLE_FIELDS_def)

lemma set_grid_fields:
  "set (grid_fields e) = {f \<in> set ENABLE_FIELDS.
     (case pm_callbacks (metaForPlugin (card_name e)) of None \<Rightarrow> True | Some cb \<Rightarrow> f \<in> set cb)
     \<or> jget f e \<noteq> None}"
  by (auto simp: grid_fields_def visibleFields_def setNoOpFields_def split: option.splits)

lemma distinct_grid_fields: "distinct (grid_fields e)"
  using distinct_ENABLE_FIELDS
  by (auto simp: grid_fields_def visibleFields_def setNoOpFields_def split: option.splits)

lemma jget_setEnable:
  "jget k (setEnable f v e) = (if k = f then map_option JBool v else map_of (jentries e) k)"
  by (auto simp: setEnable_def update_conv' delete_conv' split: option.splits)

text \<open>The grid shows each switch once: every switch the plugin reacts to, and
  every switch the entry sets, also one the plugin ignores, so that no setting is
  hidden.  Selecting one of the three positions of a switch is what the grid then
  shows for it, and no other key of the entry changes.\<close>

theorem grid_shows_every_set_switch:
  assumes "f \<in> set (grid_fields e)" "c \<in> {''default'', ''true'', ''false''}"
  shows "distinct (grid_fields e) \<and>
    (\<forall>g \<in> set ENABLE_FIELDS. jget g e \<noteq> None \<longrightarrow> g \<in> set (grid_fields e)) \<and>
    (\<forall>g cb. pm_callbacks (metaForPlugin (card_name e)) = Some cb \<longrightarrow> g \<in> set cb \<longrightarrow>
       g \<in> set ENABLE_FIELDS \<longrightarrow> g \<in> set (grid_fields e)) \<and>
    tristate_cur (grid_value f (setEnable f (tristate_next c) e)) = c \<and>
    (\<forall>k. k \<noteq> f \<longrightarrow> jget k (setEnable f (tristate_next c) e) = map_of (jentries e) k)"
proof -
  have "tristate_cur (grid_value f (setEnable f (tristate_next c) e)) = c"
    using assms(2) unfolding grid_value_def jget_setEnable
    by (auto simp: tristate_next_def tristate_cur_def)
  then show ?thesis
    by (auto simp: distinct_grid_fields set_grid_fields jget_setEnable)
qed

definition gang_entry :: json where
  "gang_entry = JObj [(''name'', JStr ''gang''), (''enabledVictim'', JBool True)]"

lemma grid_shows_every_set_switch_witness:
  "let e = gang_entry in distinct (grid_fields e) \<and>
    (\<forall>g \<in> set ENABLE_FIELDS. jget g e \<noteq> None \<longrightarrow> g \<in> set (grid_fields e)) \<and>
    (\<forall>g cb. pm_callbacks (metaForPlugin (card_name e)) = Some cb \<longrightarrow> g \<in> set cb \<longrightarrow>
       g \<in> set ENABLE_FIELDS \<longrightarrow> g \<in> set (grid_fields e)) \<and>
    tristate_cur (grid_value ''enabledVictim'' (setEnable ''enabledVictim'' (tristate_next ''false'') e))
      = ''false'' \<and>
    (\<forall>k. k \<noteq> ''enabledVictim'' \<longrightarrow>
       jget k (setEnable ''enabledVictim'' (tristate_next ''false'') e) = map_of (jentries e) k)"
  unfolding Let_def
  by (rule grid_shows_every_set_switch)
    (simp_all add: set_grid_fields gang_entry_def ENABLE_FIELDS_def)

subsection \<open>The tables of the schema\<close>

definition default_fits :: "ArgSpec \<Rightarrow> bool" where
  "default_fits s = (case as_default s of
     None \<Rightarrow> True
   | Some d \<Rightarrow> arg_shown (as_type s) (Some d) = Some d \<and>
       (case d of JNum x \<Rightarrow>
          (case as_min s of None \<Rightarrow> True | Some m \<Rightarrow> m \<le> x) \<and> (case as_max s of None \<Rightarrow> True | Some m \<Rightarrow> x \<le> m) \<and>
          (as_type s = ArgInt \<longrightarrow> of_int \<lfloor>x\<rfloor> = x)
        | _ \<Rightarrow> True))"

definition bounds_fit :: "ArgSpec \<Rightarrow> bool" where
  "bounds_fit s = ((as_min s \<noteq> None \<or> as_max s \<noteq> None \<longrightarrow> as_type s = ArgInt \<or> as_type s = ArgFloat) \<and>
     (case (as_min s, as_max s) of (Some a, Some b) \<Rightarrow> a < b | _ \<Rightarrow> True))"

definition specs_fit :: "ArgSpec list option \<Rightarrow> bool" where
  "specs_fit a = (case a of None \<Rightarrow> True
     | Some specs \<Rightarrow> distinct (map as_key specs) \<and> list_all default_fits specs \<and> list_all bounds_fit specs)"

definition plugin_meta_fits :: "string \<times> PluginMeta \<Rightarrow> bool" where
  "plugin_meta_fits p = (pm_label (snd p) = fst p \<and> specs_fit (pm_args (snd p)) \<and>
     (case pm_callbacks (snd p) of None \<Rightarrow> False | Some cb \<Rightarrow> distinct cb \<and> list_all (\<lambda>f. f \<in> set ENABLE_FIELDS) cb))"

definition action_meta_fits :: "string \<times> ActionMeta \<Rightarrow> bool" where
  "action_meta_fits p = (am_label (snd p) = fst p \<and> specs_fit (am_args (snd p)))"

lemma plugin_tables: "list_all plugin_meta_fits PLUGINS_META"
  by code_simp

lemma action_tables: "list_all action_meta_fits ACTIONS_META"
  by code_simp


text \<open>The schema tables are well formed: names, switches and the argument keys of
  each action and plugin are distinct, every plugin lists its callbacks and only
  switches that exist, every default is a value its own input shows, numbers lie
  within the bounds of their input and whole where the input is, and only number
  inputs have bounds, in the right order.\<close>

theorem scheduler_tables_wellformed:
  "distinct ACTION_NAMES \<and> distinct PLUGIN_NAMES \<and> distinct ENABLE_FIELDS \<and>
   list_all action_meta_fits ACTIONS_META \<and> list_all plugin_meta_fits PLUGINS_META"
proof (intro conjI)
  show "distinct ACTION_NAMES" by (simp add: ACTION_NAMES_def ACTIONS_META_def)
  show "distinct PLUGIN_NAMES" by (simp add: PLUGIN_NAMES_def PLUGINS_META_def)
qed (rule distinct_ENABLE_FIELDS action_tables plugin_tables)+

text \<open>An input writes only values it shows: after an edit it shows what was entered,
  and a cleared input shows nothing and leaves no key behind.\<close>

lemma input_shows_its_edit:
  assumes "arg_accepts t ed"
  shows "arg_shown t (map_of (setOne key (arg_emit ed) vals) key) = kept_value (arg_emit ed)"
  using assms
  by (cases "(t, ed)" rule: arg_accepts.cases)
    (auto simp: map_of_setOne kept_value_def tristate_next_def split: option.splits)

subsection \<open>Rows of the metrics card\<close>

lemma rows_obj_Nil [simp]: "rows_obj [] = []"
  by (simp add: rows_obj_def)

lemma rows_obj_step: "rows_obj (rows @ [(k, v)]) = (if k \<noteq> [] then AList.update k v (rows_obj rows) else rows_obj rows)"
  by (simp add: rows_obj_def)

lemma rows_obj_clean:
  assumes "distinct (map fst ps)" "[] \<notin> fst ` set ps"
  shows "rows_obj ps = ps"
proof -
  have "fold (\<lambda>(k, v) obj. if k \<noteq> [] then AList.update k v obj else obj) ps acc =
      fold (\<lambda>(k, v). AList.update k v) ps acc" for acc
    using assms(2) by (induction ps arbitrary: acc) auto
  then show ?thesis using assms(1) by (simp add: rows_obj_def fold_update_from_empty)
qed

definition clean_metrics :: "jval \<Rightarrow> bool" where
  "clean_metrics m \<longleftrightarrow> nullish m \<or>
    (\<exists>ps. m = Some (JObj ps) \<and> distinct (map fst ps) \<and> [] \<notin> fst ` set ps)"

lemma clean_metrics_rows: "clean_metrics m \<Longrightarrow> JObj (rows_obj (jentries (metrics_of m))) = metrics_of m"
  by (auto simp: clean_metrics_def metrics_of_def coalesce_def rows_obj_clean)

lemma rows_obj_props: "distinct (map fst (rows_obj rows)) \<and> [] \<notin> fst ` set (rows_obj rows)"
proof (induction rows rule: rev_induct)
  case Nil
  show ?case by (simp add: rows_obj_def)
next
  case (snoc r rows)
  obtain k v where r: "r = (k, v)" by force
  have "set (map fst (AList.update k v (rows_obj rows))) \<subseteq> insert k (set (map fst (rows_obj rows)))"
    by (auto simp: keys_update_cases)
  then show ?case using snoc by (auto simp: r rows_obj_step distinct_update)
qed

lemma commit_clean: "mc_commit rows st = (st', emit) \<Longrightarrow>
  clean_metrics emit \<and> metrics_of emit = JObj (rows_obj rows) \<and> mc_rows st' = rows \<and>
  mc_lastEmitted st' = json_stringify (JObj (rows_obj rows))"
  using rows_obj_props[of rows]
  by (auto simp: mc_commit_def clean_metrics_def metrics_of_def Let_def split: if_splits)

text \<open>The rows denote the metrics the card is rendered with, as JSON text, and the
  card knows it.\<close>

definition rows_agree :: "metrics_card \<times> jval \<Rightarrow> bool" where
  "rows_agree c \<longleftrightarrow> json_stringify (JObj (rows_obj (mc_rows (fst c)))) = json_stringify (metrics_of (snd c)) \<and>
     mc_lastEmitted (fst c) = json_stringify (metrics_of (snd c))"

lemma effect_agrees:
  assumes "clean_metrics m" "json_stringify (JObj (rows_obj (mc_rows st))) = mc_lastEmitted st"
  shows "rows_agree (mc_effect m st, m)"
  using assms by (auto simp: rows_agree_def mc_effect_def clean_metrics_rows simp del: json_stringify.simps)

inductive mc_reach :: "jval \<Rightarrow> metrics_card \<times> jval \<Rightarrow> bool" for m0 where
  reach_init: "mc_reach m0 (mc_init m0, m0)"
| reach_step: "mc_reach m0 c \<Longrightarrow> mc_step c c' \<Longrightarrow> clean_metrics (snd c') \<Longrightarrow> mc_reach m0 c'"

inductive_cases mc_stepE: "mc_step c c'"

lemma reach_agrees:
  assumes "mc_reach m0 c" "clean_metrics m0"
  shows "rows_agree c"
  using assms
proof (induction rule: mc_reach.induct)
  case reach_init
  then show ?case by (simp add: rows_agree_def mc_init_def clean_metrics_rows)
next
  case (reach_step c c')
  from reach_step.hyps(2) show ?case
  proof cases
    case (mc_external st metrics metrics')
    have "json_stringify (JObj (rows_obj (mc_rows st))) = mc_lastEmitted st"
      using reach_step.IH reach_step.prems mc_external(1)
      by (simp add: rows_agree_def del: json_stringify.simps)
    then show ?thesis using reach_step.hyps(3) mc_external(2) by (simp add: effect_agrees)
  next
    case (mc_own e st st' emit metrics)
    then show ?thesis using commit_clean[OF mc_own(3)] by (auto intro!: effect_agrees)
  qed
qed

text \<open>C20. The rows the user types are never lost.  In every reachable state of the
  metrics card the rows stand for the metrics of the draft; an edit of a row
  leaves exactly the edited rows on screen, unfinished ones included, although
  the draft then holds only the rows with a key, and a change from outside that
  is not the echo of an edit replaces the rows by its entries.\<close>

theorem metrics_rows_follow_edits:
  assumes "mc_reach m0 (st, metrics)" "clean_metrics m0"
    "mc_commit (edited_rows e (mc_rows st)) st = (st', emit)" "clean_metrics m"
  shows "json_stringify (JObj (rows_obj (mc_rows st))) = json_stringify (metrics_of metrics) \<and>
    mc_rows (mc_effect emit st') = edited_rows e (mc_rows st) \<and>
    metrics_of emit = JObj (rows_obj (edited_rows e (mc_rows st))) \<and>
    mc_rows (mc_effect m st) =
      (if json_stringify (metrics_of m) = json_stringify (metrics_of metrics) then mc_rows st
       else jentries (metrics_of m))"
  using reach_agrees[OF assms(1,2)] commit_clean[OF assms(3)]
  by (simp add: rows_agree_def mc_effect_def)

lemma metrics_rows_follow_edits_witness:
  "let m = Some (JObj [(''type'', JStr ''prometheus'')]); st = mc_init m; c = mc_commit (edited_rows AddRow (mc_rows st)) st
   in json_stringify (JObj (rows_obj (mc_rows st))) = json_stringify (metrics_of m) \<and>
    mc_rows (mc_effect (snd c) (fst c)) = edited_rows AddRow (mc_rows st) \<and>
    metrics_of (snd c) = JObj (rows_obj (edited_rows AddRow (mc_rows st))) \<and>
    mc_rows (mc_effect None st) =
      (if json_stringify (metrics_of None) = json_stringify (metrics_of m) then mc_rows st
       else jentries (metrics_of None))"
  unfolding Let_def
  by (rule metrics_rows_follow_edits[OF reach_init]) (simp_all add: clean_metrics_def del: edited_rows.simps)

subsection \<open>The YAML sub-editor of an object argument\<close>

text \<open>The sub-editor of an object argument never loses what the user typed: a
  text that does not parse is kept with its error and nothing is stored; a text
  that parses is stored as its value without the error, and the echo of the
  stored value leaves the text as typed, so its formatting survives.\<close>

theorem object_input_keeps_text:
  assumes "trim (oi_text st) \<noteq> []"
  shows "(\<forall>e. load (oi_text st) = Inl e \<longrightarrow>
      snd (oi_blur load st) = None \<and> oi_text (fst (oi_blur load st)) = oi_text st \<and>
      oi_err (fst (oi_blur load st)) = Some e \<and> oi_effect dump load v (fst (oi_blur load st)) = fst (oi_blur load st)) \<and>
    (\<forall>v. load (oi_text st) = Inr v \<longrightarrow>
      snd (oi_blur load st) = Some v \<and> oi_err (fst (oi_blur load st)) = None \<and>
      (kept_value v = v \<longrightarrow>
        oi_text (oi_effect dump load (map_of (setOne key v args) key) (fst (oi_blur load st))) = oi_text st))"
  using assms by (auto simp: oi_blur_def oi_effect_def map_of_setOne)

lemma object_input_keeps_text_witness:
  "(\<forall>e. toy_load ''sample'' = Inl e \<longrightarrow>
      snd (oi_blur toy_load (\<lparr>oi_text = ''sample'', oi_err = None\<rparr>)) = None \<and>
      oi_text (fst (oi_blur toy_load \<lparr>oi_text = ''sample'', oi_err = None\<rparr>)) = ''sample'' \<and>
      oi_err (fst (oi_blur toy_load \<lparr>oi_text = ''sample'', oi_err = None\<rparr>)) = Some e \<and>
      oi_effect toy_dump toy_load None (fst (oi_blur toy_load \<lparr>oi_text = ''sample'', oi_err = None\<rparr>)) =
        fst (oi_blur toy_load \<lparr>oi_text = ''sample'', oi_err = None\<rparr>)) \<and>
    (\<forall>v. toy_load ''sample'' = Inr v \<longrightarrow>
      snd (oi_blur toy_load \<lparr>oi_text = ''sample'', oi_err = None\<rparr>) = Some v \<and>
      oi_err (fst (oi_blur toy_load \<lparr>oi_text = ''sample'', oi_err = None\<rparr>)) = None \<and>
      (kept_value v = v \<longrightarrow>
        oi_text (oi_effect toy_dump toy_load (map_of (setOne ''thresholds'' v (JObj [])) ''thresholds'')
          (fst (oi_blur toy_load \<lparr>oi_text = ''sample'', oi_err = None\<rparr>))) = ''sample''))"
  using object_input_keeps_text[of "\<lparr>oi_text = ''sample'', oi_err = None\<rparr>" toy_load toy_dump None "''thresholds''" "JObj []"]
  by (simp add: trim_def is_ws_def)

end
