(* ===== verification/QueueTree.thy ===== *)
theory QueueTree
  imports Quantity
begin

text \<open>
  pages/Compute/Volcano/QueueQuota.tsx: the tree of queues built from
  spec.parent, the count of subqueues, and the numbers of one resource row.

  collate is the collation key of localeCompare, which sorts queues by name; the
  engine chooses it, so it is a parameter.  The walk that builds the options of
  the selector is a recursion that may not end, so its result is an option; the
  count keeps a set of names already seen and always ends.
\<close>

record QueueRow =
  qu_name :: string
  qu_uid :: string
  qu_creationTimestamp :: string
  qu_parent :: "string option"
  qu_state :: string
  qu_priority :: "rat option"
  qu_weight :: rat
  qu_reclaimable :: "bool option"
  qu_capability :: "(string \<times> string) list option"
  qu_guarantee :: "(string \<times> string) list option"
  qu_deserved :: "(string \<times> string) list option"
  qu_allocated :: "(string \<times> string) list option"
  qu_running :: rat
  qu_pending :: rat
  qu_inqueue :: rat
  qu_completed :: rat
  qu_unknown :: rat

subsection \<open>The queue shown first\<close>

definition initial_queue :: "QueueRow list \<Rightarrow> string option \<Rightarrow> string option" where
  "initial_queue items selectedQueue =
    (if selectedQueue \<noteq> None \<or> items = [] then selectedQueue
     else let initial = (case List.find (\<lambda>q. qu_name q = ''root'') items of
              Some q \<Rightarrow> qu_name q | None \<Rightarrow> qu_name (hd items))
          in if initial \<noteq> [] then Some initial else selectedQueue)"

subsection \<open>Name and children maps\<close>

definition by_name :: "QueueRow list \<Rightarrow> (string \<times> QueueRow) list" where
  "by_name queues = fold (\<lambda>q m. AList.update (qu_name q) q m) queues []"

definition parent_key :: "QueueRow \<Rightarrow> string" where
  "parent_key q = (case qu_parent q of None \<Rightarrow> [] | Some p \<Rightarrow> p)"

definition children_of :: "QueueRow list \<Rightarrow> (string \<times> QueueRow list) list" where
  "children_of queues = fold (\<lambda>q m. AList.update (parent_key q)
     ((case map_of m (parent_key q) of None \<Rightarrow> [] | Some arr \<Rightarrow> arr) @ [q]) m) queues []"

definition kids_of :: "(string \<times> QueueRow list) list \<Rightarrow> string \<Rightarrow> QueueRow list" where
  "kids_of m n = (case map_of m n of None \<Rightarrow> [] | Some arr \<Rightarrow> arr)"

subsection \<open>The options of the selector\<close>

record queue_option =
  qo_value :: string
  qo_depth :: nat
  qo_tag :: "string option"

definition queue_label :: "QueueRow \<Rightarrow> nat \<Rightarrow> queue_option" where
  "queue_label q d = \<lparr>qo_value = qu_name q, qo_depth = d,
     qo_tag = (if qu_state q \<noteq> [] \<and> qu_state q \<noteq> ''Open'' then Some (qu_state q) else None)\<rparr>"

text \<open>visit on a list of queues of one depth; None is a recursion without end.\<close>

partial_function (option) visit ::
  "(string \<Rightarrow> 'k::linorder) \<Rightarrow> (string \<times> QueueRow list) list \<Rightarrow> nat \<Rightarrow> QueueRow list \<Rightarrow> queue_option list option"
where
  "visit collate m d qs =
    (case qs of
       [] \<Rightarrow> Some []
     | q # rest \<Rightarrow>
         Option.bind (visit collate m (Suc d) (sort_key (\<lambda>k. collate (qu_name k)) (kids_of m (qu_name q)))) (\<lambda>a.
         Option.bind (visit collate m d rest) (\<lambda>b.
         Some (queue_label q d # a @ b))))"

definition root_queues :: "(string \<Rightarrow> 'k::linorder) \<Rightarrow> QueueRow list \<Rightarrow> QueueRow list" where
  "root_queues collate queues = sort_key (\<lambda>q. collate (qu_name q))
     (filter (\<lambda>q. parent_key q = [] \<or> map_of (by_name queues) (parent_key q) = None) queues)"

definition queue_options :: "(string \<Rightarrow> 'k::linorder) \<Rightarrow> QueueRow list \<Rightarrow> queue_option list option" where
  "queue_options collate queues = visit collate (children_of queues) 0 (root_queues collate queues)"

definition selected_children :: "(string \<Rightarrow> 'k::linorder) \<Rightarrow> QueueRow list \<Rightarrow> string option \<Rightarrow> QueueRow list" where
  "selected_children collate queues selectedQueue =
    (case selectedQueue of None \<Rightarrow> [] | Some n \<Rightarrow>
       if n = [] then [] else sort_key (\<lambda>q. collate (qu_name q)) (kids_of (children_of queues) n))"

subsection \<open>countDescendants\<close>

definition row_names :: "(string \<times> QueueRow list) list \<Rightarrow> QueueRow list \<Rightarrow> string set" where
  "row_names m stack = qu_name ` (set stack \<union> \<Union> (set ` snd ` set m))"

lemma finite_row_names [simp]: "finite (row_names m stack)"
  by (simp add: row_names_def)

lemma kids_of_names: "kids_of m n \<noteq> [] \<Longrightarrow> set (kids_of m n) \<subseteq> \<Union> (set ` snd ` set m)"
  by (auto simp: kids_of_def split: option.splits dest!: map_of_SomeD)

text \<open>The loop, with the top of the stack first; seen is the set of names.\<close>

function count_loop :: "(string \<times> QueueRow list) list \<Rightarrow> string list \<Rightarrow> QueueRow list \<Rightarrow> nat" where
  "count_loop m seen [] = length seen"
| "count_loop m seen (q # stack) =
    (if qu_name q \<in> set seen then count_loop m seen stack
     else count_loop m (qu_name q # seen) (rev (kids_of m (qu_name q)) @ stack))"
  by pat_completeness auto

termination
proof (relation "inv_image (finite_psubset <*lex*> less_than)
    (\<lambda>(m, seen, stack). (row_names m stack - set seen, length stack))", goal_cases)
  case 1
  show ?case by (intro wf_inv_image wf_lex_prod wf_finite_psubset wf_less_than)
next
  case (2 m seen q stack)
  have "row_names m stack - set seen = row_names m (q # stack) - set seen"
    using 2 by (auto simp: row_names_def)
  then show ?case by simp
next
  case (3 m seen q stack)
  have "row_names m (rev (kids_of m (qu_name q)) @ stack) \<subseteq> row_names m (q # stack)"
    using kids_of_names[of m "qu_name q"] by (cases "kids_of m (qu_name q) = []") (auto simp: row_names_def)
  moreover have "qu_name q \<in> row_names m (q # stack)" by (simp add: row_names_def)
  ultimately have "row_names m (rev (kids_of m (qu_name q)) @ stack) - set (qu_name q # seen)
      \<subset> row_names m (q # stack) - set seen"
    using 3 by auto
  then show ?case by (simp add: finite_psubset_def)
qed

definition countDescendants :: "QueueRow list \<Rightarrow> (string \<times> QueueRow list) list \<Rightarrow> nat" where
  "countDescendants roots m = count_loop m [] (rev roots)"

subsection \<open>Resource rows\<close>

record resource_info =
  ri_key :: string
  ri_unit :: "string option"
  ri_scale :: "rat option"

definition KNOWN_RESOURCES :: "resource_info list" where
  "KNOWN_RESOURCES = [
    \<lparr>ri_key = ''cpu'', ri_unit = Some ''cores'', ri_scale = None\<rparr>,
    \<lparr>ri_key = ''memory'', ri_unit = Some ''GiB'', ri_scale = Some (1 / 1024 ^ 3)\<rparr>,
    \<lparr>ri_key = ''nvidia.com/gpu'', ri_unit = Some ''cards'', ri_scale = None\<rparr>,
    \<lparr>ri_key = ''volcano.sh/vgpu-number'', ri_unit = None, ri_scale = None\<rparr>,
    \<lparr>ri_key = ''volcano.sh/vgpu-memory'', ri_unit = Some ''MiB'', ri_scale = None\<rparr>,
    \<lparr>ri_key = ''volcano.sh/vgpu-cores'', ri_unit = Some ''%'', ri_scale = None\<rparr>]"

definition resourceMeta :: "string \<Rightarrow> string option \<times> rat" where
  "resourceMeta key = (case List.find (\<lambda>r. ri_key r = key) KNOWN_RESOURCES of
     None \<Rightarrow> (None, 1)
   | Some hit \<Rightarrow> (ri_unit hit, case ri_scale hit of None \<Rightarrow> 1 | Some s \<Rightarrow> s))"

definition known_index :: "string \<Rightarrow> nat" where
  "known_index k = length (takeWhile (\<lambda>r. ri_key r \<noteq> k) KNOWN_RESOURCES)"

text \<open>Array.prototype.sort without a comparator.\<close>

fun insert_unit :: "string \<Rightarrow> string list \<Rightarrow> string list" where
  "insert_unit x [] = [x]"
| "insert_unit x (y # ys) =
    (if units_le (code_units x) (code_units y) then x # y # ys else y # insert_unit x ys)"

definition sort_units :: "string list \<Rightarrow> string list" where
  "sort_units xs = foldr insert_unit xs []"

definition sortResourceKeys :: "string list \<Rightarrow> string list" where
  "sortResourceKeys keys =
    (let known = map ri_key KNOWN_RESOURCES
     in sort_key known_index (filter (\<lambda>k. k \<in> set known) keys) @
        sort_units (filter (\<lambda>k. k \<notin> set known) keys))"

definition map_keys :: "(string \<times> string) list option \<Rightarrow> string list" where
  "map_keys m = (case m of None \<Rightarrow> [] | Some ps \<Rightarrow> map fst ps)"

definition queue_resources :: "QueueRow \<Rightarrow> string list" where
  "queue_resources q = sortResourceKeys (nub (map_keys (qu_capability q) @ map_keys (qu_guarantee q)
     @ map_keys (qu_allocated q) @ map_keys (qu_deserved q)))"

definition clamp01 :: "rat \<Rightarrow> rat" where
  "clamp01 x = (if x < 0 then 0 else if x > 1 then 1 else x)"

record quota_row =
  qq_alloc :: rat
  qq_cap :: rat
  qq_guar :: rat
  qq_des :: rat
  qq_usingClusterCap :: bool
  qq_unbounded :: bool
  qq_overcommit :: bool
  qq_unmetGuarantee :: bool
  qq_allocPct :: rat
  qq_guarPct :: rat
  qq_desPct :: rat
  qq_fillColor :: string

definition quota_of :: "color_token \<Rightarrow> string \<Rightarrow> string option \<Rightarrow> string option \<Rightarrow> string option \<Rightarrow>
    string option \<Rightarrow> string option \<Rightarrow> quota_row" where
  "quota_of token key capability guarantee allocated deserved clusterCap =
    (let scale = snd (resourceMeta key);
         allocN = parseQuantity allocated * scale;
         explicitCapN = parseQuantity capability * scale;
         clusterCapN = parseQuantity clusterCap * scale;
         guarN = parseQuantity guarantee * scale;
         desN = parseQuantity deserved * scale;
         capN = (if explicitCapN > 0 then explicitCapN else clusterCapN);
         unbounded = (capN \<le> 0);
         unmet = (guarN > 0 \<and> allocN < guarN);
         denom = (if unbounded then 1 else capN);
         allocPct = (if unbounded then 0 else clamp01 (allocN / denom))
     in \<lparr>qq_alloc = allocN, qq_cap = capN, qq_guar = guarN, qq_des = desN,
         qq_usingClusterCap = (explicitCapN \<le> 0 \<and> clusterCapN > 0),
         qq_unbounded = unbounded,
         qq_overcommit = (\<not> unbounded \<and> allocN > capN),
         qq_unmetGuarantee = unmet,
         qq_allocPct = allocPct,
         qq_guarPct = (if unbounded then 0 else if guarN > 0 then clamp01 (guarN / denom) else 0),
         qq_desPct = (if unbounded then 0 else if desN > 0 then clamp01 (desN / denom) else 0),
         qq_fillColor = (if unmet then ct_colorWarning token else usageColor (Some allocPct) token)\<rparr>)"


subsection \<open>The maps\<close>

lemma kids_of_children: "kids_of (children_of queues) n = filter (\<lambda>q. parent_key q = n) queues"
proof (induction queues rule: rev_induct)
  case Nil
  show ?case by (simp add: children_of_def kids_of_def)
next
  case (snoc q queues)
  have "children_of (queues @ [q]) = AList.update (parent_key q)
      (kids_of (children_of queues) (parent_key q) @ [q]) (children_of queues)"
    by (simp add: children_of_def kids_of_def)
  with snoc show ?case by (auto simp: kids_of_def[of "AList.update _ _ _"] update_conv') (auto simp: kids_of_def)
qed

lemma by_name_None: "map_of (by_name queues) n = None \<longleftrightarrow> n \<notin> qu_name ` set queues"
  by (induction queues rule: rev_induct) (auto simp: by_name_def update_conv')

subsection \<open>Depth in the tree\<close>

definition root_queue :: "QueueRow list \<Rightarrow> QueueRow \<Rightarrow> bool" where
  "root_queue queues q \<longleftrightarrow> q \<in> set queues \<and> (parent_key q = [] \<or> parent_key q \<notin> qu_name ` set queues)"

text \<open>The queue is d steps below a root; a queue in or below a cycle has no depth.\<close>

inductive at_depth :: "QueueRow list \<Rightarrow> nat \<Rightarrow> QueueRow \<Rightarrow> bool" for queues where
  depth_root: "root_queue queues q \<Longrightarrow> at_depth queues 0 q"
| depth_child: "at_depth queues d p \<Longrightarrow> q \<in> set queues \<Longrightarrow> parent_key q = qu_name p \<Longrightarrow>
    parent_key q \<noteq> [] \<Longrightarrow> at_depth queues (Suc d) q"

inductive_simps at_depth_0: "at_depth queues 0 q"
inductive_simps at_depth_Suc: "at_depth queues (Suc d) q"

definition proper_names :: "QueueRow list \<Rightarrow> bool" where
  "proper_names queues \<longleftrightarrow> distinct (map qu_name queues) \<and> [] \<notin> qu_name ` set queues"

lemma proper_name_eq:
  "proper_names queues \<Longrightarrow> p \<in> set queues \<Longrightarrow> q \<in> set queues \<Longrightarrow> qu_name p = qu_name q \<Longrightarrow> p = q"
  by (auto simp: proper_names_def distinct_map inj_on_def)

lemma proper_names_nonempty: "proper_names queues \<Longrightarrow> q \<in> set queues \<Longrightarrow> qu_name q \<noteq> []"
  by (force simp: proper_names_def)

lemma at_depth_in: "at_depth queues d q \<Longrightarrow> q \<in> set queues"
  by (induction rule: at_depth.induct) (auto simp: root_queue_def)

lemma at_depth_unique:
  assumes "proper_names queues" "at_depth queues d q" "at_depth queues e q"
  shows "d = e"
  using assms(2,3)
proof (induction arbitrary: e rule: at_depth.induct)
  case (depth_root q)
  then show ?case
    by (cases e) (auto simp: root_queue_def at_depth_Suc dest: at_depth_in)
next
  case (depth_child d p q)
  then obtain f r where "e = Suc f" "at_depth queues f r" "parent_key q = qu_name r"
    by (cases e) (auto simp: at_depth_Suc at_depth_0 root_queue_def dest: at_depth_in)
  moreover from this depth_child have "r = p"
    using proper_name_eq[OF assms(1)] at_depth_in by metis
  ultimately show ?case using depth_child.IH by simp
qed

lemma at_depth_bound:
  assumes "proper_names queues" "at_depth queues d q"
  shows "d < length queues"
proof -
  have "\<exists>S. S \<subseteq> set queues \<and> card S = Suc d \<and> (\<forall>x \<in> S. \<exists>e \<le> d. at_depth queues e x)"
    using assms(2)
  proof (induction rule: at_depth.induct)
    case (depth_root q)
    then show ?case
      by (intro exI[of _ "{q}"]) (auto simp: root_queue_def intro: at_depth.depth_root)
  next
    case (depth_child d p q)
    then obtain S where S: "S \<subseteq> set queues" "card S = Suc d" "\<forall>x \<in> S. \<exists>e \<le> d. at_depth queues e x"
      by blast
    have q: "at_depth queues (Suc d) q" using depth_child.hyps by (rule at_depth.depth_child)
    then have "q \<notin> S" using S(3) at_depth_unique[OF assms(1)] by fastforce
    moreover have "finite S" using S(1) by (rule finite_subset) simp
    ultimately show ?case
      using S q depth_child.hyps(2) by (intro exI[of _ "insert q S"]) (auto, metis le_SucI)
  qed
  then obtain S where "S \<subseteq> set queues" "card S = Suc d" by blast
  then have "Suc d \<le> card (set queues)" by (metis card_mono finite_set)
  then show ?thesis using card_length[of queues] by simp
qed

subsection \<open>The subtree of a queue\<close>

inductive below :: "QueueRow list \<Rightarrow> QueueRow \<Rightarrow> QueueRow \<Rightarrow> bool" for queues q where
  below_refl: "below queues q q"
| below_child: "below queues q p \<Longrightarrow> x \<in> set queues \<Longrightarrow> parent_key x = qu_name p \<Longrightarrow> below queues q x"

lemma below_depth:
  assumes "below queues q x" "at_depth queues d q" "proper_names queues"
  shows "\<exists>e. d \<le> e \<and> at_depth queues e x \<and> (e = d \<longrightarrow> x = q)"
  using assms(1,2)
proof (induction rule: below.induct)
  case (below_child p x)
  then obtain e where e: "d \<le> e" "at_depth queues e p" by blast
  then have "parent_key x \<noteq> []"
    using below_child.hyps(3) at_depth_in[OF e(2)] assms(3) by (simp add: proper_names_nonempty)
  then have "at_depth queues (Suc e) x" using e below_child.hyps by (auto intro: depth_child)
  with e(1) show ?case by (intro exI[of _ "Suc e"]) simp
qed auto

lemma below_unfold:
  "below queues q x \<longleftrightarrow> x = q \<or> (\<exists>k \<in> set queues. parent_key k = qu_name q \<and> below queues k x)"
proof
  assume "below queues q x"
  then show "x = q \<or> (\<exists>k \<in> set queues. parent_key k = qu_name q \<and> below queues k x)"
    by (induction rule: below.induct) (auto intro: below.intros)
next
  assume "x = q \<or> (\<exists>k \<in> set queues. parent_key k = qu_name q \<and> below queues k x)"
  moreover have "below queues q x"
    if "below queues k x" "k \<in> set queues" "parent_key k = qu_name q" for k
    using that by (induction rule: below.induct) (auto intro: below.intros)
  ultimately show "below queues q x" by (auto intro: below.intros)
qed

lemma below_same_depth:
  assumes "proper_names queues" "below queues p x" "below queues q x" "at_depth queues d p" "at_depth queues d q"
  shows "p = q"
  using assms(2-5)
proof (induction rule: below.induct)
  case below_refl
  then show ?case using below_depth[OF below_refl(1) below_refl(3) assms(1)] at_depth_unique[OF assms(1)] by blast
next
  case (below_child y x)
  obtain e where e: "d \<le> e" "at_depth queues e y" using below_depth[OF below_child.hyps(1) below_child.prems(2) assms(1)] by blast
  have y: "y \<in> set queues" using e(2) by (rule at_depth_in)
  from below_child.prems(1) consider "x = q" | z where "below queues q z" "parent_key x = qu_name z"
    by cases auto
  then show ?case
  proof cases
    case 1
    then have "at_depth queues (Suc e) q"
      using below_child.hyps y assms(1) proper_names_nonempty
      by (intro at_depth.depth_child[OF e(2)]) auto
    then show ?thesis using at_depth_unique[OF assms(1) below_child.prems(3)] e(1) by fastforce
  next
    case 2
    then have "z \<in> set queues"
      using below_depth[OF 2(1) below_child.prems(3) assms(1)] at_depth_in by blast
    then have "z = y" using proper_name_eq[OF assms(1)] y 2(2) below_child.hyps(3) by simp
    then show ?thesis using below_child.IH below_child.prems 2(1) by simp
  qed
qed


subsection \<open>The listing of a forest\<close>

text \<open>The row above at one level less, with only deeper rows between, is the parent.\<close>

definition has_parent :: "QueueRow list \<Rightarrow> queue_option list \<Rightarrow> nat \<Rightarrow> bool" where
  "has_parent queues out i \<longleftrightarrow> (\<exists>j < i. Suc (qo_depth (out ! j)) = qo_depth (out ! i) \<and>
     (\<exists>x \<in> set queues. qu_name x = qo_value (out ! i) \<and> parent_key x = qo_value (out ! j)) \<and>
     (\<forall>k. j < k \<longrightarrow> k < i \<longrightarrow> qo_depth (out ! j) < qo_depth (out ! k)))"

definition indented :: "QueueRow list \<Rightarrow> nat \<Rightarrow> queue_option list \<Rightarrow> bool" where
  "indented queues d out \<longleftrightarrow> (\<forall>i < length out. d \<le> qo_depth (out ! i) \<and>
     (d < qo_depth (out ! i) \<longrightarrow> has_parent queues out i))"

lemma has_parent_append1:
  assumes "i < length a" "has_parent queues a i"
  shows "has_parent queues (a @ b) i"
proof -
  obtain j where "j < i" "Suc (qo_depth (a ! j)) = qo_depth (a ! i)"
    "\<exists>x \<in> set queues. qu_name x = qo_value (a ! i) \<and> parent_key x = qo_value (a ! j)"
    "\<forall>k. j < k \<longrightarrow> k < i \<longrightarrow> qo_depth (a ! j) < qo_depth (a ! k)"
    using assms(2) by (auto simp: has_parent_def)
  with assms(1) show ?thesis unfolding has_parent_def
    by (intro exI[of _ j]) (simp add: nth_append)
qed

lemma has_parent_append2:
  assumes "has_parent queues b i"
  shows "has_parent queues (a @ b) (length a + i)"
proof -
  obtain j where j: "j < i" "Suc (qo_depth (b ! j)) = qo_depth (b ! i)"
    "\<exists>x \<in> set queues. qu_name x = qo_value (b ! i) \<and> parent_key x = qo_value (b ! j)"
    "\<forall>k. j < k \<longrightarrow> k < i \<longrightarrow> qo_depth (b ! j) < qo_depth (b ! k)"
    using assms by (auto simp: has_parent_def)
  have "qo_depth (b ! j) < qo_depth ((a @ b) ! k)" if "length a + j < k" "k < length a + i" for k
    using j(4)[rule_format, of "k - length a"] that by (auto simp: nth_append)
  with j(1-3) show ?thesis unfolding has_parent_def
    by (intro exI[of _ "length a + j"]) simp
qed

lemma indented_append: "indented queues d a \<Longrightarrow> indented queues d b \<Longrightarrow> indented queues d (a @ b)"
  unfolding indented_def
proof (intro allI impI)
  fix i
  assume a: "\<forall>i < length a. d \<le> qo_depth (a ! i) \<and> (d < qo_depth (a ! i) \<longrightarrow> has_parent queues a i)"
    and b: "\<forall>i < length b. d \<le> qo_depth (b ! i) \<and> (d < qo_depth (b ! i) \<longrightarrow> has_parent queues b i)"
    and i: "i < length (a @ b)"
  show "d \<le> qo_depth ((a @ b) ! i) \<and> (d < qo_depth ((a @ b) ! i) \<longrightarrow> has_parent queues (a @ b) i)"
  proof (cases "i < length a")
    case True
    with a show ?thesis by (simp add: nth_append has_parent_append1)
  next
    case False
    then obtain n where n: "i = length a + n" using le_Suc_ex by (metis not_less)
    with i have "n < length b" by simp
    with b n show ?thesis using has_parent_append2[of queues b n a] by simp
  qed
qed

lemma indented_subtree:
  assumes "indented queues (Suc d) a" "qo_depth o1 = d"
    "\<And>i. i < length a \<Longrightarrow> qo_depth (a ! i) = Suc d \<Longrightarrow>
      \<exists>x \<in> set queues. qu_name x = qo_value (a ! i) \<and> parent_key x = qo_value o1"
  shows "indented queues d (o1 # a)"
  unfolding indented_def
proof (intro allI impI)
  fix i assume i: "i < length (o1 # a)"
  show "d \<le> qo_depth ((o1 # a) ! i) \<and> (d < qo_depth ((o1 # a) ! i) \<longrightarrow> has_parent queues (o1 # a) i)"
  proof (cases i)
    case 0
    then show ?thesis using assms(2) by simp
  next
    case (Suc n)
    with i have n: "n < length a" by simp
    with assms(1) have g: "Suc d \<le> qo_depth (a ! n)" by (simp add: indented_def)
    have "has_parent queues (o1 # a) i"
    proof (cases "qo_depth (a ! n) = Suc d")
      case True
      have "qo_depth o1 < qo_depth ((o1 # a) ! k)" if "0 < k" "k < i" for k
        using that n Suc assms(1,2) by (cases k) (auto simp: indented_def Suc_le_eq)
      with True Suc assms(2) assms(3)[OF n True] show ?thesis
        unfolding has_parent_def by (intro exI[of _ 0]) simp
    next
      case False
      with g have "Suc d < qo_depth (a ! n)" by simp
      with n assms(1) have "has_parent queues a n" unfolding indented_def by blast
      then show ?thesis using has_parent_append2[of queues a n "[o1]"] Suc by simp
    qed
    with g Suc show ?thesis by simp
  qed
qed

text \<open>What the walk over queues of depth d produces.\<close>

definition lists_subtrees :: "QueueRow list \<Rightarrow> nat \<Rightarrow> QueueRow list \<Rightarrow> queue_option list \<Rightarrow> bool" where
  "lists_subtrees queues d xs out \<longleftrightarrow>
     set out = {queue_label x e | x e. at_depth queues e x \<and> (\<exists>q \<in> set xs. below queues q x)} \<and>
     (distinct xs \<longrightarrow> distinct (map qo_value out)) \<and> indented queues d out"

lemma queue_label_simps [simp]:
  "qo_value (queue_label x e) = qu_name x" "qo_depth (queue_label x e) = e"
  by (simp_all add: queue_label_def)

lemma kid_depth:
  "proper_names queues \<Longrightarrow> at_depth queues d q \<Longrightarrow> k \<in> set queues \<Longrightarrow> parent_key k = qu_name q \<Longrightarrow>
   at_depth queues (Suc d) k"
  by (metis depth_child proper_names_nonempty at_depth_in)

lemma lists_Nil: "lists_subtrees queues d [] []"
  by (simp add: lists_subtrees_def indented_def)

lemma lists_Cons:
  assumes p: "proper_names queues" and q: "at_depth queues d q" and xs: "list_all (at_depth queues d) xs"
    and ks: "set ks = {k \<in> set queues. parent_key k = qu_name q}" "distinct ks"
    and a: "lists_subtrees queues (Suc d) ks a" and b: "lists_subtrees queues d xs b"
  shows "lists_subtrees queues d (q # xs) (queue_label q d # a @ b)"
proof -
  have kd: "at_depth queues (Suc d) k" if "k \<in> set ks" for k
    using that ks(1) kid_depth[OF p q] by simp
  have kp: "parent_key k = qu_name q" if "k \<in> set ks" for k using that ks(1) by simp
  let ?A = "{queue_label x e | x e. at_depth queues e x \<and> (\<exists>k \<in> set ks. below queues k x)}"
  let ?B = "{queue_label x e | x e. at_depth queues e x \<and> (\<exists>y \<in> set xs. below queues y x)}"
  have sa: "set a = ?A" and sb: "set b = ?B" using a b by (simp_all add: lists_subtrees_def)
  have bq: "below queues q x \<longleftrightarrow> x = q \<or> (\<exists>k \<in> set ks. below queues k x)" for x
    unfolding below_unfold[of queues q x] ks(1) by blast
  have "{queue_label x e | x e. at_depth queues e x \<and> below queues q x} = insert (queue_label q d) ?A"
    unfolding bq using q at_depth_unique[OF p q] by blast
  moreover have "{queue_label x e | x e. at_depth queues e x \<and> (\<exists>y \<in> set (q # xs). below queues y x)} =
      {queue_label x e | x e. at_depth queues e x \<and> below queues q x} \<union> ?B"
    unfolding set_simps by blast
  ultimately have s: "set (queue_label q d # a @ b) =
      {queue_label x e | x e. at_depth queues e x \<and> (\<exists>y \<in> set (q # xs). below queues y x)}"
    by (simp add: sa sb)
  have da: "\<exists>x e. Suc d \<le> e \<and> at_depth queues e x \<and> below queues q x \<and> v = qu_name x"
    if v: "v \<in> set (map qo_value a)" for v
  proof -
    obtain x e k where x: "at_depth queues e x" "k \<in> set ks" "below queues k x" "v = qu_name x"
    proof -
      obtain r where r: "r \<in> set a" "v = qo_value r" using v by auto
      then have "r \<in> ?A" using sa by simp
      then show thesis using that r(2) by auto
    qed
    moreover have "Suc d \<le> e"
      using below_depth[OF x(3) kd[OF x(2)] p] at_depth_unique[OF p x(1)] by blast
    moreover have "below queues q x" using x ks(1) unfolding below_unfold[of queues q x] by blast
    ultimately show ?thesis by blast
  qed
  have distinct: "distinct (map qo_value (queue_label q d # a @ b))" if d: "distinct (q # xs)"
  proof -
    have "qu_name q \<notin> set (map qo_value a)"
      using da proper_name_eq[OF p] at_depth_in q at_depth_unique[OF p q] by (metis not_less_eq_eq order_refl)
    moreover have "set (map qo_value (queue_label q d # a)) \<inter> set (map qo_value b) = {}"
    proof (rule ccontr)
      assume "\<not> ?thesis"
      then obtain v where v: "v \<in> set (map qo_value (queue_label q d # a))" "v \<in> set (map qo_value b)" by blast
      obtain x where x: "below queues q x" "x \<in> set queues" "v = qu_name x"
      proof (cases "v = qu_name q")
        case True
        then show thesis using that[of q] at_depth_in[OF q] by (simp add: below_refl)
      next
        case False
        then show thesis using v(1) da[of v] that at_depth_in by auto
      qed
      obtain y z where y: "y \<in> set xs" "below queues y z" "z \<in> set queues" "v = qu_name z"
        proof -
        obtain r where r: "r \<in> set b" "v = qo_value r" using v(2) by auto
        then have "r \<in> ?B" using sb by simp
        then show thesis using that r(2) at_depth_in by auto
      qed
      have "z = x" using x y proper_name_eq[OF p] by metis
      then have "q = y" using below_same_depth[OF p x(1)] y(1,2) q xs by (simp add: list_all_iff)
      with y(1) d show False by simp
    qed
    ultimately show ?thesis using a b ks(2) d by (auto simp: lists_subtrees_def)
  qed
  have "\<exists>x \<in> set queues. qu_name x = qo_value (a ! i) \<and> parent_key x = qo_value (queue_label q d)"
    if i: "i < length a" "qo_depth (a ! i) = Suc d" for i
  proof -
    have "a ! i \<in> ?A" using i(1) sa nth_mem by blast
    then obtain x k where x: "a ! i = queue_label x (Suc d)" "at_depth queues (Suc d) x"
      "k \<in> set ks" "below queues k x" using i(2) by auto
    then have "x = k"
      using below_depth[of queues k x "Suc d"] kd[of k] p at_depth_unique[OF p, of _ x] by metis
    then show ?thesis using x(1,3) kp[OF x(3)] ks(1) by (intro bexI[of _ k]) simp_all
  qed
  then have "indented queues d (queue_label q d # a)"
    using a by (intro indented_subtree) (auto simp: lists_subtrees_def)
  then have "indented queues d ((queue_label q d # a) @ b)"
    using b by (intro indented_append) (auto simp: lists_subtrees_def)
  then show ?thesis using s distinct by (simp add: lists_subtrees_def)
qed

lemma visit_lists:
  assumes p: "proper_names queues"
  shows "list_all (at_depth queues d) xs \<Longrightarrow>
    \<exists>out. visit collate (children_of queues) d xs = Some out \<and> lists_subtrees queues d xs out"
proof (induction "length queues - d" arbitrary: d xs rule: less_induct)
  case less
  show ?case
    using less.prems
  proof (induction xs)
    case Nil
    show ?case using lists_Nil by (subst visit.simps) auto
  next
    case (Cons q xs)
    let ?ks = "sort_key (\<lambda>k. collate (qu_name k)) (kids_of (children_of queues) (qu_name q))"
    have q: "at_depth queues d q" using Cons.prems by simp
    have ks: "set ?ks = {k \<in> set queues. parent_key k = qu_name q}" "distinct ?ks"
      using p by (auto simp: kids_of_children proper_names_def distinct_map)
    have "list_all (at_depth queues (Suc d)) ?ks"
      unfolding list_all_iff ks(1) using kid_depth[OF p q] by blast
    moreover have "length queues - Suc d < length queues - d" using at_depth_bound[OF p q] by simp
    ultimately obtain a where a: "visit collate (children_of queues) (Suc d) ?ks = Some a"
      "lists_subtrees queues (Suc d) ?ks a" using less.hyps by blast
    obtain b where b: "visit collate (children_of queues) d xs = Some b" "lists_subtrees queues d xs b"
      using Cons by auto
    have "visit collate (children_of queues) d (q # xs) = Some (queue_label q d # a @ b)"
      by (subst visit.simps) (simp add: a b)
    moreover have "lists_subtrees queues d (q # xs) (queue_label q d # a @ b)"
      using Cons.prems by (intro lists_Cons[OF p q _ ks a(2) b(2)]) simp
    ultimately show ?case by blast
  qed
qed


lemma roots_depth: "proper_names queues \<Longrightarrow> set (root_queues collate queues) = {q. at_depth queues 0 q}"
  by (auto simp: root_queues_def by_name_None at_depth_0 root_queue_def)

lemma at_depth_below_root:
  "at_depth queues e x \<Longrightarrow> \<exists>q. at_depth queues 0 q \<and> below queues q x"
  by (induction rule: at_depth.induct) (auto intro: at_depth.intros below.intros)

text \<open>C14. The walk that lists the queues ends, whatever the parents are, and the
  list is the tree: every queue that descends from a root appears exactly once,
  indented by its depth, with its parent as the last row above it that is
  indented less; a queue in or below a cycle of parents is not offered.\<close>

theorem queue_options_list_the_tree:
  assumes "proper_names queues"
  shows "\<exists>out. queue_options collate queues = Some out \<and>
    set out = {queue_label x d | x d. at_depth queues d x} \<and> distinct (map qo_value out) \<and>
    (\<forall>i < length out. 0 < qo_depth (out ! i) \<longrightarrow> has_parent queues out i)"
proof -
  have "list_all (at_depth queues 0) (root_queues collate queues)"
    using roots_depth[OF assms, of collate] by (simp add: list_all_iff)
  then obtain out where out: "queue_options collate queues = Some out"
      "lists_subtrees queues 0 (root_queues collate queues) out"
    using visit_lists[OF assms, of 0 "root_queues collate queues" collate] unfolding queue_options_def by blast
  have "distinct (root_queues collate queues)"
    using assms by (auto simp: root_queues_def proper_names_def distinct_map)
  then have d: "distinct (map qo_value out)"
      "\<forall>i < length out. 0 < qo_depth (out ! i) \<longrightarrow> has_parent queues out i"
    using out(2) by (simp_all add: lists_subtrees_def indented_def)
  have "set out = {queue_label x e | x e. at_depth queues e x \<and> (\<exists>q \<in> {q. at_depth queues 0 q}. below queues q x)}"
    using out(2) unfolding lists_subtrees_def roots_depth[OF assms] by (rule conjunct1)
  also have "\<dots> = {queue_label x e | x e. at_depth queues e x}"
    using at_depth_below_root[of queues] by blast
  finally show ?thesis using out(1) d by blast
qed

definition sample_queue :: "string \<Rightarrow> string option \<Rightarrow> QueueRow" where
  "sample_queue n p = \<lparr>qu_name = n, qu_uid = [], qu_creationTimestamp = [], qu_parent = p, qu_state = ''Open'',
     qu_priority = None, qu_weight = 1, qu_reclaimable = None, qu_capability = None, qu_guarantee = None,
     qu_deserved = None, qu_allocated = None, qu_running = 0, qu_pending = 0, qu_inqueue = 0,
     qu_completed = 0, qu_unknown = 0\<rparr>"

lemma queue_options_list_the_tree_witness:
  "let queues = [sample_queue ''team-b'' (Some ''root''), sample_queue ''root'' None,
      sample_queue ''x'' (Some ''y''), sample_queue ''y'' (Some ''x'')] in
   \<exists>out. queue_options length queues = Some out \<and>
    set out = {queue_label x d | x d. at_depth queues d x} \<and> distinct (map qo_value out) \<and>
    (\<forall>i < length out. 0 < qo_depth (out ! i) \<longrightarrow> has_parent queues out i)"
  unfolding Let_def
  by (rule queue_options_list_the_tree) (simp add: proper_names_def sample_queue_def)

subsection \<open>The count of subqueues\<close>

definition name_step :: "(string \<times> QueueRow list) list \<Rightarrow> (string \<times> string) set" where
  "name_step m = {(n, qu_name k) | n k. k \<in> set (kids_of m n)}"

lemma count_loop_reach:
  assumes "distinct seen"
    "\<And>n k. n \<in> set seen \<Longrightarrow> k \<in> set (kids_of m n) \<Longrightarrow> qu_name k \<in> set seen \<union> qu_name ` set stack"
  shows "count_loop m seen stack = card ((name_step m)\<^sup>* `` (set seen \<union> qu_name ` set stack))"
  using assms
proof (induction m seen stack rule: count_loop.induct)
  case (1 m seen)
  have "name_step m `` set seen \<subseteq> set seen" using 1(2) by (auto simp: name_step_def)
  then have "(name_step m)\<^sup>* `` set seen = set seen" by (rule Image_closed_trancl)
  then show ?case using 1(1) by (simp add: distinct_card)
next
  case (2 m seen q stack)
  let ?R = "name_step m"
  show ?case
  proof (cases "qu_name q \<in> set seen")
    case True
    then have "set seen \<union> qu_name ` set (q # stack) = set seen \<union> qu_name ` set stack" by auto
    then show ?thesis using True 2 by auto
  next
    case False
    let ?st = "rev (kids_of m (qu_name q)) @ stack"
    let ?A = "set (qu_name q # seen) \<union> qu_name ` set ?st" and ?B = "set seen \<union> qu_name ` set (q # stack)"
    have "?A \<subseteq> ?R\<^sup>* `` ?B" by (auto simp: name_step_def)
    then have "?R\<^sup>* `` ?A \<subseteq> ?R\<^sup>* `` (?R\<^sup>* `` ?B)" by (rule Image_mono[OF order_refl])
    also have "\<dots> = ?R\<^sup>* `` ?B" unfolding relcomp_Image[symmetric] by (simp only: rtrancl_idemp_self_comp)
    finally have "?R\<^sup>* `` ?A \<subseteq> ?R\<^sup>* `` ?B" .
    moreover have "?R\<^sup>* `` ?B \<subseteq> ?R\<^sup>* `` ?A" by auto
    ultimately have "?R\<^sup>* `` ?A = ?R\<^sup>* `` ?B" by blast
    moreover have "count_loop m (qu_name q # seen) ?st = card (?R\<^sup>* `` ?A)"
      by (rule 2(2)[OF False]) (use 2(3,4) False in auto)
    ultimately show ?thesis using False by simp
  qed
qed

lemma name_step_iff:
  "(n, v) \<in> name_step (children_of queues) \<longleftrightarrow> (\<exists>k \<in> set queues. parent_key k = n \<and> qu_name k = v)"
  by (auto simp: name_step_def kids_of_children)

lemma below_names: "below queues r x \<Longrightarrow> (qu_name r, qu_name x) \<in> (name_step (children_of queues))\<^sup>*"
proof (induction rule: below.induct)
  case (below_child p x)
  then have "(qu_name p, qu_name x) \<in> name_step (children_of queues)"
    unfolding name_step_iff by blast
  with below_child.IH show ?case by (rule rtrancl_into_rtrancl)
qed simp

lemma names_below:
  "(n, v) \<in> (name_step (children_of queues))\<^sup>* \<Longrightarrow> n = qu_name r \<Longrightarrow> \<exists>x. below queues r x \<and> v = qu_name x"
  by (induction rule: rtrancl_induct)
    (auto simp: name_step_iff intro: below.intros)

text \<open>The count of subqueues ends on every list of queues, cycles of parents
  included, and is the number of different names among the given queues and all
  that descend from them.\<close>

theorem countDescendants_counts_the_subtree:
  "countDescendants roots (children_of queues) =
   card {qu_name x | x. \<exists>r \<in> set roots. below queues r x}"
proof -
  let ?R = "name_step (children_of queues)"
  have "countDescendants roots (children_of queues) = card (?R\<^sup>* `` (qu_name ` set roots))"
    using count_loop_reach[of "[]" "children_of queues" "rev roots"] by (simp add: countDescendants_def)
  also have "?R\<^sup>* `` (qu_name ` set roots) = {qu_name x | x. \<exists>r \<in> set roots. below queues r x}"
    using below_names names_below by blast
  finally show ?thesis .
qed

subsection \<open>The numbers of a resource row\<close>

lemma clamp01_bounds: "0 \<le> clamp01 x \<and> clamp01 x \<le> 1"
  by (simp add: clamp01_def)

lemma clamp01_mono: "x \<le> y \<Longrightarrow> clamp01 x \<le> clamp01 y"
  by (simp add: clamp01_def)

lemma clamp01_ge1: "1 \<le> x \<Longrightarrow> clamp01 x = 1"
  by (simp add: clamp01_def)

lemma scale_pos: "0 < snd (resourceMeta key)"
  by (simp add: resourceMeta_def KNOWN_RESOURCES_def)

lemma quota_row_facts:
  fixes token :: color_token and key :: string
    and capability guarantee allocated deserved clusterCap :: "string option"
  defines "r \<equiv> quota_of token key capability guarantee allocated deserved clusterCap"
  shows "qq_allocPct r \<in> {0..1} \<and> qq_guarPct r \<in> {0..1} \<and> qq_desPct r \<in> {0..1} \<and>
    (qq_unbounded r \<longleftrightarrow> parseQuantity capability \<le> 0 \<and> parseQuantity clusterCap \<le> 0) \<and>
    (qq_usingClusterCap r \<longrightarrow> parseQuantity capability \<le> 0 \<and>
       qq_cap r = parseQuantity clusterCap * snd (resourceMeta key)) \<and>
    (qq_overcommit r \<longrightarrow> qq_allocPct r = 1 \<and> \<not> qq_unbounded r \<and>
       (\<not> qq_unmetGuarantee r \<longrightarrow> qq_fillColor r = ct_colorError token)) \<and>
    (qq_unmetGuarantee r \<longrightarrow> qq_fillColor r = ct_colorWarning token \<and>
       (\<not> qq_unbounded r \<longrightarrow> qq_allocPct r \<le> qq_guarPct r))"
proof -
  let ?s = "snd (resourceMeta key)"
  have s: "0 < ?s" by (rule scale_pos)
  have pos: "0 < parseQuantity c * ?s \<longleftrightarrow> 0 < parseQuantity c" "parseQuantity c * ?s \<le> 0 \<longleftrightarrow> parseQuantity c \<le> 0" for c
    using s by (auto simp: zero_less_mult_iff mult_le_0_iff)
  have "qq_allocPct r \<in> {0..1}" "qq_guarPct r \<in> {0..1}" "qq_desPct r \<in> {0..1}"
    using clamp01_bounds by (auto simp: r_def quota_of_def Let_def)
  moreover have "qq_unbounded r \<longleftrightarrow> parseQuantity capability \<le> 0 \<and> parseQuantity clusterCap \<le> 0"
    by (auto simp: r_def quota_of_def Let_def pos)
  moreover have "qq_usingClusterCap r \<longrightarrow> parseQuantity capability \<le> 0 \<and>
      qq_cap r = parseQuantity clusterCap * ?s"
    by (auto simp: r_def quota_of_def Let_def pos)
  moreover have "qq_overcommit r \<longrightarrow> qq_allocPct r = 1 \<and> \<not> qq_unbounded r \<and>
      (\<not> qq_unmetGuarantee r \<longrightarrow> qq_fillColor r = ct_colorError token)"
  proof
    assume o: "qq_overcommit r"
    then have u: "\<not> qq_unbounded r" and c: "0 < qq_cap r" "qq_cap r < qq_alloc r"
      by (auto simp: r_def quota_of_def Let_def)
    then have "1 \<le> qq_alloc r / qq_cap r" by simp
    moreover from u have "qq_allocPct r = clamp01 (qq_alloc r / qq_cap r)"
      by (auto simp: r_def quota_of_def Let_def)
    ultimately have a: "qq_allocPct r = 1" by (simp add: clamp01_ge1)
    moreover have "qq_fillColor r = (if qq_unmetGuarantee r then ct_colorWarning token
        else usageColor (Some (qq_allocPct r)) token)"
      unfolding r_def quota_of_def Let_def by (simp only: quota_row.simps)
    ultimately show "qq_allocPct r = 1 \<and> \<not> qq_unbounded r \<and>
        (\<not> qq_unmetGuarantee r \<longrightarrow> qq_fillColor r = ct_colorError token)"
      using u by (simp add: usageColor_def usageBand_def)
  qed
  moreover have "qq_unmetGuarantee r \<longrightarrow> qq_fillColor r = ct_colorWarning token \<and>
      (\<not> qq_unbounded r \<longrightarrow> qq_allocPct r \<le> qq_guarPct r)"
  proof (intro impI conjI)
    assume u: "qq_unmetGuarantee r"
    then show "qq_fillColor r = ct_colorWarning token" by (simp add: r_def quota_of_def Let_def)
    assume b: "\<not> qq_unbounded r"
    have g: "0 < qq_guar r" "qq_alloc r \<le> qq_guar r" using u by (auto simp: r_def quota_of_def Let_def)
    have c: "0 < qq_cap r" using b by (auto simp: r_def quota_of_def Let_def)
    have "qq_allocPct r = clamp01 (qq_alloc r / qq_cap r)" "qq_guarPct r = clamp01 (qq_guar r / qq_cap r)"
      using b g(1) by (auto simp: r_def quota_of_def Let_def)
    moreover have "qq_alloc r / qq_cap r \<le> qq_guar r / qq_cap r" using g c by (simp add: divide_right_mono)
    ultimately show "qq_allocPct r \<le> qq_guarPct r" by (simp add: clamp01_mono)
  qed
  ultimately show ?thesis by blast
qed

text \<open>The bar of a resource row is drawn inside its track and tells the truth:
  the fill and both ticks lie between 0 and 1; the row is unbounded only when
  neither the queue nor the cluster gives a positive bound, and the cluster's is
  used only when the queue has none; an overcommitted row is full, and red unless
  its guarantee is unmet; a queue below its guarantee is shown as a warning, and
  in a bounded row its fill does not pass the tick of the guarantee.\<close>

theorem quota_row_is_consistent:
  "let r = quota_of token key capability guarantee allocated deserved clusterCap in
    qq_allocPct r \<in> {0..1} \<and> qq_guarPct r \<in> {0..1} \<and> qq_desPct r \<in> {0..1} \<and>
    (qq_unbounded r \<longleftrightarrow> parseQuantity capability \<le> 0 \<and> parseQuantity clusterCap \<le> 0) \<and>
    (qq_usingClusterCap r \<longrightarrow> parseQuantity capability \<le> 0 \<and>
       qq_cap r = parseQuantity clusterCap * snd (resourceMeta key)) \<and>
    (qq_overcommit r \<longrightarrow> qq_allocPct r = 1 \<and> \<not> qq_unbounded r \<and>
       (\<not> qq_unmetGuarantee r \<longrightarrow> qq_fillColor r = ct_colorError token)) \<and>
    (qq_unmetGuarantee r \<longrightarrow> qq_fillColor r = ct_colorWarning token \<and>
       (\<not> qq_unbounded r \<longrightarrow> qq_allocPct r \<le> qq_guarPct r))"
  unfolding Let_def by (rule quota_row_facts)

lemma quota_row_is_consistent_witness:
  "let r = quota_of \<lparr>ct_colorSuccess = ''green'', ct_colorWarning = ''orange'', ct_colorError = ''red''\<rparr>
      ''cpu'' (Some ''8'') (Some ''12'') (Some ''10'') None (Some ''64'');
    capability = Some ''8''; clusterCap = Some ''64''; key = ''cpu'';
    token = \<lparr>ct_colorSuccess = ''green'', ct_colorWarning = ''orange'', ct_colorError = ''red''\<rparr> in
    qq_allocPct r \<in> {0..1} \<and> qq_guarPct r \<in> {0..1} \<and> qq_desPct r \<in> {0..1} \<and>
    (qq_unbounded r \<longleftrightarrow> parseQuantity capability \<le> 0 \<and> parseQuantity clusterCap \<le> 0) \<and>
    (qq_usingClusterCap r \<longrightarrow> parseQuantity capability \<le> 0 \<and>
       qq_cap r = parseQuantity clusterCap * snd (resourceMeta key)) \<and>
    (qq_overcommit r \<longrightarrow> qq_allocPct r = 1 \<and> \<not> qq_unbounded r \<and>
       (\<not> qq_unmetGuarantee r \<longrightarrow> qq_fillColor r = ct_colorError token)) \<and>
    (qq_unmetGuarantee r \<longrightarrow> qq_fillColor r = ct_colorWarning token \<and>
       (\<not> qq_unbounded r \<longrightarrow> qq_allocPct r \<le> qq_guarPct r))"
  using quota_row_is_consistent[of "\<lparr>ct_colorSuccess = ''green'', ct_colorWarning = ''orange'', ct_colorError = ''red''\<rparr>"
      "''cpu''" "Some ''8''" "Some ''12''" "Some ''10''" None "Some ''64''"]
  unfolding Let_def .

end
