(* ===== verification/GpuMonitor.thy ===== *)
theory GpuMonitor
  imports Uri
begin

text \<open>
  components/TimeRangePicker, services/kpilot/gpu-metrics.ts and the derived data
  of pages/Compute/Volcano/GPUMonitoring.tsx: time windows and their queries, the
  GPUs on offer, the filter, the numbers of the cards and the attention lists.

  A Date is its time in milliseconds; now is the clock at the call and toISO the
  standard's Date.prototype.toISOString.  Sample values are exact rationals.
\<close>

subsection \<open>Time windows\<close>

datatype TimeRangePreset = R1h | R3h | R6h | R12h | R24h | R7d | R30d

datatype TimeRangeValue = Preset TimeRangePreset | SinceNow int | Custom int int

fun preset_name :: "TimeRangePreset \<Rightarrow> string" where
  "preset_name R1h = ''1h''" | "preset_name R3h = ''3h''" | "preset_name R6h = ''6h''"
| "preset_name R12h = ''12h''" | "preset_name R24h = ''24h''" | "preset_name R7d = ''7d''"
| "preset_name R30d = ''30d''"

fun PRESET_MS :: "TimeRangePreset \<Rightarrow> int" where
  "PRESET_MS R1h = 60 * 60 * 1000" | "PRESET_MS R3h = 3 * 60 * 60 * 1000"
| "PRESET_MS R6h = 6 * 60 * 60 * 1000" | "PRESET_MS R12h = 12 * 60 * 60 * 1000"
| "PRESET_MS R24h = 24 * 60 * 60 * 1000" | "PRESET_MS R7d = 7 * 24 * 60 * 60 * 1000"
| "PRESET_MS R30d = 30 * 24 * 60 * 60 * 1000"

fun resolveTimeRange :: "int \<Rightarrow> TimeRangeValue \<Rightarrow> int \<times> int" where
  "resolveTimeRange now (Custom t0 t1) = (t0, t1)"
| "resolveTimeRange now (SinceNow t0) = (t0, now)"
| "resolveTimeRange now (Preset p) = (now - PRESET_MS p, now)"

definition buildRangeQuery :: "(int \<Rightarrow> string) \<Rightarrow> int \<Rightarrow> TimeRangeValue \<Rightarrow> string" where
  "buildRangeQuery toISO now v =
    (case v of
       Preset p \<Rightarrow> ''range='' @ preset_name p
     | _ \<Rightarrow> (case resolveTimeRange now v of (a, b) \<Rightarrow>
         ''from='' @ encodeURIComponent (toISO a) @ ''&to='' @ encodeURIComponent (toISO b)))"

text \<open>The calendar's onChange, with the two picked dates.\<close>

definition pick_range :: "int \<Rightarrow> int \<Rightarrow> int \<Rightarrow> TimeRangeValue" where
  "pick_range now fromDate toDate =
    (if \<bar>toDate - now\<bar> < 60000 then SinceNow fromDate else Custom fromDate toDate)"

definition getGPUMetrics :: "(int \<Rightarrow> string) \<Rightarrow> int \<Rightarrow> string \<Rightarrow> TimeRangeValue \<Rightarrow> request" where
  "getGPUMetrics toISO now clusterId rng =
    GET (''/api/v1/clusters/'' @ clusterId @ ''/gpu-metrics?'' @ buildRangeQuery toISO now rng) []"

subsection \<open>Series\<close>

record GPUMetricPt =
  pt_ts :: int
  pt_value :: rat

record GPUMetricSeries =
  gs_hostname :: "string option"
  gs_gpu :: "string option"
  gs_uuid :: "string option"
  gs_modelName :: "string option"
  gs_points :: "GPUMetricPt list"

type_synonym series_map = "(string \<times> GPUMetricSeries list) list"

fun filled :: "string option \<Rightarrow> bool" where
  "filled None = False" | "filled (Some s) = (s \<noteq> [])"

definition gpuKey :: "GPUMetricSeries \<Rightarrow> string" where
  "gpuKey s =
    (if filled (gs_hostname s) \<and> gs_gpu s \<noteq> None then the (gs_hostname s) @ ''|'' @ the (gs_gpu s)
     else if filled (gs_hostname s) then the (gs_hostname s)
     else if filled (gs_uuid s) then ''uuid:'' @ the (gs_uuid s)
     else ''?'')"

definition gpuKeyLabel :: "GPUMetricSeries \<Rightarrow> string" where
  "gpuKeyLabel s =
    (let host = (if filled (gs_hostname s) then the (gs_hostname s)
                 else if filled (gs_uuid s) then drop (length (the (gs_uuid s)) - 8) (the (gs_uuid s))
                 else ''?'');
         tail = (case gs_gpu s of None \<Rightarrow> [] | Some g \<Rightarrow> [CHR '' '', CHR 0xC2, CHR 0xB7] @ '' GPU '' @ g);
         model = (if filled (gs_modelName s) then '' ['' @ the (gs_modelName s) @ '']'' else [])
     in host @ tail @ model)"

definition series_of :: "series_map \<Rightarrow> string \<Rightarrow> GPUMetricSeries list" where
  "series_of series key = (case map_of series key of None \<Rightarrow> [] | Some rows \<Rightarrow> rows)"

definition lastOf :: "GPUMetricSeries \<Rightarrow> rat" where
  "lastOf s = (if gs_points s = [] then 0 else pt_value (last (gs_points s)))"

definition picked_rows :: "series_map \<Rightarrow> string set \<Rightarrow> string \<Rightarrow> GPUMetricSeries list" where
  "picked_rows series picked key = filter (\<lambda>s. gpuKey s \<in> picked) (series_of series key)"

subsection \<open>computeFilteredSnapshot\<close>

record GPUMetricsSnapshot =
  sn_activeGPUs :: nat
  sn_avgUtilPct :: rat
  sn_avgTempC :: rat
  sn_maxTempC :: rat
  sn_totalPowerW :: rat
  sn_fbUsedMiB :: rat
  sn_fbTotalMiB :: rat
  sn_fbUsagePct :: rat
  sn_avgTensorActPct :: rat

definition sum_rows :: "GPUMetricSeries list \<Rightarrow> rat" where
  "sum_rows rows = foldl (\<lambda>acc s. acc + lastOf s) 0 rows"

definition max_rows :: "GPUMetricSeries list \<Rightarrow> rat" where
  "max_rows rows = foldl (\<lambda>acc s. max acc (lastOf s)) 0 rows"

definition avg_rows :: "GPUMetricSeries list \<Rightarrow> rat" where
  "avg_rows rows = (if rows \<noteq> [] then sum_rows rows / of_nat (length rows) else 0)"

definition computeFilteredSnapshot :: "series_map \<Rightarrow> string set \<Rightarrow> GPUMetricsSnapshot" where
  "computeFilteredSnapshot series picked =
    (let row = picked_rows series picked;
         fbUsedM = sum_rows (row ''fbUsed'');
         fbTotalM = sum_rows (row ''fbTotal'')
     in \<lparr>sn_activeGPUs = length (row ''util''),
         sn_avgUtilPct = avg_rows (row ''util''),
         sn_avgTempC = avg_rows (row ''temp''),
         sn_maxTempC = max_rows (row ''temp''),
         sn_totalPowerW = sum_rows (row ''power''),
         sn_fbUsedMiB = fbUsedM,
         sn_fbTotalMiB = fbTotalM,
         sn_fbUsagePct = (if fbTotalM > 0 then fbUsedM / fbTotalM * 100 else 0),
         sn_avgTensorActPct = avg_rows (row ''tensor'') * 100\<rparr>)"

subsection \<open>computeAttention\<close>

record attention =
  at_idle :: "string list"
  at_hot :: "string list"
  at_oomRisk :: "string list"

definition last_ten :: "GPUMetricSeries \<Rightarrow> GPUMetricPt list" where
  "last_ten s = drop (length (gs_points s) - 10) (gs_points s)"

definition idle_series :: "GPUMetricSeries \<Rightarrow> bool" where
  "idle_series s = (5 \<le> length (last_ten s) \<and> list_all (\<lambda>p. pt_value p = 0) (last_ten s))"

definition fb_totals :: "GPUMetricSeries list \<Rightarrow> (string \<times> rat) list" where
  "fb_totals rows = fold (\<lambda>s m. AList.update (gpuKey s) (lastOf s) m) rows []"

definition oom_series :: "(string \<times> rat) list \<Rightarrow> GPUMetricSeries \<Rightarrow> bool" where
  "oom_series totals s =
    (let total = (case map_of totals (gpuKey s) of None \<Rightarrow> 0 | Some t \<Rightarrow> t)
     in total > 0 \<and> lastOf s / total * 100 \<ge> 95)"

definition computeAttention :: "series_map \<Rightarrow> string set \<Rightarrow> attention" where
  "computeAttention series picked =
    \<lparr>at_idle = map gpuKeyLabel (filter idle_series (picked_rows series picked ''util'')),
     at_hot = map gpuKeyLabel (filter (\<lambda>s. lastOf s \<ge> 85) (picked_rows series picked ''temp'')),
     at_oomRisk = map gpuKeyLabel
       (filter (oom_series (fb_totals (picked_rows series picked ''fbTotal''))) (picked_rows series picked ''fbUsed''))\<rparr>"

subsection \<open>The page's derived data\<close>

text \<open>The GPUs on offer, before they are sorted by label for display.\<close>

definition collect_key :: "GPUMetricSeries \<Rightarrow> (string \<times> string) list \<Rightarrow> (string \<times> string) list" where
  "collect_key s out = (if gpuKey s \<in> fst ` set out then out else out @ [(gpuKey s, gpuKeyLabel s)])"

definition all_keys :: "(string \<Rightarrow> 'k::linorder) \<Rightarrow> series_map \<Rightarrow> (string \<times> string) list" where
  "all_keys collate series = sort_key (\<lambda>k. collate (snd k))
     (fold collect_key (series_of series ''util'' @ series_of series ''temp'' @ series_of series ''power'') [])"

definition active_set :: "(string \<times> string) list \<Rightarrow> string list \<Rightarrow> string set" where
  "active_set keys picked = (if picked = [] then fst ` set keys else set picked)"

definition filtered_series :: "series_map \<Rightarrow> string set \<Rightarrow> series_map" where
  "filtered_series raw active = map (\<lambda>(k, rows). (k, filter (\<lambda>s. gpuKey s \<in> active) rows)) raw"

definition page_snapshot :: "GPUMetricsSnapshot \<Rightarrow> series_map \<Rightarrow> string set \<Rightarrow> string list \<Rightarrow> GPUMetricsSnapshot" where
  "page_snapshot server filtered active picked =
    (if picked = [] then server else computeFilteredSnapshot filtered active)"

definition page_attention :: "series_map \<Rightarrow> string set \<Rightarrow> attention" where
  "page_attention filtered active = computeAttention filtered active"

subsection \<open>Windows and queries\<close>

lemma encode_from: "encodeURIComponent ''from'' = ''from''" by code_simp
lemma encode_to: "encodeURIComponent ''to'' = ''to''" by code_simp
lemma encode_range: "encodeURIComponent ''range'' = ''range''" by code_simp
lemma encode_preset: "encodeURIComponent (preset_name p) = preset_name p" by (cases p; hypsubst; code_simp)

lemmas encode_plain = encode_from encode_to encode_range encode_preset

text \<open>The time range reaches the server as chosen: the query of a preset names
  it, and that of any other range gives the two resolved ends, as the server
  decodes it; a range that was picked to end within a minute of now follows the
  clock with its start fixed, any other picked range keeps both ends, and a
  preset is always its length ending now.\<close>

theorem range_query_roundtrip:
  "read_query (''?'' @ buildRangeQuery toISO now v) =
     (case v of Preset p \<Rightarrow> [(''range'', preset_name p)]
      | _ \<Rightarrow> [(''from'', toISO (fst (resolveTimeRange now v))), (''to'', toISO (snd (resolveTimeRange now v)))]) \<and>
   resolveTimeRange now (pick_range clock a b) = (a, if \<bar>b - clock\<bar> < 60000 then now else b) \<and>
   resolveTimeRange now (Preset p) = (now - PRESET_MS p, now) \<and> 0 < PRESET_MS p"
proof -
  have q: "read_query (''?'' @ ''from='' @ encodeURIComponent x @ ''&to='' @ encodeURIComponent y)
      = [(''from'', x), (''to'', y)]" for x y
    using query_string_roundtrip[of "[(''from'', Some (JStr x)), (''to'', Some (JStr y))]"]
    by (simp add: buildQueryString_def encode_plain)
  have p: "read_query (''?'' @ ''range='' @ preset_name r) = [(''range'', preset_name r)]" for r
    using query_string_roundtrip[of "[(''range'', Some (JStr (preset_name r)))]"]
    by (simp add: buildQueryString_def encode_plain)
  have "read_query (''?'' @ buildRangeQuery toISO now v) =
     (case v of Preset p \<Rightarrow> [(''range'', preset_name p)]
      | _ \<Rightarrow> [(''from'', toISO (fst (resolveTimeRange now v))), (''to'', toISO (snd (resolveTimeRange now v)))])"
    using p q by (cases v) (simp_all add: buildRangeQuery_def)
  moreover have "0 < PRESET_MS p" by (cases p) simp_all
  ultimately show ?thesis by (simp add: pick_range_def)
qed


subsection \<open>The filter\<close>

lemma collect_keys:
  "fst ` set (fold collect_key rows out) = fst ` set out \<union> gpuKey ` set rows"
proof (induction rows arbitrary: out)
  case (Cons s rows)
  show ?case using Cons[of "collect_key s out"] by (auto simp: collect_key_def)
qed simp

lemma collect_distinct: "distinct (map fst out) \<Longrightarrow> distinct (map fst (fold collect_key rows out))"
  by (induction rows arbitrary: out) (auto simp: collect_key_def)

lemma all_keys_set:
  "fst ` set (all_keys collate series) = gpuKey ` (set (series_of series ''util'') \<union>
     set (series_of series ''temp'') \<union> set (series_of series ''power''))"
  by (auto simp: all_keys_def collect_keys)

lemma all_keys_distinct: "distinct (map fst (all_keys collate series))"
proof -
  let ?xs = "fold collect_key (series_of series ''util'' @ series_of series ''temp'' @ series_of series ''power'') []"
  have "distinct (map fst ?xs)" by (rule collect_distinct) simp
  moreover have "mset (map fst (all_keys collate series)) = mset (map fst ?xs)" unfolding all_keys_def by simp
  ultimately show ?thesis using mset_eq_imp_distinct_iff by blast
qed

lemma series_of_filtered:
  "series_of (filtered_series raw active) k = filter (\<lambda>s. gpuKey s \<in> active) (series_of raw k)"
  by (induction raw) (auto simp: filtered_series_def series_of_def)

lemma picked_filtered: "picked_rows (filtered_series raw active) active k = picked_rows raw active k"
  by (simp add: picked_rows_def series_of_filtered)

text \<open>The filter is consistent.  Without a selection every series of utilisation,
  temperature and power is shown in full and each of their GPUs is on offer once;
  with a selection every chart holds the selected GPUs only; and the numbers and
  lists derived from the filtered series are those of the selected GPUs in the
  data the server sent.\<close>

theorem gpu_filter_is_consistent:
  assumes "k \<in> {''util'', ''temp'', ''power''}"
  shows "series_of (filtered_series raw (active_set (all_keys collate raw) [])) k = series_of raw k \<and>
    distinct (map fst (all_keys collate raw)) \<and>
    gpuKey ` set (series_of raw k) \<subseteq> fst ` set (all_keys collate raw) \<and>
    (\<forall>picked m. picked \<noteq> [] \<longrightarrow> gpuKey ` set (series_of (filtered_series raw (active_set (all_keys collate raw) picked)) m)
       \<subseteq> set picked) \<and>
    (\<forall>active. computeFilteredSnapshot (filtered_series raw active) active = computeFilteredSnapshot raw active \<and>
       computeAttention (filtered_series raw active) active = computeAttention raw active)"
proof -
  have sub: "gpuKey ` set (series_of raw k) \<subseteq> fst ` set (all_keys collate raw)"
    unfolding all_keys_set using assms by auto
  then have "series_of (filtered_series raw (active_set (all_keys collate raw) [])) k = series_of raw k"
    by (auto simp: series_of_filtered active_set_def intro!: filter_True)
  with sub show ?thesis
    by (auto simp: all_keys_distinct series_of_filtered active_set_def
        computeFilteredSnapshot_def computeAttention_def picked_filtered Let_def)
qed

definition sample_series :: "string \<Rightarrow> rat list \<Rightarrow> GPUMetricSeries" where
  "sample_series host vs = \<lparr>gs_hostname = Some host, gs_gpu = Some ''0'', gs_uuid = None, gs_modelName = None,
     gs_points = map (\<lambda>v. \<lparr>pt_ts = 0, pt_value = v\<rparr>) vs\<rparr>"

definition sample_raw :: series_map where
  "sample_raw = [(''util'', [sample_series ''a'' [0, 0, 0, 0, 0], sample_series ''b'' [40]]),
     (''temp'', [sample_series ''a'' [30], sample_series ''b'' [91]])]"

lemma gpu_filter_is_consistent_witness:
  "series_of (filtered_series sample_raw (active_set (all_keys length sample_raw) [])) ''util''
      = series_of sample_raw ''util'' \<and>
    distinct (map fst (all_keys length sample_raw)) \<and>
    gpuKey ` set (series_of sample_raw ''util'') \<subseteq> fst ` set (all_keys length sample_raw) \<and>
    (\<forall>picked m. picked \<noteq> [] \<longrightarrow>
       gpuKey ` set (series_of (filtered_series sample_raw (active_set (all_keys length sample_raw) picked)) m)
       \<subseteq> set picked) \<and>
    (\<forall>active. computeFilteredSnapshot (filtered_series sample_raw active) active = computeFilteredSnapshot sample_raw active \<and>
       computeAttention (filtered_series sample_raw active) active = computeAttention sample_raw active)"
  by (rule gpu_filter_is_consistent) simp

subsection \<open>Cards and attention lists\<close>

lemma foldl_max_iff: "c \<le> foldl (\<lambda>acc s. max acc (f s)) (a::rat) rows \<longleftrightarrow> c \<le> a \<or> (\<exists>s \<in> set rows. c \<le> f s)"
  by (induction rows arbitrary: a) (auto simp: le_max_iff_disj)

lemma sum_rows_sum_list: "sum_rows rows = sum_list (map lastOf rows)"
proof -
  have "foldl (\<lambda>acc s. acc + lastOf s) a rows = a + sum_list (map lastOf rows)" for a
    by (induction rows arbitrary: a) simp_all
  then show ?thesis by (simp add: sum_rows_def)
qed

lemma sum_list_le_max:
  "(\<And>s. s \<in> set rows \<Longrightarrow> lastOf s \<le> c) \<Longrightarrow> sum_list (map lastOf rows) \<le> of_nat (length rows) * c"
proof (induction rows)
  case (Cons s rows)
  then have "sum_list (map lastOf rows) \<le> of_nat (length rows) * c" by simp
  moreover have "lastOf s \<le> c" using Cons.prems by simp
  ultimately show ?case by (simp add: algebra_simps)
qed simp

lemma lastOf_le_max: "s \<in> set rows \<Longrightarrow> lastOf s \<le> max_rows rows"
  using foldl_max_iff[of "lastOf s" lastOf 0 rows] by (auto simp: max_rows_def)

lemma avg_le_max: "avg_rows rows \<le> max_rows rows"
proof (cases "rows = []")
  case False
  have "sum_list (map lastOf rows) \<le> of_nat (length rows) * max_rows rows"
    by (rule sum_list_le_max) (rule lastOf_le_max)
  with False show ?thesis by (simp add: avg_rows_def sum_rows_sum_list field_simps)
qed (simp add: avg_rows_def max_rows_def)

lemma idle_lastOf: "idle_series s \<Longrightarrow> lastOf s = 0"
proof -
  assume s: "idle_series s"
  then have n: "last_ten s \<noteq> []" by (auto simp: idle_series_def)
  then have "gs_points s \<noteq> []" "last (last_ten s) = last (gs_points s)"
    by (auto simp: last_ten_def)
  moreover have "last (last_ten s) \<in> set (last_ten s)" using n by simp
  ultimately show ?thesis using s by (auto simp: idle_series_def lastOf_def list_all_iff)
qed

lemma filter_full: "length (filter P xs) = length xs \<Longrightarrow> filter P xs = xs"
proof (induction xs)
  case (Cons x xs)
  then show ?case using length_filter_le[of P xs] by (cases "P x") auto
qed simp

lemma fb_totals_last:
  "map_of (fb_totals rows) k = map_option lastOf (List.find (\<lambda>s. gpuKey s = k) (rev rows))"
  by (induction rows rule: rev_induct) (auto simp: fb_totals_def update_conv')

lemma all_idle_avg:
  assumes "length (at_idle (computeAttention series picked)) = sn_activeGPUs (computeFilteredSnapshot series picked)"
  shows "sn_avgUtilPct (computeFilteredSnapshot series picked) = 0"
proof -
  let ?u = "picked_rows series picked ''util''"
  have "length (filter idle_series ?u) = length ?u"
    using assms by (simp add: computeAttention_def computeFilteredSnapshot_def Let_def)
  then have "filter idle_series ?u = ?u" by (rule filter_full)
  then have "map lastOf ?u = map (\<lambda>s. 0) ?u" by (auto simp: filter_id_conv idle_lastOf)
  then have "sum_rows ?u = 0" unfolding sum_rows_sum_list by (metis sum_list_0)
  then show ?thesis by (simp add: computeFilteredSnapshot_def Let_def avg_rows_def)
qed

lemma oom_listed:
  assumes "l \<in> set (at_oomRisk (computeAttention series picked))"
  shows "\<exists>s \<in> set (picked_rows series picked ''fbUsed''). \<exists>t \<in> set (picked_rows series picked ''fbTotal'').
    l = gpuKeyLabel s \<and> gpuKey t = gpuKey s \<and> 0 < lastOf t \<and> 95 / 100 * lastOf t \<le> lastOf s"
proof -
  obtain s where s: "s \<in> set (picked_rows series picked ''fbUsed'')" "l = gpuKeyLabel s"
    "oom_series (fb_totals (picked_rows series picked ''fbTotal'')) s"
    using assms by (auto simp: computeAttention_def)
  then obtain total where tot: "map_of (fb_totals (picked_rows series picked ''fbTotal'')) (gpuKey s) = Some total"
    "total > 0" "lastOf s / total * 100 \<ge> 95"
    by (auto simp: oom_series_def Let_def split: option.splits)
  then obtain t where "List.find (\<lambda>r. gpuKey r = gpuKey s) (rev (picked_rows series picked ''fbTotal'')) = Some t"
    "lastOf t = total" by (auto simp: fb_totals_last)
  then have "t \<in> set (picked_rows series picked ''fbTotal'')" "gpuKey t = gpuKey s"
    by (auto simp: find_Some_iff) (metis length_rev nth_mem set_rev)
  moreover have "95 / 100 * lastOf t \<le> lastOf s"
    using tot \<open>lastOf t = total\<close> by (simp add: field_simps)
  ultimately show ?thesis using s tot(2) \<open>lastOf t = total\<close> by blast
qed

text \<open>The attention lists agree with the cards over the same GPUs: a GPU is
  listed as hot exactly when the card of the highest temperature shows 85 or
  more, an average never exceeds the maximum, when every GPU is listed as idle
  the average utilisation is 0, and every GPU listed for memory has a total on
  record, positive and at least 95 percent used.\<close>

theorem attention_agrees_with_cards:
  "(at_hot (computeAttention series picked) \<noteq> [] \<longleftrightarrow> 85 \<le> sn_maxTempC (computeFilteredSnapshot series picked)) \<and>
    sn_avgTempC (computeFilteredSnapshot series picked) \<le> sn_maxTempC (computeFilteredSnapshot series picked) \<and>
    (length (at_idle (computeAttention series picked)) = sn_activeGPUs (computeFilteredSnapshot series picked) \<longrightarrow>
       sn_avgUtilPct (computeFilteredSnapshot series picked) = 0) \<and>
    (\<forall>l \<in> set (at_oomRisk (computeAttention series picked)). \<exists>s \<in> set (picked_rows series picked ''fbUsed'').
       \<exists>t \<in> set (picked_rows series picked ''fbTotal''). l = gpuKeyLabel s \<and> gpuKey t = gpuKey s \<and>
       0 < lastOf t \<and> 95 / 100 * lastOf t \<le> lastOf s)"
proof (intro conjI)
  let ?t = "picked_rows series picked ''temp''" and ?u = "picked_rows series picked ''util''"
  show "at_hot (computeAttention series picked) \<noteq> [] \<longleftrightarrow> 85 \<le> sn_maxTempC (computeFilteredSnapshot series picked)"
    using foldl_max_iff[of 85 lastOf 0 ?t]
    by (auto simp: computeAttention_def computeFilteredSnapshot_def Let_def max_rows_def filter_empty_conv)
  show "sn_avgTempC (computeFilteredSnapshot series picked) \<le> sn_maxTempC (computeFilteredSnapshot series picked)"
    by (simp add: computeFilteredSnapshot_def Let_def avg_le_max)
  show "length (at_idle (computeAttention series picked)) = sn_activeGPUs (computeFilteredSnapshot series picked) \<longrightarrow>
      sn_avgUtilPct (computeFilteredSnapshot series picked) = 0"
    by (simp add: all_idle_avg)
  show "\<forall>l \<in> set (at_oomRisk (computeAttention series picked)). \<exists>s \<in> set (picked_rows series picked ''fbUsed'').
       \<exists>t \<in> set (picked_rows series picked ''fbTotal''). l = gpuKeyLabel s \<and> gpuKey t = gpuKey s \<and>
       0 < lastOf t \<and> 95 / 100 * lastOf t \<le> lastOf s"
    using oom_listed by blast
qed

lemma attention_agrees_with_cards_witness:
  "let series = sample_raw; picked = {''a|0'', ''b|0''} in
    (at_hot (computeAttention series picked) \<noteq> [] \<longleftrightarrow> 85 \<le> sn_maxTempC (computeFilteredSnapshot series picked)) \<and>
    sn_avgTempC (computeFilteredSnapshot series picked) \<le> sn_maxTempC (computeFilteredSnapshot series picked) \<and>
    (length (at_idle (computeAttention series picked)) = sn_activeGPUs (computeFilteredSnapshot series picked) \<longrightarrow>
       sn_avgUtilPct (computeFilteredSnapshot series picked) = 0) \<and>
    (\<forall>l \<in> set (at_oomRisk (computeAttention series picked)). \<exists>s \<in> set (picked_rows series picked ''fbUsed'').
       \<exists>t \<in> set (picked_rows series picked ''fbTotal''). l = gpuKeyLabel s \<and> gpuKey t = gpuKey s \<and>
       0 < lastOf t \<and> 95 / 100 * lastOf t \<le> lastOf s)"
  using attention_agrees_with_cards[of sample_raw "{''a|0'', ''b|0''}"] unfolding Let_def .

end
