(* ===== verification/PodLogs.thy ===== *)
theory PodLogs
  imports Uri
begin

text \<open>
  services/kpilot/pod.ts and ClusterDetail/Workloads/PodLogsDrawer.tsx: what the
  log drawer of a pod does with the frames of its WebSockets.

  A drawer is mounted for one pod, so that never changes while it lives.  Events are what the browser delivers and what the user does; a socket
  is its session number, the partial line its handlers keep, and whether its
  clean-up has closed it.  A RegExp is the parameter exec: exec k s is the match
  of the pattern in s at or after index k, as its index and length.
\<close>

subsection \<open>URLs\<close>

text \<open>The serialiser of URLSearchParams.\<close>

definition form_escape :: "char \<Rightarrow> string" where
  "form_escape c = (let n = of_char c :: nat in
     if n = 32 then ''+''
     else if (48 \<le> n \<and> n \<le> 57) \<or> (65 \<le> n \<and> n \<le> 90) \<or> (97 \<le> n \<and> n \<le> 122) \<or>
       c \<in> set [CHR ''*'', CHR ''-'', CHR ''.'', CHR ''_''] then [c]
     else [CHR ''%'', upper_hex (n div 16), upper_hex (n mod 16)])"

definition search_params :: "(string \<times> string) list \<Rightarrow> string" where
  "search_params ps = join ''&'' (map (\<lambda>(k, v). concat (map form_escape k) @ ''='' @ concat (map form_escape v)) ps)"

record log_opts =
  lo_container :: "string option"
  lo_follow :: "bool option"
  lo_tail :: "nat option"
  lo_previous :: bool

definition log_params :: "log_opts \<Rightarrow> (string \<times> string) list" where
  "log_params opts =
    (case lo_container opts of None \<Rightarrow> [] | Some c \<Rightarrow> if c = [] then [] else [(''container'', c)]) @
    (case lo_follow opts of None \<Rightarrow> [] | Some b \<Rightarrow> [(''follow'', if b then ''true'' else ''false'')]) @
    (case lo_tail opts of None \<Rightarrow> [] | Some n \<Rightarrow> [(''tail'', show_nat n)]) @
    (if lo_previous opts then [(''previous'', ''1'')] else [])"

definition ws_base :: "string \<Rightarrow> string \<Rightarrow> string" where
  "ws_base protocol host = (if protocol = ''https:'' then ''wss:'' else ''ws:'') @ ''//'' @ host"

definition buildPodLogsURL :: "string \<Rightarrow> string \<Rightarrow> string \<Rightarrow> string \<Rightarrow> string \<Rightarrow> log_opts \<Rightarrow> string" where
  "buildPodLogsURL protocol host clusterId namespace pod opts =
    ws_base protocol host @ path [''api'', ''v1'', ''clusters'', clusterId, ''pods'', namespace, pod, ''logs''] @
    ''?'' @ search_params (log_params opts)"

definition buildPodExecURL :: "string \<Rightarrow> string \<Rightarrow> string \<Rightarrow> string \<Rightarrow> string \<Rightarrow>
    string option \<Rightarrow> nat \<Rightarrow> nat \<Rightarrow> string" where
  "buildPodExecURL protocol host clusterId namespace pod container cols rows =
    ws_base protocol host @ path [''api'', ''v1'', ''clusters'', clusterId, ''pods'', namespace, pod, ''exec''] @
    ''?'' @ search_params
      ((case container of None \<Rightarrow> [] | Some c \<Rightarrow> if c = [] then [] else [(''container'', c)]) @
       [(''cols'', show_nat cols), (''rows'', show_nat rows)])"

definition getPodTop :: "string \<Rightarrow> string \<Rightarrow> string \<Rightarrow> request" where
  "getPodTop clusterId namespace name =
    GET (path [''api'', ''v1'', ''clusters'', clusterId, ''pods'', namespace, name, ''top'']) []"

subsection \<open>The pod log drawer\<close>

record hard_deps =
  hd_container :: string
  hd_tail :: nat
  hd_previous :: bool
  hd_reloadKey :: nat

record log_socket =
  so_key :: nat
  so_opts :: log_opts
  so_pending :: string
  so_closed :: bool

record pod_logs =
  pl_deps :: hard_deps
  pl_follow :: bool
  pl_error :: "string option"
  pl_lines :: "string list"
  pl_session :: nat
  pl_prev :: "hard_deps option"
  pl_sockets :: "log_socket list"

definition MAX_LINES :: nat where "MAX_LINES = 5000"

definition pl_init :: pod_logs where
  "pl_init = \<lparr>pl_deps = \<lparr>hd_container = [], hd_tail = 100, hd_previous = False, hd_reloadKey = 0\<rparr>,
     pl_follow = True, pl_error = None, pl_lines = [], pl_session = 0, pl_prev = None, pl_sockets = []\<rparr>"

text \<open>The clean-up of the previous run, and the effect that opens a connection.\<close>

definition close_sockets :: "pod_logs \<Rightarrow> pod_logs" where
  "close_sockets s = s\<lparr>pl_sockets := map (\<lambda>w. w\<lparr>so_closed := True\<rparr>) (pl_sockets s)\<rparr>"

definition connect :: "pod_logs \<Rightarrow> pod_logs" where
  "connect s =
    (if hd_container (pl_deps s) = [] then s
     else
       let followOnly = (pl_prev s = Some (pl_deps s));
           s1 = s\<lparr>pl_prev := Some (pl_deps s), pl_session := Suc (pl_session s),
                  pl_lines := (if followOnly then pl_lines s else []), pl_error := None\<rparr>
       in if followOnly \<and> \<not> pl_follow s then s1
          else s1\<lparr>pl_sockets := pl_sockets s1 @ [\<lparr>so_key = pl_session s1,
                 so_opts = \<lparr>lo_container = Some (hd_container (pl_deps s)), lo_follow = Some (pl_follow s),
                            lo_tail = Some (hd_tail (pl_deps s)), lo_previous = hd_previous (pl_deps s)\<rparr>,
                 so_pending = [], so_closed = False\<rparr>]\<rparr>)"

definition effect_run :: "pod_logs \<Rightarrow> pod_logs" where
  "effect_run s = connect (close_sockets s)"

abbreviation newline :: "char \<Rightarrow> bool" where
  "newline c \<equiv> c = CHR 0x0A"

text \<open>onmessage with text data, of the socket with the given number.\<close>

definition split_last_newline :: "string \<Rightarrow> (string \<times> string) option" where
  "split_last_newline s =
    (if CHR 0x0A \<in> set s
     then Some (rev (drop 1 (dropWhile (\<lambda>c. \<not> newline c) (rev s))), rev (takeWhile (\<lambda>c. \<not> newline c) (rev s)))
     else None)"

definition set_pending :: "nat \<Rightarrow> string \<Rightarrow> pod_logs \<Rightarrow> pod_logs" where
  "set_pending k p s = s\<lparr>pl_sockets := map (\<lambda>w. if so_key w = k then w\<lparr>so_pending := p\<rparr> else w) (pl_sockets s)\<rparr>"

definition pending_of :: "nat \<Rightarrow> pod_logs \<Rightarrow> string" where
  "pending_of k s = (case List.find (\<lambda>w. so_key w = k) (pl_sockets s) of None \<Rightarrow> [] | Some w \<Rightarrow> so_pending w)"

definition on_message :: "nat \<Rightarrow> string \<Rightarrow> pod_logs \<Rightarrow> pod_logs" where
  "on_message k data s =
    (if k \<noteq> pl_session s then s
     else let pending = pending_of k s @ data
       in case split_last_newline pending of
         None \<Rightarrow> set_pending k pending s
       | Some (whole, rest) \<Rightarrow>
           (set_pending k rest s)\<lparr>pl_lines := keep_last MAX_LINES (pl_lines s @ split_on newline whole)\<rparr>)"

definition on_error :: "string \<Rightarrow> nat \<Rightarrow> pod_logs \<Rightarrow> pod_logs" where
  "on_error msg k s = (if k \<noteq> pl_session s then s else s\<lparr>pl_error := Some msg\<rparr>)"

definition on_close :: "(nat \<Rightarrow> string \<Rightarrow> string) \<Rightarrow> nat \<Rightarrow> bool \<Rightarrow> nat \<Rightarrow> string \<Rightarrow> pod_logs \<Rightarrow> pod_logs" where
  "on_close closedMsg k wasClean code reason s =
    (if k \<noteq> pl_session s then s
     else let p = pending_of k s;
              s1 = (if p \<noteq> [] then (set_pending k [] s)\<lparr>pl_lines := pl_lines s @ [p]\<rparr> else s)
       in if \<not> wasClean \<and> code \<noteq> 1000 \<and> code \<noteq> 1005
          then s1\<lparr>pl_error := Some (closedMsg code (if reason = [] then [CHR 0xE2, CHR 0x80, CHR 0x94] else reason))\<rparr>
          else s1)"

datatype log_act =
    SetContainer string
  | SetTail nat
  | SetPrevious bool
  | SetFollow bool
  | Reload
  | Clear
  | Message nat string
  | SocketError nat
  | SocketClosed nat bool nat string

text \<open>A setter re-runs the effect only when the value changes.\<close>

definition with_deps :: "hard_deps \<Rightarrow> pod_logs \<Rightarrow> pod_logs" where
  "with_deps d s = (if d = pl_deps s then s else effect_run (s\<lparr>pl_deps := d\<rparr>))"

fun pl_step :: "string \<Rightarrow> (nat \<Rightarrow> string \<Rightarrow> string) \<Rightarrow> log_act \<Rightarrow> pod_logs \<Rightarrow> pod_logs" where
  "pl_step errMsg closedMsg (SetContainer c) s = with_deps ((pl_deps s)\<lparr>hd_container := c\<rparr>) s"
| "pl_step errMsg closedMsg (SetTail n) s = with_deps ((pl_deps s)\<lparr>hd_tail := n\<rparr>) s"
| "pl_step errMsg closedMsg (SetPrevious b) s = with_deps ((pl_deps s)\<lparr>hd_previous := b\<rparr>) s"
| "pl_step errMsg closedMsg Reload s = with_deps ((pl_deps s)\<lparr>hd_reloadKey := Suc (hd_reloadKey (pl_deps s))\<rparr>) s"
| "pl_step errMsg closedMsg (SetFollow b) s =
    (if b = pl_follow s then s else effect_run (s\<lparr>pl_follow := b\<rparr>))"
| "pl_step errMsg closedMsg Clear s = s\<lparr>pl_lines := []\<rparr>"
| "pl_step errMsg closedMsg (Message k d) s = on_message k d s"
| "pl_step errMsg closedMsg (SocketError k) s = on_error errMsg k s"
| "pl_step errMsg closedMsg (SocketClosed k c code reason) s = on_close closedMsg k c code reason s"

definition pl_run :: "string \<Rightarrow> (nat \<Rightarrow> string \<Rightarrow> string) \<Rightarrow> log_act list \<Rightarrow> pod_logs \<Rightarrow> pod_logs" where
  "pl_run errMsg closedMsg es s = fold (pl_step errMsg closedMsg) es s"

text \<open>The container chosen when the pod's spec arrives.\<close>

definition default_container :: "string list \<Rightarrow> string list \<Rightarrow> string \<Rightarrow> string" where
  "default_container init main container =
    (if init @ main = [] \<or> container \<noteq> [] then container
     else case main of m # _ \<Rightarrow> m | [] \<Rightarrow> hd init)"

subsection \<open>Highlighting\<close>

datatype line_part = Plain string | Mark string

fun part_text :: "line_part \<Rightarrow> string" where
  "part_text (Plain s) = s" | "part_text (Mark s) = s"

definition slice :: "nat \<Rightarrow> nat \<Rightarrow> string \<Rightarrow> string" where
  "slice i j s = take (j - i) (drop i s)"

text \<open>The loop over pattern.exec; None is a loop without end.\<close>

partial_function (option) highlight_loop ::
  "(nat \<Rightarrow> string \<Rightarrow> (nat \<times> nat) option) \<Rightarrow> string \<Rightarrow> nat \<Rightarrow> nat \<Rightarrow> line_part list \<Rightarrow> line_part list option"
where
  "highlight_loop exec s lst lastIndex parts =
    (case exec lastIndex s of
       None \<Rightarrow> Some (parts @ (if lst < length s then [Plain (drop lst s)] else []))
     | Some (i, n) \<Rightarrow>
         highlight_loop exec s (i + n) (i + n + (if n = 0 then 1 else 0))
           (parts @ (if lst < i then [Plain (slice lst i s)] else []) @ [Mark (slice i (i + n) s)]))"

definition highlightLine :: "(nat \<Rightarrow> string \<Rightarrow> (nat \<times> nat) option) option \<Rightarrow> string \<Rightarrow> line_part list option" where
  "highlightLine pattern s = (case pattern of None \<Rightarrow> Some [Plain s] | Some exec \<Rightarrow> highlight_loop exec s 0 0 [])"

definition visible_lines :: "(nat \<Rightarrow> string \<Rightarrow> (nat \<times> nat) option) option \<Rightarrow> string list \<Rightarrow> string list" where
  "visible_lines pattern xs = (case pattern of None \<Rightarrow> xs | Some exec \<Rightarrow> filter (\<lambda>l. exec 0 l \<noteq> None) xs)"

definition copied_text :: "(nat \<Rightarrow> string \<Rightarrow> (nat \<times> nat) option) option \<Rightarrow> string list \<Rightarrow> string" where
  "copied_text pattern xs = join [CHR 0x0A] (case pattern of None \<Rightarrow> xs | Some _ \<Rightarrow> visible_lines pattern xs)"


subsection \<open>Lines of a text cut anywhere\<close>

lemma split_on_snoc_sep: "P d \<Longrightarrow> split_on P (a @ d # b) = split_on P a @ split_on P b"
proof (induction a)
  case (Cons c a)
  obtain v vs where "split_on P a = v # vs"
    using split_on_nonempty[of P a] by (cases "split_on P a") auto
  with Cons show ?case by auto
qed simp

text \<open>lastIndexOf of the newline splits off everything but the last piece.\<close>

lemma split_last_newline_Some:
  assumes "split_last_newline s = Some (whole, rest)"
  shows "s = whole @ CHR 0x0A # rest \<and> CHR 0x0A \<notin> set rest"
proof -
  let ?P = "\<lambda>c. \<not> newline c"
  have n: "CHR 0x0A \<in> set s" and w: "whole = rev (drop 1 (dropWhile ?P (rev s)))" and r: "rest = rev (takeWhile ?P (rev s))"
    using assms by (auto simp: split_last_newline_def split: if_splits)
  have ne: "dropWhile ?P (rev s) \<noteq> []" using n by (simp add: dropWhile_eq_Nil_conv)
  then have "hd (dropWhile ?P (rev s)) = CHR 0x0A" using hd_dropWhile by blast
  then have "dropWhile ?P (rev s) = CHR 0x0A # drop 1 (dropWhile ?P (rev s))"
    using ne by (metis drop0 drop_Suc One_nat_def list.collapse)
  then have "rev s = takeWhile ?P (rev s) @ CHR 0x0A # drop 1 (dropWhile ?P (rev s))"
    by (metis takeWhile_dropWhile_id)
  then have "s = rev (takeWhile ?P (rev s) @ CHR 0x0A # drop 1 (dropWhile ?P (rev s)))"
    by (metis rev_rev_ident)
  then have "s = whole @ CHR 0x0A # rest" by (simp add: w r)
  moreover have "CHR 0x0A \<notin> set rest" using set_takeWhileD[of _ ?P "rev s"] by (auto simp: r)
  ultimately show ?thesis by blast
qed

definition whole_lines :: "string \<Rightarrow> string list" where
  "whole_lines s = butlast (split_on newline s)"

definition last_piece :: "string \<Rightarrow> string" where
  "last_piece s = last (split_on newline s)"

lemma pieces_no_newline: "CHR 0x0A \<notin> set s \<Longrightarrow> whole_lines s = [] \<and> last_piece s = s"
proof -
  assume "CHR 0x0A \<notin> set s"
  then have "split_on newline s = [s]" by (intro split_on_none) auto
  then show ?thesis by (simp add: whole_lines_def last_piece_def)
qed

lemma pieces_split:
  "split_last_newline s = Some (whole, rest) \<Longrightarrow> whole_lines s = split_on newline whole \<and> last_piece s = rest"
proof -
  assume "split_last_newline s = Some (whole, rest)"
  then have s: "s = whole @ CHR 0x0A # rest" "CHR 0x0A \<notin> set rest"
    using split_last_newline_Some by blast+
  have "split_on newline rest = [rest]" by (rule split_on_none) (use s(2) in auto)
  then have "split_on newline s = split_on newline whole @ [rest]"
    using split_on_snoc_sep[of newline "CHR 0x0A" whole rest] s(1) by simp
  then show ?thesis by (simp add: whole_lines_def last_piece_def)
qed

lemma split_last_newline_None: "split_last_newline s = None \<longleftrightarrow> CHR 0x0A \<notin> set s"
  by (simp add: split_last_newline_def)

text \<open>Cutting the text: the pieces of the rest continue the last piece.\<close>

lemma split_on_continue:
  "split_on P (a @ b) = butlast (split_on P a) @ split_on P (last (split_on P a) @ b)"
proof (induction a)
  case (Cons c a)
  obtain v vs where a: "split_on P a = v # vs"
    using split_on_nonempty[of P a] by (cases "split_on P a") auto
  obtain w ws where w: "split_on P (last (v # vs) @ b) = w # ws"
    using split_on_nonempty[of P] by (cases "split_on P (last (v # vs) @ b)") auto
  show ?case using Cons a w by (cases vs) auto
qed simp

lemma whole_lines_append: "whole_lines (a @ b) = whole_lines a @ whole_lines (last_piece a @ b)"
  unfolding whole_lines_def last_piece_def split_on_continue[of newline a b] by (simp add: butlast_append)

lemma last_piece_append: "last_piece (a @ b) = last_piece (last_piece a @ b)"
  unfolding last_piece_def split_on_continue[of newline a b] by simp

subsection \<open>Sessions\<close>

text \<open>The current session has a socket that no clean-up has closed, every other
  socket is closed, and session numbers are used once.\<close>

definition sockets_ok :: "log_socket list \<Rightarrow> nat \<Rightarrow> bool" where
  "sockets_ok ws n \<longleftrightarrow> distinct (map so_key ws) \<and>
     (\<forall>w \<in> set ws. so_key w \<le> n \<and> (so_key w < n \<longrightarrow> so_closed w))"

definition sessions_ok :: "pod_logs \<Rightarrow> bool" where
  "sessions_ok s \<longleftrightarrow> sockets_ok (pl_sockets s) (pl_session s)"

abbreviation closed :: "log_socket \<Rightarrow> log_socket" where
  "closed w \<equiv> w\<lparr>so_closed := True\<rparr>"

lemma sockets_close: "sockets_ok ws n \<Longrightarrow> sockets_ok (map closed ws) n"
  by (auto simp: sockets_ok_def o_def)

lemma sockets_close_Suc: "sockets_ok ws n \<Longrightarrow> sockets_ok (map closed ws) (Suc n)"
  by (fastforce simp: sockets_ok_def o_def)

lemma sockets_open: "sockets_ok ws n \<Longrightarrow> so_key w = Suc n \<Longrightarrow> sockets_ok (map closed ws @ [w]) (Suc n)"
  by (fastforce simp: sockets_ok_def o_def)

lemma sessions_init: "sessions_ok pl_init"
  by (simp add: sessions_ok_def sockets_ok_def pl_init_def)

lemma set_pending_frame [simp]:
  "pl_session (set_pending k p s) = pl_session s" "pl_lines (set_pending k p s) = pl_lines s"
  "pl_error (set_pending k p s) = pl_error s" "pl_deps (set_pending k p s) = pl_deps s"
  "pl_follow (set_pending k p s) = pl_follow s" "pl_prev (set_pending k p s) = pl_prev s"
  by (simp_all add: set_pending_def)

lemma map_keys_pending: "map so_key (map (\<lambda>w. if so_key w = k then w\<lparr>so_pending := p\<rparr> else w) ws) = map so_key ws"
  by (induction ws) auto

lemma sessions_set_pending: "sessions_ok s \<Longrightarrow> sessions_ok (set_pending k p s)"
  unfolding sessions_ok_def sockets_ok_def by (auto simp: set_pending_def map_keys_pending simp del: map_map)

lemma sessions_frame [simp]:
  "sessions_ok (s\<lparr>pl_lines := ls\<rparr>) = sessions_ok s" "sessions_ok (s\<lparr>pl_error := e\<rparr>) = sessions_ok s"
  "sessions_ok (s\<lparr>pl_deps := d\<rparr>) = sessions_ok s" "sessions_ok (s\<lparr>pl_follow := f\<rparr>) = sessions_ok s"
  by (simp_all add: sessions_ok_def)

lemma sessions_effect:
  assumes "sessions_ok s"
  shows "sessions_ok (effect_run s)"
  using assms sockets_close sockets_close_Suc sockets_open
  by (simp add: sessions_ok_def effect_run_def close_sockets_def connect_def Let_def)

lemma sessions_step:
  assumes "sessions_ok s"
  shows "sessions_ok (pl_step errMsg closedMsg e s)"
proof (cases e)
  case (Message k d)
  then show ?thesis using assms
    by (auto simp: on_message_def Let_def sessions_set_pending split: option.splits)
next
  case (SocketClosed k c code reason)
  then show ?thesis using assms
    by (auto simp: on_close_def Let_def sessions_set_pending)
qed (use assms in \<open>auto simp: with_deps_def on_error_def sessions_effect\<close>)


subsection \<open>What a session shows\<close>

definition has_socket :: "nat \<Rightarrow> pod_logs \<Rightarrow> bool" where
  "has_socket k s \<longleftrightarrow> k \<in> so_key ` set (pl_sockets s)"

lemma pending_set_same: "has_socket k s \<Longrightarrow> pending_of k (set_pending k p s) = p"
proof -
  have "k \<in> so_key ` set ws \<Longrightarrow>
      (case List.find (\<lambda>w. so_key w = k) (map (\<lambda>w. if so_key w = k then w\<lparr>so_pending := p\<rparr> else w) ws) of
        None \<Rightarrow> [] | Some w \<Rightarrow> so_pending w) = p" for ws :: "log_socket list"
    by (induction ws) auto
  then show "has_socket k s \<Longrightarrow> pending_of k (set_pending k p s) = p"
    by (simp add: has_socket_def pending_of_def set_pending_def)
qed

lemma pending_set_other: "k' \<noteq> k \<Longrightarrow> pending_of k (set_pending k' p s) = pending_of k s"
proof -
  assume k: "k' \<noteq> k"
  have "List.find (\<lambda>w. so_key w = k) (map (\<lambda>w. if so_key w = k' then w\<lparr>so_pending := p\<rparr> else w) ws) =
      List.find (\<lambda>w. so_key w = k) ws" for ws :: "log_socket list"
    using k by (induction ws) auto
  then show ?thesis by (simp add: pending_of_def set_pending_def)
qed

lemma has_socket_set [simp]: "has_socket k (set_pending k' p s) = has_socket k s"
proof -
  have "so_key ` set (map (\<lambda>w. if so_key w = k' then w\<lparr>so_pending := p\<rparr> else w) ws) = so_key ` set ws" for ws :: "log_socket list"
    by (induction ws) auto
  then show ?thesis by (simp add: has_socket_def set_pending_def del: set_map)
qed

lemma frame_lines [simp]:
  "has_socket k (s\<lparr>pl_lines := ls\<rparr>) = has_socket k s" "pending_of k (s\<lparr>pl_lines := ls\<rparr>) = pending_of k s"
  "has_socket k (s\<lparr>pl_error := e\<rparr>) = has_socket k s" "pending_of k (s\<lparr>pl_error := e\<rparr>) = pending_of k s"
  by (simp_all add: has_socket_def pending_of_def)

text \<open>The buffer starts as ls and the session's socket has delivered the text t.\<close>

definition shows_text :: "nat \<Rightarrow> string list \<Rightarrow> string \<Rightarrow> pod_logs \<Rightarrow> bool" where
  "shows_text k ls t s \<longleftrightarrow> pl_session s = k \<and> has_socket k s \<and> pending_of k s = last_piece t \<and>
     keep_last MAX_LINES (pl_lines s) = keep_last MAX_LINES (ls @ whole_lines t)"

definition own_data :: "nat \<Rightarrow> log_act \<Rightarrow> string" where
  "own_data k e = (case e of Message k' d \<Rightarrow> if k' = k then d else [] | _ \<Rightarrow> [])"

text \<open>Events that are not the user's, up to the end of the session's own connection.\<close>

definition passive_act :: "nat \<Rightarrow> log_act \<Rightarrow> bool" where
  "passive_act k e = (case e of Message _ _ \<Rightarrow> True | SocketError _ \<Rightarrow> True
     | SocketClosed k' _ _ _ \<Rightarrow> k' \<noteq> k | _ \<Rightarrow> False)"

lemma shows_text_message:
  assumes "shows_text k ls t s"
  shows "shows_text k ls (t @ d) (on_message k d s)"
proof -
  have k: "pl_session s = k" "has_socket k s" "pending_of k s = last_piece t"
    and l: "keep_last MAX_LINES (pl_lines s) = keep_last MAX_LINES (ls @ whole_lines t)"
    using assms by (auto simp: shows_text_def)
  show ?thesis
  proof (cases "split_last_newline (last_piece t @ d)")
    case None
    then have "whole_lines (t @ d) = whole_lines t" "last_piece (t @ d) = last_piece t @ d"
      using pieces_no_newline[of "last_piece t @ d"]
      by (simp_all add: split_last_newline_None whole_lines_append[of t d] last_piece_append[of t d])
    with None k l show ?thesis
      by (simp add: on_message_def Let_def shows_text_def pending_set_same)
  next
    case (Some p)
    obtain w r where p: "p = (w, r)" by force
    then have wr: "whole_lines (last_piece t @ d) = split_on newline w" "last_piece (last_piece t @ d) = r"
      using pieces_split[of "last_piece t @ d" w r] Some by simp_all
    have "keep_last MAX_LINES (pl_lines s @ split_on newline w) = keep_last MAX_LINES ((ls @ whole_lines t) @ split_on newline w)"
      by (rule keep_last_app_cong) (rule l)
    then show ?thesis
      using Some p k wr keep_last_keep[of MAX_LINES "pl_lines s @ split_on newline w" "[]"]
      by (simp add: on_message_def Let_def shows_text_def pending_set_same
          whole_lines_append[of t d] last_piece_append[of t d])
  qed
qed

lemma shows_text_step:
  assumes "shows_text k ls t s" "passive_act k e"
  shows "shows_text k ls (t @ own_data k e) (pl_step errMsg closedMsg e s)"
proof (cases e)
  case (Message k' d)
  show ?thesis
  proof (cases "k' = k")
    case True
    then show ?thesis using shows_text_message[OF assms(1), of d] Message by (simp add: own_data_def)
  next
    case False
    then have "on_message k' d s = s" using assms(1) by (simp add: on_message_def shows_text_def)
    then show ?thesis using assms(1) Message False by (simp add: own_data_def)
  qed
qed (use assms in \<open>auto simp: passive_act_def own_data_def on_error_def on_close_def shows_text_def\<close>)

lemma shows_text_run:
  assumes "shows_text k ls t s" "list_all (passive_act k) es"
  shows "shows_text k ls (t @ concat (map (own_data k) es)) (pl_run errMsg closedMsg es s)"
  using assms
proof (induction es arbitrary: t s)
  case (Cons e es)
  from shows_text_step[OF Cons.prems(1), of e errMsg closedMsg] Cons.prems(2)
  have "shows_text k ls (t @ own_data k e) (pl_step errMsg closedMsg e s)" by simp
  from Cons.IH[OF this] Cons.prems(2) show ?case by (simp add: pl_run_def)
qed (simp add: pl_run_def)

lemma lines_capped_step:
  assumes "length (pl_lines s) \<le> MAX_LINES" "passive_act (pl_session s) e"
  shows "length (pl_lines (pl_step errMsg closedMsg e s)) \<le> MAX_LINES"
proof (cases e)
  case (Message k d)
  then show ?thesis using assms keep_last_length
    by (auto simp: on_message_def Let_def split: option.splits)
qed (use assms in \<open>auto simp: passive_act_def on_error_def on_close_def\<close>)

lemma passive_session: "passive_act k e \<Longrightarrow> pl_session (pl_step errMsg closedMsg e s) = pl_session s"
  by (cases e) (auto simp: passive_act_def on_message_def on_error_def on_close_def Let_def split: option.splits)

lemma lines_capped_run:
  assumes "length (pl_lines s) \<le> MAX_LINES" "list_all (passive_act (pl_session s)) es"
  shows "length (pl_lines (pl_run errMsg closedMsg es s)) \<le> MAX_LINES"
  using assms
proof (induction es arbitrary: s)
  case (Cons e es)
  have "length (pl_lines (pl_step errMsg closedMsg e s)) \<le> MAX_LINES"
    using lines_capped_step Cons.prems by simp
  then show ?case
    using Cons.IH[of "pl_step errMsg closedMsg e s"] Cons.prems
    by (simp add: pl_run_def passive_session[of "pl_session s" e])
qed (simp add: pl_run_def)

subsection \<open>Reachable drawers\<close>

definition picks_container :: "log_act \<Rightarrow> bool" where
  "picks_container e = (case e of SetContainer c \<Rightarrow> c \<noteq> [] | _ \<Rightarrow> True)"

text \<open>The snapshot of the dependencies is that of the last run of the effect.\<close>

definition prev_ok :: "pod_logs \<Rightarrow> bool" where
  "prev_ok s \<longleftrightarrow> (if hd_container (pl_deps s) = [] then pl_prev s = None else pl_prev s = Some (pl_deps s))"

lemma prev_effect: "hd_container (pl_deps s) = [] \<longrightarrow> pl_prev s = None \<Longrightarrow> prev_ok (effect_run s)"
  by (auto simp: prev_ok_def effect_run_def close_sockets_def connect_def Let_def)

lemma prev_ok_frame [simp]:
  "prev_ok (s\<lparr>pl_lines := ls\<rparr>) = prev_ok s" "prev_ok (s\<lparr>pl_error := e\<rparr>) = prev_ok s"
  "prev_ok (set_pending k p s) = prev_ok s"
  by (simp_all add: prev_ok_def)

lemma prev_step:
  assumes "prev_ok s" "picks_container e"
  shows "prev_ok (pl_step errMsg closedMsg e s)"
proof (cases e)
  case (Message k d)
  then show ?thesis using assms by (auto simp: on_message_def Let_def split: option.splits)
next
  case (SocketClosed k c code reason)
  then show ?thesis using assms by (auto simp: on_close_def Let_def)
qed (use assms in \<open>auto simp: with_deps_def on_error_def picks_container_def prev_ok_def[of s]
    intro!: prev_effect split: if_splits\<close>)

lemma reachable_ok:
  assumes "list_all picks_container es"
  shows "prev_ok (pl_run errMsg closedMsg es pl_init) \<and> sessions_ok (pl_run errMsg closedMsg es pl_init)"
proof -
  have "prev_ok s \<Longrightarrow> sessions_ok s \<Longrightarrow> prev_ok (pl_run errMsg closedMsg es s) \<and> sessions_ok (pl_run errMsg closedMsg es s)" for s
    using assms
    by (induction es arbitrary: s) (simp_all add: pl_run_def prev_step sessions_step)
  moreover have "prev_ok pl_init" by (simp add: prev_ok_def pl_init_def)
  ultimately show ?thesis using sessions_init by blast
qed


definition hard_act :: "log_act \<Rightarrow> bool" where
  "hard_act h = (case h of SetContainer _ \<Rightarrow> True | SetTail _ \<Rightarrow> True | SetPrevious _ \<Rightarrow> True | Reload \<Rightarrow> True | _ \<Rightarrow> False)"

lemma hard_step:
  assumes "prev_ok s" "sessions_ok s" "hard_act h"
    "pl_deps (pl_step errMsg closedMsg h s) \<noteq> pl_deps s" "hd_container (pl_deps (pl_step errMsg closedMsg h s)) \<noteq> []"
  defines "s1 \<equiv> pl_step errMsg closedMsg h s"
  shows "shows_text (pl_session s1) [] [] s1 \<and> pl_lines s1 = [] \<and> pl_session s1 = Suc (pl_session s)"
proof -
  obtain d where d: "s1 = with_deps d s"
    using assms(3) unfolding s1_def by (cases h) (auto simp: hard_act_def)
  have "d \<noteq> pl_deps s" using assms(4) unfolding s1_def[symmetric] by (auto simp: d with_deps_def)
  then have s1: "s1 = effect_run (s\<lparr>pl_deps := d\<rparr>)" by (simp add: d with_deps_def)
  then have dd: "pl_deps s1 = d" by (simp add: effect_run_def close_sockets_def connect_def Let_def)
  have c: "hd_container d \<noteq> []" using assms(5) dd by (simp add: s1_def)
  have "pl_prev s \<noteq> Some d"
    using assms(1) \<open>d \<noteq> pl_deps s\<close> by (auto simp: prev_ok_def split: if_splits)
  then have e: "s1 = (close_sockets (s\<lparr>pl_deps := d\<rparr>))\<lparr>pl_prev := Some d, pl_session := Suc (pl_session s),
      pl_lines := [], pl_error := None, pl_sockets := map closed (pl_sockets s) @ [\<lparr>so_key = Suc (pl_session s),
        so_opts = \<lparr>lo_container = Some (hd_container d), lo_follow = Some (pl_follow s),
          lo_tail = Some (hd_tail d), lo_previous = hd_previous d\<rparr>, so_pending = [], so_closed = False\<rparr>]\<rparr>"
    using c by (simp add: s1 effect_run_def close_sockets_def connect_def Let_def)
  have "so_key w \<noteq> Suc (pl_session s)" if "w \<in> set (pl_sockets s)" for w
    using assms(2) that by (fastforce simp: sessions_ok_def sockets_ok_def)
  then have "List.find (\<lambda>w. so_key w = Suc (pl_session s)) (map closed (pl_sockets s)) = None"
    by (auto simp: find_None_iff)
  moreover have "List.find P (xs @ [y]) = (case List.find P xs of None \<Rightarrow> if P y then Some y else None | Some x \<Rightarrow> Some x)"
    for P and xs :: "log_socket list" and y by (induction xs) auto
  ultimately show ?thesis
    by (simp add: e shows_text_def has_socket_def pending_of_def last_piece_def whole_lines_def)
qed

text \<open>C5. A log session shows its own lines only.  After the container, the tail or
  the previous flag changes or the user reloads, in any reachable drawer, the
  buffer holds exactly the lines the new connection has completed, however its
  text was cut into frames, and the last 5000 of them when there are more; frames
  and ends of earlier connections change nothing, all of those are closed, and
  when the new connection ends its unfinished last line is added.\<close>

theorem pod_logs_show_their_session:
  assumes s: "s = pl_run errMsg closedMsg es0 pl_init" "list_all picks_container es0"
    and h: "hard_act h" "s1 = pl_step errMsg closedMsg h s" "pl_deps s1 \<noteq> pl_deps s" "hd_container (pl_deps s1) \<noteq> []"
    and es: "list_all (passive_act (pl_session s1)) es" "text1 = concat (map (own_data (pl_session s1)) es)"
  shows "pl_lines (pl_run errMsg closedMsg es s1) = keep_last MAX_LINES (whole_lines text1) \<and>
    pl_lines (pl_run errMsg closedMsg (es @ [SocketClosed (pl_session s1) True 1000 []]) s1) =
      keep_last MAX_LINES (whole_lines text1) @ (if last_piece text1 = [] then [] else [last_piece text1]) \<and>
    (\<forall>w \<in> set (pl_sockets (pl_run errMsg closedMsg es s1)). so_key w \<noteq> pl_session s1 \<longrightarrow> so_closed w)"
proof -
  have ok: "prev_ok s" "sessions_ok s" using reachable_ok[OF s(2)] s(1) by blast+
  have h1: "shows_text (pl_session s1) [] [] s1" "pl_lines s1 = []"
    using hard_step[OF ok h(1)] h(3,4) unfolding h(2) by blast+
  let ?s2 = "pl_run errMsg closedMsg es s1"
  have t: "shows_text (pl_session s1) [] text1 ?s2"
    using shows_text_run[OF h1(1) es(1)] es(2) by simp
  have cap: "length (pl_lines ?s2) \<le> MAX_LINES"
    using lines_capped_run[OF _ es(1)] h1(2) by simp
  have l: "pl_lines ?s2 = keep_last MAX_LINES (whole_lines text1)"
    using t keep_last_short[OF cap] by (simp add: shows_text_def)
  have "pl_lines (pl_step errMsg closedMsg (SocketClosed (pl_session s1) True 1000 []) ?s2) =
      keep_last MAX_LINES (whole_lines text1) @ (if last_piece text1 = [] then [] else [last_piece text1])"
    using t l by (simp add: shows_text_def on_close_def Let_def)
  then have c: "pl_lines (pl_run errMsg closedMsg (es @ [SocketClosed (pl_session s1) True 1000 []]) s1) =
      keep_last MAX_LINES (whole_lines text1) @ (if last_piece text1 = [] then [] else [last_piece text1])"
    by (simp add: pl_run_def)
  have "sessions_ok s1" unfolding h(2) using ok(2) by (rule sessions_step)
  then have "sessions_ok ?s2"
    by (induction es arbitrary: s1) (simp_all add: pl_run_def sessions_step)
  moreover have "pl_session ?s2 = pl_session s1" using t by (simp add: shows_text_def)
  ultimately have "\<forall>w \<in> set (pl_sockets ?s2). so_key w \<noteq> pl_session s1 \<longrightarrow> so_closed w"
    by (fastforce simp: sessions_ok_def sockets_ok_def)
  with l c show ?thesis by blast
qed

text \<open>A drawer that has shown a line of its first session, then reloads; a late frame
  of the first session and a line cut into two frames arrive.\<close>

definition demo_closed :: "nat \<Rightarrow> string \<Rightarrow> string" where
  "demo_closed code reason = ''closed '' @ reason"

definition demo_open :: "log_act list" where
  "demo_open = [SetContainer ''app'', Message 1 (''boot'' @ [CHR 0x0A])]"

definition demo_frames :: "log_act list" where
  "demo_frames = [Message 2 ''re'', Message 1 (''late'' @ [CHR 0x0A]), Message 2 (''ady'' @ [CHR 0x0A] @ ''go'')]"

lemma pod_logs_show_their_session_witness:
  "let s1 = pl_step ''err'' demo_closed Reload (pl_run ''err'' demo_closed demo_open pl_init);
       text1 = concat (map (own_data (pl_session s1)) demo_frames)
   in pl_lines (pl_run ''err'' demo_closed demo_frames s1) = keep_last MAX_LINES (whole_lines text1) \<and>
    pl_lines (pl_run ''err'' demo_closed (demo_frames @ [SocketClosed (pl_session s1) True 1000 []]) s1) =
      keep_last MAX_LINES (whole_lines text1) @ (if last_piece text1 = [] then [] else [last_piece text1]) \<and>
    (\<forall>w \<in> set (pl_sockets (pl_run ''err'' demo_closed demo_frames s1)). so_key w \<noteq> pl_session s1 \<longrightarrow> so_closed w)"
  unfolding Let_def
proof (rule pod_logs_show_their_session[of _ "''err''" demo_closed demo_open Reload])
  show "pl_deps (pl_step ''err'' demo_closed Reload (pl_run ''err'' demo_closed demo_open pl_init)) \<noteq>
      pl_deps (pl_run ''err'' demo_closed demo_open pl_init)" by code_simp
  show "hd_container (pl_deps (pl_step ''err'' demo_closed Reload (pl_run ''err'' demo_closed demo_open pl_init))) \<noteq> []"
    by code_simp
qed (simp_all add: demo_open_def demo_frames_def picks_container_def hard_act_def passive_act_def)

text \<open>The pause: following is switched off and on again.\<close>

definition foreign_act :: "nat \<Rightarrow> log_act \<Rightarrow> bool" where
  "foreign_act k e = (case e of Message k' _ \<Rightarrow> k' \<noteq> k | SocketError k' \<Rightarrow> k' \<noteq> k
     | SocketClosed k' _ _ _ \<Rightarrow> k' \<noteq> k | _ \<Rightarrow> False)"

lemma foreign_run:
  "list_all (foreign_act (pl_session s)) es \<Longrightarrow> pl_run errMsg closedMsg es s = s"
proof (induction es arbitrary: s)
  case (Cons e es)
  then have "pl_step errMsg closedMsg e s = s"
    by (cases e) (auto simp: foreign_act_def on_message_def on_error_def on_close_def)
  with Cons show ?case by (simp add: pl_run_def)
qed (simp add: pl_run_def)

text \<open>Pausing keeps the buffer.  When the user stops following in a reachable
  drawer, every connection is closed and no new one opened, the lines stay, and
  nothing the closed connections still deliver is added; when the user follows
  again, the lines of the new connection are appended to them, within the limit
  of 5000 lines.\<close>

theorem pause_keeps_the_buffer:
  assumes s: "s = pl_run errMsg closedMsg es0 pl_init" "list_all picks_container es0"
    and c: "hd_container (pl_deps s) \<noteq> []" "pl_follow s"
    and s1: "s1 = pl_run errMsg closedMsg (SetFollow False # es1) s" "list_all (foreign_act (Suc (pl_session s))) es1"
    and s2: "s2 = pl_run errMsg closedMsg (SetFollow True # es2) s1"
      "list_all (passive_act (Suc (Suc (pl_session s)))) es2"
  shows "pl_lines s1 = pl_lines s \<and> list_all so_closed (pl_sockets s1) \<and>
    length (pl_sockets s1) = length (pl_sockets s) \<and>
    keep_last MAX_LINES (pl_lines s2) = keep_last MAX_LINES
      (pl_lines s @ whole_lines (concat (map (own_data (Suc (Suc (pl_session s)))) es2)))"
proof -
  have ok: "prev_ok s" "sessions_ok s" using reachable_ok[OF s(2)] s(1) by blast+
  have p: "pl_prev s = Some (pl_deps s)" using ok(1) c(1) by (simp add: prev_ok_def)
  let ?off = "(close_sockets (s\<lparr>pl_follow := False\<rparr>))\<lparr>pl_session := Suc (pl_session s), pl_error := None\<rparr>"
  have off: "pl_step errMsg closedMsg (SetFollow False) s = ?off"
    using c p by (simp add: effect_run_def connect_def close_sockets_def Let_def)
  have "pl_session ?off = Suc (pl_session s)" by (simp add: close_sockets_def)
  then have s1': "s1 = ?off"
    using foreign_run[of ?off es1] s1 off by (simp add: pl_run_def)
  let ?k = "Suc (Suc (pl_session s))"
  let ?on = "pl_step errMsg closedMsg (SetFollow True) ?off"
  have on: "?on = ?off\<lparr>pl_follow := True, pl_session := ?k,
      pl_sockets := map closed (pl_sockets ?off) @ [\<lparr>so_key = ?k,
        so_opts = \<lparr>lo_container = Some (hd_container (pl_deps s)), lo_follow = Some True,
          lo_tail = Some (hd_tail (pl_deps s)), lo_previous = hd_previous (pl_deps s)\<rparr>,
        so_pending = [], so_closed = False\<rparr>]\<rparr>"
    using c p by (simp add: effect_run_def connect_def close_sockets_def Let_def)
  have "so_key w \<noteq> ?k" if "w \<in> set (pl_sockets s)" for w
    using ok(2) that by (fastforce simp: sessions_ok_def sockets_ok_def)
  then have "List.find (\<lambda>w. so_key w = ?k) (map closed (map closed (pl_sockets s))) = None"
    by (auto simp: find_None_iff)
  moreover have "List.find P (xs @ [y]) = (case List.find P xs of None \<Rightarrow> if P y then Some y else None | Some x \<Rightarrow> Some x)"
    for P and xs :: "log_socket list" and y by (induction xs) auto
  ultimately have "shows_text ?k (pl_lines s) [] ?on"
    unfolding on by (simp add: shows_text_def has_socket_def pending_of_def last_piece_def whole_lines_def close_sockets_def)
  from shows_text_run[OF this s2(2)] have "shows_text ?k (pl_lines s) (concat (map (own_data ?k) es2)) s2"
    unfolding s2(1) s1' by (simp add: pl_run_def)
  then show ?thesis
    unfolding s1' shows_text_def by (simp add: close_sockets_def list_all_iff)
qed

lemma pause_keeps_the_buffer_witness:
  "let s = pl_run ''err'' demo_closed demo_open pl_init;
       s1 = pl_run ''err'' demo_closed [SetFollow False, Message 1 (''late'' @ [CHR 0x0A])] s;
       s2 = pl_run ''err'' demo_closed [SetFollow True, Message 3 (''on'' @ [CHR 0x0A])] s1
   in pl_lines s1 = pl_lines s \<and> list_all so_closed (pl_sockets s1) \<and>
    length (pl_sockets s1) = length (pl_sockets s) \<and>
    keep_last MAX_LINES (pl_lines s2) = keep_last MAX_LINES
      (pl_lines s @ whole_lines (concat (map (own_data (Suc (Suc (pl_session s)))) [Message 3 (''on'' @ [CHR 0x0A])])))"
  unfolding Let_def
proof (rule pause_keeps_the_buffer[of _ "''err''" demo_closed demo_open])
  have k: "pl_session (pl_run ''err'' demo_closed demo_open pl_init) = 1" by code_simp
  show "list_all (foreign_act (Suc (pl_session (pl_run ''err'' demo_closed demo_open pl_init)))) [Message 1 (''late'' @ [CHR 0x0A])]"
    unfolding k by (simp add: foreign_act_def)
  show "hd_container (pl_deps (pl_run ''err'' demo_closed demo_open pl_init)) \<noteq> []" by code_simp
  show "pl_follow (pl_run ''err'' demo_closed demo_open pl_init)" by code_simp
qed (simp_all add: demo_open_def picks_container_def passive_act_def)

subsection \<open>Highlighting loses nothing\<close>

lemma slice_join: "i \<le> j \<Longrightarrow> take i s @ slice i j s = take j s"
  by (simp add: slice_def flip: take_add)

lemma highlight_loop_total:
  assumes exec: "\<And>k i n. exec k s = Some (i, n) \<Longrightarrow> k \<le> i \<and> i + n \<le> length s"
  shows "lst \<le> k \<Longrightarrow> lst \<le> length s \<Longrightarrow> concat (map part_text parts) = take lst s \<Longrightarrow>
    \<exists>ps. highlight_loop exec s lst k parts = Some ps \<and> concat (map part_text ps) = s \<and>
      (\<forall>m. Mark m \<in> set ps \<longrightarrow> Mark m \<in> set parts \<or> (\<exists>i j n. exec j s = Some (i, n) \<and> m = slice i (i + n) s))"
proof (induction "Suc (length s) - k" arbitrary: lst k parts rule: less_induct)
  case less
  show ?case
  proof (cases "exec k s")
    case None
    then have "highlight_loop exec s lst k parts = Some (parts @ (if lst < length s then [Plain (drop lst s)] else []))"
      by (subst highlight_loop.simps) simp
    then show ?thesis using less.prems
      by (auto intro!: exI[of _ "parts @ (if lst < length s then [Plain (drop lst s)] else [])"])
  next
    case (Some p)
    obtain i n where p: "p = (i, n)" by force
    with Some exec have b: "k \<le> i" "i + n \<le> length s" by auto
    let ?k = "i + n + (if n = 0 then 1 else 0)"
    let ?parts = "parts @ (if lst < i then [Plain (slice lst i s)] else []) @ [Mark (slice i (i + n) s)]"
    have step: "highlight_loop exec s lst k parts = highlight_loop exec s (i + n) ?k ?parts"
      using Some p by (subst highlight_loop.simps) simp
    have "k < ?k" "k \<le> length s" using b by auto
    then have "Suc (length s) - ?k < Suc (length s) - k" by (intro diff_less_mono2) simp_all
    moreover have "concat (map part_text ?parts) = take (i + n) s"
    proof -
      have "take lst s @ (if lst < i then slice lst i s else []) = take i s"
        using less.prems(1) b slice_join[of lst i s] by (cases "lst = i") auto
      moreover have "take i s @ slice i (i + n) s = take (i + n) s" by (rule slice_join) simp
      ultimately show ?thesis using less.prems(3) by (auto simp flip: append_assoc)
    qed
    ultimately obtain ps where ps: "highlight_loop exec s (i + n) ?k ?parts = Some ps"
      "concat (map part_text ps) = s"
      "\<forall>m. Mark m \<in> set ps \<longrightarrow> Mark m \<in> set ?parts \<or> (\<exists>i j n. exec j s = Some (i, n) \<and> m = slice i (i + n) s)"
      using less.hyps[of ?k "i + n" ?parts] b by auto
    have new: "Mark m \<in> set ?parts \<Longrightarrow> Mark m \<in> set parts \<or> m = slice i (i + n) s" for m by (auto split: if_splits)
    have "Mark m \<in> set parts \<or> (\<exists>i j n. exec j s = Some (i, n) \<and> m = slice i (i + n) s)"
      if m: "Mark m \<in> set ps" for m
    proof -
      have "Mark m \<in> set ?parts \<or> (\<exists>i j n. exec j s = Some (i, n) \<and> m = slice i (i + n) s)"
        using ps(3) m by blast
      then show ?thesis
      proof
        assume "Mark m \<in> set ?parts"
        from new[OF this] show ?thesis using Some p by blast
      qed blast
    qed
    then show ?thesis unfolding step using ps(1,2) by blast
  qed
qed

text \<open>Highlighting ends and loses nothing.  For a pattern whose matches lie in the
  line at or after the index they are searched from, empty ones included, the
  loop ends, the pieces of the line read one after the other are the line, and
  only matches are marked.\<close>

theorem highlight_loses_nothing:
  assumes "\<And>k i n. exec k s = Some (i, n) \<Longrightarrow> k \<le> i \<and> i + n \<le> length s"
  shows "\<exists>ps. highlightLine (Some exec) s = Some ps \<and> concat (map part_text ps) = s \<and>
    (\<forall>m. Mark m \<in> set ps \<longrightarrow> (\<exists>i j n. exec j s = Some (i, n) \<and> m = slice i (i + n) s))"
  using highlight_loop_total[where exec = exec and s = s and lst = 0 and k = 0 and parts = "[]"] assms
  by (simp add: highlightLine_def)

text \<open>The pattern /x*/ on texts of x and y, with its empty matches.\<close>

definition xs_exec :: "nat \<Rightarrow> string \<Rightarrow> (nat \<times> nat) option" where
  "xs_exec k s = (if k \<le> length s then Some (k, length (takeWhile (\<lambda>c. c = CHR ''x'') (drop k s))) else None)"

lemma highlight_loses_nothing_witness:
  "\<exists>ps. highlightLine (Some xs_exec) ''yxxy'' = Some ps \<and> concat (map part_text ps) = ''yxxy'' \<and>
    (\<forall>m. Mark m \<in> set ps \<longrightarrow> (\<exists>i j n. xs_exec j ''yxxy'' = Some (i, n) \<and> m = slice i (i + n) ''yxxy''))"
proof (rule highlight_loses_nothing)
  fix k i n assume "xs_exec k ''yxxy'' = Some (i, n)"
  then have "k \<le> 4" "i = k" "n = length (takeWhile (\<lambda>c. c = CHR ''x'') (drop k ''yxxy''))"
    by (auto simp: xs_exec_def split: if_splits)
  moreover have "length (takeWhile (\<lambda>c. c = CHR ''x'') (drop k ''yxxy'')) \<le> length (drop k ''yxxy'')"
    by (rule length_takeWhile_le)
  ultimately show "k \<le> i \<and> i + n \<le> length ''yxxy''" by simp
qed

end
