(* ===== verification/StreamDrawers.thy ===== *)
theory StreamDrawers
  imports PodLogs
begin

text \<open>
  components/PluginInstallLogDrawer and ClusterDetail/Workloads/PodExecDrawer.tsx:
  the install log of a plugin and the terminal of a pod, as step functions over
  what the browser delivers and what the user does.

  A WebSocket that close() was called on delivers no frame any more and drops
  what is sent on it, as the WebSocket standard says; JSON.parse is the parameter
  parse and the xterm terminal is the list of bytes written to it.
\<close>

section \<open>The install log of a plugin\<close>

definition buildPluginInstallLogURL :: "string \<Rightarrow> string \<Rightarrow> string \<Rightarrow> string \<Rightarrow> string" where
  "buildPluginInstallLogURL protocol host clusterId pluginName =
    ws_base protocol host @ path [''api'', ''v1'', ''clusters'', clusterId, ''plugins'', pluginName, ''install-log'']"

text \<open>il_socket is the open socket, il_timer whether the two second timer is pending.\<close>

record install_log =
  il_entries :: "json list"
  il_end :: "(bool \<times> jval) option"
  il_stale :: bool
  il_timer :: bool
  il_socket :: "nat option"
  il_runs :: nat

definition il_init :: install_log where
  "il_init = \<lparr>il_entries = [], il_end = None, il_stale = False, il_timer = False, il_socket = None, il_runs = 0\<rparr>"

definition il_cleanup :: "install_log \<Rightarrow> install_log" where
  "il_cleanup s = s\<lparr>il_timer := False, il_socket := None\<rparr>"

definition il_connect :: "install_log \<Rightarrow> install_log" where
  "il_connect s = s\<lparr>il_entries := [], il_end := None, il_stale := False,
     il_runs := Suc (il_runs s), il_socket := Some (Suc (il_runs s)), il_timer := True\<rparr>"

definition il_silence :: "install_log \<Rightarrow> install_log" where
  "il_silence s = (if il_timer s then s\<lparr>il_timer := False, il_stale := True, il_socket := None\<rparr> else s)"

definition end_of :: "json \<Rightarrow> bool \<times> jval" where
  "end_of entry = (truthy (jget ''success'' entry), coalesce (jget ''summary'' entry) (Some (JStr [])))"

definition il_entry :: "json \<Rightarrow> install_log \<Rightarrow> install_log" where
  "il_entry entry s =
    (if jget ''kind'' entry = Some (JStr ''reset'') then s\<lparr>il_entries := [], il_end := None\<rparr>
     else let s1 = s\<lparr>il_entries := il_entries s @ [entry]\<rparr>
       in if jget ''kind'' entry = Some (JStr ''end'') then s1\<lparr>il_end := Some (end_of entry)\<rparr> else s1)"

text \<open>A frame that does not parse and a null frame, whose kind throws, are skipped.\<close>

definition il_frame :: "(string \<Rightarrow> json option) \<Rightarrow> string \<Rightarrow> install_log \<Rightarrow> install_log" where
  "il_frame parse data s =
    (let s1 = s\<lparr>il_timer := False\<rparr>
     in case parse data of
       None \<Rightarrow> s1
     | Some entry \<Rightarrow> if entry = JNull then s1 else il_entry entry s1)"

datatype il_act = OpenLog | HideLog | LogFrame nat string | Silence

text \<open>OpenLog is a run of the effect for an open drawer (opened, or given another
  plugin); HideLog is its clean-up alone.\<close>

fun il_step :: "(string \<Rightarrow> json option) \<Rightarrow> il_act \<Rightarrow> install_log \<Rightarrow> install_log" where
  "il_step parse OpenLog s = il_connect (il_cleanup s)"
| "il_step parse HideLog s = il_cleanup s"
| "il_step parse (LogFrame k d) s = (if il_socket s = Some k then il_frame parse d s else s)"
| "il_step parse Silence s = il_silence s"

datatype log_banner = Unavailable | Running | Installed | InstallFailed

definition il_banner :: "install_log \<Rightarrow> log_banner" where
  "il_banner s =
    (if il_stale s then Unavailable
     else case il_end s of None \<Rightarrow> Running | Some (success, _) \<Rightarrow> if success then Installed else InstallFailed)"

text \<open>A row of the list: the text before the entry, and what is printed of it.  hms is
  the local time of a time stamp, as hours, minutes and seconds.\<close>

definition pad2 :: "nat \<Rightarrow> string" where
  "pad2 n = (if n < 10 then ''0'' @ show_nat n else show_nat n)"

definition formatHMS :: "nat \<times> nat \<times> nat \<Rightarrow> string" where
  "formatHMS t = (case t of (h, m, s) \<Rightarrow> pad2 h @ '':'' @ pad2 m @ '':'' @ pad2 s)"

definition entry_mark :: "(rat \<Rightarrow> nat \<times> nat \<times> nat) \<Rightarrow> json \<Rightarrow> string" where
  "entry_mark hms entry =
    (if jget ''kind'' entry = Some (JStr ''end'')
     then (if truthy (jget ''success'' entry) then [CHR 0xE2, CHR 0x9C, CHR 0x93] else [CHR 0xE2, CHR 0x9C, CHR 0x97])
     else ''['' @ (case jget ''ts'' entry of Some (JNum x) \<Rightarrow> if x = 0 then [] else formatHMS (hms x) | _ \<Rightarrow> []) @ '']'')"

subsection \<open>The last operation is what is shown\<close>

definition is_reset :: "json \<Rightarrow> bool" where
  "is_reset v \<longleftrightarrow> jget ''kind'' v = Some (JStr ''reset'')"

definition is_end :: "json \<Rightarrow> bool" where
  "is_end v \<longleftrightarrow> jget ''kind'' v = Some (JStr ''end'')"

definition since_reset :: "json list \<Rightarrow> json list" where
  "since_reset vs = rev (takeWhile (\<lambda>v. \<not> is_reset v) (rev vs))"

definition last_end :: "json list \<Rightarrow> (bool \<times> jval) option" where
  "last_end vs = map_option end_of (List.find is_end (rev vs))"

definition frame_entries :: "(string \<Rightarrow> json option) \<Rightarrow> nat \<Rightarrow> il_act \<Rightarrow> json list" where
  "frame_entries parse k e =
    (case e of LogFrame k' d \<Rightarrow> if k' = k
       then (case parse d of Some v \<Rightarrow> if v = JNull then [] else [v] | None \<Rightarrow> []) else []
     | _ \<Rightarrow> [])"

definition delivered :: "il_act \<Rightarrow> bool" where
  "delivered e = (case e of LogFrame _ _ \<Rightarrow> True | Silence \<Rightarrow> True | _ \<Rightarrow> False)"

definition own_event :: "nat \<Rightarrow> il_act \<Rightarrow> bool" where
  "own_event k e = (case e of LogFrame k' _ \<Rightarrow> k' = k | _ \<Rightarrow> True)"

lemma since_reset_snoc:
  "since_reset (vs @ [v]) = (if is_reset v then [] else since_reset vs @ [v])"
  by (simp add: since_reset_def)

lemma last_end_snoc: "last_end (vs @ [v]) = (if is_end v then Some (end_of v) else last_end vs)"
  by (simp add: last_end_def)

text \<open>The drawer has received the entries vs on its open socket k.\<close>

definition follows_log :: "nat \<Rightarrow> json list \<Rightarrow> install_log \<Rightarrow> bool" where
  "follows_log k vs s \<longleftrightarrow> il_socket s = Some k \<and> \<not> il_stale s \<and> \<not> il_timer s \<and>
     il_entries s = since_reset vs \<and> il_end s = last_end (since_reset vs)"

lemma follows_entry:
  assumes "follows_log k vs s"
  shows "follows_log k (vs @ [v]) (il_entry v s)"
proof (cases "is_reset v")
  case True
  then show ?thesis using assms
    by (simp add: follows_log_def il_entry_def is_reset_def since_reset_snoc last_end_def)
next
  case False
  then show ?thesis using assms
    by (auto simp: follows_log_def il_entry_def Let_def since_reset_snoc last_end_snoc)
      (auto simp: is_reset_def is_end_def)
qed

lemma follows_step:
  assumes "follows_log k vs s" "delivered e"
  shows "follows_log k (vs @ frame_entries parse k e) (il_step parse e s)"
proof (cases e)
  case (LogFrame k' d)
  have t: "s\<lparr>il_timer := False\<rparr> = s" using assms(1) by (cases s) (simp add: follows_log_def)
  have k: "il_socket s = Some k" using assms(1) by (simp add: follows_log_def)
  show ?thesis
  proof (cases "k' = k \<and> parse d \<noteq> None \<and> parse d \<noteq> Some JNull")
    case True
    then obtain v where v: "parse d = Some v" "v \<noteq> JNull" by auto
    with True k have "il_step parse e s = il_entry v s" by (simp add: LogFrame il_frame_def t)
    with v True follows_entry[OF assms(1), of v] show ?thesis by (simp add: LogFrame frame_entries_def)
  next
    case False
    then have "il_step parse e s = s" using k
      by (auto simp: LogFrame il_frame_def t split: option.splits)
    moreover have "frame_entries parse k e = []"
      using False by (auto simp: LogFrame frame_entries_def split: option.splits)
    ultimately show ?thesis using assms(1) by simp
  qed
qed (use assms in \<open>auto simp: delivered_def frame_entries_def il_silence_def follows_log_def\<close>)

lemma follows_run:
  assumes "follows_log k vs s" "list_all delivered es"
  shows "follows_log k (vs @ concat (map (frame_entries parse k) es)) (fold (il_step parse) es s)"
  using assms
proof (induction es arbitrary: vs s)
  case (Cons e es)
  then have "follows_log k (vs @ frame_entries parse k e) (il_step parse e s)"
    by (intro follows_step) simp_all
  from Cons.IH[OF this] Cons.prems(2) show ?case by simp
qed simp

lemma stale_run:
  assumes "il_socket s = None" "\<not> il_timer s" "list_all delivered es"
  shows "fold (il_step parse) es s = s"
  using assms(3)
proof (induction es)
  case (Cons e es)
  then have "il_step parse e s = s"
    using assms(1,2) by (cases e) (auto simp: delivered_def il_silence_def)
  with Cons show ?case by simp
qed simp

lemma foreign_frames_run:
  assumes "il_socket s = Some k" "list_all delivered es" "list_all (\<lambda>e. \<not> own_event k e) es"
  shows "fold (il_step parse) es s = s"
  using assms(2,3)
proof (induction es)
  case (Cons e es)
  then have "il_step parse e s = s"
    using assms(1) by (cases e) (auto simp: delivered_def own_event_def)
  with Cons show ?case by simp
qed simp

lemma foreign_entries: "list_all (\<lambda>e. \<not> own_event k e) es \<Longrightarrow> concat (map (frame_entries parse k) es) = []"
proof (induction es)
  case (Cons e es)
  then show ?case by (cases e) (simp_all add: own_event_def frame_entries_def)
qed simp

lemma skip_foreign:
  assumes "il_socket s = Some k" "list_all delivered es"
  defines "post \<equiv> dropWhile (\<lambda>e. \<not> own_event k e) es"
  shows "fold (il_step parse) es s = fold (il_step parse) post s \<and>
    concat (map (frame_entries parse k) es) = concat (map (frame_entries parse k) post) \<and> list_all delivered post"
proof -
  let ?pre = "takeWhile (\<lambda>e. \<not> own_event k e) es"
  have es: "es = ?pre @ post" by (simp add: post_def)
  have d: "list_all delivered ?pre" "list_all delivered post"
    using assms(2) by (auto simp: post_def list_all_iff dest: set_takeWhileD set_dropWhileD)
  have f: "list_all (\<lambda>e. \<not> own_event k e) ?pre" by (auto simp: list_all_iff dest: set_takeWhileD)
  have "fold (il_step parse) (?pre @ post) s = fold (il_step parse) post s"
    by (simp only: fold_append o_apply foreign_frames_run[OF assms(1) d(1) f])
  moreover have "concat (map (frame_entries parse k) (?pre @ post)) = concat (map (frame_entries parse k) post)"
    by (simp only: map_append concat_append foreign_entries[OF f] append_Nil)
  ultimately show ?thesis using d(2) unfolding es[symmetric] by blast
qed

text \<open>C18. The install log shows the last operation.  However a reachable drawer is
  opened, it then shows exactly the frames of its own connection after the last
  reset, and the banner is the verdict of the last end frame among them, running
  when there is none; when two seconds pass before the first frame the drawer
  says unavailable for good, with no entry and no connection left.\<close>

theorem install_log_shows_last_operation:
  assumes s: "s = il_step parse OpenLog (fold (il_step parse) es0 il_init)" "k = il_runs s"
    and es: "list_all delivered es" "vs = since_reset (concat (map (frame_entries parse k) es))"
    and t: "t = fold (il_step parse) es s"
  shows "case dropWhile (\<lambda>e. \<not> own_event k e) es of
      [] \<Rightarrow> il_entries t = [] \<and> il_banner t = Running
    | Silence # _ \<Rightarrow> il_entries t = [] \<and> il_banner t = Unavailable \<and> il_socket t = None
    | _ \<Rightarrow> il_entries t = vs \<and> il_socket t = Some k \<and> il_banner t = (case last_end vs of
        None \<Rightarrow> Running | Some (ok, _) \<Rightarrow> if ok then Installed else InstallFailed)"
proof -
  let ?own = "own_event k"
  let ?post = "dropWhile (\<lambda>e. \<not> ?own e) es"
  have conn: "il_socket s = Some k" "il_entries s = []" "il_end s = None" "\<not> il_stale s" "il_timer s"
    unfolding s by (simp_all add: il_connect_def)
  note skip = skip_foreign[OF conn(1) es(1), of parse]
  have t': "t = fold (il_step parse) ?post s" using skip t by blast
  have vs: "vs = since_reset (concat (map (frame_entries parse k) ?post))" unfolding es(2) using skip by metis
  have d: "list_all delivered ?post" using skip by blast
  show ?thesis
  proof (cases ?post)
    case Nil
    then show ?thesis using conn unfolding t' by (simp only: Nil fold_simps list.case il_banner_def option.case if_False)
  next
    case (Cons e post)
    have own: "?own e" using Cons by (metis dropWhile_eq_Cons_conv)
    have de: "delivered e" "list_all delivered post" using d unfolding Cons by simp_all
    show ?thesis
    proof (cases e)
      case (LogFrame k' x)
      with own have k': "k' = k" by (simp add: own_event_def)
      have "follows_log k [] (s\<lparr>il_timer := False\<rparr>)"
        using conn by (simp add: follows_log_def since_reset_def last_end_def)
      from follows_step[OF this de(1), of parse]
      have "follows_log k (frame_entries parse k e) (il_step parse e s)"
        using conn by (simp add: LogFrame k' il_frame_def Let_def)
      from follows_run[OF this de(2), of parse] show ?thesis
        unfolding Cons vs t' by (simp add: LogFrame follows_log_def il_banner_def)
    next
      case Silence
      have "il_step parse e s = s\<lparr>il_timer := False, il_stale := True, il_socket := None\<rparr>"
        using conn by (simp add: Silence il_silence_def)
      then have "t = s\<lparr>il_timer := False, il_stale := True, il_socket := None\<rparr>"
        unfolding t' Cons using stale_run[OF _ _ de(2)] by simp
      then show ?thesis using conn unfolding Cons by (simp add: Silence il_banner_def)
    qed (use de in \<open>simp_all add: delivered_def\<close>)
  qed
qed

text \<open>A replayed uninstall, then a reset and a new install.\<close>

definition demo_parse :: "string \<Rightarrow> json option" where
  "demo_parse d = map_of
    [(''old'', JObj [(''kind'', JStr ''end''), (''success'', JBool True), (''summary'', JStr ''removed'')]),
     (''reset'', JObj [(''kind'', JStr ''reset'')]),
     (''line'', JObj [(''kind'', JStr ''chunk''), (''message'', JStr ''pulling'')])] d"

lemma install_log_shows_last_operation_witness:
  "let s = il_step demo_parse OpenLog (fold (il_step demo_parse) [] il_init);
       es = [LogFrame 7 ''line'', LogFrame 1 ''old'', Silence, LogFrame 1 ''reset'', LogFrame 1 ''bad'', LogFrame 1 ''line''];
       vs = since_reset (concat (map (frame_entries demo_parse 1) es));
       t = fold (il_step demo_parse) es s
   in case dropWhile (\<lambda>e. \<not> own_event 1 e) es of
      [] \<Rightarrow> il_entries t = [] \<and> il_banner t = Running
    | Silence # _ \<Rightarrow> il_entries t = [] \<and> il_banner t = Unavailable \<and> il_socket t = None
    | _ \<Rightarrow> il_entries t = vs \<and> il_socket t = Some 1 \<and> il_banner t = (case last_end vs of
        None \<Rightarrow> Running | Some (ok, _) \<Rightarrow> if ok then Installed else InstallFailed)"
  unfolding Let_def
proof (rule install_log_shows_last_operation[of _ demo_parse "[]"])
  show "1 = il_runs (il_step demo_parse OpenLog (fold (il_step demo_parse) [] il_init))"
    by (simp add: il_init_def il_connect_def il_cleanup_def)
  show "list_all delivered [LogFrame 7 ''line'', LogFrame 1 ''old'', Silence, LogFrame 1 ''reset'', LogFrame 1 ''bad'', LogFrame 1 ''line'']"
    by (simp add: delivered_def)
qed (rule refl)+

section \<open>The terminal of a pod\<close>

datatype ready_state = Connecting | Ready | Ended

datatype paste_toast = PasteNotReady | PasteFailed | PasteEmpty

record exec_state =
  ex_container :: string
  ex_reload :: nat
  ex_error :: "string option"
  ex_session :: nat
  ex_screen :: string
  ex_live :: "(nat \<times> ready_state) option"
  ex_sent :: "(nat \<times> string) list"
  ex_toasts :: "paste_toast list"

definition exec_init :: exec_state where
  "exec_init = \<lparr>ex_container = [], ex_reload = 0, ex_error = None, ex_session = 0, ex_screen = [],
     ex_live = None, ex_sent = [], ex_toasts = []\<rparr>"

text \<open>The effect's clean-up disposes of terminal and socket; its body opens new ones.\<close>

definition exec_cleanup :: "exec_state \<Rightarrow> exec_state" where
  "exec_cleanup s = s\<lparr>ex_screen := [], ex_live := None\<rparr>"

definition exec_connect :: "exec_state \<Rightarrow> exec_state" where
  "exec_connect s =
    (if ex_container s = [] then s
     else s\<lparr>ex_session := Suc (ex_session s), ex_error := None, ex_screen := [],
            ex_live := Some (Suc (ex_session s), Connecting)\<rparr>)"

text \<open>The dimensions asked for at connection time; 0 is a terminal not laid out yet.\<close>

definition exec_dims :: "nat \<Rightarrow> nat \<Rightarrow> nat \<times> nat" where
  "exec_dims cols rows = (if cols = 0 then 80 else cols, if rows = 0 then 24 else rows)"

definition ended_text :: "string \<Rightarrow> string" where
  "ended_text errMsg = [CHR 0x0D, CHR 0x0A, CHR 0x1B] @ ''[33m[session ended'' @
     (if errMsg = [] then [] else '': '' @ errMsg) @ '']'' @ [CHR 0x1B] @ ''[0m'' @ [CHR 0x0D, CHR 0x0A]"

text \<open>What a frame of the server writes to the terminal.\<close>

definition frame_text :: "string \<Rightarrow> string" where
  "frame_text buf =
    (case buf of
       [] \<Rightarrow> []
     | tag # body \<Rightarrow>
         if tag = CHR 0x01 \<or> tag = CHR 0x02 then body
         else if tag = CHR 0x03 then ended_text body
         else [])"

definition exec_frame :: "nat \<Rightarrow> string \<Rightarrow> exec_state \<Rightarrow> exec_state" where
  "exec_frame k buf s =
    (if k \<noteq> ex_session s then s else s\<lparr>ex_screen := ex_screen s @ frame_text buf\<rparr>)"

definition exec_fail :: "string \<Rightarrow> nat \<Rightarrow> exec_state \<Rightarrow> exec_state" where
  "exec_fail msg k s = (if k \<noteq> ex_session s then s else s\<lparr>ex_error := Some msg\<rparr>)"

definition exec_closed :: "(nat \<Rightarrow> string \<Rightarrow> string) \<Rightarrow> nat \<Rightarrow> bool \<Rightarrow> nat \<Rightarrow> string \<Rightarrow> exec_state \<Rightarrow> exec_state" where
  "exec_closed closedMsg k wasClean code reason s =
    (if k \<noteq> ex_session s then s
     else if \<not> wasClean \<and> code \<noteq> 1000 \<and> code \<noteq> 1005
     then s\<lparr>ex_error := Some (closedMsg code (if reason = [] then [CHR 0xE2, CHR 0x80, CHR 0x94] else reason))\<rparr>
     else s)"

text \<open>ws.send, and the frames of stdin and of a resize.\<close>

definition stdin_frame :: "string \<Rightarrow> string" where
  "stdin_frame d = CHR 0x00 # d"

definition resize_frame :: "nat \<Rightarrow> nat \<Rightarrow> string" where
  "resize_frame cols rows = CHR 0x01 #
     json_stringify (JObj [(''cols'', JNum (of_nat cols)), (''rows'', JNum (of_nat rows))])"

definition exec_send :: "nat \<Rightarrow> string \<Rightarrow> exec_state \<Rightarrow> exec_state" where
  "exec_send k f s = (if ex_live s = Some (k, Ready) then s\<lparr>ex_sent := ex_sent s @ [(k, f)]\<rparr> else s)"

definition send_live :: "string \<Rightarrow> exec_state \<Rightarrow> exec_state" where
  "send_live f s = (case ex_live s of Some (k, Ready) \<Rightarrow> exec_send k f s | _ \<Rightarrow> s)"

definition paste_click :: "exec_state \<Rightarrow> exec_state" where
  "paste_click s =
    (case ex_live s of Some (_, Ready) \<Rightarrow> s | _ \<Rightarrow> s\<lparr>ex_toasts := ex_toasts s @ [PasteNotReady]\<rparr>)"

text \<open>The clipboard answers for the socket k that was open at the click.\<close>

definition paste_text :: "nat \<Rightarrow> string option \<Rightarrow> exec_state \<Rightarrow> exec_state" where
  "paste_text k clip s =
    (case clip of
       None \<Rightarrow> s\<lparr>ex_toasts := ex_toasts s @ [PasteFailed]\<rparr>
     | Some t \<Rightarrow> if t = [] then s\<lparr>ex_toasts := ex_toasts s @ [PasteEmpty]\<rparr> else exec_send k (stdin_frame t) s)"

datatype exec_act =
    PickContainer string
  | ReloadExec
  | Reconnect
  | SocketOpened nat
  | ExecFrame nat string
  | ExecError nat
  | ExecClosed nat bool nat string
  | Typed string
  | Resized nat nat
  | PasteClick
  | PasteText nat "string option"

fun exec_step :: "string \<Rightarrow> (nat \<Rightarrow> string \<Rightarrow> string) \<Rightarrow> exec_act \<Rightarrow> exec_state \<Rightarrow> exec_state" where
  "exec_step errMsg closedMsg (PickContainer c) s =
    (if c = ex_container s then s else exec_connect (exec_cleanup (s\<lparr>ex_container := c\<rparr>)))"
| "exec_step errMsg closedMsg ReloadExec s = exec_connect (exec_cleanup (s\<lparr>ex_reload := Suc (ex_reload s)\<rparr>))"
| "exec_step errMsg closedMsg Reconnect s =
    exec_connect (exec_cleanup (s\<lparr>ex_error := None, ex_reload := Suc (ex_reload s)\<rparr>))"
| "exec_step errMsg closedMsg (SocketOpened k) s =
    (if ex_live s = Some (k, Connecting) then s\<lparr>ex_live := Some (k, Ready)\<rparr> else s)"
| "exec_step errMsg closedMsg (ExecFrame k buf) s =
    (if ex_live s = Some (k, Ready) then exec_frame k buf s else s)"
| "exec_step errMsg closedMsg (ExecError k) s = exec_fail errMsg k s"
| "exec_step errMsg closedMsg (ExecClosed k c code reason) s =
    (let s1 = exec_closed closedMsg k c code reason s
     in case ex_live s1 of Some (k', _) \<Rightarrow> if k' = k then s1\<lparr>ex_live := Some (k, Ended)\<rparr> else s1 | None \<Rightarrow> s1)"
| "exec_step errMsg closedMsg (Typed d) s = send_live (stdin_frame d) s"
| "exec_step errMsg closedMsg (Resized cols rows) s = send_live (resize_frame cols rows) s"
| "exec_step errMsg closedMsg PasteClick s = paste_click s"
| "exec_step errMsg closedMsg (PasteText k clip) s = paste_text k clip s"

subsection \<open>A terminal belongs to one session\<close>

definition exec_passive :: "nat \<Rightarrow> exec_act \<Rightarrow> bool" where
  "exec_passive k e = (case e of PickContainer _ \<Rightarrow> False | ReloadExec \<Rightarrow> False | Reconnect \<Rightarrow> False
     | ExecClosed k' _ _ _ \<Rightarrow> k' \<noteq> k | _ \<Rightarrow> True)"

definition screen_text :: "nat \<Rightarrow> exec_act \<Rightarrow> string" where
  "screen_text k e = (case e of ExecFrame k' buf \<Rightarrow> if k' = k then frame_text buf else [] | _ \<Rightarrow> [])"

definition stdin_text :: "nat \<Rightarrow> exec_act \<Rightarrow> string" where
  "stdin_text k e = (case e of Typed d \<Rightarrow> d | PasteText k' (Some t) \<Rightarrow> if k' = k then t else [] | _ \<Rightarrow> [])"

text \<open>The server's side: the bytes of the stdin frames it receives on a socket.\<close>

definition stdin_received :: "nat \<Rightarrow> (nat \<times> string) list \<Rightarrow> string" where
  "stdin_received k fs = concat (map (\<lambda>(k', f). case f of [] \<Rightarrow> []
     | t # body \<Rightarrow> if k' = k \<and> t = CHR 0x00 then body else []) fs)"

definition terminal_at :: "nat \<Rightarrow> string \<Rightarrow> string \<Rightarrow> exec_state \<Rightarrow> bool" where
  "terminal_at k out inp s \<longleftrightarrow> ex_session s = k \<and> ex_live s = Some (k, Ready) \<and> ex_screen s = out \<and>
     stdin_received k (ex_sent s) = inp"

lemma stdin_received_snoc:
  "stdin_received k (fs @ [(k', f)]) = stdin_received k fs @
    (case f of [] \<Rightarrow> [] | t # body \<Rightarrow> if k' = k \<and> t = CHR 0x00 then body else [])"
  by (simp add: stdin_received_def)

lemma terminal_step:
  assumes "terminal_at k out inp s" "exec_passive k e"
  shows "terminal_at k (out @ screen_text k e) (inp @ stdin_text k e) (exec_step errMsg closedMsg e s)"
proof (cases e)
  case (PasteText k' clip)
  then show ?thesis using assms
    by (cases clip) (auto simp: terminal_at_def screen_text_def stdin_text_def paste_text_def exec_send_def
        stdin_received_snoc stdin_frame_def)
next
  case (ExecClosed k' c code reason)
  then show ?thesis using assms
    by (auto simp: terminal_at_def exec_passive_def screen_text_def stdin_text_def exec_closed_def Let_def)
qed (use assms in \<open>auto simp: terminal_at_def exec_passive_def screen_text_def stdin_text_def exec_frame_def
    exec_fail_def send_live_def exec_send_def stdin_received_snoc stdin_frame_def resize_frame_def paste_click_def\<close>)

lemma terminal_run:
  assumes "terminal_at k out inp s" "list_all (exec_passive k) es"
  shows "terminal_at k (out @ concat (map (screen_text k) es)) (inp @ concat (map (stdin_text k) es))
    (fold (exec_step errMsg closedMsg) es s)"
  using assms
proof (induction es arbitrary: out inp s)
  case (Cons e es)
  from terminal_step[OF Cons.prems(1), of e] Cons.prems(2)
  have "terminal_at k (out @ screen_text k e) (inp @ stdin_text k e) (exec_step errMsg closedMsg e s)" by simp
  from Cons.IH[OF this] Cons.prems(2) show ?case by simp
qed simp

text \<open>Only the sockets of past and present sessions have been sent anything.\<close>

definition exec_ok :: "exec_state \<Rightarrow> bool" where
  "exec_ok s \<longleftrightarrow> (\<forall>(k, f) \<in> set (ex_sent s). k \<le> ex_session s) \<and>
     (case ex_live s of None \<Rightarrow> True | Some (k, _) \<Rightarrow> k = ex_session s)"

lemma exec_ok_step:
  assumes "exec_ok s" shows "exec_ok (exec_step errMsg closedMsg e s)"
proof (cases e)
  case (PasteText k clip)
  then show ?thesis using assms
    by (auto simp: exec_ok_def paste_text_def exec_send_def split: option.splits)
qed (use assms in \<open>fastforce simp: exec_ok_def exec_connect_def exec_cleanup_def exec_frame_def exec_fail_def
    exec_closed_def send_live_def exec_send_def paste_click_def Let_def split: option.splits prod.splits ready_state.splits\<close>)+

lemma exec_ok_run: "exec_ok (fold (exec_step errMsg closedMsg) es exec_init)"
proof -
  have "exec_ok s \<Longrightarrow> exec_ok (fold (exec_step errMsg closedMsg) es s)" for s
    by (induction es arbitrary: s) (simp_all add: exec_ok_step)
  moreover have "exec_ok exec_init" by (simp add: exec_ok_def exec_init_def)
  ultimately show ?thesis by blast
qed

text \<open>C19. A terminal belongs to one session.  After a reload of a reachable terminal
  with a container, once its socket opens and until that closes, the screen holds
  exactly what the new session's frames write, and the server receives on its
  socket exactly what is typed and pasted, in order; frames, errors and ends of
  earlier sessions, and a paste whose clipboard answers for an earlier socket,
  change neither.\<close>

theorem terminal_belongs_to_session:
  assumes s: "s = exec_step errMsg closedMsg ReloadExec (fold (exec_step errMsg closedMsg) es0 exec_init)"
      "ex_container s \<noteq> []"
    and es: "list_all (exec_passive (ex_session s)) es"
    and t: "t = fold (exec_step errMsg closedMsg) (SocketOpened (ex_session s) # es) s"
  shows "ex_screen t = concat (map (screen_text (ex_session s)) es) \<and>
    stdin_received (ex_session s) (ex_sent t) = concat (map (stdin_text (ex_session s)) es) \<and>
    ex_session t = ex_session s"
proof -
  let ?r = "fold (exec_step errMsg closedMsg) es0 exec_init"
  have c: "ex_container ?r \<noteq> []"
    using s by (auto simp: exec_connect_def exec_cleanup_def split: if_splits)
  then have k: "ex_session s = Suc (ex_session ?r)" "ex_live s = Some (ex_session s, Connecting)"
    "ex_screen s = []" "ex_sent s = ex_sent ?r"
    unfolding s(1) by (simp_all add: exec_connect_def exec_cleanup_def)
  have "k' \<noteq> ex_session s" if "(k', f) \<in> set (ex_sent s)" for k' f
    using exec_ok_run[of errMsg closedMsg es0] that k by (fastforce simp: exec_ok_def)
  then have "stdin_received (ex_session s) (ex_sent s) = []"
    by (fastforce simp: stdin_received_def split: list.splits)
  then have "terminal_at (ex_session s) [] [] (exec_step errMsg closedMsg (SocketOpened (ex_session s)) s)"
    using k by (simp add: terminal_at_def)
  from terminal_run[OF this es, of errMsg closedMsg] show ?thesis
    unfolding t by (simp add: terminal_at_def)
qed

text \<open>A second session that prints, is typed and pasted into while the first is still dying.\<close>

definition demo_term :: "exec_act list" where
  "demo_term = [PickContainer ''app'', SocketOpened 1, Typed ''ls'', ExecFrame 1 [CHR 0x01, CHR ''a'']]"

lemma terminal_belongs_to_session_witness:
  "let s = exec_step ''err'' demo_closed ReloadExec (fold (exec_step ''err'' demo_closed) demo_term exec_init);
       es = [ExecFrame 1 [CHR 0x01, CHR ''x''], ExecFrame 2 [CHR 0x02, CHR ''y''], Typed ''pwd'',
         ExecClosed 1 False 1006 [], PasteText 1 (Some ''rm''), PasteText 2 (Some ''id'')];
       t = fold (exec_step ''err'' demo_closed) (SocketOpened (ex_session s) # es) s
   in ex_screen t = concat (map (screen_text (ex_session s)) es) \<and>
    stdin_received (ex_session s) (ex_sent t) = concat (map (stdin_text (ex_session s)) es) \<and>
    ex_session t = ex_session s"
  unfolding Let_def
proof (rule terminal_belongs_to_session[of _ "''err''" demo_closed demo_term])
  have k: "ex_session (exec_step ''err'' demo_closed ReloadExec (fold (exec_step ''err'' demo_closed) demo_term exec_init)) = 2"
    by code_simp
  show "ex_container (exec_step ''err'' demo_closed ReloadExec (fold (exec_step ''err'' demo_closed) demo_term exec_init)) \<noteq> []"
    by code_simp
  show "list_all (exec_passive (ex_session (exec_step ''err'' demo_closed ReloadExec
      (fold (exec_step ''err'' demo_closed) demo_term exec_init))))
    [ExecFrame 1 [CHR 0x01, CHR ''x''], ExecFrame 2 [CHR 0x02, CHR ''y''], Typed ''pwd'',
     ExecClosed 1 False 1006 [], PasteText 1 (Some ''rm''), PasteText 2 (Some ''id'')]"
    unfolding k by (simp add: exec_passive_def)
qed (rule refl)+

end
