(* ===== verification/SystemMonitor.thy ===== *)
theory SystemMonitor
  imports PodLogs GpuMonitor
begin

text \<open>
  pages/System: the formatters of format.ts, the requests of services/kpilot/system.ts,
  the ring of samples with its polls (Detail/index.tsx) and the derivation of the
  chart series (mapSeries).

  A number of a snapshot is an exact rational and never NaN, so the finiteness
  tests of the formatters only see None for a value that is not finite.  Date
  parsing is the parameter time_of, in milliseconds.
\<close>

section \<open>Formatters\<close>

text \<open>toFixed: the nearest multiple of 10 to the minus d, the larger of two.\<close>

fun pad_zeros :: "nat \<Rightarrow> string \<Rightarrow> string" where
  "pad_zeros n s = replicate (n - length s) (CHR ''0'') @ s"

definition to_fixed :: "nat \<Rightarrow> rat \<Rightarrow> string" where
  "to_fixed d x =
    (let n = nat \<lfloor>\<bar>x\<bar> * 10 ^ d + 1 / 2\<rfloor>;
         whole = show_nat (n div 10 ^ d)
     in (if x < 0 then ''-'' else []) @ whole @
        (if d = 0 then [] else ''.'' @ pad_zeros d (show_nat (n mod 10 ^ d))))"

definition byte_units :: "string list" where
  "byte_units = [''B'', ''KiB'', ''MiB'', ''GiB'', ''TiB'', ''PiB'']"

function byte_scale :: "nat \<Rightarrow> rat \<Rightarrow> nat \<times> rat" where
  "byte_scale i v = (if v \<ge> 1024 \<and> i < length byte_units - 1 then byte_scale (Suc i) (v / 1024) else (i, v))"
  by pat_completeness auto
termination by (relation "measure (\<lambda>(i, _). length byte_units - i)") (auto simp: byte_units_def)

declare byte_scale.simps [simp del]

definition formatBytes :: "bool \<Rightarrow> rat option \<Rightarrow> string" where
  "formatBytes brief n =
    (case n of
       None \<Rightarrow> ''0 B''
     | Some x \<Rightarrow> if x \<le> 0 then ''0 B''
         else (case byte_scale 0 x of (i, v) \<Rightarrow>
           to_fixed (if brief then (if v \<ge> 100 then 0 else if v \<ge> 10 then 1 else 2) else 2) v
           @ '' '' @ byte_units ! i))"

definition dash :: string where
  "dash = [CHR 0xE2, CHR 0x80, CHR 0x94]"

definition formatDurationSeconds :: "rat option \<Rightarrow> string" where
  "formatDurationSeconds seconds =
    (case seconds of
       None \<Rightarrow> dash
     | Some x \<Rightarrow> if x < 0 then dash
         else let s = nat \<lfloor>x\<rfloor> in
           if s < 60 then show_nat s @ ''s''
           else if s < 3600 then show_nat (s div 60) @ ''m '' @ show_nat (s mod 60) @ ''s''
           else if s < 86400 then show_nat (s div 3600) @ ''h '' @ show_nat (s mod 3600 div 60) @ ''m''
           else show_nat (s div 86400) @ ''d '' @ show_nat (s mod 86400 div 3600) @ ''h'')"

definition formatPercent :: "nat \<Rightarrow> rat option \<Rightarrow> string" where
  "formatPercent digits v = (case v of None \<Rightarrow> dash | Some x \<Rightarrow> to_fixed digits (x * 100) @ ''%'')"

definition formatMillis :: "rat option \<Rightarrow> string" where
  "formatMillis seconds =
    (case seconds of None \<Rightarrow> dash | Some x \<Rightarrow> if x < 0 then dash else to_fixed 2 (x * 1000) @ '' ms'')"

definition formatBigNumber :: "rat option \<Rightarrow> string" where
  "formatBigNumber n =
    (case n of
       None \<Rightarrow> dash
     | Some x \<Rightarrow> if x < 0 then dash
         else if x < 1000 then show_nat (nat \<lfloor>x + 1 / 2\<rfloor>)
         else if x < 1000000 then to_fixed 1 (x / 1000) @ ''k''
         else if x < 1000000000 then to_fixed 1 (x / 1000000) @ ''M''
         else to_fixed 1 (x / 1000000000) @ ''B'')"

section \<open>Requests\<close>

definition getVersion :: request where
  "getVersion = GET (path [''api'', ''v1'', ''version'']) []"

definition listSystemNodes :: request where
  "listSystemNodes = GET (path [''api'', ''v1'', ''system'', ''nodes'']) []"

definition batchSystemSnapshots :: request where
  "batchSystemSnapshots = GET (path [''api'', ''v1'', ''system'', ''snapshots'']) []"

definition pprofURL :: "string \<Rightarrow> string \<Rightarrow> nat option \<Rightarrow> nat option \<Rightarrow> bool \<Rightarrow> string" where
  "pprofURL nodeID kind seconds debug confirm =
    (let q = search_params
           ((case seconds of None \<Rightarrow> [] | Some n \<Rightarrow> if n = 0 then [] else [(''seconds'', show_nat n)]) @
            (case debug of None \<Rightarrow> [] | Some n \<Rightarrow> [(''debug'', show_nat n)]) @
            (if confirm then [(''confirm'', ''true'')] else []));
         base = path [''api'', ''v1'', ''system'', encodeURIComponent nodeID, ''pprof'', kind]
     in if q \<noteq> [] then base @ ''?'' @ q else base)"

record SystemLogsOpts =
  sl_afterSeq :: "string option"
  sl_rangeQuery :: string
  sl_level :: string
  sl_module :: string
  sl_q :: string
  sl_limit :: nat

definition log_filters :: "SystemLogsOpts \<Rightarrow> (string \<times> string) list" where
  "log_filters opts =
    (case sl_afterSeq opts of None \<Rightarrow> [] | Some s \<Rightarrow> [(''after_seq'', s)]) @
    (if sl_level opts \<noteq> [] then [(''level'', sl_level opts)] else []) @
    (if sl_module opts \<noteq> [] then [(''module'', sl_module opts)] else []) @
    (if sl_q opts \<noteq> [] then [(''q'', sl_q opts)] else []) @
    (if sl_limit opts \<noteq> 0 then [(''limit'', show_nat (sl_limit opts))] else [])"

definition listSystemLogs :: "string \<Rightarrow> SystemLogsOpts \<Rightarrow> request" where
  "listSystemLogs nodeID opts =
    (let fs = search_params (log_filters opts);
         parts = (if sl_afterSeq opts = None \<and> sl_rangeQuery opts \<noteq> [] then [sl_rangeQuery opts] else []) @
           (if fs \<noteq> [] then [fs] else []);
         qs = join ''&'' parts
     in GET (path [''api'', ''v1'', ''system'', encodeURIComponent nodeID, ''logs''] @
          (if qs \<noteq> [] then ''?'' @ qs else [])) [])"

definition listSystemLogModules :: "string \<Rightarrow> request" where
  "listSystemLogModules nodeID = GET (path [''api'', ''v1'', ''system'', ''logs'', ''modules''] @
     (if nodeID \<noteq> [] then ''?node_id='' @ encodeURIComponent nodeID else [])) []"

definition listSystemHistory :: "string \<Rightarrow> string \<Rightarrow> string \<Rightarrow> request" where
  "listSystemHistory nodeID since rangeQuery =
    GET (path [''api'', ''v1'', ''system'', encodeURIComponent nodeID, ''history''] @
      (if since \<noteq> [] then ''?since='' @ encodeURIComponent since
       else if rangeQuery \<noteq> [] then ''?'' @ rangeQuery else [])) []"

section \<open>The ring of samples\<close>

definition RING_CAPACITY :: nat where "RING_CAPACITY = 300"

definition POLL_INTERVAL_MS :: int where "POLL_INTERVAL_MS = 15000"

text \<open>A history item is its time stamp and its snapshot; a request under way carries the
  range it was made for and, for a poll, whether it appends.\<close>

datatype history_request = Initial TimeRangeValue | Poll TimeRangeValue bool

record 's detail =
  sd_range :: TimeRangeValue
  sd_paused :: bool
  sd_loading :: bool
  sd_ring :: "'s list"
  sd_lastAt :: string
  sd_latest :: "'s option"
  sd_initial :: nat
  sd_next :: nat
  sd_flights :: "(nat \<times> history_request) list"

definition is_live :: "TimeRangeValue \<Rightarrow> bool" where
  "is_live r \<longleftrightarrow> r = Preset R1h"

definition str_le :: "string \<Rightarrow> string \<Rightarrow> bool" where
  "str_le a b = units_le (code_units a) (code_units b)"

text \<open>The loop of pushHistory, with lastAt, the ring and anyNew.\<close>

fun push_items :: "(string \<times> 's) list \<Rightarrow> string \<times> 's list \<times> bool \<Rightarrow> string \<times> 's list \<times> bool" where
  "push_items [] acc = acc"
| "push_items ((t, x) # its) (lastAt, ring, anyNew) =
    (if str_le t lastAt then push_items its (lastAt, ring, anyNew) else push_items its (t, ring @ [x], True))"

definition pushHistory :: "(string \<times> 's) list \<Rightarrow> 's detail \<Rightarrow> 's detail" where
  "pushHistory its s =
    (case push_items its (sd_lastAt s, sd_ring s, False) of (lastAt, ring, anyNew) \<Rightarrow>
       if \<not> anyNew then s
       else let ring' = keep_last RING_CAPACITY ring
         in s\<lparr>sd_lastAt := lastAt, sd_ring := ring', sd_latest := Some (last ring')\<rparr>)"

definition replaceHistory :: "(string \<times> 's) list \<Rightarrow> 's detail \<Rightarrow> 's detail" where
  "replaceHistory its s =
    (if its = [] then s\<lparr>sd_ring := [], sd_lastAt := [], sd_latest := None\<rparr>
     else let ring = keep_last RING_CAPACITY (map snd its)
       in s\<lparr>sd_ring := ring, sd_lastAt := fst (last its), sd_latest := Some (last ring)\<rparr>)"

definition start_fetch :: "history_request \<Rightarrow> 's detail \<Rightarrow> 's detail" where
  "start_fetch q s = s\<lparr>sd_next := Suc (sd_next s), sd_flights := (sd_next s, q) # sd_flights s\<rparr>"

definition load_range :: "'s detail \<Rightarrow> 's detail" where
  "load_range s = start_fetch (Initial (sd_range s)) (s\<lparr>sd_loading := True, sd_initial := sd_next s\<rparr>)"

definition detail_init :: "TimeRangeValue \<Rightarrow> 's detail" where
  "detail_init r = load_range \<lparr>sd_range = r, sd_paused = False, sd_loading = True, sd_ring = [], sd_lastAt = [],
     sd_latest = None, sd_initial = 0, sd_next = 0, sd_flights = []\<rparr>"

definition poll :: "'s detail \<Rightarrow> 's detail" where
  "poll s = (if sd_paused s then s else start_fetch (Poll (sd_range s) (is_live (sd_range s))) s)"

text \<open>An answer: Some items, or None for a failed request.  Only the initial fetch
  of an earlier range is cancelled; a poll always lands.\<close>

definition land_initial :: "nat \<Rightarrow> (string \<times> 's) list option \<Rightarrow> 's detail \<Rightarrow> 's detail" where
  "land_initial n its s =
    (if n \<noteq> sd_initial s then s
     else (case its of None \<Rightarrow> s | Some xs \<Rightarrow> replaceHistory xs s)\<lparr>sd_loading := False\<rparr>)"

definition land_poll :: "bool \<Rightarrow> (string \<times> 's) list option \<Rightarrow> 's detail \<Rightarrow> 's detail" where
  "land_poll live its s =
    (case its of None \<Rightarrow> s | Some xs \<Rightarrow> if live then pushHistory xs s else replaceHistory xs s)"

definition land_history :: "nat \<Rightarrow> (string \<times> 's) list option \<Rightarrow> 's detail \<Rightarrow> 's detail" where
  "land_history n its s =
    (let s1 = s\<lparr>sd_flights := AList.delete n (sd_flights s)\<rparr>
     in case map_of (sd_flights s) n of
       None \<Rightarrow> s
     | Some (Initial r) \<Rightarrow> land_initial n its s1
     | Some (Poll r live) \<Rightarrow> land_poll live its s1)"

datatype 's detail_act = SetRange TimeRangeValue | TogglePause | PollTick | HistoryAnswer nat "(string \<times> 's) list option"

fun detail_step :: "'s detail_act \<Rightarrow> 's detail \<Rightarrow> 's detail" where
  "detail_step (SetRange r) s = load_range (s\<lparr>sd_range := r\<rparr>)"
| "detail_step TogglePause s = s\<lparr>sd_paused := \<not> sd_paused s\<rparr>"
| "detail_step PollTick s = poll s"
| "detail_step (HistoryAnswer n its) s = land_history n its s"

definition detail_run :: "'s detail_act list \<Rightarrow> 's detail \<Rightarrow> 's detail" where
  "detail_run es s = fold detail_step es s"

definition stale_banner :: "(string \<Rightarrow> int) \<Rightarrow> int \<Rightarrow> 's detail \<Rightarrow> bool" where
  "stale_banner time_of now s =
    (if \<not> is_live (sd_range s) then False
     else if sd_lastAt s = [] then False
     else now - time_of (sd_lastAt s) > POLL_INTERVAL_MS * 2)"

subsection \<open>What the ring holds\<close>

definition ring_ok :: "'s detail \<Rightarrow> bool" where
  "ring_ok s \<longleftrightarrow> length (sd_ring s) \<le> RING_CAPACITY \<and>
     sd_latest s = (if sd_ring s = [] then None else Some (last (sd_ring s)))"

lemma last_keep_last: "0 < n \<Longrightarrow> last (keep_last n xs) = last xs"
  by (cases "xs = []") (simp_all add: keep_last_def)

lemma push_items_new:
  "push_items its (l, r, b) = (l', r', b') \<Longrightarrow> (b \<longrightarrow> b' \<and> r \<noteq> [] \<longrightarrow> r' \<noteq> []) \<and> (\<not> b \<and> b' \<longrightarrow> r' \<noteq> [])"
proof (induction its arbitrary: l r b)
  case (Cons it its)
  have grow: "push_items its (l, r, b) = (l', r', b') \<Longrightarrow> r \<noteq> [] \<Longrightarrow> r' \<noteq> []" for its :: "(string \<times> 'a) list" and l r b
  proof (induction its arbitrary: l r b)
    case (Cons it its)
    obtain t x where "it = (t, x)" by force
    with Cons.prems Cons.IH[of l r b] Cons.IH[of t "r @ [x]" True] show ?case by (auto split: if_splits)
  qed simp
  obtain t x where it: "it = (t, x)" by force
  show ?case
  proof (cases "str_le t l")
    case True
    then show ?thesis using Cons it by simp
  next
    case False
    then show ?thesis using Cons.prems it grow[of its t "r @ [x]" True] by simp
  qed
qed simp

lemma ring_ok_replace: "ring_ok (replaceHistory its s)"
  using keep_last_length[of RING_CAPACITY]
  by (auto simp: ring_ok_def replaceHistory_def Let_def keep_last_Nil RING_CAPACITY_def)

lemma ring_ok_push: "ring_ok s \<Longrightarrow> ring_ok (pushHistory its s)"
proof -
  assume ok: "ring_ok s"
  obtain l r b where p: "push_items its (sd_lastAt s, sd_ring s, False) = (l, r, b)" by (metis prod_cases3)
  then have "b \<Longrightarrow> r \<noteq> []" using push_items_new by blast
  then show ?thesis using ok p keep_last_length[of RING_CAPACITY r]
    by (auto simp: ring_ok_def pushHistory_def Let_def keep_last_Nil RING_CAPACITY_def)
qed

lemma ring_ok_frame [simp]:
  "ring_ok (s\<lparr>sd_flights := f\<rparr>) = ring_ok s" "ring_ok (s\<lparr>sd_loading := l\<rparr>) = ring_ok s"
  "ring_ok (s\<lparr>sd_next := n\<rparr>) = ring_ok s" "ring_ok (s\<lparr>sd_range := r\<rparr>) = ring_ok s"
  "ring_ok (s\<lparr>sd_paused := p\<rparr>) = ring_ok s" "ring_ok (s\<lparr>sd_initial := i\<rparr>) = ring_ok s"
  by (simp_all add: ring_ok_def)

lemma ring_ok_step: "ring_ok s \<Longrightarrow> ring_ok (detail_step e s)"
proof (cases e)
  case (HistoryAnswer n its)
  then show "ring_ok s \<Longrightarrow> ?thesis"
    by (auto simp: land_history_def Let_def land_initial_def land_poll_def ring_ok_replace ring_ok_push
        split: option.splits history_request.splits)
qed (simp_all add: load_range_def start_fetch_def poll_def)

text \<open>The ring never holds more than 300 samples, and the cards always show its last one.\<close>

lemma detail_ring_ok: "ring_ok (detail_run es (detail_init r))"
proof -
  have "ring_ok s \<Longrightarrow> ring_ok (detail_run es s)" for s :: "'a detail"
    by (induction es arbitrary: s) (simp_all add: detail_run_def ring_ok_step)
  moreover have "ring_ok (detail_init r)"
    by (simp add: detail_init_def load_range_def start_fetch_def ring_ok_def)
  ultimately show ?thesis by blast
qed

text \<open>Time stamps are compared as strings.\<close>

lemma units_le_refl: "units_le a a"
  by (induction a) simp_all

lemma units_le_trans: "units_le a b \<Longrightarrow> units_le b c \<Longrightarrow> units_le a c"
proof (induction a c arbitrary: b rule: units_le.induct)
  case (3 x xs z zs)
  then show ?case by (cases b) auto
next
  case (2 x xs)
  then show ?case by (cases b) auto
qed simp

lemma str_le_refl: "str_le a a" by (simp add: str_le_def units_le_refl)

lemma str_le_trans: "str_le a b \<Longrightarrow> str_le b c \<Longrightarrow> str_le a c"
  unfolding str_le_def by (rule units_le_trans)

definition rising :: "(string \<times> 's) list \<Rightarrow> bool" where
  "rising H \<longleftrightarrow> (\<forall>j < length H. fst (H ! j) \<noteq> [] \<and> (\<forall>i < j. str_le (fst (H ! i)) (fst (H ! j)) \<and> \<not> str_le (fst (H ! j)) (fst (H ! i))))"

text \<open>The page shows the first n samples of the history H.\<close>

definition shows_history :: "(string \<times> 's) list \<Rightarrow> nat \<Rightarrow> 's detail \<Rightarrow> bool" where
  "shows_history H n s \<longleftrightarrow> n \<le> length H \<and> sd_ring s = keep_last RING_CAPACITY (map snd (take n H)) \<and>
     sd_lastAt s = (if n = 0 then [] else fst (H ! (n - 1)))"

lemma str_le_Nil: "str_le a [] \<longleftrightarrow> a = []"
  by (cases a) (simp_all add: str_le_def code_units_def)

lemma push_items_skip:
  "\<forall>it \<in> set its. str_le (fst it) l \<Longrightarrow> push_items its (l, r, b) = (l, r, b)"
  by (induction its) auto

lemma push_items_append: "push_items (xs @ ys) acc = push_items ys (push_items xs acc)"
proof (induction xs arbitrary: acc)
  case (Cons x xs)
  obtain t y where x: "x = (t, y)" by force
  obtain l r b where acc: "acc = (l, r, b)" by (metis prod_cases3)
  show ?case by (simp add: x acc Cons)
qed simp

lemma push_items_new_run:
  assumes "rising H" "n \<le> q" "q \<le> length H"
  shows "push_items (drop n (take q H)) ((if n = 0 then [] else fst (H ! (n - 1))), r, b) =
    ((if q = 0 then [] else fst (H ! (q - 1))), r @ map snd (drop n (take q H)), b \<or> n < q)"
  using assms(2,3)
proof (induction "q - n" arbitrary: n r b)
  case (Suc k)
  then have n: "n < q" by simp
  obtain t x where h: "H ! n = (t, x)" by force
  have d: "drop n (take q H) = (t, x) # drop (Suc n) (take q H)"
    using n Suc.prems h by (metis Cons_nth_drop_Suc length_take min.absorb2 nth_take)
  have "\<not> str_le t (if n = 0 then [] else fst (H ! (n - 1)))"
  proof (cases "n = 0")
    case True
    then show ?thesis using assms(1) n Suc.prems h by (fastforce simp: rising_def str_le_Nil)
  next
    case False
    then have "n - 1 < n" "n < length H" using n Suc.prems by auto
    with assms(1) h False show ?thesis by (fastforce simp: rising_def)
  qed
  then have "push_items (drop n (take q H)) ((if n = 0 then [] else fst (H ! (n - 1))), r, b) =
      push_items (drop (Suc n) (take q H)) (t, r @ [x], True)"
    unfolding d by simp
  also have "t = (if Suc n = 0 then [] else fst (H ! (Suc n - 1)))" using h by simp
  finally show ?case using Suc.hyps(1)[of "Suc n" "r @ [x]" True] Suc.hyps(2) Suc.prems n d by simp
qed simp

lemma window_split:
  assumes "p \<le> n" "n \<le> length H"
  shows "drop p (take q H) = drop p (take (min n q) H) @ drop n (take q H)"
proof (cases "n \<le> q")
  case True
  have "drop p (take q H) = drop p (take n (take q H) @ drop n (take q H))" by (simp only: append_take_drop_id)
  also have "\<dots> = drop p (take n (take q H)) @ drop (p - length (take n (take q H))) (drop n (take q H))"
    by (rule drop_append)
  also have "p - length (take n (take q H)) = 0" using True assms by simp
  also have "take n (take q H) = take (min n q) H" by simp
  finally show ?thesis by (simp only: drop_0)
qed (simp add: min_absorb2)

lemma shows_push:
  assumes H: "rising H" and s: "shows_history H n s" and b: "p \<le> n" "q \<le> length H"
  shows "shows_history H (max n q) (pushHistory (drop p (take q H)) s)"
proof -
  have n: "n \<le> length H" using s by (simp add: shows_history_def)
  let ?m = "min n q"
  note split = window_split[OF b(1) n, of q]
  have old: "\<forall>it \<in> set (drop p (take ?m H)). str_le (fst it) (sd_lastAt s)"
  proof
    fix it assume it: "it \<in> set (drop p (take ?m H))"
    obtain t x where tx: "it = (t, x)" by force
    obtain i where i: "i < n" "i < length H" "H ! i = (t, x)"
      using in_set_dropD[OF it] unfolding tx in_set_conv_nth by auto
    then have l: "sd_lastAt s = fst (H ! (n - 1))" using s by (simp add: shows_history_def)
    show "str_le (fst it) (sd_lastAt s)"
    proof (cases "i = n - 1")
      case False
      then have "i < n - 1" "n - 1 < length H" using i n by auto
      with H have "str_le (fst (H ! i)) (fst (H ! (n - 1)))" by (auto simp: rising_def)
      then show ?thesis using i(3) tx by (simp add: l)
    qed (use i l tx in \<open>simp add: str_le_refl\<close>)
  qed
  have last: "sd_lastAt s = (if n = 0 then [] else fst (H ! (n - 1)))" using s by (simp add: shows_history_def)
  have "push_items (drop p (take q H)) (sd_lastAt s, sd_ring s, False) =
      push_items (drop n (take q H)) (sd_lastAt s, sd_ring s, False)"
    unfolding split push_items_append using push_items_skip[OF old] by simp
  also have "\<dots> = (if n < q then (fst (H ! (q - 1)), sd_ring s @ map snd (drop n (take q H)), True)
      else (sd_lastAt s, sd_ring s, False))"
    using push_items_new_run[OF H, of n q "sd_ring s" False] b(2) unfolding last by (cases "n < q") auto
  finally have r: "push_items (drop p (take q H)) (sd_lastAt s, sd_ring s, False) = \<dots>" .
  show ?thesis
  proof (cases "n < q")
    case True
    have "take n H @ drop n (take q H) = take q H"
      using True by (metis append_take_drop_id min.absorb1 less_imp_le take_take)
    then have "map snd (take n H) @ map snd (drop n (take q H)) = map snd (take q H)" by (metis map_append)
    then show ?thesis using True s b(2) r
      by (simp add: shows_history_def pushHistory_def Let_def max_def)
  next
    case False
    then show ?thesis using s r by (simp add: pushHistory_def max_def)
  qed
qed

text \<open>C21. Samples arrive once and in order: the initial answer brings the first m samples of
  a history, later answers of live polls any windows of it that start no later than
  what is shown by then; whatever they overlap, the page shows the history up to the
  latest sample received, each sample once, and the last 300 of them.\<close>

theorem live_ring_follows_history:
  assumes "rising H" "m \<le> length H"
    and "\<And>i. i < length ws \<Longrightarrow> fst (ws ! i) \<le> foldl max m (map snd (take i ws)) \<and> snd (ws ! i) \<le> length H"
  shows "shows_history H (foldl max m (map snd ws))
    (fold (\<lambda>(p, q). land_poll True (Some (drop p (take q H)))) ws (replaceHistory (take m H) s))"
proof -
  have f: "(\<lambda>(p, q). land_poll True (Some (drop p (take q H)))) = (\<lambda>(p, q). pushHistory (drop p (take q H)))"
    by (auto simp: fun_eq_iff land_poll_def)
  show ?thesis
    unfolding f using assms(3)
  proof (induction ws rule: rev_induct)
    case Nil
    show ?case using assms(1,2) by (auto simp: shows_history_def replaceHistory_def Let_def last_conv_nth keep_last_def)
  next
    case (snoc w ws)
    obtain p q where w: "w = (p, q)" by force
    have "shows_history H (foldl max m (map snd ws))
        (fold (\<lambda>(p, q). pushHistory (drop p (take q H))) ws (replaceHistory (take m H) s))"
    proof (rule snoc.IH)
      fix i assume "i < length ws"
      then show "fst (ws ! i) \<le> foldl max m (map snd (take i ws)) \<and> snd (ws ! i) \<le> length H"
        using snoc.prems[of i] by (simp add: nth_append)
    qed
    moreover have "p \<le> foldl max m (map snd ws) \<and> q \<le> length H"
      using snoc.prems[of "length ws"] w by simp
    ultimately show ?case using shows_push[OF assms(1)] w by simp
  qed
qed

definition demo_history :: "(string \<times> nat) list" where
  "demo_history = [(''1'', 10), (''2'', 20), (''3'', 30)]"

lemma live_ring_follows_history_witness:
  "shows_history demo_history (foldl max 1 (map snd [(0 :: nat, 2), (1, 3)]))
    (fold (\<lambda>(p, q). land_poll True (Some (drop p (take q demo_history)))) [(0, 2), (1, 3)]
      (replaceHistory (take 1 demo_history) (detail_init (Preset R1h))))"
proof (rule live_ring_follows_history[of demo_history 1 "[(0, 2), (1, 3)]"])
  show "rising demo_history"
    by (simp add: demo_history_def rising_def All_less_Suc str_le_def numeral_3_eq_3 code_units_def)
qed (auto simp: demo_history_def less_Suc_eq)

text \<open>A poll is not cancelled when the range changes: its late answer replaces the samples
  of the range that is shown, until the next poll.\<close>

theorem old_poll_replaces_range:
  assumes "\<not> is_live r1" "\<not> sd_paused s" "sd_range s = r1" "sd_flights s = []" "xs \<noteq> []" "ys \<noteq> []"
  shows "let t = detail_run [PollTick, SetRange r2, HistoryAnswer (Suc (sd_next s)) (Some ys), HistoryAnswer (sd_next s) (Some xs)] s
    in sd_range t = r2 \<and> \<not> sd_loading t \<and> sd_flights t = [] \<and> sd_ring t = keep_last RING_CAPACITY (map snd xs)"
  using assms
  by (simp add: detail_run_def poll_def start_fetch_def load_range_def land_history_def land_initial_def land_poll_def
      replaceHistory_def Let_def)

lemma old_poll_replaces_range_witness:
  "let s = (detail_init (Preset R3h))\<lparr>sd_flights := []\<rparr> :: nat detail;
       t = detail_run [PollTick, SetRange (Preset R24h), HistoryAnswer (Suc (sd_next s)) (Some [(''b'', 2)]),
             HistoryAnswer (sd_next s) (Some [(''a'', 7)])] s
   in sd_range t = Preset R24h \<and> \<not> sd_loading t \<and> sd_flights t = [] \<and> sd_ring t = keep_last RING_CAPACITY (map snd [(''a'', 7)])"
  unfolding Let_def[of "(detail_init (Preset R3h))\<lparr>sd_flights := []\<rparr>"]
  by (rule old_poll_replaces_range) (simp_all add: is_live_def detail_init_def load_range_def start_fetch_def)

end
