(* ===== verification/SystemSeries.thy ===== *)
theory SystemSeries
  imports SystemMonitor
begin

text \<open>
  pages/System/Detail/index.tsx, the derived values: CPU and memory shares, the
  cards, and mapSeries, which turns the ring of samples into the series of every
  chart.  A time stamp is read by the parameter time_of, in milliseconds; the
  fields of the runtime keep their names with the prefix rt.
\<close>

section \<open>Samples\<close>

record SystemIdentity =
  si_kind :: string
  si_name :: string
  si_hostname :: string
  si_uptime_seconds :: rat
  si_num_cpu :: rat

record SystemRuntime =
  rt_goroutines :: rat
  rt_gomaxprocs :: rat
  rt_os_threads :: rat
  rt_heap_inuse_bytes :: rat
  rt_heap_idle_bytes :: rat
  rt_heap_released_bytes :: rat
  rt_heap_goal_bytes :: rat
  rt_stack_inuse_bytes :: rat
  rt_runtime_overhead_bytes :: rat
  rt_total_mapped_bytes :: rat
  rt_total_alloc_bytes :: rat
  rt_live_objects :: rat
  rt_rss_bytes :: rat
  rt_gc_cycles_total :: rat
  rt_gc_pause_p50_seconds :: rat
  rt_gc_pause_p90_seconds :: rat
  rt_gc_pause_p99_seconds :: rat
  rt_gc_pause_max_seconds :: rat
  rt_sched_latency_p50_seconds :: rat
  rt_sched_latency_p90_seconds :: rat
  rt_sched_latency_p99_seconds :: rat
  rt_cpu_user_seconds :: rat
  rt_cpu_scavenge_seconds :: rat
  rt_cpu_idle_seconds :: rat
  rt_cpu_gc_seconds :: rat
  rt_mutex_wait_total_seconds :: rat
  rt_open_fds :: rat
  rt_max_fds :: rat
  rt_mem_total_bytes :: rat
  rt_working_set_bytes :: rat
  rt_process_cpu_user_seconds :: rat
  rt_process_cpu_system_seconds :: rat
  rt_process_io_read_bytes :: rat
  rt_process_io_write_bytes :: rat
  rt_system_mem_used_bytes :: rat
  rt_system_mem_available_bytes :: rat

record SystemSnapshot =
  ss_identity :: SystemIdentity
  ss_runtime :: SystemRuntime
  ss_custom :: jval
  ss_at :: string

record sys_point =
  sp_t :: int
  sp_v :: rat

record SystemSeries =
  ser_name :: string
  ser_points :: "sys_point list"

section \<open>Cards\<close>

definition proc_cpu :: "SystemRuntime \<Rightarrow> rat" where
  "proc_cpu r = rt_process_cpu_user_seconds r + rt_process_cpu_system_seconds r"

definition num_cpu :: "SystemSnapshot \<Rightarrow> rat" where
  "num_cpu s = (if si_num_cpu (ss_identity s) = 0 then 1 else si_num_cpu (ss_identity s))"

definition wall_seconds :: "(string \<Rightarrow> int) \<Rightarrow> SystemSnapshot \<Rightarrow> SystemSnapshot \<Rightarrow> rat" where
  "wall_seconds time_of a b = of_int (time_of (ss_at b) - time_of (ss_at a)) / 1000"

definition clamp_share :: "rat \<Rightarrow> rat" where
  "clamp_share x = max 0 (min 1 x)"

text \<open>The share and the cores of the last two samples.\<close>

definition cpuStats :: "(string \<Rightarrow> int) \<Rightarrow> SystemSnapshot list \<Rightarrow> rat \<times> rat" where
  "cpuStats time_of ring =
    (if length ring < 2 then (0, 0)
     else let a = ring ! (length ring - 2); b = ring ! (length ring - 1);
              wallSec = wall_seconds time_of a b;
              procDelta = proc_cpu (ss_runtime b) - proc_cpu (ss_runtime a)
       in if wallSec \<le> 0 \<or> procDelta < 0 then (0, 0)
          else let cores = procDelta / wallSec in (clamp_share (cores / num_cpu b), cores))"

definition mem_used :: "SystemRuntime \<Rightarrow> rat" where
  "mem_used r = (if rt_working_set_bytes r \<noteq> 0 then rt_working_set_bytes r else rt_rss_bytes r)"

definition memPct :: "SystemSnapshot option \<Rightarrow> rat" where
  "memPct latest =
    (case latest of
       None \<Rightarrow> 0
     | Some s \<Rightarrow> let r = ss_runtime s; used = mem_used r
         in if used \<le> 0 \<or> rt_mem_total_bytes r \<le> 0 then 0 else clamp_share (used / rt_mem_total_bytes r))"

definition mem_text :: "bool \<Rightarrow> SystemSnapshot option \<Rightarrow> string option" where
  "mem_text brief latest =
    (let used = (case latest of None \<Rightarrow> 0 | Some s \<Rightarrow> mem_used (ss_runtime s));
         total = (case latest of None \<Rightarrow> 0 | Some s \<Rightarrow> rt_mem_total_bytes (ss_runtime s))
     in if used > 0
        then Some (if total > 0 then formatBytes brief (Some used) @ '' / '' @ formatBytes brief (Some total)
                   else formatBytes brief (Some used))
        else if brief then Some dash else None)"

text \<open>A card: its title, value, and the short and full line under it.\<close>

definition kpis :: "(string \<Rightarrow> int) \<Rightarrow> string \<Rightarrow> SystemSnapshot list \<Rightarrow> SystemSnapshot option \<Rightarrow>
    (string \<times> string \<times> string option \<times> string option) list" where
  "kpis time_of coresUnit ring latest =
    (case latest of
       None \<Rightarrow> []
     | Some s \<Rightarrow>
       let r = ss_runtime s; cpu = cpuStats time_of ring in
       [(''system.kpi.uptime'', formatDurationSeconds (Some (si_uptime_seconds (ss_identity s))), None, None),
        (''system.col.goroutines'', formatBigNumber (Some (rt_goroutines r)), None, None),
        (''system.kpi.cpu'', formatPercent 1 (Some (fst cpu)),
           Some (to_fixed 2 (snd cpu) @ '' / '' @ show_num (si_num_cpu (ss_identity s)) @ '' '' @ coresUnit), None),
        (''system.kpi.memory'',
           (if mem_used r > 0 \<and> rt_mem_total_bytes r > 0 then formatPercent 1 (Some (memPct latest)) else dash),
           mem_text True latest, mem_text False latest),
        (''system.col.heap'', formatBytes False (Some (rt_heap_inuse_bytes r)), None, None),
        (''system.kpi.gcPause'', formatMillis (Some (rt_gc_pause_p99_seconds r)), None, None),
        (''system.kpi.schedLat'', formatMillis (Some (rt_sched_latency_p99_seconds r)), None, None),
        (''system.kpi.fds'',
           (if rt_open_fds r > 0 then show_num (rt_open_fds r) @ '' / '' @ show_num (rt_max_fds r) else dash), None, None)])"

section \<open>Series\<close>

definition samples :: "(string \<Rightarrow> int) \<Rightarrow> SystemSnapshot list \<Rightarrow> (SystemSnapshot \<Rightarrow> rat) \<Rightarrow> sys_point list" where
  "samples time_of ring get = map (\<lambda>s. \<lparr>sp_t = time_of (ss_at s), sp_v = get s\<rparr>) ring"

definition multi :: "(string \<Rightarrow> int) \<Rightarrow> SystemSnapshot list \<Rightarrow> (string \<times> (SystemSnapshot \<Rightarrow> rat)) list \<Rightarrow> SystemSeries list" where
  "multi time_of ring names =
    map (\<lambda>(name, get). \<lparr>ser_name = name, ser_points = samples time_of ring get\<rparr>) names"

definition single :: "(string \<Rightarrow> int) \<Rightarrow> SystemSnapshot list \<Rightarrow> string \<Rightarrow> (SystemSnapshot \<Rightarrow> rat) \<Rightarrow> SystemSeries list" where
  "single time_of ring name get = [\<lparr>ser_name = name, ser_points = samples time_of ring get\<rparr>]"

text \<open>The loops over neighbouring samples.\<close>

definition pair_points :: "(string \<Rightarrow> int) \<Rightarrow> SystemSnapshot list \<Rightarrow>
    (SystemSnapshot \<Rightarrow> SystemSnapshot \<Rightarrow> rat) \<Rightarrow> sys_point list" where
  "pair_points time_of ring f =
    map (\<lambda>(a, b). \<lparr>sp_t = time_of (ss_at b), sp_v = f a b\<rparr>) (zip (butlast ring) (tl ring))"

definition rate :: "(string \<Rightarrow> int) \<Rightarrow> (SystemRuntime \<Rightarrow> rat) \<Rightarrow> SystemSnapshot \<Rightarrow> SystemSnapshot \<Rightarrow> rat" where
  "rate time_of get a b =
    (let wallSec = wall_seconds time_of a b
     in if wallSec > 0 then max 0 ((get (ss_runtime b) - get (ss_runtime a)) / wallSec) else 0)"

definition busy_share :: "(string \<Rightarrow> int) \<Rightarrow> SystemSnapshot \<Rightarrow> SystemSnapshot \<Rightarrow> rat" where
  "busy_share time_of a b = max 0 (min 100 (rate time_of proc_cpu a b / num_cpu b * 100))"

definition gc_rate :: "(string \<Rightarrow> int) \<Rightarrow> SystemSnapshot \<Rightarrow> SystemSnapshot \<Rightarrow> rat" where
  "gc_rate time_of a b =
    (let wallSec = wall_seconds time_of a b;
         delta = rt_gc_cycles_total (ss_runtime b) - rt_gc_cycles_total (ss_runtime a)
     in if wallSec > 0 \<and> delta \<ge> 0 then delta / wallSec else 0)"

definition mem_share :: "SystemSnapshot \<Rightarrow> rat" where
  "mem_share s = (let r = ss_runtime s; used = mem_used r
     in if rt_mem_total_bytes r > 0 \<and> used > 0 then used / rt_mem_total_bytes r * 100 else 0)"

text \<open>custom[group]?.key read with num, and with Number(x) || 0.\<close>

definition custom_group :: "string \<Rightarrow> SystemSnapshot \<Rightarrow> jval" where
  "custom_group g s = oget g (ss_custom s)"

definition num :: "jval \<Rightarrow> string \<Rightarrow> rat" where
  "num custom key = (if \<not> truthy custom then 0 else case oget key custom of Some (JNum x) \<Rightarrow> x | _ \<Rightarrow> 0)"

fun Number_or_0 :: "jval \<Rightarrow> rat" where
  "Number_or_0 None = 0"
| "Number_or_0 (Some JNull) = 0"
| "Number_or_0 (Some (JBool b)) = (if b then 1 else 0)"
| "Number_or_0 (Some (JNum x)) = x"
| "Number_or_0 (Some (JStr s)) = (case js_number s of None \<Rightarrow> 0 | Some x \<Rightarrow> x)"
| "Number_or_0 (Some (JArr xs)) = (case js_number (js_String (JArr xs)) of None \<Rightarrow> 0 | Some x \<Rightarrow> x)"
| "Number_or_0 (Some (JObj _)) = 0"

definition custom_num :: "string \<Rightarrow> string \<Rightarrow> SystemSnapshot \<Rightarrow> rat" where
  "custom_num g k s = Number_or_0 (oget k (custom_group g s))"

text \<open>Streams per cluster: one series for every cluster seen, under its latest name.\<close>

definition node_step :: "SystemSnapshot \<Rightarrow> (string \<times> json) list \<Rightarrow> (string \<times> json) list" where
  "node_step s names =
    (let yamux = custom_group ''yamux'' s
     in if truthy (oget ''streams_by_cluster'' yamux) \<and> truthy (oget ''cluster_names'' yamux)
        then fold (\<lambda>(cid, v) m. if truthy (Some v) then AList.update cid v m else m)
               (jentries (the (oget ''cluster_names'' yamux))) names
        else names)"

definition stream_step :: "(string \<Rightarrow> int) \<Rightarrow> SystemSnapshot \<Rightarrow> (string \<times> sys_point list) list \<Rightarrow>
    (string \<times> sys_point list) list" where
  "stream_step time_of s m =
    (let streams = oget ''streams_by_cluster'' (custom_group ''yamux'' s)
     in if truthy streams
        then fold (\<lambda>(cid, n) m. AList.update cid
               ((case map_of m cid of None \<Rightarrow> [] | Some ps \<Rightarrow> ps) @
                [\<lparr>sp_t = time_of (ss_at s), sp_v = Number_or_0 (Some n)\<rparr>]) m) (jentries (the streams)) m
        else m)"

definition streamsByCluster :: "(string \<Rightarrow> int) \<Rightarrow> SystemSnapshot list \<Rightarrow> SystemSeries list" where
  "streamsByCluster time_of ring =
    (let names = fold node_step ring [];
         m = fold (stream_step time_of) ring []
     in map (\<lambda>(cid, ps). \<lparr>ser_name = (case map_of names cid of Some v \<Rightarrow> js_String v | None \<Rightarrow> take 8 cid),
                            ser_points = ps\<rparr>) m)"

text \<open>The series of each chart, by the name of the chart.\<close>

definition runtime_series :: "(string \<Rightarrow> int) \<Rightarrow> SystemSnapshot list \<Rightarrow> (string \<times> SystemSeries list) list" where
  "runtime_series time_of ring =
    (let one = (\<lambda>name get. single time_of ring name (\<lambda>s. get (ss_runtime s)));
         many = (\<lambda>gs. multi time_of ring (map (\<lambda>(n, g). (n, \<lambda>s. g (ss_runtime s))) gs))
     in [(''goroutines'', one ''goroutines'' rt_goroutines),
         (''heap'', one ''heap_inuse'' rt_heap_inuse_bytes),
         (''gcPause'', many [(''p50'', rt_gc_pause_p50_seconds), (''p90'', rt_gc_pause_p90_seconds),
            (''p99'', rt_gc_pause_p99_seconds), (''max'', rt_gc_pause_max_seconds)]),
         (''osThreads'', one ''threads'' rt_os_threads),
         (''heapSegments'', many [(''inuse'', rt_heap_inuse_bytes), (''idle'', rt_heap_idle_bytes),
            (''released'', rt_heap_released_bytes), (''stacks'', rt_stack_inuse_bytes),
            (''runtime'', rt_runtime_overhead_bytes), (''mapped (total)'', rt_total_mapped_bytes)]),
         (''rss'', one ''working set'' mem_used),
         (''memPct'', single time_of ring ''working set / total'' mem_share),
         (''systemMem'', many [(''used'', rt_system_mem_used_bytes), (''available'', rt_system_mem_available_bytes)]),
         (''heapGoal'', many [(''inuse'', rt_heap_inuse_bytes), (''goal'', rt_heap_goal_bytes)]),
         (''liveObjects'', one ''objects'' rt_live_objects),
         (''schedLat'', many [(''p50'', rt_sched_latency_p50_seconds), (''p90'', rt_sched_latency_p90_seconds),
            (''p99'', rt_sched_latency_p99_seconds)]),
         (''mutexWait'', one ''wait'' rt_mutex_wait_total_seconds)])"

definition rate_series :: "(string \<Rightarrow> int) \<Rightarrow> SystemSnapshot list \<Rightarrow> (string \<times> SystemSeries list) list" where
  "rate_series time_of ring =
    (let line = (\<lambda>name f. \<lparr>ser_name = name, ser_points = pair_points time_of ring f\<rparr>);
         per = (\<lambda>name get. line name (rate time_of get))
     in [(''gcFreq'', [line ''cycles/s'' (gc_rate time_of)]),
         (''cpu'', [line ''busy %'' (busy_share time_of)]),
         (''cpuCores'', [per ''cores'' proc_cpu]),
         (''cpuBreakdown'', [per ''user'' rt_cpu_user_seconds, per ''gc'' rt_cpu_gc_seconds,
            per ''scavenge'' rt_cpu_scavenge_seconds, per ''idle (scheduler)'' rt_cpu_idle_seconds]),
         (''procVsGoCpu'', [per ''kernel (user+sys)'' proc_cpu, per ''go runtime (user)'' rt_cpu_user_seconds]),
         (''diskIO'', [per ''read/s'' rt_process_io_read_bytes, per ''write/s'' rt_process_io_write_bytes]),
         (''allocRate'', [per ''alloc/s'' rt_total_alloc_bytes])])"

definition custom_series :: "(string \<Rightarrow> int) \<Rightarrow> SystemSnapshot list \<Rightarrow> (string \<times> SystemSeries list) list" where
  "custom_series time_of ring =
    (let many = (\<lambda>gs. multi time_of ring gs);
         cast = (\<lambda>g k. custom_num g k);
         plain = (\<lambda>g k s. num (custom_group g s) k)
     in [(''yamuxTotals'', many [(''sessions'', plain ''yamux'' ''sessions''), (''streams_open'', plain ''yamux'' ''streams_open'')]),
         (''httpRPS'', many [(''RPS'', cast ''http'' ''requests_per_sec''), (''5xx'', cast ''http'' ''status_5xx_per_sec'')]),
         (''httpTotals'', many [(''requests_total'', cast ''http'' ''requests_total''),
            (''status_5xx_total'', cast ''http'' ''status_5xx_total'')]),
         (''httpLatency'', many [(''p50'', cast ''http'' ''latency_p50_ms''), (''p90'', cast ''http'' ''latency_p90_ms''),
            (''p99'', cast ''http'' ''latency_p99_ms'')]),
         (''httpInflight'', single time_of ring ''in-flight'' (cast ''http'' ''in_flight'')),
         (''sseInference'', many [(''sse_clients'', cast ''inference'' ''sse_clients''),
            (''inference_inflight'', cast ''inference'' ''inflight''), (''inference_total'', cast ''inference'' ''total'')]),
         (''dbPool'', many [(''max'', cast ''db'' ''max_open_connections''), (''open'', cast ''db'' ''open_connections''),
            (''in_use'', cast ''db'' ''in_use''), (''idle'', cast ''db'' ''idle'')]),
         (''dbWait'', many [(''wait_count'', cast ''db'' ''wait_count''), (''wait_seconds'', cast ''db'' ''wait_duration_seconds'')]),
         (''dbClosed'', many [(''max_idle_closed'', cast ''db'' ''max_idle_closed''),
            (''max_lifetime_closed'', cast ''db'' ''max_lifetime_closed'')]),
         (''proxyInflight'', many [(''resource'', plain ''proxy'' ''inflight_resource''), (''http'', plain ''proxy'' ''inflight_http_proxy''),
            (''logs'', plain ''proxy'' ''inflight_logs''), (''exec'', plain ''proxy'' ''inflight_exec''), (''ws'', plain ''proxy'' ''inflight_ws'')]),
         (''tunnelState'', many [(''streams_open'', plain ''tunnel'' ''streams_open''), (''reconnect_total'', plain ''tunnel'' ''reconnect_total''),
            (''session_uptime_min'', \<lambda>s. plain ''tunnel'' ''session_uptime_seconds'' s / 60)]),
         (''routerHit'', single time_of ring ''hit_rate'' (plain ''in_cluster_router'' ''hit_rate'')),
         (''routerHits'', many [(''hits'', plain ''in_cluster_router'' ''hits''), (''misses'', plain ''in_cluster_router'' ''misses'')]),
         (''caches'', many [(''plugin_resolve'', plain ''caches'' ''plugin_resolve''),
            (''proxy_semaphores'', plain ''caches'' ''proxy_semaphores''), (''vm_response'', plain ''caches'' ''vm_response'')])])"

definition all_series :: "string list" where
  "all_series = map fst (runtime_series (\<lambda>_. 0) []) @ map fst (rate_series (\<lambda>_. 0) []) @
     [''streamsByCluster''] @ map fst (custom_series (\<lambda>_. 0) [])"

definition mapSeries :: "(string \<Rightarrow> int) \<Rightarrow> SystemSnapshot list \<Rightarrow> (string \<times> SystemSeries list) list" where
  "mapSeries time_of ring =
    (if ring = [] then map (\<lambda>k. (k, [])) all_series
     else runtime_series time_of ring @ rate_series time_of ring @
       [(''streamsByCluster'', streamsByCluster time_of ring)] @ custom_series time_of ring)"

section \<open>What the charts show\<close>

lemma clamp_share_bounds: "0 \<le> clamp_share x \<and> clamp_share x \<le> 1"
  by (simp add: clamp_share_def)

lemma scale_clamp: "max 0 (min 100 (100 * x)) = 100 * max 0 (min 1 x)" for x :: rat
  by (auto simp: max_def min_def)

lemma rate_nonneg: "0 \<le> rate time_of get a b"
  by (simp add: rate_def Let_def)

lemma gc_rate_nonneg: "0 \<le> gc_rate time_of a b"
  by (simp add: gc_rate_def Let_def)

lemma busy_share_bounds: "0 \<le> busy_share time_of a b \<and> busy_share time_of a b \<le> 100"
  by (simp add: busy_share_def)

lemma pair_points_values: "x \<in> set (pair_points time_of ring f) \<Longrightarrow> \<exists>a b. sp_v x = f a b"
  unfolding pair_points_def by auto (rule exI, rule exI, rule refl)

lemma tl_times: "length (zip (butlast ring) (tl ring)) = length ring - 1"
  by simp

lemma map_snd_zip_butlast: "map snd (zip (butlast ring) (tl ring)) = tl ring"
  by (rule map_snd_zip) simp

lemma pair_points_times: "map sp_t (pair_points time_of ring f) = map (\<lambda>s. time_of (ss_at s)) (tl ring)"
proof -
  have "map sp_t (pair_points time_of ring f) =
      map (\<lambda>s. time_of (ss_at s)) (map snd (zip (butlast ring) (tl ring)))"
    unfolding pair_points_def by (simp del: map_snd_zip add: o_def case_prod_beta)
  then show ?thesis by (simp only: map_snd_zip_butlast)
qed

lemma samples_times: "map sp_t (samples time_of ring get) = map (\<lambda>s. time_of (ss_at s)) ring"
  by (simp add: samples_def o_def)

text \<open>The last point of a rate chart compares the last two samples.\<close>

lemma pair_points_last:
  assumes "2 \<le> length ring"
  shows "last (pair_points time_of ring f) =
    \<lparr>sp_t = time_of (ss_at (last ring)), sp_v = f (ring ! (length ring - 2)) (last ring)\<rparr>"
proof -
  let ?z = "zip (butlast ring) (tl ring)"
  have ne: "?z \<noteq> []" using assms by (cases ring) auto
  have i: "length ring - 2 < length (butlast ring)" "length ring - 2 < length (tl ring)" using assms by auto
  have "last ?z = ?z ! (length ?z - 1)" using ne by (rule last_conv_nth)
  also have "length ?z - 1 = length ring - 2" by simp
  also have "?z ! (length ring - 2) = (butlast ring ! (length ring - 2), tl ring ! (length ring - 2))"
    using i by simp
  also have "butlast ring ! (length ring - 2) = ring ! (length ring - 2)" using i(1) by (rule nth_butlast)
  also have "tl ring ! (length ring - 2) = ring ! (length ring - 1)"
  proof -
    have "Suc (length ring - 2) = length ring - 1" using assms by arith
    then show ?thesis using i(2) by (simp only: nth_tl)
  qed
  also have "ring ! (length ring - 1) = last ring" using assms by (subst last_conv_nth) auto
  finally show ?thesis using ne by (simp add: pair_points_def last_map)
qed

text \<open>The CPU card is the end of the CPU charts: whenever two samples are there, the
  share it shows is the last point of the busy chart and the cores are the last point
  of the core chart, also when a counter was reset or the clock stood still.\<close>

theorem cpu_card_agrees_with_chart:
  assumes "2 \<le> length ring"
  shows "sp_v (last (pair_points time_of ring (busy_share time_of))) = 100 * fst (cpuStats time_of ring) \<and>
    sp_v (last (pair_points time_of ring (rate time_of proc_cpu))) = snd (cpuStats time_of ring) \<and>
    fst (cpuStats time_of ring) \<in> {0..1}"
proof -
  let ?a = "ring ! (length ring - 2)" and ?b = "last ring"
  let ?d = "proc_cpu (ss_runtime ?b) - proc_cpu (ss_runtime ?a)" and ?w = "wall_seconds time_of ?a ?b"
  have b: "ring ! (length ring - 1) = ?b" using assms by (subst last_conv_nth) auto
  have st: "cpuStats time_of ring = (if ?w \<le> 0 \<or> ?d < 0 then (0, 0) else (clamp_share (?d / ?w / num_cpu ?b), ?d / ?w))"
    using assms unfolding cpuStats_def b by (simp add: Let_def)
  have r: "rate time_of proc_cpu ?a ?b = snd (cpuStats time_of ring)"
    unfolding st rate_def Let_def by (auto simp: divide_nonpos_pos max_def zero_le_divide_iff)
  have "busy_share time_of ?a ?b = 100 * clamp_share (snd (cpuStats time_of ring) / num_cpu ?b)"
    unfolding busy_share_def r clamp_share_def scale_clamp[symmetric] by (simp add: mult.commute)
  also have "clamp_share (snd (cpuStats time_of ring) / num_cpu ?b) = fst (cpuStats time_of ring)"
    unfolding st by (simp add: clamp_share_def)
  finally have "busy_share time_of ?a ?b = 100 * fst (cpuStats time_of ring)" .
  moreover have "fst (cpuStats time_of ring) \<in> {0..1}"
    unfolding st using clamp_share_bounds by (simp add: if_splits)
  ultimately show ?thesis using r pair_points_last[OF assms] by simp
qed

text \<open>Every chart has its place, with or without samples, and its points stand at the
  times of the samples in their order: all of them, or all but the first for a rate;
  a rate is never negative and a busy share never above 100.\<close>

definition times_of :: "(string \<Rightarrow> int) \<Rightarrow> SystemSnapshot list \<Rightarrow> int list" where
  "times_of time_of ring = map (\<lambda>s. time_of (ss_at s)) ring"

lemma series_multi: "x \<in> set (multi time_of ring gs) \<Longrightarrow> map sp_t (ser_points x) = times_of time_of ring"
  by (auto simp: multi_def samples_times times_of_def)

lemma series_single: "x \<in> set (single time_of ring n g) \<Longrightarrow> map sp_t (ser_points x) = times_of time_of ring"
  by (auto simp: single_def samples_times times_of_def)

lemma runtime_times:
  "\<forall>(k, xs) \<in> set (runtime_series time_of ring). \<forall>x \<in> set xs. map sp_t (ser_points x) = times_of time_of ring"
  unfolding runtime_series_def Let_def by (auto dest!: series_multi series_single)

lemma custom_times:
  "\<forall>(k, xs) \<in> set (custom_series time_of ring). \<forall>x \<in> set xs. map sp_t (ser_points x) = times_of time_of ring"
  unfolding custom_series_def Let_def by (auto dest!: series_multi series_single)

lemma rate_times:
  "\<forall>(k, xs) \<in> set (rate_series time_of ring). \<forall>x \<in> set xs. map sp_t (ser_points x) = times_of time_of (tl ring)"
  unfolding rate_series_def Let_def by (simp add: pair_points_times times_of_def)

lemma rate_points_nonneg:
  "\<forall>(k, xs) \<in> set (rate_series time_of ring). \<forall>x \<in> set xs. \<forall>p \<in> set (ser_points x). 0 \<le> sp_v p"
proof -
  have "p \<in> set (pair_points time_of ring f) \<Longrightarrow> (\<And>a b. 0 \<le> f a b) \<Longrightarrow> 0 \<le> sp_v p" for p f
    using pair_points_values[of p time_of ring f] by auto
  then show ?thesis unfolding rate_series_def Let_def
    using rate_nonneg gc_rate_nonneg busy_share_bounds by auto
qed

text \<open>A cluster's stream line has a point for every sample that counts its streams, in
  the order of the samples, and a cluster has a line when some sample counts it.\<close>

definition streams_of :: "string \<Rightarrow> SystemSnapshot \<Rightarrow> json option" where
  "streams_of cid s = (let streams = oget ''streams_by_cluster'' (custom_group ''yamux'' s)
     in if truthy streams then map_of (jentries (the streams)) cid else None)"

definition stream_point :: "(string \<Rightarrow> int) \<Rightarrow> string \<Rightarrow> SystemSnapshot \<Rightarrow> sys_point list" where
  "stream_point time_of cid s = (case streams_of cid s of None \<Rightarrow> []
     | Some n \<Rightarrow> [\<lparr>sp_t = time_of (ss_at s), sp_v = Number_or_0 (Some n)\<rparr>])"

definition proper_streams :: "SystemSnapshot \<Rightarrow> bool" where
  "proper_streams s \<longleftrightarrow> (case oget ''streams_by_cluster'' (custom_group ''yamux'' s) of
     Some v \<Rightarrow> distinct (map fst (jentries v)) | None \<Rightarrow> True)"

lemma add_points:
  assumes "distinct (map fst es)"
  shows "map_of (fold (\<lambda>(cid, n) m. AList.update cid ((case map_of m cid of None \<Rightarrow> [] | Some ps \<Rightarrow> ps) @ [g n]) m) es m) c =
    (case map_of es c of None \<Rightarrow> map_of m c | Some n \<Rightarrow> Some ((case map_of m c of None \<Rightarrow> [] | Some ps \<Rightarrow> ps) @ [g n]))"
  using assms
proof (induction es arbitrary: m)
  case (Cons e es)
  obtain cid n where e: "e = (cid, n)" by force
  then have "cid \<notin> set (map fst es)" using Cons.prems by simp
  then have "map_of es cid = None" by (simp add: map_of_eq_None_keys)
  then show ?case using Cons by (auto simp: e update_conv' split: option.splits)
qed simp

lemma stream_step_points:
  assumes "proper_streams s"
  shows "map_of (stream_step time_of s m) c = (case stream_point time_of c s of [] \<Rightarrow> map_of m c
    | ps \<Rightarrow> Some ((case map_of m c of None \<Rightarrow> [] | Some qs \<Rightarrow> qs) @ ps))"
proof (cases "truthy (oget ''streams_by_cluster'' (custom_group ''yamux'' s))")
  case True
  then obtain v where v: "oget ''streams_by_cluster'' (custom_group ''yamux'' s) = Some v"
    by (cases "oget ''streams_by_cluster'' (custom_group ''yamux'' s)") auto
  then have "distinct (map fst (jentries v))" using assms by (simp add: proper_streams_def)
  note add_points[OF this, of "\<lambda>n. \<lparr>sp_t = time_of (ss_at s), sp_v = Number_or_0 (Some n)\<rparr>" m c]
  then show ?thesis
    using True v by (simp add: stream_step_def Let_def stream_point_def streams_of_def split: option.splits)
qed (simp add: stream_step_def Let_def stream_point_def streams_of_def)

lemma stream_lines:
  assumes "list_all proper_streams ring"
  shows "map_of (fold (stream_step time_of) ring []) c =
    (let ps = concat (map (stream_point time_of c) ring) in if ps = [] then None else Some ps)"
proof -
  have "map_of (fold (stream_step time_of) ring m) c =
      (case concat (map (stream_point time_of c) ring) of [] \<Rightarrow> map_of m c
       | ps \<Rightarrow> Some ((case map_of m c of None \<Rightarrow> [] | Some qs \<Rightarrow> qs) @ ps))" for m
    using assms
  proof (induction ring arbitrary: m)
    case (Cons s ring)
    then have s: "proper_streams s" and r: "list_all proper_streams ring" by simp_all
    note step = stream_step_points[OF s, of time_of m c]
    define a b where "a = stream_point time_of c s" and "b = concat (map (stream_point time_of c) ring)"
    show ?case
      unfolding fold_simps Cons.IH[OF r] step list.map concat.simps a_def[symmetric] b_def[symmetric]
      by (cases a; cases b) (auto split: option.splits)
  qed simp
  from this[of "[]"] show ?thesis
    unfolding Let_def by (cases "concat (map (stream_point time_of c) ring)") (simp_all del: concat_eq_Nil_conv)
qed

end
