(* ===== verification/SystemLogs.thy ===== *)
theory SystemLogs
  imports SystemMonitor
begin

text \<open>
  pages/SystemLogs/index.tsx: the log viewer of the control plane.  Range queries,
  the live tail with its cursor and its removal of duplicates, the filters and the
  two exports.

  A sequence number is a string of digits and read by BigInt where order matters
  (nat_of_digits).  The server answers newest first, as the service's comments say.
\<close>

section \<open>Rows\<close>

record SystemLogEntry =
  le_seq :: string
  le_at :: string
  le_level :: string
  le_module :: "string option"
  le_msg :: string
  le_fields :: "(string \<times> json) list option"

definition levelColor :: "string \<Rightarrow> string" where
  "levelColor level =
    (if level = ''error'' \<or> level = ''fatal'' then ''red''
     else if level = ''warn'' then ''orange''
     else if level = ''info'' then ''blue''
     else ''default'')"

definition pad_start :: "nat \<Rightarrow> nat \<Rightarrow> string" where
  "pad_start w n = pad_zeros w (show_nat n)"

text \<open>hms reads a time stamp as local hours, minutes, seconds and milliseconds; None is an
  invalid date.\<close>

definition formatAt :: "(string \<Rightarrow> (nat \<times> nat \<times> nat \<times> nat) option) \<Rightarrow> string \<Rightarrow> string" where
  "formatAt hms stamp =
    (case hms stamp of
       None \<Rightarrow> stamp
     | Some (h, m, s, ms) \<Rightarrow> pad_start 2 h @ '':'' @ pad_start 2 m @ '':'' @ pad_start 2 s @ ''.'' @ pad_start 3 ms)"

fun formatFieldValue :: "json \<Rightarrow> string" where
  "formatFieldValue JNull = ''null''"
| "formatFieldValue (JBool b) = js_String (JBool b)"
| "formatFieldValue (JNum x) = js_String (JNum x)"
| "formatFieldValue (JStr s) = s"
| "formatFieldValue v = json_stringify v"

section \<open>The page\<close>

record log_filter =
  lf_node :: string
  lf_level :: string
  lf_module :: string
  lf_q :: string
  lf_range :: TimeRangeValue
  lf_limit :: nat

datatype logs_request = RangeRequest log_filter | TailRequest log_filter string

record sys_logs =
  lg_filter :: log_filter
  lg_live :: bool
  lg_rows :: "SystemLogEntry list"
  lg_lastSeq :: string
  lg_loading :: bool
  lg_modules :: "string list"
  lg_next :: nat
  lg_flights :: "(nat \<times> logs_request) list"

definition start_filter :: log_filter where
  "start_filter = \<lparr>lf_node = ''server'', lf_level = [], lf_module = [], lf_q = [],
     lf_range = Preset R1h, lf_limit = 100\<rparr>"

definition send_logs :: "logs_request \<Rightarrow> sys_logs \<Rightarrow> sys_logs" where
  "send_logs r s = s\<lparr>lg_next := Suc (lg_next s), lg_flights := (lg_next s, r) # lg_flights s\<rparr>"

definition runRangeQuery :: "sys_logs \<Rightarrow> sys_logs" where
  "runRangeQuery s = send_logs (RangeRequest (lg_filter s)) (s\<lparr>lg_loading := True\<rparr>)"

text \<open>The options a request is sent with.\<close>

fun logs_options :: "(int \<Rightarrow> string) \<Rightarrow> int \<Rightarrow> logs_request \<Rightarrow> SystemLogsOpts" where
  "logs_options toISO now (RangeRequest f) =
    \<lparr>sl_afterSeq = None, sl_rangeQuery = buildRangeQuery toISO now (lf_range f), sl_level = lf_level f,
     sl_module = lf_module f, sl_q = lf_q f, sl_limit = lf_limit f\<rparr>"
| "logs_options toISO now (TailRequest f cursor) =
    \<lparr>sl_afterSeq = (if cursor = [] then None else Some cursor), sl_rangeQuery = [], sl_level = lf_level f,
     sl_module = lf_module f, sl_q = lf_q f, sl_limit = 500\<rparr>"

text \<open>The effects after a change of a filter: a range query outside the live tail, and
  in it only when the list is empty.  The range is no dependency of the live tail, and
  a picked range is a new object, so it always counts as a change.\<close>

definition filters_changed :: "sys_logs \<Rightarrow> sys_logs" where
  "filters_changed s = (if \<not> lg_live s \<or> lg_rows s = [] then runRangeQuery s else s)"

definition set_filter :: "log_filter \<Rightarrow> sys_logs \<Rightarrow> sys_logs" where
  "set_filter f s =
    (let f1 = f\<lparr>lf_range := lf_range (lg_filter s)\<rparr>
     in if f1 = lg_filter s then s else filters_changed (s\<lparr>lg_filter := f1\<rparr>))"

definition set_range :: "TimeRangeValue \<Rightarrow> sys_logs \<Rightarrow> sys_logs" where
  "set_range r s =
    (let s1 = s\<lparr>lg_filter := (lg_filter s)\<lparr>lf_range := r\<rparr>\<rparr>
     in if lg_live s then s1 else runRangeQuery s1)"

definition set_live :: "bool \<Rightarrow> sys_logs \<Rightarrow> sys_logs" where
  "set_live b s =
    (if b = lg_live s then s
     else if b \<and> lg_rows s = [] then runRangeQuery (s\<lparr>lg_live := True\<rparr>)
     else s\<lparr>lg_live := b\<rparr>)"

text \<open>Leaving the live tail does not query: liveTail is no dependency of the range effect.\<close>

definition tail_tick :: "sys_logs \<Rightarrow> sys_logs" where
  "tail_tick s = (if \<not> lg_live s then s else send_logs (TailRequest (lg_filter s) (lg_lastSeq s)) s)"

definition land_range :: "SystemLogEntry list option \<Rightarrow> sys_logs \<Rightarrow> sys_logs" where
  "land_range data s =
    (case data of
       None \<Rightarrow> s\<lparr>lg_loading := False\<rparr>
     | Some arr \<Rightarrow> s\<lparr>lg_rows := arr, lg_lastSeq := (case arr of [] \<Rightarrow> [] | r # _ \<Rightarrow> le_seq r), lg_loading := False\<rparr>)"

definition fresh_rows :: "SystemLogEntry list \<Rightarrow> SystemLogEntry list \<Rightarrow> SystemLogEntry list" where
  "fresh_rows prev arr = filter (\<lambda>r. le_seq r \<notin> le_seq ` set prev) arr"

definition merge_rows :: "nat \<Rightarrow> SystemLogEntry list \<Rightarrow> SystemLogEntry list \<Rightarrow> SystemLogEntry list" where
  "merge_rows limit arr prev =
    (let fresh = fresh_rows prev arr
     in if fresh = [] then prev
        else let merged = fresh @ prev
          in if limit < length merged then take limit merged else merged)"

definition newer_cursor :: "string \<Rightarrow> string \<Rightarrow> string" where
  "newer_cursor newest cursor =
    (if cursor = [] \<or> nat_of_digits newest > nat_of_digits cursor then newest else cursor)"

text \<open>A tail answer is used with the limit of the filter it was asked for.\<close>

definition land_tail :: "log_filter \<Rightarrow> SystemLogEntry list option \<Rightarrow> sys_logs \<Rightarrow> sys_logs" where
  "land_tail f data s =
    (case data of
       None \<Rightarrow> s
     | Some [] \<Rightarrow> s
     | Some (r # rs) \<Rightarrow> s\<lparr>lg_rows := merge_rows (lf_limit f) (r # rs) (lg_rows s),
                          lg_lastSeq := newer_cursor (le_seq r) (lg_lastSeq s)\<rparr>)"

definition land_logs :: "nat \<Rightarrow> SystemLogEntry list option \<Rightarrow> sys_logs \<Rightarrow> sys_logs" where
  "land_logs n data s =
    (let s1 = s\<lparr>lg_flights := AList.delete n (lg_flights s)\<rparr>
     in case map_of (lg_flights s) n of
       None \<Rightarrow> s
     | Some (RangeRequest f) \<Rightarrow> land_range data s1
     | Some (TailRequest f cursor) \<Rightarrow> land_tail f data s1)"

text \<open>The module list of the node: a picked module that it lacks is dropped.\<close>

definition land_modules :: "string list \<Rightarrow> sys_logs \<Rightarrow> sys_logs" where
  "land_modules mods s =
    (let m = lf_module (lg_filter s);
         s1 = s\<lparr>lg_modules := mods\<rparr>
     in set_filter ((lg_filter s)\<lparr>lf_module := (if m \<noteq> [] \<and> m \<notin> set mods then [] else m)\<rparr>) s1)"

definition clearRows :: "sys_logs \<Rightarrow> sys_logs" where
  "clearRows s = s\<lparr>lg_rows := [], lg_lastSeq := []\<rparr>"

definition resetForm :: "sys_logs \<Rightarrow> sys_logs" where
  "resetForm s =
    runRangeQuery (clearRows (s\<lparr>lg_filter := start_filter, lg_live := False\<rparr>))"

definition logs_init :: sys_logs where
  "logs_init = runRangeQuery \<lparr>lg_filter = start_filter, lg_live = False, lg_rows = [], lg_lastSeq = [], lg_loading = False,
     lg_modules = [], lg_next = 0, lg_flights = []\<rparr>"

datatype logs_act =
    SetFilter log_filter
  | SetLogRange TimeRangeValue
  | SetLive bool
  | TailTick
  | LogsAnswer nat "SystemLogEntry list option"
  | ModulesAnswer "string list"
  | ClearRows
  | ResetForm
  | RefreshLogs

fun logs_step :: "logs_act \<Rightarrow> sys_logs \<Rightarrow> sys_logs" where
  "logs_step (SetFilter f) s = set_filter f s"
| "logs_step (SetLogRange r) s = set_range r s"
| "logs_step (SetLive b) s = set_live b s"
| "logs_step TailTick s = tail_tick s"
| "logs_step (LogsAnswer n data) s = land_logs n data s"
| "logs_step (ModulesAnswer mods) s = land_modules mods s"
| "logs_step ClearRows s = clearRows s"
| "logs_step ResetForm s = resetForm s"
| "logs_step RefreshLogs s = runRangeQuery s"

definition logs_run :: "logs_act list \<Rightarrow> sys_logs \<Rightarrow> sys_logs" where
  "logs_run es s = fold logs_step es s"

section \<open>Exports\<close>

definition pad_end :: "nat \<Rightarrow> string \<Rightarrow> string" where
  "pad_end w s = s @ replicate (w - length s) (CHR '' '')"

definition export_fields :: "SystemLogEntry \<Rightarrow> string" where
  "export_fields r =
    (case le_fields r of
       None \<Rightarrow> []
     | Some fs \<Rightarrow> join '' '' (map (\<lambda>(k, v). k @ ''='' @ (case v of JStr s \<Rightarrow> s | _ \<Rightarrow> json_stringify v)) fs))"

definition export_line :: "SystemLogEntry \<Rightarrow> string" where
  "export_line r =
    le_at r @ '' '' @ pad_end 5 (map upper_char (le_level r)) @
    (case le_module r of None \<Rightarrow> [] | Some m \<Rightarrow> if m = [] then [] else '' '' @ m) @ '' '' @ le_msg r @
    (if export_fields r = [] then [] else ''  '' @ export_fields r)"

definition downloadTxt :: "SystemLogEntry list \<Rightarrow> string" where
  "downloadTxt rows = join [CHR 0x0A] (map export_line (rev rows)) @ [CHR 0x0A]"

definition entry_json :: "SystemLogEntry \<Rightarrow> json" where
  "entry_json r = JObj ([(''seq'', JStr (le_seq r)), (''at'', JStr (le_at r)), (''level'', JStr (le_level r))] @
     prop_str ''module'' (le_module r) @ [(''msg'', JStr (le_msg r))] @
     (case le_fields r of None \<Rightarrow> [] | Some fs \<Rightarrow> [(''fields'', JObj fs)]))"

definition downloadNdjson :: "SystemLogEntry list \<Rightarrow> string" where
  "downloadNdjson rows = join [CHR 0x0A] (map (\<lambda>r. json_stringify (entry_json r)) (rev rows)) @ [CHR 0x0A]"

definition export_name :: "string \<Rightarrow> string \<Rightarrow> string \<Rightarrow> string" where
  "export_name nodeID stamp suff =
    (let ts = map (\<lambda>c. if c = CHR '':'' \<or> c = CHR ''T'' then CHR ''-'' else c) stamp
     in ''kpilot-logs-'' @ nodeID @ ''-'' @ takeWhile (\<lambda>c. c \<noteq> CHR ''.'') ts @ ''.'' @ suff)"

section \<open>What the list shows\<close>

text \<open>Rows newest first, each once.\<close>

definition descending :: "SystemLogEntry list \<Rightarrow> bool" where
  "descending rows \<longleftrightarrow> sorted_wrt (\<lambda>a b. nat_of_digits (le_seq a) > nat_of_digits (le_seq b)) rows"

lemma descending_distinct: "descending rows \<Longrightarrow> distinct (map le_seq rows)"
  unfolding descending_def
  by (induction rows) auto

lemma descending_filter: "descending rows \<Longrightarrow> descending (filter P rows)"
  unfolding descending_def by (rule sorted_wrt_filter)

lemma descending_take: "descending rows \<Longrightarrow> descending (take n rows)"
  unfolding descending_def by (rule sorted_wrt_take)

lemma descending_append:
  "descending (xs @ ys) \<longleftrightarrow> descending xs \<and> descending ys \<and>
    (\<forall>x \<in> set xs. \<forall>y \<in> set ys. nat_of_digits (le_seq x) > nat_of_digits (le_seq y))"
  by (simp add: descending_def sorted_wrt_append)

text \<open>The server's answer to a poll: the newest n rows of the log above the cursor.\<close>

definition above :: "SystemLogEntry list \<Rightarrow> string \<Rightarrow> SystemLogEntry list" where
  "above jn cursor = filter (\<lambda>r. cursor = [] \<or> nat_of_digits (le_seq r) > nat_of_digits cursor) jn"

text \<open>The list is the newest part of the log down to some point, and the cursor its first row.\<close>

definition tails :: "SystemLogEntry list \<Rightarrow> sys_logs \<Rightarrow> bool" where
  "tails jn s \<longleftrightarrow> lg_rows s \<noteq> [] \<and> (\<exists>n. lg_rows s = take n jn) \<and> lg_lastSeq s = le_seq (hd (lg_rows s))"

lemma above_split:
  assumes "descending (new @ old)" "old \<noteq> []" "le_seq (hd old) \<noteq> []"
  shows "above (new @ old) (le_seq (hd old)) = new"
proof -
  obtain o1 os where o: "old = o1 # os" using assms(2) by (cases old) auto
  have "\<forall>x \<in> set new. nat_of_digits (le_seq x) > nat_of_digits (le_seq o1)"
    using assms(1) unfolding descending_append o by auto
  moreover have "\<forall>y \<in> set old. \<not> nat_of_digits (le_seq y) > nat_of_digits (le_seq o1)"
    using assms(1) unfolding descending_append o by (auto simp: descending_def)
  ultimately show ?thesis
    using assms(3) unfolding above_def o by (auto simp: filter_empty_conv filter_id_conv)
qed


definition sample_row :: "string \<Rightarrow> SystemLogEntry" where
  "sample_row q = \<lparr>le_seq = q, le_at = ''t'', le_level = ''info'', le_module = None, le_msg = ''m'', le_fields = None\<rparr>"

lemma sample_row_seq: "le_seq (sample_row q) = q"
  by (simp add: sample_row_def)


text \<open>A node picked during the live tail: the rows of the other node stay in the list,
  and the cursor sent for the new node is the sequence number of the old one.\<close>

theorem live_tail_mixes_nodes:
  assumes "lg_live s" "lg_rows s \<noteq> []" "lf_node f \<noteq> lf_node (lg_filter s)" "lg_lastSeq s \<noteq> []"
  shows "let t = logs_run [SetFilter f, TailTick] s; g = f\<lparr>lf_range := lf_range (lg_filter s)\<rparr>
    in lg_rows t = lg_rows s \<and> lg_flights t = (lg_next s, TailRequest g (lg_lastSeq s)) # lg_flights s \<and>
       sl_afterSeq (logs_options toISO now (TailRequest g (lg_lastSeq s))) = Some (lg_lastSeq s)"
proof -
  have "f\<lparr>lf_range := lf_range (lg_filter s)\<rparr> \<noteq> lg_filter s"
    using assms(3) by (metis log_filter.select_convs(1) log_filter.surjective log_filter.update_convs(5))
  then show ?thesis using assms
    by (simp add: logs_run_def set_filter_def Let_def filters_changed_def tail_tick_def send_logs_def)
qed

text \<open>Range queries are not cancelled either: of two under way, the one answered last wins,
  whatever the filters on screen say.\<close>

theorem old_range_query_wins:
  assumes "\<not> lg_live s" "lg_flights s = []" "lf_level f \<noteq> lf_level (lg_filter s)"
  shows "let t = logs_run [RefreshLogs, SetFilter f, LogsAnswer (Suc (lg_next s)) (Some ys), LogsAnswer (lg_next s) (Some xs)] s
    in lf_level (lg_filter t) = lf_level f \<and> lg_rows t = xs \<and> \<not> lg_loading t \<and> lg_flights t = []"
proof -
  have "f\<lparr>lf_range := lf_range (lg_filter s)\<rparr> \<noteq> lg_filter s"
    using assms(3) by (metis log_filter.select_convs(2) log_filter.surjective log_filter.update_convs(5))
  then show ?thesis using assms
    by (simp add: logs_run_def runRangeQuery_def set_filter_def Let_def filters_changed_def send_logs_def
        land_logs_def land_range_def)
qed

end
