(* ===== verification/ModelCatalog.thy ===== *)
theory ModelCatalog
  imports ChatPage QueueTree SystemSeries "HOL-Library.Product_Lexorder"
begin

text \<open>
  The model catalog: the tables and requests of services/kpilot/model.ts, the form of
  pages/ModelHub/ModelDrawer.tsx, the catalog page pages/ModelHub/index.tsx with its cards,
  and the deployments page pages/ModelDeployments/index.tsx.

  JSON.parse is the parameter parse, None its SyntaxError; collate is the collation key
  of localeCompare.  Letters are upper- or lower-cased in ASCII only.
\<close>

section \<open>services/kpilot/model.ts\<close>

record family_meta =
  fm_label :: string
  fm_color :: string
  fm_icon :: string

definition MODEL_RUNTIMES :: "string list" where
  "MODEL_RUNTIMES = [''vllm'']"

definition MODEL_FAMILIES :: "string list" where
  "MODEL_FAMILIES = [''qwen'', ''deepseek'', ''llama'', ''mistral'', ''glm'', ''yi'', ''phi'', ''gemma'', ''kimi'', ''custom'']"

definition FAMILY_META :: "(string \<times> family_meta) list" where
  "FAMILY_META = [
   (''qwen'', \<lparr>fm_label = ''Qwen'', fm_color = ''#5546B8'',
      fm_icon = ''https://cdn-avatars.huggingface.co/v1/production/uploads/620760a26e3b7210c2ff1943/'' @
        ''-s1gyJfvbE1RgO5iBeNOi.png''\<rparr>),
   (''deepseek'', \<lparr>fm_label = ''DeepSeek'', fm_color = ''#0066FF'',
      fm_icon = ''https://cdn-avatars.huggingface.co/v1/production/uploads/6538815d1bdb3c40db94fbfa/'' @
        ''xMBly9PUMphrFVMxLX4kq.png''\<rparr>),
   (''llama'', \<lparr>fm_label = ''Llama'', fm_color = ''#1877F2'',
      fm_icon = ''https://cdn-avatars.huggingface.co/v1/production/uploads/646cf8084eefb026fb8fd8bc/'' @
        ''oCTqufkdTkjyGodsx1vo1.png''\<rparr>),
   (''mistral'', \<lparr>fm_label = ''Mistral'', fm_color = ''#FF7000'',
      fm_icon = ''https://cdn-avatars.huggingface.co/v1/production/uploads/634c17653d11eaedd88b314d/'' @
        ''9OgyfKstSZtbmsmuG8MbU.png''\<rparr>),
   (''glm'', \<lparr>fm_label = ''GLM'', fm_color = ''#00B6CB'',
      fm_icon = ''https://cdn-avatars.huggingface.co/v1/production/uploads/62dc173789b4cf157d36ebee/'' @
        ''i_pxzM2ZDo3Ub-BEgIkE9.png''\<rparr>),
   (''yi'', \<lparr>fm_label = ''Yi'', fm_color = ''#B100E8'',
      fm_icon = ''https://cdn-avatars.huggingface.co/v1/production/uploads/6536187279f1de44b5e02d0f/'' @
        ''-T8Xw0mX67_R73b7Re1y-.png''\<rparr>),
   (''phi'', \<lparr>fm_label = ''Phi'', fm_color = ''#00A4EF'',
      fm_icon = ''https://cdn-avatars.huggingface.co/v1/production/uploads/'' @
        ''1583646260758-5e64858c87403103f9f1055d.png''\<rparr>),
   (''gemma'', \<lparr>fm_label = ''Gemma'', fm_color = ''#4285F4'',
      fm_icon = ''https://cdn-avatars.huggingface.co/v1/production/uploads/5dd96eb166059660ed1ee413/'' @
        ''WtA3YYitedOr9n02eHfJe.png''\<rparr>),
   (''kimi'', \<lparr>fm_label = ''Kimi'', fm_color = ''#FFB400'',
      fm_icon = ''https://cdn-avatars.huggingface.co/v1/production/uploads/641c1e77c3983aa9490f8121/'' @
        ''X1yT2rsaIbR9cdYGEVu0X.jpeg''\<rparr>)]"

definition FAMILY_LABELS :: "(string \<times> string) list" where
  "FAMILY_LABELS = map (\<lambda>(k, v). (k, fm_label v)) FAMILY_META"

definition RUNTIME_LABELS :: "(string \<times> string) list" where
  "RUNTIME_LABELS = [(''vllm'', ''vLLM'')]"

definition vllm_args :: string where
  "vllm_args = json_stringify (jstrs [''--max-model-len'', ''32768'', ''--dtype'', ''auto'',
     ''--gpu-memory-utilization'', ''0.9''])"

definition RUNTIME_DEFAULTS :: "(string \<times> string \<times> string) list" where
  "RUNTIME_DEFAULTS = [(''vllm'', ''vllm/vllm-openai:v0.20.2'', vllm_args)]"

definition MODEL_SOURCES :: "string list" where
  "MODEL_SOURCES = [''huggingface'', ''modelscope'', ''local_path'', ''oci'']"

definition SOURCE_LABELS :: "(string \<times> string) list" where
  "SOURCE_LABELS = [(''huggingface'', ''HuggingFace''), (''modelscope'', ''ModelScope''),
     (''local_path'', ''Local Path''), (''oci'', ''OCI Artifact'')]"

record Model =
  md_id :: nat
  md_name :: string
  md_display_name :: string
  md_description :: string
  md_family :: string
  md_runtime :: string
  md_image :: string
  md_source :: string
  md_source_ref :: string
  md_hf_endpoint :: string
  md_oci_url :: string
  md_local_path :: string
  md_default_args :: string
  md_recommended_gpu :: string
  md_license :: string
  md_is_builtin :: bool
  md_sort_order :: rat

text \<open>ModelPayload: the fields that a user writes.\<close>

record ModelPayload =
  mp_name :: string
  mp_display_name :: string
  mp_description :: string
  mp_family :: string
  mp_runtime :: string
  mp_image :: string
  mp_source :: string
  mp_source_ref :: string
  mp_hf_endpoint :: string
  mp_oci_url :: string
  mp_local_path :: string
  mp_default_args :: string
  mp_recommended_gpu :: string
  mp_license :: string

definition own_payload :: "Model \<Rightarrow> ModelPayload" where
  "own_payload m = \<lparr>mp_name = md_name m, mp_display_name = md_display_name m, mp_description = md_description m,
     mp_family = md_family m, mp_runtime = md_runtime m, mp_image = md_image m, mp_source = md_source m,
     mp_source_ref = md_source_ref m, mp_hf_endpoint = md_hf_endpoint m, mp_oci_url = md_oci_url m,
     mp_local_path = md_local_path m, mp_default_args = md_default_args m,
     mp_recommended_gpu = md_recommended_gpu m, mp_license = md_license m\<rparr>"

definition payload_json :: "ModelPayload \<Rightarrow> json" where
  "payload_json p = JObj [(''name'', JStr (mp_name p)), (''display_name'', JStr (mp_display_name p)),
     (''description'', JStr (mp_description p)), (''family'', JStr (mp_family p)), (''runtime'', JStr (mp_runtime p)),
     (''image'', JStr (mp_image p)), (''source'', JStr (mp_source p)), (''source_ref'', JStr (mp_source_ref p)),
     (''hf_endpoint'', JStr (mp_hf_endpoint p)), (''oci_url'', JStr (mp_oci_url p)),
     (''local_path'', JStr (mp_local_path p)), (''default_args'', JStr (mp_default_args p)),
     (''recommended_gpu'', JStr (mp_recommended_gpu p)), (''license'', JStr (mp_license p))]"

definition models_path :: "string list \<Rightarrow> string" where
  "models_path segs = path ([''api'', ''v1'', ''models''] @ segs)"

definition listModels :: "string option \<Rightarrow> string option \<Rightarrow> request" where
  "listModels family runtime = GET (models_path [])
     (prop_opt ''family'' (map_option JStr family) @ prop_opt ''runtime'' (map_option JStr runtime))"

definition getModel :: "nat \<Rightarrow> request" where
  "getModel n = GET (models_path [show_nat n]) []"

definition createModel :: "ModelPayload \<Rightarrow> request" where
  "createModel p = POST (models_path []) [] (JsonBody (payload_json p))"

definition updateModel :: "nat \<Rightarrow> ModelPayload \<Rightarrow> request" where
  "updateModel n p = \<lparr>rq_url = models_path [show_nat n], rq_method = ''PATCH'', rq_params = [],
     rq_body = JsonBody (payload_json p), rq_headers = []\<rparr>"

definition deleteModel :: "nat \<Rightarrow> request" where
  "deleteModel n = DELETE (models_path [show_nat n]) []"

definition deployModel :: "nat \<Rightarrow> json \<Rightarrow> bool \<Rightarrow> request" where
  "deployModel n payload dryRun = POST (models_path [show_nat n, ''deploy''])
     (prop_if dryRun ''dry_run'' (JStr ''true'')) (JsonBody payload)"

definition listDeployments :: "nat option \<Rightarrow> request" where
  "listDeployments modelId = GET (models_path [''deployments''])
     (case modelId of None \<Rightarrow> [] | Some n \<Rightarrow> prop_if (n \<noteq> 0) ''model_id'' (JNum (of_nat n)))"

definition chatCompletions_model :: "string \<Rightarrow> string \<Rightarrow> string \<Rightarrow> json \<Rightarrow> request" where
  "chatCompletions_model clusterId namespace name body =
    POST (path [''api'', ''v1'', ''clusters'', encodeURIComponent clusterId, ''inference'',
      encodeURIComponent namespace, encodeURIComponent name, ''chat'', ''completions'']) [] (JsonBody body)"

section \<open>The model form\<close>

subsection \<open>Default arguments, one per line\<close>

definition argsJsonToText :: "(string \<Rightarrow> json option) \<Rightarrow> string \<Rightarrow> string" where
  "argsJsonToText parse js =
    (if js = [] then []
     else case parse js of Some (JArr xs) \<Rightarrow> join [LF] (map js_String xs) | _ \<Rightarrow> [])"

definition trimmed_lines :: "string \<Rightarrow> string list" where
  "trimmed_lines t = filter (\<lambda>w. w \<noteq> []) (map trim (split_lines t))"

definition argsTextToJson :: "string \<Rightarrow> string" where
  "argsTextToJson t =
    (if t = [] then []
     else let args = trimmed_lines t in if args \<noteq> [] then json_stringify (jstrs args) else [])"

subsection \<open>Recommended GPU\<close>

record gpu_fields =
  gf_count :: jval
  gf_memory :: jval
  gf_model :: jval

definition parseGPU :: "(string \<Rightarrow> json option) \<Rightarrow> string \<Rightarrow> gpu_fields" where
  "parseGPU parse raw =
    (case if raw = [] then None else parse raw of
       None \<Rightarrow> \<lparr>gf_count = None, gf_memory = None, gf_model = None\<rparr>
     | Some g \<Rightarrow> \<lparr>gf_count = oget ''count'' (Some g), gf_memory = oget ''memoryGiB'' (Some g), gf_model = oget ''model'' (Some g)\<rparr>)"

text \<open>v && v > 0\<close>

definition positive_value :: "jval \<Rightarrow> bool" where
  "positive_value v \<longleftrightarrow> truthy v \<and> 0 < Number_or_0 v"

definition gpu_object :: "gpu_fields \<Rightarrow> obj" where
  "gpu_object g =
    (if positive_value (gf_count g) then prop_opt ''count'' (gf_count g) else []) @
    (if positive_value (gf_memory g) then prop_opt ''memoryGiB'' (gf_memory g) else []) @
    prop_truthy ''model'' (gf_model g)"

definition gpu_text :: "gpu_fields \<Rightarrow> string" where
  "gpu_text g = (if gpu_object g \<noteq> [] then json_stringify (JObj (gpu_object g)) else [])"

subsection \<open>The form and its submission\<close>

datatype drawer_mode = Create | Edit | Duplicate

record model_form =
  mf_name :: string
  mf_display_name :: string
  mf_description :: "string option"
  mf_family :: string
  mf_runtime :: string
  mf_image :: string
  mf_source :: string
  mf_source_ref :: "string option"
  mf_hf_endpoint :: "string option"
  mf_oci_url :: "string option"
  mf_local_path :: "string option"
  mf_default_args_text :: "string option"
  mf_gpu :: gpu_fields
  mf_license :: "string option"

definition or_empty :: "string option \<Rightarrow> string" where
  "or_empty s = (case s of None \<Rightarrow> [] | Some x \<Rightarrow> x)"

definition model_payload :: "model_form \<Rightarrow> ModelPayload" where
  "model_payload v =
    (let src = mf_source v
     in \<lparr>mp_name = mf_name v, mp_display_name = mf_display_name v, mp_description = or_empty (mf_description v),
         mp_family = mf_family v, mp_runtime = mf_runtime v, mp_image = mf_image v, mp_source = src,
         mp_source_ref = (if src = ''huggingface'' \<or> src = ''modelscope'' then or_empty (mf_source_ref v) else []),
         mp_hf_endpoint = (if src = ''huggingface'' then or_empty (mf_hf_endpoint v) else []),
         mp_oci_url = (if src = ''oci'' then or_empty (mf_oci_url v) else []),
         mp_local_path = (if src = ''local_path'' then or_empty (mf_local_path v) else []),
         mp_default_args = argsTextToJson (or_empty (mf_default_args_text v)),
         mp_recommended_gpu = gpu_text (mf_gpu v),
         mp_license = or_empty (mf_license v)\<rparr>)"

text \<open>The request of handleFinish: an update only in edit mode with a row.\<close>

definition handleFinish :: "drawer_mode \<Rightarrow> Model option \<Rightarrow> model_form \<Rightarrow> request" where
  "handleFinish mode model v =
    (case model of
       Some m \<Rightarrow> if mode = Edit then updateModel (md_id m) (model_payload v) else createModel (model_payload v)
     | None \<Rightarrow> createModel (model_payload v))"

definition form_key :: "drawer_mode \<Rightarrow> Model option \<Rightarrow> string" where
  "form_key mode model =
    (case model of
       None \<Rightarrow> ''new''
     | Some m \<Rightarrow> (case mode of Create \<Rightarrow> ''create'' | Edit \<Rightarrow> ''edit'' | Duplicate \<Rightarrow> ''duplicate'') @ ''-'' @ show_nat (md_id m))"

definition initial_form :: "(string \<Rightarrow> json option) \<Rightarrow> drawer_mode \<Rightarrow> Model option \<Rightarrow> model_form" where
  "initial_form parse mode model =
    (case model of
       None \<Rightarrow>
         \<lparr>mf_name = [], mf_display_name = [], mf_description = None, mf_family = ''custom'', mf_runtime = ''vllm'',
           mf_image = fst (the (map_of RUNTIME_DEFAULTS ''vllm'')), mf_source = ''huggingface'', mf_source_ref = None,
           mf_hf_endpoint = None, mf_oci_url = None, mf_local_path = None,
           mf_default_args_text = Some (argsJsonToText parse (snd (the (map_of RUNTIME_DEFAULTS ''vllm'')))),
           mf_gpu = \<lparr>gf_count = Some (JNum 1), gf_memory = Some (JNum 24), gf_model = Some (JStr ''any'')\<rparr>,
           mf_license = None\<rparr>
     | Some m \<Rightarrow>
         let dup = (mode = Duplicate)
         in \<lparr>mf_name = (if dup then md_name m @ ''-copy'' else md_name m),
             mf_display_name = (if dup then md_display_name m @ '' (Copy)'' else md_display_name m),
             mf_description = Some (if dup then [] else md_description m),
             mf_family = (if dup \<and> md_is_builtin m then ''custom'' else md_family m),
             mf_runtime = md_runtime m, mf_image = md_image m,
             mf_source = (if md_source m = [] then ''huggingface'' else md_source m),
             mf_source_ref = Some (md_source_ref m), mf_hf_endpoint = Some (md_hf_endpoint m),
             mf_oci_url = Some (md_oci_url m), mf_local_path = Some (md_local_path m),
             mf_default_args_text = Some (argsJsonToText parse (md_default_args m)),
             mf_gpu = parseGPU parse (md_recommended_gpu m), mf_license = Some (md_license m)\<rparr>)"

text \<open>A changed runtime rewrites the image and the arguments; an unknown one nothing.\<close>

definition runtime_changed :: "(string \<Rightarrow> json option) \<Rightarrow> string \<Rightarrow> model_form \<Rightarrow> model_form" where
  "runtime_changed parse runtime v =
    (let v1 = v\<lparr>mf_runtime := runtime\<rparr>
     in case map_of RUNTIME_DEFAULTS runtime of
          None \<Rightarrow> v1
        | Some (img, args) \<Rightarrow> v1\<lparr>mf_image := img, mf_default_args_text := Some (argsJsonToText parse args)\<rparr>)"

subsection \<open>What a form keeps\<close>

definition clean_line :: "string \<Rightarrow> bool" where
  "clean_line w \<longleftrightarrow> w \<noteq> [] \<and> LF \<notin> set w \<and> trim w = w"

declare split_lines.simps(2) [simp del]

lemma split_lines_nonempty [simp]: "split_lines t \<noteq> []"
proof (cases t)
  case (Cons c cs)
  show ?thesis unfolding Cons by (subst split_lines.simps(2)) (simp split: list.split)
qed simp

lemma split_lines_Cons:
  "split_lines (c # cs) =
    (if c = LF then [] # split_lines cs
     else if cs \<noteq> [] \<and> c = CR \<and> hd cs = LF then [] # split_lines (tl cs)
     else (c # hd (split_lines cs)) # tl (split_lines cs))"
proof (cases "split_lines cs")
  case (Cons w ws)
  then show ?thesis by (subst split_lines.simps(2)) (cases cs, simp_all)
qed simp

lemma split_lines_append:
  "LF \<notin> set w \<Longrightarrow> w = [] \<or> last w \<noteq> CR \<Longrightarrow> split_lines (w @ LF # t) = w # split_lines t"
proof (induction w)
  case Nil
  then show ?case by (simp add: split_lines_Cons)
next
  case (Cons c w)
  have n: "c \<noteq> LF" "\<not> (w @ LF # t \<noteq> [] \<and> c = CR \<and> hd (w @ LF # t) = LF)"
    using Cons.prems by (cases w; auto)+
  have "w = [] \<or> last w \<noteq> CR" using Cons.prems(2) by auto
  then have "split_lines (w @ LF # t) = w # split_lines t" using Cons.IH Cons.prems(1) by simp
  then show ?case using n unfolding append_Cons split_lines_Cons[of c] by simp
qed

lemma split_lines_parts: "w \<in> set (split_lines t) \<Longrightarrow> LF \<notin> set w"
proof (induction t arbitrary: w rule: length_induct)
  case (1 t)
  show ?case
  proof (cases t)
    case Nil
    then show ?thesis using 1(2) by simp
  next
    case (Cons c cs)
    have ih: "LF \<notin> set v" if "v \<in> set (split_lines u)" "length u < length t" for v u
      using 1(1) that by blast
    have "length cs < length t" "length (tl cs) < length t" using Cons by auto
    moreover have "hd (split_lines cs) \<in> set (split_lines cs)" by simp
    moreover have "tl (split_lines cs) \<noteq> [] \<Longrightarrow> set (tl (split_lines cs)) \<subseteq> set (split_lines cs)"
      by (cases "split_lines cs") auto
    ultimately show ?thesis
      using 1(2) ih[of _ cs] ih[of _ "tl cs"] unfolding Cons split_lines_Cons
      by (cases "split_lines cs") (auto split: if_splits)
  qed
qed

lemma clean_line_end: "clean_line w \<Longrightarrow> LF \<notin> set w \<and> (w = [] \<or> last w \<noteq> CR)"
  using trim_ends[of w] by (auto simp: clean_line_def is_ws_def)

lemma split_lines_join:
  "ws \<noteq> [] \<Longrightarrow> list_all clean_line ws \<Longrightarrow> split_lines (join [LF] ws) = ws"
  by (induction ws rule: induct_list012)
    (auto simp: split_lines_append clean_line_end split_lines_single)

lemma trimmed_lines_clean: "list_all clean_line (trimmed_lines t)"
proof -
  have "LF \<notin> set (trim w)" if "w \<in> set (split_lines t)" for w
    using split_lines_parts[OF that] unfolding trim_def
    by (metis set_dropWhileD set_rev)
  then show ?thesis by (auto simp: trimmed_lines_def list_all_iff clean_line_def)
qed

lemma trimmed_lines_join:
  "ws \<noteq> [] \<Longrightarrow> trimmed_lines (join [LF] ws) = ws \<longleftrightarrow> list_all clean_line ws"
proof
  assume "trimmed_lines (join [LF] ws) = ws"
  then show "list_all clean_line ws" using trimmed_lines_clean by metis
next
  assume "ws \<noteq> []" and c: "list_all clean_line ws"
  then have "map trim ws = ws" by (intro map_idI) (auto simp: list_all_iff clean_line_def)
  moreover have "filter (\<lambda>w. w \<noteq> []) ws = ws" using c by (auto simp: filter_id_conv list_all_iff clean_line_def)
  ultimately show "trimmed_lines (join [LF] ws) = ws"
    using split_lines_join[OF \<open>ws \<noteq> []\<close> c] by (simp add: trimmed_lines_def)
qed

lemma join_LF_Nil: "join [LF] ws = [] \<longleftrightarrow> ws = [] \<or> ws = [[]]"
  by (induction ws rule: induct_list012) auto

lemma map_js_String [simp]: "map (js_String \<circ> JStr) ws = ws"
  by (induction ws) auto

lemma stringify_nonempty: "json_stringify (jstrs ws) \<noteq> []"
  by (simp add: jstrs_def)

text \<open>The comment on the two functions promises a round trip.  It holds exactly for
  arguments that are non-empty, without a line break and without white space at either
  end; any other stored list is changed by opening and saving the form.\<close>

theorem default_args_roundtrip_iff:
  assumes parse: "parse (json_stringify (jstrs args)) = Some (jstrs args)"
      "parse (json_stringify (jstrs (trimmed_lines (join [LF] args)))) = Some (jstrs (trimmed_lines (join [LF] args)))"
    and ne: "args \<noteq> []"
  shows "argsTextToJson (argsJsonToText parse (json_stringify (jstrs args))) = json_stringify (jstrs args) \<longleftrightarrow>
    list_all clean_line args"
proof -
  let ?ts = "trimmed_lines (join [LF] args)"
  have t: "argsJsonToText parse (json_stringify (jstrs args)) = join [LF] args"
    using parse(1) stringify_nonempty[of args] by (simp add: argsJsonToText_def jstrs_def)
  have inj: "json_stringify (jstrs ?ts) = json_stringify (jstrs args) \<longleftrightarrow> ?ts = args"
  proof
    assume "json_stringify (jstrs ?ts) = json_stringify (jstrs args)"
    then have "jstrs ?ts = jstrs args" using parse by (metis option.inject)
    then show "?ts = args" using inj_map_eq_map[of JStr] by (simp add: jstrs_def inj_def)
  qed simp
  show ?thesis
  proof (cases "join [LF] args = []")
    case True
    then have "args = [[]]" using ne join_LF_Nil by blast
    then show ?thesis using t stringify_nonempty[of "[[]]"] by (simp add: argsTextToJson_def clean_line_def)
  next
    case False
    then have "argsTextToJson (join [LF] args) = json_stringify (jstrs args) \<longleftrightarrow> ?ts = args"
      using inj ne stringify_nonempty[of args] by (auto simp: argsTextToJson_def Let_def)
    then show ?thesis using t trimmed_lines_join[OF ne] by simp
  qed
qed

lemma default_args_roundtrip_iff_witness:
  "let parse = (\<lambda>t. Some (jstrs (if t = json_stringify (jstrs ['' a'']) then ['' a''] else [''a''])))
   in argsTextToJson (argsJsonToText parse (json_stringify (jstrs ['' a'']))) \<noteq> json_stringify (jstrs ['' a''])"
proof -
  let ?parse = "\<lambda>t. Some (jstrs (if t = json_stringify (jstrs ['' a'']) then ['' a''] else [''a'']))"
  have "trimmed_lines (join [LF] ['' a'']) = [''a'']"
    by (simp add: trimmed_lines_def split_lines_Cons trim_def is_ws_def)
  moreover have "json_stringify (jstrs [''a'']) \<noteq> json_stringify (jstrs ['' a''])"
    by (simp add: jstrs_def json_quote_def json_escape_char_def)
  moreover have "\<not> list_all clean_line ['' a'']" by (simp add: clean_line_def trim_def is_ws_def)
  ultimately show ?thesis
    using default_args_roundtrip_iff[of ?parse "['' a'']"] by (simp add: Let_def)
qed

text \<open>The rows that the form can represent: a source with its own fields only, clean
  arguments, and a GPU blob with positive numbers.\<close>

definition own_fields_only :: "Model \<Rightarrow> bool" where
  "own_fields_only m \<longleftrightarrow>
     md_source m \<in> set MODEL_SOURCES \<and>
     (md_source m \<in> {''huggingface'', ''modelscope''} \<or> md_source_ref m = []) \<and>
     (md_source m = ''huggingface'' \<or> md_hf_endpoint m = []) \<and>
     (md_source m = ''oci'' \<or> md_oci_url m = []) \<and>
     (md_source m = ''local_path'' \<or> md_local_path m = [])"

definition proper_gpu :: "gpu_fields \<Rightarrow> bool" where
  "proper_gpu g \<longleftrightarrow> (gf_count g = None \<or> positive_value (gf_count g)) \<and>
     (gf_memory g = None \<or> positive_value (gf_memory g)) \<and> (gf_model g = None \<or> truthy (gf_model g))"

lemma parse_gpu_text:
  assumes "proper_gpu g" "parse (json_stringify (JObj (gpu_object g))) = Some (JObj (gpu_object g))"
  shows "parseGPU parse (gpu_text g) = g"
proof (cases "gpu_object g = []")
  case True
  then have "gf_count g = None" "gf_memory g = None" "gf_model g = None"
    using assms(1) by (auto simp: gpu_object_def proper_gpu_def prop_truthy_def positive_value_def split: if_splits)
  then show ?thesis using True by (cases g) (simp add: parseGPU_def gpu_text_def)
next
  case False
  have "gf_count g = None \<Longrightarrow> \<not> positive_value (gf_count g)" "gf_memory g = None \<Longrightarrow> \<not> positive_value (gf_memory g)"
    by (auto simp: positive_value_def)
  then have "map_of (gpu_object g) ''count'' = gf_count g" "map_of (gpu_object g) ''memoryGiB'' = gf_memory g"
    "map_of (gpu_object g) ''model'' = gf_model g"
    using assms(1) unfolding gpu_object_def proper_gpu_def map_of_app by auto
  then show ?thesis using False assms(2)
    by (cases g) (simp add: parseGPU_def gpu_text_def)
qed

text \<open>Editing is safe: opening the edit form on a row that the form can represent and
  saving it at once sends an update of that row with its own fields, nothing lost or
  normalised away.\<close>

theorem model_edit_roundtrip:
  assumes fields: "own_fields_only m"
    and args: "md_default_args m = json_stringify (jstrs args)" "args \<noteq> []" "list_all clean_line args"
    and gpu: "md_recommended_gpu m = gpu_text g" "proper_gpu g"
    and parse: "parse (json_stringify (jstrs args)) = Some (jstrs args)"
      "parse (json_stringify (JObj (gpu_object g))) = Some (JObj (gpu_object g))"
  shows "handleFinish Edit (Some m) (initial_form parse Edit (Some m)) = updateModel (md_id m) (own_payload m)"
proof -
  have "args \<noteq> [[]]" using args(3) by (auto simp: clean_line_def)
  then have "join [LF] args \<noteq> []" using args(2) join_LF_Nil[of args] by blast
  then have "argsTextToJson (argsJsonToText parse (md_default_args m)) = md_default_args m"
    using args trimmed_lines_join[OF args(2)] parse(1) stringify_nonempty[of args]
    by (simp add: argsTextToJson_def argsJsonToText_def jstrs_def)
  moreover have "gpu_text (parseGPU parse (md_recommended_gpu m)) = md_recommended_gpu m"
    using parse_gpu_text[of g parse, OF gpu(2) parse(2)] gpu(1) by simp
  moreover have "md_source m \<noteq> []"
    "(if md_source m = ''huggingface'' \<or> md_source m = ''modelscope'' then md_source_ref m else []) = md_source_ref m"
    "(if md_source m = ''huggingface'' then md_hf_endpoint m else []) = md_hf_endpoint m"
    "(if md_source m = ''oci'' then md_oci_url m else []) = md_oci_url m"
    "(if md_source m = ''local_path'' then md_local_path m else []) = md_local_path m"
    using fields unfolding own_fields_only_def by (auto simp: MODEL_SOURCES_def)
  ultimately have "model_payload (initial_form parse Edit (Some m)) = own_payload m"
    unfolding model_payload_def own_payload_def initial_form_def Let_def or_empty_def
    by (simp only: option.case drawer_mode.distinct if_False simp_thms model_form.select_convs)
  then show ?thesis by (simp add: handleFinish_def)
qed

definition sample_model :: Model where
  "sample_model = \<lparr>md_id = 7, md_name = ''qwen3'', md_display_name = ''Qwen3'', md_description = [], md_family = ''qwen'',
     md_runtime = ''vllm'', md_image = ''i'', md_source = ''huggingface'', md_source_ref = ''Qwen/Qwen3'',
     md_hf_endpoint = [], md_oci_url = [], md_local_path = [], md_default_args = json_stringify (jstrs [''--x'']),
     md_recommended_gpu = gpu_text \<lparr>gf_count = Some (JNum 1), gf_memory = None, gf_model = Some (JStr ''any'')\<rparr>,
     md_license = ''mit'', md_is_builtin = False, md_sort_order = 0\<rparr>"

lemma model_edit_roundtrip_witness:
  "let g = \<lparr>gf_count = Some (JNum 1), gf_memory = None, gf_model = Some (JStr ''any'')\<rparr>;
       parse = (\<lambda>t. if t = json_stringify (jstrs [''--x'']) then Some (jstrs [''--x''])
                    else Some (JObj (gpu_object g)))
   in handleFinish Edit (Some sample_model) (initial_form parse Edit (Some sample_model)) =
     updateModel 7 (own_payload sample_model)"
proof -
  let ?g = "\<lparr>gf_count = Some (JNum 1), gf_memory = None, gf_model = Some (JStr ''any'')\<rparr>"
  let ?parse = "\<lambda>t. if t = json_stringify (jstrs [''--x'']) then Some (jstrs [''--x'']) else Some (JObj (gpu_object ?g))"
  have "own_fields_only sample_model" by (simp add: own_fields_only_def sample_model_def MODEL_SOURCES_def)
  moreover have "md_default_args sample_model = json_stringify (jstrs [''--x''])" by (simp add: sample_model_def)
  moreover have "list_all clean_line [''--x'']" by (simp add: clean_line_def trim_def is_ws_def)
  moreover have "md_recommended_gpu sample_model = gpu_text ?g" by (simp add: sample_model_def)
  moreover have "proper_gpu ?g" by (simp add: proper_gpu_def positive_value_def)
  moreover have "json_stringify (JObj (gpu_object ?g)) \<noteq> json_stringify (jstrs [''--x''])" by (simp add: jstrs_def)
  ultimately show ?thesis
    using model_edit_roundtrip[of sample_model "[''--x'']" ?g ?parse] by (simp add: sample_model_def)
qed

section \<open>The catalog page\<close>

record catalog_filter =
  cf_query :: string
  cf_license :: string
  cf_runtime :: string

definition hay :: "Model \<Rightarrow> string" where
  "hay m = to_lower (join '' '' [md_name m, md_display_name m, md_source_ref m, md_oci_url m, md_local_path m, md_description m])"

definition shown_models :: "catalog_filter \<Rightarrow> Model list \<Rightarrow> Model list" where
  "shown_models f rows =
    (let q = to_lower (trim (cf_query f));
         r1 = (if q \<noteq> [] then filter (\<lambda>m. str_includes q (hay m)) rows else rows);
         r2 = (if cf_license f \<noteq> [] then filter (\<lambda>m. md_license m = cf_license f) r1 else r1)
     in if cf_runtime f \<noteq> [] then filter (\<lambda>m. md_runtime m = cf_runtime f) r2 else r2)"

text \<open>The comparator: built-ins first, then sort_order, then the name shown.\<close>

definition model_rank :: "(string \<Rightarrow> 'k::linorder) \<Rightarrow> Model \<Rightarrow> bool \<times> rat \<times> 'k" where
  "model_rank collate m = (\<not> md_is_builtin m, md_sort_order m, collate (md_display_name m))"

definition put_bucket :: "Model \<Rightarrow> (string \<times> Model list) list \<Rightarrow> (string \<times> Model list) list" where
  "put_bucket m b =
    (case map_of b (md_family m) of
       Some arr \<Rightarrow> AList.update (md_family m) (arr @ [m]) b
     | None \<Rightarrow> AList.update ''custom'' ((case map_of b ''custom'' of None \<Rightarrow> [] | Some xs \<Rightarrow> xs) @ [m]) b)"

definition grouped :: "(string \<Rightarrow> 'k::linorder) \<Rightarrow> catalog_filter \<Rightarrow> Model list \<Rightarrow> (string \<times> Model list) list" where
  "grouped collate f rows =
    fold put_bucket (sort_key (model_rank collate) (shown_models f rows)) (map (\<lambda>k. (k, [])) MODEL_FAMILIES)"

definition totalAfterFilter :: "(string \<times> Model list) list \<Rightarrow> nat" where
  "totalAfterFilter b = sum_list (map (\<lambda>(_, xs). length xs) b)"

definition collapse_items :: "(string \<times> Model list) list \<Rightarrow> (string \<times> Model list) list" where
  "collapse_items b = filter (\<lambda>(_, xs). xs \<noteq> []) (map (\<lambda>k. (k, case map_of b k of None \<Rightarrow> [] | Some xs \<Rightarrow> xs)) MODEL_FAMILIES)"

definition licenseOptions :: "Model list \<Rightarrow> string list" where
  "licenseOptions rows = sort_units (nub (filter (\<lambda>l. l \<noteq> []) (map md_license rows)))"

definition section_of :: "Model \<Rightarrow> string" where
  "section_of m = (if md_family m \<in> set MODEL_FAMILIES then md_family m else ''custom'')"

lemma put_bucket_map:
  assumes "distinct ks" "''custom'' \<in> set ks"
  shows "put_bucket m (map (\<lambda>k. (k, h k)) ks) =
    map (\<lambda>k. (k, if k = (if md_family m \<in> set ks then md_family m else ''custom'') then h k @ [m] else h k)) ks"
proof -
  have look: "map_of (map (\<lambda>k. (k, h k)) ks) k = (if k \<in> set ks then Some (h k) else None)" for k
    by (induction ks) auto
  have upd: "AList.update a v (map (\<lambda>k. (k, h k)) ks) = map (\<lambda>k. (k, if k = a then v else h k)) ks"
    if "a \<in> set ks" for a v
    using that assms(1) by (induction ks) auto
  show ?thesis using assms(2) by (auto simp: put_bucket_def look upd)
qed

lemma fold_put_bucket:
  "fold put_bucket ms (map (\<lambda>k. (k, h k)) MODEL_FAMILIES) =
    map (\<lambda>k. (k, h k @ filter (\<lambda>m. section_of m = k) ms)) MODEL_FAMILIES"
proof (induction ms arbitrary: h)
  case (Cons m ms)
  have fam: "distinct MODEL_FAMILIES" "''custom'' \<in> set MODEL_FAMILIES" by (simp_all add: MODEL_FAMILIES_def)
  have "fold put_bucket (m # ms) (map (\<lambda>k. (k, h k)) MODEL_FAMILIES) =
    fold put_bucket ms (map (\<lambda>k. (k, (\<lambda>k. if k = section_of m then h k @ [m] else h k) k)) MODEL_FAMILIES)"
    by (simp add: put_bucket_map[OF fam] section_of_def)
  then show ?case unfolding Cons.IH by auto
qed simp

lemma grouped_sections:
  "grouped collate f rows = map (\<lambda>k. (k, filter (\<lambda>m. section_of m = k) (sort_key (model_rank collate) (shown_models f rows)))) MODEL_FAMILIES"
  using fold_put_bucket[of "sort_key (model_rank collate) (shown_models f rows)" "\<lambda>_. []"]
  by (simp add: grouped_def)

lemma mset_parts:
  "distinct ks \<Longrightarrow> \<forall>x \<in> set xs. g x \<in> set ks \<Longrightarrow> mset (concat (map (\<lambda>k. filter (\<lambda>x. g x = k) xs) ks)) = mset xs"
proof (induction xs)
  case (Cons x xs)
  have "mset (concat (map (\<lambda>k. filter (\<lambda>y. g y = k) (x # xs)) ks)) =
    mset (concat (map (\<lambda>k. filter (\<lambda>y. g y = k) xs) ks)) + (if g x \<in> set ks then {#x#} else {#})"
    using Cons.prems(1) by (induction ks) auto
  then show ?case using Cons by simp
qed (simp add: map_replicate_const)

lemma section_of_families: "section_of m \<in> set MODEL_FAMILIES"
  by (simp add: section_of_def MODEL_FAMILIES_def)

text \<open>The catalog shows every model that the filters let through exactly once: the
  sections follow the curated order of families, a model of an unknown family is shown
  under custom, within a section built-ins come first, then sort_order, then the
  name, and the count in the toolbar is the number of models shown.\<close>

theorem catalog_sections_partition:
  fixes collate :: "string \<Rightarrow> 'k::linorder"
  shows "let secs = collapse_items (grouped collate f rows) in
    mset (concat (map snd secs)) = mset (shown_models f rows) \<and>
    totalAfterFilter (grouped collate f rows) = length (shown_models f rows) \<and>
    map fst secs = filter (\<lambda>k. k \<in> section_of ` set (shown_models f rows)) MODEL_FAMILIES \<and>
    list_all (\<lambda>(k, ms). list_all (\<lambda>m. section_of m = k) ms \<and> sorted (map (model_rank collate) ms)) secs"
proof -
  define ms where "ms = sort_key (model_rank collate) (shown_models f rows)"
  define sec where "sec k = filter (\<lambda>m. section_of m = k) ms" for k
  have g: "grouped collate f rows = map (\<lambda>k. (k, sec k)) MODEL_FAMILIES"
    by (simp add: grouped_sections ms_def sec_def)
  have look: "map_of (map (\<lambda>k. (k, sec k)) ks) k = (if k \<in> set ks then Some (sec k) else None)" for k ks
    by (induction ks) auto
  have c: "collapse_items (grouped collate f rows) = filter (\<lambda>(_, xs). xs \<noteq> []) (map (\<lambda>k. (k, sec k)) MODEL_FAMILIES)"
    unfolding collapse_items_def g look by (intro arg_cong[where f = "filter _"] map_cong) auto
  have fam: "distinct MODEL_FAMILIES" by (simp add: MODEL_FAMILIES_def)
  have set_ms: "set ms = set (shown_models f rows)" "mset ms = mset (shown_models f rows)" "sorted (map (model_rank collate) ms)"
    by (simp_all add: ms_def)
  have cc: "concat (map snd (filter (\<lambda>(_, xs). xs \<noteq> []) ps)) = concat (map snd ps)" for ps :: "(string \<times> Model list) list"
    by (induction ps) auto
  have "mset (concat (map sec MODEL_FAMILIES)) = mset ms"
    unfolding sec_def by (rule mset_parts[OF fam]) (simp add: section_of_families)
  then have m: "mset (concat (map snd (collapse_items (grouped collate f rows)))) = mset (shown_models f rows)"
    using set_ms by (simp add: c cc comp_def)
  have "length (concat (map sec MODEL_FAMILIES)) = length (shown_models f rows)"
    using \<open>mset (concat (map sec MODEL_FAMILIES)) = mset ms\<close> set_ms(2) by (metis size_mset)
  then have t: "totalAfterFilter (grouped collate f rows) = length (shown_models f rows)"
    by (simp add: totalAfterFilter_def g length_concat comp_def)
  have "(sec k \<noteq> []) = (k \<in> section_of ` set (shown_models f rows))" for k
    unfolding sec_def filter_empty_conv set_ms(1)[symmetric] by auto
  then have k: "map fst (collapse_items (grouped collate f rows)) =
    filter (\<lambda>k. k \<in> section_of ` set (shown_models f rows)) MODEL_FAMILIES"
    by (simp add: c filter_map comp_def)
  have "sorted (map (model_rank collate) (sec k))" for k
    unfolding sec_def using set_ms(3) by (rule sorted_filter)
  then show ?thesis
    using m t k by (auto simp: c sec_def list_all_iff)
qed

subsection \<open>Cards and drawers\<close>

definition source_line :: "Model \<Rightarrow> string option" where
  "source_line m =
    (let src = (if md_source m = [] then ''huggingface'' else md_source m);
         v = (if src = ''local_path'' then md_local_path m else if src = ''oci'' then md_oci_url m else md_source_ref m)
     in if v = [] then None else Some v)"

text \<open>The multiplication sign in UTF-8.\<close>

definition times_sign :: string where
  "times_sign = [CHR 0xC3, CHR 0x97]"

definition gpuLabel :: "(string \<Rightarrow> json option) \<Rightarrow> Model \<Rightarrow> string" where
  "gpuLabel parse m =
    (if md_recommended_gpu m = [] then []
     else case parse (md_recommended_gpu m) of
       None \<Rightarrow> []
     | Some JNull \<Rightarrow> []
     | Some g \<Rightarrow>
         let part = (\<lambda>k u. if truthy (jget k g) then [js_String (the (jget k g)) @ u] else []);
             head = join '' '' (part ''count'' times_sign @ part ''memoryGiB'' ''G'');
             md = jget ''model'' g
         in head @ (if truthy md \<and> md \<noteq> Some (JStr ''any'') then '' '' @ js_String (the md) else []))"

record model_hub =
  mh_drawer :: "(drawer_mode \<times> Model option) option"
  mh_detail :: "Model option"
  mh_deploy :: "Model option"

datatype hub_act = OpenCreate | OpenEdit Model | OpenDuplicate Model | OpenDetail Model | OpenHubDeploy Model
  | CloseHubDrawer | CloseHubDetail | CloseHubDeploy

fun hub_step :: "hub_act \<Rightarrow> model_hub \<Rightarrow> model_hub" where
  "hub_step OpenCreate h = h\<lparr>mh_drawer := Some (Create, None)\<rparr>"
| "hub_step (OpenEdit m) h = h\<lparr>mh_drawer := Some (Edit, Some m), mh_detail := None\<rparr>"
| "hub_step (OpenDuplicate m) h = h\<lparr>mh_drawer := Some (Duplicate, Some m), mh_detail := None\<rparr>"
| "hub_step (OpenDetail m) h = h\<lparr>mh_detail := Some m\<rparr>"
| "hub_step (OpenHubDeploy m) h = h\<lparr>mh_deploy := Some m, mh_detail := None\<rparr>"
| "hub_step CloseHubDrawer h = h\<lparr>mh_drawer := None\<rparr>"
| "hub_step CloseHubDetail h = h\<lparr>mh_detail := None\<rparr>"
| "hub_step CloseHubDeploy h = h\<lparr>mh_deploy := None\<rparr>"

end
