(* ===== verification/ModelDeploy.thy ===== *)
theory ModelDeploy
  imports ModelCatalog Workload
begin

text \<open>
  pages/ModelHub/DeployDrawer.tsx, the drawer that deploys a catalog model, with its
  form, its preview of the manifests and its results, and the actions of
  pages/ModelDeployments/index.tsx, the table of deployed instances.

  form.validateFields resolves with the values of the mounted fields only, as the form
  library documents, so the fields of the other kind of source are missing from it;
  the length rules count bytes.
\<close>

section \<open>The form\<close>

record deploy_form =
  df_cluster_id :: string
  df_namespace :: string
  df_create_namespace :: bool
  df_instance :: string
  df_replicas :: "rat option"
  df_gpu_count :: "rat option"
  df_gpu_type :: string
  df_cpu_request :: string
  df_cpu_limit :: string
  df_memory_request :: string
  df_memory_limit :: string
  df_vgpu_memory_mib :: "rat option"
  df_vgpu_cores :: "rat option"
  df_registry_token :: string
  df_local_pvc_name :: string
  df_extra_args_text :: string
  df_pvc_enabled :: bool
  df_pvc_size_gib :: "rat option"
  df_pvc_storage_class_name :: string

definition pvcSizeForModel :: "Model \<Rightarrow> rat" where
  "pvcSizeForModel m =
    (let has = (\<lambda>p. str_includes p (md_name m))
     in if has ''0-6b'' then 5
        else if has ''8b'' \<or> has ''9b'' then 30
        else if has ''14b'' then 50
        else if has ''30b'' \<or> has ''32b'' then 100
        else if has ''70b'' then 200
        else if has ''scout'' then 250
        else if has ''phi-4'' then 40
        else if has ''gemma-4-31b'' then 80
        else if has ''glm-5'' then 1600
        else if has ''kimi-k2'' then 2000
        else if has ''r1'' then 1400
        else 100)"

text \<open>g.count of the parsed recommendation; a null value throws like a SyntaxError.\<close>

definition recommended_count :: "(string \<Rightarrow> json option) \<Rightarrow> Model \<Rightarrow> jval" where
  "recommended_count parse m =
    (case parse (md_recommended_gpu m) of
       None \<Rightarrow> Some (JNum 1)
     | Some g \<Rightarrow> orElse (oget ''count'' (Some g)) (Some (JNum 1)))"

definition deploy_defaults :: "(string \<Rightarrow> json option) \<Rightarrow> Model \<Rightarrow> deploy_form" where
  "deploy_defaults parse m =
    \<lparr>df_cluster_id = [], df_namespace = ''kpilot-inference'', df_create_namespace = True, df_instance = [],
     df_replicas = Some 1, df_gpu_count = as_num (recommended_count parse m), df_gpu_type = ''nvidia'',
     df_cpu_request = [], df_cpu_limit = [], df_memory_request = [], df_memory_limit = [],
     df_vgpu_memory_mib = None, df_vgpu_cores = None, df_registry_token = [], df_local_pvc_name = [],
     df_extra_args_text = [], df_pvc_enabled = True, df_pvc_size_gib = Some (pvcSizeForModel m),
     df_pvc_storage_class_name = []\<rparr>"

definition model_source :: "Model option \<Rightarrow> string" where
  "model_source model = (case model of None \<Rightarrow> ''huggingface''
     | Some m \<Rightarrow> if md_source m = [] then ''huggingface'' else md_source m)"

definition is_hub :: "string \<Rightarrow> bool" where
  "is_hub src \<longleftrightarrow> src = ''huggingface'' \<or> src = ''modelscope''"

definition num_or_null :: "rat option \<Rightarrow> json" where
  "num_or_null n = (case n of None \<Rightarrow> JNull | Some x \<Rightarrow> JNum x)"

definition pvc_payload :: "string \<Rightarrow> deploy_form \<Rightarrow> json" where
  "pvc_payload src v = JObj ([(''enabled'', JBool (is_hub src \<and> df_pvc_enabled v))] @
     prop_if (is_hub src) ''size_gib'' (num_or_null (df_pvc_size_gib v)) @
     prop_if (is_hub src \<and> df_pvc_storage_class_name v \<noteq> []) ''storage_class_name'' (JStr (df_pvc_storage_class_name v)))"

definition buildPayload :: "string \<Rightarrow> deploy_form \<Rightarrow> json" where
  "buildPayload src v =
    (let useVolcano = (df_gpu_type v = ''volcano'')
     in JObj ([(''cluster_id'', JStr (df_cluster_id v)), (''namespace'', JStr (df_namespace v)),
         (''create_namespace'', JBool (df_create_namespace v)), (''instance'', JStr (trim (df_instance v))),
         (''replicas'', num_or_null (df_replicas v)), (''gpu_count'', num_or_null (df_gpu_count v)),
         (''gpu_type'', JStr (df_gpu_type v))] @
        prop_str ''cpu_request'' (Some (trim (df_cpu_request v))) @
        prop_str ''cpu_limit'' (Some (trim (df_cpu_limit v))) @
        prop_str ''memory_request'' (Some (trim (df_memory_request v))) @
        prop_str ''memory_limit'' (Some (trim (df_memory_limit v))) @
        prop_num ''vgpu_memory_mib'' (\<lambda>x. useVolcano \<and> 0 < x) (df_vgpu_memory_mib v) @
        prop_num ''vgpu_cores'' (\<lambda>x. useVolcano \<and> 0 < x) (df_vgpu_cores v) @
        [(''registry_token'', JStr (if is_hub src then df_registry_token v else [])),
         (''local_pvc_name'', JStr (if is_hub src then [] else trim (df_local_pvc_name v))),
         (''extra_args'', jstrs (trimmed_lines (df_extra_args_text v))),
         (''pvc'', pvc_payload src v)]))"

subsection \<open>Validation\<close>

definition lower_alnum :: "char \<Rightarrow> bool" where
  "lower_alnum c = (is_digit c \<or> (let n = of_char c :: nat in 97 \<le> n \<and> n \<le> 122))"

text \<open>/^[a-z0-9]([-a-z0-9]*[a-z0-9])?$/\<close>

definition dns_label :: "string \<Rightarrow> bool" where
  "dns_label s \<longleftrightarrow> s \<noteq> [] \<and> list_all (\<lambda>c. lower_alnum c \<or> c = CHR ''-'') s \<and> lower_alnum (hd s) \<and> lower_alnum (last s)"

definition deploy_valid :: "string \<Rightarrow> deploy_form \<Rightarrow> bool" where
  "deploy_valid src v \<longleftrightarrow>
    df_cluster_id v \<noteq> [] \<and>
    dns_label (df_namespace v) \<and> length (df_namespace v) \<le> 63 \<and>
    (df_instance v = [] \<or> dns_label (df_instance v) \<and> length (df_instance v) \<le> 30) \<and>
    df_replicas v \<noteq> None \<and> df_gpu_count v \<noteq> None \<and>
    (if is_hub src then length (df_registry_token v) \<le> 200
     else (src = ''local_path'' \<longrightarrow> df_local_pvc_name v \<noteq> []) \<and>
       (df_local_pvc_name v = [] \<or> dns_label (df_local_pvc_name v) \<and> length (df_local_pvc_name v) \<le> 63))"

definition isFormReady :: "deploy_form \<Rightarrow> bool" where
  "isFormReady v \<longleftrightarrow> df_cluster_id v \<noteq> [] \<and> df_namespace v \<noteq> [] \<and>
    (\<exists>n. df_replicas v = Some n \<and> 0 < n) \<and> (\<exists>n. df_gpu_count v = Some n \<and> 0 \<le> n)"

section \<open>The drawer\<close>

record DeployApplyResult =
  ar_kind :: string
  ar_name :: string
  ar_success :: bool

record DeployResponse =
  dr_yaml :: string
  dr_results :: "DeployApplyResult list option"

datatype deploy_call = PreviewCall nat json | DeployCall nat json

datatype deploy_toast = PartialFailure | Deployed

record deploy_drawer =
  dd_open :: bool
  dd_model :: "Model option"
  dd_form :: deploy_form
  dd_yaml :: string
  dd_tab :: string
  dd_results :: "DeployApplyResult list option"
  dd_submitting :: bool
  dd_previewing :: bool
  dd_next :: nat
  dd_flights :: "(nat \<times> deploy_call) list"
  dd_toasts :: "deploy_toast list"

definition dd_init :: "deploy_form \<Rightarrow> deploy_drawer" where
  "dd_init v = \<lparr>dd_open = False, dd_model = None, dd_form = v, dd_yaml = [], dd_tab = ''config'', dd_results = None,
     dd_submitting = False, dd_previewing = False, dd_next = 0, dd_flights = [], dd_toasts = []\<rparr>"

definition open_deploy :: "(string \<Rightarrow> json option) \<Rightarrow> Model \<Rightarrow> deploy_drawer \<Rightarrow> deploy_drawer" where
  "open_deploy parse m s = s\<lparr>dd_open := True, dd_model := Some m, dd_form := deploy_defaults parse m,
     dd_yaml := [], dd_results := None, dd_tab := ''config''\<rparr>"

definition call_request :: "deploy_call \<Rightarrow> request" where
  "call_request c = (case c of PreviewCall n p \<Rightarrow> deployModel n p True | DeployCall n p \<Rightarrow> deployModel n p False)"

definition send_deploy :: "deploy_call \<Rightarrow> deploy_drawer \<Rightarrow> deploy_drawer" where
  "send_deploy c s = s\<lparr>dd_next := Suc (dd_next s), dd_flights := (dd_next s, c) # dd_flights s\<rparr>"

definition drawer_payload :: "deploy_drawer \<Rightarrow> json" where
  "drawer_payload s = buildPayload (model_source (dd_model s)) (dd_form s)"

definition drawer_valid :: "deploy_drawer \<Rightarrow> bool" where
  "drawer_valid s \<longleftrightarrow> deploy_valid (model_source (dd_model s)) (dd_form s)"

definition fetchPreview :: "deploy_drawer \<Rightarrow> deploy_drawer" where
  "fetchPreview s =
    (case dd_model s of
       None \<Rightarrow> s
     | Some m \<Rightarrow> if drawer_valid s then send_deploy (PreviewCall (md_id m) (drawer_payload s)) (s\<lparr>dd_previewing := True\<rparr>)
                 else s)"

definition handleTabChange :: "string \<Rightarrow> deploy_drawer \<Rightarrow> deploy_drawer" where
  "handleTabChange key s =
    (let s1 = s\<lparr>dd_tab := key\<rparr>
     in if key = ''preview'' \<and> dd_yaml s = [] \<and> dd_model s \<noteq> None \<and> isFormReady (dd_form s)
        then fetchPreview s1 else s1)"

text \<open>The button is disabled while the form is not ready and takes no click while it spins.\<close>

definition handleDeploy :: "deploy_drawer \<Rightarrow> deploy_drawer" where
  "handleDeploy s =
    (case dd_model s of
       None \<Rightarrow> s
     | Some m \<Rightarrow>
         if isFormReady (dd_form s) \<and> \<not> dd_submitting s \<and> drawer_valid s
         then send_deploy (DeployCall (md_id m) (drawer_payload s)) (s\<lparr>dd_submitting := True\<rparr>)
         else s)"

definition edit_form :: "deploy_form \<Rightarrow> deploy_drawer \<Rightarrow> deploy_drawer" where
  "edit_form v s = s\<lparr>dd_form := v, dd_yaml := []\<rparr>"

definition land_preview :: "DeployResponse option \<Rightarrow> deploy_drawer \<Rightarrow> deploy_drawer" where
  "land_preview r s = (case r of None \<Rightarrow> s | Some x \<Rightarrow> s\<lparr>dd_yaml := dr_yaml x\<rparr>)\<lparr>dd_previewing := False\<rparr>"

definition land_deploy :: "DeployResponse option \<Rightarrow> deploy_drawer \<Rightarrow> deploy_drawer" where
  "land_deploy r s =
    (case r of
       None \<Rightarrow> s
     | Some x \<Rightarrow>
         let rs = (case dr_results x of None \<Rightarrow> [] | Some l \<Rightarrow> l)
         in s\<lparr>dd_yaml := dr_yaml x, dd_results := Some rs, dd_tab := ''result'',
              dd_toasts := (if list_ex (\<lambda>a. \<not> ar_success a) rs then PartialFailure else Deployed) # dd_toasts s\<rparr>)
    \<lparr>dd_submitting := False\<rparr>"

definition land_call :: "nat \<Rightarrow> DeployResponse option \<Rightarrow> deploy_drawer \<Rightarrow> deploy_drawer" where
  "land_call n r s =
    (let s1 = s\<lparr>dd_flights := AList.delete n (dd_flights s)\<rparr>
     in case map_of (dd_flights s) n of
          None \<Rightarrow> s
        | Some (PreviewCall _ _) \<Rightarrow> land_preview r s1
        | Some (DeployCall _ _) \<Rightarrow> land_deploy r s1)"

definition tab_keys :: "deploy_drawer \<Rightarrow> string list" where
  "tab_keys s = [''config'', ''preview''] @ (case dd_results s of None \<Rightarrow> [] | Some _ \<Rightarrow> [''result''])"

datatype deploy_act =
    OpenDeploy Model
  | CloseDeploy
  | EditDeploy deploy_form
  | ClickTab string
  | ClickDeploy
  | DeployAnswer nat "DeployResponse option"

text \<open>The controls of a closed drawer and a tab that is not there cannot be used.\<close>

fun deploy_step :: "(string \<Rightarrow> json option) \<Rightarrow> deploy_act \<Rightarrow> deploy_drawer \<Rightarrow> deploy_drawer" where
  "deploy_step parse (OpenDeploy m) s = open_deploy parse m s"
| "deploy_step parse CloseDeploy s = s\<lparr>dd_open := False\<rparr>"
| "deploy_step parse (EditDeploy v) s = (if dd_open s then edit_form v s else s)"
| "deploy_step parse (ClickTab key) s = (if dd_open s \<and> key \<in> set (tab_keys s) then handleTabChange key s else s)"
| "deploy_step parse ClickDeploy s = (if dd_open s then handleDeploy s else s)"
| "deploy_step parse (DeployAnswer n r) s = land_call n r s"

datatype preview_view = FillFields | Loading | Yaml string

definition preview_view :: "deploy_drawer \<Rightarrow> preview_view" where
  "preview_view s = (if \<not> isFormReady (dd_form s) then FillFields
     else if dd_previewing s \<and> dd_yaml s = [] then Loading else Yaml (dd_yaml s))"

section \<open>What the drawer shows\<close>

definition deploys :: "deploy_drawer \<Rightarrow> nat list" where
  "deploys s = map fst (filter (\<lambda>(_, c). \<exists>n p. c = DeployCall n p) (dd_flights s))"

text \<open>The tab shown exists, the button spins exactly while a deployment is under way,
  there is at most one of them, and numbers of calls are fresh.\<close>

definition deploy_ok :: "deploy_drawer \<Rightarrow> bool" where
  "deploy_ok s \<longleftrightarrow> dd_tab s \<in> set (tab_keys s) \<and> length (deploys s) = (if dd_submitting s then 1 else 0) \<and>
    distinct (map fst (dd_flights s)) \<and> (\<forall>n \<in> set (map fst (dd_flights s)). n < dd_next s)"

lemma deploys_delete:
  "map_of fs n = Some c \<Longrightarrow> distinct (map fst fs) \<Longrightarrow>
   length (filter (\<lambda>(_, c). \<exists>n p. c = DeployCall n p) (AList.delete n fs)) +
     (case c of DeployCall _ _ \<Rightarrow> 1 | _ \<Rightarrow> 0) =
   length (filter (\<lambda>(_, c). \<exists>n p. c = DeployCall n p) fs)"
proof (induction fs)
  case (Cons x fs)
  show ?case
  proof (cases "fst x = n")
    case True
    then have "AList.delete n fs = fs" using Cons.prems(2) by (auto simp: delete_notin_dom)
    then show ?thesis using True Cons.prems(1) by (cases x) (auto simp: delete_conv split: deploy_call.splits)
  next
    case False
    then show ?thesis using Cons by (cases x) auto
  qed
qed simp

lemma deploy_ok_send:
  "deploy_ok s \<Longrightarrow> deploy_ok (send_deploy (PreviewCall n p) (s\<lparr>dd_previewing := b\<rparr>))"
  "deploy_ok s \<Longrightarrow> \<not> dd_submitting s \<Longrightarrow> deploy_ok (send_deploy (DeployCall n p) (s\<lparr>dd_submitting := True\<rparr>))"
  by (auto simp: deploy_ok_def send_deploy_def deploys_def tab_keys_def)

lemma deploy_ok_tab: "deploy_ok s \<Longrightarrow> key \<in> set (tab_keys s) \<Longrightarrow> deploy_ok (s\<lparr>dd_tab := key\<rparr>)"
  by (simp add: deploy_ok_def deploys_def tab_keys_def)

lemma deploy_ok_land:
  assumes "deploy_ok s"
  shows "deploy_ok (land_call n r s)"
proof (cases "map_of (dd_flights s) n")
  case None
  then show ?thesis using assms by (simp add: land_call_def Let_def)
next
  case (Some c)
  let ?fs = "AList.delete n (dd_flights s)"
  have d: "distinct (map fst ?fs)" "set (map fst ?fs) \<subseteq> set (map fst (dd_flights s))"
    using assms by (auto simp: deploy_ok_def delete_keys distinct_removeAll)
  have k: "length (filter (\<lambda>(_, c). \<exists>n p. c = DeployCall n p) ?fs) + (case c of DeployCall _ _ \<Rightarrow> 1 | _ \<Rightarrow> 0) =
      (if dd_submitting s then 1 else 0)"
    using deploys_delete[OF Some] assms by (simp add: deploy_ok_def deploys_def)
  have tab: "dd_tab s \<in> set (tab_keys s)" using assms by (simp add: deploy_ok_def)
  have new: "\<forall>i \<in> set (map fst ?fs). i < dd_next s" using d(2) assms unfolding deploy_ok_def by blast
  show ?thesis
  proof (cases c)
    case (PreviewCall m p)
    then have "length (filter (\<lambda>(_, c). \<exists>n p. c = DeployCall n p) ?fs) = (if dd_submitting s then 1 else 0)" using k by simp
    then show ?thesis using Some PreviewCall d(1) new tab
      by (cases r) (simp_all add: land_call_def land_preview_def deploy_ok_def deploys_def tab_keys_def Let_def)
  next
    case (DeployCall m p)
    then have none: "filter (\<lambda>(_, c). \<exists>n p. c = DeployCall n p) ?fs = []" using k by (simp split: if_splits)
    show ?thesis
    proof (cases r)
      case None
      then show ?thesis using Some DeployCall d(1) new none tab
        by (simp add: land_call_def land_deploy_def deploy_ok_def deploys_def tab_keys_def Let_def)
    next
      case (Some x)
      then show ?thesis using \<open>map_of (dd_flights s) n = Some c\<close> DeployCall d(1) new none
        by (simp add: land_call_def land_deploy_def deploy_ok_def deploys_def tab_keys_def Let_def)
    qed
  qed
qed

lemma deploy_ok_step: "deploy_ok s \<Longrightarrow> deploy_ok (deploy_step parse a s)"
proof (cases a)
  case (ClickTab key)
  then show "deploy_ok s \<Longrightarrow> ?thesis"
    by (auto simp: handleTabChange_def fetchPreview_def Let_def intro!: deploy_ok_send deploy_ok_tab split: option.splits)
next
  case (DeployAnswer n r)
  then show "deploy_ok s \<Longrightarrow> ?thesis" by (simp add: deploy_ok_land)
next
  case ClickDeploy
  then show "deploy_ok s \<Longrightarrow> ?thesis"
    by (auto simp: handleDeploy_def intro!: deploy_ok_send split: option.splits)
qed (auto simp: deploy_ok_def open_deploy_def edit_form_def deploys_def tab_keys_def)

text \<open>Whatever the user does and in whatever order the answers come, the drawer never
  deploys twice at once, its button spins exactly while a deployment is under way, and
  the tab it shows exists.\<close>

theorem deploy_drawer_consistent: "deploy_ok (fold (deploy_step parse) acts (dd_init v))"
proof -
  have "deploy_ok (fold (deploy_step parse) acts s)" if "deploy_ok s" for s
    using that by (induction acts arbitrary: s) (simp_all add: deploy_ok_step)
  then show ?thesis by (simp add: deploy_ok_def dd_init_def deploys_def tab_keys_def)
qed

subsection \<open>The preview\<close>

text \<open>gen is the text the server renders for a model and a payload.  A quiet run: the form
  is edited and the drawer opened only while no call is under way, and the server
  answers what was asked.\<close>

definition honest :: "(nat \<Rightarrow> json \<Rightarrow> string) \<Rightarrow> deploy_drawer \<Rightarrow> deploy_act \<Rightarrow> bool" where
  "honest gen s a =
    (case a of
       OpenDeploy _ \<Rightarrow> dd_flights s = []
     | EditDeploy _ \<Rightarrow> dd_flights s = []
     | DeployAnswer n (Some r) \<Rightarrow>
         (case map_of (dd_flights s) n of
            Some (PreviewCall m p) \<Rightarrow> dr_yaml r = gen m p
          | Some (DeployCall m p) \<Rightarrow> dr_yaml r = gen m p
          | None \<Rightarrow> True)
     | _ \<Rightarrow> True)"

inductive quiet_run :: "(string \<Rightarrow> json option) \<Rightarrow> (nat \<Rightarrow> json \<Rightarrow> string) \<Rightarrow> deploy_drawer \<Rightarrow> bool"
  for parse :: "string \<Rightarrow> json option" and gen :: "nat \<Rightarrow> json \<Rightarrow> string" where
  start: "quiet_run parse gen (dd_init v)"
| act: "quiet_run parse gen s \<Longrightarrow> honest gen s a \<Longrightarrow> quiet_run parse gen (deploy_step parse a s)"

definition call_current :: "deploy_drawer \<Rightarrow> deploy_call \<Rightarrow> bool" where
  "call_current s c \<longleftrightarrow> (\<exists>m. dd_model s = Some m \<and>
     (c = PreviewCall (md_id m) (drawer_payload s) \<or> c = DeployCall (md_id m) (drawer_payload s)))"

definition preview_current :: "(nat \<Rightarrow> json \<Rightarrow> string) \<Rightarrow> deploy_drawer \<Rightarrow> bool" where
  "preview_current gen s \<longleftrightarrow>
     (\<forall>c \<in> set (map snd (dd_flights s)). call_current s c) \<and>
     (dd_yaml s = [] \<or> (\<exists>m. dd_model s = Some m \<and> dd_yaml s = gen (md_id m) (drawer_payload s)))"

lemma current_frame [simp]:
  "call_current (s\<lparr>dd_tab := k\<rparr>) c = call_current s c"
  "call_current (s\<lparr>dd_previewing := b\<rparr>) c = call_current s c"
  "call_current (s\<lparr>dd_submitting := b\<rparr>) c = call_current s c"
  "call_current (s\<lparr>dd_flights := fs\<rparr>) c = call_current s c"
  "call_current (s\<lparr>dd_next := n\<rparr>) c = call_current s c"
  "call_current (s\<lparr>dd_yaml := y\<rparr>) c = call_current s c"
  "call_current (s\<lparr>dd_results := rs\<rparr>) c = call_current s c"
  "call_current (s\<lparr>dd_toasts := ts\<rparr>) c = call_current s c"
  "call_current (s\<lparr>dd_open := b\<rparr>) c = call_current s c"
  by (simp_all add: call_current_def drawer_payload_def)

lemma payload_frame [simp]:
  "drawer_payload (s\<lparr>dd_tab := k\<rparr>) = drawer_payload s"
  "drawer_payload (s\<lparr>dd_previewing := b\<rparr>) = drawer_payload s"
  "drawer_payload (s\<lparr>dd_submitting := b\<rparr>) = drawer_payload s"
  "drawer_payload (s\<lparr>dd_flights := fs\<rparr>) = drawer_payload s"
  "drawer_payload (s\<lparr>dd_next := n\<rparr>) = drawer_payload s"
  "drawer_payload (s\<lparr>dd_yaml := y\<rparr>) = drawer_payload s"
  "drawer_payload (s\<lparr>dd_results := rs\<rparr>) = drawer_payload s"
  "drawer_payload (s\<lparr>dd_toasts := ts\<rparr>) = drawer_payload s"
  "drawer_payload (s\<lparr>dd_open := b\<rparr>) = drawer_payload s"
  by (simp_all add: drawer_payload_def)

lemma preview_current_land:
  assumes s: "preview_current gen s" and h: "honest gen s (DeployAnswer n r)"
  shows "preview_current gen (land_call n r s)"
proof (cases "map_of (dd_flights s) n")
  case None
  then show ?thesis using s by (simp add: land_call_def Let_def)
next
  case (Some c)
  have "c \<in> set (map snd (dd_flights s))" using map_of_SomeD[OF Some] by force
  then have c: "call_current s c" using s by (auto simp: preview_current_def)
  have d: "\<forall>c \<in> set (map snd (AList.delete n (dd_flights s))). call_current s c"
    using s by (auto simp: preview_current_def AList.delete_eq)
  show ?thesis
  proof (cases r)
    case None
    then show ?thesis using Some s d
      by (auto simp: land_call_def land_preview_def land_deploy_def preview_current_def Let_def split: deploy_call.splits)
  next
    case (Some x)
    then show ?thesis using \<open>map_of (dd_flights s) n = Some c\<close> s d c h
      by (auto simp: land_call_def land_preview_def land_deploy_def preview_current_def Let_def honest_def
          call_current_def[of s c] split: deploy_call.splits)
  qed
qed

lemma preview_current_step:
  assumes s: "preview_current gen s" and h: "honest gen s a"
  shows "preview_current gen (deploy_step parse a s)"
proof (cases a)
  case (OpenDeploy m)
  then show ?thesis using h by (simp add: honest_def preview_current_def open_deploy_def)
next
  case (EditDeploy v)
  then show ?thesis using h s by (simp add: honest_def preview_current_def edit_form_def)
next
  case (ClickTab key)
  have "call_current s (PreviewCall (md_id m) (drawer_payload s))" if "dd_model s = Some m" for m
    using that by (simp add: call_current_def)
  then show ?thesis using ClickTab s
    by (auto simp: handleTabChange_def fetchPreview_def send_deploy_def preview_current_def Let_def split: option.splits)
next
  case ClickDeploy
  have "call_current s (DeployCall (md_id m) (drawer_payload s))" if "dd_model s = Some m" for m
    using that by (simp add: call_current_def)
  then show ?thesis using ClickDeploy s
    by (auto simp: handleDeploy_def send_deploy_def preview_current_def Let_def split: option.splits)
next
  case (DeployAnswer n r)
  then show ?thesis using preview_current_land[OF s] h by simp
qed (use s in \<open>simp add: preview_current_def\<close>)

text \<open>What the preview tab shows is what would be deployed: after any quiet run the YAML
  on screen is the server's rendering of the very payload that the form now builds for
  the model in the drawer.\<close>

theorem preview_shows_current_form:
  assumes "quiet_run parse gen s" "dd_yaml s \<noteq> []"
  shows "\<exists>m. dd_model s = Some m \<and> dd_yaml s = gen (md_id m) (buildPayload (model_source (Some m)) (dd_form s))"
proof -
  have "preview_current gen s"
    using assms(1)
  proof (induction rule: quiet_run.induct)
    case (start v)
    show ?case by (simp add: preview_current_def dd_init_def)
  next
    case (act s a)
    then show ?case by (simp add: preview_current_step)
  qed
  then show ?thesis using assms(2) by (auto simp: preview_current_def drawer_payload_def)
qed

definition ready_form :: deploy_form where
  "ready_form = (deploy_defaults (\<lambda>_. None) sample_model)\<lparr>df_cluster_id := ''c1''\<rparr>"

lemma ready_form_ok [simp]: "isFormReady ready_form" "deploy_valid src ready_form \<longleftrightarrow> src \<noteq> ''local_path''"
  by (auto simp: isFormReady_def deploy_valid_def ready_form_def deploy_defaults_def recommended_count_def
      dns_label_def lower_alnum_def is_digit_def is_hub_def)

lemma preview_shows_current_form_witness:
  "let s = fold (deploy_step (\<lambda>_. None))
         [OpenDeploy sample_model, EditDeploy ready_form, ClickTab ''preview'',
          DeployAnswer 0 (Some \<lparr>dr_yaml = ''kind: Deployment'', dr_results = None\<rparr>)] (dd_init ready_form)
   in dd_yaml s = ''kind: Deployment'' \<and>
      (\<exists>m. dd_model s = Some m \<and>
         dd_yaml s = (\<lambda>n p. ''kind: Deployment'') (md_id m) (buildPayload (model_source (Some m)) (dd_form s)))"
proof -
  let ?parse = "\<lambda>_ :: string. None :: json option" and ?gen = "\<lambda>(n :: nat) (p :: json). ''kind: Deployment''"
  let ?s1 = "deploy_step ?parse (OpenDeploy sample_model) (dd_init ready_form)"
  let ?s2 = "deploy_step ?parse (EditDeploy ready_form) ?s1"
  let ?s3 = "deploy_step ?parse (ClickTab ''preview'') ?s2"
  let ?r = "\<lparr>dr_yaml = ''kind: Deployment'', dr_results = None\<rparr>"
  let ?s4 = "deploy_step ?parse (DeployAnswer 0 (Some ?r)) ?s3"
  have src: "model_source (Some sample_model) = ''huggingface''" by (simp add: model_source_def sample_model_def)
  have s2: "?s2 = (dd_init ready_form)\<lparr>dd_open := True, dd_model := Some sample_model, dd_form := ready_form\<rparr>"
    by (simp add: open_deploy_def edit_form_def dd_init_def)
  have s3: "?s3 = ?s2\<lparr>dd_tab := ''preview'', dd_previewing := True, dd_next := 1,
      dd_flights := [(0, PreviewCall 7 (buildPayload ''huggingface'' ready_form))]\<rparr>"
    unfolding s2 by (simp add: tab_keys_def dd_init_def handleTabChange_def fetchPreview_def drawer_valid_def
        send_deploy_def drawer_payload_def src Let_def) (simp add: sample_model_def)
  have "quiet_run ?parse ?gen ?s2"
    by (intro quiet_run.intros) (simp_all add: honest_def dd_init_def open_deploy_def)
  then have "quiet_run ?parse ?gen ?s3" by (rule quiet_run.act) (simp add: honest_def)
  then have q: "quiet_run ?parse ?gen ?s4"
    by (rule quiet_run.act) (simp add: honest_def split: option.splits deploy_call.splits)
  have y: "dd_yaml ?s4 = ''kind: Deployment''"
    unfolding s3 by (simp add: land_call_def land_preview_def Let_def)
  have "\<exists>m. dd_model ?s4 = Some m \<and> dd_yaml ?s4 = ?gen (md_id m) (buildPayload (model_source (Some m)) (dd_form ?s4))"
    by (rule preview_shows_current_form[OF q]) (simp only: y, simp)
  with y show ?thesis unfolding Let_def fold.simps comp_def id_def by blast
qed

text \<open>Without quiet: a form edited while a preview is being rendered shows the manifests of
  the form before the edit, and going back to the tab does not fetch them again.\<close>

theorem edit_during_preview_is_ignored:
  assumes "dd_open s" "dd_model s = Some m" "dd_yaml s = []" "isFormReady (dd_form s)" "drawer_valid s"
    "dd_flights s = []" "y \<noteq> []"
  shows "let t = fold (deploy_step parse) [ClickTab ''preview'', ClickTab ''config'', EditDeploy v,
      DeployAnswer (dd_next s) (Some \<lparr>dr_yaml = y, dr_results = None\<rparr>), ClickTab ''preview''] s
    in dd_form t = v \<and> dd_yaml t = y \<and> dd_flights t = [] \<and> dd_tab t = ''preview''"
  using assms
  by (simp add: Let_def handleTabChange_def fetchPreview_def drawer_valid_def send_deploy_def edit_form_def
      land_call_def land_preview_def tab_keys_def)

text \<open>A deployment that ends after the drawer was opened on another model shows its
  results there.\<close>

theorem results_reach_next_model:
  assumes "dd_open s" "dd_model s = Some m" "isFormReady (dd_form s)" "drawer_valid s" "\<not> dd_submitting s" "dd_flights s = []"
  shows "let t = fold (deploy_step parse) [ClickDeploy, CloseDeploy, OpenDeploy m2,
      DeployAnswer (dd_next s) (Some \<lparr>dr_yaml = y, dr_results = Some rs\<rparr>)] s
    in dd_model t = Some m2 \<and> dd_results t = Some rs \<and> dd_tab t = ''result'' \<and> dd_open t"
  using assms
  by (simp add: Let_def handleDeploy_def drawer_valid_def send_deploy_def open_deploy_def land_call_def land_deploy_def)

section \<open>The deployments page\<close>

text \<open>A failed request as the handler reads it.\<close>

record request_error =
  er_response_status :: jval
  er_status :: jval
  er_info_status :: jval
  er_message :: jval

definition error_status :: "request_error \<Rightarrow> jval" where
  "error_status e = coalesce (coalesce (er_response_status e) (er_status e)) (er_info_status e)"

text \<open>The four deletions, in order.\<close>

definition delete_targets :: "string \<Rightarrow> (string \<times> string) list" where
  "delete_targets name = [(''deployments'', name), (''services'', name),
     (''persistentvolumeclaims'', name @ ''-hf-cache''), (''secrets'', name @ ''-hf'')]"

definition delete_requests :: "ModelInstance \<Rightarrow> request list" where
  "delete_requests row = map (\<lambda>(type, name). deleteWorkload (mi_cluster_id row) type name (mi_namespace row) None)
     (delete_targets (mi_name row))"

definition tryDelete :: "(string \<Rightarrow> string \<Rightarrow> request_error option) \<Rightarrow> string \<times> string \<Rightarrow> string option" where
  "tryDelete fails t =
    (case t of (type, name) \<Rightarrow>
       (case fails type name of
         None \<Rightarrow> None
       | Some e \<Rightarrow> if error_status e = Some (JNum 404) then None
           else Some (type @ ''/'' @ name @ '': '' @
             js_String (the (coalesce (er_message e) (Some (JStr ''unknown'')))))))"

definition delete_errors :: "(string \<Rightarrow> string \<Rightarrow> request_error option) \<Rightarrow> ModelInstance \<Rightarrow> string list" where
  "delete_errors fails row = List.map_filter (tryDelete fails) (delete_targets (mi_name row))"

text \<open>The toast: Inl the text of a partial failure, Inr success.  A burst of refreshes
  follows in both cases.\<close>

definition delete_toast :: "(string \<Rightarrow> string \<Rightarrow> request_error option) \<Rightarrow> ModelInstance \<Rightarrow> string + unit" where
  "delete_toast fails row = (let es = delete_errors fails row in if es \<noteq> [] then Inl (join ''; '' es) else Inr ())"

record model_row = ModelInstance +
  mw_cluster_name :: string
  mw_family :: string

definition clusterFilters :: "model_row list \<Rightarrow> (string \<times> string) list" where
  "clusterFilters rows = fold (\<lambda>r m. AList.update (mi_cluster_id r) (mw_cluster_name r) m) rows []"

definition familyFilterTags :: "model_row list \<Rightarrow> string list" where
  "familyFilterTags rows = filter (\<lambda>f. f \<in> mw_family ` set rows) MODEL_FAMILIES"

definition displayedRows :: "string option \<Rightarrow> model_row list \<Rightarrow> model_row list" where
  "displayedRows active rows =
    (case active of None \<Rightarrow> rows | Some f \<Rightarrow> filter (\<lambda>r. mw_family r = f) rows)"

definition canChat :: "model_row \<Rightarrow> bool" where
  "canChat r \<longleftrightarrow> mi_status r = ''Running'' \<and> 0 < mi_ready r"

definition openChat :: "model_row \<Rightarrow> string" where
  "openChat r = chat_link (ModelInstance.truncate r)"

definition STATUS_COLOR :: "string \<Rightarrow> string" where
  "STATUS_COLOR st = (if st = ''Running'' then ''green'' else if st = ''Progressing'' then ''gold''
     else if st = ''Failed'' then ''red'' else ''default'')"

text \<open>The deletion reports success exactly when each of the four resources was deleted or
  was not there, and otherwise names the others in order.\<close>

theorem delete_reports_failures:
  "(delete_toast fails row = Inr ()) =
     (\<forall>(type, name) \<in> set (delete_targets (mi_name row)).
        fails type name = None \<or> map_option error_status (fails type name) = Some (Some (JNum 404)))"
proof -
  have t: "tryDelete fails t = None \<longleftrightarrow>
      (case t of (type, name) \<Rightarrow> fails type name = None \<or> map_option error_status (fails type name) = Some (Some (JNum 404)))" for t
    by (cases t) (auto simp: tryDelete_def split: option.splits)
  have "delete_errors fails row = [] \<longleftrightarrow> (\<forall>t \<in> set (delete_targets (mi_name row)). tryDelete fails t = None)"
    by (auto simp: delete_errors_def List.map_filter_def filter_empty_conv)
  then show ?thesis unfolding t by (simp add: delete_toast_def Let_def)
qed

text \<open>The names of a ModelScope deployment's volume claim and token secret (suffixes
  -ms-cache and -ms on the server) are never among those deleted.\<close>

theorem delete_misses_modelscope:
  "list_all (\<lambda>t. snd t \<noteq> name @ ''-ms-cache'' \<and> snd t \<noteq> name @ ''-ms'') (delete_targets name)"
  by (simp add: delete_targets_def)

end
