(* ===== verification/WorkloadTable.thy ===== *)
theory WorkloadTable
  imports Workload PodLogs
begin

text \<open>
  pages/ClusterDetail/Workloads/index.tsx: the workload table.  Reading the Table API
  response, the columns and cells, the search, the row actions, and the URL of the CR
  viewer.  The pages of the table and its YAML editor are in WorkloadPage.
\<close>

section \<open>The Table API response\<close>

definition COL_I18N :: "(string \<times> string) list" where
  "COL_I18N = map (\<lambda>(k, v). (k, ''pages.workloads.col.'' @ v))
    [(''Name'', ''name''), (''Namespace'', ''namespace''), (''Age'', ''age''), (''Status'', ''status''),
     (''Ready'', ''ready''), (''Restarts'', ''restarts''), (''Node'', ''node''), (''Type'', ''type''),
     (''Port(s)'', ''ports''), (''Ports'', ''ports''), (''Hosts'', ''hosts''), (''Address'', ''address''),
     (''Data'', ''data''), (''Up-to-date'', ''upToDate''), (''Available'', ''available''),
     (''Containers'', ''containers''), (''Images'', ''images''), (''Selector'', ''selector''),
     (''Desired'', ''desired''), (''Current'', ''current''), (''IP'', ''ip''),
     (''Node Selector'', ''nodeSelector''), (''Nominated Node'', ''nominatedNode''),
     (''Readiness Gates'', ''readinessGates''), (''Class'', ''class''), (''Cluster-IP'', ''clusterIp''),
     (''External-IP'', ''externalIp''), (''Volume'', ''volume''), (''Capacity'', ''capacity''),
     (''Access Modes'', ''accessModes''), (''StorageClass'', ''storageClass''),
     (''Reclaim Policy'', ''reclaimPolicy''), (''Claim'', ''claim''), (''Reason'', ''reason''),
     (''VolumeMode'', ''volumeMode''), (''VolumeAttributesClass'', ''volumeAttributesClass'')]"

definition COL_WIDTHS :: "(string \<times> nat) list" where
  "COL_WIDTHS = [(''Name'', 200), (''Namespace'', 130), (''Age'', 80), (''Status'', 150), (''Ready'', 90),
     (''Restarts'', 90), (''Node'', 150), (''Type'', 110), (''Cluster-IP'', 130), (''External-IP'', 130),
     (''Port(s)'', 170), (''Hosts'', 200), (''Address'', 150), (''Data'', 70), (''Up-to-date'', 100),
     (''Available'', 90), (''Desired'', 80), (''Current'', 80)]"

definition SVC_TYPE_COLOR :: "(string \<times> string) list" where
  "SVC_TYPE_COLOR = [(''ClusterIP'', ''default''), (''NodePort'', ''blue''), (''LoadBalancer'', ''green'')]"

text \<open>The Table API names every column; an item is an object of cells by column name.\<close>

definition col_name :: "json \<Rightarrow> string" where
  "col_name c = (case oget ''name'' (Some c) of Some (JStr s) \<Rightarrow> s | _ \<Rightarrow> ''undefined'')"

definition array_of :: "jval \<Rightarrow> json list" where
  "array_of v = (case v of Some (JArr xs) \<Rightarrow> xs | _ \<Rightarrow> [])"

definition nth_cell :: "json list \<Rightarrow> nat option \<Rightarrow> jval" where
  "nth_cell cells i = (case i of None \<Rightarrow> None | Some n \<Rightarrow> if n < length cells then Some (cells ! n) else None)"

fun position :: "string \<Rightarrow> string list \<Rightarrow> nat option" where
  "position x [] = None"
| "position x (y # ys) = (if x = y then Some 0 else map_option Suc (position x ys))"

definition item_of_row :: "string list \<Rightarrow> json list \<Rightarrow> json \<Rightarrow> obj" where
  "item_of_row allNames colDefs row =
    (let cells = array_of (oget ''cells'' (Some row));
         meta = coalesce (opath [''object'', ''metadata''] (Some row)) (Some (JObj []));
         nm = the (coalesce (coalesce (oget ''name'' meta) (nth_cell cells (position ''Name'' allNames))) (Some (JStr [])));
         ns = the (coalesce (oget ''namespace'' meta) (Some (JStr [])))
     in fold (\<lambda>c item. AList.update (col_name c)
          (the (coalesce (nth_cell cells (position (col_name c) allNames)) (Some (JStr [])))) item)
        colDefs [(''name'', nm), (''namespace'', ns)])"

definition shown_columns :: "json list \<Rightarrow> json list" where
  "shown_columns cs = filter (\<lambda>c. col_name c \<noteq> ''Name'' \<and> col_name c \<noteq> ''Namespace'') cs"

definition parseTableResponse :: "jval \<Rightarrow> obj list \<times> json list" where
  "parseTableResponse res =
    (if oget ''kind'' res \<noteq> Some (JStr ''Table'') then ([], [])
     else let allColDefs = array_of (oget ''columnDefinitions'' res);
              colDefs = shown_columns allColDefs
       in (map (item_of_row (map col_name allColDefs) colDefs) (array_of (oget ''rows'' res)), colDefs))"

subsection \<open>Cells\<close>

definition POD_ERRORS :: "string list" where
  "POD_ERRORS = [''Failed'', ''Error'', ''OOMKilled'', ''CrashLoopBackOff'', ''ErrImagePull'', ''ImagePullBackOff'',
     ''CreateContainerError'', ''InvalidImageName'']"

definition podStatusColor :: "string \<Rightarrow> string" where
  "podStatusColor s =
    (if s = ''Running'' \<or> s = ''Completed'' then ''success''
     else if s = ''Pending'' \<or> starts_with ''Init:'' s then ''warning''
     else if s \<in> set POD_ERRORS then ''error'' else ''default'')"

text \<open>parseInt(v, 10)\<close>

definition parse_int :: "string \<Rightarrow> int option" where
  "parse_int v =
    (let w = dropWhile is_ws v;
         neg = (starts_with ''-'' w);
         ds = takeWhile is_digit (if neg \<or> starts_with ''+'' w then tl w else w)
     in if ds = [] then None else Some ((if neg then - 1 else 1) * int (nat_of_digits ds)))"

datatype cell = Muted string | Plain string | Toned string string | Tagged string string

text \<open>The first two of the parts around the slashes, as Number reads them.\<close>

definition ready_tone :: "string \<Rightarrow> string" where
  "ready_tone v =
    (let ps = map js_number (split_on (\<lambda>c. c = CHR ''/'') v); cur = ps ! 0; total = ps ! 1
     in if cur \<noteq> None \<and> cur = total then ''success'' else if cur = Some 0 then ''danger'' else ''warning'')"

definition renderCell :: "string \<Rightarrow> jval \<Rightarrow> cell" where
  "renderCell colName value =
    (let v = (if nullish value then [] else js_String (the value))
     in if v = [] then Muted [CHR 0xE2, CHR 0x80, CHR 0x94]
        else if v = ''<none>'' \<or> v = ''<unknown>'' then Muted v
        else if colName = ''Status'' then Tagged (podStatusColor v) v
        else if colName = ''Ready'' then (if CHR ''/'' \<in> set v then Toned (ready_tone v) v else Plain v)
        else if colName = ''Restarts'' then
          (case parse_int v of None \<Rightarrow> Plain v
           | Some n \<Rightarrow> if n = 0 then Plain v else Toned (if n \<ge> 5 then ''danger'' else ''warning'') v)
        else if colName = ''Type'' then Tagged (case map_of SVC_TYPE_COLOR v of None \<Rightarrow> ''default'' | Some c \<Rightarrow> c) v
        else Plain v)"

text \<open>A column: title (a message id or the raw name), the key read and the width.\<close>

definition buildColumns :: "json list \<Rightarrow> bool \<Rightarrow> (string \<times> string \<times> nat) list" where
  "buildColumns colDefs clusterScoped =
    [(''pages.workloads.col.name'', ''name'', 200)] @
    (if clusterScoped then [] else [(''pages.workloads.col.namespace'', ''namespace'', 130)]) @
    map (\<lambda>c. let n = col_name c in
      ((case map_of COL_I18N n of Some t \<Rightarrow> t | None \<Rightarrow> n), n, (case map_of COL_WIDTHS n of Some w \<Rightarrow> w | None \<Rightarrow> 120))) colDefs"

subsection \<open>Search and counts\<close>

definition cell_matches :: "string \<Rightarrow> jval \<Rightarrow> bool" where
  "cell_matches q v \<longleftrightarrow> \<not> nullish v \<and> str_includes q (to_lower (js_String (the v)))"

definition filteredItems :: "string \<Rightarrow> json list \<Rightarrow> obj list \<Rightarrow> obj list" where
  "filteredItems search colDefs rows =
    (let q = to_lower (trim search)
     in if q = [] then rows
        else filter (\<lambda>r. cell_matches q (map_of r ''name'') \<or> cell_matches q (map_of r ''namespace'') \<or>
               list_ex (\<lambda>c. cell_matches q (map_of r (col_name c))) colDefs) rows)"

text \<open>The count in the title, from the numbers of rows shown and loaded.\<close>

definition count_label :: "bool \<Rightarrow> nat \<Rightarrow> nat \<Rightarrow> bool \<Rightarrow> rat option \<Rightarrow> string" where
  "count_label isFiltering shown loaded hasMore totalKnown =
    (let base = (case totalKnown of Some t \<Rightarrow> show_num t | None \<Rightarrow> show_nat loaded @ (if hasMore then ''+'' else []))
     in if isFiltering then ''('' @ show_nat shown @ '' / '' @ base @ '')'' else ''('' @ base @ '')'')"

section \<open>Row actions\<close>

definition buildRolloutMenu :: "string \<Rightarrow> string list" where
  "buildRolloutMenu resourceType =
    (let canRestart = resourceType \<in> set [''deployments'', ''statefulsets'', ''daemonsets''];
         canScale = resourceType \<in> set [''deployments'', ''statefulsets'', ''replicasets''];
         isDeployment = (resourceType = ''deployments'')
     in (if canRestart then [''restart''] else []) @ (if isDeployment then [''pause'', ''resume''] else []) @
        (if canScale then [''scale''] else []) @ (if isDeployment then [''history''] else []))"

definition row_actions :: "string \<Rightarrow> string list" where
  "row_actions resourceType =
    (if resourceType = ''pods'' then [''top'', ''logs'', ''exec''] else []) @
    (if resourceType = ''customresourcedefinitions'' then [''instances''] else []) @ [''describe''] @
    (if buildRolloutMenu resourceType \<noteq> [] then [''more''] else []) @ [''edit'', ''delete'']"

definition handleDelete :: "string \<Rightarrow> string \<Rightarrow> string \<Rightarrow> string \<Rightarrow> CRRef option \<Rightarrow> request" where
  "handleDelete clusterId resourceType name ns cr = deleteWorkload clusterId resourceType name ns cr"

definition handlePauseResume :: "string \<Rightarrow> string \<Rightarrow> string \<Rightarrow> string \<Rightarrow> bool \<Rightarrow> request" where
  "handlePauseResume clusterId resourceType name ns paused =
    (if paused then rolloutResume clusterId resourceType name ns else rolloutPause clusterId resourceType name ns)"

section \<open>The CR viewer\<close>

definition VALID_TYPES :: "string list" where
  "VALID_TYPES =
    [''deployments'', ''statefulsets'', ''daemonsets'', ''replicasets'', ''pods'', ''jobs'', ''cronjobs'',
     ''horizontalpodautoscalers'', ''services'', ''endpointslices'', ''ingresses'', ''networkpolicies'',
     ''gatewayclasses'', ''gateways'', ''httproutes'', ''grpcroutes'', ''configmaps'', ''secrets'',
     ''persistentvolumeclaims'', ''persistentvolumes'', ''storageclasses'', ''serviceaccounts'', ''roles'',
     ''rolebindings'', ''clusterroles'', ''clusterrolebindings'', ''resourcequotas'', ''limitranges'',
     ''poddisruptionbudgets'', ''priorityclasses'', ''runtimeclasses'', ''validatingwebhookconfigurations'',
     ''mutatingwebhookconfigurations'', ''validatingadmissionpolicies'', ''mutatingadmissionpolicies'',
     ''resourceclaims'', ''resourceclaimtemplates'', ''deviceclasses'', ''resourceslices'',
     ''customresourcedefinitions'']"

text \<open>The first defined name: of a storage version, of a served one, of the first one.\<close>

definition crd_version :: "json list \<Rightarrow> jval" where
  "crd_version versions =
    (let pick = (\<lambda>k. case find (\<lambda>v. truthy (oget k (Some v))) versions of None \<Rightarrow> None | Some v \<Rightarrow> oget ''name'' (Some v))
     in coalesce (coalesce (pick ''storage'') (pick ''served''))
          (case versions of [] \<Rightarrow> None | v # _ \<Rightarrow> oget ''name'' (Some v)))"

text \<open>None is the error toast for an invalid definition.\<close>

definition crd_params :: "jval \<Rightarrow> (string \<times> string) list option" where
  "crd_params raw =
    (let spec = coalesce (oget ''spec'' raw) (Some (JObj []));
         version = crd_version (array_of (oget ''versions'' spec));
         kind = coalesce (opath [''names'', ''kind''] spec) (Some (JStr []))
     in if \<not> truthy version \<or> \<not> truthy kind then None
        else Some [(''group'', js_String (the (coalesce (oget ''group'' spec) (Some (JStr []))))),
                   (''version'', js_String (the version)), (''kind'', js_String (the kind)),
                   (''scope'', if oget ''scope'' spec = Some (JStr ''Cluster'') then ''Cluster'' else ''Namespaced'')])"

definition openCRInstances :: "string \<Rightarrow> jval \<Rightarrow> string option" where
  "openCRInstances clusterId raw =
    map_option (\<lambda>ps. path [''clusters'', clusterId, ''workloads'', ''_cr''] @ ''?'' @ search_params ps) (crd_params raw)"

definition crRefFromSearch :: "(string \<times> string) list \<Rightarrow> CRRef option" where
  "crRefFromSearch sp =
    (case (map_of sp ''version'', map_of sp ''kind'') of
       (Some version, Some kind) \<Rightarrow>
         if version = [] \<or> kind = [] then None
         else Some \<lparr>cr_group = (case map_of sp ''group'' of None \<Rightarrow> [] | Some g \<Rightarrow> g), cr_version = version, cr_kind = kind,
                     cr_scope = (if map_of sp ''scope'' = Some ''Cluster'' then Cluster else Namespaced)\<rparr>
     | _ \<Rightarrow> None)"

text \<open>The parser of URLSearchParams on the output of its serialiser: pairs at ampersands,
  cut at the first equals sign, plus signs for blanks, percent escapes decoded.\<close>

definition form_decode :: "string \<Rightarrow> string" where
  "form_decode s = uri_decode (map (\<lambda>c. if c = CHR ''+'' then CHR '' '' else c) s)"

definition parse_pair :: "string \<Rightarrow> string \<times> string" where
  "parse_pair p = (form_decode (takeWhile (\<lambda>c. c \<noteq> CHR ''='') p), form_decode (drop 1 (dropWhile (\<lambda>c. c \<noteq> CHR ''='') p)))"

definition parse_search :: "string \<Rightarrow> (string \<times> string) list" where
  "parse_search q = map parse_pair (filter (\<lambda>p. p \<noteq> [])
     (split_on (\<lambda>c. c = CHR ''&'') (if starts_with ''?'' q then tl q else q)))"

text \<open>What the page shows for a route: the CR viewer, a table, or a redirect.\<close>

datatype workload_route = CRViewer CRRef | TypeTable string | RedirectTo string

definition WorkloadsPage :: "string \<Rightarrow> string \<Rightarrow> string \<Rightarrow> workload_route" where
  "WorkloadsPage clusterId type search =
    (if type = ''_cr'' then
       (case crRefFromSearch (parse_search search) of
          None \<Rightarrow> RedirectTo (path [''clusters'', clusterId, ''workloads'', ''customresourcedefinitions''])
        | Some cr \<Rightarrow> CRViewer cr)
     else if type \<in> set VALID_TYPES then TypeTable type
     else RedirectTo (path [''clusters'', clusterId, ''workloads'', ''deployments'']))"

definition isClusterScoped :: "string \<Rightarrow> CRRef option \<Rightarrow> bool" where
  "isClusterScoped resourceType cr =
    (if resourceType = ''_cr'' then (case cr of None \<Rightarrow> False | Some c \<Rightarrow> cr_scope c = Cluster)
     else resourceType \<in> set CLUSTER_SCOPED_TYPES)"

subsection \<open>Query strings read back\<close>

definition plus_blank :: "char \<Rightarrow> char" where
  "plus_blank c = (if c = CHR ''+'' then CHR '' '' else c)"

lemma form_escape_cases:
  obtains "c = CHR '' ''" "form_escape c = ''+''"
  | "form_escape c = [c]" "uri_unreserved c"
  | "form_escape c = [CHR ''%'', upper_hex (of_char c div 16), upper_hex (of_char c mod 16)]"
proof -
  define p where "p \<longleftrightarrow> (48 \<le> (of_char c :: nat) \<and> (of_char c :: nat) \<le> 57) \<or> (65 \<le> (of_char c :: nat) \<and> (of_char c :: nat) \<le> 90) \<or>
    (97 \<le> (of_char c :: nat) \<and> (of_char c :: nat) \<le> 122) \<or> c \<in> set [CHR ''*'', CHR ''-'', CHR ''.'', CHR ''_'']"
  have f: "form_escape c = (if of_char c = (32 :: nat) then ''+'' else if p then [c]
      else [CHR ''%'', upper_hex (of_char c div 16), upper_hex (of_char c mod 16)])"
    unfolding form_escape_def Let_def p_def by (rule refl)
  have sub: "c \<in> set [CHR ''-'', CHR ''_'', CHR ''.'', CHR ''!'', CHR ''~'', CHR ''*'', CHR 0x27, CHR ''('', CHR '')'']"
    if "c \<in> set [CHR ''*'', CHR ''-'', CHR ''.'', CHR ''_'']" using that by (simp, elim disjE, simp_all)
  have mono: "\<And>A B C S S'. A \<or> B \<or> C \<or> S \<Longrightarrow> (S \<Longrightarrow> S') \<Longrightarrow> A \<or> B \<or> C \<or> S'" by blast
  have u: "uri_unreserved c" if p
    unfolding uri_unreserved_def Let_def by (rule mono[OF that[unfolded p_def] sub])
  show ?thesis
  proof (cases "of_char c = (32 :: nat)")
    case True
    then have "of_char c = (of_char (CHR '' '') :: nat)" by simp
    then have "c = CHR '' ''" by (simp only: of_char_eq_iff)
    then show ?thesis using that(1) f True by simp
  next
    case False
    then show ?thesis using that(2,3) f u by (cases p) simp_all
  qed
qed

lemma form_escape_chars: "d \<in> set (form_escape c) \<Longrightarrow> uri_unreserved d \<or> d = CHR ''%'' \<or> d = CHR ''+''"
  using upper_hex_plain[of "of_char c mod 16"] upper_hex_plain[OF high_nibble[of c]]
  by (cases c rule: form_escape_cases) auto

lemma form_decode_escape: "uri_decode (map plus_blank (form_escape c) @ s) = c # uri_decode s"
proof (cases c rule: form_escape_cases)
  case 1
  then show ?thesis by (simp add: plus_blank_def uri_decode_plain)
next
  case 2
  then have "c \<noteq> CHR ''%''" "c \<noteq> CHR ''+''" using percent_reserved by (auto simp: uri_unreserved_def)
  then show ?thesis using 2 by (simp add: plus_blank_def uri_decode_plain)
next
  case 3
  have "uri_unreserved (upper_hex (of_char c div 16))" "uri_unreserved (upper_hex (of_char c mod 16))"
    using upper_hex_plain[OF high_nibble[of c]] upper_hex_plain[of "of_char c mod 16"] by auto
  then have "upper_hex (of_char c div 16) \<noteq> CHR ''+''" "upper_hex (of_char c mod 16) \<noteq> CHR ''+''"
    by (auto simp: uri_unreserved_def)
  then show ?thesis using 3 high_nibble[of c] by (simp add: plus_blank_def)
qed

lemma form_decode_encoded: "form_decode (concat (map form_escape s)) = s"
proof -
  have "form_decode t = uri_decode (map plus_blank t)" for t
    by (simp add: form_decode_def plus_blank_def cong: map_cong)
  moreover have "uri_decode (map plus_blank (concat (map form_escape s))) = s"
    by (induction s) (simp_all add: form_decode_escape)
  ultimately show ?thesis by simp
qed

lemma form_encoded_no_delims:
  "CHR ''&'' \<notin> set (concat (map form_escape s))" "CHR ''='' \<notin> set (concat (map form_escape s))"
  "CHR ''?'' \<notin> set (concat (map form_escape s))"
  by (auto simp: uri_unreserved_def dest!: form_escape_chars)

lemma cut_at:
  assumes "x \<notin> set xs"
  shows "takeWhile (\<lambda>c. c \<noteq> x) (xs @ x # ys) = xs" "dropWhile (\<lambda>c. c \<noteq> x) (xs @ x # ys) = x # ys"
  using assms by (induction xs) auto

lemma parse_pair_encoded:
  "parse_pair (concat (map form_escape k) @ CHR ''='' # concat (map form_escape v)) = (k, v)"
  unfolding parse_pair_def cut_at[OF form_encoded_no_delims(2)] by (simp add: form_decode_encoded)

lemma parse_search_params:
  assumes "ps \<noteq> []"
  shows "parse_search (''?'' @ search_params ps) = ps"
proof -
  let ?enc = "\<lambda>(k, v). concat (map form_escape k) @ CHR ''='' # concat (map form_escape v)"
  have "split_on (\<lambda>c. c = CHR ''&'') (join ''&'' (map ?enc ps)) = map ?enc ps"
  proof (rule split_on_join)
    show "map ?enc ps \<noteq> []" using assms by simp
    show "\<not> c = CHR ''&''" if "w \<in> set (map ?enc ps)" "c \<in> set w" for w c
      using that form_encoded_no_delims(1) by fastforce
  qed simp
  moreover have "filter (\<lambda>p. p \<noteq> []) (map ?enc ps) = map ?enc ps"
    by (intro filter_True) auto
  moreover have "map parse_pair (map ?enc ps) = ps"
    using parse_pair_encoded by (induction ps) auto
  ultimately show ?thesis by (simp add: parse_search_def search_params_def)
qed

text \<open>The link made from a custom resource definition whose version and kind are non-empty
  names opens the viewer for it: the page that the link leads to reads back the group, the
  version and the kind exactly, whatever characters they have, and the scope, and never
  redirects.\<close>

theorem cr_link_opens_viewer:
  assumes "crd_version (array_of (opath [''spec'', ''versions''] raw)) = Some (JStr v)" "v \<noteq> []"
    and "opath [''spec'', ''names'', ''kind''] raw = Some (JStr k)" "k \<noteq> []"
  shows "\<exists>search. openCRInstances clusterId raw = Some (path [''clusters'', clusterId, ''workloads'', ''_cr''] @ search) \<and>
    WorkloadsPage clusterId ''_cr'' search = CRViewer \<lparr>
      cr_group = js_String (the (coalesce (opath [''spec'', ''group''] raw) (Some (JStr [])))),
      cr_version = v, cr_kind = k,
      cr_scope = (if opath [''spec'', ''scope''] raw = Some (JStr ''Cluster'') then Cluster else Namespaced)\<rparr>"
proof -
  define g where "g = js_String (the (coalesce (opath [''spec'', ''group''] raw) (Some (JStr []))))"
  define sc where "sc = (if opath [''spec'', ''scope''] raw = Some (JStr ''Cluster'') then ''Cluster'' else ''Namespaced'')"
  let ?ps = "[(''group'', g), (''version'', v), (''kind'', k), (''scope'', sc)]"
  have "coalesce (oget ''spec'' raw) (Some (JObj [])) = oget ''spec'' raw"
    using assms(3) by (cases "nullish (oget ''spec'' raw)") (auto simp: coalesce_def elim!: nullish.elims)
  then have "crd_params raw = Some ?ps"
    using assms by (simp add: crd_params_def Let_def g_def sc_def coalesce_def)
  moreover have "crRefFromSearch (parse_search (''?'' @ search_params ?ps)) = Some \<lparr>cr_group = g, cr_version = v,
    cr_kind = k, cr_scope = (if opath [''spec'', ''scope''] raw = Some (JStr ''Cluster'') then Cluster else Namespaced)\<rparr>"
    using assms(2,4) by (subst parse_search_params) (simp_all add: crRefFromSearch_def sc_def)
  ultimately show ?thesis
    unfolding g_def[symmetric] by (intro exI[of _ "''?'' @ search_params ?ps"]) (simp add: openCRInstances_def WorkloadsPage_def)
qed

end
