(* ===== verification/WorkloadPage.thy ===== *)
theory WorkloadPage
  imports WorkloadTable
begin

text \<open>
  pages/ClusterDetail/Workloads/index.tsx, the state behind the table: the pages of the
  cursor pagination and the YAML editor's drawer.  The list request is that of the
  library's request hook, which runs on mount and whenever the effective namespace or the
  page token changes, keeps the last answer as its data while a request is under way, and
  drops the answers of all but the latest request.
\<close>

section \<open>Pages\<close>

definition PAGE_SIZE :: rat where
  "PAGE_SIZE = 100"

record list_page =
  lp_items :: "obj list"
  lp_cols :: "json list"
  lp_next :: string
  lp_remaining :: "rat option"

definition format_page :: "jval \<Rightarrow> list_page" where
  "format_page res =
    (let (rows, cols) = parseTableResponse res
     in \<lparr>lp_items = rows, lp_cols = cols,
         lp_next = (case opath [''metadata'', ''continue''] res of Some (JStr t) \<Rightarrow> t | _ \<Rightarrow> []),
         lp_remaining = as_num (opath [''metadata'', ''remainingItemCount''] res)\<rparr>)"

text \<open>pg_seen holds the dependencies for which the effect that stores a page's token last
  ran; pg_asked the namespace and the token of the latest request.\<close>

record pager =
  pg_ns :: string
  pg_tokens :: "string list"
  pg_idx :: nat
  pg_data :: "list_page option"
  pg_asked :: "string \<times> string"
  pg_loading :: bool
  pg_seen :: "string \<times> nat"

definition currentToken :: "pager \<Rightarrow> string" where
  "currentToken s = (if pg_idx s < length (pg_tokens s) then pg_tokens s ! pg_idx s else [])"

definition nextToken :: "pager \<Rightarrow> string" where
  "nextToken s = (case pg_data s of None \<Rightarrow> [] | Some d \<Rightarrow> lp_next d)"

definition hasMore :: "pager \<Rightarrow> bool" where
  "hasMore s = (nextToken s \<noteq> [])"

definition totalKnown :: "pager \<Rightarrow> rat option" where
  "totalKnown s =
    (case pg_data s of None \<Rightarrow> None
     | Some d \<Rightarrow> map_option (\<lambda>r. of_nat (pg_idx s) * PAGE_SIZE + of_nat (length (lp_items d)) + r) (lp_remaining d))"

text \<open>Storing past the end of an array leaves holes, which read as the empty token.\<close>

definition store_at :: "nat \<Rightarrow> string \<Rightarrow> string list \<Rightarrow> string list" where
  "store_at i x xs = (if i < length xs then xs[i := x] else xs @ replicate (i - length xs) [] @ [x])"

definition token_effect :: "pager \<Rightarrow> pager" where
  "token_effect s =
    (let t = nextToken s; i = Suc (pg_idx s); s' = s\<lparr>pg_seen := (t, pg_idx s)\<rparr>
     in if (t, pg_idx s) = pg_seen s then s
        else if t = [] then s'
        else if i < length (pg_tokens s) \<and> pg_tokens s ! i \<noteq> [] then s'
        else s'\<lparr>pg_tokens := store_at i t (pg_tokens s)\<rparr>)"

definition effective_ns :: "bool \<Rightarrow> string \<Rightarrow> string" where
  "effective_ns clusterScoped ns = (if clusterScoped then [] else ns)"

definition request_effect :: "bool \<Rightarrow> pager \<Rightarrow> pager" where
  "request_effect clusterScoped s =
    (let q = (effective_ns clusterScoped (pg_ns s), currentToken s)
     in if q = pg_asked s then s else s\<lparr>pg_asked := q, pg_loading := True\<rparr>)"

definition page_effects :: "bool \<Rightarrow> pager \<Rightarrow> pager" where
  "page_effects clusterScoped s = token_effect (request_effect clusterScoped s)"

definition pager_init :: "bool \<Rightarrow> string \<Rightarrow> pager" where
  "pager_init clusterScoped ns =
    \<lparr>pg_ns = ns, pg_tokens = [[]], pg_idx = 0, pg_data = None, pg_asked = (effective_ns clusterScoped ns, []),
     pg_loading = True, pg_seen = ([], 0)\<rparr>"

definition list_request :: "string \<Rightarrow> string \<Rightarrow> CRRef option \<Rightarrow> string \<times> string \<Rightarrow> request" where
  "list_request clusterId resourceType cr q = listWorkloads clusterId resourceType (fst q) PAGE_SIZE (snd q) cr"

text \<open>An answer is that of the latest request.  A new namespace is first asked for with the
  page token of the old one, and the pages are reset by the effect that follows.\<close>

datatype page_act = NextPage | PrevPage | SetNs string | Poll | Answer jval

definition page_step :: "bool \<Rightarrow> pager \<Rightarrow> page_act \<Rightarrow> pager" where
  "page_step clusterScoped s a = (case a of
     NextPage \<Rightarrow> if hasMore s then page_effects clusterScoped (s\<lparr>pg_idx := Suc (pg_idx s)\<rparr>) else s
   | PrevPage \<Rightarrow> if pg_idx s = 0 then s else page_effects clusterScoped (s\<lparr>pg_idx := pg_idx s - 1\<rparr>)
   | SetNs n \<Rightarrow> if n = pg_ns s then s
       else page_effects clusterScoped
         ((page_effects clusterScoped (s\<lparr>pg_ns := n\<rparr>))\<lparr>pg_idx := 0, pg_tokens := [[]]\<rparr>)
   | Poll \<Rightarrow> s\<lparr>pg_loading := True\<rparr>
   | Answer res \<Rightarrow> if pg_loading s then page_effects clusterScoped (s\<lparr>pg_data := Some (format_page res), pg_loading := False\<rparr>) else s)"

text \<open>Turning to the next page and waiting for the server's answer, k times.\<close>

definition turn_page :: "bool \<Rightarrow> (string \<times> string \<Rightarrow> jval) \<Rightarrow> pager \<Rightarrow> pager" where
  "turn_page clusterScoped srv s =
    (let s' = page_step clusterScoped s NextPage in page_step clusterScoped s' (Answer (srv (pg_asked s'))))"

definition open_list :: "bool \<Rightarrow> (string \<times> string \<Rightarrow> jval) \<Rightarrow> string \<Rightarrow> pager" where
  "open_list clusterScoped srv ns =
    (let s = pager_init clusterScoped ns in page_step clusterScoped s (Answer (srv (pg_asked s))))"

text \<open>The token of the k-th page of a listing, following the server's answers.\<close>

fun page_token :: "(string \<times> string \<Rightarrow> jval) \<Rightarrow> string \<Rightarrow> nat \<Rightarrow> string" where
  "page_token srv ns 0 = []"
| "page_token srv ns (Suc k) = lp_next (format_page (srv (ns, page_token srv ns k)))"

definition pager_at :: "bool \<Rightarrow> (string \<times> string \<Rightarrow> jval) \<Rightarrow> string \<Rightarrow> nat \<Rightarrow> pager" where
  "pager_at cs srv ns k =
    (let e = effective_ns cs ns; m = Suc k div 2
     in \<lparr>pg_ns = ns, pg_tokens = map (\<lambda>i. page_token srv e (Suc i div 2)) [0..<k + 2], pg_idx = k,
         pg_data = Some (format_page (srv (e, page_token srv e m))), pg_asked = (e, page_token srv e m),
         pg_loading = False, pg_seen = (page_token srv e (Suc m), k)\<rparr>)"

lemma pager_at_open:
  assumes "page_token srv (effective_ns cs ns) 1 \<noteq> []"
  shows "open_list cs srv ns = pager_at cs srv ns 0"
  using assms
  by (simp add: open_list_def page_step_def pager_init_def page_effects_def request_effect_def token_effect_def
      currentToken_def nextToken_def pager_at_def Let_def store_at_def)

lemma pager_at_turn:
  assumes ne: "\<And>i. i \<le> k + 2 \<Longrightarrow> page_token srv (effective_ns cs ns) (Suc i) \<noteq> []"
    and inj: "\<And>i. i \<le> k + 2 \<Longrightarrow> page_token srv (effective_ns cs ns) (Suc i) \<noteq> page_token srv (effective_ns cs ns) i"
  shows "turn_page cs srv (pager_at cs srv ns k) = pager_at cs srv ns (Suc k)"
proof -
  define e where "e = effective_ns cs ns"
  define T where "T = page_token srv e"
  have T: "lp_next (format_page (srv (e, T i))) = T (Suc i)" for i by (simp add: T_def)
  have ne': "i \<le> k + 2 \<Longrightarrow> T (Suc i) \<noteq> []" and inj': "i \<le> k + 2 \<Longrightarrow> T (Suc i) \<noteq> T i" for i
    using ne inj by (simp_all add: T_def e_def)
  have at: "pager_at cs srv ns j = \<lparr>pg_ns = ns, pg_tokens = map (\<lambda>i. T (Suc i div 2)) [0..<j + 2], pg_idx = j,
         pg_data = Some (format_page (srv (e, T (Suc j div 2)))), pg_asked = (e, T (Suc j div 2)),
         pg_loading = False, pg_seen = (T (Suc (Suc j div 2)), j)\<rparr>" for j
    by (simp add: pager_at_def Let_def T_def e_def)
  show ?thesis
  proof (cases "even k")
    case True
    then obtain j where k: "k = 2 * j" by blast
    have last: "map (\<lambda>i. T (Suc i div 2)) [0..<Suc (Suc (Suc (2 * j)))] =
        map (\<lambda>i. T (Suc i div 2)) [0..<Suc (Suc (2 * j))] @ [T (Suc j)]"
      by (subst upt_Suc) simp
    show ?thesis
      using ne'[of j] ne'[of "Suc j"] inj'[of j] inj'[of "Suc j"]
      by (simp add: at k turn_page_def Let_def page_step_def hasMore_def nextToken_def T page_effects_def request_effect_def
          currentToken_def token_effect_def store_at_def nth_append e_def[symmetric] last del: upt_Suc)
  next
    case False
    then obtain j where k: "k = 2 * j + 1" using oddE by blast
    have last: "map (\<lambda>i. T (Suc i div 2)) [0..<Suc (Suc (Suc (Suc (2 * j))))] =
        map (\<lambda>i. T (Suc i div 2)) [0..<Suc (Suc (Suc (2 * j)))] @ [T (Suc (Suc j))]"
      by (subst upt_Suc) simp
    show ?thesis
      using ne'[of j] ne'[of "Suc j"] inj'[of j] inj'[of "Suc j"]
      by (simp add: at k turn_page_def Let_def page_step_def hasMore_def nextToken_def T page_effects_def request_effect_def
          currentToken_def token_effect_def store_at_def nth_append e_def[symmetric] last del: upt_Suc)
  qed
qed

text \<open>While the server has a next page to offer, with a token of its own, turning the page
  and waiting for the answer k times shows page (k + 1) div 2 of the listing: the second
  page appears as pages 2 and 3 of the table, the third as pages 4 and 5.  The effect that
  stores a page's token runs once for the new index with the token of the page still on
  screen, and the token of the page itself finds the place taken.\<close>

theorem every_later_page_shows_twice:
  assumes "\<forall>i \<le> n. page_token srv (effective_ns cs ns) (Suc i) \<notin> {[], page_token srv (effective_ns cs ns) i}"
    and "k < n"
  shows "let s = (turn_page cs srv ^^ k) (open_list cs srv ns) in
    pg_idx s = k \<and> \<not> pg_loading s \<and>
    pg_data s = Some (format_page (srv (effective_ns cs ns, page_token srv (effective_ns cs ns) (Suc k div 2))))"
proof -
  have "k < n \<Longrightarrow> (turn_page cs srv ^^ k) (open_list cs srv ns) = pager_at cs srv ns k"
  proof (induction k)
    case 0
    then show ?case using assms(1)[rule_format, of 0] by (simp add: pager_at_open)
  next
    case (Suc k)
    have "\<And>i. i \<le> k + 2 \<Longrightarrow> i \<le> n" using Suc.prems by linarith
    then show ?case using Suc assms(1) by (simp add: pager_at_turn del: page_token.simps)
  qed
  then show ?thesis using assms(2) by (simp add: pager_at_def Let_def)
qed

text \<open>A listing of numbered pages.\<close>

definition numbered_listing :: "nat \<Rightarrow> string \<times> string \<Rightarrow> jval" where
  "numbered_listing pages q =
    (let k = length (snd q) in Some (JObj [(''metadata'', JObj (
       (if Suc k < pages then [(''continue'', JStr (replicate (Suc k) (CHR ''t'')))] else []) @
       [(''remainingItemCount'', JNum (of_nat (pages - Suc k)))]))]))"

theorem every_later_page_shows_twice_witness:
  "\<exists>s. s = (turn_page False (numbered_listing 9) ^^ 3) (open_list False (numbered_listing 9) ''default'') \<and>
    pg_data s = Some (format_page (numbered_listing 9 (''default'', ''tt''))) \<and> pg_idx s = 3"
proof -
  have t: "i \<le> 8 \<Longrightarrow> page_token (numbered_listing 9) ''default'' i = replicate i (CHR ''t'')" for i
    by (induction i) (simp_all add: numbered_listing_def format_page_def Let_def split_beta)
  have h: "\<forall>i \<le> 7. page_token (numbered_listing 9) (effective_ns False ''default'') (Suc i) \<notin>
      {[], page_token (numbered_listing 9) (effective_ns False ''default'') i}"
    by (simp add: effective_ns_def t del: page_token.simps)
  have two: "page_token (numbered_listing 9) (effective_ns False ''default'') (Suc 3 div 2) = ''tt''"
  proof -
    have "Suc 3 div 2 = (2 :: nat)" by simp
    then show ?thesis using t[of 2] by (simp only: effective_ns_def if_False) (simp add: numeral_2_eq_2 del: page_token.simps)
  qed
  show ?thesis
    using every_later_page_shows_twice[OF h, of 3] unfolding Let_def two by (simp add: effective_ns_def)
qed

theorem new_namespace_turns_to_old_token:
  assumes "pg_data s = Some d" "lp_next d \<noteq> []" "pg_idx s > 0" "n \<noteq> pg_ns s"
    and "lp_next (format_page res) \<noteq> []"
  shows "let s' = fold (\<lambda>a t. page_step False t a) [SetNs n, Answer res, NextPage] s
    in pg_asked s' = (n, lp_next d) \<and> pg_tokens s' ! 1 = lp_next d"
proof -
  define s0 where "s0 = page_effects False (s\<lparr>pg_ns := n\<rparr>)"
  have s0: "pg_data s0 = Some d" "pg_ns s0 = n" "pg_seen s0 = (lp_next d, pg_idx s)"
    using assms(1) by (simp_all add: s0_def page_effects_def request_effect_def token_effect_def nextToken_def Let_def)
  define s1 where "s1 = page_effects False (s0\<lparr>pg_idx := 0, pg_tokens := [[]]\<rparr>)"
  have s1: "pg_tokens s1 = [[], lp_next d]" "pg_idx s1 = 0" "pg_ns s1 = n" "pg_data s1 = Some d" "pg_asked s1 = (n, [])"
    using s0 assms(2,3)
    by (simp_all add: s1_def page_effects_def request_effect_def token_effect_def nextToken_def currentToken_def
        store_at_def effective_ns_def Let_def)
  have step1: "page_step False s (SetNs n) = s1" using assms(4) by (simp add: page_step_def s1_def s0_def)
  show ?thesis
    using s1 assms(2,5) unfolding fold.simps o_apply id_apply step1
    by (simp add: page_step_def page_effects_def request_effect_def token_effect_def nextToken_def currentToken_def
        hasMore_def effective_ns_def store_at_def Let_def)
qed

section \<open>The YAML editor\<close>

text \<open>A shallow copy of the object without metadata.managedFields, dumped by js-yaml.\<close>

definition toEditableYaml :: "(json \<Rightarrow> string) \<Rightarrow> jval \<Rightarrow> string" where
  "toEditableYaml dump raw =
    (let obj = (case raw of Some (JObj kv) \<Rightarrow> kv | _ \<Rightarrow> [])
     in dump (JObj (case map_of obj ''metadata'' of
          Some (JObj m) \<Rightarrow> AList.update ''metadata'' (JObj (filter (\<lambda>(k, v). k \<noteq> ''managedFields'') m)) obj
        | _ \<Rightarrow> obj)))"

text \<open>A row is named by its name and namespace.  An object that failed to load is None, as
  is a text that js-yaml cannot parse; a text may hold no document at all.\<close>

type_synonym row_id = "string \<times> string"

record editor =
  ed_open :: bool
  ed_item :: "row_id option"
  ed_readonly :: bool
  ed_text :: string
  ed_applying :: bool
  ed_seq :: nat
  ed_loads :: "(nat \<times> row_id) list"
  ed_sent :: "request list"
  ed_toasts :: "string list"
  ed_bursts :: nat

definition ed_init :: editor where
  "ed_init = \<lparr>ed_open = False, ed_item = None, ed_readonly = False, ed_text = [], ed_applying = False, ed_seq = 0,
     ed_loads = [], ed_sent = [], ed_toasts = [], ed_bursts = 0\<rparr>"

definition openEditor :: "row_id \<Rightarrow> bool \<Rightarrow> editor \<Rightarrow> editor" where
  "openEditor item ro s =
    (let n = Suc (ed_seq s)
     in s\<lparr>ed_seq := n, ed_item := Some item, ed_readonly := ro, ed_text := [], ed_open := True,
          ed_loads := (n, item) # ed_loads s\<rparr>)"

definition editor_request :: "string \<Rightarrow> string \<Rightarrow> CRRef option \<Rightarrow> row_id \<Rightarrow> request" where
  "editor_request clusterId type cr item = getWorkload clusterId type (fst item) (snd item) cr"

definition editor_loaded :: "(json \<Rightarrow> string) \<Rightarrow> nat \<Rightarrow> jval option \<Rightarrow> editor \<Rightarrow> editor" where
  "editor_loaded dump n r s =
    (let s' = s\<lparr>ed_loads := filter (\<lambda>l. fst l \<noteq> n) (ed_loads s)\<rparr>
     in if n \<notin> fst ` set (ed_loads s) then s
        else if n \<noteq> ed_seq s then s'
        else case r of Some raw \<Rightarrow> s'\<lparr>ed_text := toEditableYaml dump raw\<rparr>
             | None \<Rightarrow> s'\<lparr>ed_toasts := ed_toasts s @ [''pages.workloads.loadError''], ed_open := False\<rparr>)"

definition apply_request :: "string \<Rightarrow> string \<Rightarrow> CRRef option \<Rightarrow> row_id \<Rightarrow> jval \<Rightarrow> request" where
  "apply_request clusterId type cr item doc =
    (applyWorkload clusterId type (fst item) (snd item) (the doc) cr)
      \<lparr>rq_body := (case doc of None \<Rightarrow> NoBody | Some d \<Rightarrow> JsonBody d)\<rparr>"

text \<open>A parse error is thrown inside the try block, whose handler says nothing.\<close>

definition editor_apply ::
  "(string \<Rightarrow> jval option) \<Rightarrow> (row_id \<Rightarrow> jval \<Rightarrow> request) \<Rightarrow> editor \<Rightarrow> editor" where
  "editor_apply load put s =
    (case ed_item s of None \<Rightarrow> s
     | Some item \<Rightarrow> (case load (ed_text s) of None \<Rightarrow> s
         | Some doc \<Rightarrow> s\<lparr>ed_applying := True, ed_sent := ed_sent s @ [put item doc]\<rparr>))"

definition editor_applied :: "bool \<Rightarrow> editor \<Rightarrow> editor" where
  "editor_applied ok s =
    (if \<not> ed_applying s then s
     else if ok then s\<lparr>ed_applying := False, ed_toasts := ed_toasts s @ [''pages.workloads.apply.success''],
            ed_open := False, ed_bursts := Suc (ed_bursts s)\<rparr>
     else s\<lparr>ed_applying := False\<rparr>)"

text \<open>The editor stands in place of the loading line while the text is not empty; Apply is
  offered outside the read-only view and spins while a request is under way.\<close>

definition editor_view :: "editor \<Rightarrow> string option" where
  "editor_view s = (if ed_text s = [] then None else Some (ed_text s))"

datatype editor_act = OpenEditor row_id bool | Loaded nat "jval option" | TypeYaml string | CloseEditor | ClickApply | Applied bool

definition editor_step ::
  "(json \<Rightarrow> string) \<Rightarrow> (string \<Rightarrow> jval option) \<Rightarrow> (row_id \<Rightarrow> jval \<Rightarrow> request) \<Rightarrow> editor_act \<Rightarrow> editor \<Rightarrow> editor" where
  "editor_step dump load put a s = (case a of
     OpenEditor item ro \<Rightarrow> openEditor item ro s
   | Loaded n r \<Rightarrow> editor_loaded dump n r s
   | TypeYaml t \<Rightarrow> if ed_open s \<and> \<not> ed_readonly s \<and> editor_view s \<noteq> None then s\<lparr>ed_text := t\<rparr> else s
   | CloseEditor \<Rightarrow> s\<lparr>ed_open := False\<rparr>
   | ClickApply \<Rightarrow> if ed_open s \<and> \<not> ed_readonly s \<and> \<not> ed_applying s then editor_apply load put s else s
   | Applied ok \<Rightarrow> editor_applied ok s)"

text \<open>An execution against a server that answers every load of a row with its object, or
  with an error.\<close>

fun served :: "(row_id \<Rightarrow> jval) \<Rightarrow> editor_act \<Rightarrow> editor \<Rightarrow> bool" where
  "served raw (Loaded n (Some r)) s = (\<forall>l \<in> set (ed_loads s). fst l = n \<longrightarrow> r = raw (snd l))"
| "served raw (TypeYaml t) s = False"
| "served raw a s = True"

inductive editor_run ::
  "(json \<Rightarrow> string) \<Rightarrow> (string \<Rightarrow> jval option) \<Rightarrow> (row_id \<Rightarrow> jval \<Rightarrow> request) \<Rightarrow> (row_id \<Rightarrow> jval) \<Rightarrow> editor \<Rightarrow> bool"
  for dump load put raw where
  start: "editor_run dump load put raw ed_init"
| act: "editor_run dump load put raw s \<Longrightarrow> served raw a s \<Longrightarrow> editor_run dump load put raw (editor_step dump load put a s)"

definition editor_ok ::
  "(json \<Rightarrow> string) \<Rightarrow> (string \<Rightarrow> jval option) \<Rightarrow> (row_id \<Rightarrow> jval \<Rightarrow> request) \<Rightarrow> (row_id \<Rightarrow> jval) \<Rightarrow> editor \<Rightarrow> bool" where
  "editor_ok dump load put raw s \<longleftrightarrow>
    (ed_text s \<noteq> [] \<longrightarrow> (\<exists>i. ed_item s = Some i \<and> ed_text s = toEditableYaml dump (raw i))) \<and>
    (\<forall>(n, i) \<in> set (ed_loads s). n \<le> ed_seq s \<and> (n = ed_seq s \<longrightarrow> ed_item s = Some i)) \<and>
    (\<forall>r \<in> set (ed_sent s). \<exists>i t d. r = put i d \<and> load t = Some d \<and> t \<in> {[], toEditableYaml dump (raw i)})"

lemma editor_ok_step:
  assumes "editor_ok dump load put raw s" "served raw a s"
  shows "editor_ok dump load put raw (editor_step dump load put a s)"
proof (cases a)
  case (OpenEditor i ro)
  then show ?thesis using assms(1) by (force simp: editor_ok_def editor_step_def openEditor_def Let_def)
next
  case (Loaded n r)
  then show ?thesis using assms
    by (cases r) (force simp: editor_ok_def editor_step_def editor_loaded_def Let_def)+
next
  case ClickApply
  show ?thesis
  proof (cases "ed_item s")
    case None
    then show ?thesis using assms(1) ClickApply by (simp add: editor_step_def editor_apply_def)
  next
    case (Some i)
    have "\<exists>j t e. put i d = put j e \<and> load t = Some e \<and> t \<in> {[], toEditableYaml dump (raw j)}"
      if "load (ed_text s) = Some d" for d
    proof (intro exI conjI)
      show "load (ed_text s) = Some d" by (rule that)
      show "ed_text s \<in> {[], toEditableYaml dump (raw i)}" using assms(1) Some by (auto simp: editor_ok_def)
    qed (rule refl)
    then show ?thesis using assms(1) ClickApply Some
      by (auto simp: editor_step_def editor_apply_def editor_ok_def simp del: split_paired_Ex split: option.splits)
  qed
qed (use assms in \<open>auto simp: editor_step_def editor_ok_def editor_applied_def\<close>)

lemma editor_run_ok: "editor_run dump load put raw s \<Longrightarrow> editor_ok dump load put raw s"
  by (induction rule: editor_run.induct) (auto simp: editor_ok_step, simp add: editor_ok_def ed_init_def)

text \<open>However the rows are opened, closed and applied, and in whatever order their loads
  answer: the text in the drawer is the manifest of the row the drawer names, without its
  managed fields, and every request that Apply sent writes to a row the manifest of that
  same row, or what an empty text stands for.\<close>

theorem editor_keeps_to_its_row:
  assumes "editor_run dump load (apply_request clusterId type cr) raw s"
  shows "(ed_text s = [] \<or> (\<exists>i. ed_item s = Some i \<and> editor_view s = Some (toEditableYaml dump (raw i)))) \<and>
    list_all (\<lambda>r. \<exists>i t d. r = apply_request clusterId type cr i d \<and> load t = Some d \<and>
      t \<in> {[], toEditableYaml dump (raw i)}) (ed_sent s)"
  using editor_run_ok[OF assms] by (cases "ed_text s = []") (auto simp: editor_ok_def editor_view_def list_all_iff)


lemma editor_keeps_to_its_row_witness:
  "let item = (''api'', ''ml''); raw = Some (JObj [(''kind'', JStr ''Pod'')]);
       s = editor_step (\<lambda>_. ''kind: Pod'') (\<lambda>_. Some raw) (apply_request ''c1'' ''pods'' None) ClickApply
         (editor_step (\<lambda>_. ''kind: Pod'') (\<lambda>_. Some raw) (apply_request ''c1'' ''pods'' None) (Loaded 1 (Some raw))
           (editor_step (\<lambda>_. ''kind: Pod'') (\<lambda>_. Some raw) (apply_request ''c1'' ''pods'' None) (OpenEditor item False) ed_init))
   in editor_view s = Some ''kind: Pod'' \<and> ed_sent s = [apply_request ''c1'' ''pods'' None item raw] \<and>
      (ed_text s = [] \<or> (\<exists>i. ed_item s = Some i \<and> editor_view s = Some (toEditableYaml (\<lambda>_. ''kind: Pod'') raw)))"
proof -
  define raw where "raw = (Some (JObj [(''kind'', JStr ''Pod'')]) :: jval)"
  define step where "step = editor_step (\<lambda>_. ''kind: Pod'') (\<lambda>_. Some raw) (apply_request ''c1'' ''pods'' None)"
  define s where "s = step ClickApply (step (Loaded 1 (Some raw)) (step (OpenEditor (''api'', ''ml'') False) ed_init))"
  have "editor_run (\<lambda>_. ''kind: Pod'') (\<lambda>_. Some raw) (apply_request ''c1'' ''pods'' None) (\<lambda>_. raw) s"
    unfolding s_def step_def raw_def by (intro editor_run.intros) (simp_all add: editor_step_def openEditor_def ed_init_def)
  note editor_keeps_to_its_row[OF this]
  moreover have "editor_view s = Some ''kind: Pod'' \<and> ed_sent s = [apply_request ''c1'' ''pods'' None (''api'', ''ml'') raw]"
    by (simp add: s_def step_def raw_def editor_step_def openEditor_def editor_loaded_def editor_apply_def editor_view_def
        ed_init_def toEditableYaml_def Let_def)
  ultimately show ?thesis unfolding Let_def s_def step_def raw_def by blast
qed

text \<open>An apply that answers after another row was opened closes that row's drawer.\<close>

theorem late_apply_closes_next_row:
  assumes "ed_open s" "\<not> ed_readonly s" "\<not> ed_applying s" "ed_item s = Some a" "load (ed_text s) = Some doc"
  shows "let s' = fold (editor_step dump load put) [ClickApply, OpenEditor b ro, Applied True] s
    in ed_item s' = Some b \<and> \<not> ed_open s' \<and> ed_loads s' = (Suc (ed_seq s), b) # ed_loads s"
  using assms by (simp add: editor_step_def editor_apply_def openEditor_def editor_applied_def Let_def)

text \<open>A text that does not parse is refused in silence, and one that is not loaded yet is
  sent as what the empty document stands for.\<close>

theorem apply_of_unparsable_text_is_silent:
  "load (ed_text s) = None \<Longrightarrow> editor_step dump load put ClickApply s = s"
  by (cases "ed_item s") (auto simp: editor_step_def editor_apply_def)

theorem apply_before_load_sends_no_body:
  assumes "load [] = Some None"
  shows "let s = fold (editor_step dump load (apply_request clusterId type cr)) [OpenEditor i False, ClickApply] ed_init
    in \<exists>r. ed_sent s = [r] \<and> rq_method r = ''PUT'' \<and> rq_body r = NoBody"
  using assms by (simp add: editor_step_def editor_apply_def openEditor_def ed_init_def apply_request_def applyWorkload_def Let_def)

end
