(* ===== verification/NamespacePick.thy ===== *)
theory NamespacePick
  imports WorkloadTable
begin

text \<open>
  models/namespace.ts and components/NamespacePicker: the namespace selected per cluster
  and its list, and the pages on which the picker is shown.
\<close>

record NamespaceState =
  ns_selected :: string
  ns_list :: "string list"
  ns_loading :: bool

definition DEFAULT_NS :: NamespaceState where
  "DEFAULT_NS = \<lparr>ns_selected = [], ns_list = [], ns_loading = False\<rparr>"

type_synonym by_cluster = "string \<rightharpoonup> NamespaceState"

definition ns_get :: "by_cluster \<Rightarrow> string \<Rightarrow> NamespaceState" where
  "ns_get m cid = (case m cid of None \<Rightarrow> DEFAULT_NS | Some s \<Rightarrow> s)"

definition setSelected :: "string \<Rightarrow> string \<Rightarrow> by_cluster \<Rightarrow> by_cluster" where
  "setSelected cid ns m = m(cid \<mapsto> (ns_get m cid)\<lparr>ns_selected := ns\<rparr>)"

definition ns_refresh :: "string \<Rightarrow> by_cluster \<Rightarrow> by_cluster" where
  "ns_refresh cid m = m(cid \<mapsto> (ns_get m cid)\<lparr>ns_loading := True\<rparr>)"

text \<open>The answer to listNamespaces: a list, or None for an error.\<close>

definition ns_refreshed :: "string \<Rightarrow> string list option \<Rightarrow> by_cluster \<Rightarrow> by_cluster" where
  "ns_refreshed cid r m =
    m(cid \<mapsto> (case r of Some xs \<Rightarrow> (ns_get m cid)\<lparr>ns_list := xs, ns_loading := False\<rparr>
            | None \<Rightarrow> (ns_get m cid)\<lparr>ns_loading := False\<rparr>))"

datatype ns_act = Select string string | RefreshNs string | Refreshed string "string list option"

definition ns_step :: "ns_act \<Rightarrow> by_cluster \<Rightarrow> by_cluster" where
  "ns_step a m = (case a of
     Select cid ns \<Rightarrow> setSelected cid ns m
   | RefreshNs cid \<Rightarrow> ns_refresh cid m
   | Refreshed cid r \<Rightarrow> ns_refreshed cid r m)"

text \<open>The cluster and the resource that the two patterns find in a path, and the picker's
  onChange, whose cleared value is undefined.\<close>

definition clusterMatch :: "string \<Rightarrow> (string \<times> string) option" where
  "clusterMatch pathname = (case split_on (\<lambda>c. c = CHR ''/'') pathname of
     e # p # cid # w # t # _ \<Rightarrow>
       if e = [] \<and> p = ''clusters'' \<and> cid \<noteq> [] \<and> w = ''workloads'' \<and> t \<noteq> [] then Some (cid, t) else None
   | _ \<Rightarrow> None)"

definition computeMatch :: "string \<Rightarrow> (string \<times> string) option" where
  "computeMatch pathname = (case split_on (\<lambda>c. c = CHR ''/'') pathname of
     e # p # cid # k # _ \<Rightarrow> if e = [] \<and> p = ''compute'' \<and> cid \<noteq> [] \<and> k \<noteq> [] then Some (cid, k) else None
   | _ \<Rightarrow> None)"

definition COMPUTE_NAMESPACED_KINDS :: "string list" where
  "COMPUTE_NAMESPACED_KINDS = [''jobs'', ''cronjobs'', ''podgroups'']"

definition NamespacePicker :: "string \<Rightarrow> string \<Rightarrow> string option" where
  "NamespacePicker pathname search =
    (let cm = clusterMatch pathname; km = computeMatch pathname;
         m = (case cm of Some x \<Rightarrow> Some x | None \<Rightarrow> km);
         isNamespaced = (case m of None \<Rightarrow> True | Some (_, resourceType) \<Rightarrow>
           if km \<noteq> None then resourceType \<in> set COMPUTE_NAMESPACED_KINDS
           else if resourceType = ''_cr'' then map_of (parse_search search) ''scope'' \<noteq> Some ''Cluster''
           else resourceType \<notin> set CLUSTER_SCOPED_TYPES)
     in case m of None \<Rightarrow> None | Some (clusterId, _) \<Rightarrow> if isNamespaced then Some clusterId else None)"

definition ns_filter_option :: "string \<Rightarrow> string \<Rightarrow> bool" where
  "ns_filter_option input label \<longleftrightarrow> str_includes (to_lower (trim input)) (to_lower label)"

definition ns_options :: "by_cluster \<Rightarrow> string \<Rightarrow> string \<Rightarrow> string list" where
  "ns_options m clusterId input = filter (ns_filter_option input) (ns_list (ns_get m clusterId))"

definition pick_namespace :: "string \<Rightarrow> string option \<Rightarrow> ns_act" where
  "pick_namespace clusterId v = Select clusterId (case v of None \<Rightarrow> [] | Some n \<Rightarrow> n)"

text \<open>The last selection made for a cluster, empty before the first one.\<close>

fun last_selected :: "string \<Rightarrow> ns_act list \<Rightarrow> string \<Rightarrow> string" where
  "last_selected cid [] cur = cur"
| "last_selected cid (Select i n # as) cur = last_selected cid as (if i = cid then n else cur)"
| "last_selected cid (_ # as) cur = last_selected cid as cur"

lemma selected_step:
  "ns_selected (ns_get (ns_step a m) cid) =
    (case a of Select i n \<Rightarrow> if i = cid then n else ns_selected (ns_get m cid) | _ \<Rightarrow> ns_selected (ns_get m cid))"
  by (cases a) (auto simp: ns_step_def setSelected_def ns_refresh_def ns_refreshed_def ns_get_def split: option.splits)

lemma selected_fold: "ns_selected (ns_get (fold ns_step as m) cid) = last_selected cid as (ns_selected (ns_get m cid))"
proof (induction as arbitrary: m)
  case (Cons a as)
  show ?case by (cases a) (simp_all add: Cons selected_step)
qed simp

text \<open>The selection of a cluster is the last one made for it, whatever else was selected,
  refreshed or answered, for it or for another cluster, and in whatever order; before the
  first one it is empty, which stands for all namespaces.\<close>

theorem selection_is_per_cluster:
  "ns_selected (ns_get (fold ns_step as Map.empty) cid) = last_selected cid as []"
  by (simp add: selected_fold) (simp add: ns_get_def DEFAULT_NS_def)

text \<open>The picker in the top bar and the table agree on every workload page: the picker is
  shown, for the page's cluster, exactly on the pages whose resource has namespaces,
  built-in or custom.\<close>

theorem picker_in_lockstep_with_table:
  assumes "clusterId \<noteq> []" "CHR ''/'' \<notin> set clusterId"
    and "WorkloadsPage clusterId type search = (case cr of None \<Rightarrow> TypeTable type | Some c \<Rightarrow> CRViewer c)"
    and "type = ''_cr'' \<longleftrightarrow> cr \<noteq> None"
  shows "NamespacePicker (path [''clusters'', clusterId, ''workloads'', type]) search =
    (if isClusterScoped type cr then None else Some clusterId)"
proof -
  have ty: "type \<in> set (''_cr'' # VALID_TYPES)" "(type = ''_cr'' \<and> (\<exists>c. cr = Some c \<and> crRefFromSearch (parse_search search) = Some c)) \<or> cr = None"
    using assms(3,4) by (auto simp: WorkloadsPage_def split: option.splits if_splits)
  have "\<forall>t \<in> set (''_cr'' # VALID_TYPES). t \<noteq> [] \<and> CHR ''/'' \<notin> set t" by (simp add: VALID_TYPES_def)
  then have t: "type \<noteq> []" "CHR ''/'' \<notin> set type" using ty(1) by blast+
  have "split_on (\<lambda>c. c = CHR ''/'') (clusterId @ CHR ''/'' # u) = clusterId # split_on (\<lambda>c. c = CHR ''/'') u" for u
    using assms(2) by (intro split_on_append) auto
  moreover have "split_on (\<lambda>c. c = CHR ''/'') type = [type]" using t(2) by (intro split_on_none) auto
  ultimately have "split_on (\<lambda>c. c = CHR ''/'') (path [''clusters'', clusterId, ''workloads'', type]) =
      [[], ''clusters'', clusterId, ''workloads'', type]"
    by (simp add: path_def)
  then have m: "clusterMatch (path [''clusters'', clusterId, ''workloads'', type]) = Some (clusterId, type)"
    "computeMatch (path [''clusters'', clusterId, ''workloads'', type]) = None"
    using assms(1) t(1) by (simp_all add: clusterMatch_def computeMatch_def)
  show ?thesis
    using ty(2) assms(4) m
    by (auto simp: NamespacePicker_def isClusterScoped_def crRefFromSearch_def split: option.splits if_splits)
qed

theorem picker_in_lockstep_with_table_witness:
  "NamespacePicker (path [''clusters'', ''c1'', ''workloads'', ''pods'']) [] = Some ''c1'' \<and>
   NamespacePicker (path [''clusters'', ''c1'', ''workloads'', ''nodes'']) [] = None"
  using picker_in_lockstep_with_table[of "''c1''" "''pods''" "[]" None]
  by (simp add: WorkloadsPage_def VALID_TYPES_def isClusterScoped_def CLUSTER_SCOPED_TYPES_def)
    (simp add: NamespacePicker_def clusterMatch_def computeMatch_def path_def CLUSTER_SCOPED_TYPES_def)

text \<open>Three pages that list what the selected namespace holds have no picker to select it.\<close>

theorem picker_missing_on_namespaced_pages:
  "\<forall>kind \<in> set [''jobflows'', ''jobtemplates'', ''colocationconfigurations''].
    NamespacePicker (path [''compute'', ''c1'', kind]) search = None"
  by (simp add: NamespacePicker_def clusterMatch_def computeMatch_def path_def COMPUTE_NAMESPACED_KINDS_def)

end
