(* ===== verification/EffectLoad.thy ===== *)
theory EffectLoad
  imports Main
begin

text \<open>
  The contract of the drawers that load an object when they open: every run of the loading
  effect has a number, a load in flight carries the number of the run that sent it, and only
  the answer to the current run is shown.  A client states which of its fields these are;
  what it then gets is that the object on screen is that of the current target.
\<close>

locale effect_loader =
  fixes step :: "'a \<Rightarrow> 's \<Rightarrow> 's"
    and run_no :: "'s \<Rightarrow> nat"
    and flights :: "'s \<Rightarrow> (nat \<times> 't) list"
    and target :: "'s \<Rightarrow> 't option"
    and loaded :: "'s \<Rightarrow> 'v option"
    and good :: "'t \<Rightarrow> 'v \<Rightarrow> bool"
    and fair :: "'a \<Rightarrow> 's \<Rightarrow> bool"
  assumes run_mono: "run_no s \<le> run_no (step a s)"
    and target_kept: "run_no (step a s) = run_no s \<Longrightarrow> target (step a s) = target s"
    and flights_step: "l \<in> set (flights (step a s)) \<Longrightarrow> l \<in> set (flights s) \<or>
      (fst l = run_no (step a s) \<and> run_no s < run_no (step a s) \<and> target (step a s) = Some (snd l))"
    and loaded_step: "fair a s \<Longrightarrow> loaded (step a s) = Some v \<Longrightarrow> run_no (step a s) = run_no s \<and>
      (loaded s = Some v \<or> (\<exists>t. (run_no s, t) \<in> set (flights s) \<and> good t v))"
begin

definition loads_ok :: "'s \<Rightarrow> bool" where
  "loads_ok s \<longleftrightarrow>
    (\<forall>l \<in> set (flights s). fst l \<le> run_no s \<and> (fst l = run_no s \<longrightarrow> target s = Some (snd l))) \<and>
    (\<forall>v. loaded s = Some v \<longrightarrow> (\<exists>t. target s = Some t \<and> good t v))"

lemma loads_ok_start: "flights s = [] \<Longrightarrow> loaded s = None \<Longrightarrow> loads_ok s"
  by (simp add: loads_ok_def)

lemma loads_ok_step:
  assumes "loads_ok s" "fair a s"
  shows "loads_ok (step a s)"
  unfolding loads_ok_def
proof (intro conjI ballI allI impI)
  fix l assume l: "l \<in> set (flights (step a s))"
  show "fst l \<le> run_no (step a s)"
    using flights_step[OF l] assms(1) run_mono[of s a] by (auto simp: loads_ok_def)
  show "target (step a s) = Some (snd l)" if "fst l = run_no (step a s)"
    using flights_step[OF l]
  proof
    assume "l \<in> set (flights s)"
    then have "fst l \<le> run_no s" "fst l = run_no s \<longrightarrow> target s = Some (snd l)" using assms(1) by (auto simp: loads_ok_def)
    then show ?thesis using that run_mono[of s a] target_kept[of a s] by auto
  qed simp
next
  fix v assume v: "loaded (step a s) = Some v"
  then show "\<exists>t. target (step a s) = Some t \<and> good t v"
    using loaded_step[OF assms(2) v] target_kept[of a s] assms(1) by (fastforce simp: loads_ok_def)
qed

lemma loaded_is_of_target: "loads_ok s \<Longrightarrow> loaded s = Some v \<Longrightarrow> \<exists>t. target s = Some t \<and> good t v"
  by (simp add: loads_ok_def)

end

text \<open>Executions whose every step the environment takes fairly.\<close>

fun fair_run :: "('a \<Rightarrow> 's \<Rightarrow> 's) \<Rightarrow> ('a \<Rightarrow> 's \<Rightarrow> bool) \<Rightarrow> 's \<Rightarrow> 'a list \<Rightarrow> bool" where
  "fair_run step fair s [] = True"
| "fair_run step fair s (a # as) = (fair a s \<and> fair_run step fair (step a s) as)"

lemma fair_run_invariant:
  assumes "\<And>a s. I s \<Longrightarrow> fair a s \<Longrightarrow> I (step a s)"
  shows "I s \<Longrightarrow> fair_run step fair s as \<Longrightarrow> I (fold step as s)"
  by (induction as arbitrary: s) (simp_all add: assms)

context effect_loader
begin

lemma loads_ok_run: "loads_ok s \<Longrightarrow> fair_run step fair s as \<Longrightarrow> loads_ok (fold step as s)"
  by (rule fair_run_invariant[of loads_ok fair step]) (simp_all add: loads_ok_step)

end

end
