(* ===== verification/WorkloadDrawers.thy ===== *)
theory WorkloadDrawers
  imports Workload PodLogs SystemMonitor EffectLoad
begin

text \<open>
  The drawers of the workload table that read one object: DescribeDrawer.tsx with its
  highlighting, ScaleModal.tsx, PodTopDrawer.tsx and RolloutHistoryDrawer.tsx.
\<close>

section \<open>Describe\<close>

record Palette =
  pl_key :: string
  pl_good :: string
  pl_warn :: string

datatype piece = Verbatim string | Coloured string string

fun piece_text :: "piece \<Rightarrow> string" where
  "piece_text (Verbatim s) = s"
| "piece_text (Coloured c s) = s"

text \<open>What the dot of a regular expression matches, and what counts as a word character.\<close>

definition dot_ok :: "string \<Rightarrow> bool" where
  "dot_ok s \<longleftrightarrow> CHR 0x0A \<notin> set s \<and> CHR 0x0D \<notin> set s \<and>
    \<not> str_includes [CHR 0xE2, CHR 0x80, CHR 0xA8] s \<and> \<not> str_includes [CHR 0xE2, CHR 0x80, CHR 0xA9] s"

definition is_word :: "char \<Rightarrow> bool" where
  "is_word c = (let n = of_char c :: nat in
     (48 \<le> n \<and> n \<le> 57) \<or> (65 \<le> n \<and> n \<le> 90) \<or> (97 \<le> n \<and> n \<le> 122) \<or> n = 95)"

text \<open>The two patterns, as what their groups capture.\<close>

definition events_row :: "string \<Rightarrow> (string \<times> string \<times> string) option" where
  "events_row line =
    (let indent = takeWhile is_ws line; r = dropWhile is_ws line
     in if indent = [] then None
        else case find (\<lambda>t. starts_with t r) [''Normal'', ''Warning''] of
          None \<Rightarrow> None
        | Some t \<Rightarrow> (let rest = drop (length t) r
            in if (rest = [] \<or> \<not> is_word (hd rest)) \<and> dot_ok rest then Some (indent, t, rest) else None))"

definition key_row :: "string \<Rightarrow> (string \<times> string \<times> string \<times> string) option" where
  "key_row line =
    (let indent = takeWhile is_ws line; r = dropWhile is_ws line;
         key = takeWhile (\<lambda>c. c \<noteq> CHR '':'') r; after = drop 1 (dropWhile (\<lambda>c. c \<noteq> CHR '':'') r);
         rest = dropWhile is_ws after
     in if key = [] \<or> CHR '':'' \<notin> set r \<or> \<not> (after = [] \<or> is_ws (hd after)) \<or> \<not> dot_ok rest then None
        else Some (indent, key, takeWhile is_ws after, rest))"

definition highlightLine_describe :: "string \<Rightarrow> Palette \<Rightarrow> bool \<Rightarrow> piece list" where
  "highlightLine_describe line p inEvents =
    (case (if inEvents then events_row line else None) of
       Some (indent, t, rest) \<Rightarrow>
         [Verbatim indent, Coloured (if t = ''Normal'' then pl_good p else pl_warn p) t, Verbatim rest]
     | None \<Rightarrow> (case key_row line of
         Some (indent, key, gap, rest) \<Rightarrow> [Verbatim indent, Coloured (pl_key p) (key @ '':''), Verbatim gap, Verbatim rest]
       | None \<Rightarrow> [Verbatim line]))"

definition events_header :: "string \<Rightarrow> bool" where
  "events_header line \<longleftrightarrow> starts_with ''Events:'' line \<and> list_all is_ws (drop 7 line)"

fun highlight_lines :: "Palette \<Rightarrow> bool \<Rightarrow> string list \<Rightarrow> piece list" where
  "highlight_lines p inEvents [] = []"
| "highlight_lines p inEvents (line # ls) =
    (let e = inEvents \<or> events_header line
     in highlightLine_describe line p e @ [Verbatim [CHR 0x0A]] @ highlight_lines p e ls)"

definition highlighted :: "Palette \<Rightarrow> string \<Rightarrow> piece list" where
  "highlighted p t = (if t = [] then [] else highlight_lines p False (split_on (\<lambda>c. c = CHR 0x0A) t))"

lemma events_row_text:
  assumes "events_row line = Some (i, t, r)"
  shows "i @ t @ r = line" "t \<in> {''Normal'', ''Warning''}"
proof -
  let ?r = "dropWhile is_ws line"
  obtain t' where f: "find (\<lambda>t. starts_with t ?r) [''Normal'', ''Warning''] = Some t'"
    and e: "i = takeWhile is_ws line" "t = t'" "r = drop (length t') ?r"
    using assms by (auto simp: events_row_def Let_def simp del: find.simps split: if_splits option.splits)
  have "starts_with t ?r" "t \<in> {''Normal'', ''Warning''}"
    using f e(2) by (auto simp only: find.simps option.inject option.distinct insert_iff split: if_splits)
  then show "t \<in> {''Normal'', ''Warning''}" "i @ t @ r = line"
    using e by (auto simp: starts_with_iff) (metis takeWhile_dropWhile_id)+
qed

lemma key_row_text:
  assumes "key_row line = Some (i, k, g, r)"
  shows "i @ k @ '':'' @ g @ r = line" "k \<noteq> []" "CHR '':'' \<notin> set k"
proof -
  let ?r = "dropWhile is_ws line"
  have c: "CHR '':'' \<in> set ?r" and k: "k = takeWhile (\<lambda>c. c \<noteq> CHR '':'') ?r" "k \<noteq> []"
    and gr: "g @ r = drop 1 (dropWhile (\<lambda>c. c \<noteq> CHR '':'') ?r)" and i: "i = takeWhile is_ws line"
    using assms by (auto simp: key_row_def Let_def split: if_splits)
  have "dropWhile (\<lambda>c. c \<noteq> CHR '':'') ?r = CHR '':'' # drop 1 (dropWhile (\<lambda>c. c \<noteq> CHR '':'') ?r)"
    using c hd_dropWhile[of "\<lambda>c. c \<noteq> CHR '':''" ?r]
    by (cases "dropWhile (\<lambda>c. c \<noteq> CHR '':'') ?r") auto
  then have "k @ '':'' @ g @ r = ?r" using k(1) gr takeWhile_dropWhile_id[of "\<lambda>c. c \<noteq> CHR '':''" ?r] by simp
  then show "i @ k @ '':'' @ g @ r = line" using i by simp
  show "k \<noteq> []" by (rule k)
  show "CHR '':'' \<notin> set k" using k(1) by (auto dest: set_takeWhileD)
qed

lemma describe_line_text: "concat (map piece_text (highlightLine_describe line p e)) = line"
proof (cases "if e then events_row line else None")
  case None
  then show ?thesis
    by (cases "key_row line") (auto simp: highlightLine_describe_def dest: key_row_text(1))
next
  case (Some r)
  obtain i t u where "r = (i, t, u)" by (cases r)
  then show ?thesis using Some events_row_text[of line i t u] by (auto simp: highlightLine_describe_def split: if_splits)
qed

lemma highlight_lines_text:
  "concat (map piece_text (highlight_lines p e ls)) = concat (map (\<lambda>l. l @ [CHR 0x0A]) ls)"
  by (induction ls arbitrary: e) (simp_all add: Let_def describe_line_text)

text \<open>A coloured piece is the key of a line with its colon, or the Type of an event.\<close>

fun piece_ok :: "Palette \<Rightarrow> piece \<Rightarrow> bool" where
  "piece_ok p (Verbatim s) = True"
| "piece_ok p (Coloured c s) =
    ((c, s) \<in> {(pl_good p, ''Normal''), (pl_warn p, ''Warning'')} \<or>
     c = pl_key p \<and> (\<exists>k. s = k @ '':'' \<and> k \<noteq> [] \<and> CHR '':'' \<notin> set k))"

lemma describe_line_ok: "list_all (piece_ok p) (highlightLine_describe line p e)"
proof (cases "if e then events_row line else None")
  case None
  then show ?thesis
    using key_row_text[of line] by (cases "key_row line") (auto simp: highlightLine_describe_def)
next
  case (Some r)
  obtain i t u where "r = (i, t, u)" by (cases r)
  then show ?thesis using Some events_row_text[of line i t u] by (auto simp: highlightLine_describe_def split: if_splits)
qed

lemma highlight_lines_ok: "list_all (piece_ok p) (highlight_lines p e ls)"
  by (induction ls arbitrary: e) (simp_all add: Let_def describe_line_ok)

lemma unlines_split: "concat (map (\<lambda>l. l @ [d]) (split_on (\<lambda>c. c = d) t)) = t @ [d]"
  by (induction t) (auto split: list.splits)

text \<open>The describe drawer shows the text that the server sent, character for character and
  with a final line break, and colours in it only the keys in front of a colon and the types
  of the events.\<close>

theorem describe_shows_the_text:
  "concat (map piece_text (highlighted p t)) = (if t = [] then [] else t @ [CHR 0x0A]) \<and>
   list_all (piece_ok p) (highlighted p t)"
  by (simp add: highlighted_def highlight_lines_text highlight_lines_ok unlines_split)

subsection \<open>The drawer\<close>

text \<open>What the drawer describes: the resource type, the name, the namespace and the GVK.
  A run of the effect is cancelled when its dependencies change or the drawer closes.\<close>

type_synonym describe_target = "string \<times> string \<times> string \<times> CRRef option"

record describe =
  ds_target :: "describe_target option"
  ds_text :: string
  ds_loading :: bool
  ds_error :: "string option"
  ds_run :: nat
  ds_flights :: "(nat \<times> describe_target) list"

definition ds_init :: describe where
  "ds_init = \<lparr>ds_target = None, ds_text = [], ds_loading = False, ds_error = None, ds_run = 0, ds_flights = []\<rparr>"

definition describe_request :: "string \<Rightarrow> describe_target \<Rightarrow> request" where
  "describe_request clusterId t = (case t of (ty, nm, ns, cr) \<Rightarrow> describeWorkload clusterId ty nm ns cr)"

definition open_describe :: "describe_target \<Rightarrow> describe \<Rightarrow> describe" where
  "open_describe t s =
    s\<lparr>ds_target := Some t, ds_loading := True, ds_error := None, ds_text := [], ds_run := Suc (ds_run s),
      ds_flights := (Suc (ds_run s), t) # ds_flights s\<rparr>"

definition close_describe :: "describe \<Rightarrow> describe" where
  "close_describe s = s\<lparr>ds_target := None, ds_run := Suc (ds_run s)\<rparr>"

definition describe_text :: "jval \<Rightarrow> string" where
  "describe_text res = (case res of Some (JStr t) \<Rightarrow> t | _ \<Rightarrow> [])"

text \<open>The answer to the load of a run: the response or the message of the error.\<close>

definition described :: "nat \<Rightarrow> string + jval \<Rightarrow> describe \<Rightarrow> describe" where
  "described n r s =
    (let s' = s\<lparr>ds_flights := filter (\<lambda>l. fst l \<noteq> n) (ds_flights s)\<rparr>
     in if n \<notin> fst ` set (ds_flights s) \<or> n \<noteq> ds_run s then s'
        else case r of Inl m \<Rightarrow> s'\<lparr>ds_error := Some m, ds_loading := False\<rparr>
             | Inr res \<Rightarrow> s'\<lparr>ds_text := describe_text res, ds_loading := False\<rparr>)"

datatype describe_act = OpenDescribe describe_target | CloseDescribe | Described nat "string + jval"

definition describe_step :: "describe_act \<Rightarrow> describe \<Rightarrow> describe" where
  "describe_step a s = (case a of
     OpenDescribe t \<Rightarrow> open_describe t s
   | CloseDescribe \<Rightarrow> close_describe s
   | Described n r \<Rightarrow> described n r s)"

text \<open>What is on screen: the spinner, or the banner of an error and the text.\<close>

definition describe_view :: "describe \<Rightarrow> (string option \<times> string) option" where
  "describe_view s = (if ds_target s = None \<or> ds_loading s then None else Some (ds_error s, ds_text s))"

text \<open>The text on screen, and the answers of a server on which the descriptions are fixed.\<close>

definition described_text :: "describe \<Rightarrow> string option" where
  "described_text s = (case describe_view s of Some (None, t) \<Rightarrow> Some t | _ \<Rightarrow> None)"

lemma described_text_iff:
  "described_text s = Some v \<longleftrightarrow> ds_target s \<noteq> None \<and> \<not> ds_loading s \<and> ds_error s = None \<and> v = ds_text s"
  by (auto simp: described_text_def describe_view_def split: option.splits)

lemmas describe_step_defs = describe_step_def open_describe_def close_describe_def described_def Let_def

fun describe_fair :: "(describe_target \<Rightarrow> jval) \<Rightarrow> describe_act \<Rightarrow> describe \<Rightarrow> bool" where
  "describe_fair srv (Described n (Inr res)) s = (\<forall>l \<in> set (ds_flights s). fst l = n \<longrightarrow> res = srv (snd l))"
| "describe_fair srv a s = True"

interpretation describe_load: effect_loader describe_step ds_run ds_flights ds_target described_text
    "\<lambda>t v. v = describe_text (srv t)" "describe_fair srv"
proof
  fix s a
  show "ds_run s \<le> ds_run (describe_step a s)"
    by (cases a) (auto simp: describe_step_defs split: sum.splits)
  show "ds_target (describe_step a s) = ds_target s" if "ds_run (describe_step a s) = ds_run s"
    using that by (cases a) (auto simp: describe_step_defs split: sum.splits)
  show "l \<in> set (ds_flights s) \<or> (fst l = ds_run (describe_step a s) \<and> ds_run s < ds_run (describe_step a s) \<and>
      ds_target (describe_step a s) = Some (snd l))" if "l \<in> set (ds_flights (describe_step a s))" for l
    using that by (cases a) (auto simp: describe_step_defs split: sum.splits if_splits)
  show "ds_run (describe_step a s) = ds_run s \<and> (described_text s = Some v \<or>
      (\<exists>t. (ds_run s, t) \<in> set (ds_flights s) \<and> v = describe_text (srv t)))"
    if "describe_fair srv a s" "described_text (describe_step a s) = Some v" for v
    using that unfolding described_text_iff
    by (cases a) (force simp: describe_step_defs simp del: split_paired_Ex split: sum.splits if_splits)+
qed

text \<open>Whatever rows were described before and in whatever order the server answers, a
  text that the drawer shows is the description of the row it is open for.\<close>

theorem describe_is_of_its_row:
  assumes "fair_run describe_step (describe_fair srv) ds_init as"
  shows "case describe_view (fold describe_step as ds_init) of
      Some (None, t) \<Rightarrow> (\<exists>row. ds_target (fold describe_step as ds_init) = Some row \<and> t = describe_text (srv row))
    | _ \<Rightarrow> True"
proof -
  have "describe_load.loads_ok srv ds_init"
    by (rule describe_load.loads_ok_start) (simp_all add: ds_init_def described_text_def describe_view_def)
  then have "describe_load.loads_ok srv (fold describe_step as ds_init)" by (rule describe_load.loads_ok_run[OF _ assms])
  then show ?thesis
    using describe_load.loaded_is_of_target[of srv "fold describe_step as ds_init"]
    by (auto simp: described_text_def split: option.splits)
qed

section \<open>Scale\<close>

text \<open>The modal is mounted while the table has a target.  Its effect has the parent's close
  function among its dependencies, which is a new one on every render of the table.\<close>

type_synonym scale_target = "string \<times> string \<times> string"

record scale_modal =
  sm_target :: "scale_target option"
  sm_current :: "rat option"
  sm_value :: "rat option"
  sm_loading :: bool
  sm_submitting :: bool
  sm_run :: nat
  sm_flights :: "(nat \<times> scale_target) list"
  sm_mount :: nat
  sm_submits :: "(nat \<times> scale_target \<times> rat \<times> rat) list"
  sm_log :: "(scale_target \<times> rat \<times> rat) list"
  sm_scaled :: nat
  sm_toasts :: "(rat \<times> rat) list"

definition sm_init :: scale_modal where
  "sm_init = \<lparr>sm_target = None, sm_current = None, sm_value = None, sm_loading = False, sm_submitting = False,
     sm_run = 0, sm_flights = [], sm_mount = 0, sm_submits = [], sm_log = [], sm_scaled = 0, sm_toasts = []\<rparr>"

definition scale_get :: "string \<Rightarrow> scale_target \<Rightarrow> request" where
  "scale_get clusterId t = (case t of (ty, nm, ns) \<Rightarrow> getWorkload clusterId ty nm ns None)"

definition scale_request :: "string \<Rightarrow> scale_target \<times> rat \<times> rat \<Rightarrow> request" where
  "scale_request clusterId q = (case q of ((ty, nm, ns), _, v) \<Rightarrow> scaleWorkload clusterId ty nm ns v)"

definition scale_effect :: "scale_target \<Rightarrow> scale_modal \<Rightarrow> scale_modal" where
  "scale_effect t s =
    s\<lparr>sm_target := Some t, sm_loading := True, sm_current := None, sm_value := None, sm_run := Suc (sm_run s),
      sm_flights := (Suc (sm_run s), t) # sm_flights s\<rparr>"

definition close_scale :: "scale_modal \<Rightarrow> scale_modal" where
  "close_scale s =
    s\<lparr>sm_target := None, sm_current := None, sm_value := None, sm_loading := False, sm_submitting := False,
      sm_run := Suc (sm_run s)\<rparr>"

definition replicas_of :: "jval \<Rightarrow> rat" where
  "replicas_of obj = (case coalesce (opath [''spec'', ''replicas''] obj) (Some (JNum 0)) of Some (JNum r) \<Rightarrow> r | _ \<Rightarrow> 0)"

definition scale_loaded :: "nat \<Rightarrow> jval option \<Rightarrow> scale_modal \<Rightarrow> scale_modal" where
  "scale_loaded n r s =
    (let s' = s\<lparr>sm_flights := filter (\<lambda>l. fst l \<noteq> n) (sm_flights s)\<rparr>
     in if n \<notin> fst ` set (sm_flights s) \<or> n \<noteq> sm_run s then s'
        else case r of None \<Rightarrow> close_scale s'
             | Some obj \<Rightarrow> s'\<lparr>sm_current := Some (replicas_of obj), sm_value := Some (replicas_of obj), sm_loading := False\<rparr>)"

definition scale_ok :: "scale_modal \<Rightarrow> scale_modal" where
  "scale_ok s =
    (case (sm_target s, sm_value s, sm_current s) of
       (Some t, Some v, Some c) \<Rightarrow>
         if v = c then close_scale s
         else s\<lparr>sm_submitting := True, sm_submits := sm_submits s @ [(sm_mount s, t, c, v)], sm_log := sm_log s @ [(t, c, v)]\<rparr>
     | _ \<Rightarrow> s)"

text \<open>The i-th submission in flight answers; closing clears the table's target, whichever
  modal is mounted by then.\<close>

definition scale_done :: "nat \<Rightarrow> bool \<Rightarrow> scale_modal \<Rightarrow> scale_modal" where
  "scale_done i ok s =
    (if i \<ge> length (sm_submits s) then s
     else case sm_submits s ! i of (m, t, c, v) \<Rightarrow>
       (let s' = s\<lparr>sm_submits := take i (sm_submits s) @ drop (Suc i) (sm_submits s)\<rparr>
        in if ok then close_scale (s'\<lparr>sm_toasts := sm_toasts s @ [(c, v)], sm_scaled := Suc (sm_scaled s)\<rparr>)
           else if m = sm_mount s then s'\<lparr>sm_submitting := False\<rparr> else s'))"

datatype scale_act =
    OpenScale scale_target | CloseScale | ParentRender | ScaleLoaded nat "jval option"
  | TypeValue "rat option" | ClickOk | PressEnter | ScaleDone nat bool

definition scale_step :: "scale_act \<Rightarrow> scale_modal \<Rightarrow> scale_modal" where
  "scale_step a s = (case a of
     OpenScale t \<Rightarrow> if sm_target s = None then scale_effect t (s\<lparr>sm_mount := Suc (sm_mount s)\<rparr>) else s
   | CloseScale \<Rightarrow> close_scale s
   | ParentRender \<Rightarrow> (case sm_target s of None \<Rightarrow> s | Some t \<Rightarrow> scale_effect t s)
   | ScaleLoaded n r \<Rightarrow> scale_loaded n r s
   | TypeValue v \<Rightarrow> if sm_target s \<noteq> None \<and> \<not> sm_loading s then s\<lparr>sm_value := v\<rparr> else s
   | ClickOk \<Rightarrow> if sm_loading s \<or> sm_current s = None \<or> sm_submitting s then s else scale_ok s
   | PressEnter \<Rightarrow> if sm_loading s then s else scale_ok s
   | ScaleDone i ok \<Rightarrow> scale_done i ok s)"

fun scale_fair :: "(scale_target \<Rightarrow> jval) \<Rightarrow> scale_act \<Rightarrow> scale_modal \<Rightarrow> bool" where
  "scale_fair srv (ScaleLoaded n (Some obj)) s = (\<forall>l \<in> set (sm_flights s). fst l = n \<longrightarrow> obj = srv (snd l))"
| "scale_fair srv a s = True"

lemmas scale_step_defs = scale_step_def scale_effect_def close_scale_def scale_loaded_def scale_ok_def scale_done_def Let_def

interpretation scale_load: effect_loader scale_step sm_run sm_flights sm_target sm_current
    "\<lambda>t v. v = replicas_of (srv t)" "scale_fair srv"
proof
  fix s a
  show "sm_run s \<le> sm_run (scale_step a s)"
    by (cases a) (auto simp: scale_step_defs split: option.splits prod.splits)
  show "sm_target (scale_step a s) = sm_target s" if "sm_run (scale_step a s) = sm_run s"
    using that by (cases a) (auto simp: scale_step_defs split: option.splits prod.splits if_splits)
  show "l \<in> set (sm_flights s) \<or> (fst l = sm_run (scale_step a s) \<and> sm_run s < sm_run (scale_step a s) \<and>
      sm_target (scale_step a s) = Some (snd l))" if "l \<in> set (sm_flights (scale_step a s))" for l
    using that by (cases a) (auto simp: scale_step_defs split: option.splits prod.splits if_splits)
  show "sm_run (scale_step a s) = sm_run s \<and> (sm_current s = Some v \<or>
      (\<exists>t. (sm_run s, t) \<in> set (sm_flights s) \<and> v = replicas_of (srv t)))"
    if "scale_fair srv a s" "sm_current (scale_step a s) = Some v" for v
  proof (cases "\<exists>n obj. a = ScaleLoaded n (Some obj)")
    case True
    then obtain n obj where a: "a = ScaleLoaded n (Some obj)" by blast
    show ?thesis
    proof (cases "n \<in> fst ` set (sm_flights s) \<and> n = sm_run s")
      case True
      then obtain t where t: "(sm_run s, t) \<in> set (sm_flights s)" by auto
      then have "obj = srv t" using that(1) True by (auto simp: a)
      moreover have "scale_step a s = s\<lparr>sm_flights := filter (\<lambda>l. fst l \<noteq> n) (sm_flights s),
          sm_current := Some (replicas_of obj), sm_value := Some (replicas_of obj), sm_loading := False\<rparr>"
        using True t by (auto simp: a scale_step_def scale_loaded_def Let_def)
      ultimately show ?thesis using that(2) t by (intro conjI disjI2 exI[of _ t]) simp_all
    next
      case False
      then have "scale_step a s = s\<lparr>sm_flights := filter (\<lambda>l. fst l \<noteq> n) (sm_flights s)\<rparr>"
        by (auto simp: a scale_step_def scale_loaded_def Let_def)
      then show ?thesis using that(2) by simp
    qed
  next
    case False
    then show ?thesis using that
      by (cases a) (auto simp: scale_step_defs simp del: split_paired_Ex split: option.splits prod.splits if_splits)
  qed
qed

lemma scale_log_step:
  "sm_log (scale_step a s) = sm_log s \<or>
   (\<exists>t c v. sm_log (scale_step a s) = sm_log s @ [(t, c, v)] \<and> sm_target s = Some t \<and> sm_current s = Some c \<and> v \<noteq> c)"
  by (cases a) (auto simp: scale_step_defs simp del: split_paired_Ex split: option.splits prod.splits)

text \<open>C34. Whatever modals were opened, closed or re-rendered, and in whatever order the
  server answers: every request to scale is for the row whose modal was open, starts from the
  replicas that the live object of that row has, and asks for a different number.\<close>

theorem scale_sends_real_changes:
  assumes "fair_run scale_step (scale_fair srv) sm_init as"
  shows "list_all (\<lambda>(t, from, v). from = replicas_of (srv t) \<and> v \<noteq> from) (sm_log (fold scale_step as sm_init))"
proof -
  let ?I = "\<lambda>s. scale_load.loads_ok srv s \<and> list_all (\<lambda>(t, from, v). from = replicas_of (srv t) \<and> v \<noteq> from) (sm_log s)"
  have "?I (fold scale_step as sm_init)"
  proof (rule fair_run_invariant[of ?I "scale_fair srv" scale_step, OF _ _ assms])
    show "?I sm_init" by (simp add: scale_load.loads_ok_start sm_init_def)
    show "?I (scale_step a s)" if I: "?I s" and f: "scale_fair srv a s" for a s
    proof
      show "scale_load.loads_ok srv (scale_step a s)" by (rule scale_load.loads_ok_step[OF conjunct1[OF I] f])
      show "list_all (\<lambda>(t, from, v). from = replicas_of (srv t) \<and> v \<noteq> from) (sm_log (scale_step a s))"
        using scale_log_step[of a s] I scale_load.loaded_is_of_target[of srv s] by auto
    qed
  qed
  then show ?thesis by simp
qed

theorem scale_sends_real_changes_witness:
  "\<exists>srv as t. scale_step ClickOk (fold scale_step as sm_init) = fold scale_step (as @ [ClickOk]) sm_init \<and>
    list_all (\<lambda>(t, from, v). from = replicas_of (srv t) \<and> v \<noteq> from) (sm_log (fold scale_step (as @ [ClickOk]) sm_init)) \<and>
    sm_log (fold scale_step (as @ [ClickOk]) sm_init) = [(t, 3, 5)]"
proof -
  let ?srv = "\<lambda>t :: scale_target. Some (JObj [(''spec'', JObj [(''replicas'', JNum 3)])])"
  let ?as = "[OpenScale (''deployments'', ''web'', ''default''), ScaleLoaded 1 (Some (?srv undefined)), TypeValue (Some 5)]"
  have f: "fair_run scale_step (scale_fair ?srv) sm_init (?as @ [ClickOk])" by simp
  show ?thesis
    using scale_sends_real_changes[OF f]
    by (intro exI[of _ ?srv] exI[of _ ?as] exI[of _ "(''deployments'', ''web'', ''default'')"])
      (simp add: scale_step_def scale_effect_def scale_loaded_def scale_ok_def sm_init_def replicas_of_def coalesce_def Let_def)
qed

text \<open>Every render of the table while the modal is open, such as those of its polling, runs the
  effect again and drops the number entered.\<close>

theorem render_drops_the_number:
  assumes "sm_target s = Some t"
  shows "let s' = scale_step (ScaleLoaded (Suc (sm_run s)) (Some obj)) (scale_step ParentRender s)
    in sm_value (scale_step ParentRender s) = None \<and> sm_target s' = Some t \<and> sm_value s' = Some (replicas_of obj)"
  using assms by (simp add: scale_step_def scale_effect_def scale_loaded_def Let_def)

section \<open>Usage of a pod\<close>

record PodContainerUsage =
  pu_name :: string
  pu_cpu_milli :: rat
  pu_memory_bytes :: rat

record PodTopResponse =
  pt_timestamp :: string
  pt_window :: string
  pt_containers :: "PodContainerUsage list"

text \<open>The fields of a request error that the drawer reads.\<close>

record top_error =
  te_code :: "string option"
  te_message :: "string option"
  te_text :: string

record pod_top =
  tp_open :: bool
  tp_data :: "PodTopResponse option"
  tp_loading :: bool
  tp_unavailable :: bool
  tp_err :: "string option"
  tp_interval :: nat
  tp_pending :: nat

definition tp_init :: pod_top where
  "tp_init = \<lparr>tp_open = False, tp_data = None, tp_loading = False, tp_unavailable = False, tp_err = None,
     tp_interval = 5000, tp_pending = 0\<rparr>"

definition fetchOnce :: "pod_top \<Rightarrow> pod_top" where
  "fetchOnce s = s\<lparr>tp_loading := True, tp_err := None, tp_pending := Suc (tp_pending s)\<rparr>"

definition open_top :: "pod_top \<Rightarrow> pod_top" where
  "open_top s = fetchOnce (s\<lparr>tp_open := True, tp_data := None, tp_unavailable := False, tp_err := None\<rparr>)"

definition top_answer :: "top_error + PodTopResponse \<Rightarrow> pod_top \<Rightarrow> pod_top" where
  "top_answer r s =
    (let s' = s\<lparr>tp_loading := False, tp_pending := tp_pending s - 1\<rparr>
     in if tp_pending s = 0 then s
        else case r of
          Inr d \<Rightarrow> s'\<lparr>tp_data := Some d, tp_unavailable := False\<rparr>
        | Inl e \<Rightarrow> if te_code e = Some ''RESOURCE_NOT_AVAILABLE'' then s'\<lparr>tp_unavailable := True, tp_data := None\<rparr>
            else s'\<lparr>tp_err := Some (case te_message e of Some m \<Rightarrow> m | None \<Rightarrow> te_text e)\<rparr>)"

text \<open>The timer runs while the drawer is open, the metrics are available and an interval is
  chosen; both buttons are disabled while they are not available.\<close>

definition top_polls :: "pod_top \<Rightarrow> bool" where
  "top_polls s \<longleftrightarrow> tp_open s \<and> \<not> tp_unavailable s \<and> tp_interval s > 0"

datatype top_act = OpenTop | CloseTop | TopAnswer "top_error + PodTopResponse" | TopTimer | TopRefresh | TopInterval nat

definition top_step :: "top_act \<Rightarrow> pod_top \<Rightarrow> pod_top" where
  "top_step a s = (case a of
     OpenTop \<Rightarrow> open_top s
   | CloseTop \<Rightarrow> s\<lparr>tp_open := False\<rparr>
   | TopAnswer r \<Rightarrow> top_answer r s
   | TopTimer \<Rightarrow> if top_polls s then fetchOnce s else s
   | TopRefresh \<Rightarrow> if tp_unavailable s \<or> tp_loading s then s else fetchOnce s
   | TopInterval n \<Rightarrow> if tp_unavailable s then s else s\<lparr>tp_interval := n\<rparr>)"

datatype top_view = InstallHint | TopFailed string | Usage bool "PodContainerUsage list"

definition podtop_view :: "pod_top \<Rightarrow> top_view" where
  "podtop_view s =
    (if tp_unavailable s then InstallHint
     else case tp_err s of
       Some m \<Rightarrow> if m = [] then Usage (tp_loading s \<and> tp_data s = None) (case tp_data s of None \<Rightarrow> [] | Some d \<Rightarrow> pt_containers d)
                else TopFailed m
     | None \<Rightarrow> Usage (tp_loading s \<and> tp_data s = None) (case tp_data s of None \<Rightarrow> [] | Some d \<Rightarrow> pt_containers d))"

definition formatMemory :: "rat \<Rightarrow> string" where
  "formatMemory b =
    (if b \<le> 0 then ''0''
     else let mib = b / (1024 * 1024)
          in if mib < 1024 then to_fixed 1 mib @ '' MiB'' else to_fixed 2 (mib / 1024) @ '' GiB'')"

definition usage_row :: "PodContainerUsage \<Rightarrow> string \<times> string \<times> string" where
  "usage_row u = (pu_name u, show_num (pu_cpu_milli u) @ '' m'', formatMemory (pu_memory_bytes u))"

text \<open>When the metrics server turns out to be missing and no request is under way, the
  drawer shows the hint to install it, sends nothing more, and keeps to that until it is
  opened again: neither the timer, nor the buttons, nor closing it changes that.\<close>

theorem missing_metrics_stop_the_polling:
  assumes "tp_unavailable s" "tp_pending s = 0" "OpenTop \<notin> set as"
  shows "podtop_view (fold top_step as s) = InstallHint \<and> tp_pending (fold top_step as s) = 0 \<and>
    \<not> top_polls (fold top_step as s)"
proof -
  have "tp_unavailable (fold top_step as s) \<and> tp_pending (fold top_step as s) = 0"
    using assms
  proof (induction as arbitrary: s)
    case (Cons a as)
    have "tp_unavailable (top_step a s) \<and> tp_pending (top_step a s) = 0"
      using Cons.prems by (cases a) (auto simp: top_step_def top_answer_def top_polls_def)
    then show ?case using Cons by simp
  qed simp
  then show ?thesis by (simp add: podtop_view_def top_polls_def)
qed

section \<open>Rollout history\<close>

record RolloutHistoryEntry =
  rh_revision :: rat
  rh_replicas :: rat
  rh_ready :: rat
  rh_image :: "string option"
  rh_created :: string
  rh_cause :: "string option"
  rh_current :: bool

definition dash_or :: "string option \<Rightarrow> string" where
  "dash_or v = (case v of Some s \<Rightarrow> if s = [] then [CHR 0xE2, CHR 0x80, CHR 0x94] else s | None \<Rightarrow> [CHR 0xE2, CHR 0x80, CHR 0x94])"

text \<open>The cells of a row, given how the date library words an age, and whether the rollback
  button is enabled.\<close>

definition history_row :: "(string \<Rightarrow> string) \<Rightarrow> RolloutHistoryEntry \<Rightarrow> string list \<times> bool" where
  "history_row fromNow r =
    ([''#'' @ show_num (rh_revision r), dash_or (rh_image r), show_num (rh_ready r) @ ''/'' @ show_num (rh_replicas r),
      (if rh_created r = [] then dash_or None else fromNow (rh_created r)), dash_or (rh_cause r)], \<not> rh_current r)"

datatype undo_outcome = UndoFailed | UndoNoop | RolledBack rat

definition undo_request :: "string \<Rightarrow> scale_target \<Rightarrow> RolloutHistoryEntry \<Rightarrow> request" where
  "undo_request clusterId t r = (case t of (ty, nm, ns) \<Rightarrow> rolloutUndo clusterId ty nm ns (Some (rh_revision r)))"

text \<open>The toast, and whether the drawer and the table refresh.\<close>

definition handleUndo :: "undo_outcome \<Rightarrow> (string \<times> rat option) option \<times> bool" where
  "handleUndo r = (case r of
     UndoFailed \<Rightarrow> (None, False)
   | UndoNoop \<Rightarrow> (Some (''pages.rollout.undo.noop'', None), True)
   | RolledBack n \<Rightarrow> (Some (''pages.rollout.undo.success'', Some n), True))"

end
