(* ===== verification/ApplyTemplates.thy ===== *)
theory ApplyTemplates
  imports Workload
begin

text \<open>
  The starting manifests of pages/ClusterDetail/Workloads/ApplyYamlDrawer.tsx, as lists of
  lines; a manifest ends with a line break.
\<close>

definition TEMPLATE_deployments :: "string list" where
  "TEMPLATE_deployments = [
    ''apiVersion: apps/v1'', ''kind: Deployment'', ''metadata:'', ''  name: example'', ''  namespace: default'',
    ''spec:'', ''  replicas: 1'', ''  selector:'', ''    matchLabels:'', ''      app: example'', ''  template:'',
    ''    metadata:'', ''      labels:'', ''        app: example'', ''      annotations:'',
    ''        prometheus.io/scrape: \"true\"'', ''        prometheus.io/port: \"8080\"'',
    ''        prometheus.io/path: /debug/metrics'', ''    spec:'', ''      containers:'', ''        - name: app'',
    ''          image: fortio/fortio:latest'', ''          ports:'', ''            - containerPort: 8080'']"

definition TEMPLATE_statefulsets :: "string list" where
  "TEMPLATE_statefulsets = [
    ''apiVersion: apps/v1'', ''kind: StatefulSet'', ''metadata:'', ''  name: example'', ''  namespace: default'',
    ''spec:'', ''  serviceName: example'', ''  replicas: 1'', ''  selector:'', ''    matchLabels:'',
    ''      app: example'', ''  template:'', ''    metadata:'', ''      labels:'', ''        app: example'',
    ''      annotations:'', ''        prometheus.io/scrape: \"true\"'', ''        prometheus.io/port: \"8080\"'',
    ''        prometheus.io/path: /debug/metrics'', ''    spec:'', ''      containers:'', ''        - name: app'',
    ''          image: fortio/fortio:latest'', ''          ports:'', ''            - containerPort: 8080'']"

definition TEMPLATE_daemonsets :: "string list" where
  "TEMPLATE_daemonsets = [
    ''apiVersion: apps/v1'', ''kind: DaemonSet'', ''metadata:'', ''  name: example'', ''  namespace: default'',
    ''spec:'', ''  selector:'', ''    matchLabels:'', ''      app: example'', ''  template:'', ''    metadata:'',
    ''      labels:'', ''        app: example'', ''      annotations:'', ''        prometheus.io/scrape: \"true\"'',
    ''        prometheus.io/port: \"8080\"'', ''        prometheus.io/path: /debug/metrics'', ''    spec:'',
    ''      containers:'', ''        - name: app'', ''          image: fortio/fortio:latest'', ''          ports:'',
    ''            - containerPort: 8080'']"

definition TEMPLATE_pods :: "string list" where
  "TEMPLATE_pods = [
    ''apiVersion: v1'', ''kind: Pod'', ''metadata:'', ''  name: example'', ''  namespace: default'',
    ''  annotations:'', ''    prometheus.io/scrape: \"true\"'', ''    prometheus.io/port: \"8080\"'',
    ''    prometheus.io/path: /debug/metrics'', ''spec:'', ''  containers:'', ''    - name: app'',
    ''      image: fortio/fortio:latest'', ''      ports:'', ''        - containerPort: 8080'']"

definition TEMPLATE_jobs :: "string list" where
  "TEMPLATE_jobs = [
    ''apiVersion: batch/v1'', ''kind: Job'', ''metadata:'', ''  name: example'', ''  namespace: default'', ''spec:'',
    ''  template:'', ''    spec:'', ''      restartPolicy: OnFailure'', ''      containers:'',
    ''        - name: app'', ''          image: busybox:1.37'',
    ''          command: [\"sh\", \"-c\", \"echo hello && sleep 5\"]'']"

definition TEMPLATE_cronjobs :: "string list" where
  "TEMPLATE_cronjobs = [
    ''apiVersion: batch/v1'', ''kind: CronJob'', ''metadata:'', ''  name: example'', ''  namespace: default'',
    ''spec:'', ''  schedule: \"*/5 * * * *\"'', ''  concurrencyPolicy: Forbid'', ''  jobTemplate:'', ''    spec:'',
    ''      template:'', ''        spec:'', ''          restartPolicy: OnFailure'', ''          containers:'',
    ''            - name: app'', ''              image: busybox:1.37'',
    ''              command: [\"sh\", \"-c\", \"date && echo tick\"]'']"

definition TEMPLATE_horizontalpodautoscalers :: "string list" where
  "TEMPLATE_horizontalpodautoscalers = [
    ''apiVersion: autoscaling/v2'', ''kind: HorizontalPodAutoscaler'', ''metadata:'', ''  name: example'',
    ''  namespace: default'', ''spec:'', ''  scaleTargetRef:'', ''    apiVersion: apps/v1'',
    ''    kind: Deployment'', ''    name: example'', ''  minReplicas: 1'', ''  maxReplicas: 5'', ''  metrics:'',
    ''    - type: Resource'', ''      resource:'', ''        name: cpu'', ''        target:'',
    ''          type: Utilization'', ''          averageUtilization: 50'']"

definition TEMPLATE_services :: "string list" where
  "TEMPLATE_services = [
    ''apiVersion: v1'', ''kind: Service'', ''metadata:'', ''  name: example'', ''  namespace: default'', ''spec:'',
    ''  selector:'', ''    app: example'', ''  ports:'', ''    - port: 8080'', ''      targetPort: 8080'']"

definition TEMPLATE_ingresses :: "string list" where
  "TEMPLATE_ingresses = [
    ''apiVersion: networking.k8s.io/v1'', ''kind: Ingress'', ''metadata:'', ''  name: example'',
    ''  namespace: default'', ''spec:'', ''  rules:'', ''    - host: example.local'', ''      http:'',
    ''        paths:'', ''          - path: /'', ''            pathType: Prefix'', ''            backend:'',
    ''              service:'', ''                name: example'', ''                port:'',
    ''                  number: 80'']"

definition TEMPLATE_gatewayclasses :: "string list" where
  "TEMPLATE_gatewayclasses = [
    ''apiVersion: gateway.networking.k8s.io/v1'', ''kind: GatewayClass'', ''metadata:'', ''  name: example-gc'',
    ''spec:'', ''  controllerName: gateway.envoyproxy.io/gatewayclass-controller'']"

definition TEMPLATE_gateways :: "string list" where
  "TEMPLATE_gateways = [
    ''apiVersion: gateway.networking.k8s.io/v1'', ''kind: Gateway'', ''metadata:'', ''  name: example-gateway'',
    ''  namespace: default'', ''spec:'', ''  gatewayClassName: example-gc'', ''  listeners:'', ''    - name: http'',
    ''      port: 80'', ''      protocol: HTTP'', ''      allowedRoutes:'', ''        namespaces:'',
    ''          from: Same'']"

definition TEMPLATE_httproutes :: "string list" where
  "TEMPLATE_httproutes = [
    ''apiVersion: gateway.networking.k8s.io/v1'', ''kind: HTTPRoute'', ''metadata:'', ''  name: example-route'',
    ''  namespace: default'', ''spec:'', ''  parentRefs:'', ''    - name: example-gateway'', ''  rules:'',
    ''    - matches:'', ''        - path:'', ''            type: PathPrefix'', ''            value: /'',
    ''      backendRefs:'', ''        - name: example'', ''          port: 8080'']"

definition TEMPLATE_grpcroutes :: "string list" where
  "TEMPLATE_grpcroutes = [
    ''apiVersion: gateway.networking.k8s.io/v1'', ''kind: GRPCRoute'', ''metadata:'', ''  name: example-grpc-route'',
    ''  namespace: default'', ''spec:'', ''  parentRefs:'', ''    - name: example-gateway'', ''  rules:'',
    ''    - matches:'', ''        - method:'', ''            service: example.Greeter'', ''      backendRefs:'',
    ''        - name: example-grpc'', ''          port: 9000'']"

definition TEMPLATE_configmaps :: "string list" where
  "TEMPLATE_configmaps = [
    ''apiVersion: v1'', ''kind: ConfigMap'', ''metadata:'', ''  name: example'', ''  namespace: default'', ''data:'',
    ''  key: value'']"

definition TEMPLATE_secrets :: "string list" where
  "TEMPLATE_secrets = [
    ''apiVersion: v1'', ''kind: Secret'', ''metadata:'', ''  name: example'', ''  namespace: default'',
    ''type: Opaque'', ''stringData:'', ''  key: value'']"

definition TEMPLATE_persistentvolumeclaims :: "string list" where
  "TEMPLATE_persistentvolumeclaims = [
    ''apiVersion: v1'', ''kind: PersistentVolumeClaim'', ''metadata:'', ''  name: example'',
    ''  namespace: default'', ''spec:'', ''  accessModes:'', ''    - ReadWriteOnce'', ''  resources:'',
    ''    requests:'', ''      storage: 1Gi'']"

definition TEMPLATE_persistentvolumes :: "string list" where
  "TEMPLATE_persistentvolumes = [
    ''apiVersion: v1'', ''kind: PersistentVolume'', ''metadata:'', ''  name: example'', ''spec:'', ''  capacity:'',
    ''    storage: 1Gi'', ''  accessModes:'', ''    - ReadWriteOnce'', ''  persistentVolumeReclaimPolicy: Retain'',
    ''  hostPath:'', ''    path: /tmp/example'']"

definition TEMPLATE_storageclasses :: "string list" where
  "TEMPLATE_storageclasses = [
    ''apiVersion: storage.k8s.io/v1'', ''kind: StorageClass'', ''metadata:'', ''  name: example'',
    ''provisioner: rancher.io/local-path'', ''volumeBindingMode: WaitForFirstConsumer'', ''reclaimPolicy: Delete'']"

definition TEMPLATE_resourceclaims :: "string list" where
  "TEMPLATE_resourceclaims = [
    ''apiVersion: resource.k8s.io/v1'', ''kind: ResourceClaim'', ''metadata:'', ''  name: example'',
    ''  namespace: default'', ''spec:'', ''  devices:'', ''    requests:'', ''      - name: gpu'',
    ''        deviceClassName: gpu.example.com'']"

definition TEMPLATE_resourceclaimtemplates :: "string list" where
  "TEMPLATE_resourceclaimtemplates = [
    ''apiVersion: resource.k8s.io/v1'', ''kind: ResourceClaimTemplate'', ''metadata:'', ''  name: example'',
    ''  namespace: default'', ''spec:'', ''  spec:'', ''    devices:'', ''      requests:'', ''        - name: gpu'',
    ''          deviceClassName: gpu.example.com'']"

definition TEMPLATE_deviceclasses :: "string list" where
  "TEMPLATE_deviceclasses = [
    ''apiVersion: resource.k8s.io/v1'', ''kind: DeviceClass'', ''metadata:'', ''  name: example.gpu.example.com'',
    ''spec:'', ''  selectors:'', ''    - cel:'', ''        expression: device.driver == \"gpu.example.com\"'']"

definition TEMPLATE_resourceslices :: "string list" where
  "TEMPLATE_resourceslices = [
    ''apiVersion: resource.k8s.io/v1'', ''kind: ResourceSlice'', ''metadata:'', ''  name: node-0-gpu'', ''spec:'',
    ''  driver: gpu.example.com'', ''  pool:'', ''    name: node-0'', ''    generation: 1'',
    ''    resourceSliceCount: 1'', ''  nodeName: node-0'', ''  devices:'', ''    - name: gpu-0'', ''      basic:'',
    ''        attributes:'', ''          model:'', ''            string: h100'']"

definition TEMPLATE_customresourcedefinitions :: "string list" where
  "TEMPLATE_customresourcedefinitions = [
    ''apiVersion: apiextensions.k8s.io/v1'', ''kind: CustomResourceDefinition'', ''metadata:'',
    ''  name: examples.example.io'', ''spec:'', ''  group: example.io'', ''  names:'', ''    plural: examples'',
    ''    singular: example'', ''    kind: Example'', ''    shortNames: [ex]'', ''  scope: Namespaced'',
    ''  versions:'', ''    - name: v1'', ''      served: true'', ''      storage: true'', ''      schema:'',
    ''        openAPIV3Schema:'', ''          type: object'', ''          properties:'', ''            spec:'',
    ''              type: object'', ''              properties:'', ''                message:'',
    ''                  type: string'']"

definition TEMPLATE_replicasets :: "string list" where
  "TEMPLATE_replicasets = [
    ''apiVersion: apps/v1'', ''kind: ReplicaSet'', ''metadata:'', ''  name: example'', ''  namespace: default'',
    ''spec:'', ''  replicas: 1'', ''  selector:'', ''    matchLabels:'', ''      app: example'', ''  template:'',
    ''    metadata:'', ''      labels:'', ''        app: example'', ''    spec:'', ''      containers:'',
    ''        - name: app'', ''          image: fortio/fortio:latest'']"

definition TEMPLATE_endpointslices :: "string list" where
  "TEMPLATE_endpointslices = [
    ''apiVersion: discovery.k8s.io/v1'', ''kind: EndpointSlice'', ''metadata:'', ''  name: example-1'',
    ''  namespace: default'', ''  labels:'', ''    kubernetes.io/service-name: example'', ''addressType: IPv4'',
    ''ports:'', ''  - name: http'', ''    protocol: TCP'', ''    port: 80'', ''endpoints:'', ''  - addresses:'',
    ''      - 10.0.0.1'', ''    conditions:'', ''      ready: true'']"

definition TEMPLATE_networkpolicies :: "string list" where
  "TEMPLATE_networkpolicies = [
    ''apiVersion: networking.k8s.io/v1'', ''kind: NetworkPolicy'', ''metadata:'', ''  name: default-deny-ingress'',
    ''  namespace: default'', ''spec:'', ''  podSelector: {}'', ''  policyTypes:'', ''    - Ingress'']"

definition TEMPLATE_serviceaccounts :: "string list" where
  "TEMPLATE_serviceaccounts = [
    ''apiVersion: v1'', ''kind: ServiceAccount'', ''metadata:'', ''  name: example'', ''  namespace: default'']"

definition TEMPLATE_roles :: "string list" where
  "TEMPLATE_roles = [
    ''apiVersion: rbac.authorization.k8s.io/v1'', ''kind: Role'', ''metadata:'', ''  name: example-reader'',
    ''  namespace: default'', ''rules:'', ''  - apiGroups: [\"\"]'', ''    resources: [pods, services, configmaps]'',
    ''    verbs: [get, list, watch]'']"

definition TEMPLATE_rolebindings :: "string list" where
  "TEMPLATE_rolebindings = [
    ''apiVersion: rbac.authorization.k8s.io/v1'', ''kind: RoleBinding'', ''metadata:'', ''  name: example-reader'',
    ''  namespace: default'', ''subjects:'', ''  - kind: ServiceAccount'', ''    name: example'',
    ''    namespace: default'', ''roleRef:'', ''  apiGroup: rbac.authorization.k8s.io'', ''  kind: Role'',
    ''  name: example-reader'']"

definition TEMPLATE_clusterroles :: "string list" where
  "TEMPLATE_clusterroles = [
    ''apiVersion: rbac.authorization.k8s.io/v1'', ''kind: ClusterRole'', ''metadata:'',
    ''  name: example-cluster-reader'', ''rules:'', ''  - apiGroups: [\"\"]'',
    ''    resources: [namespaces, nodes, pods]'', ''    verbs: [get, list, watch]'']"

definition TEMPLATE_clusterrolebindings :: "string list" where
  "TEMPLATE_clusterrolebindings = [
    ''apiVersion: rbac.authorization.k8s.io/v1'', ''kind: ClusterRoleBinding'', ''metadata:'',
    ''  name: example-cluster-reader'', ''subjects:'', ''  - kind: ServiceAccount'', ''    name: example'',
    ''    namespace: default'', ''roleRef:'', ''  apiGroup: rbac.authorization.k8s.io'', ''  kind: ClusterRole'',
    ''  name: example-cluster-reader'']"

definition TEMPLATE_resourcequotas :: "string list" where
  "TEMPLATE_resourcequotas = [
    ''apiVersion: v1'', ''kind: ResourceQuota'', ''metadata:'', ''  name: example'', ''  namespace: default'',
    ''spec:'', ''  hard:'', ''    requests.cpu: \"4\"'', ''    requests.memory: 8Gi'', ''    limits.cpu: \"8\"'',
    ''    limits.memory: 16Gi'', ''    pods: \"20\"'']"

definition TEMPLATE_limitranges :: "string list" where
  "TEMPLATE_limitranges = [
    ''apiVersion: v1'', ''kind: LimitRange'', ''metadata:'', ''  name: example-defaults'', ''  namespace: default'',
    ''spec:'', ''  limits:'', ''    - type: Container'', ''      default:'', ''        cpu: 500m'',
    ''        memory: 512Mi'', ''      defaultRequest:'', ''        cpu: 100m'', ''        memory: 128Mi'']"

definition TEMPLATE_poddisruptionbudgets :: "string list" where
  "TEMPLATE_poddisruptionbudgets = [
    ''apiVersion: policy/v1'', ''kind: PodDisruptionBudget'', ''metadata:'', ''  name: example'',
    ''  namespace: default'', ''spec:'', ''  minAvailable: 1'', ''  selector:'', ''    matchLabels:'',
    ''      app: example'']"

definition TEMPLATE_priorityclasses :: "string list" where
  "TEMPLATE_priorityclasses = [
    ''apiVersion: scheduling.k8s.io/v1'', ''kind: PriorityClass'', ''metadata:'', ''  name: example-high-priority'',
    ''value: 1000'', ''globalDefault: false'', ''description: \"High-priority workloads (training jobs, etc.)\"'']"

definition TEMPLATE_runtimeclasses :: "string list" where
  "TEMPLATE_runtimeclasses = [
    ''apiVersion: node.k8s.io/v1'', ''kind: RuntimeClass'', ''metadata:'', ''  name: example-runtime'',
    ''handler: runc'']"

definition TEMPLATE_validatingwebhookconfigurations :: "string list" where
  "TEMPLATE_validatingwebhookconfigurations = [
    ''apiVersion: admissionregistration.k8s.io/v1'', ''kind: ValidatingWebhookConfiguration'', ''metadata:'',
    ''  name: example-validate'', ''webhooks:'', ''  - name: example.validate.example.io'', ''    clientConfig:'',
    ''      service:'', ''        name: example-webhook'', ''        namespace: default'',
    ''        path: /validate'', ''      caBundle: \"\"  # base64 PEM of the cluster's CA'', ''    rules:'',
    ''      - apiGroups: [\"\"]'', ''        apiVersions: [v1]'', ''        operations: [CREATE, UPDATE]'',
    ''        resources: [pods]'', ''    admissionReviewVersions: [v1]'', ''    sideEffects: None'',
    ''    failurePolicy: Fail'', ''    timeoutSeconds: 5'']"

definition TEMPLATE_mutatingwebhookconfigurations :: "string list" where
  "TEMPLATE_mutatingwebhookconfigurations = [
    ''apiVersion: admissionregistration.k8s.io/v1'', ''kind: MutatingWebhookConfiguration'', ''metadata:'',
    ''  name: example-mutate'', ''webhooks:'', ''  - name: example.mutate.example.io'', ''    clientConfig:'',
    ''      service:'', ''        name: example-webhook'', ''        namespace: default'', ''        path: /mutate'',
    ''      caBundle: \"\"'', ''    rules:'', ''      - apiGroups: [\"\"]'', ''        apiVersions: [v1]'',
    ''        operations: [CREATE]'', ''        resources: [pods]'', ''    admissionReviewVersions: [v1]'',
    ''    sideEffects: None'', ''    reinvocationPolicy: Never  # or IfNeeded'', ''    failurePolicy: Ignore'',
    ''    timeoutSeconds: 5'']"

definition TEMPLATE_validatingadmissionpolicies :: "string list" where
  "TEMPLATE_validatingadmissionpolicies = [
    ''apiVersion: admissionregistration.k8s.io/v1'', ''kind: ValidatingAdmissionPolicy'', ''metadata:'',
    ''  name: example-policy'', ''spec:'', ''  failurePolicy: Fail'', ''  matchConstraints:'',
    ''    resourceRules:'', ''      - apiGroups: [\"apps\"]'', ''        apiVersions: [\"v1\"]'',
    ''        operations: [\"CREATE\", \"UPDATE\"]'', ''        resources: [\"deployments\"]'', ''  validations:'',
    ''    - expression: \"object.spec.replicas <= 5\"'', ''      message: \"replicas must be <= 5\"'']"

definition TEMPLATE_mutatingadmissionpolicies :: "string list" where
  "TEMPLATE_mutatingadmissionpolicies = [
    ''apiVersion: admissionregistration.k8s.io/v1alpha1'', ''kind: MutatingAdmissionPolicy'', ''metadata:'',
    ''  name: example-mutator'', ''spec:'', ''  failurePolicy: Fail'', ''  matchConstraints:'',
    ''    resourceRules:'', ''      - apiGroups: [\"\"]'', ''        apiVersions: [\"v1\"]'',
    ''        operations: [\"CREATE\"]'', ''        resources: [\"pods\"]'', ''  reinvocationPolicy: Never'',
    ''  mutations:'', ''    - patchType: ApplyConfiguration'', ''      applyConfiguration:'',
    ''        expression: |'', ''          Object{'', ''            metadata: Object.metadata{'',
    ''              labels: {\"injected-by\": \"example-mutator\"}'', ''            }'', ''          }'']"

definition TEMPLATES :: "(string \<times> string list) list" where
  "TEMPLATES = [
    (''deployments'', TEMPLATE_deployments),
    (''statefulsets'', TEMPLATE_statefulsets),
    (''daemonsets'', TEMPLATE_daemonsets),
    (''pods'', TEMPLATE_pods),
    (''jobs'', TEMPLATE_jobs),
    (''cronjobs'', TEMPLATE_cronjobs),
    (''horizontalpodautoscalers'', TEMPLATE_horizontalpodautoscalers),
    (''services'', TEMPLATE_services),
    (''ingresses'', TEMPLATE_ingresses),
    (''gatewayclasses'', TEMPLATE_gatewayclasses),
    (''gateways'', TEMPLATE_gateways),
    (''httproutes'', TEMPLATE_httproutes),
    (''grpcroutes'', TEMPLATE_grpcroutes),
    (''configmaps'', TEMPLATE_configmaps),
    (''secrets'', TEMPLATE_secrets),
    (''persistentvolumeclaims'', TEMPLATE_persistentvolumeclaims),
    (''persistentvolumes'', TEMPLATE_persistentvolumes),
    (''storageclasses'', TEMPLATE_storageclasses),
    (''resourceclaims'', TEMPLATE_resourceclaims),
    (''resourceclaimtemplates'', TEMPLATE_resourceclaimtemplates),
    (''deviceclasses'', TEMPLATE_deviceclasses),
    (''resourceslices'', TEMPLATE_resourceslices),
    (''customresourcedefinitions'', TEMPLATE_customresourcedefinitions),
    (''replicasets'', TEMPLATE_replicasets),
    (''endpointslices'', TEMPLATE_endpointslices),
    (''networkpolicies'', TEMPLATE_networkpolicies),
    (''serviceaccounts'', TEMPLATE_serviceaccounts),
    (''roles'', TEMPLATE_roles),
    (''rolebindings'', TEMPLATE_rolebindings),
    (''clusterroles'', TEMPLATE_clusterroles),
    (''clusterrolebindings'', TEMPLATE_clusterrolebindings),
    (''resourcequotas'', TEMPLATE_resourcequotas),
    (''limitranges'', TEMPLATE_limitranges),
    (''poddisruptionbudgets'', TEMPLATE_poddisruptionbudgets),
    (''priorityclasses'', TEMPLATE_priorityclasses),
    (''runtimeclasses'', TEMPLATE_runtimeclasses),
    (''validatingwebhookconfigurations'', TEMPLATE_validatingwebhookconfigurations),
    (''mutatingwebhookconfigurations'', TEMPLATE_mutatingwebhookconfigurations),
    (''validatingadmissionpolicies'', TEMPLATE_validatingadmissionpolicies),
    (''mutatingadmissionpolicies'', TEMPLATE_mutatingadmissionpolicies)]"

lemmas template_defs =
  TEMPLATE_deployments_def
  TEMPLATE_statefulsets_def
  TEMPLATE_daemonsets_def
  TEMPLATE_pods_def
  TEMPLATE_jobs_def
  TEMPLATE_cronjobs_def
  TEMPLATE_horizontalpodautoscalers_def
  TEMPLATE_services_def
  TEMPLATE_ingresses_def
  TEMPLATE_gatewayclasses_def
  TEMPLATE_gateways_def
  TEMPLATE_httproutes_def
  TEMPLATE_grpcroutes_def
  TEMPLATE_configmaps_def
  TEMPLATE_secrets_def
  TEMPLATE_persistentvolumeclaims_def
  TEMPLATE_persistentvolumes_def
  TEMPLATE_storageclasses_def
  TEMPLATE_resourceclaims_def
  TEMPLATE_resourceclaimtemplates_def
  TEMPLATE_deviceclasses_def
  TEMPLATE_resourceslices_def
  TEMPLATE_customresourcedefinitions_def
  TEMPLATE_replicasets_def
  TEMPLATE_endpointslices_def
  TEMPLATE_networkpolicies_def
  TEMPLATE_serviceaccounts_def
  TEMPLATE_roles_def
  TEMPLATE_rolebindings_def
  TEMPLATE_clusterroles_def
  TEMPLATE_clusterrolebindings_def
  TEMPLATE_resourcequotas_def
  TEMPLATE_limitranges_def
  TEMPLATE_poddisruptionbudgets_def
  TEMPLATE_priorityclasses_def
  TEMPLATE_runtimeclasses_def
  TEMPLATE_validatingwebhookconfigurations_def
  TEMPLATE_mutatingwebhookconfigurations_def
  TEMPLATE_validatingadmissionpolicies_def
  TEMPLATE_mutatingadmissionpolicies_def

section \<open>What the templates are for\<close>

definition template_text :: "string list \<Rightarrow> string" where
  "template_text ls = concat (map (\<lambda>l. l @ [CHR 0x0A]) ls)"

text \<open>The indented lines of the manifest's own metadata block, its kind and its namespace.\<close>

definition is_indented :: "string \<Rightarrow> bool" where
  "is_indented l = (take 2 l = ''  '')"

definition metadata_block :: "string list \<Rightarrow> string list" where
  "metadata_block ls = takeWhile is_indented (drop 1 (dropWhile (\<lambda>l. l \<noteq> ''metadata:'') ls))"

definition declares_namespace :: "string list \<Rightarrow> bool" where
  "declares_namespace ls \<longleftrightarrow> list_ex (\<lambda>l. take 13 l = ''  namespace: '') (metadata_block ls)"

definition declares_name :: "string list \<Rightarrow> bool" where
  "declares_name ls \<longleftrightarrow> list_ex (\<lambda>l. take 8 l = ''  name: '') (metadata_block ls)"

definition kind_line :: "string list \<Rightarrow> string" where
  "kind_line ls = (case find (\<lambda>l. take 6 l = ''kind: '') ls of None \<Rightarrow> [] | Some l \<Rightarrow> drop 6 l)"

definition template_ok :: "string \<times> string list \<Rightarrow> bool" where
  "template_ok t = (case t of (ty, ls) \<Rightarrow>
     declares_name ls \<and> kind_line ls \<noteq> [] \<and> (declares_namespace ls = (ty \<notin> set CLUSTER_SCOPED_TYPES)))"

lemma templates_each_ok: "list_all template_ok TEMPLATES"
  by code_simp

lemma templates_distinct: "distinct (map fst TEMPLATES)"
  by code_simp

lemma templates_cover:
  "list_all (\<lambda>t. List.member (map fst TEMPLATES) t \<noteq> (t = ''nodes'')) WorkloadResourceType"
  "list_all (\<lambda>t. List.member WorkloadResourceType t) (map fst TEMPLATES)"
  by code_simp+


end
