(* ===== verification/ApplyYaml.thy ===== *)
theory ApplyYaml
  imports ApplyTemplates WorkloadTable FormDrawer
begin

text \<open>
  pages/ClusterDetail/Workloads/ApplyYamlDrawer.tsx: the drawer that applies or deletes the
  documents of a YAML text, with its templates, its answers and the result of every document.
\<close>

section \<open>Applying a YAML text\<close>

definition MAX_FILE_BYTES :: nat where
  "MAX_FILE_BYTES = push_bit 20 1"

record ApplyYamlEntry = ApplyYamlResult +
  ay_index :: nat
  ay_kind :: "string option"
  ay_namespace :: "string option"
  ay_name :: "string option"

text \<open>The drawer exists while the page holds it open, so every opening is a new instance;
  an answer carries the instance that sent the request.  The page's close function closes
  whichever instance is there.\<close>

datatype yaml_op = ApplyDocs | DeleteDocs

record apply_drawer =
  ad_open :: bool
  ad_instance :: nat
  ad_text :: string
  ad_applying :: bool
  ad_deleting :: bool
  ad_results :: "ApplyYamlEntry list option"
  ad_expanded :: bool
  ad_confirming :: "string option"
  ad_flights :: "(nat \<times> yaml_op) list"
  ad_sent :: "request list"
  ad_applied :: nat
  ad_toasts :: "(string \<times> nat) list"

definition ad_init :: apply_drawer where
  "ad_init = \<lparr>ad_open = False, ad_instance = 0, ad_text = [], ad_applying = False, ad_deleting = False, ad_results = None,
     ad_expanded = True, ad_confirming = None, ad_flights = [], ad_sent = [], ad_applied = 0, ad_toasts = []\<rparr>"

definition seed_text :: "string \<Rightarrow> string" where
  "seed_text resourceType = (case map_of TEMPLATES resourceType of None \<Rightarrow> [] | Some ls \<Rightarrow> template_text ls)"

definition open_apply :: "string \<Rightarrow> apply_drawer \<Rightarrow> apply_drawer" where
  "open_apply resourceType s =
    s\<lparr>ad_open := True, ad_instance := Suc (ad_instance s), ad_text := seed_text resourceType, ad_applying := False,
      ad_deleting := False, ad_results := None, ad_expanded := True\<rparr>"

definition close_apply :: "apply_drawer \<Rightarrow> apply_drawer" where
  "close_apply s = s\<lparr>ad_open := False\<rparr>"

definition apply_toast :: "string \<Rightarrow> nat \<Rightarrow> apply_drawer \<Rightarrow> apply_drawer" where
  "apply_toast i n s = s\<lparr>ad_toasts := ad_toasts s @ [(i, n)]\<rparr>"

definition handleSubmit :: "string \<Rightarrow> apply_drawer \<Rightarrow> apply_drawer" where
  "handleSubmit clusterId s =
    (let trimmed = trim (ad_text s)
     in if trimmed = [] then apply_toast ''pages.applyYaml.empty'' 0 s
        else s\<lparr>ad_applying := True, ad_results := None, ad_flights := ad_flights s @ [(ad_instance s, ApplyDocs)],
               ad_sent := ad_sent s @ [applyYAML clusterId trimmed]\<rparr>)"

text \<open>Deleting asks first; the text that is deleted is the one of the question.\<close>

definition askDelete :: "apply_drawer \<Rightarrow> apply_drawer" where
  "askDelete s =
    (let trimmed = trim (ad_text s)
     in if trimmed = [] then apply_toast ''pages.applyYaml.empty'' 0 s else s\<lparr>ad_confirming := Some trimmed\<rparr>)"

definition confirmDelete :: "string \<Rightarrow> apply_drawer \<Rightarrow> apply_drawer" where
  "confirmDelete clusterId s =
    (case ad_confirming s of None \<Rightarrow> s
     | Some t \<Rightarrow> s\<lparr>ad_confirming := None, ad_deleting := True, ad_results := None,
         ad_flights := ad_flights s @ [(ad_instance s, DeleteDocs)], ad_sent := ad_sent s @ [deleteYAML clusterId t]\<rparr>)"

definition failed_docs :: "ApplyYamlEntry list \<Rightarrow> ApplyYamlEntry list" where
  "failed_docs rs = filter (\<lambda>r. \<not> ay_success r) rs"

text \<open>What an answer does to the instance that asked, and to the page.\<close>

definition docs_answered :: "yaml_op \<Rightarrow> ApplyYamlEntry list \<Rightarrow> bool \<Rightarrow> apply_drawer \<Rightarrow> apply_drawer" where
  "docs_answered op rs mine s =
    (let s' = s\<lparr>ad_applied := Suc (ad_applied s)\<rparr>
     in if failed_docs rs = [] then
          (let d = close_apply (apply_toast (case op of ApplyDocs \<Rightarrow> ''pages.applyYaml.successN'' | DeleteDocs \<Rightarrow> ''pages.applyYaml.delete.successN'')
             (length rs) s')
           in if mine \<and> op = ApplyDocs then d\<lparr>ad_text := []\<rparr> else d)
        else if mine then s'\<lparr>ad_results := Some rs, ad_expanded := True\<rparr> else s')"

text \<open>The i-th request in flight is answered by results, absent for an empty response, or
  fails.\<close>

definition docs_done :: "nat \<Rightarrow> ApplyYamlEntry list option option \<Rightarrow> apply_drawer \<Rightarrow> apply_drawer" where
  "docs_done i r s =
    (if i \<ge> length (ad_flights s) then s
     else case ad_flights s ! i of (inst, op) \<Rightarrow>
       (let mine = (ad_open s \<and> inst = ad_instance s);
            s1 = s\<lparr>ad_flights := take i (ad_flights s) @ drop (Suc i) (ad_flights s)\<rparr>;
            s2 = (case r of None \<Rightarrow> s1 | Some rs \<Rightarrow> docs_answered op (case rs of None \<Rightarrow> [] | Some xs \<Rightarrow> xs) mine s1)
        in if mine then (case op of ApplyDocs \<Rightarrow> s2\<lparr>ad_applying := False\<rparr> | DeleteDocs \<Rightarrow> s2\<lparr>ad_deleting := False\<rparr>) else s2))"

text \<open>A dropped file: too large a file is refused; a file that is read replaces the text.\<close>

definition drop_file :: "nat \<Rightarrow> string option \<Rightarrow> apply_drawer \<Rightarrow> apply_drawer" where
  "drop_file bytes content s =
    (if bytes > MAX_FILE_BYTES then apply_toast ''pages.applyYaml.tooLarge'' 0 s
     else case content of None \<Rightarrow> apply_toast ''pages.applyYaml.readError'' 0 s | Some t \<Rightarrow> s\<lparr>ad_text := t\<rparr>)"

datatype apply_act =
    OpenApply string | CloseApply | EditText string | ClickSubmit | ClickDelete | ConfirmDelete | CancelDelete
  | DocsDone nat "ApplyYamlEntry list option option" | DropFile nat "string option" | ToggleResults

definition apply_step :: "string \<Rightarrow> apply_act \<Rightarrow> apply_drawer \<Rightarrow> apply_drawer" where
  "apply_step clusterId a s = (case a of
     OpenApply ty \<Rightarrow> if ad_open s then s else open_apply ty s
   | CloseApply \<Rightarrow> close_apply s
   | EditText t \<Rightarrow> if ad_open s then s\<lparr>ad_text := t\<rparr> else s
   | ClickSubmit \<Rightarrow> if ad_open s \<and> \<not> ad_applying s \<and> \<not> ad_deleting s then handleSubmit clusterId s else s
   | ClickDelete \<Rightarrow> if ad_open s \<and> \<not> ad_applying s \<and> \<not> ad_deleting s then askDelete s else s
   | ConfirmDelete \<Rightarrow> confirmDelete clusterId s
   | CancelDelete \<Rightarrow> s\<lparr>ad_confirming := None\<rparr>
   | DocsDone i r \<Rightarrow> docs_done i r s
   | DropFile n t \<Rightarrow> if ad_open s then drop_file n t s else s
   | ToggleResults \<Rightarrow> s\<lparr>ad_expanded := \<not> ad_expanded s\<rparr>)"

subsection \<open>The alert with the results\<close>

definition result_label :: "ApplyYamlEntry \<Rightarrow> string" where
  "result_label r =
    (let opt = (\<lambda>v. case v of None \<Rightarrow> [] | Some s \<Rightarrow> s)
     in (if opt (ay_namespace r) = [] then [] else opt (ay_namespace r) @ ''/'') @
        (if opt (ay_name r) = [] then ''#'' @ show_nat (ay_index r) else opt (ay_name r)))"

definition result_line :: "ApplyYamlEntry \<Rightarrow> bool \<times> string option \<times> string \<times> string option" where
  "result_line r =
    (ay_success r, (case ay_kind r of Some k \<Rightarrow> if k = [] then None else Some k | None \<Rightarrow> None), result_label r,
     (case ay_error r of Some e \<Rightarrow> if e = [] then None else Some e | None \<Rightarrow> None))"

text \<open>The counts of the title, and the lines when they are unfolded.\<close>

definition results_alert ::
  "apply_drawer \<Rightarrow> (nat \<times> nat \<times> (bool \<times> string option \<times> string \<times> string option) list option) option" where
  "results_alert s =
    (case ad_results s of None \<Rightarrow> None
     | Some rs \<Rightarrow> if list_ex (\<lambda>r. \<not> ay_success r) rs
         then Some (length (filter ay_success rs), length rs, if ad_expanded s then Some (map result_line rs) else None)
         else None)"

subsection \<open>What an answer leaves behind\<close>

text \<open>C36. When the open drawer's apply is answered, the page refreshes once.  If every document
  was applied the drawer closes with a toast of their number.  Otherwise it stays open, with
  the text as it was, and the alert has a line for every document, in the server's order,
  and counts the applied ones.\<close>

theorem apply_answer_keeps_unfinished_work:
  assumes "ad_open s" "ad_flights s = [(ad_instance s, ApplyDocs)]"
  shows "let s' = apply_step clusterId (DocsDone 0 (Some (Some rs))) s
    in ad_applied s' = Suc (ad_applied s) \<and> \<not> ad_applying s' \<and> ad_flights s' = [] \<and>
      (if list_all ay_success rs
       then \<not> ad_open s' \<and> ad_toasts s' = ad_toasts s @ [(''pages.applyYaml.successN'', length rs)]
       else ad_open s' \<and> ad_text s' = ad_text s \<and> ad_toasts s' = ad_toasts s \<and>
         results_alert s' = Some (length rs - length (failed_docs rs), length rs, Some (map result_line rs)))"
proof -
  have "failed_docs rs = [] \<longleftrightarrow> list_all ay_success rs"
    by (simp add: failed_docs_def filter_empty_conv list_all_iff)
  moreover have "list_ex (\<lambda>r. \<not> ay_success r) rs \<longleftrightarrow> \<not> list_all ay_success rs" by (auto simp: list_ex_iff list_all_iff)
  moreover have "length (filter ay_success rs) = length rs - length (failed_docs rs)"
    using sum_length_filter_compl[of ay_success rs] by (simp add: failed_docs_def)
  ultimately show ?thesis using assms
    by (simp add: apply_step_def docs_done_def docs_answered_def close_apply_def apply_toast_def results_alert_def Let_def)
qed


lemma apply_answer_keeps_unfinished_work_witness:
  "let s = fold (apply_step ''c1'') [OpenApply ''pods'', EditText ''a: b'', ClickSubmit] ad_init;
       r = \<lparr>ay_success = False, ay_error = Some ''denied'', ay_index = 0, ay_kind = Some ''Pod'', ay_namespace = None, ay_name = Some ''web''\<rparr>;
       s' = apply_step ''c1'' (DocsDone 0 (Some (Some [r]))) s
   in ad_applied s' = 1 \<and> ad_open s' \<and> ad_text s' = ''a: b'' \<and>
      results_alert s' = Some (0, 1, Some [(False, Some ''Pod'', ''web'', Some ''denied'')])"
proof -
  define s where "s = fold (apply_step ''c1'') [OpenApply ''pods'', EditText ''a: b'', ClickSubmit] ad_init"
  have s: "ad_open s" "ad_flights s = [(ad_instance s, ApplyDocs)]" "ad_applied s = 0" "ad_text s = ''a: b''"
    by (simp_all add: s_def apply_step_def open_apply_def handleSubmit_def ad_init_def Let_def trim_def is_ws_def)
  define r where "r = \<lparr>ay_success = False, ay_error = Some ''denied'', ay_index = 0, ay_kind = Some ''Pod'', ay_namespace = None, ay_name = Some ''web''\<rparr>"
  show ?thesis
    using apply_answer_keeps_unfinished_work[OF s(1,2), of "''c1''" "[r]"] s(3,4)
    unfolding Let_def s_def[symmetric] r_def[symmetric] by (simp add: r_def failed_docs_def result_line_def result_label_def)
qed

text \<open>An answer to an instance that was closed in the meantime closes the next one, whatever is
  typed in it.\<close>

theorem late_apply_closes_next_drawer:
  assumes "ad_open s" "\<not> ad_applying s" "\<not> ad_deleting s" "trim (ad_text s) \<noteq> []" "ad_flights s = []"
    and "list_all ay_success rs"
  shows "let s' = fold (apply_step clusterId)
      [ClickSubmit, CloseApply, OpenApply ty, EditText t, DocsDone 0 (Some (Some rs))] s
    in \<not> ad_open s' \<and> ad_text s' = t"
proof -
  have "failed_docs rs = []" using assms(6) by (simp add: failed_docs_def filter_empty_conv list_all_iff)
  then show ?thesis using assms
    by (simp add: apply_step_def handleSubmit_def close_apply_def open_apply_def docs_done_def docs_answered_def
        apply_toast_def Let_def)
qed

text \<open>On every page of the workload table the drawer opens with the template of the page's
  type, which declares a namespace exactly when the table has namespaces; on the pages of
  the CR viewer it opens empty.\<close>

theorem drawer_seeds_the_page:
  "(case map_of TEMPLATES type of
      None \<Rightarrow> type \<notin> set VALID_TYPES \<and> seed_text type = []
    | Some ls \<Rightarrow> seed_text type = template_text ls \<and> ls \<noteq> [] \<and> declares_namespace ls = (\<not> isClusterScoped type None)) \<and>
   seed_text ''_cr'' = []"
proof -
  have cover: "list_all (\<lambda>t. map_of TEMPLATES t \<noteq> None) VALID_TYPES" by code_simp
  have cr: "map_of TEMPLATES ''_cr'' = None" by code_simp
  show ?thesis
  proof (cases "map_of TEMPLATES type")
    case None
    then show ?thesis using cover cr by (auto simp: seed_text_def list_all_iff)
  next
    case (Some ls)
    then have ok: "template_ok (type, ls)" using templates_each_ok map_of_SomeD by (fastforce simp: list_all_iff)
    moreover have "type \<noteq> ''_cr''" using Some cr by auto
    moreover have "ls \<noteq> []" using ok by (auto simp: template_ok_def declares_name_def metadata_block_def)
    ultimately show ?thesis using Some cr by (simp add: seed_text_def template_ok_def isClusterScoped_def)
  qed
qed

text \<open>A successful delete closes the drawer with its text, and the next opening starts from the
  template.\<close>

theorem deleted_text_is_gone:
  assumes "ad_open s" "ad_flights s = [(ad_instance s, DeleteDocs)]" "list_all ay_success rs"
  shows "let s' = fold (apply_step clusterId) [DocsDone 0 (Some (Some rs)), OpenApply ty] s in ad_open s' \<and> ad_text s' = seed_text ty"
proof -
  have "failed_docs rs = []" using assms(3) by (simp add: failed_docs_def filter_empty_conv list_all_iff)
  then show ?thesis using assms
    by (simp add: apply_step_def open_apply_def docs_done_def docs_answered_def apply_toast_def close_apply_def Let_def)
qed

end
