(* ===== verification/YamlCreate.thy ===== *)
theory YamlCreate
  imports ApplyYaml WorkloadPage EffectLoad
begin

text \<open>
  pages/Compute/Volcano/shared/YamlCreateDrawer.tsx: the drawer that creates or edits one
  object as YAML, with what the JobFlow and JobTemplate pages put in it; and the decoration of
  the status block in the editor (ClusterDetail/Workloads/YamlEditorImpl.tsx).
\<close>

section \<open>The drawer\<close>

text \<open>The fields of the object that the server manages, dropped before the dump.\<close>

definition server_fields :: "string list" where
  "server_fields = [''managedFields'', ''resourceVersion'', ''generation'', ''uid'', ''creationTimestamp'', ''selfLink'']"

definition without :: "string list \<Rightarrow> obj \<Rightarrow> obj" where
  "without ks kv = filter (\<lambda>(k, v). k \<notin> set ks) kv"

definition edit_value :: "string \<Rightarrow> json \<Rightarrow> json" where
  "edit_value k v = (case v of JObj m \<Rightarrow> if k = ''metadata'' then JObj (without server_fields m) else v | _ \<Rightarrow> v)"

definition editable :: "jval \<Rightarrow> jval" where
  "editable raw =
    (case raw of
       Some (JObj kv) \<Rightarrow>
         Some (JObj (without [''status''] (map (\<lambda>(k, v). (k, edit_value k v)) kv)))
     | _ \<Rightarrow> raw)"

record yaml_drawer =
  yc_open :: bool
  yc_editing :: "row_id option"
  yc_text :: string
  yc_error :: "string option"
  yc_loading :: bool
  yc_submitting :: bool
  yc_run :: nat
  yc_flights :: "(nat \<times> row_id) list"
  yc_sent :: "json list"
  yc_toasts :: "string list"
  yc_saved :: nat

definition yc_init :: yaml_drawer where
  "yc_init = \<lparr>yc_open = False, yc_editing = None, yc_text = [], yc_error = None, yc_loading = False, yc_submitting = False,
     yc_run = 0, yc_flights = [], yc_sent = [], yc_toasts = [], yc_saved = 0\<rparr>"

text \<open>The effect: every run cancels the one before, and only a run that loads shows the spinner.\<close>

definition open_yaml :: "string \<Rightarrow> row_id option \<Rightarrow> yaml_drawer \<Rightarrow> yaml_drawer" where
  "open_yaml defaultYaml editing s =
    (let s' = s\<lparr>yc_open := True, yc_editing := editing, yc_error := None, yc_run := Suc (yc_run s)\<rparr>
     in case editing of
       None \<Rightarrow> s'\<lparr>yc_text := defaultYaml\<rparr>
     | Some row \<Rightarrow> s'\<lparr>yc_loading := True, yc_flights := (Suc (yc_run s), row) # yc_flights s\<rparr>)"

definition close_yaml :: "yaml_drawer \<Rightarrow> yaml_drawer" where
  "close_yaml s = s\<lparr>yc_open := False, yc_run := Suc (yc_run s)\<rparr>"

definition yaml_get :: "string \<Rightarrow> CRRef \<Rightarrow> row_id \<Rightarrow> request" where
  "yaml_get clusterId cr row = getWorkload clusterId ''_cr'' (fst row) (snd row) (Some cr)"

text \<open>The load of a run ends.  The handler of its error does not ask whether the run was
  cancelled.\<close>

definition yaml_loaded :: "(jval \<Rightarrow> string) \<Rightarrow> nat \<Rightarrow> string + jval \<Rightarrow> yaml_drawer \<Rightarrow> yaml_drawer" where
  "yaml_loaded dump n r s =
    (let s' = s\<lparr>yc_flights := filter (\<lambda>l. fst l \<noteq> n) (yc_flights s)\<rparr>; mine = (n = yc_run s);
         done = (\<lambda>t. if mine then t\<lparr>yc_loading := False\<rparr> else t)
     in if n \<notin> fst ` set (yc_flights s) then s
        else case r of
          Inr obj \<Rightarrow> if mine then done (s'\<lparr>yc_text := dump (editable obj)\<rparr>) else s'
        | Inl msg \<Rightarrow> done (s'\<lparr>yc_error := Some msg\<rparr>))"

definition yaml_submit :: "(string \<Rightarrow> string + jval) \<Rightarrow> yaml_drawer \<Rightarrow> yaml_drawer" where
  "yaml_submit load s =
    (case load (yc_text s) of
       Inl e \<Rightarrow> s\<lparr>yc_toasts := yc_toasts s @ [''YAML parse failed: '' @ e]\<rparr>
     | Inr manifest \<Rightarrow>
         if \<not> truthy manifest \<or> \<not> typeof_object manifest then s\<lparr>yc_toasts := yc_toasts s @ [not_object_msg]\<rparr>
         else s\<lparr>yc_submitting := True, yc_sent := yc_sent s @ [the manifest]\<rparr>)"

definition yaml_submitted :: "ApplyYamlResult list option \<Rightarrow> yaml_drawer \<Rightarrow> yaml_drawer" where
  "yaml_submitted res s =
    (let s' = s\<lparr>yc_submitting := False\<rparr>
     in if \<not> yc_submitting s then s
        else case apply_finish res of
          Rejected \<Rightarrow> s'
        | Failed m \<Rightarrow> s'\<lparr>yc_toasts := yc_toasts s @ [m]\<rparr>
        | Saved \<Rightarrow> close_yaml (s'\<lparr>yc_toasts := yc_toasts s @ [''pages.compute.yamlDrawer.success''], yc_saved := Suc (yc_saved s)\<rparr>))"

datatype yaml_act =
    OpenYaml string "row_id option" | CloseYaml | YamlLoaded nat "string + jval" | EditYaml string
  | DismissError | SubmitYaml | YamlSubmitted "ApplyYamlResult list option"

definition yaml_step ::
  "(jval \<Rightarrow> string) \<Rightarrow> (string \<Rightarrow> string + jval) \<Rightarrow> yaml_act \<Rightarrow> yaml_drawer \<Rightarrow> yaml_drawer" where
  "yaml_step dump load a s = (case a of
     OpenYaml d e \<Rightarrow> open_yaml d e s
   | CloseYaml \<Rightarrow> close_yaml s
   | YamlLoaded n r \<Rightarrow> yaml_loaded dump n r s
   | EditYaml t \<Rightarrow> if yc_open s \<and> \<not> yc_loading s then s\<lparr>yc_text := t\<rparr> else s
   | DismissError \<Rightarrow> s\<lparr>yc_error := None\<rparr>
   | SubmitYaml \<Rightarrow> if yc_open s \<and> \<not> yc_submitting s then yaml_submit load s else s
   | YamlSubmitted r \<Rightarrow> yaml_submitted r s)"

subsection \<open>Loading and submitting\<close>

text \<open>Until a load answers the editor holds the text of the object before, which the submit
  button sends.\<close>

theorem edit_starts_from_the_text_before:
  assumes "load (yc_text s) = Inr (Some m)" "truthy (Some m)" "typeof_object (Some m)" "\<not> yc_submitting s"
  shows "let s' = fold (yaml_step dump load) [OpenYaml d (Some row), SubmitYaml] s
    in yc_editing s' = Some row \<and> yc_loading s' \<and> yc_sent s' = yc_sent s @ [m]"
  using assms by (simp add: yaml_step_def open_yaml_def yaml_submit_def Let_def)

text \<open>The error of a cancelled load shows in the drawer of the next object.\<close>

theorem cancelled_error_shows_in_next_drawer:
  assumes "yc_flights s = []"
  shows "let s' = fold (yaml_step dump load)
      [OpenYaml d (Some a), CloseYaml, OpenYaml d (Some b), YamlLoaded (Suc (yc_run s)) (Inl msg)] s
    in yc_editing s' = Some b \<and> yc_error s' = Some msg"
  using assms by (simp add: yaml_step_def open_yaml_def close_yaml_def yaml_loaded_def Let_def)

text \<open>An object without the fields the server manages reads back as it is written.\<close>

lemma map_of_without: "map_of (without ks kv) k = (if k \<in> set ks then None else map_of kv k)"
  by (induction kv) (auto simp: without_def)

lemma map_of_map_key: "map_of (map (\<lambda>(k, v). (k, f k v)) kv) k = map_option (f k) (map_of kv k)"
  by (induction kv) auto

lemma edit_value_other: "k \<noteq> ''metadata'' \<Longrightarrow> edit_value k v = v"
  by (simp add: edit_value_def split: json.splits)

lemma jget_edit_metadata:
  "jget k (edit_value ''metadata'' v) = (if k \<in> set server_fields then (case v of JObj m \<Rightarrow> None | _ \<Rightarrow> jget k v) else jget k v)"
  by (cases v) (simp_all add: edit_value_def map_of_without)

theorem editable_keeps_the_rest:
  "oget ''status'' (editable (Some (JObj kv))) = None \<and>
   (k \<in> {''status'', ''metadata''} \<or> oget k (editable (Some (JObj kv))) = map_of kv k) \<and>
   opath [''metadata'', k] (editable (Some (JObj kv))) =
     (if k \<in> set server_fields then None else opath [''metadata'', k] (Some (JObj kv)))"
proof (intro conjI)
  have e: "editable (Some (JObj kv)) = Some (JObj (without [''status''] (map (\<lambda>(k, v). (k, edit_value k v)) kv)))"
    by (simp add: editable_def)
  show "oget ''status'' (editable (Some (JObj kv))) = None" by (simp add: e map_of_without)
  show "k \<in> {''status'', ''metadata''} \<or> oget k (editable (Some (JObj kv))) = map_of kv k"
    using edit_value_other[of k] by (cases "map_of kv k") (auto simp: e map_of_without map_of_map_key)
  show "opath [''metadata'', k] (editable (Some (JObj kv))) =
     (if k \<in> set server_fields then None else opath [''metadata'', k] (Some (JObj kv)))"
    by (cases "map_of kv ''metadata''")
      (simp_all add: e map_of_without map_of_map_key jget_edit_metadata split: json.splits)
qed

section \<open>The JobFlow and JobTemplate pages\<close>

definition JOB_FLOW_CR :: CRRef where
  "JOB_FLOW_CR = \<lparr>cr_group = ''flow.volcano.sh'', cr_version = ''v1alpha1'', cr_kind = ''JobFlow'', cr_scope = Namespaced\<rparr>"

definition JOB_TEMPLATE_CR :: CRRef where
  "JOB_TEMPLATE_CR = \<lparr>cr_group = ''flow.volcano.sh'', cr_version = ''v1alpha1'', cr_kind = ''JobTemplate'', cr_scope = Namespaced\<rparr>"

definition buildDefaultJobFlowYaml :: "string \<Rightarrow> string" where
  "buildDefaultJobFlowYaml namespace = template_text [
     ''apiVersion: flow.volcano.sh/v1alpha1'',
     ''kind: JobFlow'',
     ''metadata:'',
     ''  name: example-flow'',
     ''  namespace: '' @ (if namespace = [] then ''default'' else namespace),
     ''spec:'',
     ''  jobRetainPolicy: retain'',
     ''  flows:'',
     ''    - name: prepare-data'',
     ''    - name: train-model'',
     ''      dependsOn:'',
     ''        targets:'',
     ''          - prepare-data'']"

definition buildDefaultJobTemplateYaml :: "string \<Rightarrow> string" where
  "buildDefaultJobTemplateYaml namespace = template_text [
     ''apiVersion: flow.volcano.sh/v1alpha1'',
     ''kind: JobTemplate'',
     ''metadata:'',
     ''  name: example-template'',
     ''  namespace: '' @ (if namespace = [] then ''default'' else namespace),
     ''spec:'',
     ''  minAvailable: 1'',
     ''  schedulerName: volcano'',
     ''  tasks:'',
     ''    - name: main'',
     ''      replicas: 1'',
     ''      template:'',
     ''        spec:'',
     ''          schedulerName: volcano'',
     ''          restartPolicy: OnFailure'',
     ''          containers:'',
     ''            - name: main'',
     ''              image: busybox'',
     ''              command: ['' @ [CHR 0x27] @ ''sh'' @ [CHR 0x27] @ '', '' @ [CHR 0x27] @ ''-c'' @ [CHR 0x27] @ '', '' @
       [CHR 0x27] @ ''echo hello && sleep 30'' @ [CHR 0x27] @ '']'']"

record JobFlowRow =
  jf_name :: string
  jf_namespace :: string
  jf_uid :: string
  jf_created :: string
  jf_phase :: string
  jf_retain :: "string option"
  jf_flow_count :: nat
  jf_pending :: nat
  jf_running :: nat
  jf_completed :: nat
  jf_failed :: nat
  jf_terminated :: nat
  jf_unknown :: nat

definition jobFlowPhaseColor :: "string \<Rightarrow> string option" where
  "jobFlowPhaseColor p =
    (if p = [] then None
     else Some (case map_of [(''Succeed'', ''green''), (''Running'', ''blue''), (''Pending'', ''gold''), (''Failed'', ''red''),
         (''Terminating'', ''orange'')] p of None \<Rightarrow> ''default'' | Some c \<Rightarrow> c))"

definition flow_parts :: "JobFlowRow \<Rightarrow> (string \<times> nat \<times> string) list" where
  "flow_parts r =
    [(''Running'', jf_running r, ''blue''), (''Pending'', jf_pending r, ''gold''), (''Completed'', jf_completed r, ''green''),
     (''Failed'', jf_failed r, ''red''), (''Terminated'', jf_terminated r, ''orange''), (''Unknown'', jf_unknown r, ''default'')]"

definition jobFlowProgress :: "JobFlowRow \<Rightarrow> (string \<times> string) list" where
  "jobFlowProgress r = map (\<lambda>(label, n, color). (label @ '' '' @ show_nat n, color)) (filter (\<lambda>(_, n, _). n > 0) (flow_parts r))"

section \<open>The status block in the editor\<close>

text \<open>Which lines are dimmed: a line that starts with the key, and the blank or indented lines
  after it.\<close>

definition status_key :: "string \<Rightarrow> bool" where
  "status_key l = starts_with ''status:'' l"

definition continues :: "string \<Rightarrow> bool" where
  "continues l \<longleftrightarrow> (l \<noteq> [] \<and> is_ws (hd l)) \<or> trim l = []"

fun status_decos :: "bool \<Rightarrow> string list \<Rightarrow> bool list" where
  "status_decos inStatus [] = []"
| "status_decos inStatus (l # ls) =
    (if status_key l then True # status_decos True ls
     else if inStatus \<and> continues l then True # status_decos True ls
     else False # status_decos False ls)"

definition buildStatusDecos :: "string \<Rightarrow> bool list" where
  "buildStatusDecos doc = status_decos False (split_on (\<lambda>c. c = CHR 0x0A) doc)"

lemma find_append: "find P (xs @ ys) = (case find P xs of None \<Rightarrow> find P ys | Some x \<Rightarrow> Some x)"
  by (induction xs) auto

lemma status_key_starts_block:
  assumes "status_key l"
  shows "\<not> continues l"
proof -
  obtain u where l: "l = CHR ''s'' # u" using assms by (auto simp: status_key_def starts_with_iff)
  have s: "\<not> is_ws (CHR ''s'')" by (simp add: is_ws_def)
  then have "\<not> (\<forall>c \<in> set (rev l). is_ws c)" using l by auto
  then show ?thesis using l s by (auto simp: continues_def trim_def)
qed

lemma length_status_decos [simp]: "length (status_decos b ls) = length ls"
  by (induction b ls rule: status_decos.induct) auto

lemma status_decos_nth:
  "i < length ls \<Longrightarrow> status_decos b ls ! i =
    (case find (\<lambda>l. \<not> continues l) (rev (take (Suc i) ls)) of Some l \<Rightarrow> status_key l | None \<Rightarrow> b)"
proof (induction b ls arbitrary: i rule: status_decos.induct)
  case (2 b l ls)
  then show ?case
    using status_key_starts_block[of l] by (cases i) (auto simp: find_append split: option.splits)
qed simp

text \<open>A line of the editor is dimmed exactly when the nearest line at or above it that
  starts in the first column is the status key: the whole block under the key, its blank
  lines included, and nothing else.\<close>

theorem status_block_is_dimmed:
  "buildStatusDecos doc = (let ls = split_on (\<lambda>c. c = CHR 0x0A) doc
    in map (\<lambda>i. case find (\<lambda>l. \<not> continues l) (rev (take (Suc i) ls)) of Some l \<Rightarrow> status_key l | None \<Rightarrow> False)
         [0..<length ls])"
  unfolding buildStatusDecos_def Let_def by (rule nth_equalityI) (simp_all add: status_decos_nth)

end
