(* ===== verification/VolcanoTables.thy ===== *)
theory VolcanoTables
  imports QueueTree BurstRefresh VolcanoManifest ModelCatalog
begin

text \<open>
  The Volcano tables: the list requests of services/kpilot/volcano-list.ts, the helpers of
  pages/Compute/Volcano/shared/Layout.tsx, and the cells and actions of the pages Queues, Jobs,
  CronJobs, PodGroups, HyperNodes, NumaTopologies, NodeShards and ColocationConfigurations.

  toMs is the time in milliseconds that a Date makes of a timestamp, None for an invalid
  one; collate is the collation key of localeCompare.
\<close>

section \<open>Requests\<close>

record VolcanoListParams =
  vp_namespace :: string
  vp_limit :: "rat option"
  vp_token :: string

definition listParams :: "VolcanoListParams \<Rightarrow> obj" where
  "listParams p =
    prop_if (vp_namespace p \<noteq> []) ''namespace'' (JStr (vp_namespace p)) @
    (case vp_limit p of Some n \<Rightarrow> prop_if (n > 0) ''limit'' (JNum n) | None \<Rightarrow> []) @
    prop_if (vp_token p \<noteq> []) ''continue'' (JStr (vp_token p))"

definition volcano_get :: "string \<Rightarrow> string \<Rightarrow> VolcanoListParams \<Rightarrow> request" where
  "volcano_get kind clusterId p = GET (path [''api'', ''v1'', ''clusters'', clusterId, ''volcano'', kind]) (listParams p)"

text \<open>A page of the table of a namespaced and of a cluster-scoped kind.\<close>

definition listVolcanoJobs :: "string \<Rightarrow> string \<Rightarrow> VolcanoListParams \<Rightarrow> request" where
  "listVolcanoJobs clusterId ns p = volcano_get ''jobs'' clusterId (p\<lparr>vp_namespace := ns\<rparr>)"

definition listVolcanoCronJobs :: "string \<Rightarrow> string \<Rightarrow> VolcanoListParams \<Rightarrow> request" where
  "listVolcanoCronJobs clusterId ns p = volcano_get ''cronjobs'' clusterId (p\<lparr>vp_namespace := ns\<rparr>)"

definition listVolcanoPodGroups :: "string \<Rightarrow> string \<Rightarrow> VolcanoListParams \<Rightarrow> request" where
  "listVolcanoPodGroups clusterId ns p = volcano_get ''podgroups'' clusterId (p\<lparr>vp_namespace := ns\<rparr>)"

definition listVolcanoJobFlows :: "string \<Rightarrow> string \<Rightarrow> VolcanoListParams \<Rightarrow> request" where
  "listVolcanoJobFlows clusterId ns p = volcano_get ''jobflows'' clusterId (p\<lparr>vp_namespace := ns\<rparr>)"

definition listVolcanoJobTemplates :: "string \<Rightarrow> string \<Rightarrow> VolcanoListParams \<Rightarrow> request" where
  "listVolcanoJobTemplates clusterId ns p = volcano_get ''jobtemplates'' clusterId (p\<lparr>vp_namespace := ns\<rparr>)"

definition listVolcanoColocationConfigurations :: "string \<Rightarrow> string \<Rightarrow> VolcanoListParams \<Rightarrow> request" where
  "listVolcanoColocationConfigurations clusterId ns p = volcano_get ''colocationconfigurations'' clusterId (p\<lparr>vp_namespace := ns\<rparr>)"

definition listVolcanoQueues :: "string \<Rightarrow> VolcanoListParams \<Rightarrow> request" where
  "listVolcanoQueues = volcano_get ''queues''"

definition listVolcanoHyperNodes :: "string \<Rightarrow> VolcanoListParams \<Rightarrow> request" where
  "listVolcanoHyperNodes = volcano_get ''hypernodes''"

definition listVolcanoNumatopologies :: "string \<Rightarrow> VolcanoListParams \<Rightarrow> request" where
  "listVolcanoNumatopologies = volcano_get ''numatopologies''"

definition listVolcanoNodeShards :: "string \<Rightarrow> VolcanoListParams \<Rightarrow> request" where
  "listVolcanoNodeShards = volcano_get ''nodeshards''"

section \<open>Layout helpers\<close>

definition age_label :: "int \<Rightarrow> string" where
  "age_label sec =
    (if sec < 60 then show_int sec @ ''s''
     else if sec div 60 < 60 then show_int (sec div 60) @ ''m''
     else if sec div 60 div 60 < 48 then show_int (sec div 60 div 60) @ ''h''
     else show_int (sec div 60 div 60 div 24) @ ''d'')"

definition formatAge :: "(string \<Rightarrow> int option) \<Rightarrow> int \<Rightarrow> string option \<Rightarrow> string \<Rightarrow> string" where
  "formatAge toMs now created placeholder =
    (case created of None \<Rightarrow> placeholder
     | Some s \<Rightarrow> if s = [] then placeholder
         else (case toMs s of None \<Rightarrow> [] | Some t \<Rightarrow> age_label (max 0 ((now - t) div 1000))))"

text \<open>e?.response?.data?.code ?? e?.code\<close>

definition isResourceNotAvailable :: "jval \<Rightarrow> bool" where
  "isResourceNotAvailable e \<longleftrightarrow>
    coalesce (opath [''response'', ''data'', ''code''] e) (oget ''code'' e) = Some (JStr ''RESOURCE_NOT_AVAILABLE'')"

text \<open>Whether the polling timer runs, and the button of the interval menu, with the menu's keys.\<close>

definition auto_refresh_runs :: "bool \<Rightarrow> nat \<Rightarrow> bool" where
  "auto_refresh_runs ready interval \<longleftrightarrow> ready \<and> interval > 0"

definition refresh_menu :: "(string \<times> string) list" where
  "refresh_menu = [(''0'', ''pages.workloads.refresh.off''), (''5000'', ''5s''), (''10000'', ''10s''), (''30000'', ''30s''), (''60000'', ''60s'')]"

definition refresh_button :: "nat \<Rightarrow> string option" where
  "refresh_button interval = (if interval > 0 then Some (show_num (of_nat interval / 1000) @ ''s'') else None)"

text \<open>Staggered refreshes: one timer each; unmounting clears every timer ever set.\<close>

definition fire_refresh :: "int list \<Rightarrow> burst_state \<times> nat list \<Rightarrow> burst_state \<times> nat list" where
  "fire_refresh delays st = fold (\<lambda>d (s, timers). (set_timeout DoRefresh d s, timers @ [bs_next s])) delays st"

definition staggered_unmount :: "burst_state \<times> nat list \<Rightarrow> burst_state \<times> nat list" where
  "staggered_unmount st = (case st of (s, timers) \<Rightarrow> (clear_timeouts timers s, []))"

text \<open>The banner over a truncated list, with the button that loads more.\<close>

datatype truncated = ShownOfTotal nat int | ShownOnly nat

definition TruncatedBanner :: "nat \<Rightarrow> nat option \<Rightarrow> int option \<Rightarrow> truncated option" where
  "TruncatedBanner shown cnt total_known =
    (if shown = 0 then None
     else Some (case total_known of
       Some t \<Rightarrow> if t \<noteq> 0 then ShownOfTotal shown t else ShownOnly (case cnt of None \<Rightarrow> shown | Some c \<Rightarrow> c)
     | None \<Rightarrow> ShownOnly (case cnt of None \<Rightarrow> shown | Some c \<Rightarrow> c)))"

text \<open>C38. An age is the elapsed time in whole seconds, minutes, hours or days, rounded down: the
  number shown, in the unit shown, is at most the age and off by less than one unit; a
  timestamp in the future counts as just created.\<close>

theorem age_rounds_down:
  "\<exists>n unit secs. formatAge (\<lambda>_. Some t) now (Some (c # cs)) ph = show_int n @ unit \<and>
    (unit, secs) \<in> {(''s'', 1), (''m'', 60), (''h'', 3600), (''d'', 86400)} \<and> 0 \<le> n \<and>
    n * secs * 1000 \<le> max 0 (now - t) \<and> max 0 (now - t) < (n + 1) * secs * 1000"
proof -
  define sec where "sec = max 0 ((now - t) div 1000)"
  have s: "0 \<le> sec" "sec * 1000 \<le> max 0 (now - t)" "max 0 (now - t) < (sec + 1) * 1000"
    unfolding sec_def max_def by (auto split: if_splits)
  have e: "formatAge (\<lambda>_. Some t) now (Some (c # cs)) ph = age_label sec" by (simp add: formatAge_def sec_def)
  have f: "(sec div 60) * 60 \<le> sec" "sec < (sec div 60 + 1) * 60" "(sec div 3600) * 3600 \<le> sec" "sec < (sec div 3600 + 1) * 3600"
    "(sec div 86400) * 86400 \<le> sec" "sec < (sec div 86400 + 1) * 86400"
    by presburger+
  have dd: "sec div 60 div 60 = sec div 3600" "sec div 3600 div 24 = sec div 86400"
    using s(1) by (simp_all add: zdiv_zmult2_eq[symmetric])
  consider "sec < 60" | "\<not> sec < 60" "sec div 60 < 60" | "\<not> sec < 60" "\<not> sec div 60 < 60" "sec div 3600 < 48"
    | "\<not> sec < 60" "\<not> sec div 60 < 60" "\<not> sec div 3600 < 48" by blast
  then show ?thesis
  proof cases
    case 1
    then show ?thesis unfolding e using s by - (rule exI[of _ sec], rule exI[of _ "''s''"], rule exI[of _ 1], simp add: age_label_def)
  next
    case 2
    then show ?thesis unfolding e using s f(1,2)
      by - (rule exI[of _ "sec div 60"], rule exI[of _ "''m''"], rule exI[of _ 60], simp add: age_label_def pos_imp_zdiv_nonneg_iff)
  next
    case 3
    then show ?thesis unfolding e using s f(3,4)
      by - (rule exI[of _ "sec div 3600"], rule exI[of _ "''h''"], rule exI[of _ 3600], simp add: age_label_def dd pos_imp_zdiv_nonneg_iff)
  next
    case 4
    then show ?thesis unfolding e using s f(5,6)
      by - (rule exI[of _ "sec div 86400"], rule exI[of _ "''d''"], rule exI[of _ 86400], simp add: age_label_def dd pos_imp_zdiv_nonneg_iff)
  qed
qed

section \<open>Cells\<close>

text \<open>A tag is a text with a colour; None is the dash in its place.\<close>

type_synonym tag = "string \<times> string"

definition coloured :: "(string list \<times> string) list \<Rightarrow> string \<Rightarrow> tag option" where
  "coloured table s =
    (if s = [] then None
     else Some (s, case find (\<lambda>(names, c). s \<in> set names) table of None \<Rightarrow> ''default'' | Some (_, c) \<Rightarrow> c))"

definition JobStateTag :: "string \<Rightarrow> tag option" where
  "JobStateTag = coloured
    [([''Running''], ''green''), ([''Completed'', ''Completing''], ''blue''), ([''Pending''], ''gold''),
     ([''Failed'', ''Terminated'', ''Aborted''], ''red''), ([''Restarting'', ''Terminating'', ''Aborting''], ''orange'')]"

definition PodGroupPhaseTag :: "string \<Rightarrow> tag option" where
  "PodGroupPhaseTag = coloured
    [([''Running''], ''green''), ([''Completed''], ''blue''), ([''Pending'', ''Inqueue''], ''gold''), ([''Failed''], ''red''),
     ([''Unknown''], ''orange'')]"

definition queue_state_tag :: "string \<Rightarrow> tag" where
  "queue_state_tag s =
    (if s = [] then (''pages.compute.queue.state.unknown'', ''default'')
     else (s, if s = ''Open'' then ''green'' else if s = ''Closed'' then ''red'' else ''orange''))"

definition available_tag :: "string \<Rightarrow> tag option" where
  "available_tag = coloured [([''True''], ''green''), ([''False''], ''red'')]"

subsection \<open>Jobs\<close>

record JobTaskRow =
  jt_name :: string
  jt_replicas :: nat
  jt_image :: string

record JobRow =
  jr_name :: string
  jr_namespace :: string
  jr_uid :: string
  jr_created :: string
  jr_queue :: "string option"
  jr_scheduler :: "string option"
  jr_priority_class :: "string option"
  jr_min_available :: nat
  jr_state :: string
  jr_pending :: nat
  jr_running :: nat
  jr_succeeded :: nat
  jr_failed :: nat
  jr_terminating :: nat
  jr_unknown :: nat
  jr_plugins :: "string list"
  jr_tasks :: "JobTaskRow list"

definition totalPods :: "JobRow \<Rightarrow> nat" where
  "totalPods r = jr_running r + jr_pending r + jr_succeeded r + jr_failed r + jr_terminating r + jr_unknown r"

text \<open>The counters of the pods column, with the message and the colour of each.\<close>

definition pod_counters :: "JobRow \<Rightarrow> (string \<times> nat \<times> string) list" where
  "pod_counters r =
    [(''pages.compute.phase.running'', jr_running r, ''green''), (''pages.compute.phase.pending'', jr_pending r, ''gold''),
     (''pages.compute.phase.succeeded'', jr_succeeded r, ''blue''), (''pages.compute.phase.failed'', jr_failed r, ''red''),
     (''pages.compute.phase.terminating'', jr_terminating r, ''orange''), (''pages.compute.phase.unknown'', jr_unknown r, ''default'')]"

definition job_pods_cell :: "JobRow \<Rightarrow> (string \<times> nat \<times> string) list \<times> bool" where
  "job_pods_cell r = (filter (\<lambda>(_, n, _). n > 0) (pod_counters r), totalPods r = 0)"

definition times_text :: string where
  "times_text = [CHR '' '', CHR 0xC3, CHR 0x97, CHR '' '']"

definition job_tasks_cell :: "JobRow \<Rightarrow> (string \<times> string) list" where
  "job_tasks_cell r = map (\<lambda>t. (jt_name t @ times_text @ show_nat (jt_replicas t), jt_image t)) (jr_tasks r)"

definition queue_cell :: "string option \<Rightarrow> string" where
  "queue_cell q = (case q of None \<Rightarrow> ''default'' | Some s \<Rightarrow> if s = [] then ''default'' else s)"

text \<open>The state filter of the query string, and what the page lists and says of it.\<close>

definition job_items :: "string \<Rightarrow> JobRow list \<Rightarrow> JobRow list" where
  "job_items stateFilter rows = (if stateFilter = [] then rows else filter (\<lambda>j. jr_state j = stateFilter) rows)"

definition job_banner :: "string \<Rightarrow> JobRow list \<Rightarrow> bool \<Rightarrow> int option \<Rightarrow> truncated option" where
  "job_banner stateFilter rows hasMore total_known =
    (if hasMore then TruncatedBanner (length (job_items stateFilter rows)) None total_known else None)"

text \<open>The button that loads more stands in the banner, which disappears with the last row that
  the filter leaves: the jobs of later pages cannot be reached.\<close>

theorem filter_hides_load_more:
  "job_items st rows = [] \<Longrightarrow> job_banner st rows True total_known = None"
  by (simp add: job_banner_def TruncatedBanner_def)

subsection \<open>Resources\<close>

definition resource_order :: "string \<Rightarrow> nat" where
  "resource_order k =
    (if k = ''cpu'' then 0 else if k = ''memory'' then 1
     else if starts_with ''volcano.sh/vgpu'' k \<or> starts_with ''nvidia.com/gpu'' k then 2 else 3)"

definition short_key :: "string \<Rightarrow> string" where
  "short_key k = (if starts_with ''volcano.sh/vgpu-'' k then drop (length ''volcano.sh/'') k else k)"

definition dot_sep :: string where
  "dot_sep = [CHR '' '', CHR 0xC2, CHR 0xB7, CHR '' '']"

definition infinity_sign :: string where
  "infinity_sign = [CHR 0xE2, CHR 0x88, CHR 0x9E]"

text \<open>A Set of the keys, in the order of their first occurrence.\<close>

definition key_set :: "string list \<Rightarrow> string list" where
  "key_set ks = rev (remdups (rev ks))"

definition sorted_keys :: "(string \<Rightarrow> 'k::linorder) \<Rightarrow> string list \<Rightarrow> string list" where
  "sorted_keys collate ks = sort_key (\<lambda>k. (resource_order k, collate k)) ks"

definition resource_entries :: "(string \<Rightarrow> 'k::linorder) \<Rightarrow> (string \<times> string) list \<Rightarrow> (string \<times> string) list \<Rightarrow> (string \<times> string \<times> string) list" where
  "resource_entries collate alloc cap =
    map (\<lambda>k. (k, case map_of alloc k of None \<Rightarrow> ''0'' | Some a \<Rightarrow> a, case map_of cap k of None \<Rightarrow> infinity_sign | Some c \<Rightarrow> c))
      (sorted_keys collate (key_set (map fst alloc @ map fst cap)))"

definition formatResources :: "(string \<Rightarrow> 'k::linorder) \<Rightarrow> (string \<times> string) list \<Rightarrow> (string \<times> string) list \<Rightarrow> string" where
  "formatResources collate alloc cap =
    join dot_sep (map (\<lambda>(k, a, c). short_key k @ '' '' @ a @ ''/'' @ c) (resource_entries collate alloc cap))"

definition formatMinResources :: "(string \<Rightarrow> 'k::linorder) \<Rightarrow> (string \<times> string) list option \<Rightarrow> string" where
  "formatMinResources collate m =
    (case m of None \<Rightarrow> []
     | Some kvs \<Rightarrow> join dot_sep (map (\<lambda>k. short_key k @ '' '' @ the (map_of kvs k)) (sorted_keys collate (map fst kvs))))"

text \<open>The resources cell of a queue has one entry for every resource that is allocated or
  capped, with the amount allocated, zero if none, over the cap, infinite if none; cpu comes
  first, memory second, GPUs before the rest.\<close>

theorem queue_resources_complete:
  fixes collate :: "string \<Rightarrow> 'k::linorder"
  shows "let rs = resource_entries collate alloc cap in
    distinct (map fst rs) \<and> set (map fst rs) = dom (map_of alloc) \<union> dom (map_of cap) \<and>
    sorted (map (\<lambda>(k, _). resource_order k) rs) \<and>
    list_all (\<lambda>(k, a, c). (map_of alloc k = Some a \<or> (k \<notin> dom (map_of alloc) \<and> a = ''0'')) \<and>
      (map_of cap k = Some c \<or> (k \<notin> dom (map_of cap) \<and> c = infinity_sign))) rs"
proof -
  let ?ks = "sorted_keys collate (key_set (map fst alloc @ map fst cap))"
  have fst: "map fst (resource_entries collate alloc cap) = ?ks" by (simp add: resource_entries_def comp_def)
  have "sorted (map (\<lambda>k. (resource_order k, collate k)) ?ks)" by (simp add: sorted_keys_def)
  then have "sorted_wrt (\<lambda>k k'. resource_order k \<le> resource_order k') ?ks"
    unfolding sorted_map by (rule sorted_wrt_mono_rel[rotated]) (auto simp: less_eq_prod_def)
  then have "sorted (map (\<lambda>(k, _). resource_order k) (resource_entries collate alloc cap))"
    by (simp add: resource_entries_def comp_def sorted_map)
  moreover have "distinct ?ks" "set ?ks = dom (map_of alloc) \<union> dom (map_of cap)"
    by (auto simp: sorted_keys_def key_set_def dom_map_of_conv_image_fst)
  moreover have "list_all (\<lambda>(k, a, c). (map_of alloc k = Some a \<or> (k \<notin> dom (map_of alloc) \<and> a = ''0'')) \<and>
      (map_of cap k = Some c \<or> (k \<notin> dom (map_of cap) \<and> c = infinity_sign))) (resource_entries collate alloc cap)"
    by (auto simp: resource_entries_def list_all_iff split: option.splits)
  ultimately show ?thesis unfolding Let_def fst by blast
qed

subsection \<open>The other kinds\<close>

definition queue_counts :: "QueueRow \<Rightarrow> (string \<times> rat) list" where
  "queue_counts r =
    [(''pages.compute.phase.running'', qu_running r), (''pages.compute.phase.pending'', qu_pending r),
     (''pages.compute.phase.inqueue'', qu_inqueue r)] @
    (if qu_completed r > 0 then [(''pages.compute.phase.completed'', qu_completed r)] else [])"

text \<open>Weight with the mark of a queue that is not reclaimable, resources, and counts.\<close>

definition QueueDetailCell :: "(string \<Rightarrow> 'k::linorder) \<Rightarrow> QueueRow \<Rightarrow> rat \<times> bool \<times> string option \<times> (string \<times> rat) list" where
  "QueueDetailCell collate r =
    (let res = formatResources collate (case qu_allocated r of None \<Rightarrow> [] | Some m \<Rightarrow> m) (case qu_capability r of None \<Rightarrow> [] | Some m \<Rightarrow> m)
     in (qu_weight r, qu_reclaimable r = Some False, if res = [] then None else Some res, queue_counts r))"

record CronJobRow =
  cj_name :: string
  cj_namespace :: string
  cj_uid :: string
  cj_created :: string
  cj_schedule :: string
  cj_concurrency :: "string option"
  cj_suspend :: bool
  cj_last_schedule :: "string option"
  cj_active :: nat

text \<open>The state tag, the concurrency policy and the age of the last schedule.\<close>

definition cronjob_cells :: "(string \<Rightarrow> int option) \<Rightarrow> int \<Rightarrow> CronJobRow \<Rightarrow> tag \<times> string \<times> string option" where
  "cronjob_cells toMs now r =
    (if cj_suspend r then (''pages.compute.cronJob.state.suspended'', ''orange'') else (''pages.compute.cronJob.state.running'', ''green''),
     case cj_concurrency r of None \<Rightarrow> ''Allow'' | Some p \<Rightarrow> if p = [] then ''Allow'' else p,
     case cj_last_schedule r of None \<Rightarrow> None | Some t \<Rightarrow> if t = [] then None else Some (formatAge toMs now (Some t) []))"

record PodGroupRow =
  pg_name :: string
  pg_namespace :: string
  pg_uid :: string
  pg_created :: string
  pg_queue :: "string option"
  pg_priority_class :: "string option"
  pg_min_member :: nat
  pg_min_resources :: "(string \<times> string) list option"
  pg_phase :: string
  pg_running :: nat
  pg_succeeded :: nat
  pg_failed :: nat

definition podgroup_pods :: "PodGroupRow \<Rightarrow> tag list \<times> bool" where
  "podgroup_pods r =
    ((if pg_running r > 0 then [(''Running '' @ show_nat (pg_running r), ''green'')] else []) @
     (if pg_succeeded r > 0 then [(''Succeeded '' @ show_nat (pg_succeeded r), ''blue'')] else []) @
     (if pg_failed r > 0 then [(''Failed '' @ show_nat (pg_failed r), ''red'')] else []),
     pg_running r + pg_succeeded r + pg_failed r = 0)"

definition hypernode_members :: "(string \<times> string) list \<Rightarrow> (tag \<times> string) list" where
  "hypernode_members ms = map (\<lambda>(ty, sel). ((ty, if ty = ''Node'' then ''cyan'' else ''geekblue''), sel)) ms"

text \<open>k.replace(/Policy$/, '')\<close>

definition drop_policy :: "string \<Rightarrow> string" where
  "drop_policy k = (if length k \<ge> 6 \<and> drop (length k - 6) k = ''Policy'' then take (length k - 6) k else k)"

definition numa_policies :: "(string \<times> string) list \<Rightarrow> string list" where
  "numa_policies ps = map (\<lambda>(k, v). drop_policy k @ ''='' @ v) ps"

definition numa_resource :: "string \<times> string option \<times> rat \<Rightarrow> string \<times> string" where
  "numa_resource r = (case r of (nm, alloc, cap) \<Rightarrow>
     (nm, ''capacity='' @ show_num cap @
       (case alloc of None \<Rightarrow> [] | Some a \<Rightarrow> if a = [] then [] else dot_sep @ ''alloc='' @ a)))"

definition numa_reserved :: "(string \<times> string) list \<Rightarrow> string list" where
  "numa_reserved ps = map (\<lambda>(k, v). k @ ''='' @ v) ps"

text \<open>A list of nodes as a tag with its tooltip; an empty one is left out.\<close>

definition nodeList :: "string \<Rightarrow> string list \<Rightarrow> string \<Rightarrow> (tag \<times> string) list" where
  "nodeList label nodes color =
    (if nodes = [] then [] else [((label @ '' '' @ show_nat (length nodes), color), join '', '' nodes)])"

definition nodeshard_status :: "string list \<Rightarrow> string list \<Rightarrow> string list \<Rightarrow> (tag \<times> string) list" where
  "nodeshard_status inUse toAdd toRemove =
    nodeList ''inUse'' inUse ''green'' @ nodeList ''toAdd'' toAdd ''gold'' @ nodeList ''toRemove'' toRemove ''red''"

definition colocation_qos :: "rat \<Rightarrow> rat \<Rightarrow> rat \<Rightarrow> tag list" where
  "colocation_qos high low mn =
    [(''high '' @ show_num high, ''blue''), (''low '' @ show_num low, ''cyan''), (''min '' @ show_num mn, ''purple'')]"

section \<open>Actions\<close>

text \<open>How a request ends for an action: rejected, with the message if there is one, or with the
  results of the documents, absent for an empty response.  The outcome is the toast and the
  delays of the refreshes to come.\<close>

datatype action_toast = SuccessToast string | ErrorToast string

type_synonym action_result = "string option + ApplyYamlResult list option"

definition rejected_toast :: "string option \<Rightarrow> action_toast option" where
  "rejected_toast m = (case m of None \<Rightarrow> None | Some s \<Rightarrow> if s = [] then None else Some (ErrorToast s))"

definition action_finish :: "string \<Rightarrow> string \<Rightarrow> int list \<Rightarrow> action_result \<Rightarrow> action_toast option \<times> int list" where
  "action_finish ok failed delays r =
    (case r of
       Inl m \<Rightarrow> (rejected_toast m, [])
     | Inr rs \<Rightarrow> (case find (\<lambda>x. \<not> ay_success x) (case rs of None \<Rightarrow> [] | Some xs \<Rightarrow> xs) of
         Some x \<Rightarrow> (Some (ErrorToast (case ay_error x of None \<Rightarrow> failed | Some e \<Rightarrow> e)), [])
       | None \<Rightarrow> (Some (SuccessToast ok), delays)))"

definition doDelete :: "string option option \<Rightarrow> action_toast option \<times> bool" where
  "doDelete r = (case r of
     None \<Rightarrow> (Some (SuccessToast ''pages.workloads.delete.success''), True)
   | Some m \<Rightarrow> (rejected_toast m, False))"

definition job_actions :: "(VolcanoAction \<times> string) list" where
  "job_actions =
    [(ResumeJob, ''pages.compute.job.action.resume''), (AbortJob, ''pages.compute.job.action.abort''),
     (RestartJob, ''pages.compute.job.action.restart''), (CompleteJob, ''pages.compute.job.action.complete''),
     (TerminateJob, ''pages.compute.job.action.terminate'')]"

definition job_target :: "JobRow \<Rightarrow> CommandTarget" where
  "job_target r = \<lparr>ct_apiVersion = ''batch.volcano.sh/v1alpha1'', ct_kind = ''Job'', ct_name = jr_name r,
     ct_namespace = Some (jr_namespace r), ct_uid = None\<rparr>"

definition job_action_finish :: "action_result \<Rightarrow> action_toast option \<times> int list" where
  "job_action_finish = action_finish ''pages.compute.job.commandSent'' ''command failed'' [600, 2500]"

definition queue_action :: "QueueRow \<Rightarrow> VolcanoAction" where
  "queue_action r = (if qu_state r = ''Closed'' then OpenQueue else CloseQueue)"

definition queue_target :: "QueueRow \<Rightarrow> CommandTarget" where
  "queue_target r = \<lparr>ct_apiVersion = ''scheduling.volcano.sh/v1beta1'', ct_kind = ''Queue'', ct_name = qu_name r,
     ct_namespace = None, ct_uid = None\<rparr>"

definition queue_action_finish :: "QueueRow \<Rightarrow> action_result \<Rightarrow> action_toast option \<times> int list" where
  "queue_action_finish r = action_finish
    (if qu_state r = ''Closed'' then ''pages.compute.queue.opened'' else ''pages.compute.queue.closed'') ''command failed'' [400, 1500, 4000]"

text \<open>Suspending or resuming a CronJob: the object is fetched, and its spec applied again with
  the other value of suspend.\<close>

definition CRON_JOB_CR :: CRRef where
  "CRON_JOB_CR = \<lparr>cr_group = ''batch.volcano.sh'', cr_version = ''v1alpha1'', cr_kind = ''CronJob'', cr_scope = Namespaced\<rparr>"

definition suspend_get :: "string \<Rightarrow> CronJobRow \<Rightarrow> request" where
  "suspend_get clusterId r = getWorkload clusterId ''_cr'' (cj_name r) (cj_namespace r) (Some CRON_JOB_CR)"

definition suspend_manifest :: "CronJobRow \<Rightarrow> jval \<Rightarrow> json" where
  "suspend_manifest r obj =
    JObj [(''apiVersion'', JStr ''batch.volcano.sh/v1alpha1''), (''kind'', JStr ''CronJob''),
      (''metadata'', JObj [(''name'', JStr (cj_name r)), (''namespace'', JStr (cj_namespace r))]),
      (''spec'', JObj (AList.update ''suspend'' (JBool (\<not> cj_suspend r))
        (case oget ''spec'' obj of Some (JObj kv) \<Rightarrow> kv | _ \<Rightarrow> [])))]"

definition suspend_finish :: "CronJobRow \<Rightarrow> action_result \<Rightarrow> action_toast option \<times> int list" where
  "suspend_finish r = action_finish
    (if cj_suspend r then ''pages.compute.cronJob.resumed'' else ''pages.compute.cronJob.suspended'') ''patch failed'' [400, 1500]"

text \<open>Suspending and resuming a CronJob changes nothing of its spec but the suspend field,
  which it flips: every other field is sent back as it was fetched, for the row's own object,
  so the schema's required fields are there whenever the object has them.\<close>

theorem suspend_changes_only_suspend:
  "opath [''spec'', k] (Some (suspend_manifest r obj)) =
    (if k = ''suspend'' then Some (JBool (\<not> cj_suspend r)) else opath [''spec'', k] obj) \<and>
   opath [''metadata'', ''name''] (Some (suspend_manifest r obj)) = Some (JStr (cj_name r)) \<and>
   opath [''metadata'', ''namespace''] (Some (suspend_manifest r obj)) = Some (JStr (cj_namespace r))"
  by (cases "oget ''spec'' obj") (auto simp: suspend_manifest_def update_conv' split: json.splits)

lemma fire_refresh_eq:
  "fire_refresh ds (s, ts) = (s\<lparr>bs_timers := bs_timers s @ map2 (refresh_timer (bs_now s)) [bs_next s..<bs_next s + length ds] ds,
     bs_next := bs_next s + length ds\<rparr>, ts @ [bs_next s..<bs_next s + length ds])"
proof (induction ds arbitrary: s ts)
  case (Cons d ds)
  have "[n..<n + Suc k] = n # [Suc n..<Suc (n + k)]" for n k :: nat by (simp add: upt_conv_Cons)
  then show ?case using Cons
    by (simp add: fire_refresh_def set_timeout_def refresh_timer_def del: upt_Suc)
qed (simp add: fire_refresh_def)

text \<open>Leaving the page clears the refreshes still to come, and no other timer.\<close>

theorem leaving_cancels_refreshes:
  assumes "\<forall>t \<in> set (bs_timers s). bt_id t < bs_next s"
  shows "bs_timers (fst (staggered_unmount (fire_refresh delays (s, [])))) = bs_timers s"
proof -
  have "filter (\<lambda>t. bt_id t \<notin> set [bs_next s..<bs_next s + length delays]) (bs_timers s) = bs_timers s"
    using assms by (intro filter_True) auto
  moreover have "filter (\<lambda>t. bt_id t \<notin> set [bs_next s..<bs_next s + length delays])
      (map2 (refresh_timer (bs_now s)) [bs_next s..<bs_next s + length delays] delays) = []"
    by (auto simp: filter_empty_conv refresh_timer_def dest: set_zip_leftD)
  ultimately show ?thesis by (simp add: fire_refresh_eq staggered_unmount_def clear_timeouts_def)
qed

end
