(* ===== verification/Session.thy ===== *)
theory Session
  imports WorkloadTable VolcanoTables
begin

text \<open>
  Sessions and errors: requestErrorConfig.ts, the redirects of app.tsx to the login page and
  back (pages/user/login/index.tsx), services/kpilot/auth.ts, access.ts and the menu of
  components/RightContent/AvatarDropdown.tsx.

  URLs are parsed as the WHATWG URL standard parses a string that starts with one slash
  against the page's own origin; what an authority, after two slashes, makes of the origin
  is the parameter other_origin.
\<close>

section \<open>Request errors\<close>

definition LOGIN_PATH :: string where
  "LOGIN_PATH = ''/user/login''"

definition login_redirect :: "string \<Rightarrow> string" where
  "login_redirect p = LOGIN_PATH @ ''?redirect='' @ encodeURIComponent p"

text \<open>translate looks an error code up in the messages, empty if it has none.\<close>

definition translateCode :: "(string \<Rightarrow> string) \<Rightarrow> string \<Rightarrow> nat \<Rightarrow> string" where
  "translateCode translate code status =
    (if translate code \<noteq> [] then translate code else if code \<noteq> [] then code else ''HTTP '' @ show_nat status)"

text \<open>A request error: with a response, with a request only, or neither.\<close>

record error_body =
  eb_code :: string
  eb_message :: string

datatype http_failure = NoAnswer | NoRequest | HttpError nat "error_body option"

datatype handler_result = Rethrown | ReplacedBy string | Toasted string | Ignored

definition SILENT_CODES :: "string list" where
  "SILENT_CODES = [''RESOURCE_NOT_AVAILABLE'']"

definition network_error :: string where
  "network_error = ''errors.NETWORK_ERROR''"

text \<open>loc is the path and the query of the window.\<close>

definition errorHandler ::
  "(string \<Rightarrow> string) \<Rightarrow> string \<Rightarrow> bool \<Rightarrow> http_failure \<Rightarrow> handler_result" where
  "errorHandler translate loc skip e =
    (if skip then Rethrown
     else case e of
       NoRequest \<Rightarrow> Ignored
     | NoAnswer \<Rightarrow> Toasted network_error
     | HttpError status data \<Rightarrow>
         if status = 401 \<and> \<not> starts_with LOGIN_PATH loc then ReplacedBy (login_redirect loc)
         else (let code = (case data of None \<Rightarrow> [] | Some d \<Rightarrow> eb_code d); msg = (case data of None \<Rightarrow> [] | Some d \<Rightarrow> eb_message d)
           in if code \<noteq> [] \<and> code \<in> set SILENT_CODES then Rethrown
              else Toasted (if msg \<noteq> [] then msg else if code \<noteq> [] then translateCode translate code status else ''HTTP '' @ show_nat status)))"

text \<open>A failed deletion on a Volcano page is reported by the handler and, with the same words,
  by the page.\<close>

theorem failed_delete_reported_twice:
  assumes "errorHandler translate loc False (HttpError status (Some d)) = Toasted m" "eb_message d \<noteq> []"
  shows "doDelete (Some (Some (eb_message d))) = (Some (ErrorToast m), False)"
  using assms by (auto simp: errorHandler_def doDelete_def rejected_toast_def Let_def split: if_splits)

section \<open>The URL of a redirect\<close>

text \<open>Tabs and line breaks are removed, and control characters and blanks at both ends.\<close>

definition url_strip :: "string \<Rightarrow> string" where
  "url_strip s =
    (let ctl = (\<lambda>c. (of_char c :: nat) \<le> 32); t = filter (\<lambda>c. c \<notin> set [CHR 0x09, CHR 0x0A, CHR 0x0D]) s
     in rev (dropWhile ctl (rev (dropWhile ctl t))))"

definition url_escape :: "string \<Rightarrow> char \<Rightarrow> string" where
  "url_escape special c =
    (if (of_char c :: nat) \<le> 32 \<or> (of_char c :: nat) > 126 \<or> c \<in> set special
     then [CHR ''%'', upper_hex (of_char c div 16), upper_hex (of_char c mod 16)] else [c])"

definition path_specials :: string where
  "path_specials = [CHR 0x22, CHR ''#'', CHR ''<'', CHR ''>'', CHR ''?'', CHR ''^'', CHR 0x60, CHR ''{'', CHR ''}'']"

definition query_specials :: string where
  "query_specials = [CHR 0x22, CHR ''#'', CHR ''<'', CHR ''>'', CHR 0x27]"

definition fragment_specials :: string where
  "fragment_specials = [CHR 0x22, CHR ''<'', CHR ''>'', CHR 0x60]"

definition single_dot :: "string \<Rightarrow> bool" where
  "single_dot s \<longleftrightarrow> s = ''.'' \<or> to_lower s = ''%2e''"

definition double_dot :: "string \<Rightarrow> bool" where
  "double_dot s \<longleftrightarrow> s = ''..'' \<or> to_lower s \<in> set [''.%2e'', ''%2e.'', ''%2e%2e'']"

text \<open>The segments of a path, those before in reverse order.\<close>

fun url_segments :: "string list \<Rightarrow> string list \<Rightarrow> string list" where
  "url_segments acc [] = rev acc"
| "url_segments acc [s] =
    (if double_dot s then rev ([] # tl acc) else if single_dot s then rev ([] # acc) else rev (s # acc))"
| "url_segments acc (s # t # ts) =
    (if double_dot s then url_segments (tl acc) (t # ts)
     else if single_dot s then url_segments acc (t # ts) else url_segments (s # acc) (t # ts))"

definition url_pathname :: "string \<Rightarrow> string" where
  "url_pathname p =
    (let p' = map (\<lambda>c. if c = CHR 0x5C then CHR ''/'' else c) p
     in path (map (\<lambda>s. concat (map (url_escape path_specials) s)) (url_segments [] (split_on (\<lambda>c. c = CHR ''/'') (tl p')))))"

definition url_part :: "char \<Rightarrow> string \<Rightarrow> string \<Rightarrow> string" where
  "url_part mark specials s = (if s = [] then [] else mark # concat (map (url_escape specials) s))"

text \<open>The origin, and the path, the query and the fragment of a string that starts with a slash.\<close>

definition url_parse :: "string \<Rightarrow> (string \<Rightarrow> string option) \<Rightarrow> string \<Rightarrow> (string \<times> string \<times> string \<times> string) option" where
  "url_parse origin other_origin s =
    (let t = url_strip s;
         p = takeWhile (\<lambda>c. c \<notin> set [CHR ''?'', CHR ''#'']) t;
         q = takeWhile (\<lambda>c. c \<noteq> CHR ''#'') (dropWhile (\<lambda>c. c \<noteq> CHR ''?'' \<and> c \<noteq> CHR ''#'') t);
         f = drop 1 (dropWhile (\<lambda>c. c \<noteq> CHR ''#'') t);
         rest = (\<lambda>og pn. (og, pn, url_part (CHR ''?'') query_specials (drop 1 q), url_part (CHR ''#'') fragment_specials f));
         slash = (\<lambda>i. i < length p \<and> p ! i \<in> set [CHR ''/'', CHR 0x5C])
     in if slash 0 \<and> slash 1 then
          (let a = takeWhile (\<lambda>c. c \<noteq> CHR ''/'' \<and> c \<noteq> CHR 0x5C) (dropWhile (\<lambda>c. c = CHR ''/'' \<or> c = CHR 0x5C) p)
           in map_option (\<lambda>og. rest og (url_pathname (''/'' @ drop 1 (dropWhile (\<lambda>c. c \<noteq> CHR ''/'' \<and> c \<noteq> CHR 0x5C)
                (dropWhile (\<lambda>c. c = CHR ''/'' \<or> c = CHR 0x5C) p))))) (other_origin a))
        else Some (rest origin (url_pathname p)))"

definition getSafeRedirectUrl :: "string \<Rightarrow> (string \<Rightarrow> string option) \<Rightarrow> string option \<Rightarrow> string" where
  "getSafeRedirectUrl origin other_origin redirect =
    (case redirect of None \<Rightarrow> ''/''
     | Some r \<Rightarrow>
       if \<not> starts_with ''/'' r \<or> starts_with ''//'' r then ''/''
       else (case url_parse origin other_origin r of
           None \<Rightarrow> ''/''
         | Some (og, pn, q, h) \<Rightarrow> if og \<noteq> origin then ''/'' else pn @ q @ h))"

text \<open>The login page goes to the redirect of its own query.\<close>

definition login_target :: "string \<Rightarrow> (string \<Rightarrow> string option) \<Rightarrow> string \<Rightarrow> string" where
  "login_target origin other_origin search =
    getSafeRedirectUrl origin other_origin (map_of (parse_search search) ''redirect'')"

text \<open>A path whose normal form starts with two slashes is let through: the target is a URL
  of another host.\<close>

theorem redirect_may_leave_the_origin:
  "getSafeRedirectUrl origin other_origin (Some ''/.//evil.example/x'') = ''//evil.example/x''"
  by (simp add: getSafeRedirectUrl_def url_parse_def Let_def url_strip_def url_pathname_def path_def url_part_def
      single_dot_def double_dot_def url_escape_def path_specials_def to_lower_def lower_char_def)

subsection \<open>There and back\<close>

definition plain :: "char \<Rightarrow> bool" where
  "plain c \<longleftrightarrow> 32 < (of_char c :: nat) \<and> (of_char c :: nat) \<le> 126 \<and>
     c \<notin> set [CHR 0x22, CHR ''#'', CHR ''<'', CHR ''>'', CHR ''?'', CHR ''^'', CHR 0x60, CHR ''{'', CHR ''}'', CHR 0x5C, CHR 0x27]"

definition plain_segment :: "string \<Rightarrow> bool" where
  "plain_segment s \<longleftrightarrow> list_all (\<lambda>c. plain c \<and> c \<noteq> CHR ''/'') s \<and> \<not> single_dot s \<and> \<not> double_dot s"

text \<open>The address of a page: path segments, query and fragment.\<close>

definition address :: "string list \<Rightarrow> string \<Rightarrow> string \<Rightarrow> string" where
  "address segs q h = path segs @ (if q = [] then [] else ''?'' @ q) @ (if h = [] then [] else ''#'' @ h)"

lemma plain_escape:
  "list_all plain s \<Longrightarrow> concat (map (url_escape path_specials) s) = s"
  "list_all plain s \<Longrightarrow> concat (map (url_escape query_specials) s) = s"
  "list_all plain s \<Longrightarrow> concat (map (url_escape fragment_specials) s) = s"
  by (induction s) (auto simp: url_escape_def plain_def path_specials_def query_specials_def fragment_specials_def)

lemma url_strip_plain: "list_all (\<lambda>c. 32 < (of_char c :: nat)) s \<Longrightarrow> url_strip s = s"
proof -
  assume h: "list_all (\<lambda>c. 32 < (of_char c :: nat)) s"
  have n: "\<not> (of_char c :: nat) \<le> 32" if "c \<in> set s" for c using h that by (auto simp: list_all_iff)
  have "filter (\<lambda>c. c \<notin> set [CHR 0x09, CHR 0x0A, CHR 0x0D]) s = s"
  proof (rule filter_True, rule ballI)
    fix c assume "c \<in> set s"
    then show "c \<notin> set [CHR 0x09, CHR 0x0A, CHR 0x0D]" using n[of c] by auto
  qed
  moreover have "dropWhile (\<lambda>c. (of_char c :: nat) \<le> 32) t = t" if "set t \<subseteq> set s" for t
    using that n by (cases t) auto
  ultimately show ?thesis by (simp add: url_strip_def)
qed

lemma url_segments_plain:
  "list_all (\<lambda>s. \<not> single_dot s \<and> \<not> double_dot s) segs \<Longrightarrow> url_segments acc segs = rev acc @ segs"
  by (induction acc segs rule: url_segments.induct) auto

lemma path_join: "segs \<noteq> [] \<Longrightarrow> path segs = CHR ''/'' # join ''/'' segs"
  by (induction segs rule: induct_list012) (auto simp: path_def)

lemma set_path: "c \<in> set (path segs) \<Longrightarrow> c = CHR ''/'' \<or> (\<exists>s \<in> set segs. c \<in> set s)"
  by (auto simp: path_def split: if_splits)

lemma plain_not: "plain c \<Longrightarrow> c \<noteq> CHR ''?'' \<and> c \<noteq> CHR ''#'' \<and> c \<noteq> CHR 0x5C \<and> 32 < (of_char c :: nat)"
  by (simp add: plain_def)

lemma path_plain:
  assumes "list_all plain_segment segs" "c \<in> set (path segs)"
  shows "c \<noteq> CHR ''?'' \<and> c \<noteq> CHR ''#'' \<and> c \<noteq> CHR 0x5C \<and> 32 < (of_char c :: nat)"
proof (cases "c = CHR ''/''")
  case False
  then have "plain c" using set_path[OF assms(2)] assms(1) by (auto simp: list_all_iff plain_segment_def)
  then show ?thesis by (rule plain_not)
qed simp

lemma url_pathname_plain:
  assumes "segs \<noteq> []" "list_all plain_segment segs"
  shows "url_pathname (path segs) = path segs"
proof -
  have bs: "c \<noteq> CHR 0x5C" if "c \<in> set (path segs)" for c
    using path_plain[OF assms(2) that] by simp
  have "map (\<lambda>c. if c = CHR 0x5C then CHR ''/'' else c) (path segs) = path segs"
    using bs by (intro map_idI) auto
  moreover have "split_on (\<lambda>c. c = CHR ''/'') (tl (path segs)) = segs"
    using assms by (simp add: path_join) (rule split_on_join, auto simp: list_all_iff plain_segment_def)
  moreover have "url_segments [] segs = segs"
    using assms(2) by (simp add: url_segments_plain list_all_iff plain_segment_def)
  moreover have "map (\<lambda>s. concat (map (url_escape path_specials) s)) segs = segs"
    using assms(2) by (intro map_idI) (auto simp: list_all_iff plain_segment_def intro!: plain_escape(1)[unfolded list_all_iff])
  ultimately show ?thesis by (simp add: url_pathname_def Let_def)
qed

lemma url_parse_address:
  assumes "segs \<noteq> []" "hd segs \<noteq> []" "list_all plain_segment segs" "list_all plain q" "list_all plain h"
  shows "url_parse origin other_origin (address segs q h) =
    Some (origin, path segs, if q = [] then [] else ''?'' @ q, if h = [] then [] else ''#'' @ h)"
proof -
  let ?p = "path segs"
  have pc: "c \<noteq> CHR ''?''" "c \<noteq> CHR ''#''" "32 < (of_char c :: nat)" if "c \<in> set ?p" for c
    using path_plain[OF assms(3) that] by simp_all
  have qc: "c \<noteq> CHR ''#''" "32 < (of_char c :: nat)" if "c \<in> set q \<or> c \<in> set h" for c
    using that assms(4,5) plain_not[of c] by (auto simp: list_all_iff)
  have strip: "url_strip (address segs q h) = address segs q h"
    using pc(3) qc(2) by (intro url_strip_plain) (auto simp: address_def list_all_iff)
  have tw: "takeWhile P (xs @ ys) = xs @ takeWhile P ys" if "\<And>c. c \<in> set xs \<Longrightarrow> P c" for P :: "char \<Rightarrow> bool" and xs ys
    using that by (rule takeWhile_append2)
  have dw: "dropWhile P (xs @ ys) = dropWhile P ys" if "\<And>c. c \<in> set xs \<Longrightarrow> P c" for P :: "char \<Rightarrow> bool" and xs ys
    using that by (rule dropWhile_append2)
  have p: "takeWhile (\<lambda>c. c \<notin> set [CHR ''?'', CHR ''#'']) (address segs q h) = ?p"
    unfolding address_def by (subst tw) (use pc in auto)
  have d: "dropWhile (\<lambda>c. c \<noteq> CHR ''?'' \<and> c \<noteq> CHR ''#'') (address segs q h) =
      (if q = [] then [] else ''?'' @ q) @ (if h = [] then [] else ''#'' @ h)"
    unfolding address_def by (subst dw) (use pc in auto)
  have qq: "drop 1 (takeWhile (\<lambda>c. c \<noteq> CHR ''#'') ((if q = [] then [] else ''?'' @ q) @ (if h = [] then [] else ''#'' @ h))) = q"
    using tw[of q "\<lambda>c. c \<noteq> CHR ''#''"] qc(1) by auto
  have hh: "drop 1 (dropWhile (\<lambda>c. c \<noteq> CHR ''#'') (address segs q h)) = h"
  proof -
    have "dropWhile (\<lambda>c. c \<noteq> CHR ''#'') (address segs q h) =
        dropWhile (\<lambda>c. c \<noteq> CHR ''#'') ((if q = [] then [] else ''?'' @ q) @ (if h = [] then [] else ''#'' @ h))"
      unfolding address_def by (rule dw) (use pc in auto)
    also have "\<dots> = (if h = [] then [] else ''#'' @ h)"
      using dw[of q "\<lambda>c. c \<noteq> CHR ''#''"] qc(1) by auto
    finally show ?thesis by simp
  qed
  obtain s ss where segs: "segs = s # ss" "s \<noteq> []" using assms(1,2) by (cases segs) auto
  have s1: "hd s \<notin> {CHR ''/'', CHR 0x5C}"
    using segs assms(3) plain_not[of "hd s"] by (cases s) (auto simp: plain_segment_def)
  have nth1: "?p ! 1 = hd s" "length ?p > 1" using segs by (auto simp: path_def nth_append hd_conv_nth)
  show ?thesis
    using s1 nth1 unfolding url_parse_def strip Let_def p d qq hh
    by (simp add: url_pathname_plain[OF assms(1,3)] url_part_def plain_escape assms(4,5))
qed

lemma parse_redirect: "map_of (parse_search (''?redirect='' @ encodeURIComponent p)) ''redirect'' = Some p"
proof -
  have "form_decode (encodeURIComponent t) = t" for t
  proof -
    have "map plus_blank (encodeURIComponent t) = encodeURIComponent t"
      using encoded_chars[of _ t] by (intro map_idI) (force simp: plus_blank_def uri_unreserved_def)
    then show ?thesis by (simp add: form_decode_def plus_blank_def[symmetric] cong: map_cong)
  qed
  moreover have "encodeURIComponent ''redirect'' = ''redirect''" by (simp add: encodeURIComponent_def uri_escape_def uri_unreserved_def)
  ultimately have k: "form_decode ''redirect'' = ''redirect''" by metis
  have "split_on (\<lambda>c. c = CHR ''&'') (''redirect='' @ encodeURIComponent p) = [''redirect='' @ encodeURIComponent p]"
    using encoded_no_delims(2)[of p] by (intro split_on_none) auto
  moreover have "parse_pair (''redirect='' @ encodeURIComponent p) = (''redirect'', p)"
    using cut_at[of "CHR ''=''" "''redirect''" "encodeURIComponent p"] k \<open>\<And>t. form_decode (encodeURIComponent t) = t\<close>
    by (simp add: parse_pair_def)
  ultimately show ?thesis by (simp add: parse_search_def)
qed

text \<open>C32. A page that the session's end sends to the login page is the one the login returns
  to: for every address whose path starts with a proper segment and has none of dots, the
  redirect of the login page's query leads back to the same path, query and fragment.\<close>

theorem login_returns_to_the_page:
  assumes "segs \<noteq> []" "hd segs \<noteq> []" "list_all plain_segment segs" "list_all plain q" "list_all plain h"
  shows "\<exists>search. login_redirect (address segs q h) = LOGIN_PATH @ search \<and>
    login_target origin other_origin search = address segs q h"
proof (intro exI conjI)
  let ?search = "''?redirect='' @ encodeURIComponent (address segs q h)"
  show "login_redirect (address segs q h) = LOGIN_PATH @ ?search" by (simp add: login_redirect_def)
  obtain c s ss where segs: "segs = (c # s) # ss" using assms(1,2) by (cases segs; cases "hd segs") auto
  then have "c \<noteq> CHR ''/''" using assms(3) by (simp add: plain_segment_def)
  then have "starts_with ''/'' (address segs q h)" "\<not> starts_with ''//'' (address segs q h)"
    using segs by (simp_all add: address_def path_def)
  then show "login_target origin other_origin ?search = address segs q h"
    unfolding login_target_def parse_redirect getSafeRedirectUrl_def option.case url_parse_address[OF assms]
    by (simp add: address_def)
qed

theorem login_returns_to_the_page_witness:
  "\<exists>search. LOGIN_PATH @ search = login_redirect ''/clusters/c1/workloads/_cr?kind=Foo&scope=Cluster#x'' \<and>
    login_target ''https://k'' (\<lambda>_. None) search = ''/clusters/c1/workloads/_cr?kind=Foo&scope=Cluster#x''"
proof -
  have a: "address [''clusters'', ''c1'', ''workloads'', ''_cr''] ''kind=Foo&scope=Cluster'' ''x'' =
      ''/clusters/c1/workloads/_cr?kind=Foo&scope=Cluster#x''"
    by (simp add: address_def path_def)
  have s: "list_all plain_segment [''clusters'', ''c1'', ''workloads'', ''_cr'']"
    by (simp add: plain_segment_def plain_def single_dot_def double_dot_def to_lower_def lower_char_def)
  have p: "list_all plain ''kind=Foo&scope=Cluster''" "list_all plain ''x''" by (simp_all add: plain_def)
  show ?thesis
    using login_returns_to_the_page[OF _ _ s p, of "''https://k''" "\<lambda>_. None"] unfolding a by (auto simp: eq_commute)
qed

lemma getSafeRedirectUrl_slash: "\<exists>u. getSafeRedirectUrl origin other_origin redirect = CHR ''/'' # u"
proof -
  have seg: "url_segments acc (x # xs) \<noteq> []" for acc x xs
    by (induction acc "x # xs" arbitrary: x xs rule: url_segments.induct) auto
  have pn: "\<exists>u. url_pathname p = CHR ''/'' # u" for p
  proof -
    obtain x xs where "split_on (\<lambda>c. c = CHR ''/'') (tl (map (\<lambda>c. if c = CHR 0x5C then CHR ''/'' else c) p)) = x # xs"
      using split_on_nonempty by (metis list.exhaust)
    then show ?thesis using seg[of "[]" x xs] by (cases "url_segments [] (x # xs)") (auto simp: url_pathname_def path_def)
  qed
  have parse: "url_parse origin other_origin r = Some (og, n, q, h) \<Longrightarrow> \<exists>p. n = url_pathname p" for r og n q h
    unfolding url_parse_def Let_def by (auto split: if_splits)
  show ?thesis
  proof (cases redirect)
    case (Some r)
    show ?thesis
    proof (cases "url_parse origin other_origin r")
      case None
      then show ?thesis using Some by (simp add: getSafeRedirectUrl_def)
    next
      case (Some x)
      obtain og n q h where x: "x = (og, n, q, h)" by (cases x)
      obtain u where "n = CHR ''/'' # u" using parse[of r og n q h] Some x pn by blast
      then show ?thesis using \<open>redirect = Some r\<close> Some x by (simp add: getSafeRedirectUrl_def)
    qed
  qed (simp add: getSafeRedirectUrl_def)
qed

section \<open>Users\<close>

record CurrentUser =
  us_name :: string
  us_access :: string
  us_must_rotate :: bool

definition login :: "string \<Rightarrow> string \<Rightarrow> request" where
  "login username password = POST (path [''api'', ''v1'', ''auth'', ''login'']) []
     (JsonBody (JObj [(''username'', JStr username), (''password'', JStr password)]))"

definition currentUser :: request where
  "currentUser = GET (path [''api'', ''v1'', ''auth'', ''me'']) []"

definition logout :: request where
  "logout = POST (path [''api'', ''v1'', ''auth'', ''logout'']) [] NoBody"

definition authDefaults :: request where
  "authDefaults = GET (path [''api'', ''v1'', ''auth'', ''defaults'']) []"

definition canAdmin :: "CurrentUser option \<Rightarrow> bool" where
  "canAdmin u = (case u of None \<Rightarrow> False | Some x \<Rightarrow> us_access x = ''admin'')"

definition DefaultPasswordWarning :: "CurrentUser option \<Rightarrow> bool" where
  "DefaultPasswordWarning u = (case u of None \<Rightarrow> False | Some x \<Rightarrow> us_must_rotate x)"

text \<open>The seed credentials fill a form in which nothing has been typed.\<close>

definition prefill :: "(bool \<times> string \<times> string) option \<Rightarrow> string \<times> string \<Rightarrow> string \<times> string" where
  "prefill defaults form = (case defaults of None \<Rightarrow> form
     | Some (using, u, p) \<Rightarrow> if \<not> using \<or> u = [] \<or> p = [] then form else if fst form = [] \<and> snd form = [] then (u, p) else form)"

text \<open>The session: the user, the path, query and fragment of the page, and the login form's
  error and toasts.\<close>

record session =
  se_user :: "CurrentUser option"
  se_location :: "string \<times> string \<times> string"
  se_cluster :: "string option"
  se_error :: string
  se_toasts :: "string list"

definition go :: "string \<Rightarrow> session \<Rightarrow> session" where
  "go url s = s\<lparr>se_location := (takeWhile (\<lambda>c. c \<noteq> CHR ''?'' \<and> c \<noteq> CHR ''#'') url,
     takeWhile (\<lambda>c. c \<noteq> CHR ''#'') (dropWhile (\<lambda>c. c \<noteq> CHR ''?'' \<and> c \<noteq> CHR ''#'') url),
     dropWhile (\<lambda>c. c \<noteq> CHR ''#'') url)\<rparr>"

definition full_path :: "session \<Rightarrow> string" where
  "full_path s = (case se_location s of (p, q, h) \<Rightarrow> p @ q @ h)"

text \<open>The cluster of a path under /clusters or /compute.\<close>

definition extractClusterId :: "string \<Rightarrow> string option" where
  "extractClusterId pathname = (case split_on (\<lambda>c. c = CHR ''/'') pathname of
     e # p # cid # _ \<Rightarrow> if e = [] \<and> p \<in> set [''clusters'', ''compute''] \<and> cid \<noteq> [] then Some cid else None
   | _ \<Rightarrow> None)"

definition fetchUserInfo :: "CurrentUser option \<Rightarrow> session \<Rightarrow> CurrentUser option \<times> session" where
  "fetchUserInfo answer s = (case answer of
     Some u \<Rightarrow> (Some u, s)
   | None \<Rightarrow> (None, if starts_with LOGIN_PATH (fst (se_location s)) then s else go (login_redirect (full_path s)) s))"

definition getInitialState :: "CurrentUser option \<Rightarrow> session \<Rightarrow> session" where
  "getInitialState answer s =
    (let c = extractClusterId (fst (se_location s))
     in if fst (se_location s) \<noteq> LOGIN_PATH then
          (let (u, s') = fetchUserInfo answer s in s'\<lparr>se_user := u, se_cluster := c\<rparr>)
        else s\<lparr>se_user := None, se_cluster := c\<rparr>)"

definition onPageChange :: "session \<Rightarrow> session" where
  "onPageChange s =
    (if se_user s = None \<and> fst (se_location s) \<noteq> LOGIN_PATH then go (login_redirect (full_path s)) s
     else s\<lparr>se_cluster := extractClusterId (fst (se_location s))\<rparr>)"

text \<open>The login form's submit: the request fails, is refused with a code, or succeeds, and then
  the user is fetched.\<close>

datatype login_answer = LoginFailed | Refused string | LoggedIn "CurrentUser option"

definition login_submit ::
  "(string \<Rightarrow> string) \<Rightarrow> string \<Rightarrow> (string \<Rightarrow> string option) \<Rightarrow> login_answer \<Rightarrow> session \<Rightarrow> session" where
  "login_submit translate origin other_origin a s0 =
    (let s = s0\<lparr>se_error := []\<rparr> in case a of
       LoginFailed \<Rightarrow> s\<lparr>se_toasts := se_toasts s @ [''pages.login.error.failed'']\<rparr>
     | Refused code \<Rightarrow> s\<lparr>se_error := (if translate code \<noteq> [] then translate code else ''pages.login.error.incorrect'')\<rparr>
     | LoggedIn answer \<Rightarrow>
         (let (u, s') = fetchUserInfo answer s;
              s'' = (case u of None \<Rightarrow> s' | Some x \<Rightarrow> s'\<lparr>se_user := Some x\<rparr>)
          in go (login_target origin other_origin (fst (snd (se_location s'')))) s''))"

definition logged_out :: "bool \<Rightarrow> session \<Rightarrow> session" where
  "logged_out ok s = (if ok then go LOGIN_PATH (s\<lparr>se_user := None\<rparr>) else s\<lparr>se_user := None\<rparr>)"

lemma login_redirect_location:
  "se_location (go (login_redirect p) s) = (LOGIN_PATH, ''?redirect='' @ encodeURIComponent p, [])"
proof -
  have "c \<noteq> CHR ''#''" if "c \<in> set (encodeURIComponent p)" for c
    using encoded_chars[OF that] by (auto simp: uri_unreserved_def)
  then show ?thesis
    by (simp add: go_def login_redirect_def LOGIN_PATH_def)
qed

text \<open>Without a user no page but the login page is left standing, whether the application
  starts there or navigates there, and the query of the login page names the page that was
  asked for.\<close>

theorem no_page_without_user:
  "(let s' = onPageChange s in se_user s' = se_user s \<and>
     (case se_user s' of Some _ \<Rightarrow> True | None \<Rightarrow> fst (se_location s') = LOGIN_PATH \<and>
       (s' = s\<lparr>se_cluster := extractClusterId LOGIN_PATH\<rparr> \<or>
        map_of (parse_search (fst (snd (se_location s')))) ''redirect'' = Some (full_path s)))) \<and>
   (starts_with LOGIN_PATH (fst (se_location s)) \<or>
    se_location (getInitialState None s) = (LOGIN_PATH, ''?redirect='' @ encodeURIComponent (full_path s), []))"
proof (rule conjI)
  have u: "se_user (go x s) = se_user s" for x by (simp add: go_def)
  show "let s' = onPageChange s in se_user s' = se_user s \<and>
     (case se_user s' of Some _ \<Rightarrow> True | None \<Rightarrow> fst (se_location s') = LOGIN_PATH \<and>
       (s' = s\<lparr>se_cluster := extractClusterId LOGIN_PATH\<rparr> \<or>
        map_of (parse_search (fst (snd (se_location s')))) ''redirect'' = Some (full_path s)))"
    using parse_redirect by (auto simp: onPageChange_def Let_def login_redirect_location u split: option.splits)
  show "starts_with LOGIN_PATH (fst (se_location s)) \<or>
    se_location (getInitialState None s) = (LOGIN_PATH, ''?redirect='' @ encodeURIComponent (full_path s), [])"
    by (auto simp: getInitialState_def fetchUserInfo_def Let_def login_redirect_location LOGIN_PATH_def)
qed

end
