(* ===== verification/AppShell.thy ===== *)
theory AppShell
  imports Session
begin

text \<open>
  The application shell: the routes of config/routes.ts, the menus and the resizable sider of
  app.tsx, and the header of components/RightContent.  A path is the list of its segments;
  a menu item's path and the pattern of a route are lists of segments as well, with :name for
  a parameter and * for the rest.
\<close>

section \<open>Routes\<close>

datatype route_target = ToPage string | ToPath "string list"

definition ROUTES :: "(string list \<times> route_target) list" where
  "ROUTES =
    [([''user'', ''login''], ToPage ''./user/login''),
     ([''user''], ToPath [''user'', ''login'']),
     ([''clusters''], ToPage ''./Clusters/index''),
     ([''clusters'', '':id''], ToPath [''clusters'', '':id'', ''nodes'']),
     ([''clusters'', '':id'', ''nodes''], ToPage ''./ClusterDetail/Nodes/index''),
     ([''clusters'', '':id'', ''workloads''], ToPath [''clusters'', '':id'', ''workloads'', ''deployments'']),
     ([''clusters'', '':id'', ''workloads'', '':type''], ToPage ''./ClusterDetail/Workloads/index''),
     ([''clusters'', '':id'', ''plugins''], ToPage ''./ClusterDetail/Plugins/index''),
     ([''clusters'', '':id'', ''monitoring''], ToPage ''./ClusterDetail/Monitoring/index''),
     ([''clusters'', '':id'', ''logging''], ToPage ''./ClusterDetail/Logging/index''),
     ([''clusters'', '':id'', ''grafana''], ToPage ''./ClusterDetail/Grafana/index''),
     ([''compute''], ToPage ''./Compute/index''),
     ([''compute'', '':id''], ToPath [''compute'', '':id'', ''overview'']),
     ([''compute'', '':id'', ''overview''], ToPage ''./Compute/Volcano/Overview''),
     ([''compute'', '':id'', ''queues''], ToPage ''./Compute/Volcano/Queues''),
     ([''compute'', '':id'', ''jobs''], ToPage ''./Compute/Volcano/Jobs''),
     ([''compute'', '':id'', ''cronjobs''], ToPage ''./Compute/Volcano/CronJobs''),
     ([''compute'', '':id'', ''podgroups''], ToPage ''./Compute/Volcano/PodGroups''),
     ([''compute'', '':id'', ''hypernodes''], ToPage ''./Compute/Volcano/HyperNodes''),
     ([''compute'', '':id'', ''jobflows''], ToPage ''./Compute/Volcano/JobFlows''),
     ([''compute'', '':id'', ''jobtemplates''], ToPage ''./Compute/Volcano/JobTemplates''),
     ([''compute'', '':id'', ''numatopologies''], ToPage ''./Compute/Volcano/NumaTopologies''),
     ([''compute'', '':id'', ''nodeshards''], ToPage ''./Compute/Volcano/NodeShards''),
     ([''compute'', '':id'', ''colocationconfigurations''], ToPage ''./Compute/Volcano/ColocationConfigurations''),
     ([''compute'', '':id'', ''vgpu''], ToPage ''./Compute/Volcano/VGPU''),
     ([''compute'', '':id'', ''gpu-monitoring''], ToPage ''./Compute/Volcano/GPUMonitoring''),
     ([''compute'', '':id'', ''queue-quota''], ToPage ''./Compute/Volcano/QueueQuota''),
     ([''compute'', '':id'', ''device-health''], ToPage ''./Compute/Volcano/DeviceHealth''),
     ([''compute'', '':id'', ''gpu-hour''], ToPage ''./Compute/Volcano/GPUHour''),
     ([''compute'', '':id'', ''scheduler''], ToPage ''./Compute/Volcano/Scheduler''),
     ([''models''], ToPath [''models'', ''catalog'']),
     ([''models'', ''catalog''], ToPage ''./ModelHub/index''),
     ([''models'', ''deployments''], ToPage ''./ModelDeployments/index''),
     ([''models'', ''chat''], ToPage ''./ModelChat/index''),
     ([''models'', ''api-keys''], ToPage ''./APIKeys/index''),
     ([''plugins''], ToPage ''./Plugins/index''),
     ([''system''], ToPath [''system'', ''monitor'']),
     ([''system'', ''monitor''], ToPage ''./System/index''),
     ([''system'', ''monitor'', '':node''], ToPage ''./System/Detail/index''),
     ([''system'', ''logs''], ToPage ''./SystemLogs/index''),
     ([], ToPath [''clusters'']),
     ([''*''], ToPage ''./exception/404'')]"

definition is_param :: "string \<Rightarrow> bool" where
  "is_param s \<longleftrightarrow> starts_with '':'' s"

text \<open>The values of the parameters, if the path fits the pattern.\<close>

fun match_route :: "string list \<Rightarrow> string list \<Rightarrow> (string \<times> string) list option" where
  "match_route [] [] = Some []"
| "match_route (p # ps) segs =
    (if p = ''*'' then Some []
     else case segs of [] \<Rightarrow> None
     | s # ss \<Rightarrow> if is_param p then (if s = [] then None else map_option (\<lambda>m. (p, s) # m) (match_route ps ss))
               else if p = s then match_route ps ss else None)"
| "match_route _ _ = None"

fun find_route :: "(string list \<times> route_target) list \<Rightarrow> string list \<Rightarrow> ((string \<times> string) list \<times> route_target) option" where
  "find_route [] segs = None"
| "find_route ((p, t) # rs) segs = (case match_route p segs of Some m \<Rightarrow> Some (m, t) | None \<Rightarrow> find_route rs segs)"

definition fill_params :: "(string \<times> string) list \<Rightarrow> string list \<Rightarrow> string list" where
  "fill_params m segs = map (\<lambda>s. case map_of m s of Some v \<Rightarrow> v | None \<Rightarrow> s) segs"

text \<open>The page of a path, through at most n redirects.\<close>

fun route_page :: "nat \<Rightarrow> string list \<Rightarrow> string option" where
  "route_page n segs =
    (case find_route ROUTES segs of
       None \<Rightarrow> None
     | Some (m, ToPage c) \<Rightarrow> Some c
     | Some (m, ToPath tpl) \<Rightarrow> (case n of 0 \<Rightarrow> None | Suc k \<Rightarrow> route_page k (fill_params m tpl)))"

section \<open>Menus\<close>

datatype menu_item = MenuItem (menu_path: "string list") (menu_name: string) (menu_hidden: bool) (menu_children: "menu_item list")

definition buildClusterSubMenu :: "string \<Rightarrow> menu_item list" where
  "buildClusterSubMenu clusterId = (let base = [''clusters'', clusterId] in [
     MenuItem (base @ [''nodes'']) ''nodes'' False [],
     MenuItem (base @ [''_group'', ''workloads'']) ''workloads'' False [
       MenuItem (base @ [''workloads'', ''deployments'']) ''deployments'' False [],
       MenuItem (base @ [''workloads'', ''statefulsets'']) ''statefulsets'' False [],
       MenuItem (base @ [''workloads'', ''daemonsets'']) ''daemonsets'' False [],
       MenuItem (base @ [''workloads'', ''replicasets'']) ''replicasets'' False [],
       MenuItem (base @ [''workloads'', ''pods'']) ''pods'' False [],
       MenuItem (base @ [''workloads'', ''jobs'']) ''jobs'' False [],
       MenuItem (base @ [''workloads'', ''cronjobs'']) ''cronjobs'' False [],
       MenuItem (base @ [''workloads'', ''horizontalpodautoscalers'']) ''hpa'' False []],
     MenuItem (base @ [''_group'', ''network'']) ''network'' False [
       MenuItem (base @ [''workloads'', ''services'']) ''services'' False [],
       MenuItem (base @ [''workloads'', ''endpointslices'']) ''endpointslices'' False [],
       MenuItem (base @ [''workloads'', ''ingresses'']) ''ingresses'' False [],
       MenuItem (base @ [''workloads'', ''networkpolicies'']) ''networkpolicies'' False [],
       MenuItem (base @ [''workloads'', ''gatewayclasses'']) ''gatewayclasses'' False [],
       MenuItem (base @ [''workloads'', ''gateways'']) ''gateways'' False [],
       MenuItem (base @ [''workloads'', ''httproutes'']) ''httproutes'' False [],
       MenuItem (base @ [''workloads'', ''grpcroutes'']) ''grpcroutes'' False []],
     MenuItem (base @ [''_group'', ''storage'']) ''storage'' False [
       MenuItem (base @ [''workloads'', ''persistentvolumeclaims'']) ''pvc'' False [],
       MenuItem (base @ [''workloads'', ''persistentvolumes'']) ''pv'' False [],
       MenuItem (base @ [''workloads'', ''storageclasses'']) ''sc'' False []],
     MenuItem (base @ [''_group'', ''config'']) ''config'' False [
       MenuItem (base @ [''workloads'', ''configmaps'']) ''configmaps'' False [],
       MenuItem (base @ [''workloads'', ''secrets'']) ''secrets'' False []],
     MenuItem (base @ [''_group'', ''security'']) ''security'' False [
       MenuItem (base @ [''workloads'', ''serviceaccounts'']) ''serviceaccounts'' False [],
       MenuItem (base @ [''workloads'', ''roles'']) ''roles'' False [],
       MenuItem (base @ [''workloads'', ''rolebindings'']) ''rolebindings'' False [],
       MenuItem (base @ [''workloads'', ''clusterroles'']) ''clusterroles'' False [],
       MenuItem (base @ [''workloads'', ''clusterrolebindings'']) ''clusterrolebindings'' False []],
     MenuItem (base @ [''_group'', ''policy'']) ''policy'' False [
       MenuItem (base @ [''workloads'', ''resourcequotas'']) ''resourcequotas'' False [],
       MenuItem (base @ [''workloads'', ''limitranges'']) ''limitranges'' False [],
       MenuItem (base @ [''workloads'', ''poddisruptionbudgets'']) ''poddisruptionbudgets'' False [],
       MenuItem (base @ [''workloads'', ''priorityclasses'']) ''priorityclasses'' False [],
       MenuItem (base @ [''workloads'', ''runtimeclasses'']) ''runtimeclasses'' False []],
     MenuItem (base @ [''_group'', ''extensions'']) ''extensions'' False [
       MenuItem (base @ [''workloads'', ''customresourcedefinitions'']) ''crds'' False [
         MenuItem (base @ [''workloads'', ''_cr'']) ''crInstances'' True []],
       MenuItem (base @ [''_group'', ''extensions'', ''dra'']) ''dra'' False [
         MenuItem (base @ [''workloads'', ''resourceclaims'']) ''resourceclaims'' False [],
         MenuItem (base @ [''workloads'', ''resourceclaimtemplates'']) ''resourceclaimtemplates'' False [],
         MenuItem (base @ [''workloads'', ''deviceclasses'']) ''deviceclasses'' False [],
         MenuItem (base @ [''workloads'', ''resourceslices'']) ''resourceslices'' False []],
       MenuItem (base @ [''_group'', ''extensions'', ''admission'']) ''admission'' False [
         MenuItem (base @ [''workloads'', ''validatingwebhookconfigurations'']) ''validatingwebhooks'' False [],
         MenuItem (base @ [''workloads'', ''mutatingwebhookconfigurations'']) ''mutatingwebhooks'' False [],
         MenuItem (base @ [''workloads'', ''validatingadmissionpolicies'']) ''validatingadmissionpolicies'' False [],
         MenuItem (base @ [''workloads'', ''mutatingadmissionpolicies'']) ''mutatingadmissionpolicies'' False []]],
     MenuItem (base @ [''plugins'']) ''plugins'' False [],
     MenuItem (base @ [''monitoring'']) ''monitoring'' False [],
     MenuItem (base @ [''logging'']) ''logging'' False [],
     MenuItem (base @ [''grafana'']) ''grafana'' False []])"

definition buildComputeSubMenu :: "string \<Rightarrow> menu_item list" where
  "buildComputeSubMenu clusterId = (let base = [''compute'', clusterId] in [
     MenuItem (base @ [''overview'']) ''overview'' False [],
     MenuItem (base @ [''scheduler'']) ''scheduler'' False [],
     MenuItem (base @ [''queue-quota'']) ''queueQuota'' False [],
     MenuItem (base @ [''vgpu'']) ''vgpu'' False [],
     MenuItem (base @ [''gpu-monitoring'']) ''gpuMonitoring'' False [],
     MenuItem (base @ [''device-health'']) ''deviceHealth'' False [],
     MenuItem (base @ [''gpu-hour'']) ''gpuHour'' False [],
     MenuItem (base @ [''_group'', ''resources'']) ''resources'' False [
       MenuItem (base @ [''queues'']) ''queues'' False [],
       MenuItem (base @ [''jobs'']) ''jobs'' False [],
       MenuItem (base @ [''cronjobs'']) ''cronjobs'' False [],
       MenuItem (base @ [''podgroups'']) ''podgroups'' False [],
       MenuItem (base @ [''hypernodes'']) ''hypernodes'' False [],
       MenuItem (base @ [''jobflows'']) ''jobflows'' False [],
       MenuItem (base @ [''jobtemplates'']) ''jobtemplates'' False [],
       MenuItem (base @ [''numatopologies'']) ''numatopologies'' False [],
       MenuItem (base @ [''nodeshards'']) ''nodeshards'' False [],
       MenuItem (base @ [''colocationconfigurations'']) ''colocationconfigurations'' False []]])"

definition menuDataRender :: "string option \<Rightarrow> menu_item list \<Rightarrow> menu_item list" where
  "menuDataRender currentClusterId menuData =
    (case currentClusterId of None \<Rightarrow> menuData
     | Some c \<Rightarrow> map (\<lambda>i. if menu_path i = [''clusters''] then MenuItem (menu_path i) (menu_name i) (menu_hidden i) (buildClusterSubMenu c)
         else if menu_path i = [''compute''] then MenuItem (menu_path i) (menu_name i) (menu_hidden i) (buildComputeSubMenu c) else i) menuData)"

text \<open>An item whose children are all hidden is a link.\<close>

fun menu_links :: "menu_item \<Rightarrow> string list list" where
  "menu_links (MenuItem p n h ch) = (if list_all menu_hidden ch then [p] else []) @ concat (map menu_links ch)"

definition not_found :: string where
  "not_found = ''./exception/404''"

text \<open>The resource types that the cluster's menu links to.\<close>

definition linked_types :: "string \<Rightarrow> string list" where
  "linked_types clusterId =
    map (\<lambda>p. p ! 3) (filter (\<lambda>p. take 3 p = [''clusters'', clusterId, ''workloads''] \<and> length p = 4)
      (concat (map menu_links (buildClusterSubMenu clusterId))))"

definition reaches_page :: "nat \<Rightarrow> string list \<Rightarrow> bool" where
  "reaches_page n p \<longleftrightarrow> route_page n p \<notin> {None, Some not_found}"

lemma reaches_workload: "c \<noteq> [] \<Longrightarrow> t \<noteq> [] \<Longrightarrow> reaches_page n [''clusters'', c, ''workloads'', t]"
  by (simp add: reaches_page_def not_found_def ROUTES_def is_param_def)

lemma reaches_cluster:
  assumes "c \<noteq> []"
  shows "reaches_page n [''clusters'', c, ''nodes'']"
    "reaches_page n [''clusters'', c, ''plugins'']"
    "reaches_page n [''clusters'', c, ''monitoring'']"
    "reaches_page n [''clusters'', c, ''logging'']"
    "reaches_page n [''clusters'', c, ''grafana'']"
  using assms by (simp_all add: reaches_page_def not_found_def ROUTES_def is_param_def)

lemma reaches_compute:
  assumes "c \<noteq> []"
  shows "reaches_page n [''compute'', c, ''overview'']"
    "reaches_page n [''compute'', c, ''scheduler'']"
    "reaches_page n [''compute'', c, ''queue-quota'']"
    "reaches_page n [''compute'', c, ''vgpu'']"
    "reaches_page n [''compute'', c, ''gpu-monitoring'']"
    "reaches_page n [''compute'', c, ''device-health'']"
    "reaches_page n [''compute'', c, ''gpu-hour'']"
    "reaches_page n [''compute'', c, ''queues'']"
    "reaches_page n [''compute'', c, ''jobs'']"
    "reaches_page n [''compute'', c, ''cronjobs'']"
    "reaches_page n [''compute'', c, ''podgroups'']"
    "reaches_page n [''compute'', c, ''hypernodes'']"
    "reaches_page n [''compute'', c, ''jobflows'']"
    "reaches_page n [''compute'', c, ''jobtemplates'']"
    "reaches_page n [''compute'', c, ''numatopologies'']"
    "reaches_page n [''compute'', c, ''nodeshards'']"
    "reaches_page n [''compute'', c, ''colocationconfigurations'']"
  using assms by (simp_all add: reaches_page_def not_found_def ROUTES_def is_param_def)

lemma cluster_links_found: "c \<noteq> [] \<Longrightarrow> list_all (reaches_page n) (concat (map menu_links (buildClusterSubMenu c)))"
  by (simp add: buildClusterSubMenu_def reaches_workload reaches_cluster)

lemma compute_links_found: "c \<noteq> [] \<Longrightarrow> list_all (reaches_page n) (concat (map menu_links (buildComputeSubMenu c)))"
  by (simp add: buildComputeSubMenu_def reaches_compute)

lemma linked_types_eq: "linked_types c = linked_types ''c''"
  by (simp add: linked_types_def buildClusterSubMenu_def)

lemma linked_types_cover:
  "distinct (linked_types ''c'')" "list_all (\<lambda>t. List.member (''_cr'' # VALID_TYPES) t) (linked_types ''c'')"
  "list_all (\<lambda>t. List.member (linked_types ''c'') t) (''_cr'' # VALID_TYPES)"
  by code_simp+

text \<open>C33. In the menu of a cluster every resource type that the workload page accepts has
  exactly one link, there is one for the CR viewer and none for a type that the page would
  turn away; and no link of the cluster's or the compute menu leads to the page that is not
  found.\<close>

theorem menus_and_pages_agree:
  "distinct (linked_types clusterId) \<and> set (linked_types clusterId) = insert ''_cr'' (set VALID_TYPES) \<and>
   (clusterId = [] \<or> list_all (reaches_page n)
      (concat (map menu_links (buildClusterSubMenu clusterId @ buildComputeSubMenu clusterId))))"
proof (intro conjI)
  show "distinct (linked_types clusterId)" using linked_types_cover(1) linked_types_eq[of clusterId] by simp
  have "set (linked_types ''c'') = insert ''_cr'' (set VALID_TYPES)"
    using linked_types_cover(2,3) by (auto simp: list_all_iff)
  then show "set (linked_types clusterId) = insert ''_cr'' (set VALID_TYPES)" using linked_types_eq[of clusterId] by simp
  show "clusterId = [] \<or> list_all (reaches_page n)
      (concat (map menu_links (buildClusterSubMenu clusterId @ buildComputeSubMenu clusterId)))"
    using cluster_links_found[of clusterId n] compute_links_found[of clusterId n]
    by (cases "clusterId = []") (simp_all only: map_append concat_append list_all_append simp_thms)
qed

section \<open>The sider\<close>

definition SIDER_WIDTH_KEY :: string where
  "SIDER_WIDTH_KEY = ''kpilot-sider-width''"

definition SIDER_WIDTH_DEFAULT :: rat where
  "SIDER_WIDTH_DEFAULT = 220"

definition SIDER_WIDTH_MIN :: rat where
  "SIDER_WIDTH_MIN = 220"

definition SIDER_WIDTH_MAX :: rat where
  "SIDER_WIDTH_MAX = 480"

definition readStoredSiderWidth :: "(string \<rightharpoonup> string) \<Rightarrow> rat" where
  "readStoredSiderWidth store =
    (case store SIDER_WIDTH_KEY of None \<Rightarrow> SIDER_WIDTH_DEFAULT
     | Some raw \<Rightarrow> (case js_number raw of None \<Rightarrow> SIDER_WIDTH_DEFAULT
         | Some n \<Rightarrow> if SIDER_WIDTH_MIN \<le> n \<and> n \<le> SIDER_WIDTH_MAX then n else SIDER_WIDTH_DEFAULT))"

definition clampSiderWidth :: "rat \<Rightarrow> rat" where
  "clampSiderWidth n = max SIDER_WIDTH_MIN (min SIDER_WIDTH_MAX n)"

text \<open>A drag knows where it started and the width it shows; the width is committed, and stored
  if the storage is writable, on release.\<close>

record sider =
  sd_width :: rat
  sd_drag :: "(rat \<times> rat \<times> rat) option"
  sd_store :: "string \<rightharpoonup> string"

datatype sider_act = SiderDown rat | SiderMove rat | SiderUp bool

definition sider_load :: "(string \<rightharpoonup> string) \<Rightarrow> sider" where
  "sider_load store = \<lparr>sd_width = readStoredSiderWidth store, sd_drag = None, sd_store = store\<rparr>"

definition sider_step :: "sider_act \<Rightarrow> sider \<Rightarrow> sider" where
  "sider_step a s = (case a of
     SiderDown x \<Rightarrow> s\<lparr>sd_drag := Some (x, sd_width s, sd_width s)\<rparr>
   | SiderMove x \<Rightarrow> (case sd_drag s of None \<Rightarrow> s
       | Some (startX, startWidth, w) \<Rightarrow> s\<lparr>sd_drag := Some (startX, startWidth, clampSiderWidth (startWidth + x - startX))\<rparr>)
   | SiderUp writable \<Rightarrow> (case sd_drag s of None \<Rightarrow> s
       | Some (startX, startWidth, w) \<Rightarrow>
           s\<lparr>sd_drag := None, sd_width := w,
             sd_store := (if writable then (sd_store s)(SIDER_WIDTH_KEY \<mapsto> show_num w) else sd_store s)\<rparr>))"

text \<open>Where the mouse is at whole pixels.\<close>

fun whole_pixels :: "sider_act \<Rightarrow> bool" where
  "whole_pixels (SiderDown x) = (x \<in> \<int>)"
| "whole_pixels (SiderMove x) = (x \<in> \<int>)"
| "whole_pixels (SiderUp w) = True"

definition in_bounds :: "rat \<Rightarrow> bool" where
  "in_bounds w \<longleftrightarrow> 220 \<le> w \<and> w \<le> 480"

definition sider_ok :: "sider \<Rightarrow> bool" where
  "sider_ok s \<longleftrightarrow> in_bounds (sd_width s) \<and> (case sd_drag s of None \<Rightarrow> True | Some (x, s0, w) \<Rightarrow> in_bounds s0 \<and> in_bounds w)"

lemma clamp_bounds: "in_bounds (clampSiderWidth n)"
  by (auto simp: clampSiderWidth_def in_bounds_def SIDER_WIDTH_MIN_def SIDER_WIDTH_MAX_def)

lemma read_bounds: "in_bounds (readStoredSiderWidth store)"
  by (auto simp: readStoredSiderWidth_def in_bounds_def SIDER_WIDTH_MIN_def SIDER_WIDTH_MAX_def SIDER_WIDTH_DEFAULT_def
      split: option.splits)

lemma sider_ok_step: "sider_ok s \<Longrightarrow> sider_ok (sider_step a s)"
  by (cases a) (auto simp: sider_ok_def sider_step_def clamp_bounds split: option.splits prod.splits)

lemma sider_ok_run: "sider_ok s \<Longrightarrow> sider_ok (fold sider_step as s)"
  by (induction as arbitrary: s) (simp_all add: sider_ok_step)

text \<open>Whatever the storage holds and however the handle is dragged, the width of the sider
  stays between 220 and 480 pixels, while a drag is shown as well as after it.\<close>

theorem sider_stays_in_bounds:
  "let s = fold sider_step as (sider_load store) in
    220 \<le> sd_width s \<and> sd_width s \<le> 480 \<and>
    (case sd_drag s of None \<Rightarrow> True | Some (_, _, w) \<Rightarrow> 220 \<le> w \<and> w \<le> 480)"
proof -
  have "sider_ok (fold sider_step as (sider_load store))"
    by (rule sider_ok_run) (simp add: sider_ok_def sider_load_def read_bounds)
  then show ?thesis by (auto simp: sider_ok_def in_bounds_def Let_def split: option.splits)
qed

lemma read_stored_int:
  assumes "in_bounds w" "w \<in> \<int>"
  shows "readStoredSiderWidth (store(SIDER_WIDTH_KEY \<mapsto> show_num w)) = w"
proof -
  obtain z where z: "w = of_int z" using assms(2) by (auto elim: Ints_cases)
  then have b: "220 \<le> z" "z \<le> 480" using assms(1) by (simp_all add: in_bounds_def)
  then have n: "w = of_nat (nat z)" using z by simp
  have "js_finite (of_nat (nat z))" using b by (simp add: js_finite_def)
  then have "js_number (show_num w) = Some w" unfolding n show_num_nat by (rule js_number_show_nat)
  then show ?thesis using assms(1)
    by (simp add: readStoredSiderWidth_def in_bounds_def SIDER_WIDTH_MIN_def SIDER_WIDTH_MAX_def)
qed

text \<open>After a drag at whole pixels that could be stored, a reload of the page gives the
  sider the width it was left at.\<close>

theorem reload_keeps_the_width:
  assumes "sd_width s0 \<in> \<int>" "sider_ok s0" "list_all whole_pixels (SiderDown x # moves)" "list_all (\<lambda>m. \<exists>y. m = SiderMove y) moves"
  shows "let s = fold sider_step (SiderDown x # moves @ [SiderUp True]) s0 in sd_width (sider_load (sd_store s)) = sd_width s"
proof -
  have clamp: "clampSiderWidth n \<in> \<int>" if "n \<in> \<int>" for n
    using that by (auto simp: clampSiderWidth_def SIDER_WIDTH_MIN_def SIDER_WIDTH_MAX_def max_def min_def)
  have "\<exists>w. sd_drag (fold sider_step moves s) = Some (x, sd_width s0, w) \<and> w \<in> \<int> \<and> in_bounds w"
    if "sd_drag s = Some (x, sd_width s0, v)" "v \<in> \<int>" "in_bounds v" for s v
    using that assms(3,4)
  proof (induction moves arbitrary: s v)
    case (Cons m moves)
    obtain y where m: "m = SiderMove y" "y \<in> \<int>" using Cons.prems(4,5) by auto
    have i: "clampSiderWidth (sd_width s0 + y - x) \<in> \<int>" using m Cons.prems(4) assms(1) by (intro clamp) simp
    have d: "sd_drag (sider_step m s) = Some (x, sd_width s0, clampSiderWidth (sd_width s0 + y - x))"
      using Cons.prems(1) m(1) by (simp add: sider_step_def)
    show ?case using Cons.IH[OF d i clamp_bounds] Cons.prems(4,5) by simp
  qed simp
  note drag = this[of "sider_step (SiderDown x) s0" "sd_width s0"]
  have "in_bounds (sd_width s0)" using assms(2) by (simp add: sider_ok_def)
  then obtain w where w: "sd_drag (fold sider_step moves (sider_step (SiderDown x) s0)) = Some (x, sd_width s0, w)" "w \<in> \<int>" "in_bounds w"
    using drag assms(1) by (auto simp: sider_step_def[of "SiderDown x"])
  then show ?thesis by (simp add: sider_step_def[of "SiderUp True"] sider_load_def read_stored_int Let_def)
qed

section \<open>The header\<close>

definition LOCALES :: "(string \<times> string) list" where
  "LOCALES = [(''zh-CN'', [CHR 0xE7, CHR 0xAE, CHR 0x80, CHR 0xE4, CHR 0xBD, CHR 0x93, CHR 0xE4, CHR 0xB8, CHR 0xAD, CHR 0xE6, CHR 0x96, CHR 0x87]),
     (''en-US'', ''English'')]"

definition theme_toggle :: "string \<Rightarrow> string" where
  "theme_toggle mode = (if mode = ''dark'' then ''light'' else ''dark'')"

definition initial_theme :: "(string \<rightharpoonup> string) \<Rightarrow> string" where
  "initial_theme store = (case store ''kpilot-theme'' of None \<Rightarrow> ''light'' | Some t \<Rightarrow> t)"

definition VersionBadge :: "string option \<Rightarrow> string option" where
  "VersionBadge v = (case v of None \<Rightarrow> None | Some s \<Rightarrow> if s = [] then None else Some s)"

end
