(* ===== verification/VgpuPage.thy ===== *)
theory VgpuPage
  imports WorkloadTable VolcanoTables SystemMonitor
begin

text \<open>
  The vGPU page: pages/Compute/Volcano/VGPU.tsx over services/kpilot/vgpu.ts.

  The page derives everything it shows from one snapshot: the tiles of the cluster, the
  banner of unhealthy cards, the list of nodes with its search, and for each node and each
  card the utilization bars and the pods.  Numbers are exact rationals; localized texts are
  represented by their message identifiers, colours by the tokens of the theme.
\<close>

section \<open>The snapshot\<close>

record VGPUPodUsage =
  vu_namespace :: string
  vu_name :: string
  vu_usedMemory :: rat
  vu_usedCores :: rat

record VGPUCard =
  vg_index :: nat
  vg_uuid :: string
  vg_type :: string
  vg_number :: rat
  vg_memory :: rat
  vg_health :: bool
  vg_sharingMode :: string
  vg_usedMemory :: rat
  vg_usedCores :: rat
  vg_usedNumber :: rat
  vg_pods :: "VGPUPodUsage list"

record VGPUNode =
  vn_name :: string
  vn_healthy :: bool
  vn_cards :: "VGPUCard list"
  vn_totalMemory :: rat
  vn_usedMemory :: rat
  vn_totalNumber :: rat
  vn_usedNumber :: rat

record VGPUSnapshot =
  vs_nodes :: "VGPUNode list"
  vs_totalCards :: rat
  vs_totalMemory :: rat
  vs_usedMemory :: rat
  vs_totalSlots :: rat
  vs_usedSlots :: rat

definition getVGPUSnapshot :: "string \<Rightarrow> request" where
  "getVGPUSnapshot clusterId = GET (path [''api'', ''v1'', ''clusters'', clusterId, ''vgpu'']) []"

definition all_cards :: "VGPUNode list \<Rightarrow> VGPUCard list" where
  "all_cards nodes = concat (map vn_cards nodes)"

section \<open>Aggregation\<close>

text \<open>totalBad counts cards, badNodes is a set of node names.\<close>

definition unhealthy :: "VGPUNode list \<Rightarrow> nat \<times> string list" where
  "unhealthy nodes =
    fold (\<lambda>n (bad, names).
        let (bad', names') = fold (\<lambda>c (b, ns). if \<not> vg_health c then (Suc b, List.insert (vn_name n) ns) else (b, ns))
              (vn_cards n) (bad, names)
        in (bad', if \<not> vn_healthy n then List.insert (vn_name n) names' else names'))
      nodes (0, [])"

definition pod_key :: "VGPUPodUsage \<Rightarrow> string" where
  "pod_key p = vu_namespace p @ ''/'' @ vu_name p"

definition running_pods :: "VGPUNode list \<Rightarrow> nat" where
  "running_pods nodes = length (nub (concat (map (\<lambda>c. map pod_key (vg_pods c)) (all_cards nodes))))"

definition formatGiB :: "rat \<Rightarrow> string" where
  "formatGiB mib = (if mib \<le> 0 then ''0'' else to_fixed 1 (mib / 1024))"

definition ratio :: "rat \<Rightarrow> rat \<Rightarrow> rat" where
  "ratio used total_value = (if total_value \<le> 0 then 0 else min (max (used / total_value) 0) 1)"

definition utilColor :: "rat \<Rightarrow> color_token \<Rightarrow> string" where
  "utilColor r token = usageColor (Some r) token"

definition shortUuid :: "string \<Rightarrow> string" where
  "shortUuid uuid = (if uuid = [] then ''-'' else if length uuid \<le> 12 then uuid else shortUUID (Some uuid))"

definition nodeCores :: "VGPUNode \<Rightarrow> rat \<times> rat" where
  "nodeCores n = (sum_list (map vg_usedCores (vn_cards n)), of_nat (length (vn_cards n)) * 100)"

text \<open>A Map that counts: a new key goes to the end.\<close>

fun bump :: "string \<Rightarrow> (string \<times> nat) list \<Rightarrow> (string \<times> nat) list" where
  "bump k [] = [(k, 1)]"
| "bump k ((k', n) # m) = (if k = k' then (k', Suc n) # m else (k', n) # bump k m)"

definition tally :: "string list \<Rightarrow> (string \<times> nat) list" where
  "tally ks = fold bump ks []"

definition typeBreakdown :: "VGPUNode list \<Rightarrow> (string \<times> nat) list" where
  "typeBreakdown nodes = sort_key (\<lambda>(_, n). - int n) (tally (map vg_type (all_cards nodes)))"

section \<open>The tiles of the cluster\<close>

datatype kpi_tone = Warn | Err

record vgpu_kpi =
  vk_key :: string
  vk_value :: string
  vk_suffix :: "string option"
  vk_ratio :: "rat option"
  vk_tone :: "kpi_tone option"
  vk_chips :: "string list"

definition tone :: "rat \<Rightarrow> kpi_tone option" where
  "tone r = (if r \<ge> 85 / 100 then Some Err else if r \<ge> 6 / 10 then Some Warn else None)"

definition type_chip :: "string \<times> nat \<Rightarrow> string" where
  "type_chip tn = fst tn @ times_text @ show_nat (snd tn)"

definition type_chips :: "(string \<times> nat) list \<Rightarrow> string list" where
  "type_chips ts = map type_chip (take 3 ts) @ (if length ts > 3 then [''+'' @ show_nat (length ts - 3)] else [])"

definition cluster_cores :: "VGPUNode list \<Rightarrow> rat \<times> rat" where
  "cluster_cores nodes = fold (\<lambda>c (used, t). (used + vg_usedCores c, t + 100)) (all_cards nodes) (0, 0)"

definition gauge :: "string \<Rightarrow> string \<Rightarrow> string option \<Rightarrow> rat \<Rightarrow> vgpu_kpi" where
  "gauge key value sfx r = \<lparr>vk_key = key, vk_value = value, vk_suffix = sfx, vk_ratio = Some r, vk_tone = tone r, vk_chips = []\<rparr>"

definition ClusterKPIs :: "VGPUSnapshot option \<Rightarrow> vgpu_kpi list" where
  "ClusterKPIs snapshot =
    (let get = (\<lambda>f. case snapshot of None \<Rightarrow> 0 | Some s \<Rightarrow> f s);
         nodes = (case snapshot of None \<Rightarrow> [] | Some s \<Rightarrow> vs_nodes s);
         (usedCores, totalCores) = cluster_cores nodes;
         of_total = (\<lambda>u t. u @ '' / '' @ t)
     in [\<lparr>vk_key = ''cards'', vk_value = show_num (get vs_totalCards), vk_suffix = None, vk_ratio = None, vk_tone = None,
           vk_chips = type_chips (typeBreakdown nodes)\<rparr>,
         gauge ''slots'' (of_total (show_num (get vs_usedSlots)) (show_num (get vs_totalSlots))) None
           (ratio (get vs_usedSlots) (get vs_totalSlots)),
         gauge ''memory'' (of_total (formatGiB (get vs_usedMemory)) (formatGiB (get vs_totalMemory))) (Some ''GiB'')
           (ratio (get vs_usedMemory) (get vs_totalMemory)),
         gauge ''cores'' (of_total (show_num usedCores) (show_num totalCores)) (Some ''%'') (ratio usedCores totalCores)])"

text \<open>The percentage in the ring, Math.round, and the line under it.\<close>

definition kpi_percent :: "vgpu_kpi \<Rightarrow> int" where
  "kpi_percent k = \<lfloor>(case vk_ratio k of None \<Rightarrow> 0 | Some r \<Rightarrow> r) * 100 + 1 / 2\<rfloor>"

definition kpi_caption :: "vgpu_kpi \<Rightarrow> string" where
  "kpi_caption k = vk_value k @ (case vk_suffix k of None \<Rightarrow> [] | Some s \<Rightarrow> '' '' @ s)"

section \<open>The nodes\<close>

definition matches_pod :: "string \<Rightarrow> VGPUPodUsage \<Rightarrow> bool" where
  "matches_pod q p \<longleftrightarrow> str_includes q (to_lower (vu_name p)) \<or> str_includes q (to_lower (vu_namespace p)) \<or>
     str_includes q (to_lower (pod_key p))"

definition filteredNodes :: "string \<Rightarrow> VGPUNode list \<Rightarrow> VGPUNode list" where
  "filteredNodes search nodes =
    (let q = to_lower (trim search)
     in if q = [] then nodes
        else filter (\<lambda>n. str_includes q (to_lower (vn_name n)) \<or>
          list_ex (\<lambda>c. list_ex (matches_pod q) (vg_pods c)) (vn_cards n)) nodes)"

definition singleType :: "VGPUNode list \<Rightarrow> string option" where
  "singleType nodes = (case nub (map vg_type (all_cards nodes)) of [t] \<Rightarrow> Some t | _ \<Rightarrow> None)"

definition node_health :: "VGPUNode list \<Rightarrow> nat \<times> nat" where
  "node_health nodes =
    (let h = length (filter (\<lambda>n. vn_healthy n \<and> list_all vg_health (vn_cards n)) nodes) in (h, length nodes - h))"

definition node_count_label :: "string \<Rightarrow> VGPUNode list \<Rightarrow> string" where
  "node_count_label search nodes =
    (let f = length (filteredNodes search nodes)
     in ''('' @ show_nat f @
        (if to_lower (trim search) \<noteq> [] \<and> f \<noteq> length nodes then '' / '' @ show_nat (length nodes) else []) @ '')'')"

definition typeBadges :: "string option \<Rightarrow> VGPUNode \<Rightarrow> (string \<times> nat) list" where
  "typeBadges only node =
    (case only of
       Some t \<Rightarrow> if t = [] then tally (map vg_type (vn_cards node)) else [(t, length (vn_cards node))]
     | None \<Rightarrow> tally (map vg_type (vn_cards node)))"

subsection \<open>Utilization bars\<close>

record util_bar =
  ub_width :: rat
  ub_color :: string
  ub_absolute :: "string option"
  ub_percent :: string
  ub_overloaded :: bool

definition UtilBar :: "color_token \<Rightarrow> rat \<Rightarrow> rat \<Rightarrow> string \<Rightarrow> bool \<Rightarrow> bool \<Rightarrow> util_bar option" where
  "UtilBar token used total_value unit asGiB percent =
    (if total_value \<le> 0 \<and> used \<le> 0 then None
     else let r = ratio used total_value;
              show = (if asGiB then formatGiB else show_num)
          in Some \<lparr>ub_width = r * 100, ub_color = utilColor r token,
               ub_absolute = (if percent then None
                 else Some (show used @ ''/'' @ show total_value @ (if unit = [] then [] else '' '' @ unit))),
               ub_percent = to_fixed 0 (r * 100) @ ''%'', ub_overloaded = (r \<ge> 85 / 100)\<rparr>)"

definition LabeledBar :: "color_token \<Rightarrow> string \<Rightarrow> rat \<Rightarrow> rat \<Rightarrow> bool \<Rightarrow> bool \<Rightarrow> string \<times> util_bar option" where
  "LabeledBar token label used total_value asGiB percent =
    (label, UtilBar token used total_value (if asGiB then ''GiB'' else if percent then ''%'' else []) asGiB percent)"

definition node_bars :: "color_token \<Rightarrow> VGPUNode \<Rightarrow> (string \<times> util_bar option) list" where
  "node_bars token n =
    [LabeledBar token ''pages.compute.vgpu.node.col.slots'' (vn_usedNumber n) (vn_totalNumber n) False False,
     LabeledBar token ''pages.compute.vgpu.node.col.memory'' (vn_usedMemory n) (vn_totalMemory n) True False,
     LabeledBar token ''pages.compute.vgpu.node.col.cores'' (fst (nodeCores n)) (snd (nodeCores n)) False True]"

definition health_tag :: "bool \<Rightarrow> string \<Rightarrow> string \<Rightarrow> tag" where
  "health_tag ok good bad = (if ok then (good, ''green'') else (bad, ''red''))"

definition node_header :: "string option \<Rightarrow> VGPUNode \<Rightarrow> string \<times> tag list" where
  "node_header only n =
    (vn_name n, health_tag (vn_healthy n) ''pages.compute.vgpu.health.healthy'' ''pages.compute.vgpu.health.degraded'' #
       map (\<lambda>tn. (type_chip tn, ''blue'')) (typeBadges only n))"

subsection \<open>The pods of a card\<close>

record pod_slices =
  ps_namespace :: string
  ps_name :: string
  ps_count :: nat
  ps_mem :: rat
  ps_cores :: rat

definition ps_key :: "pod_slices \<Rightarrow> string" where
  "ps_key s = ps_namespace s @ ''/'' @ ps_name s"

fun add_pod :: "VGPUPodUsage \<Rightarrow> pod_slices list \<Rightarrow> pod_slices list" where
  "add_pod p [] = [\<lparr>ps_namespace = vu_namespace p, ps_name = vu_name p, ps_count = 1, ps_mem = vu_usedMemory p, ps_cores = vu_usedCores p\<rparr>]"
| "add_pod p (s # ss) =
    (if ps_key s = pod_key p
     then s\<lparr>ps_count := Suc (ps_count s), ps_mem := ps_mem s + vu_usedMemory p, ps_cores := ps_cores s + vu_usedCores p\<rparr> # ss
     else s # add_pod p ss)"

definition pod_slices_of :: "VGPUPodUsage list \<Rightarrow> pod_slices list" where
  "pod_slices_of pods = fold add_pod pods []"

text \<open>The link of a pod and its tooltip; no pod is shown as idle.\<close>

definition pod_link :: "pod_slices \<Rightarrow> string \<times> string" where
  "pod_link s =
    (ps_key s @ (if ps_count s > 1 then times_text @ show_nat (ps_count s) else []),
     formatGiB (ps_mem s) @ '' GiB'' @ dot_sep @ show_num (ps_cores s) @ ''% cores'' @
       (if ps_count s > 1 then dot_sep @ show_nat (ps_count s) @ '' slices'' else []))"

definition PodsCell :: "VGPUPodUsage list \<Rightarrow> (string \<times> string) list option" where
  "PodsCell pods = (if pods = [] then None else Some (map pod_link (pod_slices_of pods)))"

record card_row =
  cw_title :: string
  cw_model :: string
  cw_health :: tag
  cw_uuid :: string
  cw_mode :: string
  cw_bars :: "util_bar option list"
  cw_pods :: "(string \<times> string) list option"

definition CardRow :: "color_token \<Rightarrow> VGPUCard \<Rightarrow> card_row" where
  "CardRow token c =
    \<lparr>cw_title = ''#'' @ show_nat (vg_index c), cw_model = vg_type c,
     cw_health = health_tag (vg_health c) ''pages.compute.vgpu.health.ok'' ''pages.compute.vgpu.health.bad'',
     cw_uuid = shortUuid (vg_uuid c), cw_mode = vg_sharingMode c,
     cw_bars = [UtilBar token (vg_usedNumber c) (vg_number c) [] False False,
                UtilBar token (vg_usedMemory c) (vg_memory c) ''GiB'' True False,
                UtilBar token (vg_usedCores c) 100 ''%'' False True],
     cw_pods = PodsCell (vg_pods c)\<rparr>"

section \<open>The page\<close>

text \<open>The banner with the numbers of cards and nodes, and whether an idle cluster is offered
  a first job.\<close>

definition health_banner :: "VGPUNode list \<Rightarrow> (nat \<times> nat) option" where
  "health_banner nodes = (let (bad, names) = unhealthy nodes in if bad > 0 then Some (bad, length names) else None)"

definition showEmptyCTA :: "bool \<Rightarrow> VGPUSnapshot option \<Rightarrow> bool" where
  "showEmptyCTA loading snapshot \<longleftrightarrow> \<not> loading \<and>
    (case snapshot of None \<Rightarrow> False | Some s \<Rightarrow> vs_nodes s \<noteq> [] \<and> running_pods (vs_nodes s) = 0)"

section \<open>What the numbers mean\<close>

lemma map_fst_bump: "map fst (bump k m) = (if k \<in> fst ` set m then map fst m else map fst m @ [k])"
  by (induction k m rule: bump.induct) auto

lemma bump_entry: "distinct (map fst m) \<Longrightarrow> (t, n) \<in> set (bump k m) \<longleftrightarrow>
  (if t = k then n = (case map_of m k of None \<Rightarrow> 1 | Some x \<Rightarrow> Suc x) else (t, n) \<in> set m)"
  by (induction k m rule: bump.induct) (auto simp: image_iff split: option.splits)

lemma sum_bump: "sum_list (map snd (bump k m)) = Suc (sum_list (map snd m))"
  by (induction k m rule: bump.induct) auto

lemma fold_bump:
  "distinct (map fst (fold bump ks [])) \<and> fst ` set (fold bump ks []) = set ks \<and>
   sum_list (map snd (fold bump ks [])) = length ks \<and>
   (\<forall>(t, n) \<in> set (fold bump ks []). n = count_list ks t)"
proof (induction ks rule: rev_induct)
  case (snoc k ks)
  let ?m = "fold bump ks []"
  have d: "distinct (map fst ?m)" and st: "fst ` set ?m = set ks" and c: "\<forall>(t, n) \<in> set ?m. n = count_list ks t"
    using snoc by auto
  have k: "map_of ?m k = (if k \<in> set ks then Some (count_list ks k) else None)"
  proof (cases "k \<in> set ks")
    case True
    then obtain n where n: "(k, n) \<in> set ?m" using st by force
    then have "n = count_list ks k" using c by auto
    then show ?thesis using True n d by simp
  next
    case False
    then show ?thesis using st by (simp add: map_of_eq_None_iff)
  qed
  have "\<forall>(t, n) \<in> set (bump k ?m). n = count_list (ks @ [k]) t"
    using bump_entry[OF d] k c by (auto simp: count_list_0_iff split: if_splits)
  then show ?case
    using d st snoc by (auto simp: map_fst_bump sum_bump simp flip: set_map)
qed simp

lemma fold_bump_cards:
  "fold (\<lambda>c (b, ns). if \<not> vg_health c then (Suc b, List.insert x ns) else (b, ns)) cs (b, ns) =
    (b + length (filter (\<lambda>c. \<not> vg_health c) cs), if list_all vg_health cs then ns else List.insert x ns)"
  by (induction cs arbitrary: b ns) auto

lemma unhealthy_eq:
  "fst (unhealthy nodes) = length (filter (\<lambda>c. \<not> vg_health c) (all_cards nodes)) \<and>
   distinct (snd (unhealthy nodes)) \<and>
   set (snd (unhealthy nodes)) = vn_name ` set (filter (\<lambda>n. \<not> (vn_healthy n \<and> list_all vg_health (vn_cards n))) nodes)"
proof (induction nodes rule: rev_induct)
  case (snoc n nodes)
  then show ?case
    by (cases "unhealthy nodes") (auto simp: unhealthy_def all_cards_def fold_bump_cards)
qed (simp add: unhealthy_def all_cards_def)

lemma cluster_cores_fold:
  "fold (\<lambda>c (used, t). (used + vg_usedCores c, t + 100)) cs (u, t) =
    (u + sum_list (map vg_usedCores cs), t + of_nat (length cs) * 100)"
  by (induction cs arbitrary: u t) (auto simp: algebra_simps)

text \<open>The tiles, the node rows and the badges count the same cards: the cores of the
  cluster are the sums of those of its nodes, the chips have every model once, with the
  number of its cards, the most frequent first, and the numbers add up to all cards; the
  banner counts the bad cards, and a node is either healthy or named among the unhealthy.\<close>

theorem vgpu_totals_agree:
  "cluster_cores nodes = (sum_list (map (fst \<circ> nodeCores) nodes), sum_list (map (snd \<circ> nodeCores) nodes)) \<and>
   (let ts = typeBreakdown nodes in distinct (map fst ts) \<and> set (map fst ts) = vg_type ` set (all_cards nodes) \<and>
     sum_list (map snd ts) = length (all_cards nodes) \<and> sorted_wrt (\<ge>) (map snd ts) \<and>
     list_all (\<lambda>(t, n). n = length (filter (\<lambda>c. vg_type c = t) (all_cards nodes))) ts) \<and>
   fst (unhealthy nodes) = length (filter (\<lambda>c. \<not> vg_health c) (all_cards nodes)) \<and>
   fst (node_health nodes) + snd (node_health nodes) = length nodes \<and>
   set (snd (unhealthy nodes)) = vn_name ` {n \<in> set nodes. \<not> (vn_healthy n \<and> list_all vg_health (vn_cards n))}"
proof -
  let ?ks = "map vg_type (all_cards nodes)"
  have t: "distinct (map fst (tally ?ks))" "set (map fst (tally ?ks)) = set ?ks" "sum_list (map snd (tally ?ks)) = length ?ks"
    "\<forall>(t, n) \<in> set (tally ?ks). n = count_list ?ks t"
    using fold_bump[of ?ks] by (simp_all add: tally_def)
  have p: "mset (typeBreakdown nodes) = mset (tally ?ks)" by (simp add: typeBreakdown_def)
  have "mset (map fst (typeBreakdown nodes)) = mset (map fst (tally ?ks))" using p by (metis mset_map)
  then have d: "distinct (map fst (typeBreakdown nodes))" using t(1) mset_eq_imp_distinct_iff by blast
  have s: "set (typeBreakdown nodes) = set (tally ?ks)" using p by (rule mset_eq_setD)
  have "mset (map snd (typeBreakdown nodes)) = mset (map snd (tally ?ks))" using p by (metis mset_map)
  then have m: "sum_list (map snd (typeBreakdown nodes)) = length (all_cards nodes)"
    using t(3) by (metis sum_mset_sum_list length_map)
  have "sorted (map (\<lambda>(_, n). - int n) (typeBreakdown nodes))" by (simp add: typeBreakdown_def)
  then have o: "sorted_wrt (\<ge>) (map snd (typeBreakdown nodes))"
    by (simp add: sorted_map sorted_wrt_map case_prod_beta)
  have c: "count_list (map f xs) y = length (filter (\<lambda>x. f x = y) xs)" for f :: "VGPUCard \<Rightarrow> string" and xs y
    by (induction xs) auto
  have l: "list_all (\<lambda>(t, n). n = length (filter (\<lambda>c. vg_type c = t) (all_cards nodes))) (typeBreakdown nodes)"
    using t(4) unfolding c list_all_iff s .
  have a: "sum_list (map vg_usedCores (all_cards nodes)) = sum_list (map (fst \<circ> nodeCores) nodes)"
    "of_nat (length (all_cards nodes)) * 100 = (sum_list (map (snd \<circ> nodeCores) nodes) :: rat)"
    by (induction nodes) (simp_all add: all_cards_def nodeCores_def algebra_simps)
  have h: "fst (node_health nodes) + snd (node_health nodes) = length nodes"
    by (simp add: node_health_def Let_def)
  show ?thesis
    using d m o l a h unhealthy_eq[of nodes] s t(2) by (auto simp: cluster_cores_def cluster_cores_fold Let_def)
qed

lemma add_pod_keys: "map ps_key (add_pod p ss) = (if pod_key p \<in> ps_key ` set ss then map ps_key ss else map ps_key ss @ [pod_key p])"
  by (induction p ss rule: add_pod.induct) (auto simp: ps_key_def pod_key_def)

definition slices_ok :: "VGPUPodUsage list \<Rightarrow> pod_slices \<Rightarrow> bool" where
  "slices_ok pods s \<longleftrightarrow> (let mine = filter (\<lambda>p. pod_key p = ps_key s) pods
    in ps_count s = length mine \<and> ps_mem s = sum_list (map vu_usedMemory mine) \<and> ps_cores s = sum_list (map vu_usedCores mine))"

lemma slices_ok_other: "ps_key s \<noteq> pod_key p \<Longrightarrow> slices_ok (pods @ [p]) s = slices_ok pods s"
  by (simp add: slices_ok_def)

lemma add_pod_ok:
  "distinct (map ps_key ss) \<Longrightarrow> list_all (slices_ok pods) ss \<Longrightarrow>
   (pod_key p \<notin> ps_key ` set ss \<longrightarrow> (\<forall>q \<in> set pods. pod_key q \<noteq> pod_key p)) \<Longrightarrow>
   list_all (slices_ok (pods @ [p])) (add_pod p ss)"
proof (induction p ss rule: add_pod.induct)
  case (1 p)
  then show ?case by (simp add: slices_ok_def ps_key_def pod_key_def Let_def filter_False)
next
  case (2 p s ss)
  show ?case
  proof (cases "ps_key s = pod_key p")
    case True
    have "slices_ok (pods @ [p]) t" if t: "t \<in> set ss" for t
    proof -
      have "ps_key t \<noteq> pod_key p" using 2(2) True t by (auto simp: image_iff)
      then show ?thesis using 2(3) t by (simp add: slices_ok_other list_all_iff)
    qed
    then have "list_all (slices_ok (pods @ [p])) ss" by (simp add: list_all_iff)
    moreover have "slices_ok (pods @ [p]) (s\<lparr>ps_count := Suc (ps_count s), ps_mem := ps_mem s + vu_usedMemory p,
        ps_cores := ps_cores s + vu_usedCores p\<rparr>)"
      using 2(3) True by (simp add: slices_ok_def Let_def ps_key_def pod_key_def)
    ultimately show ?thesis using True by simp
  next
    case False
    then show ?thesis using 2 slices_ok_other[OF False] by auto
  qed
qed

text \<open>The pods cell of a card loses and repeats nothing: every pod of the card is listed
  once, with the number of its slices and the sums of its memory and its cores.\<close>

theorem pods_cell_adds_up:
  "let ss = pod_slices_of pods in
    distinct (map ps_key ss) \<and> set (map ps_key ss) = set (map pod_key pods) \<and> list_all (slices_ok pods) ss"
proof (induction pods rule: rev_induct)
  case (snoc p pods)
  let ?ss = "pod_slices_of pods"
  have *: "distinct (map ps_key ?ss)" "ps_key ` set ?ss = pod_key ` set pods" "list_all (slices_ok pods) ?ss"
    using snoc by (simp_all add: Let_def)
  have "pod_key p \<notin> ps_key ` set ?ss \<longrightarrow> (\<forall>q \<in> set pods. pod_key q \<noteq> pod_key p)"
    unfolding *(2) by (metis imageI)
  then have "list_all (slices_ok (pods @ [p])) (add_pod p ?ss)"
    using * by (intro add_pod_ok)
  moreover have "distinct (map ps_key (add_pod p ?ss))" "set (map ps_key (add_pod p ?ss)) = set (map pod_key (pods @ [p]))"
    using *(1,2) unfolding add_pod_keys by auto
  ultimately show ?case by (simp add: pod_slices_of_def Let_def)
qed (simp add: pod_slices_of_def)

text \<open>A bar fills between none and all of its track, and its colour, its percentage and its
  warning mark come from the same number as its width.\<close>

lemma ratio_bounds: "0 \<le> ratio used total_value \<and> ratio used total_value \<le> 1"
  by (auto simp: ratio_def)

lemma util_bar_consistent:
  "case UtilBar token used total_value unit g p of
     None \<Rightarrow> total_value \<le> 0 \<and> used \<le> 0
   | Some b \<Rightarrow> 0 \<le> ub_width b \<and> ub_width b \<le> 100 \<and> ub_overloaded b = (ub_width b \<ge> 85) \<and>
       ub_color b = (if ub_overloaded b then ct_colorError token else if ub_width b \<ge> 60 then ct_colorWarning token
         else ct_colorSuccess token) \<and> ub_percent b = to_fixed 0 (ub_width b) @ ''%''"
proof -
  define r where "r = ratio used total_value"
  have "0 \<le> r" "r \<le> 1" using ratio_bounds by (simp_all add: r_def)
  then show ?thesis
    unfolding UtilBar_def Let_def r_def[symmetric] utilColor_def usageColor_def usageBand_def by simp
qed

text \<open>A node whose heartbeat is stale counts as degraded, but if its cards last reported well
  the banner stays away.\<close>

lemma stale_node_has_no_banner:
  "list_all vg_health (all_cards nodes) \<Longrightarrow> health_banner nodes = None"
  using unhealthy_eq[of nodes]
  by (cases "unhealthy nodes") (auto simp: health_banner_def list_all_iff filter_empty_conv)

end
