(* ===== verification/OverviewPage.thy ===== *)
theory OverviewPage
  imports VgpuPage QueueTree YamlCreate
begin

text \<open>
  The dashboard of the compute platform: pages/Compute/Volcano/Overview.tsx, which loads
  six lists and the scheduler's configuration, and OverviewCharts.tsx, which derives the
  capacity gauges, the queue hierarchy, the phase bars and the matrices from them.

  Quantities are exact rationals; toMs is the standard's Date parser, collate the collation
  key of localeCompare and load the YAML parser, all parameters.  Jobs are sorted by their
  creation times, which are valid on everything the server lists.
\<close>

section \<open>The bundle\<close>

record SchedulerConfSummary =
  sc_actions :: "string list"
  sc_tiers :: "jval list list"

record HyperNodeRow =
  hr_name :: string
  hr_uid :: string
  hr_created :: string
  hr_tier :: "nat option"
  hr_members :: "(string \<times> string) list"

record BundleData =
  bd_queues :: "QueueRow list"
  bd_jobs :: "JobRow list"
  bd_cronJobs :: "CronJobRow list"
  bd_podGroups :: "PodGroupRow list"
  bd_hyperNodes :: "HyperNodeRow list"
  bd_jobFlows :: "JobFlowRow list"
  bd_scheduler :: "SchedulerConfSummary option"
  bd_truncated :: bool
  bd_clusterAllocatable :: "(string \<times> string) list option"

definition getVolcanoStatus :: "string \<Rightarrow> request" where
  "getVolcanoStatus clusterId = GET (path [''api'', ''v1'', ''clusters'', clusterId, ''volcano'', ''status'']) []"

definition overview_limit :: VolcanoListParams where
  "overview_limit = \<lparr>vp_namespace = [], vp_limit = Some 200, vp_token = []\<rparr>"

definition overview_requests :: "string \<Rightarrow> string \<Rightarrow> request list" where
  "overview_requests clusterId ns =
    [listVolcanoQueues clusterId overview_limit, listVolcanoJobs clusterId ns overview_limit,
     listVolcanoCronJobs clusterId ns overview_limit, listVolcanoPodGroups clusterId ns overview_limit,
     listVolcanoHyperNodes clusterId overview_limit, listVolcanoJobFlows clusterId ns overview_limit]"

text \<open>A settled list request: rejected, or its items, absent for an empty response, and its
  cursor.\<close>

type_synonym 'a list_result = "('a list option \<times> string) option"

definition result_items :: "'a list_result \<Rightarrow> 'a list" where
  "result_items r = (case r of Some (Some xs, _) \<Rightarrow> xs | _ \<Rightarrow> [])"

definition result_more :: "'a list_result \<Rightarrow> bool" where
  "result_more r = (case r of None \<Rightarrow> False | Some (_, c) \<Rightarrow> c \<noteq> [])"

definition scheduler_request :: "string \<Rightarrow> string \<Rightarrow> request option" where
  "scheduler_request clusterId ns =
    (if ns = [] then None else Some (getWorkload clusterId ''configmaps'' ''volcano-scheduler-configmap'' ns None))"

text \<open>The names of a tier's plugins; None where the code throws.\<close>

definition plugin_names :: "json \<Rightarrow> jval list option" where
  "plugin_names t =
    (case coalesce (jget ''plugins'' t) (Some (JArr [])) of
       Some (JArr ps) \<Rightarrow> Some (filter truthy (map (\<lambda>p. oget ''name'' (Some p)) ps))
     | _ \<Rightarrow> None)"

definition summarize_conf :: "jval \<Rightarrow> SchedulerConfSummary option" where
  "summarize_conf parsed =
    (case coalesce (oget ''actions'' parsed) (Some (JStr [])) of
       Some (JStr a) \<Rightarrow>
         (case coalesce (oget ''tiers'' parsed) (Some (JArr [])) of
            Some (JArr ts) \<Rightarrow> (case those (map plugin_names ts) of
                None \<Rightarrow> None
              | Some tiers \<Rightarrow> Some \<lparr>sc_actions = filter (\<lambda>s. s \<noteq> []) (map trim (split_on (\<lambda>c. c = CHR '','') a)), sc_tiers = tiers\<rparr>)
          | _ \<Rightarrow> None)
     | _ \<Rightarrow> None)"

definition scheduler_summary :: "(string \<Rightarrow> jval option) \<Rightarrow> jval \<Rightarrow> SchedulerConfSummary option" where
  "scheduler_summary load cm =
    (case coalesce (opath [''data'', ''volcano-scheduler.conf''] cm)
        (coalesce (opath [''data'', ''volcano-scheduler.yaml''] cm) (Some (JStr []))) of
       Some (JStr raw) \<Rightarrow> if trim raw = [] then None else Option.bind (load raw) summarize_conf
     | _ \<Rightarrow> None)"

text \<open>The whole load; None is the error that is shown as not installed.\<close>

definition load_overview ::
  "(string \<Rightarrow> jval option) \<Rightarrow> bool \<Rightarrow> QueueRow list_result \<Rightarrow> (string \<times> string) list option \<Rightarrow> JobRow list_result \<Rightarrow>
   CronJobRow list_result \<Rightarrow> PodGroupRow list_result \<Rightarrow> HyperNodeRow list_result \<Rightarrow> JobFlowRow list_result \<Rightarrow>
   jval option \<Rightarrow> BundleData option" where
  "load_overview load installed queues allocatable jobs crons groups hypers flows cm =
    (if \<not> installed then None
     else Some
      \<lparr>bd_queues = result_items queues, bd_jobs = result_items jobs, bd_cronJobs = result_items crons,
       bd_podGroups = result_items groups, bd_hyperNodes = result_items hypers, bd_jobFlows = result_items flows,
       bd_scheduler = (case cm of None \<Rightarrow> None | Some x \<Rightarrow> scheduler_summary load x),
       bd_truncated = (result_more queues \<or> result_more jobs \<or> result_more crons \<or> result_more groups \<or> result_more hypers \<or> result_more flows),
       bd_clusterAllocatable = (if queues = None then None else allocatable)\<rparr>)"

section \<open>The tiles\<close>

datatype overview_tone = ToneOk | ToneWarn | ToneError

type_synonym overview_kpi = "string \<times> string \<times> string option \<times> overview_tone option"

definition isFailureState :: "string \<Rightarrow> bool" where
  "isFailureState s \<longleftrightarrow> s = ''Failed'' \<or> s = ''Terminated'' \<or> s = ''Aborted''"

definition formatDuration :: "int \<Rightarrow> string" where
  "formatDuration ms = age_label (max 0 (ms div 1000))"

definition waiting_ms :: "(string \<Rightarrow> int option) \<Rightarrow> int \<Rightarrow> PodGroupRow list \<Rightarrow> int list" where
  "waiting_ms toMs now pgs = map (\<lambda>t. now - t) (List.map_filter (\<lambda>pg. toMs (pg_created pg))
     (filter (\<lambda>pg. pg_phase pg = ''Pending'' \<or> pg_phase pg = ''Inqueue'') pgs))"

definition empty_kpis :: "overview_kpi list" where
  "empty_kpis = map (\<lambda>k. (k, if k = ''wait.max'' then ''-'' else ''0'', None, None))
    [''queues'', ''jobs'', ''pods.running'', ''pods.pending'', ''jobs.failed'', ''cronjobs'', ''hypernodes'', ''wait.max'']"

definition susp_suffix :: "nat \<Rightarrow> string" where
  "susp_suffix n = drop 1 dot_sep @ show_nat n @ '' susp''"

definition pending_pods :: "JobRow list \<Rightarrow> nat" where
  "pending_pods jobs = sum_list (map jr_pending jobs)"

definition failed_jobs :: "JobRow list \<Rightarrow> JobRow list" where
  "failed_jobs jobs = filter (\<lambda>j. isFailureState (jr_state j)) jobs"

definition buildKpis :: "(string \<Rightarrow> int option) \<Rightarrow> int \<Rightarrow> BundleData option \<Rightarrow> overview_kpi list" where
  "buildKpis toMs now bundle =
    (case bundle of None \<Rightarrow> empty_kpis
     | Some d \<Rightarrow>
        (let pending = pending_pods (bd_jobs d); failed = length (failed_jobs (bd_jobs d));
             suspended = length (filter cj_suspend (bd_cronJobs d)); crons = length (bd_cronJobs d);
             waiting = waiting_ms toMs now (bd_podGroups d);
             maxWait = (if waiting = [] then 0 else Max (set waiting))
         in [(''queues'', show_nat (length (bd_queues d)), None, None),
             (''jobs'', show_nat (length (bd_jobs d)), None, None),
             (''pods.running'', show_nat (sum_list (map jr_running (bd_jobs d))), None, Some ToneOk),
             (''pods.pending'', show_nat pending, None, if pending > 0 then Some ToneWarn else None),
             (''jobs.failed'', show_nat failed, None, if failed > 0 then Some ToneError else None),
             (''cronjobs'', show_nat (crons - suspended), if suspended > 0 then Some (susp_suffix suspended) else None,
              if suspended > 0 then Some ToneWarn else None),
             (''hypernodes'', show_nat (length (bd_hyperNodes d)), None, None),
             (''wait.max'', if waiting = [] then ''-'' else formatDuration maxWait, None,
              if maxWait > 10 * 60 * 1000 then Some ToneError else if maxWait > 60 * 1000 then Some ToneWarn else None)]))"

section \<open>The job lists\<close>

definition created_ms :: "(string \<Rightarrow> int option) \<Rightarrow> JobRow \<Rightarrow> int" where
  "created_ms toMs j = (case toMs (jr_created j) of None \<Rightarrow> 0 | Some t \<Rightarrow> t)"

definition newest :: "(string \<Rightarrow> int option) \<Rightarrow> nat \<Rightarrow> JobRow list \<Rightarrow> JobRow list" where
  "newest toMs n jobs = take n (sort_key (\<lambda>j. - created_ms toMs j) jobs)"

definition topFailedJobs :: "(string \<Rightarrow> int option) \<Rightarrow> BundleData option \<Rightarrow> nat \<Rightarrow> JobRow list" where
  "topFailedJobs toMs bundle n = (case bundle of None \<Rightarrow> [] | Some d \<Rightarrow> newest toMs n (failed_jobs (bd_jobs d)))"

definition topRecentJobs :: "(string \<Rightarrow> int option) \<Rightarrow> BundleData option \<Rightarrow> nat \<Rightarrow> JobRow list" where
  "topRecentJobs toMs bundle n = (case bundle of None \<Rightarrow> [] | Some d \<Rightarrow> newest toMs n (bd_jobs d))"

definition STATE_COLORS :: "(string \<times> string) list" where
  "STATE_COLORS = [(''Running'', ''green''), (''Completed'', ''blue''), (''Pending'', ''gold''), (''Failed'', ''red''),
     (''Terminated'', ''red''), (''Aborted'', ''red''), (''Restarting'', ''orange''), (''Terminating'', ''orange''), (''Aborting'', ''orange'')]"

text \<open>A line: age, state tag with the link of a click, name, and namespace with the queue.\<close>

definition job_line :: "(string \<Rightarrow> int option) \<Rightarrow> int \<Rightarrow> string \<Rightarrow> JobRow \<Rightarrow> string \<times> tag \<times> string \<times> string \<times> string" where
  "job_line toMs now clusterId j =
    (formatAge toMs now (Some (jr_created j)) [],
     (if jr_state j = [] then ''Unknown'' else jr_state j, case map_of STATE_COLORS (jr_state j) of None \<Rightarrow> ''default'' | Some c \<Rightarrow> c),
     path [''compute'', clusterId, ''jobs''] @ ''?state='' @ encodeURIComponent (jr_state j), jr_name j,
     jr_namespace j @ (case jr_queue j of None \<Rightarrow> [] | Some q \<Rightarrow> if q = [] then [] else dot_sep @ q))"

definition SchedulerSummaryCard :: "SchedulerConfSummary \<Rightarrow> string list \<times> (nat \<times> jval list) list" where
  "SchedulerSummaryCard s =
    (if sc_actions s = [] then [''-''] else sc_actions s,
     map (\<lambda>(i, tier). (Suc i, if tier = [] then [Some (JStr ''-'')] else tier)) (enumerate 0 (sc_tiers s)))"

section \<open>Capacity\<close>

definition res_of :: "(string \<times> string) list option \<Rightarrow> string \<Rightarrow> string option" where
  "res_of m k = (case m of None \<Rightarrow> None | Some kvs \<Rightarrow> map_of kvs k)"

definition declares :: "(string \<times> string) list option \<Rightarrow> string \<Rightarrow> bool" where
  "declares m k = (case res_of m k of None \<Rightarrow> False | Some s \<Rightarrow> s \<noteq> [])"

definition hasVgpuMemory :: "(string \<times> string) list option \<Rightarrow> QueueRow list \<Rightarrow> bool" where
  "hasVgpuMemory cap queues \<longleftrightarrow>
    list_ex (\<lambda>q. declares (qu_capability q) ''volcano.sh/vgpu-memory'' \<or> declares (qu_allocated q) ''volcano.sh/vgpu-memory'') queues \<or>
    declares cap ''volcano.sh/vgpu-memory''"

definition pick_cap :: "(string \<times> string) list option \<Rightarrow> QueueRow \<Rightarrow> string \<Rightarrow> rat" where
  "pick_cap cap q key = (let v = parseQuantity (res_of (qu_capability q) key) in if v > 0 then v else parseQuantity (res_of cap key))"

definition allocated_of :: "QueueRow \<Rightarrow> string \<Rightarrow> rat" where
  "allocated_of q key = parseQuantity (res_of (qu_allocated q) key)"

text \<open>Allocated and total GPUs of a queue, in GiB or in cards.\<close>

definition gpu_pair :: "bool \<Rightarrow> (string \<times> string) list option \<Rightarrow> QueueRow \<Rightarrow> rat \<times> rat" where
  "gpu_pair mem cap q =
    (if mem then (allocated_of q ''volcano.sh/vgpu-memory'' / 1024, pick_cap cap q ''volcano.sh/vgpu-memory'' / 1024)
     else (allocated_of q ''volcano.sh/vgpu-number'' + allocated_of q ''nvidia.com/gpu'',
           pick_cap cap q ''volcano.sh/vgpu-number'' + pick_cap cap q ''nvidia.com/gpu''))"

definition gpu_keys :: "string list" where
  "gpu_keys = [''volcano.sh/vgpu-number'', ''volcano.sh/vgpu-memory'', ''nvidia.com/gpu'']"

definition gib :: rat where
  "gib = 1024 ^ 3"

record ClusterCapacity =
  cc_cpu :: "rat \<times> rat"
  cc_memory :: "rat \<times> rat"
  cc_gpu :: "rat \<times> rat"
  cc_gpuUnit :: string
  cc_hasGpu :: bool

definition counted_queues :: "QueueRow list \<Rightarrow> QueueRow list" where
  "counted_queues queues = filter (\<lambda>q. \<not> (parent_key q \<noteq> [] \<and> parent_key q \<in> qu_name ` set queues)) queues"

definition clusterCapacity :: "BundleData \<Rightarrow> ClusterCapacity" where
  "clusterCapacity d =
    (let cap = bd_clusterAllocatable d; mem = hasVgpuMemory cap (bd_queues d); qs = counted_queues (bd_queues d)
     in \<lparr>cc_cpu = (sum_list (map (\<lambda>q. allocated_of q ''cpu'') qs), sum_list (map (\<lambda>q. pick_cap cap q ''cpu'') qs)),
         cc_memory = (sum_list (map (\<lambda>q. allocated_of q ''memory'') qs) / gib, sum_list (map (\<lambda>q. pick_cap cap q ''memory'') qs) / gib),
         cc_gpu = (sum_list (map (fst \<circ> gpu_pair mem cap) qs), sum_list (map (snd \<circ> gpu_pair mem cap) qs)),
         cc_gpuUnit = (if mem then ''GiB'' else ''count''),
         cc_hasGpu = list_ex (\<lambda>q. list_ex (\<lambda>k. declares (qu_capability q) k \<or> declares (qu_allocated q) k \<or> declares cap k) gpu_keys) qs\<rparr>)"

definition formatNum :: "rat \<Rightarrow> string" where
  "formatNum n = (if n = 0 then ''0'' else if n < 1 then to_fixed 2 n else if n < 100 then to_fixed 1 n
     else show_int \<lfloor>n + 1 / 2\<rfloor>)"

record capacity_row =
  ca_label :: string
  ca_fill :: "rat option"
  ca_text :: string
  ca_percent :: "string option"
  ca_color :: string
  ca_overloaded :: bool

definition CapacityRow :: "color_token \<Rightarrow> string \<Rightarrow> rat \<times> rat \<Rightarrow> string \<Rightarrow> capacity_row" where
  "CapacityRow token label pr unit =
    (let (allocated, t) = pr; unbounded = (t \<le> 0); pct = (if unbounded then 0 else min (allocated / t) 1);
         unit_text = (if unit = [] then [] else '' '' @ unit)
     in \<lparr>ca_label = label, ca_fill = (if unbounded then None else Some (pct * 100)),
         ca_text = formatNum allocated @ '' / '' @ (if unbounded then infinity_sign else formatNum t) @ unit_text,
         ca_percent = (if unbounded then None else Some (to_fixed 1 (pct * 100) @ ''%'')),
         ca_color = usageColor (Some pct) token, ca_overloaded = (\<not> unbounded \<and> pct \<ge> 85 / 100)\<rparr>)"

definition ClusterCapacityCard :: "color_token \<Rightarrow> ClusterCapacity \<Rightarrow> capacity_row list" where
  "ClusterCapacityCard token c =
    [CapacityRow token ''pages.compute.overview.gauge.cpu'' (cc_cpu c) ''cores'',
     CapacityRow token ''pages.compute.overview.gauge.memory'' (cc_memory c) ''GiB''] @
    (if cc_hasGpu c then [CapacityRow token ''pages.compute.overview.gauge.gpu'' (cc_gpu c) (if cc_gpuUnit c = ''GiB'' then ''GiB'' else [])] else [])"

section \<open>Phases\<close>

definition PHASE_COLORS :: "(string \<times> string) list" where
  "PHASE_COLORS =
    [(''Running'', ''#52c41a''), (''Succeed'', ''#52c41a''), (''Completed'', ''#1677ff''), (''Completing'', ''#1677ff''),
     (''Pending'', ''#faad14''), (''Inqueue'', ''#13c2c2''), (''Failed'', ''#ff4d4f''), (''Terminated'', ''#ff4d4f''),
     (''Aborted'', ''#ff4d4f''), (''Restarting'', ''#fa8c16''), (''Terminating'', ''#fa8c16''), (''Aborting'', ''#fa8c16''),
     (''Unknown'', ''#bfbfbf'')]"

definition phaseColor :: "string \<Rightarrow> string" where
  "phaseColor phase = (case map_of PHASE_COLORS phase of None \<Rightarrow> ''#bfbfbf'' | Some c \<Rightarrow> c)"

definition PHASE_ORDER :: "string list" where
  "PHASE_ORDER = [''Pending'', ''Inqueue'', ''Restarting'', ''Running'', ''Completing'', ''Completed'', ''Succeed'',
     ''Terminating'', ''Terminated'', ''Aborting'', ''Aborted'', ''Failed'', ''Unknown'']"

fun position_in :: "'a \<Rightarrow> 'a list \<Rightarrow> nat option" where
  "position_in x [] = None"
| "position_in x (y # ys) = (if x = y then Some 0 else map_option Suc (position_in x ys))"

definition phaseOrder :: "string \<Rightarrow> nat" where
  "phaseOrder p = (case position_in p PHASE_ORDER of None \<Rightarrow> 99 | Some i \<Rightarrow> i)"

text \<open>An empty phase counts as Unknown.\<close>

definition known_phase :: "string \<Rightarrow> string" where
  "known_phase s = (if s = [] then ''Unknown'' else s)"

definition phase_tally :: "string list \<Rightarrow> (string \<times> nat) list" where
  "phase_tally ps = sort_key (\<lambda>(p, _). phaseOrder p) (tally ps)"

definition PhaseDistributionCard :: "BundleData \<Rightarrow> (string \<times> (string \<times> nat) list) list option" where
  "PhaseDistributionCard d =
    (let jobs = phase_tally (map (known_phase \<circ> jr_state) (bd_jobs d));
         pgs = phase_tally (map (known_phase \<circ> pg_phase) (bd_podGroups d));
         flows = phase_tally (map (known_phase \<circ> jf_phase) (bd_jobFlows d));
         has = (bd_jobFlows d \<noteq> [])
     in if jobs = [] \<and> pgs = [] \<and> \<not> has then None
        else Some ([(''pages.compute.overview.phases.kind.job'', jobs), (''pages.compute.overview.phases.kind.podgroup'', pgs)] @
          (if has then [(''pages.compute.overview.phases.kind.jobflow'', flows)] else [])))"

text \<open>The segments with weight, colour and the count where it fits, and the total.\<close>

definition StackedPhaseBar :: "(string \<times> nat) list \<Rightarrow> (nat \<times> string \<times> nat option) list \<times> nat" where
  "StackedPhaseBar rows =
    (let t = sum_list (map snd rows)
     in (if t = 0 then [] else map (\<lambda>(p, n). (n, phaseColor p,
           if of_nat n / of_nat t \<ge> (6 / 100 :: rat) then Some n else None)) rows, t))"

definition phase_legend :: "(string \<times> nat) list \<Rightarrow> (string \<times> string) list" where
  "phase_legend rows = map (\<lambda>(p, n). (p @ '' ('' @ show_nat n @ '')'', phaseColor p)) rows"

section \<open>Jobs by queue\<close>

fun bump_in :: "string \<Rightarrow> string \<Rightarrow> (string \<times> (string \<times> nat) list) list \<Rightarrow> (string \<times> (string \<times> nat) list) list" where
  "bump_in q st [] = [(q, [(st, 1)])]"
| "bump_in q st ((q', sub) # m) = (if q = q' then (q', bump st sub) # m else (q', sub) # bump_in q st m)"

definition job_matrix :: "JobRow list \<Rightarrow> (string \<times> string \<times> nat) list" where
  "job_matrix jobs = concat (map (\<lambda>(q, sub). map (\<lambda>(st, n). (q, st, n)) sub)
     (fold (\<lambda>j. bump_in (queue_cell (jr_queue j)) (known_phase (jr_state j))) jobs []))"

fun add_count :: "string \<Rightarrow> nat \<Rightarrow> (string \<times> nat) list \<Rightarrow> (string \<times> nat) list" where
  "add_count k n [] = [(k, n)]"
| "add_count k n ((k', m) # ms) = (if k = k' then (k', m + n) # ms else (k', m) # add_count k n ms)"

definition pending_sums :: "JobRow list \<Rightarrow> (string \<times> nat) list" where
  "pending_sums jobs = fold (\<lambda>j. add_count (queue_cell (jr_queue j)) (jr_pending j)) (filter (\<lambda>j. jr_pending j > 0) jobs) []"

definition pending_by_queue :: "JobRow list \<Rightarrow> (string \<times> nat) list" where
  "pending_by_queue jobs = take 10 (sort_key (\<lambda>(_, n). - int n) (pending_sums jobs))"

definition pending_bars :: "(string \<times> nat) list \<Rightarrow> (string \<times> rat \<times> nat) list" where
  "pending_bars rows = (let m = fold (\<lambda>(_, n). max n) rows 0
     in map (\<lambda>(q, n). (q, if m > 0 then of_nat n / of_nat m * 100 else 0, n)) rows)"

section \<open>The queue hierarchy\<close>

record QueueNodeBuild =
  qn_name :: string
  qn_parent :: "string option"
  qn_state :: string
  qn_cpu :: "rat \<times> rat"
  qn_mem :: "rat \<times> rat"
  qn_gpu :: "rat \<times> rat"
  qn_gpuUnit :: string

definition build_node :: "bool \<Rightarrow> (string \<times> string) list option \<Rightarrow> QueueRow \<Rightarrow> QueueNodeBuild" where
  "build_node mem cap q =
    \<lparr>qn_name = qu_name q, qn_parent = (if parent_key q = [] then None else Some (parent_key q)), qn_state = qu_state q,
     qn_cpu = (allocated_of q ''cpu'', pick_cap cap q ''cpu''),
     qn_mem = (allocated_of q ''memory'' / gib, pick_cap cap q ''memory'' / gib),
     qn_gpu = gpu_pair mem cap q, qn_gpuUnit = (if mem then ''GiB'' else ''count'')\<rparr>"

definition nodes_by_name :: "bool \<Rightarrow> (string \<times> string) list option \<Rightarrow> QueueRow list \<Rightarrow> (string \<times> QueueNodeBuild) list" where
  "nodes_by_name mem cap queues = fold (\<lambda>q. AList.update (qu_name q) (build_node mem cap q)) queues []"

definition is_nested :: "(string \<times> QueueNodeBuild) list \<Rightarrow> QueueNodeBuild \<Rightarrow> bool" where
  "is_nested m n = (case qn_parent n of None \<Rightarrow> False | Some p \<Rightarrow> map_of m p \<noteq> None)"

definition root_nodes :: "(string \<times> QueueNodeBuild) list \<Rightarrow> QueueNodeBuild list" where
  "root_nodes m = filter (\<lambda>n. \<not> is_nested m n) (map snd m)"

definition child_nodes :: "(string \<times> QueueNodeBuild) list \<Rightarrow> string \<Rightarrow> QueueNodeBuild list" where
  "child_nodes m p = filter (\<lambda>n. qn_parent n = Some p) (map snd m)"

text \<open>toNode on the nodes of one level, as the rows of the tree with their depth; None is a
  recursion without end.\<close>

partial_function (option) to_nodes ::
  "(string \<times> QueueNodeBuild) list \<Rightarrow> nat \<Rightarrow> QueueNodeBuild list \<Rightarrow> (nat \<times> QueueNodeBuild) list option"
where
  "to_nodes m d ns =
    (case ns of
       [] \<Rightarrow> Some []
     | n # rest \<Rightarrow>
         Option.bind (to_nodes m (Suc d) (child_nodes m (qn_name n))) (\<lambda>a.
         Option.bind (to_nodes m d rest) (\<lambda>b. Some ((d, n) # a @ b))))"

definition QueueHierarchyCard :: "BundleData \<Rightarrow> (nat \<times> QueueNodeBuild) list option \<times> bool" where
  "QueueHierarchyCard d =
    (let cap = bd_clusterAllocatable d; m = nodes_by_name (hasVgpuMemory cap (bd_queues d)) cap (bd_queues d)
     in (to_nodes m 0 (root_nodes m), list_ex (\<lambda>n. is_nested m n) (map snd m)))"

text \<open>One chip of a row; None while there is nothing to say.\<close>

definition ResourceChip :: "string \<Rightarrow> rat \<times> rat \<Rightarrow> string \<Rightarrow> (string \<times> string) option" where
  "ResourceChip name pr unit =
    (let (allocated, t) = pr; unbounded = (t \<le> 0); r = (if unbounded then 0 else min (allocated / t) 1)
     in if t \<le> 0 \<and> allocated \<le> 0 then None
        else Some (name @ '' '' @ formatNum allocated @ ''/'' @ (if unbounded then infinity_sign else formatNum t) @ unit @
             (if unbounded then [] else dot_sep @ to_fixed 0 (r * 100) @ ''%''),
           if r \<ge> 85 / 100 then ''error'' else if r \<ge> 6 / 10 then ''warning'' else ''tertiary''))"

definition QueueTreeLabel :: "QueueNodeBuild \<Rightarrow> string \<times> tag option \<times> (string \<times> string) option list" where
  "QueueTreeLabel n =
    (qn_name n, if qn_state n = [] then None else Some (qn_state n, if qn_state n = ''Open'' then ''green'' else ''default''),
     [ResourceChip ''cpu'' (qn_cpu n) [], ResourceChip ''mem'' (qn_mem n) ''Gi'',
      ResourceChip ''gpu'' (qn_gpu n) (if qn_gpuUnit n = ''GiB'' then ''Gi'' else [])])"

section \<open>HyperNodes and what is not in use\<close>

definition tier_rows :: "(string \<Rightarrow> 'k::linorder) \<Rightarrow> HyperNodeRow list \<Rightarrow> (string \<times> nat) list" where
  "tier_rows collate hs = sort_key (\<lambda>(t, _). collate t)
     (map (\<lambda>(t, n). (''tier '' @ t, n)) (tally (map (\<lambda>h. show_nat (case hr_tier h of None \<Rightarrow> 0 | Some t \<Rightarrow> t)) hs)))"

definition unused_resources :: "BundleData \<Rightarrow> string list" where
  "unused_resources d = (if bd_jobFlows d = [] then [''jobflows''] else []) @ (if bd_hyperNodes d = [] then [''hypernodes''] else [])"

section \<open>Counts add up\<close>

lemma sum_bump_in: "sum_list (map (\<lambda>(_, sub). sum_list (map snd sub)) (bump_in q st m)) =
  Suc (sum_list (map (\<lambda>(_, sub). sum_list (map snd sub)) m))"
  by (induction q st m rule: bump_in.induct) (auto simp: sum_bump)

text \<open>The columns of a queue are the tally of its own states.\<close>

definition states_of :: "(string \<times> string) list \<Rightarrow> string \<Rightarrow> string list" where
  "states_of ps q = map snd (filter (\<lambda>p. fst p = q) ps)"

lemma bump_in_map:
  "distinct ks \<Longrightarrow> (\<And>k. k \<in> set ks \<Longrightarrow> k \<noteq> q \<Longrightarrow> g' k = g k) \<Longrightarrow> (q \<in> set ks \<Longrightarrow> g' q = bump st (g q)) \<Longrightarrow>
   (q \<notin> set ks \<Longrightarrow> g' q = [(st, 1)]) \<Longrightarrow>
   bump_in q st (map (\<lambda>k. (k, g k)) ks) = map (\<lambda>k. (k, g' k)) (if q \<in> set ks then ks else ks @ [q])"
proof (induction ks)
  case (Cons k ks)
  show ?case
  proof (cases "k = q")
    case True
    then have "map (\<lambda>k. (k, g k)) ks = map (\<lambda>k. (k, g' k)) ks" using Cons.prems(1) True by (auto intro!: Cons.prems(2)[symmetric])
    then show ?thesis using True Cons.prems(3) by simp
  qed (use Cons in auto)
qed simp

lemma nub_snoc: "nub (xs @ [x]) = (if x \<in> set xs then nub xs else nub xs @ [x])"
  by (induction xs) auto

lemma states_of_snoc: "states_of (ps @ [(q, st)]) k = (if k = q then states_of ps k @ [st] else states_of ps k)"
  by (simp add: states_of_def)

lemma states_of_none: "q \<notin> fst ` set ps \<Longrightarrow> states_of ps q = []"
  by (auto simp: states_of_def filter_empty_conv)

lemma fold_bump_in: "fold (\<lambda>(q, st). bump_in q st) ps [] = map (\<lambda>q. (q, fold bump (states_of ps q) [])) (nub (map fst ps))"
proof (induction ps rule: rev_induct)
  case (snoc p ps)
  obtain q st where p: "p = (q, st)" by force
  have "bump_in q st (map (\<lambda>k. (k, fold bump (states_of ps k) [])) (nub (map fst ps))) =
      map (\<lambda>k. (k, fold bump (states_of (ps @ [p]) k) [])) (if q \<in> set (nub (map fst ps)) then nub (map fst ps) else nub (map fst ps) @ [q])"
    by (rule bump_in_map) (simp_all add: p states_of_snoc states_of_none)
  then show ?case using snoc by (simp add: p nub_snoc)
qed simp

definition job_pairs :: "JobRow list \<Rightarrow> (string \<times> string) list" where
  "job_pairs jobs = map (\<lambda>j. (queue_cell (jr_queue j), known_phase (jr_state j))) jobs"

lemma matrix_fold: "fold (\<lambda>j. bump_in (queue_cell (jr_queue j)) (known_phase (jr_state j))) jobs m =
  fold (\<lambda>(q, st). bump_in q st) (job_pairs jobs) m"
  by (induction jobs arbitrary: m) (simp_all add: job_pairs_def)

lemma matrix_total: "sum_list (map (\<lambda>(_, sub). sum_list (map snd sub)) (fold (\<lambda>(q, st). bump_in q st) ps [])) = length ps"
  by (induction ps rule: rev_induct) (auto simp: sum_bump_in)

lemma sum_concat_cells:
  "sum_list (map (snd \<circ> snd) (concat (map (\<lambda>(q, sub). map (\<lambda>(st, n). (q, st, n)) sub) m))) =
   sum_list (map (\<lambda>(_, sub). sum_list (map snd sub)) m)" for m :: "(string \<times> (string \<times> nat) list) list"
proof (induction m)
  case (Cons x m)
  obtain q sub where x: "x = (q, sub)" by force
  have "(\<Sum>a\<leftarrow>map (Pair q) sub. snd (snd a)) = sum_list (map snd sub)" by (induction sub) auto
  then show ?case using Cons x by simp
qed simp

lemma count_pairs: "count_list (states_of ps q) st = count_list ps (q, st)"
  by (induction ps) (auto simp: states_of_def)

lemma job_matrix_cell:
  assumes "(q, st, n) \<in> set (job_matrix jobs)"
  shows "n = count_list (job_pairs jobs) (q, st) \<and> 0 < n"
proof -
  have "(st, n) \<in> set (fold bump (states_of (job_pairs jobs) q) [])"
    using assms by (auto simp: job_matrix_def matrix_fold fold_bump_in)
  then have "n = count_list (states_of (job_pairs jobs) q) st" "st \<in> set (states_of (job_pairs jobs) q)"
    using fold_bump[of "states_of (job_pairs jobs) q"] by (auto simp: image_iff) force+
  then show ?thesis by (simp add: count_pairs[symmetric]) (metis count_list_0_iff neq0_conv)
qed

lemma job_matrix_total: "sum_list (map (snd \<circ> snd) (job_matrix jobs)) = length jobs"
proof -
  have "sum_list (map (snd \<circ> snd) (job_matrix jobs)) = length (job_pairs jobs)"
    unfolding job_matrix_def sum_concat_cells matrix_fold by (rule matrix_total)
  then show ?thesis by (simp add: job_pairs_def)
qed

lemma phase_tally_total: "sum_list (map snd (phase_tally ps)) = length ps"
proof -
  have "mset (map snd (phase_tally ps)) = mset (map snd (tally ps))" by (simp add: phase_tally_def)
  then have "sum_list (map snd (phase_tally ps)) = sum_list (map snd (tally ps))" by (metis sum_mset_sum_list)
  then show ?thesis using fold_bump[of ps] by (simp add: tally_def)
qed

lemma sum_add_count: "sum_list (map snd (add_count k n m)) = n + sum_list (map snd m)"
  by (induction k n m rule: add_count.induct) auto

lemma map_of_add_count: "map_of (add_count k n m) q =
  (if q = k then Some (n + (case map_of m k of None \<Rightarrow> 0 | Some x \<Rightarrow> x)) else map_of m q)"
  by (induction k n m rule: add_count.induct) auto

lemma distinct_add_count: "distinct (map fst m) \<Longrightarrow> distinct (map fst (add_count k n m))"
  by (induction k n m rule: add_count.induct) (auto simp: map_of_add_count fst_eq_Domain Domain.simps dest: weak_map_of_SomeI)

lemma pending_total: "sum_list (map snd (fold (\<lambda>j. add_count (queue_cell (jr_queue j)) (jr_pending j)) js m)) =
  sum_list (map snd m) + sum_list (map jr_pending js)"
  by (induction js arbitrary: m) (simp_all add: sum_add_count)

lemma sum_positive: "sum_list (map f (filter (\<lambda>x. 0 < f x) xs)) = sum_list (map f xs)" for f :: "'a \<Rightarrow> nat"
  by (induction xs) auto

lemma pending_sums_total: "sum_list (map snd (pending_sums jobs)) = pending_pods jobs"
  by (simp add: pending_sums_def pending_total sum_positive pending_pods_def)

text \<open>The counts of the dashboard agree: the cells of the job matrix are the numbers of jobs
  of their queue and state and add up to the job list, the phases of the distribution bar add
  up to it too, and the pending pods per queue add up to the tile of pending pods.\<close>

theorem overview_counts_add_up:
  "sum_list (map (snd \<circ> snd) (job_matrix jobs)) = length jobs \<and>
   list_all (\<lambda>(q, st, n). n = count_list (job_pairs jobs) (q, st) \<and> 0 < n) (job_matrix jobs) \<and>
   sum_list (map snd (phase_tally (map (known_phase \<circ> jr_state) jobs))) = length jobs \<and>
   sum_list (map snd (pending_sums jobs)) = pending_pods jobs"
  using job_matrix_total[of jobs] phase_tally_total[of "map (known_phase \<circ> jr_state) jobs"] pending_sums_total[of jobs]
    job_matrix_cell[of _ _ _ jobs]
  by (auto simp: list_all_iff)

section \<open>Gauges and hierarchy\<close>

lemma nodes_distinct:
  assumes "distinct (map qu_name queues)"
  shows "nodes_by_name mem cap queues = map (\<lambda>q. (qu_name q, build_node mem cap q)) queues"
proof -
  have "fold (\<lambda>q. AList.update (qu_name q) (build_node mem cap q)) queues m =
      fold (\<lambda>(k, v). AList.update k v) (map (\<lambda>q. (qu_name q, build_node mem cap q)) queues) m" for m
    by (induction queues arbitrary: m) simp_all
  then show ?thesis using assms fold_update_from_empty[of "map (\<lambda>q. (qu_name q, build_node mem cap q)) queues"]
    by (simp add: nodes_by_name_def o_def)
qed

lemma node_known: "distinct (map qu_name queues) \<Longrightarrow>
  (map_of (nodes_by_name mem cap queues) p \<noteq> None) = (p \<in> qu_name ` set queues)"
  by (simp add: nodes_distinct map_of_eq_None_iff image_image)

lemma roots_are_counted:
  assumes "distinct (map qu_name queues)"
  shows "root_nodes (nodes_by_name mem cap queues) = map (build_node mem cap) (counted_queues queues)"
proof -
  have "is_nested (nodes_by_name mem cap queues) (build_node mem cap q) =
      (parent_key q \<noteq> [] \<and> parent_key q \<in> qu_name ` set queues)" for q
    using node_known[OF assms, of mem cap "parent_key q"] by (simp add: is_nested_def build_node_def)
  then show ?thesis by (simp add: root_nodes_def counted_queues_def nodes_distinct[OF assms] filter_map o_def)
qed

lemma sum_div: "sum_list (map (\<lambda>x. f x / c) xs) = sum_list (map f xs) / c" for f :: "'a \<Rightarrow> rat"
  by (induction xs) (simp_all add: add_divide_distrib)

text \<open>The gauges of the cluster are the sums of the hierarchy's roots: with distinct queue
  names, allocated and total of CPU, memory and GPU add up those of the root rows of the
  queue tree beside them.\<close>

theorem gauges_sum_the_roots:
  assumes "distinct (map qu_name (bd_queues d))"
  shows "let c = clusterCapacity d; cap = bd_clusterAllocatable d;
      rs = root_nodes (nodes_by_name (hasVgpuMemory cap (bd_queues d)) cap (bd_queues d));
      both = (\<lambda>f. (sum_list (map (fst \<circ> f) rs), sum_list (map (snd \<circ> f) rs)))
    in cc_cpu c = both qn_cpu \<and> cc_memory c = both qn_mem \<and> cc_gpu c = both qn_gpu"
  unfolding Let_def roots_are_counted[OF assms]
  by (simp add: clusterCapacity_def Let_def o_def build_node_def sum_div)

definition plain_bundle :: "QueueRow list \<Rightarrow> (string \<times> string) list option \<Rightarrow> BundleData" where
  "plain_bundle queues cap = \<lparr>bd_queues = queues, bd_jobs = [], bd_cronJobs = [], bd_podGroups = [], bd_hyperNodes = [],
     bd_jobFlows = [], bd_scheduler = None, bd_truncated = False, bd_clusterAllocatable = cap\<rparr>"

definition demo_bundle :: BundleData where
  "demo_bundle = plain_bundle [sample_queue ''root'' None, sample_queue ''team'' (Some ''root''), sample_queue ''other'' None]
     (Some [(''cpu'', ''10'')])"

lemma gauges_sum_the_roots_witness:
  "let d = demo_bundle; c = clusterCapacity d; cap = bd_clusterAllocatable d;
      rs = root_nodes (nodes_by_name (hasVgpuMemory cap (bd_queues d)) cap (bd_queues d));
      both = (\<lambda>f. (sum_list (map (fst \<circ> f) rs), sum_list (map (snd \<circ> f) rs)))
    in cc_cpu c = both qn_cpu \<and> cc_memory c = both qn_mem \<and> cc_gpu c = both qn_gpu"
  using gauges_sum_the_roots[of demo_bundle] by (simp add: Let_def demo_bundle_def plain_bundle_def sample_queue_def)

text \<open>Two roots without a cap of their own count the CPUs of the cluster twice.\<close>

lemma unbounded_roots_multiply_the_cluster:
  "snd (cc_cpu (clusterCapacity demo_bundle)) = 2 * parseQuantity (res_of (bd_clusterAllocatable demo_bundle) ''cpu'')"
  by (simp add: clusterCapacity_def counted_queues_def pick_cap_def Let_def demo_bundle_def plain_bundle_def sample_queue_def
    parent_key_def res_of_def parseQuantity_def[of None])

text \<open>The walk over nodes of one depth, against the tree of the queues.\<close>

lemma child_nodes_of:
  assumes "proper_names queues" "q \<in> set queues"
  shows "child_nodes (nodes_by_name mem cap queues) (qu_name q) =
    map (build_node mem cap) (filter (\<lambda>k. parent_key k = qu_name q) queues)"
proof -
  have d: "distinct (map qu_name queues)" "qu_name q \<noteq> []"
    using assms proper_names_nonempty by (auto simp: proper_names_def)
  then have "(qn_parent (build_node mem cap k) = Some (qu_name q)) = (parent_key k = qu_name q)" for k
    by (auto simp: build_node_def)
  then show ?thesis by (simp add: child_nodes_def nodes_distinct[OF d(1)] filter_map o_def)
qed

definition lists_nodes :: "QueueRow list \<Rightarrow> nat \<Rightarrow> QueueRow list \<Rightarrow> (nat \<times> QueueRow) list \<Rightarrow> bool" where
  "lists_nodes queues d xs out \<longleftrightarrow> snd ` set out \<subseteq> set queues \<and>
     lists_subtrees queues d xs (map (\<lambda>(e, q). queue_label q e) out)"

lemma to_nodes_lists:
  assumes p: "proper_names queues"
  shows "list_all (at_depth queues d) xs \<Longrightarrow>
    \<exists>out. to_nodes (nodes_by_name mem cap queues) d (map (build_node mem cap) xs) =
        Some (map (\<lambda>(e, q). (e, build_node mem cap q)) out) \<and> lists_nodes queues d xs out"
proof (induction "length queues - d" arbitrary: d xs rule: less_induct)
  case less
  show ?case
    using less.prems
  proof (induction xs)
    case Nil
    have "to_nodes (nodes_by_name mem cap queues) d (map (build_node mem cap) []) = Some []" by (subst to_nodes.simps) simp
    then show ?case by (intro exI[of _ "[]"]) (simp add: lists_nodes_def lists_Nil)
  next
    case (Cons q xs)
    let ?ks = "filter (\<lambda>k. parent_key k = qu_name q) queues"
    have q: "at_depth queues d q" using Cons.prems by simp
    have ks: "set ?ks = {k \<in> set queues. parent_key k = qu_name q}" "distinct ?ks"
      using p by (auto simp: proper_names_def distinct_map)
    have "list_all (at_depth queues (Suc d)) ?ks"
      unfolding list_all_iff ks(1) using kid_depth[OF p q] by blast
    moreover have "length queues - Suc d < length queues - d" using at_depth_bound[OF p q] by simp
    ultimately obtain a where a: "to_nodes (nodes_by_name mem cap queues) (Suc d) (map (build_node mem cap) ?ks) =
        Some (map (\<lambda>(e, q). (e, build_node mem cap q)) a)" "lists_nodes queues (Suc d) ?ks a" using less.hyps by blast
    obtain b where b: "to_nodes (nodes_by_name mem cap queues) d (map (build_node mem cap) xs) =
        Some (map (\<lambda>(e, q). (e, build_node mem cap q)) b)" "lists_nodes queues d xs b"
      using Cons by auto
    have n: "qn_name (build_node mem cap q) = qu_name q" by (simp add: build_node_def)
    have "to_nodes (nodes_by_name mem cap queues) d (map (build_node mem cap) (q # xs)) =
        Some (map (\<lambda>(e, q). (e, build_node mem cap q)) ((d, q) # a @ b))"
      by (subst to_nodes.simps) (simp add: n child_nodes_of[OF p at_depth_in[OF q]] a(1) b(1))
    moreover have "lists_subtrees queues d (q # xs) (queue_label q d # map (\<lambda>(e, q). queue_label q e) a @ map (\<lambda>(e, q). queue_label q e) b)"
      using Cons.prems a(2) b(2) by (intro lists_Cons[OF p q _ ks]) (simp_all add: lists_nodes_def)
    then have "lists_nodes queues d (q # xs) ((d, q) # a @ b)"
      using a(2) b(2) at_depth_in[OF q] by (auto simp: lists_nodes_def)
    ultimately show ?case by blast
  qed
qed

text \<open>The rows of the hierarchy, with their queues.\<close>

definition tree_rows :: "BundleData \<Rightarrow> (nat \<times> QueueRow) list \<Rightarrow> (nat \<times> QueueNodeBuild) list" where
  "tree_rows d out = map (\<lambda>(e, q). (e, build_node (hasVgpuMemory (bd_clusterAllocatable d) (bd_queues d)) (bd_clusterAllocatable d) q)) out"

text \<open>C29. The hierarchy card shows the queue tree: whatever the parents are, its recursion ends,
  and its rows are every queue that descends from a root, once, at its depth, each below its
  parent; queues in or below a cycle of parents are missing from it, as they are from the
  selector of the queue page.\<close>

theorem hierarchy_shows_the_queue_tree:
  assumes "proper_names (bd_queues d)"
  shows "\<exists>out. fst (QueueHierarchyCard d) = Some (tree_rows d out) \<and> set out = {(e, q). at_depth (bd_queues d) e q} \<and>
    distinct (map (qu_name \<circ> snd) out) \<and>
    (let rows = map (\<lambda>(e, q). queue_label q e) out in \<forall>i < length rows. 0 < qo_depth (rows ! i) \<longrightarrow> has_parent (bd_queues d) rows i)"
proof -
  let ?Q = "bd_queues d" and ?rs = "counted_queues (bd_queues d)"
  have dn: "distinct (map qu_name ?Q)" using assms by (simp add: proper_names_def)
  have rs: "set ?rs = {q. at_depth ?Q 0 q}" by (auto simp: counted_queues_def at_depth_0 root_queue_def)
  have "list_all (at_depth ?Q 0) ?rs" unfolding list_all_iff rs by blast
  then obtain out where out: "fst (QueueHierarchyCard d) = Some (tree_rows d out)" "lists_nodes ?Q 0 ?rs out"
    using to_nodes_lists[OF assms, of 0 ?rs] by (auto simp: QueueHierarchyCard_def Let_def roots_are_counted[OF dn] tree_rows_def)
  have q: "snd ` set out \<subseteq> set ?Q" "lists_subtrees ?Q 0 ?rs (map (\<lambda>(e, q). queue_label q e) out)"
    using out(2) by (simp_all add: lists_nodes_def)
  have "set (map (\<lambda>(e, q). queue_label q e) out) =
      {queue_label x e | x e. at_depth ?Q e x \<and> (\<exists>q \<in> {q. at_depth ?Q 0 q}. below ?Q q x)}"
    using q(2) unfolding lists_subtrees_def rs by (rule conjunct1)
  also have "\<dots> = {queue_label x e | x e. at_depth ?Q e x}"
    using at_depth_below_root[of ?Q] by blast
  finally have s: "set (map (\<lambda>(e, q). queue_label q e) out) = {queue_label x e | x e. at_depth ?Q e x}" .
  have same: "x = y \<and> e = f" if "queue_label x e = queue_label y f" "x \<in> set ?Q" "y \<in> set ?Q" for x y e f
    using that proper_name_eq[OF assms] queue_label_simps by metis
  have "set out = {(e, q). at_depth ?Q e q}"
  proof (intro set_eqI iffI)
    fix z assume z: "z \<in> set out"
    obtain e x where zx: "z = (e, x)" by force
    then have "queue_label x e \<in> {queue_label x e | x e. at_depth ?Q e x}" using z s by force
    then show "z \<in> {(e, q). at_depth ?Q e q}" using zx z q(1) same at_depth_in by fastforce
  next
    fix z assume "z \<in> {(e, q). at_depth ?Q e q}"
    then obtain e x where z: "z = (e, x)" "at_depth ?Q e x" by auto
    then have "queue_label x e \<in> set (map (\<lambda>(e, q). queue_label q e) out)" unfolding s by blast
    then show "z \<in> set out" using z same[of x e] at_depth_in[OF z(2)] q(1) by fastforce
  qed
  moreover have "distinct ?rs" using dn by (simp add: counted_queues_def distinct_map)
  then have "distinct (map (qu_name \<circ> snd) out)" "indented ?Q 0 (map (\<lambda>(e, q). queue_label q e) out)"
    using q(2) by (simp_all add: lists_subtrees_def split_beta o_def)
  ultimately show ?thesis using out(1) by (auto simp: indented_def Let_def)
qed

lemma hierarchy_shows_the_queue_tree_witness:
  "let d = plain_bundle [sample_queue ''team'' (Some ''root''), sample_queue ''root'' None, sample_queue ''x'' (Some ''y''),
      sample_queue ''y'' (Some ''x'')] None
   in \<exists>out. fst (QueueHierarchyCard d) = Some (tree_rows d out) \<and> set out = {(e, q). at_depth (bd_queues d) e q} \<and>
    distinct (map (qu_name \<circ> snd) out) \<and>
    (let rows = map (\<lambda>(e, q). queue_label q e) out in \<forall>i < length rows. 0 < qo_depth (rows ! i) \<longrightarrow> has_parent (bd_queues d) rows i)"
  unfolding Let_def
  by (rule hierarchy_shows_the_queue_tree[unfolded Let_def]) (simp add: proper_names_def plain_bundle_def sample_queue_def)

section \<open>The newest jobs\<close>

text \<open>The job lists: sorted newest first, and no job left out is newer than one shown.\<close>

lemma newest_sorted: "sorted_wrt (\<lambda>a b. created_ms toMs b \<le> created_ms toMs a) (newest toMs n jobs)"
proof -
  have "sorted (map (\<lambda>j. - created_ms toMs j) (sort_key (\<lambda>j. - created_ms toMs j) jobs))" by simp
  then have "sorted_wrt (\<lambda>a b. created_ms toMs b \<le> created_ms toMs a) (sort_key (\<lambda>j. - created_ms toMs j) jobs)"
    by (simp add: sorted_map)
  then show ?thesis unfolding newest_def by (rule sorted_wrt_take)
qed

lemma newest_subset: "set (newest toMs n jobs) \<subseteq> set jobs"
  unfolding newest_def by (metis set_sort set_take_subset)

lemma newest_rest:
  assumes "j \<in> set jobs" "j \<notin> set (newest toMs n jobs)" "k \<in> set (newest toMs n jobs)"
  shows "created_ms toMs j \<le> created_ms toMs k"
proof -
  let ?s = "sort_key (\<lambda>j. - created_ms toMs j) jobs"
  have "sorted_wrt (\<lambda>a b. created_ms toMs b \<le> created_ms toMs a) (take n ?s @ drop n ?s)"
    using newest_sorted[of toMs "length ?s" jobs] by (simp add: newest_def)
  then have "\<forall>x \<in> set (take n ?s). \<forall>y \<in> set (drop n ?s). created_ms toMs y \<le> created_ms toMs x"
    unfolding sorted_wrt_append by blast
  moreover have "j \<in> set (drop n ?s)"
    using assms(1,2) set_append[of "take n ?s" "drop n ?s"] by (simp add: newest_def)
  ultimately show ?thesis using assms(3) by (simp add: newest_def)
qed

end
