(* ===== verification/Clusters.thy ===== *)
theory Clusters
  imports Request VolcanoTables
begin

text \<open>
  The clusters page: pages/Clusters/index.tsx with services/kpilot/cluster.ts.  A step is an
  action of the operator or an answer; it gives the next state and the requests it sends.

  useRequest numbers the runs of a request, and only the answer to its latest run is used;
  what it holds after the list request has settled is the datum of ListSettled.  Confirmation
  dialogs stack and close when the promise of their OK button resolves.  date is the locale's
  date format.
\<close>

section \<open>services/kpilot/cluster.ts\<close>

record Cluster =
  cl_id :: string
  cl_name :: string
  cl_status :: string
  cl_description :: string
  cl_created_at :: string
  cl_updated_at :: string

record CreateClusterParams =
  pc_name :: string
  pc_description :: "string option"

definition params_json :: "CreateClusterParams \<Rightarrow> json" where
  "params_json p = JObj ([(''name'', JStr (pc_name p))] @ prop_opt ''description'' (map_option JStr (pc_description p)))"

definition clusters_url :: "string list \<Rightarrow> string" where
  "clusters_url segs = path ([''api'', ''v1'', ''clusters''] @ segs)"

definition listClusters :: request where
  "listClusters = GET (clusters_url []) []"

definition createCluster :: "CreateClusterParams \<Rightarrow> request" where
  "createCluster p = POST (clusters_url []) [] (JsonBody (params_json p))"

definition updateCluster :: "string \<Rightarrow> CreateClusterParams \<Rightarrow> request" where
  "updateCluster cid p = \<lparr>rq_url = clusters_url [cid], rq_method = ''PATCH'', rq_params = [],
     rq_body = JsonBody (params_json p), rq_headers = []\<rparr>"

definition deleteCluster :: "string \<Rightarrow> request" where
  "deleteCluster cid = DELETE (clusters_url [cid]) []"

definition regenerateToken :: "string \<Rightarrow> request" where
  "regenerateToken cid = POST (clusters_url [cid, ''token'']) [] NoBody"

section \<open>What the page shows\<close>

record stat_tile =
  st_title :: string
  st_value :: nat
  st_bubble :: string
  st_text :: string

definition STAT_COLOR_CLASSES :: "(string \<times> string \<times> string) list" where
  "STAT_COLOR_CLASSES =
    [(''blue'', ''bg-blue-50 text-blue-500'', ''bg-blue-900/30 text-blue-400''),
     (''green'', ''bg-green-50 text-green-500'', ''bg-green-900/30 text-green-400''),
     (''gray'', ''bg-gray-100 text-gray-500'', ''bg-gray-800 text-gray-400'')]"

definition StatTile :: "bool \<Rightarrow> string \<Rightarrow> string \<Rightarrow> nat \<Rightarrow> stat_tile" where
  "StatTile isDarkMode color ttl v =
    \<lparr>st_title = ttl, st_value = v,
     st_bubble = (case map_of STAT_COLOR_CLASSES color of None \<Rightarrow> [] | Some (light, dark) \<Rightarrow> if isDarkMode then dark else light),
     st_text = (if isDarkMode then ''text-gray-400'' else ''text-gray-500'')\<rparr>"

definition cluster_stats :: "Cluster list \<Rightarrow> nat \<times> nat \<times> nat" where
  "cluster_stats cs =
    (let t = length cs; online = length (filter (\<lambda>c. cl_status c = ''online'') cs) in (t, online, t - online))"

definition stats_row :: "bool \<Rightarrow> Cluster list \<Rightarrow> stat_tile list" where
  "stats_row dark cs =
    (let (t, online, offline) = cluster_stats cs
     in [StatTile dark ''blue'' ''pages.clusters.stats.total'' t,
         StatTile dark ''green'' ''pages.clusters.stats.online'' online,
         StatTile dark ''gray'' ''pages.clusters.stats.offline'' offline])"

record cluster_card =
  cc_href :: string
  cc_name :: string
  cc_tag :: tag
  cc_description :: string
  cc_created :: string
  cc_updated :: string

definition ClusterCard :: "(string \<Rightarrow> string) \<Rightarrow> Cluster \<Rightarrow> cluster_card" where
  "ClusterCard date c =
    \<lparr>cc_href = path [''clusters'', cl_id c, ''nodes''], cc_name = cl_name c,
     cc_tag = (if cl_status c = ''online'' then (''pages.clusters.status.online'', ''success'')
       else (''pages.clusters.status.offline'', ''default'')),
     cc_description = (if cl_description c = [] then ''pages.clusters.card.noDescription'' else cl_description c),
     cc_created = date (cl_created_at c), cc_updated = date (cl_updated_at c)\<rparr>"

definition card_menu :: "string list" where
  "card_menu = [''edit'', ''token'', ''divider'', ''delete'']"

section \<open>The state\<close>

text \<open>What the list request holds: nothing yet, something that is no array, or the rows.\<close>

datatype cluster_data = NotLoaded | NoArray | Loaded "Cluster list"

datatype dialog_kind = RegenerateOf Cluster | DestroyOf Cluster

type_synonym cluster_form = "string option \<times> string option"

record token_result =
  tk_token :: string
  tk_title :: string
  tk_warning :: string

text \<open>Runs are numbered by one counter; a request's latest run is kept per request.  A dialog
  carries a number and whether its OK button waits for the answer.\<close>

record clusters_page =
  cu_data :: cluster_data
  cu_loading :: bool
  cu_list_run :: nat
  cu_createVisible :: bool
  cu_form :: cluster_form
  cu_creating :: bool
  cu_create_run :: nat
  cu_editing :: "Cluster option"
  cu_editForm :: cluster_form
  cu_saving :: bool
  cu_edit_run :: nat
  cu_regenerate_run :: nat
  cu_tokenResult :: "token_result option"
  cu_deleting :: "Cluster option"
  cu_confirmName :: string
  cu_dialogs :: "(nat \<times> dialog_kind \<times> bool) list"
  cu_counter :: nat
  cu_toasts :: "string list"

definition empty_form :: cluster_form where
  "empty_form = (None, None)"

definition form_params :: "cluster_form \<Rightarrow> CreateClusterParams option" where
  "form_params f =
    (case fst f of None \<Rightarrow> None
     | Some n \<Rightarrow> if n = [] then None else Some \<lparr>pc_name = n, pc_description = snd f\<rparr>)"

definition clusterList :: "clusters_page \<Rightarrow> Cluster list" where
  "clusterList s = (case cu_data s of Loaded cs \<Rightarrow> cs | _ \<Rightarrow> [])"

datatype ClustersView = InitialSpin | EmptyState | CardGrid "cluster_card list"

definition clusters_view :: "(string \<Rightarrow> string) \<Rightarrow> clusters_page \<Rightarrow> ClustersView" where
  "clusters_view date s =
    (if cu_data s = NotLoaded \<and> cu_loading s then InitialSpin
     else if clusterList s = [] then EmptyState
     else CardGrid (map (ClusterCard date) (clusterList s)))"

section \<open>Actions\<close>

datatype clusters_act =
    RefreshList
  | ListSettled nat cluster_data
  | OpenCreateForm
  | TypeCreate cluster_form
  | CancelCreate
  | SubmitCreate
  | CreateSettled nat "string option"
  | OpenEditOf Cluster
  | TypeEdit cluster_form
  | CancelEdit
  | SubmitEdit
  | EditSettled nat bool
  | AskRegenerate Cluster
  | AskDelete Cluster
  | TypeConfirm string
  | CancelDelete
  | ProceedDelete
  | ConfirmDialog nat
  | DismissDialog nat
  | RegenerateSettled nat nat "string option"
  | DeleteSettled nat bool
  | CloseToken

definition tick :: "clusters_page \<Rightarrow> clusters_page" where
  "tick s = s\<lparr>cu_counter := Suc (cu_counter s)\<rparr>"

definition refresh_list :: "clusters_page \<Rightarrow> clusters_page \<times> request list" where
  "refresh_list s = ((tick s)\<lparr>cu_loading := True, cu_list_run := cu_counter s\<rparr>, [listClusters])"

definition create_step :: "clusters_page \<Rightarrow> clusters_page \<times> request list" where
  "create_step s =
    (case form_params (cu_form s) of
       None \<Rightarrow> (s, [])
     | Some p \<Rightarrow> ((tick s)\<lparr>cu_creating := True, cu_create_run := cu_counter s\<rparr>, [createCluster p]))"

definition create_settled :: "nat \<Rightarrow> string option \<Rightarrow> clusters_page \<Rightarrow> clusters_page \<times> request list" where
  "create_settled n r s =
    (if \<not> cu_creating s \<or> n \<noteq> cu_create_run s then (s, [])
     else case r of
         None \<Rightarrow> (s\<lparr>cu_creating := False\<rparr>, [])
       | Some tok \<Rightarrow> refresh_list (s\<lparr>cu_creating := False, cu_createVisible := False, cu_form := empty_form,
           cu_tokenResult := Some \<lparr>tk_token = tok, tk_title = ''pages.clusters.token.title'', tk_warning = ''pages.clusters.token.warning''\<rparr>\<rparr>))"

definition handleEdit :: "Cluster \<Rightarrow> clusters_page \<Rightarrow> clusters_page" where
  "handleEdit c s = s\<lparr>cu_editing := Some c, cu_editForm := (Some (cl_name c), Some (cl_description c))\<rparr>"

definition edit_step :: "clusters_page \<Rightarrow> clusters_page \<times> request list" where
  "edit_step s =
    (case (cu_editing s, form_params (cu_editForm s)) of
       (Some c, Some p) \<Rightarrow> ((tick s)\<lparr>cu_saving := True, cu_edit_run := cu_counter s\<rparr>, [updateCluster (cl_id c) p])
     | _ \<Rightarrow> (s, []))"

definition edit_settled :: "nat \<Rightarrow> bool \<Rightarrow> clusters_page \<Rightarrow> clusters_page \<times> request list" where
  "edit_settled n ok s =
    (if \<not> cu_saving s \<or> n \<noteq> cu_edit_run s then (s, [])
     else if \<not> ok then (s\<lparr>cu_saving := False\<rparr>, [])
     else refresh_list (s\<lparr>cu_saving := False, cu_editing := None, cu_editForm := empty_form,
       cu_toasts := cu_toasts s @ [''pages.clusters.edit.success'']\<rparr>))"

definition open_dialog :: "dialog_kind \<Rightarrow> clusters_page \<Rightarrow> clusters_page" where
  "open_dialog d s = (tick s)\<lparr>cu_dialogs := (cu_counter s, d, False) # cu_dialogs s\<rparr>"

definition close_dialog :: "nat \<Rightarrow> clusters_page \<Rightarrow> clusters_page" where
  "close_dialog n s = s\<lparr>cu_dialogs := AList.delete n (cu_dialogs s)\<rparr>"

definition set_waiting :: "nat \<Rightarrow> dialog_kind \<Rightarrow> bool \<Rightarrow> clusters_page \<Rightarrow> clusters_page" where
  "set_waiting n d w s = s\<lparr>cu_dialogs := AList.update n (d, w) (cu_dialogs s)\<rparr>"

definition handleDelete_cluster :: "Cluster \<Rightarrow> clusters_page \<Rightarrow> clusters_page" where
  "handleDelete_cluster c s = s\<lparr>cu_deleting := Some c, cu_confirmName := []\<rparr>"

definition close_delete :: "clusters_page \<Rightarrow> clusters_page" where
  "close_delete s = s\<lparr>cu_deleting := None, cu_confirmName := []\<rparr>"

text \<open>The button that proceeds is disabled until the name is typed.\<close>

definition may_proceed :: "clusters_page \<Rightarrow> bool" where
  "may_proceed s \<longleftrightarrow> (case cu_deleting s of None \<Rightarrow> False | Some c \<Rightarrow> cu_confirmName s = cl_name c)"

definition handleProceedToFinalConfirm :: "clusters_page \<Rightarrow> clusters_page" where
  "handleProceedToFinalConfirm s =
    (if \<not> may_proceed s then s else open_dialog (DestroyOf (the (cu_deleting s))) s)"

text \<open>OK in a dialog: the request of its kind, for the cluster it was opened with.\<close>

definition confirm_step :: "nat \<Rightarrow> clusters_page \<Rightarrow> clusters_page \<times> request list" where
  "confirm_step n s =
    (case map_of (cu_dialogs s) n of
       Some (RegenerateOf c, False) \<Rightarrow>
         ((tick (set_waiting n (RegenerateOf c) True s))\<lparr>cu_regenerate_run := cu_counter s\<rparr>, [regenerateToken (cl_id c)])
     | Some (DestroyOf c, False) \<Rightarrow> (set_waiting n (DestroyOf c) True s, [deleteCluster (cl_id c)])
     | _ \<Rightarrow> (s, []))"

definition regenerate_settled :: "nat \<Rightarrow> nat \<Rightarrow> string option \<Rightarrow> clusters_page \<Rightarrow> clusters_page" where
  "regenerate_settled n run r s =
    (case map_of (cu_dialogs s) n of
       Some (RegenerateOf c, True) \<Rightarrow>
         if run \<noteq> cu_regenerate_run s then s
         else (case r of
             None \<Rightarrow> set_waiting n (RegenerateOf c) False s
           | Some tok \<Rightarrow> (close_dialog n s)\<lparr>cu_tokenResult := Some \<lparr>tk_token = tok, tk_title = ''pages.clusters.token.regenerateTitle'',
               tk_warning = ''pages.clusters.token.regenerateWarning''\<rparr>\<rparr>)
     | _ \<Rightarrow> s)"

text \<open>The rest of performDelete, with its dialog.\<close>

definition delete_settled :: "nat \<Rightarrow> bool \<Rightarrow> clusters_page \<Rightarrow> clusters_page \<times> request list" where
  "delete_settled n ok s =
    (case map_of (cu_dialogs s) n of
       Some (DestroyOf c, True) \<Rightarrow>
         if ok then refresh_list (close_delete ((close_dialog n s)\<lparr>cu_toasts := cu_toasts s @ [''pages.clusters.delete.success'']\<rparr>))
         else (set_waiting n (DestroyOf c) False s, [])
     | _ \<Rightarrow> (s, []))"

fun clusters_step :: "clusters_act \<Rightarrow> clusters_page \<Rightarrow> clusters_page \<times> request list" where
  "clusters_step RefreshList s = refresh_list s"
| "clusters_step (ListSettled n d) s = (if n = cu_list_run s then s\<lparr>cu_data := d, cu_loading := False\<rparr> else s, [])"
| "clusters_step OpenCreateForm s = (s\<lparr>cu_createVisible := True\<rparr>, [])"
| "clusters_step (TypeCreate f) s = (s\<lparr>cu_form := f\<rparr>, [])"
| "clusters_step CancelCreate s = (s\<lparr>cu_createVisible := False, cu_form := empty_form\<rparr>, [])"
| "clusters_step SubmitCreate s = create_step s"
| "clusters_step (CreateSettled n r) s = create_settled n r s"
| "clusters_step (OpenEditOf c) s = (handleEdit c s, [])"
| "clusters_step (TypeEdit f) s = (s\<lparr>cu_editForm := f\<rparr>, [])"
| "clusters_step CancelEdit s = (s\<lparr>cu_editing := None, cu_editForm := empty_form\<rparr>, [])"
| "clusters_step SubmitEdit s = edit_step s"
| "clusters_step (EditSettled n ok) s = edit_settled n ok s"
| "clusters_step (AskRegenerate c) s = (open_dialog (RegenerateOf c) s, [])"
| "clusters_step (AskDelete c) s = (handleDelete_cluster c s, [])"
| "clusters_step (TypeConfirm x) s = (s\<lparr>cu_confirmName := x\<rparr>, [])"
| "clusters_step CancelDelete s = (close_delete s, [])"
| "clusters_step ProceedDelete s = (handleProceedToFinalConfirm s, [])"
| "clusters_step (ConfirmDialog n) s = confirm_step n s"
| "clusters_step (DismissDialog n) s = (close_dialog n s, [])"
| "clusters_step (RegenerateSettled n run r) s = (regenerate_settled n run r s, [])"
| "clusters_step (DeleteSettled n ok) s = delete_settled n ok s"
| "clusters_step CloseToken s = (s\<lparr>cu_tokenResult := None\<rparr>, [])"

definition clusters_mount :: "clusters_page \<times> request list" where
  "clusters_mount = refresh_list
    \<lparr>cu_data = NotLoaded, cu_loading = False, cu_list_run = 0, cu_createVisible = False, cu_form = empty_form, cu_creating = False,
     cu_create_run = 0, cu_editing = None, cu_editForm = empty_form, cu_saving = False, cu_edit_run = 0, cu_regenerate_run = 0,
     cu_tokenResult = None, cu_deleting = None, cu_confirmName = [], cu_dialogs = [], cu_counter = 0, cu_toasts = []\<rparr>"

text \<open>The state and all requests after a sequence of actions.\<close>

definition clusters_run :: "clusters_act list \<Rightarrow> clusters_page \<times> request list" where
  "clusters_run as = foldl (\<lambda>(s, rs) a. let (s', out) = clusters_step a s in (s', rs @ out)) clusters_mount as"

section \<open>Deleting needs the typed name\<close>

lemma clusters_run_snoc:
  "clusters_run (as @ [a]) =
    (fst (clusters_step a (fst (clusters_run as))), snd (clusters_run as) @ snd (clusters_step a (fst (clusters_run as))))"
  by (simp add: clusters_run_def split_beta Let_def)

lemma clusters_run_Nil: "clusters_run [] = clusters_mount"
  by (simp add: clusters_run_def)

text \<open>At some point the name of c stood in the box of the dialog that asks for it, and the
  operator proceeded; after that a dialog was confirmed.\<close>

definition named :: "clusters_act list \<Rightarrow> Cluster \<Rightarrow> bool" where
  "named as c \<longleftrightarrow> (\<exists>us vs. as = us @ ProceedDelete # vs \<and> cu_deleting (fst (clusters_run us)) = Some c \<and>
     cu_confirmName (fst (clusters_run us)) = cl_name c)"

definition named_and_confirmed :: "clusters_act list \<Rightarrow> Cluster \<Rightarrow> bool" where
  "named_and_confirmed as c \<longleftrightarrow> (\<exists>us n vs. as = us @ ConfirmDialog n # vs \<and> named us c)"

lemma named_snoc: "named as c \<Longrightarrow> named (as @ [a]) c"
  unfolding named_def by (metis append.assoc append_Cons)

lemma named_confirmed_snoc: "named_and_confirmed as c \<Longrightarrow> named_and_confirmed (as @ [a]) c"
  unfolding named_and_confirmed_def by (metis append.assoc append_Cons)

lemma named_proceed:
  "cu_deleting (fst (clusters_run as)) = Some c \<Longrightarrow> cu_confirmName (fst (clusters_run as)) = cl_name c \<Longrightarrow>
   named (as @ [ProceedDelete]) c"
  by (auto simp: named_def)

lemma named_confirm: "named as c \<Longrightarrow> named_and_confirmed (as @ [ConfirmDialog n]) c"
  unfolding named_and_confirmed_def by blast

lemmas cluster_parts = tick_def refresh_list_def create_step_def create_settled_def handleEdit_def edit_step_def
  edit_settled_def open_dialog_def close_dialog_def set_waiting_def handleDelete_cluster_def close_delete_def
  handleProceedToFinalConfirm_def confirm_step_def regenerate_settled_def delete_settled_def

text \<open>The clusters whose destroy dialogs are open.\<close>

definition destroys :: "clusters_page \<Rightarrow> Cluster set" where
  "destroys s = {c. \<exists>n w. map_of (cu_dialogs s) n = Some (DestroyOf c, w)}"

lemma destroys_same: "cu_dialogs s' = cu_dialogs s \<Longrightarrow> destroys s' = destroys s"
  by (simp add: destroys_def)

lemma destroys_close: "destroys (close_dialog n s) \<subseteq> destroys s"
  by (auto simp: destroys_def close_dialog_def delete_conv' split: if_splits)

lemma destroys_waiting: "map_of (cu_dialogs s) n = Some (d, w') \<Longrightarrow> destroys (set_waiting n d w s) \<subseteq> destroys s"
  by (auto simp: destroys_def set_waiting_def update_conv' split: if_splits)

lemma destroys_open: "destroys (open_dialog d s) \<subseteq> destroys s \<union> {c. d = DestroyOf c}"
  by (auto simp: destroys_def open_dialog_def tick_def split: if_splits)

lemma destroys_parts [simp]:
  "destroys (fst (refresh_list s)) = destroys s" "destroys (fst (create_step s)) = destroys s"
  "destroys (fst (create_settled n r s)) = destroys s" "destroys (handleEdit c s) = destroys s"
  "destroys (fst (edit_step s)) = destroys s" "destroys (fst (edit_settled n ok s)) = destroys s"
  "destroys (handleDelete_cluster c s) = destroys s" "destroys (close_delete s) = destroys s" "destroys (tick s) = destroys s"
  by (auto intro!: destroys_same simp: cluster_parts split: option.split)

lemma destroys_confirm: "destroys (fst (confirm_step n s)) \<subseteq> destroys s"
proof (cases "map_of (cu_dialogs s) n")
  case (Some p)
  obtain d w where p: "p = (d, w)" by force
  have "destroys (fst (confirm_step n s)) = destroys s \<or> destroys (fst (confirm_step n s)) = destroys (set_waiting n d True s)"
    using Some p by (cases d; cases w) (auto simp: confirm_step_def intro!: destroys_same simp: tick_def)
  then show ?thesis using destroys_waiting[OF Some[unfolded p], of True] by auto
qed (simp add: confirm_step_def)

lemma destroys_regenerate: "destroys (regenerate_settled n run r s) \<subseteq> destroys s"
proof (cases "map_of (cu_dialogs s) n")
  case (Some p)
  obtain d w where p: "p = (d, w)" by force
  have "destroys (regenerate_settled n run r s) \<in> {destroys s, destroys (set_waiting n d False s), destroys (close_dialog n s)}"
    using Some p by (cases d; cases w; cases r) (auto simp: regenerate_settled_def intro!: destroys_same)
  then show ?thesis using destroys_waiting[OF Some[unfolded p], of False] destroys_close[of n s] by auto
qed (simp add: regenerate_settled_def)

lemma destroys_fields [simp]:
  "destroys (s\<lparr>cu_toasts := ts\<rparr>) = destroys s" "destroys (s\<lparr>cu_data := d\<rparr>) = destroys s" "destroys (s\<lparr>cu_loading := b\<rparr>) = destroys s"
  "destroys (s\<lparr>cu_createVisible := b\<rparr>) = destroys s" "destroys (s\<lparr>cu_form := f\<rparr>) = destroys s"
  "destroys (s\<lparr>cu_editForm := f\<rparr>) = destroys s"
  "destroys (s\<lparr>cu_editing := e\<rparr>) = destroys s" "destroys (s\<lparr>cu_confirmName := x\<rparr>) = destroys s"
  "destroys (s\<lparr>cu_tokenResult := t\<rparr>) = destroys s"
  by (simp_all add: destroys_def)

lemma destroys_delete: "destroys (fst (delete_settled n ok s)) \<subseteq> destroys s"
proof (cases "map_of (cu_dialogs s) n")
  case (Some p)
  obtain d w where p: "p = (d, w)" by force
  have "destroys (fst (delete_settled n ok s)) \<in> {destroys s, destroys (set_waiting n d False s), destroys (close_dialog n s)}"
    using Some p by (cases d; cases w; cases ok) (auto simp: delete_settled_def)
  then show ?thesis using destroys_waiting[OF Some[unfolded p], of False] destroys_close[of n s] by auto
qed (simp add: delete_settled_def)

lemma destroys_step:
  "destroys (fst (clusters_step a s)) \<subseteq> destroys s \<union>
    {c. a = ProceedDelete \<and> cu_deleting s = Some c \<and> cu_confirmName s = cl_name c}"
proof (cases a)
  case ProceedDelete
  show ?thesis
  proof (cases "may_proceed s")
    case True
    then show ?thesis using ProceedDelete destroys_open[of "DestroyOf (the (cu_deleting s))" s]
      by (auto simp: handleProceedToFinalConfirm_def may_proceed_def split: option.splits)
  qed (simp add: ProceedDelete handleProceedToFinalConfirm_def)
next
  case (AskRegenerate c) then show ?thesis using destroys_open[of "RegenerateOf c" s] by auto
next
  case (ConfirmDialog n) then show ?thesis using destroys_confirm[of n s] by auto
next
  case (DismissDialog n) then show ?thesis using destroys_close[of n s] by auto
next
  case (RegenerateSettled n run r) then show ?thesis using destroys_regenerate[of n run r s] by auto
next
  case (DeleteSettled n ok) then show ?thesis using destroys_delete[of n ok s] by auto
qed simp_all

text \<open>A DELETE is sent by the OK of an open destroy dialog only.\<close>

lemma delete_sent:
  assumes "r \<in> set (snd (clusters_step a s))" "rq_method r = ''DELETE''"
  shows "\<exists>n c. a = ConfirmDialog n \<and> c \<in> destroys s \<and> r = deleteCluster (cl_id c)"
proof (cases a)
  case (ConfirmDialog n)
  show ?thesis
  proof (cases "map_of (cu_dialogs s) n")
    case (Some p)
    obtain d w where p: "p = (d, w)" by force
    obtain c where c: "d = DestroyOf c" "r = deleteCluster (cl_id c)"
      using assms ConfirmDialog Some p by (cases d; cases w) (auto simp: confirm_step_def regenerateToken_def)
    then show ?thesis using ConfirmDialog Some p by (auto simp: destroys_def)
  qed (use assms ConfirmDialog in \<open>simp add: confirm_step_def\<close>)
qed (use assms in \<open>auto simp: refresh_list_def create_step_def create_settled_def edit_step_def edit_settled_def
  delete_settled_def listClusters_def createCluster_def updateCluster_def
  split: option.splits if_splits dialog_kind.splits bool.splits\<close>)

lemma destroy_dialogs_named: "c \<in> destroys (fst (clusters_run as)) \<Longrightarrow> named as c"
proof (induction as rule: rev_induct)
  case Nil
  then show ?case by (simp add: clusters_run_Nil clusters_mount_def) (simp add: destroys_def)
next
  case (snoc a as)
  then show ?case using destroys_step[of a "fst (clusters_run as)"] named_snoc[of as c a] named_proceed[of as c]
    by (auto simp: clusters_run_snoc)
qed


definition demo_cluster :: "string \<Rightarrow> Cluster" where
  "demo_cluster n = \<lparr>cl_id = ''id-'' @ n, cl_name = n, cl_status = ''online'', cl_description = [], cl_created_at = [], cl_updated_at = []\<rparr>"

definition demo_delete :: "clusters_act list" where
  "demo_delete = [ListSettled 0 (Loaded [demo_cluster ''a'', demo_cluster ''b'']), AskDelete (demo_cluster ''b''),
     TypeConfirm ''a'', ProceedDelete, TypeConfirm ''b'', ProceedDelete, ConfirmDialog 1, DeleteSettled 1 True]"


section \<open>Counters, cards and late answers\<close>

lemma cluster_stats_add_up: "cluster_stats cs = (t, online, offline) \<Longrightarrow> t = length cs \<and> online + offline = t"
  by (auto simp: cluster_stats_def Let_def length_filter_le)

lemma saving_closes_another_edit:
  "let s = fst (clusters_run [OpenEditOf (demo_cluster ''a''), SubmitEdit, CancelEdit, OpenEditOf (demo_cluster ''b''),
      TypeEdit (Some ''c'', None), EditSettled 1 True])
   in cu_editing s = None \<and> cu_editForm s = empty_form"
  by code_simp

lemma second_create_hides_the_first_token:
  "let s = fst (clusters_run [OpenCreateForm, TypeCreate (Some ''a'', None), SubmitCreate, SubmitCreate,
      CreateSettled 1 (Some ''t1''), CreateSettled 2 (Some ''t2'')])
   in map_option tk_token (cu_tokenResult s) = Some ''t2''"
  by code_simp

end
