(* ===== verification/ApiKeys.thy ===== *)
theory ApiKeys
  imports Clusters ModelCatalog
begin

text \<open>
  The API keys of the inference proxy: pages/APIKeys/index.tsx with services/kpilot/api-key.ts.
  A step is an action of the operator or an answer; it gives the next state and the requests
  it sends.

  Parameters: origin of the page, locale the locale's digit grouping, ago and stamp the
  relative and the absolute date format.  A select offers its options only, a button that
  is loading ignores clicks, and a confirmation dialog closes when the promise of its OK
  button resolves.  Setting a watched field runs the effect that depends on it.
\<close>

section \<open>services/kpilot/api-key.ts\<close>

record APIKey =
  ak_id :: nat
  ak_name :: string
  ak_token_prefix :: string
  ak_cluster_id :: string
  ak_namespace :: string
  ak_deploy_name :: string
  ak_last_used_at :: "string option"
  ak_revoked_at :: "string option"
  ak_created_at :: string
  ak_prompt_tokens :: "nat option"
  ak_completion_tokens :: "nat option"
  ak_request_count :: "nat option"
  ak_usage_reset_at :: "string option"

record CreateAPIKeyRequest =
  kr_name :: string
  kr_cluster_id :: string
  kr_namespace :: string
  kr_deploy_name :: string

definition keys_url :: "string list \<Rightarrow> string" where
  "keys_url segs = path ([''api'', ''v1'', ''api-keys''] @ segs)"

definition listAPIKeys :: "string option \<Rightarrow> request" where
  "listAPIKeys clusterId = GET (keys_url [])
     (case clusterId of None \<Rightarrow> [] | Some c \<Rightarrow> prop_if (c \<noteq> []) ''cluster_id'' (JStr c))"

definition createAPIKey :: "CreateAPIKeyRequest \<Rightarrow> request" where
  "createAPIKey r = POST (keys_url []) [] (JsonBody (JObj [(''name'', JStr (kr_name r)),
     (''cluster_id'', JStr (kr_cluster_id r)), (''namespace'', JStr (kr_namespace r)), (''deploy_name'', JStr (kr_deploy_name r))]))"

definition revokeAPIKey :: "nat \<Rightarrow> request" where
  "revokeAPIKey n = POST (keys_url [show_nat n, ''revoke'']) [] NoBody"

definition resetAPIKeyUsage :: "nat \<Rightarrow> request" where
  "resetAPIKeyUsage n = POST (keys_url [show_nat n, ''reset-usage'']) [] NoBody"

definition deleteAPIKey :: "nat \<Rightarrow> request" where
  "deleteAPIKey n = DELETE (keys_url [show_nat n]) []"

section \<open>The table\<close>

text \<open>A text that is set: present and not empty.\<close>

definition is_set :: "string option \<Rightarrow> bool" where
  "is_set s \<longleftrightarrow> s \<noteq> None \<and> s \<noteq> Some []"

definition or_zero :: "nat option \<Rightarrow> nat" where
  "or_zero n = (case n of None \<Rightarrow> 0 | Some k \<Rightarrow> k)"

definition formatBigNumber_key :: "(nat \<Rightarrow> string) \<Rightarrow> nat \<Rightarrow> string" where
  "formatBigNumber_key locale n =
    (if n < 10000 then locale n
     else if n < 1000000 then to_fixed 1 (of_nat n / 1000) @ ''k''
     else if n < 1000000000 then to_fixed 2 (of_nat n / 1000000) @ ''M''
     else to_fixed 2 (of_nat n / 1000000000) @ ''B'')"

text \<open>The last entry of a cluster id wins.\<close>

definition clusterNameById :: "Cluster list \<Rightarrow> string \<Rightarrow> string option" where
  "clusterNameById cs = map_of (rev (map (\<lambda>c. (cl_id c, cl_name c)) cs))"

definition ellipsis :: string where
  "ellipsis = [CHR 0xE2, CHR 0x80, CHR 0xA6]"

definition right_arrow :: string where
  "right_arrow = '' '' @ [CHR 0xE2, CHR 0x86, CHR 0x92] @ '' ''"

definition wide_colon :: string where
  "wide_colon = [CHR 0xEF, CHR 0xBC, CHR 0x9A]"

text \<open>The scope cell: the cluster's name or id, and the deployment.\<close>

definition scope_cell :: "Cluster list \<Rightarrow> APIKey \<Rightarrow> string \<times> string" where
  "scope_cell cs row =
    (case clusterNameById cs (ak_cluster_id row) of None \<Rightarrow> ak_cluster_id row | Some n \<Rightarrow> n,
     ak_namespace row @ '' / '' @ ak_deploy_name row)"

definition status_tag :: "APIKey \<Rightarrow> tag" where
  "status_tag row = (if is_set (ak_revoked_at row) then (''pages.apikeys.status.revoked'', ''red'')
     else (''pages.apikeys.status.active'', ''green''))"

definition status_filter :: "string \<Rightarrow> APIKey \<Rightarrow> bool" where
  "status_filter value row = (if value = ''active'' then \<not> is_set (ak_revoked_at row) else is_set (ak_revoked_at row))"

text \<open>Text and tooltip of the last use.\<close>

definition last_used_cell :: "(string \<Rightarrow> string) \<Rightarrow> (string \<Rightarrow> string) \<Rightarrow> APIKey \<Rightarrow> string \<times> string option" where
  "last_used_cell ago stamp row =
    (if is_set (ak_last_used_at row) then (ago (the (ak_last_used_at row)), Some (stamp (the (ak_last_used_at row))))
     else (''pages.apikeys.lastUsed.never'', None))"

record UsageCell =
  uc_tip :: string
  uc_requests :: string
  uc_tokens :: string

definition usage_cell :: "(string \<Rightarrow> string) \<Rightarrow> (nat \<Rightarrow> string) \<Rightarrow> APIKey \<Rightarrow> UsageCell option" where
  "usage_cell stamp locale row =
    (let requests = or_zero (ak_request_count row); prompt = or_zero (ak_prompt_tokens row);
         completion = or_zero (ak_completion_tokens row)
     in if requests = 0 then None
        else Some \<lparr>uc_tip = (if is_set (ak_usage_reset_at row)
                 then ''pages.apikeys.usage.sinceReset'' @ wide_colon @ stamp (the (ak_usage_reset_at row))
                 else ''pages.apikeys.usage.lifetime''),
               uc_requests = formatBigNumber_key locale requests,
               uc_tokens = formatBigNumber_key locale prompt @ right_arrow @ formatBigNumber_key locale completion @
                 '' = '' @ formatBigNumber_key locale (prompt + completion) @ '' tok''\<rparr>)"

datatype key_action = ResetUsage | Revoke | DeleteKey

definition key_actions :: "APIKey \<Rightarrow> key_action list" where
  "key_actions row = (if or_zero (ak_request_count row) > 0 then [ResetUsage] else []) @
     (if is_set (ak_revoked_at row) then [] else [Revoke]) @ [DeleteKey]"

record KeyRow =
  kw_name :: string
  kw_prefix :: string
  kw_scope :: "string \<times> string"
  kw_status :: tag
  kw_lastUsed :: "string \<times> string option"
  kw_usage :: "UsageCell option"
  kw_created :: "string \<times> string"
  kw_actions :: "key_action list"

definition api_key_row ::
  "(string \<Rightarrow> string) \<Rightarrow> (string \<Rightarrow> string) \<Rightarrow> (nat \<Rightarrow> string) \<Rightarrow> Cluster list \<Rightarrow> APIKey \<Rightarrow> KeyRow" where
  "api_key_row ago stamp locale cs row =
    \<lparr>kw_name = ak_name row, kw_prefix = ak_token_prefix row @ ellipsis, kw_scope = scope_cell cs row,
     kw_status = status_tag row, kw_lastUsed = last_used_cell ago stamp row, kw_usage = usage_cell stamp locale row,
     kw_created = (ago (ak_created_at row), stamp (ak_created_at row)), kw_actions = key_actions row\<rparr>"

section \<open>The state\<close>

text \<open>A create request in flight keeps what it was sent with and the deployments known then;
  the result is the created key with its token and the model field.\<close>

record api_keys =
  kp_loading :: bool
  kp_rows :: "APIKey list"
  kp_clusters :: "Cluster list"
  kp_open :: bool
  kp_creating :: bool
  kp_name :: "string option"
  kp_cluster :: "string option"
  kp_deployment :: "string option"
  kp_deployments :: "ModelInstance list"
  kp_drawerLoading :: bool
  kp_sent :: "(CreateAPIKeyRequest \<times> ModelInstance list) option"
  kp_result :: "(APIKey \<times> string \<times> string) option"
  kp_copied :: bool
  kp_curlCopied :: bool
  kp_dialog :: "(key_action \<times> APIKey \<times> bool) option"
  kp_toasts :: "string list"

definition deployment_value :: "ModelInstance \<Rightarrow> string" where
  "deployment_value d = mi_namespace d @ ''/'' @ mi_name d"

text \<open>Value and label of the deployments of the picked cluster.\<close>

definition deploymentOptions :: "ModelInstance list \<Rightarrow> string option \<Rightarrow> (string \<times> string) list" where
  "deploymentOptions ds watched =
    (if \<not> is_set watched then []
     else map (\<lambda>d. (deployment_value d, mi_namespace d @ '' / '' @ mi_name d))
       (filter (\<lambda>d. mi_cluster_id d = the watched) ds))"

text \<open>The text before and after the first slash.\<close>

definition split_scope :: "string \<Rightarrow> (string \<times> string) option" where
  "split_scope v = (if CHR ''/'' \<notin> set v then None
     else Some (takeWhile (\<lambda>c. c \<noteq> CHR ''/'') v, tl (dropWhile (\<lambda>c. c \<noteq> CHR ''/'') v)))"

text \<open>The values of the form, None while a required field is empty or has no slash.\<close>

definition create_values :: "api_keys \<Rightarrow> CreateAPIKeyRequest option" where
  "create_values s =
    (if is_set (kp_name s) \<and> is_set (kp_cluster s) \<and> is_set (kp_deployment s)
     then (case split_scope (the (kp_deployment s)) of
         None \<Rightarrow> None
       | Some (ns, nm) \<Rightarrow> Some \<lparr>kr_name = trim (the (kp_name s)), kr_cluster_id = the (kp_cluster s),
             kr_namespace = ns, kr_deploy_name = nm\<rparr>)
     else None)"

definition picked_instance :: "ModelInstance list \<Rightarrow> CreateAPIKeyRequest \<Rightarrow> ModelInstance option" where
  "picked_instance ds r =
    find (\<lambda>d. mi_cluster_id d = kr_cluster_id r \<and> mi_namespace d = kr_namespace r \<and> mi_name d = kr_deploy_name r) ds"

definition model_field :: "ModelInstance list \<Rightarrow> CreateAPIKeyRequest \<Rightarrow> string" where
  "model_field ds r =
    (case picked_instance ds r of None \<Rightarrow> kr_deploy_name r
     | Some d \<Rightarrow> if mi_model_field d = [] then kr_deploy_name r else mi_model_field d)"

definition proxy_url :: "string \<Rightarrow> APIKey \<Rightarrow> string" where
  "proxy_url origin k = origin @ path [''api'', ''v1'', ''clusters'', ak_cluster_id k, ''proxy'', ''inference'',
     ak_namespace k, ak_deploy_name k, ''v1'', ''chat'', ''completions'']"

definition dq :: string where
  "dq = [CHR 0x22]"

definition backslash_end :: string where
  "backslash_end = '' '' @ [CHR 0x5C]"

definition sq :: string where
  "sq = [CHR 0x27]"

definition usageCurl :: "string \<Rightarrow> (APIKey \<times> string \<times> string) option \<Rightarrow> string" where
  "usageCurl origin res =
    (case res of None \<Rightarrow> []
     | Some (k, tok, field) \<Rightarrow>
        join [CHR 0x0A]
         [''curl -N '' @ dq @ proxy_url origin k @ dq @ backslash_end,
          ''  -H '' @ dq @ ''Authorization: Bearer '' @ tok @ dq @ backslash_end,
          ''  -H '' @ dq @ ''Content-Type: application/json'' @ dq @ backslash_end,
          ''  -d '' @ sq @ ''{'' @ dq @ ''model'' @ dq @ '':'' @ dq @ (if field = [] then ak_deploy_name k else field) @ dq @
          '','' @ dq @ ''messages'' @ dq @ '':[{'' @ dq @ ''role'' @ dq @ '':'' @ dq @ ''user'' @ dq @ '','' @ dq @ ''content'' @ dq @
          '':'' @ dq @ ''hi'' @ dq @ ''}],'' @ dq @ ''stream'' @ dq @ '':true}'' @ sq])"

section \<open>Actions\<close>

text \<open>Answers are None when the request fails; a list may be absent from the answer.\<close>

datatype keys_act =
    RefreshKeys
  | KeysAnswer "APIKey list option option"
  | ClustersAnswer "Cluster list option option"
  | OpenKeyDrawer
  | DeploymentsAnswer "ModelInstance list option option"
  | CloseKeyDrawer
  | TypeName string
  | PickCluster string
  | PickDeployment string
  | SubmitKey
  | CreateAnswer "(APIKey \<times> string) option"
  | CloseResult
  | TokenCopied bool
  | TokenFlashOver
  | CurlCopied bool
  | CurlFlashOver
  | AskRow key_action APIKey
  | ConfirmRow
  | DismissRow
  | RowAnswer bool

definition fetchKeys :: "api_keys \<Rightarrow> api_keys \<times> request list" where
  "fetchKeys s = (s\<lparr>kp_loading := True\<rparr>, [listAPIKeys None])"

definition openCreate :: "api_keys \<Rightarrow> api_keys \<times> request list" where
  "openCreate s =
    (s\<lparr>kp_name := None, kp_cluster := None, kp_deployment := None, kp_open := True, kp_drawerLoading := True\<rparr>,
     [listDeployments None])"

text \<open>A changed cluster clears the deployment.\<close>

definition pick_cluster :: "string \<Rightarrow> api_keys \<Rightarrow> api_keys" where
  "pick_cluster c s =
    (if c \<notin> cl_id ` set (kp_clusters s) \<or> kp_cluster s = Some c then s
     else s\<lparr>kp_cluster := Some c, kp_deployment := None\<rparr>)"

definition pick_deployment :: "string \<Rightarrow> api_keys \<Rightarrow> api_keys" where
  "pick_deployment v s =
    (if v \<in> fst ` set (deploymentOptions (kp_deployments s) (kp_cluster s)) then s\<lparr>kp_deployment := Some v\<rparr> else s)"

definition submitCreate :: "api_keys \<Rightarrow> api_keys \<times> request list" where
  "submitCreate s =
    (if \<not> kp_open s \<or> kp_creating s then (s, [])
     else case create_values s of
         None \<Rightarrow> (s, [])
       | Some r \<Rightarrow> (s\<lparr>kp_creating := True, kp_sent := Some (r, kp_deployments s)\<rparr>, [createAPIKey r]))"

definition create_answered :: "(APIKey \<times> string) option \<Rightarrow> api_keys \<Rightarrow> api_keys \<times> request list" where
  "create_answered res s =
    (case kp_sent s of
       None \<Rightarrow> (s, [])
     | Some (r, ds) \<Rightarrow>
        (let s1 = s\<lparr>kp_creating := False, kp_sent := None\<rparr>
         in case res of
             None \<Rightarrow> (s1, [])
           | Some (k, tok) \<Rightarrow> fetchKeys (s1\<lparr>kp_open := False, kp_toasts := kp_toasts s @ [''pages.apikeys.toast.created''],
               kp_result := Some (k, tok, model_field ds r), kp_copied := False\<rparr>)))"

definition copyToken :: "bool \<Rightarrow> api_keys \<Rightarrow> api_keys" where
  "copyToken ok s =
    (case kp_result s of
       None \<Rightarrow> s
     | Some (k, tok, field) \<Rightarrow> if tok = [] then s else if ok then s\<lparr>kp_copied := True\<rparr>
         else s\<lparr>kp_toasts := kp_toasts s @ [''pages.describe.copyFailed'']\<rparr>)"

definition copyCurl :: "bool \<Rightarrow> api_keys \<Rightarrow> api_keys" where
  "copyCurl ok s =
    (if kp_result s = None then s else if ok then s\<lparr>kp_curlCopied := True\<rparr>
     else s\<lparr>kp_toasts := kp_toasts s @ [''pages.describe.copyFailed'']\<rparr>)"

definition ask_row :: "key_action \<Rightarrow> APIKey \<Rightarrow> api_keys \<Rightarrow> api_keys" where
  "ask_row act row s =
    (if row \<in> set (kp_rows s) \<and> act \<in> set (key_actions row) then s\<lparr>kp_dialog := Some (act, row, False)\<rparr> else s)"

definition row_request :: "key_action \<Rightarrow> nat \<Rightarrow> request" where
  "row_request act n = (case act of ResetUsage \<Rightarrow> resetAPIKeyUsage n | Revoke \<Rightarrow> revokeAPIKey n | DeleteKey \<Rightarrow> deleteAPIKey n)"

definition row_toast :: "key_action \<Rightarrow> string" where
  "row_toast act = (case act of ResetUsage \<Rightarrow> ''pages.apikeys.toast.usageReset'' | Revoke \<Rightarrow> ''pages.apikeys.toast.revoked''
     | DeleteKey \<Rightarrow> ''pages.apikeys.toast.deleted'')"

definition confirm_row :: "api_keys \<Rightarrow> api_keys \<times> request list" where
  "confirm_row s =
    (case kp_dialog s of
       Some (act, row, False) \<Rightarrow> (s\<lparr>kp_dialog := Some (act, row, True)\<rparr>, [row_request act (ak_id row)])
     | _ \<Rightarrow> (s, []))"

definition row_answered :: "bool \<Rightarrow> api_keys \<Rightarrow> api_keys \<times> request list" where
  "row_answered ok s =
    (case kp_dialog s of
       Some (act, row, True) \<Rightarrow>
         if ok then fetchKeys (s\<lparr>kp_dialog := None, kp_toasts := kp_toasts s @ [row_toast act]\<rparr>)
         else (s\<lparr>kp_dialog := Some (act, row, False)\<rparr>, [])
     | _ \<Rightarrow> (s, []))"

definition or_empty_list :: "'a list option \<Rightarrow> 'a list" where
  "or_empty_list xs = (case xs of None \<Rightarrow> [] | Some ys \<Rightarrow> ys)"

fun keys_step :: "keys_act \<Rightarrow> api_keys \<Rightarrow> api_keys \<times> request list" where
  "keys_step RefreshKeys s = fetchKeys s"
| "keys_step (KeysAnswer r) s =
    (case r of None \<Rightarrow> s\<lparr>kp_loading := False\<rparr> | Some ks \<Rightarrow> s\<lparr>kp_rows := or_empty_list ks, kp_loading := False\<rparr>, [])"
| "keys_step (ClustersAnswer r) s = (case r of None \<Rightarrow> s | Some cs \<Rightarrow> s\<lparr>kp_clusters := or_empty_list cs\<rparr>, [])"
| "keys_step OpenKeyDrawer s = openCreate s"
| "keys_step (DeploymentsAnswer r) s =
    (case r of None \<Rightarrow> s\<lparr>kp_drawerLoading := False\<rparr>
     | Some ds \<Rightarrow> s\<lparr>kp_deployments := or_empty_list ds, kp_drawerLoading := False\<rparr>, [])"
| "keys_step CloseKeyDrawer s = (s\<lparr>kp_open := False\<rparr>, [])"
| "keys_step (TypeName x) s = (if kp_creating s then s else s\<lparr>kp_name := Some x\<rparr>, [])"
| "keys_step (PickCluster c) s = (if kp_creating s then s else pick_cluster c s, [])"
| "keys_step (PickDeployment v) s = (if kp_creating s then s else pick_deployment v s, [])"
| "keys_step SubmitKey s = submitCreate s"
| "keys_step (CreateAnswer r) s = create_answered r s"
| "keys_step CloseResult s = (s\<lparr>kp_result := None\<rparr>, [])"
| "keys_step (TokenCopied ok) s = (copyToken ok s, [])"
| "keys_step TokenFlashOver s = (s\<lparr>kp_copied := False\<rparr>, [])"
| "keys_step (CurlCopied ok) s = (copyCurl ok s, [])"
| "keys_step CurlFlashOver s = (s\<lparr>kp_curlCopied := False\<rparr>, [])"
| "keys_step (AskRow act row) s = (ask_row act row s, [])"
| "keys_step ConfirmRow s = confirm_row s"
| "keys_step DismissRow s = (s\<lparr>kp_dialog := None\<rparr>, [])"
| "keys_step (RowAnswer ok) s = row_answered ok s"

definition keys_start :: api_keys where
  "keys_start = \<lparr>kp_loading = True, kp_rows = [], kp_clusters = [], kp_open = False, kp_creating = False, kp_name = None,
     kp_cluster = None, kp_deployment = None, kp_deployments = [], kp_drawerLoading = False, kp_sent = None, kp_result = None,
     kp_copied = False, kp_curlCopied = False, kp_dialog = None, kp_toasts = []\<rparr>"

definition keys_mount :: "api_keys \<times> request list" where
  "keys_mount = (keys_start, [listAPIKeys None, listClusters])"

definition keys_run :: "keys_act list \<Rightarrow> api_keys \<times> request list" where
  "keys_run as = foldl (\<lambda>(s, rs) a. let (s', out) = keys_step a s in (s', rs @ out)) keys_mount as"

lemma keys_run_snoc:
  "keys_run (as @ [a]) = (fst (keys_step a (fst (keys_run as))), snd (keys_run as) @ snd (keys_step a (fst (keys_run as))))"
  by (simp add: keys_run_def split_beta Let_def)

section \<open>The scope of a created key\<close>

lemma split_scope_value:
  "CHR ''/'' \<notin> set (mi_namespace d) \<Longrightarrow> split_scope (deployment_value d) = Some (mi_namespace d, mi_name d)"
proof -
  assume a: "CHR ''/'' \<notin> set (mi_namespace d)"
  then have "takeWhile (\<lambda>c. c \<noteq> CHR ''/'') (deployment_value d) = mi_namespace d"
    "dropWhile (\<lambda>c. c \<noteq> CHR ''/'') (deployment_value d) = CHR ''/'' # mi_name d"
    by (auto simp: deployment_value_def takeWhile_append dropWhile_append)
  then show ?thesis by (simp add: split_scope_def) (simp add: deployment_value_def)
qed

text \<open>A deployment that the server listed for a cluster.\<close>

definition listed :: "keys_act list \<Rightarrow> ModelInstance \<Rightarrow> bool" where
  "listed as d \<longleftrightarrow> (\<exists>ds. DeploymentsAnswer (Some (Some ds)) \<in> set as \<and> d \<in> set ds)"

lemma listed_snoc: "listed as d \<Longrightarrow> listed (as @ [a]) d"
  by (auto simp: listed_def)

text \<open>The deployment in the form belongs to the cluster in the form, and was listed.\<close>

definition scope_ok :: "keys_act list \<Rightarrow> api_keys \<Rightarrow> bool" where
  "scope_ok as s \<longleftrightarrow> (\<forall>d \<in> set (kp_deployments s). listed as d) \<and>
     (\<forall>v. kp_deployment s = Some v \<longrightarrow>
       (\<exists>d. listed as d \<and> kp_cluster s = Some (mi_cluster_id d) \<and> v = deployment_value d))"

lemma scope_ok_same:
  "scope_ok as s \<Longrightarrow> kp_deployments s' = kp_deployments s \<Longrightarrow> kp_deployment s' = kp_deployment s \<Longrightarrow> kp_cluster s' = kp_cluster s \<Longrightarrow>
   scope_ok (as @ [a]) s'"
  unfolding scope_ok_def using listed_snoc by metis

lemma scope_ok_clear:
  "scope_ok as s \<Longrightarrow> kp_deployments s' = kp_deployments s \<Longrightarrow> kp_deployment s' = None \<Longrightarrow> scope_ok (as @ [a]) s'"
  unfolding scope_ok_def using listed_snoc by simp

lemma scope_ok_pick:
  assumes "scope_ok as s" shows "scope_ok (as @ [a]) (pick_deployment v s)"
proof (cases "v \<in> fst ` set (deploymentOptions (kp_deployments s) (kp_cluster s))")
  case True
  then obtain d where "d \<in> set (kp_deployments s)" "kp_cluster s = Some (mi_cluster_id d)" "v = deployment_value d"
    by (auto simp: deploymentOptions_def is_set_def split: if_splits)
  then show ?thesis using assms True listed_snoc[of as d a] listed_snoc[of as _ a]
    by (auto simp: scope_ok_def pick_deployment_def)
qed (simp add: pick_deployment_def scope_ok_same[OF assms])

lemma scope_ok_answer:
  assumes "scope_ok as s" shows "scope_ok (as @ [DeploymentsAnswer r]) (fst (keys_step (DeploymentsAnswer r) s))"
proof (cases r)
  case (Some ds)
  have "\<forall>d \<in> set (or_empty_list ds). listed (as @ [DeploymentsAnswer (Some ds)]) d"
    by (auto simp: or_empty_list_def listed_def split: option.splits)
  then show ?thesis using assms Some listed_snoc by (fastforce simp: scope_ok_def)
qed (simp add: scope_ok_same[OF assms])

lemmas key_parts = fetchKeys_def submitCreate_def create_answered_def copyToken_def copyCurl_def ask_row_def
  confirm_row_def row_answered_def

lemma scope_ok_step:
  assumes "scope_ok as s" shows "scope_ok (as @ [a]) (fst (keys_step a s))"
proof (cases a)
  case (DeploymentsAnswer r) then show ?thesis using scope_ok_answer[OF assms] by simp
next
  case (PickDeployment v) then show ?thesis using scope_ok_pick[OF assms] scope_ok_same[OF assms, of s] by simp
next
  case (PickCluster c)
  then show ?thesis using scope_ok_same[OF assms, of s] scope_ok_clear[OF assms] by (simp add: pick_cluster_def)
next
  case OpenKeyDrawer then show ?thesis using scope_ok_clear[OF assms] by (simp add: openCreate_def)
qed (auto intro!: scope_ok_same[OF assms] simp: key_parts Let_def split: option.splits bool.splits)

lemma scope_ok_run: "scope_ok as (fst (keys_run as))"
proof (induction as rule: rev_induct)
  case Nil
  then show ?case by (simp add: keys_run_def keys_mount_def keys_start_def scope_ok_def)
next
  case (snoc a as)
  then show ?case using scope_ok_step by (simp add: keys_run_snoc)
qed

definition is_create :: "request \<Rightarrow> bool" where
  "is_create r \<longleftrightarrow> rq_method r = ''POST'' \<and> rq_url r = keys_url []"

lemma row_request_not_create: "\<not> is_create (row_request act n)"
  by (cases act) (simp_all add: is_create_def row_request_def resetAPIKeyUsage_def revokeAPIKey_def deleteAPIKey_def
    keys_url_def path_def)

lemma create_sent:
  assumes "r \<in> set (snd (keys_step a s))" "is_create r"
  shows "\<exists>v. create_values s = Some v \<and> r = createAPIKey v"
  using assms row_request_not_create
  by (cases a) (auto simp: key_parts openCreate_def listAPIKeys_def listDeployments_def is_create_def Let_def
    split: option.splits bool.splits if_splits)

lemma created_scope:
  assumes "scope_ok as s" "create_values s = Some v" "\<forall>d. listed as d \<longrightarrow> CHR ''/'' \<notin> set (mi_namespace d)"
  shows "\<exists>d. listed as d \<and> mi_cluster_id d = kr_cluster_id v \<and> mi_namespace d = kr_namespace v \<and> mi_name d = kr_deploy_name v"
proof -
  obtain w where w: "kp_deployment s = Some w" "is_set (kp_cluster s)"
    using assms(2) by (auto simp: create_values_def is_set_def split: if_splits)
  then obtain d where d: "listed as d" "kp_cluster s = Some (mi_cluster_id d)" "w = deployment_value d"
    using assms(1) by (auto simp: scope_ok_def)
  then show ?thesis using assms(2,3) w split_scope_value[of d] by (auto simp: create_values_def split: if_splits)
qed

text \<open>C25. A key is created for a deployment that exists: every create request that the page sends
  in any sequence of actions and answers names a cluster, a namespace and a deployment that
  the server listed together, provided no listed namespace contains a slash.\<close>

theorem created_keys_are_scoped:
  assumes "\<forall>d. listed as d \<longrightarrow> CHR ''/'' \<notin> set (mi_namespace d)" "r \<in> set (snd (keys_run as))" "is_create r"
  shows "\<exists>d n. listed as d \<and> r = createAPIKey \<lparr>kr_name = n, kr_cluster_id = mi_cluster_id d,
    kr_namespace = mi_namespace d, kr_deploy_name = mi_name d\<rparr>"
  using assms(1,2)
proof (induction as rule: rev_induct)
  case Nil
  then show ?case using assms(3)
    by (simp add: keys_run_def keys_mount_def is_create_def listAPIKeys_def listClusters_def) auto
next
  case (snoc a as)
  have ns: "\<forall>d. listed as d \<longrightarrow> CHR ''/'' \<notin> set (mi_namespace d)" using snoc.prems(1) listed_snoc by blast
  show ?case
  proof (cases "r \<in> set (snd (keys_run as))")
    case True
    then show ?thesis using snoc.IH[OF ns] listed_snoc by blast
  next
    case False
    then have "r \<in> set (snd (keys_step a (fst (keys_run as))))" using snoc.prems(2) by (simp add: keys_run_snoc)
    then obtain v where v: "create_values (fst (keys_run as)) = Some v" "r = createAPIKey v"
      using create_sent[OF _ assms(3)] by blast
    obtain d where d: "listed as d" "mi_cluster_id d = kr_cluster_id v" "mi_namespace d = kr_namespace v" "mi_name d = kr_deploy_name v"
      using created_scope[OF scope_ok_run v(1) ns] by blast
    then have "r = createAPIKey \<lparr>kr_name = kr_name v, kr_cluster_id = mi_cluster_id d, kr_namespace = mi_namespace d, kr_deploy_name = mi_name d\<rparr>"
      using v(2) by (cases v) simp
    then show ?thesis using d(1) listed_snoc by blast
  qed
qed

definition demo_instance :: ModelInstance where
  "demo_instance = \<lparr>mi_cluster_id = ''id-a'', mi_namespace = ''llm'', mi_name = ''qwen'', mi_model_field = ''Qwen/Qwen3'',
     mi_status = ''Running'', mi_ready = 1\<rparr>"

definition demo_keys :: "keys_act list" where
  "demo_keys = [ClustersAnswer (Some (Some [demo_cluster ''a''])), OpenKeyDrawer, DeploymentsAnswer (Some (Some [demo_instance])),
     TypeName '' ci '', PickCluster ''id-a'', PickDeployment ''llm/qwen'', SubmitKey]"

lemma created_keys_are_scoped_witness:
  "\<exists>d n. listed demo_keys d \<and> createAPIKey \<lparr>kr_name = ''ci'', kr_cluster_id = ''id-a'', kr_namespace = ''llm'', kr_deploy_name = ''qwen''\<rparr> =
    createAPIKey \<lparr>kr_name = n, kr_cluster_id = mi_cluster_id d, kr_namespace = mi_namespace d, kr_deploy_name = mi_name d\<rparr>"
  by (rule created_keys_are_scoped)
    (simp add: listed_def demo_keys_def demo_instance_def, code_simp, code_simp)

section \<open>Names, numbers, tokens\<close>

text \<open>A name of spaces passes the required rule and is sent empty.\<close>

lemma blank_name_is_sent:
  "let s = keys_start\<lparr>kp_name := Some ''  '', kp_cluster := Some ''c'', kp_deployment := Some ''n/d''\<rparr>
   in map_option kr_name (create_values s) = Some []"
  by code_simp

text \<open>Just below the next unit, rounding prints a thousand of the smaller one.\<close>

lemma a_thousand_k: "formatBigNumber_key locale 999999 = ''1000.0k''"
proof -
  have k: "\<lfloor>1000049 / 100 :: rat\<rfloor> = 10000" by (rule floor_unique) simp_all
  have d: "show_nat 1000 = ''1000''" "show_nat 0 = ''0''" by code_simp+
  show ?thesis using k d by (simp add: formatBigNumber_key_def to_fixed_def)
qed

lemma status_filters_partition: "status_filter ''active'' row \<longleftrightarrow> \<not> status_filter ''revoked'' row"
  by (simp add: status_filter_def)

text \<open>A token stays on screen until it is closed, whatever else happens, as long as no other
  key is created.\<close>

lemma token_stays:
  assumes "kp_result s = Some x" "kp_sent s = None" "a \<noteq> CloseResult" "a \<noteq> SubmitKey"
  shows "kp_result (fst (keys_step a s)) = Some x \<and> kp_sent (fst (keys_step a s)) = None"
  using assms by (cases a) (auto simp: key_parts openCreate_def pick_cluster_def pick_deployment_def split: option.splits bool.splits prod.splits)

lemma late_create_closes_reopened_drawer:
  "let s = fst (keys_run (demo_keys @ [CloseKeyDrawer, OpenKeyDrawer, CreateAnswer (Some (k, ''tok''))])) in \<not> kp_open s"
  by (simp add: demo_keys_def demo_instance_def) code_simp

end
