(* ===== verification/Plugins.thy ===== *)
theory Plugins
  imports ModelDeploy EffectLoad
begin

text \<open>
  Plugins: services/kpilot/plugin.ts, the registry page (pages/Plugins/index.tsx with
  PluginCard.tsx and PluginEditDrawer.tsx), and the sections and cards of the page of a
  cluster (pages/ClusterDetail/Plugins/index.tsx), whose drawer is in ClusterPlugins.

  A step is an action of the operator or an answer.  The form library returns the values of
  the fields that are shown, and only when they satisfy their rules; a button that is
  loading ignores clicks.  The multipart upload of a chart is an event with its result.
\<close>

section \<open>services/kpilot/plugin.ts\<close>

record Plugin =
  pl_id :: nat
  pl_name :: string
  pl_display_name :: string
  pl_description :: string
  pl_category :: "string option"
  pl_is_builtin :: bool
  pl_icon_url :: "string option"
  pl_chart_type :: string
  pl_chart_repo :: "string option"
  pl_chart_name :: "string option"
  pl_chart_blob_id :: "nat option"
  pl_default_version :: "string option"
  pl_default_values :: "string option"
  pl_release_namespace :: "string option"

record ClusterPluginItem =
  ci_plugin :: Plugin
  ci_enabled :: bool
  ci_phase :: string
  ci_message :: "string option"
  ci_version_override :: "string option"
  ci_values_override :: "string option"

record PluginInput =
  pi_name :: string
  pi_display_name :: string
  pi_description :: "string option"
  pi_category :: "string option"
  pi_icon_url :: "string option"
  pi_chart_type :: string
  pi_chart_repo :: "string option"
  pi_chart_name :: "string option"
  pi_chart_blob_id :: "nat option"
  pi_default_version :: "string option"
  pi_default_values :: "string option"
  pi_release_namespace :: "string option"

definition input_json :: "PluginInput \<Rightarrow> json" where
  "input_json p = JObj ([(''name'', JStr (pi_name p)), (''display_name'', JStr (pi_display_name p))] @
     prop_opt ''description'' (map_option JStr (pi_description p)) @ prop_opt ''category'' (map_option JStr (pi_category p)) @
     prop_opt ''icon_url'' (map_option JStr (pi_icon_url p)) @ [(''chart_type'', JStr (pi_chart_type p))] @
     prop_opt ''chart_repo'' (map_option JStr (pi_chart_repo p)) @ prop_opt ''chart_name'' (map_option JStr (pi_chart_name p)) @
     prop_opt ''chart_blob_id'' (map_option (\<lambda>n. JNum (of_nat n)) (pi_chart_blob_id p)) @
     prop_opt ''default_version'' (map_option JStr (pi_default_version p)) @
     prop_opt ''default_values'' (map_option JStr (pi_default_values p)) @
     prop_opt ''default_release_namespace'' (map_option JStr (pi_release_namespace p)))"

definition plugins_url :: "string list \<Rightarrow> string" where
  "plugins_url segs = path ([''api'', ''v1'', ''plugins''] @ segs)"

definition cluster_plugins_url :: "string \<Rightarrow> string list \<Rightarrow> string" where
  "cluster_plugins_url clusterId segs = path ([''api'', ''v1'', ''clusters'', clusterId, ''plugins''] @ segs)"

definition listPlugins :: request where
  "listPlugins = GET (plugins_url []) []"

definition getPlugin :: "nat \<Rightarrow> request" where
  "getPlugin n = GET (plugins_url [show_nat n]) []"

definition createPlugin :: "PluginInput \<Rightarrow> request" where
  "createPlugin p = POST (plugins_url []) [] (JsonBody (input_json p))"

definition updatePlugin_entry :: "nat \<Rightarrow> PluginInput \<Rightarrow> request" where
  "updatePlugin_entry n p = \<lparr>rq_url = plugins_url [show_nat n], rq_method = ''PATCH'', rq_params = [],
     rq_body = JsonBody (input_json p), rq_headers = []\<rparr>"

definition deletePlugin :: "nat \<Rightarrow> request" where
  "deletePlugin n = DELETE (plugins_url [show_nat n]) []"

definition listClusterPlugins :: "string \<Rightarrow> request" where
  "listClusterPlugins clusterId = GET (cluster_plugins_url clusterId []) []"

definition enablePlugin :: "string \<Rightarrow> string \<Rightarrow> string \<Rightarrow> string \<Rightarrow> request" where
  "enablePlugin clusterId pluginName values_override version_override =
    POST (cluster_plugins_url clusterId [pluginName, ''enable'']) []
      (JsonBody (JObj [(''values_override'', JStr values_override), (''version_override'', JStr version_override)]))"

definition disablePlugin :: "string \<Rightarrow> string \<Rightarrow> request" where
  "disablePlugin clusterId pluginName = POST (cluster_plugins_url clusterId [pluginName, ''disable'']) [] NoBody"

section \<open>Cards in sections\<close>

definition CATEGORY_ORDER :: "string list" where
  "CATEGORY_ORDER = [''gpu'', ''scheduling'', ''networking'', ''storage'', ''monitoring'', ''logging'', ''security'', ''serving'', ''custom'']"

definition plugin_category :: "Plugin \<Rightarrow> string" where
  "plugin_category p = (case pl_category p of None \<Rightarrow> ''custom'' | Some c \<Rightarrow> c)"

text \<open>The map from categories to what they hold, in order.\<close>

definition by_category :: "('a \<Rightarrow> string) \<Rightarrow> 'a list \<Rightarrow> (string \<times> 'a list) list" where
  "by_category cat xs = fold (\<lambda>x m. AList.update (cat x) ((case map_of m (cat x) of None \<Rightarrow> [] | Some l \<Rightarrow> l) @ [x]) m) xs []"

definition sections :: "('a \<Rightarrow> string) \<Rightarrow> 'a list \<Rightarrow> (string \<times> 'a list) list" where
  "sections cat xs = List.map_filter (\<lambda>c. case map_of (by_category cat xs) c of
       None \<Rightarrow> None | Some l \<Rightarrow> if l = [] then None else Some (c, l)) CATEGORY_ORDER"

definition plugin_sections :: "Plugin list option \<Rightarrow> (string \<times> Plugin list) list" where
  "plugin_sections data = sections plugin_category (case data of None \<Rightarrow> [] | Some ps \<Rightarrow> ps)"

definition cluster_sections :: "ClusterPluginItem list option \<Rightarrow> (string \<times> ClusterPluginItem list) list" where
  "cluster_sections data = sections (\<lambda>it. plugin_category (ci_plugin it)) (case data of None \<Rightarrow> [] | Some its \<Rightarrow> its)"

text \<open>A card: avatar letters (of names in ASCII), title, subtitle, tags and buttons.\<close>

record PluginCard =
  pc_initial :: string
  pc_title :: string
  pc_subtitle :: string
  pc_builtin :: bool
  pc_description :: string
  pc_source :: "(string \<times> string) option"
  pc_version :: "string option"
  pc_buttons :: "string list"

definition source_tag :: "string \<Rightarrow> (string \<times> string) option" where
  "source_tag t =
    (if t = ''repo'' then Some (''pages.plugins.repoTag'', ''cyan'') else if t = ''oci'' then Some (''pages.plugins.ociTag'', ''geekblue'')
     else if t = ''local'' then Some (''pages.plugins.localTag'', ''purple'') else None)"

text \<open>view, edit and delete say which handlers the page passes; actions are its own buttons.\<close>

definition card_buttons :: "bool \<Rightarrow> bool \<Rightarrow> bool \<Rightarrow> string list \<Rightarrow> Plugin \<Rightarrow> string list" where
  "card_buttons view edit delete actions p =
    (if view then [''view''] else []) @ actions @
    (if \<not> pl_is_builtin p \<and> edit then [''edit''] else []) @ (if \<not> pl_is_builtin p \<and> delete then [''delete''] else [])"

definition plugin_card :: "bool \<Rightarrow> bool \<Rightarrow> bool \<Rightarrow> string list \<Rightarrow> Plugin \<Rightarrow> PluginCard" where
  "plugin_card view edit delete actions p =
    \<lparr>pc_initial = map upper_char (take 2 (if pl_display_name p = [] then pl_name p else pl_display_name p)),
     pc_title = pl_display_name p,
     pc_subtitle = (if or_empty (pl_chart_name p) = [] then pl_name p else or_empty (pl_chart_name p)),
     pc_builtin = pl_is_builtin p, pc_description = pl_description p, pc_source = source_tag (pl_chart_type p),
     pc_version = (if or_empty (pl_default_version p) = [] then None else pl_default_version p),
     pc_buttons = card_buttons view edit delete actions p\<rparr>"

subsection \<open>Phases on a cluster\<close>

definition LOGGABLE_PHASES :: "string list" where
  "LOGGABLE_PHASES = [''Pending'', ''Installing'', ''Upgrading'', ''Uninstalling'', ''Failed'']"

text \<open>Colour and boldness of a phase; None is a phase the table does not have.\<close>

definition PHASE_VISUALS :: "(string \<times> string \<times> bool) list" where
  "PHASE_VISUALS =
    [(''Disabled'', [], False), (''Pending'', ''warning'', False), (''Installing'', ''processing'', False),
     (''Upgrading'', ''processing'', False), (''Uninstalling'', ''warning'', False), (''Running'', ''success'', False),
     (''Failed'', ''error'', True)]"

datatype phase_hint = NoHint | HoverText string | CopyPanel string

definition PhaseTag :: "string \<Rightarrow> string option \<Rightarrow> (string \<times> (string \<times> bool) option \<times> phase_hint) option" where
  "PhaseTag phase msg =
    (case map_of PHASE_VISUALS phase of
       None \<Rightarrow> None
     | Some (color, bold) \<Rightarrow> Some (''pages.clusterPlugins.phase.'' @ phase, if color = [] then None else Some (color, bold),
         if or_empty msg = [] then NoHint else if phase = ''Failed'' then CopyPanel (or_empty msg) else HoverText (or_empty msg)))"

definition item_phase :: "ClusterPluginItem \<Rightarrow> string" where
  "item_phase it = (if ci_phase it = [] then ''Disabled'' else ci_phase it)"

definition cluster_actions :: "ClusterPluginItem \<Rightarrow> string list" where
  "cluster_actions it = (if item_phase it \<in> set LOGGABLE_PHASES then [''viewLog''] else []) @
     [if ci_enabled it then ''disable'' else ''enable'']"

definition renderCard :: "ClusterPluginItem \<Rightarrow> PluginCard \<times> (string \<times> (string \<times> bool) option \<times> phase_hint) option" where
  "renderCard it = (plugin_card True False False (cluster_actions it) (ci_plugin it), PhaseTag (item_phase it) (ci_message it))"

section \<open>The registry page and its drawer\<close>

record plugin_form =
  pf_name :: string
  pf_display_name :: string
  pf_description :: "string option"
  pf_category :: "string option"
  pf_icon_url :: "string option"
  pf_chart_repo :: "string option"
  pf_chart_name :: "string option"
  pf_default_version :: "string option"
  pf_release_namespace :: "string option"

definition blank_form :: plugin_form where
  "blank_form = \<lparr>pf_name = [], pf_display_name = [], pf_description = None, pf_category = Some ''custom'', pf_icon_url = None,
     pf_chart_repo = None, pf_chart_name = None, pf_default_version = None, pf_release_namespace = None\<rparr>"

definition form_of :: "Plugin \<Rightarrow> plugin_form" where
  "form_of p = \<lparr>pf_name = pl_name p, pf_display_name = pl_display_name p, pf_description = Some (pl_description p),
     pf_category = pl_category p, pf_icon_url = pl_icon_url p, pf_chart_repo = pl_chart_repo p, pf_chart_name = pl_chart_name p,
     pf_default_version = pl_default_version p, pf_release_namespace = pl_release_namespace p\<rparr>"

text \<open>/^[a-z0-9]([-a-z0-9]{0,61}[a-z0-9])?$/ and the rules of the fields shown for a chart type.\<close>

definition plugin_name_ok :: "string \<Rightarrow> bool" where
  "plugin_name_ok s \<longleftrightarrow> dns_label s \<and> length s \<le> 63"

definition plugin_form_ok :: "string \<Rightarrow> plugin_form \<Rightarrow> bool" where
  "plugin_form_ok ct f \<longleftrightarrow> plugin_name_ok (pf_name f) \<and> pf_display_name f \<noteq> [] \<and>
    (if ct = ''repo'' then or_empty (pf_chart_repo f) \<noteq> [] \<and> or_empty (pf_chart_name f) \<noteq> []
     else if ct = ''oci'' then starts_with ''oci://'' (or_empty (pf_chart_repo f)) else True)"

text \<open>The body of handleSubmit: None when the form is refused, a message in place of a body
  when a local chart has no upload.\<close>

definition shown_input :: "string \<Rightarrow> plugin_form \<Rightarrow> string \<Rightarrow> PluginInput" where
  "shown_input ct f vals =
    \<lparr>pi_name = pf_name f, pi_display_name = pf_display_name f, pi_description = pf_description f, pi_category = pf_category f,
     pi_icon_url = pf_icon_url f, pi_chart_type = ct,
     pi_chart_repo = (if ct = ''repo'' \<or> ct = ''oci'' then pf_chart_repo f else None),
     pi_chart_name = (if ct = ''repo'' then pf_chart_name f else None), pi_chart_blob_id = None,
     pi_default_version = pf_default_version f, pi_default_values = Some vals, pi_release_namespace = pf_release_namespace f\<rparr>"

definition named_chart :: "PluginInput \<Rightarrow> PluginInput" where
  "named_chart b = (if or_empty (pi_chart_name b) = [] then b\<lparr>pi_chart_name := Some (pi_display_name b)\<rparr> else b)"

definition plugin_body :: "string \<Rightarrow> plugin_form \<Rightarrow> string \<Rightarrow> nat option \<Rightarrow> (string + PluginInput) option" where
  "plugin_body ct f vals uploaded =
    (if \<not> plugin_form_ok ct f then None
     else let b = shown_input ct f vals
       in if ct = ''local'' then (case uploaded of
              None \<Rightarrow> Some (Inl ''errors.PLUGIN_CHART_MISSING'')
            | Some n \<Rightarrow> Some (Inr (named_chart (b\<lparr>pi_chart_blob_id := Some n\<rparr>))))
          else if ct = ''oci'' then Some (Inr (named_chart b))
          else Some (Inr b))"

record plugin_drawer =
  dr_open :: bool
  dr_editing :: "Plugin option"
  dr_readOnly :: bool
  dr_form :: plugin_form
  dr_chartType :: string
  dr_values :: string
  dr_uploaded :: "(nat \<times> string) option"
  dr_submitting :: bool
  dr_uploading :: bool
  dr_wanted :: "nat list"
  dr_sent :: "Plugin option option"
  dr_toasts :: "string list"

definition dr_init :: plugin_drawer where
  "dr_init = \<lparr>dr_open = False, dr_editing = None, dr_readOnly = False, dr_form = blank_form, dr_chartType = ''repo'', dr_values = [],
     dr_uploaded = None, dr_submitting = False, dr_uploading = False, dr_wanted = [], dr_sent = None, dr_toasts = []\<rparr>"

text \<open>The effect of an opening: the form of the plugin, or the blank one; the default values are
  requested when the list omitted them.\<close>

definition sync_effect :: "plugin_drawer \<Rightarrow> plugin_drawer \<times> request list" where
  "sync_effect s =
    (case dr_editing s of
       None \<Rightarrow> (s\<lparr>dr_form := blank_form, dr_chartType := ''repo'', dr_values := [], dr_uploaded := None\<rparr>, [])
     | Some p \<Rightarrow>
        (let s1 = s\<lparr>dr_form := form_of p, dr_chartType := pl_chart_type p, dr_values := or_empty (pl_default_values p),
             dr_uploaded := (case pl_chart_blob_id p of None \<Rightarrow> None | Some n \<Rightarrow> if n = 0 then None else Some (n, []))\<rparr>
         in if pl_default_values p = None then (s1\<lparr>dr_wanted := dr_wanted s @ [pl_id p]\<rparr>, [getPlugin (pl_id p)]) else (s1, [])))"

definition open_plugin :: "Plugin option \<Rightarrow> bool \<Rightarrow> plugin_drawer \<Rightarrow> plugin_drawer \<times> request list" where
  "open_plugin e ro s =
    (let s1 = s\<lparr>dr_open := True, dr_editing := e, dr_readOnly := ro\<rparr>
     in if dr_open s \<and> dr_editing s = e then (s1, []) else sync_effect s1)"

text \<open>The answer to a request for default values, whichever plugin is open by then.\<close>

definition values_answer :: "nat \<Rightarrow> Plugin option \<Rightarrow> plugin_drawer \<Rightarrow> plugin_drawer" where
  "values_answer n r s =
    (if n \<notin> set (dr_wanted s) then s
     else let s1 = s\<lparr>dr_wanted := remove1 n (dr_wanted s)\<rparr>
       in case r of None \<Rightarrow> s1 | Some p \<Rightarrow> s1\<lparr>dr_values := or_empty (pl_default_values p)\<rparr>)"

definition submit_plugin :: "plugin_drawer \<Rightarrow> plugin_drawer \<times> request list" where
  "submit_plugin s =
    (if \<not> dr_open s \<or> dr_readOnly s \<or> dr_submitting s then (s, [])
     else case plugin_body (dr_chartType s) (dr_form s) (dr_values s) (map_option fst (dr_uploaded s)) of
         None \<Rightarrow> (s, [])
       | Some (Inl m) \<Rightarrow> (s\<lparr>dr_toasts := dr_toasts s @ [m]\<rparr>, [])
       | Some (Inr b) \<Rightarrow> (s\<lparr>dr_submitting := True, dr_sent := Some (dr_editing s)\<rparr>,
           [case dr_editing s of Some p \<Rightarrow> updatePlugin_entry (pl_id p) b | None \<Rightarrow> createPlugin b]))"

text \<open>The answer: a success shows a message, reloads the list and closes the drawer.\<close>

definition saved_plugin :: "bool \<Rightarrow> plugin_drawer \<Rightarrow> plugin_drawer \<times> request list" where
  "saved_plugin ok s =
    (case dr_sent s of
       None \<Rightarrow> (s, [])
     | Some e \<Rightarrow>
        (let s1 = s\<lparr>dr_submitting := False, dr_sent := None\<rparr>
         in if \<not> ok then (s1, [])
            else (s1\<lparr>dr_open := False, dr_toasts := dr_toasts s @
                [if e = None then ''pages.plugins.create.success'' else ''pages.plugins.update.success'']\<rparr>, [listPlugins])))"

datatype plugin_act =
    OpenPlugin "Plugin option" bool
  | ClosePlugin
  | EditPluginForm plugin_form
  | PickChartType string
  | TypeDefaults string
  | ValuesAnswer nat "Plugin option"
  | UploadStarted
  | Uploaded "(nat \<times> string) option"
  | SubmitPlugin
  | PluginSaved bool
  | DeletePlugin Plugin
  | PluginDeleted bool

fun plugin_step :: "plugin_act \<Rightarrow> plugin_drawer \<Rightarrow> plugin_drawer \<times> request list" where
  "plugin_step (OpenPlugin e ro) s = open_plugin e ro s"
| "plugin_step ClosePlugin s = (s\<lparr>dr_open := False\<rparr>, [])"
| "plugin_step (EditPluginForm f) s =
    (s\<lparr>dr_form := (if dr_editing s = None then f else f\<lparr>pf_name := pf_name (dr_form s)\<rparr>)\<rparr>, [])"
| "plugin_step (PickChartType t) s = (s\<lparr>dr_chartType := t\<rparr>, [])"
| "plugin_step (TypeDefaults v) s = (s\<lparr>dr_values := v\<rparr>, [])"
| "plugin_step (ValuesAnswer n r) s = (values_answer n r s, [])"
| "plugin_step UploadStarted s = (s\<lparr>dr_uploading := True\<rparr>, [])"
| "plugin_step (Uploaded r) s =
    (case r of None \<Rightarrow> s\<lparr>dr_uploading := False\<rparr>
     | Some u \<Rightarrow> s\<lparr>dr_uploading := False, dr_uploaded := Some u, dr_toasts := dr_toasts s @ [''pages.plugins.form.uploadSuccess'']\<rparr>, [])"
| "plugin_step SubmitPlugin s = submit_plugin s"
| "plugin_step (PluginSaved ok) s = saved_plugin ok s"
| "plugin_step (DeletePlugin p) s = (s, [deletePlugin (pl_id p)])"
| "plugin_step (PluginDeleted ok) s =
    (if ok then (s\<lparr>dr_toasts := dr_toasts s @ [''pages.plugins.delete.success'']\<rparr>, [listPlugins]) else (s, []))"

definition plugin_run :: "plugin_act list \<Rightarrow> plugin_drawer \<Rightarrow> plugin_drawer" where
  "plugin_run as s = fold (\<lambda>a s. fst (plugin_step a s)) as s"

section \<open>Every plugin in its section\<close>

lemma by_category_get:
  "map_of (by_category cat xs) c = (let l = filter (\<lambda>x. cat x = c) xs in if l = [] then None else Some l)"
  unfolding by_category_def
proof (induction xs rule: rev_induct)
  case (snoc x xs)
  then show ?case by (auto simp: update_conv' Let_def split: option.splits if_splits)
qed simp

lemma map_filter_if: "List.map_filter (\<lambda>x. if P x then None else Some (f x)) xs = map f (filter (\<lambda>x. \<not> P x) xs)"
  by (induction xs) (auto simp: List.map_filter_def)

text \<open>The sections of both pages: every plugin whose category is in the list appears in the
  section of its category and in no other, in the order of the answer, and a section without
  plugins is not shown.\<close>

lemma sections_eq:
  "sections cat xs = map (\<lambda>c. (c, filter (\<lambda>x. cat x = c) xs)) (filter (\<lambda>c. filter (\<lambda>x. cat x = c) xs \<noteq> []) CATEGORY_ORDER)"
proof -
  have "(\<lambda>c. case map_of (by_category cat xs) c of None \<Rightarrow> None | Some l \<Rightarrow> if l = [] then None else Some (c, l)) =
      (\<lambda>c. if filter (\<lambda>x. cat x = c) xs = [] then None else Some (c, filter (\<lambda>x. cat x = c) xs))"
    by (rule ext) (simp add: by_category_get Let_def)
  then show ?thesis unfolding sections_def by (simp add: map_filter_if)
qed

section \<open>Editing a plugin\<close>

text \<open>What the page itself stores for a chart type: no upload for the two remote ones, the
  display name as the chart's where its field is not shown.\<close>

definition stored_ok :: "Plugin \<Rightarrow> bool" where
  "stored_ok p \<longleftrightarrow> plugin_form_ok (pl_chart_type p) (form_of p) \<and>
    (if pl_chart_type p = ''repo'' then pl_chart_blob_id p = None
     else if pl_chart_type p = ''oci'' then pl_chart_blob_id p = None \<and> pl_chart_name p = Some (pl_display_name p)
     else pl_chart_type p = ''local'' \<and> pl_chart_blob_id p \<noteq> None \<and> pl_chart_blob_id p \<noteq> Some 0 \<and> pl_chart_repo p = None \<and>
       pl_chart_name p = Some (pl_display_name p))"

definition own_input :: "Plugin \<Rightarrow> PluginInput" where
  "own_input p =
    \<lparr>pi_name = pl_name p, pi_display_name = pl_display_name p, pi_description = Some (pl_description p),
     pi_category = pl_category p, pi_icon_url = pl_icon_url p, pi_chart_type = pl_chart_type p, pi_chart_repo = pl_chart_repo p,
     pi_chart_name = pl_chart_name p, pi_chart_blob_id = pl_chart_blob_id p, pi_default_version = pl_default_version p,
     pi_default_values = pl_default_values p, pi_release_namespace = pl_release_namespace p\<rparr>"

lemma body_of_stored:
  assumes "stored_ok p"
  shows "plugin_body (pl_chart_type p) (form_of p) v (case pl_chart_blob_id p of None \<Rightarrow> None | Some n \<Rightarrow> if n = 0 then None else Some n) =
    Some (Inr ((own_input p)\<lparr>pi_default_values := Some v\<rparr>))"
proof -
  have f: "plugin_form_ok (pl_chart_type p) (form_of p)" using assms by (simp add: stored_ok_def)
  have "pl_chart_type p = ''local''" if "pl_chart_type p \<noteq> ''repo''" "pl_chart_type p \<noteq> ''oci''"
    using assms that unfolding stored_ok_def by meson
  then consider "pl_chart_type p = ''repo''" | "pl_chart_type p = ''oci''" | "pl_chart_type p = ''local''" by blast
  then show ?thesis
  proof cases
    case 1
    then show ?thesis using assms f by (simp add: stored_ok_def plugin_body_def shown_input_def own_input_def form_of_def)
  next
    case 2
    then show ?thesis using assms f
      by (simp add: stored_ok_def plugin_body_def shown_input_def own_input_def named_chart_def or_empty_def) (simp add: form_of_def)
  next
    case 3
    then have "pl_chart_blob_id p \<noteq> None" "pl_chart_blob_id p \<noteq> Some 0" using assms by (simp_all add: stored_ok_def)
    then obtain n where "pl_chart_blob_id p = Some n" "n \<noteq> 0" by auto
    then show ?thesis using 3 assms f
      by (simp add: stored_ok_def plugin_body_def shown_input_def own_input_def named_chart_def or_empty_def) (simp add: form_of_def)
  qed
qed


definition demo_plugin :: "nat \<Rightarrow> string option \<Rightarrow> Plugin" where
  "demo_plugin n vals = \<lparr>pl_id = n, pl_name = ''vm'', pl_display_name = ''VM'', pl_description = [], pl_category = Some ''monitoring'',
     pl_is_builtin = False, pl_icon_url = None, pl_chart_type = ''oci'', pl_chart_repo = Some ''oci://r/vm'',
     pl_chart_name = Some ''VM'', pl_chart_blob_id = None, pl_default_version = Some ''1.0'', pl_default_values = vals,
     pl_release_namespace = Some ''mon''\<rparr>"


text \<open>A plugin of the list has no default values: saved before they have arrived, or after
  their request has failed, it loses them.\<close>

lemma saving_early_wipes_the_values:
  "let s = plugin_run [OpenPlugin (Some (demo_plugin 7 None)) False] dr_init
   in snd (plugin_step SubmitPlugin s) = [updatePlugin_entry 7 ((own_input (demo_plugin 7 None))\<lparr>pi_default_values := Some []\<rparr>)]"
  by code_simp

text \<open>The values of a plugin opened before arrive in the editor of the one that is open.\<close>

lemma late_values_reach_another_plugin:
  "let s = plugin_run [OpenPlugin (Some (demo_plugin 7 None)) False, ClosePlugin, OpenPlugin (Some (demo_plugin 8 None)) False,
      ValuesAnswer 8 (Some (demo_plugin 8 (Some ''b: 2''))), ValuesAnswer 7 (Some (demo_plugin 7 (Some ''a: 1'')))] dr_init
   in snd (plugin_step SubmitPlugin s) = [updatePlugin_entry 8 ((own_input (demo_plugin 8 None))\<lparr>pi_default_values := Some ''a: 1''\<rparr>)]"
  by code_simp

end
