(* ===== verification/ClusterPlugins.thy ===== *)
theory ClusterPlugins
  imports Plugins
begin

text \<open>
  The plugins of a cluster: the drawer of pages/ClusterDetail/Plugins/EnableDrawer.tsx as a
  state machine, and the page that opens it, with the disabling of a plugin and the target
  of the install log (whose drawer is in StreamDrawers).

  The opening effect is numbered; its clean-up cancels the request it sent.  None is the
  answer of a failed request or an empty one.
\<close>

section \<open>The enable drawer\<close>

record enable_drawer =
  en_target :: "ClusterPluginItem option"
  en_version :: string
  en_values :: string
  en_default :: string
  en_run :: nat
  en_flights :: "(nat \<times> nat) list"
  en_submitting :: bool
  en_sent :: "ClusterPluginItem option"
  en_toasts :: "string list"

definition en_init :: enable_drawer where
  "en_init = \<lparr>en_target = None, en_version = [], en_values = [], en_default = [], en_run = 0, en_flights = [],
     en_submitting = False, en_sent = None, en_toasts = []\<rparr>"

definition open_enable :: "ClusterPluginItem \<Rightarrow> enable_drawer \<Rightarrow> enable_drawer" where
  "open_enable it s =
    s\<lparr>en_target := Some it, en_version := or_empty (ci_version_override it), en_values := or_empty (ci_values_override it),
      en_default := [], en_run := Suc (en_run s), en_flights := (Suc (en_run s), pl_id (ci_plugin it)) # en_flights s\<rparr>"

definition close_enable :: "enable_drawer \<Rightarrow> enable_drawer" where
  "close_enable s = s\<lparr>en_target := None, en_run := Suc (en_run s)\<rparr>"

text \<open>The registry defaults arrive; they seed the editor of a target without an override.\<close>

definition defaults_answer :: "nat \<Rightarrow> Plugin option \<Rightarrow> enable_drawer \<Rightarrow> enable_drawer" where
  "defaults_answer n r s =
    (let s1 = s\<lparr>en_flights := filter (\<lambda>l. fst l \<noteq> n) (en_flights s)\<rparr>
     in if n \<notin> fst ` set (en_flights s) then s
        else case (en_target s, r) of
            (Some it, Some p) \<Rightarrow>
              if n \<noteq> en_run s then s1
              else let def = or_empty (pl_default_values p)
                in s1\<lparr>en_default := def, en_values := (if or_empty (ci_values_override it) = [] then def else en_values s)\<rparr>
          | _ \<Rightarrow> s1)"

definition handleReset :: "enable_drawer \<Rightarrow> enable_drawer" where
  "handleReset s =
    (if en_target s = None then s
     else if en_default s = [] then s\<lparr>en_toasts := en_toasts s @ [''pages.plugins.enable.reset.unavailable'']\<rparr>
     else s\<lparr>en_values := en_default s, en_version := []\<rparr>)"

definition submit_enable :: "string \<Rightarrow> enable_drawer \<Rightarrow> enable_drawer \<times> request list" where
  "submit_enable clusterId s =
    (case en_target s of
       None \<Rightarrow> (s, [])
     | Some it \<Rightarrow> if en_submitting s then (s, [])
         else (s\<lparr>en_submitting := True, en_sent := Some it\<rparr>,
           [enablePlugin clusterId (pl_name (ci_plugin it)) (en_values s) (en_version s)]))"

datatype enable_act =
    OpenEnable ClusterPluginItem
  | CloseEnable
  | DefaultsAnswer nat "Plugin option"
  | TypeVersion string
  | TypeValues string
  | ResetEnable
  | SubmitEnable
  | EnableSaved bool

definition enable_saved :: "bool \<Rightarrow> enable_drawer \<Rightarrow> enable_drawer" where
  "enable_saved ok s =
    (case en_sent s of
       None \<Rightarrow> s
     | Some it \<Rightarrow>
        (let s1 = s\<lparr>en_submitting := False, en_sent := None\<rparr>
         in if ok then close_enable (s1\<lparr>en_toasts := en_toasts s @ [''pages.clusterPlugins.enable.success'']\<rparr>) else s1))"

definition enable_step :: "string \<Rightarrow> enable_act \<Rightarrow> enable_drawer \<Rightarrow> enable_drawer" where
  "enable_step clusterId a s =
    (case a of
       OpenEnable it \<Rightarrow> open_enable it s
     | CloseEnable \<Rightarrow> close_enable s
     | DefaultsAnswer n r \<Rightarrow> defaults_answer n r s
     | TypeVersion v \<Rightarrow> s\<lparr>en_version := v\<rparr>
     | TypeValues v \<Rightarrow> s\<lparr>en_values := v\<rparr>
     | ResetEnable \<Rightarrow> handleReset s
     | SubmitEnable \<Rightarrow> fst (submit_enable clusterId s)
     | EnableSaved ok \<Rightarrow> enable_saved ok s)"

section \<open>The page\<close>

text \<open>The drawer that enables, the one that only shows, and the plugin whose log is open.\<close>

record cluster_plugins =
  cg_enable :: enable_drawer
  cg_viewing :: enable_drawer
  cg_log :: "ClusterPluginItem option"
  cg_toasts :: "string list"

datatype cluster_plugins_act =
    EnableDrawerAct enable_act
  | ViewDrawerAct enable_act
  | ViewLog ClusterPluginItem
  | CloseLog
  | Disable ClusterPluginItem
  | Disabled ClusterPluginItem bool

text \<open>What the viewing drawer lets through: it is read-only.\<close>

definition view_act :: "enable_act \<Rightarrow> bool" where
  "view_act a \<longleftrightarrow> (case a of OpenEnable _ \<Rightarrow> True | CloseEnable \<Rightarrow> True | DefaultsAnswer _ _ \<Rightarrow> True | _ \<Rightarrow> False)"

definition enable_requests :: "string \<Rightarrow> enable_act \<Rightarrow> enable_drawer \<Rightarrow> request list" where
  "enable_requests clusterId a s =
    (case a of
       OpenEnable it \<Rightarrow> [getPlugin (pl_id (ci_plugin it))]
     | SubmitEnable \<Rightarrow> snd (submit_enable clusterId s)
     | EnableSaved ok \<Rightarrow> if ok \<and> en_sent s \<noteq> None then [listClusterPlugins clusterId] else []
     | _ \<Rightarrow> [])"

definition cluster_plugins_step :: "string \<Rightarrow> cluster_plugins_act \<Rightarrow> cluster_plugins \<Rightarrow> cluster_plugins \<times> request list" where
  "cluster_plugins_step clusterId a s =
    (case a of
       EnableDrawerAct e \<Rightarrow>
         (s\<lparr>cg_enable := enable_step clusterId e (cg_enable s),
            cg_log := (case e of EnableSaved ok \<Rightarrow> if ok \<and> en_sent (cg_enable s) \<noteq> None then en_sent (cg_enable s) else cg_log s
              | _ \<Rightarrow> cg_log s)\<rparr>,
          enable_requests clusterId e (cg_enable s))
     | ViewDrawerAct e \<Rightarrow>
         if view_act e then (s\<lparr>cg_viewing := enable_step clusterId e (cg_viewing s)\<rparr>, enable_requests clusterId e (cg_viewing s))
         else (s, [])
     | ViewLog it \<Rightarrow> (if item_phase it \<in> set LOGGABLE_PHASES then s\<lparr>cg_log := Some it\<rparr> else s, [])
     | CloseLog \<Rightarrow> (s\<lparr>cg_log := None\<rparr>, [])
     | Disable it \<Rightarrow> (s, if ci_enabled it then [disablePlugin clusterId (pl_name (ci_plugin it))] else [])
     | Disabled it ok \<Rightarrow>
         if ok then (s\<lparr>cg_log := Some it, cg_toasts := cg_toasts s @ [''pages.clusterPlugins.disable.success'']\<rparr>, [listClusterPlugins clusterId])
         else (s, []))"

section \<open>The defaults are those of the target\<close>

definition en_plugin :: "enable_drawer \<Rightarrow> nat option" where
  "en_plugin s = map_option (\<lambda>it. pl_id (ci_plugin it)) (en_target s)"

definition en_loaded :: "enable_drawer \<Rightarrow> string option" where
  "en_loaded s = (if en_target s = None \<or> en_default s = [] then None else Some (en_default s))"

text \<open>The server answers a request for a plugin with that plugin's defaults.\<close>

definition en_fair :: "(nat \<Rightarrow> string) \<Rightarrow> enable_act \<Rightarrow> enable_drawer \<Rightarrow> bool" where
  "en_fair registry a s \<longleftrightarrow> (case a of
     DefaultsAnswer n (Some p) \<Rightarrow> (\<forall>i. (n, i) \<in> set (en_flights s) \<longrightarrow> or_empty (pl_default_values p) = registry i)
   | _ \<Rightarrow> True)"

lemma enable_step_other:
  "(\<nexists>it. a = OpenEnable it) \<Longrightarrow> (\<nexists>n r. a = DefaultsAnswer n r) \<Longrightarrow>
   (en_run (enable_step c a s) = en_run s \<and> en_target (enable_step c a s) = en_target s \<or>
    en_run (enable_step c a s) = Suc (en_run s) \<and> en_target (enable_step c a s) = None) \<and>
   en_flights (enable_step c a s) = en_flights s \<and> en_default (enable_step c a s) = en_default s"
  by (cases a) (auto simp: enable_step_def close_enable_def handleReset_def submit_enable_def enable_saved_def Let_def split: option.split)

lemma defaults_answer_facts:
  "en_run (defaults_answer n r s) = en_run s" "en_target (defaults_answer n r s) = en_target s"
  "set (en_flights (defaults_answer n r s)) \<subseteq> set (en_flights s)"
  by (auto simp: defaults_answer_def Let_def split: option.split)

lemma defaults_answer_default:
  "en_default (defaults_answer n r s) = en_default s \<or>
   (\<exists>p it. r = Some p \<and> en_target s = Some it \<and> n = en_run s \<and> n \<in> fst ` set (en_flights s) \<and>
     en_default (defaults_answer n r s) = or_empty (pl_default_values p))"
  by (auto simp: defaults_answer_def Let_def split: option.split)

interpretation enable_load: effect_loader "enable_step c" en_run en_flights en_plugin en_loaded
  "\<lambda>i v. v = registry i \<and> v \<noteq> []" "en_fair registry"
proof (unfold_locales, goal_cases)
  case (1 s a)
  then show ?case
  proof (cases "(\<exists>it. a = OpenEnable it) \<or> (\<exists>n r. a = DefaultsAnswer n r)")
    case True
    then show ?thesis by (auto simp: enable_step_def open_enable_def defaults_answer_facts)
  qed (use enable_step_other[of a c s] in auto)
next
  case (2 a s)
  then show ?case
  proof (cases "(\<exists>it. a = OpenEnable it) \<or> (\<exists>n r. a = DefaultsAnswer n r)")
    case True
    then show ?thesis using 2 by (auto simp: enable_step_def open_enable_def defaults_answer_facts en_plugin_def)
  qed (use 2 enable_step_other[of a c s] in \<open>auto simp: en_plugin_def\<close>)
next
  case (3 l a s)
  then show ?case
  proof (cases "(\<exists>it. a = OpenEnable it) \<or> (\<exists>n r. a = DefaultsAnswer n r)")
    case True
    then show ?thesis using 3 defaults_answer_facts(3) by (fastforce simp: enable_step_def open_enable_def en_plugin_def)
  qed (use 3 enable_step_other[of a c s] in auto)
next
  case (4 a s v)
  consider (o) it where "a = OpenEnable it" | (d) n r where "a = DefaultsAnswer n r"
    | (x) "\<nexists>it. a = OpenEnable it" "\<nexists>n r. a = DefaultsAnswer n r" by blast
  then show ?case
  proof cases
    case o
    then show ?thesis using 4 by (simp add: enable_step_def open_enable_def en_loaded_def)
  next
    case d
    have st: "enable_step c a s = defaults_answer n r s" using d by (simp add: enable_step_def)
    from defaults_answer_default[of n r s] show ?thesis
    proof
      assume "en_default (defaults_answer n r s) = en_default s"
      then show ?thesis using 4 st by (auto simp: en_loaded_def defaults_answer_facts)
    next
      assume "\<exists>p it. r = Some p \<and> en_target s = Some it \<and> n = en_run s \<and> n \<in> fst ` set (en_flights s) \<and>
        en_default (defaults_answer n r s) = or_empty (pl_default_values p)"
      then show ?thesis using 4 st d by (auto simp: en_loaded_def defaults_answer_facts en_fair_def split: if_splits)
    qed
  next
    case x
    then show ?thesis using 4 enable_step_other[OF x, of c s] by (auto simp: en_loaded_def split: if_splits)
  qed
qed

text \<open>C31. Resetting never blanks the values and never takes another plugin's: after any sequence
  of openings, answers and edits, a reset either leaves the editor as it is or puts into it
  the registry's current default of the plugin on screen, which is not empty.\<close>

theorem reset_takes_the_registry_default:
  assumes "fair_run (enable_step c) (en_fair registry) en_init as" "s = fold (enable_step c) as en_init"
    "en_values (enable_step c ResetEnable s) \<noteq> en_values s"
  shows "\<exists>it. en_target s = Some it \<and> en_values (enable_step c ResetEnable s) = registry (pl_id (ci_plugin it)) \<and>
    en_values (enable_step c ResetEnable s) \<noteq> []"
proof -
  have "enable_load.loads_ok registry en_init" by (rule enable_load.loads_ok_start) (simp_all add: en_init_def en_loaded_def)
  then have ok: "enable_load.loads_ok registry s" unfolding assms(2) using assms(1) by (rule enable_load.loads_ok_run)
  have d: "en_target s \<noteq> None" "en_default s \<noteq> []" "en_values (enable_step c ResetEnable s) = en_default s"
    using assms(3) by (auto simp: enable_step_def handleReset_def split: if_splits)
  then have "en_loaded s = Some (en_default s)" by (simp add: en_loaded_def)
  from enable_load.loaded_is_of_target[OF ok this] show ?thesis using d by (auto simp: en_plugin_def)
qed

definition demo_item :: "nat \<Rightarrow> string option \<Rightarrow> ClusterPluginItem" where
  "demo_item n vals = \<lparr>ci_plugin = demo_plugin n None, ci_enabled = False, ci_phase = ''Disabled'', ci_message = None,
     ci_version_override = None, ci_values_override = vals\<rparr>"

definition demo_enable :: "enable_act list" where
  "demo_enable = [OpenEnable (demo_item 7 None), CloseEnable, OpenEnable (demo_item 8 (Some ''mine'')),
     DefaultsAnswer 1 (Some (demo_plugin 7 (Some ''a: 1''))), DefaultsAnswer 3 (Some (demo_plugin 8 (Some ''b: 2'')))]"

lemma reset_takes_the_registry_default_witness:
  "let s = fold (enable_step ''c'') demo_enable en_init
   in \<exists>it. en_target s = Some it \<and> en_values (enable_step ''c'' ResetEnable s) = (if pl_id (ci_plugin it) = 7 then ''a: 1'' else ''b: 2'') \<and>
    en_values (enable_step ''c'' ResetEnable s) \<noteq> []"
  unfolding Let_def
  by (rule reset_takes_the_registry_default[where registry = "\<lambda>i. if i = 7 then ''a: 1'' else ''b: 2''", OF _ refl])
    (simp add: demo_enable_def en_fair_def enable_step_def open_enable_def close_enable_def defaults_answer_def en_init_def
      demo_item_def demo_plugin_def or_empty_def, code_simp)

text \<open>What is typed before the defaults arrive is overwritten by them.\<close>

lemma defaults_overwrite_typing:
  "let s = fold (enable_step c) [OpenEnable (demo_item 7 None), TypeValues ''typed'', DefaultsAnswer 1 (Some (demo_plugin 7 (Some ''a: 1'')))] en_init
   in en_values s = ''a: 1''"
  by code_simp

text \<open>The success of one plugin closes the drawer of another that was opened meanwhile.\<close>

lemma saving_closes_another_drawer:
  "let s = fold (enable_step c) [OpenEnable (demo_item 7 None), SubmitEnable, CloseEnable, OpenEnable (demo_item 8 None),
      TypeValues ''typed'', EnableSaved True] en_init
   in en_target s = None"
  by code_simp

end
