(* ===== verification/SystemIndex.thy ===== *)
theory SystemIndex
  imports SystemSeries Quantity
begin

text \<open>
  The landing page of the system monitor, pages/System/index.tsx: the poll of nodes and
  newest snapshots, and the cells of its table.  time_of parses a date, in milliseconds.
\<close>

section \<open>The poll\<close>

record SystemNode =
  sn_node_id :: string
  sn_kind :: string
  sn_cluster_name :: "string option"
  sn_online :: bool
  sn_diag_available :: bool

record SystemSnapshotEnvelope =
  se_node_id :: string
  se_snapshot :: "SystemSnapshot option"

text \<open>ri_last is the ref with the newest batch; a later envelope of a node replaces an earlier.\<close>

record system_index =
  ri_nodes :: "SystemNode list"
  ri_envelopes :: "string \<rightharpoonup> SystemSnapshotEnvelope"
  ri_prev :: "string \<rightharpoonup> SystemSnapshotEnvelope"
  ri_last :: "string \<rightharpoonup> SystemSnapshotEnvelope"
  ri_loading :: bool
  ri_inflight :: bool

definition by_node :: "SystemSnapshotEnvelope list \<Rightarrow> (string \<rightharpoonup> SystemSnapshotEnvelope)" where
  "by_node batch = fold (\<lambda>e m. m(se_node_id e \<mapsto> e)) batch Map.empty"

definition ri_init :: system_index where
  "ri_init = \<lparr>ri_nodes = [], ri_envelopes = Map.empty, ri_prev = Map.empty, ri_last = Map.empty, ri_loading = True, ri_inflight = False\<rparr>"

text \<open>A poll while one is in flight does nothing; the answer is None when a request failed,
  and lists may be absent.\<close>

datatype index_act = ReloadTick | IndexAnswer "(SystemNode list option \<times> SystemSnapshotEnvelope list option) option"

definition reload :: "system_index \<Rightarrow> system_index \<times> request list" where
  "reload s = (if ri_inflight s then (s, []) else (s\<lparr>ri_inflight := True\<rparr>, [listSystemNodes, batchSystemSnapshots]))"

definition index_answer :: "(SystemNode list option \<times> SystemSnapshotEnvelope list option) option \<Rightarrow> system_index \<Rightarrow> system_index" where
  "index_answer r s =
    (if \<not> ri_inflight s then s
     else let s1 = s\<lparr>ri_loading := False, ri_inflight := False\<rparr>
       in case r of
           None \<Rightarrow> s1
         | Some (list, batch) \<Rightarrow>
            (let fresh = by_node (case batch of None \<Rightarrow> [] | Some es \<Rightarrow> es)
             in s1\<lparr>ri_nodes := (case list of None \<Rightarrow> [] | Some ns \<Rightarrow> ns), ri_prev := ri_last s, ri_last := fresh, ri_envelopes := fresh\<rparr>))"

fun index_step :: "index_act \<Rightarrow> system_index \<Rightarrow> system_index" where
  "index_step ReloadTick s = fst (reload s)"
| "index_step (IndexAnswer r) s = index_answer r s"

section \<open>Cells\<close>

definition snapshot_of :: "(string \<rightharpoonup> SystemSnapshotEnvelope) \<Rightarrow> string \<Rightarrow> SystemSnapshot option" where
  "snapshot_of m n = Option.bind (m n) se_snapshot"

definition node_cell :: "SystemNode \<Rightarrow> string \<times> string" where
  "node_cell n =
    (if sn_kind n = ''server'' then (''system.kind.server'', ''control-plane'')
     else (''system.kind.worker'', case sn_cluster_name n of None \<Rightarrow> sn_node_id n | Some c \<Rightarrow> if c = [] then sn_node_id n else c))"

definition status_cell :: "SystemNode \<Rightarrow> string \<times> string" where
  "status_cell n =
    (if \<not> sn_online n then (''default'', ''system.status.offline'')
     else if \<not> sn_diag_available n then (''warning'', ''system.status.noDiag'')
     else (''success'', ''system.status.online''))"

definition uptime_cell :: "SystemSnapshot option \<Rightarrow> string" where
  "uptime_cell cur = (case cur of None \<Rightarrow> dash | Some s \<Rightarrow> formatDurationSeconds (Some (si_uptime_seconds (ss_identity s))))"

definition goroutines_cell :: "SystemSnapshot option \<Rightarrow> string" where
  "goroutines_cell cur = (case cur of None \<Rightarrow> dash | Some s \<Rightarrow> formatBigNumber (Some (rt_goroutines (ss_runtime s))))"

text \<open>Share and cores from the snapshot of the last poll and that of the poll before.\<close>

definition cpu_of_row :: "(string \<Rightarrow> int) \<Rightarrow> SystemSnapshot option \<Rightarrow> SystemSnapshot \<Rightarrow> rat \<times> rat" where
  "cpu_of_row time_of prev cur =
    (case prev of
       None \<Rightarrow> (0, 0)
     | Some p \<Rightarrow>
        (let wallSec = wall_seconds time_of p cur; procDelta = proc_cpu (ss_runtime cur) - proc_cpu (ss_runtime p)
         in if wallSec > 0 \<and> procDelta \<ge> 0 then (clamp_share (procDelta / wallSec / num_cpu cur), procDelta / wallSec) else (0, 0)))"

record bar_cell =
  bc_percent :: rat
  bc_color :: string
  bc_text :: string

definition mid_dot :: string where
  "mid_dot = '' '' @ [CHR 0xC2, CHR 0xB7] @ '' ''"

definition cpu_cell :: "(string \<Rightarrow> int) \<Rightarrow> color_token \<Rightarrow> SystemSnapshot option \<Rightarrow> SystemSnapshot option \<Rightarrow> bar_cell option" where
  "cpu_cell time_of token prev cur =
    (case cur of
       None \<Rightarrow> None
     | Some s \<Rightarrow>
        (let (pct, cores) = cpu_of_row time_of prev s
         in Some \<lparr>bc_percent = pct * 100, bc_color = usageColor (Some pct) token,
              bc_text = formatPercent 1 (Some pct) @ mid_dot @ to_fixed 2 cores @ '' / '' @ show_num (si_num_cpu (ss_identity s)) @
                '' '' @ ''system.kpi.coresUnit''\<rparr>))"

definition memory_cell :: "color_token \<Rightarrow> SystemSnapshot option \<Rightarrow> bar_cell option" where
  "memory_cell token cur =
    (case cur of
       None \<Rightarrow> None
     | Some s \<Rightarrow>
        (let r = ss_runtime s; used = mem_used r; hasTotal = rt_mem_total_bytes r > 0;
             pct = (if hasTotal then clamp_share (used / rt_mem_total_bytes r) else 0)
         in Some \<lparr>bc_percent = pct * 100, bc_color = usageColor (Some pct) token,
              bc_text = (if hasTotal then formatPercent 1 (Some pct) @ mid_dot else []) @ formatBytes False (Some used) @
                (if hasTotal then '' / '' @ formatBytes False (Some (rt_mem_total_bytes r)) else [])\<rparr>))"

text \<open>A counter of the custom part; absent parts and counters read as 0.  A figure of the KPI cell
  is the sum of the counters listed with it.\<close>

definition custom_count :: "jval \<Rightarrow> string \<Rightarrow> string \<Rightarrow> jval" where
  "custom_count custom part nm = coalesce (opath [part, nm] custom) (Some (JNum 0))"

definition kpi_cell :: "SystemNode \<Rightarrow> SystemSnapshot option \<Rightarrow> (string \<times> jval list) list option" where
  "kpi_cell n cur =
    (case cur of
       None \<Rightarrow> None
     | Some s \<Rightarrow>
        (if \<not> truthy (ss_custom s) then None
         else let c = ss_custom s
           in Some (if sn_kind n = ''server''
              then [(''system.kpi.sessions'', [custom_count c ''yamux'' ''sessions'']), (''system.kpi.streams'', [custom_count c ''yamux'' ''streams_open'']),
                    (''RPS'', [custom_count c ''http'' ''requests_per_sec''])]
              else [(''system.kpi.streams'', [custom_count c ''tunnel'' ''streams_open'']),
                    (''system.kpi.inflight'', [custom_count c ''proxy'' ''inflight_resource'', custom_count c ''proxy'' ''inflight_http_proxy''])])))"

record index_row =
  ir_node :: "string \<times> string"
  ir_status :: "string \<times> string"
  ir_uptime :: string
  ir_goroutines :: string
  ir_cpu :: "bar_cell option"
  ir_memory :: "bar_cell option"
  ir_kpi :: "(string \<times> jval list) list option"
  ir_link :: string

definition index_rows :: "(string \<Rightarrow> int) \<Rightarrow> color_token \<Rightarrow> system_index \<Rightarrow> index_row list" where
  "index_rows time_of token s = map (\<lambda>n.
     (let cur = snapshot_of (ri_envelopes s) (sn_node_id n); prev = snapshot_of (ri_prev s) (sn_node_id n)
      in \<lparr>ir_node = node_cell n, ir_status = status_cell n, ir_uptime = uptime_cell cur, ir_goroutines = goroutines_cell cur,
          ir_cpu = cpu_cell time_of token prev cur, ir_memory = memory_cell token cur, ir_kpi = kpi_cell n cur,
          ir_link = path [''system'', ''monitor'', encodeURIComponent (sn_node_id n)]\<rparr>)) (ri_nodes s)"

section \<open>The table and the answers\<close>

text \<open>The batches answered so far, oldest first.\<close>

definition batch_of :: "index_act \<Rightarrow> system_index \<Rightarrow> (string \<rightharpoonup> SystemSnapshotEnvelope) list" where
  "batch_of a s =
    (case a of
       IndexAnswer (Some (_, b)) \<Rightarrow> if ri_inflight s then [by_node (case b of None \<Rightarrow> [] | Some es \<Rightarrow> es)] else []
     | _ \<Rightarrow> [])"

fun batches :: "index_act list \<Rightarrow> system_index \<Rightarrow> (string \<rightharpoonup> SystemSnapshotEnvelope) list" where
  "batches [] s = []"
| "batches (a # as) s = batch_of a s @ batches as (index_step a s)"

definition last_batch :: "(string \<rightharpoonup> SystemSnapshotEnvelope) list \<Rightarrow> (string \<rightharpoonup> SystemSnapshotEnvelope)" where
  "last_batch bs = (if bs = [] then Map.empty else last bs)"

lemma index_step_maps:
  assumes "ri_envelopes s = ri_last s"
  obtains "batch_of a s = []" "ri_envelopes (index_step a s) = ri_last (index_step a s)"
      "ri_last (index_step a s) = ri_last s" "ri_prev (index_step a s) = ri_prev s"
    | b where "batch_of a s = [b]" "ri_envelopes (index_step a s) = ri_last (index_step a s)"
      "ri_last (index_step a s) = b" "ri_prev (index_step a s) = ri_last s"
proof (cases "batch_of a s")
  case Nil
  have "ri_last (index_step a s) = ri_last s" "ri_prev (index_step a s) = ri_prev s" "ri_envelopes (index_step a s) = ri_envelopes s"
    using Nil by (cases a; auto simp: batch_of_def reload_def index_answer_def Let_def split: option.splits if_splits)+
  then show thesis using that(1) Nil assms by simp
next
  case (Cons b bs)
  have "bs = []" "ri_last (index_step a s) = b" "ri_prev (index_step a s) = ri_last s" "ri_envelopes (index_step a s) = b"
    using Cons by (cases a; auto simp: batch_of_def reload_def index_answer_def Let_def split: option.splits if_splits)+
  then show thesis using that(2) Cons by simp
qed

lemma index_run_maps:
  assumes "ri_envelopes s = ri_last s"
  shows "ri_envelopes (fold index_step as s) = ri_last (fold index_step as s)"
    "ri_last (fold index_step as s) = last (ri_last s # batches as s)"
    "ri_prev (fold index_step as s) = last (ri_prev s # butlast (ri_last s # batches as s))"
proof -
  have "ri_envelopes (fold index_step as s) = ri_last (fold index_step as s) \<and>
      ri_last (fold index_step as s) = last (ri_last s # batches as s) \<and>
      ri_prev (fold index_step as s) = last (ri_prev s # butlast (ri_last s # batches as s))"
    using assms
  proof (induction as arbitrary: s)
    case (Cons a as)
    show ?case
    proof (rule index_step_maps[OF Cons.prems, of a], goal_cases)
      case 1
      then show ?case using Cons.IH[of "index_step a s"] by simp
    next
      case (2 b)
      then show ?case using Cons.IH[of "index_step a s"] by simp
    qed
  qed simp
  then show "ri_envelopes (fold index_step as s) = ri_last (fold index_step as s)"
    "ri_last (fold index_step as s) = last (ri_last s # batches as s)"
    "ri_prev (fold index_step as s) = last (ri_prev s # butlast (ri_last s # batches as s))" by blast+
qed

lemma cpu_of_row_detail: "cpu_of_row time_of (Some p) c = cpuStats time_of [p, c]"
  by (auto simp: cpu_of_row_def cpuStats_def Let_def)

text \<open>The table shows the CPU that the detail page shows: after any sequence of polls and
  answers, overlapping polls and failed ones included, the share and cores of a node are
  those that the detail page derives from the node's snapshots in the last two answers.\<close>

theorem index_cpu_is_detail_cpu:
  "let s = fold index_step as ri_init; bs = batches as ri_init;
       cur = snapshot_of (ri_envelopes s) n; prev = snapshot_of (ri_prev s) n
   in cur = snapshot_of (last_batch bs) n \<and> prev = snapshot_of (last_batch (butlast bs)) n \<and>
     (case (prev, cur) of (Some p, Some c) \<Rightarrow> cpu_of_row time_of prev c = cpuStats time_of [p, c]
      | (None, Some c) \<Rightarrow> cpu_of_row time_of prev c = cpuStats time_of [c] | _ \<Rightarrow> True)"
proof -
  let ?s = "fold index_step as ri_init" and ?bs = "batches as ri_init"
  have i: "ri_envelopes ri_init = ri_last ri_init" by (simp add: ri_init_def)
  have "ri_envelopes ?s = last_batch ?bs"
    using index_run_maps(1,2)[OF i, of as] by (simp add: last_batch_def ri_init_def)
  moreover have "ri_prev ?s = last_batch (butlast ?bs)"
    using index_run_maps(3)[OF i, of as] by (cases ?bs) (auto simp: last_batch_def ri_init_def)
  moreover have "cpu_of_row time_of None c = cpuStats time_of [c]" for c by (simp add: cpu_of_row_def cpuStats_def)
  ultimately show ?thesis by (simp add: Let_def cpu_of_row_detail split: option.split)
qed

text \<open>The same snapshot answered twice, as when the poll is faster than the sampler, shows no CPU
  at all.\<close>

lemma repeated_snapshot_shows_zero: "cpu_of_row time_of (Some s) s = (0, 0)"
  by (simp add: cpu_of_row_def wall_seconds_def Let_def)

text \<open>An answer that is still awaited blocks every further poll.\<close>

lemma polls_do_not_overlap: "ri_inflight s \<Longrightarrow> reload s = (s, [])"
  by (simp add: reload_def)

lemma cpu_share_bounds: "0 \<le> fst (cpu_of_row time_of prev c) \<and> fst (cpu_of_row time_of prev c) \<le> 1"
  by (auto simp: cpu_of_row_def clamp_share_def Let_def split: option.split)

end
