(* ===== verification/Nodes.thy ===== *)
theory Nodes
  imports WorkloadPage VolcanoTables EffectLoad
begin

text \<open>
  The nodes of a cluster: services/kpilot/node.ts, the table of
  pages/ClusterDetail/Nodes/index.tsx with its confirmed actions, and the two drawers
  NodeDetailDrawer.tsx and NodeYamlDrawer.tsx.

  The table turns its pages as the workload table does, so its paging is the pager of
  WorkloadPage over the listing of nodes.  Dates are read by toMs and YAML is written by
  dump; localized texts are message identifiers.
\<close>

section \<open>services/kpilot/node.ts\<close>

definition listNodes :: "string \<Rightarrow> rat \<Rightarrow> string \<Rightarrow> request" where
  "listNodes clusterId limit continueToken =
    GET (workloads_url clusterId [''nodes''])
      (prop_if (limit > 0) ''limit'' (JNum limit) @ prop_if (continueToken \<noteq> []) ''continue'' (JStr continueToken))"

definition getNode :: "string \<Rightarrow> string \<Rightarrow> request" where
  "getNode clusterId name = GET (workloads_url clusterId [''nodes'', name]) []"

definition cordonNode :: "string \<Rightarrow> string \<Rightarrow> bool \<Rightarrow> request" where
  "cordonNode clusterId name cordon =
    POST (workloads_url clusterId [''nodes'', name, ''cordon'']) [] (JsonBody (JObj [(''cordon'', JBool cordon)]))"

section \<open>Rows and cells\<close>

record NodeRow =
  nr_name :: string
  nr_cells :: "json list"

definition node_row :: "json \<Rightarrow> NodeRow" where
  "node_row r =
    (let cells = array_of (oget ''cells'' (Some r)); c0 = nth_cell cells (Some 0)
     in \<lparr>nr_name = (if truthy c0 then js_String (the c0) else []), nr_cells = cells\<rparr>)"

definition node_rows :: "jval \<Rightarrow> NodeRow list" where
  "node_rows res = map node_row (array_of (oget ''rows'' res))"

definition node_columns :: "jval \<Rightarrow> string list" where
  "node_columns res = map col_name (array_of (oget ''columnDefinitions'' res))"

definition NODE_COL_I18N :: "(string \<times> string) list" where
  "NODE_COL_I18N = map (\<lambda>(k, v). (k, ''pages.nodes.col.'' @ v))
    [(''Name'', ''name''), (''Status'', ''status''), (''Roles'', ''roles''), (''Age'', ''age''), (''Version'', ''version''),
     (''Internal-IP'', ''internalIp''), (''External-IP'', ''externalIp''), (''OS-Image'', ''osImage''),
     (''Kernel-Version'', ''kernelVersion''), (''Container-Runtime'', ''containerRuntime'')]"

definition node_column_title :: "string \<Rightarrow> string" where
  "node_column_title n = (case map_of NODE_COL_I18N n of Some t \<Rightarrow> t | None \<Rightarrow> n)"

definition comma_parts :: "string \<Rightarrow> string list" where
  "comma_parts s = filter (\<lambda>p. p \<noteq> []) (map trim (split_on (\<lambda>c. c = CHR '','') s))"

definition status_color :: "string \<Rightarrow> string" where
  "status_color p =
    (if p = ''Ready'' then ''success'' else if p = ''NotReady'' then ''error''
     else if p = ''SchedulingDisabled'' then ''warning'' else ''default'')"

definition StatusCell :: "string \<Rightarrow> (string \<times> string) list" where
  "StatusCell status = map (\<lambda>p. (p, status_color p)) (comma_parts status)"

definition role_tag :: "string \<Rightarrow> string \<times> string" where
  "role_tag r = (r, if r = ''control-plane'' \<or> r = ''master'' then ''blue'' else ''default'')"

text \<open>No value, tags with their colours, or a text.\<close>

datatype node_cell_view = NoValue | NodeTags "(string \<times> string) list" | NodeText string

definition render_node_cell :: "string \<Rightarrow> jval \<Rightarrow> node_cell_view" where
  "render_node_cell name value =
    (if nullish value \<or> value = Some (JStr []) \<or> value = Some (JStr ''<none>'') then NoValue
     else if name = ''Status'' then NodeTags (StatusCell (js_String (the value)))
     else if name = ''Roles'' then NodeTags (map role_tag (comma_parts (js_String (the value))))
     else NodeText (js_String (the value)))"

definition row_status :: "string list \<Rightarrow> NodeRow \<Rightarrow> string" where
  "row_status cols r =
    (case position ''Status'' cols of None \<Rightarrow> []
     | Some i \<Rightarrow> js_String (the (coalesce (nth_cell (nr_cells r) (Some i)) (Some (JStr [])))))"

definition row_cordoned :: "string list \<Rightarrow> NodeRow \<Rightarrow> bool" where
  "row_cordoned cols r = str_includes ''SchedulingDisabled'' (row_status cols r)"

definition row_cells :: "string list \<Rightarrow> NodeRow \<Rightarrow> node_cell_view list" where
  "row_cells cols r = map (\<lambda>i. render_node_cell (cols ! i) (nth_cell (nr_cells r) (Some i))) [0..<length cols]"

definition filtered_nodes :: "string \<Rightarrow> NodeRow list \<Rightarrow> NodeRow list" where
  "filtered_nodes search rows =
    (let q = to_lower (trim search)
     in if q = [] then rows else filter (\<lambda>r. list_ex (\<lambda>c. cell_matches q (Some c)) (nr_cells r)) rows)"

section \<open>The page\<close>

datatype node_mode = Describe | Overview | YamlView

text \<open>A confirmation on screen and a request on its way, each with the action it is for; an
  action is cordoning (True) or uncordoning, or draining.\<close>

datatype node_action = SetCordon bool | Drain

record node_dialog =
  ng_key :: nat
  ng_name :: string
  ng_action :: node_action
  ng_waiting :: bool

record nodes_page =
  np_pager :: pager
  np_res :: jval
  np_search :: string
  np_interval :: nat
  np_active :: "(string \<times> node_mode) option"
  np_dialogs :: "node_dialog list"
  np_fresh :: nat
  np_flights :: "(nat \<times> string \<times> node_action) list"
  np_cordonBusy :: "string list"
  np_drainBusy :: "string list"
  np_bursts :: nat
  np_toasts :: "(string \<times> string list) list"

definition np_init :: nodes_page where
  "np_init = \<lparr>np_pager = pager_init True [], np_res = None, np_search = [], np_interval = 0, np_active = None, np_dialogs = [],
     np_fresh = 0, np_flights = [], np_cordonBusy = [], np_drainBusy = [], np_bursts = 0, np_toasts = []\<rparr>"

definition shown_nodes :: "nodes_page \<Rightarrow> NodeRow list" where
  "shown_nodes s = filtered_nodes (np_search s) (node_rows (np_res s))"

definition nodes_total :: "nodes_page \<Rightarrow> rat option" where
  "nodes_total s =
    (case opath [''metadata'', ''remainingItemCount''] (np_res s) of
       Some (JNum r) \<Rightarrow> Some (of_nat (pg_idx (np_pager s)) * PAGE_SIZE + of_nat (length (node_rows (np_res s))) + r)
     | _ \<Rightarrow> None)"

definition nodes_label :: "nodes_page \<Rightarrow> string" where
  "nodes_label s =
    (if trim (np_search s) \<noteq> [] then ''('' @ show_nat (length (shown_nodes s)) @ '' / '' @ show_nat (length (node_rows (np_res s))) @ '')''
     else case nodes_total s of
         Some t \<Rightarrow> ''('' @ show_num t @ '')''
       | None \<Rightarrow> ''('' @ show_nat (length (node_rows (np_res s))) @ (if hasMore (np_pager s) then ''+'' else []) @ '')'')"

text \<open>The buttons of a row: message and whether it is enabled.\<close>

definition node_buttons :: "nodes_page \<Rightarrow> NodeRow \<Rightarrow> (string \<times> bool) list" where
  "node_buttons s r =
    [(''pages.nodes.action.describe'', True), (''pages.nodes.action.overview'', True), (''pages.nodes.action.view'', True),
     (if row_cordoned (node_columns (np_res s)) r then ''pages.nodes.action.uncordon'' else ''pages.nodes.action.cordon'',
      nr_name r \<notin> set (np_cordonBusy s)),
     (''pages.nodes.drain'', nr_name r \<notin> set (np_drainBusy s))]"

definition ask_node :: "string \<Rightarrow> node_action \<Rightarrow> nodes_page \<Rightarrow> nodes_page" where
  "ask_node name act s =
    s\<lparr>np_dialogs := np_dialogs s @ [\<lparr>ng_key = np_fresh s, ng_name = name, ng_action = act, ng_waiting = False\<rparr>],
      np_fresh := Suc (np_fresh s)\<rparr>"

definition handleCordon :: "NodeRow \<Rightarrow> nodes_page \<Rightarrow> nodes_page" where
  "handleCordon r s =
    (if r \<in> set (shown_nodes s) \<and> nr_name r \<notin> set (np_cordonBusy s)
     then ask_node (nr_name r) (SetCordon (\<not> row_cordoned (node_columns (np_res s)) r)) s else s)"

definition handleDrain :: "NodeRow \<Rightarrow> nodes_page \<Rightarrow> nodes_page" where
  "handleDrain r s =
    (if r \<in> set (shown_nodes s) \<and> nr_name r \<notin> set (np_drainBusy s) then ask_node (nr_name r) Drain s else s)"

definition set_busy :: "node_action \<Rightarrow> (string list \<Rightarrow> string list) \<Rightarrow> nodes_page \<Rightarrow> nodes_page" where
  "set_busy act f s =
    (case act of SetCordon _ \<Rightarrow> s\<lparr>np_cordonBusy := f (np_cordonBusy s)\<rparr> | Drain \<Rightarrow> s\<lparr>np_drainBusy := f (np_drainBusy s)\<rparr>)"

definition drain_defaults :: DrainOptions where
  "drain_defaults = \<lparr>dr_ignoreDaemonSets = Some True, dr_deleteEmptyDirData = Some False, dr_force = Some False,
     dr_gracePeriodSeconds = None\<rparr>"

definition action_request :: "string \<Rightarrow> string \<times> node_action \<Rightarrow> request" where
  "action_request clusterId na =
    (case na of (name, SetCordon b) \<Rightarrow> cordonNode clusterId name b | (name, Drain) \<Rightarrow> drainNode clusterId name drain_defaults)"

text \<open>OK runs once per dialog, which waits for the answer.\<close>

definition ok_node :: "nat \<Rightarrow> nodes_page \<Rightarrow> nodes_page \<times> (string \<times> node_action) list" where
  "ok_node k s =
    (case find (\<lambda>d. ng_key d = k \<and> \<not> ng_waiting d) (np_dialogs s) of
       None \<Rightarrow> (s, [])
     | Some d \<Rightarrow>
        (set_busy (ng_action d) (List.insert (ng_name d))
           (s\<lparr>np_dialogs := map (\<lambda>e. if ng_key e = k then e\<lparr>ng_waiting := True\<rparr> else e) (np_dialogs s),
              np_flights := np_flights s @ [(k, ng_name d, ng_action d)]\<rparr>),
         [(ng_name d, ng_action d)]))"

record DrainResult =
  de_evicted :: nat
  de_skipped :: nat
  de_failed :: nat
  de_failures :: "string list option"

text \<open>An error carries its text.\<close>

datatype node_answer = CordonDone | DrainDone DrainResult | ActionFailed string

definition answer_toasts :: "node_action \<Rightarrow> node_answer \<Rightarrow> (string \<times> string list) list" where
  "answer_toasts act ans =
    (case ans of
       ActionFailed e \<Rightarrow> [(e, [])]
     | CordonDone \<Rightarrow> [(if act = SetCordon True then ''pages.nodes.cordon.success'' else ''pages.nodes.uncordon.success'', [])]
     | DrainDone d \<Rightarrow> (''pages.nodes.drain.success'', [show_nat (de_evicted d), show_nat (de_skipped d), show_nat (de_failed d)]) #
         (case de_failures d of None \<Rightarrow> [] | Some fs \<Rightarrow> if de_failed d > 0 then [(join [CHR 0x0A] (take 3 fs), [])] else []))"

definition node_answered :: "nat \<Rightarrow> node_answer \<Rightarrow> nodes_page \<Rightarrow> nodes_page" where
  "node_answered k ans s =
    (case map_of (np_flights s) k of
       None \<Rightarrow> s
     | Some (name, act) \<Rightarrow>
        set_busy act (removeAll name)
          (s\<lparr>np_flights := filter (\<lambda>f. fst f \<noteq> k) (np_flights s),
             np_dialogs := filter (\<lambda>d. ng_key d \<noteq> k) (np_dialogs s),
             np_toasts := np_toasts s @ answer_toasts act ans,
             np_bursts := (case ans of ActionFailed _ \<Rightarrow> np_bursts s | _ \<Rightarrow> Suc (np_bursts s))\<rparr>))"

datatype nodes_act =
    TurnPage page_act
  | SearchNodes string
  | PickInterval nat
  | ShowNode string node_mode
  | HideNode
  | ClickCordon NodeRow
  | ClickDrain NodeRow
  | CancelAsk nat
  | ConfirmAsk nat
  | NodeAnswer nat node_answer

text \<open>The list answers through TurnPage; nodes have no namespace to switch to.\<close>

definition turn_nodes :: "page_act \<Rightarrow> nodes_page \<Rightarrow> nodes_page" where
  "turn_nodes a s =
    (case a of
       SetNs _ \<Rightarrow> s
     | Answer res \<Rightarrow> if pg_loading (np_pager s) then s\<lparr>np_pager := page_step True (np_pager s) a, np_res := res\<rparr> else s
     | _ \<Rightarrow> s\<lparr>np_pager := page_step True (np_pager s) a\<rparr>)"

fun nodes_step :: "nodes_act \<Rightarrow> nodes_page \<Rightarrow> nodes_page \<times> (string \<times> node_action) list" where
  "nodes_step (TurnPage a) s = (turn_nodes a s, [])"
| "nodes_step (SearchNodes q) s = (s\<lparr>np_search := q\<rparr>, [])"
| "nodes_step (PickInterval n) s = (s\<lparr>np_interval := n\<rparr>, [])"
| "nodes_step (ShowNode name m) s = (s\<lparr>np_active := Some (name, m)\<rparr>, [])"
| "nodes_step HideNode s = (s\<lparr>np_active := None\<rparr>, [])"
| "nodes_step (ClickCordon r) s = (handleCordon r s, [])"
| "nodes_step (ClickDrain r) s = (handleDrain r s, [])"
| "nodes_step (CancelAsk k) s = (s\<lparr>np_dialogs := filter (\<lambda>d. ng_key d \<noteq> k) (np_dialogs s)\<rparr>, [])"
| "nodes_step (ConfirmAsk k) s = ok_node k s"
| "nodes_step (NodeAnswer k ans) s = (node_answered k ans s, [])"

text \<open>The list request that is asked for, and the state and the actions sent after a run.\<close>

definition nodes_request :: "string \<Rightarrow> nodes_page \<Rightarrow> request" where
  "nodes_request clusterId s = listNodes clusterId PAGE_SIZE (snd (pg_asked (np_pager s)))"

definition nodes_run :: "nodes_act list \<Rightarrow> nodes_page \<times> (string \<times> node_action) list" where
  "nodes_run as = fold (\<lambda>a (s, out). (fst (nodes_step a s), out @ snd (nodes_step a s))) as (np_init, [])"

lemma nodes_run_snoc:
  "nodes_run (as @ [a]) = (fst (nodes_step a (fst (nodes_run as))), snd (nodes_run as) @ snd (nodes_step a (fst (nodes_run as))))"
  by (simp add: nodes_run_def split_beta)

lemma nodes_run_Nil: "nodes_run [] = (np_init, [])"
  by (simp add: nodes_run_def)

text \<open>The listing of nodes is that of the workload proxy.\<close>

lemma listNodes_is_list_request: "listNodes c PAGE_SIZE t = list_request c ''nodes'' None ([], t)"
  by (simp add: listNodes_def list_request_def listWorkloads_def prop_if_def)

section \<open>Actions are confirmed and buttons come back\<close>

text \<open>A click that opens a dialog, for the name and the action it asks for.\<close>

definition asks :: "nodes_page \<Rightarrow> nodes_act \<Rightarrow> string \<times> node_action \<Rightarrow> bool" where
  "asks s a na \<longleftrightarrow>
    (case a of
       ClickCordon r \<Rightarrow> r \<in> set (shown_nodes s) \<and> na = (nr_name r, SetCordon (\<not> row_cordoned (node_columns (np_res s)) r))
     | ClickDrain r \<Rightarrow> r \<in> set (shown_nodes s) \<and> na = (nr_name r, Drain)
     | _ \<Rightarrow> False)"

definition asked :: "nodes_act list \<Rightarrow> nat \<Rightarrow> string \<times> node_action \<Rightarrow> bool" where
  "asked as k na \<longleftrightarrow> (\<exists>pre a post. as = pre @ a # post \<and> asks (fst (nodes_run pre)) a na \<and> k = np_fresh (fst (nodes_run pre)))"

definition asked_then_confirmed :: "nodes_act list \<Rightarrow> string \<times> node_action \<Rightarrow> bool" where
  "asked_then_confirmed as na \<longleftrightarrow> (\<exists>pre a post. as = pre @ a # post \<and> asks (fst (nodes_run pre)) a na \<and>
     ConfirmAsk (np_fresh (fst (nodes_run pre))) \<in> set post)"

lemma asked_snoc: "asked as k na \<Longrightarrow> asked (as @ [b]) k na"
  unfolding asked_def by fastforce

lemma asked_now: "asks (fst (nodes_run as)) a na \<Longrightarrow> asked (as @ [a]) (np_fresh (fst (nodes_run as))) na"
  unfolding asked_def by blast

lemma confirmed_snoc: "asked_then_confirmed as na \<Longrightarrow> asked_then_confirmed (as @ [b]) na"
  unfolding asked_then_confirmed_def by fastforce

lemma confirm_asked: "asked as k na \<Longrightarrow> asked_then_confirmed (as @ [ConfirmAsk k]) na"
  unfolding asked_def asked_then_confirmed_def by fastforce

lemma set_busy_same [simp]:
  "np_dialogs (set_busy act f s) = np_dialogs s" "np_flights (set_busy act f s) = np_flights s" "np_fresh (set_busy act f s) = np_fresh s"
  by (simp_all add: set_busy_def split: node_action.split)

lemma turn_nodes_same [simp]:
  "np_dialogs (turn_nodes a s) = np_dialogs s" "np_flights (turn_nodes a s) = np_flights s" "np_fresh (turn_nodes a s) = np_fresh s"
  "np_cordonBusy (turn_nodes a s) = np_cordonBusy s" "np_drainBusy (turn_nodes a s) = np_drainBusy s"
  by (simp_all add: turn_nodes_def split: page_act.split)

lemma dialogs_step:
  assumes "d \<in> set (np_dialogs (fst (nodes_step a s)))"
  shows "(\<exists>e \<in> set (np_dialogs s). ng_key e = ng_key d \<and> ng_name e = ng_name d \<and> ng_action e = ng_action d) \<or>
    (asks s a (ng_name d, ng_action d) \<and> ng_key d = np_fresh s)"
  using assms
  by (cases a) (auto simp: handleCordon_def handleDrain_def ask_node_def asks_def ok_node_def node_answered_def
      split: option.splits if_splits)

lemma dialogs_are_asked: "d \<in> set (np_dialogs (fst (nodes_run as))) \<Longrightarrow> asked as (ng_key d) (ng_name d, ng_action d)"
proof (induction as arbitrary: d rule: rev_induct)
  case Nil
  then show ?case by (simp add: nodes_run_Nil np_init_def)
next
  case (snoc a as)
  then have "d \<in> set (np_dialogs (fst (nodes_step a (fst (nodes_run as)))))" by (simp add: nodes_run_snoc)
  from dialogs_step[OF this] show ?case
    using snoc.IH asked_snoc asked_now by metis
qed

lemma found: "find P xs = Some x \<Longrightarrow> x \<in> set xs \<and> P x"
  by (induction xs) (auto split: if_splits)

lemma sent_step:
  assumes "na \<in> set (snd (nodes_step a s))"
  obtains k d where "a = ConfirmAsk k" "d \<in> set (np_dialogs s)" "ng_key d = k" "na = (ng_name d, ng_action d)"
  using assms by (cases a) (auto simp: ok_node_def dest: found split: option.splits)

text \<open>C26. No node is cordoned, uncordoned or drained unasked: every action that the page sends in any
  sequence of clicks, polls and answers was asked for by a click on a row on screen, is the
  opposite of the state which that row showed, and was confirmed in the dialog of that very
  click.\<close>

theorem node_actions_are_confirmed:
  assumes "na \<in> set (snd (nodes_run as))"
  shows "asked_then_confirmed as na"
  using assms
proof (induction as rule: rev_induct)
  case Nil
  then show ?case by (simp add: nodes_run_Nil)
next
  case (snoc a as)
  show ?case
  proof (cases "na \<in> set (snd (nodes_run as))")
    case True
    then show ?thesis by (rule confirmed_snoc[OF snoc.IH])
  next
    case False
    then have "na \<in> set (snd (nodes_step a (fst (nodes_run as))))" using snoc.prems by (simp add: nodes_run_snoc)
    then show ?thesis by (rule sent_step) (metis dialogs_are_asked confirm_asked)
  qed
qed

definition demo_nodes :: jval where
  "demo_nodes = Some (JObj [(''kind'', JStr ''Table''),
     (''columnDefinitions'', JArr [JObj [(''name'', JStr ''Name'')], JObj [(''name'', JStr ''Status'')]]),
     (''rows'', JArr [JObj [(''cells'', JArr [JStr ''n1'', JStr ''Ready''])],
        JObj [(''cells'', JArr [JStr ''n2'', JStr ''Ready,SchedulingDisabled''])]])])"

definition demo_row :: "string \<Rightarrow> string \<Rightarrow> NodeRow" where
  "demo_row n st = \<lparr>nr_name = n, nr_cells = [JStr n, JStr st]\<rparr>"

lemma node_actions_are_confirmed_witness:
  "asked_then_confirmed [TurnPage (Answer demo_nodes), ClickCordon (demo_row ''n2'' ''Ready,SchedulingDisabled''), ConfirmAsk 0]
    (''n2'', SetCordon False)"
  by (rule node_actions_are_confirmed) code_simp

text \<open>The nodes with a request on its way.\<close>

definition cordoning :: "(nat \<times> string \<times> node_action) list \<Rightarrow> string set" where
  "cordoning fs = {n. \<exists>k b. (k, n, SetCordon b) \<in> set fs}"

definition draining :: "(nat \<times> string \<times> node_action) list \<Rightarrow> string set" where
  "draining fs = {n. \<exists>k. (k, n, Drain) \<in> set fs}"

lemma on_the_way_snoc [simp]:
  "cordoning (fs @ [(k, n, act)]) = (case act of SetCordon _ \<Rightarrow> insert n (cordoning fs) | Drain \<Rightarrow> cordoning fs)"
  "draining (fs @ [(k, n, act)]) = (case act of Drain \<Rightarrow> insert n (draining fs) | SetCordon _ \<Rightarrow> draining fs)"
  by (auto simp: cordoning_def draining_def split: node_action.split)

lemma on_the_way_without:
  assumes "\<And>f. f \<in> set fs \<Longrightarrow> fst f = k \<Longrightarrow> snd f = (n, act)"
  shows "cordoning fs - (case act of SetCordon _ \<Rightarrow> {n} | Drain \<Rightarrow> {}) \<subseteq> cordoning (filter (\<lambda>f. fst f \<noteq> k) fs)"
    "draining fs - (case act of Drain \<Rightarrow> {n} | SetCordon _ \<Rightarrow> {}) \<subseteq> draining (filter (\<lambda>f. fst f \<noteq> k) fs)"
  using assms by (fastforce simp: cordoning_def draining_def split: node_action.split)+

text \<open>Keys are used once, and every busy name has its request.\<close>

definition nodes_ok :: "nodes_page \<Rightarrow> bool" where
  "nodes_ok s \<longleftrightarrow>
    distinct (map fst (np_flights s)) \<and> (\<forall>f \<in> set (np_flights s). fst f < np_fresh s) \<and>
    distinct (map ng_key (np_dialogs s)) \<and>
    (\<forall>d \<in> set (np_dialogs s). ng_key d < np_fresh s \<and> (\<not> ng_waiting d \<longrightarrow> ng_key d \<notin> fst ` set (np_flights s))) \<and>
    set (np_cordonBusy s) \<subseteq> cordoning (np_flights s) \<and> set (np_drainBusy s) \<subseteq> draining (np_flights s)"

lemma set_busy_sets:
  "set (np_cordonBusy (set_busy act f s)) = (case act of SetCordon _ \<Rightarrow> set (f (np_cordonBusy s)) | Drain \<Rightarrow> set (np_cordonBusy s))"
  "set (np_drainBusy (set_busy act f s)) = (case act of Drain \<Rightarrow> set (f (np_drainBusy s)) | SetCordon _ \<Rightarrow> set (np_drainBusy s))"
  by (simp_all add: set_busy_def split: node_action.split)

lemma nodes_ok_ask: "nodes_ok s \<Longrightarrow> nodes_ok (ask_node name act s)"
  unfolding nodes_ok_def ask_node_def by (force simp: less_Suc_eq)

lemma nodes_ok_ok:
  assumes "nodes_ok s"
  shows "nodes_ok (fst (ok_node k s))"
proof (cases "find (\<lambda>d. ng_key d = k \<and> \<not> ng_waiting d) (np_dialogs s)")
  case None
  then show ?thesis using assms by (simp add: ok_node_def)
next
  case (Some d)
  from found[OF Some] have d: "d \<in> set (np_dialogs s)" "ng_key d = k" "\<not> ng_waiting d" by auto
  then have k: "k < np_fresh s" "k \<notin> fst ` set (np_flights s)" using assms by (auto simp: nodes_ok_def)
  let ?w = "\<lambda>e. if ng_key e = k then e\<lparr>ng_waiting := True\<rparr> else e"
  have keys: "map ng_key (map ?w (np_dialogs s)) = map ng_key (np_dialogs s)" by simp
  define t where "t = s\<lparr>np_dialogs := map ?w (np_dialogs s), np_flights := np_flights s @ [(k, ng_name d, ng_action d)]\<rparr>"
  have t: "np_fresh t = np_fresh s" "np_dialogs t = map ?w (np_dialogs s)" "np_flights t = np_flights s @ [(k, ng_name d, ng_action d)]"
    "np_cordonBusy t = np_cordonBusy s" "np_drainBusy t = np_drainBusy s" by (simp_all add: t_def)
  have e: "fst (ok_node k s) = set_busy (ng_action d) (List.insert (ng_name d)) t" by (simp add: ok_node_def Some t_def)
  have "\<forall>e \<in> set (map ?w (np_dialogs s)). ng_key e < np_fresh s \<and>
      (\<not> ng_waiting e \<longrightarrow> ng_key e \<notin> fst ` set (np_flights s @ [(k, ng_name d, ng_action d)]))"
    using assms by (auto simp: nodes_ok_def)
  moreover have "distinct (map fst (np_flights t))" "\<forall>f \<in> set (np_flights t). fst f < np_fresh s"
    using assms k by (auto simp: nodes_ok_def t)
  moreover have "distinct (map ng_key (np_dialogs t))" unfolding t keys using assms by (simp add: nodes_ok_def)
  moreover have "set (np_cordonBusy (set_busy (ng_action d) (List.insert (ng_name d)) t)) \<subseteq> cordoning (np_flights t)"
    "set (np_drainBusy (set_busy (ng_action d) (List.insert (ng_name d)) t)) \<subseteq> draining (np_flights t)"
    using assms by (auto simp: nodes_ok_def set_busy_sets t split: node_action.split)
  ultimately show ?thesis unfolding nodes_ok_def e set_busy_same t by (intro conjI)
qed

lemma nodes_ok_answered:
  assumes "nodes_ok s"
  shows "nodes_ok (node_answered k ans s)"
proof (cases "map_of (np_flights s) k")
  case None
  then show ?thesis using assms by (simp add: node_answered_def)
next
  case (Some na)
  obtain name act where na: "na = (name, act)" by fastforce
  have one: "f \<in> set (np_flights s) \<Longrightarrow> fst f = k \<Longrightarrow> snd f = (name, act)" for f
    using Some assms by (cases f) (auto simp: nodes_ok_def na)
  define fs where "fs = filter (\<lambda>f. fst f \<noteq> k) (np_flights s)"
  have "cordoning (np_flights s) - (case act of SetCordon _ \<Rightarrow> {name} | Drain \<Rightarrow> {}) \<subseteq> cordoning fs"
    "draining (np_flights s) - (case act of Drain \<Rightarrow> {name} | SetCordon _ \<Rightarrow> {}) \<subseteq> draining fs"
    unfolding fs_def using on_the_way_without[of "np_flights s" k name act] one by blast+
  moreover have "set fs \<subseteq> set (np_flights s)" "distinct (map fst fs)"
    "\<And>i a b. i \<notin> fst ` set (np_flights s) \<Longrightarrow> (i, a, b) \<notin> set fs"
    using assms by (auto simp: fs_def nodes_ok_def distinct_map_filter rev_image_eqI)
  ultimately show ?thesis using assms
    by (cases act) (auto simp: node_answered_def Some na nodes_ok_def set_busy_sets distinct_map_filter fs_def[symmetric])
qed

lemma nodes_ok_run: "nodes_ok (fst (nodes_run as))"
proof (induction as rule: rev_induct)
  case Nil
  then show ?case by (simp add: nodes_run_Nil nodes_ok_def np_init_def)
next
  case (snoc a as)
  moreover have "nodes_ok s \<Longrightarrow> nodes_ok (fst (nodes_step a s))" for s
  proof (cases a)
    case (CancelAsk k)
    then show "nodes_ok s \<Longrightarrow> ?thesis" by (auto simp: nodes_ok_def distinct_map_filter)
  qed (auto simp: nodes_ok_ok nodes_ok_answered handleCordon_def handleDrain_def nodes_ok_ask, simp_all add: nodes_ok_def)
  ultimately show ?case by (simp add: nodes_run_snoc)
qed

text \<open>No button stays disabled for ever: in any reachable state a node whose cordon or drain
  button is disabled has such a request on its way, so when every request has been answered
  every button can be pressed again.\<close>

theorem disabled_buttons_have_requests:
  "let s = fst (nodes_run as) in
   set (np_cordonBusy s) \<subseteq> cordoning (np_flights s) \<and> set (np_drainBusy s) \<subseteq> draining (np_flights s)"
  using nodes_ok_run[of as] by (simp add: Let_def nodes_ok_def)

text \<open>Two dialogs of one row send two requests, and the answer to the first one enables the
  button while the second is on its way.\<close>

lemma two_dialogs_free_the_button:
  "let (s, out) = nodes_run [TurnPage (Answer demo_nodes), ClickCordon (demo_row ''n1'' ''Ready''),
      ClickCordon (demo_row ''n1'' ''Ready''), ConfirmAsk 0, ConfirmAsk 1, NodeAnswer 0 CordonDone]
   in out = [(''n1'', SetCordon True), (''n1'', SetCordon True)] \<and> np_cordonBusy s = [] \<and> length (np_flights s) = 1"
  by code_simp

end
