(* ===== verification/NodeDrawers.thy ===== *)
theory NodeDrawers
  imports Nodes
begin

text \<open>
  The two drawers of a node: what pages/ClusterDetail/Nodes/NodeDetailDrawer.tsx shows of an
  object, and how it and NodeYamlDrawer.tsx load the object when they open.

  The request hook is that of the library: an answer is used when it is that of its latest
  run, a failure clears the data, and mutate sets the data without touching a run.
\<close>

section \<open>The cards of a node\<close>

definition ready_condition :: "jval \<Rightarrow> json option" where
  "ready_condition node =
    find (\<lambda>c. oget ''type'' (Some c) = Some (JStr ''Ready'')) (array_of (opath [''status'', ''conditions''] node))"

definition readyStatus :: "jval \<Rightarrow> string" where
  "readyStatus node =
    (case ready_condition node of
       None \<Rightarrow> []
     | Some ready \<Rightarrow>
        (let up = oget ''status'' (Some ready) = Some (JStr ''True'')
         in if truthy (opath [''spec'', ''unschedulable''] node)
            then (if up then ''Ready,SchedulingDisabled'' else ''NotReady,SchedulingDisabled'')
            else (if up then ''Ready'' else ''NotReady'')))"

definition jobj_entries :: "jval \<Rightarrow> obj" where
  "jobj_entries v = (if nullish v then [] else jentries (the v))"

definition line_end :: "char \<Rightarrow> bool" where
  "line_end c \<longleftrightarrow> c = CHR 0x0A \<or> c = CHR 0x0D"

definition role_prefix :: string where
  "role_prefix = ''node-role.kubernetes.io/''"

definition role_of_label :: "string \<Rightarrow> string option" where
  "role_of_label k =
    (let r = drop (length role_prefix) k
     in if starts_with role_prefix k \<and> r \<noteq> [] \<and> list_all (\<lambda>c. \<not> line_end c) r then Some r else None)"

definition nodeRoles :: "jval \<Rightarrow> string list" where
  "nodeRoles node = List.map_filter (\<lambda>(k, _). role_of_label k) (jobj_entries (opath [''metadata'', ''labels''] node))"

definition or_dash :: "jval \<Rightarrow> string" where
  "or_dash v = (if truthy v then js_String (the v) else dash)"

text \<open>A card of labelled texts.\<close>

definition BasicInfo :: "(string \<Rightarrow> int option) \<Rightarrow> int \<Rightarrow> jval \<Rightarrow> (string \<times> string) list \<times> (string \<times> string) list" where
  "BasicInfo toMs now node =
    (let info = opath [''status'', ''nodeInfo''] node
     in (map role_tag (nodeRoles node),
         [(''pages.nodes.col.age'', formatAge toMs now (as_str (opath [''metadata'', ''creationTimestamp''] node)) dash),
          (''pages.nodes.col.version'', or_dash (oget ''kubeletVersion'' info)),
          (''pages.nodes.col.containerRuntime'', or_dash (oget ''containerRuntimeVersion'' info)),
          (''pages.nodes.col.osImage'', or_dash (oget ''osImage'' info)),
          (''pages.nodes.col.kernelVersion'', or_dash (oget ''kernelVersion'' info)),
          (''pages.nodes.detail.arch'', or_dash (oget ''architecture'' info) @ '' / '' @ or_dash (oget ''operatingSystem'' info))]))"

definition address_of_type :: "string \<Rightarrow> jval \<Rightarrow> jval" where
  "address_of_type t node =
    (case find (\<lambda>a. oget ''type'' (Some a) = Some (JStr t)) (array_of (opath [''status'', ''addresses''] node)) of
       None \<Rightarrow> None | Some a \<Rightarrow> oget ''address'' (Some a))"

definition Networking :: "jval \<Rightarrow> (string \<times> string) list" where
  "Networking node =
    [(''pages.nodes.col.internalIp'', or_dash (address_of_type ''InternalIP'' node)),
     (''pages.nodes.col.externalIp'', or_dash (address_of_type ''ExternalIP'' node)),
     (''Hostname'', or_dash (address_of_type ''Hostname'' node)),
     (''pages.nodes.detail.podCIDR'', or_dash (opath [''spec'', ''podCIDR''] node))]"

text \<open>An absent part of a taint renders as nothing.\<close>

definition shown_text :: "jval \<Rightarrow> string" where
  "shown_text v = (if nullish v then [] else js_String (the v))"

definition taint_text :: "json \<Rightarrow> string" where
  "taint_text t =
    (let v = oget ''value'' (Some t)
     in shown_text (oget ''key'' (Some t)) @ (if truthy v then ''='' @ js_String (the v) else []) @ '':'' @ shown_text (oget ''effect'' (Some t)))"

definition Scheduling :: "jval \<Rightarrow> bool \<times> string list" where
  "Scheduling node = (truthy (opath [''spec'', ''unschedulable''] node), map taint_text (array_of (opath [''spec'', ''taints''] node)))"

definition Resources :: "jval \<Rightarrow> (string \<times> string \<times> string) list" where
  "Resources node =
    (let cell = (\<lambda>part k. or_dash (opath [''status'', part, k] node))
     in map (\<lambda>(lbl, k). (lbl, cell ''capacity'' k, cell ''allocatable'' k))
          [(''CPU'', ''cpu''), (''pages.nodes.detail.memory'', ''memory''), (''Pods'', ''pods'')])"

definition Conditions :: "jval \<Rightarrow> (string \<times> string \<times> string \<times> string \<times> string) list" where
  "Conditions node = map (\<lambda>c.
     (shown_text (oget ''type'' (Some c)), shown_text (oget ''status'' (Some c)),
      if oget ''status'' (Some c) = Some (JStr ''True'') then ''success'' else ''default'',
      shown_text (oget ''reason'' (Some c)), shown_text (oget ''message'' (Some c))))
    (array_of (opath [''status'', ''conditions''] node))"

text \<open>The number of entries, and a line for each.\<close>

definition KVCard :: "jval \<Rightarrow> nat \<times> string list" where
  "KVCard entries =
    (let items = jobj_entries entries
     in (length items, map (\<lambda>(k, v). k @ (if truthy (Some v) then '' = '' @ js_String v else [])) items))"

section \<open>Loading\<close>

text \<open>nl_latest numbers the latest run of the request, nl_run counts the runs of the effect.\<close>

record node_load =
  nl_name :: "string option"
  nl_data :: jval
  nl_loading :: bool
  nl_latest :: nat
  nl_run :: nat
  nl_flights :: "(nat \<times> string) list"

definition nl_init :: node_load where
  "nl_init = \<lparr>nl_name = None, nl_data = None, nl_loading = False, nl_latest = 0, nl_run = 0, nl_flights = []\<rparr>"

datatype node_load_act = OpenNode string | CloseNode | NodeLoaded nat "json option"

text \<open>The effect runs when the drawer opens, closes or changes its node.\<close>

definition load_node :: "string option \<Rightarrow> node_load \<Rightarrow> node_load" where
  "load_node target s =
    (if target = nl_name s then s
     else case target of
         None \<Rightarrow> s\<lparr>nl_name := None, nl_run := Suc (nl_run s), nl_data := None\<rparr>
       | Some n \<Rightarrow> s\<lparr>nl_name := Some n, nl_run := Suc (nl_run s), nl_loading := True, nl_latest := Suc (nl_run s),
           nl_flights := (Suc (nl_run s), n) # nl_flights s\<rparr>)"

definition node_loaded :: "nat \<Rightarrow> json option \<Rightarrow> node_load \<Rightarrow> node_load" where
  "node_loaded n r s =
    (if n \<notin> fst ` set (nl_flights s) then s
     else let s1 = s\<lparr>nl_flights := filter (\<lambda>l. fst l \<noteq> n) (nl_flights s)\<rparr>
       in if n \<noteq> nl_latest s then s1 else s1\<lparr>nl_data := r, nl_loading := False\<rparr>)"

fun load_step :: "node_load_act \<Rightarrow> node_load \<Rightarrow> node_load" where
  "load_step (OpenNode n) s = load_node (Some n) s"
| "load_step CloseNode s = load_node None s"
| "load_step (NodeLoaded n r) s = node_loaded n r s"

text \<open>The requests an action sends, the tags of the title, and the object in the body: None is
  the spinner, or no drawer at all.\<close>

definition load_requests :: "string \<Rightarrow> node_load_act \<Rightarrow> node_load \<Rightarrow> request list" where
  "load_requests clusterId a s =
    (case a of OpenNode n \<Rightarrow> if nl_name s = Some n \<or> n = [] then [] else [getNode clusterId n] | _ \<Rightarrow> [])"

definition title_tags :: "node_load \<Rightarrow> (string \<times> string) list" where
  "title_tags s = (if nl_name s = None then [] else StatusCell (readyStatus (nl_data s)))"

definition drawer_body :: "node_load \<Rightarrow> jval" where
  "drawer_body s = (if nl_name s = None \<or> nl_loading s \<or> \<not> truthy (nl_data s) then None else nl_data s)"

definition yamlText :: "(json \<Rightarrow> string) \<Rightarrow> node_load \<Rightarrow> string" where
  "yamlText dump s = (if truthy (nl_data s) then dump (the (nl_data s)) else [])"

section \<open>The body is that of the node\<close>

definition nl_shown :: "node_load \<Rightarrow> jval" where
  "nl_shown s = (if nl_name s = None \<or> nl_loading s \<or> nl_latest s \<noteq> nl_run s then None else nl_data s)"

text \<open>The server answers a request for a node with that node, or fails.\<close>

definition nl_fair :: "(string \<Rightarrow> json) \<Rightarrow> node_load_act \<Rightarrow> node_load \<Rightarrow> bool" where
  "nl_fair nodes a s \<longleftrightarrow> (case a of
     NodeLoaded n (Some v) \<Rightarrow> list_all (\<lambda>(m, t). m = n \<longrightarrow> v = nodes t) (nl_flights s) | _ \<Rightarrow> True)"

lemma node_loaded_facts:
  "nl_run (node_loaded n r s) = nl_run s" "nl_name (node_loaded n r s) = nl_name s" "nl_latest (node_loaded n r s) = nl_latest s"
  "set (nl_flights (node_loaded n r s)) \<subseteq> set (nl_flights s)"
  by (auto simp: node_loaded_def Let_def)

interpretation node_loader: effect_loader load_step nl_run nl_flights nl_name nl_shown "\<lambda>t v. v = nodes t" "nl_fair nodes" for nodes
proof (unfold_locales, goal_cases)
  case (1 s a)
  then show ?case by (cases a) (auto simp: load_node_def node_loaded_facts split: option.split)
next
  case (2 a s)
  then show ?case by (cases a) (auto simp: load_node_def node_loaded_facts split: option.splits if_splits)
next
  case (3 l a s)
  then show ?case using node_loaded_facts(4) by (cases a) (auto simp: load_node_def split: option.splits if_splits)
next
  case (4 a s v)
  show ?case
  proof (cases a)
    case (NodeLoaded n r)
    then show ?thesis using 4
      by (fastforce simp: nl_shown_def nl_fair_def list_all_iff node_loaded_def Let_def split: if_splits option.splits)
  qed (use 4 in \<open>auto simp: nl_shown_def load_node_def split: option.splits if_splits\<close>)
qed

lemma open_is_latest: "nl_name s = None \<or> nl_latest s = nl_run s \<Longrightarrow>
    nl_name (fold load_step as s) = None \<or> nl_latest (fold load_step as s) = nl_run (fold load_step as s)"
proof (induction as arbitrary: s)
  case (Cons a as)
  have "nl_name (load_step a s) = None \<or> nl_latest (load_step a s) = nl_run (load_step a s)"
    using Cons.prems by (cases a) (auto simp: load_node_def node_loaded_facts split: option.split)
  then show ?case using Cons.IH by simp
qed simp

text \<open>The drawer shows the node it names: after any openings, closings, late answers and
  failures, what its body shows is the object of the node in its title.\<close>

theorem drawer_shows_its_node:
  assumes "fair_run load_step (nl_fair nodes) nl_init as" "drawer_body (fold load_step as nl_init) = Some v"
  shows "\<exists>n. nl_name (fold load_step as nl_init) = Some n \<and> v = nodes n"
proof -
  have "node_loader.loads_ok nodes nl_init" by (rule node_loader.loads_ok_start) (simp_all add: nl_init_def nl_shown_def)
  then have ok: "node_loader.loads_ok nodes (fold load_step as nl_init)" using assms(1) by (rule node_loader.loads_ok_run)
  have "nl_shown (fold load_step as nl_init) = Some v"
    using open_is_latest[of nl_init as] assms(2) by (auto simp: nl_init_def nl_shown_def drawer_body_def split: if_splits)
  then show ?thesis using node_loader.loaded_is_of_target[OF ok] by blast
qed

definition demo_node :: "bool \<Rightarrow> json" where
  "demo_node up = JObj [(''status'', JObj [(''conditions'', JArr [JObj [(''type'', JStr ''Ready''),
     (''status'', JStr (if up then ''True'' else ''False''))]])])]"

definition late_answer :: "node_load_act list" where
  "late_answer = [OpenNode ''n1'', CloseNode, NodeLoaded 1 (Some (demo_node False)), OpenNode ''n2'']"

lemma drawer_shows_its_node_witness:
  "\<exists>n. nl_name (fold load_step (late_answer @ [NodeLoaded 3 (Some (demo_node True))]) nl_init) = Some n \<and>
    demo_node True = (if n = ''n1'' then demo_node False else demo_node True)"
  by (rule drawer_shows_its_node[where nodes = "\<lambda>n. if n = ''n1'' then demo_node False else demo_node True"]) code_simp+

text \<open>The title does not wait: the answer for a node that was closed before it came is kept, and
  its status stands beside the name of the next node until that one has loaded.\<close>

lemma title_shows_another_status:
  "let s = fold load_step late_answer nl_init
   in nl_name s = Some ''n2'' \<and> title_tags s = [(''NotReady'', ''error'')] \<and> drawer_body s = None"
  by code_simp

text \<open>The tags of the title are the readiness and, on a cordoned node, that it takes no pods.\<close>

lemma ready_tags:
  assumes "ready_condition node = Some c"
  shows "map fst (StatusCell (readyStatus node)) =
    (if oget ''status'' (Some c) = Some (JStr ''True'') then ''Ready'' else ''NotReady'') #
    (if truthy (opath [''spec'', ''unschedulable''] node) then [''SchedulingDisabled''] else [])"
proof -
  have c: "comma_parts ''Ready'' = [''Ready'']" "comma_parts ''NotReady'' = [''NotReady'']"
    "comma_parts ''Ready,SchedulingDisabled'' = [''Ready'', ''SchedulingDisabled'']"
    "comma_parts ''NotReady,SchedulingDisabled'' = [''NotReady'', ''SchedulingDisabled'']" by code_simp+
  show ?thesis unfolding readyStatus_def assms by (simp add: StatusCell_def c Let_def)
qed

end
