(* ===== verification/DeviceReports.thy ===== *)
theory DeviceReports
  imports VolcanoTables SystemMonitor EffectLoad
begin

text \<open>
  The hook hooks/useClusterRequest.ts and the two device reports that load through it:
  pages/Compute/Volcano/GPUHour.tsx (services/kpilot/gpu-hour.ts) and DeviceHealth.tsx
  (services/kpilot/device-health.ts).

  useRequest is the library's: the answer to its latest run is used, a failure clears the
  data, and mutate sets the data without touching a run.  Numbers are exact rationals;
  localized texts are message identifiers.
\<close>

section \<open>useClusterRequest\<close>

text \<open>cq_deps are the dependencies of the last render, None while it was not ready; the effect
  runs when they change.  cq_latest numbers the latest run of the request, cq_run counts the
  runs of the effect and the refreshes.\<close>

record ('d, 'v) cluster_request =
  cq_deps :: "'d option"
  cq_data :: "'v option"
  cq_error :: "jval"
  cq_loading :: bool
  cq_latest :: nat
  cq_run :: nat
  cq_flights :: "(nat \<times> 'd) list"

definition cq_init :: "('d, 'v) cluster_request" where
  "cq_init = \<lparr>cq_deps = None, cq_data = None, cq_error = None, cq_loading = False, cq_latest = 0, cq_run = 0, cq_flights = []\<rparr>"

text \<open>An answer is the data or the error.\<close>

datatype ('d, 'v) request_act = RenderWith "'d option" | RefreshNow | RequestAnswer nat "json + 'v"

definition run_request :: "'d \<Rightarrow> ('d, 'v) cluster_request \<Rightarrow> ('d, 'v) cluster_request" where
  "run_request d s =
    s\<lparr>cq_loading := True, cq_run := Suc (cq_run s), cq_latest := Suc (cq_run s), cq_flights := (Suc (cq_run s), d) # cq_flights s\<rparr>"

definition useClusterRequest :: "'d option \<Rightarrow> ('d, 'v) cluster_request \<Rightarrow> ('d, 'v) cluster_request" where
  "useClusterRequest deps s =
    (if deps = cq_deps s then s
     else case deps of
         None \<Rightarrow> s\<lparr>cq_deps := None, cq_data := None, cq_run := Suc (cq_run s)\<rparr>
       | Some d \<Rightarrow> run_request d (s\<lparr>cq_deps := Some d\<rparr>))"

definition request_answered :: "nat \<Rightarrow> json + 'v \<Rightarrow> ('d, 'v) cluster_request \<Rightarrow> ('d, 'v) cluster_request" where
  "request_answered n r s =
    (if n \<notin> fst ` set (cq_flights s) then s
     else let s1 = s\<lparr>cq_flights := filter (\<lambda>l. fst l \<noteq> n) (cq_flights s)\<rparr>
       in if n \<noteq> cq_latest s then s1
          else case r of Inr v \<Rightarrow> s1\<lparr>cq_data := Some v, cq_error := None, cq_loading := False\<rparr>
            | Inl e \<Rightarrow> s1\<lparr>cq_data := None, cq_error := Some e, cq_loading := False\<rparr>)"

text \<open>A page offers its refresh only while it is ready.\<close>

fun request_step :: "('d, 'v) request_act \<Rightarrow> ('d, 'v) cluster_request \<Rightarrow> ('d, 'v) cluster_request" where
  "request_step (RenderWith deps) s = useClusterRequest deps s"
| "request_step RefreshNow s = (case cq_deps s of None \<Rightarrow> s | Some d \<Rightarrow> run_request d s)"
| "request_step (RequestAnswer n r) s = request_answered n r s"

subsection \<open>Settled data is that of the current dependencies\<close>

definition cq_shown :: "('d, 'v) cluster_request \<Rightarrow> 'v option" where
  "cq_shown s = (if cq_deps s = None \<or> cq_loading s \<or> cq_latest s \<noteq> cq_run s then None else cq_data s)"

definition cq_fair :: "('d \<Rightarrow> 'v) \<Rightarrow> ('d, 'v) request_act \<Rightarrow> ('d, 'v) cluster_request \<Rightarrow> bool" where
  "cq_fair srv a s \<longleftrightarrow> (case a of
     RequestAnswer n (Inr v) \<Rightarrow> list_all (\<lambda>(m, d). m = n \<longrightarrow> v = srv d) (cq_flights s) | _ \<Rightarrow> True)"

lemma request_answered_facts:
  "cq_run (request_answered n r s) = cq_run s" "cq_deps (request_answered n r s) = cq_deps s"
  "cq_latest (request_answered n r s) = cq_latest s" "set (cq_flights (request_answered n r s)) \<subseteq> set (cq_flights s)"
  by (auto simp: request_answered_def Let_def split: sum.split)

interpretation hook: effect_loader request_step cq_run cq_flights cq_deps cq_shown "\<lambda>d v. v = srv d" "cq_fair srv" for srv
proof (unfold_locales, goal_cases)
  case (1 s a)
  then show ?case by (cases a) (auto simp: useClusterRequest_def run_request_def request_answered_facts split: option.split)
next
  case (2 a s)
  then show ?case
    by (cases a) (auto simp: useClusterRequest_def run_request_def request_answered_facts split: option.splits if_splits)
next
  case (3 l a s)
  then show ?case using request_answered_facts(4)
    by (cases a) (auto simp: useClusterRequest_def run_request_def split: option.splits if_splits)
next
  case (4 a s v)
  show ?case
  proof (cases a)
    case (RequestAnswer n r)
    then show ?thesis using 4
      by (fastforce simp: cq_shown_def cq_fair_def list_all_iff request_answered_def Let_def split: if_splits option.splits sum.splits)
  qed (use 4 in \<open>auto simp: cq_shown_def useClusterRequest_def run_request_def split: option.splits if_splits\<close>)
qed

lemma ready_is_latest: "cq_deps s = None \<or> cq_latest s = cq_run s \<Longrightarrow>
    cq_deps (fold request_step as s) = None \<or> cq_latest (fold request_step as s) = cq_run (fold request_step as s)"
proof (induction as arbitrary: s)
  case (Cons a as)
  have "cq_deps (request_step a s) = None \<or> cq_latest (request_step a s) = cq_run (request_step a s)"
    using Cons.prems
    by (cases a) (auto simp: useClusterRequest_def run_request_def request_answered_facts split: option.split)
  then show ?case using Cons.IH by simp
qed simp


definition crossing_answers :: "(nat, nat) request_act list" where
  "crossing_answers = [RenderWith (Some 1), RenderWith (Some 2), RequestAnswer 2 (Inr 20), RequestAnswer 1 (Inr 10)]"


text \<open>Clearing does not cancel: an answer that arrives after the page stopped being ready puts its
  data back.\<close>

lemma late_answer_fills_cleared_data:
  "let s = fold request_step [RenderWith (Some d), RenderWith None, RequestAnswer 1 (Inr v)] cq_init
   in cq_deps s = None \<and> cq_data s = Some v"
  by (simp add: useClusterRequest_def run_request_def request_answered_def cq_init_def)

section \<open>GPU hours\<close>

record GPUHourRow =
  gh_hostname :: "string option"
  gh_gpu :: "string option"
  gh_uuid :: "string option"
  gh_hours :: rat

record GPUHourResponse =
  gh_rows :: "GPUHourRow list"
  gh_total :: rat

definition GPU_RANGES :: "string list" where
  "GPU_RANGES = [''1h'', ''24h'', ''7d'', ''30d'']"

definition getGPUHour :: "string \<times> string \<Rightarrow> request" where
  "getGPUHour d = GET (path [''api'', ''v1'', ''clusters'', fst d, ''gpu-hour'']) [(''range'', JStr (snd d))]"

definition fmtHours :: "rat \<Rightarrow> string" where
  "fmtHours h = (if h \<ge> 100 then to_fixed 0 h else if h \<ge> 1 then to_fixed 2 h else to_fixed 3 h)"

definition topHours :: "GPUHourRow list \<Rightarrow> rat" where
  "topHours rows = (case rows of [] \<Rightarrow> 1 | r # _ \<Rightarrow> if gh_hours r > 0 then gh_hours r else 1)"

text \<open>The bar of a row, and the share of the total written beside it.\<close>

definition hour_percent :: "GPUHourResponse \<Rightarrow> GPUHourRow \<Rightarrow> rat" where
  "hour_percent d r = (if gh_total d > 0 then gh_hours r / topHours (gh_rows d) * 100 else 0)"

definition hour_share :: "GPUHourResponse \<Rightarrow> GPUHourRow \<Rightarrow> rat" where
  "hour_share d r = gh_hours r / gh_total d * 100"

record hour_row =
  hw_host :: "string \<times> string option"
  hw_gpu :: string
  hw_uuid :: "(string \<times> string) option"
  hw_hours :: string
  hw_percent :: rat
  hw_share :: "string option"

text \<open>A host name with the page it links to; a short identifier with the text that is copied.\<close>

definition host_cell :: "string \<Rightarrow> string option \<Rightarrow> string \<times> string option" where
  "host_cell clusterId h =
    (case h of None \<Rightarrow> (''-'', None) | Some n \<Rightarrow> if n = [] then (''-'', None) else (n, Some (path [''clusters'', clusterId, ''nodes''])))"

definition uuid_cell :: "string option \<Rightarrow> (string \<times> string) option" where
  "uuid_cell u = (case u of None \<Rightarrow> None | Some x \<Rightarrow> if x = [] then None else Some (shortUUID u, x))"

definition hour_rows :: "string \<Rightarrow> GPUHourResponse \<Rightarrow> hour_row list" where
  "hour_rows clusterId d = map (\<lambda>r.
     \<lparr>hw_host = host_cell clusterId (gh_hostname r), hw_gpu = (case gh_gpu r of None \<Rightarrow> ''-'' | Some g \<Rightarrow> g),
      hw_uuid = uuid_cell (gh_uuid r), hw_hours = fmtHours (gh_hours r), hw_percent = hour_percent d r,
      hw_share = (if gh_total d > 0 then Some (to_fixed 1 (hour_share d r) @ ''%'') else None)\<rparr>) (gh_rows d)"

text \<open>What the pages show: the hint to install the exporter, an error, or the report.\<close>

datatype 'r report_view = NotInstalledHint string | ReportFailed string string | Report 'r

record hour_report =
  hp_spinning :: bool
  hp_retention :: bool
  hp_total :: string
  hp_active :: nat
  hp_rows :: "hour_row list"

definition no_hours :: GPUHourResponse where
  "no_hours = \<lparr>gh_rows = [], gh_total = 0\<rparr>"

definition GPUHourPage :: "string \<Rightarrow> string \<Rightarrow> (string \<times> string, GPUHourResponse) cluster_request \<Rightarrow> hour_report report_view" where
  "GPUHourPage clusterId hours s =
    (if cq_error s \<noteq> None \<and> isResourceNotAvailable (cq_error s) then NotInstalledHint ''pages.gpuHour.notInstalled''
     else if cq_error s \<noteq> None
     then ReportFailed ''pages.gpuHour.error.title'' (case oget ''message'' (cq_error s) of Some (JStr m) \<Rightarrow> m | _ \<Rightarrow> [])
     else let d = (case cq_data s of None \<Rightarrow> no_hours | Some x \<Rightarrow> x)
       in Report \<lparr>hp_spinning = (cq_loading s \<and> cq_data s = None), hp_retention = (hours = ''30d''), hp_total = fmtHours (gh_total d),
            hp_active = length (gh_rows d), hp_rows = hour_rows clusterId d\<rparr>)"

definition hour_deps :: "string \<Rightarrow> string \<Rightarrow> (string \<times> string) option" where
  "hour_deps clusterId hours = (if clusterId = [] then None else Some (clusterId, hours))"

text \<open>Bars and shares of a report as the server sends it, sorted and with its total: every bar is
  between 0 and 100, the first one is full, and the shares add up to the whole.\<close>

theorem hour_bars_fit:
  assumes "sorted_wrt (\<lambda>a b. gh_hours b \<le> gh_hours a) (gh_rows d)" "list_all (\<lambda>r. 0 \<le> gh_hours r) (gh_rows d)"
    and "gh_total d = sum_list (map gh_hours (gh_rows d))" "gh_total d > 0"
  shows "list_all (\<lambda>r. 0 \<le> hour_percent d r \<and> hour_percent d r \<le> 100) (gh_rows d) \<and>
    hour_percent d (hd (gh_rows d)) = 100 \<and> sum_list (map (hour_share d) (gh_rows d)) = 100"
proof -
  obtain r rs where rows: "gh_rows d = r # rs" using assms(3,4) by (cases "gh_rows d") auto
  have le: "\<forall>x \<in> set (gh_rows d). 0 \<le> gh_hours x \<and> gh_hours x \<le> gh_hours r"
    using assms(1,2) by (auto simp: rows list_all_iff)
  have pos: "gh_hours r > 0"
  proof (rule ccontr)
    assume "\<not> 0 < gh_hours r"
    then have z: "map gh_hours (gh_rows d) = map (\<lambda>_. 0) (gh_rows d)" using le by force
    have "sum_list (map gh_hours (gh_rows d)) = 0" unfolding z by simp
    then show False using assms(3,4) by simp
  qed
  have top: "topHours (gh_rows d) = gh_hours r" using pos by (simp add: topHours_def rows)
  have share: "sum_list (map (hour_share d) xs) = sum_list (map gh_hours xs) / gh_total d * 100" for xs
    by (induction xs) (simp_all add: hour_share_def add_divide_distrib distrib_right)
  have "list_all (\<lambda>r. 0 \<le> hour_percent d r \<and> hour_percent d r \<le> 100) (gh_rows d)"
    using le pos by (simp add: list_all_iff hour_percent_def top divide_le_eq)
  moreover have "hour_percent d (hd (gh_rows d)) = 100" using pos assms(4) by (simp add: hour_percent_def top) (simp add: rows)
  moreover have "sum_list (map (hour_share d) (gh_rows d)) = 100" unfolding share using assms(3,4) by simp
  ultimately show ?thesis by blast
qed

definition demo_hours :: GPUHourResponse where
  "demo_hours = (let r = (\<lambda>h. \<lparr>gh_hostname = None, gh_gpu = None, gh_uuid = None, gh_hours = h\<rparr>)
     in \<lparr>gh_rows = [r 3, r 1, r 0], gh_total = 4\<rparr>)"

lemma hour_bars_fit_witness:
  "let d = demo_hours in hour_percent d (hd (gh_rows d)) = 100 \<and> sum_list (map (hour_share d) (gh_rows d)) = 100"
  using hour_bars_fit[of demo_hours] by (simp add: demo_hours_def Let_def)

text \<open>After another range was picked the rows of the old one stay until the answer, without the
  spinner.\<close>

lemma old_range_stays:
  assumes "cq_deps s = Some (c, hours)" "cq_data s = Some d" "cq_error s = None" "hours \<noteq> hours'"
  shows "case GPUHourPage c hours' (request_step (RenderWith (Some (c, hours'))) s) of
     Report p \<Rightarrow> hp_rows p = hour_rows c d \<and> \<not> hp_spinning p | _ \<Rightarrow> False"
  using assms by (simp add: GPUHourPage_def useClusterRequest_def run_request_def Let_def)

section \<open>Device health\<close>

record DeviceAlert =
  da_severity :: string
  da_kind :: string
  da_hostname :: "string option"
  da_gpu :: "string option"
  da_uuid :: "string option"
  da_value :: rat

record DeviceHealthResponse =
  dh_alerts :: "DeviceAlert list"
  dh_counts :: "nat \<times> nat \<times> nat"

definition getDeviceHealth :: "string \<Rightarrow> request" where
  "getDeviceHealth clusterId = GET (path [''api'', ''v1'', ''clusters'', clusterId, ''device-health'']) []"

definition SEVERITY_COLOR :: "(string \<times> string) list" where
  "SEVERITY_COLOR = [(''critical'', ''red''), (''warning'', ''orange''), (''info'', ''blue'')]"

definition KIND_I18N :: "(string \<times> string) list" where
  "KIND_I18N = [(''xid_error'', ''pages.deviceHealth.kind.xidError''), (''ecc_uncorrectable'', ''pages.deviceHealth.kind.eccUncorrect''),
     (''overheat'', ''pages.deviceHealth.kind.overheat''), (''fb_memory_near_full'', ''pages.deviceHealth.kind.fbMemoryFull'')]"

definition KIND_MESSAGE_I18N :: "(string \<times> string) list" where
  "KIND_MESSAGE_I18N =
    [(''xid_error'', ''pages.deviceHealth.message.xidError''), (''ecc_uncorrectable'', ''pages.deviceHealth.message.eccUncorrect''),
     (''overheat'', ''pages.deviceHealth.message.overheat''), (''fb_memory_near_full'', ''pages.deviceHealth.message.fbMemoryFull'')]"

definition math_round :: "rat \<Rightarrow> int" where
  "math_round x = \<lfloor>x + 1 / 2\<rfloor>"

text \<open>A message with its values, or the raw text of a kind that is not known.\<close>

datatype alert_text = AlertMessage string rat int int | RawAlert string

definition renderAlertMessage :: "DeviceAlert \<Rightarrow> alert_text" where
  "renderAlertMessage a =
    (case map_of KIND_MESSAGE_I18N (da_kind a) of
       None \<Rightarrow> RawAlert (da_kind a @ '': '' @ show_num (da_value a))
     | Some i \<Rightarrow> AlertMessage i (da_value a) (math_round (da_value a)) (math_round (da_value a * 100)))"

record alert_row =
  aw_severity :: "string \<times> string"
  aw_kind :: string
  aw_host :: "string \<times> string option"
  aw_gpu :: string
  aw_uuid :: "(string \<times> string) option"
  aw_message :: alert_text

definition alert_row_of :: "string \<Rightarrow> DeviceAlert \<Rightarrow> alert_row" where
  "alert_row_of clusterId a =
    \<lparr>aw_severity = (''pages.deviceHealth.severity.'' @ da_severity a,
       case map_of SEVERITY_COLOR (da_severity a) of None \<Rightarrow> ''default'' | Some c \<Rightarrow> c),
     aw_kind = (case map_of KIND_I18N (da_kind a) of None \<Rightarrow> da_kind a | Some i \<Rightarrow> i), aw_host = host_cell clusterId (da_hostname a),
     aw_gpu = (case da_gpu a of None \<Rightarrow> ''-'' | Some g \<Rightarrow> g), aw_uuid = uuid_cell (da_uuid a), aw_message = renderAlertMessage a\<rparr>"

definition severity_filter :: "string \<Rightarrow> DeviceAlert list \<Rightarrow> DeviceAlert list" where
  "severity_filter v as = filter (\<lambda>a. da_severity a = v) as"

text \<open>The tiles (count and the token of its colour), the rows, and whether the table has pages.\<close>

record health_report =
  hr_spinning :: bool
  hr_tiles :: "(string \<times> nat \<times> string option) list"
  hr_rows :: "alert_row list"
  hr_pagination :: bool

definition DeviceHealthPage :: "string \<Rightarrow> (string, DeviceHealthResponse) cluster_request \<Rightarrow> health_report report_view" where
  "DeviceHealthPage clusterId s =
    (if cq_error s \<noteq> None \<and> isResourceNotAvailable (cq_error s) then NotInstalledHint ''pages.deviceHealth.notInstalled''
     else if cq_error s \<noteq> None
     then ReportFailed ''pages.deviceHealth.error.title'' (case oget ''message'' (cq_error s) of Some (JStr m) \<Rightarrow> m | _ \<Rightarrow> [])
     else let (crit, warn, info) = (case cq_data s of None \<Rightarrow> (0, 0, 0) | Some d \<Rightarrow> dh_counts d);
              alerts = (case cq_data s of None \<Rightarrow> [] | Some d \<Rightarrow> dh_alerts d)
       in Report \<lparr>hr_spinning = (cq_loading s \<and> cq_data s = None),
            hr_tiles = [(''critical'', crit, if crit > 0 then Some ''colorError'' else None),
              (''warning'', warn, if warn > 0 then Some ''colorWarning'' else None), (''info'', info, None)],
            hr_rows = map (alert_row_of clusterId) alerts, hr_pagination = (alerts \<noteq> [])\<rparr>)"

text \<open>The percentage of a message is the ratio rounded to the nearest whole percent.\<close>

lemma rounded_percent: "\<bar>of_int (math_round (v * 100)) - v * 100\<bar> \<le> 1 / 2"
  unfolding math_round_def by linarith

end
