(* ===== verification/Monitoring.thy ===== *)
theory Monitoring
  imports Nodes DeviceReports GpuMonitor "HOL-Library.List_Lexorder" "HOL-Library.Char_ord"
begin

text \<open>
  The monitoring page of a cluster: services/kpilot/monitoring.ts and
  pages/ClusterDetail/Monitoring (index.tsx, LazySection.tsx, MonitoringCharts.tsx,
  ClusterTab.tsx, NodeTab.tsx, PodTab.tsx).

  A tab is unmounted when another one is shown.  toISO prints dates; localized texts are
  message identifiers.  Names are sorted by their bytes, which is the order of
  Array.prototype.sort up to characters outside the basic plane.
\<close>

section \<open>services/kpilot/monitoring.ts\<close>

record ts_point =
  tp_ts :: int
  tp_value :: rat

record ClusterMetricsSnapshot =
  cm_nodesReady :: nat
  cm_nodesTotal :: nat
  cm_cpuUtilPct :: rat
  cm_memUtilPct :: rat
  cm_cpuTotalCores :: rat
  cm_cpuUsedCores :: rat
  cm_memTotalBytes :: rat
  cm_memUsedBytes :: rat
  cm_podsByPhase :: "(string \<times> nat) list"
  cm_podsTotal :: nat
  cm_podsPending :: nat

record NodeMetricSeries =
  nm_instance :: string
  nm_nodeName :: "string option"
  nm_mountpoint :: "string option"
  nm_device :: "string option"
  nm_points :: "ts_point list"

record PodMetricSeries =
  pm_namespace :: string
  pm_pod :: string
  pm_points :: "ts_point list"

record PodHealthRow =
  ph_namespace :: string
  ph_pod :: string
  ph_restarts :: nat
  ph_ooms :: nat

text \<open>A query string that ends in the groups, when there are any.\<close>

definition metrics_query :: "string \<Rightarrow> string \<Rightarrow> string" where
  "metrics_query rangeQS groups = (if groups = [] then rangeQS else rangeQS @ ''&groups='' @ groups)"

definition getClusterMetrics :: "(int \<Rightarrow> string) \<Rightarrow> int \<Rightarrow> string \<Rightarrow> TimeRangeValue \<Rightarrow> string \<Rightarrow> request" where
  "getClusterMetrics toISO now clusterId rng groups =
    GET (path [''api'', ''v1'', ''clusters'', clusterId, ''cluster-metrics''] @ ''?'' @ metrics_query (buildRangeQuery toISO now rng) groups) []"

definition getNodeMetrics :: "(int \<Rightarrow> string) \<Rightarrow> int \<Rightarrow> string \<Rightarrow> TimeRangeValue \<Rightarrow> string \<Rightarrow> request" where
  "getNodeMetrics toISO now clusterId rng groups =
    GET (path [''api'', ''v1'', ''clusters'', clusterId, ''node-metrics''] @ ''?'' @ metrics_query (buildRangeQuery toISO now rng) groups) []"

definition getPodHealth :: "string \<Rightarrow> string \<Rightarrow> nat \<Rightarrow> string \<Rightarrow> request" where
  "getPodHealth clusterId ns limit podSearch =
    GET (path [''api'', ''v1'', ''clusters'', clusterId, ''pod-health''])
      (prop_if (ns \<noteq> []) ''namespace'' (JStr ns) @ prop_if (limit > 0) ''limit'' (JNum (of_nat limit)) @
       prop_if (podSearch \<noteq> []) ''podSearch'' (JStr podSearch))"

definition getPodMetrics :: "(int \<Rightarrow> string) \<Rightarrow> int \<Rightarrow> string \<Rightarrow> TimeRangeValue \<Rightarrow> string \<Rightarrow> nat \<Rightarrow> string \<Rightarrow> string \<Rightarrow> request" where
  "getPodMetrics toISO now clusterId rng ns limit groups podSearch =
    GET (path [''api'', ''v1'', ''clusters'', clusterId, ''pod-metrics''] @ ''?'' @ buildRangeQuery toISO now rng)
      (prop_if (ns \<noteq> []) ''namespace'' (JStr ns) @ prop_if (limit > 0) ''limit'' (JNum (of_nat limit)) @
       prop_if (groups \<noteq> []) ''groups'' (JStr groups) @ prop_if (podSearch \<noteq> []) ''podSearch'' (JStr podSearch))"

section \<open>The page\<close>

datatype MonitoringTab = ClusterTabKey | NodeTabKey | PodTabKey

text \<open>Nothing without a cluster, the hint to install the metrics store, the first spinner, or the
  tabs, with the text of a failed probe.\<close>

datatype monitoring_view = NoCluster | MonitoringNotInstalled | FirstSpin | Tabs "string option"

definition probe_message :: "jval \<Rightarrow> string" where
  "probe_message e = js_String (the (coalesce (coalesce (opath [''response'', ''data'', ''message''] e) (oget ''message'' e)) (Some (JStr ''undefined''))))"

definition MonitoringPage :: "string \<Rightarrow> ('d, 'v) cluster_request \<Rightarrow> monitoring_view" where
  "MonitoringPage clusterId probe =
    (if clusterId = [] then NoCluster
     else if cq_error probe \<noteq> None \<and> isResourceNotAvailable (cq_error probe) then MonitoringNotInstalled
     else if cq_data probe = None \<and> cq_error probe = None then FirstSpin
     else Tabs (if cq_error probe \<noteq> None then Some (probe_message (cq_error probe)) else None))"

text \<open>The clock of the shell: the tick that sections poll on, and the time of the last refresh,
  which the first answer of the probe sets and every tick moves.\<close>

record shell =
  sh_tick :: nat
  sh_refreshed :: "int option"

datatype shell_act = ProbeLanded int | ShellTick int

fun shell_step :: "shell_act \<Rightarrow> shell \<Rightarrow> shell" where
  "shell_step (ProbeLanded generatedAt) s = (if sh_refreshed s = None then s\<lparr>sh_refreshed := Some generatedAt\<rparr> else s)"
| "shell_step (ShellTick now) s = s\<lparr>sh_tick := Suc (sh_tick s), sh_refreshed := Some now\<rparr>"

section \<open>Sections\<close>

text \<open>A section of a tab.  sc_shown says whether its tab is, sc_polled is the tick that its body
  has seen (None while the body is not mounted), sc_fetches the ranges it has fetched.\<close>

record section_state =
  sc_shown :: bool
  sc_open :: bool
  sc_seen :: bool
  sc_tick :: nat
  sc_range :: TimeRangeValue
  sc_polled :: "nat option"
  sc_fetches :: "TimeRangeValue list"

datatype section_act = BumpTick | ToggleSection | SwitchTab bool | PickRange TimeRangeValue | Intersects

definition sc_active :: "section_state \<Rightarrow> bool" where
  "sc_active s \<longleftrightarrow> sc_shown s \<and> sc_open s \<and> sc_seen s"

text \<open>The body mounts when the section has been seen: the hook fetches, and the polling effect
  notes the tick.\<close>

definition mount_body :: "section_state \<Rightarrow> section_state" where
  "mount_body s =
    (if sc_shown s \<and> sc_seen s \<and> sc_polled s = None
     then s\<lparr>sc_polled := Some (sc_tick s), sc_fetches := sc_fetches s @ [sc_range s]\<rparr> else s)"

definition usePollingRefresh :: "section_state \<Rightarrow> section_state" where
  "usePollingRefresh s =
    (case sc_polled s of
       None \<Rightarrow> s
     | Some t \<Rightarrow>
        (let s1 = s\<lparr>sc_polled := Some (sc_tick s)\<rparr>
         in if sc_active s \<and> sc_tick s \<noteq> t then s1\<lparr>sc_fetches := sc_fetches s @ [sc_range s]\<rparr> else s1))"

definition mount_section :: "bool \<Rightarrow> section_state \<Rightarrow> section_state" where
  "mount_section defaultOpen s = mount_body (s\<lparr>sc_shown := True, sc_open := defaultOpen, sc_seen := defaultOpen, sc_polled := None\<rparr>)"

definition observer_watches :: "section_state \<Rightarrow> bool" where
  "observer_watches s \<longleftrightarrow> sc_shown s \<and> \<not> sc_seen s \<and> sc_open s"

fun section_step :: "bool \<Rightarrow> section_act \<Rightarrow> section_state \<Rightarrow> section_state" where
  "section_step defaultOpen BumpTick s = usePollingRefresh (s\<lparr>sc_tick := Suc (sc_tick s)\<rparr>)"
| "section_step defaultOpen ToggleSection s =
    (if sc_shown s then usePollingRefresh (mount_body (s\<lparr>sc_seen := True, sc_open := \<not> sc_open s\<rparr>)) else s)"
| "section_step defaultOpen (SwitchTab here) s =
    (if here = sc_shown s then s
     else if here then mount_section defaultOpen s
     else s\<lparr>sc_shown := False, sc_polled := None\<rparr>)"
| "section_step defaultOpen (PickRange r) s =
    (if r = sc_range s then s
     else let s1 = s\<lparr>sc_range := r\<rparr>
       in if sc_shown s \<and> sc_polled s \<noteq> None then s1\<lparr>sc_fetches := sc_fetches s @ [r]\<rparr> else s1)"
| "section_step defaultOpen Intersects s = (if observer_watches s then mount_body (s\<lparr>sc_seen := True\<rparr>) else s)"

definition sc_init :: "bool \<Rightarrow> bool \<Rightarrow> TimeRangeValue \<Rightarrow> section_state" where
  "sc_init defaultOpen here r =
    (let s = \<lparr>sc_shown = False, sc_open = defaultOpen, sc_seen = defaultOpen, sc_tick = 0, sc_range = r, sc_polled = None, sc_fetches = []\<rparr>
     in if here then mount_section defaultOpen s else s)"

text \<open>The body (and whether it is displayed), the spinner, or the hint.\<close>

datatype section_view = SectionBody bool | SectionSpin | SectionHint

definition LazySection :: "section_state \<Rightarrow> section_view" where
  "LazySection s = (if sc_seen s then SectionBody (sc_open s) else if sc_open s then SectionSpin else SectionHint)"

subsection \<open>When a section fetches\<close>

definition section_ok :: "section_state \<Rightarrow> bool" where
  "section_ok s \<longleftrightarrow> (sc_open s \<longrightarrow> sc_seen s) \<and> sc_polled s = (if sc_shown s \<and> sc_seen s then Some (sc_tick s) else None)"

lemmas section_defs = section_ok_def mount_body_def usePollingRefresh_def mount_section_def observer_watches_def sc_active_def Let_def

lemma section_ok_init: "section_ok (sc_init d h r)"
  by (simp add: sc_init_def section_defs)

lemma section_ok_step: "section_ok s \<Longrightarrow> section_ok (section_step d a s)"
  by (cases a) (auto simp: section_defs split: option.split)

lemma section_ok_run: "section_ok (fold (section_step d) as (sc_init d h r))"
  by (induction as rule: rev_induct) (simp_all add: section_ok_init section_ok_step)

text \<open>What a section is expected to fetch, without the tick it has seen: shown, open, mounted and
  the range suffice.\<close>

record section_spec =
  sp_shown :: bool
  sp_open :: bool
  sp_seen :: bool
  sp_range :: TimeRangeValue

definition spec_of :: "section_state \<Rightarrow> section_spec" where
  "spec_of s = \<lparr>sp_shown = sc_shown s, sp_open = sc_open s, sp_seen = sc_seen s, sp_range = sc_range s\<rparr>"

fun spec_step :: "bool \<Rightarrow> section_act \<Rightarrow> section_spec \<Rightarrow> section_spec \<times> TimeRangeValue list" where
  "spec_step d BumpTick s = (s, if sp_shown s \<and> sp_open s then [sp_range s] else [])"
| "spec_step d ToggleSection s =
    (if sp_shown s then (s\<lparr>sp_seen := True, sp_open := \<not> sp_open s\<rparr>, if sp_seen s then [] else [sp_range s]) else (s, []))"
| "spec_step d (SwitchTab here) s =
    (if here = sp_shown s then (s, [])
     else if here then (s\<lparr>sp_shown := True, sp_open := d, sp_seen := d\<rparr>, if d then [sp_range s] else [])
     else (s\<lparr>sp_shown := False\<rparr>, []))"
| "spec_step d (PickRange r) s =
    (s\<lparr>sp_range := r\<rparr>, if r \<noteq> sp_range s \<and> sp_shown s \<and> sp_seen s then [r] else [])"
| "spec_step d Intersects s = (s, [])"

fun spec_run :: "bool \<Rightarrow> section_act list \<Rightarrow> section_spec \<Rightarrow> TimeRangeValue list" where
  "spec_run d [] s = []"
| "spec_run d (a # as) s = snd (spec_step d a s) @ spec_run d as (fst (spec_step d a s))"

lemma section_refines_step:
  assumes "section_ok s"
  shows "spec_of (section_step d a s) = fst (spec_step d a (spec_of s))"
    "sc_fetches (section_step d a s) = sc_fetches s @ snd (spec_step d a (spec_of s))"
  using assms by (cases a; auto simp: section_defs spec_of_def split: option.split)+

lemma section_refines_run:
  "section_ok s \<Longrightarrow> sc_fetches (fold (section_step d) as s) = sc_fetches s @ spec_run d as (spec_of s)"
proof (induction as arbitrary: s)
  case (Cons a as)
  show ?case
    using Cons.IH[OF section_ok_step[OF Cons.prems]] section_refines_step[OF Cons.prems] by simp
qed simp


text \<open>A section that was not seen is closed, so scrolling never loads anything: the observer never
  watches and the spinner before the body is never shown.\<close>

lemma scrolling_loads_nothing:
  "let s = fold (section_step d) as (sc_init d h r) in \<not> observer_watches s \<and> LazySection s \<noteq> SectionSpin"
  using section_ok_run[of d as h r] by (simp add: Let_def section_ok_def observer_watches_def LazySection_def)

text \<open>A section that is collapsed after it was open still fetches when a range is picked.\<close>

lemma collapsed_section_fetches:
  assumes "r \<noteq> r'"
  shows "let s = section_step True ToggleSection (sc_init True True r)
    in LazySection s = SectionBody False \<and> sc_fetches (section_step True (PickRange r') s) = sc_fetches s @ [r']"
  using assms by (simp add: sc_init_def section_defs LazySection_def)

section \<open>Charts\<close>

record ChartSeries =
  cs_name :: string
  cs_points :: "ts_point list"

definition seriesPalette :: "string list" where
  "seriesPalette = [''#1677ff'', ''#52c41a'', ''#fa8c16'', ''#eb2f96'', ''#722ed1'', ''#13c2c2'', ''#faad14'', ''#f5222d'',
     ''#2f54eb'', ''#a0d911'', ''#fa541c'', ''#9254de'', ''#08979c'', ''#fadb14'', ''#cf1322'', ''#1d39c4'',
     ''#7cb305'', ''#d4380d'', ''#531dab'', ''#006d75'']"

definition colorFor :: "nat \<Rightarrow> string" where
  "colorFor i = seriesPalette ! (i mod length seriesPalette)"

definition sortedNames :: "ChartSeries list \<Rightarrow> string list" where
  "sortedNames ss = sort (remdups (map cs_name ss))"

definition colorByName :: "ChartSeries list \<Rightarrow> (string \<times> string) list" where
  "colorByName ss = map (\<lambda>i. (sortedNames ss ! i, colorFor i)) [0..<length (sortedNames ss)]"

definition toggleHidden :: "string \<Rightarrow> string set \<Rightarrow> string set" where
  "toggleHidden n hidden = (if n \<in> hidden then hidden - {n} else insert n hidden)"

definition chart_flat :: "rat \<Rightarrow> string set \<Rightarrow> ChartSeries list \<Rightarrow> (int \<times> rat \<times> string) list" where
  "chart_flat scale hidden ss = concat (map (\<lambda>s. if cs_name s \<in> hidden then []
     else map (\<lambda>p. (tp_ts p, tp_value p * scale, cs_name s)) (cs_points s)) ss)"

definition chart_subtitle :: "string \<Rightarrow> string option \<Rightarrow> string" where
  "chart_subtitle unit suf = join '' '' ((if unit = [] then [] else [''('' @ unit @ '')'']) @
     (case suf of None \<Rightarrow> [] | Some s \<Rightarrow> if s = [] then [] else [s]))"

definition fmtAxis :: "rat \<Rightarrow> string" where
  "fmtAxis n =
    (if \<bar>n\<bar> \<ge> 1000 then to_fixed 1 (n / 1000) @ ''k''
     else if \<bar>n\<bar> \<ge> 100 then to_fixed 0 n else if \<bar>n\<bar> \<ge> 1 then to_fixed 1 n else to_fixed 2 n)"

text \<open>The lines are drawn while the wrapper has a width.\<close>

definition chart_ready :: "rat option \<Rightarrow> bool" where
  "chart_ready width = (case width of None \<Rightarrow> False | Some w \<Rightarrow> w > 0)"

text \<open>A chart as a tab asks for it, and as it is drawn: None is the empty card; a legend entry is
  a name, its colour and whether it is hidden.\<close>

record chart_spec =
  ct_title :: string
  ct_unit :: string
  ct_suffix :: "string option"
  ct_yMax :: "rat option"
  ct_scale :: rat
  ct_series :: "ChartSeries list"
  ct_legend :: bool

record drawn_chart =
  dc_title :: "string \<times> string"
  dc_points :: "(int \<times> rat \<times> string) list"
  dc_yMax :: "rat option"
  dc_colors :: "(string \<times> string) list"
  dc_legend :: "(string \<times> string option \<times> bool) list"

definition MultiSeriesChart :: "string set \<Rightarrow> chart_spec \<Rightarrow> drawn_chart option" where
  "MultiSeriesChart hidden c =
    (let ss = ct_series c; names = sortedNames ss
     in if list_all (\<lambda>s. cs_points s = []) ss then None
        else Some \<lparr>dc_title = (ct_title c, chart_subtitle (ct_unit c) (ct_suffix c)), dc_points = chart_flat (ct_scale c) hidden ss,
          dc_yMax = ct_yMax c, dc_colors = colorByName ss,
          dc_legend = (if ct_legend c \<or> length names > 1
             then map (\<lambda>n. (n, map_of (colorByName ss) n, n \<in> hidden)) names else [])\<rparr>)"

lemma sortedNames_facts: "distinct (sortedNames ss)" "sorted (sortedNames ss)" "set (sortedNames ss) = cs_name ` set ss"
  by (simp_all add: sortedNames_def)

lemma color_keys: "map fst (colorByName ss) = sortedNames ss"
  by (simp add: colorByName_def comp_def map_nth)

lemma color_of_nth: "i < length (sortedNames ss) \<Longrightarrow> map_of (colorByName ss) (sortedNames ss ! i) = Some (colorFor i)"
  by (rule map_of_is_SomeI) (simp add: color_keys sortedNames_facts, auto simp: colorByName_def)

lemma palette_distinct: "distinct seriesPalette"
  unfolding seriesPalette_def by code_simp

lemma palette_length: "length seriesPalette = 20"
  by (simp add: seriesPalette_def)

lemma toggle_twice: "toggleHidden n (toggleHidden n hidden) = hidden"
  by (auto simp: toggleHidden_def)

lemma flat_series: "(\<lambda>(_, _, n). n) ` set (chart_flat k hidden ss) = {cs_name s | s. s \<in> set ss \<and> cs_points s \<noteq> [] \<and> cs_name s \<notin> hidden}"
proof (induction ss)
  case (Cons s ss)
  have "(\<lambda>(_, _, n). n) ` set (chart_flat k hidden (s # ss)) =
      (if cs_name s \<in> hidden \<or> cs_points s = [] then {} else {cs_name s}) \<union> (\<lambda>(_, _, n). n) ` set (chart_flat k hidden ss)"
    by (simp add: chart_flat_def image_Un image_image image_constant_conv)
  then show ?case unfolding Cons.IH by auto
qed (simp add: chart_flat_def)

text \<open>Lines and legend agree: the legend has every name once, sorted, with the colour its line is
  drawn in; a name is struck out exactly when its line is hidden; and up to twenty names have
  different colours.\<close>

theorem legend_matches_the_lines:
  assumes "MultiSeriesChart hidden c = Some d" "ct_legend c"
  shows "map fst (dc_legend d) = sortedNames (ct_series c) \<and> sorted (map fst (dc_legend d)) \<and> distinct (map fst (dc_legend d)) \<and>
    map (\<lambda>(n, col, _). (n, col)) (dc_legend d) = map (\<lambda>(n, col). (n, Some col)) (dc_colors d) \<and>
    (\<lambda>(_, _, n). n) ` set (dc_points d) = {cs_name s | s. s \<in> set (ct_series c) \<and> cs_points s \<noteq> [] \<and> (cs_name s, map_of (dc_colors d) (cs_name s), False) \<in> set (dc_legend d)} \<and>
    (length (dc_legend d) \<le> 20 \<longrightarrow> distinct (map snd (dc_colors d)))"
proof -
  let ?ss = "ct_series c"
  have d: "dc_legend d = map (\<lambda>n. (n, map_of (colorByName ?ss) n, n \<in> hidden)) (sortedNames ?ss)" "dc_colors d = colorByName ?ss"
    "dc_points d = chart_flat (ct_scale c) hidden ?ss"
    using assms by (auto simp: MultiSeriesChart_def Let_def split: if_splits)
  have "map (\<lambda>n. (n, map_of (colorByName ?ss) n)) (sortedNames ?ss) = map (\<lambda>(n, col). (n, Some col)) (colorByName ?ss)"
    by (intro nth_equalityI) (simp_all add: colorByName_def color_of_nth[unfolded colorByName_def])
  moreover have "distinct (map snd (colorByName ?ss))" if "length (sortedNames ?ss) \<le> 20"
    using that palette_distinct
    by (auto simp: colorByName_def distinct_conv_nth colorFor_def palette_length nth_eq_iff_index_eq)
  ultimately show ?thesis
    using sortedNames_facts[of ?ss] unfolding d flat_series by (auto simp: comp_def)
qed

definition demo_chart :: chart_spec where
  "demo_chart = (let p = (\<lambda>n. \<lparr>cs_name = n, cs_points = [\<lparr>tp_ts = 0, tp_value = 1\<rparr>]\<rparr>)
     in \<lparr>ct_title = ''t'', ct_unit = ''%'', ct_suffix = None, ct_yMax = Some 100, ct_scale = 1, ct_series = [p ''b'', p ''a''], ct_legend = True\<rparr>)"

lemma legend_matches_the_lines_witness:
  "\<exists>d. MultiSeriesChart {''b''} demo_chart = Some d \<and> map fst (dc_legend d) = sortedNames (ct_series demo_chart)"
proof -
  obtain d where d: "MultiSeriesChart {''b''} demo_chart = Some d"
    by (simp add: MultiSeriesChart_def demo_chart_def Let_def)
  show ?thesis using legend_matches_the_lines[OF d] d by (auto simp: demo_chart_def Let_def)
qed

end
