(* ===== verification/MonitoringTabs.thy ===== *)
theory MonitoringTabs
  imports Monitoring ModelCatalog
begin

text \<open>
  The three tabs of the monitoring page: the KPI cards and trends of ClusterTab.tsx, the node
  picker and the five sections of NodeTab.tsx, and the health table and charts of PodTab.tsx.
  A chart is the specification that MultiSeriesChart (in Monitoring) draws.
\<close>

section \<open>The cluster tab\<close>

definition formatGiB_bytes :: "rat \<Rightarrow> string" where
  "formatGiB_bytes bytes =
    (if bytes \<le> 0 then ''0''
     else let gib = bytes / 1024 / 1024 / 1024
       in if gib \<ge> 100 then to_fixed 0 gib else if gib \<ge> 10 then to_fixed 1 gib else if gib \<ge> 1 then to_fixed 2 gib
          else to_fixed 0 (bytes / 1024 / 1024) @ '' MiB'')"

definition pod_phase_color :: "string \<Rightarrow> string" where
  "pod_phase_color p =
    (if p = ''Running'' then ''green'' else if p = ''Pending'' then ''gold'' else if p = ''Succeeded'' then ''blue''
     else if p = ''Failed'' then ''red'' else ''default'')"

text \<open>The bottom of a card: nothing, a message with its values, or tags with their colours.\<close>

datatype card_bottom = NoBottom | BottomText string "string list" | BottomTags "(string \<times> string) list"

record KPICard =
  kc_title :: string
  kc_value :: string
  kc_suffix :: string
  kc_dash :: "(rat \<times> string) option"
  kc_bottom :: card_bottom

definition util_dash :: "color_token \<Rightarrow> rat \<Rightarrow> rat \<times> string" where
  "util_dash token pct = (min 100 (max 0 pct), usageColor (Some (pct / 100)) token)"

definition nodes_card :: "color_token \<Rightarrow> ClusterMetricsSnapshot option \<Rightarrow> KPICard" where
  "nodes_card token snap =
    (let r = (case snap of None \<Rightarrow> 0 | Some s \<Rightarrow> cm_nodesReady s); t = (case snap of None \<Rightarrow> 0 | Some s \<Rightarrow> cm_nodesTotal s)
     in \<lparr>kc_title = ''pages.monitoring.kpi.nodes'', kc_value = show_nat r, kc_suffix = ''/ '' @ show_nat t,
         kc_dash = (if t = 0 then None else Some (100 * of_nat r / of_nat t, usageColor (Some (if r = t then 0 else 9 / 10)) token)),
         kc_bottom = (if t > 0 \<and> r < t then BottomText ''pages.monitoring.kpi.nodes.degraded'' [show_nat (t - r)] else NoBottom)\<rparr>)"

definition util_card :: "color_token \<Rightarrow> string \<Rightarrow> rat \<Rightarrow> (string \<times> string) option \<Rightarrow> KPICard" where
  "util_card token title pct amount =
    \<lparr>kc_title = title, kc_value = to_fixed 1 pct, kc_suffix = ''%'', kc_dash = Some (util_dash token pct),
     kc_bottom = (case amount of Some (used, whole) \<Rightarrow> BottomText (title @ ''.absolute'') [used, whole]
       | None \<Rightarrow> BottomText ''pages.monitoring.kpi.absolute.unavailable'' [])\<rparr>"

definition pods_card :: "ClusterMetricsSnapshot option \<Rightarrow> KPICard" where
  "pods_card snap =
    (let phases = (case snap of None \<Rightarrow> [] | Some s \<Rightarrow> cm_podsByPhase s); pending = (case snap of None \<Rightarrow> 0 | Some s \<Rightarrow> cm_podsPending s)
     in \<lparr>kc_title = ''pages.monitoring.kpi.pods'', kc_value = show_nat (case snap of None \<Rightarrow> 0 | Some s \<Rightarrow> cm_podsTotal s), kc_suffix = [],
         kc_dash = None,
         kc_bottom = (if phases = [] then BottomText ''pages.monitoring.kpi.pods.empty'' []
           else BottomTags ((if pending > 0 then [(''pages.monitoring.kpi.pods.pending '' @ show_nat pending, ''gold'')] else []) @
             map (\<lambda>(p, n). (p @ '' '' @ show_nat n, pod_phase_color p)) (filter (\<lambda>(p, _). p \<noteq> ''Pending'') phases)))\<rparr>)"

definition OverviewBody :: "color_token \<Rightarrow> ClusterMetricsSnapshot option \<Rightarrow> KPICard list" where
  "OverviewBody token snap =
    [nodes_card token snap,
     util_card token ''pages.monitoring.kpi.cpu'' (case snap of None \<Rightarrow> 0 | Some s \<Rightarrow> cm_cpuUtilPct s)
       (case snap of None \<Rightarrow> None | Some s \<Rightarrow> if cm_cpuTotalCores s = 0 then None
          else Some (to_fixed 1 (cm_cpuUsedCores s), show_int (math_round (cm_cpuTotalCores s)))),
     util_card token ''pages.monitoring.kpi.mem'' (case snap of None \<Rightarrow> 0 | Some s \<Rightarrow> cm_memUtilPct s)
       (case snap of None \<Rightarrow> None | Some s \<Rightarrow> if cm_memTotalBytes s = 0 then None
          else Some (formatGiB_bytes (cm_memUsedBytes s), formatGiB_bytes (cm_memTotalBytes s))),
     pods_card snap]"

definition make_chart :: "string \<Rightarrow> string \<Rightarrow> rat option \<Rightarrow> rat \<Rightarrow> ChartSeries list \<Rightarrow> chart_spec" where
  "make_chart title unit yMax scale ss =
    \<lparr>ct_title = title, ct_unit = unit, ct_suffix = None, ct_yMax = yMax, ct_scale = scale, ct_series = ss, ct_legend = True\<rparr>"

text \<open>A chart of one series of the cluster, named by a message.\<close>

definition cluster_chart :: "(string \<times> ts_point list) list \<Rightarrow> string \<Rightarrow> string \<Rightarrow> rat option \<Rightarrow> string \<Rightarrow> string \<Rightarrow> chart_spec" where
  "cluster_chart series title unit yMax nm key =
    (make_chart title unit yMax 1 [\<lparr>cs_name = nm, cs_points = (case map_of series key of None \<Rightarrow> [] | Some ps \<Rightarrow> ps)\<rparr>])\<lparr>ct_legend := False\<rparr>"

definition CapacityBody :: "(string \<times> ts_point list) list \<Rightarrow> chart_spec list" where
  "CapacityBody series =
    [cluster_chart series ''pages.monitoring.chart.clusterCpu'' ''%'' (Some 100) ''pages.monitoring.metric.cpu'' ''cpu'',
     cluster_chart series ''pages.monitoring.chart.clusterMem'' ''%'' (Some 100) ''pages.monitoring.metric.mem'' ''mem'',
     cluster_chart series ''pages.monitoring.metric.clusterDisk'' ''%'' (Some 100) ''pages.monitoring.metric.clusterDisk'' ''disk'']"

definition WorkloadBody :: "(string \<times> ts_point list) list \<Rightarrow> chart_spec list" where
  "WorkloadBody series =
    [cluster_chart series ''pages.monitoring.chart.pendingPods'' [] None ''pages.monitoring.metric.pendingPods'' ''pendingPods'',
     cluster_chart series ''pages.monitoring.metric.restartRate'' ''/s'' None ''pages.monitoring.metric.restartRate'' ''restartRate'',
     cluster_chart series ''pages.monitoring.metric.crashLooping'' [] None ''pages.monitoring.metric.crashLooping'' ''crashLooping'']"

text \<open>Title, whether it starts open, and the metrics group of each section.\<close>

definition ClusterTab :: "(string \<times> bool \<times> string) list" where
  "ClusterTab = map (\<lambda>(k, d, g). (''pages.monitoring.section.cluster.'' @ k, d, g))
    [(''overview'', True, ''overview''), (''capacity'', True, ''capacity''), (''workload'', False, ''workload'')]"

section \<open>The node tab\<close>

definition node_option :: "json \<Rightarrow> string list" where
  "node_option r =
    (let v = coalesce (coalesce (opath [''object'', ''metadata'', ''name''] (Some r)) (nth_cell (array_of (oget ''cells'' (Some r))) (Some 0))) (Some (JStr []))
     in if truthy v then [js_String (the v)] else [])"

definition node_options :: "jval \<Rightarrow> string list" where
  "node_options tbl = concat (map node_option (array_of (oget ''rows'' tbl)))"

definition option_matches :: "string \<Rightarrow> string \<Rightarrow> bool" where
  "option_matches input lbl \<longleftrightarrow> str_includes (to_lower (trim input)) (to_lower lbl)"

text \<open>The picker: its effect is numbered, and only the answer to its last run is used.\<close>

record node_picker =
  nk_selected :: "string list"
  nk_options :: "string list"
  nk_loading :: bool
  nk_run :: nat

datatype picker_act = PickerCluster string | PickerAnswer nat "jval option" | PickNodes "string list"

fun picker_step :: "picker_act \<Rightarrow> node_picker \<Rightarrow> node_picker" where
  "picker_step (PickerCluster c) s = s\<lparr>nk_run := Suc (nk_run s), nk_loading := (c \<noteq> [] \<or> nk_loading s)\<rparr>"
| "picker_step (PickerAnswer n r) s =
    (if n \<noteq> nk_run s then s
     else s\<lparr>nk_options := (case r of None \<Rightarrow> [] | Some tbl \<Rightarrow> node_options tbl), nk_loading := False\<rparr>)"
| "picker_step (PickNodes ns) s = s\<lparr>nk_selected := ns\<rparr>"

type_synonym node_metrics = "(string \<times> NodeMetricSeries list) list"

datatype breakdown = ByNode | ByMountpoint | ByDevice

definition series_base :: "NodeMetricSeries \<Rightarrow> string" where
  "series_base s = (let n = or_empty (nm_nodeName s) in if n = [] then nm_instance s else n)"

definition series_label :: "breakdown \<Rightarrow> NodeMetricSeries \<Rightarrow> string" where
  "series_label b s =
    (let extra = (case b of ByNode \<Rightarrow> [] | ByMountpoint \<Rightarrow> or_empty (nm_mountpoint s) | ByDevice \<Rightarrow> or_empty (nm_device s))
     in if extra = [] then series_base s else series_base s @ '' '' @ extra)"

definition projectSeries :: "node_metrics \<Rightarrow> string set \<Rightarrow> breakdown \<Rightarrow> string \<Rightarrow> ChartSeries list" where
  "projectSeries data S b key =
    (let rows = (case map_of data key of None \<Rightarrow> [] | Some rs \<Rightarrow> rs)
     in map (\<lambda>s. \<lparr>cs_name = series_label b s, cs_points = nm_points s\<rparr>) (if S = {} then rows else filter (\<lambda>s. series_base s \<in> S) rows))"

definition renamed :: "string \<Rightarrow> ChartSeries list \<Rightarrow> ChartSeries list" where
  "renamed tail ss = map (\<lambda>s. s\<lparr>cs_name := cs_name s @ tail\<rparr>) ss"

definition MiB :: rat where
  "MiB = 1 / 1024 / 1024"

definition CpuSection :: "(string \<Rightarrow> ChartSeries list) \<Rightarrow> chart_spec list" where
  "CpuSection p =
    [make_chart ''pages.monitoring.metric.cpuByNode'' ''%'' (Some 100) 1 (p ''cpu''),
     make_chart ''pages.monitoring.metric.loadByNode'' [] None 1 (p ''loadPerCore''),
     make_chart ''pages.monitoring.metric.load1'' [] None 1 (p ''load1''),
     make_chart ''pages.monitoring.metric.load5'' [] None 1 (p ''load5''),
     make_chart ''pages.monitoring.metric.load15'' [] None 1 (p ''load15'')]"

definition MemSection :: "(string \<Rightarrow> ChartSeries list) \<Rightarrow> chart_spec list" where
  "MemSection p =
    [make_chart ''pages.monitoring.metric.memByNode'' ''%'' (Some 100) 1 (p ''mem''),
     make_chart ''pages.monitoring.metric.memUsedBytes'' ''GiB'' None (1 / 1024 / 1024 / 1024) (p ''memUsed'')]"

definition DiskSection :: "(string \<Rightarrow> ChartSeries list) \<Rightarrow> (string \<Rightarrow> ChartSeries list) \<Rightarrow> chart_spec list" where
  "DiskSection p byMount =
    [make_chart ''pages.monitoring.metric.diskByNode'' ''%'' (Some 100) 1 (p ''disk''),
     make_chart ''pages.monitoring.metric.diskPartitions'' ''%'' (Some 100) 1 (byMount ''diskPartitions''),
     make_chart ''pages.monitoring.metric.inodeByNode'' ''%'' (Some 100) 1 (p ''inodeUtil'')]"

text \<open>Blank and arrow down, blank and arrow up.\<close>

definition NetworkSection :: "(string \<Rightarrow> ChartSeries list) \<Rightarrow> chart_spec list" where
  "NetworkSection p =
    [make_chart ''pages.monitoring.metric.netByNode'' ''MiB/s'' None MiB
       (renamed ('' '' @ [CHR 0xE2, CHR 0x86, CHR 0x93]) (p ''netRx'') @ renamed ('' '' @ [CHR 0xE2, CHR 0x86, CHR 0x91]) (p ''netTx'')),
     make_chart ''pages.monitoring.metric.netErrorsByNode'' ''errs/s'' None 1 (p ''netErrors''),
     make_chart ''pages.monitoring.metric.tcpConns'' [] None 1 (p ''tcpConns''),
     make_chart ''pages.monitoring.metric.tcpRetransByNode'' ''segs/s'' None 1 (p ''tcpRetrans'')]"

definition read_write :: "ChartSeries list \<Rightarrow> ChartSeries list \<Rightarrow> ChartSeries list" where
  "read_write rd wr =
    renamed ('' '' @ [CHR 0xC2, CHR 0xB7] @ '' pages.monitoring.direction.read'') rd @
    renamed ('' '' @ [CHR 0xC2, CHR 0xB7] @ '' pages.monitoring.direction.write'') wr"

definition StorageSection :: "(string \<Rightarrow> ChartSeries list) \<Rightarrow> (string \<Rightarrow> ChartSeries list) \<Rightarrow> chart_spec list" where
  "StorageSection p byDevice =
    [make_chart ''pages.monitoring.metric.diskIoByNode'' ''MiB/s'' None MiB (read_write (p ''diskRead'') (p ''diskWrite'')),
     make_chart ''pages.monitoring.metric.diskIopsByNode'' ''ops/s'' None 1 (read_write (p ''diskReadOps'') (p ''diskWriteOps'')),
     make_chart ''pages.monitoring.metric.diskIoWait'' ''ms'' None 1000 (byDevice ''diskIOWait''),
     make_chart ''pages.monitoring.metric.diskIoService'' ''ms'' None 1000 (byDevice ''diskIOService''),
     make_chart ''pages.monitoring.metric.diskIoBusy'' ''%'' (Some 100) 1 (byDevice ''diskIOBusy'')]"

text \<open>The sections: title, whether it starts open, its metrics group, and its charts of the data
  that the section itself has fetched.\<close>

definition NodeTab :: "string set \<Rightarrow> (string \<times> bool \<times> string \<times> (node_metrics \<Rightarrow> chart_spec list)) list" where
  "NodeTab S =
    (let p = (\<lambda>b data. projectSeries data S b)
     in map (\<lambda>(k, d, f). (''pages.monitoring.section.node.'' @ k, d, k, f))
       [(''cpu'', True, \<lambda>data. CpuSection (p ByNode data)), (''mem'', True, \<lambda>data. MemSection (p ByNode data)),
        (''disk'', False, \<lambda>data. DiskSection (p ByNode data) (p ByMountpoint data)),
        (''network'', False, \<lambda>data. NetworkSection (p ByNode data)),
        (''storage'', False, \<lambda>data. StorageSection (p ByNode data) (p ByDevice data))])"

subsection \<open>The picker narrows every chart\<close>

definition only_nodes :: "string set \<Rightarrow> node_metrics \<Rightarrow> node_metrics" where
  "only_nodes S data = map (\<lambda>(k, rs). (k, if S = {} then rs else filter (\<lambda>s. series_base s \<in> S) rs)) data"

lemma project_only: "projectSeries data S b k = projectSeries (only_nodes S data) {} b k"
  by (induction data) (auto simp: projectSeries_def only_nodes_def)

text \<open>Picking nodes is the same as having no others: every chart of every section, drawn with the
  picked nodes, is the chart of the response from which all other nodes were removed.\<close>

theorem picker_is_a_restriction:
  "map (\<lambda>(t, d, g, charts). (t, d, g, charts data)) (NodeTab S) =
   map (\<lambda>(t, d, g, charts). (t, d, g, charts (only_nodes S data))) (NodeTab {})"
  by (simp add: NodeTab_def Let_def project_only[of data S, abs_def])

section \<open>The pod tab\<close>

type_synonym pod_metrics = "(string \<times> PodMetricSeries list) list"

datatype pod_group = PodCpu | PodMem | PodNetwork | PodIo | PodThrottle | PodMemLimit

fun group_key :: "pod_group \<Rightarrow> string" where
  "group_key PodCpu = ''cpu''" | "group_key PodMem = ''mem''" | "group_key PodNetwork = ''network''"
| "group_key PodIo = ''io''" | "group_key PodThrottle = ''throttle''" | "group_key PodMemLimit = ''memLimit''"

definition pod_series :: "pod_metrics \<Rightarrow> string \<Rightarrow> PodMetricSeries list" where
  "pod_series data key = (case map_of data key of None \<Rightarrow> [] | Some rs \<Rightarrow> rs)"

definition project_pods :: "pod_metrics \<Rightarrow> string \<Rightarrow> ChartSeries list" where
  "project_pods data key = map (\<lambda>s. \<lparr>cs_name = pm_namespace s @ ''/'' @ pm_pod s, cs_points = pm_points s\<rparr>) (pod_series data key)"

fun pods_empty :: "pod_metrics \<Rightarrow> pod_group \<Rightarrow> bool" where
  "pods_empty data PodCpu = (project_pods data ''cpu'' = [] \<and> pod_series data ''cpu'' = [])"
| "pods_empty data PodMem = (project_pods data ''mem'' = [] \<and> pod_series data ''mem'' = [])"
| "pods_empty data PodNetwork = (pod_series data ''netRx'' = [] \<and> pod_series data ''netTx'' = [])"
| "pods_empty data PodIo = (pod_series data ''fsRead'' = [] \<and> pod_series data ''fsWrite'' = [])"
| "pods_empty data PodThrottle = (pod_series data ''cpuThrottle'' = [])"
| "pods_empty data PodMemLimit = (pod_series data ''memLimitRatio'' = [])"

definition pod_chart :: "pod_metrics \<Rightarrow> string \<Rightarrow> string \<Rightarrow> rat \<Rightarrow> string \<Rightarrow> chart_spec" where
  "pod_chart data title unit scale key =
    (make_chart title unit None scale (project_pods data key))\<lparr>ct_suffix := Some ''pages.monitoring.topN''\<rparr>"

fun pod_charts :: "pod_metrics \<Rightarrow> pod_group \<Rightarrow> chart_spec list" where
  "pod_charts data PodCpu = [pod_chart data ''pages.monitoring.metric.cpuByPod'' ''core'' 1 ''cpu'']"
| "pod_charts data PodMem = [pod_chart data ''pages.monitoring.metric.memByPod'' ''MiB'' MiB ''mem'']"
| "pod_charts data PodNetwork =
    [pod_chart data ''pages.monitoring.metric.netRxByPod'' ''MiB/s'' MiB ''netRx'',
     pod_chart data ''pages.monitoring.metric.netTxByPod'' ''MiB/s'' MiB ''netTx'']"
| "pod_charts data PodIo =
    [pod_chart data ''pages.monitoring.metric.fsReadByPod'' ''MiB/s'' MiB ''fsRead'',
     pod_chart data ''pages.monitoring.metric.fsWriteByPod'' ''MiB/s'' MiB ''fsWrite'']"
| "pod_charts data PodThrottle = [pod_chart data ''pages.monitoring.metric.cpuThrottleByPod'' ''%'' 1 ''cpuThrottle'']"
| "pod_charts data PodMemLimit = [pod_chart data ''pages.monitoring.metric.memLimitRatioByPod'' ''%'' 1 ''memLimitRatio'']"

text \<open>The fallback while there is no data, the empty hint, or what there is to show.\<close>

datatype 'c pod_view = PodFallback | PodEmpty | PodContent 'c

definition PodChartSwitch :: "pod_group \<Rightarrow> pod_metrics option \<Rightarrow> chart_spec list pod_view" where
  "PodChartSwitch g data =
    (case data of None \<Rightarrow> PodFallback | Some d \<Rightarrow> if pods_empty d g then PodEmpty else PodContent (pod_charts d g))"

text \<open>The empty hint stands for charts without any series, and only for those.\<close>

lemma empty_hint_iff_no_series: "pods_empty d g \<longleftrightarrow> list_all (\<lambda>c. ct_series c = []) (pod_charts d g)"
  by (cases g) (auto simp: pod_chart_def make_chart_def project_pods_def)

definition pod_request :: "(int \<Rightarrow> string) \<Rightarrow> int \<Rightarrow> string \<Rightarrow> TimeRangeValue \<Rightarrow> string \<Rightarrow> pod_group \<Rightarrow> string \<Rightarrow> request" where
  "pod_request toISO now clusterId rng podNs g podSearch = getPodMetrics toISO now clusterId rng podNs 20 (group_key g) podSearch"

text \<open>A row of the health table: namespace, pod, and restarts and OOM kills with their colours.\<close>

definition health_number :: "string \<Rightarrow> nat \<Rightarrow> string \<times> string option" where
  "health_number color n = (show_nat n, if n > 0 then Some color else None)"

definition PodHealthSection :: "PodHealthRow list option \<Rightarrow> (string \<times> string \<times> (string \<times> string option) \<times> (string \<times> string option)) list pod_view" where
  "PodHealthSection rows =
    (case rows of None \<Rightarrow> PodFallback
     | Some rs \<Rightarrow> if rs = [] then PodEmpty
         else PodContent (map (\<lambda>r. (ph_namespace r, ph_pod r, health_number ''warning'' (ph_restarts r), health_number ''error'' (ph_ooms r))) rs))"

definition PodTab :: "(string \<times> bool \<times> pod_group option) list" where
  "PodTab = map (\<lambda>(k, d, g). (''pages.monitoring.section.pod.'' @ k, d, g))
    [(''health'', True, None), (''cpu'', True, Some PodCpu), (''mem'', True, Some PodMem), (''network'', False, Some PodNetwork),
     (''io'', False, Some PodIo), (''throttle'', False, Some PodThrottle), (''memLimit'', False, Some PodMemLimit)]"

text \<open>The toolbar: the namespace list is loaded like the nodes are.\<close>

record pod_toolbar =
  po_ns :: string
  po_search :: string
  po_list :: "string list"
  po_loading :: bool
  po_run :: nat

datatype pod_toolbar_act = PodCluster string | NsListed nat "string list option" | PickPodNs "string option" | SearchPods string

fun pod_toolbar_step :: "pod_toolbar_act \<Rightarrow> pod_toolbar \<Rightarrow> pod_toolbar" where
  "pod_toolbar_step (PodCluster c) s = s\<lparr>po_run := Suc (po_run s), po_loading := (c \<noteq> [] \<or> po_loading s)\<rparr>"
| "pod_toolbar_step (NsListed n r) s =
    (if n \<noteq> po_run s then s else s\<lparr>po_list := (case r of None \<Rightarrow> [] | Some l \<Rightarrow> l), po_loading := False\<rparr>)"
| "pod_toolbar_step (PickPodNs v) s = s\<lparr>po_ns := or_empty v\<rparr>"
| "pod_toolbar_step (SearchPods q) s = s\<lparr>po_search := q\<rparr>"

text \<open>The ring of a utilisation is within its bounds.\<close>

lemma util_dash_bounds: "0 \<le> fst (util_dash token pct) \<and> fst (util_dash token pct) \<le> 100"
  by (simp add: util_dash_def)

end
