(* ===== verification/LogRows.thy ===== *)
theory LogRows
  imports LogsPage LogsQuery SystemMonitor VolcanoTables
begin

text \<open>
  pages/ClusterDetail/Logging: the rows of the result list with their severity and
  highlighting, the export, the histogram chart and the height of the page.  The
  collation key of localeCompare is the parameter collate; JSON.parse followed by the
  indented JSON.stringify is the parameter prettyJson, None when the parser throws.
  Letters are folded in ASCII only.
\<close>

subsection \<open>Export\<close>

fun given :: "string option \<Rightarrow> string list" where
  "given None = []"
| "given (Some s) = (if s = [] then [] else [s])"

definition line_tags :: "LogLine \<Rightarrow> string list" where
  "line_tags l = given (ll_namespace l) @ given (ll_pod l) @ given (ll_container l)"

definition txt_row :: "LogLine \<Rightarrow> string" where
  "txt_row l =
    (let tags = join ''/'' (line_tags l);
         prefix = (if tags \<noteq> [] then ll_time l @ [CHR 0x09, CHR ''[''] @ tags @ [CHR '']'', CHR 0x09]
                   else ll_time l @ [CHR 0x09])
     in prefix @ ll_message l)"

definition formatTxt :: "LogLine list \<Rightarrow> string" where
  "formatTxt lines = join [CHR 0x0A] (map txt_row lines)"

text \<open>A line as an object, its keys in the order of the interface.\<close>

fun opt_pair :: "string \<Rightarrow> string option \<Rightarrow> (string \<times> json) list" where
  "opt_pair k None = []"
| "opt_pair k (Some v) = [(k, JStr v)]"

definition string_object :: "(string \<times> string) list \<Rightarrow> json" where
  "string_object ps = JObj (map (\<lambda>(k, v). (k, JStr v)) ps)"

definition line_json :: "LogLine \<Rightarrow> json" where
  "line_json l = JObj ([(''time'', JStr (ll_time l)), (''message'', JStr (ll_message l))] @
     opt_pair ''stream'' (ll_stream l) @ opt_pair ''namespace'' (ll_namespace l) @ opt_pair ''pod'' (ll_pod l) @
     opt_pair ''container'' (ll_container l) @ opt_pair ''node'' (ll_node l) @
     (case ll_fields l of None \<Rightarrow> [] | Some fs \<Rightarrow> [(''fields'', string_object fs)]))"

definition formatNdjson :: "LogLine list \<Rightarrow> string" where
  "formatNdjson lines = join [CHR 0x0A] (map (json_stringify \<circ> line_json) lines)"

datatype export_format = Txt | Ndjson

record download =
  dl_name :: string
  dl_content :: string
  dl_mime :: string

definition file_stamp :: "string \<Rightarrow> string" where
  "file_stamp stamp = map (\<lambda>c. if c = CHR '':'' \<or> c = CHR ''.'' then CHR ''-'' else c) stamp"

text \<open>onExport; stamp is the clock as toISOString writes it.\<close>

definition onExport :: "string \<Rightarrow> string \<Rightarrow> LogLine list \<Rightarrow> export_format \<Rightarrow> download option" where
  "onExport clusterId stamp lines fmt =
    (if lines = [] then None
     else Some \<lparr>dl_name = ''kpilot-logs-'' @ clusterId @ ''-'' @ file_stamp stamp @ ''.'' @
                   (case fmt of Txt \<Rightarrow> ''log'' | Ndjson \<Rightarrow> ''ndjson''),
                dl_content = (case fmt of Txt \<Rightarrow> formatTxt lines | Ndjson \<Rightarrow> formatNdjson lines),
                dl_mime = (case fmt of Txt \<Rightarrow> ''text/plain'' | Ndjson \<Rightarrow> ''application/x-ndjson'')\<rparr>)"

subsection \<open>The row of a line\<close>

datatype severity = Erroneous | Warning_level | Neutral

definition level_raw :: "LogLine \<Rightarrow> string" where
  "level_raw l =
    (let fs = map_of (case ll_fields l of None \<Rightarrow> [] | Some fs \<Rightarrow> fs) in
     (case fs ''level'' of Some v \<Rightarrow> v
      | None \<Rightarrow> (case fs ''severity'' of Some v \<Rightarrow> v | None \<Rightarrow> (case fs ''lvl'' of Some v \<Rightarrow> v | None \<Rightarrow> []))))"

definition line_severity :: "LogLine \<Rightarrow> severity" where
  "line_severity l =
    (let level = to_lower (level_raw l) in
     if level \<in> set [''error'', ''err'', ''fatal'', ''crit'', ''critical'', ''panic''] then Erroneous
     else if level \<in> set [''warn'', ''warning''] then Warning_level else Neutral)"

fun tag_color :: "severity \<Rightarrow> string" where
  "tag_color Erroneous = ''red''"
| "tag_color Warning_level = ''orange''"
| "tag_color Neutral = ''default''"

datatype row_tag = NsTag string | PodTag string | ContainerTag string | StderrTag | LevelTag string string

definition row_tags :: "LogLine \<Rightarrow> row_tag list" where
  "row_tags l =
    map NsTag (given (ll_namespace l)) @ map PodTag (given (ll_pod l)) @ map ContainerTag (given (ll_container l)) @
    (if ll_stream l = Some ''stderr'' then [StderrTag] else []) @
    (if level_raw l \<noteq> [] then [LevelTag (level_raw l) (tag_color (line_severity l))] else [])"

text \<open>The time of the row: shown is toLocaleString of a valid date, None for an invalid one.\<close>

definition row_time :: "(string \<Rightarrow> string option) \<Rightarrow> LogLine \<Rightarrow> string" where
  "row_time shown l = (case shown (ll_time l) of None \<Rightarrow> ll_time l | Some t \<Rightarrow> t)"

definition pretty :: "(string \<Rightarrow> string option) \<Rightarrow> bool \<Rightarrow> LogLine \<Rightarrow> string option" where
  "pretty prettyJson expanded l =
    (let m = trim (ll_message l) in
     if \<not> expanded then None
     else if \<not> starts_with ''{'' m \<and> \<not> starts_with ''['' m then None
     else prettyJson m)"

definition fieldEntries :: "(string \<Rightarrow> 'k::linorder) \<Rightarrow> LogLine \<Rightarrow> (string \<times> string) list" where
  "fieldEntries collate l = sort_key (collate \<circ> fst) (case ll_fields l of None \<Rightarrow> [] | Some fs \<Rightarrow> fs)"

definition row_panel :: "(string \<Rightarrow> 'k::linorder) \<Rightarrow> (string \<Rightarrow> string option) \<Rightarrow> bool \<Rightarrow> LogLine \<Rightarrow>
    (string list \<times> (string \<times> string) list) option" where
  "row_panel collate prettyJson expanded l =
    (let p = given (pretty prettyJson expanded l); fs = fieldEntries collate l in
     if expanded \<and> (p \<noteq> [] \<or> fs \<noteq> []) then Some (p, fs) else None)"

text \<open>A click: text being selected or a tag under the pointer leaves the row as it is.\<close>

definition row_click :: "string \<Rightarrow> bool \<Rightarrow> bool \<Rightarrow> bool" where
  "row_click selection onTag expanded = (if selection \<noteq> [] \<or> onTag then expanded else \<not> expanded)"

subsection \<open>Highlighting\<close>

datatype part = Bare string | Marked string

fun part_text :: "part \<Rightarrow> string" where
  "part_text (Bare s) = s"
| "part_text (Marked s) = s"

text \<open>Sorted by length, longest first; the order of equal lengths is kept.\<close>

definition by_length :: "string list \<Rightarrow> string list" where
  "by_length terms = sort_key (\<lambda>t. - int (length t)) terms"

text \<open>An alternative of the regular expression: the string its escaped pattern matches.\<close>

definition alternatives :: "string list \<Rightarrow> string list" where
  "alternatives terms = List.map_filter (regex_literal \<circ> escapeRegex) (by_length terms)"

definition matches_ci :: "string \<Rightarrow> string \<Rightarrow> bool" where
  "matches_ci t s \<longleftrightarrow> starts_with (to_lower t) (to_lower s)"

lemma find_SomeD: "find P xs = Some y \<Longrightarrow> y \<in> set xs \<and> P y"
  by (auto simp: find_Some_iff)

lemma find_matches_nonempty: "find (\<lambda>t. matches_ci t s) alts = Some (x # t) \<Longrightarrow> s \<noteq> []"
  using find_SomeD[of "\<lambda>t. matches_ci t s" alts "x # t"] by (auto simp: matches_ci_def to_lower_def)

definition flush :: "string \<Rightarrow> part list" where
  "flush acc = (if acc = [] then [] else [Bare acc])"

text \<open>The loop over exec: acc is the text since lastIndex.  After an empty match the next
  search starts one character later.\<close>

function mark_from :: "string list \<Rightarrow> string \<Rightarrow> string \<Rightarrow> part list" where
  "mark_from alts acc s =
    (case find (\<lambda>t. matches_ci t s) alts of
       None \<Rightarrow> (case s of [] \<Rightarrow> flush acc | c # cs \<Rightarrow> mark_from alts (acc @ [c]) cs)
     | Some [] \<Rightarrow> flush acc @ Marked [] # (case s of [] \<Rightarrow> [] | c # cs \<Rightarrow> mark_from alts [c] cs)
     | Some (x # t) \<Rightarrow> flush acc @ Marked (take (Suc (length t)) s) # mark_from alts [] (drop (Suc (length t)) s))"
  by pat_completeness auto

termination
  by (relation "measure (\<lambda>(_, _, s). length s)") (auto dest: find_matches_nonempty)

declare mark_from.simps [simp del]

definition HighlightedMessage :: "string list \<Rightarrow> string \<Rightarrow> part list" where
  "HighlightedMessage terms s =
    (if terms = [] \<or> s = [] then [Bare s] else mark_from (alternatives terms) [] s)"

subsection \<open>The histogram\<close>

text \<open>fmt of a finite number; None stands for what Number does not read as one.\<close>

definition histo_fmt :: "rat option \<Rightarrow> string" where
  "histo_fmt v =
    (case v of
       None \<Rightarrow> []
     | Some n \<Rightarrow> if n \<ge> 1000000 then to_fixed 1 (n / 1000000) @ ''M''
         else if n \<ge> 1000 then to_fixed 1 (n / 1000) @ ''k'' else to_fixed 0 n)"

text \<open>The label of the time axis, from the local hours and minutes of a valid date.\<close>

definition pad_two :: "nat \<Rightarrow> string" where
  "pad_two n = (if length (show_nat n) < 2 then CHR ''0'' # show_nat n else show_nat n)"

definition histo_label :: "(nat \<times> nat) option \<Rightarrow> string" where
  "histo_label hm = (case hm of None \<Rightarrow> [] | Some (h, m) \<Rightarrow> pad_two h @ '':'' @ pad_two m)"

text \<open>interval:click, with the t of the datum when it is a number: the window to zoom to.\<close>

definition bar_window :: "int \<Rightarrow> int option \<Rightarrow> (int \<times> int) option" where
  "bar_window stepSeconds t = map_option (\<lambda>t. (t, t + stepSeconds * 1000)) t"

datatype histo_view = HistoEmpty | HistoChart "(int \<times> rat) list"

definition LoggingHistogram :: "(int \<times> rat) list \<Rightarrow> histo_view" where
  "LoggingHistogram points = (if points = [] then HistoEmpty else HistoChart points)"

subsection \<open>The height of the page\<close>

text \<open>A rectangle is its top and bottom.  Without a footer the wrapper fills the viewport; with
  one it leaves room for the footer and for the gap measured between the two.\<close>

definition measure_height :: "rat \<Rightarrow> rat \<times> rat \<Rightarrow> (rat \<times> rat) option \<Rightarrow> int" where
  "measure_height innerHeight rect footer =
    (case footer of
       None \<Rightarrow> max 0 \<lfloor>innerHeight - fst rect\<rfloor>
     | Some f \<Rightarrow> max 0 \<lfloor>innerHeight - fst rect - (snd f - fst f) - (fst f - snd rect)\<rfloor>)"

text \<open>The page laid out: the wrapper of a height below its top, and the footer a gap below it.\<close>

definition wrapper_at :: "rat \<Rightarrow> rat \<Rightarrow> rat \<times> rat" where
  "wrapper_at y h = (y, y + h)"

definition footer_at :: "rat \<Rightarrow> rat \<Rightarrow> rat \<Rightarrow> rat \<Rightarrow> rat \<times> rat" where
  "footer_at y h gap fh = (y + h + gap, y + h + gap + fh)"

definition remeasure :: "rat \<Rightarrow> rat \<Rightarrow> rat \<Rightarrow> rat \<Rightarrow> rat \<Rightarrow> int" where
  "remeasure innerHeight y gap fh h = measure_height innerHeight (wrapper_at y h) (Some (footer_at y h gap fh))"

text \<open>One measurement settles the height: whatever height the wrapper had, the height set is the
  same, a further measurement of the page that has it sets it again, and when there is room
  the footer then ends within the last pixel of the viewport.\<close>

theorem one_measurement_settles:
  "let h = remeasure innerHeight y gap fh h0 in
   remeasure innerHeight y gap fh (of_int h) = h \<and>
   (h = 0 \<or> (snd (footer_at y (of_int h) gap fh) \<le> innerHeight \<and>
             innerHeight - 1 < snd (footer_at y (of_int h) gap fh)))"
proof -
  have h: "remeasure innerHeight y gap fh x = max 0 \<lfloor>innerHeight - y - fh - gap\<rfloor>" for x
    by (simp add: remeasure_def measure_height_def wrapper_at_def footer_at_def algebra_simps)
  have "snd (footer_at y (of_int k) gap fh) \<le> innerHeight \<and> innerHeight - 1 < snd (footer_at y (of_int k) gap fh)"
    if "k = \<lfloor>innerHeight - y - fh - gap\<rfloor>" for k
    using floor_correct[of "innerHeight - y - fh - gap"] unfolding that footer_at_def by (simp add: algebra_simps)
  then show ?thesis unfolding h Let_def by (auto simp: max_def)
qed

subsection \<open>What the export writes\<close>

lemma set_join: "set (join sep ws) \<subseteq> set sep \<union> (\<Union>w\<in>set ws. set w)"
  by (induction ws rule: induct_list012) auto

lemma join_free: "c \<notin> set sep \<Longrightarrow> (\<And>w. w \<in> set ws \<Longrightarrow> c \<notin> set w) \<Longrightarrow> c \<notin> set (join sep ws)"
  using set_join[of sep ws] by blast

lemma newline_code: "c = CHR 0x0A \<longleftrightarrow> (of_char c :: nat) = 10"
proof
  assume "(of_char c :: nat) = 10"
  then have "(of_char c :: nat) = of_char (CHR 0x0A)" by simp
  then show "c = CHR 0x0A" by (rule of_char_eq_iff[THEN iffD1])
qed simp

lemma hex_digit_printable: "n < 16 \<Longrightarrow> hex_digit n \<noteq> CHR 0x0A"
  by (auto simp: hex_digit_def newline_code)

lemma escape_one_line: "CHR 0x0A \<notin> set (json_escape_char c)"
proof (cases "(of_char c :: nat) < 32")
  case True
  then have "hex_digit (of_char c div 16) \<noteq> CHR 0x0A" "hex_digit (of_char c mod 16) \<noteq> CHR 0x0A"
    by (simp_all add: hex_digit_printable)
  then show ?thesis by (auto simp: json_escape_char_def Let_def)
next
  case False
  then show ?thesis by (auto simp: json_escape_char_def Let_def newline_code)
qed

lemma json_quote_one_line: "CHR 0x0A \<notin> set (json_quote s)"
  using escape_one_line by (auto simp: json_quote_def)

text \<open>An object whose values are strings is written on one line.\<close>

lemma string_object_one_line: "CHR 0x0A \<notin> set (json_stringify (string_object ps))"
proof -
  have "CHR 0x0A \<notin> set (join '','' (map (\<lambda>(k, v). json_quote k @ '':'' @ json_stringify v) (map (\<lambda>(k, v). (k, JStr v)) ps)))"
    by (rule join_free) (auto simp: json_quote_one_line)
  then show ?thesis by (simp add: string_object_def)
qed

lemma line_json_one_line: "CHR 0x0A \<notin> set (json_stringify (line_json l))"
proof -
  have opt: "v \<in> range JStr" if "(k', v) \<in> set (opt_pair k x)" for k k' x v
    using that by (cases x) auto
  have "CHR 0x0A \<notin> set (json_stringify v)"
    if "JObj ps = line_json l" "(k, v) \<in> set ps" for ps k v
  proof -
    have "v \<in> range JStr \<or> (\<exists>fs. v = string_object fs)"
      using that by (auto simp: line_json_def split: option.splits dest: opt)
    then show ?thesis
    proof
      assume "\<exists>fs. v = string_object fs"
      then show ?thesis using string_object_one_line by metis
    qed (auto simp: json_quote_one_line)
  qed
  moreover obtain ps where ps: "line_json l = JObj ps" by (simp add: line_json_def)
  ultimately have "CHR 0x0A \<notin> set (join '','' (map (\<lambda>(k, v). json_quote k @ '':'' @ json_stringify v) ps))"
    by (intro join_free) (auto simp: json_quote_one_line)
  then show ?thesis by (simp add: ps)
qed

text \<open>The file that the NDJSON export downloads has one line per log line: split at its newlines
  it is the log lines as JSON, in order, whatever newlines their messages and fields have.\<close>

theorem ndjson_has_a_line_per_record:
  assumes "onExport clusterId stamp lines Ndjson = Some d"
  shows "split_on (\<lambda>c. c = CHR 0x0A) (dl_content d) = map (json_stringify \<circ> line_json) lines"
proof -
  have "split_on (\<lambda>c. c = CHR 0x0A) (join [CHR 0x0A] (map (json_stringify \<circ> line_json) lines)) =
      map (json_stringify \<circ> line_json) lines"
    by (rule split_on_join) (use assms line_json_one_line in \<open>auto simp: onExport_def split: if_splits\<close>)
  then show ?thesis using assms by (auto simp: onExport_def formatNdjson_def split: if_splits)
qed

theorem ndjson_has_a_line_per_record_witness:
  "let l = \<lparr>ll_time = ''t'', ll_message = [CHR ''a'', CHR 0x0A], ll_stream = None, ll_namespace = None,
             ll_pod = None, ll_container = None, ll_node = None, ll_fields = None\<rparr>
   in \<exists>d. onExport ''c'' ''1:2.3'' [l, l] Ndjson = Some d \<and> dl_name d = ''kpilot-logs-c-1-2-3.ndjson'' \<and>
     split_on (\<lambda>c. c = CHR 0x0A) (dl_content d) = [json_stringify (line_json l), json_stringify (line_json l)]"
proof -
  let ?l = "\<lparr>ll_time = ''t'', ll_message = [CHR ''a'', CHR 0x0A], ll_stream = None, ll_namespace = None,
             ll_pod = None, ll_container = None, ll_node = None, ll_fields = None\<rparr> :: LogLine"
  obtain d where d: "onExport ''c'' ''1:2.3'' [?l, ?l] Ndjson = Some d" by (simp add: onExport_def)
  moreover from this have "dl_name d = ''kpilot-logs-c-1-2-3.ndjson''" by (auto simp: onExport_def file_stamp_def)
  ultimately show ?thesis using ndjson_has_a_line_per_record[OF d] by (simp add: Let_def)
qed

subsection \<open>What highlighting shows\<close>

text \<open>The string that is left to show, and a list of parts as the reader should see it: a marked
  part is a term up to case, no term that occurs there is longer, and inside a bare part no
  term begins.\<close>

definition parts_text :: "part list \<Rightarrow> string" where
  "parts_text ps = concat (map part_text ps)"

definition part_ok :: "string list \<Rightarrow> part \<Rightarrow> string \<Rightarrow> bool" where
  "part_ok terms p rest =
    (case p of
       Marked m \<Rightarrow> list_ex (\<lambda>t. to_lower t = to_lower m) terms \<and>
         list_all (\<lambda>t. matches_ci t (m @ rest) \<longrightarrow> length t \<le> length m) terms
     | Bare u \<Rightarrow> list_all (\<lambda>i. list_all (\<lambda>t. \<not> matches_ci t (drop i u @ rest)) terms) [0..<length u])"

fun well_marked :: "string list \<Rightarrow> part list \<Rightarrow> bool" where
  "well_marked terms [] = True"
| "well_marked terms (p # ps) = (part_ok terms p (parts_text ps) \<and> well_marked terms ps)"

lemma parts_text_simps [simp]:
  "parts_text [] = []" "parts_text (p # ps) = part_text p @ parts_text ps" "parts_text (ps @ qs) = parts_text ps @ parts_text qs"
  by (simp_all add: parts_text_def)

lemma shown_flush [simp]: "parts_text (flush acc) = acc"
  by (simp add: flush_def)

lemma well_marked_at: "well_marked terms (pre @ p # post) \<Longrightarrow> part_ok terms p (parts_text post)"
  by (induction pre) auto

lemma part_ok_cong: "set terms = set terms' \<Longrightarrow> part_ok terms p r = part_ok terms' p r"
  by (auto simp: part_ok_def list_all_iff list_ex_iff split: part.splits)

lemma well_marked_flush:
  "well_marked alts (flush acc @ ps) \<longleftrightarrow> part_ok alts (Bare acc) (parts_text ps) \<and> well_marked alts ps"
  by (auto simp: flush_def part_ok_def)

text \<open>The first alternative that matches, in a list by falling length, is a longest one.\<close>

lemma first_is_longest:
  assumes "sorted_wrt (\<lambda>a b. length b \<le> length a) alts" "find P alts = Some t" "u \<in> set alts" "P u"
  shows "length u \<le> length t"
  using assms by (induction alts) (auto split: if_splits)

lemma matches_take:
  assumes "matches_ci t s"
  shows "to_lower (take (length t) s) = to_lower t" "length t \<le> length s"
proof -
  obtain r where r: "to_lower s = to_lower t @ r" using assms by (auto simp: matches_ci_def starts_with_iff)
  then have "take (length t) (to_lower s) = to_lower t" by (simp add: to_lower_def)
  then show "to_lower (take (length t) s) = to_lower t" by (simp add: to_lower_def take_map)
  show "length t \<le> length s" using arg_cong[OF r, of length] by (simp add: to_lower_def)
qed

lemma bare_snoc:
  assumes "part_ok alts (Bare acc) (c # cs)" "\<not> list_ex (\<lambda>t. matches_ci t (c # cs)) alts"
  shows "part_ok alts (Bare (acc @ [c])) cs"
proof -
  have "\<not> matches_ci t (drop i (acc @ [c]) @ cs)" if "i < Suc (length acc)" "t \<in> set alts" for i t
    using assms that by (cases "i = length acc") (auto simp: part_ok_def list_all_iff list_ex_iff)
  then show ?thesis by (simp add: part_ok_def list_all_iff del: upt_Suc drop_append)
qed

lemma mark_from_marks:
  assumes "sorted_wrt (\<lambda>a b. length b \<le> length a) alts" "[] \<notin> set alts" "part_ok alts (Bare acc) s"
  shows "parts_text (mark_from alts acc s) = acc @ s \<and> well_marked alts (mark_from alts acc s)"
  using assms
proof (induction alts acc s rule: mark_from.induct)
  case (1 alts acc s)
  show ?case
  proof (cases "find (\<lambda>t. matches_ci t s) alts")
    case None
    then have none: "\<not> list_ex (\<lambda>t. matches_ci t s) alts" by (auto simp: find_None_iff list_ex_iff)
    show ?thesis
    proof (cases s)
      case Nil
      then show ?thesis using None 1(4-6) well_marked_flush[of alts acc "[]"] by (simp add: mark_from.simps)
    next
      case (Cons c cs)
      then have "mark_from alts acc s = mark_from alts (acc @ [c]) cs" using None by (subst mark_from.simps) simp
      moreover have "part_ok alts (Bare (acc @ [c])) cs" using 1(6) none Cons by (simp add: bare_snoc)
      ultimately show ?thesis using 1(1)[OF None Cons] 1(4,5) Cons by simp
    qed
  next
    case (Some t)
    note t = find_SomeD[OF Some]
    then obtain x u where xu: "t = x # u" using 1(5) by (cases t) auto
    let ?m = "take (length t) s" and ?r = "drop (length t) s"
    have step: "mark_from alts acc s = flush acc @ Marked ?m # mark_from alts [] ?r"
      using Some xu by (subst mark_from.simps) simp
    have rest: "parts_text (mark_from alts [] ?r) = ?r \<and> well_marked alts (mark_from alts [] ?r)"
      using 1(3)[OF Some[unfolded xu] refl] 1(4,5) xu by (simp add: part_ok_def)
    have "list_ex (\<lambda>v. to_lower v = to_lower ?m) alts" using t matches_take[of t s] by (auto simp: list_ex_iff)
    moreover have "length v \<le> length ?m" if "v \<in> set alts" "matches_ci v s" for v
      using first_is_longest[OF 1(4) Some that] t matches_take(2)[of t s] by simp
    ultimately have "part_ok alts (Marked ?m) ?r" by (simp add: part_ok_def list_all_iff)
    then show ?thesis using rest 1(6) by (simp add: step well_marked_flush)
  qed
qed

lemma alternatives_by_length: "alternatives terms = by_length terms"
proof -
  have "regex_literal (escapeRegex t) = Some t" for t
    by (induction t) (simp_all add: escapeRegex_def)
  then show ?thesis by (simp add: alternatives_def List.map_filter_def comp_def)
qed

lemma by_length_sorted: "sorted_wrt (\<lambda>a b. length b \<le> length a) (by_length terms)"
proof -
  have "sorted (map (\<lambda>t. - int (length t)) (by_length terms))" by (simp add: by_length_def)
  then show ?thesis by (simp add: sorted_wrt_map)
qed

text \<open>C37. The parts shown are the message, and each is as it should be: what is marked is a term up
  to case and the longest that occurs there, and no term begins inside a bare part.\<close>

theorem marks_are_the_longest_terms:
  assumes "[] \<notin> set terms" "HighlightedMessage terms s = pre @ p # post"
  shows "parts_text (pre @ p # post) = s \<and> (terms \<noteq> [] \<longrightarrow> part_ok terms p (parts_text post))"
proof (cases "terms = [] \<or> s = []")
  case True
  then have "pre = [] \<and> p = Bare s \<and> post = []" using assms(2) by (auto simp: HighlightedMessage_def Cons_eq_append_conv)
  then show ?thesis using True by (auto simp: part_ok_def)
next
  case False
  let ?ts = "by_length terms"
  have set: "set ?ts = set terms" by (simp add: by_length_def)
  have eq: "mark_from ?ts [] s = pre @ p # post"
    using assms(2) False by (simp add: HighlightedMessage_def alternatives_by_length)
  have "parts_text (mark_from ?ts [] s) = [] @ s \<and> well_marked ?ts (mark_from ?ts [] s)"
    by (rule mark_from_marks[OF by_length_sorted]) (use assms(1) set in \<open>simp_all add: part_ok_def\<close>)
  then have "parts_text (pre @ p # post) = s" "part_ok ?ts p (parts_text post)"
    using well_marked_at[of ?ts pre p post] unfolding eq by (simp_all only: append_Nil)
  then show ?thesis using part_ok_cong[OF set] by blast
qed

theorem marks_are_the_longest_terms_witness:
  "let terms = [''o'', ''on'']; s = ''Go ON'' in
   HighlightedMessage terms s = [Bare ''G'', Marked ''o'', Bare '' ''] @ Marked ''ON'' # [] \<and>
   part_ok terms (Marked ''ON'') []"
proof -
  have eq: "HighlightedMessage [''o'', ''on''] ''Go ON'' = [Bare ''G'', Marked ''o'', Bare '' ''] @ Marked ''ON'' # []"
    by code_simp
  show ?thesis using eq marks_are_the_longest_terms[OF _ eq] by (simp add: Let_def)
qed

end
