(* ===== verification/LogsToolbar.thy ===== *)
theory LogsToolbar
  imports LogsPage LogsQuery GpuMonitor WorkloadTable LogRows "HOL-Library.List_Lexorder" "HOL-Library.Char_ord"
begin

text \<open>
  pages/ClusterDetail/Logging/index.tsx around the search: the query bar with its
  pickers and the lists they load, what a submit records, the link in the address bar
  both ways, and the sections rendered, on top of the streams of LogsPage.

  The effects of a commit read the state as it was rendered and run in the order of
  the source when one of their dependencies changed; settle commits until none did.  A
  request whose effect was cleaned up has no effect when it lands, and is dropped.
  toISO is Date.prototype.toISOString and parseDate the Date constructor on a string,
  None an invalid date.  Names are sorted by their bytes.
\<close>

subsection \<open>State\<close>

record LogSearch =
  ls_query :: string
  ls_range :: TimeRangeValue
  ls_limit :: nat

type_synonym pickers = "string \<times> string \<times> string"

record log_toolbar =
  tb_query :: string
  tb_range :: TimeRangeValue
  tb_limit :: nat
  tb_showHistogram :: bool
  tb_fullscreen :: bool
  tb_ns :: string
  tb_pod :: string
  tb_container :: string
  tb_nsList :: "string list"
  tb_nsLoading :: bool
  tb_podList :: "string list"
  tb_podLoading :: bool
  tb_containerList :: "string list"
  tb_containerLoading :: bool
  tb_submitted :: "LogSearch option"
  tb_url :: string
  tb_autorun :: bool
  tb_nsGet :: bool
  tb_podGet :: "(nat \<times> string) option"
  tb_containerGet :: "(nat \<times> string \<times> string) option"
  tb_nextGet :: nat
  tb_seenNs :: "string option"
  tb_seenPod :: "(string \<times> string) option"
  tb_seenUrl :: "(LogSearch option \<times> pickers) option"

definition LIMIT_TIERS :: "nat list" where
  "LIMIT_TIERS = [100, 500, 1000, 5000, 10000, 50000]"

definition tb_init :: "string \<Rightarrow> log_toolbar" where
  "tb_init search = \<lparr>tb_query = [], tb_range = Preset R1h, tb_limit = 200, tb_showHistogram = False,
     tb_fullscreen = False, tb_ns = [], tb_pod = [], tb_container = [], tb_nsList = [], tb_nsLoading = False,
     tb_podList = [], tb_podLoading = False, tb_containerList = [], tb_containerLoading = False,
     tb_submitted = None, tb_url = search, tb_autorun = False, tb_nsGet = False, tb_podGet = None,
     tb_containerGet = None, tb_nextGet = 0, tb_seenNs = None, tb_seenPod = None, tb_seenUrl = None\<rparr>"

definition tb_picked :: "log_toolbar \<Rightarrow> pickers" where
  "tb_picked s = (tb_ns s, tb_pod s, tb_container s)"

subsection \<open>The link\<close>

fun range_params :: "(int \<Rightarrow> string) \<Rightarrow> TimeRangeValue \<Rightarrow> (string \<times> string) list" where
  "range_params toISO (Preset p) = [(''range'', preset_name p)]"
| "range_params toISO (Custom a b) = [(''from'', toISO a), (''to'', toISO b)]"
| "range_params toISO (SinceNow a) = [(''from'', toISO a), (''sinceNow'', ''1'')]"

definition param :: "string \<Rightarrow> string \<Rightarrow> (string \<times> string) list" where
  "param k v = (if v = [] then [] else [(k, v)])"

definition link_params :: "(int \<Rightarrow> string) \<Rightarrow> LogSearch option \<Rightarrow> pickers \<Rightarrow> (string \<times> string) list" where
  "link_params toISO sub p =
    (case sub of None \<Rightarrow> []
     | Some l \<Rightarrow> (if ls_query l \<noteq> [] \<and> ls_query l \<noteq> ''*'' then [(''q'', ls_query l)] else []) @
         range_params toISO (ls_range l) @
         (if ls_limit l \<noteq> 0 \<and> ls_limit l \<noteq> 200 then [(''limit'', show_nat (ls_limit l))] else [])) @
    (case p of (ns, pod, container) \<Rightarrow> param ''ns'' ns @ param ''pod'' pod @ param ''container'' container)"

text \<open>The search part of the address, with its question mark.\<close>

definition link_of :: "(int \<Rightarrow> string) \<Rightarrow> LogSearch option \<Rightarrow> pickers \<Rightarrow> string" where
  "link_of toISO sub p =
    (let qs = search_params (link_params toISO sub p) in if qs \<noteq> [] then ''?'' @ qs else [])"

definition range_key :: "string option \<Rightarrow> TimeRangePreset option" where
  "range_key k =
    (if k = Some ''1h'' then Some R1h else if k = Some ''24h'' then Some R24h
     else if k = Some ''7d'' then Some R7d else if k = Some ''30d'' then Some R30d else None)"

definition read_range ::
    "(string \<Rightarrow> int option) \<Rightarrow> (string \<Rightarrow> string option) \<Rightarrow> TimeRangeValue \<Rightarrow> TimeRangeValue" where
  "read_range parseDate sp old =
    (case range_key (sp ''range'') of
       Some p \<Rightarrow> Preset p
     | None \<Rightarrow>
       if filled (sp ''from'') \<and> filled (sp ''to'') then
         (case (parseDate (the (sp ''from'')), parseDate (the (sp ''to''))) of
            (Some f, Some t) \<Rightarrow> Custom f t | _ \<Rightarrow> old)
       else if filled (sp ''from'') \<and> sp ''sinceNow'' = Some ''1'' then
         (case parseDate (the (sp ''from'')) of Some f \<Rightarrow> SinceNow f | None \<Rightarrow> old)
       else old)"

definition read_limit :: "string option \<Rightarrow> nat \<Rightarrow> nat" where
  "read_limit txt0 old =
    (if \<not> filled txt0 then old
     else (case parse_int (the txt0) of Some v \<Rightarrow> if v > 0 then nat v else old | None \<Rightarrow> old))"

definition filled_or :: "string option \<Rightarrow> string \<Rightarrow> string" where
  "filled_or v old = (if filled v then the v else old)"

text \<open>The effect of the mount, and whether it schedules a search.\<close>

definition hydrate :: "(string \<Rightarrow> int option) \<Rightarrow> string \<Rightarrow> log_toolbar \<Rightarrow> log_toolbar" where
  "hydrate parseDate search s =
    (let sp = map_of (parse_search search) in
     s\<lparr>tb_query := (case sp ''q'' of Some q \<Rightarrow> q | None \<Rightarrow> tb_query s),
       tb_range := read_range parseDate sp (tb_range s),
       tb_limit := read_limit (sp ''limit'') (tb_limit s),
       tb_ns := filled_or (sp ''ns'') (tb_ns s),
       tb_pod := filled_or (sp ''pod'') (tb_pod s),
       tb_container := filled_or (sp ''container'') (tb_container s),
       tb_autorun := (filled (sp ''q'') \<or> filled (sp ''range'') \<or>
         (filled (sp ''from'') \<and> filled (sp ''to'')) \<or> filled (sp ''limit''))\<rparr>)"

subsection \<open>Effects\<close>

text \<open>Each effect reads the rendered state r and updates the state s.\<close>

definition pod_effect :: "log_toolbar \<Rightarrow> log_toolbar \<Rightarrow> log_toolbar" where
  "pod_effect r s =
    (if tb_seenNs r = Some (tb_ns r) then s
     else let s' = s\<lparr>tb_seenNs := Some (tb_ns r), tb_pod := [], tb_podList := [], tb_podGet := None\<rparr> in
       if tb_ns r = [] then s'
       else s'\<lparr>tb_podLoading := True, tb_podGet := Some (tb_nextGet s, tb_ns r), tb_nextGet := Suc (tb_nextGet s)\<rparr>)"

definition container_effect :: "log_toolbar \<Rightarrow> log_toolbar \<Rightarrow> log_toolbar" where
  "container_effect r s =
    (if tb_seenPod r = Some (tb_ns r, tb_pod r) then s
     else let s' = s\<lparr>tb_seenPod := Some (tb_ns r, tb_pod r), tb_container := [], tb_containerList := [],
                      tb_containerGet := None\<rparr> in
       if tb_ns r = [] \<or> tb_pod r = [] then s'
       else s'\<lparr>tb_containerLoading := True, tb_containerGet := Some (tb_nextGet s, tb_ns r, tb_pod r),
                tb_nextGet := Suc (tb_nextGet s)\<rparr>)"

definition url_effect :: "(int \<Rightarrow> string) \<Rightarrow> log_toolbar \<Rightarrow> log_toolbar \<Rightarrow> log_toolbar" where
  "url_effect toISO r s =
    (if tb_seenUrl r = Some (tb_submitted r, tb_picked r) then s
     else s\<lparr>tb_seenUrl := Some (tb_submitted r, tb_picked r),
            tb_url := link_of toISO (tb_submitted r) (tb_picked r)\<rparr>)"

definition commit_bar :: "(int \<Rightarrow> string) \<Rightarrow> log_toolbar \<Rightarrow> log_toolbar" where
  "commit_bar toISO s = url_effect toISO s (container_effect s (pod_effect s s))"

text \<open>The effects that are due, weighted by how much of the others each can make due.\<close>

definition due :: "log_toolbar \<Rightarrow> nat" where
  "due s = (if tb_seenNs s = Some (tb_ns s) then 0 else 4) + (if tb_seenPod s = Some (tb_ns s, tb_pod s) then 0 else 2) +
     (if tb_seenUrl s = Some (tb_submitted s, tb_picked s) then 0 else 1)"

lemmas effect_defs = pod_effect_def container_effect_def url_effect_def tb_picked_def Let_def

lemma commit_less: "due s \<noteq> 0 \<Longrightarrow> due (commit_bar toISO s) < due s"
  by (auto simp: commit_bar_def due_def effect_defs)

function settle :: "(int \<Rightarrow> string) \<Rightarrow> log_toolbar \<Rightarrow> log_toolbar" where
  "settle toISO s = (if due s = 0 then s else settle toISO (commit_bar toISO s))"
  by pat_completeness auto

termination
  by (relation "measure (due \<circ> snd)") (simp_all add: commit_less)

declare settle.simps [simp del]

text \<open>The first commit: every effect runs, the link is read between the pickers' effects and
  the one that writes the address.\<close>

definition mount_bar :: "(int \<Rightarrow> string) \<Rightarrow> (string \<Rightarrow> int option) \<Rightarrow> string \<Rightarrow> log_toolbar" where
  "mount_bar toISO parseDate search =
    (let s = tb_init search in
     settle toISO (url_effect toISO s (hydrate parseDate search
       (container_effect s (pod_effect s (s\<lparr>tb_nsLoading := True, tb_nsGet := True\<rparr>))))))"

subsection \<open>Events\<close>

text \<open>What the cluster answers: None stands for a rejected request.  The namespace list may be
  missing, which is read like a rejection.\<close>

record log_api =
  la_namespaces :: "string list option"
  la_pods :: "string \<Rightarrow> json option"
  la_pod :: "string \<Rightarrow> string \<Rightarrow> json option"

fun str_or_empty :: "jval \<Rightarrow> string" where
  "str_or_empty (Some (JStr s)) = s"
| "str_or_empty _ = []"

definition row_name :: "nat option \<Rightarrow> json \<Rightarrow> string" where
  "row_name nameIdx r =
    (let fromMeta = str_or_empty (opath [''object'', ''metadata'', ''name''] (Some r)) in
     if fromMeta \<noteq> [] then fromMeta else str_or_empty (nth_cell (array_of (oget ''cells'' (Some r))) nameIdx))"

definition pod_names :: "jval \<Rightarrow> string list" where
  "pod_names res =
    (let colNames = map (\<lambda>c. str_or_empty (oget ''name'' (Some c))) (array_of (oget ''columnDefinitions'' res)) in
     sort (filter (\<lambda>n. n \<noteq> []) (map (row_name (position ''Name'' colNames)) (array_of (oget ''rows'' res)))))"

definition container_names :: "jval \<Rightarrow> string list" where
  "container_names pod =
    sort (filter (\<lambda>n. n \<noteq> []) (map (\<lambda>c. str_or_empty (oget ''name'' (Some c)))
      (array_of (opath [''spec'', ''containers''] pod) @ array_of (opath [''spec'', ''initContainers''] pod))))"

definition pods_listed :: "log_api \<Rightarrow> string \<Rightarrow> string list" where
  "pods_listed api ns = (case la_pods api ns of None \<Rightarrow> [] | Some res \<Rightarrow> pod_names (Some res))"

definition containers_listed :: "log_api \<Rightarrow> string \<Rightarrow> string \<Rightarrow> string list" where
  "containers_listed api ns pod = (case la_pod api ns pod of None \<Rightarrow> [] | Some v \<Rightarrow> container_names (Some v))"

text \<open>The requests behind them.\<close>

definition pods_request :: "string \<Rightarrow> string \<Rightarrow> request" where
  "pods_request clusterId ns = listWorkloads clusterId ''pods'' ns 500 [] None"

definition containers_request :: "string \<Rightarrow> string \<Rightarrow> string \<Rightarrow> request" where
  "containers_request clusterId ns pod = getWorkload clusterId ''pods'' pod ns None"

datatype bar_event =
    TypeQuery string
  | ChooseNs "string option"
  | ChoosePod "string option"
  | ChooseContainer "string option"
  | FilterPod LogLine
  | ChooseRange TimeRangeValue
  | ChooseLimit nat
  | Submit
  | SubmitTail
  | ZoomTo int int
  | ResetBar
  | ToggleHistogram
  | ToggleFullscreen
  | Escape string
  | NamespacesLand
  | PodsLand nat
  | ContainersLand nat
  | AutoRun

definition onPickerChange :: "string \<Rightarrow> string \<Rightarrow> string \<Rightarrow> log_toolbar \<Rightarrow> log_toolbar" where
  "onPickerChange ns pod container s =
    s\<lparr>tb_ns := ns, tb_pod := pod, tb_container := container,
      tb_query := mergeStreamSelector (tb_query s) (composeStreamSelector ns pod container)\<rparr>"

definition str_of_option :: "string option \<Rightarrow> string" where
  "str_of_option v = (case v of None \<Rightarrow> [] | Some x \<Rightarrow> x)"

definition query_or_all :: "string \<Rightarrow> string" where
  "query_or_all q = (if trim q \<noteq> [] then trim q else ''*'')"

text \<open>setSubmitted of runQuery, with the range it was handed or the one picked.\<close>

definition submission :: "TimeRangeValue option \<Rightarrow> log_toolbar \<Rightarrow> LogSearch" where
  "submission overrideRange s =
    \<lparr>ls_query = query_or_all (tb_query s),
     ls_range = (case overrideRange of None \<Rightarrow> tb_range s | Some r \<Rightarrow> r), ls_limit = tb_limit s\<rparr>"

definition reset_bar :: "log_toolbar \<Rightarrow> log_toolbar" where
  "reset_bar s = s\<lparr>tb_query := [], tb_range := Preset R1h, tb_limit := 200, tb_ns := [], tb_pod := [], tb_container := [],
     tb_submitted := None, tb_showHistogram := False, tb_url := []\<rparr>"

text \<open>The handlers; a picker whose parent is not picked is disabled, and a row without a pod has
  no menu.\<close>

fun bar_handle :: "log_api \<Rightarrow> bar_event \<Rightarrow> log_toolbar \<Rightarrow> log_toolbar" where
  "bar_handle api (TypeQuery q) s = s\<lparr>tb_query := q\<rparr>"
| "bar_handle api (ChooseNs v) s = onPickerChange (str_of_option v) [] [] s"
| "bar_handle api (ChoosePod v) s =
    (if tb_ns s = [] then s else onPickerChange (tb_ns s) (str_of_option v) [] s)"
| "bar_handle api (ChooseContainer v) s =
    (if tb_pod s = [] then s else onPickerChange (tb_ns s) (tb_pod s) (str_of_option v) s)"
| "bar_handle api (FilterPod l) s =
    (if filled (ll_pod l) then onPickerChange (str_of_option (ll_namespace l)) (the (ll_pod l)) [] s else s)"
| "bar_handle api (ChooseRange r) s = s\<lparr>tb_range := r\<rparr>"
| "bar_handle api (ChooseLimit n) s = (if n \<in> set LIMIT_TIERS then s\<lparr>tb_limit := n\<rparr> else s)"
| "bar_handle api Submit s = s\<lparr>tb_submitted := Some (submission None s)\<rparr>"
| "bar_handle api SubmitTail s = s\<lparr>tb_submitted := Some ((submission None s)\<lparr>ls_limit := 500\<rparr>)\<rparr>"
| "bar_handle api (ZoomTo a b) s =
    s\<lparr>tb_range := Custom a b, tb_submitted := Some (submission (Some (Custom a b)) s)\<rparr>"
| "bar_handle api ResetBar s = reset_bar s"
| "bar_handle api ToggleHistogram s = s\<lparr>tb_showHistogram := \<not> tb_showHistogram s\<rparr>"
| "bar_handle api ToggleFullscreen s = s\<lparr>tb_fullscreen := \<not> tb_fullscreen s\<rparr>"
| "bar_handle api (Escape tag) s =
    (if tag = ''INPUT'' \<or> tag = ''TEXTAREA'' then s else s\<lparr>tb_fullscreen := False\<rparr>)"
| "bar_handle api NamespacesLand s =
    (if \<not> tb_nsGet s then s
     else s\<lparr>tb_nsGet := False, tb_nsLoading := False,
            tb_nsList := (case la_namespaces api of None \<Rightarrow> [] | Some ns \<Rightarrow> ns)\<rparr>)"
| "bar_handle api (PodsLand i) s =
    (case tb_podGet s of
       None \<Rightarrow> s
     | Some (j, ns) \<Rightarrow> if i \<noteq> j then s
         else s\<lparr>tb_podGet := None, tb_podLoading := False, tb_podList := pods_listed api ns\<rparr>)"
| "bar_handle api (ContainersLand i) s =
    (case tb_containerGet s of
       None \<Rightarrow> s
     | Some (j, ns, pod) \<Rightarrow> if i \<noteq> j then s
         else s\<lparr>tb_containerGet := None, tb_containerLoading := False, tb_containerList := containers_listed api ns pod\<rparr>)"
| "bar_handle api AutoRun s =
    (if \<not> tb_autorun s then s else s\<lparr>tb_autorun := False, tb_submitted := Some (submission None s)\<rparr>)"

definition bar_step :: "(int \<Rightarrow> string) \<Rightarrow> log_api \<Rightarrow> bar_event \<Rightarrow> log_toolbar \<Rightarrow> log_toolbar" where
  "bar_step toISO api e s = settle toISO (bar_handle api e s)"

subsection \<open>The bar and the streams together\<close>

record logging =
  lg_bar :: log_toolbar
  lg_page :: log_page

datatype logging_event =
    Bar bar_event
  | LiveButton
  | StopButton
  | Network log_event

fun from_network :: "log_event \<Rightarrow> bool" where
  "from_network (Batch _ _) = True"
| "from_network (StreamEnds _ _) = True"
| "from_network (HistoEnds _ _) = True"
| "from_network PollTimer = True"
| "from_network _ = False"

text \<open>The searches and resets that a handler of the bar starts; flushed are the lines that an
  aborted stream still hands over.\<close>

definition page_events :: "LogLine list \<Rightarrow> bar_event \<Rightarrow> log_toolbar \<Rightarrow> log_event list" where
  "page_events flushed e s =
    (case e of
       Submit \<Rightarrow> [RunQuery flushed]
     | ZoomTo _ _ \<Rightarrow> [RunQuery flushed]
     | SubmitTail \<Rightarrow> [StartLive flushed]
     | ResetBar \<Rightarrow> [Reset flushed]
     | AutoRun \<Rightarrow> if tb_autorun s then [RunQuery flushed] else []
     | _ \<Rightarrow> [])"

fun logging_step :: "(int \<Rightarrow> string) \<Rightarrow> log_api \<Rightarrow> logging_event \<times> LogLine list \<Rightarrow> logging \<Rightarrow> logging" where
  "logging_step toISO api (Bar e, flushed) g =
    (if e = SubmitTail \<and> lp_active (lg_page g) then g
     else \<lparr>lg_bar = bar_step toISO api e (lg_bar g), lg_page = lp_run (page_events flushed e (lg_bar g)) (lg_page g)\<rparr>)"
| "logging_step toISO api (LiveButton, flushed) g =
    (if lp_live (lg_page g) then g\<lparr>lg_page := lp_step (Stop flushed) (lg_page g)\<rparr>
     else if lp_active (lg_page g) then g
     else \<lparr>lg_bar = bar_step toISO api SubmitTail (lg_bar g), lg_page = lp_step (StartLive flushed) (lg_page g)\<rparr>)"
| "logging_step toISO api (StopButton, flushed) g = g\<lparr>lg_page := lp_step (Stop flushed) (lg_page g)\<rparr>"
| "logging_step toISO api (Network e, _) g = (if from_network e then g\<lparr>lg_page := lp_step e (lg_page g)\<rparr> else g)"

definition mount_logging :: "(int \<Rightarrow> string) \<Rightarrow> (string \<Rightarrow> int option) \<Rightarrow> string \<Rightarrow> logging" where
  "mount_logging toISO parseDate search = \<lparr>lg_bar = mount_bar toISO parseDate search, lg_page = lp_init\<rparr>"

subsection \<open>What is rendered\<close>

datatype main_button = StopShown | SearchShown

datatype results_body = NoResults | ResultRows "LogLine list"

text \<open>The histogram card: the matches in all, the label of the toggle and the chart when open.\<close>

record histo_card =
  hc_total :: jval
  hc_toggle :: string
  hc_open :: bool
  hc_spinning :: bool

record logging_view =
  lv_bar :: bool
  lv_live_label :: string
  lv_main_button :: main_button
  lv_pod_enabled :: bool
  lv_container_enabled :: bool
  lv_histo :: "histo_card option"
  lv_error :: "string option"
  lv_truncated :: "nat option"
  lv_partial :: "(nat \<times> string) option"
  lv_results :: "((string \<times> nat \<times> string) \<times> bool \<times> results_body) option"

datatype logging_screen = LoggingNotInstalled | LoggingScreen logging_view

definition error_text :: "jval \<Rightarrow> string" where
  "error_text e =
    js_String (the (coalesce (coalesce (oget ''message'' e) (opath [''response'', ''data'', ''message''] e))
      (Some (JStr ''unknown error''))))"

definition view_histo :: "log_toolbar \<Rightarrow> log_page \<Rightarrow> histo_card option" where
  "view_histo s p =
    (if tb_submitted s = None then None
     else Some \<lparr>hc_total = (if truthy (lp_histo p) then oget ''total'' (lp_histo p) else None),
                hc_toggle = (if tb_showHistogram s then ''pages.logging.histogram.hide'' else ''pages.logging.histogram.show''),
                hc_open = tb_showHistogram s,
                hc_spinning = lp_histo_loading p\<rparr>)"

text \<open>The caption: its message, the number of rows and the elapsed seconds (elapsed are the
  milliseconds of the ticker or of the summary).\<close>

definition view_results :: "rat \<Rightarrow> log_toolbar \<Rightarrow> log_page \<Rightarrow> ((string \<times> nat \<times> string) \<times> bool \<times> results_body) option" where
  "view_results elapsed s p =
    (if tb_submitted s = None then None
     else Some (((if lp_loading p then ''pages.logging.results.streaming'' else ''pages.logging.results.count''),
                 length (lp_lines p), to_fixed 1 (elapsed / 1000)),
                lp_lines p \<noteq> [],
                if lp_lines p = [] \<and> \<not> lp_loading p then NoResults else ResultRows (lp_lines p)))"

text \<open>The ticker of 200 ms: while a search loads the caption counts from its start.\<close>

definition elapsed_tick :: "rat \<Rightarrow> rat option \<Rightarrow> log_page \<Rightarrow> rat \<Rightarrow> rat" where
  "elapsed_tick now start p elapsed = (case start of None \<Rightarrow> elapsed | Some t \<Rightarrow> if lp_loading p then now - t else elapsed)"

definition LoggingPage_view :: "rat \<Rightarrow> logging \<Rightarrow> logging_screen" where
  "LoggingPage_view elapsed g =
    (let s = lg_bar g; p = lg_page g; failed = truthy (lp_error p) in
     if failed \<and> isResourceNotAvailable (lp_error p) then LoggingNotInstalled
     else LoggingScreen \<lparr>
       lv_bar = (\<not> tb_fullscreen s),
       lv_live_label = (if lp_live p then ''pages.logging.live.on'' else ''pages.logging.live.off''),
       lv_main_button = (if lp_live p \<or> lp_loading p then StopShown else SearchShown),
       lv_pod_enabled = (tb_ns s \<noteq> []),
       lv_container_enabled = (tb_pod s \<noteq> []),
       lv_histo = (if tb_fullscreen s then None else view_histo s p),
       lv_error = (if failed \<and> \<not> tb_fullscreen s then Some (error_text (lp_error p)) else None),
       lv_truncated = (if truthy (oget ''truncated'' (lp_summary p)) \<and> \<not> tb_fullscreen s
                       then Some (length (lp_lines p)) else None),
       lv_partial = (if truthy (oget ''endErr'' (lp_summary p)) \<and> \<not> tb_fullscreen s
                     then Some (length (lp_lines p), js_String (the (oget ''endErr'' (lp_summary p)))) else None),
       lv_results = view_results elapsed s p\<rparr>)"

text \<open>The probe of the mount: only the answer that the backend is missing is kept.\<close>

definition install_probe :: "jval \<Rightarrow> log_page \<Rightarrow> log_page" where
  "install_probe err p =
    (if isResourceNotAvailable err then p\<lparr>lp_summary := None, lp_error := err, lp_loading := False\<rparr> else p)"

subsection \<open>What settling leaves\<close>

lemma settle_done: "due (settle toISO s) = 0"
  by (induction toISO s rule: settle.induct) (subst settle.simps, simp)

text \<open>A property that every commit keeps holds of the settled state.\<close>

lemma settle_keeps:
  assumes "\<And>s. P s \<Longrightarrow> P (commit_bar toISO s)"
  shows "P s \<Longrightarrow> P (settle toISO s)"
proof (induction "due s" arbitrary: s rule: less_induct)
  case less
  then show ?case using assms commit_less by (subst settle.simps) simp
qed

lemma commit_frame:
  "tb_query (commit_bar toISO s) = tb_query s" "tb_range (commit_bar toISO s) = tb_range s" "tb_limit (commit_bar toISO s) = tb_limit s"
  "tb_ns (commit_bar toISO s) = tb_ns s" "tb_submitted (commit_bar toISO s) = tb_submitted s"
  "tb_autorun (commit_bar toISO s) = tb_autorun s"
  by (simp_all add: commit_bar_def effect_defs)

lemma settle_frame [simp]:
  "tb_query (settle toISO s) = tb_query s" "tb_range (settle toISO s) = tb_range s" "tb_limit (settle toISO s) = tb_limit s"
  "tb_ns (settle toISO s) = tb_ns s" "tb_submitted (settle toISO s) = tb_submitted s"
  "tb_autorun (settle toISO s) = tb_autorun s"
  using settle_keeps[of "\<lambda>t. tb_query t = tb_query s" toISO s] settle_keeps[of "\<lambda>t. tb_range t = tb_range s" toISO s]
    settle_keeps[of "\<lambda>t. tb_limit t = tb_limit s" toISO s] settle_keeps[of "\<lambda>t. tb_ns t = tb_ns s" toISO s]
    settle_keeps[of "\<lambda>t. tb_submitted t = tb_submitted s" toISO s] settle_keeps[of "\<lambda>t. tb_autorun t = tb_autorun s" toISO s]
  by (simp_all add: commit_frame)

text \<open>Lists and requests that belong to the pickers the effects last ran for.\<close>

definition pods_ok :: "log_api \<Rightarrow> log_toolbar \<Rightarrow> bool" where
  "pods_ok api s \<longleftrightarrow> (\<forall>ns. tb_seenNs s = Some ns \<longrightarrow>
     (tb_podList s = [] \<or> tb_podList s = pods_listed api ns) \<and>
     (\<forall>i m. tb_podGet s = Some (i, m) \<longrightarrow> m = ns))"

definition containers_ok :: "log_api \<Rightarrow> log_toolbar \<Rightarrow> bool" where
  "containers_ok api s \<longleftrightarrow> (\<forall>ns pod. tb_seenPod s = Some (ns, pod) \<longrightarrow>
     (tb_containerList s = [] \<or> tb_containerList s = containers_listed api ns pod) \<and>
     (\<forall>i m p. tb_containerGet s = Some (i, m, p) \<longrightarrow> m = ns \<and> p = pod))"

definition url_ok :: "(int \<Rightarrow> string) \<Rightarrow> log_toolbar \<Rightarrow> bool" where
  "url_ok toISO s \<longleftrightarrow>
     (tb_seenUrl s = Some (tb_submitted s, tb_picked s) \<longrightarrow> tb_url s = link_of toISO (tb_submitted s) (tb_picked s))"

text \<open>The effects one at a time: what each writes and what it leaves alone.\<close>

lemma pod_effect_frame:
  "tb_seenPod (pod_effect r s) = tb_seenPod s" "tb_containerList (pod_effect r s) = tb_containerList s"
  "tb_containerGet (pod_effect r s) = tb_containerGet s" "tb_seenUrl (pod_effect r s) = tb_seenUrl s"
  "tb_url (pod_effect r s) = tb_url s"
  by (simp_all add: pod_effect_def Let_def)

lemma container_effect_frame:
  "tb_seenNs (container_effect r s) = tb_seenNs s" "tb_podList (container_effect r s) = tb_podList s"
  "tb_podGet (container_effect r s) = tb_podGet s" "tb_seenUrl (container_effect r s) = tb_seenUrl s"
  "tb_url (container_effect r s) = tb_url s"
  by (simp_all add: container_effect_def Let_def)

lemma url_effect_frame:
  "tb_seenNs (url_effect toISO r s) = tb_seenNs s" "tb_podList (url_effect toISO r s) = tb_podList s"
  "tb_podGet (url_effect toISO r s) = tb_podGet s" "tb_seenPod (url_effect toISO r s) = tb_seenPod s"
  "tb_containerList (url_effect toISO r s) = tb_containerList s" "tb_containerGet (url_effect toISO r s) = tb_containerGet s"
  by (simp_all add: url_effect_def)

lemma pods_ok_cong:
  "tb_seenNs t = tb_seenNs s \<Longrightarrow> tb_podList t = tb_podList s \<Longrightarrow> tb_podGet t = tb_podGet s \<Longrightarrow>
   pods_ok api s \<Longrightarrow> pods_ok api t"
  unfolding pods_ok_def by (erule ssubst)+

lemma containers_ok_cong:
  "tb_seenPod t = tb_seenPod s \<Longrightarrow> tb_containerList t = tb_containerList s \<Longrightarrow> tb_containerGet t = tb_containerGet s \<Longrightarrow>
   containers_ok api s \<Longrightarrow> containers_ok api t"
  unfolding containers_ok_def by (erule ssubst)+

lemma pods_ok_fresh:
  "tb_seenNs t = Some ns \<Longrightarrow> tb_podList t = [] \<Longrightarrow> tb_podGet t = None \<or> tb_podGet t = Some (i, ns) \<Longrightarrow> pods_ok api t"
  by (auto simp: pods_ok_def)

lemma containers_ok_fresh:
  "tb_seenPod t = Some (ns, pod) \<Longrightarrow> tb_containerList t = [] \<Longrightarrow>
   tb_containerGet t = None \<or> tb_containerGet t = Some (i, ns, pod) \<Longrightarrow> containers_ok api t"
  by (auto simp: containers_ok_def)

lemma pods_ok_effect:
  assumes "pods_ok api s"
  shows "pods_ok api (pod_effect r s)"
proof (cases "tb_seenNs r = Some (tb_ns r)")
  case True
  then show ?thesis using assms by (simp add: pod_effect_def)
next
  case False
  then show ?thesis
    by (intro pods_ok_fresh[where ns = "tb_ns r" and i = "tb_nextGet s"]) (simp_all add: pod_effect_def Let_def)
qed

lemma containers_ok_effect:
  assumes "containers_ok api s"
  shows "containers_ok api (container_effect r s)"
proof (cases "tb_seenPod r = Some (tb_ns r, tb_pod r)")
  case True
  then show ?thesis using assms by (simp add: container_effect_def)
next
  case False
  then show ?thesis
    by (intro containers_ok_fresh[where ns = "tb_ns r" and pod = "tb_pod r" and i = "tb_nextGet s"])
      (simp_all add: container_effect_def Let_def)
qed

lemma lists_ok_commit:
  "pods_ok api s \<Longrightarrow> pods_ok api (commit_bar toISO s)"
  "containers_ok api s \<Longrightarrow> containers_ok api (commit_bar toISO s)"
proof -
  assume "pods_ok api s"
  then have "pods_ok api (pod_effect s s)" by (rule pods_ok_effect)
  then show "pods_ok api (commit_bar toISO s)"
    by (rule pods_ok_cong[rotated 3]) (simp_all add: commit_bar_def container_effect_frame url_effect_frame)
next
  assume "containers_ok api s"
  then have "containers_ok api (pod_effect s s)"
    by (rule containers_ok_cong[rotated 3]) (simp_all add: pod_effect_frame)
  then have "containers_ok api (container_effect s (pod_effect s s))" by (rule containers_ok_effect)
  then show "containers_ok api (commit_bar toISO s)"
    by (rule containers_ok_cong[rotated 3]) (simp_all add: commit_bar_def url_effect_frame)
qed

lemma url_effect_ok: "tb_seenUrl (url_effect toISO r s) = Some (tb_submitted r, tb_picked r) \<Longrightarrow>
    tb_seenUrl s = tb_seenUrl r \<Longrightarrow> tb_url s = tb_url r \<Longrightarrow> url_ok toISO r \<Longrightarrow>
    tb_url (url_effect toISO r s) = link_of toISO (tb_submitted r) (tb_picked r)"
  by (simp add: url_effect_def url_ok_def split: if_splits)

lemma url_effect_seen: "tb_seenUrl s = tb_seenUrl r \<Longrightarrow> tb_seenUrl (url_effect toISO r s) = Some (tb_submitted r, tb_picked r)"
  by (simp add: url_effect_def)

lemma url_ok_commit:
  assumes "url_ok toISO s"
  shows "url_ok toISO (commit_bar toISO s)"
proof -
  let ?t = "container_effect s (pod_effect s s)"
  have "tb_seenUrl ?t = tb_seenUrl s" "tb_url ?t = tb_url s"
    by (simp_all add: pod_effect_frame container_effect_frame)
  then show ?thesis
    using url_effect_seen[of ?t s toISO] url_effect_ok[of toISO s ?t] assms by (simp add: url_ok_def commit_bar_def)
qed

text \<open>What the handlers leave alone.\<close>

lemma handle_pods_frame:
  "\<forall>i. e \<noteq> PodsLand i \<Longrightarrow> tb_seenNs (bar_handle api e s) = tb_seenNs s \<and>
     tb_podList (bar_handle api e s) = tb_podList s \<and> tb_podGet (bar_handle api e s) = tb_podGet s"
  by (cases e) (simp_all add: onPickerChange_def reset_bar_def split: option.split)

lemma handle_containers_frame:
  "\<forall>i. e \<noteq> ContainersLand i \<Longrightarrow> tb_seenPod (bar_handle api e s) = tb_seenPod s \<and>
     tb_containerList (bar_handle api e s) = tb_containerList s \<and> tb_containerGet (bar_handle api e s) = tb_containerGet s"
  by (cases e) (simp_all add: onPickerChange_def reset_bar_def split: option.split)

lemma pods_ok_handle:
  assumes "pods_ok api s"
  shows "pods_ok api (bar_handle api e s)"
proof (cases "\<exists>i m. e = PodsLand i \<and> tb_podGet s = Some (i, m)")
  case True
  then obtain i m where "e = PodsLand i" "tb_podGet s = Some (i, m)" by blast
  moreover from this have "tb_seenNs s = Some ns \<Longrightarrow> m = ns" for ns using assms by (simp add: pods_ok_def)
  ultimately show ?thesis by (auto simp: pods_ok_def)
next
  case False
  then have "tb_seenNs (bar_handle api e s) = tb_seenNs s \<and> tb_podList (bar_handle api e s) = tb_podList s \<and>
      tb_podGet (bar_handle api e s) = tb_podGet s"
    by (cases "\<exists>i. e = PodsLand i") (auto simp: handle_pods_frame split: option.split)
  then show ?thesis using assms pods_ok_cong by blast
qed

lemma containers_ok_handle:
  assumes "containers_ok api s"
  shows "containers_ok api (bar_handle api e s)"
proof (cases "\<exists>i m p. e = ContainersLand i \<and> tb_containerGet s = Some (i, m, p)")
  case True
  then obtain i m p where "e = ContainersLand i" "tb_containerGet s = Some (i, m, p)" by blast
  moreover from this have "tb_seenPod s = Some (ns, pod) \<Longrightarrow> m = ns \<and> p = pod" for ns pod
    using assms by (simp add: containers_ok_def)
  ultimately show ?thesis by (auto simp: containers_ok_def)
next
  case False
  then have "tb_seenPod (bar_handle api e s) = tb_seenPod s \<and> tb_containerList (bar_handle api e s) = tb_containerList s \<and>
      tb_containerGet (bar_handle api e s) = tb_containerGet s"
    by (cases "\<exists>i. e = ContainersLand i") (auto simp: handle_containers_frame split: option.split)
  then show ?thesis using assms containers_ok_cong by blast
qed

lemma link_of_nothing: "link_of toISO None ([], [], []) = []"
  by (simp add: link_of_def link_params_def param_def search_params_def)

lemma handle_address: "e \<noteq> ResetBar \<Longrightarrow> tb_seenUrl (bar_handle api e s) = tb_seenUrl s \<and> tb_url (bar_handle api e s) = tb_url s"
  by (cases e) (simp_all add: onPickerChange_def split: option.split)

lemma url_ok_handle:
  assumes "url_ok toISO s" "due s = 0"
  shows "url_ok toISO (bar_handle api e s)"
proof (cases "e = ResetBar")
  case True
  then show ?thesis by (simp add: url_ok_def reset_bar_def tb_picked_def link_of_nothing)
next
  case False
  have "tb_seenUrl s = Some (tb_submitted s, tb_picked s)" using assms(2) by (simp add: due_def split: if_splits)
  then show ?thesis using assms(1) handle_address[OF False, of api s] by (simp add: url_ok_def)
qed

text \<open>The settled states: no effect is due, the lists belong to the pickers and the address to
  what was submitted and picked.\<close>

definition bar_ok :: "(int \<Rightarrow> string) \<Rightarrow> log_api \<Rightarrow> log_toolbar \<Rightarrow> bool" where
  "bar_ok toISO api s \<longleftrightarrow> due s = 0 \<and> pods_ok api s \<and> containers_ok api s \<and> url_ok toISO s"

lemma bar_ok_settle:
  "pods_ok api s \<Longrightarrow> containers_ok api s \<Longrightarrow> url_ok toISO s \<Longrightarrow> bar_ok toISO api (settle toISO s)"
  using settle_keeps[of "pods_ok api", OF lists_ok_commit(1)] settle_keeps[of "containers_ok api", OF lists_ok_commit(2)]
    settle_keeps[of "url_ok toISO", OF url_ok_commit]
  by (simp add: bar_ok_def settle_done)

lemma bar_ok_step: "bar_ok toISO api s \<Longrightarrow> bar_ok toISO api (bar_step toISO api e s)"
  unfolding bar_step_def by (rule bar_ok_settle) (simp_all add: bar_ok_def pods_ok_handle containers_ok_handle url_ok_handle)

text \<open>The first commit in one equation.\<close>

lemma mount_bar_eq:
  "mount_bar toISO parseDate search =
    settle toISO (hydrate parseDate search ((tb_init search)\<lparr>tb_nsLoading := True, tb_nsGet := True,
      tb_seenNs := Some [], tb_seenPod := Some ([], []), tb_seenUrl := Some (None, [], [], []), tb_url := []\<rparr>))"
proof -
  let ?s = "tb_init search"
  have picked: "container_effect ?s (pod_effect ?s (?s\<lparr>tb_nsLoading := True, tb_nsGet := True\<rparr>)) =
      ?s\<lparr>tb_nsLoading := True, tb_nsGet := True, tb_seenNs := Some [], tb_seenPod := Some ([], [])\<rparr>"
    by (simp add: tb_init_def effect_defs)
  have url: "url_effect toISO ?s t = t\<lparr>tb_seenUrl := Some (None, [], [], []), tb_url := []\<rparr>" for t
    by (simp add: tb_init_def url_effect_def tb_picked_def link_of_nothing)
  show ?thesis unfolding mount_bar_def Let_def picked url by (simp add: hydrate_def tb_init_def Let_def cong: option.case_cong)
qed

lemma bar_ok_mount: "bar_ok toISO api (mount_bar toISO parseDate search)"
  unfolding mount_bar_eq
  by (rule bar_ok_settle)
    (auto simp: pods_ok_def containers_ok_def url_ok_def hydrate_def tb_init_def tb_picked_def Let_def link_of_nothing)

lemma bar_ok_run: "bar_ok toISO api s \<Longrightarrow> bar_ok toISO api (fold (bar_step toISO api) es s)"
  by (induction es arbitrary: s) (simp_all add: bar_ok_step)

text \<open>C40. After any use of the bar, whatever order the lists of pods and containers landed in: the pod
  list is that of the picked namespace or empty, the container list that of the picked pod, and
  the address is the link to what was submitted and picked.\<close>

theorem lists_and_link_follow_the_bar:
  "let s = fold (bar_step toISO api) es (mount_bar toISO parseDate search) in
   (tb_podList s = [] \<or> tb_podList s = pods_listed api (tb_ns s)) \<and>
   (tb_containerList s = [] \<or> tb_containerList s = containers_listed api (tb_ns s) (tb_pod s)) \<and>
   tb_url s = link_of toISO (tb_submitted s) (tb_picked s)"
  using bar_ok_run[OF bar_ok_mount, of toISO api es parseDate search]
  by (auto simp: Let_def bar_ok_def due_def pods_ok_def containers_ok_def url_ok_def split: if_splits)

subsection \<open>The link both ways\<close>

text \<open>The ranges the picker of this page offers, and their dates.\<close>

fun offered_range :: "TimeRangeValue \<Rightarrow> bool" where
  "offered_range (Preset p) = (p \<in> set [R1h, R24h, R7d, R30d])"
| "offered_range _ = True"

fun range_dates :: "TimeRangeValue \<Rightarrow> int list" where
  "range_dates (Preset _) = []"
| "range_dates (Custom a b) = [a, b]"
| "range_dates (SinceNow a) = [a]"

definition date_survives :: "(int \<Rightarrow> string) \<Rightarrow> (string \<Rightarrow> int option) \<Rightarrow> int \<Rightarrow> bool" where
  "date_survives toISO parseDate d \<longleftrightarrow> toISO d \<noteq> [] \<and> parseDate (toISO d) = Some d"

text \<open>Whether the link alone makes the page search again.\<close>

definition link_searches :: "LogSearch \<Rightarrow> bool" where
  "link_searches l \<longleftrightarrow> ls_query l \<noteq> ''*'' \<or> ls_limit l \<noteq> 200 \<or> (\<forall>d. ls_range l \<noteq> SinceNow d)"

lemma parse_link: "parse_search (link_of toISO (Some l) p) = link_params toISO (Some l) p"
proof -
  have ne: "link_params toISO (Some l) p \<noteq> []" by (cases "ls_range l") (simp_all add: link_params_def split: prod.split)
  then have "search_params (link_params toISO (Some l) p) \<noteq> []"
    by (cases "link_params toISO (Some l) p" rule: list.exhaust; cases "tl (link_params toISO (Some l) p)")
      (auto simp: search_params_def)
  then show ?thesis using parse_search_params[OF ne] by (simp add: link_of_def Let_def)
qed

lemma link_lookup:
  fixes toISO l ns pod container
  defines "sp \<equiv> map_of (link_params toISO (Some l) (ns, pod, container))"
  assumes "ls_query l \<noteq> []" "0 < ls_limit l"
  shows "sp ''q'' = (if ls_query l = ''*'' then None else Some (ls_query l))"
    "sp ''limit'' = (if ls_limit l = 200 then None else Some (show_nat (ls_limit l)))"
    "sp ''ns'' = (if ns = [] then None else Some ns)"
    "sp ''pod'' = (if pod = [] then None else Some pod)"
    "sp ''container'' = (if container = [] then None else Some container)"
    "sp ''range'' = (case ls_range l of Preset r \<Rightarrow> Some (preset_name r) | _ \<Rightarrow> None)"
    "sp ''from'' = (case ls_range l of Custom a _ \<Rightarrow> Some (toISO a) | SinceNow a \<Rightarrow> Some (toISO a) | _ \<Rightarrow> None)"
    "sp ''to'' = (case ls_range l of Custom _ b \<Rightarrow> Some (toISO b) | _ \<Rightarrow> None)"
    "sp ''sinceNow'' = (case ls_range l of SinceNow _ \<Rightarrow> Some ''1'' | _ \<Rightarrow> None)"
  using assms(2,3) unfolding sp_def link_params_def param_def by (cases "ls_range l"; simp)+

lemma range_key_name: "range_key (Some (preset_name p)) = (if p \<in> set [R1h, R24h, R7d, R30d] then Some p else None)"
  by (cases p) (simp_all add: range_key_def)

lemma range_key_None: "range_key None = None"
  by (simp add: range_key_def)

lemma read_range_link:
  assumes "ls_query l \<noteq> []" "0 < ls_limit l" "offered_range (ls_range l)"
    and "list_all (date_survives toISO parseDate) (range_dates (ls_range l))"
  shows "read_range parseDate (map_of (link_params toISO (Some l) (ns, pod, container))) old = ls_range l"
  using assms(3,4) unfolding read_range_def link_lookup[OF assms(1,2)]
  by (cases "ls_range l") (auto simp: range_key_name range_key_None date_survives_def)

lemma parse_int_show_nat: "parse_int (show_nat n) = Some (int n)"
proof -
  have ds: "list_all is_digit (show_nat n)" "show_nat n \<noteq> []" "list_all (\<lambda>c. \<not> is_ws c) (show_nat n)"
    using show_nat_digits[of n] by auto
  then obtain c cs where c: "show_nat n = c # cs" by (cases "show_nat n") auto
  with ds have "is_digit c" "\<not> is_ws c" by simp_all
  then have "c \<noteq> CHR ''-''" "c \<noteq> CHR ''+''" by (auto simp: is_digit_def)
  moreover have "dropWhile is_ws (show_nat n) = show_nat n" using \<open>\<not> is_ws c\<close> c by simp
  moreover have "takeWhile is_digit (show_nat n) = show_nat n" using ds(1) by (simp add: list_all_iff)
  ultimately show ?thesis using ds(2) c nat_of_digits_show[of n] by (simp add: parse_int_def Let_def)
qed

lemma read_limit_link:
  assumes "0 < n"
  shows "read_limit (if n = 200 then None else Some (show_nat n)) 200 = n"
  using assms show_nat_digits[of n] by (simp add: read_limit_def parse_int_show_nat)

lemma query_or_all_again: "query_or_all (if query_or_all q = ''*'' then [] else query_or_all q) = query_or_all q"
  by (auto simp: query_or_all_def)

lemma link_autorun:
  assumes "ls_query l \<noteq> []" "0 < ls_limit l" "list_all (date_survives toISO parseDate) (range_dates (ls_range l))"
  shows "(let sp = map_of (link_params toISO (Some l) (ns, pod, container)) in
      filled (sp ''q'') \<or> filled (sp ''range'') \<or> (filled (sp ''from'') \<and> filled (sp ''to'')) \<or> filled (sp ''limit'')) =
    link_searches l"
proof -
  have "preset_name p \<noteq> []" for p by (cases p) simp_all
  moreover have "show_nat n \<noteq> []" for n using show_nat_digits[of n] by simp
  ultimately show ?thesis
    using assms(1,3) unfolding Let_def link_lookup[OF assms(1,2)] link_searches_def
    by (cases "ls_range l") (simp_all add: date_survives_def)
qed

text \<open>C39. The link to a search that was submitted, with the pickers of the time, opens the page on
  that search: submitting it again without touching anything is the same query, range and
  limit, the namespace is picked, and the page submits it by itself unless the link has
  nothing but the start of a range that runs to now.\<close>

theorem link_reopens_the_search:
  assumes "ls_query l = query_or_all q" "0 < ls_limit l" "offered_range (ls_range l)"
    and "list_all (date_survives toISO parseDate) (range_dates (ls_range l))"
  shows "let s = mount_bar toISO parseDate (link_of toISO (Some l) (ns, pod, container)) in
    submission None s = l \<and> tb_ns s = ns \<and>
    tb_submitted (bar_step toISO api AutoRun s) = (if link_searches l then Some l else None)"
proof -
  let ?link = "link_of toISO (Some l) (ns, pod, container)"
  define s where "s = mount_bar toISO parseDate ?link"
  have ne: "ls_query l \<noteq> []" using assms(1) by (simp add: query_or_all_def)
  note sp = link_lookup[OF ne assms(2)]
  have s: "tb_query s = (if ls_query l = ''*'' then [] else ls_query l)" "tb_range s = ls_range l"
    "tb_limit s = ls_limit l" "tb_ns s = ns" "tb_submitted s = None" "tb_autorun s = link_searches l"
    using read_limit_link[OF assms(2)] read_range_link[OF ne assms(2-4)] link_autorun[OF ne assms(2,4), of ns pod container]
    unfolding s_def mount_bar_eq
    by (simp_all add: hydrate_def parse_link tb_init_def Let_def sp filled_or_def split: option.split)
  have "query_or_all (tb_query s) = ls_query l" unfolding s(1) assms(1) by (rule query_or_all_again)
  then have "submission None s = l" using s by (cases l) (simp add: submission_def)
  then show ?thesis
    using s by (simp add: s_def[symmetric] Let_def bar_step_def)
qed

theorem link_reopens_the_search_witness:
  "let toISO = (\<lambda>d. if d = 0 then ''1970-01-01T00:00:00.000Z'' else ''1970-01-01T00:01:00.000Z'');
       parseDate = (\<lambda>t. if t = ''1970-01-01T00:00:00.000Z'' then Some 0
                        else if t = ''1970-01-01T00:01:00.000Z'' then Some 60000 else None);
       l = \<lparr>ls_query = ''level:error & x'', ls_range = Custom 0 60000, ls_limit = 500\<rparr>;
       api = \<lparr>la_namespaces = None, la_pods = \<lambda>_. None, la_pod = \<lambda>_ _. None\<rparr>;
       s = mount_bar toISO parseDate (link_of toISO (Some l) (''default'', [], []))
   in submission None s = l \<and> tb_ns s = ''default'' \<and> tb_submitted (bar_step toISO api AutoRun s) = Some l"
proof -
  let ?toISO = "\<lambda>d::int. if d = 0 then ''1970-01-01T00:00:00.000Z'' else ''1970-01-01T00:01:00.000Z''"
  let ?parseDate = "\<lambda>t. if t = ''1970-01-01T00:00:00.000Z'' then Some (0::int)
                        else if t = ''1970-01-01T00:01:00.000Z'' then Some 60000 else None"
  let ?l = "\<lparr>ls_query = ''level:error & x'', ls_range = Custom 0 60000, ls_limit = 500\<rparr>"
  have "ls_query ?l = query_or_all ''level:error & x''" by code_simp
  moreover have "list_all (date_survives ?toISO ?parseDate) (range_dates (ls_range ?l))" by (simp add: date_survives_def)
  moreover have "link_searches ?l" by (simp add: link_searches_def)
  ultimately show ?thesis
    using link_reopens_the_search[of ?l "''level:error & x''" ?toISO ?parseDate "''default''" "[]" "[]"] by (simp add: Let_def)
qed

text \<open>The pod and the container of a link that names a namespace do not survive the mount: the
  effects for the namespace clear them, and the address that is then written has neither.\<close>

lemma settle_pod: "tb_seenNs s \<noteq> Some (tb_ns s) \<Longrightarrow> tb_pod (settle toISO s) = []"
proof -
  assume "tb_seenNs s \<noteq> Some (tb_ns s)"
  then have "due s \<noteq> 0" "tb_pod (commit_bar toISO s) = []" "tb_seenNs (commit_bar toISO s) = Some (tb_ns (commit_bar toISO s))"
    by (simp_all add: due_def commit_bar_def effect_defs)
  moreover have "tb_pod t = [] \<and> tb_seenNs t = Some (tb_ns t) \<Longrightarrow>
      tb_pod (commit_bar toISO t) = [] \<and> tb_seenNs (commit_bar toISO t) = Some (tb_ns (commit_bar toISO t))" for t
    by (simp add: commit_bar_def effect_defs)
  then have "tb_pod (commit_bar toISO s) = [] \<and> tb_seenNs (commit_bar toISO s) = Some (tb_ns (commit_bar toISO s)) \<Longrightarrow>
      tb_pod (settle toISO (commit_bar toISO s)) = [] \<and>
      tb_seenNs (settle toISO (commit_bar toISO s)) = Some (tb_ns (settle toISO (commit_bar toISO s)))"
    by (rule settle_keeps)
  ultimately show ?thesis by (subst settle.simps) simp
qed

lemma link_loses_the_pod:
  assumes "ls_query l \<noteq> []" "0 < ls_limit l" "ns \<noteq> []"
  shows "tb_pod (mount_bar toISO parseDate (link_of toISO (Some l) (ns, pod, container))) = []"
  unfolding mount_bar_eq
  by (rule settle_pod) (use assms in \<open>simp add: hydrate_def parse_link link_lookup tb_init_def Let_def filled_or_def\<close>)

text \<open>Filtering by the pod of a row in another namespace blanks the pod picker, though the query
  names the pod.\<close>

lemma filter_in_other_namespace_blanks_the_pod:
  assumes "due s = 0" "filled (ll_pod l)" "str_of_option (ll_namespace l) \<noteq> tb_ns s"
  shows "tb_pod (bar_step toISO api (FilterPod l) s) = []"
  unfolding bar_step_def
  by (rule settle_pod) (use assms in \<open>auto simp: onPickerChange_def due_def split: if_splits\<close>)

text \<open>A picker cleared while its list is loading shows its spinner from then on: the request is
  dropped with the effect, and the new effect ends before it touches the flag.\<close>

lemma cleared_namespace_keeps_spinning:
  assumes "due s = 0" "tb_podLoading s" "tb_ns s \<noteq> []"
  shows "let t = bar_step toISO api (ChooseNs None) s in tb_podLoading t \<and> tb_podGet t = None"
proof -
  let ?P = "\<lambda>t. tb_ns t = [] \<and> tb_podLoading t \<and> (tb_seenNs t = Some [] \<longrightarrow> tb_podGet t = None)"
  let ?h = "bar_handle api (ChooseNs None) s"
  have "?P (commit_bar toISO t)" if "?P t" for t using that by (simp add: commit_bar_def effect_defs)
  moreover have "?P ?h" using assms by (simp add: onPickerChange_def str_of_option_def due_def split: if_splits)
  ultimately have "?P (settle toISO ?h)" by (rule settle_keeps)
  moreover have "tb_seenNs (settle toISO ?h) = Some (tb_ns (settle toISO ?h))"
    using settle_done[of toISO ?h] by (simp add: due_def split: if_splits)
  ultimately show ?thesis by (simp add: bar_step_def Let_def)
qed

subsection \<open>What the page shows was submitted\<close>

definition unstarted :: "log_page \<Rightarrow> bool" where
  "unstarted p \<longleftrightarrow> lp_lines p = [] \<and> lp_streams p = [] \<and> \<not> lp_loading p"

fun tail_free :: "logging_event \<Rightarrow> bool" where
  "tail_free (Bar SubmitTail) = False"
| "tail_free LiveButton = False"
| "tail_free _ = True"

lemma unstarted_stop: "sole p \<Longrightarrow> unstarted p \<Longrightarrow> unstarted (lp_step (Stop fl) p)"
  by (simp add: unstarted_def stopLiveTail_def abort_current_def split: option.split)

lemma unstarted_reset: "sole p \<Longrightarrow> unstarted (lp_step (Reset fl) p)"
  using abort_sole[of "p\<lparr>lp_active := False\<rparr>" fl] by (simp add: unstarted_def onReset_def sole_def)

lemma manual_ends_loading: "\<not> lp_loading p \<Longrightarrow> \<not> lp_loading (manual_ends c x p)"
  by (auto simp: manual_ends_def release_def split: option.splits stream_end.splits)

lemma unstarted_network:
  assumes "sole p" "unstarted p" "from_network e"
  shows "unstarted (lp_step e p)"
proof (cases e)
  case (StreamEnds c x)
  then show ?thesis
    using assms by (simp add: ends_sole unstarted_def manual_ends_frame manual_ends_loading)
next
  case PollTimer
  then show ?thesis using assms by (simp add: unstarted_def livePoll_def sole_def)
qed (use assms in \<open>simp_all add: unstarted_def\<close>)

text \<open>The page events of a handler are searches without a tail, and none unless it submits or
  resets.\<close>

lemma page_events_no_tail: "e \<noteq> SubmitTail \<Longrightarrow> list_all no_tail (page_events fl e s)"
  by (cases e) (simp_all add: page_events_def)

lemma submitted_step:
  assumes "tb_submitted (bar_step toISO api e s) = None" "e \<noteq> ResetBar"
  shows "tb_submitted s = None \<and> page_events fl e s = []"
  using assms by (cases e) (auto simp: bar_step_def onPickerChange_def page_events_def split: option.splits if_splits)

definition shown_ok :: "logging \<Rightarrow> bool" where
  "shown_ok g \<longleftrightarrow> sole (lg_page g) \<and> (tb_submitted (lg_bar g) = None \<longrightarrow> unstarted (lg_page g))"

lemma shown_ok_bar:
  assumes "shown_ok g" "e \<noteq> SubmitTail"
  shows "shown_ok (logging_step toISO api (Bar e, fl) g)"
proof (cases "e = ResetBar")
  case True
  then show ?thesis
    using assms sole_step[of "lg_page g" "Reset fl"] unstarted_reset[of "lg_page g" fl] by (simp add: shown_ok_def page_events_def)
next
  case False
  have "sole (lp_run (page_events fl e (lg_bar g)) (lg_page g))"
    using assms(1) page_events_no_tail[OF assms(2)] by (simp add: shown_ok_def sole_runs)
  then show ?thesis using assms submitted_step[OF _ False, of toISO api "lg_bar g" fl] by (auto simp: shown_ok_def)
qed

lemma shown_ok_step: "shown_ok g \<Longrightarrow> tail_free (fst x) \<Longrightarrow> shown_ok (logging_step toISO api x g)"
proof -
  assume ok: "shown_ok g" and free: "tail_free (fst x)"
  obtain e fl where x: "x = (e, fl)" by (cases x)
  show ?thesis
  proof (cases e)
    case (Bar b)
    moreover from this have "b \<noteq> SubmitTail" using free x by auto
    ultimately show ?thesis using shown_ok_bar[OF ok] x by simp
  next
    case LiveButton
    then show ?thesis using free x by simp
  next
    case StopButton
    then show ?thesis
      using ok sole_step[of "lg_page g" "Stop fl"] unstarted_stop[of "lg_page g" fl] x by (simp add: shown_ok_def)
  next
    case (Network n)
    moreover have "from_network n \<Longrightarrow> no_tail n" by (cases n) simp_all
    ultimately show ?thesis
      using ok sole_step[of "lg_page g" n] unstarted_network[of "lg_page g" n] x by (simp add: shown_ok_def)
  qed
qed

text \<open>Without a live tail, in whatever order clicks, batches and the ends of streams come: as long
  as nothing is submitted, on a fresh page and again after a reset, no stream is open, nothing
  loads and no line is held, whatever an aborted stream still hands over.\<close>

theorem nothing_runs_unsubmitted:
  assumes "list_all (\<lambda>x. tail_free (fst x)) xs"
    and "tb_submitted (lg_bar (fold (logging_step toISO api) xs (mount_logging toISO parseDate search))) = None"
  shows "unstarted (lg_page (fold (logging_step toISO api) xs (mount_logging toISO parseDate search)))"
proof -
  have "shown_ok g \<Longrightarrow> shown_ok (fold (logging_step toISO api) xs g)" for g
    using assms(1) by (induction xs arbitrary: g) (simp_all add: shown_ok_step)
  moreover have "shown_ok (mount_logging toISO parseDate search)"
    by (simp add: shown_ok_def mount_logging_def unstarted_def lp_init_def[symmetric]) (simp add: lp_init_def)
  ultimately show ?thesis using assms(2) by (simp add: shown_ok_def)
qed

theorem nothing_runs_unsubmitted_witness:
  "let line = \<lparr>ll_time = ''t'', ll_message = ''m'', ll_stream = None, ll_namespace = None, ll_pod = None,
                ll_container = None, ll_node = None, ll_fields = None\<rparr>;
       api = \<lparr>la_namespaces = None, la_pods = \<lambda>_. None, la_pod = \<lambda>_ _. None\<rparr>;
       g = mount_logging (\<lambda>_. ''t'') (\<lambda>_. None) [];
       g1 = fold (logging_step (\<lambda>_. ''t'') api) [(Bar Submit, []), (Network (Batch 0 [line]), [])] g
   in lp_lines (lg_page g1) = [line] \<and> unstarted (lg_page (logging_step (\<lambda>_. ''t'') api (Bar ResetBar, [line]) g1))"
proof -
  let ?line = "\<lparr>ll_time = ''t'', ll_message = ''m'', ll_stream = None, ll_namespace = None, ll_pod = None,
                ll_container = None, ll_node = None, ll_fields = None\<rparr> :: LogLine"
  let ?api = "\<lparr>la_namespaces = None, la_pods = \<lambda>_. None, la_pod = \<lambda>_ _. None\<rparr> :: log_api"
  let ?g = "mount_logging (\<lambda>_. ''t'') (\<lambda>_. None) []"
  let ?xs = "[(Bar Submit, []), (Network (Batch 0 [?line]), []), (Bar ResetBar, [?line])]"
  have "lp_lines (lg_page (fold (logging_step (\<lambda>_. ''t'') ?api) [(Bar Submit, []), (Network (Batch 0 [?line]), [])] ?g)) = [?line]"
    by (simp add: mount_logging_def lp_init_def page_events_def runQuery_def abort_current_def open_stream_def
        open_histogram_def on_line_def)
  moreover have "tb_submitted (lg_bar (fold (logging_step (\<lambda>_. ''t'') ?api) ?xs ?g)) = None"
    by (simp add: bar_step_def reset_bar_def)
  then have "unstarted (lg_page (fold (logging_step (\<lambda>_. ''t'') ?api) ?xs ?g))"
    using nothing_runs_unsubmitted[of ?xs "\<lambda>_. ''t''" ?api "\<lambda>_. None" "[]"] by simp
  ultimately show ?thesis by (simp add: Let_def)
qed

end
